(* ===== verification/Prelude.thy ===== *)
theory Prelude
  imports Main "HOL-Library.AList" "HOL-Library.Multiset"
begin

text \<open>
  The vocabulary the component theories share: the error classes of the program and the
  result type a throwing function returns, sequencing and loops over results, JavaScript
  numbers that are used as integers, insertion-ordered maps (association lists, as a
  JavaScript Map iterates in insertion order), the loop that accumulates values per key
  of such a map, and the stable sort of Array.prototype.sort.
\<close>

section \<open>Results\<close>

text \<open>
  One constructor per error class of the invoicing module; the argument is the message.
  \<open>AuthorizationError\<close> comes from the permissions package, \<open>SqliteError\<close> is a statement the
  database refuses because of a constraint or a trigger of the schema.
\<close>

datatype eky_error =
    InvoiceCalculationError string
  | InvoiceCreditError string
  | InvoiceNumberingError string
  | InvoiceDraftValidationError string
  | InvoiceVatRatesError string
  | InvoicePaymentSettingsError string
  | InvoicePaymentSettingsApplicationError string
  | InvoiceDocumentIntegrityError
  | InvoiceContentRevisionIntegrityError
  | ReserveInvoiceNumberError string
  | ApproveInvoiceDraftError string
  | InvoiceDeliveryConflictError
  | InvoiceLegacyDeliveryReviewRequiredError
  | InvoiceEmailSendAttemptError string
  | InvoiceDeliveryEventValidationError string
  | InvoiceNumberingSeriesError string string
  | InvoiceNumberingSettingsError string
  | InvoiceSettingsAuditWriteError
  | InvoiceCreditConflictError
  | InvoiceDraftNotFoundError
  | ApprovedInvoiceNotFoundError
  | InvoicePaymentConflictError
  | InvoicePaymentDateError
  | InvoiceCancellationConflictError
  | InvoiceCancellationConfirmationError
  | AuthorizationError
  | ActorContextValidationError string
  | CustomerValidationError string
  | CompanySettingsValidationError string
  | SqliteError string
  | GenericError string

type_synonym 'a result = "eky_error + 'a"

named_theorems result_simps \<open>inversion of sequenced results\<close>

definition andThen :: "'e + 'a \<Rightarrow> ('a \<Rightarrow> 'e + 'b) \<Rightarrow> 'e + 'b" where
  "andThen m k = (case m of Inl e \<Rightarrow> Inl e | Inr x \<Rightarrow> k x)"

lemma andThen_Inl [simp]: "andThen (Inl e) k = Inl e"
  by (simp add: andThen_def)

lemma andThen_Inr [simp]: "andThen (Inr x) k = k x"
  by (simp add: andThen_def)

lemma andThen_eq_Inr [result_simps]:
  "andThen m k = Inr y \<longleftrightarrow> (\<exists>x. m = Inr x \<and> k x = Inr y)"
  by (cases m) auto

lemma andThen_eq_Inl [result_simps]:
  "andThen m k = Inl e \<longleftrightarrow> m = Inl e \<or> (\<exists>x. m = Inr x \<and> k x = Inl e)"
  by (cases m) auto

lemma andThen_cong [fundef_cong]:
  "m = m' \<Longrightarrow> (\<And>x. m' = Inr x \<Longrightarrow> k x = k' x) \<Longrightarrow> andThen m k = andThen m' k'"
  by (cases m') auto

lemma andThen_assoc: "andThen (andThen m k) h = andThen m (\<lambda>x. andThen (k x) h)"
  by (cases m) auto

definition ensure :: "bool \<Rightarrow> 'e \<Rightarrow> 'e + unit" where
  "ensure ok e = (if ok then Inr () else Inl e)"

lemma ensure_eq_Inr [simp]: "ensure ok e = Inr u \<longleftrightarrow> ok"
  by (simp add: ensure_def)

lemma ensure_eq_Inl [simp]: "ensure ok e = Inl e' \<longleftrightarrow> \<not> ok \<and> e' = e"
  by (auto simp: ensure_def)

lemma ensure_True [simp]: "ensure True e = Inr ()"
  by simp

lemma if_Inl_eq_Inr [result_simps]: "(if c then Inl e else m) = Inr y \<longleftrightarrow> \<not> c \<and> m = Inr y"
  by simp

definition succeeds :: "'e + 'a \<Rightarrow> bool" where
  "succeeds m = (case m of Inl _ \<Rightarrow> False | Inr _ \<Rightarrow> True)"

lemma succeeds_simps [simp]: "succeeds (Inr x)" "\<not> succeeds (Inl e)"
  by (simp_all add: succeeds_def)

lemma succeeds_iff: "succeeds m \<longleftrightarrow> (\<exists>x. m = Inr x)"
  by (cases m) simp_all

lemma succeeds_andThen:
  "succeeds (andThen m k) \<longleftrightarrow> (\<exists>x. m = Inr x \<and> succeeds (k x))"
  by (cases m) auto

subsection \<open>Loops over lists\<close>

text \<open>A map whose callback may throw, and a loop over a state whose body may throw.\<close>

fun mapR :: "('a \<Rightarrow> 'e + 'b) \<Rightarrow> 'a list \<Rightarrow> 'e + 'b list" where
  "mapR f [] = Inr []"
| "mapR f (x # xs) = andThen (f x) (\<lambda>y. andThen (mapR f xs) (\<lambda>ys. Inr (y # ys)))"

fun foldR :: "('s \<Rightarrow> 'a \<Rightarrow> 'e + 's) \<Rightarrow> 's \<Rightarrow> 'a list \<Rightarrow> 'e + 's" where
  "foldR f s [] = Inr s"
| "foldR f s (x # xs) = andThen (f s x) (\<lambda>s'. foldR f s' xs)"

fun eachR :: "('a \<Rightarrow> 'e + unit) \<Rightarrow> 'a list \<Rightarrow> 'e + unit" where
  "eachR f [] = Inr ()"
| "eachR f (x # xs) = andThen (f x) (\<lambda>_. eachR f xs)"

lemma mapR_eq_Inr: "mapR f xs = Inr ys \<longleftrightarrow> list_all2 (\<lambda>x y. f x = Inr y) xs ys"
  by (induction xs arbitrary: ys) (auto simp: result_simps list_all2_Cons1)

lemma list_all2_functional:
  "list_all2 (\<lambda>x y. P x \<and> y = g x) xs ys \<longleftrightarrow> (\<forall>x \<in> set xs. P x) \<and> ys = map g xs"
  by (induction xs arbitrary: ys) (auto simp: list_all2_Cons1)

lemma list_all2_iff_cong:
  assumes "\<And>x y. x \<in> set xs \<Longrightarrow> P x y \<longleftrightarrow> Q x y"
  shows "list_all2 P xs ys \<longleftrightarrow> list_all2 Q xs ys"
  using assms by (induction xs arbitrary: ys) (auto simp: list_all2_Cons1)

lemma list_all2_mem_left:
  assumes "list_all2 P xs ys" "x \<in> set xs"
  shows "\<exists>y \<in> set ys. P x y"
  using assms by (induction xs ys rule: list_all2_induct) auto

lemma list_all2_mem_right:
  assumes "list_all2 P xs ys" "y \<in> set ys"
  shows "\<exists>x \<in> set xs. P x y"
  using assms by (induction xs ys rule: list_all2_induct) auto

lemma mapR_functional:
  assumes "\<And>x y. x \<in> set xs \<Longrightarrow> f x = Inr y \<longleftrightarrow> P x \<and> y = g x"
  shows "mapR f xs = Inr ys \<longleftrightarrow> (\<forall>x \<in> set xs. P x) \<and> ys = map g xs"
  unfolding mapR_eq_Inr list_all2_functional [symmetric]
  by (rule list_all2_iff_cong) (rule assms)

lemma mapR_length: "mapR f xs = Inr ys \<Longrightarrow> length ys = length xs"
  by (auto simp: mapR_eq_Inr dest: list_all2_lengthD)

lemma mapR_set:
  assumes "mapR f xs = Inr ys" and "y \<in> set ys"
  shows "\<exists>x \<in> set xs. f x = Inr y"
  using assms by (induction xs arbitrary: ys) (auto simp: result_simps)

lemma mapR_set_src:
  assumes "mapR f xs = Inr ys" and "x \<in> set xs"
  shows "\<exists>y \<in> set ys. f x = Inr y"
  using assms by (induction xs arbitrary: ys) (auto simp: result_simps)

lemma mapR_map:
  assumes "mapR f xs = Inr ys" and "\<And>x y. x \<in> set xs \<Longrightarrow> f x = Inr y \<Longrightarrow> h y = g x"
  shows "map h ys = map g xs"
  using assms
  by (auto simp: mapR_eq_Inr list_all2_conv_all_nth list_eq_iff_nth_eq)

lemma mapR_total:
  assumes "\<And>x. x \<in> set xs \<Longrightarrow> f x = Inr (g x)"
  shows "mapR f xs = Inr (map g xs)"
  using assms by (induction xs) auto

lemma mapR_cong:
  assumes "xs = ys" and "\<And>x. x \<in> set ys \<Longrightarrow> f x = g x"
  shows "mapR f xs = mapR g ys"
  using assms(2) unfolding assms(1) by (induction ys) auto

lemma mapR_map_src: "mapR f (map g xs) = mapR (\<lambda>x. f (g x)) xs"
  by (induction xs) auto

lemma mapR_if:
  "mapR (\<lambda>x. if ok x then Inr (g x) else Inl (e x)) xs = Inr ys \<longleftrightarrow>
     (\<forall>x \<in> set xs. ok x) \<and> ys = map g xs"
  by (induction xs arbitrary: ys) (auto simp: result_simps)

lemma mapR_option:
  "mapR (\<lambda>x. case f x of None \<Rightarrow> Inl e | Some y \<Rightarrow> Inr y) xs = Inr ys \<longleftrightarrow>
     list_all2 (\<lambda>x y. f x = Some y) xs ys"
  unfolding mapR_eq_Inr by (rule list_all2_iff_cong) (simp split: option.split)

lemma mapR_Inr [simp]: "mapR (\<lambda>x. Inr (g x)) xs = Inr (map g xs)"
  by (rule mapR_total) simp

lemma succeeds_mapR: "succeeds (mapR f xs) \<longleftrightarrow> (\<forall>x \<in> set xs. succeeds (f x))"
  by (induction xs) (auto simp: succeeds_andThen succeeds_iff result_simps)

lemma eachR_eq_Inr [result_simps]: "eachR f xs = Inr u \<longleftrightarrow> (\<forall>x \<in> set xs. f x = Inr ())"
  by (induction xs) (auto simp: result_simps)

lemma foldR_append: "foldR f s (xs @ ys) = andThen (foldR f s xs) (\<lambda>s'. foldR f s' ys)"
  by (induction xs arbitrary: s) (auto simp: andThen_assoc)

lemma foldR_invariant:
  assumes "foldR f s xs = Inr s'" and "I s"
    and "\<And>s x s'. x \<in> set xs \<Longrightarrow> I s \<Longrightarrow> f s x = Inr s' \<Longrightarrow> I s'"
  shows "I s'"
  using assms by (induction xs arbitrary: s) (auto simp: result_simps)

section \<open>JavaScript numbers used as integers\<close>

text \<open>
  A JavaScript number is an IEEE double. The program uses numbers as integers only and
  tests them with Number.isSafeInteger before computing with them; that test answers
  false for a fraction, an infinity or NaN exactly as it does for an integer of magnitude
  \<open>2 ^ 53\<close> or more, so a number is modelled as an \<open>int\<close>, any unsafe one standing for all
  the values the test refuses. Sums and differences of two safe integers can leave the
  safe range, where doubles are the even integers only; \<open>jsRound\<close> is that rounding (to
  nearest, ties to even), so the guards the code puts after an addition see the value
  the machine computes.
\<close>

type_synonym number = int

definition MAX_SAFE_INTEGER :: int where
  "MAX_SAFE_INTEGER = 9007199254740991"

definition isSafeInteger :: "number \<Rightarrow> bool" where
  "isSafeInteger n \<longleftrightarrow> \<bar>n\<bar> \<le> MAX_SAFE_INTEGER"

definition jsRound :: "int \<Rightarrow> number" where
  "jsRound n =
     (if \<bar>n\<bar> \<le> 9007199254740992 then n
      else if even n then n
      else if n mod 4 = 1 then n - 1 else n + 1)"

definition jsAdd :: "number \<Rightarrow> number \<Rightarrow> number" where
  "jsAdd a b = jsRound (a + b)"

definition jsSub :: "number \<Rightarrow> number \<Rightarrow> number" where
  "jsSub a b = jsRound (a - b)"

lemma isSafeInteger_jsRound [simp]: "isSafeInteger (jsRound n) \<longleftrightarrow> isSafeInteger n"
  by (auto simp: isSafeInteger_def jsRound_def MAX_SAFE_INTEGER_def)

lemma jsRound_safe [simp]: "isSafeInteger n \<Longrightarrow> jsRound n = n"
  by (simp add: isSafeInteger_def jsRound_def MAX_SAFE_INTEGER_def)

lemma isSafeInteger_0 [simp]: "isSafeInteger 0"
  by (simp add: isSafeInteger_def MAX_SAFE_INTEGER_def)

lemma jsRound_eq_safe: "isSafeInteger m \<Longrightarrow> jsRound n = m \<longleftrightarrow> n = m"
  using isSafeInteger_jsRound jsRound_safe by metis

lemma jsRound_less_safe: "isSafeInteger m \<Longrightarrow> m < jsRound n \<longleftrightarrow> m < n"
  by (auto simp: isSafeInteger_def jsRound_def MAX_SAFE_INTEGER_def)

lemma jsRound_safe_less: "isSafeInteger m \<Longrightarrow> jsRound n < m \<longleftrightarrow> n < m"
  by (auto simp: isSafeInteger_def jsRound_def MAX_SAFE_INTEGER_def)

lemma isSafeInteger_jsAdd [simp]: "isSafeInteger (jsAdd a b) \<longleftrightarrow> isSafeInteger (a + b)"
  by (simp add: jsAdd_def)

lemma isSafeInteger_jsSub [simp]: "isSafeInteger (jsSub a b) \<longleftrightarrow> isSafeInteger (a - b)"
  by (simp add: jsSub_def)

lemma jsAdd_safe [simp]: "isSafeInteger (a + b) \<Longrightarrow> jsAdd a b = a + b"
  by (simp add: jsAdd_def)

lemma jsSub_safe [simp]: "isSafeInteger (a - b) \<Longrightarrow> jsSub a b = a - b"
  by (simp add: jsSub_def)

lemma jsAdd_eq_safe: "isSafeInteger m \<Longrightarrow> jsAdd a b = m \<longleftrightarrow> a + b = m"
  by (simp add: jsAdd_def jsRound_eq_safe)

lemma jsSub_eq_safe: "isSafeInteger m \<Longrightarrow> jsSub a b = m \<longleftrightarrow> a - b = m"
  by (simp add: jsSub_def jsRound_eq_safe)

text \<open>Non-negative safe integers: the cent amounts and counts of the program.\<close>

definition amount :: "number \<Rightarrow> bool" where
  "amount n \<longleftrightarrow> 0 \<le> n \<and> n \<le> MAX_SAFE_INTEGER"

lemma amount_safe [simp, intro]: "amount n \<Longrightarrow> isSafeInteger n"
  by (simp add: amount_def isSafeInteger_def)

lemma amount_iff: "amount n \<longleftrightarrow> isSafeInteger n \<and> 0 \<le> n"
  by (auto simp: amount_def isSafeInteger_def)

lemma amount_nonneg [dest]: "amount n \<Longrightarrow> 0 \<le> n"
  by (simp add: amount_def)

lemma amount_0 [simp]: "amount 0"
  by (simp add: amount_def MAX_SAFE_INTEGER_def)

lemma amount_diff_safe [simp]: "amount a \<Longrightarrow> amount b \<Longrightarrow> isSafeInteger (a - b)"
  by (auto simp: amount_def isSafeInteger_def)

lemma amount_le: "0 \<le> a \<Longrightarrow> a \<le> b \<Longrightarrow> amount b \<Longrightarrow> amount a"
  by (simp add: amount_def)

section \<open>Insertion-ordered maps\<close>

text \<open>
  A JavaScript Map is an association list with distinct keys: \<open>map_of\<close> is \<open>get\<close>,
  \<open>AList.update\<close> is \<open>set\<close> (it replaces in place or appends). The loops that build one
  value per key share the shape of \<open>groupR\<close>: read the value stored for the key of the
  element, compute the new one (or throw), store it. \<open>accR\<close> is the same accumulation for
  one key alone.
\<close>

fun groupR :: "('a \<Rightarrow> 'k) \<Rightarrow> ('v option \<Rightarrow> 'a \<Rightarrow> 'e + 'v) \<Rightarrow> ('k \<times> 'v) list \<Rightarrow> 'a list
    \<Rightarrow> 'e + ('k \<times> 'v) list" where
  "groupR key upd m [] = Inr m"
| "groupR key upd m (x # xs) =
     andThen (upd (map_of m (key x)) x) (\<lambda>v. groupR key upd (AList.update (key x) v m) xs)"

fun accR :: "('v option \<Rightarrow> 'a \<Rightarrow> 'e + 'v) \<Rightarrow> 'v option \<Rightarrow> 'a list \<Rightarrow> 'e + 'v option" where
  "accR upd v [] = Inr v"
| "accR upd v (x # xs) = andThen (upd v x) (\<lambda>w. accR upd (Some w) xs)"

lemma groupR_map_of:
  "groupR key upd m xs = Inr m' \<Longrightarrow>
     accR upd (map_of m k) (filter (\<lambda>x. key x = k) xs) = Inr (map_of m' k)"
proof (induction xs arbitrary: m)
  case Nil
  then show ?case by simp
next
  case (Cons x xs)
  then obtain v where v: "upd (map_of m (key x)) x = Inr v"
    and rest: "groupR key upd (AList.update (key x) v m) xs = Inr m'"
    by (auto simp: result_simps)
  from Cons.IH [OF rest] v show ?case
    by (auto simp: update_conv')
qed

lemma groupR_keys:
  "groupR key upd m xs = Inr m' \<Longrightarrow> fst ` set m' = fst ` set m \<union> key ` set xs"
proof (induction xs arbitrary: m)
  case Nil
  then show ?case by simp
next
  case (Cons x xs)
  then obtain v where "groupR key upd (AList.update (key x) v m) xs = Inr m'"
    by (auto simp: result_simps)
  from Cons.IH [OF this] show ?case
    by (auto simp: dom_update)
qed

lemma groupR_distinct:
  "groupR key upd m xs = Inr m' \<Longrightarrow> distinct (map fst m) \<Longrightarrow> distinct (map fst m')"
  by (induction xs arbitrary: m) (auto simp: result_simps distinct_update)

lemma groupR_succeeds:
  "succeeds (groupR key upd m xs) \<longleftrightarrow>
     (\<forall>k. succeeds (accR upd (map_of m k) (filter (\<lambda>x. key x = k) xs)))"
proof (induction xs arbitrary: m)
  case Nil
  then show ?case by simp
next
  case (Cons x xs)
  show ?case
  proof (cases "upd (map_of m (key x)) x")
    case (Inl e)
    then show ?thesis by (auto intro!: exI [of _ "key x"])
  next
    case (Inr v)
    have "succeeds (groupR key upd m (x # xs)) \<longleftrightarrow>
        (\<forall>k. succeeds (accR upd (map_of (AList.update (key x) v m) k) (filter (\<lambda>x. key x = k) xs)))"
      using Inr by (simp add: Cons.IH)
    also have "\<dots> \<longleftrightarrow> (\<forall>k. succeeds (accR upd (map_of m k) (filter (\<lambda>x. key x = k) (x # xs))))"
      using Inr by (auto simp: update_conv')
    finally show ?thesis .
  qed
qed

lemma map_of_sorted_alist:
  assumes "distinct (map fst m)"
  shows "sort_key fst m =
    map (\<lambda>k. (k, the (map_of m k))) (sorted_list_of_set (set (map fst m)))" (is "_ = ?rhs")
proof -
  let ?s = "sort_key fst m"
  have keys: "map fst ?s = sorted_list_of_set (set (map fst m))"
    using assms by (intro sorted_distinct_set_unique) (simp_all add: distinct_map inj_on_def)
  have "p = (fst p, the (map_of m (fst p)))" if "p \<in> set ?s" for p
  proof -
    have "(fst p, snd p) \<in> set m" using that by simp
    with assms have "map_of m (fst p) = Some (snd p)" by (rule map_of_is_SomeI)
    then show ?thesis by simp
  qed
  then have "?s = map (\<lambda>p. (fst p, the (map_of m (fst p)))) ?s"
    by (metis (no_types, lifting) map_idI)
  also have "\<dots> = map (\<lambda>k. (k, the (map_of m k))) (map fst ?s)"
    by simp
  finally show ?thesis by (simp only: keys)
qed

text \<open>Grouping into lists per key, each in the order of the elements.\<close>

definition pushAt :: "'k \<Rightarrow> 'a \<Rightarrow> ('k \<times> 'a list) list \<Rightarrow> ('k \<times> 'a list) list" where
  "pushAt k x m = AList.update k ((case map_of m k of None \<Rightarrow> [] | Some g \<Rightarrow> g) @ [x]) m"

definition groupBy :: "('a \<Rightarrow> 'k) \<Rightarrow> 'a list \<Rightarrow> ('k \<times> 'a list) list" where
  "groupBy key xs = foldl (\<lambda>m x. pushAt (key x) x m) [] xs"

lemma groupBy_snoc [simp]: "groupBy key (xs @ [x]) = pushAt (key x) x (groupBy key xs)"
  by (simp add: groupBy_def)

lemma groupBy_Nil [simp]: "groupBy key [] = []"
  by (simp add: groupBy_def)

lemma map_of_groupBy:
  "map_of (groupBy key xs) k =
     (if k \<in> key ` set xs then Some (filter (\<lambda>x. key x = k) xs) else None)"
proof (induction xs rule: rev_induct)
  case Nil
  then show ?case by simp
next
  case (snoc x xs)
  show ?case
  proof (cases "key x = k")
    case True
    show ?thesis
    proof (cases "k \<in> key ` set xs")
      case in_xs: True
      then show ?thesis using True snoc.IH by (simp add: pushAt_def update_conv')
    next
      case False
      then have "filter (\<lambda>x. key x = k) xs = []" by (auto simp: filter_empty_conv)
      with False True snoc.IH show ?thesis by (simp add: pushAt_def update_conv')
    qed
  next
    case False
    then show ?thesis using snoc.IH by (auto simp: pushAt_def update_conv')
  qed
qed

lemma distinct_groupBy [simp]: "distinct (map fst (groupBy key xs))"
  by (induction xs rule: rev_induct) (simp_all add: pushAt_def distinct_update)

lemma keys_groupBy [simp]: "fst ` set (groupBy key xs) = key ` set xs"
  by (induction xs rule: rev_induct) (auto simp: pushAt_def dom_update)

lemma mem_groupBy:
  "(k, g) \<in> set (groupBy key xs) \<longleftrightarrow> k \<in> key ` set xs \<and> g = filter (\<lambda>x. key x = k) xs"
proof -
  have "(k, g) \<in> set (groupBy key xs) \<longleftrightarrow> map_of (groupBy key xs) k = Some g"
    by (metis distinct_groupBy map_of_SomeD map_of_is_SomeI)
  then show ?thesis by (auto simp: map_of_groupBy)
qed

lemma mset_pushAt:
  assumes "distinct (map fst m)"
  shows "mset (concat (map snd (pushAt k x m))) = add_mset x (mset (concat (map snd m)))"
proof -
  have "mset (concat (map snd (AList.update k (g @ [x]) m))) = add_mset x (mset (concat (map snd m)))"
    if "(case map_of m k of None \<Rightarrow> [] | Some g \<Rightarrow> g) = g" for g
    using assms that by (induction m) (auto split: if_splits)
  then show ?thesis by (simp add: pushAt_def)
qed

lemma mset_groupBy: "mset (concat (map snd (groupBy key xs))) = mset xs"
  by (induction xs rule: rev_induct) (simp_all add: mset_pushAt)

text \<open>Writing the elements of a list under distinct keys.\<close>

definition putAll :: "('a \<Rightarrow> 'k) \<Rightarrow> 'a list \<Rightarrow> ('k \<times> 'a) list \<Rightarrow> ('k \<times> 'a) list" where
  "putAll key xs m = foldl (\<lambda>m x. AList.update (key x) x m) m xs"

lemma putAll_simps [simp]:
  "putAll key [] m = m" "putAll key (x # xs) m = putAll key xs (AList.update (key x) x m)"
  by (simp_all add: putAll_def)

lemma putAll_append [simp]: "putAll key (xs @ ys) m = putAll key ys (putAll key xs m)"
  by (simp add: putAll_def)

lemma map_of_putAll:
  assumes "distinct (map key xs)"
  shows "map_of (putAll key xs m) k =
    (case find (\<lambda>x. key x = k) xs of Some x \<Rightarrow> Some x | None \<Rightarrow> map_of m k)"
  using assms
proof (induction xs arbitrary: m)
  case Nil
  then show ?case by simp
next
  case (Cons x xs)
  show ?case
  proof (cases "key x = k")
    case True
    then have "find (\<lambda>y. key y = k) xs = None"
      using Cons.prems unfolding find_None_iff by (metis distinct.simps(2) image_eqI list.set_map list.simps(9))
    with True Cons show ?thesis by (simp add: update_conv')
  next
    case False
    with Cons show ?thesis by (simp add: update_conv' split: option.split)
  qed
qed

lemma putAll_lookup:
  assumes "distinct (map key xs)" "x \<in> set xs"
  shows "map_of (putAll key xs m) (key x) = Some x"
proof -
  have "find (\<lambda>z. key z = key x) xs \<noteq> None"
    using assms(2) unfolding find_None_iff by blast
  then obtain y where y: "find (\<lambda>z. key z = key x) xs = Some y"
    by blast
  then have "y \<in> set xs" "key y = key x"
    unfolding find_Some_iff by auto
  with assms have "y = x" by (meson distinct_map inj_onD)
  with y show ?thesis by (simp add: map_of_putAll [OF assms(1)])
qed

lemma putAll_lookup_iff:
  assumes "distinct (map key xs)"
  shows "map_of (putAll key xs []) k = Some x \<longleftrightarrow> x \<in> set xs \<and> key x = k"
proof
  assume "map_of (putAll key xs []) k = Some x"
  then have "find (\<lambda>x. key x = k) xs = Some x"
    unfolding map_of_putAll [OF assms] by (simp split: option.splits)
  then show "x \<in> set xs \<and> key x = k" unfolding find_Some_iff by auto
next
  assume "x \<in> set xs \<and> key x = k"
  then show "map_of (putAll key xs []) k = Some x" using putAll_lookup [OF assms] by blast
qed

text \<open>Elements with their index, and the element at an index or a default.\<close>

definition withIndex :: "'a list \<Rightarrow> ('a \<times> nat) list" where
  "withIndex xs = zip xs [0 ..< length xs]"

definition nthOr :: "'a \<Rightarrow> 'a list \<Rightarrow> nat \<Rightarrow> 'a" where
  "nthOr d xs i = (if i < length xs then xs ! i else d)"

lemma map_withIndex_nthOr:
  assumes "length ys = length xs"
  shows "map (\<lambda>(x, i). f x (nthOr d ys i)) (withIndex xs) = map2 f xs ys"
  using assms by (intro nth_equalityI) (simp_all add: withIndex_def nthOr_def)

lemma mapR_withIndex_nthOr:
  assumes "length ys = length xs"
  shows "mapR (\<lambda>(x, i). f x (nthOr d ys i)) (withIndex xs) = mapR (\<lambda>(x, y). f x y) (zip xs ys)"
proof -
  have "withIndex xs = map (\<lambda>i. (xs ! i, i)) [0 ..< length xs]"
    by (intro nth_equalityI) (simp_all add: withIndex_def)
  moreover have "zip xs ys = map (\<lambda>i. (xs ! i, ys ! i)) [0 ..< length xs]"
    using assms by (intro nth_equalityI) simp_all
  ultimately show ?thesis
    using assms by (simp add: mapR_map_src nthOr_def) (rule mapR_cong, auto)
qed

section \<open>Array.prototype.sort\<close>

text \<open>
  The sort is stable. Where a comparator subtracts a key the result is the library's
  \<open>sort_key\<close>; for any comparator it is a permutation.
\<close>

fun jsInsert :: "('a \<Rightarrow> 'a \<Rightarrow> int) \<Rightarrow> 'a \<Rightarrow> 'a list \<Rightarrow> 'a list" where
  "jsInsert cmp x [] = [x]"
| "jsInsert cmp x (y # ys) = (if cmp x y \<le> 0 then x # y # ys else y # jsInsert cmp x ys)"

definition jsSort :: "('a \<Rightarrow> 'a \<Rightarrow> int) \<Rightarrow> 'a list \<Rightarrow> 'a list" where
  "jsSort cmp xs = foldr (jsInsert cmp) xs []"

lemma jsInsert_key: "jsInsert (\<lambda>x y. f x - f y) x ys = insort_key f x ys"
  by (induction ys) auto

lemma jsSort_key [simp]: "jsSort (\<lambda>x y. f x - f y) xs = sort_key f xs"
proof -
  have "jsInsert (\<lambda>x y. f x - f y) = insort_key f"
    by (intro ext) (rule jsInsert_key)
  then show ?thesis by (simp add: jsSort_def sort_key_def)
qed

lemma mset_jsInsert [simp]: "mset (jsInsert cmp x ys) = add_mset x (mset ys)"
  by (induction ys) auto

lemma mset_jsSort [simp]: "mset (jsSort cmp xs) = mset xs"
  by (induction xs) (auto simp: jsSort_def)

lemma set_jsSort [simp]: "set (jsSort cmp xs) = set xs"
  by (metis mset_jsSort set_mset_mset)

lemma length_jsSort [simp]: "length (jsSort cmp xs) = length xs"
  by (metis mset_jsSort size_mset)

end
