(* ===== verification/Money.thy ===== *)
theory Money
  imports Prelude
begin

text \<open>
  Integer money arithmetic: \<open>roundHalfUp\<close> (domain/roundHalfUp.ts), the one rounding
  operation every amount of the program goes through, and the facts about it that the
  invoice, VAT and credit-note calculations share: it is exact division rounded half up,
  monotone, and hits the ends of a proportional split.
\<close>

section \<open>Rounding\<close>

definition roundHalfUp :: "int \<Rightarrow> int \<Rightarrow> number result" where
  "roundHalfUp numerator denominator =
     (if numerator < 0 then
        Inl (InvoiceCalculationError ''Rounding numerator cannot be negative.'')
      else if denominator \<le> 0 then
        Inl (InvoiceCalculationError ''Rounding denominator must be positive.'')
      else
        let roundedValue = (numerator + denominator div 2) div denominator in
        if roundedValue > MAX_SAFE_INTEGER then
          Inl (InvoiceCalculationError ''Calculated amount exceeds the safe integer range.'')
        else Inr roundedValue)"

text \<open>The value without the guards.\<close>

definition rounded :: "int \<Rightarrow> int \<Rightarrow> int" where
  "rounded n d = (n + d div 2) div d"

named_theorems rounding \<open>facts about rounded values\<close>

lemma roundHalfUp_eq_Inr:
  "roundHalfUp n d = Inr r \<longleftrightarrow> 0 \<le> n \<and> 0 < d \<and> r = rounded n d \<and> r \<le> MAX_SAFE_INTEGER"
  by (auto simp: roundHalfUp_def rounded_def Let_def)

lemma rounded_iff:
  assumes "0 < d"
  shows "rounded n d = r \<longleftrightarrow> (2 * r - 1) * d \<le> 2 * n \<and> 2 * n < (2 * r + 1) * d"
proof -
  have "rounded n d = r \<longleftrightarrow> r * d \<le> n + d div 2 \<and> n + d div 2 < (r + 1) * d"
  proof
    assume "rounded n d = r"
    then have r: "r = (n + d div 2) div d" by (simp add: rounded_def)
    have "r * d + (n + d div 2) mod d = n + d div 2"
      unfolding r by (rule div_mult_mod_eq)
    moreover have "0 \<le> (n + d div 2) mod d" "(n + d div 2) mod d < d"
      using assms by auto
    ultimately show "r * d \<le> n + d div 2 \<and> n + d div 2 < (r + 1) * d"
      by (simp add: distrib_right)
  next
    assume h: "r * d \<le> n + d div 2 \<and> n + d div 2 < (r + 1) * d"
    have "(n + d div 2) div d = r"
      by (rule int_div_pos_eq [where r = "n + d div 2 - r * d"])
        (use h in \<open>auto simp: algebra_simps\<close>)
    then show "rounded n d = r" by (simp add: rounded_def)
  qed
  also have "\<dots> \<longleftrightarrow> (2 * r - 1) * d \<le> 2 * n \<and> 2 * n < (2 * r + 1) * d"
  proof -
    have "d = 2 * (d div 2) \<or> d = 2 * (d div 2) + 1" by presburger
    then show ?thesis
      by (auto simp: algebra_simps)
  qed
  finally show ?thesis .
qed

lemma rounded_nonneg [rounding, simp]: "0 \<le> n \<Longrightarrow> 0 < d \<Longrightarrow> 0 \<le> rounded n d"
  by (simp add: rounded_def pos_imp_zdiv_nonneg_iff)

lemma rounded_mono [rounding]: "0 < d \<Longrightarrow> a \<le> b \<Longrightarrow> rounded a d \<le> rounded b d"
  by (simp add: rounded_def zdiv_mono1)

lemma rounded_0 [simp]: "0 < d \<Longrightarrow> rounded 0 d = 0"
  by (simp add: rounded_iff)

lemma rounded_mult [simp]: "0 < d \<Longrightarrow> rounded (t * d) d = t"
  by (simp add: rounded_iff algebra_simps)

lemma rounded_mult' [simp]: "0 < d \<Longrightarrow> rounded (d * t) d = t"
  by (simp add: rounded_iff algebra_simps)

text \<open>The share \<open>rounded (total * part) whole\<close> of a total lies between 0 and the total.\<close>

lemma rounded_share_le:
  assumes "0 < whole" "0 \<le> tot" "part \<le> whole"
  shows "rounded (tot * part) whole \<le> tot"
proof -
  have "rounded (tot * part) whole \<le> rounded (tot * whole) whole"
    using assms by (intro rounded_mono mult_left_mono) auto
  then show ?thesis using assms by simp
qed

lemma rounded_share_mono:
  assumes "0 < whole" "0 \<le> tot" "a \<le> b"
  shows "rounded (tot * a) whole \<le> rounded (tot * b) whole"
  using assms by (intro rounded_mono mult_left_mono) auto

lemma rounded_le_total:
  assumes "0 < whole" "n \<le> tot * whole"
  shows "rounded n whole \<le> tot"
  using rounded_mono [OF assms] assms by simp

text \<open>The rounding error is at most one half.\<close>

lemma rounded_error:
  assumes "0 < d"
  shows "2 * \<bar>d * rounded n d - n\<bar> \<le> d"
  using rounded_iff [OF assms, of n "rounded n d"] by (auto simp: algebra_simps abs_if)

section \<open>Guards on amounts\<close>

text \<open>
  The guard of domain/invoiceLineBaseCalculation.ts; the field name is part of the
  message.
\<close>

definition requireNonNegativeSafeInteger :: "number \<Rightarrow> string \<Rightarrow> unit result" where
  "requireNonNegativeSafeInteger value fieldName =
     (if \<not> isSafeInteger value then
        Inl (InvoiceCalculationError (fieldName @ '' must be a safe integer.''))
      else if value < 0 then
        Inl (InvoiceCalculationError (fieldName @ '' cannot be negative.''))
      else Inr ())"

lemma requireNonNegativeSafeInteger_ok [result_simps]:
  "requireNonNegativeSafeInteger value f = Inr u \<longleftrightarrow> amount value"
  by (auto simp: requireNonNegativeSafeInteger_def amount_iff)

end
