(* ===== verification/InvoiceLine.thy ===== *)
theory InvoiceLine
  imports Money
begin

text \<open>
  One invoice line: its types (domain/invoiceCalculation.ts), the base amount and the
  discount (domain/invoiceLineBaseCalculation.ts), the normal VAT line
  (domain/calculateInvoiceLine.ts) and the reverse-charge line and invoice
  (domain/calculateReverseChargeInvoice.ts). The lemmas characterise when each
  calculation succeeds and what its amounts satisfy.
\<close>

section \<open>Types\<close>

datatype PriceInputMode = Net | Gross

datatype InvoiceLineDiscount = NoDiscount | Percentage number | Fixed number

record InvoiceLineBaseCalculationInput =
  quantityHundredths :: number
  unitPriceCents :: number
  discount :: InvoiceLineDiscount

record InvoiceLineCalculationInput = InvoiceLineBaseCalculationInput +
  vatRateBasisPoints :: number
  priceInputMode :: PriceInputMode

record InvoiceLineBaseCalculation =
  baseCents :: number
  discountCents :: number
  discountedBaseCents :: number

record CalculatedInvoiceLine =
  line_quantityHundredths :: number
  line_unitPriceCents :: number
  line_vatRateBasisPoints :: number
  line_priceInputMode :: PriceInputMode
  line_baseCents :: number
  line_discountCents :: number
  line_netCents :: number
  line_vatCents :: number
  line_grossCents :: number

record InvoiceVatBreakdown =
  bd_vatRateBasisPoints :: number
  bd_netCents :: number
  bd_vatCents :: number
  bd_grossCents :: number

record InvoiceTotals =
  netTotalCents :: number
  vatTotalCents :: number
  grossTotalCents :: number
  vatBreakdown :: "InvoiceVatBreakdown list"

section \<open>Base amount and discount\<close>

definition quantityScale :: int where
  "quantityScale = 100"

definition basisPointsScale :: int where
  "basisPointsScale = 10000"

definition calculateDiscountCents :: "number \<Rightarrow> InvoiceLineDiscount \<Rightarrow> number result" where
  "calculateDiscountCents base d =
     (case d of
        NoDiscount \<Rightarrow> Inr 0
      | Percentage basisPoints \<Rightarrow>
          andThen (requireNonNegativeSafeInteger basisPoints ''Discount basis points'') (\<lambda>_.
          if basisPoints > basisPointsScale then
            Inl (InvoiceCalculationError ''Discount cannot exceed the line value.'')
          else roundHalfUp (base * basisPoints) basisPointsScale)
      | Fixed amountCents \<Rightarrow>
          andThen (requireNonNegativeSafeInteger amountCents ''Discount amount'') (\<lambda>_.
          Inr amountCents))"

definition calculateInvoiceLineBase ::
    "'a InvoiceLineBaseCalculationInput_scheme \<Rightarrow> InvoiceLineBaseCalculation result" where
  "calculateInvoiceLineBase input =
     andThen (requireNonNegativeSafeInteger (quantityHundredths input) ''Quantity'') (\<lambda>_.
     andThen (requireNonNegativeSafeInteger (unitPriceCents input) ''Unit price'') (\<lambda>_.
     andThen (roundHalfUp (unitPriceCents input * quantityHundredths input) quantityScale) (\<lambda>base.
     andThen (calculateDiscountCents base (discount input)) (\<lambda>disc.
     if disc > base then
       Inl (InvoiceCalculationError ''Discount cannot exceed the line value.'')
     else
       Inr \<lparr>baseCents = base, discountCents = disc, discountedBaseCents = jsSub base disc\<rparr>))))"

text \<open>The base and the discount of an input, and when they are accepted.\<close>

definition baseOf :: "'a InvoiceLineBaseCalculationInput_scheme \<Rightarrow> int" where
  "baseOf input = rounded (unitPriceCents input * quantityHundredths input) 100"

definition discountOf :: "'a InvoiceLineBaseCalculationInput_scheme \<Rightarrow> int" where
  "discountOf input =
     (case discount input of
        NoDiscount \<Rightarrow> 0
      | Percentage bp \<Rightarrow> rounded (baseOf input * bp) 10000
      | Fixed c \<Rightarrow> c)"

definition validBase :: "'a InvoiceLineBaseCalculationInput_scheme \<Rightarrow> bool" where
  "validBase input \<longleftrightarrow>
     amount (quantityHundredths input) \<and> amount (unitPriceCents input) \<and> amount (baseOf input) \<and>
     (case discount input of
        NoDiscount \<Rightarrow> True
      | Percentage bp \<Rightarrow> 0 \<le> bp \<and> bp \<le> 10000
      | Fixed c \<Rightarrow> 0 \<le> c \<and> c \<le> baseOf input)"

lemma validBase_bounds:
  assumes "validBase input"
  shows "0 \<le> baseOf input" "amount (baseOf input)"
    and "0 \<le> discountOf input" "discountOf input \<le> baseOf input"
  using assms rounded_share_le [of 10000 "baseOf input"]
  by (auto simp: validBase_def discountOf_def split: InvoiceLineDiscount.splits)

lemma validBase_discounted:
  assumes "validBase input"
  shows "amount (baseOf input - discountOf input)"
  using validBase_bounds [OF assms] by (auto simp: amount_def)

lemma calculateDiscountCents_eq_Inr:
  assumes "amount base"
  shows "calculateDiscountCents base d = Inr disc \<longleftrightarrow>
    (case d of
       NoDiscount \<Rightarrow> disc = 0
     | Percentage bp \<Rightarrow> 0 \<le> bp \<and> bp \<le> 10000 \<and> disc = rounded (base * bp) 10000
     | Fixed c \<Rightarrow> amount c \<and> disc = c)"
proof (cases d)
  case (Percentage bp)
  have "rounded (base * bp) 10000 \<le> MAX_SAFE_INTEGER" if "bp \<le> 10000"
    using assms that rounded_share_le [of 10000 base bp] by (simp add: amount_def)
  with Percentage assms show ?thesis
    by (auto simp: calculateDiscountCents_def result_simps roundHalfUp_eq_Inr basisPointsScale_def
        amount_def MAX_SAFE_INTEGER_def)
qed (auto simp: calculateDiscountCents_def result_simps)

lemma calculateInvoiceLineBase_eq_Inr:
  "calculateInvoiceLineBase input = Inr b \<longleftrightarrow>
     validBase input \<and>
     b = \<lparr>baseCents = baseOf input, discountCents = discountOf input,
          discountedBaseCents = baseOf input - discountOf input\<rparr>" (is "?l = ?r")
proof -
  let ?disc = "calculateDiscountCents (baseOf input) (discount input)"
  have l: "?l \<longleftrightarrow> amount (quantityHundredths input) \<and> amount (unitPriceCents input) \<and>
      amount (baseOf input) \<and>
      (\<exists>disc. ?disc = Inr disc \<and> disc \<le> baseOf input \<and>
        b = \<lparr>baseCents = baseOf input, discountCents = disc,
             discountedBaseCents = jsSub (baseOf input) disc\<rparr>)"
    by (auto simp: calculateInvoiceLineBase_def result_simps roundHalfUp_eq_Inr quantityScale_def
        baseOf_def amount_def)
  show ?thesis
  proof (cases "amount (baseOf input)")
    case False
    with l show ?thesis by (auto simp: validBase_def)
  next
    case True
    have disc: "?disc = Inr disc \<and> disc \<le> baseOf input \<longleftrightarrow>
        disc = discountOf input \<and>
        (case discount input of NoDiscount \<Rightarrow> True | Percentage bp \<Rightarrow> 0 \<le> bp \<and> bp \<le> 10000
         | Fixed c \<Rightarrow> 0 \<le> c \<and> c \<le> baseOf input)" for disc
      using True rounded_share_le [of 10000 "baseOf input"]
      by (auto simp: calculateDiscountCents_eq_Inr discountOf_def amount_def
          split: InvoiceLineDiscount.splits)
    have sub: "jsSub (baseOf input) (discountOf input) = baseOf input - discountOf input"
      if "validBase input"
      using validBase_discounted [OF that] by simp
    show ?thesis
    proof
      assume ?l
      then obtain d where "amount (quantityHundredths input)" "amount (unitPriceCents input)"
        and "?disc = Inr d \<and> d \<le> baseOf input"
        and "b = \<lparr>baseCents = baseOf input, discountCents = d,
               discountedBaseCents = jsSub (baseOf input) d\<rparr>"
        using l by blast
      with True disc [of d] sub show ?r
        by (simp add: validBase_def)
    next
      assume ?r
      with True disc [of "discountOf input"] sub show ?l
        unfolding l by (simp add: validBase_def)
    qed
  qed
qed

section \<open>Normal VAT line\<close>

definition calculateInvoiceLine :: "InvoiceLineCalculationInput \<Rightarrow> CalculatedInvoiceLine result" where
  "calculateInvoiceLine input =
     andThen (requireNonNegativeSafeInteger (vatRateBasisPoints input) ''VAT rate'') (\<lambda>_.
     andThen (calculateInvoiceLineBase input) (\<lambda>b.
     case priceInputMode input of
       Net \<Rightarrow>
         (let net = discountedBaseCents b in
          andThen (roundHalfUp (net * vatRateBasisPoints input) basisPointsScale) (\<lambda>vat.
          let gross = jsAdd net vat in
          if \<not> isSafeInteger gross then
            Inl (InvoiceCalculationError ''Calculated amount exceeds the safe integer range.'')
          else
            Inr \<lparr>line_quantityHundredths = quantityHundredths input,
                 line_unitPriceCents = unitPriceCents input,
                 line_vatRateBasisPoints = vatRateBasisPoints input,
                 line_priceInputMode = priceInputMode input,
                 line_baseCents = baseCents b, line_discountCents = discountCents b,
                 line_netCents = net, line_vatCents = vat, line_grossCents = gross\<rparr>))
     | Gross \<Rightarrow>
         (let gross = discountedBaseCents b in
          andThen (roundHalfUp (gross * basisPointsScale)
                    (basisPointsScale + vatRateBasisPoints input)) (\<lambda>net.
          Inr \<lparr>line_quantityHundredths = quantityHundredths input,
               line_unitPriceCents = unitPriceCents input,
               line_vatRateBasisPoints = vatRateBasisPoints input,
               line_priceInputMode = priceInputMode input,
               line_baseCents = baseCents b, line_discountCents = discountCents b,
               line_netCents = net, line_vatCents = jsSub gross net, line_grossCents = gross\<rparr>))))"

text \<open>
  VAT on a net amount, and the net part of a gross amount: the two directions of the
  tax calculation, shared by lines, totals and credit notes.
\<close>

definition vatOfNet :: "int \<Rightarrow> int \<Rightarrow> int" where
  "vatOfNet net rate = rounded (net * rate) 10000"

definition netOfGross :: "int \<Rightarrow> int \<Rightarrow> int" where
  "netOfGross gross rate = rounded (gross * 10000) (10000 + rate)"

lemma vatOfNet_nonneg [simp]: "0 \<le> net \<Longrightarrow> 0 \<le> rate \<Longrightarrow> 0 \<le> vatOfNet net rate"
  by (simp add: vatOfNet_def)

lemma vatOfNet_mono: "0 \<le> rate \<Longrightarrow> a \<le> b \<Longrightarrow> vatOfNet a rate \<le> vatOfNet b rate"
  unfolding vatOfNet_def by (intro rounded_mono mult_right_mono) auto

lemma netOfGross_nonneg [simp]: "0 \<le> gross \<Longrightarrow> 0 \<le> rate \<Longrightarrow> 0 \<le> netOfGross gross rate"
  by (simp add: netOfGross_def)

lemma netOfGross_mono: "0 \<le> rate \<Longrightarrow> a \<le> b \<Longrightarrow> netOfGross a rate \<le> netOfGross b rate"
  unfolding netOfGross_def by (intro rounded_mono mult_right_mono) auto

lemma netOfGross_le:
  assumes "0 \<le> gross" "0 \<le> rate"
  shows "netOfGross gross rate \<le> gross"
  unfolding netOfGross_def using assms by (intro rounded_share_le) auto

lemma netOfGross_amount:
  assumes "amount gross" "0 \<le> rate"
  shows "amount (netOfGross gross rate)" "amount (gross - netOfGross gross rate)"
proof -
  have "0 \<le> gross" using assms(1) by (rule amount_nonneg)
  then have "netOfGross gross rate \<le> gross" "0 \<le> netOfGross gross rate"
    using assms(2) by (simp_all add: netOfGross_le)
  then show "amount (netOfGross gross rate)" "amount (gross - netOfGross gross rate)"
    using assms(1) by (auto simp: amount_def)
qed

text \<open>What a calculated line satisfies.\<close>

definition lineReconciles :: "CalculatedInvoiceLine \<Rightarrow> bool" where
  "lineReconciles l \<longleftrightarrow>
     amount (line_vatRateBasisPoints l) \<and> amount (line_baseCents l) \<and>
     amount (line_discountCents l) \<and> amount (line_netCents l) \<and> amount (line_vatCents l) \<and>
     amount (line_grossCents l) \<and>
     line_netCents l + line_vatCents l = line_grossCents l \<and>
     line_baseCents l - line_discountCents l =
       (case line_priceInputMode l of Net \<Rightarrow> line_netCents l | Gross \<Rightarrow> line_grossCents l) \<and>
     (case line_priceInputMode l of
        Net \<Rightarrow> line_vatCents l = vatOfNet (line_netCents l) (line_vatRateBasisPoints l)
      | Gross \<Rightarrow> line_netCents l = netOfGross (line_grossCents l) (line_vatRateBasisPoints l))"

definition acceptedLine :: "InvoiceLineCalculationInput \<Rightarrow> bool" where
  "acceptedLine input \<longleftrightarrow>
     validBase input \<and> amount (vatRateBasisPoints input) \<and>
     (priceInputMode input = Net \<longrightarrow>
        amount (baseOf input - discountOf input +
          vatOfNet (baseOf input - discountOf input) (vatRateBasisPoints input)))"

lemma calculateInvoiceLine_net:
  assumes "priceInputMode input = Net"
  shows "calculateInvoiceLine input = Inr l \<longleftrightarrow>
    acceptedLine input \<and>
    (let net = baseOf input - discountOf input; vat = vatOfNet net (vatRateBasisPoints input) in
     l = \<lparr>line_quantityHundredths = quantityHundredths input,
          line_unitPriceCents = unitPriceCents input,
          line_vatRateBasisPoints = vatRateBasisPoints input,
          line_priceInputMode = Net,
          line_baseCents = baseOf input, line_discountCents = discountOf input,
          line_netCents = net, line_vatCents = vat, line_grossCents = net + vat\<rparr>)"
proof (cases "validBase input \<and> amount (vatRateBasisPoints input)")
  case False
  with assms show ?thesis
    by (auto simp: calculateInvoiceLine_def calculateInvoiceLineBase_eq_Inr acceptedLine_def
        result_simps)
next
  case True
  let ?net = "baseOf input - discountOf input"
  let ?vat = "vatOfNet ?net (vatRateBasisPoints input)"
  have net: "amount ?net"
    using True validBase_discounted [of input] by blast
  have vat: "0 \<le> ?vat"
    using True net by (intro vatOfNet_nonneg amount_nonneg) auto
  have prod: "0 \<le> ?net * vatRateBasisPoints input"
    using True net by (intro mult_nonneg_nonneg amount_nonneg) auto
  have sum: "amount (?net + ?vat) \<longleftrightarrow> isSafeInteger (?net + ?vat)"
    using net vat by (auto simp: amount_iff)
  have le: "amount (?net + ?vat) \<Longrightarrow> ?vat \<le> MAX_SAFE_INTEGER"
    using net by (auto simp: amount_def)
  show ?thesis
    using True assms net vat sum le prod
    by (auto simp: calculateInvoiceLine_def calculateInvoiceLineBase_eq_Inr acceptedLine_def Let_def
        result_simps roundHalfUp_eq_Inr basisPointsScale_def vatOfNet_def [symmetric]
        simp del: vatOfNet_nonneg)
qed

lemma calculateInvoiceLine_gross:
  assumes "priceInputMode input = Gross"
  shows "calculateInvoiceLine input = Inr l \<longleftrightarrow>
    acceptedLine input \<and>
    (let gross = baseOf input - discountOf input; net = netOfGross gross (vatRateBasisPoints input) in
     l = \<lparr>line_quantityHundredths = quantityHundredths input,
          line_unitPriceCents = unitPriceCents input,
          line_vatRateBasisPoints = vatRateBasisPoints input,
          line_priceInputMode = Gross,
          line_baseCents = baseOf input, line_discountCents = discountOf input,
          line_netCents = net, line_vatCents = gross - net, line_grossCents = gross\<rparr>)"
proof (cases "validBase input \<and> amount (vatRateBasisPoints input)")
  case False
  with assms show ?thesis
    by (auto simp: calculateInvoiceLine_def calculateInvoiceLineBase_eq_Inr acceptedLine_def
        result_simps)
next
  case True
  let ?gross = "baseOf input - discountOf input"
  have gross: "amount ?gross" and rate: "0 \<le> vatRateBasisPoints input"
    using True validBase_discounted [of input] by auto
  note net = netOfGross_amount [OF gross rate]
  have "rounded (?gross * 10000) (10000 + vatRateBasisPoints input) \<le> MAX_SAFE_INTEGER"
    using net by (simp add: netOfGross_def amount_def)
  then show ?thesis
    using True assms gross rate net
    by (auto simp: calculateInvoiceLine_def calculateInvoiceLineBase_eq_Inr acceptedLine_def Let_def
        result_simps roundHalfUp_eq_Inr basisPointsScale_def netOfGross_def)
qed

lemma calculateInvoiceLine_succeeds:
  "succeeds (calculateInvoiceLine input) \<longleftrightarrow> acceptedLine input"
  by (cases "priceInputMode input")
    (simp_all add: succeeds_iff calculateInvoiceLine_net calculateInvoiceLine_gross Let_def)

lemma calculateInvoiceLine_reconciles:
  assumes "calculateInvoiceLine input = Inr l"
  shows "lineReconciles l"
proof (cases "priceInputMode input")
  case Net
  with assms show ?thesis
    using validBase_bounds [of input] validBase_discounted [of input]
    by (auto simp: calculateInvoiceLine_net acceptedLine_def lineReconciles_def Let_def amount_def)
next
  case Gross
  with assms show ?thesis
    using validBase_bounds [of input] validBase_discounted [of input]
      netOfGross_amount [of "baseOf input - discountOf input" "vatRateBasisPoints input"]
    by (auto simp: calculateInvoiceLine_gross acceptedLine_def lineReconciles_def Let_def amount_def)
qed

lemma calculateInvoiceLine_frame:
  assumes "calculateInvoiceLine input = Inr l"
  shows "line_quantityHundredths l = quantityHundredths input"
    and "line_unitPriceCents l = unitPriceCents input"
    and "line_vatRateBasisPoints l = vatRateBasisPoints input"
    and "line_priceInputMode l = priceInputMode input"
    and "line_baseCents l = baseOf input" and "line_discountCents l = discountOf input"
  using assms
  by (cases "priceInputMode input";
      simp add: calculateInvoiceLine_net calculateInvoiceLine_gross Let_def)+

end
