(* ===== verification/Split.thy ===== *)
theory Split
  imports Money
begin

text \<open>
  The proportional split two modules share (\<open>distributeAmount\<close> of
  domain/calculateCreditInvoice.ts and of domain/calculateCreditInvoiceDraft.ts): an amount
  is distributed over weights by rounding the cumulative targets and taking differences.
  The modules differ in the checked addition and subtraction they use, which are the
  operations of the locale \<open>checked_arithmetic\<close>; its laws are all the split needs to be
  exact: it never fails, its shares are non-negative, sum up to the amount and are each
  within one cent of the proportional share.
\<close>

section \<open>The loop\<close>

text \<open>
  One call of the callback of \<open>weights.map\<close>, with its two captured variables
  (\<open>cumulativeWeight\<close> and \<open>previousTarget\<close>) as arguments.
\<close>

fun splitLoop :: "(number \<Rightarrow> number \<Rightarrow> number result) \<Rightarrow> (number \<Rightarrow> number \<Rightarrow> number result)
    \<Rightarrow> number \<Rightarrow> number \<Rightarrow> number \<Rightarrow> number \<Rightarrow> number list \<Rightarrow> number list result" where
  "splitLoop add sub totalAmount totalWeight cumulativeWeight previousTarget [] = Inr []"
| "splitLoop add sub totalAmount totalWeight cumulativeWeight previousTarget (weight # weights) =
     andThen (add cumulativeWeight weight) (\<lambda>cumulativeWeight'.
     andThen (roundHalfUp (totalAmount * cumulativeWeight') totalWeight) (\<lambda>target.
     andThen (sub target previousTarget) (\<lambda>allocation.
     andThen (splitLoop add sub totalAmount totalWeight cumulativeWeight' target weights) (\<lambda>rest.
     Inr (allocation # rest)))))"

section \<open>The reference shares\<close>

fun sharesFrom :: "int \<Rightarrow> int \<Rightarrow> int \<Rightarrow> int list \<Rightarrow> int list" where
  "sharesFrom tot whole cum [] = []"
| "sharesFrom tot whole cum (w # ws) =
     (rounded (tot * (cum + w)) whole - rounded (tot * cum) whole) #
       sharesFrom tot whole (cum + w) ws"

definition shares :: "int \<Rightarrow> int list \<Rightarrow> int list" where
  "shares tot ws = sharesFrom tot (sum_list ws) 0 ws"

lemma length_sharesFrom [simp]: "length (sharesFrom tot whole cum ws) = length ws"
  by (induction ws arbitrary: cum) auto

lemma length_shares [simp]: "length (shares tot ws) = length ws"
  by (simp add: shares_def)

lemma sum_sharesFrom:
  "sum_list (sharesFrom tot whole cum ws) =
     rounded (tot * (cum + sum_list ws)) whole - rounded (tot * cum) whole"
  by (induction ws arbitrary: cum) (simp_all add: add.assoc)

lemma sum_shares:
  assumes "0 < sum_list ws"
  shows "sum_list (shares tot ws) = tot"
  using assms by (simp add: shares_def sum_sharesFrom)

lemma sharesFrom_nonneg:
  assumes "0 < whole" "0 \<le> tot" "\<forall>w \<in> set ws. 0 \<le> w" "s \<in> set (sharesFrom tot whole cum ws)"
  shows "0 \<le> s"
  using assms by (induction ws arbitrary: cum) (auto intro!: rounded_share_mono)

lemma shares_nonneg:
  assumes "0 < sum_list ws" "0 \<le> tot" "\<forall>w \<in> set ws. 0 \<le> w" "s \<in> set (shares tot ws)"
  shows "0 \<le> s"
  using assms unfolding shares_def by (intro sharesFrom_nonneg [of "sum_list ws" tot ws s 0]) auto

text \<open>A share of a total that is at most the sum of the weights is at most its weight.\<close>

lemma rounded_add_mult:
  assumes "0 < d"
  shows "rounded (n + k * d) d = rounded n d + k"
proof -
  have "n + k * d + d div 2 = (n + d div 2) + k * d" by simp
  also have "\<dots> div d = (n + d div 2) div d + k" using assms by simp
  finally show ?thesis by (simp add: rounded_def)
qed

lemma share_le_weight:
  assumes "0 < whole" "tot \<le> whole" "0 \<le> w"
  shows "rounded (tot * (cum + w)) whole - rounded (tot * cum) whole \<le> w"
proof -
  have "tot * w \<le> w * whole"
    using mult_left_mono [OF assms(2,3)] by (simp add: mult.commute)
  then have "rounded (tot * (cum + w)) whole \<le> rounded (tot * cum + w * whole) whole"
    using assms(1) by (intro rounded_mono) (simp_all add: distrib_left)
  then show ?thesis
    using assms(1) by (simp add: rounded_add_mult)
qed

lemma sharesFrom_le_weight:
  assumes "0 < whole" "tot \<le> whole" "\<forall>w \<in> set ws. 0 \<le> w"
  shows "list_all2 (\<le>) (sharesFrom tot whole cum ws) ws"
  using assms by (induction ws arbitrary: cum) (auto intro: share_le_weight)

text \<open>Each share is within one cent of the exact proportion.\<close>

lemma share_error:
  assumes "0 < whole"
  shows "\<bar>whole * (rounded (tot * (cum + w)) whole - rounded (tot * cum) whole) - tot * w\<bar> \<le> whole"
proof -
  have "2 * \<bar>whole * rounded (tot * (cum + w)) whole - tot * (cum + w)\<bar> \<le> whole"
    "2 * \<bar>whole * rounded (tot * cum) whole - tot * cum\<bar> \<le> whole"
    using assms by (rule rounded_error)+
  then show ?thesis by (auto simp: algebra_simps abs_if split: if_splits)
qed

lemma sharesFrom_error:
  assumes "0 < whole"
  shows "list_all2 (\<lambda>s w. \<bar>whole * s - tot * w\<bar> \<le> whole) (sharesFrom tot whole cum ws) ws"
  using assms by (induction ws arbitrary: cum) (auto intro: share_error)

section \<open>Checked arithmetic\<close>

locale checked_arithmetic =
  fixes add sub :: "number \<Rightarrow> number \<Rightarrow> number result"
  assumes add_law: "amount a \<Longrightarrow> amount b \<Longrightarrow> add a b = Inr c \<longleftrightarrow> amount (a + b) \<and> c = a + b"
    and sub_law: "amount a \<Longrightarrow> amount b \<Longrightarrow> sub a b = Inr c \<longleftrightarrow> b \<le> a \<and> c = a - b"
begin

lemma foldR_add:
  assumes "\<forall>x \<in> set xs. amount (f x)" and "amount s"
  shows "foldR (\<lambda>s x. add s (f x)) s xs = Inr t \<longleftrightarrow>
    amount (s + (\<Sum>x\<leftarrow>xs. f x)) \<and> t = s + (\<Sum>x\<leftarrow>xs. f x)"
  using assms
proof (induction xs arbitrary: s)
  case Nil
  then show ?case by auto
next
  case (Cons x xs)
  have rest: "0 \<le> (\<Sum>x\<leftarrow>xs. f x)"
    using Cons.prems(1) by (intro sum_list_nonneg) (auto intro!: amount_nonneg)
  have step: "add s (f x) = Inr c \<longleftrightarrow> amount (s + f x) \<and> c = s + f x" for c
    using Cons.prems by (simp add: add_law)
  show ?case
  proof (cases "amount (s + f x)")
    case True
    then have "add s (f x) = Inr (s + f x)" by (simp add: step)
    then have "foldR (\<lambda>s x. add s (f x)) s (x # xs) = foldR (\<lambda>s x. add s (f x)) (s + f x) xs"
      by simp
    with Cons.IH [OF _ True] Cons.prems(1) show ?thesis by (simp add: add.assoc)
  next
    case False
    moreover have "amount (s + f x)" if "amount (s + (f x + (\<Sum>x\<leftarrow>xs. f x)))"
      using that rest Cons.prems by (auto simp: amount_def)
    ultimately show ?thesis using step by (auto simp: result_simps)
  qed
qed

lemma splitLoop_shares:
  assumes "amount tot" "0 < whole" "amount whole"
    and "\<forall>w \<in> set ws. amount w" "amount cum" "cum + sum_list ws \<le> whole"
  shows "splitLoop add sub tot whole cum (rounded (tot * cum) whole) ws =
    Inr (sharesFrom tot whole cum ws)"
  using assms(4-6)
proof (induction ws arbitrary: cum)
  case Nil
  then show ?case by simp
next
  case (Cons w ws)
  have tot: "0 \<le> tot" using assms(1) by (rule amount_nonneg)
  have w: "0 \<le> w" "0 \<le> cum" using Cons.prems by auto
  have "0 \<le> sum_list ws" using Cons.prems(1) by (intro sum_list_nonneg) (auto intro!: amount_nonneg)
  then have le: "cum + w \<le> whole" using Cons.prems(3) by simp
  then have cum: "amount (cum + w)" using w assms(3) by (auto simp: amount_def)
  have share: "amount (rounded (tot * c) whole)" if "0 \<le> c" "c \<le> whole" for c
    using that assms tot rounded_share_le [of whole tot c] by (auto simp: amount_def)
  have "add cum w = Inr (cum + w)"
    using Cons.prems cum by (simp add: add_law)
  moreover have "roundHalfUp (tot * (cum + w)) whole = Inr (rounded (tot * (cum + w)) whole)"
    using share [of "cum + w"] le w tot assms(2) by (auto simp: roundHalfUp_eq_Inr amount_def)
  moreover have "sub (rounded (tot * (cum + w)) whole) (rounded (tot * cum) whole) =
      Inr (rounded (tot * (cum + w)) whole - rounded (tot * cum) whole)"
    using share [of "cum + w"] share [of cum] le w tot assms(2) rounded_share_mono [of whole tot cum "cum + w"]
    by (simp add: sub_law)
  moreover have "splitLoop add sub tot whole (cum + w) (rounded (tot * (cum + w)) whole) ws =
      Inr (sharesFrom tot whole (cum + w) ws)"
    using Cons.prems cum by (intro Cons.IH) auto
  ultimately show ?case by simp
qed

lemma splitLoop_exact:
  assumes "amount tot" "\<forall>w \<in> set ws. amount w" "0 < sum_list ws" "amount (sum_list ws)"
  shows "splitLoop add sub tot (sum_list ws) 0 0 ws = Inr (shares tot ws)"
  using splitLoop_shares [OF assms(1,3,4,2), of 0] assms(3) by (simp add: shares_def)

end

end
