(* ===== verification/JsStrings.thy ===== *)
theory JsStrings
  imports Prelude "HOL-Library.Char_ord" "HOL-Library.List_Lexorder"
begin

text \<open>
  The JavaScript string operations the program uses, on Isabelle strings: a string is a
  list of characters with codes 0 to 255, that is, a JavaScript string whose UTF-16 code
  units are all in that range. \<open>trim\<close>, \<open>toUpperCase\<close>, the regular-expression classes
  and \<open>padStart\<close> are written out for these; string comparison is the library's
  lexicographic order on character lists. Decimal printing and parsing of numbers, with
  the facts that they are inverse to each other, are here too.
\<close>

section \<open>Characters\<close>

definition code :: "char \<Rightarrow> nat" where
  "code c = of_char c"

definition isWhiteSpace :: "char \<Rightarrow> bool" where
  "isWhiteSpace c \<longleftrightarrow> code c \<in> {9, 10, 11, 12, 13, 32, 160}"

definition isDigit :: "char \<Rightarrow> bool" where
  "isDigit c \<longleftrightarrow> 48 \<le> code c \<and> code c \<le> 57"

definition isUpperAZ :: "char \<Rightarrow> bool" where
  "isUpperAZ c \<longleftrightarrow> 65 \<le> code c \<and> code c \<le> 90"

definition isLowerAZ :: "char \<Rightarrow> bool" where
  "isLowerAZ c \<longleftrightarrow> 97 \<le> code c \<and> code c \<le> 122"

definition digitValue :: "char \<Rightarrow> nat" where
  "digitValue c = code c - 48"

definition digitChar :: "nat \<Rightarrow> char" where
  "digitChar d = char_of (48 + d)"

lemma code_digitChar: "d < 10 \<Longrightarrow> code (digitChar d) = 48 + d"
  by (simp add: code_def digitChar_def)

lemma digitValue_digitChar [simp]: "d < 10 \<Longrightarrow> digitValue (digitChar d) = d"
  by (simp add: digitValue_def code_digitChar)

lemma isDigit_digitChar [simp]: "d < 10 \<Longrightarrow> isDigit (digitChar d)"
  by (simp add: isDigit_def code_digitChar)

lemma digitChar_digitValue [simp]: "isDigit c \<Longrightarrow> digitChar (digitValue c) = c"
  by (simp add: isDigit_def digitChar_def digitValue_def code_def)

lemma digitValue_less [simp]: "isDigit c \<Longrightarrow> digitValue c < 10"
  unfolding isDigit_def digitValue_def by linarith

lemma digitValue_inj: "isDigit c \<Longrightarrow> isDigit d \<Longrightarrow> digitValue c = digitValue d \<longleftrightarrow> c = d"
  by (metis digitChar_digitValue)

lemma isDigit_0 [simp]: "isDigit (CHR ''0'')" "digitValue (CHR ''0'') = 0"
  by (simp_all add: isDigit_def digitValue_def code_def)

lemma digitChar_0: "digitChar 0 = CHR ''0''"
  using digitChar_digitValue [OF isDigit_0(1)] by simp

section \<open>trim\<close>

definition trim :: "string \<Rightarrow> string" where
  "trim s = rev (dropWhile isWhiteSpace (rev (dropWhile isWhiteSpace s)))"

definition trimmed :: "string \<Rightarrow> bool" where
  "trimmed s \<longleftrightarrow> s = [] \<or> (\<not> isWhiteSpace (hd s) \<and> \<not> isWhiteSpace (last s))"

lemma dropWhile_trimmed: "trimmed s \<Longrightarrow> dropWhile isWhiteSpace s = s"
  by (cases s) (auto simp: trimmed_def)

lemma trim_trimmed [simp]: "trimmed (trim s)"
proof (cases "trim s = []")
  case True
  then show ?thesis by (simp add: trimmed_def)
next
  case False
  let ?t = "dropWhile isWhiteSpace s"
  have ne: "dropWhile isWhiteSpace (rev ?t) \<noteq> []"
    using False by (simp add: trim_def)
  then have last: "\<not> isWhiteSpace (last (trim s))"
    using hd_dropWhile [OF ne] by (simp add: trim_def last_rev)
  obtain w where "rev ?t = w @ dropWhile isWhiteSpace (rev ?t)"
    by (metis takeWhile_dropWhile_id)
  then have "?t = rev (dropWhile isWhiteSpace (rev ?t)) @ rev w"
    by (metis rev_append rev_rev_ident)
  then have split: "?t = trim s @ rev w" by (simp add: trim_def)
  then have "?t \<noteq> []" "hd ?t = hd (trim s)" using False by auto
  then have "\<not> isWhiteSpace (hd (trim s))" using hd_dropWhile [of isWhiteSpace s] by simp
  with last show ?thesis by (simp add: trimmed_def)
qed

lemma trim_id: "trimmed s \<Longrightarrow> trim s = s"
proof -
  assume t: "trimmed s"
  then have "trimmed (rev s)" by (cases "s = []") (auto simp: trimmed_def hd_rev last_rev)
  with t show "trim s = s" by (simp add: trim_def dropWhile_trimmed)
qed

lemma trim_trim [simp]: "trim (trim s) = trim s"
  by (simp add: trim_id)

lemma trim_eq_iff: "trim s = s \<longleftrightarrow> trimmed s"
  by (metis trim_id trim_trimmed)

lemma length_trim_le: "length (trim s) \<le> length s"
  unfolding trim_def
  by (metis length_dropWhile_le length_rev order_trans)

lemma set_trim: "set (trim s) \<subseteq> set s"
  unfolding trim_def by (auto dest!: set_dropWhileD)

section \<open>Decimal numbers\<close>

definition allDigits :: "string \<Rightarrow> bool" where
  "allDigits s \<longleftrightarrow> s \<noteq> [] \<and> (\<forall>c \<in> set s. isDigit c)"

text \<open>The value of a digit string (\<open>Number\<close>, \<open>BigInt\<close>), and of a number as digits.\<close>

definition parseDigits :: "string \<Rightarrow> nat" where
  "parseDigits s = foldl (\<lambda>n c. 10 * n + digitValue c) 0 s"

fun showNat :: "nat \<Rightarrow> string" where
  "showNat n = (if n < 10 then [digitChar n] else showNat (n div 10) @ [digitChar (n mod 10)])"

declare showNat.simps [simp del]

definition padStart :: "nat \<Rightarrow> string \<Rightarrow> string" where
  "padStart len s = replicate (len - length s) (CHR ''0'') @ s"

lemma parseDigits_append1 [simp]: "parseDigits (s @ [c]) = 10 * parseDigits s + digitValue c"
  by (simp add: parseDigits_def)

lemma parseDigits_Nil [simp]: "parseDigits [] = 0"
  by (simp add: parseDigits_def)

lemma parseDigits_append: "parseDigits (s @ t) = parseDigits s * 10 ^ length t + parseDigits t"
  by (induction t rule: rev_induct)
    (simp_all add: append_assoc [symmetric] algebra_simps del: append_assoc)

lemma parse_showNat [simp]: "parseDigits (showNat n) = n"
proof (induction n rule: showNat.induct)
  case (1 n)
  then show ?case
    by (subst showNat.simps) (simp add: parseDigits_def)
qed

lemma digits_showNat: "\<forall>c \<in> set (showNat n). isDigit c"
proof (induction n rule: showNat.induct)
  case (1 n)
  then show ?case by (subst showNat.simps) auto
qed

lemma showNat_nonempty [simp]: "showNat n \<noteq> []"
  by (subst showNat.simps) simp

lemma allDigits_showNat [simp]: "allDigits (showNat n)"
  by (simp add: allDigits_def digits_showNat)

lemma hd_showNat: "0 < n \<Longrightarrow> hd (showNat n) \<noteq> CHR ''0''"
proof (induction n rule: showNat.induct)
  case (1 n)
  show ?case
  proof (cases "n < 10")
    case True
    with "1.prems" have "digitValue (digitChar n) \<noteq> 0" by simp
    then have "digitChar n \<noteq> CHR ''0''" by (metis isDigit_0(2))
    with True show ?thesis by (subst showNat.simps) simp
  next
    case False
    then have "0 < n div 10" by simp
    with "1.IH" [OF False] False show ?thesis by (subst showNat.simps) simp
  qed
qed

lemma showNat_inj: "showNat m = showNat n \<longleftrightarrow> m = n"
  by (metis parse_showNat)

lemma parseDigits_zeros: "parseDigits (replicate k (CHR ''0'') @ s) = parseDigits s"
proof -
  have "parseDigits (replicate k (CHR ''0'')) = 0"
    by (induction k) (simp_all add: replicate_app_Cons_same parseDigits_def)
  then show ?thesis by (simp add: parseDigits_append)
qed

lemma parse_padStart [simp]: "parseDigits (padStart k s) = parseDigits s"
  by (simp add: padStart_def parseDigits_zeros)

lemma length_padStart: "length (padStart k s) = max k (length s)"
  by (simp add: padStart_def)

lemma allDigits_padStart [simp]: "allDigits s \<Longrightarrow> allDigits (padStart k s)"
  by (auto simp: allDigits_def padStart_def)

lemma padStart_showNat_inj: "padStart k (showNat m) = padStart k (showNat n) \<longleftrightarrow> m = n"
  by (metis parse_padStart parse_showNat)

lemma parseDigits_less: "\<forall>c \<in> set s. isDigit c \<Longrightarrow> parseDigits s < 10 ^ length s"
proof (induction s rule: rev_induct)
  case Nil
  then show ?case by simp
next
  case (snoc c s)
  then have "parseDigits s < 10 ^ length s" "digitValue c < 10" by auto
  then have "10 * parseDigits s + digitValue c < 10 * 10 ^ length s" by linarith
  then show ?case by simp
qed

lemma parseDigits_inj_length:
  assumes "\<forall>c \<in> set s. isDigit c" "\<forall>c \<in> set t. isDigit c" "length s = length t"
    and "parseDigits s = parseDigits t"
  shows "s = t"
  using assms
proof (induction s arbitrary: t rule: rev_induct)
  case Nil
  then show ?case by simp
next
  case (snoc c s)
  then obtain t' d where t: "t = t' @ [d]" by (metis append_Nil2 length_append_singleton length_0_conv nat.simps(3) rev_exhaust)
  with snoc.prems have cd: "digitValue c < 10" "digitValue d < 10" by auto
  from snoc.prems t have eq: "10 * parseDigits s + digitValue c = 10 * parseDigits t' + digitValue d"
    by simp
  with cd have "parseDigits s = parseDigits t'" "digitValue c = digitValue d" by presburger+
  with snoc.IH [of t'] snoc.prems t digitValue_inj [of c d] show ?case by simp
qed

lemma length_showNat_le_iff:
  assumes "0 < k"
  shows "length (showNat n) \<le> k \<longleftrightarrow> n < 10 ^ k"
  using assms
proof (induction n arbitrary: k rule: showNat.induct)
  case (1 n)
  show ?case
  proof (cases "n < 10")
    case True
    have "(10::nat) \<le> 10 ^ k" using "1.prems" by (cases k) simp_all
    with True have "n < 10 ^ k" by linarith
    with True "1.prems" show ?thesis by (subst showNat.simps) simp
  next
    case False
    then have len: "length (showNat n) = Suc (length (showNat (n div 10)))"
      by (subst showNat.simps) simp
    obtain k' where k: "k = Suc k'" using "1.prems" by (cases k) auto
    show ?thesis
    proof (cases k')
      case 0
      have "1 \<le> length (showNat (n div 10))" by (simp add: Suc_le_eq)
      with False len k 0 show ?thesis by simp
    next
      case (Suc j)
      have "length (showNat (n div 10)) \<le> k' \<longleftrightarrow> n div 10 < 10 ^ k'"
        using "1.IH" [OF False, of k'] Suc by simp
      also have "\<dots> \<longleftrightarrow> n < 10 ^ k"
        by (simp add: k less_mult_imp_div_less div_less_iff_less_mult mult.commute)
      finally show ?thesis using len k by simp
    qed
  qed
qed

text \<open>\<open>String\<close> of an integer.\<close>

definition showInt :: "int \<Rightarrow> string" where
  "showInt n = (if n < 0 then CHR ''-'' # showNat (nat (- n)) else showNat (nat n))"

lemma showInt_nonneg: "0 \<le> n \<Longrightarrow> showInt n = showNat (nat n)"
  by (simp add: showInt_def)

text \<open>
  The same on integers, as code equations: evaluation then computes on binary numerals.
\<close>

function showPos :: "int \<Rightarrow> string" where
  "showPos n =
     (if n < 10 then [digitChar (nat n)] else showPos (n div 10) @ [digitChar (nat (n mod 10))])"
  by auto
termination by (relation "measure nat") auto

declare showPos.simps [simp del]

lemma showPos_showNat: "0 \<le> n \<Longrightarrow> showPos n = showNat (nat n)"
proof (induction n rule: showPos.induct)
  case (1 n)
  then show ?case
    by (subst showPos.simps, subst showNat.simps) (auto simp: nat_div_distrib nat_mod_distrib)
qed

lemma showInt_code [code]: "showInt n = (if n < 0 then CHR ''-'' # showPos (- n) else showPos n)"
  by (simp add: showInt_def showPos_showNat)

definition parseInt :: "string \<Rightarrow> int" where
  "parseInt s = foldl (\<lambda>n c. 10 * n + int (digitValue c)) 0 s"

lemma int_parseDigits [code_unfold]: "int (parseDigits s) = parseInt s"
proof (induction s rule: rev_induct)
  case Nil
  then show ?case by (simp add: parseInt_def)
next
  case (snoc c s)
  then show ?case by (simp add: parseInt_def)
qed

section \<open>Dates\<close>

text \<open>
  The groups of \<open>/^(\d{4})-(\d{2})-(\d{2})$/\<close>.
\<close>

definition matchDate :: "string \<Rightarrow> (string \<times> string \<times> string) option" where
  "matchDate s =
     (let y = take 4 s; m = take 2 (drop 5 s); d = drop 8 s in
      if length s = 10 \<and> allDigits y \<and> s ! 4 = CHR ''-'' \<and> allDigits m \<and> s ! 7 = CHR ''-'' \<and>
         allDigits d
      then Some (y, m, d) else None)"

lemma matchDate_digits:
  assumes "matchDate s = Some (y, m, d)"
  shows "allDigits y" "allDigits m" "allDigits d" "length y = 4" "length m = 2" "length d = 2"
  using assms by (auto simp: matchDate_def Let_def split: if_splits)

lemma matchDate_join:
  assumes "allDigits y" "allDigits m" "allDigits d" "length y = 4" "length m = 2" "length d = 2"
  shows "matchDate (y @ ''-'' @ m @ ''-'' @ d) = Some (y, m, d)"
  using assms by (simp add: matchDate_def Let_def nth_append)

end
