(* ===== verification/CreditInvoice.thy ===== *)
theory CreditInvoice
  imports InvoiceLine Split JsStrings
begin

text \<open>
  Credit notes against the lines of an invoice (domain/calculateCreditInvoice.ts): the
  capacity of every source line, the sums of the earlier credits, the lines of the new
  credit as differences of cumulative amounts, and the tax per VAT rate as a difference of
  cumulative taxes that is split over the lines. \<open>localeCompare\<close>, which orders the lines
  of a rate before the split, is the parameter \<open>lc\<close>: the properties hold for every
  comparator.
\<close>

section \<open>Types\<close>

record CreditSourceLine =
  src_id :: string
  src_lineOrder :: number
  src_quantityHundredths :: number
  src_priceInputMode :: PriceInputMode
  src_vatRateBasisPoints :: number
  src_baseCents :: number
  src_discountCents :: number
  src_netCents :: number
  src_vatCents :: number
  src_grossCents :: number

record PreviousCreditLineAllocation =
  pa_sourceInvoiceLineId :: string
  pa_quantityHundredths :: number
  pa_baseCents :: number
  pa_discountCents :: number
  pa_netCents :: number
  pa_vatCents :: number
  pa_grossCents :: number

record RequestedCreditLine =
  rq_sourceInvoiceLineId :: string
  rq_quantityHundredths :: number

record CalculatedCreditLine =
  cl_sourceInvoiceLineId :: string
  cl_quantityHundredths :: number
  cl_priceInputMode :: PriceInputMode
  cl_vatRateBasisPoints :: number
  cl_baseCents :: number
  cl_discountCents :: number
  cl_netCents :: number
  cl_vatCents :: number
  cl_grossCents :: number

record CalculatedCreditInvoice =
  ci_lines :: "CalculatedCreditLine list"
  ci_totals :: InvoiceTotals

record CreditLineCapacity =
  cap_sourceInvoiceLineId :: string
  cap_quantityHundredths :: number
  cap_priceInputMode :: PriceInputMode
  cap_vatRateBasisPoints :: number
  cap_baseCents :: number
  cap_discountedInputCents :: number

record MutableVatGroup =
  grp_mode :: PriceInputMode
  grp_lines :: "CreditSourceLine list"

record PreviousAllocationTotal =
  pt_quantityHundredths :: number
  pt_baseCents :: number
  pt_discountCents :: number
  pt_netCents :: number
  pt_vatCents :: number
  pt_grossCents :: number

record PreviousTaxTotal =
  pv_mode :: PriceInputMode
  pv_netCents :: number
  pv_vatCents :: number
  pv_grossCents :: number

section \<open>Guards and checked arithmetic\<close>

definition requireNonNegativeCredit :: "number \<Rightarrow> string \<Rightarrow> unit result" where
  "requireNonNegativeCredit value fieldName =
     (if \<not> isSafeInteger value \<or> value < 0 then
        Inl (InvoiceCreditError (fieldName @ '' must be a non-negative safe integer.''))
      else Inr ())"

definition requirePositiveCredit :: "number \<Rightarrow> string \<Rightarrow> unit result" where
  "requirePositiveCredit value fieldName =
     andThen (requireNonNegativeCredit value fieldName) (\<lambda>_.
     if value = 0 then Inl (InvoiceCreditError (fieldName @ '' must be positive.''))
     else Inr ())"

definition requireIdentifierCredit :: "string \<Rightarrow> string \<Rightarrow> unit result" where
  "requireIdentifierCredit value fieldName =
     (if length (trim value) = 0 \<or> length value > 200 then
        Inl (InvoiceCreditError (fieldName @ '' is invalid.''))
      else Inr ())"

definition toSafeIntegerCredit :: "int \<Rightarrow> number result" where
  "toSafeIntegerCredit value =
     (if value < 0 \<or> value > MAX_SAFE_INTEGER then
        Inl (InvoiceCreditError ''Credit invoice amount exceeds the safe integer range.'')
      else Inr value)"

definition addSafeIntegers :: "number \<Rightarrow> number \<Rightarrow> number result" where
  "addSafeIntegers first second = toSafeIntegerCredit (first + second)"

definition subtractAllocation :: "number \<Rightarrow> number \<Rightarrow> number result" where
  "subtractAllocation target previous =
     (let result = jsSub target previous in
      if \<not> isSafeInteger result \<or> result < 0 then
        Inl (InvoiceCreditError ''Previous credits exceed the cumulative credit allocation.'')
      else Inr result)"

definition allocateCumulativeAmount :: "number \<Rightarrow> number \<Rightarrow> number \<Rightarrow> number result" where
  "allocateCumulativeAmount capacityCents cumulativeQuantity sourceQuantity =
     roundHalfUp (capacityCents * cumulativeQuantity) sourceQuantity"

definition sumLineAmount ::
    "CalculatedCreditLine list \<Rightarrow> (CalculatedCreditLine \<Rightarrow> number) \<Rightarrow> number result" where
  "sumLineAmount lines field = foldR (\<lambda>sum line. addSafeIntegers sum (field line)) 0 lines"

definition distributeAmount :: "number \<Rightarrow> number list \<Rightarrow> number list result" where
  "distributeAmount totalAmount weights =
     andThen (foldR addSafeIntegers 0 weights) (\<lambda>totalWeight.
     if totalWeight = 0 then
       (if totalAmount \<noteq> 0 then
          Inl (InvoiceCreditError ''Credit invoice tax cannot be allocated to zero-value lines.'')
        else Inr (map (\<lambda>_. 0) weights))
     else splitLoop addSafeIntegers subtractAllocation totalAmount totalWeight 0 0 weights)"

section \<open>Source lines and their capacities\<close>

definition validateSourceLine :: "CreditSourceLine \<Rightarrow> unit result" where
  "validateSourceLine line =
     andThen (requireIdentifierCredit (src_id line) ''Source invoice line id'') (\<lambda>_.
     andThen (requirePositiveCredit (src_lineOrder line) ''Source line order'') (\<lambda>_.
     andThen (requireNonNegativeCredit (src_quantityHundredths line) ''Source quantity'') (\<lambda>_.
     andThen (requireNonNegativeCredit (src_vatRateBasisPoints line) ''Source VAT rate'') (\<lambda>_.
     andThen (requireNonNegativeCredit (src_baseCents line) ''Source base amount'') (\<lambda>_.
     andThen (requireNonNegativeCredit (src_discountCents line) ''Source discount amount'') (\<lambda>_.
     andThen (requireNonNegativeCredit (src_netCents line) ''Source net amount'') (\<lambda>_.
     andThen (requireNonNegativeCredit (src_vatCents line) ''Source VAT amount'') (\<lambda>_.
     andThen (requireNonNegativeCredit (src_grossCents line) ''Source gross amount'') (\<lambda>_.
     if src_discountCents line > src_baseCents line \<or>
        jsAdd (src_netCents line) (src_vatCents line) \<noteq> src_grossCents line \<or>
        (src_priceInputMode line = Net \<and>
           jsSub (src_baseCents line) (src_discountCents line) \<noteq> src_netCents line) \<or>
        (src_priceInputMode line = Gross \<and>
           jsSub (src_baseCents line) (src_discountCents line) \<noteq> src_grossCents line)
     then Inl (InvoiceCreditError ''Source invoice line amounts do not reconcile.'')
     else Inr ())))))))))"

text \<open>One iteration of the first loop: the ids seen and the groups so far.\<close>

definition collectSourceLine ::
    "string list \<times> (number \<times> MutableVatGroup) list \<Rightarrow> CreditSourceLine
      \<Rightarrow> (string list \<times> (number \<times> MutableVatGroup) list) result" where
  "collectSourceLine state line =
     (case state of (sourceLineIds, groupsByRate) \<Rightarrow>
        andThen (validateSourceLine line) (\<lambda>_.
        if src_id line \<in> set sourceLineIds then
          Inl (InvoiceCreditError ''Source invoice line ids must be unique.'')
        else
          let ids = src_id line # sourceLineIds; rate = src_vatRateBasisPoints line in
          if src_quantityHundredths line = 0 \<or> src_grossCents line = 0 then Inr (ids, groupsByRate)
          else
            case map_of groupsByRate rate of
              Some existingGroup \<Rightarrow>
                if grp_mode existingGroup \<noteq> src_priceInputMode line then
                  Inl (InvoiceCreditError
                    ''Source lines with the same VAT rate must use one price input mode.'')
                else
                  Inr (ids, AList.update rate
                    (existingGroup\<lparr>grp_lines := grp_lines existingGroup @ [line]\<rparr>) groupsByRate)
            | None \<Rightarrow>
                Inr (ids, AList.update rate
                  \<lparr>grp_mode = src_priceInputMode line, grp_lines = [line]\<rparr> groupsByRate)))"

definition capacityOf :: "number \<Rightarrow> CreditSourceLine \<Rightarrow> CreditLineCapacity" where
  "capacityOf rate line =
     \<lparr>cap_sourceInvoiceLineId = src_id line,
      cap_quantityHundredths = src_quantityHundredths line,
      cap_priceInputMode = src_priceInputMode line,
      cap_vatRateBasisPoints = rate,
      cap_baseCents = src_baseCents line,
      cap_discountedInputCents = jsSub (src_baseCents line) (src_discountCents line)\<rparr>"

definition groupCapacities :: "number \<times> MutableVatGroup \<Rightarrow> CreditLineCapacity list" where
  "groupCapacities entry =
     (case entry of (rate, grp) \<Rightarrow>
        map (capacityOf rate) (jsSort (\<lambda>a b. src_lineOrder a - src_lineOrder b) (grp_lines grp)))"

definition createCreditLineCapacities ::
    "CreditSourceLine list \<Rightarrow> (string \<times> CreditLineCapacity) list result" where
  "createCreditLineCapacities sourceLines =
     andThen (foldR collectSourceLine ([], []) sourceLines) (\<lambda>(_, groupsByRate).
     Inr (foldl (\<lambda>capacities entry.
            putAll cap_sourceInvoiceLineId (groupCapacities entry) capacities) [] groupsByRate))"

section \<open>Earlier credits\<close>

definition validatePreviousAllocation :: "PreviousCreditLineAllocation \<Rightarrow> unit result" where
  "validatePreviousAllocation allocation =
     andThen (requireIdentifierCredit (pa_sourceInvoiceLineId allocation)
               ''Previous source invoice line id'') (\<lambda>_.
     andThen (requirePositiveCredit (pa_quantityHundredths allocation)
               ''Previous credit quantity'') (\<lambda>_.
     andThen (requireNonNegativeCredit (pa_baseCents allocation) ''Previous base amount'') (\<lambda>_.
     andThen (requireNonNegativeCredit (pa_discountCents allocation)
               ''Previous discount amount'') (\<lambda>_.
     andThen (requireNonNegativeCredit (pa_netCents allocation) ''Previous net amount'') (\<lambda>_.
     andThen (requireNonNegativeCredit (pa_vatCents allocation) ''Previous VAT amount'') (\<lambda>_.
     andThen (requireNonNegativeCredit (pa_grossCents allocation) ''Previous gross amount'') (\<lambda>_.
     if pa_discountCents allocation > pa_baseCents allocation \<or>
        jsAdd (pa_netCents allocation) (pa_vatCents allocation) \<noteq> pa_grossCents allocation
     then Inl (InvoiceCreditError ''Previous credit allocation amounts do not reconcile.'')
     else Inr ())))))))"

definition createEmptyPreviousAllocation :: PreviousAllocationTotal where
  "createEmptyPreviousAllocation =
     \<lparr>pt_quantityHundredths = 0, pt_baseCents = 0, pt_discountCents = 0, pt_netCents = 0,
      pt_vatCents = 0, pt_grossCents = 0\<rparr>"

definition addPreviousAllocation ::
    "PreviousAllocationTotal \<Rightarrow> PreviousCreditLineAllocation \<Rightarrow> PreviousAllocationTotal result" where
  "addPreviousAllocation p a =
     andThen (addSafeIntegers (pt_quantityHundredths p) (pa_quantityHundredths a)) (\<lambda>q.
     andThen (addSafeIntegers (pt_baseCents p) (pa_baseCents a)) (\<lambda>b.
     andThen (addSafeIntegers (pt_discountCents p) (pa_discountCents a)) (\<lambda>d.
     andThen (addSafeIntegers (pt_netCents p) (pa_netCents a)) (\<lambda>n.
     andThen (addSafeIntegers (pt_vatCents p) (pa_vatCents a)) (\<lambda>v.
     andThen (addSafeIntegers (pt_grossCents p) (pa_grossCents a)) (\<lambda>g.
     Inr \<lparr>pt_quantityHundredths = q, pt_baseCents = b, pt_discountCents = d, pt_netCents = n,
          pt_vatCents = v, pt_grossCents = g\<rparr>))))))"

definition sumPreviousStep ::
    "(string \<times> CreditLineCapacity) list \<Rightarrow> PreviousAllocationTotal option
      \<Rightarrow> PreviousCreditLineAllocation \<Rightarrow> PreviousAllocationTotal result" where
  "sumPreviousStep capacities previous allocation =
     (case map_of capacities (pa_sourceInvoiceLineId allocation) of
        None \<Rightarrow> Inl (InvoiceCreditError ''Previous credit allocation source line is invalid.'')
      | Some _ \<Rightarrow>
          andThen (validatePreviousAllocation allocation) (\<lambda>_.
          addPreviousAllocation
            (case previous of None \<Rightarrow> createEmptyPreviousAllocation | Some p \<Rightarrow> p) allocation))"

definition previousWithinCapacity :: "CreditLineCapacity \<Rightarrow> PreviousAllocationTotal \<Rightarrow> bool" where
  "previousWithinCapacity capacity tot \<longleftrightarrow>
     \<not> (pt_quantityHundredths tot > cap_quantityHundredths capacity \<or>
        pt_baseCents tot > cap_baseCents capacity \<or>
        pt_discountCents tot > cap_baseCents capacity \<or>
        jsSub (pt_baseCents tot) (pt_discountCents tot) < 0 \<or>
        (cap_priceInputMode capacity = Net \<and>
          (pt_netCents tot > cap_discountedInputCents capacity \<or>
           jsSub (pt_baseCents tot) (pt_discountCents tot) \<noteq> pt_netCents tot)) \<or>
        (cap_priceInputMode capacity = Gross \<and>
          (pt_grossCents tot > cap_discountedInputCents capacity \<or>
           jsSub (pt_baseCents tot) (pt_discountCents tot) \<noteq> pt_grossCents tot)))"

definition sumPreviousAllocations ::
    "PreviousCreditLineAllocation list \<Rightarrow> (string \<times> CreditLineCapacity) list
      \<Rightarrow> (string \<times> PreviousAllocationTotal) list result" where
  "sumPreviousAllocations previousAllocations capacities =
     andThen (groupR pa_sourceInvoiceLineId (sumPreviousStep capacities) [] previousAllocations)
       (\<lambda>totals.
     andThen (eachR (\<lambda>(sourceInvoiceLineId, tot).
         case map_of capacities sourceInvoiceLineId of
           None \<Rightarrow> Inl (InvoiceCreditError ''Previous credits exceed the source invoice line.'')
         | Some capacity \<Rightarrow>
             if previousWithinCapacity capacity tot then Inr ()
             else Inl (InvoiceCreditError ''Previous credits exceed the source invoice line.''))
       totals) (\<lambda>_.
     Inr totals))"

section \<open>The lines of the credit\<close>

definition allocateCreditLine ::
    "CreditLineCapacity \<Rightarrow> PreviousAllocationTotal \<Rightarrow> number \<Rightarrow> CalculatedCreditLine result" where
  "allocateCreditLine capacity previous cumulativeQuantity =
     andThen (allocateCumulativeAmount (cap_baseCents capacity) cumulativeQuantity
               (cap_quantityHundredths capacity)) (\<lambda>cumulativeBase.
     andThen (allocateCumulativeAmount (cap_discountedInputCents capacity) cumulativeQuantity
               (cap_quantityHundredths capacity)) (\<lambda>cumulativeInput.
     andThen (subtractAllocation cumulativeBase (pt_baseCents previous)) (\<lambda>base.
     andThen (subtractAllocation cumulativeInput
               (if cap_priceInputMode capacity = Net then pt_netCents previous
                else pt_grossCents previous)) (\<lambda>discountedInput.
     let disc = jsSub base discountedInput;
         net = (if cap_priceInputMode capacity = Net then discountedInput else 0);
         gross = (if cap_priceInputMode capacity = Gross then discountedInput else net);
         vat = jsSub gross net in
     if disc < 0 \<or>
        (cap_priceInputMode capacity = Net \<and> discountedInput \<noteq> net) \<or>
        (cap_priceInputMode capacity = Gross \<and> discountedInput \<noteq> gross)
     then Inl (InvoiceCreditError ''Calculated credit line amounts do not reconcile.'')
     else
       Inr \<lparr>cl_sourceInvoiceLineId = cap_sourceInvoiceLineId capacity,
            cl_quantityHundredths = jsSub cumulativeQuantity (pt_quantityHundredths previous),
            cl_priceInputMode = cap_priceInputMode capacity,
            cl_vatRateBasisPoints = cap_vatRateBasisPoints capacity,
            cl_baseCents = base, cl_discountCents = disc, cl_netCents = net,
            cl_vatCents = vat, cl_grossCents = gross\<rparr>))))"

definition creditRequestedLine ::
    "(string \<times> CreditLineCapacity) list \<Rightarrow> (string \<times> PreviousAllocationTotal) list
      \<Rightarrow> RequestedCreditLine \<Rightarrow> CalculatedCreditLine result" where
  "creditRequestedLine capacities previousBySourceLine requestedLine =
     (case map_of capacities (rq_sourceInvoiceLineId requestedLine) of
        None \<Rightarrow> Inl (InvoiceCreditError ''Credit invoice source line is invalid.'')
      | Some capacity \<Rightarrow>
          andThen (requirePositiveCredit (rq_quantityHundredths requestedLine)
                    ''Credit quantity'') (\<lambda>_.
          let previous =
                (case map_of previousBySourceLine (rq_sourceInvoiceLineId requestedLine) of
                   None \<Rightarrow> createEmptyPreviousAllocation | Some p \<Rightarrow> p);
              cumulativeQuantity =
                jsAdd (pt_quantityHundredths previous) (rq_quantityHundredths requestedLine) in
          if \<not> isSafeInteger cumulativeQuantity \<or>
             cumulativeQuantity > cap_quantityHundredths capacity
          then Inl (InvoiceCreditError
                 ''Credit quantity exceeds the remaining source line quantity.'')
          else allocateCreditLine capacity previous cumulativeQuantity))"

text \<open>The callback of \<open>requestedLines.map\<close>, with the Set of ids it captures as an argument.\<close>

fun creditRequestedLines ::
    "(string \<times> CreditLineCapacity) list \<Rightarrow> (string \<times> PreviousAllocationTotal) list
      \<Rightarrow> string list \<Rightarrow> RequestedCreditLine list \<Rightarrow> CalculatedCreditLine list result" where
  "creditRequestedLines capacities previousBySourceLine ids [] = Inr []"
| "creditRequestedLines capacities previousBySourceLine ids (r # rs) =
     (if rq_sourceInvoiceLineId r \<in> set ids then
        Inl (InvoiceCreditError ''Credit invoice source lines must be unique.'')
      else
        andThen (creditRequestedLine capacities previousBySourceLine r) (\<lambda>line.
        andThen (creditRequestedLines capacities previousBySourceLine
                  (rq_sourceInvoiceLineId r # ids) rs) (\<lambda>lines.
        Inr (line # lines))))"

section \<open>Tax per VAT rate\<close>

definition previousTaxStep ::
    "(string \<times> CreditLineCapacity) list \<Rightarrow> PreviousTaxTotal option
      \<Rightarrow> PreviousCreditLineAllocation \<Rightarrow> PreviousTaxTotal result" where
  "previousTaxStep capacities existing allocation =
     (case map_of capacities (pa_sourceInvoiceLineId allocation) of
        None \<Rightarrow> Inl (InvoiceCreditError ''Previous credit allocation source line is invalid.'')
      | Some capacity \<Rightarrow>
          let previous =
                (case existing of
                   None \<Rightarrow> \<lparr>pv_mode = cap_priceInputMode capacity, pv_netCents = 0,
                            pv_vatCents = 0, pv_grossCents = 0\<rparr>
                 | Some p \<Rightarrow> p) in
          if pv_mode previous \<noteq> cap_priceInputMode capacity then
            Inl (InvoiceCreditError
              ''Credit lines with the same VAT rate must use one price input mode.'')
          else
            andThen (addSafeIntegers (pv_netCents previous) (pa_netCents allocation)) (\<lambda>n.
            andThen (addSafeIntegers (pv_vatCents previous) (pa_vatCents allocation)) (\<lambda>v.
            andThen (addSafeIntegers (pv_grossCents previous) (pa_grossCents allocation)) (\<lambda>g.
            Inr \<lparr>pv_mode = pv_mode previous, pv_netCents = n, pv_vatCents = v,
                 pv_grossCents = g\<rparr>))))"

text \<open>
  The key of the Map is the rate of the capacity; it is read after the capacity was found
  to exist, so the value given here for a missing capacity is never used.
\<close>

definition rateOfAllocation ::
    "(string \<times> CreditLineCapacity) list \<Rightarrow> PreviousCreditLineAllocation \<Rightarrow> number" where
  "rateOfAllocation capacities allocation =
     (case map_of capacities (pa_sourceInvoiceLineId allocation) of
        None \<Rightarrow> 0 | Some capacity \<Rightarrow> cap_vatRateBasisPoints capacity)"

definition previousTaxByRate ::
    "(string \<times> CreditLineCapacity) list \<Rightarrow> PreviousCreditLineAllocation list
      \<Rightarrow> (number \<times> PreviousTaxTotal) list result" where
  "previousTaxByRate capacities previousAllocations =
     groupR (rateOfAllocation capacities) (previousTaxStep capacities) [] previousAllocations"

definition reconcileNetGroup ::
    "number \<Rightarrow> PreviousTaxTotal \<Rightarrow> CalculatedCreditLine list \<Rightarrow> CalculatedCreditLine list result" where
  "reconcileNetGroup rate previous orderedLines =
     andThen (sumLineAmount orderedLines cl_netCents) (\<lambda>currentNet.
     andThen (addSafeIntegers (pv_netCents previous) currentNet) (\<lambda>cumulativeNet.
     andThen (roundHalfUp (cumulativeNet * rate) basisPointsScale) (\<lambda>cumulativeVat.
     andThen (subtractAllocation cumulativeVat (pv_vatCents previous)) (\<lambda>currentVat.
     andThen (distributeAmount currentVat (map cl_netCents orderedLines)) (\<lambda>vatShares.
     mapR (\<lambda>(line, index).
         let vat = nthOr 0 vatShares index in
         andThen (addSafeIntegers (cl_netCents line) vat) (\<lambda>gross.
         Inr (line\<lparr>cl_vatCents := vat, cl_grossCents := gross\<rparr>)))
       (withIndex orderedLines))))))"

definition reconcileGrossGroup ::
    "number \<Rightarrow> PreviousTaxTotal \<Rightarrow> CalculatedCreditLine list \<Rightarrow> CalculatedCreditLine list result" where
  "reconcileGrossGroup rate previous orderedLines =
     andThen (sumLineAmount orderedLines cl_grossCents) (\<lambda>currentGross.
     andThen (addSafeIntegers (pv_grossCents previous) currentGross) (\<lambda>cumulativeGross.
     andThen (roundHalfUp (cumulativeGross * basisPointsScale) (basisPointsScale + rate))
       (\<lambda>cumulativeNet.
     andThen (subtractAllocation cumulativeNet (pv_netCents previous)) (\<lambda>currentNet.
     andThen (distributeAmount currentNet (map cl_grossCents orderedLines)) (\<lambda>netShares.
     Inr (map (\<lambda>(line, index).
         let net = nthOr 0 netShares index in
         line\<lparr>cl_netCents := net, cl_vatCents := jsSub (cl_grossCents line) net\<rparr>)
       (withIndex orderedLines)))))))"

definition reconcileRate ::
    "(string \<Rightarrow> string \<Rightarrow> int) \<Rightarrow> (number \<times> PreviousTaxTotal) list
      \<Rightarrow> number \<times> CalculatedCreditLine list \<Rightarrow> CalculatedCreditLine list result" where
  "reconcileRate lc previousByRate entry =
     (case entry of (rate, currentLines) \<Rightarrow>
        case currentLines of
          [] \<Rightarrow> Inr []
        | firstLine # _ \<Rightarrow>
            let mode = cl_priceInputMode firstLine in
            if \<exists>line \<in> set currentLines. cl_priceInputMode line \<noteq> mode then
              Inl (InvoiceCreditError
                ''Credit lines with the same VAT rate must use one price input mode.'')
            else
              let previous =
                    (case map_of previousByRate rate of
                       None \<Rightarrow> \<lparr>pv_mode = mode, pv_netCents = 0, pv_vatCents = 0,
                                pv_grossCents = 0\<rparr>
                     | Some p \<Rightarrow> p) in
              if pv_mode previous \<noteq> mode then
                Inl (InvoiceCreditError
                  ''Credit lines with the same VAT rate must use one price input mode.'')
              else
                let orderedLines =
                      jsSort (\<lambda>a b. lc (cl_sourceInvoiceLineId a) (cl_sourceInvoiceLineId b))
                        currentLines in
                case mode of
                  Net \<Rightarrow> reconcileNetGroup rate previous orderedLines
                | Gross \<Rightarrow> reconcileGrossGroup rate previous orderedLines)"

definition allocateCurrentTaxByVatRate ::
    "(string \<Rightarrow> string \<Rightarrow> int) \<Rightarrow> CalculatedCreditLine list \<Rightarrow> PreviousCreditLineAllocation list
      \<Rightarrow> (string \<times> CreditLineCapacity) list \<Rightarrow> CalculatedCreditLine list result" where
  "allocateCurrentTaxByVatRate lc lines previousAllocations capacities =
     (let currentByRate = groupBy cl_vatRateBasisPoints lines in
      andThen (previousTaxByRate capacities previousAllocations) (\<lambda>previousByRate.
      andThen (foldR (\<lambda>reconciled entry.
          andThen (reconcileRate lc previousByRate entry) (\<lambda>ls.
          Inr (putAll cl_sourceInvoiceLineId ls reconciled))) [] currentByRate)
        (\<lambda>reconciledBySourceLine.
      mapR (\<lambda>line.
          case map_of reconciledBySourceLine (cl_sourceInvoiceLineId line) of
            None \<Rightarrow> Inl (InvoiceCreditError ''Credit invoice VAT allocation is incomplete.'')
          | Some reconciled \<Rightarrow> Inr reconciled) lines)))"

section \<open>Totals of a credit and the whole calculation\<close>

definition validateCalculatedCreditLine :: "CalculatedCreditLine \<Rightarrow> unit result" where
  "validateCalculatedCreditLine line =
     andThen (requirePositiveCredit (cl_quantityHundredths line) ''Credit quantity'') (\<lambda>_.
     andThen (requireNonNegativeCredit (cl_netCents line) ''Credit net amount'') (\<lambda>_.
     andThen (requireNonNegativeCredit (cl_vatCents line) ''Credit VAT amount'') (\<lambda>_.
     andThen (requireNonNegativeCredit (cl_grossCents line) ''Credit gross amount'') (\<lambda>_.
     if jsAdd (cl_netCents line) (cl_vatCents line) \<noteq> cl_grossCents line then
       Inl (InvoiceCreditError
         ''Credit invoice line net, VAT, and gross amounts do not reconcile.'')
     else Inr ()))))"

definition creditTotalsStep ::
    "InvoiceVatBreakdown option \<Rightarrow> CalculatedCreditLine \<Rightarrow> InvoiceVatBreakdown result" where
  "creditTotalsStep previous line =
     andThen (validateCalculatedCreditLine line) (\<lambda>_.
     andThen (addSafeIntegers (case previous of None \<Rightarrow> 0 | Some p \<Rightarrow> bd_netCents p)
               (cl_netCents line)) (\<lambda>n.
     andThen (addSafeIntegers (case previous of None \<Rightarrow> 0 | Some p \<Rightarrow> bd_vatCents p)
               (cl_vatCents line)) (\<lambda>v.
     andThen (addSafeIntegers (case previous of None \<Rightarrow> 0 | Some p \<Rightarrow> bd_grossCents p)
               (cl_grossCents line)) (\<lambda>g.
     Inr \<lparr>bd_vatRateBasisPoints = cl_vatRateBasisPoints line, bd_netCents = n, bd_vatCents = v,
          bd_grossCents = g\<rparr>))))"

definition calculateCreditInvoiceTotals :: "CalculatedCreditLine list \<Rightarrow> InvoiceTotals result" where
  "calculateCreditInvoiceTotals lines =
     andThen (groupR cl_vatRateBasisPoints creditTotalsStep [] lines) (\<lambda>breakdown.
     andThen (toSafeIntegerCredit (\<Sum>line\<leftarrow>lines. cl_netCents line)) (\<lambda>net.
     andThen (toSafeIntegerCredit (\<Sum>line\<leftarrow>lines. cl_vatCents line)) (\<lambda>vat.
     andThen (toSafeIntegerCredit (\<Sum>line\<leftarrow>lines. cl_grossCents line)) (\<lambda>gross.
     Inr \<lparr>netTotalCents = net, vatTotalCents = vat, grossTotalCents = gross,
          vatBreakdown = jsSort (\<lambda>a b. bd_vatRateBasisPoints a - bd_vatRateBasisPoints b)
            (map snd breakdown)\<rparr>))))"

definition calculateCreditInvoice ::
    "(string \<Rightarrow> string \<Rightarrow> int) \<Rightarrow> CreditSourceLine list \<Rightarrow> PreviousCreditLineAllocation list
      \<Rightarrow> RequestedCreditLine list \<Rightarrow> CalculatedCreditInvoice result" where
  "calculateCreditInvoice lc sourceLines previousAllocations requestedLines =
     (if length requestedLines = 0 then
        Inl (InvoiceCreditError ''Credit invoice must contain at least one line.'')
      else
        andThen (createCreditLineCapacities sourceLines) (\<lambda>capacities.
        andThen (sumPreviousAllocations previousAllocations capacities) (\<lambda>previousBySourceLine.
        andThen (creditRequestedLines capacities previousBySourceLine [] requestedLines) (\<lambda>lines.
        andThen (allocateCurrentTaxByVatRate lc lines previousAllocations capacities)
          (\<lambda>reconciledLines.
        andThen (calculateCreditInvoiceTotals reconciledLines) (\<lambda>totals.
        Inr \<lparr>ci_lines = reconciledLines, ci_totals = totals\<rparr>))))))"

end
