(* ===== verification/InvoiceTotals.thy ===== *)
theory InvoiceTotals
  imports InvoiceLine
begin

text \<open>
  Invoice totals per VAT rate (domain/calculateInvoiceTotals.ts). The loop of the source
  fills a Map from the VAT rate to running sums; the reference definition groups the
  lines by rate with no loop and no map, and the main lemma says that the loop computes
  exactly that, or fails exactly where the reference is not accepted.
\<close>

section \<open>The calculation\<close>

record MutableVatBreakdown =
  mvb_grossInputCents :: int
  mvb_mode :: PriceInputMode
  mvb_netCents :: int

definition toSafeInteger :: "int \<Rightarrow> number result" where
  "toSafeInteger value =
     (if value > MAX_SAFE_INTEGER then
        Inl (InvoiceCalculationError ''Calculated amount exceeds the safe integer range.'')
      else Inr value)"

text \<open>
  The parameter of the source is the Pick of six fields that several line types share;
  they are the arguments here: VAT rate, base, discount, net, VAT and gross.
\<close>

definition validateCalculatedInvoiceLine ::
    "number \<Rightarrow> number \<Rightarrow> number \<Rightarrow> number \<Rightarrow> number \<Rightarrow> number \<Rightarrow> unit result" where
  "validateCalculatedInvoiceLine vatRate base disc net vat gross =
     (if \<not> isSafeInteger vatRate \<or> vatRate < 0 \<or>
         (\<exists>value \<in> set [base, disc, net, vat, gross]. \<not> isSafeInteger value \<or> value < 0) then
        Inl (InvoiceCalculationError
          ''Calculated invoice line values must be non-negative safe integers.'')
      else if jsAdd net vat \<noteq> gross then
        Inl (InvoiceCalculationError
          ''Calculated invoice line net, VAT, and gross amounts do not reconcile.'')
      else Inr ())"

definition validateLine :: "CalculatedInvoiceLine \<Rightarrow> unit result" where
  "validateLine line =
     validateCalculatedInvoiceLine (line_vatRateBasisPoints line) (line_baseCents line)
       (line_discountCents line) (line_netCents line) (line_vatCents line) (line_grossCents line)"

definition addToVatBreakdown ::
    "MutableVatBreakdown option \<Rightarrow> CalculatedInvoiceLine \<Rightarrow> MutableVatBreakdown result" where
  "addToVatBreakdown existing line =
     (case existing of
        Some b \<Rightarrow>
          if mvb_mode b \<noteq> line_priceInputMode line then
            Inl (InvoiceCalculationError
              ''Invoice lines with the same VAT rate must use one price input mode.'')
          else
            Inr (b\<lparr>mvb_grossInputCents := mvb_grossInputCents b + line_grossCents line,
                  mvb_netCents := mvb_netCents b + line_netCents line\<rparr>)
      | None \<Rightarrow>
          Inr \<lparr>mvb_grossInputCents = line_grossCents line,
               mvb_mode = line_priceInputMode line,
               mvb_netCents = line_netCents line\<rparr>)"

definition createVatBreakdownRow :: "number \<times> MutableVatBreakdown \<Rightarrow> InvoiceVatBreakdown result" where
  "createVatBreakdownRow entry =
     (case entry of (rate, b) \<Rightarrow>
        case mvb_mode b of
          Gross \<Rightarrow>
            andThen (toSafeInteger (mvb_grossInputCents b)) (\<lambda>gross.
            andThen (roundHalfUp (gross * basisPointsScale) (basisPointsScale + rate)) (\<lambda>net.
            Inr \<lparr>bd_vatRateBasisPoints = rate, bd_netCents = net,
                 bd_vatCents = jsSub gross net, bd_grossCents = gross\<rparr>))
        | Net \<Rightarrow>
            andThen (toSafeInteger (mvb_netCents b)) (\<lambda>net.
            andThen (roundHalfUp (net * rate) basisPointsScale) (\<lambda>vat.
            let gross = jsAdd net vat in
            if \<not> isSafeInteger gross then
              Inl (InvoiceCalculationError ''Calculated amount exceeds the safe integer range.'')
            else
              Inr \<lparr>bd_vatRateBasisPoints = rate, bd_netCents = net, bd_vatCents = vat,
                   bd_grossCents = gross\<rparr>)))"

definition createVatBreakdown ::
    "(number \<times> MutableVatBreakdown) list \<Rightarrow> InvoiceVatBreakdown list result" where
  "createVatBreakdown breakdownByRate =
     mapR createVatBreakdownRow (jsSort (\<lambda>a b. fst a - fst b) breakdownByRate)"

definition breakdownByRate ::
    "CalculatedInvoiceLine list \<Rightarrow> (number \<times> MutableVatBreakdown) list result" where
  "breakdownByRate lines =
     groupR line_vatRateBasisPoints
       (\<lambda>existing line. andThen (validateLine line) (\<lambda>_. addToVatBreakdown existing line)) [] lines"

definition calculateInvoiceTotals :: "CalculatedInvoiceLine list \<Rightarrow> InvoiceTotals result" where
  "calculateInvoiceTotals lines =
     andThen (breakdownByRate lines) (\<lambda>m.
     andThen (createVatBreakdown m) (\<lambda>rows.
     andThen (toSafeInteger (\<Sum>b\<leftarrow>rows. bd_netCents b)) (\<lambda>net.
     andThen (toSafeInteger (\<Sum>b\<leftarrow>rows. bd_vatCents b)) (\<lambda>vat.
     andThen (toSafeInteger (\<Sum>b\<leftarrow>rows. bd_grossCents b)) (\<lambda>gross.
     Inr \<lparr>netTotalCents = net, vatTotalCents = vat, grossTotalCents = gross,
          vatBreakdown = rows\<rparr>)))))"

section \<open>The reference: grouping by rate\<close>

definition validAmounts :: "number \<Rightarrow> number \<Rightarrow> number \<Rightarrow> number \<Rightarrow> number \<Rightarrow> number \<Rightarrow> bool" where
  "validAmounts vatRate base disc net vat gross \<longleftrightarrow>
     amount vatRate \<and> amount base \<and> amount disc \<and> amount net \<and> amount vat \<and> amount gross \<and>
     net + vat = gross"

definition validLine :: "CalculatedInvoiceLine \<Rightarrow> bool" where
  "validLine l \<longleftrightarrow>
     validAmounts (line_vatRateBasisPoints l) (line_baseCents l) (line_discountCents l)
       (line_netCents l) (line_vatCents l) (line_grossCents l)"

definition linesAt :: "number \<Rightarrow> CalculatedInvoiceLine list \<Rightarrow> CalculatedInvoiceLine list" where
  "linesAt rate lines = filter (\<lambda>l. line_vatRateBasisPoints l = rate) lines"

definition oneModePerRate :: "CalculatedInvoiceLine list \<Rightarrow> bool" where
  "oneModePerRate lines \<longleftrightarrow>
     (\<forall>l \<in> set lines. \<forall>l' \<in> set lines.
        line_vatRateBasisPoints l = line_vatRateBasisPoints l' \<longrightarrow>
        line_priceInputMode l = line_priceInputMode l')"

definition referenceRow :: "number \<Rightarrow> CalculatedInvoiceLine list \<Rightarrow> InvoiceVatBreakdown" where
  "referenceRow rate ls =
     (if \<exists>l \<in> set ls. line_priceInputMode l = Gross then
        let gross = (\<Sum>l\<leftarrow>ls. line_grossCents l); net = netOfGross gross rate in
        \<lparr>bd_vatRateBasisPoints = rate, bd_netCents = net, bd_vatCents = gross - net,
         bd_grossCents = gross\<rparr>
      else
        let net = (\<Sum>l\<leftarrow>ls. line_netCents l); vat = vatOfNet net rate in
        \<lparr>bd_vatRateBasisPoints = rate, bd_netCents = net, bd_vatCents = vat,
         bd_grossCents = net + vat\<rparr>)"

definition referenceRows :: "CalculatedInvoiceLine list \<Rightarrow> InvoiceVatBreakdown list" where
  "referenceRows lines =
     map (\<lambda>rate. referenceRow rate (linesAt rate lines))
       (sorted_list_of_set (line_vatRateBasisPoints ` set lines))"

definition referenceTotals :: "CalculatedInvoiceLine list \<Rightarrow> InvoiceTotals" where
  "referenceTotals lines =
     (let rows = referenceRows lines in
      \<lparr>netTotalCents = (\<Sum>b\<leftarrow>rows. bd_netCents b), vatTotalCents = (\<Sum>b\<leftarrow>rows. bd_vatCents b),
       grossTotalCents = (\<Sum>b\<leftarrow>rows. bd_grossCents b), vatBreakdown = rows\<rparr>)"

definition totalsAccepted :: "CalculatedInvoiceLine list \<Rightarrow> bool" where
  "totalsAccepted lines \<longleftrightarrow>
     (\<forall>l \<in> set lines. validLine l) \<and> oneModePerRate lines \<and>
     amount (\<Sum>b\<leftarrow>referenceRows lines. bd_grossCents b)"

section \<open>The loop computes the reference\<close>

lemma toSafeInteger_eq_Inr [result_simps]:
  "toSafeInteger v = Inr w \<longleftrightarrow> v \<le> MAX_SAFE_INTEGER \<and> w = v"
  by (auto simp: toSafeInteger_def)

lemma validateCalculatedInvoiceLine_ok [result_simps]:
  "validateCalculatedInvoiceLine r b d n v g = Inr u \<longleftrightarrow> validAmounts r b d n v g"
proof -
  have "validateCalculatedInvoiceLine r b d n v g = Inr u \<longleftrightarrow>
      amount r \<and> amount b \<and> amount d \<and> amount n \<and> amount v \<and> amount g \<and> jsAdd n v = g"
    by (auto simp: validateCalculatedInvoiceLine_def amount_iff)
  then show ?thesis
    unfolding validAmounts_def by (metis amount_safe jsAdd_eq_safe)
qed

lemma validLine_nonneg [simp]:
  assumes "validLine l"
  shows "0 \<le> line_netCents l" "0 \<le> line_vatCents l" "0 \<le> line_grossCents l"
    "0 \<le> line_vatRateBasisPoints l"
  using assms by (auto simp: validLine_def validAmounts_def)

lemma validateLine_ok [result_simps]: "validateLine l = Inr u \<longleftrightarrow> validLine l"
  by (simp add: validateLine_def validLine_def result_simps)

definition vatStep :: "MutableVatBreakdown option \<Rightarrow> CalculatedInvoiceLine \<Rightarrow> MutableVatBreakdown result" where
  "vatStep existing line = andThen (validateLine line) (\<lambda>_. addToVatBreakdown existing line)"

lemma vatStep_None: "vatStep None l = Inr w \<longleftrightarrow> validLine l \<and>
    w = \<lparr>mvb_grossInputCents = line_grossCents l, mvb_mode = line_priceInputMode l,
         mvb_netCents = line_netCents l\<rparr>"
  by (auto simp: vatStep_def addToVatBreakdown_def result_simps)

lemma vatStep_Some: "vatStep (Some b) l = Inr w \<longleftrightarrow>
    validLine l \<and> line_priceInputMode l = mvb_mode b \<and>
    w = \<lparr>mvb_grossInputCents = mvb_grossInputCents b + line_grossCents l, mvb_mode = mvb_mode b,
         mvb_netCents = mvb_netCents b + line_netCents l\<rparr>"
  by (auto simp: vatStep_def addToVatBreakdown_def result_simps)

lemma accR_vatStep_Some:
  "accR vatStep (Some b) ls = Inr v \<longleftrightarrow>
     (\<forall>l \<in> set ls. validLine l \<and> line_priceInputMode l = mvb_mode b) \<and>
     v = Some \<lparr>mvb_grossInputCents = mvb_grossInputCents b + (\<Sum>l\<leftarrow>ls. line_grossCents l),
               mvb_mode = mvb_mode b,
               mvb_netCents = mvb_netCents b + (\<Sum>l\<leftarrow>ls. line_netCents l)\<rparr>"
proof (induction ls arbitrary: b)
  case Nil
  then show ?case by auto
next
  case (Cons l ls)
  then show ?case
    by (auto simp: result_simps vatStep_Some add.assoc)
qed

lemma accR_vatStep_None:
  assumes "ls \<noteq> []"
  shows "accR vatStep None ls = Inr v \<longleftrightarrow>
     (\<forall>l \<in> set ls. validLine l \<and> line_priceInputMode l = line_priceInputMode (hd ls)) \<and>
     v = Some \<lparr>mvb_grossInputCents = (\<Sum>l\<leftarrow>ls. line_grossCents l),
               mvb_mode = line_priceInputMode (hd ls),
               mvb_netCents = (\<Sum>l\<leftarrow>ls. line_netCents l)\<rparr>"
  using assms by (cases ls) (auto simp: result_simps vatStep_None accR_vatStep_Some)

lemma breakdownByRate_vatStep:
  "breakdownByRate lines = groupR line_vatRateBasisPoints vatStep [] lines"
  by (simp add: breakdownByRate_def vatStep_def [abs_def])

lemma linesAt_nonempty: "rate \<in> line_vatRateBasisPoints ` set lines \<longleftrightarrow> linesAt rate lines \<noteq> []"
  by (auto simp: linesAt_def filter_empty_conv)

lemma breakdownByRate_succeeds:
  "succeeds (breakdownByRate lines) \<longleftrightarrow> (\<forall>l \<in> set lines. validLine l) \<and> oneModePerRate lines"
proof -
  have "succeeds (breakdownByRate lines) \<longleftrightarrow> (\<forall>k. succeeds (accR vatStep None (linesAt k lines)))"
    by (simp add: breakdownByRate_vatStep groupR_succeeds linesAt_def)
  also have "\<dots> \<longleftrightarrow> (\<forall>k. linesAt k lines \<noteq> [] \<longrightarrow>
      (\<forall>l \<in> set (linesAt k lines).
        validLine l \<and> line_priceInputMode l = line_priceInputMode (hd (linesAt k lines))))"
  proof (intro all_cong1)
    fix k
    show "succeeds (accR vatStep None (linesAt k lines)) \<longleftrightarrow> (linesAt k lines \<noteq> [] \<longrightarrow>
      (\<forall>l \<in> set (linesAt k lines).
        validLine l \<and> line_priceInputMode l = line_priceInputMode (hd (linesAt k lines))))"
      by (cases "linesAt k lines = []") (simp_all add: succeeds_iff accR_vatStep_None)
  qed
  also have "\<dots> \<longleftrightarrow> (\<forall>l \<in> set lines. validLine l) \<and> oneModePerRate lines" (is "?a \<longleftrightarrow> ?b")
  proof
    assume a: ?a
    have "validLine l" if "l \<in> set lines" for l
    proof -
      from that have "l \<in> set (linesAt (line_vatRateBasisPoints l) lines)"
        by (simp add: linesAt_def)
      with a show ?thesis by (metis empty_iff empty_set)
    qed
    moreover have "oneModePerRate lines"
      unfolding oneModePerRate_def
    proof (intro ballI impI)
      fix l l'
      assume "l \<in> set lines" "l' \<in> set lines"
        and "line_vatRateBasisPoints l = line_vatRateBasisPoints l'"
      then have "l \<in> set (linesAt (line_vatRateBasisPoints l) lines)"
        "l' \<in> set (linesAt (line_vatRateBasisPoints l) lines)"
        by (simp_all add: linesAt_def)
      with a show "line_priceInputMode l = line_priceInputMode l'"
        by (metis empty_iff empty_set)
    qed
    ultimately show ?b by blast
  next
    assume b: ?b
    show ?a
    proof (intro allI impI ballI conjI)
      fix k l
      assume ne: "linesAt k lines \<noteq> []" and l: "l \<in> set (linesAt k lines)"
      from ne have "hd (linesAt k lines) \<in> set (linesAt k lines)" by simp
      with l b show "validLine l" "line_priceInputMode l = line_priceInputMode (hd (linesAt k lines))"
        unfolding oneModePerRate_def by (auto simp: linesAt_def)
    qed
  qed
  finally show ?thesis .
qed

lemma breakdownByRate_map:
  assumes "breakdownByRate lines = Inr m"
  shows "distinct (map fst m)" and "set (map fst m) = line_vatRateBasisPoints ` set lines"
    and "rate \<in> line_vatRateBasisPoints ` set lines \<Longrightarrow>
      map_of m rate = Some
        \<lparr>mvb_grossInputCents = (\<Sum>l\<leftarrow>linesAt rate lines. line_grossCents l),
         mvb_mode = line_priceInputMode (hd (linesAt rate lines)),
         mvb_netCents = (\<Sum>l\<leftarrow>linesAt rate lines. line_netCents l)\<rparr>"
proof -
  note g = assms [unfolded breakdownByRate_vatStep]
  show "distinct (map fst m)" by (rule groupR_distinct [OF g]) simp
  show "set (map fst m) = line_vatRateBasisPoints ` set lines"
    using groupR_keys [OF g] by simp
  assume "rate \<in> line_vatRateBasisPoints ` set lines"
  then have "linesAt rate lines \<noteq> []" using linesAt_nonempty by blast
  note acc = accR_vatStep_None [OF this]
  have "accR vatStep None (linesAt rate lines) = Inr (map_of m rate)"
    using groupR_map_of [OF g, of rate] by (simp add: linesAt_def)
  then show "map_of m rate = Some
        \<lparr>mvb_grossInputCents = (\<Sum>l\<leftarrow>linesAt rate lines. line_grossCents l),
         mvb_mode = line_priceInputMode (hd (linesAt rate lines)),
         mvb_netCents = (\<Sum>l\<leftarrow>linesAt rate lines. line_netCents l)\<rparr>"
    unfolding acc by (rule conjunct2)
qed

lemma createVatBreakdownRow_reference:
  assumes valid: "\<forall>l \<in> set ls. validLine l \<and> line_priceInputMode l = line_priceInputMode (hd ls)"
    and "ls \<noteq> []" and rate: "0 \<le> rate"
  shows "createVatBreakdownRow (rate, \<lparr>mvb_grossInputCents = (\<Sum>l\<leftarrow>ls. line_grossCents l),
      mvb_mode = line_priceInputMode (hd ls), mvb_netCents = (\<Sum>l\<leftarrow>ls. line_netCents l)\<rparr>) = Inr row \<longleftrightarrow>
    amount (bd_grossCents (referenceRow rate ls)) \<and> row = referenceRow rate ls"
proof -
  let ?gross = "\<Sum>l\<leftarrow>ls. line_grossCents l" and ?net = "\<Sum>l\<leftarrow>ls. line_netCents l"
  have nn: "0 \<le> ?gross" "0 \<le> ?net"
    using valid by (auto intro!: sum_list_nonneg)
  have mode: "(\<exists>l \<in> set ls. line_priceInputMode l = Gross) \<longleftrightarrow> line_priceInputMode (hd ls) = Gross"
    using valid \<open>ls \<noteq> []\<close> hd_in_set by metis
  show ?thesis
  proof (cases "line_priceInputMode (hd ls)")
    case Gross
    have "rounded (?gross * 10000) (10000 + rate) \<le> ?gross"
      using netOfGross_le [OF nn(1) rate] by (simp add: netOfGross_def)
    with Gross nn rate mode show ?thesis
      using netOfGross_amount [of ?gross rate]
      by (auto simp: createVatBreakdownRow_def referenceRow_def Let_def result_simps
          roundHalfUp_eq_Inr basisPointsScale_def netOfGross_def amount_def)
  next
    case Net
    have vat: "0 \<le> vatOfNet ?net rate" "0 \<le> ?net * rate"
      using nn rate by simp_all
    have "amount (?net + vatOfNet ?net rate) \<longleftrightarrow>
        ?net \<le> MAX_SAFE_INTEGER \<and> vatOfNet ?net rate \<le> MAX_SAFE_INTEGER \<and>
        isSafeInteger (?net + vatOfNet ?net rate)"
      using nn vat by (auto simp: amount_def isSafeInteger_def)
    with Net nn vat mode show ?thesis
      by (auto simp: createVatBreakdownRow_def referenceRow_def Let_def result_simps
          roundHalfUp_eq_Inr basisPointsScale_def vatOfNet_def [symmetric] simp del: vatOfNet_nonneg)
  qed
qed


text \<open>The rows the loop creates are the reference rows, or one of them overflows.\<close>

lemma createVatBreakdown_reference:
  assumes m: "breakdownByRate lines = Inr m"
  shows "createVatBreakdown m = Inr rows \<longleftrightarrow>
    (\<forall>b \<in> set (referenceRows lines). amount (bd_grossCents b)) \<and> rows = referenceRows lines"
proof -
  let ?rates = "sorted_list_of_set (line_vatRateBasisPoints ` set lines)"
  have "succeeds (breakdownByRate lines)" by (simp add: m)
  then have valid: "\<forall>l \<in> set lines. validLine l" and mode: "oneModePerRate lines"
    by (simp_all add: breakdownByRate_succeeds)
  have row: "createVatBreakdownRow (rate, the (map_of m rate)) = Inr b \<longleftrightarrow>
      amount (bd_grossCents (referenceRow rate (linesAt rate lines))) \<and>
      b = referenceRow rate (linesAt rate lines)" if "rate \<in> set ?rates" for rate b
  proof -
    from that have r: "rate \<in> line_vatRateBasisPoints ` set lines" by simp
    then have ne: "linesAt rate lines \<noteq> []" using linesAt_nonempty by blast
    then have hd: "hd (linesAt rate lines) \<in> set (linesAt rate lines)" by simp
    have all: "\<forall>l \<in> set (linesAt rate lines). validLine l \<and>
        line_priceInputMode l = line_priceInputMode (hd (linesAt rate lines))"
      using valid mode hd by (auto simp: linesAt_def oneModePerRate_def)
    have rate: "0 \<le> rate"
      using valid r by auto
    show ?thesis
      unfolding breakdownByRate_map(3) [OF m r] option.sel
      by (rule createVatBreakdownRow_reference [OF all ne rate])
  qed
  have "createVatBreakdown m = mapR (\<lambda>rate. createVatBreakdownRow (rate, the (map_of m rate))) ?rates"
    unfolding createVatBreakdown_def jsSort_key
    by (simp only: map_of_sorted_alist [OF breakdownByRate_map(1) [OF m]] breakdownByRate_map(2) [OF m]
        mapR_map_src)
  then show ?thesis
    using mapR_functional [of ?rates "\<lambda>rate. createVatBreakdownRow (rate, the (map_of m rate))", OF row]
    by (simp add: referenceRows_def)
qed

lemma referenceRow_amounts:
  assumes "\<forall>l \<in> set ls. validLine l" and "0 \<le> rate"
  shows "0 \<le> bd_netCents (referenceRow rate ls)" "0 \<le> bd_vatCents (referenceRow rate ls)"
    and "bd_netCents (referenceRow rate ls) + bd_vatCents (referenceRow rate ls) =
      bd_grossCents (referenceRow rate ls)"
    and "bd_vatRateBasisPoints (referenceRow rate ls) = rate"
proof -
  have nn: "0 \<le> (\<Sum>l\<leftarrow>ls. line_grossCents l)" "0 \<le> (\<Sum>l\<leftarrow>ls. line_netCents l)"
    using assms(1) by (auto intro!: sum_list_nonneg)
  then show "0 \<le> bd_netCents (referenceRow rate ls)" "0 \<le> bd_vatCents (referenceRow rate ls)"
    "bd_netCents (referenceRow rate ls) + bd_vatCents (referenceRow rate ls) =
      bd_grossCents (referenceRow rate ls)"
    "bd_vatRateBasisPoints (referenceRow rate ls) = rate"
    using assms(2) netOfGross_le [OF nn(1) assms(2)] by (auto simp: referenceRow_def Let_def)
qed

lemma referenceRows_amounts:
  assumes "\<forall>l \<in> set lines. validLine l" and "b \<in> set (referenceRows lines)"
  shows "0 \<le> bd_netCents b" "0 \<le> bd_vatCents b" "bd_netCents b + bd_vatCents b = bd_grossCents b"
proof -
  from assms(2) obtain rate where "rate \<in> line_vatRateBasisPoints ` set lines"
    and b: "b = referenceRow rate (linesAt rate lines)"
    by (auto simp: referenceRows_def)
  then have "0 \<le> rate"
    using assms(1) by auto
  moreover have "\<forall>l \<in> set (linesAt rate lines). validLine l"
    using assms(1) by (simp add: linesAt_def)
  ultimately show "0 \<le> bd_netCents b" "0 \<le> bd_vatCents b"
    "bd_netCents b + bd_vatCents b = bd_grossCents b"
    using referenceRow_amounts unfolding b by blast+
qed

lemma calculateInvoiceTotals_refines_reference:
  "calculateInvoiceTotals lines = Inr t \<longleftrightarrow> totalsAccepted lines \<and> t = referenceTotals lines"
proof (cases "breakdownByRate lines")
  case (Inl e)
  then have "\<not> succeeds (breakdownByRate lines)" by simp
  then have "\<not> totalsAccepted lines"
    unfolding totalsAccepted_def breakdownByRate_succeeds by blast
  with Inl show ?thesis
    by (simp add: calculateInvoiceTotals_def)
next
  case (Inr m)
  then have "succeeds (breakdownByRate lines)" by simp
  then have valid: "\<forall>l \<in> set lines. validLine l" and mode: "oneModePerRate lines"
    by (simp_all add: breakdownByRate_succeeds)
  let ?rows = "referenceRows lines"
  let ?net = "\<Sum>b\<leftarrow>?rows. bd_netCents b" and ?vat = "\<Sum>b\<leftarrow>?rows. bd_vatCents b"
    and ?gross = "\<Sum>b\<leftarrow>?rows. bd_grossCents b"
  note rows = referenceRows_amounts [OF valid]
  have nn: "0 \<le> ?net" "0 \<le> ?vat" using rows by (auto intro!: sum_list_nonneg)
  have "?net + ?vat = (\<Sum>b\<leftarrow>?rows. bd_netCents b + bd_vatCents b)"
    by (simp add: sum_list_addf)
  also have "\<dots> = ?gross"
    using rows by (intro arg_cong [where f = sum_list] map_cong) auto
  finally have sum: "?net + ?vat = ?gross" .
  have each: "amount (bd_grossCents b)" if "amount ?gross" "b \<in> set ?rows" for b
  proof -
    have "0 \<le> bd_grossCents b'" if "b' \<in> set ?rows" for b' using rows [OF that] by simp
    then have "bd_grossCents b \<le> ?gross"
      using that(2) by (intro member_le_sum_list) auto
    with rows [OF that(2)] that(1) show ?thesis by (auto simp: amount_def)
  qed
  show ?thesis
    using Inr nn sum each valid mode
    by (auto simp: calculateInvoiceTotals_def result_simps createVatBreakdown_reference [OF Inr]
        totalsAccepted_def referenceTotals_def Let_def amount_def)
qed

text \<open>The totals of a permuted line list, and what accepted totals satisfy.\<close>

lemma linesAt_mset:
  assumes "mset lines = mset lines'"
  shows "mset (linesAt rate lines) = mset (linesAt rate lines')"
  using assms by (simp add: linesAt_def)

lemma referenceRow_mset:
  assumes "mset ls = mset ls'"
  shows "referenceRow rate ls = referenceRow rate ls'"
proof -
  have "set ls = set ls'" using assms by (rule mset_eq_setD)
  moreover have "(\<Sum>l\<leftarrow>ls. f l) = (\<Sum>l\<leftarrow>ls'. f l)" for f :: "CalculatedInvoiceLine \<Rightarrow> int"
    using assms by (metis mset_map sum_mset_sum_list)
  ultimately show ?thesis unfolding referenceRow_def by metis
qed

lemma referenceTotals_mset:
  assumes "mset lines = mset lines'"
  shows "referenceTotals lines = referenceTotals lines'"
proof -
  have "referenceRows lines = referenceRows lines'"
    using referenceRow_mset [OF linesAt_mset [OF assms]] mset_eq_setD [OF assms]
    by (simp add: referenceRows_def)
  then show ?thesis by (simp add: referenceTotals_def)
qed

lemma totalsAccepted_mset:
  assumes "mset lines = mset lines'"
  shows "totalsAccepted lines \<longleftrightarrow> totalsAccepted lines'"
proof -
  have "referenceRows lines = referenceRows lines'"
    using referenceRow_mset [OF linesAt_mset [OF assms]] mset_eq_setD [OF assms]
    by (simp add: referenceRows_def)
  with mset_eq_setD [OF assms] show ?thesis
    by (simp add: totalsAccepted_def oneModePerRate_def)
qed

lemma referenceRow_accuracy:
  assumes "\<forall>l \<in> set ls. validLine l" and "0 \<le> rate"
  defines "b \<equiv> referenceRow rate ls"
  shows "2 * \<bar>10000 * bd_vatCents b - bd_netCents b * rate\<bar> \<le> 10000 \<or>
    2 * \<bar>(10000 + rate) * bd_netCents b - 10000 * bd_grossCents b\<bar> \<le> 10000 + rate"
  using rounded_error [of 10000 "(\<Sum>l\<leftarrow>ls. line_netCents l) * rate"]
    rounded_error [of "10000 + rate" "(\<Sum>l\<leftarrow>ls. line_grossCents l) * 10000"] assms(2)
  by (auto simp: b_def referenceRow_def Let_def vatOfNet_def netOfGross_def mult.commute)

lemma referenceTotals_reconcile:
  assumes "totalsAccepted lines"
  defines "t \<equiv> referenceTotals lines"
  shows "netTotalCents t + vatTotalCents t = grossTotalCents t" (is ?sum)
    and "amount (grossTotalCents t)"
    and "map bd_vatRateBasisPoints (vatBreakdown t) =
      sorted_list_of_set (line_vatRateBasisPoints ` set lines)" (is ?rates)
    and "b \<in> set (vatBreakdown t) \<Longrightarrow>
       0 \<le> bd_netCents b \<and> 0 \<le> bd_vatCents b \<and>
       bd_netCents b + bd_vatCents b = bd_grossCents b \<and>
       (let r = bd_vatRateBasisPoints b in
        2 * \<bar>10000 * bd_vatCents b - bd_netCents b * r\<bar> \<le> 10000 \<or>
        2 * \<bar>(10000 + r) * bd_netCents b - 10000 * bd_grossCents b\<bar> \<le> 10000 + r)"
proof -
  have valid: "\<forall>l \<in> set lines. validLine l" using assms(1) by (simp add: totalsAccepted_def)
  note rows = referenceRows_amounts [OF valid]
  have "(\<Sum>b\<leftarrow>referenceRows lines. bd_netCents b) + (\<Sum>b\<leftarrow>referenceRows lines. bd_vatCents b) =
      (\<Sum>b\<leftarrow>referenceRows lines. bd_netCents b + bd_vatCents b)"
    by (simp add: sum_list_addf)
  also have "\<dots> = (\<Sum>b\<leftarrow>referenceRows lines. bd_grossCents b)"
    using rows by (intro arg_cong [where f = sum_list] map_cong) auto
  finally show ?sum by (simp add: t_def referenceTotals_def Let_def)
  show "amount (grossTotalCents t)"
    using assms(1) by (simp add: t_def referenceTotals_def Let_def totalsAccepted_def)
  have rate: "bd_vatRateBasisPoints (referenceRow r ls) = r" for r ls
    by (simp add: referenceRow_def Let_def)
  show ?rates
    by (simp add: t_def referenceTotals_def Let_def referenceRows_def rate comp_def)
  assume b: "b \<in> set (vatBreakdown t)"
  then have "b \<in> set (referenceRows lines)" by (simp add: t_def referenceTotals_def Let_def)
  moreover from this obtain r where r: "r \<in> line_vatRateBasisPoints ` set lines"
    and br: "b = referenceRow r (linesAt r lines)"
    by (auto simp: referenceRows_def)
  moreover have "0 \<le> r" using valid r by auto
  moreover have "\<forall>l \<in> set (linesAt r lines). validLine l" using valid by (simp add: linesAt_def)
  ultimately show "0 \<le> bd_netCents b \<and> 0 \<le> bd_vatCents b \<and>
       bd_netCents b + bd_vatCents b = bd_grossCents b \<and>
       (let r = bd_vatRateBasisPoints b in
        2 * \<bar>10000 * bd_vatCents b - bd_netCents b * r\<bar> \<le> 10000 \<or>
        2 * \<bar>(10000 + r) * bd_netCents b - 10000 * bd_grossCents b\<bar> \<le> 10000 + r)"
    using rows [of b] referenceRow_accuracy [of "linesAt r lines" r] rate by simp
qed

end
