(* ===== verification/CreditDraft.thy ===== *)
theory CreditDraft
  imports CreditInvoice InvoiceTotals
begin

text \<open>
  Credit-note drafts (domain/calculateCreditInvoiceDraft.ts): credits of source lines and
  freely entered lines together, within the amounts of the invoice per VAT rate, and the
  amounts that remain to be credited.
\<close>

section \<open>Types\<close>

record PreviousCreditAllocation =
  pca_sourceInvoiceLineId :: "string option"
  pca_quantityHundredths :: number
  pca_priceInputMode :: PriceInputMode
  pca_vatRateBasisPoints :: number
  pca_baseCents :: number
  pca_discountCents :: number
  pca_netCents :: number
  pca_vatCents :: number
  pca_grossCents :: number

record RequestedManualCreditLine =
  rm_lineKey :: string
  rm_quantityHundredths :: number
  rm_unitPriceCents :: number
  rm_vatRateBasisPoints :: number

text \<open>
  The VAT rate of a draft line is \<open>number | null\<close>: a number in normal drafts
  (\<open>CalculatedNormalCreditDraftLine\<close>), null in reverse-charge drafts. It is the type
  parameter of the record.
\<close>

record 'rate CalculatedCreditDraftLine =
  dl_lineKey :: string
  dl_sourceInvoiceLineId :: "string option"
  dl_quantityHundredths :: number
  dl_unitPriceCents :: "number option"
  dl_priceInputMode :: PriceInputMode
  dl_vatRateBasisPoints :: 'rate
  dl_baseCents :: number
  dl_discountCents :: number
  dl_netCents :: number
  dl_vatCents :: number
  dl_grossCents :: number

type_synonym CalculatedNormalCreditDraftLine = "number CalculatedCreditDraftLine"

record 'rate CalculatedCreditDraft =
  cd_lines :: "'rate CalculatedCreditDraftLine list"
  cd_totals :: InvoiceTotals

record VatCapacity =
  vc_priceInputMode :: PriceInputMode
  vc_netCents :: number
  vc_vatCents :: number
  vc_grossCents :: number

section \<open>Guards and checked arithmetic\<close>

definition addSafeDraft :: "number \<Rightarrow> number \<Rightarrow> number result" where
  "addSafeDraft first second =
     (let result = first + second in
      if result > MAX_SAFE_INTEGER then
        Inl (InvoiceCreditError ''Credit invoice amount exceeds the safe integer range.'')
      else Inr result)"

definition subtractSafeDraft :: "number \<Rightarrow> number \<Rightarrow> number result" where
  "subtractSafeDraft target used =
     (let result = jsSub target used in
      if \<not> isSafeInteger result \<or> result < 0 then
        Inl (InvoiceCreditError ''Credit amount exceeds the remaining source invoice amount.'')
      else Inr result)"

definition requireIdentifierDraft :: "string \<Rightarrow> string \<Rightarrow> unit result" where
  "requireIdentifierDraft value fieldName =
     (if length (trim value) = 0 \<or> length value > 200 then
        Inl (InvoiceCreditError (fieldName @ '' is invalid.''))
      else Inr ())"

definition requireCreditAmounts ::
    "PriceInputMode \<Rightarrow> number \<Rightarrow> number \<Rightarrow> number \<Rightarrow> number \<Rightarrow> string \<Rightarrow> unit result" where
  "requireCreditAmounts mode vatRate net vat gross fieldName =
     (if \<not> isSafeInteger vatRate \<or> vatRate < 0 \<or>
         (\<exists>value \<in> set [net, vat, gross]. \<not> isSafeInteger value \<or> value < 0) \<or>
         net + vat \<noteq> gross
      then Inl (InvoiceCreditError (fieldName @ '' amounts are invalid.''))
      else Inr ())"

definition sumDraftLineAmount ::
    "CalculatedNormalCreditDraftLine list \<Rightarrow> (CalculatedNormalCreditDraftLine \<Rightarrow> number)
      \<Rightarrow> number result" where
  "sumDraftLineAmount lines field = foldR (\<lambda>sum line. addSafeDraft sum (field line)) 0 lines"

definition distributeDraftAmount :: "number \<Rightarrow> number list \<Rightarrow> number list result" where
  "distributeDraftAmount totalAmount weights =
     andThen (foldR addSafeDraft 0 weights) (\<lambda>totalWeight.
     if totalWeight = 0 then
       Inl (InvoiceCreditError ''Credit invoice tax cannot be allocated to zero-value lines.'')
     else splitLoop addSafeDraft subtractSafeDraft totalAmount totalWeight 0 0 weights)"

section \<open>Capacities per VAT rate\<close>

definition vatCapacityStep :: "VatCapacity option \<Rightarrow> CreditSourceLine \<Rightarrow> VatCapacity result" where
  "vatCapacityStep current line =
     andThen (requireCreditAmounts (src_priceInputMode line) (src_vatRateBasisPoints line)
               (src_netCents line) (src_vatCents line) (src_grossCents line)
               ''Source invoice line'') (\<lambda>_.
     if (case current of None \<Rightarrow> False | Some c \<Rightarrow> vc_priceInputMode c \<noteq> src_priceInputMode line) then
       Inl (InvoiceCreditError ''Source invoice VAT rate must use one price input mode.'')
     else
       andThen (addSafeDraft (case current of None \<Rightarrow> 0 | Some c \<Rightarrow> vc_netCents c)
                 (src_netCents line)) (\<lambda>n.
       andThen (addSafeDraft (case current of None \<Rightarrow> 0 | Some c \<Rightarrow> vc_vatCents c)
                 (src_vatCents line)) (\<lambda>v.
       andThen (addSafeDraft (case current of None \<Rightarrow> 0 | Some c \<Rightarrow> vc_grossCents c)
                 (src_grossCents line)) (\<lambda>g.
       Inr \<lparr>vc_priceInputMode = src_priceInputMode line, vc_netCents = n, vc_vatCents = v,
            vc_grossCents = g\<rparr>))))"

text \<open>The second loop: the tax of a rate is recalculated on its sum.\<close>

definition taxCapacity :: "number \<times> VatCapacity \<Rightarrow> (number \<times> VatCapacity) result" where
  "taxCapacity entry =
     (case entry of (rate, capacity) \<Rightarrow>
        case vc_priceInputMode capacity of
          Net \<Rightarrow>
            andThen (roundHalfUp (vc_netCents capacity * rate) basisPointsScale) (\<lambda>vat.
            andThen (addSafeDraft (vc_netCents capacity) vat) (\<lambda>gross.
            Inr (rate, capacity\<lparr>vc_vatCents := vat, vc_grossCents := gross\<rparr>)))
        | Gross \<Rightarrow>
            andThen (roundHalfUp (vc_grossCents capacity * basisPointsScale)
                      (basisPointsScale + rate)) (\<lambda>net.
            andThen (subtractSafeDraft (vc_grossCents capacity) net) (\<lambda>vat.
            Inr (rate, capacity\<lparr>vc_netCents := net, vc_vatCents := vat\<rparr>))))"

definition createVatCapacities :: "CreditSourceLine list \<Rightarrow> (number \<times> VatCapacity) list result" where
  "createVatCapacities sourceLines =
     andThen (groupR src_vatRateBasisPoints vatCapacityStep [] sourceLines) (mapR taxCapacity)"

section \<open>Earlier credits\<close>

definition sumByRateStep :: "VatCapacity option \<Rightarrow> PreviousCreditAllocation \<Rightarrow> VatCapacity result" where
  "sumByRateStep current allocation =
     (if (case current of None \<Rightarrow> False
          | Some c \<Rightarrow> vc_priceInputMode c \<noteq> pca_priceInputMode allocation) then
        Inl (InvoiceCreditError
          ''Credit lines with the same VAT rate must use one price input mode.'')
      else
        andThen (addSafeDraft (case current of None \<Rightarrow> 0 | Some c \<Rightarrow> vc_netCents c)
                  (pca_netCents allocation)) (\<lambda>n.
        andThen (addSafeDraft (case current of None \<Rightarrow> 0 | Some c \<Rightarrow> vc_vatCents c)
                  (pca_vatCents allocation)) (\<lambda>v.
        andThen (addSafeDraft (case current of None \<Rightarrow> 0 | Some c \<Rightarrow> vc_grossCents c)
                  (pca_grossCents allocation)) (\<lambda>g.
        Inr \<lparr>vc_priceInputMode = pca_priceInputMode allocation, vc_netCents = n,
             vc_vatCents = v, vc_grossCents = g\<rparr>))))"

definition sumPreviousByRate ::
    "PreviousCreditAllocation list \<Rightarrow> (number \<times> VatCapacity) list result" where
  "sumPreviousByRate allocations = groupR pca_vatRateBasisPoints sumByRateStep [] allocations"

definition useLineStep ::
    "VatCapacity option \<Rightarrow> CalculatedNormalCreditDraftLine \<Rightarrow> VatCapacity result" where
  "useLineStep current line =
     (let used = (case current of
                    None \<Rightarrow> \<lparr>vc_priceInputMode = dl_priceInputMode line, vc_netCents = 0,
                             vc_vatCents = 0, vc_grossCents = 0\<rparr>
                  | Some c \<Rightarrow> c) in
      if vc_priceInputMode used \<noteq> dl_priceInputMode line then
        Inl (InvoiceCreditError
          ''Credit lines with the same VAT rate must use one price input mode.'')
      else
        andThen (addSafeDraft (vc_netCents used) (dl_netCents line)) (\<lambda>n.
        andThen (addSafeDraft (vc_vatCents used) (dl_vatCents line)) (\<lambda>v.
        andThen (addSafeDraft (vc_grossCents used) (dl_grossCents line)) (\<lambda>g.
        Inr \<lparr>vc_priceInputMode = vc_priceInputMode used, vc_netCents = n, vc_vatCents = v,
             vc_grossCents = g\<rparr>))))"

definition checkUsed :: "(number \<times> VatCapacity) list \<Rightarrow> number \<times> VatCapacity \<Rightarrow> unit result" where
  "checkUsed capacities entry =
     (case entry of (rate, used) \<Rightarrow>
        let ok = (case map_of capacities rate of
                    None \<Rightarrow> False
                  | Some capacity \<Rightarrow>
                      \<not> (vc_priceInputMode capacity \<noteq> vc_priceInputMode used \<or>
                         vc_netCents used > vc_netCents capacity \<or>
                         vc_vatCents used > vc_vatCents capacity \<or>
                         vc_grossCents used > vc_grossCents capacity)) in
        if ok then Inr ()
        else Inl (InvoiceCreditError
          ''Credit amount exceeds the remaining source invoice amount.''))"

definition requireWithinVatCapacity ::
    "PreviousCreditAllocation list \<Rightarrow> CalculatedNormalCreditDraftLine list
      \<Rightarrow> (number \<times> VatCapacity) list \<Rightarrow> unit result" where
  "requireWithinVatCapacity previousAllocations currentLines capacities =
     andThen (sumPreviousByRate previousAllocations) (\<lambda>usedByPrevious.
     andThen (groupR dl_vatRateBasisPoints useLineStep usedByPrevious currentLines) (\<lambda>usedByRate.
     eachR (checkUsed capacities) usedByRate))"

definition validatePreviousDraftAllocation ::
    "(string \<times> CreditSourceLine) list \<Rightarrow> (number \<times> VatCapacity) list
      \<Rightarrow> PreviousCreditAllocation \<Rightarrow> unit result" where
  "validatePreviousDraftAllocation sourceById capacities allocation =
     (if \<not> isSafeInteger (pca_quantityHundredths allocation) \<or>
         pca_quantityHundredths allocation \<le> 0 \<or>
         \<not> isSafeInteger (pca_baseCents allocation) \<or> pca_baseCents allocation < 0 \<or>
         \<not> isSafeInteger (pca_discountCents allocation) \<or> pca_discountCents allocation < 0 \<or>
         pca_discountCents allocation > pca_baseCents allocation
      then Inl (InvoiceCreditError ''Previous credit allocation values are invalid.'')
      else
        andThen (requireCreditAmounts (pca_priceInputMode allocation)
                  (pca_vatRateBasisPoints allocation) (pca_netCents allocation)
                  (pca_vatCents allocation) (pca_grossCents allocation)
                  ''Previous credit allocation'') (\<lambda>_.
        if (case map_of capacities (pca_vatRateBasisPoints allocation) of
              None \<Rightarrow> True
            | Some capacity \<Rightarrow> vc_priceInputMode capacity \<noteq> pca_priceInputMode allocation)
        then Inl (InvoiceCreditError ''Previous credit allocation VAT context is invalid.'')
        else
          case pca_sourceInvoiceLineId allocation of
            None \<Rightarrow> Inr ()
          | Some sourceId \<Rightarrow>
              if (case map_of sourceById sourceId of
                    None \<Rightarrow> True
                  | Some sourceLine \<Rightarrow>
                      src_priceInputMode sourceLine \<noteq> pca_priceInputMode allocation \<or>
                      src_vatRateBasisPoints sourceLine \<noteq> pca_vatRateBasisPoints allocation)
              then Inl (InvoiceCreditError ''Previous credit allocation source line is invalid.'')
              else Inr ()))"

definition validatePreviousDraftAllocations ::
    "PreviousCreditAllocation list \<Rightarrow> (string \<times> CreditSourceLine) list
      \<Rightarrow> (number \<times> VatCapacity) list \<Rightarrow> unit result" where
  "validatePreviousDraftAllocations allocations sourceById capacities =
     andThen (eachR (validatePreviousDraftAllocation sourceById capacities) allocations) (\<lambda>_.
     requireWithinVatCapacity allocations [] capacities)"

section \<open>Manual lines\<close>

definition calculateManualLine ::
    "RequestedManualCreditLine \<Rightarrow> (number \<times> VatCapacity) list
      \<Rightarrow> CalculatedNormalCreditDraftLine result" where
  "calculateManualLine line capacities =
     andThen (requireIdentifierDraft (rm_lineKey line) ''Manual credit line key'') (\<lambda>_.
     case map_of capacities (rm_vatRateBasisPoints line) of
       None \<Rightarrow> Inl (InvoiceCreditError
                 ''Manual credit line VAT rate is not present on the source invoice.'')
     | Some capacity \<Rightarrow>
         andThen (calculateInvoiceLine
             \<lparr>quantityHundredths = rm_quantityHundredths line,
              unitPriceCents = rm_unitPriceCents line, discount = NoDiscount,
              vatRateBasisPoints = rm_vatRateBasisPoints line,
              priceInputMode = vc_priceInputMode capacity\<rparr>) (\<lambda>calculated.
         if line_grossCents calculated = 0 then
           Inl (InvoiceCreditError ''Manual credit line must have a positive value.'')
         else
           Inr \<lparr>dl_lineKey = rm_lineKey line, dl_sourceInvoiceLineId = None,
                dl_quantityHundredths = line_quantityHundredths calculated,
                dl_unitPriceCents = Some (rm_unitPriceCents line),
                dl_priceInputMode = line_priceInputMode calculated,
                dl_vatRateBasisPoints = line_vatRateBasisPoints calculated,
                dl_baseCents = line_baseCents calculated,
                dl_discountCents = line_discountCents calculated,
                dl_netCents = line_netCents calculated,
                dl_vatCents = line_vatCents calculated,
                dl_grossCents = line_grossCents calculated\<rparr>))"

section \<open>Tax of the current draft\<close>

definition at :: "'a list \<Rightarrow> nat \<Rightarrow> 'a option" where
  "at xs i = (if i < length xs then Some (xs ! i) else None)"

definition writeNetShare ::
    "number list \<Rightarrow> CalculatedNormalCreditDraftLine list \<Rightarrow> nat \<times> nat
      \<Rightarrow> CalculatedNormalCreditDraftLine list result" where
  "writeNetShare vatShares result index =
     (case index of (lineIndex, groupIndex) \<Rightarrow>
        case at result lineIndex of
          None \<Rightarrow> Inl (InvoiceCreditError ''Credit invoice VAT allocation is incomplete.'')
        | Some line \<Rightarrow>
            let vat = nthOr 0 vatShares groupIndex in
            andThen (addSafeDraft (dl_netCents line) vat) (\<lambda>gross.
            Inr (result[lineIndex := line\<lparr>dl_vatCents := vat, dl_grossCents := gross\<rparr>])))"

definition writeGrossShare ::
    "number list \<Rightarrow> CalculatedNormalCreditDraftLine list \<Rightarrow> nat \<times> nat
      \<Rightarrow> CalculatedNormalCreditDraftLine list result" where
  "writeGrossShare netShares result index =
     (case index of (lineIndex, groupIndex) \<Rightarrow>
        case at result lineIndex of
          None \<Rightarrow> Inl (InvoiceCreditError ''Credit invoice VAT allocation is incomplete.'')
        | Some line \<Rightarrow>
            let net = nthOr 0 netShares groupIndex in
            Inr (result[lineIndex :=
              line\<lparr>dl_netCents := net, dl_vatCents := jsSub (dl_grossCents line) net\<rparr>]))"

definition netShares ::
    "number \<Rightarrow> VatCapacity \<Rightarrow> CalculatedNormalCreditDraftLine list \<Rightarrow> number list result" where
  "netShares rate previous currentLines =
     andThen (sumDraftLineAmount currentLines dl_netCents) (\<lambda>currentNet.
     andThen (addSafeDraft (vc_netCents previous) currentNet) (\<lambda>cumulativeNet.
     andThen (roundHalfUp (cumulativeNet * rate) basisPointsScale) (\<lambda>cumulativeVat.
     andThen (subtractSafeDraft cumulativeVat (vc_vatCents previous)) (\<lambda>currentVat.
     distributeDraftAmount currentVat (map dl_netCents currentLines)))))"

definition grossShares ::
    "number \<Rightarrow> VatCapacity \<Rightarrow> CalculatedNormalCreditDraftLine list \<Rightarrow> number list result" where
  "grossShares rate previous currentLines =
     andThen (sumDraftLineAmount currentLines dl_grossCents) (\<lambda>currentGross.
     andThen (addSafeDraft (vc_grossCents previous) currentGross) (\<lambda>cumulativeGross.
     andThen (roundHalfUp (cumulativeGross * basisPointsScale) (basisPointsScale + rate))
       (\<lambda>cumulativeNet.
     andThen (subtractSafeDraft cumulativeNet (vc_netCents previous)) (\<lambda>currentNet.
     distributeDraftAmount currentNet (map dl_grossCents currentLines)))))"

definition reconcileDraftRate ::
    "CalculatedNormalCreditDraftLine list \<Rightarrow> (number \<times> VatCapacity) list
      \<Rightarrow> CalculatedNormalCreditDraftLine list \<Rightarrow> number \<times> nat list
      \<Rightarrow> CalculatedNormalCreditDraftLine list result" where
  "reconcileDraftRate lines previousByRate result entry =
     (case entry of (rate, indexes) \<Rightarrow>
        andThen (mapR (\<lambda>index.
            case at lines index of
              None \<Rightarrow> Inl (InvoiceCreditError ''Credit invoice VAT allocation is incomplete.'')
            | Some line \<Rightarrow> Inr line) indexes) (\<lambda>currentLines.
        case currentLines of
          [] \<Rightarrow> Inl (InvoiceCreditError
                  ''Credit lines with the same VAT rate must use one price input mode.'')
        | firstLine # _ \<Rightarrow>
            let mode = dl_priceInputMode firstLine in
            if \<exists>line \<in> set currentLines. dl_priceInputMode line \<noteq> mode then
              Inl (InvoiceCreditError
                ''Credit lines with the same VAT rate must use one price input mode.'')
            else
              let previous =
                    (case map_of previousByRate rate of
                       None \<Rightarrow> \<lparr>vc_priceInputMode = mode, vc_netCents = 0, vc_vatCents = 0,
                                vc_grossCents = 0\<rparr>
                     | Some p \<Rightarrow> p) in
              if vc_priceInputMode previous \<noteq> mode then
                Inl (InvoiceCreditError
                  ''Credit lines with the same VAT rate must use one price input mode.'')
              else
                case mode of
                  Net \<Rightarrow>
                    andThen (netShares rate previous currentLines) (\<lambda>vatShares.
                    foldR (writeNetShare vatShares) result (withIndex indexes))
                | Gross \<Rightarrow>
                    andThen (grossShares rate previous currentLines) (\<lambda>netShares.
                    foldR (writeGrossShare netShares) result (withIndex indexes))))"

definition reconcileCurrentVat ::
    "CalculatedNormalCreditDraftLine list \<Rightarrow> PreviousCreditAllocation list
      \<Rightarrow> CalculatedNormalCreditDraftLine list result" where
  "reconcileCurrentVat lines previousAllocations =
     andThen (sumPreviousByRate previousAllocations) (\<lambda>previousByRate.
     let currentIndexesByRate =
           groupBy (\<lambda>index. dl_vatRateBasisPoints (lines ! index)) [0 ..< length lines] in
     foldR (reconcileDraftRate lines previousByRate) lines currentIndexesByRate)"

section \<open>Totals\<close>

definition totalsFromBreakdown :: "InvoiceVatBreakdown list \<Rightarrow> InvoiceTotals result" where
  "totalsFromBreakdown rows =
     andThen (foldR (\<lambda>sum row. addSafeDraft sum (bd_netCents row)) 0 rows) (\<lambda>net.
     andThen (foldR (\<lambda>sum row. addSafeDraft sum (bd_vatCents row)) 0 rows) (\<lambda>vat.
     andThen (foldR (\<lambda>sum row. addSafeDraft sum (bd_grossCents row)) 0 rows) (\<lambda>gross.
     Inr \<lparr>netTotalCents = net, vatTotalCents = vat, grossTotalCents = gross,
          vatBreakdown = rows\<rparr>)))"

text \<open>
  The two Maps of \<open>sumCreditTotals\<close>, the mode and the row of a rate, are always written
  together; they are one map to pairs here.
\<close>

definition sumCreditTotalsStep ::
    "(PriceInputMode \<times> InvoiceVatBreakdown) option \<Rightarrow> CalculatedNormalCreditDraftLine
      \<Rightarrow> (PriceInputMode \<times> InvoiceVatBreakdown) result" where
  "sumCreditTotalsStep current line =
     andThen (validateCalculatedInvoiceLine (dl_vatRateBasisPoints line) (dl_baseCents line)
               (dl_discountCents line) (dl_netCents line) (dl_vatCents line)
               (dl_grossCents line)) (\<lambda>_.
     if (case current of None \<Rightarrow> False | Some (mode, _) \<Rightarrow> mode \<noteq> dl_priceInputMode line) then
       Inl (InvoiceCalculationError
         ''Invoice lines with the same VAT rate must use one price input mode.'')
     else
       andThen (addSafeDraft (case current of None \<Rightarrow> 0 | Some (_, b) \<Rightarrow> bd_netCents b)
                 (dl_netCents line)) (\<lambda>n.
       andThen (addSafeDraft (case current of None \<Rightarrow> 0 | Some (_, b) \<Rightarrow> bd_vatCents b)
                 (dl_vatCents line)) (\<lambda>v.
       andThen (addSafeDraft (case current of None \<Rightarrow> 0 | Some (_, b) \<Rightarrow> bd_grossCents b)
                 (dl_grossCents line)) (\<lambda>g.
       Inr (dl_priceInputMode line,
            \<lparr>bd_vatRateBasisPoints = dl_vatRateBasisPoints line, bd_netCents = n,
             bd_vatCents = v, bd_grossCents = g\<rparr>)))))"

definition sumCreditTotals :: "CalculatedNormalCreditDraftLine list \<Rightarrow> InvoiceTotals result" where
  "sumCreditTotals lines =
     andThen (groupR dl_vatRateBasisPoints sumCreditTotalsStep [] lines) (\<lambda>byRate.
     totalsFromBreakdown
       (jsSort (\<lambda>a b. bd_vatRateBasisPoints a - bd_vatRateBasisPoints b) (map (snd \<circ> snd) byRate)))"

section \<open>The draft and the remaining amounts\<close>

definition toLineAllocations :: "PreviousCreditAllocation list \<Rightarrow> PreviousCreditLineAllocation list" where
  "toLineAllocations allocations =
     concat (map (\<lambda>allocation.
       case pca_sourceInvoiceLineId allocation of
         None \<Rightarrow> []
       | Some sourceId \<Rightarrow>
           [\<lparr>pa_sourceInvoiceLineId = sourceId,
             pa_quantityHundredths = pca_quantityHundredths allocation,
             pa_baseCents = pca_baseCents allocation,
             pa_discountCents = pca_discountCents allocation,
             pa_netCents = pca_netCents allocation, pa_vatCents = pca_vatCents allocation,
             pa_grossCents = pca_grossCents allocation\<rparr>]) allocations)"

definition toDraftLine :: "CalculatedCreditLine \<Rightarrow> CalculatedNormalCreditDraftLine" where
  "toDraftLine line =
     \<lparr>dl_lineKey = cl_sourceInvoiceLineId line,
      dl_sourceInvoiceLineId = Some (cl_sourceInvoiceLineId line),
      dl_quantityHundredths = cl_quantityHundredths line, dl_unitPriceCents = None,
      dl_priceInputMode = cl_priceInputMode line,
      dl_vatRateBasisPoints = cl_vatRateBasisPoints line, dl_baseCents = cl_baseCents line,
      dl_discountCents = cl_discountCents line, dl_netCents = cl_netCents line,
      dl_vatCents = cl_vatCents line, dl_grossCents = cl_grossCents line\<rparr>"

definition calculateCreditInvoiceDraft ::
    "(string \<Rightarrow> string \<Rightarrow> int) \<Rightarrow> CreditSourceLine list \<Rightarrow> PreviousCreditAllocation list
      \<Rightarrow> RequestedCreditLine list \<Rightarrow> RequestedManualCreditLine list
      \<Rightarrow> number CalculatedCreditDraft result" where
  "calculateCreditInvoiceDraft lc sourceLines previousAllocations requestedSourceLines
       requestedManualLines =
     (if length requestedSourceLines + length requestedManualLines = 0 then
        Inl (InvoiceCreditError ''Credit invoice must contain at least one line.'')
      else
        let sourceById = putAll src_id sourceLines [] in
        andThen (createVatCapacities sourceLines) (\<lambda>capacities.
        andThen (validatePreviousDraftAllocations previousAllocations sourceById capacities) (\<lambda>_.
        andThen (if length requestedSourceLines = 0 then Inr []
                 else andThen (calculateCreditInvoice lc sourceLines
                        (toLineAllocations previousAllocations) requestedSourceLines)
                        (\<lambda>credit. Inr (ci_lines credit))) (\<lambda>sourceCalculation.
        andThen (mapR (\<lambda>line. calculateManualLine line capacities) requestedManualLines)
          (\<lambda>manualCalculatedLines.
        andThen (reconcileCurrentVat (map toDraftLine sourceCalculation @ manualCalculatedLines)
                  previousAllocations) (\<lambda>reconciledLines.
        andThen (requireWithinVatCapacity previousAllocations reconciledLines capacities) (\<lambda>_.
        andThen (sumCreditTotals reconciledLines) (\<lambda>totals.
        Inr \<lparr>cd_lines = reconciledLines, cd_totals = totals\<rparr>))))))))"

definition remainingRow ::
    "(number \<times> VatCapacity) list \<Rightarrow> number \<times> VatCapacity \<Rightarrow> InvoiceVatBreakdown result" where
  "remainingRow usedByRate entry =
     (case entry of (rate, capacity) \<Rightarrow>
        let used = (case map_of usedByRate rate of
                      None \<Rightarrow> \<lparr>vc_priceInputMode = vc_priceInputMode capacity, vc_netCents = 0,
                               vc_vatCents = 0, vc_grossCents = 0\<rparr>
                    | Some u \<Rightarrow> u) in
        andThen (subtractSafeDraft (vc_netCents capacity) (vc_netCents used)) (\<lambda>n.
        andThen (subtractSafeDraft (vc_vatCents capacity) (vc_vatCents used)) (\<lambda>v.
        andThen (subtractSafeDraft (vc_grossCents capacity) (vc_grossCents used)) (\<lambda>g.
        Inr \<lparr>bd_vatRateBasisPoints = rate, bd_netCents = n, bd_vatCents = v,
             bd_grossCents = g\<rparr>))))"

definition calculateRemainingCreditTotals ::
    "CreditSourceLine list \<Rightarrow> PreviousCreditAllocation list \<Rightarrow> InvoiceTotals result" where
  "calculateRemainingCreditTotals sourceLines previousAllocations =
     (let sourceById = putAll src_id sourceLines [] in
      andThen (createVatCapacities sourceLines) (\<lambda>capacities.
      andThen (validatePreviousDraftAllocations previousAllocations sourceById capacities) (\<lambda>_.
      andThen (sumPreviousByRate previousAllocations) (\<lambda>usedByRate.
      andThen (mapR (remainingRow usedByRate) (jsSort (\<lambda>a b. fst a - fst b) capacities))
        (\<lambda>rows.
      totalsFromBreakdown rows)))))"

end
