(* ===== verification/CreditInvoiceCorrect.thy ===== *)
theory CreditInvoiceCorrect
  imports CreditInvoice InvoiceTotals
begin

text \<open>
  Correctness of the credit-note calculation of \<open>CreditInvoice\<close>: what each guard accepts,
  what the capacity map and the sums of earlier credits contain, and what the lines and the
  tax of a successful credit satisfy.
\<close>

section \<open>Guards\<close>

interpretation credit: checked_arithmetic addSafeIntegers subtractAllocation
proof
  fix a b c :: number
  assume a: "amount a" and b: "amount b"
  show "addSafeIntegers a b = Inr c \<longleftrightarrow> amount (a + b) \<and> c = a + b"
    by (auto simp: addSafeIntegers_def toSafeIntegerCredit_def amount_def)
  show "subtractAllocation a b = Inr c \<longleftrightarrow> b \<le> a \<and> c = a - b"
    using a b by (auto simp: subtractAllocation_def Let_def)
qed

lemma requireNonNegativeCredit_ok [result_simps]:
  "requireNonNegativeCredit v f = Inr u \<longleftrightarrow> amount v"
  by (auto simp: requireNonNegativeCredit_def amount_iff)

lemma requirePositiveCredit_ok [result_simps]:
  "requirePositiveCredit v f = Inr u \<longleftrightarrow> amount v \<and> v \<noteq> 0"
  by (auto simp: requirePositiveCredit_def result_simps)

definition validIdentifier :: "string \<Rightarrow> bool" where
  "validIdentifier s \<longleftrightarrow> trim s \<noteq> [] \<and> length s \<le> 200"

lemma requireIdentifierCredit_ok [result_simps]:
  "requireIdentifierCredit v f = Inr u \<longleftrightarrow> validIdentifier v"
  by (auto simp: requireIdentifierCredit_def validIdentifier_def)

lemma toSafeIntegerCredit_ok [result_simps]:
  "toSafeIntegerCredit v = Inr w \<longleftrightarrow> amount v \<and> w = v"
  by (auto simp: toSafeIntegerCredit_def amount_def)

lemma addSafeIntegers_ok [result_simps]:
  "addSafeIntegers a b = Inr c \<longleftrightarrow> amount (a + b) \<and> c = a + b"
  by (auto simp: addSafeIntegers_def result_simps)

lemma subtractAllocation_ok:
  "subtractAllocation a b = Inr c \<longleftrightarrow> amount (a - b) \<and> c = a - b"
  by (auto simp: subtractAllocation_def Let_def amount_iff isSafeInteger_def jsSub_def jsRound_def
      MAX_SAFE_INTEGER_def)

text \<open>The side a price was entered on.\<close>

definition inputSide :: "PriceInputMode \<Rightarrow> 'a \<Rightarrow> 'a \<Rightarrow> 'a" where
  "inputSide mode net gross = (case mode of Net \<Rightarrow> net | Gross \<Rightarrow> gross)"

lemma inputSide_simps [simp]: "inputSide Net n g = n" "inputSide Gross n g = g"
  by (simp_all add: inputSide_def)

definition validSource :: "CreditSourceLine \<Rightarrow> bool" where
  "validSource l \<longleftrightarrow>
     validIdentifier (src_id l) \<and> amount (src_lineOrder l) \<and> src_lineOrder l \<noteq> 0 \<and>
     amount (src_quantityHundredths l) \<and> amount (src_vatRateBasisPoints l) \<and>
     amount (src_baseCents l) \<and> amount (src_discountCents l) \<and> amount (src_netCents l) \<and>
     amount (src_vatCents l) \<and> amount (src_grossCents l) \<and>
     src_discountCents l \<le> src_baseCents l \<and>
     src_netCents l + src_vatCents l = src_grossCents l \<and>
     src_baseCents l - src_discountCents l =
       inputSide (src_priceInputMode l) (src_netCents l) (src_grossCents l)"

lemma validateSourceLine_ok [result_simps]: "validateSourceLine l = Inr u \<longleftrightarrow> validSource l"
  by (cases "src_priceInputMode l")
    (auto simp: validateSourceLine_def validSource_def result_simps jsAdd_eq_safe)

definition validPrevious :: "PreviousCreditLineAllocation \<Rightarrow> bool" where
  "validPrevious a \<longleftrightarrow>
     validIdentifier (pa_sourceInvoiceLineId a) \<and> amount (pa_quantityHundredths a) \<and>
     pa_quantityHundredths a \<noteq> 0 \<and>
     amount (pa_baseCents a) \<and> amount (pa_discountCents a) \<and> amount (pa_netCents a) \<and>
     amount (pa_vatCents a) \<and> amount (pa_grossCents a) \<and>
     pa_discountCents a \<le> pa_baseCents a \<and> pa_netCents a + pa_vatCents a = pa_grossCents a"

lemma validatePreviousAllocation_ok [result_simps]:
  "validatePreviousAllocation a = Inr u \<longleftrightarrow> validPrevious a"
  by (auto simp: validatePreviousAllocation_def validPrevious_def result_simps jsAdd_eq_safe)

section \<open>The capacity map\<close>

definition creditable :: "CreditSourceLine \<Rightarrow> bool" where
  "creditable l \<longleftrightarrow> src_quantityHundredths l \<noteq> 0 \<and> src_grossCents l \<noteq> 0"

definition oneModePerSourceRate :: "CreditSourceLine list \<Rightarrow> bool" where
  "oneModePerSourceRate ls \<longleftrightarrow>
     (\<forall>l \<in> set ls. \<forall>l' \<in> set ls. creditable l \<longrightarrow> creditable l' \<longrightarrow>
        src_vatRateBasisPoints l = src_vatRateBasisPoints l' \<longrightarrow>
        src_priceInputMode l = src_priceInputMode l')"

definition validSources :: "CreditSourceLine list \<Rightarrow> bool" where
  "validSources ls \<longleftrightarrow>
     (\<forall>l \<in> set ls. validSource l) \<and> distinct (map src_id ls) \<and> oneModePerSourceRate ls"

lemma map_values_update:
  "map (\<lambda>(k, v). (k, f v)) (AList.update k v m) = AList.update k (f v) (map (\<lambda>(k, v). (k, f v)) m)"
  by (induction m) auto

lemma map_of_map_values: "map_of (map (\<lambda>(k, v). (k, f v)) m) k = map_option f (map_of m k)"
  by (induction m) auto

lemma all_eq_hd:
  assumes "\<And>x y. x \<in> set g \<Longrightarrow> y \<in> set g \<Longrightarrow> f x = f y"
  shows "(\<forall>x \<in> set g. f x = m) \<longleftrightarrow> g = [] \<or> f (hd g) = m"
proof (cases "g = []")
  case False
  then have "hd g \<in> set g" by simp
  with assms False show ?thesis by metis
qed simp

lemma collectSourceLine_eq_Inr:
  "collectSourceLine (ids, groups) l = Inr (ids', groups') \<longleftrightarrow>
     validSource l \<and> src_id l \<notin> set ids \<and> ids' = src_id l # ids \<and>
     (if creditable l then
        (case map_of groups (src_vatRateBasisPoints l) of
           None \<Rightarrow> groups' = AList.update (src_vatRateBasisPoints l)
             \<lparr>grp_mode = src_priceInputMode l, grp_lines = [l]\<rparr> groups
         | Some g \<Rightarrow> grp_mode g = src_priceInputMode l \<and>
             groups' = AList.update (src_vatRateBasisPoints l)
               (g\<lparr>grp_lines := grp_lines g @ [l]\<rparr>) groups)
      else groups' = groups)"
  by (auto simp: collectSourceLine_def result_simps Let_def creditable_def split: option.splits)

text \<open>
  The groups of the loop are the creditable lines grouped by rate, and the mode stored
  with a group is the mode of its first line.
\<close>

lemma collectSourceLines:
  "foldR collectSourceLine ([], []) ls = Inr (ids, groups) \<longleftrightarrow>
     validSources ls \<and> ids = rev (map src_id ls) \<and>
     groups = map (\<lambda>(r, g). (r, \<lparr>grp_mode = src_priceInputMode (hd g), grp_lines = g\<rparr>))
       (groupBy src_vatRateBasisPoints (filter creditable ls))"
proof (induction ls arbitrary: ids groups rule: rev_induct)
  case Nil
  then show ?case by (auto simp: validSources_def oneModePerSourceRate_def)
next
  case (snoc l ls)
  let ?f = "\<lambda>g. \<lparr>grp_mode = src_priceInputMode (hd g), grp_lines = g\<rparr>"
  let ?by = "\<lambda>ls. groupBy src_vatRateBasisPoints (filter creditable ls)"
  let ?groups = "\<lambda>ls. map (\<lambda>(r, g). (r, ?f g)) (?by ls)"
  let ?r = "src_vatRateBasisPoints l"
  let ?g = "filter (\<lambda>x. src_vatRateBasisPoints x = ?r) (filter creditable ls)"
  have step: "foldR collectSourceLine ([], []) (ls @ [l]) = Inr (ids, groups) \<longleftrightarrow>
      validSources ls \<and> collectSourceLine (rev (map src_id ls), ?groups ls) l = Inr (ids, groups)"
    by (auto simp: foldR_append result_simps snoc.IH)
  have lookup: "map_of (?groups ls) ?r = (if ?g = [] then None else Some (?f ?g))"
    by (auto simp: map_of_map_values map_of_groupBy filter_empty_conv image_iff)
  have push: "pushAt ?r l (?by ls) = AList.update ?r (?g @ [l]) (?by ls)"
  proof (cases "?g = []")
    case True
    then have "?r \<notin> src_vatRateBasisPoints ` set (filter creditable ls)"
      by (auto simp: filter_empty_conv)
    then have "map_of (?by ls) ?r = None" unfolding map_of_groupBy by (rule if_not_P)
    with True show ?thesis unfolding pushAt_def by simp
  next
    case False
    then have "?r \<in> src_vatRateBasisPoints ` set (filter creditable ls)"
      unfolding filter_empty_conv by (metis image_eqI)
    then have "map_of (?by ls) ?r = Some ?g" unfolding map_of_groupBy by (rule if_P)
    then show ?thesis unfolding pushAt_def by simp
  qed
  have modes: "oneModePerSourceRate (ls @ [l]) \<longleftrightarrow> oneModePerSourceRate ls \<and>
      (creditable l \<longrightarrow> (\<forall>x \<in> set ?g. src_priceInputMode x = src_priceInputMode l))"
    unfolding oneModePerSourceRate_def by auto
  have same: "(\<forall>x \<in> set ?g. src_priceInputMode x = src_priceInputMode l) \<longleftrightarrow>
      (?g = [] \<or> src_priceInputMode (hd ?g) = src_priceInputMode l)" if "oneModePerSourceRate ls"
    by (rule all_eq_hd) (use that in \<open>simp add: oneModePerSourceRate_def\<close>)
  have valid: "validSources (ls @ [l]) \<longleftrightarrow> validSources ls \<and> validSource l \<and>
      src_id l \<notin> src_id ` set ls \<and>
      (creditable l \<longrightarrow> ?g = [] \<or> src_priceInputMode (hd ?g) = src_priceInputMode l)"
    using modes same by (auto simp: validSources_def)
  have hd: "?f (?g @ [l]) = (if ?g = [] then \<lparr>grp_mode = src_priceInputMode l, grp_lines = [l]\<rparr>
      else (?f ?g)\<lparr>grp_lines := ?g @ [l]\<rparr>)"
    by simp
  have upd: "?groups (ls @ [l]) =
      (if creditable l then AList.update ?r (?f (?g @ [l])) (?groups ls) else ?groups ls)"
  proof (cases "creditable l")
    case True
    then have "?by (ls @ [l]) = AList.update ?r (?g @ [l]) (?by ls)"
      by (simp add: push)
    with True show ?thesis
      by (simp only: if_True map_values_update [where f = ?f])
  qed simp
  show ?case
    unfolding step valid upd collectSourceLine_eq_Inr lookup hd by auto
qed

lemma capacities_putAll:
  "foldl (\<lambda>m e. putAll cap_sourceInvoiceLineId (groupCapacities e) m) m0 gs =
     putAll cap_sourceInvoiceLineId (concat (map groupCapacities gs)) m0"
  by (induction gs arbitrary: m0) auto

definition creditCapacity :: "CreditSourceLine \<Rightarrow> CreditLineCapacity" where
  "creditCapacity l = capacityOf (src_vatRateBasisPoints l) l"

lemma mset_map_image:
  assumes "mset xs = mset (map f ys)" and "\<And>y. g (f y) = h y"
  shows "mset (map g xs) = mset (map h ys)"
  using assms by (simp add: image_mset.compositionality comp_def)

lemma mset_concat_sorted:
  "mset (concat (map (\<lambda>(r, g). map f (sort_key h g)) gs)) = mset (map f (concat (map snd gs)))"
  by (induction gs) auto

lemma creditCapacity_simps [simp]:
  "cap_sourceInvoiceLineId (creditCapacity l) = src_id l"
  "cap_quantityHundredths (creditCapacity l) = src_quantityHundredths l"
  "cap_priceInputMode (creditCapacity l) = src_priceInputMode l"
  "cap_vatRateBasisPoints (creditCapacity l) = src_vatRateBasisPoints l"
  "cap_baseCents (creditCapacity l) = src_baseCents l"
  by (simp_all add: creditCapacity_def capacityOf_def)

lemma creditCapacity_input [simp]:
  "validSource l \<Longrightarrow>
     cap_discountedInputCents (creditCapacity l) = src_baseCents l - src_discountCents l"
proof -
  assume v: "validSource l"
  then have "amount (src_baseCents l)" "amount (src_discountCents l)"
    by (simp_all add: validSource_def)
  then show ?thesis by (simp add: creditCapacity_def capacityOf_def)
qed

lemma createCreditLineCapacities_succeeds:
  "succeeds (createCreditLineCapacities ls) \<longleftrightarrow> validSources ls"
  by (auto simp: createCreditLineCapacities_def succeeds_iff result_simps collectSourceLines)

lemma createCreditLineCapacities_lookup:
  assumes caps: "createCreditLineCapacities ls = Inr caps"
  shows "validSources ls"
    and "map_of caps i = Some c \<longleftrightarrow>
      (\<exists>l \<in> set ls. creditable l \<and> src_id l = i \<and> c = creditCapacity l)"
proof -
  let ?by = "groupBy src_vatRateBasisPoints (filter creditable ls)"
  show valid: "validSources ls"
    using caps createCreditLineCapacities_succeeds [of ls] by simp
  let ?gs = "map (\<lambda>(r, g). (r, \<lparr>grp_mode = src_priceInputMode (hd g), grp_lines = g\<rparr>)) ?by"
  let ?caps = "concat (map groupCapacities ?gs)"
  have eq: "caps = putAll cap_sourceInvoiceLineId ?caps []"
    using caps by (auto simp: createCreditLineCapacities_def result_simps collectSourceLines
        capacities_putAll)
  have part: "groupCapacities (r, \<lparr>grp_mode = m, grp_lines = g\<rparr>) =
      map creditCapacity (sort_key src_lineOrder g)" if "(r, g) \<in> set ?by" for r g m
    using that by (auto simp: groupCapacities_def creditCapacity_def mem_groupBy)
  have "mset ?caps = mset (concat (map (\<lambda>(r, g). map creditCapacity (sort_key src_lineOrder g)) ?by))"
    unfolding list.map_comp
    by (intro arg_cong [where f = "\<lambda>x. mset (concat x)"] map_cong refl) (auto simp: part)
  also have "\<dots> = mset (map creditCapacity (concat (map snd ?by)))"
    by (rule mset_concat_sorted)
  also have "\<dots> = mset (map creditCapacity (filter creditable ls))"
    by (simp add: mset_groupBy del: mset_filter)
  finally have perm: "mset ?caps = mset (map creditCapacity (filter creditable ls))" .
  then have ids: "mset (map cap_sourceInvoiceLineId ?caps) = mset (map src_id (filter creditable ls))"
    by (rule mset_map_image) simp
  have dist: "distinct (map cap_sourceInvoiceLineId ?caps)"
    unfolding mset_eq_imp_distinct_iff [OF ids]
    using valid by (simp add: validSources_def distinct_map_filter)
  have set: "set ?caps = creditCapacity ` {l \<in> set ls. creditable l}"
    unfolding mset_eq_setD [OF perm] by auto
  show "map_of caps i = Some c \<longleftrightarrow>
      (\<exists>l \<in> set ls. creditable l \<and> src_id l = i \<and> c = creditCapacity l)"
    unfolding eq putAll_lookup_iff [OF dist] set by auto
qed

section \<open>Earlier credits\<close>

definition plusTotal :: "PreviousAllocationTotal \<Rightarrow> PreviousCreditLineAllocation \<Rightarrow> PreviousAllocationTotal" where
  "plusTotal p a =
     \<lparr>pt_quantityHundredths = pt_quantityHundredths p + pa_quantityHundredths a,
      pt_baseCents = pt_baseCents p + pa_baseCents a,
      pt_discountCents = pt_discountCents p + pa_discountCents a,
      pt_netCents = pt_netCents p + pa_netCents a,
      pt_vatCents = pt_vatCents p + pa_vatCents a,
      pt_grossCents = pt_grossCents p + pa_grossCents a\<rparr>"

definition amountTotal :: "PreviousAllocationTotal \<Rightarrow> bool" where
  "amountTotal p \<longleftrightarrow>
     amount (pt_quantityHundredths p) \<and> amount (pt_baseCents p) \<and> amount (pt_discountCents p) \<and>
     amount (pt_netCents p) \<and> amount (pt_vatCents p) \<and> amount (pt_grossCents p)"

text \<open>The sum of the earlier credits of one source line.\<close>

definition creditedBefore :: "PreviousCreditLineAllocation list \<Rightarrow> string \<Rightarrow> PreviousAllocationTotal" where
  "creditedBefore prevs i =
     foldl plusTotal createEmptyPreviousAllocation (filter (\<lambda>a. pa_sourceInvoiceLineId a = i) prevs)"

definition orEmpty :: "PreviousAllocationTotal option \<Rightarrow> PreviousAllocationTotal" where
  "orEmpty v = (case v of None \<Rightarrow> createEmptyPreviousAllocation | Some p \<Rightarrow> p)"

lemma orEmpty_simps [simp]: "orEmpty None = createEmptyPreviousAllocation" "orEmpty (Some p) = p"
  by (simp_all add: orEmpty_def)

lemma addPreviousAllocation_eq_Inr [result_simps]:
  "addPreviousAllocation p a = Inr q \<longleftrightarrow> amountTotal q \<and> q = plusTotal p a"
  by (auto simp: addPreviousAllocation_def plusTotal_def amountTotal_def result_simps)

lemma sumPreviousStep_eq_Inr:
  "sumPreviousStep caps v a = Inr q \<longleftrightarrow>
     map_of caps (pa_sourceInvoiceLineId a) \<noteq> None \<and> validPrevious a \<and> amountTotal q \<and>
     q = plusTotal (orEmpty v) a"
  by (auto simp: sumPreviousStep_def result_simps orEmpty_def split: option.splits)

lemma accR_sumPrevious:
  "accR (sumPreviousStep caps) v as = Inr w \<Longrightarrow>
     (\<forall>a \<in> set as. validPrevious a \<and> map_of caps (pa_sourceInvoiceLineId a) \<noteq> None) \<and>
     orEmpty w = foldl plusTotal (orEmpty v) as \<and> (amountTotal (orEmpty v) \<longrightarrow> amountTotal (orEmpty w))"
proof (induction as arbitrary: v)
  case Nil
  then show ?case by simp
next
  case (Cons a as)
  then obtain q where q: "sumPreviousStep caps v a = Inr q" "accR (sumPreviousStep caps) (Some q) as = Inr w"
    by (auto simp: result_simps)
  from Cons.IH [OF q(2)] q(1) show ?case
    by (auto simp: sumPreviousStep_eq_Inr)
qed

text \<open>A total of earlier credits fits a line: amounts in range, and on the entered side.\<close>

definition totalReconciles :: "PriceInputMode \<Rightarrow> PreviousAllocationTotal \<Rightarrow> bool" where
  "totalReconciles mode p \<longleftrightarrow>
     amountTotal p \<and> pt_discountCents p \<le> pt_baseCents p \<and>
     pt_baseCents p - pt_discountCents p = inputSide mode (pt_netCents p) (pt_grossCents p)"

lemma empty_total [simp]:
  "pt_quantityHundredths createEmptyPreviousAllocation = 0"
  "pt_baseCents createEmptyPreviousAllocation = 0"
  "pt_discountCents createEmptyPreviousAllocation = 0"
  "pt_netCents createEmptyPreviousAllocation = 0"
  "pt_vatCents createEmptyPreviousAllocation = 0"
  "pt_grossCents createEmptyPreviousAllocation = 0"
  by (simp_all add: createEmptyPreviousAllocation_def)

lemma amountTotal_empty [simp]: "amountTotal createEmptyPreviousAllocation"
  by (simp add: amountTotal_def)

lemma totalReconciles_empty [simp]: "totalReconciles mode createEmptyPreviousAllocation"
  by (cases mode) (simp_all add: totalReconciles_def)

lemma previousWithinCapacity_reconciles:
  assumes "previousWithinCapacity cap p" and "amountTotal p"
  shows "totalReconciles (cap_priceInputMode cap) p"
    and "pt_quantityHundredths p \<le> cap_quantityHundredths cap"
    and "pt_baseCents p \<le> cap_baseCents cap"
proof -
  have safe: "jsSub (pt_baseCents p) (pt_discountCents p) = pt_baseCents p - pt_discountCents p"
    using assms(2) by (simp add: amountTotal_def)
  with assms show "totalReconciles (cap_priceInputMode cap) p"
    "pt_quantityHundredths p \<le> cap_quantityHundredths cap" "pt_baseCents p \<le> cap_baseCents cap"
    by (cases "cap_priceInputMode cap"; simp add: previousWithinCapacity_def totalReconciles_def)+
qed

lemma sumPreviousAllocations_totals:
  assumes "sumPreviousAllocations prevs caps = Inr totals"
  shows "\<forall>a \<in> set prevs. validPrevious a \<and> map_of caps (pa_sourceInvoiceLineId a) \<noteq> None"
    and "orEmpty (map_of totals i) = creditedBefore prevs i"
    and "map_of caps i = Some cap \<Longrightarrow> totalReconciles (cap_priceInputMode cap) (creditedBefore prevs i)"
proof -
  have g: "groupR pa_sourceInvoiceLineId (sumPreviousStep caps) [] prevs = Inr totals"
    and each: "\<forall>(j, tot) \<in> set totals. \<forall>cap. map_of caps j = Some cap \<longrightarrow> previousWithinCapacity cap tot"
    using assms by (auto simp: sumPreviousAllocations_def result_simps split: if_splits)
  have acc: "(\<forall>a \<in> set (filter (\<lambda>a. pa_sourceInvoiceLineId a = j) prevs).
        validPrevious a \<and> map_of caps (pa_sourceInvoiceLineId a) \<noteq> None) \<and>
      orEmpty (map_of totals j) = creditedBefore prevs j \<and> amountTotal (orEmpty (map_of totals j))" for j
    using accR_sumPrevious [OF groupR_map_of [OF g, of j]]
    unfolding creditedBefore_def map_of.simps orEmpty_simps by auto
  show "\<forall>a \<in> set prevs. validPrevious a \<and> map_of caps (pa_sourceInvoiceLineId a) \<noteq> None"
    using acc by simp
  show eq: "orEmpty (map_of totals i) = creditedBefore prevs i" using acc by blast
  assume cap: "map_of caps i = Some cap"
  show "totalReconciles (cap_priceInputMode cap) (creditedBefore prevs i)"
  proof (cases "map_of totals i")
    case None
    with eq have "creditedBefore prevs i = createEmptyPreviousAllocation" by simp
    then show ?thesis by simp
  next
    case (Some tot)
    then have "(i, tot) \<in> set totals" by (rule map_of_SomeD)
    with each cap have "previousWithinCapacity cap tot" by blast
    moreover have "amountTotal tot" "creditedBefore prevs i = tot"
      using acc [of i] Some by auto
    ultimately show ?thesis using previousWithinCapacity_reconciles(1) by simp
  qed
qed

section \<open>Credit lines\<close>

definition inputTotal :: "PriceInputMode \<Rightarrow> PreviousAllocationTotal \<Rightarrow> int" where
  "inputTotal mode p = inputSide mode (pt_netCents p) (pt_grossCents p)"

definition lineInput :: "CalculatedCreditLine \<Rightarrow> int" where
  "lineInput l = inputSide (cl_priceInputMode l) (cl_netCents l) (cl_grossCents l)"

text \<open>
  What one credit line is: with \<open>p\<close> the earlier credits of the source line \<open>s\<close> and \<open>q\<close> the
  quantity credited so far including this credit, the base and the entered amount credited
  so far are the proportional parts of the source line, rounded once.
\<close>

definition creditLineOf ::
    "CreditSourceLine \<Rightarrow> PreviousAllocationTotal \<Rightarrow> number \<Rightarrow> CalculatedCreditLine \<Rightarrow> bool" where
  "creditLineOf s p q l \<longleftrightarrow>
     cl_sourceInvoiceLineId l = src_id s \<and> cl_priceInputMode l = src_priceInputMode s \<and>
     cl_vatRateBasisPoints l = src_vatRateBasisPoints s \<and>
     cl_quantityHundredths l = q - pt_quantityHundredths p \<and>
     pt_baseCents p + cl_baseCents l = rounded (src_baseCents s * q) (src_quantityHundredths s) \<and>
     inputTotal (src_priceInputMode s) p + lineInput l =
       rounded ((src_baseCents s - src_discountCents s) * q) (src_quantityHundredths s) \<and>
     cl_baseCents l - cl_discountCents l = lineInput l \<and>
     0 \<le> cl_discountCents l \<and> amount (cl_baseCents l) \<and> amount (lineInput l)"

lemma allocateCumulativeAmount_eq_Inr:
  assumes "amount c" "0 \<le> q" "q \<le> Q" "0 < Q"
  shows "allocateCumulativeAmount c q Q = Inr r \<longleftrightarrow> r = rounded (c * q) Q"
proof -
  have "0 \<le> c" using assms(1) by (rule amount_nonneg)
  then have "rounded (c * q) Q \<le> c" "0 \<le> c * q"
    using assms rounded_share_le [of Q c q] by simp_all
  with assms show ?thesis
    by (auto simp: allocateCumulativeAmount_def roundHalfUp_eq_Inr amount_def)
qed

lemma share_amount:
  assumes "amount c" "0 \<le> q" "q \<le> Q" "0 < Q"
  shows "amount (rounded (c * q) Q)"
  using assms rounded_share_le [of Q c q] by (auto simp: amount_def)

lemma allocateCreditLine_eq_Inr:
  assumes s: "validSource s" "creditable s" and p: "totalReconciles (src_priceInputMode s) p"
    and q: "pt_quantityHundredths p < q" "q \<le> src_quantityHundredths s"
  defines "B \<equiv> rounded (src_baseCents s * q) (src_quantityHundredths s) - pt_baseCents p"
    and "N \<equiv> rounded ((src_baseCents s - src_discountCents s) * q) (src_quantityHundredths s) -
      inputTotal (src_priceInputMode s) p"
  shows "allocateCreditLine (creditCapacity s) p q = Inr l \<longleftrightarrow>
    0 \<le> B \<and> 0 \<le> N \<and> N \<le> B \<and>
    l = \<lparr>cl_sourceInvoiceLineId = src_id s,
         cl_quantityHundredths = q - pt_quantityHundredths p,
         cl_priceInputMode = src_priceInputMode s,
         cl_vatRateBasisPoints = src_vatRateBasisPoints s,
         cl_baseCents = B, cl_discountCents = B - N,
         cl_netCents = inputSide (src_priceInputMode s) N 0,
         cl_vatCents = N - inputSide (src_priceInputMode s) N 0, cl_grossCents = N\<rparr>"
proof -
  have am: "amount (src_baseCents s)" "amount (src_discountCents s)"
      "amount (src_quantityHundredths s)" "src_discountCents s \<le> src_baseCents s"
    and p': "amount (pt_quantityHundredths p)" "amount (pt_baseCents p)" "amount (pt_netCents p)"
      "amount (pt_grossCents p)"
    using s p by (simp_all add: validSource_def totalReconciles_def amountTotal_def)
  then have input: "amount (src_baseCents s - src_discountCents s)" by (auto simp: amount_def)
  have q0: "0 \<le> q" "0 < src_quantityHundredths s" using q p' by auto
  then have qa: "amount q" using q am by (auto simp: amount_def)
  note alloc = allocateCumulativeAmount_eq_Inr [OF _ q0(1) q(2) q0(2)]
  note shares = share_amount [OF am(1) q0(1) q(2) q0(2)] share_amount [OF input q0(1) q(2) q0(2)]
  have BN: "amount B \<longleftrightarrow> 0 \<le> B" "amount N \<longleftrightarrow> 0 \<le> N"
    using shares p' by (cases "src_priceInputMode s"; auto simp: B_def N_def inputTotal_def amount_def)+
  have safe: "isSafeInteger (q - pt_quantityHundredths p)" using qa p' by simp
  have diff: "isSafeInteger (B - N)" if "0 \<le> B" "0 \<le> N"
    using that BN by simp
  have diff2: "isSafeInteger N" if "0 \<le> N" using that BN by simp
  have side: "(if src_priceInputMode s = Net then pt_netCents p else pt_grossCents p) =
      inputTotal (src_priceInputMode s) p"
    by (cases "src_priceInputMode s") (simp_all add: inputTotal_def)
  have subs: "subtractAllocation (rounded (src_baseCents s * q) (src_quantityHundredths s))
        (pt_baseCents p) = Inr c \<longleftrightarrow> 0 \<le> B \<and> c = B"
      "subtractAllocation (rounded ((src_baseCents s - src_discountCents s) * q)
        (src_quantityHundredths s)) (inputTotal (src_priceInputMode s) p) = Inr c \<longleftrightarrow>
        0 \<le> N \<and> c = N" for c
    unfolding subtractAllocation_ok B_def [symmetric] N_def [symmetric] BN by auto
  show ?thesis
    unfolding allocateCreditLine_def creditCapacity_simps creditCapacity_input [OF s(1)] side
      andThen_eq_Inr alloc [OF am(1)] alloc [OF input] simp_thms(39) subs
    by (cases "src_priceInputMode s") (auto simp: Let_def safe diff diff2)
qed

text \<open>The requested lines in order, each for a source line of its own.\<close>

definition creditedLine ::
    "CreditSourceLine list \<Rightarrow> PreviousCreditLineAllocation list \<Rightarrow> RequestedCreditLine
      \<Rightarrow> CalculatedCreditLine \<Rightarrow> bool" where
  "creditedLine sources prevs r l \<longleftrightarrow>
     (\<exists>s \<in> set sources. creditable s \<and> src_id s = rq_sourceInvoiceLineId r \<and>
        0 < rq_quantityHundredths r \<and> cl_quantityHundredths l = rq_quantityHundredths r \<and>
        (let p = creditedBefore prevs (src_id s);
             q = pt_quantityHundredths p + rq_quantityHundredths r in
         q \<le> src_quantityHundredths s \<and> creditLineOf s p q l))"

lemma creditRequestedLine_credited:
  assumes caps: "createCreditLineCapacities sources = Inr caps"
    and prevs: "sumPreviousAllocations prevs caps = Inr totals"
    and l: "creditRequestedLine caps totals r = Inr l"
  shows "creditedLine sources prevs r l" and "cl_sourceInvoiceLineId l = rq_sourceInvoiceLineId r"
    and "cl_vatCents l = (if cl_priceInputMode l = Net then 0 else lineInput l)"
    and "cl_netCents l = (if cl_priceInputMode l = Net then lineInput l else 0)"
proof -
  let ?i = "rq_sourceInvoiceLineId r" and ?qty = "rq_quantityHundredths r"
  obtain cap where cap: "map_of caps ?i = Some cap"
    using l by (cases "map_of caps ?i") (auto simp: creditRequestedLine_def)
  obtain s where s: "s \<in> set sources" "creditable s" "src_id s = ?i" "cap = creditCapacity s"
    using cap createCreditLineCapacities_lookup(2) [OF caps] by blast
  have valid: "validSource s"
    using createCreditLineCapacities_lookup(1) [OF caps] s(1) by (simp add: validSources_def)
  let ?p = "creditedBefore prevs ?i"
  let ?q = "pt_quantityHundredths ?p + ?qty"
  have p: "(case map_of totals ?i of None \<Rightarrow> createEmptyPreviousAllocation | Some p \<Rightarrow> p) = ?p"
    using sumPreviousAllocations_totals(2) [OF prevs, of ?i] by (simp add: orEmpty_def)
  have rec: "totalReconciles (src_priceInputMode s) ?p"
    using sumPreviousAllocations_totals(3) [OF prevs cap] s(4) by simp
  have qty: "amount ?qty" "?qty \<noteq> 0" and safe: "isSafeInteger ?q"
    and le: "jsAdd (pt_quantityHundredths ?p) ?qty \<le> src_quantityHundredths s"
    and alloc: "allocateCreditLine cap ?p (jsAdd (pt_quantityHundredths ?p) ?qty) = Inr l"
    using l cap s(4) unfolding creditRequestedLine_def option.case p
    by (auto simp: result_simps Let_def split: if_splits)
  have q: "jsAdd (pt_quantityHundredths ?p) ?qty = ?q" using safe by simp
  have pos: "0 < ?qty" using qty by (auto simp: amount_def)
  note eq = allocateCreditLine_eq_Inr [OF valid s(2) rec, of ?q l] and alloc' = alloc [unfolded q s(4)]
  note line = eq [THEN iffD1, OF _ _ alloc']
  have am: "amount (src_baseCents s)" "amount (src_baseCents s - src_discountCents s)"
    using valid by (auto simp: validSource_def amount_def)
  have p0: "0 \<le> pt_quantityHundredths ?p" "0 \<le> pt_baseCents ?p"
    "0 \<le> inputTotal (src_priceInputMode s) ?p"
    using rec by (cases "src_priceInputMode s"; auto simp: totalReconciles_def amountTotal_def inputTotal_def)+
  have Q: "?q \<le> src_quantityHundredths s" "0 \<le> ?q" "0 < src_quantityHundredths s"
    using le q pos p0(1) by auto
  note shares = share_amount [OF am(1) Q(2) Q(1) Q(3)] share_amount [OF am(2) Q(2) Q(1) Q(3)]
  have of_s: "creditLineOf s ?p ?q l"
    using line Q(1) pos shares p0
    by (cases "src_priceInputMode s")
      (auto simp: creditLineOf_def lineInput_def amount_def inputTotal_def)
  show "creditedLine sources prevs r l"
    unfolding creditedLine_def Let_def
    by (rule bexI [OF _ s(1)]) (use s pos Q(1) of_s in \<open>simp add: creditLineOf_def\<close>)
  show "cl_sourceInvoiceLineId l = rq_sourceInvoiceLineId r"
    using of_s s(3) by (simp add: creditLineOf_def)
  show "cl_vatCents l = (if cl_priceInputMode l = Net then 0 else lineInput l)"
    "cl_netCents l = (if cl_priceInputMode l = Net then lineInput l else 0)"
    using line Q(1) pos by (cases "src_priceInputMode s"; auto simp: lineInput_def)+
qed

lemma creditRequestedLines_eq_Inr:
  "creditRequestedLines caps totals ids rs = Inr ls \<longleftrightarrow>
     distinct (map rq_sourceInvoiceLineId rs) \<and>
     set ids \<inter> rq_sourceInvoiceLineId ` set rs = {} \<and>
     list_all2 (\<lambda>r l. creditRequestedLine caps totals r = Inr l) rs ls"
proof (induction rs arbitrary: ids ls)
  case Nil
  then show ?case by auto
next
  case (Cons r rs)
  show ?case
    by (auto simp: result_simps Cons.IH list_all2_Cons1)
qed

lemma creditRequestedLines_credited:
  assumes caps: "createCreditLineCapacities sources = Inr caps"
    and prevs: "sumPreviousAllocations prevs caps = Inr totals"
    and ls: "creditRequestedLines caps totals [] rs = Inr ls"
  shows "list_all2 (creditedLine sources prevs) rs ls"
    and "map cl_sourceInvoiceLineId ls = map rq_sourceInvoiceLineId rs"
    and "distinct (map cl_sourceInvoiceLineId ls)"
    and "\<forall>l \<in> set ls. amount (lineInput l) \<and>
      cl_vatCents l = (if cl_priceInputMode l = Net then 0 else lineInput l) \<and>
      cl_netCents l = (if cl_priceInputMode l = Net then lineInput l else 0)"
proof -
  have all: "list_all2 (\<lambda>r l. creditRequestedLine caps totals r = Inr l) rs ls"
    and dist: "distinct (map rq_sourceInvoiceLineId rs)"
    using ls by (simp_all add: creditRequestedLines_eq_Inr)
  note facts = creditRequestedLine_credited [OF caps prevs]
  show "list_all2 (creditedLine sources prevs) rs ls"
    using all by (rule list_all2_mono) (rule facts(1))
  show ids: "map cl_sourceInvoiceLineId ls = map rq_sourceInvoiceLineId rs"
    using all facts(2) by (auto simp: list_all2_conv_all_nth intro!: nth_equalityI)
  show "distinct (map cl_sourceInvoiceLineId ls)"
    using dist by (simp add: ids)
  show "\<forall>l \<in> set ls. amount (lineInput l) \<and>
      cl_vatCents l = (if cl_priceInputMode l = Net then 0 else lineInput l) \<and>
      cl_netCents l = (if cl_priceInputMode l = Net then lineInput l else 0)"
  proof
    fix l
    assume "l \<in> set ls"
    then obtain r where r: "creditRequestedLine caps totals r = Inr l"
      using all by (auto simp: list_all2_conv_all_nth in_set_conv_nth)
    have "amount (lineInput l)"
      using facts(1) [OF r] by (auto simp: creditedLine_def creditLineOf_def Let_def)
    with facts(3,4) [OF r] show "amount (lineInput l) \<and>
      cl_vatCents l = (if cl_priceInputMode l = Net then 0 else lineInput l) \<and>
      cl_netCents l = (if cl_priceInputMode l = Net then lineInput l else 0)" by blast
  qed
qed

end
