(* ===== verification/CreditTax.thy ===== *)
theory CreditTax
  imports CreditInvoiceCorrect
begin

text \<open>
  The tax of a credit note: per VAT rate, the tax credited so far including this credit is
  the exact tax on the amount credited so far, rounded once, and the part of this credit is
  split over its lines without remainder. Then the totals of a credit, and crediting a whole
  invoice at once, which gives back the totals of the invoice.
\<close>

section \<open>The split of a credit\<close>

lemma foldR_addSafeIntegers:
  assumes "\<forall>x \<in> set xs. amount (f x)"
  shows "foldR (\<lambda>s x. addSafeIntegers s (f x)) 0 xs = Inr t \<longleftrightarrow>
    amount (\<Sum>x\<leftarrow>xs. f x) \<and> t = (\<Sum>x\<leftarrow>xs. f x)"
  using credit.foldR_add [OF assms, of 0] by simp

lemma distributeAmount_eq_Inr:
  assumes "amount tot" "\<forall>w \<in> set ws. amount w"
  shows "distributeAmount tot ws = Inr sh \<longleftrightarrow>
    amount (sum_list ws) \<and>
    (if sum_list ws = 0 then tot = 0 \<and> sh = map (\<lambda>_. 0) ws else sh = shares tot ws)"
proof -
  have nonneg: "0 \<le> sum_list ws"
    using assms(2) by (intro sum_list_nonneg) (auto intro!: amount_nonneg)
  have sum: "foldR addSafeIntegers 0 ws = Inr t \<longleftrightarrow> amount (sum_list ws) \<and> t = sum_list ws" for t
    using foldR_addSafeIntegers [of ws "\<lambda>w. w"] assms(2) by simp
  show ?thesis
    using nonneg credit.splitLoop_exact [OF assms]
    by (auto simp: distributeAmount_def result_simps sum)
qed

lemma distributeAmount_facts:
  assumes "amount tot" "\<forall>w \<in> set ws. amount w" "distributeAmount tot ws = Inr sh"
  shows "length sh = length ws" "sum_list sh = tot" "\<forall>s \<in> set sh. 0 \<le> s"
    and "tot \<le> sum_list ws \<Longrightarrow> list_all2 (\<le>) sh ws"
proof -
  have nonneg: "\<forall>w \<in> set ws. 0 \<le> w" "0 \<le> tot" using assms(1,2) by auto
  then have sum: "0 \<le> sum_list ws" by (intro sum_list_nonneg) auto
  have d: "if sum_list ws = 0 then tot = 0 \<and> sh = map (\<lambda>_. 0) ws else sh = shares tot ws"
    using assms(3) by (simp add: distributeAmount_eq_Inr [OF assms(1,2)])
  show "length sh = length ws" using d by (auto split: if_splits)
  show "sum_list sh = tot" using d sum_shares [of ws tot] sum by (auto split: if_splits)
  show "\<forall>s \<in> set sh. 0 \<le> s"
    using d shares_nonneg [of ws tot] sum nonneg by (auto split: if_splits)
  show "list_all2 (\<le>) sh ws" if "tot \<le> sum_list ws"
    using d sharesFrom_le_weight [OF _ that nonneg(1), of 0] sum nonneg
    by (auto simp: shares_def list_all2_conv_all_nth split: if_splits)
qed

lemma distributeAmount_error:
  assumes "amount tot" "\<forall>w \<in> set ws. amount w" "distributeAmount tot ws = Inr sh"
  shows "list_all2 (\<lambda>s w. \<bar>sum_list ws * s - tot * w\<bar> \<le> sum_list ws) sh ws"
proof (cases "sum_list ws = 0")
  case True
  have "\<forall>w \<in> set ws. 0 \<le> w" using assms(2) by auto
  with True have "\<forall>w \<in> set ws. w = 0" using sum_list_nonneg_eq_0_iff [of ws] by blast
  with True assms(3) show ?thesis
    by (auto simp: distributeAmount_eq_Inr [OF assms(1,2)] list_all2_conv_all_nth)
next
  case False
  have "0 \<le> sum_list ws" using assms(2) by (intro sum_list_nonneg) (auto intro!: amount_nonneg)
  with False have "0 < sum_list ws" by simp
  with False assms(3) show ?thesis
    using sharesFrom_error [of "sum_list ws" tot 0 ws]
    by (simp add: distributeAmount_eq_Inr [OF assms(1,2)] shares_def)
qed

section \<open>One VAT rate\<close>

text \<open>
  Reconciling the tax of a line changes the amounts of the side that was not entered and
  nothing else.
\<close>

definition sameInput :: "CalculatedCreditLine \<Rightarrow> CalculatedCreditLine \<Rightarrow> bool" where
  "sameInput l l' \<longleftrightarrow>
     cl_sourceInvoiceLineId l' = cl_sourceInvoiceLineId l \<and>
     cl_quantityHundredths l' = cl_quantityHundredths l \<and>
     cl_priceInputMode l' = cl_priceInputMode l \<and>
     cl_vatRateBasisPoints l' = cl_vatRateBasisPoints l \<and>
     cl_baseCents l' = cl_baseCents l \<and> cl_discountCents l' = cl_discountCents l \<and>
     lineInput l' = lineInput l"

lemma creditLineOf_sameInput:
  "sameInput l l' \<Longrightarrow> creditLineOf s p q l \<Longrightarrow> creditLineOf s p q l'"
  by (simp add: sameInput_def creditLineOf_def)

lemma creditedLine_sameInput:
  assumes same: "sameInput l l'" and "creditedLine sources prevs r l"
  shows "creditedLine sources prevs r l'"
proof -
  have "cl_quantityHundredths l' = cl_quantityHundredths l" using same by (simp add: sameInput_def)
  then show ?thesis
    using assms(2) creditLineOf_sameInput [OF same] unfolding creditedLine_def Let_def by auto
qed

text \<open>
  The tax of a rate is exact over all credits: \<open>n\<close>, \<open>v\<close> and \<open>g\<close> are the net, VAT and gross
  sums of the earlier credits, the lists those of the current one.
\<close>

definition taxExact ::
    "PriceInputMode \<Rightarrow> number \<Rightarrow> int \<Rightarrow> int \<Rightarrow> int \<Rightarrow> CalculatedCreditLine list \<Rightarrow> bool" where
  "taxExact mode rate n v g ls \<longleftrightarrow>
     (case mode of
        Net \<Rightarrow> v + (\<Sum>l\<leftarrow>ls. cl_vatCents l) = vatOfNet (n + (\<Sum>l\<leftarrow>ls. cl_netCents l)) rate
      | Gross \<Rightarrow> n + (\<Sum>l\<leftarrow>ls. cl_netCents l) = netOfGross (g + (\<Sum>l\<leftarrow>ls. cl_grossCents l)) rate)"

lemma taxExact_mset:
  assumes "mset ls = mset ls'"
  shows "taxExact mode rate n v g ls \<longleftrightarrow> taxExact mode rate n v g ls'"
proof -
  have eq: "(\<Sum>l\<leftarrow>ls. f l) = (\<Sum>l\<leftarrow>ls'. f l)" for f :: "CalculatedCreditLine \<Rightarrow> int"
    using assms by (metis mset_map sum_mset_sum_list)
  show ?thesis unfolding taxExact_def by (simp only: eq)
qed

lemma sum_map2_snd:
  assumes "length ys = length xs" and "\<And>x y. f (h x y) = (y :: int)"
  shows "(\<Sum>l\<leftarrow>map2 h xs ys. f l) = sum_list ys"
  using assms(1) by (induction xs ys rule: list_induct2') (simp_all add: assms(2))

lemma sum_map2_fst:
  assumes "length ys = length xs" and "\<And>x y. f (h x y) = (f x :: int)"
  shows "(\<Sum>l\<leftarrow>map2 h xs ys. f l) = (\<Sum>x\<leftarrow>xs. f x)"
  using assms(1) by (induction xs ys rule: list_induct2') (simp_all add: assms(2))

lemma list_all2_map2:
  assumes "length ys = length xs" and "\<And>x y. x \<in> set xs \<Longrightarrow> y \<in> set ys \<Longrightarrow> P x (h x y)"
  shows "list_all2 P xs (map2 h xs ys)"
  using assms by (auto simp: list_all2_conv_all_nth)

lemma sumLineAmount_eq_Inr:
  assumes "\<forall>l \<in> set ls. amount (f l)"
  shows "sumLineAmount ls f = Inr t \<longleftrightarrow> amount (\<Sum>l\<leftarrow>ls. f l) \<and> t = (\<Sum>l\<leftarrow>ls. f l)"
  unfolding sumLineAmount_def by (rule foldR_addSafeIntegers [OF assms])

lemma reconcileNetGroup_exact:
  assumes ls: "\<forall>l \<in> set ls. cl_priceInputMode l = Net \<and> amount (cl_netCents l)"
    and rec: "reconcileNetGroup rate p ls = Inr ls'"
  shows "list_all2 sameInput ls ls'"
    and "taxExact Net rate (pv_netCents p) (pv_vatCents p) (pv_grossCents p) ls'"
proof -
  define net where "net = (\<Sum>l\<leftarrow>ls. cl_netCents l)"
  define vat where "vat = vatOfNet (pv_netCents p + net) rate - pv_vatCents p"
  obtain sh where vat: "amount vat" and sh: "distributeAmount vat (map cl_netCents ls) = Inr sh"
    and out: "mapR (\<lambda>(line, index). let v = nthOr 0 sh index in
         andThen (addSafeIntegers (cl_netCents line) v) (\<lambda>gross.
         Inr (line\<lparr>cl_vatCents := v, cl_grossCents := gross\<rparr>))) (withIndex ls) = Inr ls'"
    using rec ls
    by (auto simp: reconcileNetGroup_def result_simps sumLineAmount_eq_Inr roundHalfUp_eq_Inr
        subtractAllocation_ok basisPointsScale_def net_def vat_def vatOfNet_def)
  have ws: "\<forall>w \<in> set (map cl_netCents ls). amount w" using ls by simp
  note d = distributeAmount_facts [OF vat ws sh]
  have len: "length sh = length ls" using d(1) by simp
  let ?h = "\<lambda>line v. line\<lparr>cl_vatCents := v, cl_grossCents := cl_netCents line + v\<rparr>"
  have "mapR (\<lambda>(line, v). andThen (addSafeIntegers (cl_netCents line) v) (\<lambda>gross.
         Inr (line\<lparr>cl_vatCents := v, cl_grossCents := gross\<rparr>))) (zip ls sh) = Inr ls'"
    using out mapR_withIndex_nthOr [OF len, of "\<lambda>line v. andThen (addSafeIntegers (cl_netCents line) v)
      (\<lambda>gross. Inr (line\<lparr>cl_vatCents := v, cl_grossCents := gross\<rparr>))" 0]
    by (simp add: Let_def)
  then have "map (\<lambda>x. x) ls' = map2 ?h ls sh"
    by (rule mapR_map) (auto simp: result_simps)
  then have ls': "ls' = map2 ?h ls sh" by simp
  show "list_all2 sameInput ls ls'"
    unfolding ls' using ls by (intro list_all2_map2 len) (simp add: sameInput_def lineInput_def)
  show "taxExact Net rate (pv_netCents p) (pv_vatCents p) (pv_grossCents p) ls'"
    using sum_map2_snd [OF len, of cl_vatCents ?h] sum_map2_fst [OF len, of cl_netCents ?h] d(2)
    by (simp add: taxExact_def ls' net_def [symmetric] vat_def)
qed

lemma reconcileGrossGroup_exact:
  assumes ls: "\<forall>l \<in> set ls. cl_priceInputMode l = Gross \<and> amount (cl_grossCents l)"
    and rec: "reconcileGrossGroup rate p ls = Inr ls'"
  shows "list_all2 sameInput ls ls'"
    and "taxExact Gross rate (pv_netCents p) (pv_vatCents p) (pv_grossCents p) ls'"
proof -
  define gross where "gross = (\<Sum>l\<leftarrow>ls. cl_grossCents l)"
  define net where "net = netOfGross (pv_grossCents p + gross) rate - pv_netCents p"
  obtain sh where net: "amount net" and sh: "distributeAmount net (map cl_grossCents ls) = Inr sh"
    and out: "ls' = map (\<lambda>(line, index). let n = nthOr 0 sh index in
         line\<lparr>cl_netCents := n, cl_vatCents := jsSub (cl_grossCents line) n\<rparr>) (withIndex ls)"
    using rec ls
    by (auto simp: reconcileGrossGroup_def result_simps sumLineAmount_eq_Inr roundHalfUp_eq_Inr
        subtractAllocation_ok basisPointsScale_def gross_def net_def netOfGross_def)
  have ws: "\<forall>w \<in> set (map cl_grossCents ls). amount w" using ls by simp
  note d = distributeAmount_facts [OF net ws sh]
  have len: "length sh = length ls" using d(1) by simp
  let ?h = "\<lambda>line n. line\<lparr>cl_netCents := n, cl_vatCents := jsSub (cl_grossCents line) n\<rparr>"
  have ls': "ls' = map2 ?h ls sh"
    unfolding out Let_def by (rule map_withIndex_nthOr [OF len])
  show "list_all2 sameInput ls ls'"
    unfolding ls' using ls by (intro list_all2_map2 len) (simp add: sameInput_def lineInput_def)
  show "taxExact Gross rate (pv_netCents p) (pv_vatCents p) (pv_grossCents p) ls'"
    using sum_map2_snd [OF len, of cl_netCents ?h] sum_map2_fst [OF len, of cl_grossCents ?h] d(2)
    by (simp add: taxExact_def ls' gross_def [symmetric] net_def)
qed

section \<open>Earlier taxes\<close>

text \<open>The earlier credits of source lines with a rate, and the three sums of the tax map.\<close>

definition allocationsAt ::
    "CreditSourceLine list \<Rightarrow> PreviousCreditLineAllocation list \<Rightarrow> number
      \<Rightarrow> PreviousCreditLineAllocation list" where
  "allocationsAt sources prevs rate =
     filter (\<lambda>a. \<exists>s \<in> set sources. creditable s \<and> src_id s = pa_sourceInvoiceLineId a \<and>
       src_vatRateBasisPoints s = rate) prevs"

definition taxSums :: "PreviousTaxTotal option \<Rightarrow> int \<times> int \<times> int" where
  "taxSums v =
     (case v of None \<Rightarrow> (0, 0, 0) | Some p \<Rightarrow> (pv_netCents p, pv_vatCents p, pv_grossCents p))"

lemma taxSums_simps [simp]:
  "taxSums None = (0, 0, 0)" "taxSums (Some p) = (pv_netCents p, pv_vatCents p, pv_grossCents p)"
  by (simp_all add: taxSums_def)

lemma previousTaxStep_sums:
  assumes "previousTaxStep caps v a = Inr p"
  shows "taxSums (Some p) =
    (fst (taxSums v) + pa_netCents a, fst (snd (taxSums v)) + pa_vatCents a,
     snd (snd (taxSums v)) + pa_grossCents a)"
  using assms
  by (cases v) (auto simp: previousTaxStep_def result_simps Let_def split: option.splits if_splits)

lemma accR_previousTax:
  "accR (previousTaxStep caps) v as = Inr w \<Longrightarrow>
     taxSums w = (fst (taxSums v) + (\<Sum>a\<leftarrow>as. pa_netCents a),
       fst (snd (taxSums v)) + (\<Sum>a\<leftarrow>as. pa_vatCents a),
       snd (snd (taxSums v)) + (\<Sum>a\<leftarrow>as. pa_grossCents a))"
proof (induction as arbitrary: v)
  case Nil
  then show ?case by auto
next
  case (Cons a as)
  then obtain p where p: "previousTaxStep caps v a = Inr p"
    and rest: "accR (previousTaxStep caps) (Some p) as = Inr w"
    by (auto simp: result_simps)
  show ?case
    unfolding Cons.IH [OF rest] previousTaxStep_sums [OF p] by simp
qed

lemma rateOfAllocation_eq:
  assumes caps: "createCreditLineCapacities sources = Inr caps"
    and a: "map_of caps (pa_sourceInvoiceLineId a) \<noteq> None"
  shows "rateOfAllocation caps a = rate \<longleftrightarrow>
    (\<exists>s \<in> set sources. creditable s \<and> src_id s = pa_sourceInvoiceLineId a \<and>
      src_vatRateBasisPoints s = rate)"
proof -
  obtain cap where cap: "map_of caps (pa_sourceInvoiceLineId a) = Some cap" using a by blast
  note look = createCreditLineCapacities_lookup(2) [OF caps, of "pa_sourceInvoiceLineId a"]
  obtain s where s: "s \<in> set sources" "creditable s" "src_id s = pa_sourceInvoiceLineId a"
    "cap = creditCapacity s"
    using cap look by blast
  have inj: "inj_on src_id (set sources)"
    using createCreditLineCapacities_lookup(1) [OF caps] by (simp add: validSources_def distinct_map)
  then have only: "s' = s" if "s' \<in> set sources" "src_id s' = pa_sourceInvoiceLineId a" for s'
    using inj_onD [OF inj, of s' s] that s by simp
  have "rateOfAllocation caps a = src_vatRateBasisPoints s"
    unfolding rateOfAllocation_def cap s(4) by simp
  moreover have "(\<exists>s' \<in> set sources. creditable s' \<and> src_id s' = pa_sourceInvoiceLineId a \<and>
      src_vatRateBasisPoints s' = rate) \<longleftrightarrow> src_vatRateBasisPoints s = rate"
  proof
    assume "\<exists>s' \<in> set sources. creditable s' \<and> src_id s' = pa_sourceInvoiceLineId a \<and>
      src_vatRateBasisPoints s' = rate"
    then obtain s' where "s' \<in> set sources" "src_id s' = pa_sourceInvoiceLineId a"
      "src_vatRateBasisPoints s' = rate" by blast
    with only [of s'] show "src_vatRateBasisPoints s = rate" by simp
  next
    assume "src_vatRateBasisPoints s = rate"
    with s(1-3) show "\<exists>s' \<in> set sources. creditable s' \<and> src_id s' = pa_sourceInvoiceLineId a \<and>
      src_vatRateBasisPoints s' = rate" by (intro bexI [of _ s]) simp_all
  qed
  ultimately show ?thesis by simp
qed

lemma previousTaxByRate_sums:
  assumes caps: "createCreditLineCapacities sources = Inr caps"
    and prevs: "\<forall>a \<in> set prevs. map_of caps (pa_sourceInvoiceLineId a) \<noteq> None"
    and m: "previousTaxByRate caps prevs = Inr m"
  shows "taxSums (map_of m rate) =
    ((\<Sum>a\<leftarrow>allocationsAt sources prevs rate. pa_netCents a),
     (\<Sum>a\<leftarrow>allocationsAt sources prevs rate. pa_vatCents a),
     (\<Sum>a\<leftarrow>allocationsAt sources prevs rate. pa_grossCents a))"
proof -
  have "filter (\<lambda>a. rateOfAllocation caps a = rate) prevs = allocationsAt sources prevs rate"
    unfolding allocationsAt_def
    using prevs rateOfAllocation_eq [OF caps] by (intro filter_cong refl) blast
  then show ?thesis
    using accR_previousTax [OF groupR_map_of [OF m [unfolded previousTaxByRate_def], of rate]]
    by simp
qed

section \<open>All VAT rates\<close>

lemma reconcileRate_exact:
  assumes lines: "\<forall>l \<in> set ls. amount (lineInput l)" and ne: "ls \<noteq> []"
    and rec: "reconcileRate lc m (rate, ls) = Inr ls'"
  shows "\<forall>l \<in> set ls. cl_priceInputMode l = cl_priceInputMode (hd ls)"
    and "\<exists>ols. mset ols = mset ls \<and> list_all2 sameInput ols ls'"
    and "taxSums (map_of m rate) = (n, v, g) \<Longrightarrow> taxExact (cl_priceInputMode (hd ls)) rate n v g ls'"
proof -
  let ?mode = "cl_priceInputMode (hd ls)"
  let ?ols = "jsSort (\<lambda>a b. lc (cl_sourceInvoiceLineId a) (cl_sourceInvoiceLineId b)) ls"
  let ?p = "case map_of m rate of
      None \<Rightarrow> \<lparr>pv_mode = ?mode, pv_netCents = 0, pv_vatCents = 0, pv_grossCents = 0\<rparr> | Some p \<Rightarrow> p"
  obtain l0 ls0 where ls: "ls = l0 # ls0" using ne by (cases ls) auto
  have modes: "\<forall>l \<in> set ls. cl_priceInputMode l = ?mode"
    and group: "(case ?mode of Net \<Rightarrow> reconcileNetGroup rate ?p ?ols
        | Gross \<Rightarrow> reconcileGrossGroup rate ?p ?ols) = Inr ls'"
    using rec unfolding ls reconcileRate_def Let_def prod.case list.case list.sel if_Inl_eq_Inr
    by blast+
  show "\<forall>l \<in> set ls. cl_priceInputMode l = ?mode" by (rule modes)
  have sums: "(pv_netCents ?p, pv_vatCents ?p, pv_grossCents ?p) = taxSums (map_of m rate)"
    by (simp split: option.split)
  have both: "list_all2 sameInput ?ols ls' \<and>
      taxExact ?mode rate (pv_netCents ?p) (pv_vatCents ?p) (pv_grossCents ?p) ls'"
  proof (cases ?mode)
    case Net
    then have "\<forall>l \<in> set ?ols. cl_priceInputMode l = Net \<and> amount (cl_netCents l)"
      using modes lines by (fastforce simp: lineInput_def)
    with Net group show ?thesis using reconcileNetGroup_exact by (metis PriceInputMode.simps(3))
  next
    case Gross
    then have "\<forall>l \<in> set ?ols. cl_priceInputMode l = Gross \<and> amount (cl_grossCents l)"
      using modes lines by (fastforce simp: lineInput_def)
    with Gross group show ?thesis using reconcileGrossGroup_exact by (metis PriceInputMode.simps(4))
  qed
  then show "\<exists>ols. mset ols = mset ls \<and> list_all2 sameInput ols ls'"
    by (intro exI [of _ ?ols]) simp
  assume "taxSums (map_of m rate) = (n, v, g)"
  with sums have "pv_netCents ?p = n" "pv_vatCents ?p = v" "pv_grossCents ?p = g"
    by (metis prod.inject)+
  with both show "taxExact ?mode rate n v g ls'" by simp
qed

lemma foldR_putAll:
  "foldR (\<lambda>m e. andThen (f e) (\<lambda>xs. Inr (putAll key xs m))) m es = Inr m' \<longleftrightarrow>
     (\<exists>xss. mapR f es = Inr xss \<and> m' = putAll key (concat xss) m)"
proof (induction es arbitrary: m)
  case Nil
  then show ?case by auto
next
  case (Cons e es)
  show ?case by (auto simp: result_simps Cons.IH)
qed

lemma mset_concat_all2:
  assumes "list_all2 (\<lambda>e ys. mset (map f ys) = mset (map f (snd e))) es yss"
  shows "mset (map f (concat yss)) = mset (map f (concat (map snd es)))"
  using assms by (induction es yss rule: list_all2_induct) simp_all

lemma mset_eq_by_key:
  assumes "mset (map f xs) = mset (map f ys)" "set xs \<subseteq> set ys" "distinct (map f ys)"
  shows "mset xs = mset ys"
proof -
  have dist: "distinct xs" "distinct ys"
    using assms(3) mset_eq_imp_distinct_iff [OF assms(1)] by (auto simp: distinct_map)
  have "length xs = length ys" using mset_eq_length [OF assms(1)] by simp
  with dist have "card (set xs) = card (set ys)" by (simp add: distinct_card)
  with assms(2) have "set xs = set ys" by (simp add: card_subset_eq)
  with dist show ?thesis by (simp add: set_eq_iff_mset_eq_distinct)
qed

text \<open>
  The reconciled lines in the order of the current ones, found by their ids in the map.
\<close>

lemma allocateCurrentTax_groups:
  assumes lines: "\<forall>l \<in> set lines. amount (lineInput l)"
    and dist: "distinct (map cl_sourceInvoiceLineId lines)"
    and out: "allocateCurrentTaxByVatRate lc lines prevs caps = Inr ls'"
  shows "list_all2 sameInput lines ls' \<and>
    (\<exists>m. previousTaxByRate caps prevs = Inr m \<and>
      (\<forall>rate g. (rate, g) \<in> set (groupBy cl_vatRateBasisPoints lines) \<longrightarrow>
        (\<exists>rs. reconcileRate lc m (rate, g) = Inr rs \<and>
          mset (filter (\<lambda>l. cl_vatRateBasisPoints l = rate) ls') = mset rs)))"
proof -
  let ?by = "groupBy cl_vatRateBasisPoints lines"
  let ?id = cl_sourceInvoiceLineId
  obtain m gs where m: "previousTaxByRate caps prevs = Inr m"
    and gs: "mapR (reconcileRate lc m) ?by = Inr gs"
    and lookup: "list_all2 (\<lambda>l l'. map_of (putAll ?id (concat gs) []) (?id l) = Some l') lines ls'"
    using out
    by (auto simp: allocateCurrentTaxByVatRate_def andThen_eq_Inr foldR_putAll mapR_option Let_def)
  have group: "g \<noteq> [] \<and> (\<forall>l \<in> set g. amount (lineInput l))" if "(rate, g) \<in> set ?by" for rate g
    using that lines by (auto simp: mem_groupBy filter_empty_conv)
  have rec: "\<exists>ols. mset ols = mset (snd e) \<and> list_all2 sameInput ols rs"
    if "e \<in> set ?by" "reconcileRate lc m e = Inr rs" for e rs
    using that reconcileRate_exact(2) [of "snd e" lc m "fst e" rs] group [of "fst e" "snd e"] by simp
  have perm: "list_all2 (\<lambda>e rs. mset (map ?id rs) = mset (map ?id (snd e))) ?by gs"
    using gs unfolding mapR_eq_Inr
  proof (rule list.rel_mono_strong)
    fix e rs
    assume "e \<in> set ?by" "reconcileRate lc m e = Inr rs"
    then obtain ols where ols: "mset ols = mset (snd e)" "list_all2 sameInput ols rs"
      using rec by blast
    have "map ?id rs = map ?id ols"
      using ols(2) by (auto simp: list_all2_conv_all_nth sameInput_def intro!: nth_equalityI)
    with ols(1) show "mset (map ?id rs) = mset (map ?id (snd e))" by simp
  qed
  have "mset (map ?id (concat gs)) = mset (map ?id (concat (map snd ?by)))"
    using perm by (rule mset_concat_all2)
  then have ids: "mset (map ?id (concat gs)) = mset (map ?id lines)"
    by (simp add: mset_groupBy)
  have dist': "distinct (map ?id (concat gs))"
    using dist mset_eq_imp_distinct_iff [OF ids] by blast
  note find = lookup [unfolded putAll_lookup_iff [OF dist']]
  have inj: "x = y" if "x \<in> set (concat gs)" "y \<in> set (concat gs)" "?id x = ?id y" for x y
    using dist' that unfolding distinct_map by (meson inj_onD)
  have same: "\<exists>o' \<in> set (concat gs). sameInput l o'" if "l \<in> set lines" for l
  proof -
    let ?g = "filter (\<lambda>x. cl_vatRateBasisPoints x = cl_vatRateBasisPoints l) lines"
    have e: "(cl_vatRateBasisPoints l, ?g) \<in> set ?by"
      using that by (simp add: mem_groupBy)
    then obtain rs where rs: "rs \<in> set gs" "reconcileRate lc m (cl_vatRateBasisPoints l, ?g) = Inr rs"
      using mapR_set_src [OF gs] by blast
    obtain ols where ols: "mset ols = mset ?g" "list_all2 sameInput ols rs"
      using rec [OF e rs(2)] by auto
    have "l \<in> set ols" using that mset_eq_setD [OF ols(1)] by simp
    from list_all2_mem_left [OF ols(2) this] rs(1) show ?thesis by auto
  qed
  have same': "list_all2 sameInput lines ls'"
    using find
  proof (rule list.rel_mono_strong)
    fix l l'
    assume l: "l \<in> set lines" and l': "l' \<in> set (concat gs) \<and> ?id l' = ?id l"
    obtain x where x: "x \<in> set (concat gs)" "sameInput l x" using same [OF l] by blast
    then have "l' = x" using inj l' by (simp add: sameInput_def)
    with x show "sameInput l l'" by simp
  qed
  have "map ?id ls' = map ?id lines" "set ls' \<subseteq> set (concat gs)"
    using find by (auto simp: list_all2_conv_all_nth in_set_conv_nth intro!: nth_equalityI)
  then have all: "mset ls' = mset (concat gs)"
    using ids dist' by (intro mset_eq_by_key [where f = ?id]) simp_all
  have rates: "cl_vatRateBasisPoints x = rate"
    if e: "(rate, g) \<in> set ?by" and r: "reconcileRate lc m (rate, g) = Inr rs" and x: "x \<in> set rs"
    for rate g rs x
  proof -
    obtain ols where ols: "mset ols = mset g" "list_all2 sameInput ols rs"
      using rec [OF e r] by auto
    then obtain y where "y \<in> set ols" "sameInput y x"
      using list_all2_mem_right [OF ols(2) x] by blast
    with e mset_eq_setD [OF ols(1)] show ?thesis
      by (auto simp: mem_groupBy sameInput_def)
  qed
  have "\<exists>rs. reconcileRate lc m (rate, g) = Inr rs \<and>
      mset (filter (\<lambda>l. cl_vatRateBasisPoints l = rate) ls') = mset rs"
    if e: "(rate, g) \<in> set ?by" for rate g
  proof -
    obtain rs where rs: "rs \<in> set gs" "reconcileRate lc m (rate, g) = Inr rs"
      using mapR_set_src [OF gs e] by blast
    have "x \<in> set rs" if x: "x \<in> set (concat gs)" "cl_vatRateBasisPoints x = rate" for x
    proof -
      obtain rs2 where rs2: "rs2 \<in> set gs" "x \<in> set rs2" using x(1) by auto
      obtain r2 g2 where e2: "(r2, g2) \<in> set ?by" "reconcileRate lc m (r2, g2) = Inr rs2"
        using mapR_set [OF gs rs2(1)] by auto
      with rates rs2(2) x(2) have "r2 = rate" by blast
      with e e2 rs(2) rs2(2) show ?thesis by (simp add: mem_groupBy)
    qed
    then have "set (filter (\<lambda>l. cl_vatRateBasisPoints l = rate) (concat gs)) = set rs"
      using rs(1) rates [OF e rs(2)] by auto
    moreover have "distinct (concat gs)" using dist' by (simp add: distinct_map)
    moreover from this have "distinct rs"
      using rs(1) by (metis concat.simps(2) concat_append distinct_append split_list)
    ultimately have "mset (filter (\<lambda>l. cl_vatRateBasisPoints l = rate) (concat gs)) = mset rs"
      by (metis distinct_filter set_eq_iff_mset_eq_distinct)
    with rs(2) all show ?thesis by (simp add: mset_filter)
  qed
  with m same' show ?thesis by blast
qed

end
