(* ===== verification/CreditTotals.thy ===== *)
theory CreditTotals
  imports CreditTax
begin

text \<open>
  The totals of a credit note, what a successful credit satisfies as a whole, and the
  credit of a whole invoice.
\<close>

section \<open>Totals\<close>

definition validCreditLine :: "CalculatedCreditLine \<Rightarrow> bool" where
  "validCreditLine l \<longleftrightarrow>
     amount (cl_quantityHundredths l) \<and> cl_quantityHundredths l \<noteq> 0 \<and> amount (cl_netCents l) \<and>
     amount (cl_vatCents l) \<and> amount (cl_grossCents l) \<and>
     cl_netCents l + cl_vatCents l = cl_grossCents l"

lemma validateCalculatedCreditLine_ok [result_simps]:
  "validateCalculatedCreditLine l = Inr u \<longleftrightarrow> validCreditLine l"
  by (auto simp: validateCalculatedCreditLine_def validCreditLine_def result_simps jsAdd_eq_safe)

definition creditLinesAt :: "number \<Rightarrow> CalculatedCreditLine list \<Rightarrow> CalculatedCreditLine list" where
  "creditLinesAt rate lines = filter (\<lambda>l. cl_vatRateBasisPoints l = rate) lines"

definition creditRow :: "number \<Rightarrow> CalculatedCreditLine list \<Rightarrow> InvoiceVatBreakdown" where
  "creditRow rate ls =
     \<lparr>bd_vatRateBasisPoints = rate, bd_netCents = (\<Sum>l\<leftarrow>ls. cl_netCents l),
      bd_vatCents = (\<Sum>l\<leftarrow>ls. cl_vatCents l), bd_grossCents = (\<Sum>l\<leftarrow>ls. cl_grossCents l)\<rparr>"

definition creditTotalsOf :: "CalculatedCreditLine list \<Rightarrow> InvoiceTotals" where
  "creditTotalsOf lines =
     \<lparr>netTotalCents = (\<Sum>l\<leftarrow>lines. cl_netCents l), vatTotalCents = (\<Sum>l\<leftarrow>lines. cl_vatCents l),
      grossTotalCents = (\<Sum>l\<leftarrow>lines. cl_grossCents l),
      vatBreakdown = map (\<lambda>rate. creditRow rate (creditLinesAt rate lines))
        (sorted_list_of_set (cl_vatRateBasisPoints ` set lines))\<rparr>"

lemma validCreditLine_sums:
  assumes "\<forall>l \<in> set ls. validCreditLine l"
  shows "0 \<le> (\<Sum>l\<leftarrow>ls. cl_netCents l)" "0 \<le> (\<Sum>l\<leftarrow>ls. cl_vatCents l)" "0 \<le> (\<Sum>l\<leftarrow>ls. cl_grossCents l)"
    and "(\<Sum>l\<leftarrow>ls. cl_netCents l) + (\<Sum>l\<leftarrow>ls. cl_vatCents l) = (\<Sum>l\<leftarrow>ls. cl_grossCents l)"
proof -
  have each: "0 \<le> cl_netCents l" "0 \<le> cl_vatCents l" "0 \<le> cl_grossCents l"
    "cl_netCents l + cl_vatCents l = cl_grossCents l" if "l \<in> set ls" for l
    using assms that by (auto simp: validCreditLine_def)
  then show "0 \<le> (\<Sum>l\<leftarrow>ls. cl_netCents l)" "0 \<le> (\<Sum>l\<leftarrow>ls. cl_vatCents l)"
    "0 \<le> (\<Sum>l\<leftarrow>ls. cl_grossCents l)"
    by (auto intro!: sum_list_nonneg)
  show "(\<Sum>l\<leftarrow>ls. cl_netCents l) + (\<Sum>l\<leftarrow>ls. cl_vatCents l) = (\<Sum>l\<leftarrow>ls. cl_grossCents l)"
    unfolding sum_list_addf [symmetric] using each(4)
    by (intro arg_cong [where f = sum_list] map_cong) auto
qed

definition rowAmounts :: "InvoiceVatBreakdown option \<Rightarrow> int \<times> int \<times> int" where
  "rowAmounts v =
     (case v of None \<Rightarrow> (0, 0, 0) | Some b \<Rightarrow> (bd_netCents b, bd_vatCents b, bd_grossCents b))"

lemma creditTotalsStep_eq_Inr:
  assumes "rowAmounts v = (n, t, g)"
  shows "creditTotalsStep v l = Inr b \<longleftrightarrow> validCreditLine l \<and>
    amount (n + cl_netCents l) \<and> amount (t + cl_vatCents l) \<and> amount (g + cl_grossCents l) \<and>
    b = \<lparr>bd_vatRateBasisPoints = cl_vatRateBasisPoints l, bd_netCents = n + cl_netCents l,
         bd_vatCents = t + cl_vatCents l, bd_grossCents = g + cl_grossCents l\<rparr>"
  using assms by (cases v) (auto simp: creditTotalsStep_def result_simps rowAmounts_def)

lemma accR_creditTotals:
  assumes "\<forall>l \<in> set ls. cl_vatRateBasisPoints l = rate" "ls \<noteq> []"
    and "rowAmounts v = (n, t, g)" "0 \<le> n" "0 \<le> t" "n + t = g"
  shows "accR creditTotalsStep v ls = Inr w \<longleftrightarrow>
    (\<forall>l \<in> set ls. validCreditLine l) \<and> amount (g + (\<Sum>l\<leftarrow>ls. cl_grossCents l)) \<and>
    w = Some \<lparr>bd_vatRateBasisPoints = rate, bd_netCents = n + (\<Sum>l\<leftarrow>ls. cl_netCents l),
         bd_vatCents = t + (\<Sum>l\<leftarrow>ls. cl_vatCents l), bd_grossCents = g + (\<Sum>l\<leftarrow>ls. cl_grossCents l)\<rparr>"
  using assms
proof (induction ls arbitrary: v n t g)
  case Nil
  then show ?case by simp
next
  case (Cons l ls)
  let ?b = "\<lparr>bd_vatRateBasisPoints = rate, bd_netCents = n + cl_netCents l,
      bd_vatCents = t + cl_vatCents l, bd_grossCents = g + cl_grossCents l\<rparr>"
  have row: "rowAmounts (Some ?b) = (n + cl_netCents l, t + cl_vatCents l, g + cl_grossCents l)"
    by (simp add: rowAmounts_def)
  have step: "accR creditTotalsStep v (l # ls) = Inr w \<longleftrightarrow> validCreditLine l \<and>
      amount (g + cl_grossCents l) \<and> accR creditTotalsStep (Some ?b) ls = Inr w"
    using Cons.prems creditTotalsStep_eq_Inr [OF Cons.prems(3), of l]
    by (auto simp: result_simps validCreditLine_def amount_def)
  show ?case
  proof (cases "ls = []")
    case True
    then show ?thesis unfolding step by auto
  next
    case False
    show ?thesis
    proof (cases "validCreditLine l")
      case True
      then have l: "0 \<le> cl_netCents l" "0 \<le> cl_vatCents l" "0 \<le> cl_grossCents l"
        "cl_netCents l + cl_vatCents l = cl_grossCents l"
        by (auto simp: validCreditLine_def)
      have rest: "amount (g + cl_grossCents l)"
        if "\<forall>l \<in> set ls. validCreditLine l" "amount (g + cl_grossCents l + (\<Sum>l\<leftarrow>ls. cl_grossCents l))"
        using that validCreditLine_sums(3) [OF that(1)] l Cons.prems by (auto simp: amount_def)
      note IH = Cons.IH [OF _ False row]
      show ?thesis
        unfolding step using True Cons.prems l IH rest by (auto simp: add.assoc)
    next
      case False
      then show ?thesis unfolding step by simp
    qed
  qed
qed

lemma sort_key_map: "sort_key f (map g xs) = map g (sort_key (\<lambda>x. f (g x)) xs)"
proof -
  have "insort_key f (g x) (map g ys) = map g (insort_key (\<lambda>x. f (g x)) x ys)" for x ys
    by (induction ys) auto
  then show ?thesis by (induction xs) (simp_all add: sort_key_def)
qed

lemma sort_key_cong':
  assumes "\<forall>x \<in> set xs. f x = g x"
  shows "sort_key f xs = sort_key g xs"
proof -
  have "insort_key f x ys = insort_key g x ys" if "f x = g x" "\<forall>y \<in> set ys. f y = g y" for x ys
    using that by (induction ys) auto
  moreover have "set (foldr (insort_key h) ys []) = set ys" for h :: "'a \<Rightarrow> 'b" and ys
    using set_sort [of h ys] by (simp only: sort_key_def)
  ultimately show ?thesis
    using assms by (induction xs) (simp_all add: sort_key_def)
qed

lemma sum_list_by_key:
  fixes f :: "'a \<Rightarrow> int" and key :: "'a \<Rightarrow> 'k::linorder"
  shows "(\<Sum>x\<leftarrow>xs. f x) =
    (\<Sum>k\<leftarrow>sorted_list_of_set (key ` set xs). \<Sum>x\<leftarrow>filter (\<lambda>x. key x = k) xs. f x)"
proof -
  have "(\<Sum>k\<leftarrow>sorted_list_of_set (key ` set xs). \<Sum>x\<leftarrow>filter (\<lambda>x. key x = k) xs. f x) =
      (\<Sum>k\<in>key ` set xs. \<Sum>x\<leftarrow>filter (\<lambda>x. key x = k) xs. f x)"
    by (simp add: sum_list_distinct_conv_sum_set)
  also have "\<dots> = (\<Sum>k\<in>K. \<Sum>x\<leftarrow>filter (\<lambda>x. key x = k) xs. f x)"
    if "finite K" "key ` set xs \<subseteq> K" for K
  proof -
    have "filter (\<lambda>x. key x = k) xs = []" if "k \<notin> key ` set xs" for k
      using that by (auto simp: filter_empty_conv)
    then show ?thesis using that by (intro sum.mono_neutral_left) auto
  qed
  moreover have "(\<Sum>k\<in>K. \<Sum>x\<leftarrow>filter (\<lambda>x. key x = k) xs. f x) = (\<Sum>x\<leftarrow>xs. f x)"
    if "finite K" "key ` set xs \<subseteq> K" for K
    using that(2)
  proof (induction xs)
    case Nil
    then show ?case by simp
  next
    case (Cons x xs)
    have "(\<Sum>k\<in>K. \<Sum>y\<leftarrow>filter (\<lambda>y. key y = k) (x # xs). f y) =
        (\<Sum>k\<in>K. (if key x = k then f x else 0) + (\<Sum>y\<leftarrow>filter (\<lambda>y. key y = k) xs. f y))"
      by (rule sum.cong) auto
    also have "\<dots> = f x + (\<Sum>x\<leftarrow>xs. f x)"
      using Cons that(1) by (simp add: sum.distrib)
    finally show ?case by simp
  qed
  ultimately show ?thesis by (metis List.finite_set finite_imageI order_refl)
qed

lemma calculateCreditInvoiceTotals_eq_Inr:
  "calculateCreditInvoiceTotals lines = Inr t \<longleftrightarrow>
     (\<forall>l \<in> set lines. validCreditLine l) \<and> amount (\<Sum>l\<leftarrow>lines. cl_grossCents l) \<and>
     t = creditTotalsOf lines"
proof -
  let ?key = cl_vatRateBasisPoints and ?rates = "cl_vatRateBasisPoints ` set lines"
  have zero: "rowAmounts None = (0, 0, 0)" by (simp add: rowAmounts_def)
  have acc: "accR creditTotalsStep None (creditLinesAt rate lines) = Inr w \<longleftrightarrow>
      (\<forall>l \<in> set (creditLinesAt rate lines). validCreditLine l) \<and>
      amount (\<Sum>l\<leftarrow>creditLinesAt rate lines. cl_grossCents l) \<and>
      w = Some (creditRow rate (creditLinesAt rate lines))"
    if "rate \<in> ?rates" for rate w
  proof -
    have "creditLinesAt rate lines \<noteq> []" using that by (auto simp: creditLinesAt_def filter_empty_conv)
    from accR_creditTotals [OF _ this zero, of rate w] show ?thesis
      by (simp add: creditLinesAt_def creditRow_def)
  qed
  have part: "amount (\<Sum>l\<leftarrow>creditLinesAt rate lines. cl_grossCents l)"
    if "\<forall>l \<in> set lines. validCreditLine l" "amount (\<Sum>l\<leftarrow>lines. cl_grossCents l)" for rate
  proof -
    let ?other = "filter (\<lambda>l. cl_vatRateBasisPoints l \<noteq> rate) lines"
    have "(\<Sum>l\<leftarrow>lines. cl_grossCents l) =
        (\<Sum>l\<leftarrow>creditLinesAt rate lines. cl_grossCents l) + (\<Sum>l\<leftarrow>?other. cl_grossCents l)"
      by (induction lines) (auto simp: creditLinesAt_def)
    moreover have "0 \<le> (\<Sum>l\<leftarrow>?other. cl_grossCents l)"
      "0 \<le> (\<Sum>l\<leftarrow>creditLinesAt rate lines. cl_grossCents l)"
      using that(1) by (auto simp: creditLinesAt_def intro!: validCreditLine_sums(3))
    ultimately show ?thesis using that(2) by (simp add: amount_def)
  qed
  have succ: "succeeds (groupR ?key creditTotalsStep [] lines) \<longleftrightarrow>
      (\<forall>l \<in> set lines. validCreditLine l) \<and>
      (\<forall>rate \<in> ?rates. amount (\<Sum>l\<leftarrow>creditLinesAt rate lines. cl_grossCents l))"
  proof -
    have "succeeds (groupR ?key creditTotalsStep [] lines) \<longleftrightarrow>
        (\<forall>rate. succeeds (accR creditTotalsStep None (creditLinesAt rate lines)))"
      by (simp add: groupR_succeeds creditLinesAt_def)
    also have "\<dots> \<longleftrightarrow> (\<forall>rate \<in> ?rates. succeeds (accR creditTotalsStep None (creditLinesAt rate lines)))"
    proof -
      have "creditLinesAt rate lines = []" if "rate \<notin> ?rates" for rate
        using that by (auto simp: creditLinesAt_def filter_empty_conv)
      then show ?thesis by (metis accR.simps(1) succeeds_simps(1))
    qed
    also have "\<dots> \<longleftrightarrow> (\<forall>l \<in> set lines. validCreditLine l) \<and>
        (\<forall>rate \<in> ?rates. amount (\<Sum>l\<leftarrow>creditLinesAt rate lines. cl_grossCents l))"
      using acc by (auto simp: succeeds_iff creditLinesAt_def)
    finally show ?thesis .
  qed
  have rows: "jsSort (\<lambda>a b. bd_vatRateBasisPoints a - bd_vatRateBasisPoints b) (map snd m) =
      vatBreakdown (creditTotalsOf lines)"
    if m: "groupR ?key creditTotalsStep [] lines = Inr m" for m
  proof -
    have keys: "distinct (map fst m)" "set (map fst m) = ?rates"
      using groupR_distinct [OF m] groupR_keys [OF m] by simp_all
    have val: "map_of m rate = Some (creditRow rate (creditLinesAt rate lines))" if "rate \<in> ?rates" for rate
    proof -
      have "accR creditTotalsStep None (creditLinesAt rate lines) = Inr (map_of m rate)"
        using groupR_map_of [OF m, of rate] by (simp add: creditLinesAt_def)
      then show ?thesis using acc [OF that, of "map_of m rate"] by blast
    qed
    have "bd_vatRateBasisPoints (snd e) = fst e" if "e \<in> set m" for e
    proof -
      have "map_of m (fst e) = Some (snd e)" using that keys(1) by simp
      moreover have "fst e \<in> ?rates" using that keys(2) by force
      ultimately have "snd e = creditRow (fst e) (creditLinesAt (fst e) lines)" using val by simp
      then show ?thesis by (simp only: creditRow_def InvoiceVatBreakdown.simps)
    qed
    then have "sort_key bd_vatRateBasisPoints (map snd m) = map snd (sort_key fst m)"
      unfolding sort_key_map by (metis sort_key_cong')
    also have "\<dots> = vatBreakdown (creditTotalsOf lines)"
      unfolding map_of_sorted_alist [OF keys(1)] keys(2) creditTotalsOf_def
      by (simp add: val)
    finally show ?thesis unfolding jsSort_key .
  qed
  show ?thesis
  proof (cases "groupR ?key creditTotalsStep [] lines")
    case (Inl e)
    then have "\<not> succeeds (groupR ?key creditTotalsStep [] lines)" by simp
    with succ part have "\<not> ((\<forall>l \<in> set lines. validCreditLine l) \<and> amount (\<Sum>l\<leftarrow>lines. cl_grossCents l))"
      by blast
    with Inl show ?thesis by (auto simp: calculateCreditInvoiceTotals_def)
  next
    case (Inr m)
    then have "succeeds (groupR ?key creditTotalsStep [] lines)" by simp
    with succ have valid: "\<forall>l \<in> set lines. validCreditLine l" by blast
    note sums = validCreditLine_sums [OF valid]
    have "amount (\<Sum>l\<leftarrow>lines. cl_netCents l) \<and> amount (\<Sum>l\<leftarrow>lines. cl_vatCents l) \<and>
        amount (\<Sum>l\<leftarrow>lines. cl_grossCents l) \<longleftrightarrow> amount (\<Sum>l\<leftarrow>lines. cl_grossCents l)"
      using sums by (auto simp: amount_def)
    with rows [OF Inr] Inr valid show ?thesis
      by (auto simp: calculateCreditInvoiceTotals_def result_simps creditTotalsOf_def)
  qed
qed

section \<open>A successful credit\<close>

definition taxExactAt ::
    "CreditSourceLine list \<Rightarrow> PreviousCreditLineAllocation list \<Rightarrow> CalculatedCreditLine list
      \<Rightarrow> CalculatedCreditLine \<Rightarrow> bool" where
  "taxExactAt sources prevs lines l \<longleftrightarrow>
     (let rate = cl_vatRateBasisPoints l; before = allocationsAt sources prevs rate in
      taxExact (cl_priceInputMode l) rate (\<Sum>a\<leftarrow>before. pa_netCents a)
        (\<Sum>a\<leftarrow>before. pa_vatCents a) (\<Sum>a\<leftarrow>before. pa_grossCents a)
        (creditLinesAt rate lines))"

lemma calculateCreditInvoice_facts:
  assumes "calculateCreditInvoice lc sources prevs reqs = Inr c"
  shows "validSources sources" and "distinct (map rq_sourceInvoiceLineId reqs)"
    and "list_all2 (creditedLine sources prevs) reqs (ci_lines c)"
    and "\<forall>l \<in> set (ci_lines c). taxExactAt sources prevs (ci_lines c) l"
    and "\<forall>l \<in> set (ci_lines c). validCreditLine l"
    and "ci_totals c = creditTotalsOf (ci_lines c)" and "amount (grossTotalCents (ci_totals c))"
proof -
  obtain caps totals ls ls' t where caps: "createCreditLineCapacities sources = Inr caps"
    and prevs: "sumPreviousAllocations prevs caps = Inr totals"
    and ls: "creditRequestedLines caps totals [] reqs = Inr ls"
    and ls': "allocateCurrentTaxByVatRate lc ls prevs caps = Inr ls'"
    and t: "calculateCreditInvoiceTotals ls' = Inr t"
    and c: "c = \<lparr>ci_lines = ls', ci_totals = t\<rparr>"
    using assms by (auto simp: calculateCreditInvoice_def result_simps split: if_splits)
  show "validSources sources" using createCreditLineCapacities_lookup(1) [OF caps] .
  note lines = creditRequestedLines_credited [OF caps prevs ls]
  show "distinct (map rq_sourceInvoiceLineId reqs)" using lines(2,3) by simp
  have am: "\<forall>l \<in> set ls. amount (lineInput l)" using lines(4) by blast
  obtain m where m: "previousTaxByRate caps prevs = Inr m"
    and same: "list_all2 sameInput ls ls'"
    and groups: "\<And>rate g. (rate, g) \<in> set (groupBy cl_vatRateBasisPoints ls) \<Longrightarrow>
      \<exists>rs. reconcileRate lc m (rate, g) = Inr rs \<and>
        mset (filter (\<lambda>l. cl_vatRateBasisPoints l = rate) ls') = mset rs"
    using allocateCurrentTax_groups [OF am lines(3) ls'] by blast
  have "list_all2 (creditedLine sources prevs) reqs ls'"
    by (rule list_all2_trans [OF _ lines(1) same]) (rule creditedLine_sameInput)
  then show "list_all2 (creditedLine sources prevs) reqs (ci_lines c)" by (simp add: c)
  show "\<forall>l \<in> set (ci_lines c). validCreditLine l" "ci_totals c = creditTotalsOf (ci_lines c)"
    "amount (grossTotalCents (ci_totals c))"
    using t by (simp_all add: c calculateCreditInvoiceTotals_eq_Inr creditTotalsOf_def)
  have "\<forall>a \<in> set prevs. map_of caps (pa_sourceInvoiceLineId a) \<noteq> None"
    using sumPreviousAllocations_totals(1) [OF prevs] by blast
  note before = previousTaxByRate_sums [OF caps this m]
  show "\<forall>l \<in> set (ci_lines c). taxExactAt sources prevs (ci_lines c) l"
  proof
    fix l'
    assume l': "l' \<in> set (ci_lines c)"
    let ?rate = "cl_vatRateBasisPoints l'"
    obtain l where l: "l \<in> set ls" "sameInput l l'"
      using list_all2_mem_right [OF same] l' by (auto simp: c)
    let ?g = "filter (\<lambda>l. cl_vatRateBasisPoints l = ?rate) ls"
    have lg: "l \<in> set ?g" using l by (simp add: sameInput_def)
    then have e: "(?rate, ?g) \<in> set (groupBy cl_vatRateBasisPoints ls)"
      unfolding mem_groupBy by (simp add: image_iff) metis
    obtain rs where rs: "reconcileRate lc m (?rate, ?g) = Inr rs"
      "mset (filter (\<lambda>l. cl_vatRateBasisPoints l = ?rate) ls') = mset rs"
      using groups [OF e] by blast
    have "\<forall>l \<in> set ?g. amount (lineInput l)" "?g \<noteq> []"
      using am length_pos_if_in_set [OF lg] by simp_all
    note exact = reconcileRate_exact [OF this rs(1)]
    have "cl_priceInputMode l' = cl_priceInputMode l" using l(2) by (simp add: sameInput_def)
    also have "\<dots> = cl_priceInputMode (hd ?g)" by (rule bspec [OF exact(1) lg])
    finally have "cl_priceInputMode l' = cl_priceInputMode (hd ?g)" .
    with exact(3) [OF before] show "taxExactAt sources prevs (ci_lines c) l'"
      unfolding taxExactAt_def Let_def creditLinesAt_def taxExact_mset [OF rs(2)]
      by (simp add: c taxExact_mset [OF rs(2)])
  qed
qed

end
