(* ===== verification/RateSums.thy ===== *)
theory RateSums
  imports InvoiceLine
begin

text \<open>
  Several loops of the credit modules fill a Map from the VAT rate with running sums of
  net, VAT and gross amounts and insist on one price input mode per rate. The locale
  \<open>rate_sums\<close> states what one step of such a loop does; its lemmas say what the loop as a
  whole computes: it succeeds exactly when every element passes the check of the step,
  elements of one rate agree on the mode and the sums stay in range, and then the entry of
  a rate holds the sums over the elements of that rate.
\<close>

definition sumAt :: "('a \<Rightarrow> number) \<Rightarrow> ('a \<Rightarrow> int) \<Rightarrow> 'a list \<Rightarrow> number \<Rightarrow> int" where
  "sumAt key f xs k = (\<Sum>x\<leftarrow>filter (\<lambda>x. key x = k) xs. f x)"

lemma sumAt_append [simp]: "sumAt key f (xs @ ys) k = sumAt key f xs k + sumAt key f ys k"
  by (simp add: sumAt_def)

lemma sumAt_Nil [simp]: "sumAt key f [] k = 0"
  by (simp add: sumAt_def)

lemma sumAt_map: "sumAt key f (map h xs) k = sumAt (\<lambda>x. key (h x)) (\<lambda>x. f (h x)) xs k"
  by (simp add: sumAt_def filter_map comp_def)

lemma sumAt_none: "k \<notin> key ` set xs \<Longrightarrow> sumAt key f xs k = 0"
  unfolding sumAt_def by (subst filter_False) auto

lemma sumAt_nonneg: "\<forall>x \<in> set xs. 0 \<le> f x \<Longrightarrow> 0 \<le> sumAt key f xs k"
  by (auto simp: sumAt_def intro!: sum_list_nonneg)

lemma sumAt_total:
  assumes "distinct ks" "key ` set xs \<subseteq> set ks"
  shows "(\<Sum>k\<leftarrow>ks. sumAt key f xs k) = (\<Sum>x\<leftarrow>xs. f x)"
  using assms(2)
proof (induction xs)
  case Nil
  then show ?case by simp
next
  case (Cons x xs)
  have "sumAt key f (x # xs) k = (if key x = k then f x else 0) + sumAt key f xs k" for k
    by (simp add: sumAt_def)
  moreover have "(\<Sum>k\<leftarrow>ks. if key x = k then f x else 0) = f x"
    using Cons.prems assms(1) by (simp add: sum_list_distinct_conv_sum_set)
  ultimately show ?case
    using Cons by (simp add: sum_list_addf)
qed

definition agreeAt :: "('a \<Rightarrow> number) \<Rightarrow> ('a \<Rightarrow> 'm) \<Rightarrow> 'a list \<Rightarrow> bool" where
  "agreeAt key mode xs \<longleftrightarrow>
     (\<forall>x \<in> set xs. \<forall>y \<in> set xs. key x = key y \<longrightarrow> mode x = mode y)"

locale rate_sums =
  fixes step :: "'v option \<Rightarrow> 'a \<Rightarrow> eky_error + 'v"
    and key :: "'a \<Rightarrow> number" and pre check :: "'a \<Rightarrow> bool" and mode :: "'a \<Rightarrow> PriceInputMode"
    and net vat gross :: "'a \<Rightarrow> int"
    and make :: "number \<Rightarrow> PriceInputMode \<Rightarrow> int \<Rightarrow> int \<Rightarrow> int \<Rightarrow> 'v"
  assumes first_step: "pre x \<Longrightarrow>
      step None x = Inr w \<longleftrightarrow> check x \<and> w = make (key x) (mode x) (net x) (vat x) (gross x)"
    and later_step: "pre x \<Longrightarrow> 0 \<le> n \<Longrightarrow> 0 \<le> v \<Longrightarrow> n + v = g \<Longrightarrow>
      step (Some (make (key x) m n v g)) x = Inr w \<longleftrightarrow>
        check x \<and> mode x = m \<and> amount (g + gross x) \<and>
        w = make (key x) m (n + net x) (v + vat x) (g + gross x)"
    and amounts: "pre x \<Longrightarrow> check x \<Longrightarrow>
      0 \<le> net x \<and> 0 \<le> vat x \<and> net x + vat x = gross x \<and> amount (gross x)"
begin

lemma sums_reconcile:
  assumes "\<forall>x \<in> set xs. pre x \<and> check x"
  shows "0 \<le> (\<Sum>x\<leftarrow>xs. net x)" "0 \<le> (\<Sum>x\<leftarrow>xs. vat x)" "0 \<le> (\<Sum>x\<leftarrow>xs. gross x)"
    and "(\<Sum>x\<leftarrow>xs. net x) + (\<Sum>x\<leftarrow>xs. vat x) = (\<Sum>x\<leftarrow>xs. gross x)"
  using assms by (induction xs) (use amounts in \<open>force simp: amount_def\<close>)+

lemma accR_some:
  assumes "\<forall>x \<in> set xs. pre x \<and> key x = k" and "0 \<le> n" "0 \<le> v" "n + v = g" "amount g"
  shows "accR step (Some (make k m n v g)) xs = Inr w \<longleftrightarrow>
    (\<forall>x \<in> set xs. check x \<and> mode x = m) \<and> amount (g + (\<Sum>x\<leftarrow>xs. gross x)) \<and>
    w = Some (make k m (n + (\<Sum>x\<leftarrow>xs. net x)) (v + (\<Sum>x\<leftarrow>xs. vat x)) (g + (\<Sum>x\<leftarrow>xs. gross x)))"
  using assms
proof (induction xs arbitrary: n v g)
  case Nil
  then show ?case by auto
next
  case (Cons x xs)
  have x: "pre x" "key x = k" using Cons.prems by auto
  note step = later_step [OF x(1) Cons.prems(2-4), unfolded x(2)]
  show ?case
  proof (cases "check x")
    case False
    then show ?thesis using step by (auto simp: result_simps)
  next
    case True
    note am = amounts [OF x(1) True]
    have rest: "amount (g + gross x)"
      if "\<forall>x \<in> set xs. check x \<and> mode x = m" "amount (g + (gross x + (\<Sum>x\<leftarrow>xs. gross x)))"
      using that sums_reconcile(3) [of xs] Cons.prems am by (auto simp: amount_def)
    show ?thesis
    proof (cases "mode x = m \<and> amount (g + gross x)")
      case mode: True
      have "accR step (Some (make k m (n + net x) (v + vat x) (g + gross x))) xs = Inr w \<longleftrightarrow>
        (\<forall>x \<in> set xs. check x \<and> mode x = m) \<and> amount (g + gross x + (\<Sum>x\<leftarrow>xs. gross x)) \<and>
        w = Some (make k m (n + net x + (\<Sum>x\<leftarrow>xs. net x)) (v + vat x + (\<Sum>x\<leftarrow>xs. vat x))
          (g + gross x + (\<Sum>x\<leftarrow>xs. gross x)))"
        using Cons.prems am mode by (intro Cons.IH) auto
      with step True mode show ?thesis by (auto simp: result_simps add.assoc)
    next
      case False
      then show ?thesis using step rest by (auto simp: result_simps)
    qed
  qed
qed

lemma accR_none:
  assumes "\<forall>x \<in> set xs. pre x \<and> key x = k" and "xs \<noteq> []"
  shows "accR step None xs = Inr w \<longleftrightarrow>
    (\<forall>x \<in> set xs. check x \<and> mode x = mode (hd xs)) \<and> amount (\<Sum>x\<leftarrow>xs. gross x) \<and>
    w = Some (make k (mode (hd xs)) (\<Sum>x\<leftarrow>xs. net x) (\<Sum>x\<leftarrow>xs. vat x) (\<Sum>x\<leftarrow>xs. gross x))"
proof -
  obtain x ys where xs: "xs = x # ys" using assms(2) by (cases xs) auto
  have x: "pre x" "key x = k" and ys: "\<forall>y \<in> set ys. pre y \<and> key y = k" using assms(1) xs by auto
  show ?thesis
  proof (cases "check x")
    case False
    then show ?thesis using first_step [OF x(1)] by (auto simp: xs result_simps)
  next
    case True
    note am = amounts [OF x(1) True]
    have "accR step (Some (make k (mode x) (net x) (vat x) (gross x))) ys = Inr w \<longleftrightarrow>
      (\<forall>y \<in> set ys. check y \<and> mode y = mode x) \<and> amount (gross x + (\<Sum>y\<leftarrow>ys. gross y)) \<and>
      w = Some (make k (mode x) (net x + (\<Sum>y\<leftarrow>ys. net y)) (vat x + (\<Sum>y\<leftarrow>ys. vat y))
        (gross x + (\<Sum>y\<leftarrow>ys. gross y)))"
      using ys am by (intro accR_some) auto
    with True first_step [OF x(1)] x(2) show ?thesis by (auto simp: xs result_simps)
  qed
qed

lemma groupR_entry:
  assumes pre: "\<forall>x \<in> set xs. pre x" and m: "groupR key step [] xs = Inr m"
  shows "distinct (map fst m)" and "fst ` set m = key ` set xs"
    and "\<forall>x \<in> set xs. check x" and "agreeAt key mode xs"
    and "x \<in> set xs \<Longrightarrow> amount (sumAt key gross xs (key x)) \<and>
      map_of m (key x) = Some (make (key x) (mode x) (sumAt key net xs (key x))
        (sumAt key vat xs (key x)) (sumAt key gross xs (key x)))"
    and "k \<notin> key ` set xs \<Longrightarrow> map_of m k = None"
proof -
  show "distinct (map fst m)" "fst ` set m = key ` set xs"
    using groupR_distinct [OF m] groupR_keys [OF m] by simp_all
  then show "k \<notin> key ` set xs \<Longrightarrow> map_of m k = None" by (simp add: map_of_eq_None_iff)
  have acc: "(\<forall>y \<in> set xs. key y = key x \<longrightarrow> check y \<and> mode y = mode x) \<and>
      amount (sumAt key gross xs (key x)) \<and>
      map_of m (key x) = Some (make (key x) (mode x) (sumAt key net xs (key x))
        (sumAt key vat xs (key x)) (sumAt key gross xs (key x)))" if x: "x \<in> set xs" for x
  proof -
    let ?g = "filter (\<lambda>y. key y = key x) xs"
    have g: "\<forall>y \<in> set ?g. pre y \<and> key y = key x" and mem: "x \<in> set ?g"
      using pre x by auto
    from mem have ne: "?g \<noteq> []" by (metis empty_iff empty_set)
    have "accR step None ?g = Inr (map_of m (key x))"
      using groupR_map_of [OF m, of "key x"] by simp
    note r = this [unfolded accR_none [OF g ne]]
    have "mode (hd ?g) = mode x" using r mem by metis
    with r show ?thesis unfolding sumAt_def by auto
  qed
  show "\<forall>x \<in> set xs. check x" using acc by blast
  show "agreeAt key mode xs" using acc unfolding agreeAt_def by metis
  assume "x \<in> set xs"
  with acc show "amount (sumAt key gross xs (key x)) \<and>
      map_of m (key x) = Some (make (key x) (mode x) (sumAt key net xs (key x))
        (sumAt key vat xs (key x)) (sumAt key gross xs (key x)))" by blast
qed

lemma groupR_ok:
  assumes pre: "\<forall>x \<in> set xs. pre x" and "\<forall>x \<in> set xs. check x" and "agreeAt key mode xs"
    and "\<forall>x \<in> set xs. amount (sumAt key gross xs (key x))"
  shows "succeeds (groupR key step [] xs)"
  unfolding groupR_succeeds
proof
  fix k
  let ?g = "filter (\<lambda>y. key y = k) xs"
  show "succeeds (accR step (map_of [] k) ?g)"
  proof (cases "?g = []")
    case False
    then have hd: "hd ?g \<in> set ?g" by (rule hd_in_set)
    have g: "\<forall>y \<in> set ?g. pre y \<and> key y = k" using pre by auto
    have "amount (sumAt key gross xs k)" using assms(4) hd by auto
    moreover have "mode y = mode (hd ?g)" if "y \<in> set ?g" for y
      using assms(3) hd that unfolding agreeAt_def by auto
    ultimately show ?thesis
      using accR_none [OF g False] assms(2) by (auto simp: succeeds_iff sumAt_def)
  qed simp
qed

end

text \<open>The exact tax on cumulated amounts, in the direction of the price input mode.\<close>

definition exactTax :: "PriceInputMode \<Rightarrow> number \<Rightarrow> int \<Rightarrow> int \<Rightarrow> int \<Rightarrow> bool" where
  "exactTax mode rate net vat gross \<longleftrightarrow>
     net + vat = gross \<and>
     (case mode of Net \<Rightarrow> vat = vatOfNet net rate | Gross \<Rightarrow> net = netOfGross gross rate)"

end
