(* ===== verification/CreditDraftCorrect.thy ===== *)
theory CreditDraftCorrect
  imports CreditDraft CreditTotals RateSums
begin

text \<open>
  Correctness of credit-note drafts: the capacity of a VAT rate is the tax calculation on
  the invoice's sum for that rate, accepted drafts keep the credited sums within it, their
  tax is exact over all credits, and storing a draft lowers the remaining amounts by
  exactly the totals of the draft.
\<close>

section \<open>Guards\<close>

interpretation draft: checked_arithmetic addSafeDraft subtractSafeDraft
proof
  fix a b c :: number
  assume a: "amount a" and b: "amount b"
  show "addSafeDraft a b = Inr c \<longleftrightarrow> amount (a + b) \<and> c = a + b"
    using a b by (auto simp: addSafeDraft_def amount_def Let_def)
  show "subtractSafeDraft a b = Inr c \<longleftrightarrow> b \<le> a \<and> c = a - b"
    using a b by (auto simp: subtractSafeDraft_def Let_def)
qed

lemma addSafeDraft_ok:
  "addSafeDraft a b = Inr c \<longleftrightarrow> a + b \<le> MAX_SAFE_INTEGER \<and> c = a + b"
  by (auto simp: addSafeDraft_def Let_def)

lemma subtractSafeDraft_ok:
  "subtractSafeDraft a b = Inr c \<longleftrightarrow> amount (a - b) \<and> c = a - b"
  by (auto simp: subtractSafeDraft_def Let_def amount_iff isSafeInteger_def jsSub_def jsRound_def
      MAX_SAFE_INTEGER_def)

definition creditAmounts :: "number \<Rightarrow> number \<Rightarrow> number \<Rightarrow> number \<Rightarrow> bool" where
  "creditAmounts rate net vat gross \<longleftrightarrow>
     amount rate \<and> amount net \<and> amount vat \<and> amount gross \<and> net + vat = gross"

lemma requireCreditAmounts_ok [result_simps]:
  "requireCreditAmounts mode rate n v g f = Inr u \<longleftrightarrow> creditAmounts rate n v g"
  by (auto simp: requireCreditAmounts_def creditAmounts_def amount_iff)

section \<open>Capacities\<close>

definition makeCapacity :: "number \<Rightarrow> PriceInputMode \<Rightarrow> int \<Rightarrow> int \<Rightarrow> int \<Rightarrow> VatCapacity" where
  "makeCapacity k m n v g =
     \<lparr>vc_priceInputMode = m, vc_netCents = n, vc_vatCents = v, vc_grossCents = g\<rparr>"

lemma makeCapacity_simps [simp]:
  "vc_priceInputMode (makeCapacity k m n v g) = m" "vc_netCents (makeCapacity k m n v g) = n"
  "vc_vatCents (makeCapacity k m n v g) = v" "vc_grossCents (makeCapacity k m n v g) = g"
  by (simp_all add: makeCapacity_def)

definition sourceAmounts :: "CreditSourceLine \<Rightarrow> bool" where
  "sourceAmounts l \<longleftrightarrow>
     creditAmounts (src_vatRateBasisPoints l) (src_netCents l) (src_vatCents l) (src_grossCents l)"

interpretation sources: rate_sums vatCapacityStep src_vatRateBasisPoints "\<lambda>_. True" sourceAmounts
  src_priceInputMode src_netCents src_vatCents src_grossCents makeCapacity
proof
  fix x w
  show "vatCapacityStep None x = Inr w \<longleftrightarrow> sourceAmounts x \<and>
      w = makeCapacity (src_vatRateBasisPoints x) (src_priceInputMode x) (src_netCents x)
        (src_vatCents x) (src_grossCents x)"
    by (auto simp: vatCapacityStep_def result_simps addSafeDraft_ok sourceAmounts_def creditAmounts_def
        makeCapacity_def amount_def)
next
  fix x m w and n v g :: int
  assume "0 \<le> n" "0 \<le> v" "n + v = g"
  then show "vatCapacityStep (Some (makeCapacity (src_vatRateBasisPoints x) m n v g)) x = Inr w \<longleftrightarrow>
      sourceAmounts x \<and> src_priceInputMode x = m \<and> amount (g + src_grossCents x) \<and>
      w = makeCapacity (src_vatRateBasisPoints x) m (n + src_netCents x) (v + src_vatCents x)
        (g + src_grossCents x)"
    by (auto simp: vatCapacityStep_def result_simps addSafeDraft_ok sourceAmounts_def creditAmounts_def
        makeCapacity_def amount_def)
next
  fix x
  show "sourceAmounts x \<Longrightarrow> 0 \<le> src_netCents x \<and> 0 \<le> src_vatCents x \<and>
      src_netCents x + src_vatCents x = src_grossCents x \<and> amount (src_grossCents x)"
    by (auto simp: sourceAmounts_def creditAmounts_def)
qed

text \<open>The amounts a rate can be credited with: the tax calculation on the sum of the rate.\<close>

definition capacityAt :: "CreditSourceLine list \<Rightarrow> number \<Rightarrow> PriceInputMode \<Rightarrow> VatCapacity" where
  "capacityAt sources rate mode =
     (case mode of
        Net \<Rightarrow>
          (let net = sumAt src_vatRateBasisPoints src_netCents sources rate;
               vat = vatOfNet net rate in
           makeCapacity rate Net net vat (net + vat))
      | Gross \<Rightarrow>
          (let gross = sumAt src_vatRateBasisPoints src_grossCents sources rate;
               net = netOfGross gross rate in
           makeCapacity rate Gross net (gross - net) gross))"

definition amountCapacity :: "VatCapacity \<Rightarrow> bool" where
  "amountCapacity c \<longleftrightarrow>
     amount (vc_netCents c) \<and> amount (vc_vatCents c) \<and> amount (vc_grossCents c) \<and>
     vc_netCents c + vc_vatCents c = vc_grossCents c"

lemma taxCapacity_eq_Inr:
  assumes "0 \<le> n" "0 \<le> g" "g \<le> MAX_SAFE_INTEGER" "0 \<le> rate"
  shows "taxCapacity (rate, makeCapacity rate Net n v g) = Inr e \<Longrightarrow>
      e = (rate, makeCapacity rate Net n (vatOfNet n rate) (n + vatOfNet n rate)) \<and>
      amountCapacity (snd e)"
    and "taxCapacity (rate, makeCapacity rate Gross n v g) = Inr e \<Longrightarrow>
      e = (rate, makeCapacity rate Gross (netOfGross g rate) (g - netOfGross g rate) g) \<and>
      amountCapacity (snd e)"
proof -
  assume h: "taxCapacity (rate, makeCapacity rate Net n v g) = Inr e"
  have "0 \<le> rounded (n * rate) 10000" using assms by simp
  then have "n + rounded (n * rate) 10000 \<le> MAX_SAFE_INTEGER \<Longrightarrow> n \<le> MAX_SAFE_INTEGER" by linarith
  with h assms(1) show "e = (rate, makeCapacity rate Net n (vatOfNet n rate) (n + vatOfNet n rate)) \<and>
      amountCapacity (snd e)"
    by (auto simp: taxCapacity_def result_simps roundHalfUp_eq_Inr addSafeDraft_ok basisPointsScale_def
        vatOfNet_def amountCapacity_def amount_def makeCapacity_def)
next
  assume h: "taxCapacity (rate, makeCapacity rate Gross n v g) = Inr e"
  have "amount g" using assms by (simp add: amount_def)
  note net = netOfGross_amount [OF this assms(4)]
  from h net \<open>amount g\<close> show "e = (rate, makeCapacity rate Gross (netOfGross g rate) (g - netOfGross g rate) g) \<and>
      amountCapacity (snd e)"
    by (auto simp: taxCapacity_def result_simps roundHalfUp_eq_Inr subtractSafeDraft_ok
        basisPointsScale_def netOfGross_def amountCapacity_def makeCapacity_def)
qed

lemma mapR_keys_lookup:
  assumes "mapR f m = Inr m'" and "\<And>e e'. e \<in> set m \<Longrightarrow> f e = Inr e' \<Longrightarrow> fst e' = fst e"
  shows "map fst m' = map fst m"
    and "map_of m' k = Some c' \<Longrightarrow> \<exists>c. map_of m k = Some c \<and> f (k, c) = Inr (k, c')"
proof -
  show "map fst m' = map fst m"
    by (rule mapR_map [OF assms(1)]) (rule assms(2))
  show "map_of m' k = Some c' \<Longrightarrow> \<exists>c. map_of m k = Some c \<and> f (k, c) = Inr (k, c')"
    using assms
  proof (induction m arbitrary: m')
    case Nil
    then show ?case by simp
  next
    case (Cons e m)
    then obtain e' m'' where e': "f e = Inr e'" "mapR f m = Inr m''" "m' = e' # m''"
      by (auto simp: result_simps)
    have "fst e' = fst e" using Cons.prems(3) e'(1) by simp
    with Cons e' show ?case by (cases e; cases e') (auto split: if_splits)
  qed
qed

lemma createVatCapacities_lookup:
  assumes caps: "createVatCapacities sources = Inr caps"
  shows "distinct (map fst caps)" and "fst ` set caps = src_vatRateBasisPoints ` set sources"
    and "\<forall>s \<in> set sources. sourceAmounts s"
    and "agreeAt src_vatRateBasisPoints src_priceInputMode sources"
    and "s \<in> set sources \<Longrightarrow> \<exists>c. map_of caps (src_vatRateBasisPoints s) = Some c"
    and "s \<in> set sources \<Longrightarrow> map_of caps (src_vatRateBasisPoints s) = Some c \<Longrightarrow>
      c = capacityAt sources (src_vatRateBasisPoints s) (src_priceInputMode s) \<and> amountCapacity c"
proof -
  obtain m where m: "groupR src_vatRateBasisPoints vatCapacityStep [] sources = Inr m"
    and t: "mapR taxCapacity m = Inr caps"
    using caps by (auto simp: createVatCapacities_def result_simps)
  have fst: "fst e' = fst e" if "e \<in> set m" "taxCapacity e = Inr e'" for e e'
    using that(2) by (cases "vc_priceInputMode (snd e)") (auto simp: taxCapacity_def result_simps split: prod.splits)
  have keys: "map fst caps = map fst m"
    "\<And>k c'. map_of caps k = Some c' \<Longrightarrow> \<exists>c. map_of m k = Some c \<and> taxCapacity (k, c) = Inr (k, c')"
    using mapR_keys_lookup [OF t] fst by blast+
  note g = sources.groupR_entry [OF _ m, simplified]
  show "distinct (map fst caps)" unfolding keys(1) by (rule g(1))
  show "fst ` set caps = src_vatRateBasisPoints ` set sources"
    using g(2) keys(1) by (metis set_map)
  show "\<forall>s \<in> set sources. sourceAmounts s" by (rule g(3))
  show "agreeAt src_vatRateBasisPoints src_priceInputMode sources" by (rule g(4))
  show "s \<in> set sources \<Longrightarrow> \<exists>c. map_of caps (src_vatRateBasisPoints s) = Some c"
    using \<open>fst ` set caps = src_vatRateBasisPoints ` set sources\<close>
    by (metis imageI map_of_eq_None_iff not_None_eq)
  assume s: "s \<in> set sources" and c: "map_of caps (src_vatRateBasisPoints s) = Some c"
  let ?r = "src_vatRateBasisPoints s" and ?mode = "src_priceInputMode s"
  let ?n = "sumAt src_vatRateBasisPoints src_netCents sources ?r"
    and ?v = "sumAt src_vatRateBasisPoints src_vatCents sources ?r"
    and ?g = "sumAt src_vatRateBasisPoints src_grossCents sources ?r"
  note entry = g(5) [OF s]
  have "taxCapacity (?r, makeCapacity ?r ?mode ?n ?v ?g) = Inr (?r, c)"
    using keys(2) [OF c] entry by auto
  moreover have "0 \<le> ?n" "0 \<le> ?r"
    using g(3) s by (auto simp: sourceAmounts_def creditAmounts_def intro!: sumAt_nonneg)
  moreover have "0 \<le> ?g" "?g \<le> MAX_SAFE_INTEGER" using entry by (simp_all add: amount_def)
  ultimately show "c = capacityAt sources ?r ?mode \<and> amountCapacity c"
    using taxCapacity_eq_Inr [of ?n ?g ?r ?v "(?r, c)"]
    by (cases ?mode) (auto simp: capacityAt_def Let_def)
qed

section \<open>Sums of earlier credits\<close>

definition allocationAmounts :: "PreviousCreditAllocation \<Rightarrow> bool" where
  "allocationAmounts a \<longleftrightarrow>
     creditAmounts (pca_vatRateBasisPoints a) (pca_netCents a) (pca_vatCents a) (pca_grossCents a)"

interpretation allocations: rate_sums sumByRateStep pca_vatRateBasisPoints allocationAmounts "\<lambda>_. True"
  pca_priceInputMode pca_netCents pca_vatCents pca_grossCents makeCapacity
proof
  fix x w
  assume "allocationAmounts x"
  then show "sumByRateStep None x = Inr w \<longleftrightarrow> True \<and>
      w = makeCapacity (pca_vatRateBasisPoints x) (pca_priceInputMode x) (pca_netCents x)
        (pca_vatCents x) (pca_grossCents x)"
    by (auto simp: sumByRateStep_def result_simps addSafeDraft_ok allocationAmounts_def
        creditAmounts_def makeCapacity_def amount_def)
next
  fix x m w and n v g :: int
  assume "allocationAmounts x" "0 \<le> n" "0 \<le> v" "n + v = g"
  then show "sumByRateStep (Some (makeCapacity (pca_vatRateBasisPoints x) m n v g)) x = Inr w \<longleftrightarrow>
      True \<and> pca_priceInputMode x = m \<and> amount (g + pca_grossCents x) \<and>
      w = makeCapacity (pca_vatRateBasisPoints x) m (n + pca_netCents x) (v + pca_vatCents x)
        (g + pca_grossCents x)"
    by (auto simp: sumByRateStep_def result_simps addSafeDraft_ok allocationAmounts_def
        creditAmounts_def makeCapacity_def amount_def)
next
  fix x
  show "allocationAmounts x \<Longrightarrow> True \<Longrightarrow> 0 \<le> pca_netCents x \<and> 0 \<le> pca_vatCents x \<and>
      pca_netCents x + pca_vatCents x = pca_grossCents x \<and> amount (pca_grossCents x)"
    by (auto simp: allocationAmounts_def creditAmounts_def)
qed

abbreviation netAt :: "PreviousCreditAllocation list \<Rightarrow> number \<Rightarrow> int" where
  "netAt \<equiv> sumAt pca_vatRateBasisPoints pca_netCents"

abbreviation vatAt :: "PreviousCreditAllocation list \<Rightarrow> number \<Rightarrow> int" where
  "vatAt \<equiv> sumAt pca_vatRateBasisPoints pca_vatCents"

abbreviation grossAt :: "PreviousCreditAllocation list \<Rightarrow> number \<Rightarrow> int" where
  "grossAt \<equiv> sumAt pca_vatRateBasisPoints pca_grossCents"

text \<open>The credited sums of every rate are within its capacity.\<close>

definition withinCapacity ::
    "PreviousCreditAllocation list \<Rightarrow> (number \<times> VatCapacity) list \<Rightarrow> bool" where
  "withinCapacity as caps \<longleftrightarrow>
     (\<forall>a \<in> set as. \<exists>c. map_of caps (pca_vatRateBasisPoints a) = Some c \<and>
        vc_priceInputMode c = pca_priceInputMode a \<and>
        netAt as (pca_vatRateBasisPoints a) \<le> vc_netCents c \<and>
        vatAt as (pca_vatRateBasisPoints a) \<le> vc_vatCents c \<and>
        grossAt as (pca_vatRateBasisPoints a) \<le> vc_grossCents c)"

definition asAllocation :: "CalculatedNormalCreditDraftLine \<Rightarrow> PreviousCreditAllocation" where
  "asAllocation l =
     \<lparr>pca_sourceInvoiceLineId = dl_sourceInvoiceLineId l,
      pca_quantityHundredths = dl_quantityHundredths l,
      pca_priceInputMode = dl_priceInputMode l,
      pca_vatRateBasisPoints = dl_vatRateBasisPoints l, pca_baseCents = dl_baseCents l,
      pca_discountCents = dl_discountCents l, pca_netCents = dl_netCents l,
      pca_vatCents = dl_vatCents l, pca_grossCents = dl_grossCents l\<rparr>"

lemma asAllocation_simps [simp]:
  "pca_sourceInvoiceLineId (asAllocation l) = dl_sourceInvoiceLineId l"
  "pca_quantityHundredths (asAllocation l) = dl_quantityHundredths l"
  "pca_priceInputMode (asAllocation l) = dl_priceInputMode l"
  "pca_vatRateBasisPoints (asAllocation l) = dl_vatRateBasisPoints l"
  "pca_baseCents (asAllocation l) = dl_baseCents l"
  "pca_discountCents (asAllocation l) = dl_discountCents l"
  "pca_netCents (asAllocation l) = dl_netCents l" "pca_vatCents (asAllocation l) = dl_vatCents l"
  "pca_grossCents (asAllocation l) = dl_grossCents l"
  by (simp_all add: asAllocation_def)

lemma useLineStep_asAllocation: "useLineStep v l = sumByRateStep v (asAllocation l)"
  by (cases v) (auto simp: useLineStep_def sumByRateStep_def Let_def)

lemma groupR_append:
  "groupR key upd m (xs @ ys) = andThen (groupR key upd m xs) (\<lambda>m. groupR key upd m ys)"
  by (induction xs arbitrary: m) (auto simp: andThen_assoc)

lemma groupR_map: "groupR key upd m (map f xs) = groupR (\<lambda>x. key (f x)) (\<lambda>v x. upd v (f x)) m xs"
  by (induction xs arbitrary: m) auto

lemma requireWithinVatCapacity_append:
  "requireWithinVatCapacity prevs ls caps =
     requireWithinVatCapacity (prevs @ map asAllocation ls) [] caps"
proof -
  have "groupR dl_vatRateBasisPoints useLineStep m ls =
      groupR pca_vatRateBasisPoints sumByRateStep m (map asAllocation ls)" for m
    by (simp add: groupR_map useLineStep_asAllocation [abs_def])
  then show ?thesis
    by (simp add: requireWithinVatCapacity_def sumPreviousByRate_def groupR_append andThen_assoc)
qed

lemma requireWithinVatCapacity_iff:
  assumes amounts: "\<forall>a \<in> set as. allocationAmounts a"
    and caps: "\<And>k c. map_of caps k = Some c \<Longrightarrow> amountCapacity c"
  shows "requireWithinVatCapacity as [] caps = Inr u \<longleftrightarrow> withinCapacity as caps"
proof
  assume "requireWithinVatCapacity as [] caps = Inr u"
  then obtain m where m: "groupR pca_vatRateBasisPoints sumByRateStep [] as = Inr m"
    and each: "\<forall>e \<in> set m. checkUsed caps e = Inr ()"
    by (auto simp: requireWithinVatCapacity_def sumPreviousByRate_def result_simps)
  show "withinCapacity as caps"
    unfolding withinCapacity_def
  proof
    fix a
    assume "a \<in> set as"
    from allocations.groupR_entry(5) [OF amounts m this]
    have "(pca_vatRateBasisPoints a, makeCapacity (pca_vatRateBasisPoints a) (pca_priceInputMode a)
        (netAt as (pca_vatRateBasisPoints a)) (vatAt as (pca_vatRateBasisPoints a))
        (grossAt as (pca_vatRateBasisPoints a))) \<in> set m"
      by (simp add: map_of_SomeD)
    with each show "\<exists>c. map_of caps (pca_vatRateBasisPoints a) = Some c \<and>
        vc_priceInputMode c = pca_priceInputMode a \<and>
        netAt as (pca_vatRateBasisPoints a) \<le> vc_netCents c \<and>
        vatAt as (pca_vatRateBasisPoints a) \<le> vc_vatCents c \<and>
        grossAt as (pca_vatRateBasisPoints a) \<le> vc_grossCents c"
      by (fastforce simp: checkUsed_def Let_def split: option.splits if_splits)
  qed
next
  assume w: "withinCapacity as caps"
  have "agreeAt pca_vatRateBasisPoints pca_priceInputMode as"
    using w unfolding withinCapacity_def agreeAt_def by (metis option.inject)
  moreover have "amount (grossAt as (pca_vatRateBasisPoints a))" if "a \<in> set as" for a
  proof -
    obtain c where "map_of caps (pca_vatRateBasisPoints a) = Some c"
      "grossAt as (pca_vatRateBasisPoints a) \<le> vc_grossCents c"
      using w \<open>a \<in> set as\<close> unfolding withinCapacity_def by blast
    moreover have "0 \<le> grossAt as (pca_vatRateBasisPoints a)"
      using amounts by (auto simp: allocationAmounts_def creditAmounts_def intro!: sumAt_nonneg)
    ultimately show ?thesis using caps by (auto simp: amountCapacity_def intro: amount_le)
  qed
  ultimately have "succeeds (groupR pca_vatRateBasisPoints sumByRateStep [] as)"
    using amounts by (intro allocations.groupR_ok) auto
  then obtain m where m: "groupR pca_vatRateBasisPoints sumByRateStep [] as = Inr m"
    by (auto simp: succeeds_iff)
  have "checkUsed caps e = Inr ()" if "e \<in> set m" for e
  proof -
    note entry = allocations.groupR_entry [OF amounts m]
    have "fst e \<in> pca_vatRateBasisPoints ` set as" using that entry(2) by force
    then obtain a where a: "a \<in> set as" "pca_vatRateBasisPoints a = fst e" by auto
    have "map_of m (fst e) = Some (snd e)" using that entry(1) by simp
    with entry(5) [OF a(1)] a(2) have snd: "snd e = makeCapacity (fst e) (pca_priceInputMode a)
        (netAt as (fst e)) (vatAt as (fst e)) (grossAt as (fst e))" by simp
    show ?thesis
      using bspec [OF w [unfolded withinCapacity_def] a(1)] a(2) snd
      by (cases e) (auto simp: checkUsed_def Let_def split: option.splits)
  qed
  then show "requireWithinVatCapacity as [] caps = Inr u"
    by (simp add: requireWithinVatCapacity_def sumPreviousByRate_def m result_simps)
qed

end
