(* ===== verification/CreditDraftTax.thy ===== *)
theory CreditDraftTax
  imports CreditDraftCorrect
begin

text \<open>
  The tax of a credit-note draft: the loop over the VAT rates writes the shares of a rate
  to the lines of that rate, leaves every other line alone, and makes the tax of the rate
  exact over all credits.
\<close>

section \<open>Writing shares\<close>

lemma foldR_writes:
  assumes w: "\<And>res e res'. w res e = Inr res' \<Longrightarrow>
      fst e < length res \<and> res' = res[fst e := h (res ! fst e) (snd e)]"
    and "foldR w res es = Inr res'" and "distinct (map fst es)"
  shows "length res' = length res"
    and "\<forall>e \<in> set es. fst e < length res \<and> res' ! fst e = h (res ! fst e) (snd e)"
    and "\<forall>i. i \<notin> fst ` set es \<longrightarrow> res' ! i = res ! i"
  using assms(2,3)
proof (induction es arbitrary: res)
  case Nil
  {
    case 1
    then show ?case by simp
  next
    case 2
    then show ?case by simp
  next
    case 3
    then show ?case by simp
  }
next
  case (Cons e es)
  have step: "\<exists>res1. fst e < length res \<and> res1 = res[fst e := h (res ! fst e) (snd e)] \<and>
      foldR w res1 es = Inr res' \<and> distinct (map fst es) \<and> fst e \<notin> fst ` set es"
    if run: "foldR w res (e # es) = Inr res'" and dist: "distinct (map fst (e # es))"
    for res
  proof -
    obtain res1 where "w res e = Inr res1" "foldR w res1 es = Inr res'"
      using run by (auto simp: result_simps)
    with w [OF this(1)] dist show ?thesis by auto
  qed
  {
    case 1
    from step [OF this] show ?case using Cons.IH(1) by auto
  next
    case 2
    then obtain res1 where r: "fst e < length res" "res1 = res[fst e := h (res ! fst e) (snd e)]"
      "foldR w res1 es = Inr res'" "distinct (map fst es)" "fst e \<notin> fst ` set es"
      using step by blast
    have "res' ! fst e = h (res ! fst e) (snd e)"
      using Cons.IH(3) [OF r(3,4)] r by simp
    moreover have "fst e' < length res \<and> res' ! fst e' = h (res ! fst e') (snd e')"
      if "e' \<in> set es" for e'
    proof -
      have "fst e' \<noteq> fst e" using that r(5) by (metis imageI)
      with Cons.IH(2) [OF r(3,4)] r(2) that show ?thesis by auto
    qed
    ultimately show ?case using r(1) by simp
  next
    case 3
    from step [OF this] show ?case using Cons.IH(3) by auto
  }
qed

lemma withIndex_writes:
  assumes w: "\<And>res e res'. w res e = Inr res' \<Longrightarrow>
      fst e < length res \<and> res' = res[fst e := h (res ! fst e) (nthOr 0 sh (snd e))]"
    and run: "foldR w res (withIndex idxs) = Inr res'" and "distinct idxs"
    and len: "length sh = length idxs"
  shows "length res' = length res" and "\<forall>i \<in> set idxs. i < length res"
    and "map (\<lambda>i. res' ! i) idxs = map2 h (map (\<lambda>i. res ! i) idxs) sh"
    and "\<forall>i. i \<notin> set idxs \<longrightarrow> res' ! i = res ! i"
proof -
  have keys: "map fst (withIndex idxs) = idxs" by (simp add: withIndex_def)
  note f = foldR_writes [where h = "\<lambda>l j. h l (nthOr 0 sh j)", OF w run]
  show "length res' = length res" using f(1) assms(3) keys by simp
  have set: "fst ` set (withIndex idxs) = set idxs" using keys by (metis set_map)
  show "\<forall>i. i \<notin> set idxs \<longrightarrow> res' ! i = res ! i" using f(3) assms(3) keys set by simp
  have each: "idxs ! j < length res \<and> res' ! (idxs ! j) = h (res ! (idxs ! j)) (sh ! j)"
    if "j < length idxs" for j
  proof -
    have "(idxs ! j, j) \<in> set (withIndex idxs)"
      using that by (auto simp: withIndex_def in_set_zip intro!: exI [of _ j])
    then have "idxs ! j < length res \<and> res' ! (idxs ! j) = h (res ! (idxs ! j)) (nthOr 0 sh j)"
      using f(2) assms(3) keys by fastforce
    with that len show ?thesis by (simp add: nthOr_def)
  qed
  then show "\<forall>i \<in> set idxs. i < length res" by (metis in_set_conv_nth)
  show "map (\<lambda>i. res' ! i) idxs = map2 h (map (\<lambda>i. res ! i) idxs) sh"
    using each len by (intro nth_equalityI) simp_all
qed

section \<open>One VAT rate\<close>

definition draftInput :: "CalculatedNormalCreditDraftLine \<Rightarrow> int" where
  "draftInput l = inputSide (dl_priceInputMode l) (dl_netCents l) (dl_grossCents l)"

definition sameDraftInput ::
    "CalculatedNormalCreditDraftLine \<Rightarrow> CalculatedNormalCreditDraftLine \<Rightarrow> bool" where
  "sameDraftInput l l' \<longleftrightarrow>
     dl_lineKey l' = dl_lineKey l \<and> dl_sourceInvoiceLineId l' = dl_sourceInvoiceLineId l \<and>
     dl_quantityHundredths l' = dl_quantityHundredths l \<and>
     dl_unitPriceCents l' = dl_unitPriceCents l \<and>
     dl_priceInputMode l' = dl_priceInputMode l \<and>
     dl_vatRateBasisPoints l' = dl_vatRateBasisPoints l \<and> dl_baseCents l' = dl_baseCents l \<and>
     dl_discountCents l' = dl_discountCents l \<and> draftInput l' = draftInput l"

lemma sameDraftInput_refl [simp]: "sameDraftInput l l"
  by (simp add: sameDraftInput_def)

text \<open>The shares a rate is given, in the order of its lines.\<close>

definition draftTax ::
    "PriceInputMode \<Rightarrow> number \<Rightarrow> VatCapacity \<Rightarrow> CalculatedNormalCreditDraftLine list \<Rightarrow> bool" where
  "draftTax mode rate before ls \<longleftrightarrow>
     (case mode of
        Net \<Rightarrow> vc_vatCents before + (\<Sum>l\<leftarrow>ls. dl_vatCents l) =
          vatOfNet (vc_netCents before + (\<Sum>l\<leftarrow>ls. dl_netCents l)) rate
      | Gross \<Rightarrow> vc_netCents before + (\<Sum>l\<leftarrow>ls. dl_netCents l) =
          netOfGross (vc_grossCents before + (\<Sum>l\<leftarrow>ls. dl_grossCents l)) rate)"

lemma foldR_addSafeDraft:
  assumes "\<forall>x \<in> set xs. amount (f x)"
  shows "foldR (\<lambda>s x. addSafeDraft s (f x)) 0 xs = Inr t \<longleftrightarrow>
    amount (\<Sum>x\<leftarrow>xs. f x) \<and> t = (\<Sum>x\<leftarrow>xs. f x)"
  using draft.foldR_add [OF assms, of 0] by simp

lemma distributeDraftAmount_facts:
  assumes tot: "amount tot" and ws: "\<forall>w \<in> set ws. amount w"
    and sh: "distributeDraftAmount tot ws = Inr sh"
  shows "length sh = length ws" "sum_list sh = tot"
proof -
  have sum: "foldR addSafeDraft 0 ws = Inr t \<longleftrightarrow> amount (sum_list ws) \<and> t = sum_list ws" for t
    using foldR_addSafeDraft [of ws "\<lambda>w. w"] ws by simp
  have "0 \<le> sum_list ws" using ws by (intro sum_list_nonneg) (auto intro!: amount_nonneg)
  then have pos: "0 < sum_list ws" and am: "amount (sum_list ws)"
    using sh by (auto simp: distributeDraftAmount_def result_simps sum split: if_splits)
  have "sh = shares tot ws"
    using sh draft.splitLoop_exact [OF tot ws pos am] pos
    by (auto simp: distributeDraftAmount_def result_simps sum)
  then show "length sh = length ws" "sum_list sh = tot"
    using sum_shares [OF pos] by simp_all
qed

lemma netShares_facts:
  assumes ls: "\<forall>l \<in> set ls. amount (dl_netCents l)" and sh: "netShares rate p ls = Inr sh"
  shows "length sh = length ls"
    and "vc_vatCents p + sum_list sh = vatOfNet (vc_netCents p + (\<Sum>l\<leftarrow>ls. dl_netCents l)) rate"
proof -
  let ?vat = "vatOfNet (vc_netCents p + (\<Sum>l\<leftarrow>ls. dl_netCents l)) rate - vc_vatCents p"
  have "amount ?vat" "distributeDraftAmount ?vat (map dl_netCents ls) = Inr sh"
    using sh foldR_addSafeDraft [OF ls]
    by (auto simp: netShares_def sumDraftLineAmount_def result_simps addSafeDraft_ok
        roundHalfUp_eq_Inr subtractSafeDraft_ok basisPointsScale_def vatOfNet_def)
  then show "length sh = length ls"
    and "vc_vatCents p + sum_list sh = vatOfNet (vc_netCents p + (\<Sum>l\<leftarrow>ls. dl_netCents l)) rate"
    using distributeDraftAmount_facts [of ?vat "map dl_netCents ls" sh] ls by simp_all
qed

lemma grossShares_facts:
  assumes ls: "\<forall>l \<in> set ls. amount (dl_grossCents l)" and sh: "grossShares rate p ls = Inr sh"
  shows "length sh = length ls"
    and "vc_netCents p + sum_list sh = netOfGross (vc_grossCents p + (\<Sum>l\<leftarrow>ls. dl_grossCents l)) rate"
proof -
  let ?net = "netOfGross (vc_grossCents p + (\<Sum>l\<leftarrow>ls. dl_grossCents l)) rate - vc_netCents p"
  have "amount ?net" "distributeDraftAmount ?net (map dl_grossCents ls) = Inr sh"
    using sh foldR_addSafeDraft [OF ls]
    by (auto simp: grossShares_def sumDraftLineAmount_def result_simps addSafeDraft_ok
        roundHalfUp_eq_Inr subtractSafeDraft_ok basisPointsScale_def netOfGross_def)
  then show "length sh = length ls"
    and "vc_netCents p + sum_list sh = netOfGross (vc_grossCents p + (\<Sum>l\<leftarrow>ls. dl_grossCents l)) rate"
    using distributeDraftAmount_facts [of ?net "map dl_grossCents ls" sh] ls by simp_all
qed

definition beforeAt :: "(number \<times> VatCapacity) list \<Rightarrow> number \<Rightarrow> PriceInputMode \<Rightarrow> VatCapacity" where
  "beforeAt m rate mode =
     (case map_of m rate of
        None \<Rightarrow> \<lparr>vc_priceInputMode = mode, vc_netCents = 0, vc_vatCents = 0, vc_grossCents = 0\<rparr>
      | Some p \<Rightarrow> p)"

lemma at_eq_Some [simp]: "at xs i = Some x \<longleftrightarrow> i < length xs \<and> x = xs ! i"
  by (auto simp: at_def)

lemma reconcileDraftRate_exact:
  assumes rec: "reconcileDraftRate lines m res (rate, idxs) = Inr res'"
    and dist: "distinct idxs" and same: "\<forall>i \<in> set idxs. res ! i = lines ! i"
    and ams: "\<forall>l \<in> set lines. amount (draftInput l)"
  shows "length res' = length res" and "\<forall>i. i \<notin> set idxs \<longrightarrow> res' ! i = res ! i"
    and "\<forall>i \<in> set idxs. i < length lines \<and> sameDraftInput (lines ! i) (res' ! i) \<and>
      draftTax (dl_priceInputMode (lines ! i)) rate
        (beforeAt m rate (dl_priceInputMode (lines ! i))) (map (\<lambda>i. res' ! i) idxs)"
proof -
  have look: "mapR (\<lambda>i. case at lines i of
        None \<Rightarrow> Inl (InvoiceCreditError ''Credit invoice VAT allocation is incomplete.'')
      | Some line \<Rightarrow> Inr line) idxs = Inr ls \<longleftrightarrow>
      (\<forall>i \<in> set idxs. i < length lines) \<and> ls = map (\<lambda>i. lines ! i) idxs" for ls
    unfolding mapR_option at_eq_Some list_all2_functional ..
  let ?ls = "map (\<lambda>i. lines ! i) idxs"
  have range: "\<forall>i \<in> set idxs. i < length lines" and ne: "idxs \<noteq> []"
    using rec by (auto simp: reconcileDraftRate_def result_simps look split: list.splits)
  obtain l0 ls0 where ls: "?ls = l0 # ls0" using ne by (cases idxs) auto
  let ?mode = "dl_priceInputMode l0"
  let ?p = "beforeAt m rate ?mode"
  have modes: "\<forall>l \<in> set ?ls. dl_priceInputMode l = ?mode"
    and group: "(case ?mode of
        Net \<Rightarrow> andThen (netShares rate ?p ?ls) (\<lambda>sh. foldR (writeNetShare sh) res (withIndex idxs))
      | Gross \<Rightarrow> andThen (grossShares rate ?p ?ls) (\<lambda>sh. foldR (writeGrossShare sh) res (withIndex idxs)))
      = Inr res'"
    using rec unfolding ls
    by (simp_all only: reconcileDraftRate_def prod.case andThen_eq_Inr look conj_assoc ex_simps
        simp_thms ls list.case Let_def if_Inl_eq_Inr beforeAt_def) blast+
  have ams': "\<forall>l \<in> set ?ls. amount (draftInput l)" using ams range by auto
  have same': "map (\<lambda>i. res ! i) idxs = ?ls" using same by simp
  have result: "length res' = length res \<and> (\<forall>i. i \<notin> set idxs \<longrightarrow> res' ! i = res ! i) \<and>
      list_all2 sameDraftInput ?ls (map (\<lambda>i. res' ! i) idxs) \<and>
      draftTax ?mode rate ?p (map (\<lambda>i. res' ! i) idxs)"
  proof (cases ?mode)
    case Net
    let ?h = "\<lambda>l v. l\<lparr>dl_vatCents := v, dl_grossCents := dl_netCents l + v\<rparr>"
    obtain sh where sh: "netShares rate ?p ?ls = Inr sh"
      and run: "foldR (writeNetShare sh) res (withIndex idxs) = Inr res'"
      using group Net by (auto simp: result_simps)
    have nets: "\<forall>l \<in> set ?ls. dl_priceInputMode l = Net \<and> amount (dl_netCents l)"
      using modes ams' Net by (fastforce simp: draftInput_def)
    note facts = netShares_facts [OF _ sh]
    have len: "length sh = length idxs" using facts(1) nets by simp
    have w: "fst e < length res \<and> res' = res[fst e := ?h (res ! fst e) (nthOr 0 sh (snd e))]"
      if "writeNetShare sh res e = Inr res'" for res e res'
      using that by (cases e) (auto simp: writeNetShare_def result_simps addSafeDraft_ok Let_def
          split: option.splits)
    note writes = withIndex_writes [OF w run dist len, unfolded same']
    have len': "length sh = length ?ls" using len by simp
    have "list_all2 sameDraftInput ?ls (map2 ?h ?ls sh)"
    proof (intro list_all2_map2 len')
      fix l v
      assume "l \<in> set ?ls"
      then have "dl_priceInputMode l = Net" using nets by blast
      then show "sameDraftInput l (?h l v)" by (simp add: sameDraftInput_def draftInput_def)
    qed
    moreover have "draftTax Net rate ?p (map2 ?h ?ls sh)"
      using facts(2) nets sum_map2_snd [OF len', of dl_vatCents ?h]
        sum_map2_fst [OF len', of dl_netCents ?h] by (simp add: draftTax_def)
    ultimately show ?thesis using writes Net by simp
  next
    case Gross
    let ?h = "\<lambda>l n. l\<lparr>dl_netCents := n, dl_vatCents := jsSub (dl_grossCents l) n\<rparr>"
    obtain sh where sh: "grossShares rate ?p ?ls = Inr sh"
      and run: "foldR (writeGrossShare sh) res (withIndex idxs) = Inr res'"
      using group Gross by (auto simp: result_simps)
    have grosses: "\<forall>l \<in> set ?ls. dl_priceInputMode l = Gross \<and> amount (dl_grossCents l)"
      using modes ams' Gross by (fastforce simp: draftInput_def)
    note facts = grossShares_facts [OF _ sh]
    have len: "length sh = length idxs" using facts(1) grosses by simp
    have w: "fst e < length res \<and> res' = res[fst e := ?h (res ! fst e) (nthOr 0 sh (snd e))]"
      if "writeGrossShare sh res e = Inr res'" for res e res'
      using that by (cases e) (auto simp: writeGrossShare_def Let_def split: option.splits)
    note writes = withIndex_writes [OF w run dist len, unfolded same']
    have len': "length sh = length ?ls" using len by simp
    have "list_all2 sameDraftInput ?ls (map2 ?h ?ls sh)"
    proof (intro list_all2_map2 len')
      fix l v
      assume "l \<in> set ?ls"
      then have "dl_priceInputMode l = Gross" using grosses by blast
      then show "sameDraftInput l (?h l v)" by (simp add: sameDraftInput_def draftInput_def)
    qed
    moreover have "draftTax Gross rate ?p (map2 ?h ?ls sh)"
      using facts(2) grosses sum_map2_snd [OF len', of dl_netCents ?h]
        sum_map2_fst [OF len', of dl_grossCents ?h] by (simp add: draftTax_def)
    ultimately show ?thesis using writes Gross by simp
  qed
  then show "length res' = length res" "\<forall>i. i \<notin> set idxs \<longrightarrow> res' ! i = res ! i" by simp_all
  show "\<forall>i \<in> set idxs. i < length lines \<and> sameDraftInput (lines ! i) (res' ! i) \<and>
      draftTax (dl_priceInputMode (lines ! i)) rate
        (beforeAt m rate (dl_priceInputMode (lines ! i))) (map (\<lambda>i. res' ! i) idxs)"
  proof
    fix i
    assume i: "i \<in> set idxs"
    have "dl_priceInputMode (lines ! i) = ?mode" using modes i by auto
    moreover have "sameDraftInput (lines ! i) (res' ! i)"
      using result i by (auto simp: list_all2_conv_all_nth in_set_conv_nth)
    ultimately show "i < length lines \<and> sameDraftInput (lines ! i) (res' ! i) \<and>
      draftTax (dl_priceInputMode (lines ! i)) rate
        (beforeAt m rate (dl_priceInputMode (lines ! i))) (map (\<lambda>i. res' ! i) idxs)"
      using range i result by simp
  qed
qed

section \<open>All VAT rates\<close>

lemma reconcileDraftRates_exact:
  assumes "foldR (reconcileDraftRate lines m) res groups = Inr res'"
    and "distinct (concat (map snd groups))"
    and "\<forall>(rate, idxs) \<in> set groups. \<forall>i \<in> set idxs. res ! i = lines ! i"
    and ams: "\<forall>l \<in> set lines. amount (draftInput l)"
  shows "length res' = length res \<and> (\<forall>i. i \<notin> set (concat (map snd groups)) \<longrightarrow> res' ! i = res ! i) \<and>
    (\<forall>(rate, idxs) \<in> set groups. \<forall>i \<in> set idxs. sameDraftInput (lines ! i) (res' ! i) \<and>
       draftTax (dl_priceInputMode (lines ! i)) rate
         (beforeAt m rate (dl_priceInputMode (lines ! i))) (map (\<lambda>i. res' ! i) idxs))"
  using assms(1-3)
proof (induction groups arbitrary: res)
  case Nil
  then show ?case by simp
next
  case (Cons e groups)
  obtain rate idxs where e: "e = (rate, idxs)" by (cases e)
  obtain res1 where r1: "reconcileDraftRate lines m res (rate, idxs) = Inr res1"
    and rest: "foldR (reconcileDraftRate lines m) res1 groups = Inr res'"
    using Cons.prems(1) by (auto simp: e result_simps)
  have dist: "distinct idxs" "distinct (concat (map snd groups))"
    and disj: "set idxs \<inter> set (concat (map snd groups)) = {}"
    using Cons.prems(2) by (auto simp: e)
  have "\<forall>i \<in> set idxs. res ! i = lines ! i" using Cons.prems(3) by (simp add: e)
  note one = reconcileDraftRate_exact [OF r1 dist(1) this ams]
  have other: "i \<notin> set idxs" if "(rate', idxs') \<in> set groups" "i \<in> set idxs'" for rate' idxs' i
    using disj that by force
  have "\<forall>(rate', idxs') \<in> set groups. \<forall>i \<in> set idxs'. res1 ! i = lines ! i"
    using Cons.prems(3) one(2) other by fastforce
  note IH = Cons.IH [OF rest dist(2) this]
  have keep: "res' ! i = res1 ! i" if "i \<in> set idxs" for i
    using IH disj that by blast
  then have eq: "map (\<lambda>i. res' ! i) idxs = map (\<lambda>i. res1 ! i) idxs" by simp
  have "\<forall>i \<in> set idxs. sameDraftInput (lines ! i) (res' ! i) \<and>
       draftTax (dl_priceInputMode (lines ! i)) rate
         (beforeAt m rate (dl_priceInputMode (lines ! i))) (map (\<lambda>i. res' ! i) idxs)"
    using one(3) keep unfolding eq by simp
  with IH one(1,2) show ?case by (simp add: e)
qed

lemma reconcileCurrentVat_exact:
  assumes rec: "reconcileCurrentVat lines prevs = Inr ls'"
    and ams: "\<forall>l \<in> set lines. amount (draftInput l)"
  shows "list_all2 sameDraftInput lines ls'"
    and "\<exists>m. sumPreviousByRate prevs = Inr m \<and>
      (\<forall>l \<in> set ls'. draftTax (dl_priceInputMode l) (dl_vatRateBasisPoints l)
         (beforeAt m (dl_vatRateBasisPoints l) (dl_priceInputMode l))
         (filter (\<lambda>x. dl_vatRateBasisPoints x = dl_vatRateBasisPoints l) ls'))"
proof -
  let ?rate = "\<lambda>i. dl_vatRateBasisPoints (lines ! i)"
  let ?groups = "groupBy ?rate [0 ..< length lines]"
  obtain m where m: "sumPreviousByRate prevs = Inr m"
    and run: "foldR (reconcileDraftRate lines m) lines ?groups = Inr ls'"
    using rec by (auto simp: reconcileCurrentVat_def result_simps Let_def)
  have "distinct (concat (map snd ?groups))"
    using mset_eq_imp_distinct_iff [OF mset_groupBy [of ?rate "[0 ..< length lines]"]] by simp
  note all = reconcileDraftRates_exact [OF run this _ ams]
  have mem: "(?rate i, filter (\<lambda>j. ?rate j = ?rate i) [0 ..< length lines]) \<in> set ?groups"
    if "i < length lines" for i
    using that by (simp add: mem_groupBy)
  have len: "length ls' = length lines" using all by auto
  have each: "sameDraftInput (lines ! i) (ls' ! i) \<and>
      draftTax (dl_priceInputMode (lines ! i)) (?rate i)
         (beforeAt m (?rate i) (dl_priceInputMode (lines ! i)))
         (map (\<lambda>j. ls' ! j) (filter (\<lambda>j. ?rate j = ?rate i) [0 ..< length lines]))"
    if "i < length lines" for i
    using bspec [OF conjunct2 [OF conjunct2 [OF all]] mem [OF that]] that by simp
  then show same: "list_all2 sameDraftInput lines ls'"
    using len by (simp add: list_all2_conv_all_nth)
  have rates: "dl_vatRateBasisPoints (ls' ! i) = ?rate i" if "i < length lines" for i
    using each [OF that] by (simp add: sameDraftInput_def)
  have "draftTax (dl_priceInputMode l) (dl_vatRateBasisPoints l)
         (beforeAt m (dl_vatRateBasisPoints l) (dl_priceInputMode l))
         (filter (\<lambda>x. dl_vatRateBasisPoints x = dl_vatRateBasisPoints l) ls')" if l: "l \<in> set ls'" for l
  proof -
    obtain i where i: "i < length lines" "l = ls' ! i"
      using l len by (metis in_set_conv_nth)
    have "filter (\<lambda>x. dl_vatRateBasisPoints x = ?rate i) ls' =
        filter (\<lambda>x. dl_vatRateBasisPoints x = ?rate i) (map (\<lambda>j. ls' ! j) [0 ..< length lines])"
      by (rule arg_cong [where f = "filter _"]) (simp add: len [symmetric] map_nth)
    also have "\<dots> = map (\<lambda>j. ls' ! j) (filter (\<lambda>j. dl_vatRateBasisPoints (ls' ! j) = ?rate i) [0 ..< length lines])"
      by (simp add: filter_map comp_def)
    also have "filter (\<lambda>j. dl_vatRateBasisPoints (ls' ! j) = ?rate i) [0 ..< length lines] =
        filter (\<lambda>j. ?rate j = ?rate i) [0 ..< length lines]"
      by (rule filter_cong) (simp_all add: rates)
    finally have eq: "filter (\<lambda>x. dl_vatRateBasisPoints x = ?rate i) ls' =
        map (\<lambda>j. ls' ! j) (filter (\<lambda>j. ?rate j = ?rate i) [0 ..< length lines])" .
    have "dl_vatRateBasisPoints l = ?rate i" "dl_priceInputMode l = dl_priceInputMode (lines ! i)"
      using each [OF i(1)] i(2) by (simp_all add: sameDraftInput_def)
    then show ?thesis using each [OF i(1)] by (simp add: eq)
  qed
  with m show "\<exists>m. sumPreviousByRate prevs = Inr m \<and>
      (\<forall>l \<in> set ls'. draftTax (dl_priceInputMode l) (dl_vatRateBasisPoints l)
         (beforeAt m (dl_vatRateBasisPoints l) (dl_priceInputMode l))
         (filter (\<lambda>x. dl_vatRateBasisPoints x = dl_vatRateBasisPoints l) ls'))" by blast
qed

end
