(* ===== verification/CreditDraftResult.thy ===== *)
theory CreditDraftResult
  imports CreditDraftTax
begin

text \<open>
  What an accepted credit-note draft satisfies as a whole, and how the remaining amounts of
  the invoice develop when drafts are stored one after the other.
\<close>

section \<open>Earlier credits that pass the validation\<close>

definition validAllocation ::
    "(string \<times> CreditSourceLine) list \<Rightarrow> (number \<times> VatCapacity) list
      \<Rightarrow> PreviousCreditAllocation \<Rightarrow> bool" where
  "validAllocation sourceById caps a \<longleftrightarrow>
     amount (pca_quantityHundredths a) \<and> 0 < pca_quantityHundredths a \<and>
     amount (pca_baseCents a) \<and> amount (pca_discountCents a) \<and>
     pca_discountCents a \<le> pca_baseCents a \<and> allocationAmounts a \<and>
     (\<exists>c. map_of caps (pca_vatRateBasisPoints a) = Some c \<and>
        vc_priceInputMode c = pca_priceInputMode a) \<and>
     (\<forall>i. pca_sourceInvoiceLineId a = Some i \<longrightarrow>
        (\<exists>s. map_of sourceById i = Some s \<and> src_priceInputMode s = pca_priceInputMode a \<and>
           src_vatRateBasisPoints s = pca_vatRateBasisPoints a))"

lemma validatePreviousDraftAllocation_ok:
  "validatePreviousDraftAllocation sourceById caps a = Inr u \<longleftrightarrow> validAllocation sourceById caps a"
  by (auto simp: validatePreviousDraftAllocation_def validAllocation_def result_simps amount_iff
      allocationAmounts_def split: option.splits)

lemma validatePreviousDraftAllocations_ok:
  assumes "\<And>k c. map_of caps k = Some c \<Longrightarrow> amountCapacity c"
  shows "validatePreviousDraftAllocations as sourceById caps = Inr u \<longleftrightarrow>
    (\<forall>a \<in> set as. validAllocation sourceById caps a) \<and> withinCapacity as caps"
proof -
  have "requireWithinVatCapacity as [] caps = Inr u \<longleftrightarrow> withinCapacity as caps"
    if "\<forall>a \<in> set as. validAllocation sourceById caps a"
    using that assms by (intro requireWithinVatCapacity_iff) (auto simp: validAllocation_def)
  then show ?thesis
    by (auto simp: validatePreviousDraftAllocations_def result_simps validatePreviousDraftAllocation_ok)
qed

section \<open>Totals\<close>

definition makeRow :: "number \<Rightarrow> PriceInputMode \<Rightarrow> int \<Rightarrow> int \<Rightarrow> int
    \<Rightarrow> PriceInputMode \<times> InvoiceVatBreakdown" where
  "makeRow k m n v g =
     (m, \<lparr>bd_vatRateBasisPoints = k, bd_netCents = n, bd_vatCents = v, bd_grossCents = g\<rparr>)"

definition draftLineAmounts :: "CalculatedNormalCreditDraftLine \<Rightarrow> bool" where
  "draftLineAmounts l \<longleftrightarrow>
     validAmounts (dl_vatRateBasisPoints l) (dl_baseCents l) (dl_discountCents l) (dl_netCents l)
       (dl_vatCents l) (dl_grossCents l)"

interpretation drafts: rate_sums sumCreditTotalsStep dl_vatRateBasisPoints "\<lambda>_. True" draftLineAmounts
  dl_priceInputMode dl_netCents dl_vatCents dl_grossCents makeRow
proof
  fix x :: CalculatedNormalCreditDraftLine and w
  show "sumCreditTotalsStep None x = Inr w \<longleftrightarrow> draftLineAmounts x \<and>
      w = makeRow (dl_vatRateBasisPoints x) (dl_priceInputMode x) (dl_netCents x) (dl_vatCents x)
        (dl_grossCents x)"
    by (auto simp: sumCreditTotalsStep_def result_simps addSafeDraft_ok draftLineAmounts_def
        validAmounts_def makeRow_def amount_def)
next
  fix x :: CalculatedNormalCreditDraftLine and m w and n v g :: int
  assume "0 \<le> n" "0 \<le> v" "n + v = g"
  then show "sumCreditTotalsStep (Some (makeRow (dl_vatRateBasisPoints x) m n v g)) x = Inr w \<longleftrightarrow>
      draftLineAmounts x \<and> dl_priceInputMode x = m \<and> amount (g + dl_grossCents x) \<and>
      w = makeRow (dl_vatRateBasisPoints x) m (n + dl_netCents x) (v + dl_vatCents x)
        (g + dl_grossCents x)"
    by (auto simp: sumCreditTotalsStep_def result_simps addSafeDraft_ok draftLineAmounts_def
        validAmounts_def makeRow_def amount_def)
next
  fix x :: CalculatedNormalCreditDraftLine
  show "draftLineAmounts x \<Longrightarrow> 0 \<le> dl_netCents x \<and> 0 \<le> dl_vatCents x \<and>
      dl_netCents x + dl_vatCents x = dl_grossCents x \<and> amount (dl_grossCents x)"
    by (auto simp: draftLineAmounts_def validAmounts_def)
qed

definition rowAmountsOk :: "InvoiceVatBreakdown \<Rightarrow> bool" where
  "rowAmountsOk b \<longleftrightarrow>
     amount (bd_netCents b) \<and> amount (bd_vatCents b) \<and> amount (bd_grossCents b)"

definition totalsOfRows :: "InvoiceVatBreakdown list \<Rightarrow> InvoiceTotals" where
  "totalsOfRows rows =
     \<lparr>netTotalCents = (\<Sum>b\<leftarrow>rows. bd_netCents b), vatTotalCents = (\<Sum>b\<leftarrow>rows. bd_vatCents b),
      grossTotalCents = (\<Sum>b\<leftarrow>rows. bd_grossCents b), vatBreakdown = rows\<rparr>"

lemma totalsFromBreakdown_eq_Inr:
  assumes "\<forall>b \<in> set rows. rowAmountsOk b"
  shows "totalsFromBreakdown rows = Inr t \<longleftrightarrow>
    amount (\<Sum>b\<leftarrow>rows. bd_netCents b) \<and> amount (\<Sum>b\<leftarrow>rows. bd_vatCents b) \<and>
    amount (\<Sum>b\<leftarrow>rows. bd_grossCents b) \<and> t = totalsOfRows rows"
proof -
  have "\<forall>b \<in> set rows. amount (bd_netCents b)" "\<forall>b \<in> set rows. amount (bd_vatCents b)"
    "\<forall>b \<in> set rows. amount (bd_grossCents b)"
    using assms by (simp_all add: rowAmountsOk_def)
  note sums = this [THEN foldR_addSafeDraft]
  show ?thesis
    by (auto simp: totalsFromBreakdown_def result_simps sums totalsOfRows_def)
qed

definition draftTotals :: "CalculatedNormalCreditDraftLine list \<Rightarrow> InvoiceTotals" where
  "draftTotals ls =
     \<lparr>netTotalCents = (\<Sum>l\<leftarrow>ls. dl_netCents l), vatTotalCents = (\<Sum>l\<leftarrow>ls. dl_vatCents l),
      grossTotalCents = (\<Sum>l\<leftarrow>ls. dl_grossCents l),
      vatBreakdown = map (\<lambda>k.
        \<lparr>bd_vatRateBasisPoints = k, bd_netCents = sumAt dl_vatRateBasisPoints dl_netCents ls k,
         bd_vatCents = sumAt dl_vatRateBasisPoints dl_vatCents ls k,
         bd_grossCents = sumAt dl_vatRateBasisPoints dl_grossCents ls k\<rparr>)
       (sorted_list_of_set (dl_vatRateBasisPoints ` set ls))\<rparr>"

lemma sumCreditTotals_facts:
  assumes t: "sumCreditTotals ls = Inr t"
  shows "\<forall>l \<in> set ls. draftLineAmounts l" and "t = draftTotals ls" and "amount (grossTotalCents t)"
    and "netTotalCents t + vatTotalCents t = grossTotalCents t"
proof -
  obtain m where m: "groupR dl_vatRateBasisPoints sumCreditTotalsStep [] ls = Inr m"
    and tot: "totalsFromBreakdown (sort_key bd_vatRateBasisPoints (map (snd \<circ> snd) m)) = Inr t"
    using t by (auto simp: sumCreditTotals_def result_simps)
  note g = drafts.groupR_entry [OF _ m, simplified]
  show valid: "\<forall>l \<in> set ls. draftLineAmounts l" by (rule g(3))
  let ?row = "\<lambda>k. \<lparr>bd_vatRateBasisPoints = k,
        bd_netCents = sumAt dl_vatRateBasisPoints dl_netCents ls k,
        bd_vatCents = sumAt dl_vatRateBasisPoints dl_vatCents ls k,
        bd_grossCents = sumAt dl_vatRateBasisPoints dl_grossCents ls k\<rparr>"
  let ?rates = "dl_vatRateBasisPoints ` set ls"
  have val: "snd (the (map_of m k)) = ?row k" if "k \<in> ?rates" for k
    using g(5) that by (auto simp: makeRow_def)
  have keys: "set (map fst m) = ?rates" using g(2) by simp
  have "bd_vatRateBasisPoints (snd (snd e)) = fst e" if "e \<in> set m" for e
  proof -
    have "map_of m (fst e) = Some (snd e)" using that g(1) by simp
    moreover have "fst e \<in> ?rates" using that keys by force
    ultimately have "snd (snd e) = ?row (fst e)" using val by fastforce
    then show ?thesis by (simp only: InvoiceVatBreakdown.simps)
  qed
  then have "sort_key bd_vatRateBasisPoints (map (snd \<circ> snd) m) = map (snd \<circ> snd) (sort_key fst m)"
    unfolding sort_key_map using sort_key_cong' [of m "\<lambda>x. bd_vatRateBasisPoints ((snd \<circ> snd) x)" fst]
    by simp
  also have "\<dots> = map ?row (sorted_list_of_set ?rates)"
    unfolding map_of_sorted_alist [OF g(1)] keys by (simp add: val)
  finally have rows: "sort_key bd_vatRateBasisPoints (map (snd \<circ> snd) m) =
      map ?row (sorted_list_of_set ?rates)" .
  have nn: "\<forall>l \<in> set ls. 0 \<le> dl_netCents l" "\<forall>l \<in> set ls. 0 \<le> dl_vatCents l"
    using valid by (auto simp: draftLineAmounts_def validAmounts_def)
  have "rowAmountsOk b" if b: "b \<in> set (map ?row (sorted_list_of_set ?rates))" for b
  proof -
    obtain k where k: "k \<in> ?rates" "b = ?row k" using b by auto
    let ?ls = "filter (\<lambda>x. dl_vatRateBasisPoints x = k) ls"
    have "amount (sumAt dl_vatRateBasisPoints dl_grossCents ls k)" using g(5) k(1) by auto
    moreover have "\<forall>x \<in> set ?ls. draftLineAmounts x" using valid by simp
    note drafts.sums_reconcile [of ?ls, simplified, OF this [simplified]]
    ultimately show ?thesis
      using sumAt_nonneg [OF nn(1), of dl_vatRateBasisPoints k]
        sumAt_nonneg [OF nn(2), of dl_vatRateBasisPoints k]
      by (auto simp: k(2) rowAmountsOk_def sumAt_def amount_def)
  qed
  then have ok: "\<forall>b \<in> set (map ?row (sorted_list_of_set ?rates)). rowAmountsOk b" by blast
  have total: "(\<Sum>b\<leftarrow>map ?row (sorted_list_of_set ?rates). bd_netCents b) = (\<Sum>l\<leftarrow>ls. dl_netCents l)"
    "(\<Sum>b\<leftarrow>map ?row (sorted_list_of_set ?rates). bd_vatCents b) = (\<Sum>l\<leftarrow>ls. dl_vatCents l)"
    "(\<Sum>b\<leftarrow>map ?row (sorted_list_of_set ?rates). bd_grossCents b) = (\<Sum>l\<leftarrow>ls. dl_grossCents l)"
    using sum_list_by_key [of _ ls dl_vatRateBasisPoints] by (simp_all add: sumAt_def comp_def)
  note eq = tot [unfolded rows totalsFromBreakdown_eq_Inr [OF ok] total]
  show "t = draftTotals ls" "amount (grossTotalCents t)"
    using eq total by (simp_all add: totalsOfRows_def draftTotals_def)
  then show "netTotalCents t + vatTotalCents t = grossTotalCents t"
    using drafts.sums_reconcile(4) [of ls] valid by (simp add: draftTotals_def)
qed

section \<open>An accepted draft\<close>

text \<open>What a draft line owes to its origin, whatever tax it is given.\<close>

definition draftOrigin ::
    "(string \<times> CreditSourceLine) list \<Rightarrow> CalculatedNormalCreditDraftLine \<Rightarrow> bool" where
  "draftOrigin sourceById l \<longleftrightarrow>
     amount (dl_quantityHundredths l) \<and> 0 < dl_quantityHundredths l \<and>
     amount (dl_baseCents l) \<and> 0 \<le> dl_discountCents l \<and> dl_discountCents l \<le> dl_baseCents l \<and>
     amount (draftInput l) \<and>
     (\<forall>i. dl_sourceInvoiceLineId l = Some i \<longrightarrow>
        (\<exists>s. map_of sourceById i = Some s \<and> src_priceInputMode s = dl_priceInputMode l \<and>
           src_vatRateBasisPoints s = dl_vatRateBasisPoints l))"

lemma draftOrigin_same: "sameDraftInput l l' \<Longrightarrow> draftOrigin sb l \<Longrightarrow> draftOrigin sb l'"
  by (simp add: sameDraftInput_def draftOrigin_def)

lemma draftOrigin_source:
  assumes c: "calculateCreditInvoice lc sources prevs reqs = Inr c" and l: "l \<in> set (ci_lines c)"
  shows "draftOrigin (putAll src_id sources []) (toDraftLine l)"
proof -
  note facts = calculateCreditInvoice_facts [OF c]
  obtain r where "creditedLine sources prevs r l"
    using list_all2_mem_right [OF facts(3) l] by blast
  then obtain s where s: "s \<in> set sources" "0 < cl_quantityHundredths l"
    and of_s: "creditLineOf s (creditedBefore prevs (src_id s))
      (pt_quantityHundredths (creditedBefore prevs (src_id s)) + rq_quantityHundredths r) l"
    by (auto simp: creditedLine_def Let_def)
  have "distinct (map src_id sources)" using facts(1) by (simp add: validSources_def)
  then have "map_of (putAll src_id sources []) (src_id s) = Some s"
    using s(1) by (simp add: putAll_lookup_iff)
  moreover have "amount (cl_quantityHundredths l)" using facts(5) l by (simp add: validCreditLine_def)
  ultimately show ?thesis
    using of_s s(2) by (auto simp: draftOrigin_def toDraftLine_def creditLineOf_def draftInput_def
        lineInput_def dest: amount_nonneg)
qed

lemma draftOrigin_manual:
  assumes l: "calculateManualLine rm caps = Inr l"
  shows "draftOrigin sb l" and "dl_sourceInvoiceLineId l = None"
proof -
  obtain c where c: "map_of caps (rm_vatRateBasisPoints rm) = Some c"
    using l by (auto simp: calculateManualLine_def result_simps split: option.splits)
  define i where i: "i = \<lparr>quantityHundredths = rm_quantityHundredths rm,
        unitPriceCents = rm_unitPriceCents rm, discount = NoDiscount,
        vatRateBasisPoints = rm_vatRateBasisPoints rm, priceInputMode = vc_priceInputMode c\<rparr>"
  obtain calc where calc: "calculateInvoiceLine i = Inr calc" and gross: "line_grossCents calc \<noteq> 0"
    and l': "l = \<lparr>dl_lineKey = rm_lineKey rm, dl_sourceInvoiceLineId = None,
          dl_quantityHundredths = line_quantityHundredths calc,
          dl_unitPriceCents = Some (rm_unitPriceCents rm),
          dl_priceInputMode = line_priceInputMode calc,
          dl_vatRateBasisPoints = line_vatRateBasisPoints calc,
          dl_baseCents = line_baseCents calc, dl_discountCents = line_discountCents calc,
          dl_netCents = line_netCents calc, dl_vatCents = line_vatCents calc,
          dl_grossCents = line_grossCents calc\<rparr>"
    using l by (auto simp: calculateManualLine_def result_simps c i [symmetric])
  show "dl_sourceInvoiceLineId l = None" by (simp add: l')
  note rec = calculateInvoiceLine_reconciles [OF calc, unfolded lineReconciles_def]
    and frame = calculateInvoiceLine_frame [OF calc]
  have "acceptedLine i" using calc calculateInvoiceLine_succeeds [of i] by simp
  then have qty: "amount (line_quantityHundredths calc)" using frame by (simp add: acceptedLine_def validBase_def)
  have "line_quantityHundredths calc \<noteq> 0"
  proof
    assume "line_quantityHundredths calc = 0"
    then have zero: "line_baseCents calc = 0" "line_discountCents calc = 0"
      using frame by (simp_all add: baseOf_def discountOf_def i)
    then show False
      using rec gross by (cases "line_priceInputMode calc") (auto simp: vatOfNet_def)
  qed
  with qty have "0 < line_quantityHundredths calc" by (auto simp: amount_def)
  moreover have "line_discountCents calc \<le> line_baseCents calc"
    using rec by (cases "line_priceInputMode calc") (auto dest: amount_nonneg)
  moreover have "amount (draftInput l)"
    using rec by (cases "line_priceInputMode calc") (auto simp: l' draftInput_def)
  ultimately show "draftOrigin sb l"
    using rec qty by (auto simp: draftOrigin_def l' dest: amount_nonneg)
qed

lemma calculateCreditInvoiceDraft_facts:
  assumes "calculateCreditInvoiceDraft lc sources prevs rs rm = Inr d"
  defines "all \<equiv> prevs @ map asAllocation (cd_lines d)"
  shows "\<exists>caps. createVatCapacities sources = Inr caps \<and>
      (\<forall>a \<in> set all. validAllocation (putAll src_id sources []) caps a) \<and> withinCapacity all caps"
    and "cd_totals d = draftTotals (cd_lines d)" and "amount (grossTotalCents (cd_totals d))"
    and "netTotalCents (cd_totals d) + vatTotalCents (cd_totals d) = grossTotalCents (cd_totals d)"
    and "\<forall>l \<in> set (cd_lines d). draftLineAmounts l \<and> draftOrigin (putAll src_id sources []) l"
    and "\<forall>l \<in> set (cd_lines d). let k = dl_vatRateBasisPoints l in
      exactTax (dl_priceInputMode l) k (netAt all k) (vatAt all k) (grossAt all k)"
    and "cd_lines d \<noteq> []"
proof -
  let ?sb = "putAll src_id sources []"
  define credits where "credits = (if length rs = 0 then Inr []
       else andThen (calculateCreditInvoice lc sources (toLineAllocations prevs) rs)
              (\<lambda>credit. Inr (ci_lines credit)))"
  obtain caps src man ls t where caps: "createVatCapacities sources = Inr caps"
    and valid: "validatePreviousDraftAllocations prevs ?sb caps = Inr ()"
    and src: "credits = Inr src"
    and man: "mapR (\<lambda>line. calculateManualLine line caps) rm = Inr man"
    and rec: "reconcileCurrentVat (map toDraftLine src @ man) prevs = Inr ls"
    and within: "requireWithinVatCapacity prevs ls caps = Inr ()"
    and t: "sumCreditTotals ls = Inr t"
    and d: "d = \<lparr>cd_lines = ls, cd_totals = t\<rparr>"
    and ne: "length rs + length rm \<noteq> 0"
    using assms(1) unfolding calculateCreditInvoiceDraft_def credits_def [symmetric]
    by (auto simp: Let_def andThen_eq_Inr if_Inl_eq_Inr)
  let ?in = "map toDraftLine src @ man"
  have origin: "draftOrigin ?sb l" if l: "l \<in> set ?in" for l
  proof (cases "l \<in> set man")
    case True
    then show ?thesis using mapR_set [OF man] draftOrigin_manual(1) by blast
  next
    case False
    then obtain x where "x \<in> set src" "l = toDraftLine x" using l by auto
    then show ?thesis
      using src draftOrigin_source by (auto simp: credits_def result_simps split: if_splits)
  qed
  then have ams: "\<forall>l \<in> set ?in. amount (draftInput l)" by (simp add: draftOrigin_def)
  note exact = reconcileCurrentVat_exact [OF rec ams]
  have origin': "draftOrigin ?sb l" if "l \<in> set ls" for l
    using list_all2_mem_right [OF exact(1) that] origin draftOrigin_same by blast
  note tot = sumCreditTotals_facts [OF t]
  show "cd_totals d = draftTotals (cd_lines d)" "amount (grossTotalCents (cd_totals d))"
    "netTotalCents (cd_totals d) + vatTotalCents (cd_totals d) = grossTotalCents (cd_totals d)"
    using tot by (simp_all add: d)
  show lines: "\<forall>l \<in> set (cd_lines d). draftLineAmounts l \<and> draftOrigin ?sb l"
    using tot(1) origin' by (simp add: d)
  have ac: "\<And>k c. map_of caps k = Some c \<Longrightarrow> amountCapacity c"
    using createVatCapacities_lookup [OF caps]
    by (metis (no_types, lifting) imageE map_of_SomeD image_eqI fst_conv)
  have prevs: "\<forall>a \<in> set prevs. validAllocation ?sb caps a"
    using valid validatePreviousDraftAllocations_ok [of caps prevs ?sb "()"] ac by blast
  have "allocationAmounts (asAllocation l)" if "l \<in> set ls" for l
    using tot(1) that
    by (auto simp: draftLineAmounts_def validAmounts_def allocationAmounts_def creditAmounts_def)
  then have am: "\<forall>a \<in> set all. allocationAmounts a"
    using prevs by (auto simp: all_def d validAllocation_def)
  have w: "withinCapacity all caps"
    using within requireWithinVatCapacity_iff [OF am, of caps "()"] ac
    unfolding requireWithinVatCapacity_append [of prevs] all_def d by simp
  have "validAllocation ?sb caps (asAllocation l)" if "l \<in> set ls" for l
  proof -
    have mem: "asAllocation l \<in> set all" using that by (simp add: all_def d)
    have "\<exists>c. map_of caps (dl_vatRateBasisPoints l) = Some c \<and> vc_priceInputMode c = dl_priceInputMode l"
      using w mem unfolding withinCapacity_def by fastforce
    with am mem origin' [OF that] show ?thesis
      by (auto simp: validAllocation_def draftOrigin_def amount_le)
  qed
  with prevs have "\<forall>a \<in> set all. validAllocation ?sb caps a" by (auto simp: all_def d)
  with caps w show "\<exists>caps. createVatCapacities sources = Inr caps \<and>
      (\<forall>a \<in> set all. validAllocation (putAll src_id sources []) caps a) \<and> withinCapacity all caps"
    by blast
  obtain m where m: "sumPreviousByRate prevs = Inr m"
    and tax: "\<forall>l \<in> set ls. draftTax (dl_priceInputMode l) (dl_vatRateBasisPoints l)
         (beforeAt m (dl_vatRateBasisPoints l) (dl_priceInputMode l))
         (filter (\<lambda>x. dl_vatRateBasisPoints x = dl_vatRateBasisPoints l) ls)"
    using exact(2) by blast
  have pam: "\<forall>a \<in> set prevs. allocationAmounts a" using prevs by (simp add: validAllocation_def)
  note entry = allocations.groupR_entry [OF pam m [unfolded sumPreviousByRate_def]]
  have before: "vc_netCents (beforeAt m k mode) = netAt prevs k \<and>
      vc_vatCents (beforeAt m k mode) = vatAt prevs k \<and>
      vc_grossCents (beforeAt m k mode) = grossAt prevs k" for k mode
  proof (cases "k \<in> pca_vatRateBasisPoints ` set prevs")
    case True
    then show ?thesis using entry(5) by (auto simp: beforeAt_def)
  next
    case False
    then show ?thesis using entry(6) by (simp add: beforeAt_def sumAt_none)
  qed
  show "\<forall>l \<in> set (cd_lines d). let k = dl_vatRateBasisPoints l in
      exactTax (dl_priceInputMode l) k (netAt all k) (vatAt all k) (grossAt all k)"
  proof
    fix l
    assume l: "l \<in> set (cd_lines d)"
    let ?k = "dl_vatRateBasisPoints l"
    let ?all = "filter (\<lambda>a. pca_vatRateBasisPoints a = ?k) all"
    have sums: "netAt all ?k = netAt prevs ?k + (\<Sum>x\<leftarrow>filter (\<lambda>x. dl_vatRateBasisPoints x = ?k) ls. dl_netCents x)"
      "vatAt all ?k = vatAt prevs ?k + (\<Sum>x\<leftarrow>filter (\<lambda>x. dl_vatRateBasisPoints x = ?k) ls. dl_vatCents x)"
      "grossAt all ?k = grossAt prevs ?k + (\<Sum>x\<leftarrow>filter (\<lambda>x. dl_vatRateBasisPoints x = ?k) ls. dl_grossCents x)"
      by (simp_all add: all_def d sumAt_map) (simp_all add: sumAt_def)
    have "netAt all ?k + vatAt all ?k = grossAt all ?k"
      unfolding sumAt_def using am by (intro allocations.sums_reconcile(4)) auto
    moreover have "draftTax (dl_priceInputMode l) ?k (beforeAt m ?k (dl_priceInputMode l))
        (filter (\<lambda>x. dl_vatRateBasisPoints x = ?k) ls)" using tax l by (simp add: d)
    ultimately show "let k = dl_vatRateBasisPoints l in
      exactTax (dl_priceInputMode l) k (netAt all k) (vatAt all k) (grossAt all k)"
      by (cases "dl_priceInputMode l") (simp_all add: Let_def exactTax_def draftTax_def before sums)
  qed
  have "length ls = length src + length man"
    using list_all2_lengthD [OF exact(1)] by simp
  moreover have "length man = length rm" using mapR_length [OF man] .
  moreover have "length src = length rs" if "length rs \<noteq> 0"
  proof -
    obtain c where c: "calculateCreditInvoice lc sources (toLineAllocations prevs) rs = Inr c" "src = ci_lines c"
      using src \<open>length rs \<noteq> 0\<close> by (auto simp: credits_def result_simps)
    show ?thesis using list_all2_lengthD [OF calculateCreditInvoice_facts(3) [OF c(1)]] c(2) by simp
  qed
  ultimately show "cd_lines d \<noteq> []" using ne by (auto simp: d)
qed

text \<open>The capacity of every rate of an accepted draft, written over the source lines.\<close>

lemma calculateCreditInvoiceDraft_capacity:
  assumes d: "calculateCreditInvoiceDraft lc sources prevs rs rm = Inr d" and l: "l \<in> set (cd_lines d)"
  defines "all \<equiv> prevs @ map asAllocation (cd_lines d)"
    and "c \<equiv> capacityAt sources (dl_vatRateBasisPoints l) (dl_priceInputMode l)"
  shows "netAt all (dl_vatRateBasisPoints l) \<le> vc_netCents c"
    and "vatAt all (dl_vatRateBasisPoints l) \<le> vc_vatCents c"
    and "grossAt all (dl_vatRateBasisPoints l) \<le> vc_grossCents c"
proof -
  let ?k = "dl_vatRateBasisPoints l"
  obtain caps where caps: "createVatCapacities sources = Inr caps"
    and w: "withinCapacity all caps"
    using calculateCreditInvoiceDraft_facts(1) [OF d] unfolding all_def by blast
  have "asAllocation l \<in> set all" using l by (simp add: all_def)
  then obtain c' where c': "map_of caps ?k = Some c'" "vc_priceInputMode c' = dl_priceInputMode l"
    and le: "netAt all ?k \<le> vc_netCents c'" "vatAt all ?k \<le> vc_vatCents c'"
      "grossAt all ?k \<le> vc_grossCents c'"
    using w unfolding withinCapacity_def by fastforce
  have "?k \<in> src_vatRateBasisPoints ` set sources"
    using c'(1) createVatCapacities_lookup(2) [OF caps] by (metis fst_conv imageI map_of_SomeD)
  then obtain s where s: "s \<in> set sources" "src_vatRateBasisPoints s = ?k" by auto
  have at: "c' = capacityAt sources ?k (src_priceInputMode s)"
    using createVatCapacities_lookup(6) [OF caps s(1), of c'] c'(1) s(2) by simp
  then have "src_priceInputMode s = dl_priceInputMode l"
    using c'(2) by (cases "src_priceInputMode s") (simp_all add: capacityAt_def Let_def)
  with at have "c' = c" by (simp add: c_def)
  with le show "netAt all ?k \<le> vc_netCents c" "vatAt all ?k \<le> vc_vatCents c"
    "grossAt all ?k \<le> vc_grossCents c" by simp_all
qed

end
