(* ===== verification/CreditHistory.thy ===== *)
theory CreditHistory
  imports CreditDraftResult
begin

text \<open>
  The remaining amounts of an invoice (\<open>calculateRemainingCreditTotals\<close>) and their history:
  drafts accepted one after the other and stored as earlier credits. In every state the
  remaining amounts exist and are the initial ones minus everything credited.
\<close>

section \<open>Remaining amounts\<close>

definition remainingRows ::
    "(number \<times> VatCapacity) list \<Rightarrow> PreviousCreditAllocation list \<Rightarrow> InvoiceVatBreakdown list" where
  "remainingRows caps as =
     map (\<lambda>(k, c).
         \<lparr>bd_vatRateBasisPoints = k, bd_netCents = vc_netCents c - netAt as k,
          bd_vatCents = vc_vatCents c - vatAt as k, bd_grossCents = vc_grossCents c - grossAt as k\<rparr>)
       (sort_key fst caps)"

lemma amount_remaining:
  "amount c \<Longrightarrow> 0 \<le> u \<Longrightarrow> u \<le> c \<Longrightarrow> amount (c - u)"
  by (simp add: amount_def)

lemma withinCapacity_rows:
  assumes caps: "distinct (map fst caps)" "\<forall>(k, c) \<in> set caps. amountCapacity c"
    and am: "\<forall>a \<in> set as. allocationAmounts a" and w: "withinCapacity as caps"
    and kc: "(k, c) \<in> set caps"
  shows "amount (vc_netCents c - netAt as k)" "amount (vc_vatCents c - vatAt as k)"
    "amount (vc_grossCents c - grossAt as k)"
    and "0 \<le> netAt as k" "0 \<le> vatAt as k" "0 \<le> grossAt as k"
proof -
  have ac: "amountCapacity c" using caps(2) kc by auto
  show nn: "0 \<le> netAt as k" "0 \<le> vatAt as k" "0 \<le> grossAt as k"
    using am by (auto simp: allocationAmounts_def creditAmounts_def intro!: sumAt_nonneg)
  have "netAt as k \<le> vc_netCents c \<and> vatAt as k \<le> vc_vatCents c \<and> grossAt as k \<le> vc_grossCents c"
  proof (cases "k \<in> pca_vatRateBasisPoints ` set as")
    case True
    then obtain a where "a \<in> set as" "pca_vatRateBasisPoints a = k" by auto
    moreover have "map_of caps k = Some c" using caps(1) kc by simp
    ultimately show ?thesis using w unfolding withinCapacity_def by fastforce
  next
    case False
    then show ?thesis using ac by (auto simp: sumAt_none amountCapacity_def dest: amount_nonneg)
  qed
  with nn ac show "amount (vc_netCents c - netAt as k)" "amount (vc_vatCents c - vatAt as k)"
    "amount (vc_grossCents c - grossAt as k)"
    by (auto simp: amountCapacity_def intro!: amount_remaining)
qed

lemma remainingRow_eq:
  assumes caps: "distinct (map fst caps)" "\<forall>(k, c) \<in> set caps. amountCapacity c"
    and am: "\<forall>a \<in> set as. allocationAmounts a" and w: "withinCapacity as caps"
    and m: "sumPreviousByRate as = Inr m"
  shows "mapR (remainingRow m) (sort_key fst caps) = Inr (remainingRows caps as)"
  unfolding remainingRows_def
proof (rule mapR_total)
  fix e
  assume "e \<in> set (sort_key fst caps)"
  then have mem: "e \<in> set caps" by simp
  obtain k c where e1: "e = (k, c)" by (cases e)
  with mem have e: "e = (k, c)" "(k, c) \<in> set caps" by simp_all
  note rows = withinCapacity_rows [OF caps am w e(2)]
  note entry = allocations.groupR_entry [OF am m [unfolded sumPreviousByRate_def]]
  have used: "vc_netCents u = netAt as k \<and> vc_vatCents u = vatAt as k \<and> vc_grossCents u = grossAt as k"
    if u: "u = (case map_of m k of
              None \<Rightarrow> \<lparr>vc_priceInputMode = vc_priceInputMode c, vc_netCents = 0, vc_vatCents = 0,
                       vc_grossCents = 0\<rparr>
            | Some u \<Rightarrow> u)" for u
  proof (cases "k \<in> pca_vatRateBasisPoints ` set as")
    case True
    then obtain a where a: "a \<in> set as" "k = pca_vatRateBasisPoints a" by auto
    from entry(5) [OF a(1)] show ?thesis unfolding u a(2) by simp
  next
    case False
    then show ?thesis unfolding u using entry(6) [OF False] by (simp add: sumAt_none)
  qed
  show "remainingRow m e = Inr (case e of (k, c) \<Rightarrow>
      \<lparr>bd_vatRateBasisPoints = k, bd_netCents = vc_netCents c - netAt as k,
       bd_vatCents = vc_vatCents c - vatAt as k, bd_grossCents = vc_grossCents c - grossAt as k\<rparr>)"
    using rows used [OF refl]
    by (simp add: e(1) remainingRow_def Let_def result_simps subtractSafeDraft_ok)
qed

definition rowSums :: "InvoiceVatBreakdown list \<Rightarrow> int \<times> int \<times> int" where
  "rowSums rows =
     ((\<Sum>b\<leftarrow>rows. bd_netCents b), (\<Sum>b\<leftarrow>rows. bd_vatCents b), (\<Sum>b\<leftarrow>rows. bd_grossCents b))"

lemma calculateRemainingCreditTotals_eq_Inr:
  "calculateRemainingCreditTotals sources as = Inr t \<longleftrightarrow>
     (\<exists>caps. createVatCapacities sources = Inr caps \<and>
        (\<forall>a \<in> set as. validAllocation (putAll src_id sources []) caps a) \<and> withinCapacity as caps \<and>
        amount (\<Sum>b\<leftarrow>remainingRows caps as. bd_netCents b) \<and>
        amount (\<Sum>b\<leftarrow>remainingRows caps as. bd_vatCents b) \<and>
        amount (\<Sum>b\<leftarrow>remainingRows caps as. bd_grossCents b) \<and>
        t = totalsOfRows (remainingRows caps as))"
proof (cases "createVatCapacities sources")
  case (Inl e)
  then show ?thesis by (simp add: calculateRemainingCreditTotals_def Let_def)
next
  case (Inr caps)
  let ?sb = "putAll src_id sources []"
  note look = createVatCapacities_lookup [OF Inr]
  have ac: "\<forall>(k, c) \<in> set caps. amountCapacity c"
  proof (intro ballI, clarify)
    fix k c
    assume kc: "(k, c) \<in> set caps"
    then have "k \<in> src_vatRateBasisPoints ` set sources" using look(2) by force
    moreover have "map_of caps k = Some c" using look(1) kc by simp
    ultimately show "amountCapacity c" using look(6) by auto
  qed
  then have ac': "amountCapacity c" if "map_of caps k = Some c" for k c
    using map_of_SomeD [OF that] by auto
  have valid: "validatePreviousDraftAllocations as ?sb caps = Inr u \<longleftrightarrow>
      (\<forall>a \<in> set as. validAllocation ?sb caps a) \<and> withinCapacity as caps" for u
    by (rule validatePreviousDraftAllocations_ok) (rule ac')
  show ?thesis
  proof (cases "(\<forall>a \<in> set as. validAllocation ?sb caps a) \<and> withinCapacity as caps")
    case False
    then show ?thesis
      using Inr by (auto simp: calculateRemainingCreditTotals_def Let_def result_simps valid)
  next
    case True
    then have am: "\<forall>a \<in> set as. allocationAmounts a" and w: "withinCapacity as caps"
      by (auto simp: validAllocation_def)
    have "requireWithinVatCapacity as [] caps = Inr ()"
      using requireWithinVatCapacity_iff [OF am, of caps "()"] ac' w by blast
    then obtain m where m: "sumPreviousByRate as = Inr m"
      by (auto simp: requireWithinVatCapacity_def result_simps)
    note rows = remainingRow_eq [OF look(1) ac am w m]
    have "rowAmountsOk b" if b: "b \<in> set (remainingRows caps as)" for b
    proof -
      obtain k c where kc: "(k, c) \<in> set caps" "b = \<lparr>bd_vatRateBasisPoints = k,
          bd_netCents = vc_netCents c - netAt as k, bd_vatCents = vc_vatCents c - vatAt as k,
          bd_grossCents = vc_grossCents c - grossAt as k\<rparr>"
        using b by (auto simp: remainingRows_def)
      show ?thesis
        using withinCapacity_rows [OF look(1) ac am w kc(1)] by (simp add: kc(2) rowAmountsOk_def)
    qed
    then have ok: "\<forall>b \<in> set (remainingRows caps as). rowAmountsOk b" by blast
    have "validatePreviousDraftAllocations as ?sb caps = Inr ()" using True valid by blast
    then have "calculateRemainingCreditTotals sources as = totalsFromBreakdown (remainingRows caps as)"
      by (simp add: calculateRemainingCreditTotals_def Let_def Inr m rows)
    then show ?thesis
      using True Inr totalsFromBreakdown_eq_Inr [OF ok, of t] by auto
  qed
qed

lemma remainingRows_append:
  assumes keys: "distinct (map fst caps)" "pca_vatRateBasisPoints ` set bs \<subseteq> fst ` set caps"
  shows "(\<Sum>b\<leftarrow>remainingRows caps (as @ bs). bd_netCents b) =
      (\<Sum>b\<leftarrow>remainingRows caps as. bd_netCents b) - (\<Sum>b\<leftarrow>bs. pca_netCents b)"
    and "(\<Sum>b\<leftarrow>remainingRows caps (as @ bs). bd_vatCents b) =
      (\<Sum>b\<leftarrow>remainingRows caps as. bd_vatCents b) - (\<Sum>b\<leftarrow>bs. pca_vatCents b)"
    and "(\<Sum>b\<leftarrow>remainingRows caps (as @ bs). bd_grossCents b) =
      (\<Sum>b\<leftarrow>remainingRows caps as. bd_grossCents b) - (\<Sum>b\<leftarrow>bs. pca_grossCents b)"
proof -
  let ?ks = "map fst (sort_key fst caps)"
  have "mset ?ks = mset (map fst caps)" by simp
  then have ks: "distinct ?ks" using keys(1) mset_eq_imp_distinct_iff by blast
  have sub: "pca_vatRateBasisPoints ` set bs \<subseteq> set ?ks" using keys(2) by simp
  have split: "(\<Sum>(k, c)\<leftarrow>sort_key fst caps. h c - sumAt pca_vatRateBasisPoints f (as @ bs) k) =
      (\<Sum>(k, c)\<leftarrow>sort_key fst caps. h c - sumAt pca_vatRateBasisPoints f as k) - (\<Sum>b\<leftarrow>bs. f b)"
    for h :: "VatCapacity \<Rightarrow> int" and f :: "PreviousCreditAllocation \<Rightarrow> int"
  proof -
    have "(\<Sum>(k, c)\<leftarrow>sort_key fst caps. h c - sumAt pca_vatRateBasisPoints f (as @ bs) k) =
        (\<Sum>(k, c)\<leftarrow>sort_key fst caps. (h c - sumAt pca_vatRateBasisPoints f as k) -
          sumAt pca_vatRateBasisPoints f bs k)"
      by (intro arg_cong [where f = sum_list] map_cong) auto
    also have "\<dots> = (\<Sum>(k, c)\<leftarrow>sort_key fst caps. h c - sumAt pca_vatRateBasisPoints f as k) -
        (\<Sum>e\<leftarrow>sort_key fst caps. sumAt pca_vatRateBasisPoints f bs (fst e))"
      unfolding case_prod_beta' by (rule sum_list_subtractf)
    also have "(\<Sum>e\<leftarrow>sort_key fst caps. sumAt pca_vatRateBasisPoints f bs (fst e)) = (\<Sum>b\<leftarrow>bs. f b)"
      using sumAt_total [OF ks sub, of f] by (simp add: comp_def)
    finally show ?thesis .
  qed
  show "(\<Sum>b\<leftarrow>remainingRows caps (as @ bs). bd_netCents b) =
      (\<Sum>b\<leftarrow>remainingRows caps as. bd_netCents b) - (\<Sum>b\<leftarrow>bs. pca_netCents b)"
    "(\<Sum>b\<leftarrow>remainingRows caps (as @ bs). bd_vatCents b) =
      (\<Sum>b\<leftarrow>remainingRows caps as. bd_vatCents b) - (\<Sum>b\<leftarrow>bs. pca_vatCents b)"
    "(\<Sum>b\<leftarrow>remainingRows caps (as @ bs). bd_grossCents b) =
      (\<Sum>b\<leftarrow>remainingRows caps as. bd_grossCents b) - (\<Sum>b\<leftarrow>bs. pca_grossCents b)"
    using split [of vc_netCents pca_netCents] split [of vc_vatCents pca_vatCents]
      split [of vc_grossCents pca_grossCents]
    by (simp_all add: remainingRows_def comp_def case_prod_beta' del: sumAt_append)
qed

text \<open>Storing an accepted draft lowers the remaining amounts by its totals.\<close>

lemma calculateRemainingCreditTotals_after:
  assumes r: "calculateRemainingCreditTotals sources prevs = Inr t"
    and d: "calculateCreditInvoiceDraft lc sources prevs rs rm = Inr d"
  shows "\<exists>t'. calculateRemainingCreditTotals sources (prevs @ map asAllocation (cd_lines d)) = Inr t' \<and>
    netTotalCents t' = netTotalCents t - netTotalCents (cd_totals d) \<and>
    vatTotalCents t' = vatTotalCents t - vatTotalCents (cd_totals d) \<and>
    grossTotalCents t' = grossTotalCents t - grossTotalCents (cd_totals d)"
proof -
  let ?bs = "map asAllocation (cd_lines d)"
  let ?all = "prevs @ ?bs"
  note facts = calculateCreditInvoiceDraft_facts [OF d]
  obtain caps where caps: "createVatCapacities sources = Inr caps"
    and valid: "\<forall>a \<in> set ?all. validAllocation (putAll src_id sources []) caps a"
    and w: "withinCapacity ?all caps"
    using facts(1) by blast
  note look = createVatCapacities_lookup [OF caps]
  have "pca_vatRateBasisPoints a \<in> fst ` set caps" if "a \<in> set ?bs" for a
  proof -
    have "a \<in> set ?all" using that by simp
    then obtain c where "map_of caps (pca_vatRateBasisPoints a) = Some c"
      using w unfolding withinCapacity_def by blast
    then show ?thesis by (metis fst_conv imageI map_of_SomeD)
  qed
  then have keys: "pca_vatRateBasisPoints ` set ?bs \<subseteq> fst ` set caps" by blast
  note rows = remainingRows_append [OF look(1) keys, of prevs]
  have t: "t = totalsOfRows (remainingRows caps prevs)"
    and am: "amount (\<Sum>b\<leftarrow>remainingRows caps prevs. bd_netCents b)"
      "amount (\<Sum>b\<leftarrow>remainingRows caps prevs. bd_vatCents b)"
      "amount (\<Sum>b\<leftarrow>remainingRows caps prevs. bd_grossCents b)"
    using r caps unfolding calculateRemainingCreditTotals_eq_Inr by auto
  have tot: "(\<Sum>b\<leftarrow>?bs. pca_netCents b) = netTotalCents (cd_totals d)"
    "(\<Sum>b\<leftarrow>?bs. pca_vatCents b) = vatTotalCents (cd_totals d)"
    "(\<Sum>b\<leftarrow>?bs. pca_grossCents b) = grossTotalCents (cd_totals d)"
    using facts(2) by (simp_all add: draftTotals_def comp_def)
  have lines: "0 \<le> dl_netCents l \<and> 0 \<le> dl_vatCents l \<and> 0 \<le> dl_grossCents l" if "l \<in> set (cd_lines d)" for l
    using facts(5) that by (auto simp: draftLineAmounts_def validAmounts_def)
  have nn: "0 \<le> netTotalCents (cd_totals d)" "0 \<le> vatTotalCents (cd_totals d)"
    "0 \<le> grossTotalCents (cd_totals d)"
    using lines unfolding facts(2) draftTotals_def by (auto intro!: sum_list_nonneg)
  have ac: "\<forall>(k, c) \<in> set caps. amountCapacity c"
  proof (intro ballI, clarify)
    fix k c
    assume kc: "(k, c) \<in> set caps"
    then have "k \<in> src_vatRateBasisPoints ` set sources" using look(2) by force
    moreover have "map_of caps k = Some c" using look(1) kc by simp
    ultimately show "amountCapacity c" using look(6) by auto
  qed
  have am_all: "\<forall>a \<in> set ?all. allocationAmounts a" using valid by (auto simp: validAllocation_def)
  note each = withinCapacity_rows [OF look(1) ac am_all w]
  have ge: "0 \<le> (\<Sum>b\<leftarrow>remainingRows caps ?all. bd_netCents b)"
    "0 \<le> (\<Sum>b\<leftarrow>remainingRows caps ?all. bd_vatCents b)"
    "0 \<le> (\<Sum>b\<leftarrow>remainingRows caps ?all. bd_grossCents b)"
    using each(1-3) [THEN amount_nonneg]
    by (auto simp: remainingRows_def simp del: sumAt_append intro!: sum_list_nonneg)
  have "amount (\<Sum>b\<leftarrow>remainingRows caps ?all. bd_netCents b)"
    "amount (\<Sum>b\<leftarrow>remainingRows caps ?all. bd_vatCents b)"
    "amount (\<Sum>b\<leftarrow>remainingRows caps ?all. bd_grossCents b)"
    using ge rows am tot nn by (simp_all add: amount_def)
  with caps valid w have "calculateRemainingCreditTotals sources ?all =
      Inr (totalsOfRows (remainingRows caps ?all))"
    unfolding calculateRemainingCreditTotals_eq_Inr by blast
  then show ?thesis
    using rows tot by (auto simp: t totalsOfRows_def)
qed

section \<open>Histories of drafts\<close>

inductive creditHistory ::
    "(string \<Rightarrow> string \<Rightarrow> int) \<Rightarrow> CreditSourceLine list \<Rightarrow> PreviousCreditAllocation list \<Rightarrow> bool"
  for lc and sources where
  no_credit: "creditHistory lc sources []"
| credit: "creditHistory lc sources prevs \<Longrightarrow>
    calculateCreditInvoiceDraft lc sources prevs rs rm = Inr d \<Longrightarrow>
    creditHistory lc sources (prevs @ map asAllocation (cd_lines d))"

lemma creditHistory_remaining:
  assumes "creditHistory lc sources prevs"
    and "calculateRemainingCreditTotals sources [] = Inr t0"
  shows "\<exists>t. calculateRemainingCreditTotals sources prevs = Inr t \<and>
    netTotalCents t + (\<Sum>a\<leftarrow>prevs. pca_netCents a) = netTotalCents t0 \<and>
    vatTotalCents t + (\<Sum>a\<leftarrow>prevs. pca_vatCents a) = vatTotalCents t0 \<and>
    grossTotalCents t + (\<Sum>a\<leftarrow>prevs. pca_grossCents a) = grossTotalCents t0"
  using assms
proof (induction rule: creditHistory.induct)
  case no_credit
  then show ?case by simp
next
  case (credit prevs rs rm d)
  then obtain t where t: "calculateRemainingCreditTotals sources prevs = Inr t"
    and eq: "netTotalCents t + (\<Sum>a\<leftarrow>prevs. pca_netCents a) = netTotalCents t0"
      "vatTotalCents t + (\<Sum>a\<leftarrow>prevs. pca_vatCents a) = vatTotalCents t0"
      "grossTotalCents t + (\<Sum>a\<leftarrow>prevs. pca_grossCents a) = grossTotalCents t0"
    by blast
  have "(\<Sum>a\<leftarrow>map asAllocation (cd_lines d). pca_netCents a) = netTotalCents (cd_totals d)"
    "(\<Sum>a\<leftarrow>map asAllocation (cd_lines d). pca_vatCents a) = vatTotalCents (cd_totals d)"
    "(\<Sum>a\<leftarrow>map asAllocation (cd_lines d). pca_grossCents a) = grossTotalCents (cd_totals d)"
    using calculateCreditInvoiceDraft_facts(2) [OF credit.hyps(2)]
    by (simp_all add: draftTotals_def comp_def)
  with calculateRemainingCreditTotals_after [OF t credit.hyps(2)] eq show ?case by force
qed

end
