(* ===== verification/ReverseCharge.thy ===== *)
theory ReverseCharge
  imports InvoiceLine
begin

text \<open>
  Reverse-charge invoices (domain/calculateReverseChargeInvoice.ts): lines with no VAT,
  priced net, and the invoice that sums them.
\<close>

record ReverseChargeInvoiceLineCalculationInput = InvoiceLineBaseCalculationInput +
  rc_priceInputMode :: PriceInputMode

text \<open>
  The fields with a single value in the source's type (\<open>vatRateBasisPoints: null\<close>,
  \<open>priceInputMode: 'net'\<close>, \<open>vatCents: 0\<close>) keep their value: the rate is absent,
  the other two are stored.
\<close>

record CalculatedReverseChargeInvoiceLine =
  rcl_quantityHundredths :: number
  rcl_unitPriceCents :: number
  rcl_vatRateBasisPoints :: "number option"
  rcl_priceInputMode :: PriceInputMode
  rcl_baseCents :: number
  rcl_discountCents :: number
  rcl_netCents :: number
  rcl_vatCents :: number
  rcl_grossCents :: number

record CalculatedReverseChargeInvoice =
  rci_lines :: "CalculatedReverseChargeInvoiceLine list"
  rci_totals :: InvoiceTotals

definition calculateReverseChargeInvoiceLine ::
    "ReverseChargeInvoiceLineCalculationInput \<Rightarrow> CalculatedReverseChargeInvoiceLine result" where
  "calculateReverseChargeInvoiceLine input =
     (if rc_priceInputMode input \<noteq> Net then
        Inl (InvoiceCalculationError ''Reverse charge invoices must use net price input.'')
      else
        andThen (calculateInvoiceLineBase input) (\<lambda>b.
        Inr \<lparr>rcl_quantityHundredths = quantityHundredths input,
             rcl_unitPriceCents = unitPriceCents input,
             rcl_vatRateBasisPoints = None,
             rcl_priceInputMode = Net,
             rcl_baseCents = baseCents b,
             rcl_discountCents = discountCents b,
             rcl_netCents = discountedBaseCents b,
             rcl_vatCents = 0,
             rcl_grossCents = discountedBaseCents b\<rparr>))"

definition addSafeCalculation :: "number \<Rightarrow> number \<Rightarrow> number result" where
  "addSafeCalculation left right =
     (let result = jsAdd left right in
      if \<not> isSafeInteger result then
        Inl (InvoiceCalculationError ''Calculated amount exceeds the safe integer range.'')
      else Inr result)"

definition calculateReverseChargeInvoice ::
    "ReverseChargeInvoiceLineCalculationInput list \<Rightarrow> CalculatedReverseChargeInvoice result" where
  "calculateReverseChargeInvoice inputs =
     andThen (mapR calculateReverseChargeInvoiceLine inputs) (\<lambda>lines.
     andThen (foldR (\<lambda>s line. addSafeCalculation s (rcl_netCents line)) 0 lines) (\<lambda>net.
     Inr \<lparr>rci_lines = lines,
          rci_totals = \<lparr>netTotalCents = net, vatTotalCents = 0, grossTotalCents = net,
                        vatBreakdown = []\<rparr>\<rparr>))"

lemma addSafeCalculation_eq_Inr [result_simps]:
  "addSafeCalculation a b = Inr c \<longleftrightarrow> isSafeInteger (a + b) \<and> c = a + b"
  by (auto simp: addSafeCalculation_def Let_def)

lemma calculateReverseChargeInvoiceLine_eq_Inr:
  "calculateReverseChargeInvoiceLine input = Inr l \<longleftrightarrow>
     rc_priceInputMode input = Net \<and> validBase input \<and>
     l = \<lparr>rcl_quantityHundredths = quantityHundredths input,
          rcl_unitPriceCents = unitPriceCents input,
          rcl_vatRateBasisPoints = None, rcl_priceInputMode = Net,
          rcl_baseCents = baseOf input, rcl_discountCents = discountOf input,
          rcl_netCents = baseOf input - discountOf input, rcl_vatCents = 0,
          rcl_grossCents = baseOf input - discountOf input\<rparr>"
  by (auto simp: calculateReverseChargeInvoiceLine_def calculateInvoiceLineBase_eq_Inr result_simps)

lemma foldR_addSafeCalculation:
  "foldR (\<lambda>s x. addSafeCalculation s (f x)) s xs = Inr t \<Longrightarrow> t = s + (\<Sum>x\<leftarrow>xs. f x)"
proof (induction xs arbitrary: s)
  case Nil
  then show ?case by simp
next
  case (Cons x xs)
  then have "foldR (\<lambda>s x. addSafeCalculation s (f x)) (s + f x) xs = Inr t"
    by (simp add: result_simps)
  from Cons.IH [OF this] show ?case by simp
qed

lemma foldR_addSafeCalculation_ok:
  assumes "\<forall>x \<in> set xs. 0 \<le> f x" and "0 \<le> s" and "amount (s + (\<Sum>x\<leftarrow>xs. f x))"
  shows "foldR (\<lambda>s x. addSafeCalculation s (f x)) s xs = Inr (s + (\<Sum>x\<leftarrow>xs. f x))"
  using assms
proof (induction xs arbitrary: s)
  case Nil
  then show ?case by simp
next
  case (Cons x xs)
  have rest: "0 \<le> (\<Sum>x\<leftarrow>xs. f x)"
    using Cons.prems(1) by (intro sum_list_nonneg) auto
  have "amount (s + f x)"
    using Cons.prems rest by (auto simp: amount_def)
  then have "addSafeCalculation s (f x) = Inr (s + f x)"
    by (simp add: addSafeCalculation_eq_Inr)
  moreover have "foldR (\<lambda>s x. addSafeCalculation s (f x)) (s + f x) xs =
      Inr (s + f x + (\<Sum>x\<leftarrow>xs. f x))"
    using Cons.prems \<open>amount (s + f x)\<close> by (intro Cons.IH) (auto simp: add.assoc)
  ultimately show ?case by (simp add: add.assoc)
qed

lemma calculateReverseChargeInvoice_succeeds:
  "succeeds (calculateReverseChargeInvoice inputs) \<longleftrightarrow>
     (\<forall>i \<in> set inputs. rc_priceInputMode i = Net \<and> validBase i) \<and>
     amount (\<Sum>i\<leftarrow>inputs. baseOf i - discountOf i)" (is "_ \<longleftrightarrow> ?ok \<and> _")
proof (cases ?ok)
  case False
  then show ?thesis
    by (auto simp: calculateReverseChargeInvoice_def succeeds_iff result_simps
        calculateReverseChargeInvoiceLine_eq_Inr dest: mapR_set_src)
next
  case True
  have "succeeds (mapR calculateReverseChargeInvoiceLine inputs)"
    using True unfolding succeeds_mapR
    by (simp add: succeeds_iff calculateReverseChargeInvoiceLine_eq_Inr)
  then obtain ls where ls: "mapR calculateReverseChargeInvoiceLine inputs = Inr ls"
    by (auto simp: succeeds_iff)
  have net: "map rcl_netCents ls = map (\<lambda>i. baseOf i - discountOf i) inputs"
    by (rule mapR_map [OF ls]) (auto simp: calculateReverseChargeInvoiceLine_eq_Inr)
  have nonneg: "\<forall>l \<in> set ls. 0 \<le> rcl_netCents l"
    using mapR_set [OF ls] validBase_bounds
    by (fastforce simp: calculateReverseChargeInvoiceLine_eq_Inr)
  let ?sum = "\<Sum>i\<leftarrow>inputs. baseOf i - discountOf i"
  have fold: "foldR (\<lambda>s line. addSafeCalculation s (rcl_netCents line)) 0 ls = Inr t \<Longrightarrow> t = ?sum" for t
    using foldR_addSafeCalculation [of rcl_netCents 0 ls t] by (simp add: net)
  have "amount ?sum" if "foldR (\<lambda>s line. addSafeCalculation s (rcl_netCents line)) 0 ls = Inr t" for t
  proof -
    have "amount t"
      by (rule foldR_invariant [OF that, where I = amount])
        (use nonneg in \<open>auto simp: result_simps amount_iff\<close>)
    with fold [OF that] show ?thesis by simp
  qed
  moreover have "foldR (\<lambda>s line. addSafeCalculation s (rcl_netCents line)) 0 ls = Inr ?sum"
    if "amount ?sum"
    using foldR_addSafeCalculation_ok [of ls rcl_netCents 0] nonneg that by (simp add: net)
  ultimately show ?thesis
    using True by (auto simp: calculateReverseChargeInvoice_def ls succeeds_andThen)
qed

lemma calculateReverseChargeInvoice_amounts:
  assumes "calculateReverseChargeInvoice inputs = Inr calc"
  shows "map rcl_netCents (rci_lines calc) = map (\<lambda>i. baseOf i - discountOf i) inputs"
    and "map rcl_grossCents (rci_lines calc) = map rcl_netCents (rci_lines calc)"
    and "\<forall>l \<in> set (rci_lines calc). rcl_vatCents l = 0 \<and> rcl_vatRateBasisPoints l = None"
    and "rci_totals calc =
      \<lparr>netTotalCents = (\<Sum>i\<leftarrow>inputs. baseOf i - discountOf i), vatTotalCents = 0,
       grossTotalCents = (\<Sum>i\<leftarrow>inputs. baseOf i - discountOf i), vatBreakdown = []\<rparr>"
proof -
  obtain ls net where ls: "mapR calculateReverseChargeInvoiceLine inputs = Inr ls"
    and net: "foldR (\<lambda>s line. addSafeCalculation s (rcl_netCents line)) 0 ls = Inr net"
    and calc: "calc = \<lparr>rci_lines = ls, rci_totals = \<lparr>netTotalCents = net, vatTotalCents = 0,
      grossTotalCents = net, vatBreakdown = []\<rparr>\<rparr>"
    using assms by (auto simp: calculateReverseChargeInvoice_def result_simps)
  have nets: "map rcl_netCents ls = map (\<lambda>i. baseOf i - discountOf i) inputs"
    by (rule mapR_map [OF ls]) (auto simp: calculateReverseChargeInvoiceLine_eq_Inr)
  then show "map rcl_netCents (rci_lines calc) = map (\<lambda>i. baseOf i - discountOf i) inputs"
    by (simp add: calc)
  have line: "rcl_grossCents l = rcl_netCents l \<and> rcl_vatCents l = 0 \<and> rcl_vatRateBasisPoints l = None"
    if "l \<in> set ls" for l
    using mapR_set [OF ls that] by (auto simp: calculateReverseChargeInvoiceLine_eq_Inr)
  then show "map rcl_grossCents (rci_lines calc) = map rcl_netCents (rci_lines calc)"
    and "\<forall>l \<in> set (rci_lines calc). rcl_vatCents l = 0 \<and> rcl_vatRateBasisPoints l = None"
    by (simp_all add: calc)
  show "rci_totals calc =
      \<lparr>netTotalCents = (\<Sum>i\<leftarrow>inputs. baseOf i - discountOf i), vatTotalCents = 0,
       grossTotalCents = (\<Sum>i\<leftarrow>inputs. baseOf i - discountOf i), vatBreakdown = []\<rparr>"
    using foldR_addSafeCalculation [OF net] nets by (simp add: calc)
qed

end
