(* ===== verification/ReverseChargeCredit.thy ===== *)
theory ReverseChargeCredit
  imports ReverseCharge CreditDraft
begin

text \<open>
  Credit-note drafts for reverse-charge invoices
  (domain/calculateReverseChargeCreditInvoiceDraft.ts): no VAT, every amount net, bounded by
  the net sum of the invoice, and the amount that remains. As in the source, the fields with
  a single value in their type are still compared by the guards.
\<close>

record ReverseChargeCreditSourceLine =
  rcs_id :: string
  rcs_lineOrder :: number
  rcs_quantityHundredths :: number
  rcs_priceInputMode :: PriceInputMode
  rcs_vatRateBasisPoints :: "number option"
  rcs_baseCents :: number
  rcs_discountCents :: number
  rcs_netCents :: number
  rcs_vatCents :: number
  rcs_grossCents :: number

record ReverseChargePreviousCreditAllocation =
  rca_sourceInvoiceLineId :: "string option"
  rca_quantityHundredths :: number
  rca_priceInputMode :: PriceInputMode
  rca_vatRateBasisPoints :: "number option"
  rca_baseCents :: number
  rca_discountCents :: number
  rca_netCents :: number
  rca_vatCents :: number
  rca_grossCents :: number

record RequestedReverseChargeManualCreditLine =
  rrm_lineKey :: string
  rrm_quantityHundredths :: number
  rrm_unitPriceCents :: number

record AllocationTotal =
  at_quantityHundredths :: number
  at_baseCents :: number
  at_discountCents :: number
  at_netCents :: number

type_synonym ReverseChargeDraftLine = "number option CalculatedCreditDraftLine"

section \<open>Guards\<close>

definition requirePositiveRC :: "number \<Rightarrow> string \<Rightarrow> unit result" where
  "requirePositiveRC value fieldName =
     (if \<not> isSafeInteger value \<or> value \<le> 0 then
        Inl (InvoiceCreditError (fieldName @ '' must be a positive integer.''))
      else Inr ())"

definition isNonNegativeSafeInteger :: "number \<Rightarrow> bool" where
  "isNonNegativeSafeInteger value \<longleftrightarrow> isSafeInteger value \<and> value \<ge> 0"

definition addSafeRC :: "number \<Rightarrow> number \<Rightarrow> number result" where
  "addSafeRC left right =
     (let result = jsAdd left right in
      if \<not> isSafeInteger result then
        Inl (InvoiceCreditError ''Credit amount exceeds safe integer range.'')
      else Inr result)"

definition subtractRC :: "number \<Rightarrow> number \<Rightarrow> number result" where
  "subtractRC left right =
     (let result = jsSub left right in
      if \<not> isSafeInteger result \<or> result < 0 then
        Inl (InvoiceCreditError ''Credit allocation is invalid.'')
      else Inr result)"

definition createEmptyAllocation :: AllocationTotal where
  "createEmptyAllocation =
     \<lparr>at_quantityHundredths = 0, at_baseCents = 0, at_discountCents = 0, at_netCents = 0\<rparr>"

definition allocateRC :: "number \<Rightarrow> number \<Rightarrow> number \<Rightarrow> number result" where
  "allocateRC tot quantity capacity =
     (if capacity \<le> 0 then Inl (InvoiceCreditError ''Credit source line capacity is invalid.'')
      else roundHalfUp (tot * quantity) capacity)"

section \<open>Validation\<close>

definition validateSourceLineRC ::
    "(string \<times> ReverseChargeCreditSourceLine) list \<Rightarrow> ReverseChargeCreditSourceLine
      \<Rightarrow> (string \<times> ReverseChargeCreditSourceLine) list result" where
  "validateSourceLineRC sourceById line =
     (if length (rcs_id line) = 0 \<or> map_of sourceById (rcs_id line) \<noteq> None \<or>
         \<not> isSafeInteger (rcs_lineOrder line) \<or> rcs_lineOrder line < 1 \<or>
         \<not> isSafeInteger (rcs_quantityHundredths line) \<or> rcs_quantityHundredths line \<le> 0 \<or>
         rcs_priceInputMode line \<noteq> Net \<or> rcs_vatRateBasisPoints line \<noteq> None \<or>
         \<not> isNonNegativeSafeInteger (rcs_baseCents line) \<or>
         \<not> isNonNegativeSafeInteger (rcs_discountCents line) \<or>
         \<not> isNonNegativeSafeInteger (rcs_netCents line) \<or>
         \<not> isNonNegativeSafeInteger (rcs_grossCents line) \<or>
         rcs_vatCents line \<noteq> 0 \<or>
         rcs_discountCents line > rcs_baseCents line \<or>
         jsSub (rcs_baseCents line) (rcs_discountCents line) \<noteq> rcs_netCents line \<or>
         rcs_netCents line \<noteq> rcs_grossCents line
      then Inl (InvoiceCreditError ''Reverse charge source invoice line is invalid.'')
      else Inr (AList.update (rcs_id line) line sourceById))"

definition validateSourceLinesRC ::
    "ReverseChargeCreditSourceLine list \<Rightarrow> (string \<times> ReverseChargeCreditSourceLine) list result" where
  "validateSourceLinesRC lines = foldR validateSourceLineRC [] lines"

definition requireWithinInvoiceCapacity ::
    "ReverseChargeCreditSourceLine list \<Rightarrow> ReverseChargePreviousCreditAllocation list
      \<Rightarrow> ReverseChargeDraftLine list \<Rightarrow> unit result" where
  "requireWithinInvoiceCapacity sourceLines previousAllocations currentLines =
     andThen (foldR (\<lambda>sum line. addSafeRC sum (rcs_netCents line)) 0 sourceLines) (\<lambda>sourceNet.
     andThen (foldR (\<lambda>sum line. addSafeRC sum (rca_netCents line)) 0 previousAllocations)
       (\<lambda>previousNet.
     andThen (foldR (\<lambda>sum line. addSafeRC sum (dl_netCents line)) 0 currentLines) (\<lambda>currentNet.
     andThen (addSafeRC previousNet currentNet) (\<lambda>creditedNet.
     if creditedNet > sourceNet then
       Inl (InvoiceCreditError ''Credit invoice exceeds the remaining source invoice amount.'')
     else Inr ()))))"

definition validatePreviousStepRC ::
    "(string \<times> ReverseChargeCreditSourceLine) list \<Rightarrow> (string \<times> AllocationTotal) list
      \<Rightarrow> ReverseChargePreviousCreditAllocation \<Rightarrow> (string \<times> AllocationTotal) list result" where
  "validatePreviousStepRC sourceById totals allocation =
     (if \<not> isSafeInteger (rca_quantityHundredths allocation) \<or>
         rca_quantityHundredths allocation \<le> 0 \<or>
         rca_priceInputMode allocation \<noteq> Net \<or> rca_vatRateBasisPoints allocation \<noteq> None \<or>
         \<not> isNonNegativeSafeInteger (rca_baseCents allocation) \<or>
         \<not> isNonNegativeSafeInteger (rca_discountCents allocation) \<or>
         \<not> isNonNegativeSafeInteger (rca_netCents allocation) \<or>
         \<not> isNonNegativeSafeInteger (rca_grossCents allocation) \<or>
         rca_vatCents allocation \<noteq> 0 \<or>
         rca_discountCents allocation > rca_baseCents allocation \<or>
         jsSub (rca_baseCents allocation) (rca_discountCents allocation) \<noteq> rca_netCents allocation \<or>
         rca_netCents allocation \<noteq> rca_grossCents allocation
      then Inl (InvoiceCreditError ''Previous reverse charge credit allocation is invalid.'')
      else
        case rca_sourceInvoiceLineId allocation of
          None \<Rightarrow> Inr totals
        | Some sourceId \<Rightarrow>
            case map_of sourceById sourceId of
              None \<Rightarrow> Inl (InvoiceCreditError ''Previous credit allocation source line is invalid.'')
            | Some source \<Rightarrow>
                let previous = (case map_of totals sourceId of
                                  None \<Rightarrow> createEmptyAllocation | Some p \<Rightarrow> p) in
                andThen (addSafeRC (at_quantityHundredths previous)
                          (rca_quantityHundredths allocation)) (\<lambda>q.
                andThen (addSafeRC (at_baseCents previous) (rca_baseCents allocation)) (\<lambda>b.
                andThen (addSafeRC (at_discountCents previous) (rca_discountCents allocation)) (\<lambda>d.
                andThen (addSafeRC (at_netCents previous) (rca_netCents allocation)) (\<lambda>n.
                if q > rcs_quantityHundredths source \<or> b > rcs_baseCents source \<or>
                   n > rcs_netCents source
                then Inl (InvoiceCreditError ''Previous credits exceed the source invoice line.'')
                else
                  Inr (AList.update sourceId
                    \<lparr>at_quantityHundredths = q, at_baseCents = b, at_discountCents = d,
                     at_netCents = n\<rparr> totals))))))"

definition validatePreviousAllocationsRC ::
    "ReverseChargeCreditSourceLine list \<Rightarrow> ReverseChargePreviousCreditAllocation list
      \<Rightarrow> (string \<times> ReverseChargeCreditSourceLine) list \<Rightarrow> (string \<times> AllocationTotal) list result" where
  "validatePreviousAllocationsRC sourceLines allocations sourceById =
     andThen (foldR (validatePreviousStepRC sourceById) [] allocations) (\<lambda>totals.
     andThen (requireWithinInvoiceCapacity sourceLines allocations []) (\<lambda>_.
     Inr totals))"

section \<open>The draft\<close>

definition creditSourceRC ::
    "(string \<times> ReverseChargeCreditSourceLine) list \<Rightarrow> (string \<times> AllocationTotal) list
      \<Rightarrow> RequestedCreditLine \<Rightarrow> ReverseChargeDraftLine result" where
  "creditSourceRC sourceById previousBySource requested =
     (case map_of sourceById (rq_sourceInvoiceLineId requested) of
        None \<Rightarrow> Inl (InvoiceCreditError ''Credit invoice source line is invalid.'')
      | Some source \<Rightarrow>
          andThen (requirePositiveRC (rq_quantityHundredths requested) ''Credit quantity'') (\<lambda>_.
          let previous = (case map_of previousBySource (rcs_id source) of
                            None \<Rightarrow> createEmptyAllocation | Some p \<Rightarrow> p) in
          andThen (addSafeRC (at_quantityHundredths previous) (rq_quantityHundredths requested))
            (\<lambda>cumulativeQuantity.
          if cumulativeQuantity > rcs_quantityHundredths source then
            Inl (InvoiceCreditError ''Credit quantity exceeds the remaining source line quantity.'')
          else
            andThen (allocateRC (rcs_baseCents source) cumulativeQuantity
                      (rcs_quantityHundredths source)) (\<lambda>cumulativeBase.
            andThen (allocateRC (rcs_netCents source) cumulativeQuantity
                      (rcs_quantityHundredths source)) (\<lambda>cumulativeNet.
            andThen (subtractRC cumulativeBase (at_baseCents previous)) (\<lambda>base.
            andThen (subtractRC cumulativeNet (at_netCents previous)) (\<lambda>net.
            let disc = jsSub base net in
            if disc < 0 then
              Inl (InvoiceCreditError ''Calculated reverse charge credit line is invalid.'')
            else
              Inr \<lparr>dl_lineKey = rcs_id source, dl_sourceInvoiceLineId = Some (rcs_id source),
                   dl_quantityHundredths = rq_quantityHundredths requested,
                   dl_unitPriceCents = None, dl_priceInputMode = Net,
                   dl_vatRateBasisPoints = None, dl_baseCents = base, dl_discountCents = disc,
                   dl_netCents = net, dl_vatCents = 0, dl_grossCents = net\<rparr>)))))))"

fun creditSourcesRC ::
    "(string \<times> ReverseChargeCreditSourceLine) list \<Rightarrow> (string \<times> AllocationTotal) list
      \<Rightarrow> string list \<Rightarrow> RequestedCreditLine list \<Rightarrow> ReverseChargeDraftLine list result" where
  "creditSourcesRC sourceById previousBySource ids [] = Inr []"
| "creditSourcesRC sourceById previousBySource ids (r # rs) =
     (if rq_sourceInvoiceLineId r \<in> set ids then
        Inl (InvoiceCreditError ''Credit invoice source lines must be unique.'')
      else
        andThen (creditSourceRC sourceById previousBySource r) (\<lambda>line.
        andThen (creditSourcesRC sourceById previousBySource (rq_sourceInvoiceLineId r # ids) rs)
          (\<lambda>lines.
        Inr (line # lines))))"

definition creditManualRC ::
    "RequestedReverseChargeManualCreditLine \<Rightarrow> ReverseChargeDraftLine result" where
  "creditManualRC requested =
     andThen (calculateReverseChargeInvoiceLine
         \<lparr>quantityHundredths = rrm_quantityHundredths requested,
          unitPriceCents = rrm_unitPriceCents requested, discount = NoDiscount,
          rc_priceInputMode = Net\<rparr>) (\<lambda>calculated.
     Inr \<lparr>dl_lineKey = rrm_lineKey requested, dl_sourceInvoiceLineId = None,
          dl_quantityHundredths = rcl_quantityHundredths calculated,
          dl_unitPriceCents = Some (rrm_unitPriceCents requested),
          dl_priceInputMode = rcl_priceInputMode calculated,
          dl_vatRateBasisPoints = rcl_vatRateBasisPoints calculated,
          dl_baseCents = rcl_baseCents calculated,
          dl_discountCents = rcl_discountCents calculated,
          dl_netCents = rcl_netCents calculated, dl_vatCents = rcl_vatCents calculated,
          dl_grossCents = rcl_grossCents calculated\<rparr>)"

definition sumReverseChargeCreditTotals :: "ReverseChargeDraftLine list \<Rightarrow> InvoiceTotals result" where
  "sumReverseChargeCreditTotals lines =
     andThen (foldR (\<lambda>sum line.
         if dl_vatRateBasisPoints line \<noteq> None \<or> dl_vatCents line \<noteq> 0 \<or>
            dl_netCents line \<noteq> dl_grossCents line
         then Inl (InvoiceCreditError ''Calculated reverse charge credit line is invalid.'')
         else addSafeRC sum (dl_netCents line)) 0 lines) (\<lambda>net.
     Inr \<lparr>netTotalCents = net, vatTotalCents = 0, grossTotalCents = net, vatBreakdown = []\<rparr>)"

definition calculateReverseChargeCreditInvoiceDraft ::
    "ReverseChargeCreditSourceLine list \<Rightarrow> ReverseChargePreviousCreditAllocation list
      \<Rightarrow> RequestedCreditLine list \<Rightarrow> RequestedReverseChargeManualCreditLine list
      \<Rightarrow> number option CalculatedCreditDraft result" where
  "calculateReverseChargeCreditInvoiceDraft sourceLines previousAllocations requestedSourceLines
       requestedManualLines =
     (if length requestedSourceLines + length requestedManualLines = 0 then
        Inl (InvoiceCreditError ''Credit invoice must contain at least one line.'')
      else
        andThen (validateSourceLinesRC sourceLines) (\<lambda>sourceById.
        andThen (validatePreviousAllocationsRC sourceLines previousAllocations sourceById)
          (\<lambda>previousBySource.
        andThen (creditSourcesRC sourceById previousBySource [] requestedSourceLines)
          (\<lambda>sourceCredits.
        andThen (mapR creditManualRC requestedManualLines) (\<lambda>manualCredits.
        let lines = sourceCredits @ manualCredits in
        andThen (requireWithinInvoiceCapacity sourceLines previousAllocations lines) (\<lambda>_.
        andThen (sumReverseChargeCreditTotals lines) (\<lambda>totals.
        Inr \<lparr>cd_lines = lines, cd_totals = totals\<rparr>)))))))"

definition calculateRemainingReverseChargeCreditTotals ::
    "ReverseChargeCreditSourceLine list \<Rightarrow> ReverseChargePreviousCreditAllocation list
      \<Rightarrow> InvoiceTotals result" where
  "calculateRemainingReverseChargeCreditTotals sourceLines previousAllocations =
     andThen (validateSourceLinesRC sourceLines) (\<lambda>sourceById.
     andThen (validatePreviousAllocationsRC sourceLines previousAllocations sourceById) (\<lambda>_.
     andThen (foldR (\<lambda>sum line. addSafeRC sum (rcs_netCents line)) 0 sourceLines) (\<lambda>sourceNet.
     andThen (foldR (\<lambda>sum line. addSafeRC sum (rca_netCents line)) 0 previousAllocations)
       (\<lambda>creditedNet.
     andThen (subtractRC sourceNet creditedNet) (\<lambda>remainingNet.
     Inr \<lparr>netTotalCents = remainingNet, vatTotalCents = 0, grossTotalCents = remainingNet,
          vatBreakdown = []\<rparr>)))))"

section \<open>Correctness\<close>

interpretation reverse_charge: checked_arithmetic addSafeRC subtractRC
proof
  fix a b c :: number
  assume a: "amount a" and b: "amount b"
  show "addSafeRC a b = Inr c \<longleftrightarrow> amount (a + b) \<and> c = a + b"
    using a b by (auto simp: addSafeRC_def Let_def amount_iff)
  show "subtractRC a b = Inr c \<longleftrightarrow> b \<le> a \<and> c = a - b"
    using a b by (auto simp: subtractRC_def Let_def)
qed

lemma subtractRC_ok [result_simps]: "subtractRC a b = Inr c \<longleftrightarrow> amount (a - b) \<and> c = a - b"
  by (auto simp: subtractRC_def Let_def amount_iff isSafeInteger_def jsSub_def jsRound_def
      MAX_SAFE_INTEGER_def)

lemma isNonNegativeSafeInteger_amount [simp]: "isNonNegativeSafeInteger v \<longleftrightarrow> amount v"
  by (simp add: isNonNegativeSafeInteger_def amount_iff)

definition validSourceRC :: "ReverseChargeCreditSourceLine \<Rightarrow> bool" where
  "validSourceRC s \<longleftrightarrow>
     rcs_id s \<noteq> [] \<and> isSafeInteger (rcs_lineOrder s) \<and> 1 \<le> rcs_lineOrder s \<and>
     amount (rcs_quantityHundredths s) \<and> 0 < rcs_quantityHundredths s \<and>
     rcs_priceInputMode s = Net \<and> rcs_vatRateBasisPoints s = None \<and> rcs_vatCents s = 0 \<and>
     amount (rcs_baseCents s) \<and> amount (rcs_discountCents s) \<and> amount (rcs_netCents s) \<and>
     rcs_discountCents s \<le> rcs_baseCents s \<and>
     rcs_netCents s = rcs_baseCents s - rcs_discountCents s \<and> rcs_grossCents s = rcs_netCents s"

lemma validateSourceLineRC_eq_Inr:
  "validateSourceLineRC m s = Inr m' \<longleftrightarrow>
     validSourceRC s \<and> map_of m (rcs_id s) = None \<and> m' = AList.update (rcs_id s) s m"
  by (auto simp: validateSourceLineRC_def validSourceRC_def amount_iff)

lemma validateSourceLinesRC_eq_Inr:
  "validateSourceLinesRC lines = Inr m \<longleftrightarrow>
     (\<forall>s \<in> set lines. validSourceRC s) \<and> distinct (map rcs_id lines) \<and> m = putAll rcs_id lines []"
proof -
  have "foldR validateSourceLineRC m0 lines = Inr m \<longleftrightarrow>
      (\<forall>s \<in> set lines. validSourceRC s \<and> map_of m0 (rcs_id s) = None) \<and>
      distinct (map rcs_id lines) \<and> m = putAll rcs_id lines m0" for m0
  proof (induction lines arbitrary: m0)
    case Nil
    then show ?case by auto
  next
    case (Cons s lines)
    have "(\<forall>x \<in> set lines. validSourceRC x \<and> map_of (AList.update (rcs_id s) s m0) (rcs_id x) = None) \<longleftrightarrow>
        (\<forall>x \<in> set lines. validSourceRC x \<and> map_of m0 (rcs_id x) = None) \<and>
        rcs_id s \<notin> rcs_id ` set lines"
      by (auto simp: update_conv' image_iff)
    then show ?case
      by (auto simp: result_simps validateSourceLineRC_eq_Inr Cons.IH)
  qed
  then show ?thesis by (simp add: validateSourceLinesRC_def)
qed

definition validAllocationRC :: "ReverseChargePreviousCreditAllocation \<Rightarrow> bool" where
  "validAllocationRC a \<longleftrightarrow>
     amount (rca_quantityHundredths a) \<and> 0 < rca_quantityHundredths a \<and>
     rca_priceInputMode a = Net \<and> rca_vatRateBasisPoints a = None \<and> rca_vatCents a = 0 \<and>
     amount (rca_baseCents a) \<and> amount (rca_discountCents a) \<and> amount (rca_netCents a) \<and>
     rca_discountCents a \<le> rca_baseCents a \<and>
     rca_netCents a = rca_baseCents a - rca_discountCents a \<and> rca_grossCents a = rca_netCents a"

definition allocationsOf ::
    "ReverseChargePreviousCreditAllocation list \<Rightarrow> string \<Rightarrow> ReverseChargePreviousCreditAllocation list" where
  "allocationsOf as i = filter (\<lambda>a. rca_sourceInvoiceLineId a = Some i) as"

definition totalOfRC :: "ReverseChargePreviousCreditAllocation list \<Rightarrow> string \<Rightarrow> AllocationTotal" where
  "totalOfRC as i =
     \<lparr>at_quantityHundredths = (\<Sum>a\<leftarrow>allocationsOf as i. rca_quantityHundredths a),
      at_baseCents = (\<Sum>a\<leftarrow>allocationsOf as i. rca_baseCents a),
      at_discountCents = (\<Sum>a\<leftarrow>allocationsOf as i. rca_discountCents a),
      at_netCents = (\<Sum>a\<leftarrow>allocationsOf as i. rca_netCents a)\<rparr>"

text \<open>The credits of a source line stay within its quantity, base and net amounts.\<close>

definition withinLineRC ::
    "(string \<times> ReverseChargeCreditSourceLine) list \<Rightarrow> ReverseChargePreviousCreditAllocation list
      \<Rightarrow> string \<Rightarrow> bool" where
  "withinLineRC sourceById as i \<longleftrightarrow>
     (\<exists>s. map_of sourceById i = Some s \<and>
        at_quantityHundredths (totalOfRC as i) \<le> rcs_quantityHundredths s \<and>
        at_baseCents (totalOfRC as i) \<le> rcs_baseCents s \<and>
        at_netCents (totalOfRC as i) \<le> rcs_netCents s)"

definition orEmptyRC :: "AllocationTotal option \<Rightarrow> AllocationTotal" where
  "orEmptyRC v = (case v of None \<Rightarrow> createEmptyAllocation | Some p \<Rightarrow> p)"

lemma orEmptyRC_simps [simp]: "orEmptyRC None = createEmptyAllocation" "orEmptyRC (Some p) = p"
  by (simp_all add: orEmptyRC_def)

lemma totalOfRC_append [simp]:
  "at_quantityHundredths (totalOfRC (as @ bs) i) =
     at_quantityHundredths (totalOfRC as i) + at_quantityHundredths (totalOfRC bs i)"
  "at_baseCents (totalOfRC (as @ bs) i) = at_baseCents (totalOfRC as i) + at_baseCents (totalOfRC bs i)"
  "at_discountCents (totalOfRC (as @ bs) i) =
     at_discountCents (totalOfRC as i) + at_discountCents (totalOfRC bs i)"
  "at_netCents (totalOfRC (as @ bs) i) = at_netCents (totalOfRC as i) + at_netCents (totalOfRC bs i)"
  by (simp_all add: totalOfRC_def allocationsOf_def)

lemma totalOfRC_single:
  "totalOfRC [a] i =
     (if rca_sourceInvoiceLineId a = Some i then
        \<lparr>at_quantityHundredths = rca_quantityHundredths a, at_baseCents = rca_baseCents a,
         at_discountCents = rca_discountCents a, at_netCents = rca_netCents a\<rparr>
      else createEmptyAllocation)"
  by (simp add: totalOfRC_def allocationsOf_def createEmptyAllocation_def)

lemma totalOfRC_Nil [simp]: "totalOfRC [] i = createEmptyAllocation"
  by (simp add: totalOfRC_def allocationsOf_def createEmptyAllocation_def)

lemma createEmptyAllocation_simps [simp]:
  "at_quantityHundredths createEmptyAllocation = 0" "at_baseCents createEmptyAllocation = 0"
  "at_discountCents createEmptyAllocation = 0" "at_netCents createEmptyAllocation = 0"
  by (simp_all add: createEmptyAllocation_def)

lemma totalOfRC_bounds:
  assumes "\<forall>a \<in> set as. validAllocationRC a"
  shows "0 \<le> at_quantityHundredths (totalOfRC as i)" "0 \<le> at_baseCents (totalOfRC as i)"
    "0 \<le> at_discountCents (totalOfRC as i)" "0 \<le> at_netCents (totalOfRC as i)"
    and "at_netCents (totalOfRC as i) = at_baseCents (totalOfRC as i) - at_discountCents (totalOfRC as i)"
proof -
  have valid: "\<forall>a \<in> set (allocationsOf as i). validAllocationRC a"
    using assms by (simp add: allocationsOf_def)
  then have "0 \<le> rca_quantityHundredths a \<and> 0 \<le> rca_baseCents a \<and> 0 \<le> rca_discountCents a \<and>
      0 \<le> rca_netCents a"
    if "a \<in> set (allocationsOf as i)" for a
    using that by (meson amount_nonneg validAllocationRC_def)
  then show "0 \<le> at_quantityHundredths (totalOfRC as i)" "0 \<le> at_baseCents (totalOfRC as i)"
    "0 \<le> at_discountCents (totalOfRC as i)" "0 \<le> at_netCents (totalOfRC as i)"
    by (auto simp: totalOfRC_def intro!: sum_list_nonneg)
  have eq: "map rca_netCents (allocationsOf as i) =
      map (\<lambda>a. rca_baseCents a - rca_discountCents a) (allocationsOf as i)"
    using valid by (simp add: validAllocationRC_def)
  show "at_netCents (totalOfRC as i) = at_baseCents (totalOfRC as i) - at_discountCents (totalOfRC as i)"
    unfolding totalOfRC_def AllocationTotal.simps eq by (rule sum_list_subtractf)
qed

lemma addSafeRC_ok [result_simps]: "addSafeRC a b = Inr c \<longleftrightarrow> isSafeInteger (a + b) \<and> c = a + b"
  by (auto simp: addSafeRC_def Let_def)

lemma validatePreviousStepRC_eq_Inr:
  "validatePreviousStepRC sb tot a = Inr tot' \<longleftrightarrow>
     validAllocationRC a \<and>
     (case rca_sourceInvoiceLineId a of
        None \<Rightarrow> tot' = tot
      | Some i \<Rightarrow>
          let p = orEmptyRC (map_of tot i);
              q = \<lparr>at_quantityHundredths = at_quantityHundredths p + rca_quantityHundredths a,
                   at_baseCents = at_baseCents p + rca_baseCents a,
                   at_discountCents = at_discountCents p + rca_discountCents a,
                   at_netCents = at_netCents p + rca_netCents a\<rparr> in
          isSafeInteger (at_quantityHundredths q) \<and> isSafeInteger (at_baseCents q) \<and>
          isSafeInteger (at_discountCents q) \<and> isSafeInteger (at_netCents q) \<and>
          (\<exists>s. map_of sb i = Some s \<and> at_quantityHundredths q \<le> rcs_quantityHundredths s \<and>
             at_baseCents q \<le> rcs_baseCents s \<and> at_netCents q \<le> rcs_netCents s) \<and>
          tot' = AList.update i q tot)"
proof -
  have valid: "\<not> (\<not> isSafeInteger (rca_quantityHundredths a) \<or> rca_quantityHundredths a \<le> 0 \<or>
         rca_priceInputMode a \<noteq> Net \<or> rca_vatRateBasisPoints a \<noteq> None \<or>
         \<not> isNonNegativeSafeInteger (rca_baseCents a) \<or>
         \<not> isNonNegativeSafeInteger (rca_discountCents a) \<or>
         \<not> isNonNegativeSafeInteger (rca_netCents a) \<or>
         \<not> isNonNegativeSafeInteger (rca_grossCents a) \<or> rca_vatCents a \<noteq> 0 \<or>
         rca_discountCents a > rca_baseCents a \<or>
         jsSub (rca_baseCents a) (rca_discountCents a) \<noteq> rca_netCents a \<or>
         rca_netCents a \<noteq> rca_grossCents a) \<longleftrightarrow> validAllocationRC a"
    by (auto simp: validAllocationRC_def amount_iff)
  show ?thesis
    unfolding validatePreviousStepRC_def if_Inl_eq_Inr valid
    by (cases "rca_sourceInvoiceLineId a")
      (auto simp: result_simps Let_def orEmptyRC_def [symmetric] not_less split: option.split)
qed

lemma validatePreviousStepsRC_facts:
  "foldR (validatePreviousStepRC sb) [] as = Inr tot \<Longrightarrow>
     (\<forall>a \<in> set as. validAllocationRC a) \<and> (\<forall>i. orEmptyRC (map_of tot i) = totalOfRC as i) \<and>
     (\<forall>i. allocationsOf as i \<noteq> [] \<longrightarrow> withinLineRC sb as i)"
proof (induction as arbitrary: tot rule: rev_induct)
  case Nil
  then show ?case by (simp add: allocationsOf_def)
next
  case (snoc a as)
  then obtain t where t: "foldR (validatePreviousStepRC sb) [] as = Inr t"
    and step: "validatePreviousStepRC sb t a = Inr tot"
    by (auto simp: foldR_append result_simps)
  note IH = snoc.IH [OF t]
  show ?case
  proof (cases "rca_sourceInvoiceLineId a")
    case None
    then have "totalOfRC (as @ [a]) i = totalOfRC as i" for i
      by (simp add: totalOfRC_def allocationsOf_def)
    with None IH step show ?thesis
      by (auto simp: validatePreviousStepRC_eq_Inr allocationsOf_def withinLineRC_def)
  next
    case (Some j)
    have eq: "totalOfRC (as @ [a]) i = (if i = j then
        \<lparr>at_quantityHundredths = at_quantityHundredths (totalOfRC as j) + rca_quantityHundredths a,
         at_baseCents = at_baseCents (totalOfRC as j) + rca_baseCents a,
         at_discountCents = at_discountCents (totalOfRC as j) + rca_discountCents a,
         at_netCents = at_netCents (totalOfRC as j) + rca_netCents a\<rparr> else totalOfRC as i)" for i
      using Some by (simp add: totalOfRC_def allocationsOf_def)
    show ?thesis
      using IH step
      by (auto simp: validatePreviousStepRC_eq_Inr Some Let_def eq update_conv' withinLineRC_def
          allocationsOf_def split: if_splits)
  qed
qed

lemma validatePreviousStepsRC_succeeds:
  assumes valid: "\<forall>a \<in> set as. validAllocationRC a"
    and within: "\<forall>i. allocationsOf as i \<noteq> [] \<longrightarrow> withinLineRC sb as i"
    and sources: "\<forall>i s. map_of sb i = Some s \<longrightarrow> validSourceRC s"
  shows "succeeds (foldR (validatePreviousStepRC sb) [] as)"
  using valid within
proof (induction as rule: rev_induct)
  case Nil
  then show ?case by simp
next
  case (snoc a as)
  have valid: "\<forall>a \<in> set as. validAllocationRC a" "validAllocationRC a" using snoc.prems(1) by auto
  have one: "\<forall>x \<in> set [a]. validAllocationRC x" using valid(2) by simp
  have "withinLineRC sb as i" if "allocationsOf as i \<noteq> []" for i
  proof -
    have "allocationsOf (as @ [a]) i \<noteq> []" using that by (simp add: allocationsOf_def)
    then have "withinLineRC sb (as @ [a]) i" using snoc.prems(2) by blast
    then show ?thesis
      using totalOfRC_bounds [OF one, of i] by (auto simp: withinLineRC_def)
  qed
  then obtain t where t: "foldR (validatePreviousStepRC sb) [] as = Inr t"
    using snoc.IH valid(1) by (auto simp: succeeds_iff)
  note facts = validatePreviousStepsRC_facts [OF t]
  have "succeeds (validatePreviousStepRC sb t a)"
  proof (cases "rca_sourceInvoiceLineId a")
    case None
    with valid(2) show ?thesis by (simp add: succeeds_iff validatePreviousStepRC_eq_Inr)
  next
    case (Some j)
    then have "allocationsOf (as @ [a]) j \<noteq> []" by (simp add: allocationsOf_def)
    then obtain s where s: "map_of sb j = Some s"
      "at_quantityHundredths (totalOfRC (as @ [a]) j) \<le> rcs_quantityHundredths s"
      "at_baseCents (totalOfRC (as @ [a]) j) \<le> rcs_baseCents s"
      "at_netCents (totalOfRC (as @ [a]) j) \<le> rcs_netCents s"
      using snoc.prems(2) unfolding withinLineRC_def by blast
    have vs: "validSourceRC s" using sources s(1) by blast
    note b = totalOfRC_bounds [OF snoc.prems(1), of j]
    have "isSafeInteger (at_quantityHundredths (totalOfRC (as @ [a]) j))"
      "isSafeInteger (at_baseCents (totalOfRC (as @ [a]) j))"
      "isSafeInteger (at_discountCents (totalOfRC (as @ [a]) j))"
      "isSafeInteger (at_netCents (totalOfRC (as @ [a]) j))"
      using b s vs unfolding validSourceRC_def amount_def isSafeInteger_def by linarith+
    with s facts valid(2) Some show ?thesis
      by (simp add: succeeds_iff validatePreviousStepRC_eq_Inr Let_def totalOfRC_single)
  qed
  with t show ?case by (auto simp: foldR_append succeeds_iff)
qed

end
