(* ===== verification/ReverseChargeHistory.thy ===== *)
theory ReverseChargeHistory
  imports ReverseChargeCredit
begin

text \<open>
  What an accepted reverse-charge credit draft satisfies, and the remaining net amount of
  the invoice when the draft is stored.
\<close>

section \<open>Invoice capacity\<close>

lemma sum_amounts_nonneg: "\<forall>x \<in> set xs. amount (f x) \<Longrightarrow> 0 \<le> (\<Sum>x\<leftarrow>xs. f x)"
  by (induction xs) (auto dest: amount_nonneg)

abbreviation netSum :: "ReverseChargePreviousCreditAllocation list \<Rightarrow> int" where
  "netSum as \<equiv> (\<Sum>a\<leftarrow>as. rca_netCents a)"

lemma requireWithinInvoiceCapacity_eq_Inr:
  assumes "\<forall>s \<in> set ss. amount (rcs_netCents s)" "\<forall>a \<in> set as. amount (rca_netCents a)"
    and "\<forall>l \<in> set ls. amount (dl_netCents l)"
  shows "requireWithinInvoiceCapacity ss as ls = Inr u \<longleftrightarrow>
    amount (\<Sum>s\<leftarrow>ss. rcs_netCents s) \<and>
    netSum as + (\<Sum>l\<leftarrow>ls. dl_netCents l) \<le> (\<Sum>s\<leftarrow>ss. rcs_netCents s)"
proof -
  note f = reverse_charge.foldR_add [OF assms(1), of 0] reverse_charge.foldR_add [OF assms(2), of 0]
    reverse_charge.foldR_add [OF assms(3), of 0]
  have "0 \<le> netSum as" "0 \<le> (\<Sum>l\<leftarrow>ls. dl_netCents l)"
    using assms(2,3) by (auto intro: sum_amounts_nonneg)
  then show ?thesis
    by (auto simp: requireWithinInvoiceCapacity_def result_simps f amount_iff isSafeInteger_def)
qed

section \<open>Draft lines\<close>

definition creditedLineRC ::
    "(string \<times> ReverseChargeCreditSourceLine) list \<Rightarrow> ReverseChargePreviousCreditAllocation list
      \<Rightarrow> RequestedCreditLine \<Rightarrow> ReverseChargeDraftLine \<Rightarrow> bool" where
  "creditedLineRC sb prevs r l \<longleftrightarrow>
     (\<exists>s. map_of sb (rq_sourceInvoiceLineId r) = Some s \<and>
        dl_sourceInvoiceLineId l = Some (rcs_id s) \<and>
        amount (rq_quantityHundredths r) \<and> 0 < rq_quantityHundredths r \<and>
        dl_quantityHundredths l = rq_quantityHundredths r \<and>
        (let p = totalOfRC prevs (rcs_id s);
             q = at_quantityHundredths p + rq_quantityHundredths r in
         q \<le> rcs_quantityHundredths s \<and>
         at_baseCents p + dl_baseCents l = rounded (rcs_baseCents s * q) (rcs_quantityHundredths s) \<and>
         at_netCents p + dl_netCents l = rounded (rcs_netCents s * q) (rcs_quantityHundredths s)))"

text \<open>What every line of a draft satisfies.\<close>

definition draftLineRC :: "ReverseChargeDraftLine \<Rightarrow> bool" where
  "draftLineRC l \<longleftrightarrow>
     dl_priceInputMode l = Net \<and> dl_vatRateBasisPoints l = None \<and> dl_vatCents l = 0 \<and>
     dl_grossCents l = dl_netCents l \<and> amount (dl_baseCents l) \<and> amount (dl_netCents l) \<and>
     amount (dl_discountCents l) \<and> dl_discountCents l = dl_baseCents l - dl_netCents l \<and>
     amount (dl_quantityHundredths l)"

lemma creditSourceRC_credited:
  assumes sb: "sb = putAll rcs_id sources []" "distinct (map rcs_id sources)"
      "\<forall>s \<in> set sources. validSourceRC s"
    and prevs: "\<forall>a \<in> set prevs. validAllocationRC a"
      "\<forall>i. orEmptyRC (map_of tot i) = totalOfRC prevs i"
    and l: "creditSourceRC sb tot r = Inr l"
  shows "creditedLineRC sb prevs r l" and "draftLineRC l"
    and "dl_sourceInvoiceLineId l = Some (rq_sourceInvoiceLineId r)"
proof -
  obtain s where s: "map_of sb (rq_sourceInvoiceLineId r) = Some s"
    using l by (cases "map_of sb (rq_sourceInvoiceLineId r)") (auto simp: creditSourceRC_def)
  then have mem: "s \<in> set sources" and id: "rcs_id s = rq_sourceInvoiceLineId r"
    using putAll_lookup_iff [OF sb(2)] by (auto simp: sb(1))
  have valid: "validSourceRC s" using sb(3) mem by blast
  then have am: "amount (rcs_baseCents s)" "amount (rcs_netCents s)"
    "amount (rcs_quantityHundredths s)" "0 < rcs_quantityHundredths s"
    unfolding validSourceRC_def by blast+
  let ?p = "totalOfRC prevs (rcs_id s)"
  let ?q = "at_quantityHundredths ?p + rq_quantityHundredths r"
  have p: "(case map_of tot (rcs_id s) of None \<Rightarrow> createEmptyAllocation | Some p \<Rightarrow> p) = ?p"
    using prevs(2) by (simp add: orEmptyRC_def)
  note b = totalOfRC_bounds [OF prevs(1), of "rcs_id s"]
  obtain base net where req: "requirePositiveRC (rq_quantityHundredths r) ''Credit quantity'' = Inr ()"
    and q: "isSafeInteger ?q" "?q \<le> rcs_quantityHundredths s"
    and base: "allocateRC (rcs_baseCents s) ?q (rcs_quantityHundredths s) = Inr base"
    and net: "allocateRC (rcs_netCents s) ?q (rcs_quantityHundredths s) = Inr net"
    and subs: "amount (base - at_baseCents ?p)" "amount (net - at_netCents ?p)"
    and disc: "0 \<le> jsSub (base - at_baseCents ?p) (net - at_netCents ?p)"
    and l': "l = \<lparr>dl_lineKey = rcs_id s, dl_sourceInvoiceLineId = Some (rcs_id s),
        dl_quantityHundredths = rq_quantityHundredths r, dl_unitPriceCents = None,
        dl_priceInputMode = Net, dl_vatRateBasisPoints = None,
        dl_baseCents = base - at_baseCents ?p,
        dl_discountCents = jsSub (base - at_baseCents ?p) (net - at_netCents ?p),
        dl_netCents = net - at_netCents ?p, dl_vatCents = 0,
        dl_grossCents = net - at_netCents ?p\<rparr>"
    using l s by (auto simp: creditSourceRC_def result_simps Let_def p not_less)
  have qty: "amount (rq_quantityHundredths r)" "0 < rq_quantityHundredths r"
    using req by (auto simp: requirePositiveRC_def amount_iff split: if_splits)
  have eqs: "base = rounded (rcs_baseCents s * ?q) (rcs_quantityHundredths s)"
    "net = rounded (rcs_netCents s * ?q) (rcs_quantityHundredths s)"
    using base net am(4) by (auto simp: allocateRC_def roundHalfUp_eq_Inr)
  show "dl_sourceInvoiceLineId l = Some (rq_sourceInvoiceLineId r)" by (simp add: l' id)
  show "creditedLineRC sb prevs r l"
    unfolding creditedLineRC_def Let_def
    by (rule exI [of _ s]) (use s qty q(2) in \<open>simp add: l' eqs\<close>)
  have "jsSub (base - at_baseCents ?p) (net - at_netCents ?p) =
      base - at_baseCents ?p - (net - at_netCents ?p)"
    using subs by simp
  with disc subs qty show "draftLineRC l"
    by (auto simp: draftLineRC_def l' amount_def)
qed

lemma creditSourcesRC_eq_Inr:
  "creditSourcesRC sb tot ids rs = Inr ls \<longleftrightarrow>
     distinct (map rq_sourceInvoiceLineId rs) \<and>
     set ids \<inter> rq_sourceInvoiceLineId ` set rs = {} \<and>
     list_all2 (\<lambda>r l. creditSourceRC sb tot r = Inr l) rs ls"
proof (induction rs arbitrary: ids ls)
  case Nil
  then show ?case by auto
next
  case (Cons r rs)
  show ?case
    by (auto simp: result_simps Cons.IH list_all2_Cons1)
qed

lemma creditManualRC_line:
  assumes "creditManualRC m = Inr l"
  shows "draftLineRC l" and "dl_sourceInvoiceLineId l = None"
    and "dl_quantityHundredths l = rrm_quantityHundredths m"
proof -
  let ?i = "\<lparr>quantityHundredths = rrm_quantityHundredths m,
      unitPriceCents = rrm_unitPriceCents m, discount = NoDiscount, rc_priceInputMode = Net\<rparr>"
  obtain c where c: "calculateReverseChargeInvoiceLine ?i = Inr c"
    and l: "l = \<lparr>dl_lineKey = rrm_lineKey m, dl_sourceInvoiceLineId = None,
          dl_quantityHundredths = rcl_quantityHundredths c,
          dl_unitPriceCents = Some (rrm_unitPriceCents m),
          dl_priceInputMode = rcl_priceInputMode c,
          dl_vatRateBasisPoints = rcl_vatRateBasisPoints c, dl_baseCents = rcl_baseCents c,
          dl_discountCents = rcl_discountCents c, dl_netCents = rcl_netCents c,
          dl_vatCents = rcl_vatCents c, dl_grossCents = rcl_grossCents c\<rparr>"
    using assms by (auto simp: creditManualRC_def result_simps)
  show "draftLineRC l" "dl_sourceInvoiceLineId l = None"
    "dl_quantityHundredths l = rrm_quantityHundredths m"
    using c by (auto simp: calculateReverseChargeInvoiceLine_eq_Inr draftLineRC_def l discountOf_def
        validBase_def)
qed

section \<open>An accepted draft\<close>

lemma sumReverseChargeCreditTotals_eq_Inr:
  assumes "\<forall>l \<in> set ls. draftLineRC l"
  shows "sumReverseChargeCreditTotals ls = Inr t \<longleftrightarrow>
    amount (\<Sum>l\<leftarrow>ls. dl_netCents l) \<and>
    t = (let s = \<Sum>l\<leftarrow>ls. dl_netCents l in
         \<lparr>netTotalCents = s, vatTotalCents = 0, grossTotalCents = s, vatBreakdown = []\<rparr>)"
proof -
  let ?step = "\<lambda>sum l. if dl_vatRateBasisPoints l \<noteq> None \<or> dl_vatCents l \<noteq> 0 \<or>
            dl_netCents l \<noteq> dl_grossCents l
         then Inl (InvoiceCreditError ''Calculated reverse charge credit line is invalid.'')
         else addSafeRC sum (dl_netCents l)"
  have "foldR ?step s ls = foldR (\<lambda>sum l. addSafeRC sum (dl_netCents l)) s ls" for s
    using assms
  proof (induction ls arbitrary: s)
    case Nil
    then show ?case by simp
  next
    case (Cons l ls)
    then have "?step s l = addSafeRC s (dl_netCents l)" by (simp add: draftLineRC_def)
    with Cons show ?case by (simp cong: andThen_cong)
  qed
  moreover have "\<forall>l \<in> set ls. amount (dl_netCents l)" using assms by (simp add: draftLineRC_def)
  note reverse_charge.foldR_add [OF this, of 0]
  ultimately show ?thesis
    by (auto simp: sumReverseChargeCreditTotals_def result_simps Let_def)
qed

lemma calculateReverseChargeCreditInvoiceDraft_facts:
  assumes d: "calculateReverseChargeCreditInvoiceDraft sources prevs rs rm = Inr d"
  defines "sb \<equiv> putAll rcs_id sources []"
  shows "\<forall>s \<in> set sources. validSourceRC s" "distinct (map rcs_id sources)"
    and "\<forall>a \<in> set prevs. validAllocationRC a"
    and "\<forall>i. allocationsOf prevs i \<noteq> [] \<longrightarrow> withinLineRC sb prevs i"
    and "\<exists>src man. cd_lines d = src @ man \<and> list_all2 (creditedLineRC sb prevs) rs src \<and>
      map dl_sourceInvoiceLineId src = map (Some \<circ> rq_sourceInvoiceLineId) rs \<and>
      distinct (map rq_sourceInvoiceLineId rs) \<and> (\<forall>l \<in> set man. dl_sourceInvoiceLineId l = None) \<and>
      map dl_quantityHundredths man = map rrm_quantityHundredths rm"
    and "\<forall>l \<in> set (cd_lines d). draftLineRC l"
    and "cd_totals d = (let s = \<Sum>l\<leftarrow>cd_lines d. dl_netCents l in
      \<lparr>netTotalCents = s, vatTotalCents = 0, grossTotalCents = s, vatBreakdown = []\<rparr>)"
    and "amount (\<Sum>s\<leftarrow>sources. rcs_netCents s)"
    and "netSum prevs + netTotalCents (cd_totals d) \<le> (\<Sum>s\<leftarrow>sources. rcs_netCents s)"
proof -
  obtain tot src man t where
    sources: "(\<forall>s \<in> set sources. validSourceRC s) \<and> distinct (map rcs_id sources)"
    and prevs: "validatePreviousAllocationsRC sources prevs sb = Inr tot"
    and src: "creditSourcesRC sb tot [] rs = Inr src" and man: "mapR creditManualRC rm = Inr man"
    and within: "requireWithinInvoiceCapacity sources prevs (src @ man) = Inr ()"
    and t: "sumReverseChargeCreditTotals (src @ man) = Inr t"
    and dd: "d = \<lparr>cd_lines = src @ man, cd_totals = t\<rparr>"
    using d unfolding sb_def
    by (auto simp: calculateReverseChargeCreditInvoiceDraft_def result_simps Let_def
        validateSourceLinesRC_eq_Inr split: if_splits)
  show sv: "\<forall>s \<in> set sources. validSourceRC s" "distinct (map rcs_id sources)" using sources by auto
  obtain "foldR (validatePreviousStepRC sb) [] prevs = Inr tot"
    using prevs by (auto simp: validatePreviousAllocationsRC_def result_simps)
  note pf = validatePreviousStepsRC_facts [OF this]
  then show pv: "\<forall>a \<in> set prevs. validAllocationRC a"
    and "\<forall>i. allocationsOf prevs i \<noteq> [] \<longrightarrow> withinLineRC sb prevs i" by blast+
  have tt: "\<forall>i. orEmptyRC (map_of tot i) = totalOfRC prevs i" using pf by blast
  note line = creditSourceRC_credited [OF sb_def [THEN meta_eq_to_obj_eq] sv(2) sv(1) pv tt]
  have all: "list_all2 (\<lambda>r l. creditSourceRC sb tot r = Inr l) rs src"
    and dist: "distinct (map rq_sourceInvoiceLineId rs)"
    using src by (simp_all add: creditSourcesRC_eq_Inr)
  have "list_all2 (creditedLineRC sb prevs) rs src"
    using all by (rule list_all2_mono) (rule line(1))
  moreover have "map dl_sourceInvoiceLineId src = map (Some \<circ> rq_sourceInvoiceLineId) rs"
    using all line(3) by (auto simp: list_all2_conv_all_nth intro!: nth_equalityI)
  moreover have "\<forall>l \<in> set man. dl_sourceInvoiceLineId l = None"
    using mapR_set [OF man] creditManualRC_line(2) by blast
  moreover have "map dl_quantityHundredths man = map rrm_quantityHundredths rm"
    by (rule mapR_map [OF man]) (rule creditManualRC_line(3))
  ultimately show "\<exists>src man. cd_lines d = src @ man \<and> list_all2 (creditedLineRC sb prevs) rs src \<and>
      map dl_sourceInvoiceLineId src = map (Some \<circ> rq_sourceInvoiceLineId) rs \<and>
      distinct (map rq_sourceInvoiceLineId rs) \<and> (\<forall>l \<in> set man. dl_sourceInvoiceLineId l = None) \<and>
      map dl_quantityHundredths man = map rrm_quantityHundredths rm"
    using dist by (auto simp: dd)
  have "draftLineRC l" if l: "l \<in> set (src @ man)" for l
  proof (cases "l \<in> set man")
    case True
    then show ?thesis using mapR_set [OF man] creditManualRC_line(1) by blast
  next
    case False
    with l have "l \<in> set src" by simp
    then show ?thesis using list_all2_mem_right [OF all] line(2) by blast
  qed
  then have lines: "\<forall>l \<in> set (src @ man). draftLineRC l" by blast
  then show "\<forall>l \<in> set (cd_lines d). draftLineRC l" by (simp add: dd)
  show tot: "cd_totals d = (let s = \<Sum>l\<leftarrow>cd_lines d. dl_netCents l in
      \<lparr>netTotalCents = s, vatTotalCents = 0, grossTotalCents = s, vatBreakdown = []\<rparr>)"
    using t sumReverseChargeCreditTotals_eq_Inr [OF lines, of t] by (simp add: dd)
  have am: "\<forall>s \<in> set sources. amount (rcs_netCents s)" "\<forall>a \<in> set prevs. amount (rca_netCents a)"
    "\<forall>l \<in> set (src @ man). amount (dl_netCents l)"
    using sv(1) pv lines unfolding validSourceRC_def validAllocationRC_def draftLineRC_def by blast+
  have "amount (\<Sum>s\<leftarrow>sources. rcs_netCents s) \<and>
      netSum prevs + (\<Sum>l\<leftarrow>src @ man. dl_netCents l) \<le> (\<Sum>s\<leftarrow>sources. rcs_netCents s)"
    using within requireWithinInvoiceCapacity_eq_Inr [OF am] by blast
  then show "amount (\<Sum>s\<leftarrow>sources. rcs_netCents s)"
    "netSum prevs + netTotalCents (cd_totals d) \<le> (\<Sum>s\<leftarrow>sources. rcs_netCents s)"
    unfolding tot by (simp_all add: dd Let_def)
qed

section \<open>Remaining amount\<close>

definition asAllocationRC :: "ReverseChargeDraftLine \<Rightarrow> ReverseChargePreviousCreditAllocation" where
  "asAllocationRC l =
     \<lparr>rca_sourceInvoiceLineId = dl_sourceInvoiceLineId l,
      rca_quantityHundredths = dl_quantityHundredths l,
      rca_priceInputMode = dl_priceInputMode l,
      rca_vatRateBasisPoints = dl_vatRateBasisPoints l, rca_baseCents = dl_baseCents l,
      rca_discountCents = dl_discountCents l, rca_netCents = dl_netCents l,
      rca_vatCents = dl_vatCents l, rca_grossCents = dl_grossCents l\<rparr>"

lemma calculateRemainingRC_eq_Inr:
  "calculateRemainingReverseChargeCreditTotals sources as = Inr t \<longleftrightarrow>
     (\<forall>s \<in> set sources. validSourceRC s) \<and> distinct (map rcs_id sources) \<and>
     (\<forall>a \<in> set as. validAllocationRC a) \<and>
     (\<forall>i. allocationsOf as i \<noteq> [] \<longrightarrow> withinLineRC (putAll rcs_id sources []) as i) \<and>
     amount (\<Sum>s\<leftarrow>sources. rcs_netCents s) \<and> netSum as \<le> (\<Sum>s\<leftarrow>sources. rcs_netCents s) \<and>
     t = (let r = (\<Sum>s\<leftarrow>sources. rcs_netCents s) - netSum as in
          \<lparr>netTotalCents = r, vatTotalCents = 0, grossTotalCents = r, vatBreakdown = []\<rparr>)"
    (is "_ \<longleftrightarrow> ?sources \<and> ?dist \<and> ?allocs \<and> ?lines \<and> _")
proof -
  let ?sb = "putAll rcs_id sources []"
  have am: "\<forall>s \<in> set sources. amount (rcs_netCents s)" if ?sources
    using that unfolding validSourceRC_def by blast
  have pam: "\<forall>a \<in> set as. amount (rca_netCents a)" if ?allocs
    using that unfolding validAllocationRC_def by blast
  have steps: "(\<exists>tot. foldR (validatePreviousStepRC ?sb) [] as = Inr tot) \<longleftrightarrow> ?allocs \<and> ?lines"
    if ?sources ?dist
    using validatePreviousStepsRC_facts [of ?sb as] validatePreviousStepsRC_succeeds [of as ?sb]
      that by (auto simp: succeeds_iff putAll_lookup_iff)
  have rest: "(\<exists>n. foldR (\<lambda>sum line. addSafeRC sum (rcs_netCents line)) 0 sources = Inr n \<and>
        (\<exists>c. foldR (\<lambda>sum line. addSafeRC sum (rca_netCents line)) 0 as = Inr c \<and>
          (\<exists>r. subtractRC n c = Inr r \<and> t = f r))) \<longleftrightarrow>
      amount (\<Sum>s\<leftarrow>sources. rcs_netCents s) \<and> netSum as \<le> (\<Sum>s\<leftarrow>sources. rcs_netCents s) \<and>
      t = f ((\<Sum>s\<leftarrow>sources. rcs_netCents s) - netSum as)"
    if "\<forall>s \<in> set sources. amount (rcs_netCents s)" "\<forall>a \<in> set as. amount (rca_netCents a)"
    for f :: "int \<Rightarrow> InvoiceTotals"
  proof -
    have "0 \<le> netSum as" using that(2) by (rule sum_amounts_nonneg)
    then show ?thesis
      using that by (auto simp: result_simps reverse_charge.foldR_add amount_def)
  qed
  let ?tot = "\<lambda>r. \<lparr>netTotalCents = r, vatTotalCents = 0, grossTotalCents = r, vatBreakdown = []\<rparr>"
  show ?thesis
  proof (cases "?sources \<and> ?dist \<and> ?allocs \<and> ?lines")
    case True
    then obtain tot where tot: "foldR (validatePreviousStepRC ?sb) [] as = Inr tot" using steps by blast
    have cap: "requireWithinInvoiceCapacity sources as [] = Inr () \<longleftrightarrow>
        amount (\<Sum>s\<leftarrow>sources. rcs_netCents s) \<and> netSum as \<le> (\<Sum>s\<leftarrow>sources. rcs_netCents s)"
      using requireWithinInvoiceCapacity_eq_Inr [OF am pam, of "[]" "()"] True by simp
    have vs: "validateSourceLinesRC sources = Inr ?sb"
      using True by (simp add: validateSourceLinesRC_eq_Inr)
    have "calculateRemainingReverseChargeCreditTotals sources as = Inr t \<longleftrightarrow>
        requireWithinInvoiceCapacity sources as [] = Inr () \<and>
        (\<exists>n. foldR (\<lambda>sum line. addSafeRC sum (rcs_netCents line)) 0 sources = Inr n \<and>
          (\<exists>c. foldR (\<lambda>sum line. addSafeRC sum (rca_netCents line)) 0 as = Inr c \<and>
            (\<exists>r. subtractRC n c = Inr r \<and> t = ?tot r)))"
      by (auto simp: calculateRemainingReverseChargeCreditTotals_def validatePreviousAllocationsRC_def
          andThen_eq_Inr vs tot)
    with rest [of ?tot] am pam cap True show ?thesis by (auto simp: Let_def)
  next
    case False
    then show ?thesis
      using steps
      by (auto simp: calculateRemainingReverseChargeCreditTotals_def validatePreviousAllocationsRC_def
          andThen_eq_Inr validateSourceLinesRC_eq_Inr)
  qed
qed

lemma calculateRemainingRC_after:
  assumes r: "calculateRemainingReverseChargeCreditTotals sources prevs = Inr t"
    and d: "calculateReverseChargeCreditInvoiceDraft sources prevs rs rm = Inr d"
    and manual: "\<forall>m \<in> set rm. 0 < rrm_quantityHundredths m"
  shows "\<exists>t'. calculateRemainingReverseChargeCreditTotals sources
      (prevs @ map asAllocationRC (cd_lines d)) = Inr t' \<and>
    netTotalCents t' = netTotalCents t - netTotalCents (cd_totals d) \<and>
    grossTotalCents t' = grossTotalCents t - grossTotalCents (cd_totals d)"
proof -
  let ?sb = "putAll rcs_id sources []" and ?bs = "map asAllocationRC (cd_lines d)"
  note facts = calculateReverseChargeCreditInvoiceDraft_facts [OF d]
  obtain src man where lines: "cd_lines d = src @ man"
    and src: "list_all2 (creditedLineRC ?sb prevs) rs src"
    and ids: "map dl_sourceInvoiceLineId src = map (Some \<circ> rq_sourceInvoiceLineId) rs"
    and dist: "distinct (map rq_sourceInvoiceLineId rs)"
    and man: "\<forall>l \<in> set man. dl_sourceInvoiceLineId l = None"
    and qtys: "map dl_quantityHundredths man = map rrm_quantityHundredths rm"
    using facts(5) by blast
  have pos: "0 < dl_quantityHundredths l" if l: "l \<in> set (cd_lines d)" for l
  proof (cases "l \<in> set man")
    case True
    then have "dl_quantityHundredths l \<in> rrm_quantityHundredths ` set rm"
      using qtys by (metis image_eqI list.set_map)
    with manual show ?thesis by auto
  next
    case False
    with l lines have "l \<in> set src" by simp
    then show ?thesis
      using list_all2_mem_right [OF src] by (fastforce simp: creditedLineRC_def)
  qed
  have new: "validAllocationRC (asAllocationRC l)" if "l \<in> set (cd_lines d)" for l
    using facts(6) that pos [OF that]
    by (auto simp: draftLineRC_def validAllocationRC_def asAllocationRC_def dest: amount_nonneg)
  have valid: "\<forall>a \<in> set (prevs @ ?bs). validAllocationRC a" using facts(3) new by auto
  have "withinLineRC ?sb (prevs @ ?bs) i" if ne: "allocationsOf (prevs @ ?bs) i \<noteq> []" for i
  proof (cases "\<exists>l \<in> set src. dl_sourceInvoiceLineId l = Some i")
    case False
    then have "allocationsOf ?bs i = []"
      using man by (auto simp: allocationsOf_def lines asAllocationRC_def filter_empty_conv)
    then have "totalOfRC ?bs i = createEmptyAllocation"
      by (simp add: totalOfRC_def createEmptyAllocation_def)
    moreover have "allocationsOf prevs i \<noteq> []"
      using ne \<open>allocationsOf ?bs i = []\<close> by (simp add: allocationsOf_def)
    ultimately show ?thesis using facts(4) by (auto simp: withinLineRC_def)
  next
    case True
    then obtain l where l: "l \<in> set src" "dl_sourceInvoiceLineId l = Some i" by blast
    have dist': "distinct (map dl_sourceInvoiceLineId src)"
      unfolding ids using dist by (simp add: distinct_map inj_on_def)
    have only: "filter (\<lambda>x. dl_sourceInvoiceLineId x = Some i) src = [l]"
      using dist' l
    proof (induction src)
      case Nil
      then show ?case by simp
    next
      case (Cons x src)
      have "filter (\<lambda>x. dl_sourceInvoiceLineId x = Some i) src = []"
        if "dl_sourceInvoiceLineId x = Some i"
        using that Cons.prems(1) by (auto simp: filter_empty_conv image_iff)
      with Cons show ?case by auto
    qed
    have "filter (\<lambda>x. dl_sourceInvoiceLineId x = Some i) man = []"
      using man by (simp add: filter_empty_conv)
    with only have "allocationsOf ?bs i = [asAllocationRC l]"
      by (simp add: allocationsOf_def lines filter_map comp_def asAllocationRC_def)
    then have tot: "totalOfRC ?bs i = \<lparr>at_quantityHundredths = dl_quantityHundredths l,
        at_baseCents = dl_baseCents l, at_discountCents = dl_discountCents l,
        at_netCents = dl_netCents l\<rparr>"
      by (simp add: totalOfRC_def asAllocationRC_def)
    obtain r where "creditedLineRC ?sb prevs r l" using list_all2_mem_right [OF src l(1)] by blast
    then obtain s where s: "map_of ?sb (rq_sourceInvoiceLineId r) = Some s"
      "dl_sourceInvoiceLineId l = Some (rcs_id s)" "dl_quantityHundredths l = rq_quantityHundredths r"
      and q: "at_quantityHundredths (totalOfRC prevs (rcs_id s)) + rq_quantityHundredths r \<le>
        rcs_quantityHundredths s"
      and b: "at_baseCents (totalOfRC prevs (rcs_id s)) + dl_baseCents l = rounded (rcs_baseCents s *
        (at_quantityHundredths (totalOfRC prevs (rcs_id s)) + rq_quantityHundredths r))
        (rcs_quantityHundredths s)"
      and n: "at_netCents (totalOfRC prevs (rcs_id s)) + dl_netCents l = rounded (rcs_netCents s *
        (at_quantityHundredths (totalOfRC prevs (rcs_id s)) + rq_quantityHundredths r))
        (rcs_quantityHundredths s)"
      unfolding creditedLineRC_def Let_def by blast
    have mem: "s \<in> set sources" "rcs_id s = rq_sourceInvoiceLineId r"
      using s(1) putAll_lookup_iff [OF facts(2)] by auto
    have i: "rcs_id s = i" using s(2) l(2) by simp
    have vs: "validSourceRC s" using facts(1) mem(1) by blast
    have "at_baseCents (totalOfRC prevs i) + dl_baseCents l \<le> rcs_baseCents s"
      "at_netCents (totalOfRC prevs i) + dl_netCents l \<le> rcs_netCents s"
      unfolding b [unfolded i] n [unfolded i]
      using vs q [unfolded i] by (auto simp: validSourceRC_def intro!: rounded_share_le)
    moreover have "map_of ?sb i = Some s" using s(1) mem(2) i by simp
    ultimately show ?thesis
      using q s(3) by (simp add: withinLineRC_def tot i)
  qed
  then have within: "\<forall>i. allocationsOf (prevs @ ?bs) i \<noteq> [] \<longrightarrow> withinLineRC ?sb (prevs @ ?bs) i"
    by blast
  have net: "netSum ?bs = netTotalCents (cd_totals d)" "grossTotalCents (cd_totals d) = netTotalCents (cd_totals d)"
    unfolding facts(7) by (simp_all add: Let_def asAllocationRC_def comp_def)
  let ?r = "(\<Sum>s\<leftarrow>sources. rcs_netCents s) - netSum (prevs @ ?bs)"
  have "netSum (prevs @ ?bs) \<le> (\<Sum>s\<leftarrow>sources. rcs_netCents s)"
    using facts(9) net(1) by simp
  then have "calculateRemainingReverseChargeCreditTotals sources (prevs @ ?bs) =
      Inr \<lparr>netTotalCents = ?r, vatTotalCents = 0, grossTotalCents = ?r, vatBreakdown = []\<rparr>"
    unfolding calculateRemainingRC_eq_Inr Let_def using facts(1,2,8) valid within by blast
  moreover have "t = \<lparr>netTotalCents = (\<Sum>s\<leftarrow>sources. rcs_netCents s) - netSum prevs, vatTotalCents = 0,
      grossTotalCents = (\<Sum>s\<leftarrow>sources. rcs_netCents s) - netSum prevs, vatBreakdown = []\<rparr>"
    using r unfolding calculateRemainingRC_eq_Inr Let_def by blast
  ultimately show ?thesis using net by simp
qed

end
