(* ===== verification/SqlTable.thy ===== *)
theory SqlTable
  imports Prelude
begin

text \<open>
  A database table with a primary key, as the list of its rows in insertion order.
  \<open>rowWith\<close> is \<open>SELECT ... WHERE key = ?\<close> read with \<open>get\<close>, \<open>upsertRow\<close> is
  \<open>INSERT ... ON CONFLICT(key) DO UPDATE SET\<close>: it changes the row of the key through
  \<open>merge\<close>, or appends the new one. The locale states what a repository relies on: the
  columns of the key are not among those the update sets.
\<close>

definition rowWith :: "('r \<Rightarrow> 'k) \<Rightarrow> 'k \<Rightarrow> 'r list \<Rightarrow> 'r option" where
  "rowWith key k rows = find (\<lambda>r. key r = k) rows"

definition updateRows :: "('r \<Rightarrow> bool) \<Rightarrow> ('r \<Rightarrow> 'r) \<Rightarrow> 'r list \<Rightarrow> 'r list" where
  "updateRows p f rows = map (\<lambda>r. if p r then f r else r) rows"

definition upsertRow :: "('r \<Rightarrow> 'k) \<Rightarrow> ('r \<Rightarrow> 'r \<Rightarrow> 'r) \<Rightarrow> 'r \<Rightarrow> 'r list \<Rightarrow> 'r list" where
  "upsertRow key merge new rows =
     (if rowWith key (key new) rows = None then rows @ [new]
      else updateRows (\<lambda>r. key r = key new) (\<lambda>old. merge old new) rows)"

definition insertIgnore :: "('r \<Rightarrow> 'k) \<Rightarrow> 'r \<Rightarrow> 'r list \<Rightarrow> 'r list" where
  "insertIgnore key new rows =
     (if rowWith key (key new) rows = None then rows @ [new] else rows)"

lemma rowWith_None: "rowWith key k rows = None \<longleftrightarrow> (\<forall>r \<in> set rows. key r \<noteq> k)"
  by (auto simp: rowWith_def find_None_iff)

lemma rowWith_Some: "rowWith key k rows = Some r \<Longrightarrow> r \<in> set rows \<and> key r = k"
  by (auto simp: rowWith_def find_Some_iff)

lemma rowWith_distinct:
  "distinct (map key rows) \<Longrightarrow> r \<in> set rows \<Longrightarrow> rowWith key (key r) rows = Some r"
proof (induction rows)
  case Nil
  then show ?case by simp
next
  case (Cons x xs)
  then show ?case by (auto simp: rowWith_def)
qed

lemma rowWith_append:
  "rowWith key k (xs @ ys) =
     (case rowWith key k xs of None \<Rightarrow> rowWith key k ys | Some r \<Rightarrow> Some r)"
  by (induction xs) (auto simp: rowWith_def)

lemma rowWith_single: "rowWith key k [r] = (if key r = k then Some r else None)"
  by (simp add: rowWith_def)

lemma rowWith_append_None [simp]:
  "rowWith key k (xs @ [r]) = None \<longleftrightarrow> rowWith key k xs = None \<and> key r \<noteq> k"
  by (auto simp: rowWith_None)

lemma rowWith_updateRows:
  assumes "\<And>r. p r \<Longrightarrow> key (f r) = key r"
  shows "rowWith key k (updateRows p f rows) =
    map_option (\<lambda>r. if p r then f r else r) (rowWith key k rows)"
  using assms by (induction rows) (auto simp: rowWith_def updateRows_def)

lemma updateRows_none: "(\<And>r. r \<in> set rows \<Longrightarrow> \<not> p r) \<Longrightarrow> updateRows p f rows = rows"
  by (induction rows) (auto simp: updateRows_def)

lemma map_updateRows:
  assumes "\<And>r. p r \<Longrightarrow> g (f r) = g r"
  shows "map g (updateRows p f rows) = map g rows"
  using assms by (auto simp: updateRows_def)

lemma set_insertIgnore: "set (insertIgnore key new rows) \<subseteq> insert new (set rows)"
  by (auto simp: insertIgnore_def)

lemma rowWith_insertIgnore:
  "rowWith key k (insertIgnore key new rows) =
     (case rowWith key k rows of
        None \<Rightarrow> if k = key new then Some new else None
      | Some r \<Rightarrow> Some r)"
  by (auto simp: insertIgnore_def rowWith_append rowWith_single split: option.splits)

lemma distinct_append_row:
  "distinct (map key rows) \<Longrightarrow> rowWith key (key new) rows = None \<Longrightarrow>
     distinct (map key (rows @ [new]))"
  by (auto simp: rowWith_None)

section \<open>Tables with an update clause\<close>

locale keyed_table =
  fixes key :: "'r \<Rightarrow> 'k" and merge :: "'r \<Rightarrow> 'r \<Rightarrow> 'r"
  assumes key_merge: "key old = key new \<Longrightarrow> key (merge old new) = key new"
begin

lemma rowWith_upsert:
  "rowWith key k (upsertRow key merge new rows) =
     (if k = key new
      then Some (case rowWith key k rows of None \<Rightarrow> new | Some old \<Rightarrow> merge old new)
      else rowWith key k rows)"
proof (cases "rowWith key (key new) rows = None")
  case True
  then show ?thesis
    by (auto simp: upsertRow_def rowWith_append rowWith_single split: option.splits)
next
  case False
  have "rowWith key k (upsertRow key merge new rows) =
      map_option (\<lambda>r. if key r = key new then merge r new else r) (rowWith key k rows)"
    unfolding upsertRow_def if_not_P [OF False] by (rule rowWith_updateRows) (simp add: key_merge)
  with False show ?thesis
    using rowWith_Some [of key k rows]
    by (cases "rowWith key k rows") (auto split: option.splits)
qed

lemma upsert_found: "rowWith key (key new) (upsertRow key merge new rows) \<noteq> None"
  by (simp add: rowWith_upsert)

lemma keys_upsert:
  "key ` set (upsertRow key merge new rows) = insert (key new) (key ` set rows)"
proof (cases "rowWith key (key new) rows = None")
  case True
  then show ?thesis by (auto simp: upsertRow_def)
next
  case False
  then have "key new \<in> key ` set rows" unfolding rowWith_None by (metis image_eqI)
  moreover have "map key (updateRows (\<lambda>r. key r = key new) (\<lambda>old. merge old new) rows) = map key rows"
    by (rule map_updateRows) (simp add: key_merge)
  then have "key ` set (updateRows (\<lambda>r. key r = key new) (\<lambda>old. merge old new) rows) = key ` set rows"
    by (metis list.set_map)
  ultimately show ?thesis using False by (auto simp: upsertRow_def)
qed

lemma distinct_upsert:
  assumes "distinct (map key rows)"
  shows "distinct (map key (upsertRow key merge new rows))"
proof (cases "rowWith key (key new) rows = None")
  case True
  with assms show ?thesis by (simp add: upsertRow_def distinct_append_row del: map_append)
next
  case False
  have "map key (updateRows (\<lambda>r. key r = key new) (\<lambda>old. merge old new) rows) = map key rows"
    by (rule map_updateRows) (simp add: key_merge)
  with assms show ?thesis unfolding upsertRow_def if_not_P [OF False] by simp
qed

end

end
