(* ===== verification/Numbering.thy ===== *)
theory Numbering
  imports JsStrings
begin

text \<open>
  Invoice numbering (domain/invoiceNumbering.ts): the settings of a number series, the
  sequence scope an invoice date falls into, and the printed invoice number. The main fact
  is that one series never prints the same number for two positions: equal invoice numbers
  have equal scopes and equal sequence numbers.
\<close>

section \<open>Settings\<close>

datatype InvoiceNumberingMode = FiscalYearSequence | CalendarYearSequence | PlainSequence

record InvoiceNumberingSettings =
  ns_mode :: InvoiceNumberingMode
  ns_fiscalYearStartMonth :: number
  ns_sequencePadding :: number
  ns_firstSequenceNumber :: number

record StoredInvoiceNumberingSettings = InvoiceNumberingSettings +
  ns_companyId :: string
  ns_seriesKey :: string
  ns_createdAt :: string
  ns_updatedAt :: string

record InvoiceNumberSequenceState =
  sq_companyId :: string
  sq_seriesKey :: string
  sq_sequenceScope :: string
  sq_lastSequenceNumber :: number
  sq_createdAt :: string
  sq_updatedAt :: string

record InvoiceDateParts =
  dp_year :: number
  dp_month :: number
  dp_day :: number

definition maxSequencePadding :: number where
  "maxSequencePadding = 12"

definition maxInvoiceNumberingIdentifierLength :: nat where
  "maxInvoiceNumberingIdentifierLength = 80"

definition defaultInvoiceNumberSeriesKey :: string where
  "defaultInvoiceNumberSeriesKey = ''default''"

section \<open>Guards\<close>

definition requireSafeInteger :: "number \<Rightarrow> string \<Rightarrow> unit result" where
  "requireSafeInteger value fieldName =
     (if \<not> isSafeInteger value then
        Inl (InvoiceNumberingError (fieldName @ '' must be a safe integer.''))
      else Inr ())"

definition requireIntegerInRange :: "number \<Rightarrow> string \<Rightarrow> number \<Rightarrow> number \<Rightarrow> unit result" where
  "requireIntegerInRange value fieldName minimum maximum =
     andThen (requireSafeInteger value fieldName) (\<lambda>_.
     if value < minimum \<or> value > maximum then
       Inl (InvoiceNumberingError
         (fieldName @ '' must be between '' @ showInt minimum @ '' and '' @ showInt maximum @ ''.''))
     else Inr ())"

text \<open>The class \<open>[A-Za-z0-9._:-]\<close>.\<close>

definition isIdentifierChar :: "char \<Rightarrow> bool" where
  "isIdentifierChar c \<longleftrightarrow> isUpperAZ c \<or> isLowerAZ c \<or> isDigit c \<or> c \<in> set ''._:-''"

definition requireNonEmptyIdentifier :: "string \<Rightarrow> string \<Rightarrow> unit result" where
  "requireNonEmptyIdentifier value fieldName =
     (if length (trim value) = 0 then
        Inl (InvoiceNumberingError (fieldName @ '' must not be empty.''))
      else if length value > maxInvoiceNumberingIdentifierLength then
        Inl (InvoiceNumberingError
          (fieldName @ '' must be at most '' @ showNat maxInvoiceNumberingIdentifierLength
            @ '' characters.''))
      else if \<not> (value \<noteq> [] \<and> (\<forall>c \<in> set value. isIdentifierChar c)) then
        Inl (InvoiceNumberingError (fieldName @ '' contains unsupported characters.''))
      else Inr ())"

section \<open>Dates\<close>

definition getDaysInMonth :: "number \<Rightarrow> number \<Rightarrow> number" where
  "getDaysInMonth year month =
     (if month = 2 then
        (if year mod 4 = 0 \<and> (year mod 100 \<noteq> 0 \<or> year mod 400 = 0) then 29 else 28)
      else if month \<in> {4, 6, 9, 11} then 30
      else 31)"

definition parseInvoiceDate :: "string \<Rightarrow> InvoiceDateParts result" where
  "parseInvoiceDate invoiceDate =
     (case matchDate invoiceDate of
        None \<Rightarrow> Inl (InvoiceNumberingError ''Invoice date must use YYYY-MM-DD format.'')
      | Some (y, m, d) \<Rightarrow>
          let year = int (parseDigits y); month = int (parseDigits m); day = int (parseDigits d) in
          if \<not> isSafeInteger year \<or> year < 1 then
            Inl (InvoiceNumberingError ''Invoice date year is invalid.'')
          else if \<not> isSafeInteger month \<or> month < 1 \<or> month > 12 then
            Inl (InvoiceNumberingError ''Invoice date month is invalid.'')
          else if \<not> isSafeInteger day \<or> day < 1 \<or> day > getDaysInMonth year month then
            Inl (InvoiceNumberingError ''Invoice date day is invalid.'')
          else Inr \<lparr>dp_year = year, dp_month = month, dp_day = day\<rparr>)"

section \<open>Operations\<close>

definition validateInvoiceNumberingSettings ::
    "'a InvoiceNumberingSettings_scheme \<Rightarrow> unit result" where
  "validateInvoiceNumberingSettings settings =
     andThen (requireIntegerInRange (ns_fiscalYearStartMonth settings)
               ''Fiscal year start month'' 1 12) (\<lambda>_.
     andThen (requireIntegerInRange (ns_sequencePadding settings)
               ''Sequence padding'' 0 maxSequencePadding) (\<lambda>_.
     requireIntegerInRange (ns_firstSequenceNumber settings)
       ''First sequence number'' 1 MAX_SAFE_INTEGER))"

definition validateInvoiceSequenceNumber :: "number \<Rightarrow> unit result" where
  "validateInvoiceSequenceNumber sequenceNumber =
     requireIntegerInRange sequenceNumber ''Sequence number'' 1 MAX_SAFE_INTEGER"

definition validateInvoiceNumberSeriesKey :: "string \<Rightarrow> unit result" where
  "validateInvoiceNumberSeriesKey seriesKey =
     requireNonEmptyIdentifier seriesKey ''Invoice number series key''"

definition validateInvoiceNumberSequenceScope :: "string \<Rightarrow> unit result" where
  "validateInvoiceNumberSequenceScope sequenceScope =
     requireNonEmptyIdentifier sequenceScope ''Invoice number sequence scope''"

definition getFiscalYearForInvoiceDate :: "string \<Rightarrow> number \<Rightarrow> number result" where
  "getFiscalYearForInvoiceDate invoiceDate fiscalYearStartMonth =
     andThen (requireIntegerInRange fiscalYearStartMonth ''Fiscal year start month'' 1 12) (\<lambda>_.
     andThen (parseInvoiceDate invoiceDate) (\<lambda>p.
     Inr (if dp_month p \<ge> fiscalYearStartMonth then dp_year p else dp_year p - 1)))"

definition getCalendarYearForInvoiceDate :: "string \<Rightarrow> number result" where
  "getCalendarYearForInvoiceDate invoiceDate =
     andThen (parseInvoiceDate invoiceDate) (\<lambda>p. Inr (dp_year p))"

definition resolveInvoiceNumberSequenceScope ::
    "'a InvoiceNumberingSettings_scheme \<Rightarrow> string \<Rightarrow> string result" where
  "resolveInvoiceNumberSequenceScope settings invoiceDate =
     andThen (validateInvoiceNumberingSettings settings) (\<lambda>_.
     case ns_mode settings of
       PlainSequence \<Rightarrow> Inr ''plain''
     | CalendarYearSequence \<Rightarrow>
         andThen (getCalendarYearForInvoiceDate invoiceDate) (\<lambda>year.
         Inr (''calendar-year:'' @ showInt year))
     | FiscalYearSequence \<Rightarrow>
         andThen (getFiscalYearForInvoiceDate invoiceDate (ns_fiscalYearStartMonth settings))
           (\<lambda>year. Inr (''fiscal-year:'' @ showInt year)))"

definition formatSequenceNumber :: "number \<Rightarrow> number \<Rightarrow> string result" where
  "formatSequenceNumber sequenceNumber sequencePadding =
     andThen (validateInvoiceSequenceNumber sequenceNumber) (\<lambda>_.
     andThen (requireIntegerInRange sequencePadding ''Sequence padding'' 0 maxSequencePadding) (\<lambda>_.
     Inr (padStart (nat sequencePadding) (showInt sequenceNumber))))"

definition formatInvoiceNumber ::
    "'a InvoiceNumberingSettings_scheme \<Rightarrow> string \<Rightarrow> number \<Rightarrow> string result" where
  "formatInvoiceNumber settings invoiceDate sequenceNumber =
     andThen (validateInvoiceNumberingSettings settings) (\<lambda>_.
     andThen (formatSequenceNumber sequenceNumber (ns_sequencePadding settings)) (\<lambda>sequencePart.
     case ns_mode settings of
       PlainSequence \<Rightarrow> Inr sequencePart
     | CalendarYearSequence \<Rightarrow>
         andThen (getCalendarYearForInvoiceDate invoiceDate) (\<lambda>calendarYear.
         Inr (padStart 4 (showInt calendarYear) @ sequencePart))
     | FiscalYearSequence \<Rightarrow>
         andThen (getFiscalYearForInvoiceDate invoiceDate (ns_fiscalYearStartMonth settings))
           (\<lambda>fiscalYear.
         Inr (padStart 4 (showInt fiscalYear) @ sequencePart))))"

section \<open>Facts\<close>

lemma requireIntegerInRange_ok [result_simps]:
  assumes "- MAX_SAFE_INTEGER \<le> lo" "hi \<le> MAX_SAFE_INTEGER"
  shows "requireIntegerInRange v f lo hi = Inr u \<longleftrightarrow> lo \<le> v \<and> v \<le> hi"
  using assms
  by (auto simp: requireIntegerInRange_def requireSafeInteger_def isSafeInteger_def result_simps)

definition validSettings :: "'a InvoiceNumberingSettings_scheme \<Rightarrow> bool" where
  "validSettings st \<longleftrightarrow>
     1 \<le> ns_fiscalYearStartMonth st \<and> ns_fiscalYearStartMonth st \<le> 12 \<and>
     0 \<le> ns_sequencePadding st \<and> ns_sequencePadding st \<le> 12 \<and>
     1 \<le> ns_firstSequenceNumber st \<and> ns_firstSequenceNumber st \<le> MAX_SAFE_INTEGER"

lemma validateInvoiceNumberingSettings_ok [result_simps]:
  "validateInvoiceNumberingSettings st = Inr u \<longleftrightarrow> validSettings st"
  by (auto simp: validateInvoiceNumberingSettings_def validSettings_def result_simps
      maxSequencePadding_def MAX_SAFE_INTEGER_def)

lemma validateInvoiceSequenceNumber_ok [result_simps]:
  "validateInvoiceSequenceNumber n = Inr u \<longleftrightarrow> 1 \<le> n \<and> n \<le> MAX_SAFE_INTEGER"
  by (simp add: validateInvoiceSequenceNumber_def result_simps MAX_SAFE_INTEGER_def)

definition validSeriesKey :: "string \<Rightarrow> bool" where
  "validSeriesKey s \<longleftrightarrow> trim s \<noteq> [] \<and> length s \<le> 80 \<and> (\<forall>c \<in> set s. isIdentifierChar c)"

lemma requireNonEmptyIdentifier_ok [result_simps]:
  "requireNonEmptyIdentifier s f = Inr u \<longleftrightarrow> validSeriesKey s"
  by (auto simp: requireNonEmptyIdentifier_def validSeriesKey_def
      maxInvoiceNumberingIdentifierLength_def trim_def)

text \<open>The date of a series: none in a plain sequence, else the year of the sequence.\<close>

definition validDate :: "number \<Rightarrow> number \<Rightarrow> number \<Rightarrow> bool" where
  "validDate y m d \<longleftrightarrow>
     1 \<le> y \<and> y \<le> 9999 \<and> 1 \<le> m \<and> m \<le> 12 \<and> 1 \<le> d \<and> d \<le> getDaysInMonth y m"

lemma getDaysInMonth_bounds: "28 \<le> getDaysInMonth y m" "getDaysInMonth y m \<le> 31"
  by (simp_all add: getDaysInMonth_def)

lemma parseInvoiceDate_eq_Inr:
  "parseInvoiceDate s = Inr p \<longleftrightarrow>
     (\<exists>y m d. matchDate s = Some (y, m, d) \<and>
        p = \<lparr>dp_year = int (parseDigits y), dp_month = int (parseDigits m),
             dp_day = int (parseDigits d)\<rparr> \<and>
        validDate (dp_year p) (dp_month p) (dp_day p))"
proof (cases "matchDate s")
  case None
  then show ?thesis by (simp add: parseInvoiceDate_def)
next
  case (Some t)
  obtain y m d where t: "t = (y, m, d)" by (cases t)
  have "parseDigits y < 10 ^ 4" "parseDigits m < 10 ^ 2" "parseDigits d < 10 ^ 2"
    using matchDate_digits [OF Some [unfolded t]] parseDigits_less [of y] parseDigits_less [of m]
      parseDigits_less [of d] by (auto simp: allDigits_def)
  then have "int (parseDigits y) \<le> 9999" "int (parseDigits m) \<le> 99" "int (parseDigits d) \<le> 99"
    by simp_all
  then show ?thesis
    using Some t
    by (auto simp: parseInvoiceDate_def Let_def validDate_def isSafeInteger_def MAX_SAFE_INTEGER_def)
qed

lemma parseInvoiceDate_valid:
  "parseInvoiceDate s = Inr p \<Longrightarrow> validDate (dp_year p) (dp_month p) (dp_day p)"
  by (auto simp: parseInvoiceDate_eq_Inr)

definition seriesYear :: "'a InvoiceNumberingSettings_scheme \<Rightarrow> string \<Rightarrow> number option result" where
  "seriesYear st date =
     (case ns_mode st of
        PlainSequence \<Rightarrow> Inr None
      | CalendarYearSequence \<Rightarrow> andThen (getCalendarYearForInvoiceDate date) (\<lambda>y. Inr (Some y))
      | FiscalYearSequence \<Rightarrow>
          andThen (getFiscalYearForInvoiceDate date (ns_fiscalYearStartMonth st))
            (\<lambda>y. Inr (Some y)))"

definition yearPrefix :: "number option \<Rightarrow> string" where
  "yearPrefix y = (case y of None \<Rightarrow> [] | Some y \<Rightarrow> padStart 4 (showInt y))"

definition scopeName :: "InvoiceNumberingMode \<Rightarrow> number option \<Rightarrow> string" where
  "scopeName mode y =
     (case y of
        None \<Rightarrow> ''plain''
      | Some y \<Rightarrow>
          (case mode of FiscalYearSequence \<Rightarrow> ''fiscal-year:'' | _ \<Rightarrow> ''calendar-year:'') @ showInt y)"

lemma resolveInvoiceNumberSequenceScope_eq_Inr:
  "resolveInvoiceNumberSequenceScope st date = Inr scope \<longleftrightarrow>
     validSettings st \<and> (\<exists>y. seriesYear st date = Inr y \<and> scope = scopeName (ns_mode st) y)"
  by (cases "ns_mode st")
    (auto simp: resolveInvoiceNumberSequenceScope_def result_simps seriesYear_def scopeName_def)

definition sequencePart :: "'a InvoiceNumberingSettings_scheme \<Rightarrow> number \<Rightarrow> string" where
  "sequencePart st n = padStart (nat (ns_sequencePadding st)) (showInt n)"

lemma formatSequenceNumber_eq_Inr [result_simps]:
  "formatSequenceNumber n k = Inr s \<longleftrightarrow>
     1 \<le> n \<and> n \<le> MAX_SAFE_INTEGER \<and> 0 \<le> k \<and> k \<le> 12 \<and> s = padStart (nat k) (showInt n)"
  by (auto simp: formatSequenceNumber_def result_simps maxSequencePadding_def MAX_SAFE_INTEGER_def)

lemma formatInvoiceNumber_eq_Inr:
  "formatInvoiceNumber st date n = Inr s \<longleftrightarrow>
     validSettings st \<and> 1 \<le> n \<and> n \<le> MAX_SAFE_INTEGER \<and>
     (\<exists>y. seriesYear st date = Inr y \<and> s = yearPrefix y @ sequencePart st n)"
  by (cases "ns_mode st")
    (auto simp: formatInvoiceNumber_def result_simps seriesYear_def yearPrefix_def
      sequencePart_def validSettings_def)

lemma seriesYear_range:
  assumes "seriesYear st date = Inr (Some y)"
  shows "0 \<le> y" "y \<le> 9999"
proof -
  obtain p where p: "parseInvoiceDate date = Inr p" and y: "y \<in> {dp_year p, dp_year p - 1}"
    using assms by (cases "ns_mode st")
      (auto simp: seriesYear_def result_simps getCalendarYearForInvoiceDate_def
        getFiscalYearForInvoiceDate_def split: if_splits)
  show "0 \<le> y" "y \<le> 9999" using parseInvoiceDate_valid [OF p] y by (auto simp: validDate_def)
qed

lemma seriesYear_None: "seriesYear st date = Inr y \<Longrightarrow> y = None \<longleftrightarrow> ns_mode st = PlainSequence"
  by (auto simp: seriesYear_def result_simps split: InvoiceNumberingMode.splits)

lemma length_yearPrefix: "0 \<le> y \<Longrightarrow> y \<le> 9999 \<Longrightarrow> length (padStart 4 (showInt y)) = 4"
  using length_showNat_le_iff [of 4 "nat y"] by (simp add: showInt_nonneg length_padStart)

lemma padStart_showInt_inj:
  "0 \<le> m \<Longrightarrow> 0 \<le> n \<Longrightarrow> padStart k (showInt m) = padStart k (showInt n) \<longleftrightarrow> m = n"
  by (simp add: showInt_nonneg padStart_showNat_inj eq_nat_nat_iff)

text \<open>A printed number determines its year and its position.\<close>

lemma printed_number_inj:
  assumes y: "y = None \<longleftrightarrow> y' = None" "\<And>k. y = Some k \<Longrightarrow> 0 \<le> k \<and> k \<le> 9999"
      "\<And>k. y' = Some k \<Longrightarrow> 0 \<le> k \<and> k \<le> 9999"
    and n: "0 \<le> n" "0 \<le> n'"
    and eq: "yearPrefix y @ sequencePart st n = yearPrefix y' @ sequencePart st n'"
  shows "y = y' \<and> n = n'"
proof (cases y)
  case None
  with y(1) have y': "y' = None" by simp
  with None eq n show ?thesis by (simp add: yearPrefix_def sequencePart_def padStart_showInt_inj)
next
  case (Some k)
  with y(1) obtain k' where k': "y' = Some k'" by (cases y') simp_all
  note r = y(2) [OF Some] y(3) [OF k']
  have "length (yearPrefix y) = length (yearPrefix y')"
    using Some k' r by (simp add: yearPrefix_def length_yearPrefix)
  with eq have "yearPrefix y = yearPrefix y'" "sequencePart st n = sequencePart st n'" by simp_all
  then show ?thesis
    using Some k' r n by (simp add: yearPrefix_def sequencePart_def padStart_showInt_inj)
qed

lemma formatInvoiceNumber_inj:
  assumes "formatInvoiceNumber st date n = Inr s" "formatInvoiceNumber st date' n' = Inr s"
  shows "n = n'" and "seriesYear st date = seriesYear st date'"
proof -
  obtain y y' where y: "seriesYear st date = Inr y" "s = yearPrefix y @ sequencePart st n"
    and y': "seriesYear st date' = Inr y'" "s = yearPrefix y' @ sequencePart st n'"
    and n: "0 \<le> n" "0 \<le> n'"
    using assms by (auto simp: formatInvoiceNumber_eq_Inr)
  have "y = None \<longleftrightarrow> y' = None" using seriesYear_None y(1) y'(1) by blast
  moreover have "yearPrefix y @ sequencePart st n = yearPrefix y' @ sequencePart st n'"
    using y(2) y'(2) by simp
  ultimately have "y = y' \<and> n = n'"
    using seriesYear_range [of st date] seriesYear_range [of st date'] y(1) y'(1) n
    by (intro printed_number_inj) auto
  with y(1) y'(1) show "n = n'" "seriesYear st date = seriesYear st date'" by simp_all
qed

text \<open>Two dates of a series are in one scope exactly when they are in one year of it.\<close>

lemma scopeName_inj:
  assumes "y = None \<longleftrightarrow> y' = None" "\<And>k. y = Some k \<Longrightarrow> 0 \<le> k" "\<And>k. y' = Some k \<Longrightarrow> 0 \<le> k"
  shows "scopeName mode y = scopeName mode y' \<longleftrightarrow> y = y'"
  using assms
  by (cases y; cases y')
    (auto simp: scopeName_def showInt_nonneg showNat_inj eq_nat_nat_iff split: InvoiceNumberingMode.splits)

lemma formatInvoiceNumber_digits:
  assumes "formatInvoiceNumber st date n = Inr s"
  shows "allDigits s"
proof -
  obtain y where y: "seriesYear st date = Inr y" "s = yearPrefix y @ sequencePart st n" "0 \<le> n"
    using assms by (auto simp: formatInvoiceNumber_eq_Inr)
  have "allDigits (sequencePart st n)" using y(3) by (simp add: sequencePart_def showInt_nonneg)
  moreover have "\<forall>c \<in> set (yearPrefix y). isDigit c"
  proof (cases y)
    case None
    then show ?thesis by (simp add: yearPrefix_def)
  next
    case (Some k)
    then have "0 \<le> k" using seriesYear_range y(1) by blast
    then have "allDigits (padStart 4 (showInt k))" by (simp add: showInt_nonneg)
    with Some show ?thesis by (simp add: yearPrefix_def allDigits_def)
  qed
  ultimately show ?thesis unfolding y(2) by (auto simp: allDigits_def)
qed

end
