(* ===== verification/NumberingStore.thy ===== *)
theory NumberingStore
  imports SqlTable Numbering
begin

text \<open>
  The tables of the invoice numbering and the repository that reads and writes the
  numbering settings and the number sequences
  (\<open>infrastructure/sqliteInvoiceNumberingRepository.ts\<close> with
  \<open>infrastructure/invoiceSettingsAuditPersistence.ts\<close>). A statement is the table operation
  its SQL text denotes; a transaction that throws leaves the database as it was, so a
  method is a function from a database to an error or the new database and a result. The
  triggers and constraints of the schema that can refuse a statement are part of the
  statement: used settings are immutable (migration 038), an event id is unique, the
  columns of an audit event have bounded lengths (migration 036).
\<close>

section \<open>Rows\<close>

record InvoiceNumberingSettingsRow =
  rs_company_id :: string
  rs_series_key :: string
  rs_mode :: InvoiceNumberingMode
  rs_fiscal_year_start_month :: number
  rs_sequence_padding :: number
  rs_first_sequence_number :: number
  rs_created_at :: string
  rs_updated_at :: string

record InvoiceNumberSequenceRow =
  rq_company_id :: string
  rq_series_key :: string
  rq_sequence_scope :: string
  rq_last_sequence_number :: number
  rq_created_at :: string
  rq_updated_at :: string

record InvoiceNumberingActiveSeriesRow =
  ra_company_id :: string
  ra_active_series_key :: string
  ra_revision :: number
  ra_updated_at :: string
  ra_updated_by :: string

record InvoiceNumberingSeriesEventRow =
  re_id :: string
  re_company_id :: string
  re_actor_user_id :: string
  re_previous_series_key :: string
  re_next_series_key :: string
  re_reason_code :: string
  re_reason_note :: "string option"
  re_occurred_at :: string

text \<open>The numbering columns of the table of invoices.\<close>

record InvoiceNumberColumns =
  ri_company_id :: string
  ri_invoice_number :: string
  ri_series_key :: string
  ri_sequence_scope :: string
  ri_sequence_number :: number

record InvoiceSettingsAuditEvent =
  ae_action :: string
  ae_actorUserId :: string
  ae_companyId :: string
  ae_id :: string
  ae_occurredAt :: string
  ae_outcome :: string

record NumberingDatabase =
  db_settings :: "InvoiceNumberingSettingsRow list"
  db_sequences :: "InvoiceNumberSequenceRow list"
  db_activeSeries :: "InvoiceNumberingActiveSeriesRow list"
  db_seriesEvents :: "InvoiceNumberingSeriesEventRow list"
  db_invoices :: "InvoiceNumberColumns list"
  db_settingsAudit :: "InvoiceSettingsAuditEvent list"

text \<open>Primary keys, and the columns an upsert sets.\<close>

definition settingsKey :: "InvoiceNumberingSettingsRow \<Rightarrow> string \<times> string" where
  "settingsKey r = (rs_company_id r, rs_series_key r)"

definition sequenceKey :: "InvoiceNumberSequenceRow \<Rightarrow> string \<times> string \<times> string" where
  "sequenceKey r = (rq_company_id r, rq_series_key r, rq_sequence_scope r)"

definition mergeSettings ::
    "InvoiceNumberingSettingsRow \<Rightarrow> InvoiceNumberingSettingsRow \<Rightarrow> InvoiceNumberingSettingsRow" where
  "mergeSettings old excluded =
     old\<lparr>rs_mode := rs_mode excluded,
         rs_fiscal_year_start_month := rs_fiscal_year_start_month excluded,
         rs_sequence_padding := rs_sequence_padding excluded,
         rs_first_sequence_number := rs_first_sequence_number excluded,
         rs_updated_at := rs_updated_at excluded\<rparr>"

definition mergeSequence ::
    "InvoiceNumberSequenceRow \<Rightarrow> InvoiceNumberSequenceRow \<Rightarrow> InvoiceNumberSequenceRow" where
  "mergeSequence old excluded =
     old\<lparr>rq_last_sequence_number := rq_last_sequence_number excluded,
         rq_updated_at := rq_updated_at excluded\<rparr>"

interpretation settingsTable: keyed_table settingsKey mergeSettings
  by unfold_locales (simp add: settingsKey_def mergeSettings_def)

interpretation sequenceTable: keyed_table sequenceKey mergeSequence
  by unfold_locales (simp add: sequenceKey_def mergeSequence_def)

section \<open>Row conversions\<close>

definition requireCompanyId :: "string \<Rightarrow> unit result" where
  "requireCompanyId companyId =
     (if length (trim companyId) = 0
      then Inl (InvoiceNumberingError ''Company id must not be empty.'') else Inr ())"

definition validateStoredInvoiceNumberingSettings ::
    "StoredInvoiceNumberingSettings \<Rightarrow> unit result" where
  "validateStoredInvoiceNumberingSettings settings =
     andThen (requireCompanyId (ns_companyId settings)) (\<lambda>_.
     andThen (validateInvoiceNumberSeriesKey (ns_seriesKey settings)) (\<lambda>_.
     validateInvoiceNumberingSettings settings))"

definition validateInvoiceNumberSequenceState :: "InvoiceNumberSequenceState \<Rightarrow> unit result" where
  "validateInvoiceNumberSequenceState sequence =
     andThen (requireCompanyId (sq_companyId sequence)) (\<lambda>_.
     andThen (validateInvoiceNumberSeriesKey (sq_seriesKey sequence)) (\<lambda>_.
     andThen (validateInvoiceNumberSequenceScope (sq_sequenceScope sequence)) (\<lambda>_.
     validateInvoiceSequenceNumber (sq_lastSequenceNumber sequence))))"

definition toInvoiceNumberingSettingsRow ::
    "StoredInvoiceNumberingSettings \<Rightarrow> InvoiceNumberingSettingsRow" where
  "toInvoiceNumberingSettingsRow settings =
     \<lparr>rs_company_id = ns_companyId settings, rs_series_key = ns_seriesKey settings,
      rs_mode = ns_mode settings,
      rs_fiscal_year_start_month = ns_fiscalYearStartMonth settings,
      rs_sequence_padding = ns_sequencePadding settings,
      rs_first_sequence_number = ns_firstSequenceNumber settings,
      rs_created_at = ns_createdAt settings, rs_updated_at = ns_updatedAt settings\<rparr>"

definition toStoredInvoiceNumberingSettings ::
    "InvoiceNumberingSettingsRow \<Rightarrow> StoredInvoiceNumberingSettings" where
  "toStoredInvoiceNumberingSettings row =
     \<lparr>ns_mode = rs_mode row, ns_fiscalYearStartMonth = rs_fiscal_year_start_month row,
      ns_sequencePadding = rs_sequence_padding row,
      ns_firstSequenceNumber = rs_first_sequence_number row,
      ns_companyId = rs_company_id row, ns_seriesKey = rs_series_key row,
      ns_createdAt = rs_created_at row, ns_updatedAt = rs_updated_at row\<rparr>"

definition toInvoiceNumberSequenceRow :: "InvoiceNumberSequenceState \<Rightarrow> InvoiceNumberSequenceRow" where
  "toInvoiceNumberSequenceRow sequence =
     \<lparr>rq_company_id = sq_companyId sequence, rq_series_key = sq_seriesKey sequence,
      rq_sequence_scope = sq_sequenceScope sequence,
      rq_last_sequence_number = sq_lastSequenceNumber sequence,
      rq_created_at = sq_createdAt sequence, rq_updated_at = sq_updatedAt sequence\<rparr>"

definition toInvoiceNumberSequenceState :: "InvoiceNumberSequenceRow \<Rightarrow> InvoiceNumberSequenceState" where
  "toInvoiceNumberSequenceState row =
     \<lparr>sq_companyId = rq_company_id row, sq_seriesKey = rq_series_key row,
      sq_sequenceScope = rq_sequence_scope row,
      sq_lastSequenceNumber = rq_last_sequence_number row,
      sq_createdAt = rq_created_at row, sq_updatedAt = rq_updated_at row\<rparr>"

section \<open>Audit events of settings\<close>

definition createInvoiceSettingsAuditEvent ::
    "string \<Rightarrow> string \<Rightarrow> string \<Rightarrow> string \<Rightarrow> string \<Rightarrow> InvoiceSettingsAuditEvent" where
  "createInvoiceSettingsAuditEvent randomUUID action actorUserId companyId occurredAt =
     \<lparr>ae_action = action, ae_actorUserId = actorUserId, ae_companyId = companyId,
      ae_id = randomUUID, ae_occurredAt = occurredAt, ae_outcome = ''success''\<rparr>"

definition validateAuditEvent ::
    "InvoiceSettingsAuditEvent \<Rightarrow> string \<Rightarrow> string \<Rightarrow> unit result" where
  "validateAuditEvent event expectedAction expectedCompanyId =
     (if length (trim (ae_id event)) = 0 \<or>
         length (trim (ae_companyId event)) = 0 \<or>
         length (trim (ae_actorUserId event)) = 0 \<or>
         length (trim (ae_occurredAt event)) = 0 \<or>
         ae_outcome event \<noteq> ''success'' \<or>
         ae_action event \<noteq> expectedAction \<or>
         ae_companyId event \<noteq> expectedCompanyId
      then Inl InvoiceSettingsAuditWriteError else Inr ())"

text \<open>The constraints of the table of audit events.\<close>

definition auditRowAccepted :: "InvoiceSettingsAuditEvent list \<Rightarrow> InvoiceSettingsAuditEvent \<Rightarrow> bool" where
  "auditRowAccepted rows e \<longleftrightarrow>
     ae_id e \<notin> ae_id ` set rows \<and> length (ae_id e) \<in> {1 .. 200} \<and>
     length (ae_companyId e) \<in> {1 .. 200} \<and> length (ae_actorUserId e) \<in> {1 .. 200} \<and>
     ae_action e \<in> {''invoiceVatRates.updated'', ''invoiceNumberingSettings.updated'',
       ''invoicePaymentSettings.updated''} \<and>
     ae_outcome e = ''success'' \<and> length (ae_occurredAt e) \<in> {20 .. 40}"

definition insertInvoiceSettingsAuditEvent ::
    "NumberingDatabase \<Rightarrow> InvoiceSettingsAuditEvent \<Rightarrow> string \<Rightarrow> string \<Rightarrow> NumberingDatabase result" where
  "insertInvoiceSettingsAuditEvent db event expectedAction expectedCompanyId =
     andThen (validateAuditEvent event expectedAction expectedCompanyId) (\<lambda>_.
     if auditRowAccepted (db_settingsAudit db) event
     then Inr (db\<lparr>db_settingsAudit := db_settingsAudit db @ [event]\<rparr>)
     else Inl InvoiceSettingsAuditWriteError)"

section \<open>Settings\<close>

definition getSettings ::
    "NumberingDatabase \<Rightarrow> string \<Rightarrow> string \<Rightarrow> StoredInvoiceNumberingSettings option" where
  "getSettings db companyId seriesKey =
     (case rowWith settingsKey (companyId, seriesKey) (db_settings db) of
        None \<Rightarrow> None
      | Some row \<Rightarrow> Some (toStoredInvoiceNumberingSettings row))"

text \<open>The condition of the trigger on updates and deletions of settings.\<close>

definition settingsAreUsed :: "NumberingDatabase \<Rightarrow> string \<Rightarrow> string \<Rightarrow> bool" where
  "settingsAreUsed db companyId seriesKey \<longleftrightarrow>
     (\<exists>r \<in> set (db_sequences db). rq_company_id r = companyId \<and> rq_series_key r = seriesKey) \<or>
     (\<exists>r \<in> set (db_invoices db). ri_company_id r = companyId \<and> ri_series_key r = seriesKey) \<or>
     (\<exists>r \<in> set (db_seriesEvents db). re_company_id r = companyId \<and>
        (re_previous_series_key r = seriesKey \<or> re_next_series_key r = seriesKey))"

definition upsertSettings ::
    "NumberingDatabase \<Rightarrow> InvoiceNumberingSettingsRow \<Rightarrow> NumberingDatabase result" where
  "upsertSettings db row =
     (if rowWith settingsKey (settingsKey row) (db_settings db) \<noteq> None \<and>
         settingsAreUsed db (rs_company_id row) (rs_series_key row)
      then Inl (SqliteError ''Used invoice numbering settings are immutable.'')
      else Inr (db\<lparr>db_settings := upsertRow settingsKey mergeSettings row (db_settings db)\<rparr>))"

definition saveSettings ::
    "NumberingDatabase \<Rightarrow> StoredInvoiceNumberingSettings \<Rightarrow> InvoiceSettingsAuditEvent \<Rightarrow>
     (NumberingDatabase \<times> StoredInvoiceNumberingSettings) result" where
  "saveSettings db settings auditEvent =
     andThen (validateStoredInvoiceNumberingSettings settings) (\<lambda>_.
     let row = toInvoiceNumberingSettingsRow settings in
     andThen (upsertSettings db row) (\<lambda>saved.
     let active =
       (if ns_seriesKey settings = defaultInvoiceNumberSeriesKey
        then saved\<lparr>db_activeSeries :=
          insertIgnore ra_company_id
            \<lparr>ra_company_id = ns_companyId settings, ra_active_series_key = ns_seriesKey settings,
             ra_revision = 1, ra_updated_at = ns_updatedAt settings,
             ra_updated_by = ae_actorUserId auditEvent\<rparr>
            (db_activeSeries saved)\<rparr>
        else saved) in
     andThen (insertInvoiceSettingsAuditEvent active auditEvent
               ''invoiceNumberingSettings.updated'' (ns_companyId settings)) (\<lambda>db'.
     case getSettings db' (ns_companyId settings) (ns_seriesKey settings) of
       None \<Rightarrow> Inl (InvoiceNumberingError ''Saved invoice numbering settings were not found.'')
     | Some savedSettings \<Rightarrow> Inr (db', savedSettings))))"

definition hasUsedNumbering :: "NumberingDatabase \<Rightarrow> string \<Rightarrow> string \<Rightarrow> bool" where
  "hasUsedNumbering db companyId seriesKey \<longleftrightarrow>
     length (filter (\<lambda>r. rq_company_id r = companyId \<and> rq_series_key r = seriesKey)
       (db_sequences db)) > 0"

section \<open>Sequences\<close>

definition getSequence ::
    "NumberingDatabase \<Rightarrow> string \<Rightarrow> string \<Rightarrow> string \<Rightarrow> InvoiceNumberSequenceState option" where
  "getSequence db companyId seriesKey sequenceScope =
     (case rowWith sequenceKey (companyId, seriesKey, sequenceScope) (db_sequences db) of
        None \<Rightarrow> None
      | Some row \<Rightarrow> Some (toInvoiceNumberSequenceState row))"

text \<open>A sequence refers to the settings of its series by a foreign key.\<close>

definition upsertNumberSequence ::
    "NumberingDatabase \<Rightarrow> InvoiceNumberSequenceRow \<Rightarrow> NumberingDatabase result" where
  "upsertNumberSequence db row =
     (if rowWith settingsKey (rq_company_id row, rq_series_key row) (db_settings db) = None
      then Inl (SqliteError ''FOREIGN KEY constraint failed'')
      else Inr (db\<lparr>db_sequences := upsertRow sequenceKey mergeSequence row (db_sequences db)\<rparr>))"

definition saveSequence ::
    "NumberingDatabase \<Rightarrow> InvoiceNumberSequenceState \<Rightarrow>
     (NumberingDatabase \<times> InvoiceNumberSequenceState) result" where
  "saveSequence db sequence =
     andThen (validateInvoiceNumberSequenceState sequence) (\<lambda>_.
     andThen (upsertNumberSequence db (toInvoiceNumberSequenceRow sequence)) (\<lambda>db'.
     case getSequence db' (sq_companyId sequence) (sq_seriesKey sequence)
            (sq_sequenceScope sequence) of
       None \<Rightarrow> Inl (InvoiceNumberingError ''Saved invoice number sequence was not found.'')
     | Some savedSequence \<Rightarrow> Inr (db', savedSequence)))"

section \<open>What the repository stores\<close>

lemma stored_settings_roundtrip [simp]:
  "toStoredInvoiceNumberingSettings (toInvoiceNumberingSettingsRow s) = s"
  by (simp add: toStoredInvoiceNumberingSettings_def toInvoiceNumberingSettingsRow_def)

lemma stored_sequence_roundtrip [simp]:
  "toInvoiceNumberSequenceState (toInvoiceNumberSequenceRow q) = q"
  by (simp add: toInvoiceNumberSequenceState_def toInvoiceNumberSequenceRow_def)

lemma requireCompanyId_ok [result_simps]: "requireCompanyId c = Inr u \<longleftrightarrow> trim c \<noteq> []"
  by (simp add: requireCompanyId_def)

lemma validateStoredInvoiceNumberingSettings_ok [result_simps]:
  "validateStoredInvoiceNumberingSettings s = Inr u \<longleftrightarrow>
     trim (ns_companyId s) \<noteq> [] \<and> validSeriesKey (ns_seriesKey s) \<and> validSettings s"
  by (auto simp: validateStoredInvoiceNumberingSettings_def result_simps
      validateInvoiceNumberSeriesKey_def)

lemma validateInvoiceNumberSequenceState_ok [result_simps]:
  "validateInvoiceNumberSequenceState q = Inr u \<longleftrightarrow>
     trim (sq_companyId q) \<noteq> [] \<and> validSeriesKey (sq_seriesKey q) \<and>
     validSeriesKey (sq_sequenceScope q) \<and>
     1 \<le> sq_lastSequenceNumber q \<and> sq_lastSequenceNumber q \<le> MAX_SAFE_INTEGER"
  by (auto simp: validateInvoiceNumberSequenceState_def result_simps
      validateInvoiceNumberSeriesKey_def validateInvoiceNumberSequenceScope_def)

lemma getSettings_key:
  "getSettings db c k = Some s \<Longrightarrow> ns_companyId s = c \<and> ns_seriesKey s = k"
  by (auto simp: getSettings_def toStoredInvoiceNumberingSettings_def settingsKey_def
      split: option.splits dest!: rowWith_Some)

lemma getSequence_key:
  "getSequence db c k sc = Some q \<Longrightarrow>
     sq_companyId q = c \<and> sq_seriesKey q = k \<and> sq_sequenceScope q = sc"
  by (auto simp: getSequence_def toInvoiceNumberSequenceState_def sequenceKey_def
      split: option.splits dest!: rowWith_Some)

text \<open>A saved value keeps the creation time of the row it replaces.\<close>

definition replacedSettings ::
    "StoredInvoiceNumberingSettings option \<Rightarrow> StoredInvoiceNumberingSettings
     \<Rightarrow> StoredInvoiceNumberingSettings" where
  "replacedSettings old new =
     (case old of None \<Rightarrow> new | Some o' \<Rightarrow> new\<lparr>ns_createdAt := ns_createdAt o'\<rparr>)"

definition replacedSequence ::
    "InvoiceNumberSequenceState option \<Rightarrow> InvoiceNumberSequenceState
     \<Rightarrow> InvoiceNumberSequenceState" where
  "replacedSequence old new =
     (case old of None \<Rightarrow> new | Some o' \<Rightarrow> new\<lparr>sq_createdAt := sq_createdAt o'\<rparr>)"

lemma getSettings_row:
  "getSettings db c k =
     map_option toStoredInvoiceNumberingSettings (rowWith settingsKey (c, k) (db_settings db))"
  by (simp add: getSettings_def option.case_eq_if map_option_case)

lemma getSequence_row:
  "getSequence db c k sc =
     map_option toInvoiceNumberSequenceState (rowWith sequenceKey (c, k, sc) (db_sequences db))"
  by (simp add: getSequence_def option.case_eq_if map_option_case)

lemma merged_settings:
  "settingsKey r = (ns_companyId s, ns_seriesKey s) \<Longrightarrow>
     toStoredInvoiceNumberingSettings (mergeSettings r (toInvoiceNumberingSettingsRow s)) =
     replacedSettings (Some (toStoredInvoiceNumberingSettings r)) s"
  by (simp add: settingsKey_def toStoredInvoiceNumberingSettings_def mergeSettings_def
      toInvoiceNumberingSettingsRow_def replacedSettings_def)

lemma merged_sequence:
  "sequenceKey r = (sq_companyId q, sq_seriesKey q, sq_sequenceScope q) \<Longrightarrow>
     toInvoiceNumberSequenceState (mergeSequence r (toInvoiceNumberSequenceRow q)) =
     replacedSequence (Some (toInvoiceNumberSequenceState r)) q"
  by (simp add: sequenceKey_def toInvoiceNumberSequenceState_def mergeSequence_def
      toInvoiceNumberSequenceRow_def replacedSequence_def)

lemma key_rows [simp]:
  "settingsKey (toInvoiceNumberingSettingsRow s) = (ns_companyId s, ns_seriesKey s)"
  "sequenceKey (toInvoiceNumberSequenceRow q) = (sq_companyId q, sq_seriesKey q, sq_sequenceScope q)"
  by (simp_all add: settingsKey_def toInvoiceNumberingSettingsRow_def sequenceKey_def
      toInvoiceNumberSequenceRow_def)

lemma getSettings_upserted:
  assumes "db_settings db' = upsertRow settingsKey mergeSettings
      (toInvoiceNumberingSettingsRow s) (db_settings db)"
  shows "getSettings db' c k =
    (if c = ns_companyId s \<and> k = ns_seriesKey s
     then Some (replacedSettings (getSettings db c k) s) else getSettings db c k)"
proof (cases "rowWith settingsKey (c, k) (db_settings db)")
  case None
  then show ?thesis
    by (auto simp: getSettings_row assms settingsTable.rowWith_upsert replacedSettings_def)
next
  case (Some r)
  with rowWith_Some [OF Some] merged_settings [of r s] show ?thesis
    by (auto simp: getSettings_row assms settingsTable.rowWith_upsert)
qed

lemma getSequence_upserted:
  assumes "db_sequences db' = upsertRow sequenceKey mergeSequence
      (toInvoiceNumberSequenceRow q) (db_sequences db)"
  shows "getSequence db' c k sc =
    (if c = sq_companyId q \<and> k = sq_seriesKey q \<and> sc = sq_sequenceScope q
     then Some (replacedSequence (getSequence db c k sc) q) else getSequence db c k sc)"
proof (cases "rowWith sequenceKey (c, k, sc) (db_sequences db)")
  case None
  then show ?thesis
    by (auto simp: getSequence_row assms sequenceTable.rowWith_upsert replacedSequence_def)
next
  case (Some r)
  with rowWith_Some [OF Some] merged_sequence [of r q] show ?thesis
    by (auto simp: getSequence_row assms sequenceTable.rowWith_upsert)
qed

lemma upsertSettings_eq_Inr:
  "upsertSettings db (toInvoiceNumberingSettingsRow s) = Inr db' \<longleftrightarrow>
     \<not> (getSettings db (ns_companyId s) (ns_seriesKey s) \<noteq> None \<and>
        settingsAreUsed db (ns_companyId s) (ns_seriesKey s)) \<and>
     db' = db\<lparr>db_settings := upsertRow settingsKey mergeSettings
       (toInvoiceNumberingSettingsRow s) (db_settings db)\<rparr>"
proof -
  have "rs_company_id (toInvoiceNumberingSettingsRow s) = ns_companyId s"
    "rs_series_key (toInvoiceNumberingSettingsRow s) = ns_seriesKey s"
    by (simp_all add: toInvoiceNumberingSettingsRow_def)
  then show ?thesis by (auto simp: upsertSettings_def getSettings_row)
qed

lemma upsertNumberSequence_eq_Inr:
  "upsertNumberSequence db (toInvoiceNumberSequenceRow q) = Inr db' \<longleftrightarrow>
     getSettings db (sq_companyId q) (sq_seriesKey q) \<noteq> None \<and>
     db' = db\<lparr>db_sequences := upsertRow sequenceKey mergeSequence
       (toInvoiceNumberSequenceRow q) (db_sequences db)\<rparr>"
proof -
  have "rq_company_id (toInvoiceNumberSequenceRow q) = sq_companyId q"
    "rq_series_key (toInvoiceNumberSequenceRow q) = sq_seriesKey q"
    by (simp_all add: toInvoiceNumberSequenceRow_def)
  then show ?thesis by (auto simp: upsertNumberSequence_def getSettings_row)
qed

lemma saveSequence_eq_Inr:
  "saveSequence db q = Inr (db', q') \<longleftrightarrow>
     validateInvoiceNumberSequenceState q = Inr () \<and>
     upsertNumberSequence db (toInvoiceNumberSequenceRow q) = Inr db' \<and>
     q' = replacedSequence (getSequence db (sq_companyId q) (sq_seriesKey q) (sq_sequenceScope q)) q"
proof -
  have "getSequence x (sq_companyId q) (sq_seriesKey q) (sq_sequenceScope q) =
      Some (replacedSequence (getSequence db (sq_companyId q) (sq_seriesKey q) (sq_sequenceScope q)) q)"
    if "upsertNumberSequence db (toInvoiceNumberSequenceRow q) = Inr x" for x
    using that getSequence_upserted [of x q db] by (auto simp: upsertNumberSequence_eq_Inr)
  then show ?thesis by (auto simp: saveSequence_def andThen_eq_Inr)
qed

lemma insertAudit_eq_Inr:
  "insertInvoiceSettingsAuditEvent db e a c = Inr db' \<longleftrightarrow>
     validateAuditEvent e a c = Inr () \<and> auditRowAccepted (db_settingsAudit db) e \<and>
     db' = db\<lparr>db_settingsAudit := db_settingsAudit db @ [e]\<rparr>"
  by (auto simp: insertInvoiceSettingsAuditEvent_def result_simps)

text \<open>The database after saving settings.\<close>

definition savedSettingsDatabase ::
    "NumberingDatabase \<Rightarrow> StoredInvoiceNumberingSettings \<Rightarrow> InvoiceSettingsAuditEvent
     \<Rightarrow> NumberingDatabase" where
  "savedSettingsDatabase db s e =
     db\<lparr>db_settings := upsertRow settingsKey mergeSettings (toInvoiceNumberingSettingsRow s)
          (db_settings db),
        db_activeSeries :=
          (if ns_seriesKey s = defaultInvoiceNumberSeriesKey
           then insertIgnore ra_company_id
             \<lparr>ra_company_id = ns_companyId s, ra_active_series_key = ns_seriesKey s,
              ra_revision = 1, ra_updated_at = ns_updatedAt s, ra_updated_by = ae_actorUserId e\<rparr>
             (db_activeSeries db)
           else db_activeSeries db),
        db_settingsAudit := db_settingsAudit db @ [e]\<rparr>"

lemma saveSettings_eq_Inr:
  "saveSettings db s e = Inr (db', s') \<longleftrightarrow>
     validateStoredInvoiceNumberingSettings s = Inr () \<and>
     \<not> (getSettings db (ns_companyId s) (ns_seriesKey s) \<noteq> None \<and>
        settingsAreUsed db (ns_companyId s) (ns_seriesKey s)) \<and>
     validateAuditEvent e ''invoiceNumberingSettings.updated'' (ns_companyId s) = Inr () \<and>
     auditRowAccepted (db_settingsAudit db) e \<and>
     db' = savedSettingsDatabase db s e \<and>
     s' = replacedSettings (getSettings db (ns_companyId s) (ns_seriesKey s)) s"
proof -
  have "getSettings (savedSettingsDatabase db s e) (ns_companyId s) (ns_seriesKey s) =
      Some (replacedSettings (getSettings db (ns_companyId s) (ns_seriesKey s)) s)"
    using getSettings_upserted [of "savedSettingsDatabase db s e" s db "ns_companyId s" "ns_seriesKey s"]
    by (simp add: savedSettingsDatabase_def)
  then show ?thesis
    unfolding saveSettings_def Let_def andThen_eq_Inr upsertSettings_eq_Inr insertAudit_eq_Inr
    by (auto simp: savedSettingsDatabase_def)
qed

end
