(* ===== verification/Actor.thy ===== *)
theory Actor
  imports JsStrings
begin

text \<open>
  The permissions and auth packages: the permission values, the check every application
  function with a side effect starts with, and the constructor of the actor context, which
  takes untyped values (\<open>JsValue\<close>: a string, an array, or anything else).
\<close>

datatype JsValue = JsString string | JsArray "JsValue list" | JsOther

section \<open>Permissions\<close>

type_synonym Permission = string

definition permissionValues :: "Permission list" where
  "permissionValues =
     [''manageCompanySettings'', ''manageInvoiceSettings'', ''manageInvoiceNumberingSeries'',
      ''manageInvoiceCorrections'', ''manageInvoicePayments'', ''manageCompanyEmailSettings'',
      ''manageCompanyEmailSecret'', ''sendInvoices'', ''viewActivity'', ''viewDiagnostics'',
      ''createSupportBundle'']"

definition isPermission :: "JsValue \<Rightarrow> bool" where
  "isPermission v = (case v of JsString s \<Rightarrow> s \<in> set permissionValues | _ \<Rightarrow> False)"

record ActorContext =
  ac_actorId :: string
  ac_authenticationMode :: string
  ac_companyId :: string
  ac_permissions :: "Permission list"

definition requirePermission :: "ActorContext \<Rightarrow> Permission \<Rightarrow> unit result" where
  "requirePermission context' requiredPermission =
     (if \<not> isPermission (JsString requiredPermission) \<or>
         requiredPermission \<notin> set (ac_permissions context')
      then Inl AuthorizationError else Inr ())"

lemma requirePermission_ok [result_simps]:
  "requirePermission c p = Inr u \<longleftrightarrow> p \<in> set permissionValues \<and> p \<in> set (ac_permissions c)"
  by (auto simp: requirePermission_def isPermission_def)

section \<open>Actor contexts\<close>

definition authenticationModeValues :: "string list" where
  "authenticationModeValues = [''local'', ''firebase'']"

definition isAuthenticationMode :: "JsValue \<Rightarrow> bool" where
  "isAuthenticationMode v =
     (case v of JsString s \<Rightarrow> s \<in> set authenticationModeValues | _ \<Rightarrow> False)"

definition maximumIdentifierLength :: nat where
  "maximumIdentifierLength = 200"

text \<open>The class \<open>[\u0000-\u001f\u007f]\<close>.\<close>

definition isControlChar :: "char \<Rightarrow> bool" where
  "isControlChar c \<longleftrightarrow> code c \<le> 31 \<or> code c = 127"

record CreateActorContextInput =
  ai_actorId :: JsValue
  ai_authenticationMode :: JsValue
  ai_companyId :: JsValue
  ai_permissions :: JsValue

definition normalizeIdentifier :: "JsValue \<Rightarrow> string \<Rightarrow> string result" where
  "normalizeIdentifier v fieldName =
     (case v of
        JsString s \<Rightarrow>
          let normalizedValue = trim s in
          if length normalizedValue = 0 then
            Inl (ActorContextValidationError (fieldName @ '' is required.''))
          else if length normalizedValue > maximumIdentifierLength then
            Inl (ActorContextValidationError
              (fieldName @ '' must be '' @ showNat maximumIdentifierLength @ '' characters or less.''))
          else if \<exists>c \<in> set normalizedValue. isControlChar c then
            Inl (ActorContextValidationError
              (fieldName @ '' contains unsupported control characters.''))
          else Inr normalizedValue
      | _ \<Rightarrow> Inl (ActorContextValidationError (fieldName @ '' must be text.'')))"

definition normalizeAuthenticationMode :: "JsValue \<Rightarrow> string result" where
  "normalizeAuthenticationMode v =
     (if \<not> isAuthenticationMode v then
        Inl (ActorContextValidationError ''Authentication mode is not supported.'')
      else (case v of JsString s \<Rightarrow> Inr s | _ \<Rightarrow> Inr []))"

definition normalizePermissions :: "JsValue \<Rightarrow> Permission list result" where
  "normalizePermissions v =
     (case v of
        JsArray vs \<Rightarrow>
          mapR (\<lambda>permission.
            if \<not> isPermission permission then
              Inl (ActorContextValidationError ''Permissions contain an unsupported value.'')
            else (case permission of JsString s \<Rightarrow> Inr s | _ \<Rightarrow> Inr [])) vs
      | _ \<Rightarrow> Inl (ActorContextValidationError ''Permissions must be a list.''))"

definition createActorContext :: "CreateActorContextInput \<Rightarrow> ActorContext result" where
  "createActorContext input =
     andThen (normalizePermissions (ai_permissions input)) (\<lambda>permissions.
     andThen (normalizeIdentifier (ai_actorId input) ''Actor id'') (\<lambda>actorId.
     andThen (normalizeAuthenticationMode (ai_authenticationMode input)) (\<lambda>mode.
     andThen (normalizeIdentifier (ai_companyId input) ''Company id'') (\<lambda>companyId.
     Inr \<lparr>ac_actorId = actorId, ac_authenticationMode = mode, ac_companyId = companyId,
          ac_permissions = permissions\<rparr>))))"

text \<open>An identifier of a context is trimmed, not empty, short and free of control characters.\<close>

definition validIdentifier :: "string \<Rightarrow> bool" where
  "validIdentifier s \<longleftrightarrow>
     trimmed s \<and> s \<noteq> [] \<and> length s \<le> 200 \<and> (\<forall>c \<in> set s. \<not> isControlChar c)"

lemma normalizeIdentifier_eq_Inr [result_simps]:
  "normalizeIdentifier v f = Inr s \<longleftrightarrow>
     (\<exists>t. v = JsString t \<and> s = trim t \<and> validIdentifier s)"
  by (cases v)
    (auto simp: normalizeIdentifier_def Let_def validIdentifier_def maximumIdentifierLength_def)

lemma normalizeAuthenticationMode_eq_Inr [result_simps]:
  "normalizeAuthenticationMode v = Inr s \<longleftrightarrow> v = JsString s \<and> s \<in> set authenticationModeValues"
  by (cases v) (auto simp: normalizeAuthenticationMode_def isAuthenticationMode_def)

lemma normalizePermissions_eq_Inr [result_simps]:
  "normalizePermissions v = Inr ps \<longleftrightarrow>
     v = JsArray (map JsString ps) \<and> set ps \<subseteq> set permissionValues"
proof (cases v)
  case (JsArray vs)
  let ?f = "\<lambda>p. if \<not> isPermission p then
      Inl (ActorContextValidationError ''Permissions contain an unsupported value.'')
    else (case p of JsString s \<Rightarrow> Inr s | _ \<Rightarrow> Inr [])"
  have "?f p = Inr s \<longleftrightarrow> p = JsString s \<and> s \<in> set permissionValues" for p s
    by (cases p) (auto simp: isPermission_def)
  then have "mapR ?f vs = Inr ps \<longleftrightarrow>
      list_all2 (\<lambda>p s. p = JsString s \<and> s \<in> set permissionValues) vs ps"
    by (simp add: mapR_eq_Inr)
  also have "\<dots> \<longleftrightarrow> vs = map JsString ps \<and> set ps \<subseteq> set permissionValues"
    by (induction ps arbitrary: vs) (auto simp: list_all2_Cons2)
  finally show ?thesis using JsArray by (simp add: normalizePermissions_def)
qed (simp_all add: normalizePermissions_def)

lemma createActorContext_eq_Inr:
  "createActorContext input = Inr c \<longleftrightarrow>
     (\<exists>a co. ai_actorId input = JsString a \<and> ac_actorId c = trim a \<and>
        ai_companyId input = JsString co \<and> ac_companyId c = trim co) \<and>
     validIdentifier (ac_actorId c) \<and> validIdentifier (ac_companyId c) \<and>
     ai_authenticationMode input = JsString (ac_authenticationMode c) \<and>
     ac_authenticationMode c \<in> set authenticationModeValues \<and>
     ai_permissions input = JsArray (map JsString (ac_permissions c)) \<and>
     set (ac_permissions c) \<subseteq> set permissionValues"
  by (cases c) (auto simp: createActorContext_def result_simps)

end
