(* ===== verification/NumberingSettings.thy ===== *)
theory NumberingSettings
  imports NumberingStore Actor
begin

text \<open>
  The application functions on numbering settings and sequences
  (\<open>application/reserveInvoiceNumber.ts\<close>, \<open>updateInvoiceNumberingSettings.ts\<close>,
  \<open>getInvoiceNumberingSettings.ts\<close>, \<open>invoiceNumberingSettingsView.ts\<close>) over the two
  repository ports they are given. A port is a record of operations on a state; the
  locales \<open>sequence_port\<close> and \<open>settings_port\<close> state what the functions rely on, and the
  SQLite repository is an instance of both.
\<close>

section \<open>Ports\<close>

record 's InvoiceNumberingSettingsRepository =
  sr_getSettings :: "'s \<Rightarrow> string \<Rightarrow> string \<Rightarrow> StoredInvoiceNumberingSettings option"
  sr_saveSettings :: "'s \<Rightarrow> StoredInvoiceNumberingSettings \<Rightarrow> InvoiceSettingsAuditEvent \<Rightarrow>
     ('s \<times> StoredInvoiceNumberingSettings) result"
  sr_hasUsedNumbering :: "'s \<Rightarrow> string \<Rightarrow> string \<Rightarrow> bool"

record 's InvoiceNumberSequenceRepository =
  qr_getSequence :: "'s \<Rightarrow> string \<Rightarrow> string \<Rightarrow> string \<Rightarrow> InvoiceNumberSequenceState option"
  qr_saveSequence :: "'s \<Rightarrow> InvoiceNumberSequenceState \<Rightarrow> ('s \<times> InvoiceNumberSequenceState) result"

definition sqliteSettingsRepository :: "NumberingDatabase InvoiceNumberingSettingsRepository" where
  "sqliteSettingsRepository =
     \<lparr>sr_getSettings = getSettings, sr_saveSettings = saveSettings,
      sr_hasUsedNumbering = hasUsedNumbering\<rparr>"

definition sqliteSequenceRepository :: "NumberingDatabase InvoiceNumberSequenceRepository" where
  "sqliteSequenceRepository = \<lparr>qr_getSequence = getSequence, qr_saveSequence = saveSequence\<rparr>"

section \<open>Reserving a number\<close>

record ReserveInvoiceNumberInput =
  rn_companyId :: string
  rn_seriesKey :: string
  rn_invoiceDate :: string
  rn_now :: string

record ReservedInvoiceNumber =
  rd_invoiceNumber :: string
  rd_seriesKey :: string
  rd_sequenceScope :: string
  rd_sequenceNumber :: number
  rd_numberingMode :: InvoiceNumberingMode

definition requireNonEmptyReservation :: "string \<Rightarrow> string \<Rightarrow> string result" where
  "requireNonEmptyReservation value fieldName =
     (let normalizedValue = trim value in
      if length normalizedValue = 0
      then Inl (ReserveInvoiceNumberError (fieldName @ '' is required.''))
      else Inr normalizedValue)"

definition createNextSequenceState ::
    "ReserveInvoiceNumberInput \<Rightarrow> string \<Rightarrow> number \<Rightarrow> InvoiceNumberSequenceState option \<Rightarrow>
     InvoiceNumberSequenceState" where
  "createNextSequenceState input sequenceScope sequenceNumber currentSequence =
     \<lparr>sq_companyId = rn_companyId input, sq_seriesKey = rn_seriesKey input,
      sq_sequenceScope = sequenceScope, sq_lastSequenceNumber = sequenceNumber,
      sq_createdAt = (case currentSequence of None \<Rightarrow> rn_now input | Some q \<Rightarrow> sq_createdAt q),
      sq_updatedAt = rn_now input\<rparr>"

definition reserveInvoiceNumber ::
    "'s InvoiceNumberingSettingsRepository \<Rightarrow> 's InvoiceNumberSequenceRepository \<Rightarrow>
     's \<Rightarrow> ReserveInvoiceNumberInput \<Rightarrow> ('s \<times> ReservedInvoiceNumber) result" where
  "reserveInvoiceNumber settingsRepository sequenceRepository db input =
     andThen (requireNonEmptyReservation (rn_companyId input) ''Company id'') (\<lambda>companyId.
     andThen (requireNonEmptyReservation (rn_seriesKey input) ''Invoice number series key'')
       (\<lambda>seriesKey.
     andThen (requireNonEmptyReservation (rn_now input) ''Reservation timestamp'') (\<lambda>now.
     andThen (validateInvoiceNumberSeriesKey seriesKey) (\<lambda>_.
     case sr_getSettings settingsRepository db companyId seriesKey of
       None \<Rightarrow> Inl (ReserveInvoiceNumberError ''Invoice numbering settings were not found.'')
     | Some settings \<Rightarrow>
     andThen (validateInvoiceNumberingSettings settings) (\<lambda>_.
     andThen (resolveInvoiceNumberSequenceScope settings (rn_invoiceDate input)) (\<lambda>sequenceScope.
     let currentSequence = qr_getSequence sequenceRepository db companyId seriesKey sequenceScope;
         sequenceNumber =
           (case currentSequence of
              None \<Rightarrow> ns_firstSequenceNumber settings
            | Some q \<Rightarrow> jsAdd (sq_lastSequenceNumber q) 1) in
     andThen (validateInvoiceSequenceNumber sequenceNumber) (\<lambda>_.
     andThen (formatInvoiceNumber settings (rn_invoiceDate input) sequenceNumber) (\<lambda>invoiceNumber.
     andThen (qr_saveSequence sequenceRepository db
               (createNextSequenceState
                 (input\<lparr>rn_companyId := companyId, rn_seriesKey := seriesKey, rn_now := now\<rparr>)
                 sequenceScope sequenceNumber currentSequence)) (\<lambda>(db', savedSequence).
     if sq_companyId savedSequence \<noteq> companyId \<or> sq_seriesKey savedSequence \<noteq> seriesKey \<or>
        sq_sequenceScope savedSequence \<noteq> sequenceScope \<or>
        sq_lastSequenceNumber savedSequence \<noteq> sequenceNumber
     then Inl (ReserveInvoiceNumberError
       ''Invoice number sequence reservation returned an inconsistent state.'')
     else Inr (db', \<lparr>rd_invoiceNumber = invoiceNumber, rd_seriesKey = seriesKey,
       rd_sequenceScope = sequenceScope, rd_sequenceNumber = sequenceNumber,
       rd_numberingMode = ns_mode settings\<rparr>))))))))))"

section \<open>Views\<close>

record InvoiceNumberingSettingsView =
  nv_seriesKey :: string
  nv_mode :: InvoiceNumberingMode
  nv_fiscalYearStartMonth :: number
  nv_sequencePadding :: number
  nv_firstSequenceNumber :: number
  nv_hasUsedNumbering :: bool
  nv_isPersisted :: bool

definition defaultInvoiceNumberingSettings :: InvoiceNumberingSettings where
  "defaultInvoiceNumberingSettings =
     \<lparr>ns_mode = CalendarYearSequence, ns_fiscalYearStartMonth = 1, ns_sequencePadding = 4,
      ns_firstSequenceNumber = 1\<rparr>"

definition toInvoiceNumberingSettingsView ::
    "StoredInvoiceNumberingSettings option \<Rightarrow> bool \<Rightarrow> InvoiceNumberingSettingsView" where
  "toInvoiceNumberingSettingsView settings used =
     (case settings of
        None \<Rightarrow>
          \<lparr>nv_seriesKey = defaultInvoiceNumberSeriesKey,
           nv_mode = ns_mode defaultInvoiceNumberingSettings,
           nv_fiscalYearStartMonth = ns_fiscalYearStartMonth defaultInvoiceNumberingSettings,
           nv_sequencePadding = ns_sequencePadding defaultInvoiceNumberingSettings,
           nv_firstSequenceNumber = ns_firstSequenceNumber defaultInvoiceNumberingSettings,
           nv_hasUsedNumbering = False, nv_isPersisted = False\<rparr>
      | Some s \<Rightarrow>
          \<lparr>nv_seriesKey = ns_seriesKey s, nv_mode = ns_mode s,
           nv_fiscalYearStartMonth = ns_fiscalYearStartMonth s,
           nv_sequencePadding = ns_sequencePadding s,
           nv_firstSequenceNumber = ns_firstSequenceNumber s,
           nv_hasUsedNumbering = used, nv_isPersisted = True\<rparr>)"

section \<open>Reading and updating the settings\<close>

definition requireSettingsCompanyId :: "string \<Rightarrow> string result" where
  "requireSettingsCompanyId companyId =
     (let normalizedCompanyId = trim companyId in
      if length normalizedCompanyId = 0
      then Inl (InvoiceNumberingSettingsError ''Company id is required.'')
      else Inr normalizedCompanyId)"

definition getInvoiceNumberingSettings ::
    "'s InvoiceNumberingSettingsRepository \<Rightarrow> 's \<Rightarrow> string \<Rightarrow> InvoiceNumberingSettingsView result" where
  "getInvoiceNumberingSettings repository db inputCompanyId =
     andThen (requireSettingsCompanyId inputCompanyId) (\<lambda>companyId.
     let settings = sr_getSettings repository db companyId defaultInvoiceNumberSeriesKey;
         used = (case settings of
             None \<Rightarrow> False
           | Some _ \<Rightarrow> sr_hasUsedNumbering repository db companyId defaultInvoiceNumberSeriesKey) in
     andThen (case settings of None \<Rightarrow> Inr () | Some s \<Rightarrow> validateInvoiceNumberingSettings s) (\<lambda>_.
     Inr (toInvoiceNumberingSettingsView settings used)))"

record UpdateInvoiceNumberingSettingsInput =
  un_actorContext :: ActorContext
  un_mode :: InvoiceNumberingMode
  un_fiscalYearStartMonth :: number
  un_sequencePadding :: number
  un_firstSequenceNumber :: number
  un_now :: string

definition requireNonEmptySetting :: "string \<Rightarrow> string \<Rightarrow> string result" where
  "requireNonEmptySetting value fieldName =
     (let normalizedValue = trim value in
      if length normalizedValue = 0
      then Inl (InvoiceNumberingSettingsError (fieldName @ '' is required.''))
      else Inr normalizedValue)"

definition toNumberingSettings :: "UpdateInvoiceNumberingSettingsInput \<Rightarrow> InvoiceNumberingSettings" where
  "toNumberingSettings input =
     \<lparr>ns_mode = un_mode input, ns_fiscalYearStartMonth = un_fiscalYearStartMonth input,
      ns_sequencePadding = un_sequencePadding input,
      ns_firstSequenceNumber = un_firstSequenceNumber input\<rparr>"

definition settingsAreEqual ::
    "'a InvoiceNumberingSettings_scheme \<Rightarrow> 'b InvoiceNumberingSettings_scheme \<Rightarrow> bool" where
  "settingsAreEqual currentSettings nextSettings \<longleftrightarrow>
     ns_mode currentSettings = ns_mode nextSettings \<and>
     ns_fiscalYearStartMonth currentSettings = ns_fiscalYearStartMonth nextSettings \<and>
     ns_sequencePadding currentSettings = ns_sequencePadding nextSettings \<and>
     ns_firstSequenceNumber currentSettings = ns_firstSequenceNumber nextSettings"

definition createStoredSettings ::
    "UpdateInvoiceNumberingSettingsInput \<Rightarrow> string \<Rightarrow> StoredInvoiceNumberingSettings option \<Rightarrow>
     StoredInvoiceNumberingSettings result" where
  "createStoredSettings input companyId currentSettings =
     andThen (case currentSettings of
         None \<Rightarrow> requireNonEmptySetting (un_now input) ''Timestamp''
       | Some s \<Rightarrow> Inr (ns_createdAt s)) (\<lambda>createdAt.
     andThen (requireNonEmptySetting (un_now input) ''Timestamp'') (\<lambda>updatedAt.
     Inr \<lparr>ns_mode = un_mode input, ns_fiscalYearStartMonth = un_fiscalYearStartMonth input,
          ns_sequencePadding = un_sequencePadding input,
          ns_firstSequenceNumber = un_firstSequenceNumber input,
          ns_companyId = companyId, ns_seriesKey = defaultInvoiceNumberSeriesKey,
          ns_createdAt = createdAt, ns_updatedAt = updatedAt\<rparr>))"

definition updateInvoiceNumberingSettings ::
    "string \<Rightarrow> 's InvoiceNumberingSettingsRepository \<Rightarrow> 's \<Rightarrow> UpdateInvoiceNumberingSettingsInput \<Rightarrow>
     ('s \<times> InvoiceNumberingSettingsView) result" where
  "updateInvoiceNumberingSettings randomUUID repository db input =
     andThen (requirePermission (un_actorContext input) ''manageInvoiceSettings'') (\<lambda>_.
     andThen (requireNonEmptySetting (ac_companyId (un_actorContext input)) ''Company id'')
       (\<lambda>companyId.
     andThen (requireNonEmptySetting (un_now input) ''Timestamp'') (\<lambda>now.
     let nextSettings = toNumberingSettings input in
     andThen (validateInvoiceNumberingSettings nextSettings) (\<lambda>_.
     let currentSettings = sr_getSettings repository db companyId defaultInvoiceNumberSeriesKey;
         used = (case currentSettings of
             None \<Rightarrow> False
           | Some _ \<Rightarrow> sr_hasUsedNumbering repository db companyId defaultInvoiceNumberSeriesKey) in
     andThen (case currentSettings of
         None \<Rightarrow> Inr () | Some s \<Rightarrow> validateInvoiceNumberingSettings s) (\<lambda>_.
     if used \<and> (case currentSettings of None \<Rightarrow> False | Some s \<Rightarrow> \<not> settingsAreEqual s nextSettings)
     then Inl (InvoiceNumberingSettingsError
       ''Invoice numbering settings cannot be changed after numbering has been used.'')
     else
     andThen (createStoredSettings input companyId currentSettings) (\<lambda>stored.
     andThen (sr_saveSettings repository db stored
               (createInvoiceSettingsAuditEvent randomUUID ''invoiceNumberingSettings.updated''
                 (ac_actorId (un_actorContext input)) companyId now)) (\<lambda>(db', savedSettings).
     andThen (validateInvoiceNumberingSettings savedSettings) (\<lambda>_.
     Inr (db', toInvoiceNumberingSettingsView (Some savedSettings) used)))))))))"

text \<open>A run of reservations; the first one that fails ends it.\<close>

fun reserveAll ::
    "'s InvoiceNumberingSettingsRepository \<Rightarrow> 's InvoiceNumberSequenceRepository \<Rightarrow>
     's \<Rightarrow> ReserveInvoiceNumberInput list \<Rightarrow> ('s \<times> ReservedInvoiceNumber list) result" where
  "reserveAll settingsRepository sequenceRepository db [] = Inr (db, [])"
| "reserveAll settingsRepository sequenceRepository db (input # inputs) =
     andThen (reserveInvoiceNumber settingsRepository sequenceRepository db input) (\<lambda>(db', r).
     andThen (reserveAll settingsRepository sequenceRepository db' inputs) (\<lambda>(db'', rs).
     Inr (db'', r # rs)))"

section \<open>Reserved numbers are never reserved again\<close>

text \<open>
  What reserving relies on: a saved sequence is read back with the number that was saved,
  other sequences and the settings stay as they were.
\<close>

locale sequence_port =
  fixes settings :: "'s InvoiceNumberingSettingsRepository"
    and sequences :: "'s InvoiceNumberSequenceRepository"
  assumes get_saved: "qr_saveSequence sequences db q = Inr (db', q') \<Longrightarrow>
      qr_getSequence sequences db' c k sc =
        (if c = sq_companyId q \<and> k = sq_seriesKey q \<and> sc = sq_sequenceScope q then Some q'
         else qr_getSequence sequences db c k sc)"
    and settings_saved: "qr_saveSequence sequences db q = Inr (db', q') \<Longrightarrow>
      sr_getSettings settings db' = sr_getSettings settings db"
begin

definition next_number :: "'s \<Rightarrow> StoredInvoiceNumberingSettings \<Rightarrow> string \<Rightarrow> string \<Rightarrow> string \<Rightarrow> number" where
  "next_number db st c k sc =
     (case qr_getSequence sequences db c k sc of
        None \<Rightarrow> ns_firstSequenceNumber st | Some q \<Rightarrow> sq_lastSequenceNumber q + 1)"

definition reserved_before :: "'s \<Rightarrow> string \<Rightarrow> string \<Rightarrow> string \<Rightarrow> bool" where
  "reserved_before db c k number' \<longleftrightarrow>
     (\<exists>st date n sc q. sr_getSettings settings db c k = Some st \<and>
        formatInvoiceNumber st date n = Inr number' \<and>
        resolveInvoiceNumberSequenceScope st date = Inr sc \<and>
        qr_getSequence sequences db c k sc = Some q \<and> n \<le> sq_lastSequenceNumber q)"

lemma reserve_facts:
  assumes "reserveInvoiceNumber settings sequences db input = Inr (db', r)"
  obtains st where
    "sr_getSettings settings db (trim (rn_companyId input)) (trim (rn_seriesKey input)) = Some st"
    "formatInvoiceNumber st (rn_invoiceDate input) (rd_sequenceNumber r) = Inr (rd_invoiceNumber r)"
    "resolveInvoiceNumberSequenceScope st (rn_invoiceDate input) = Inr (rd_sequenceScope r)"
    "rd_sequenceNumber r =
       next_number db st (trim (rn_companyId input)) (trim (rn_seriesKey input)) (rd_sequenceScope r)"
    "\<exists>q. sq_lastSequenceNumber q = rd_sequenceNumber r \<and>
       (\<forall>c k sc. qr_getSequence sequences db' c k sc =
         (if c = trim (rn_companyId input) \<and> k = trim (rn_seriesKey input) \<and>
             sc = rd_sequenceScope r
          then Some q else qr_getSequence sequences db c k sc))"
    "sr_getSettings settings db' = sr_getSettings settings db"
proof -
  let ?c = "trim (rn_companyId input)" and ?k = "trim (rn_seriesKey input)"
  from assms obtain st sc num q' where
    st: "sr_getSettings settings db ?c ?k = Some st"
    and sc: "resolveInvoiceNumberSequenceScope st (rn_invoiceDate input) = Inr sc"
    and n: "validateInvoiceSequenceNumber (case qr_getSequence sequences db ?c ?k sc of
        None \<Rightarrow> ns_firstSequenceNumber st | Some q \<Rightarrow> jsAdd (sq_lastSequenceNumber q) 1) = Inr ()"
    and num: "formatInvoiceNumber st (rn_invoiceDate input)
      (case qr_getSequence sequences db ?c ?k sc of
        None \<Rightarrow> ns_firstSequenceNumber st | Some q \<Rightarrow> jsAdd (sq_lastSequenceNumber q) 1) = Inr num"
    and save: "qr_saveSequence sequences db (createNextSequenceState
        (input\<lparr>rn_companyId := ?c, rn_seriesKey := ?k, rn_now := trim (rn_now input)\<rparr>) sc
        (case qr_getSequence sequences db ?c ?k sc of
          None \<Rightarrow> ns_firstSequenceNumber st | Some q \<Rightarrow> jsAdd (sq_lastSequenceNumber q) 1)
        (qr_getSequence sequences db ?c ?k sc)) = Inr (db', q')"
    and last: "sq_lastSequenceNumber q' = (case qr_getSequence sequences db ?c ?k sc of
        None \<Rightarrow> ns_firstSequenceNumber st | Some q \<Rightarrow> jsAdd (sq_lastSequenceNumber q) 1)"
    and r: "r = \<lparr>rd_invoiceNumber = num, rd_seriesKey = ?k, rd_sequenceScope = sc,
        rd_sequenceNumber = (case qr_getSequence sequences db ?c ?k sc of
          None \<Rightarrow> ns_firstSequenceNumber st | Some q \<Rightarrow> jsAdd (sq_lastSequenceNumber q) 1),
        rd_numberingMode = ns_mode st\<rparr>"
    unfolding reserveInvoiceNumber_def requireNonEmptyReservation_def Let_def
    by (auto simp: andThen_eq_Inr split: if_splits option.splits prod.splits)
  let ?n = "case qr_getSequence sequences db ?c ?k sc of
        None \<Rightarrow> ns_firstSequenceNumber st | Some q \<Rightarrow> jsAdd (sq_lastSequenceNumber q) 1"
  have "isSafeInteger ?n" using n unfolding validateInvoiceSequenceNumber_ok
    by (simp add: isSafeInteger_def)
  then have next': "?n = next_number db st ?c ?k sc"
    by (cases "qr_getSequence sequences db ?c ?k sc") (simp_all add: next_number_def)
  show ?thesis
  proof (rule that [of st])
    show "\<exists>q. sq_lastSequenceNumber q = rd_sequenceNumber r \<and>
       (\<forall>c k s. qr_getSequence sequences db' c k s =
         (if c = ?c \<and> k = ?k \<and> s = rd_sequenceScope r
          then Some q else qr_getSequence sequences db c k s))"
      using last get_saved [OF save] by (intro exI [of _ q']) (simp add: r createNextSequenceState_def)
  qed (use st sc num next' settings_saved [OF save] r in simp_all)
qed

text \<open>A reserved number is new, and counts as reserved from then on.\<close>

lemma reserve_fresh:
  assumes "reserveInvoiceNumber settings sequences db input = Inr (db', r)"
  shows "\<not> reserved_before db (trim (rn_companyId input)) (trim (rn_seriesKey input)) (rd_invoiceNumber r)"
    and "reserved_before db' (trim (rn_companyId input)) (trim (rn_seriesKey input)) (rd_invoiceNumber r)"
proof -
  let ?c = "trim (rn_companyId input)" and ?k = "trim (rn_seriesKey input)"
  from assms obtain st where st: "sr_getSettings settings db ?c ?k = Some st"
    and fmt: "formatInvoiceNumber st (rn_invoiceDate input) (rd_sequenceNumber r) = Inr (rd_invoiceNumber r)"
    and sc: "resolveInvoiceNumberSequenceScope st (rn_invoiceDate input) = Inr (rd_sequenceScope r)"
    and n: "rd_sequenceNumber r = next_number db st ?c ?k (rd_sequenceScope r)"
    and q: "\<exists>q. sq_lastSequenceNumber q = rd_sequenceNumber r \<and>
       (\<forall>c k sc. qr_getSequence sequences db' c k sc =
         (if c = ?c \<and> k = ?k \<and> sc = rd_sequenceScope r
          then Some q else qr_getSequence sequences db c k sc))"
    and st': "sr_getSettings settings db' = sr_getSettings settings db"
    by (rule reserve_facts)
  show "\<not> reserved_before db ?c ?k (rd_invoiceNumber r)"
  proof
    assume "reserved_before db ?c ?k (rd_invoiceNumber r)"
    with st obtain date m sc' p where old: "formatInvoiceNumber st date m = Inr (rd_invoiceNumber r)"
      "resolveInvoiceNumberSequenceScope st date = Inr sc'"
      "qr_getSequence sequences db ?c ?k sc' = Some p" "m \<le> sq_lastSequenceNumber p"
      by (auto simp: reserved_before_def)
    from formatInvoiceNumber_inj [OF fmt old(1)] have "m = rd_sequenceNumber r"
      "seriesYear st (rn_invoiceDate input) = seriesYear st date" by simp_all
    with sc old(2) have "sc' = rd_sequenceScope r"
      by (auto simp: resolveInvoiceNumberSequenceScope_eq_Inr)
    with old(3,4) n \<open>m = rd_sequenceNumber r\<close> show False by (simp add: next_number_def)
  qed
  show "reserved_before db' ?c ?k (rd_invoiceNumber r)"
  proof -
    from q have "\<exists>q'. qr_getSequence sequences db' ?c ?k (rd_sequenceScope r) = Some q' \<and>
        rd_sequenceNumber r \<le> sq_lastSequenceNumber q'" by auto
    with st fmt sc show ?thesis unfolding reserved_before_def st' by blast
  qed
qed

lemma reserved_persists:
  assumes "reserveInvoiceNumber settings sequences db input = Inr (db', r)"
    and "reserved_before db c k number'"
  shows "reserved_before db' c k number'"
proof -
  let ?c = "trim (rn_companyId input)" and ?k = "trim (rn_seriesKey input)"
  from assms(1) obtain st where st: "sr_getSettings settings db ?c ?k = Some st"
    and n: "rd_sequenceNumber r = next_number db st ?c ?k (rd_sequenceScope r)"
    and q: "\<exists>q. sq_lastSequenceNumber q = rd_sequenceNumber r \<and>
       (\<forall>c k sc. qr_getSequence sequences db' c k sc =
         (if c = ?c \<and> k = ?k \<and> sc = rd_sequenceScope r
          then Some q else qr_getSequence sequences db c k sc))"
    and st': "sr_getSettings settings db' = sr_getSettings settings db"
    by (rule reserve_facts)
  from q obtain q' where last: "sq_lastSequenceNumber q' = rd_sequenceNumber r"
    and get: "qr_getSequence sequences db' c k sc =
         (if c = ?c \<and> k = ?k \<and> sc = rd_sequenceScope r
          then Some q' else qr_getSequence sequences db c k sc)" for c k sc
    by blast
  from assms(2) obtain st0 date m sc p where old: "sr_getSettings settings db c k = Some st0"
    "formatInvoiceNumber st0 date m = Inr number'" "resolveInvoiceNumberSequenceScope st0 date = Inr sc"
    "qr_getSequence sequences db c k sc = Some p" "m \<le> sq_lastSequenceNumber p"
    unfolding reserved_before_def by blast
  have "\<exists>p'. qr_getSequence sequences db' c k sc = Some p' \<and> m \<le> sq_lastSequenceNumber p'"
    using old(4,5) n last get [of c k sc] by (auto simp: next_number_def)
  with old(1,2,3) st' show ?thesis by (auto simp: reserved_before_def)
qed

text \<open>The series an input reserves in.\<close>

definition series_of :: "ReserveInvoiceNumberInput \<Rightarrow> string \<times> string" where
  "series_of input = (trim (rn_companyId input), trim (rn_seriesKey input))"

lemma reserveAll_fresh:
  assumes "reserveAll settings sequences db inputs = Inr (db', rs)"
  shows "length rs = length inputs"
    and "j < length rs \<Longrightarrow> reserved_before db c k number' \<Longrightarrow> series_of (inputs ! j) = (c, k) \<Longrightarrow>
      rd_invoiceNumber (rs ! j) \<noteq> number'"
  using assms
proof (induction inputs arbitrary: db rs j)
  case Nil
  { case 1 then show ?case by simp }
  { case 2 then show ?case by simp }
next
  case (Cons input inputs)
  { case 1 then show ?case using Cons.IH(1) by (auto simp: andThen_eq_Inr) }
  { case 2
    then obtain db1 r rs' where r: "reserveInvoiceNumber settings sequences db input = Inr (db1, r)"
      and rs': "reserveAll settings sequences db1 inputs = Inr (db', rs')" and rs: "rs = r # rs'"
      by (auto simp: andThen_eq_Inr)
    show ?case
    proof (cases j)
      case 0
      with 2 rs reserve_fresh(1) [OF r] show ?thesis by (auto simp: series_of_def)
    next
      case (Suc i)
      with 2 rs Cons.IH(2) [OF _ reserved_persists [OF r] _ rs', of i] show ?thesis by simp
    qed }
qed

lemma reserveAll_distinct:
  assumes "reserveAll settings sequences db inputs = Inr (db', rs)"
    and "i < j" "j < length rs" "series_of (inputs ! i) = series_of (inputs ! j)"
  shows "rd_invoiceNumber (rs ! i) \<noteq> rd_invoiceNumber (rs ! j)"
  using assms
proof (induction inputs arbitrary: db rs i j)
  case Nil
  then show ?case by simp
next
  case (Cons input inputs)
  then obtain db1 r rs' where r: "reserveInvoiceNumber settings sequences db input = Inr (db1, r)"
    and rs': "reserveAll settings sequences db1 inputs = Inr (db', rs')" and rs: "rs = r # rs'"
    by (auto simp: andThen_eq_Inr)
  from Cons.prems(2) obtain j' where j: "j = Suc j'" by (cases j) auto
  show ?case
  proof (cases i)
    case 0
    with Cons.prems rs j reserveAll_fresh(2) [OF rs' _ reserve_fresh(2) [OF r], of j']
    show ?thesis by (auto simp: series_of_def)
  next
    case (Suc i')
    with Cons.prems rs j Cons.IH [OF rs', of i' j'] show ?thesis by simp
  qed
qed

end

interpretation sqliteSequences: sequence_port sqliteSettingsRepository sqliteSequenceRepository
proof unfold_locales
  fix db q db' q' c k sc
  assume "qr_saveSequence sqliteSequenceRepository db q = Inr (db', q')"
  then have save: "upsertNumberSequence db (toInvoiceNumberSequenceRow q) = Inr db'"
    and q': "q' = replacedSequence (getSequence db (sq_companyId q) (sq_seriesKey q) (sq_sequenceScope q)) q"
    by (simp_all add: sqliteSequenceRepository_def saveSequence_eq_Inr)
  have "db_sequences db' = upsertRow sequenceKey mergeSequence (toInvoiceNumberSequenceRow q) (db_sequences db)"
    using save by (simp add: upsertNumberSequence_eq_Inr)
  from getSequence_upserted [OF this]
  show "qr_getSequence sqliteSequenceRepository db' c k sc =
        (if c = sq_companyId q \<and> k = sq_seriesKey q \<and> sc = sq_sequenceScope q then Some q'
         else qr_getSequence sqliteSequenceRepository db c k sc)"
    by (simp add: sqliteSequenceRepository_def q')
  show "sr_getSettings sqliteSettingsRepository db' = sr_getSettings sqliteSettingsRepository db"
    using save by (auto simp: sqliteSettingsRepository_def upsertNumberSequence_eq_Inr getSettings_row fun_eq_iff)
qed

section \<open>Updating settings\<close>

lemma requireNonEmptySetting_eq_Inr [result_simps]:
  "requireNonEmptySetting v f = Inr w \<longleftrightarrow> trim v \<noteq> [] \<and> w = trim v"
  by (auto simp: requireNonEmptySetting_def Let_def)

text \<open>The stored form of an update.\<close>

definition updatedSettings ::
    "UpdateInvoiceNumberingSettingsInput \<Rightarrow> StoredInvoiceNumberingSettings option \<Rightarrow>
     StoredInvoiceNumberingSettings" where
  "updatedSettings input current =
     \<lparr>ns_mode = un_mode input, ns_fiscalYearStartMonth = un_fiscalYearStartMonth input,
      ns_sequencePadding = un_sequencePadding input,
      ns_firstSequenceNumber = un_firstSequenceNumber input,
      ns_companyId = trim (ac_companyId (un_actorContext input)),
      ns_seriesKey = defaultInvoiceNumberSeriesKey,
      ns_createdAt = (case current of None \<Rightarrow> trim (un_now input) | Some s \<Rightarrow> ns_createdAt s),
      ns_updatedAt = trim (un_now input)\<rparr>"

lemma createStoredSettings_eq_Inr:
  "createStoredSettings input (trim (ac_companyId (un_actorContext input))) current = Inr s \<longleftrightarrow>
     trim (un_now input) \<noteq> [] \<and> s = updatedSettings input current"
  by (auto simp: createStoredSettings_def result_simps updatedSettings_def split: option.splits)

lemma updateInvoiceNumberingSettings_eq_Inr:
  fixes input :: UpdateInvoiceNumberingSettingsInput
  defines "c \<equiv> trim (ac_companyId (un_actorContext input))"
  assumes "updateInvoiceNumberingSettings u sqliteSettingsRepository db input = Inr (db', v)"
  shows "''manageInvoiceSettings'' \<in> set (ac_permissions (un_actorContext input))"
    and "validSettings (toNumberingSettings input)" and "c \<noteq> []"
    and "\<not> (getSettings db c defaultInvoiceNumberSeriesKey \<noteq> None \<and>
      settingsAreUsed db c defaultInvoiceNumberSeriesKey)"
    and "\<exists>e. db' = savedSettingsDatabase db
      (updatedSettings input (getSettings db c defaultInvoiceNumberSeriesKey)) e"
proof -
  let ?cur = "getSettings db c defaultInvoiceNumberSeriesKey"
  from assms(2) obtain s s' where perm: "requirePermission (un_actorContext input) ''manageInvoiceSettings'' = Inr ()"
    and c: "c \<noteq> []" and valid: "validSettings (toNumberingSettings input)"
    and s: "createStoredSettings input c ?cur = Inr s"
    and save: "saveSettings db s (createInvoiceSettingsAuditEvent u ''invoiceNumberingSettings.updated''
        (ac_actorId (un_actorContext input)) c (trim (un_now input))) = Inr (db', s')"
    unfolding updateInvoiceNumberingSettings_def c_def sqliteSettingsRepository_def Let_def
      requireNonEmptySetting_eq_Inr validateInvoiceNumberingSettings_ok
    by (auto simp: andThen_eq_Inr requireNonEmptySetting_eq_Inr validateInvoiceNumberingSettings_ok
        split: if_splits prod.splits)
  show "''manageInvoiceSettings'' \<in> set (ac_permissions (un_actorContext input))"
    using perm by (simp add: requirePermission_ok)
  show "validSettings (toNumberingSettings input)" "c \<noteq> []" by (fact valid, fact c)
  have s': "s = updatedSettings input ?cur" using s by (simp add: createStoredSettings_eq_Inr c_def)
  have keys: "ns_companyId s = c" "ns_seriesKey s = defaultInvoiceNumberSeriesKey"
    by (simp_all add: s' updatedSettings_def c_def)
  from save [unfolded saveSettings_eq_Inr keys] s'
  show "\<not> (?cur \<noteq> None \<and> settingsAreUsed db c defaultInvoiceNumberSeriesKey)"
    and "\<exists>e. db' = savedSettingsDatabase db (updatedSettings input ?cur) e"
    by blast+
qed

end
