(* ===== verification/ReferenceNumber.thy ===== *)
theory ReferenceNumber
  imports Numbering
begin

text \<open>
  Finnish domestic reference numbers (domain/invoiceReferenceNumber.ts): the check digit
  with the weights 7, 3, 1 from the right, and its validation. The check digit round-trips,
  and it detects every change of a single digit.
\<close>

definition finnishDomesticReferenceWeights :: "nat list" where
  "finnishDomesticReferenceWeights = [7, 3, 1]"

definition maximumFinnishDomesticReferenceNumberLength :: nat where
  "maximumFinnishDomesticReferenceNumberLength = 20"

definition maximumFinnishDomesticReferenceBaseLength :: nat where
  "maximumFinnishDomesticReferenceBaseLength = maximumFinnishDomesticReferenceNumberLength - 1"

text \<open>
  The loop from the last digit to the first: \<open>i\<close> counts the digits done, so the weight of
  the next digit is the one at \<open>i mod 3\<close>.
\<close>

fun checkDigitSum :: "nat \<Rightarrow> nat \<Rightarrow> string \<Rightarrow> nat" where
  "checkDigitSum acc i [] = acc"
| "checkDigitSum acc i (c # cs) =
     checkDigitSum (acc + digitValue c * finnishDomesticReferenceWeights ! (i mod 3)) (Suc i) cs"

definition calculateFinnishDomesticReferenceCheckDigit :: "string \<Rightarrow> nat" where
  "calculateFinnishDomesticReferenceCheckDigit baseDigits =
     (10 - checkDigitSum 0 0 (rev baseDigits) mod 10) mod 10"

definition validateReferenceDigits :: "string \<Rightarrow> string \<Rightarrow> nat \<Rightarrow> unit result" where
  "validateReferenceDigits value label maximumLength =
     (if length value = 0 then
        Inl (InvoiceNumberingError (label @ '' must not be empty.''))
      else if \<not> allDigits value then
        Inl (InvoiceNumberingError (label @ '' must contain only digits.''))
      else if length value > maximumLength then
        Inl (InvoiceNumberingError
          (label @ '' must be '' @ showNat maximumLength @ '' digits or less.''))
      else Inr ())"

definition createFinnishDomesticReferenceNumber :: "string \<Rightarrow> string result" where
  "createFinnishDomesticReferenceNumber baseDigits =
     andThen (validateReferenceDigits baseDigits ''Reference number base''
       maximumFinnishDomesticReferenceBaseLength) (\<lambda>_.
     Inr (baseDigits @ showNat (calculateFinnishDomesticReferenceCheckDigit baseDigits)))"

definition validateFinnishDomesticReferenceNumber :: "string \<Rightarrow> unit result" where
  "validateFinnishDomesticReferenceNumber value =
     andThen (validateReferenceDigits value ''Reference number''
       maximumFinnishDomesticReferenceNumberLength) (\<lambda>_.
     if length value < 2 then
       Inl (InvoiceNumberingError ''Reference number must include a check digit.'')
     else
       let baseDigits = butlast value in
       andThen (createFinnishDomesticReferenceNumber baseDigits) (\<lambda>expectedReferenceNumber.
       if value \<noteq> expectedReferenceNumber then
         Inl (InvoiceNumberingError ''Reference number check digit is invalid.'')
       else Inr ()))"

section \<open>Facts\<close>

lemma validateReferenceDigits_ok [result_simps]:
  "validateReferenceDigits v l k = Inr u \<longleftrightarrow> allDigits v \<and> length v \<le> k"
  by (auto simp: validateReferenceDigits_def allDigits_def)

definition weight :: "nat \<Rightarrow> nat" where
  "weight i = (if i mod 3 = 0 then 7 else if i mod 3 = 1 then 3 else 1)"

lemma weight_eq: "finnishDomesticReferenceWeights ! (i mod 3) = weight i"
proof -
  have "i mod 3 = 0 \<or> i mod 3 = 1 \<or> i mod 3 = 2" by presburger
  then show ?thesis by (auto simp: weight_def finnishDomesticReferenceWeights_def)
qed

text \<open>The weighted digit sum, the weight of the last digit first.\<close>

fun weighted :: "nat \<Rightarrow> string \<Rightarrow> nat" where
  "weighted i [] = 0"
| "weighted i (c # cs) = digitValue c * weight i + weighted (Suc i) cs"

lemma checkDigitSum_weighted: "checkDigitSum s i cs = s + weighted i cs"
  by (induction cs arbitrary: s i) (simp_all add: weight_eq)

lemma weighted_append: "weighted i (xs @ ys) = weighted i xs + weighted (i + length xs) ys"
  by (induction xs arbitrary: i) simp_all

definition checkDigit :: "string \<Rightarrow> nat" where
  "checkDigit b = (10 - weighted 0 (rev b) mod 10) mod 10"

lemma calculateCheckDigit: "calculateFinnishDomesticReferenceCheckDigit b = checkDigit b"
  by (simp add: calculateFinnishDomesticReferenceCheckDigit_def checkDigit_def checkDigitSum_weighted)

lemma checkDigit_less: "checkDigit b < 10"
  by (simp add: checkDigit_def)

lemma showNat_digit: "d < 10 \<Longrightarrow> showNat d = [digitChar d]"
  by (subst showNat.simps) simp

lemma createFinnishDomesticReferenceNumber_eq_Inr:
  "createFinnishDomesticReferenceNumber b = Inr r \<longleftrightarrow>
     allDigits b \<and> length b \<le> 19 \<and> r = b @ [digitChar (checkDigit b)]"
  by (auto simp: createFinnishDomesticReferenceNumber_def result_simps calculateCheckDigit
      showNat_digit checkDigit_less maximumFinnishDomesticReferenceBaseLength_def
      maximumFinnishDomesticReferenceNumberLength_def)

lemma allDigits_butlast: "allDigits v \<Longrightarrow> 2 \<le> length v \<Longrightarrow> allDigits (butlast v)"
  by (cases v rule: rev_cases) (auto simp: allDigits_def)

lemma validateFinnishDomesticReferenceNumber_eq_Inr:
  "validateFinnishDomesticReferenceNumber v = Inr u \<longleftrightarrow>
     (\<exists>b. createFinnishDomesticReferenceNumber b = Inr v)"
proof
  assume "validateFinnishDomesticReferenceNumber v = Inr u"
  then show "\<exists>b. createFinnishDomesticReferenceNumber b = Inr v"
    by (auto simp: validateFinnishDomesticReferenceNumber_def result_simps Let_def split: if_splits)
next
  assume "\<exists>b. createFinnishDomesticReferenceNumber b = Inr v"
  then obtain b where b: "allDigits b" "length b \<le> 19" "v = b @ [digitChar (checkDigit b)]"
    by (auto simp: createFinnishDomesticReferenceNumber_eq_Inr)
  then have "allDigits v" "2 \<le> length v" "length v \<le> 20" "butlast v = b"
    by (auto simp: allDigits_def checkDigit_less Suc_le_eq)
  moreover have "createFinnishDomesticReferenceNumber b = Inr v"
    using b by (simp add: createFinnishDomesticReferenceNumber_eq_Inr)
  ultimately show "validateFinnishDomesticReferenceNumber v = Inr u"
    by (simp add: validateFinnishDomesticReferenceNumber_def result_simps Let_def
        maximumFinnishDomesticReferenceNumberLength_def)
qed

text \<open>A check digit makes the weighted sum, with itself at weight one, a multiple of ten.\<close>

lemma complement_mod_10:
  fixes d r :: nat
  assumes "d < 10" "r < 10"
  shows "(d + r) mod 10 = 0 \<longleftrightarrow> d = (10 - r) mod 10"
proof (cases "d + r < 10")
  case True
  then show ?thesis using assms by (cases "r = 0") auto
next
  case False
  then have "(d + r) mod 10 = d + r - 10" using assms by (simp add: le_mod_geq)
  moreover have "r \<noteq> 0" using False assms by auto
  ultimately show ?thesis using False assms by auto
qed

lemma checkDigit_iff:
  assumes "d < 10"
  shows "d = checkDigit b \<longleftrightarrow> 10 dvd d + weighted 0 (rev b)"
proof -
  let ?w = "weighted 0 (rev b)"
  have "10 dvd d + ?w \<longleftrightarrow> (d + ?w mod 10) mod 10 = 0"
    by (simp add: dvd_eq_mod_eq_0 mod_simps)
  then show ?thesis using complement_mod_10 [OF assms, of "?w mod 10"] by (simp add: checkDigit_def)
qed

lemma weight_coprime: "coprime (int (weight i)) 10"
proof -
  have "coprime (7::int) 10" "coprime (3::int) 10" by code_simp+
  then show ?thesis by (simp add: weight_def)
qed

lemma weight_unit:
  assumes "x < 10" "y < 10" "10 dvd s + x * weight i" "10 dvd s + y * weight i"
  shows "x = y"
proof -
  have "int 10 dvd int (s + x * weight i)" "int 10 dvd int (s + y * weight i)"
    using assms(3,4) by (simp_all only: int_dvd_int_iff)
  then have "10 dvd int (s + x * weight i) - int (s + y * weight i)" by (intro dvd_diff) simp_all
  then have "10 dvd (int x - int y) * int (weight i)" by (simp add: algebra_simps)
  then have "10 dvd int x - int y"
    using weight_coprime [of i] by (simp only: coprime_dvd_mult_left_iff coprime_commute)
  with assms(1,2) show ?thesis using dvd_imp_le_int [of "int x - int y" 10] by force
qed

lemma checkDigit_detects:
  assumes d: "isDigit c" "isDigit c'" and eq: "checkDigit (xs @ [c] @ ys) = checkDigit (xs @ [c'] @ ys)"
  shows "c = c'"
proof -
  let ?d = "checkDigit (xs @ [c] @ ys)" and ?i = "length ys"
  let ?rest = "?d + weighted 0 (rev ys) + weighted (Suc ?i) (rev xs)"
  have sum: "?d + weighted 0 (rev (xs @ [x] @ ys)) = ?rest + digitValue x * weight ?i" for x
    by (simp add: weighted_append add.assoc)
  have "10 dvd ?rest + digitValue c * weight ?i"
    using checkDigit_iff [of ?d "xs @ [c] @ ys"] checkDigit_less [of "xs @ [c] @ ys"] sum [of c]
    by (simp only: simp_thms)
  moreover have "10 dvd ?rest + digitValue c' * weight ?i"
    using checkDigit_iff [of ?d "xs @ [c'] @ ys"] checkDigit_less [of "xs @ [c] @ ys"] sum [of c'] eq
    by (simp only: simp_thms)
  ultimately have "digitValue c = digitValue c'"
    using weight_unit [of "digitValue c" "digitValue c'"] d by simp
  then show ?thesis using d by (simp add: digitValue_inj)
qed

text \<open>Every change of one digit of a valid reference number is detected.\<close>

lemma reference_single_change:
  assumes v: "validateFinnishDomesticReferenceNumber (xs @ [c] @ ys) = Inr ()"
    and c': "c' \<noteq> c" "isDigit c'"
  shows "validateFinnishDomesticReferenceNumber (xs @ [c'] @ ys) \<noteq> Inr ()"
proof
  assume v': "validateFinnishDomesticReferenceNumber (xs @ [c'] @ ys) = Inr ()"
  obtain b where b: "allDigits b" "xs @ [c] @ ys = b @ [digitChar (checkDigit b)]"
    using v by (auto simp: validateFinnishDomesticReferenceNumber_eq_Inr
        createFinnishDomesticReferenceNumber_eq_Inr)
  obtain b' where b': "allDigits b'" "xs @ [c'] @ ys = b' @ [digitChar (checkDigit b')]"
    using v' by (auto simp: validateFinnishDomesticReferenceNumber_eq_Inr
        createFinnishDomesticReferenceNumber_eq_Inr)
  show False
  proof (cases ys rule: rev_cases)
    case Nil
    then have "b = xs" "b' = xs" "c = digitChar (checkDigit b)" "c' = digitChar (checkDigit b')"
      using b(2) b'(2) by simp_all
    with c'(1) show False by simp
  next
    case (snoc zs z)
    then have eqs: "b = xs @ [c] @ zs" "b' = xs @ [c'] @ zs" "z = digitChar (checkDigit b)"
      "z = digitChar (checkDigit b')"
      using b(2) b'(2) by simp_all
    then have "checkDigit b = checkDigit b'"
      by (metis checkDigit_less digitValue_digitChar)
    moreover have "isDigit c" using b(1) eqs(1) by (simp add: allDigits_def)
    ultimately have "c = c'" using checkDigit_detects [of c c' xs zs] c'(2) eqs by simp
    with c'(1) show False by simp
  qed
qed

end
