(* ===== verification/SafeStart.thy ===== *)
theory SafeStart
  imports Numbering ReferenceNumber
begin

text \<open>
  The first number a new series may start with
  (domain/calculateMinimumSafeInvoiceSequenceNumber.ts). The calculation reads the existing
  invoice numbers back as positions of the new series; it is shown to be safe, that is, no
  number printed from the result on exists already, for any invoice date, and minimal.
\<close>

section \<open>Definitions\<close>

record InvoiceNumberingSeriesCandidate =
  nc_mode :: InvoiceNumberingMode
  nc_fiscalYearStartMonth :: number
  nc_sequencePadding :: number

record MinimumSafeInvoiceSequenceNumberInput =
  mi_existingInvoiceNumbers :: "string list"
  mi_target :: InvoiceNumberingSeriesCandidate

datatype SeriesCapacity = Available | Exhausted

record MinimumSafeInvoiceSequenceNumberResult =
  mr_capacity :: SeriesCapacity
  mr_maximumSequenceNumber :: number
  mr_minimumSafeFirstSequenceNumber :: "number option"

definition maximumSupportedInvoiceYear :: number where
  "maximumSupportedInvoiceYear = 9999"

definition maximumYearPrefixLength :: nat where
  "maximumYearPrefixLength = length (showInt maximumSupportedInvoiceYear)"

definition maximumYearBasedSequenceDigits :: nat where
  "maximumYearBasedSequenceDigits =
     maximumFinnishDomesticReferenceBaseLength - maximumYearPrefixLength"

definition maximumYearBasedSequenceNumber :: number where
  "maximumYearBasedSequenceNumber =
     jsRound (int (parseDigits (replicate maximumYearBasedSequenceDigits (CHR ''9''))))"

definition maximumPlainSequenceNumber :: number where
  "maximumPlainSequenceNumber =
     min MAX_SAFE_INTEGER
       (jsRound (int (parseDigits (replicate maximumFinnishDomesticReferenceBaseLength (CHR ''9'')))))"

definition requireNumericInvoiceNumber :: "string \<Rightarrow> unit result" where
  "requireNumericInvoiceNumber invoiceNumber =
     (if \<not> allDigits invoiceNumber \<or>
         length invoiceNumber > maximumFinnishDomesticReferenceBaseLength then
        Inl (InvoiceNumberingError ''Existing invoice numbers must contain 1 to 19 digits.'')
      else Inr ())"

definition formatBigSequenceNumber :: "int \<Rightarrow> number \<Rightarrow> string" where
  "formatBigSequenceNumber sequenceNumber sequencePadding =
     padStart (nat sequencePadding) (showInt sequenceNumber)"

definition parseProducedSequenceNumber :: "string \<Rightarrow> number \<Rightarrow> int \<Rightarrow> int option" where
  "parseProducedSequenceNumber sequenceText sequencePadding maximumSequenceNumber =
     (if \<not> allDigits sequenceText then None
      else
        let sequenceNumber = int (parseDigits sequenceText) in
        if sequenceNumber < 1 \<or> sequenceNumber > maximumSequenceNumber \<or>
           formatBigSequenceNumber sequenceNumber sequencePadding \<noteq> sequenceText
        then None
        else Some sequenceNumber)"

definition getMaximumSequenceNumber :: "InvoiceNumberingMode \<Rightarrow> number" where
  "getMaximumSequenceNumber mode =
     (if mode = PlainSequence then maximumPlainSequenceNumber else maximumYearBasedSequenceNumber)"

definition isSupportedYearPrefix :: "string \<Rightarrow> InvoiceNumberingSeriesCandidate \<Rightarrow> bool" where
  "isSupportedYearPrefix prefixText target =
     (if \<not> (length prefixText = 4 \<and> allDigits prefixText) then False
      else
        let prefix = int (parseDigits prefixText) in
        if \<not> isSafeInteger prefix then False
        else
          let minimumPrefix =
                (if nc_mode target = FiscalYearSequence \<and> nc_fiscalYearStartMonth target > 1
                 then 0 else 1) in
          prefix \<ge> minimumPrefix \<and> prefix \<le> maximumSupportedInvoiceYear)"

definition findLargestCollidingSequenceNumber ::
    "string \<Rightarrow> InvoiceNumberingSeriesCandidate \<Rightarrow> int \<Rightarrow> int option" where
  "findLargestCollidingSequenceNumber invoiceNumber target maximumSequenceNumber =
     (if nc_mode target = PlainSequence then
        parseProducedSequenceNumber invoiceNumber (nc_sequencePadding target) maximumSequenceNumber
      else if length invoiceNumber \<le> maximumYearPrefixLength then None
      else if \<not> isSupportedYearPrefix (take maximumYearPrefixLength invoiceNumber) target then None
      else
        parseProducedSequenceNumber (drop maximumYearPrefixLength invoiceNumber)
          (nc_sequencePadding target) maximumSequenceNumber)"

definition candidateSettings :: "InvoiceNumberingSeriesCandidate \<Rightarrow> InvoiceNumberingSettings" where
  "candidateSettings target =
     \<lparr>ns_mode = nc_mode target, ns_fiscalYearStartMonth = nc_fiscalYearStartMonth target,
      ns_sequencePadding = nc_sequencePadding target, ns_firstSequenceNumber = 1\<rparr>"

definition collisionStep ::
    "InvoiceNumberingSeriesCandidate \<Rightarrow> int \<Rightarrow> int \<Rightarrow> string \<Rightarrow> int result" where
  "collisionStep target maximumSequenceNumber largestCollision invoiceNumber =
     andThen (requireNumericInvoiceNumber invoiceNumber) (\<lambda>_.
     Inr (case findLargestCollidingSequenceNumber invoiceNumber target maximumSequenceNumber of
            None \<Rightarrow> largestCollision
          | Some collision \<Rightarrow>
              if collision > largestCollision then collision else largestCollision))"

definition calculateMinimumSafeInvoiceSequenceNumber ::
    "MinimumSafeInvoiceSequenceNumberInput \<Rightarrow> MinimumSafeInvoiceSequenceNumberResult result" where
  "calculateMinimumSafeInvoiceSequenceNumber input =
     andThen (validateInvoiceNumberingSettings (candidateSettings (mi_target input))) (\<lambda>_.
     let maximumSequenceNumber = getMaximumSequenceNumber (nc_mode (mi_target input)) in
     andThen (foldR (collisionStep (mi_target input) maximumSequenceNumber) 0
               (mi_existingInvoiceNumbers input)) (\<lambda>largestCollision.
     if largestCollision \<ge> maximumSequenceNumber then
       Inr \<lparr>mr_capacity = Exhausted, mr_maximumSequenceNumber = maximumSequenceNumber,
            mr_minimumSafeFirstSequenceNumber = None\<rparr>
     else
       Inr \<lparr>mr_capacity = Available, mr_maximumSequenceNumber = maximumSequenceNumber,
            mr_minimumSafeFirstSequenceNumber = Some (largestCollision + 1)\<rparr>))"

definition validateInvoiceNumberingSeriesFirstSequenceNumber ::
    "number \<Rightarrow> MinimumSafeInvoiceSequenceNumberResult \<Rightarrow> unit result" where
  "validateInvoiceNumberingSeriesFirstSequenceNumber selectedFirstSequenceNumber result =
     (case (mr_capacity result, mr_minimumSafeFirstSequenceNumber result) of
        (Available, Some minimum) \<Rightarrow>
          if \<not> isSafeInteger selectedFirstSequenceNumber \<or>
             selectedFirstSequenceNumber < minimum \<or>
             selectedFirstSequenceNumber > mr_maximumSequenceNumber result
          then Inl (InvoiceNumberingError ''First sequence number is outside the safe range.'')
          else Inr ()
      | _ \<Rightarrow> Inl (InvoiceNumberingError ''Invoice numbering series has no safe remaining capacity.''))"

section \<open>Collisions\<close>

lemma parseDigits_nines: "int (parseDigits (replicate k (CHR ''9''))) = 10 ^ k - 1"
proof (induction k)
  case 0
  then show ?case by simp
next
  case (Suc k)
  have "digitValue (CHR ''9'') = 9" by (simp add: digitValue_def code_def)
  moreover have "replicate (Suc k) (CHR ''9'') = replicate k (CHR ''9'') @ [CHR ''9'']"
    by (simp add: replicate_append_same)
  ultimately have "int (parseDigits (replicate (Suc k) (CHR ''9''))) =
      10 * int (parseDigits (replicate k (CHR ''9''))) + 9"
    by (simp only: parseDigits_append1 of_nat_add of_nat_mult of_nat_numeral)
  then show ?case unfolding Suc.IH by simp
qed

lemma jsRound_ge: "n - 1 \<le> jsRound n"
  by (simp add: jsRound_def)

lemma constants:
  "maximumYearPrefixLength = 4" "maximumYearBasedSequenceNumber = 999999999999999"
  "maximumPlainSequenceNumber = MAX_SAFE_INTEGER" "maximumFinnishDomesticReferenceBaseLength = 19"
proof -
  show len: "maximumYearPrefixLength = 4"
    by (simp add: maximumYearPrefixLength_def maximumSupportedInvoiceYear_def showInt_nonneg showNat.simps)
  show len': "maximumFinnishDomesticReferenceBaseLength = 19"
    by (simp add: maximumFinnishDomesticReferenceBaseLength_def
        maximumFinnishDomesticReferenceNumberLength_def)
  have "maximumYearBasedSequenceDigits = 15" by (simp add: maximumYearBasedSequenceDigits_def len len')
  then have "maximumYearBasedSequenceNumber = jsRound (10 ^ 15 - 1)"
    by (simp only: maximumYearBasedSequenceNumber_def parseDigits_nines)
  then show "maximumYearBasedSequenceNumber = 999999999999999" by (simp add: jsRound_def)
  have "MAX_SAFE_INTEGER \<le> jsRound (10 ^ 19 - 1)"
    using jsRound_ge [of "10 ^ 19 - 1"] by (simp add: MAX_SAFE_INTEGER_def)
  then show "maximumPlainSequenceNumber = MAX_SAFE_INTEGER"
    by (simp only: maximumPlainSequenceNumber_def len' parseDigits_nines min_absorb1)
qed

lemma getMaximumSequenceNumber_bounds:
  "1 \<le> getMaximumSequenceNumber mode" "getMaximumSequenceNumber mode \<le> MAX_SAFE_INTEGER"
  by (simp_all add: getMaximumSequenceNumber_def constants MAX_SAFE_INTEGER_def)

lemma requireNumericInvoiceNumber_ok [result_simps]:
  "requireNumericInvoiceNumber s = Inr u \<longleftrightarrow> allDigits s \<and> length s \<le> 19"
  by (auto simp: requireNumericInvoiceNumber_def constants)

lemma parseProducedSequenceNumber_eq_Some:
  assumes "0 \<le> k"
  shows "parseProducedSequenceNumber t k mx = Some n \<longleftrightarrow>
    1 \<le> n \<and> n \<le> mx \<and> t = padStart (nat k) (showInt n)"
proof
  assume "parseProducedSequenceNumber t k mx = Some n"
  then show "1 \<le> n \<and> n \<le> mx \<and> t = padStart (nat k) (showInt n)"
    by (auto simp: parseProducedSequenceNumber_def Let_def formatBigSequenceNumber_def split: if_splits)
next
  assume n: "1 \<le> n \<and> n \<le> mx \<and> t = padStart (nat k) (showInt n)"
  then have "allDigits t" "int (parseDigits t) = n" by (simp_all add: showInt_nonneg)
  with n show "parseProducedSequenceNumber t k mx = Some n"
    by (simp add: parseProducedSequenceNumber_def formatBigSequenceNumber_def)
qed

text \<open>The years a series can print.\<close>

definition printableYear :: "'a InvoiceNumberingSettings_scheme \<Rightarrow> number \<Rightarrow> bool" where
  "printableYear st y \<longleftrightarrow>
     (if ns_mode st = FiscalYearSequence \<and> ns_fiscalYearStartMonth st > 1 then 0 else 1) \<le> y \<and>
     y \<le> 9999"

lemma parseInvoiceDate_written:
  assumes "validDate y m d"
  shows "parseInvoiceDate (padStart 4 (showInt y) @ ''-'' @ padStart 2 (showInt m) @ ''-'' @
    padStart 2 (showInt d)) = Inr \<lparr>dp_year = y, dp_month = m, dp_day = d\<rparr>"
proof -
  have b: "0 \<le> y" "y \<le> 9999" "0 \<le> m" "m \<le> 12" "0 \<le> d" "d \<le> 31"
    using assms getDaysInMonth_bounds(2) [of y m] by (auto simp: validDate_def)
  have len: "length (padStart 4 (showInt y)) = 4" using b by (intro length_yearPrefix)
  have len2: "length (padStart 2 (showInt x)) = 2" if "0 \<le> x" "x \<le> 31" for x
    using that length_showNat_le_iff [of 2 "nat x"] by (simp add: showInt_nonneg length_padStart)
  have dig: "allDigits (padStart k (showInt x))" "int (parseDigits (padStart k (showInt x))) = x"
    if "0 \<le> x" for x k
    using that by (simp_all add: showInt_nonneg)
  have "matchDate (padStart 4 (showInt y) @ ''-'' @ padStart 2 (showInt m) @ ''-'' @
      padStart 2 (showInt d)) =
    Some (padStart 4 (showInt y), padStart 2 (showInt m), padStart 2 (showInt d))"
    using b by (intro matchDate_join dig len len2) simp_all
  then show ?thesis unfolding parseInvoiceDate_eq_Inr using b dig assms by simp
qed

lemma seriesYear_iff_printable:
  assumes "validSettings st" "ns_mode st \<noteq> PlainSequence"
  shows "(\<exists>date. seriesYear st date = Inr (Some y)) \<longleftrightarrow> printableYear st y"
proof
  assume "\<exists>date. seriesYear st date = Inr (Some y)"
  then obtain date where y: "seriesYear st date = Inr (Some y)" by blast
  then obtain p where p: "parseInvoiceDate date = Inr p"
    and py: "y = (if ns_mode st = FiscalYearSequence \<and> dp_month p < ns_fiscalYearStartMonth st
      then dp_year p - 1 else dp_year p)"
    using assms(2) by (cases "ns_mode st")
      (auto simp: seriesYear_def result_simps getCalendarYearForInvoiceDate_def
        getFiscalYearForInvoiceDate_def split: if_splits)
  show "printableYear st y"
    using parseInvoiceDate_valid [OF p] py by (auto simp: printableYear_def validDate_def)
next
  assume y: "printableYear st y"
  define m :: number where "m = (if y = 0 then 1 else 12)"
  define year :: number where "year = (if y = 0 then 1 else y)"
  let ?date = "padStart 4 (showInt year) @ ''-'' @ padStart 2 (showInt m) @ ''-'' @ padStart 2 (showInt 1)"
  have "validDate year m 1"
    using y getDaysInMonth_bounds(1) [of year m]
    by (auto simp: printableYear_def validDate_def m_def year_def split: if_splits)
  note parse = parseInvoiceDate_written [OF this]
  have "seriesYear st ?date = Inr (Some y)"
    using assms y parse
    by (cases "ns_mode st") (auto simp: seriesYear_def getCalendarYearForInvoiceDate_def
        getFiscalYearForInvoiceDate_def result_simps printableYear_def m_def year_def validSettings_def
        MAX_SAFE_INTEGER_def)
  then show "\<exists>date. seriesYear st date = Inr (Some y)" by blast
qed

lemma isSupportedYearPrefix_iff:
  "isSupportedYearPrefix t target \<longleftrightarrow>
     (\<exists>y. printableYear (candidateSettings target) y \<and> t = padStart 4 (showInt y))"
proof
  assume l: "isSupportedYearPrefix t target"
  then have t: "length t = 4" "allDigits t" by (auto simp: isSupportedYearPrefix_def split: if_splits)
  let ?y = "int (parseDigits t)"
  have y: "printableYear (candidateSettings target) ?y"
    using l by (auto simp: isSupportedYearPrefix_def Let_def printableYear_def candidateSettings_def
        maximumSupportedInvoiceYear_def split: if_splits)
  then have "0 \<le> ?y" "?y \<le> 9999" by (auto simp: printableYear_def)
  then have "allDigits (padStart 4 (showInt ?y))" "length (padStart 4 (showInt ?y)) = 4"
    "parseDigits (padStart 4 (showInt ?y)) = parseDigits t"
    using length_yearPrefix [of ?y] by (simp_all add: showInt_nonneg)
  then have "t = padStart 4 (showInt ?y)"
    using t by (intro parseDigits_inj_length) (auto simp: allDigits_def)
  with y show "\<exists>y. printableYear (candidateSettings target) y \<and> t = padStart 4 (showInt y)" by blast
next
  assume "\<exists>y. printableYear (candidateSettings target) y \<and> t = padStart 4 (showInt y)"
  then obtain y where y: "printableYear (candidateSettings target) y" "t = padStart 4 (showInt y)" by blast
  then have b: "0 \<le> y" "y \<le> 9999" by (auto simp: printableYear_def split: if_splits)
  then have "length t = 4" "allDigits t" "int (parseDigits t) = y"
    using y(2) length_yearPrefix by (simp_all add: showInt_nonneg)
  then show "isSupportedYearPrefix t target"
    using y(1) b by (auto simp: isSupportedYearPrefix_def Let_def printableYear_def
        candidateSettings_def maximumSupportedInvoiceYear_def isSafeInteger_def MAX_SAFE_INTEGER_def)
qed

text \<open>
  The numbers the series of a candidate can print at position \<open>n\<close>, whatever the date.
\<close>

definition printedAt :: "InvoiceNumberingSeriesCandidate \<Rightarrow> int \<Rightarrow> string \<Rightarrow> bool" where
  "printedAt target n s \<longleftrightarrow> (\<exists>date. formatInvoiceNumber (candidateSettings target) date n = Inr s)"

lemma printedAt_plain:
  assumes "nc_mode target = PlainSequence" "validSettings (candidateSettings target)"
  shows "printedAt target n s \<longleftrightarrow>
    1 \<le> n \<and> n \<le> MAX_SAFE_INTEGER \<and> s = padStart (nat (nc_sequencePadding target)) (showInt n)"
  using assms
  by (auto simp: printedAt_def formatInvoiceNumber_eq_Inr seriesYear_def yearPrefix_def
      sequencePart_def candidateSettings_def)

lemma printedAt_year:
  assumes "nc_mode target \<noteq> PlainSequence" "validSettings (candidateSettings target)"
  shows "printedAt target n s \<longleftrightarrow>
    1 \<le> n \<and> n \<le> MAX_SAFE_INTEGER \<and>
    (\<exists>y. printableYear (candidateSettings target) y \<and>
       s = padStart 4 (showInt y) @ padStart (nat (nc_sequencePadding target)) (showInt n))"
proof -
  let ?st = "candidateSettings target"
  have mode: "ns_mode ?st \<noteq> PlainSequence" using assms(1) by (simp add: candidateSettings_def)
  have "printedAt target n s \<longleftrightarrow> 1 \<le> n \<and> n \<le> MAX_SAFE_INTEGER \<and>
      (\<exists>date y. seriesYear ?st date = Inr (Some y) \<and>
        s = padStart 4 (showInt y) @ sequencePart ?st n)"
  proof -
    have "(\<exists>y. seriesYear ?st date = Inr y \<and> s = yearPrefix y @ sequencePart ?st n) \<longleftrightarrow>
        (\<exists>y. seriesYear ?st date = Inr (Some y) \<and> s = padStart 4 (showInt y) @ sequencePart ?st n)" for date
    proof -
      have "(seriesYear ?st date = Inr y \<and> s = yearPrefix y @ sequencePart ?st n) \<longleftrightarrow>
          (\<exists>k. y = Some k \<and> seriesYear ?st date = Inr (Some k) \<and>
            s = padStart 4 (showInt k) @ sequencePart ?st n)" for y
        using mode seriesYear_None [of ?st date y] by (cases y) (auto simp: yearPrefix_def)
      then show ?thesis by blast
    qed
    then show ?thesis using assms(2) unfolding printedAt_def formatInvoiceNumber_eq_Inr by blast
  qed
  also have "\<dots> \<longleftrightarrow> 1 \<le> n \<and> n \<le> MAX_SAFE_INTEGER \<and>
      (\<exists>y. printableYear ?st y \<and> s = padStart 4 (showInt y) @ sequencePart ?st n)"
    using seriesYear_iff_printable [OF assms(2) mode] by blast
  finally show ?thesis by (simp add: sequencePart_def candidateSettings_def)
qed

lemma findCollision_iff:
  assumes v: "validSettings (candidateSettings target)" and mx: "mx \<le> MAX_SAFE_INTEGER"
  shows "findLargestCollidingSequenceNumber s target mx = Some n \<longleftrightarrow> printedAt target n s \<and> n \<le> mx"
proof -
  have k: "0 \<le> nc_sequencePadding target" using v by (simp add: validSettings_def candidateSettings_def)
  note parse = parseProducedSequenceNumber_eq_Some [OF k]
  show ?thesis
  proof (cases "nc_mode target = PlainSequence")
    case True
    then show ?thesis
      using mx by (auto simp: findLargestCollidingSequenceNumber_def parse printedAt_plain [OF True v])
  next
    case False
    let ?part = "padStart (nat (nc_sequencePadding target)) (showInt n)"
    have "findLargestCollidingSequenceNumber s target mx = Some n \<longleftrightarrow>
        4 < length s \<and> isSupportedYearPrefix (take 4 s) target \<and> 1 \<le> n \<and> n \<le> mx \<and> drop 4 s = ?part"
      using False by (auto simp: findLargestCollidingSequenceNumber_def parse constants)
    also have "\<dots> \<longleftrightarrow> 1 \<le> n \<and> n \<le> mx \<and>
        (\<exists>y. printableYear (candidateSettings target) y \<and> s = padStart 4 (showInt y) @ ?part)"
      (is "_ \<longleftrightarrow> ?r")
    proof
      assume l: "4 < length s \<and> isSupportedYearPrefix (take 4 s) target \<and> 1 \<le> n \<and> n \<le> mx \<and>
        drop 4 s = ?part"
      then obtain y where "printableYear (candidateSettings target) y" "take 4 s = padStart 4 (showInt y)"
        unfolding isSupportedYearPrefix_iff by blast
      moreover have "s = take 4 s @ drop 4 s" by simp
      ultimately show ?r using l by metis
    next
      assume ?r
      then obtain y where y: "printableYear (candidateSettings target) y"
        "s = padStart 4 (showInt y) @ ?part" and n: "1 \<le> n" "n \<le> mx" by blast
      then have "0 \<le> y" "y \<le> 9999" by (auto simp: printableYear_def split: if_splits)
      then have len: "length (padStart 4 (showInt y)) = 4" by (rule length_yearPrefix)
      have "?part \<noteq> []" using n(1) by (auto simp: padStart_def showInt_nonneg)
      then have "0 < length ?part" by simp
      then show "4 < length s \<and> isSupportedYearPrefix (take 4 s) target \<and> 1 \<le> n \<and> n \<le> mx \<and>
        drop 4 s = ?part"
        using y(1) n len unfolding y(2) isSupportedYearPrefix_iff by (intro conjI) auto
    qed
    finally show ?thesis using mx by (auto simp: printedAt_year [OF False v])
  qed
qed

section \<open>Safe and minimal\<close>

definition numericNumber :: "string \<Rightarrow> bool" where
  "numericNumber s \<longleftrightarrow> allDigits s \<and> length s \<le> 19"

definition collisionOf :: "InvoiceNumberingSeriesCandidate \<Rightarrow> int \<Rightarrow> string \<Rightarrow> int option" where
  "collisionOf target mx s = findLargestCollidingSequenceNumber s target mx"

lemma collisionSteps_facts:
  assumes v: "validSettings (candidateSettings target)" and mx: "mx \<le> MAX_SAFE_INTEGER"
    and l: "foldR (collisionStep target mx) 0 existing = Inr l"
  shows "\<forall>s \<in> set existing. numericNumber s"
    and "\<forall>s \<in> set existing. \<forall>n. printedAt target n s \<and> n \<le> mx \<longrightarrow> n \<le> l"
    and "0 \<le> l" and "l = 0 \<or> (l \<le> mx \<and> (\<exists>s \<in> set existing. printedAt target l s))"
proof -
  have "(\<forall>s \<in> set existing. numericNumber s) \<and>
      (\<forall>s \<in> set existing. \<forall>n. printedAt target n s \<and> n \<le> mx \<longrightarrow> n \<le> l) \<and> 0 \<le> l \<and>
      (l = 0 \<or> (l \<le> mx \<and> (\<exists>s \<in> set existing. printedAt target l s)))"
    using l
  proof (induction existing arbitrary: l rule: rev_induct)
    case Nil
    then show ?case by simp
  next
    case (snoc s ss)
    then obtain l0 where l0: "foldR (collisionStep target mx) 0 ss = Inr l0"
      and step: "collisionStep target mx l0 s = Inr l"
      by (auto simp: foldR_append result_simps)
    note IH = snoc.IH [OF l0]
    have num: "numericNumber s"
      using step by (auto simp: collisionStep_def result_simps numericNumber_def)
    show ?case
    proof (cases "findLargestCollidingSequenceNumber s target mx")
      case None
      then have no: "\<not> (printedAt target n s \<and> n \<le> mx)" for n
        using findCollision_iff [OF v mx, of s n] by simp
      have "l = l0" using step None by (auto simp: collisionStep_def result_simps)
      with IH num no show ?thesis by auto
    next
      case (Some c)
      then have c: "printedAt target c s" "c \<le> mx" using findCollision_iff [OF v mx] by blast+
      have only: "n = c" if "printedAt target n s" "n \<le> mx" for n
        using that findCollision_iff [OF v mx, of s n] Some by simp
      have "l = max l0 c" using step Some by (auto simp: collisionStep_def result_simps max_def)
      moreover have "\<forall>n. printedAt target n s \<and> n \<le> mx \<longrightarrow> n \<le> max l0 c" using only by auto
      moreover have "\<forall>x \<in> set ss. \<forall>n. printedAt target n x \<and> n \<le> mx \<longrightarrow> n \<le> max l0 c"
        using IH by (meson max.coboundedI1)
      moreover have "max l0 c = 0 \<or> (max l0 c \<le> mx \<and> (\<exists>x \<in> set (ss @ [s]). printedAt target (max l0 c) x))"
        using IH c by (cases "c \<le> l0") (auto simp: max_def)
      ultimately show ?thesis using IH num by auto
    qed
  qed
  then show "\<forall>s \<in> set existing. numericNumber s"
    "\<forall>s \<in> set existing. \<forall>n. printedAt target n s \<and> n \<le> mx \<longrightarrow> n \<le> l"
    "0 \<le> l" "l = 0 \<or> (l \<le> mx \<and> (\<exists>s \<in> set existing. printedAt target l s))"
    by blast+
qed

text \<open>Beyond the largest position of a year-based series the printed number has 20 digits.\<close>

lemma printed_beyond_maximum:
  assumes v: "validSettings (candidateSettings target)" and p: "printedAt target n s"
    and n: "getMaximumSequenceNumber (nc_mode target) < n"
  shows "19 < length s"
proof (cases "nc_mode target = PlainSequence")
  case True
  then show ?thesis
    using p n printedAt_plain [OF True v] by (simp add: getMaximumSequenceNumber_def constants)
next
  case False
  then have n': "999999999999999 < n" using n by (simp add: getMaximumSequenceNumber_def constants)
  obtain y where y: "printableYear (candidateSettings target) y"
    "s = padStart 4 (showInt y) @ padStart (nat (nc_sequencePadding target)) (showInt n)"
    using p unfolding printedAt_year [OF False v] by blast
  then have "length (padStart 4 (showInt y)) = 4"
    by (intro length_yearPrefix) (auto simp: printableYear_def split: if_splits)
  moreover have "\<not> nat n < 10 ^ 15" using n' by simp
  then have "\<not> length (showNat (nat n)) \<le> 15" using length_showNat_le_iff [of 15 "nat n"] by simp
  ultimately show ?thesis using y(2) n' by (simp add: length_padStart showInt_nonneg)
qed

lemma calculateMinimumSafe_facts:
  assumes r: "calculateMinimumSafeInvoiceSequenceNumber
      \<lparr>mi_existingInvoiceNumbers = existing, mi_target = target\<rparr> = Inr r"
  defines "mx \<equiv> getMaximumSequenceNumber (nc_mode target)"
  shows "validSettings (candidateSettings target)" and "\<forall>s \<in> set existing. numericNumber s"
    and "mr_maximumSequenceNumber r = mx"
    and "mr_capacity r = Exhausted \<Longrightarrow> mr_minimumSafeFirstSequenceNumber r = None \<and>
      (\<exists>s \<in> set existing. printedAt target mx s)"
    and "mr_capacity r = Available \<Longrightarrow>
      \<exists>m. mr_minimumSafeFirstSequenceNumber r = Some m \<and> 1 \<le> m \<and> m \<le> mx \<and>
        (\<forall>n s. m \<le> n \<and> printedAt target n s \<longrightarrow> s \<notin> set existing) \<and>
        (m = 1 \<or> (\<exists>s \<in> set existing. printedAt target (m - 1) s))"
proof -
  obtain l where v: "validSettings (candidateSettings target)"
    and l: "foldR (collisionStep target mx) 0 existing = Inr l"
    and res: "r = (if l \<ge> mx then
       \<lparr>mr_capacity = Exhausted, mr_maximumSequenceNumber = mx,
            mr_minimumSafeFirstSequenceNumber = None\<rparr>
     else \<lparr>mr_capacity = Available, mr_maximumSequenceNumber = mx,
            mr_minimumSafeFirstSequenceNumber = Some (l + 1)\<rparr>)"
    using r unfolding mx_def
    by (auto simp: calculateMinimumSafeInvoiceSequenceNumber_def result_simps Let_def split: if_splits)
  note b = getMaximumSequenceNumber_bounds [of "nc_mode target", folded mx_def]
  note facts = collisionSteps_facts [OF v b(2) l]
  show "validSettings (candidateSettings target)" by (rule v)
  show num: "\<forall>s \<in> set existing. numericNumber s" by (rule facts(1))
  show "mr_maximumSequenceNumber r = mx" by (simp add: res)
  show "mr_minimumSafeFirstSequenceNumber r = None \<and> (\<exists>s \<in> set existing. printedAt target mx s)"
    if "mr_capacity r = Exhausted"
  proof -
    have "mx \<le> l" using that by (simp add: res split: if_splits)
    with facts(4) b(1) have "l = mx" "\<exists>s \<in> set existing. printedAt target l s" by auto
    with \<open>mx \<le> l\<close> show ?thesis by (simp add: res)
  qed
  show "\<exists>m. mr_minimumSafeFirstSequenceNumber r = Some m \<and> 1 \<le> m \<and> m \<le> mx \<and>
        (\<forall>n s. m \<le> n \<and> printedAt target n s \<longrightarrow> s \<notin> set existing) \<and>
        (m = 1 \<or> (\<exists>s \<in> set existing. printedAt target (m - 1) s))"
    if "mr_capacity r = Available"
  proof (intro exI [of _ "l + 1"] conjI allI impI)
    have lt: "l < mx" using that by (simp add: res split: if_splits)
    then show "mr_minimumSafeFirstSequenceNumber r = Some (l + 1)" "l + 1 \<le> mx" by (simp_all add: res)
    show "1 \<le> l + 1" using facts(3) by simp
    show "l + 1 = 1 \<or> (\<exists>s \<in> set existing. printedAt target (l + 1 - 1) s)" using facts(4) by auto
    fix n s
    assume n: "l + 1 \<le> n \<and> printedAt target n s"
    show "s \<notin> set existing"
    proof
      assume mem: "s \<in> set existing"
      then have "\<not> n \<le> mx" using facts(2) n by fastforce
      then have "19 < length s" using printed_beyond_maximum [OF v] n unfolding mx_def by auto
      with num mem show False by (auto simp: numericNumber_def)
    qed
  qed
qed

lemma calculateMinimumSafe_succeeds:
  "succeeds (calculateMinimumSafeInvoiceSequenceNumber
      \<lparr>mi_existingInvoiceNumbers = existing, mi_target = target\<rparr>) \<longleftrightarrow>
    validSettings (candidateSettings target) \<and> (\<forall>s \<in> set existing. numericNumber s)"
proof -
  have "succeeds (foldR (collisionStep target mx) l existing) \<longleftrightarrow> (\<forall>s \<in> set existing. numericNumber s)" for l mx
  proof (induction existing arbitrary: l)
    case Nil
    then show ?case by simp
  next
    case (Cons s ss)
    show ?case
    proof (cases "numericNumber s")
      case True
      then obtain l' where "collisionStep target mx l s = Inr l'"
        by (auto simp: collisionStep_def result_simps numericNumber_def)
      with Cons True show ?thesis by simp
    next
      case False
      then have "\<not> succeeds (collisionStep target mx l s)"
        by (auto simp: collisionStep_def succeeds_iff result_simps numericNumber_def)
      with False show ?thesis by (auto simp: succeeds_andThen succeeds_iff result_simps)
    qed
  qed
  note steps = this
  let ?mx = "getMaximumSequenceNumber (nc_mode target)"
  have "succeeds (calculateMinimumSafeInvoiceSequenceNumber
      \<lparr>mi_existingInvoiceNumbers = existing, mi_target = target\<rparr>) \<longleftrightarrow>
    validSettings (candidateSettings target) \<and> succeeds (foldR (collisionStep target ?mx) 0 existing)"
    by (auto simp: calculateMinimumSafeInvoiceSequenceNumber_def succeeds_andThen result_simps Let_def)
      (auto simp: succeeds_iff)
  then show ?thesis by (simp only: steps)
qed

lemma validateFirst_ok [result_simps]:
  "validateInvoiceNumberingSeriesFirstSequenceNumber n r = Inr u \<longleftrightarrow>
     mr_capacity r = Available \<and>
     (\<exists>m. mr_minimumSafeFirstSequenceNumber r = Some m \<and> isSafeInteger n \<and> m \<le> n \<and>
       n \<le> mr_maximumSequenceNumber r)"
  by (auto simp: validateInvoiceNumberingSeriesFirstSequenceNumber_def not_less
      split: SeriesCapacity.splits option.splits)

end
