(* ===== verification/NumberingSeries.thy ===== *)
theory NumberingSeries
  imports NumberingStore SafeStart Actor
begin

text \<open>
  Numbering series: their domain rules (\<open>domain/invoiceNumberingSeries.ts\<close>), the
  repository that reads the active series and activates a new one in a transaction
  (\<open>infrastructure/sqliteInvoiceNumberingSeriesRepository.ts\<close>), and the application
  functions around it (\<open>application/activateInvoiceNumberingSeries.ts\<close>,
  \<open>previewInvoiceNumberingSeriesActivation.ts\<close>, \<open>getInvoiceNumberingSeriesOverview.ts\<close>,
  \<open>invoiceNumberingSeriesView.ts\<close>).
\<close>

section \<open>Domain\<close>

definition activateInvoiceNumberingSeriesConfirmation :: string where
  "activateInvoiceNumberingSeriesConfirmation =
     ''OTA UUSI LASKUNUMEROSARJA K'' @ [CHR 0xC4] @ ''YTT'' @ [CHR 0xD6, CHR 0xD6] @ ''N''"

definition maximumInvoiceNumberingSeriesReasonNoteLength :: nat where
  "maximumInvoiceNumberingSeriesReasonNoteLength = 500"

definition invoiceNumberingSeriesReasonCodes :: "string list" where
  "invoiceNumberingSeriesReasonCodes =
     [''legalRequirement'', ''accountingRequirement'', ''organizationalChange'', ''other'']"

record InvoiceNumberingActiveSeries =
  as_companyId :: string
  as_activeSeriesKey :: string
  as_revision :: number
  as_updatedAt :: string
  as_updatedBy :: string

record InvoiceNumberingSeriesEvent =
  ev_id :: string
  ev_companyId :: string
  ev_actorUserId :: string
  ev_previousSeriesKey :: string
  ev_nextSeriesKey :: string
  ev_reasonCode :: string
  ev_reasonNote :: "string option"
  ev_occurredAt :: string

record InvoiceNumberingSeriesHistoryEntry =
  he_event :: InvoiceNumberingSeriesEvent
  he_settings :: StoredInvoiceNumberingSettings

record InvoiceNumberingSeriesOverview =
  ov_activeSeries :: InvoiceNumberingActiveSeries
  ov_activeSettings :: StoredInvoiceNumberingSettings
  ov_history :: "InvoiceNumberingSeriesHistoryEntry list"

definition requireNonEmpty :: "string \<Rightarrow> string \<Rightarrow> unit result" where
  "requireNonEmpty value fieldName =
     (if length (trim value) = 0
      then Inl (InvoiceNumberingError (fieldName @ '' is required.'')) else Inr ())"

definition validateInvoiceNumberingActiveSeries :: "InvoiceNumberingActiveSeries \<Rightarrow> unit result" where
  "validateInvoiceNumberingActiveSeries activeSeries =
     andThen (requireNonEmpty (as_companyId activeSeries) ''Company id'') (\<lambda>_.
     andThen (requireNonEmpty (as_updatedAt activeSeries) ''Updated timestamp'') (\<lambda>_.
     andThen (requireNonEmpty (as_updatedBy activeSeries) ''Updated by'') (\<lambda>_.
     andThen (validateInvoiceNumberSeriesKey (as_activeSeriesKey activeSeries)) (\<lambda>_.
     if \<not> isSafeInteger (as_revision activeSeries) \<or> as_revision activeSeries < 1
     then Inl (InvoiceNumberingError
       ''Invoice numbering series revision must be a positive safe integer.'')
     else Inr ()))))"

text \<open>The class \<open>[\u0000-\u0008\u000B\u000C\u000E-\u001F\u007F]\<close>.\<close>

definition isNoteControlChar :: "char \<Rightarrow> bool" where
  "isNoteControlChar c \<longleftrightarrow>
     code c \<le> 8 \<or> code c = 11 \<or> code c = 12 \<or> (14 \<le> code c \<and> code c \<le> 31) \<or> code c = 127"

definition normalizeInvoiceNumberingSeriesReasonNote :: "string option \<Rightarrow> string option result" where
  "normalizeInvoiceNumberingSeriesReasonNote reasonNote =
     (case reasonNote of
        None \<Rightarrow> Inr None
      | Some note \<Rightarrow>
          let normalized = trim note in
          if length normalized = 0 then Inr None
          else if length normalized > maximumInvoiceNumberingSeriesReasonNoteLength \<or>
             (\<exists>c \<in> set normalized. isNoteControlChar c)
          then Inl (InvoiceNumberingError ''Invoice numbering series reason note is invalid.'')
          else Inr (Some normalized))"

definition validateInvoiceNumberingSeriesEvent :: "InvoiceNumberingSeriesEvent \<Rightarrow> unit result" where
  "validateInvoiceNumberingSeriesEvent event =
     andThen (requireNonEmpty (ev_id event) ''Event id'') (\<lambda>_.
     andThen (requireNonEmpty (ev_companyId event) ''Company id'') (\<lambda>_.
     andThen (requireNonEmpty (ev_actorUserId event) ''Actor user id'') (\<lambda>_.
     andThen (requireNonEmpty (ev_occurredAt event) ''Occurred timestamp'') (\<lambda>_.
     andThen (validateInvoiceNumberSeriesKey (ev_previousSeriesKey event)) (\<lambda>_.
     andThen (validateInvoiceNumberSeriesKey (ev_nextSeriesKey event)) (\<lambda>_.
     if ev_previousSeriesKey event = ev_nextSeriesKey event then
       Inl (InvoiceNumberingError
         ''Invoice numbering series transition must change the active series.'')
     else if ev_reasonCode event \<notin> set invoiceNumberingSeriesReasonCodes then
       Inl (InvoiceNumberingError ''Invoice numbering series reason code is invalid.'')
     else
     andThen (normalizeInvoiceNumberingSeriesReasonNote (ev_reasonNote event)) (\<lambda>note.
     if note \<noteq> ev_reasonNote event then
       Inl (InvoiceNumberingError ''Invoice numbering series reason note must be normalized.'')
     else Inr ())))))))"

definition validateHistoryEntry ::
    "InvoiceNumberingSeriesOverview \<Rightarrow> InvoiceNumberingSeriesHistoryEntry \<Rightarrow> unit result" where
  "validateHistoryEntry overview entry =
     andThen (validateInvoiceNumberingSeriesEvent (he_event entry)) (\<lambda>_.
     andThen (validateInvoiceNumberingSettings (he_settings entry)) (\<lambda>_.
     if ev_companyId (he_event entry) \<noteq> as_companyId (ov_activeSeries overview) \<or>
        ns_companyId (he_settings entry) \<noteq> as_companyId (ov_activeSeries overview) \<or>
        ns_seriesKey (he_settings entry) \<noteq> ev_previousSeriesKey (he_event entry)
     then Inl (InvoiceNumberingError ''Invoice numbering series history is inconsistent.'')
     else Inr ()))"

definition validateInvoiceNumberingSeriesOverview ::
    "InvoiceNumberingSeriesOverview \<Rightarrow> unit result" where
  "validateInvoiceNumberingSeriesOverview overview =
     andThen (validateInvoiceNumberingActiveSeries (ov_activeSeries overview)) (\<lambda>_.
     andThen (validateInvoiceNumberingSettings (ov_activeSettings overview)) (\<lambda>_.
     if ns_companyId (ov_activeSettings overview) \<noteq> as_companyId (ov_activeSeries overview) \<or>
        ns_seriesKey (ov_activeSettings overview) \<noteq> as_activeSeriesKey (ov_activeSeries overview)
     then Inl (InvoiceNumberingError ''Active invoice numbering series is inconsistent.'')
     else eachR (validateHistoryEntry overview) (ov_history overview)))"

section \<open>The repository\<close>

record ActivateInvoiceNumberingSeriesPersistenceInput =
  pi_activeSeries :: InvoiceNumberingActiveSeries
  pi_event :: InvoiceNumberingSeriesEvent
  pi_expectedActiveSeriesKey :: string
  pi_expectedRevision :: number
  pi_nextSettings :: StoredInvoiceNumberingSettings

datatype ActivationResult =
    Activated InvoiceNumberingSeriesOverview
  | ActivationConflict
  | ActivationNotFound
  | UnsafeFirstSequenceNumber

definition toNumberingSettingsOfRow ::
    "string \<Rightarrow> string \<Rightarrow> InvoiceNumberingSettingsRow \<Rightarrow> StoredInvoiceNumberingSettings" where
  "toNumberingSettingsOfRow companyId seriesKey row =
     \<lparr>ns_mode = rs_mode row, ns_fiscalYearStartMonth = rs_fiscal_year_start_month row,
      ns_sequencePadding = rs_sequence_padding row,
      ns_firstSequenceNumber = rs_first_sequence_number row,
      ns_companyId = companyId, ns_seriesKey = seriesKey,
      ns_createdAt = rs_created_at row, ns_updatedAt = rs_updated_at row\<rparr>"

definition toEvent :: "InvoiceNumberingSeriesEventRow \<Rightarrow> InvoiceNumberingSeriesEvent" where
  "toEvent row =
     \<lparr>ev_id = re_id row, ev_companyId = re_company_id row,
      ev_actorUserId = re_actor_user_id row, ev_previousSeriesKey = re_previous_series_key row,
      ev_nextSeriesKey = re_next_series_key row, ev_reasonCode = re_reason_code row,
      ev_reasonNote = re_reason_note row, ev_occurredAt = re_occurred_at row\<rparr>"

definition readActiveSeries ::
    "NumberingDatabase \<Rightarrow> string \<Rightarrow> InvoiceNumberingActiveSeriesRow option" where
  "readActiveSeries db companyId = rowWith ra_company_id companyId (db_activeSeries db)"

definition readExistingInvoiceNumbers :: "NumberingDatabase \<Rightarrow> string \<Rightarrow> string list" where
  "readExistingInvoiceNumbers db companyId =
     map ri_invoice_number (filter (\<lambda>r. ri_company_id r = companyId) (db_invoices db))"

text \<open>
  The join of the events with the settings of the series they replaced, newest first
  (\<open>ORDER BY occurred_at DESC, id DESC\<close>; ids are unique).
\<close>

definition readHistoryRows ::
    "NumberingDatabase \<Rightarrow> string \<Rightarrow>
     (InvoiceNumberingSeriesEventRow \<times> InvoiceNumberingSettingsRow) list" where
  "readHistoryRows db companyId =
     concat (map (\<lambda>e.
         case rowWith settingsKey (re_company_id e, re_previous_series_key e) (db_settings db) of
           None \<Rightarrow> []
         | Some st \<Rightarrow> [(e, st)])
       (rev (sort_key re_occurred_at (sort_key re_id
         (filter (\<lambda>e. re_company_id e = companyId) (db_seriesEvents db))))))"

definition readOverview :: "NumberingDatabase \<Rightarrow> string \<Rightarrow> InvoiceNumberingSeriesOverview option" where
  "readOverview db companyId =
     (case readActiveSeries db companyId of
        None \<Rightarrow> None
      | Some active \<Rightarrow>
          (case rowWith settingsKey (ra_company_id active, ra_active_series_key active)
                  (db_settings db) of
             None \<Rightarrow> None
           | Some st \<Rightarrow> Some
               \<lparr>ov_activeSeries =
                  \<lparr>as_companyId = ra_company_id active,
                   as_activeSeriesKey = ra_active_series_key active,
                   as_revision = ra_revision active, as_updatedAt = ra_updated_at active,
                   as_updatedBy = ra_updated_by active\<rparr>,
                ov_activeSettings =
                  toNumberingSettingsOfRow (ra_company_id active) (ra_active_series_key active) st,
                ov_history =
                  map (\<lambda>(e, s).
                      \<lparr>he_event = toEvent e,
                       he_settings =
                         toNumberingSettingsOfRow (re_company_id e) (re_previous_series_key e) s\<rparr>)
                    (readHistoryRows db companyId)\<rparr>))"

definition getOverview ::
    "NumberingDatabase \<Rightarrow> string \<Rightarrow> InvoiceNumberingSeriesOverview option result" where
  "getOverview db companyId =
     andThen (requireCompanyId companyId) (\<lambda>_. Inr (readOverview db companyId))"

definition getActivationPreview ::
    "NumberingDatabase \<Rightarrow> string \<Rightarrow> InvoiceNumberingSeriesCandidate \<Rightarrow>
     MinimumSafeInvoiceSequenceNumberResult option result" where
  "getActivationPreview db companyId target =
     andThen (requireCompanyId companyId) (\<lambda>_.
     if readActiveSeries db companyId = None then Inr None
     else andThen (calculateMinimumSafeInvoiceSequenceNumber
              \<lparr>mi_existingInvoiceNumbers = readExistingInvoiceNumbers db companyId,
               mi_target = target\<rparr>) (\<lambda>r. Inr (Some r)))"

definition validateActivationInput ::
    "ActivateInvoiceNumberingSeriesPersistenceInput \<Rightarrow> unit result" where
  "validateActivationInput input =
     andThen (validateInvoiceNumberingActiveSeries (pi_activeSeries input)) (\<lambda>_.
     andThen (validateInvoiceNumberingSeriesEvent (pi_event input)) (\<lambda>_.
     andThen (requireCompanyId (ns_companyId (pi_nextSettings input))) (\<lambda>_.
     andThen (validateInvoiceNumberSeriesKey (pi_expectedActiveSeriesKey input)) (\<lambda>_.
     andThen (validateInvoiceNumberSeriesKey (ns_seriesKey (pi_nextSettings input))) (\<lambda>_.
     andThen (validateInvoiceNumberingSettings (pi_nextSettings input)) (\<lambda>_.
     if \<not> isSafeInteger (pi_expectedRevision input) \<or> pi_expectedRevision input < 1 \<or>
        as_companyId (pi_activeSeries input) \<noteq> ns_companyId (pi_nextSettings input) \<or>
        as_companyId (pi_activeSeries input) \<noteq> ev_companyId (pi_event input) \<or>
        as_activeSeriesKey (pi_activeSeries input) \<noteq> ns_seriesKey (pi_nextSettings input) \<or>
        as_activeSeriesKey (pi_activeSeries input) \<noteq> ev_nextSeriesKey (pi_event input) \<or>
        pi_expectedActiveSeriesKey input \<noteq> ev_previousSeriesKey (pi_event input) \<or>
        as_revision (pi_activeSeries input) \<noteq> jsAdd (pi_expectedRevision input) 1
     then Inl (InvoiceNumberingError ''Invoice numbering series activation input is inconsistent.'')
     else Inr ()))))))"

definition insertSettings ::
    "NumberingDatabase \<Rightarrow> StoredInvoiceNumberingSettings \<Rightarrow> NumberingDatabase result" where
  "insertSettings db settings =
     (let row = toInvoiceNumberingSettingsRow settings in
      if rowWith settingsKey (settingsKey row) (db_settings db) \<noteq> None
      then Inl (SqliteError ''UNIQUE constraint failed: invoice_numbering_settings'')
      else Inr (db\<lparr>db_settings := db_settings db @ [row]\<rparr>))"

definition insertEvent ::
    "NumberingDatabase \<Rightarrow> InvoiceNumberingSeriesEvent \<Rightarrow> NumberingDatabase result" where
  "insertEvent db event =
     (if ev_id event \<in> re_id ` set (db_seriesEvents db)
      then Inl (SqliteError ''UNIQUE constraint failed: invoice_numbering_series_events.id'')
      else if rowWith settingsKey (ev_companyId event, ev_previousSeriesKey event) (db_settings db) = None \<or>
        rowWith settingsKey (ev_companyId event, ev_nextSeriesKey event) (db_settings db) = None
      then Inl (SqliteError ''FOREIGN KEY constraint failed'')
      else Inr (db\<lparr>db_seriesEvents := db_seriesEvents db @
        [\<lparr>re_id = ev_id event, re_company_id = ev_companyId event,
          re_actor_user_id = ev_actorUserId event,
          re_previous_series_key = ev_previousSeriesKey event,
          re_next_series_key = ev_nextSeriesKey event, re_reason_code = ev_reasonCode event,
          re_reason_note = ev_reasonNote event, re_occurred_at = ev_occurredAt event\<rparr>]\<rparr>))"

text \<open>The pointer is changed where it still is the expected one; the result is the count of changes.\<close>

definition updateActivePointer ::
    "NumberingDatabase \<Rightarrow> ActivateInvoiceNumberingSeriesPersistenceInput \<Rightarrow>
     NumberingDatabase \<times> nat" where
  "updateActivePointer db input =
     (let matches = (\<lambda>r. ra_company_id r = as_companyId (pi_activeSeries input) \<and>
            ra_active_series_key r = pi_expectedActiveSeriesKey input \<and>
            ra_revision r = pi_expectedRevision input) in
      (db\<lparr>db_activeSeries := updateRows matches
          (\<lambda>r. r\<lparr>ra_active_series_key := as_activeSeriesKey (pi_activeSeries input),
                 ra_revision := as_revision (pi_activeSeries input),
                 ra_updated_at := as_updatedAt (pi_activeSeries input),
                 ra_updated_by := as_updatedBy (pi_activeSeries input)\<rparr>)
          (db_activeSeries db)\<rparr>,
       length (filter matches (db_activeSeries db))))"

definition activate ::
    "NumberingDatabase \<Rightarrow> ActivateInvoiceNumberingSeriesPersistenceInput \<Rightarrow>
     (NumberingDatabase \<times> ActivationResult) result" where
  "activate db input =
     andThen (validateActivationInput input) (\<lambda>_.
     case readActiveSeries db (as_companyId (pi_activeSeries input)) of
       None \<Rightarrow> Inr (db, ActivationNotFound)
     | Some current \<Rightarrow>
     if ra_active_series_key current \<noteq> pi_expectedActiveSeriesKey input \<or>
        ra_revision current \<noteq> pi_expectedRevision input
     then Inr (db, ActivationConflict)
     else if rowWith settingsKey
         (ns_companyId (pi_nextSettings input), ns_seriesKey (pi_nextSettings input))
         (db_settings db) \<noteq> None
     then Inr (db, ActivationConflict)
     else
     andThen (calculateMinimumSafeInvoiceSequenceNumber
         \<lparr>mi_existingInvoiceNumbers =
            readExistingInvoiceNumbers db (ns_companyId (pi_nextSettings input)),
          mi_target =
            \<lparr>nc_mode = ns_mode (pi_nextSettings input),
             nc_fiscalYearStartMonth = ns_fiscalYearStartMonth (pi_nextSettings input),
             nc_sequencePadding = ns_sequencePadding (pi_nextSettings input)\<rparr>\<rparr>) (\<lambda>safeStart.
     case validateInvoiceNumberingSeriesFirstSequenceNumber
            (ns_firstSequenceNumber (pi_nextSettings input)) safeStart of
       Inl _ \<Rightarrow> Inr (db, UnsafeFirstSequenceNumber)
     | Inr _ \<Rightarrow>
     andThen (insertSettings db (pi_nextSettings input)) (\<lambda>db1.
     case updateActivePointer db1 input of
       (db2, changes) \<Rightarrow>
     if changes \<noteq> 1
     then Inl (InvoiceNumberingError
       ''Active invoice numbering series changed during activation.'')
     else
     andThen (insertEvent db2 (pi_event input)) (\<lambda>db3.
     case readOverview db3 (as_companyId (pi_activeSeries input)) of
       None \<Rightarrow> Inl (InvoiceNumberingError ''Activated invoice numbering series was not found.'')
     | Some overview \<Rightarrow>
         andThen (validateInvoiceNumberingSeriesOverview overview) (\<lambda>_.
         Inr (db3, Activated overview))))))"

section \<open>Views\<close>

record InvoiceNumberingSeriesSettingsView =
  sv_mode :: InvoiceNumberingMode
  sv_fiscalYearStartMonth :: number
  sv_sequencePadding :: number
  sv_firstSequenceNumber :: number
  sv_createdAt :: string

record InvoiceNumberingSeriesHistoryView =
  hv_previousSeries :: InvoiceNumberingSeriesSettingsView
  hv_replacedAt :: string

record InvoiceNumberingSeriesOverviewView =
  vw_activeSeries :: InvoiceNumberingSeriesSettingsView
  vw_activatedAt :: string
  vw_activationConfirmationText :: string
  vw_history :: "InvoiceNumberingSeriesHistoryView list"
  vw_revision :: number

definition toSettingsView :: "StoredInvoiceNumberingSettings \<Rightarrow> InvoiceNumberingSeriesSettingsView" where
  "toSettingsView settings =
     \<lparr>sv_mode = ns_mode settings, sv_fiscalYearStartMonth = ns_fiscalYearStartMonth settings,
      sv_sequencePadding = ns_sequencePadding settings,
      sv_firstSequenceNumber = ns_firstSequenceNumber settings,
      sv_createdAt = ns_createdAt settings\<rparr>"

definition toInvoiceNumberingSeriesOverviewView ::
    "InvoiceNumberingSeriesOverview \<Rightarrow> InvoiceNumberingSeriesOverviewView" where
  "toInvoiceNumberingSeriesOverviewView overview =
     \<lparr>vw_activeSeries = toSettingsView (ov_activeSettings overview),
      vw_activatedAt = as_updatedAt (ov_activeSeries overview),
      vw_activationConfirmationText = activateInvoiceNumberingSeriesConfirmation,
      vw_history = map (\<lambda>entry.
          \<lparr>hv_previousSeries = toSettingsView (he_settings entry),
           hv_replacedAt = ev_occurredAt (he_event entry)\<rparr>) (ov_history overview),
      vw_revision = as_revision (ov_activeSeries overview)\<rparr>"

definition getInvoiceNumberingSeriesOverview ::
    "NumberingDatabase \<Rightarrow> ActorContext \<Rightarrow> InvoiceNumberingSeriesOverviewView result" where
  "getInvoiceNumberingSeriesOverview db actorContext =
     andThen (requirePermission actorContext ''manageInvoiceNumberingSeries'') (\<lambda>_.
     andThen (getOverview db (ac_companyId actorContext)) (\<lambda>found.
     case found of
       None \<Rightarrow> Inl (InvoiceNumberingSeriesError ''notFound'' ''Invoice numbering series was not found.'')
     | Some overview \<Rightarrow>
         andThen (validateInvoiceNumberingSeriesOverview overview) (\<lambda>_.
         Inr (toInvoiceNumberingSeriesOverviewView overview))))"

section \<open>Preview and activation\<close>

record PreviewInvoiceNumberingSeriesActivationInput =
  pv_actorContext :: ActorContext
  pv_fiscalYearStartMonth :: number
  pv_mode :: InvoiceNumberingMode
  pv_previewDate :: string
  pv_sequencePadding :: number

record InvoiceNumberingSeriesActivationPreviewView =
  av_capacity :: SeriesCapacity
  av_maximumSequenceNumber :: number
  av_minimumFirstSequenceNumber :: "number option"
  av_previewDate :: string
  av_previewInvoiceNumber :: "string option"

definition previewInvoiceNumberingSeriesActivation ::
    "NumberingDatabase \<Rightarrow> PreviewInvoiceNumberingSeriesActivationInput \<Rightarrow>
     InvoiceNumberingSeriesActivationPreviewView result" where
  "previewInvoiceNumberingSeriesActivation db input =
     andThen (requirePermission (pv_actorContext input) ''manageInvoiceNumberingSeries'') (\<lambda>_.
     andThen (validateInvoiceNumberingSettings
         \<lparr>ns_mode = pv_mode input, ns_fiscalYearStartMonth = pv_fiscalYearStartMonth input,
          ns_sequencePadding = pv_sequencePadding input, ns_firstSequenceNumber = 1\<rparr>) (\<lambda>_.
     andThen (getActivationPreview db (ac_companyId (pv_actorContext input))
         \<lparr>nc_mode = pv_mode input, nc_fiscalYearStartMonth = pv_fiscalYearStartMonth input,
          nc_sequencePadding = pv_sequencePadding input\<rparr>) (\<lambda>found.
     case found of
       None \<Rightarrow> Inl (InvoiceNumberingSeriesError ''notFound'' ''Invoice numbering series was not found.'')
     | Some result \<Rightarrow>
     andThen (case (mr_capacity result, mr_minimumSafeFirstSequenceNumber result) of
         (Available, Some minimum) \<Rightarrow>
           andThen (formatInvoiceNumber
             \<lparr>ns_mode = pv_mode input, ns_fiscalYearStartMonth = pv_fiscalYearStartMonth input,
              ns_sequencePadding = pv_sequencePadding input, ns_firstSequenceNumber = minimum\<rparr>
             (pv_previewDate input) minimum) (\<lambda>s. Inr (Some s))
       | _ \<Rightarrow> Inr None) (\<lambda>previewNumber.
     Inr \<lparr>av_capacity = mr_capacity result,
          av_maximumSequenceNumber = mr_maximumSequenceNumber result,
          av_minimumFirstSequenceNumber = mr_minimumSafeFirstSequenceNumber result,
          av_previewDate = pv_previewDate input,
          av_previewInvoiceNumber = previewNumber\<rparr>))))"

record ActivateInvoiceNumberingSeriesInput =
  ia_actorContext :: ActorContext
  ia_confirmation :: string
  ia_currentRevision :: number
  ia_firstSequenceNumber :: number
  ia_fiscalYearStartMonth :: number
  ia_mode :: InvoiceNumberingMode
  ia_now :: string
  ia_reasonCode :: string
  ia_reasonNote :: "string option"
  ia_sequencePadding :: number

definition requireNonEmptyInput :: "string \<Rightarrow> string result" where
  "requireNonEmptyInput value =
     (let normalized = trim value in
      if length normalized = 0
      then Inl (InvoiceNumberingSeriesError ''conflict'' ''Invoice numbering series input is invalid.'')
      else Inr normalized)"

definition toApplicationError :: "ActivationResult \<Rightarrow> eky_error" where
  "toApplicationError outcome =
     (case outcome of
        ActivationNotFound \<Rightarrow>
          InvoiceNumberingSeriesError ''notFound'' ''Invoice numbering series was not found.''
      | UnsafeFirstSequenceNumber \<Rightarrow>
          InvoiceNumberingSeriesError ''unsafeFirstSequenceNumber'' ''First sequence number is not safe.''
      | _ \<Rightarrow> InvoiceNumberingSeriesError ''conflict''
          ''Invoice numbering series changed before activation.'')"

text \<open>
  The part of the activation before the repository is called, from the overview it read;
  the two identifiers come from \<open>createSeriesKey\<close> and \<open>createEventId\<close>.
\<close>

definition prepareActivation ::
    "string \<Rightarrow> string \<Rightarrow> NumberingDatabase \<Rightarrow> ActivateInvoiceNumberingSeriesInput \<Rightarrow>
     ActivateInvoiceNumberingSeriesPersistenceInput result" where
  "prepareActivation nextSeriesKey eventId db input =
     andThen (requirePermission (ia_actorContext input) ''manageInvoiceNumberingSeries'') (\<lambda>_.
     if ia_confirmation input \<noteq> activateInvoiceNumberingSeriesConfirmation then
       Inl (InvoiceNumberingSeriesError ''confirmationInvalid''
         ''Invoice numbering series confirmation is invalid.'')
     else if \<not> isSafeInteger (ia_currentRevision input) \<or> ia_currentRevision input < 1 then
       Inl (InvoiceNumberingSeriesError ''conflict'' ''Invoice numbering series revision is invalid.'')
     else
     andThen (requireNonEmptyInput (ac_companyId (ia_actorContext input))) (\<lambda>companyId.
     andThen (requireNonEmptyInput (ac_actorId (ia_actorContext input))) (\<lambda>actorUserId.
     andThen (requireNonEmptyInput (ia_now input)) (\<lambda>now.
     andThen (getOverview db companyId) (\<lambda>found.
     case found of
       None \<Rightarrow> Inl (InvoiceNumberingSeriesError ''notFound'' ''Invoice numbering series was not found.'')
     | Some currentOverview \<Rightarrow>
     if as_revision (ov_activeSeries currentOverview) \<noteq> ia_currentRevision input then
       Inl (InvoiceNumberingSeriesError ''conflict''
         ''Invoice numbering series changed before activation.'')
     else
     andThen (validateInvoiceNumberingActiveSeries (ov_activeSeries currentOverview)) (\<lambda>_.
     let currentActiveSeriesKey = as_activeSeriesKey (ov_activeSeries currentOverview) in
     andThen (normalizeInvoiceNumberingSeriesReasonNote (ia_reasonNote input)) (\<lambda>reasonNote.
     andThen (validateInvoiceNumberSeriesKey currentActiveSeriesKey) (\<lambda>_.
     andThen (validateInvoiceNumberSeriesKey nextSeriesKey) (\<lambda>_.
     andThen (validateInvoiceNumberingSettings
         \<lparr>ns_mode = ia_mode input, ns_fiscalYearStartMonth = ia_fiscalYearStartMonth input,
          ns_sequencePadding = ia_sequencePadding input,
          ns_firstSequenceNumber = ia_firstSequenceNumber input\<rparr>) (\<lambda>_.
     let activeSeries =
           \<lparr>as_companyId = companyId, as_activeSeriesKey = nextSeriesKey,
            as_revision = jsAdd (ia_currentRevision input) 1, as_updatedAt = now,
            as_updatedBy = actorUserId\<rparr>;
         event =
           \<lparr>ev_id = eventId, ev_companyId = companyId, ev_actorUserId = actorUserId,
            ev_previousSeriesKey = currentActiveSeriesKey, ev_nextSeriesKey = nextSeriesKey,
            ev_reasonCode = ia_reasonCode input, ev_reasonNote = reasonNote,
            ev_occurredAt = now\<rparr>;
         nextSettings =
           \<lparr>ns_mode = ia_mode input, ns_fiscalYearStartMonth = ia_fiscalYearStartMonth input,
            ns_sequencePadding = ia_sequencePadding input,
            ns_firstSequenceNumber = ia_firstSequenceNumber input,
            ns_companyId = companyId, ns_seriesKey = nextSeriesKey, ns_createdAt = now,
            ns_updatedAt = now\<rparr> in
     andThen (validateInvoiceNumberingActiveSeries activeSeries) (\<lambda>_.
     andThen (validateInvoiceNumberingSeriesEvent event) (\<lambda>_.
     Inr \<lparr>pi_activeSeries = activeSeries, pi_event = event,
          pi_expectedActiveSeriesKey = currentActiveSeriesKey,
          pi_expectedRevision = ia_currentRevision input, pi_nextSettings = nextSettings\<rparr>))))))))))))"

text \<open>
  The overview is read before the transaction of \<open>activate\<close> starts, so another request
  may change the database in between: \<open>db\<close> is the database read, \<open>db'\<close> the one written.
\<close>

definition activateInvoiceNumberingSeries ::
    "string \<Rightarrow> string \<Rightarrow> NumberingDatabase \<Rightarrow> NumberingDatabase \<Rightarrow>
     ActivateInvoiceNumberingSeriesInput \<Rightarrow>
     (NumberingDatabase \<times> InvoiceNumberingSeriesOverviewView) result" where
  "activateInvoiceNumberingSeries nextSeriesKey eventId db db' input =
     andThen (prepareActivation nextSeriesKey eventId db input) (\<lambda>persistenceInput.
     andThen (activate db' persistenceInput) (\<lambda>(db'', result).
     case result of
       Activated overview \<Rightarrow> Inr (db'', toInvoiceNumberingSeriesOverviewView overview)
     | _ \<Rightarrow> Inl (toApplicationError result)))"

section \<open>What a prepared activation carries\<close>

lemma requireNonEmpty_ok [result_simps]: "requireNonEmpty v f = Inr u \<longleftrightarrow> trim v \<noteq> []"
  by (simp add: requireNonEmpty_def)

lemma requireNonEmptyInput_eq_Inr [result_simps]:
  "requireNonEmptyInput v = Inr w \<longleftrightarrow> trim v \<noteq> [] \<and> w = trim v"
  by (auto simp: requireNonEmptyInput_def Let_def)

lemma normalize_note_idem:
  assumes "normalizeInvoiceNumberingSeriesReasonNote note = Inr note'"
  shows "normalizeInvoiceNumberingSeriesReasonNote note' = Inr note'"
  using assms
  by (auto simp: normalizeInvoiceNumberingSeriesReasonNote_def Let_def split: option.splits if_splits)

text \<open>The application never hands the repository an input that it rejects.\<close>

lemma prepareActivation_facts:
  assumes "prepareActivation k e db input = Inr p"
  shows "validateActivationInput p = Inr ()"
    and "as_companyId (pi_activeSeries p) = trim (ac_companyId (ia_actorContext input))"
    and "pi_expectedRevision p = ia_currentRevision input"
    and "\<exists>ov. readOverview db (trim (ac_companyId (ia_actorContext input))) = Some ov \<and>
      as_revision (ov_activeSeries ov) = ia_currentRevision input \<and>
      pi_expectedActiveSeriesKey p = as_activeSeriesKey (ov_activeSeries ov)"
    and "''manageInvoiceNumberingSeries'' \<in> set (ac_permissions (ia_actorContext input))"
    and "ia_confirmation input = activateInvoiceNumberingSeriesConfirmation"
    and "ns_seriesKey (pi_nextSettings p) = k"
proof -
  let ?c = "trim (ac_companyId (ia_actorContext input))"
  from assms obtain ov nt where
    perm: "requirePermission (ia_actorContext input) ''manageInvoiceNumberingSeries'' = Inr ()"
    and conf: "ia_confirmation input = activateInvoiceNumberingSeriesConfirmation"
    and rev: "isSafeInteger (ia_currentRevision input)" "1 \<le> ia_currentRevision input"
    and c: "?c \<noteq> []" and ov: "readOverview db ?c = Some ov"
      "as_revision (ov_activeSeries ov) = ia_currentRevision input"
    and note': "normalizeInvoiceNumberingSeriesReasonNote (ia_reasonNote input) = Inr nt"
    and act: "validateInvoiceNumberingActiveSeries (pi_activeSeries p) = Inr ()"
    and ev: "validateInvoiceNumberingSeriesEvent (pi_event p) = Inr ()"
    and keys: "validSeriesKey (as_activeSeriesKey (ov_activeSeries ov))" "validSeriesKey k"
    and vs: "validSettings (pi_nextSettings p)"
    and p: "as_companyId (pi_activeSeries p) = ?c" "as_activeSeriesKey (pi_activeSeries p) = k"
      "as_revision (pi_activeSeries p) = jsAdd (ia_currentRevision input) 1"
      "ev_companyId (pi_event p) = ?c" "ev_nextSeriesKey (pi_event p) = k"
      "ev_previousSeriesKey (pi_event p) = as_activeSeriesKey (ov_activeSeries ov)"
      "pi_expectedActiveSeriesKey p = as_activeSeriesKey (ov_activeSeries ov)"
      "pi_expectedRevision p = ia_currentRevision input"
      "ns_companyId (pi_nextSettings p) = ?c" "ns_seriesKey (pi_nextSettings p) = k"
    unfolding prepareActivation_def Let_def andThen_eq_Inr if_Inl_eq_Inr getOverview_def
    by (auto simp: andThen_eq_Inr result_simps validSettings_def validateInvoiceNumberSeriesKey_def
        split: option.split_asm if_split_asm)
  show "validateActivationInput p = Inr ()"
    unfolding validateActivationInput_def act ev
    using c rev keys vs by (simp add: p result_simps validateInvoiceNumberSeriesKey_def)
  show "as_companyId (pi_activeSeries p) = ?c" "pi_expectedRevision p = ia_currentRevision input"
    "ns_seriesKey (pi_nextSettings p) = k" by (fact p)+
  show "\<exists>ov. readOverview db ?c = Some ov \<and>
      as_revision (ov_activeSeries ov) = ia_currentRevision input \<and>
      pi_expectedActiveSeriesKey p = as_activeSeriesKey (ov_activeSeries ov)"
    using ov p by blast
  show "''manageInvoiceNumberingSeries'' \<in> set (ac_permissions (ia_actorContext input))"
    using perm by (simp add: requirePermission_ok)
  show "ia_confirmation input = activateInvoiceNumberingSeriesConfirmation" by (fact conf)
qed

text \<open>
  The overview names the active row it was read from, so a transaction that finds another
  key or revision changes nothing and reports a conflict.
\<close>

lemma readOverview_active:
  "readOverview db c = Some ov \<Longrightarrow> \<exists>a. readActiveSeries db c = Some a \<and>
     as_activeSeriesKey (ov_activeSeries ov) = ra_active_series_key a \<and>
     as_revision (ov_activeSeries ov) = ra_revision a"
  by (auto simp: readOverview_def split: option.split_asm)

lemma activate_conflict:
  assumes p: "prepareActivation k e dbRead input = Inr p"
  defines "c \<equiv> trim (ac_companyId (ia_actorContext input))"
  assumes read: "readActiveSeries dbRead c = Some a" and now: "readActiveSeries db c = Some b"
    and changed: "(ra_active_series_key a, ra_revision a) \<noteq> (ra_active_series_key b, ra_revision b)"
  shows "activate db p = Inr (db, ActivationConflict)"
proof -
  note f = prepareActivation_facts [OF p, folded c_def]
  from f(4) readOverview_active read have "pi_expectedActiveSeriesKey p = ra_active_series_key a"
    "ia_currentRevision input = ra_revision a" by fastforce+
  with f(1,2,3) now changed show ?thesis by (auto simp: activate_def)
qed

end
