(* ===== verification/NumberingHistory.thy ===== *)
theory NumberingHistory
  imports NumberingSettings NumberingSeries ReferenceNumber
begin

text \<open>
  The number an approved invoice gets (the numbering part of
  \<open>infrastructure/sqliteInvoiceApprovalRepository.ts\<close> and
  \<open>sqliteInvoiceCreditApprovalRepository.ts\<close>), and what holds over any history of
  approvals, settings updates and series activations: a new number never meets one that
  was issued before, in whatever series, and the positions of a sequence have no gaps.
\<close>

section \<open>Numbering an approved invoice\<close>

definition getActiveNumberingSettings ::
    "NumberingDatabase \<Rightarrow> string \<Rightarrow> StoredInvoiceNumberingSettings option" where
  "getActiveNumberingSettings db companyId =
     (case rowWith ra_company_id companyId (db_activeSeries db) of
        None \<Rightarrow> None
      | Some active \<Rightarrow>
          (case rowWith settingsKey (ra_company_id active, ra_active_series_key active)
                  (db_settings db) of
             None \<Rightarrow> None
           | Some row \<Rightarrow> Some (toNumberingSettingsOfRow companyId (rs_series_key row) row)))"

definition getNumberSequence ::
    "NumberingDatabase \<Rightarrow> string \<Rightarrow> string \<Rightarrow> string \<Rightarrow> InvoiceNumberSequenceRow option" where
  "getNumberSequence db companyId seriesKey sequenceScope =
     rowWith sequenceKey (companyId, seriesKey, sequenceScope) (db_sequences db)"

record AssignedInvoiceNumber =
  an_settings :: StoredInvoiceNumberingSettings
  an_sequenceScope :: string
  an_currentSequence :: "InvoiceNumberSequenceRow option"
  an_sequenceNumber :: number
  an_invoiceNumber :: string

definition assignInvoiceNumber :: "NumberingDatabase \<Rightarrow> string \<Rightarrow> string \<Rightarrow> AssignedInvoiceNumber result" where
  "assignInvoiceNumber db companyId invoiceDate =
     (case getActiveNumberingSettings db companyId of
        None \<Rightarrow> Inl (ApproveInvoiceDraftError ''Active invoice numbering settings were not found.'')
      | Some settings \<Rightarrow>
      andThen (validateInvoiceNumberingSettings settings) (\<lambda>_.
      andThen (resolveInvoiceNumberSequenceScope settings invoiceDate) (\<lambda>sequenceScope.
      let currentSequence = getNumberSequence db companyId (ns_seriesKey settings) sequenceScope;
          sequenceNumber =
            (case currentSequence of
               None \<Rightarrow> ns_firstSequenceNumber settings
             | Some q \<Rightarrow> jsAdd (rq_last_sequence_number q) 1) in
      andThen (validateInvoiceSequenceNumber sequenceNumber) (\<lambda>_.
      andThen (formatInvoiceNumber settings invoiceDate sequenceNumber) (\<lambda>invoiceNumber.
      Inr \<lparr>an_settings = settings, an_sequenceScope = sequenceScope,
           an_currentSequence = currentSequence, an_sequenceNumber = sequenceNumber,
           an_invoiceNumber = invoiceNumber\<rparr>)))))"

text \<open>
  The statements that store a new number: the sequence is advanced and the invoice row is
  inserted, which the database refuses when the company already has that number.
\<close>

definition insertInvoiceNumber ::
    "NumberingDatabase \<Rightarrow> InvoiceNumberColumns \<Rightarrow> NumberingDatabase result" where
  "insertInvoiceNumber db row =
     (if \<exists>r \<in> set (db_invoices db). ri_company_id r = ri_company_id row \<and>
           ri_invoice_number r = ri_invoice_number row
      then Inl (SqliteError ''UNIQUE constraint failed: invoices.company_id, invoices.invoice_number'')
      else Inr (db\<lparr>db_invoices := db_invoices db @ [row]\<rparr>))"

definition storeInvoiceNumber ::
    "NumberingDatabase \<Rightarrow> string \<Rightarrow> AssignedInvoiceNumber \<Rightarrow> string \<Rightarrow> NumberingDatabase result" where
  "storeInvoiceNumber db companyId assigned approvedAt =
     andThen (upsertNumberSequence db
         \<lparr>rq_company_id = companyId, rq_series_key = ns_seriesKey (an_settings assigned),
          rq_sequence_scope = an_sequenceScope assigned,
          rq_last_sequence_number = an_sequenceNumber assigned,
          rq_created_at = (case an_currentSequence assigned of
              None \<Rightarrow> approvedAt | Some q \<Rightarrow> rq_created_at q),
          rq_updated_at = approvedAt\<rparr>) (\<lambda>db1.
     insertInvoiceNumber db1
       \<lparr>ri_company_id = companyId, ri_invoice_number = an_invoiceNumber assigned,
        ri_series_key = ns_seriesKey (an_settings assigned),
        ri_sequence_scope = an_sequenceScope assigned,
        ri_sequence_number = an_sequenceNumber assigned\<rparr>)"

text \<open>A standard invoice also needs a reference number, a credit invoice has none.\<close>

definition numberStandardInvoice ::
    "NumberingDatabase \<Rightarrow> string \<Rightarrow> string \<Rightarrow> string \<Rightarrow>
     (NumberingDatabase \<times> AssignedInvoiceNumber \<times> string) result" where
  "numberStandardInvoice db companyId invoiceDate approvedAt =
     andThen (assignInvoiceNumber db companyId invoiceDate) (\<lambda>assigned.
     andThen (createFinnishDomesticReferenceNumber (an_invoiceNumber assigned)) (\<lambda>referenceNumber.
     andThen (storeInvoiceNumber db companyId assigned approvedAt) (\<lambda>db'.
     Inr (db', assigned, referenceNumber))))"

definition numberCreditInvoice ::
    "NumberingDatabase \<Rightarrow> string \<Rightarrow> string \<Rightarrow> string \<Rightarrow>
     (NumberingDatabase \<times> AssignedInvoiceNumber) result" where
  "numberCreditInvoice db companyId invoiceDate approvedAt =
     andThen (assignInvoiceNumber db companyId invoiceDate) (\<lambda>assigned.
     andThen (storeInvoiceNumber db companyId assigned approvedAt) (\<lambda>db'.
     Inr (db', assigned)))"

section \<open>Histories\<close>

definition emptyNumberingDatabase :: NumberingDatabase where
  "emptyNumberingDatabase =
     \<lparr>db_settings = [], db_sequences = [], db_activeSeries = [], db_seriesEvents = [],
      db_invoices = [], db_settingsAudit = []\<rparr>"

text \<open>
  One accepted request. An activation may have read its overview from any other database,
  so requests that run between its read and its transaction are covered.
\<close>

inductive numbering_step :: "NumberingDatabase \<Rightarrow> NumberingDatabase \<Rightarrow> bool" where
  update_settings:
    "updateInvoiceNumberingSettings uuid sqliteSettingsRepository db input = Inr (db', view) \<Longrightarrow>
       numbering_step db db'"
| activate_series:
    "activateInvoiceNumberingSeries seriesKey eventId dbRead db input = Inr (db', view) \<Longrightarrow>
       numbering_step db db'"
| approve_standard:
    "numberStandardInvoice db companyId invoiceDate approvedAt = Inr (db', assigned, ref) \<Longrightarrow>
       numbering_step db db'"
| approve_credit:
    "numberCreditInvoice db companyId invoiceDate approvedAt = Inr (db', assigned) \<Longrightarrow>
       numbering_step db db'"

inductive numbering_history :: "NumberingDatabase \<Rightarrow> bool" where
  empty: "numbering_history emptyNumberingDatabase"
| step: "numbering_history db \<Longrightarrow> numbering_step db db' \<Longrightarrow> numbering_history db'"

section \<open>The invariant\<close>

text \<open>The positions issued in one sequence, in the order of the invoices.\<close>

definition issuedNumbers :: "NumberingDatabase \<Rightarrow> string \<Rightarrow> string \<Rightarrow> string \<Rightarrow> number list" where
  "issuedNumbers db c k sc =
     map ri_sequence_number (filter (\<lambda>r. ri_company_id r = c \<and> ri_series_key r = k \<and>
       ri_sequence_scope r = sc) (db_invoices db))"

definition gapless :: "NumberingDatabase \<Rightarrow> string \<Rightarrow> string \<Rightarrow> string \<Rightarrow> bool" where
  "gapless db c k sc \<longleftrightarrow>
     (case getNumberSequence db c k sc of
        None \<Rightarrow> issuedNumbers db c k sc = []
      | Some q \<Rightarrow>
          (\<exists>st. getSettings db c k = Some st \<and>
             ns_firstSequenceNumber st \<le> rq_last_sequence_number q \<and>
             rq_last_sequence_number q \<le> MAX_SAFE_INTEGER \<and>
             issuedNumbers db c k sc = [ns_firstSequenceNumber st .. rq_last_sequence_number q]))"

text \<open>
  An invoice of the series with these settings carries the number they print at its
  position; any other invoice carries one they do not print at a position they can reach.
\<close>

definition printedBy :: "StoredInvoiceNumberingSettings \<Rightarrow> InvoiceNumberColumns \<Rightarrow> bool" where
  "printedBy st r \<longleftrightarrow>
     (\<exists>date. formatInvoiceNumber st date (ri_sequence_number r) = Inr (ri_invoice_number r) \<and>
        resolveInvoiceNumberSequenceScope st date = Inr (ri_sequence_scope r))"

definition neverPrintedBy :: "StoredInvoiceNumberingSettings \<Rightarrow> string \<Rightarrow> bool" where
  "neverPrintedBy st s \<longleftrightarrow>
     (\<forall>n date. ns_firstSequenceNumber st \<le> n \<longrightarrow> formatInvoiceNumber st date n \<noteq> Inr s)"

definition activeSettings :: "NumberingDatabase \<Rightarrow> string \<Rightarrow> StoredInvoiceNumberingSettings option" where
  "activeSettings db c =
     (case readActiveSeries db c of
        None \<Rightarrow> None | Some a \<Rightarrow> getSettings db c (ra_active_series_key a))"

definition companyInvoices :: "NumberingDatabase \<Rightarrow> string \<Rightarrow> InvoiceNumberColumns list" where
  "companyInvoices db c = filter (\<lambda>r. ri_company_id r = c) (db_invoices db)"

definition activeOk :: "NumberingDatabase \<Rightarrow> string \<Rightarrow> bool" where
  "activeOk db c \<longleftrightarrow>
     (case readActiveSeries db c of
        None \<Rightarrow> companyInvoices db c = []
      | Some a \<Rightarrow>
          getSettings db c defaultInvoiceNumberSeriesKey \<noteq> None \<and>
          (ra_active_series_key a = defaultInvoiceNumberSeriesKey \<longrightarrow>
             (\<forall>r \<in> set (companyInvoices db c). ri_series_key r = defaultInvoiceNumberSeriesKey)) \<and>
          (\<exists>st. getSettings db c (ra_active_series_key a) = Some st \<and> validSettings st \<and>
             (\<forall>r \<in> set (companyInvoices db c).
                if ri_series_key r = ra_active_series_key a then printedBy st r
                else neverPrintedBy st (ri_invoice_number r))))"

definition numberingInvariant :: "NumberingDatabase \<Rightarrow> bool" where
  "numberingInvariant db \<longleftrightarrow> (\<forall>c. activeOk db c \<and> (\<forall>k sc. gapless db c k sc))"

lemma numberingInvariant_empty: "numberingInvariant emptyNumberingDatabase"
  by (simp add: numberingInvariant_def emptyNumberingDatabase_def activeOk_def gapless_def
      readActiveSeries_def rowWith_def companyInvoices_def getNumberSequence_def issuedNumbers_def)

text \<open>Both parts depend on the columns they read only.\<close>

lemma activeOk_cong:
  assumes "readActiveSeries db' c = readActiveSeries db c"
    and "companyInvoices db' c = companyInvoices db c"
    and "\<And>k. getSettings db' c k = getSettings db c k"
  shows "activeOk db' c = activeOk db c"
  unfolding activeOk_def assms ..

lemma gapless_cong:
  assumes "getNumberSequence db' c k sc = getNumberSequence db c k sc"
    and "issuedNumbers db' c k sc = issuedNumbers db c k sc"
    and "getSettings db' c k = getSettings db c k"
  shows "gapless db' c k sc = gapless db c k sc"
  unfolding gapless_def assms ..

subsection \<open>Settings updates\<close>

lemma validSettings_replaced [simp]:
  "validSettings (replacedSettings old s) = validSettings s"
  by (cases old) (simp_all add: replacedSettings_def validSettings_def)

lemma update_preserves:
  assumes inv: "numberingInvariant db"
    and up: "updateInvoiceNumberingSettings u sqliteSettingsRepository db input = Inr (db', v)"
  shows "numberingInvariant db'"
proof -
  define c0 where "c0 = trim (ac_companyId (un_actorContext input))"
  define d where "d = defaultInvoiceNumberSeriesKey"
  note f = updateInvoiceNumberingSettings_eq_Inr [OF up, folded c0_def d_def]
  define s where "s = updatedSettings input (getSettings db c0 d)"
  from f(5) obtain e where db': "db' = savedSettingsDatabase db s e"
    by (auto simp: s_def)
  have key: "ns_companyId s = c0" "ns_seriesKey s = d"
    by (simp_all add: s_def updatedSettings_def c0_def d_def)
  have vs: "validSettings s" using f(2)
    by (simp add: validSettings_def s_def updatedSettings_def NumberingSettings.toNumberingSettings_def)
  have get: "getSettings db' c k = (if c = c0 \<and> k = d then Some (replacedSettings (getSettings db c k) s)
      else getSettings db c k)" for c k
    using getSettings_upserted [of db' s db c k] by (simp add: db' savedSettingsDatabase_def key)
  have same: "companyInvoices db' c = companyInvoices db c" "issuedNumbers db' c k sc = issuedNumbers db c k sc"
    "getNumberSequence db' c k sc = getNumberSequence db c k sc" for c k sc
    by (simp_all add: db' savedSettingsDatabase_def companyInvoices_def issuedNumbers_def
        getNumberSequence_def)
  have act: "readActiveSeries db' c = (case readActiveSeries db c of
      None \<Rightarrow> if c = c0 then Some \<lparr>ra_company_id = c0, ra_active_series_key = d, ra_revision = 1,
         ra_updated_at = ns_updatedAt s, ra_updated_by = ae_actorUserId e\<rparr> else None
      | Some a \<Rightarrow> Some a)" for c
    by (simp add: db' savedSettingsDatabase_def readActiveSeries_def rowWith_insertIgnore key d_def
        split: option.split)
  have unused: "getNumberSequence db c0 d sc = None"
    "getSettings db c0 d \<noteq> None \<Longrightarrow> r \<in> set (companyInvoices db c0) \<Longrightarrow> ri_series_key r \<noteq> d" for sc r
  proof -
    show "getNumberSequence db c0 d sc = None"
    proof (cases "getNumberSequence db c0 d sc")
      case (Some q)
      then have "getSettings db c0 d \<noteq> None"
        using inv by (force simp: numberingInvariant_def gapless_def split: option.splits)
      moreover have "settingsAreUsed db c0 d"
        using rowWith_Some [OF Some [unfolded getNumberSequence_def]]
        by (auto simp: settingsAreUsed_def sequenceKey_def)
      ultimately show ?thesis using f(4) by simp
    qed simp
    show "ri_series_key r \<noteq> d" if "getSettings db c0 d \<noteq> None" "r \<in> set (companyInvoices db c0)"
      using f(4) that by (auto simp: settingsAreUsed_def companyInvoices_def)
  qed
  have gap: "gapless db' c k sc" for c k sc
  proof -
    have old: "gapless db c k sc" using inv by (simp add: numberingInvariant_def)
    show ?thesis
    proof (cases "c = c0 \<and> k = d")
      case True
      with unused(1) [of sc] old show ?thesis by (simp add: gapless_def same)
    next
      case False
      with old gapless_cong [of db' c k sc db] show ?thesis by (auto simp: same get)
    qed
  qed
  have "activeOk db' c" for c
  proof (cases "c = c0")
    case False
    have "activeOk db' c = activeOk db c"
      by (rule activeOk_cong) (use False in \<open>simp_all add: act same get split: option.split\<close>)
    then show ?thesis using inv by (simp add: numberingInvariant_def)
  next
    case True
    have old: "activeOk db c0" using inv by (simp add: numberingInvariant_def)
    show ?thesis
    proof (cases "readActiveSeries db c0")
      case None
      with old True show ?thesis
        by (simp add: activeOk_def act same get vs d_def)
    next
      case (Some a)
      with old have def: "getSettings db c0 d \<noteq> None" by (simp add: activeOk_def d_def)
      show ?thesis
      proof (cases "ra_active_series_key a = d")
        case key: True
        with Some old unused(2) [OF def] have "companyInvoices db c0 = []"
          by (cases "companyInvoices db c0") (auto simp: activeOk_def d_def)
        with Some key True show ?thesis by (simp add: activeOk_def act same get vs d_def)
      next
        case False
        with Some old True show ?thesis by (auto simp: activeOk_def act same get d_def)
      qed
    qed
  qed
  with gap show ?thesis by (simp add: numberingInvariant_def)
qed

subsection \<open>Approvals\<close>

lemma getActiveNumberingSettings_eq: "getActiveNumberingSettings db c = activeSettings db c"
proof (cases "readActiveSeries db c")
  case None
  then show ?thesis
    by (simp add: getActiveNumberingSettings_def activeSettings_def readActiveSeries_def)
next
  case (Some a)
  then have c: "ra_company_id a = c" by (auto simp: readActiveSeries_def dest: rowWith_Some)
  show ?thesis
  proof (cases "rowWith settingsKey (c, ra_active_series_key a) (db_settings db)")
    case None
    with Some c show ?thesis
      by (simp add: getActiveNumberingSettings_def activeSettings_def readActiveSeries_def getSettings_row)
  next
    case row: (Some r)
    then have "rs_company_id r = c" by (auto simp: settingsKey_def dest: rowWith_Some)
    with Some c row show ?thesis
      by (simp add: getActiveNumberingSettings_def activeSettings_def readActiveSeries_def getSettings_row
          toNumberingSettingsOfRow_def toStoredInvoiceNumberingSettings_def)
  qed
qed

lemma assignInvoiceNumber_facts:
  assumes "assignInvoiceNumber db c date = Inr a"
  shows "activeSettings db c = Some (an_settings a)"
    and "resolveInvoiceNumberSequenceScope (an_settings a) date = Inr (an_sequenceScope a)"
    and "formatInvoiceNumber (an_settings a) date (an_sequenceNumber a) = Inr (an_invoiceNumber a)"
    and "an_currentSequence a =
      getNumberSequence db c (ns_seriesKey (an_settings a)) (an_sequenceScope a)"
    and "an_sequenceNumber a =
      (case an_currentSequence a of
         None \<Rightarrow> ns_firstSequenceNumber (an_settings a) | Some q \<Rightarrow> rq_last_sequence_number q + 1)"
    and "1 \<le> an_sequenceNumber a" and "an_sequenceNumber a \<le> MAX_SAFE_INTEGER"
proof -
  define n where "n = (case an_currentSequence a of
      None \<Rightarrow> ns_firstSequenceNumber (an_settings a) | Some q \<Rightarrow> jsAdd (rq_last_sequence_number q) 1)"
  have *: "activeSettings db c = Some (an_settings a) \<and>
      resolveInvoiceNumberSequenceScope (an_settings a) date = Inr (an_sequenceScope a) \<and>
      formatInvoiceNumber (an_settings a) date n = Inr (an_invoiceNumber a) \<and>
      an_currentSequence a = getNumberSequence db c (ns_seriesKey (an_settings a)) (an_sequenceScope a) \<and>
      an_sequenceNumber a = n \<and> 1 \<le> n \<and> n \<le> MAX_SAFE_INTEGER"
    using assms unfolding assignInvoiceNumber_def getActiveNumberingSettings_eq Let_def n_def
    by (auto simp: andThen_eq_Inr validateInvoiceSequenceNumber_ok split: option.splits)
  then show "activeSettings db c = Some (an_settings a)"
    "resolveInvoiceNumberSequenceScope (an_settings a) date = Inr (an_sequenceScope a)"
    "formatInvoiceNumber (an_settings a) date (an_sequenceNumber a) = Inr (an_invoiceNumber a)"
    "an_currentSequence a = getNumberSequence db c (ns_seriesKey (an_settings a)) (an_sequenceScope a)"
    "1 \<le> an_sequenceNumber a" "an_sequenceNumber a \<le> MAX_SAFE_INTEGER" by simp_all
  have "isSafeInteger n" using * by (simp add: isSafeInteger_def)
  then have "n = (case an_currentSequence a of
      None \<Rightarrow> ns_firstSequenceNumber (an_settings a) | Some q \<Rightarrow> rq_last_sequence_number q + 1)"
    by (simp add: n_def split: option.splits)
  with * show "an_sequenceNumber a =
      (case an_currentSequence a of
         None \<Rightarrow> ns_firstSequenceNumber (an_settings a) | Some q \<Rightarrow> rq_last_sequence_number q + 1)"
    by simp
qed

lemma activeSettings_key:
  assumes "activeSettings db c = Some st"
  obtains a where "readActiveSeries db c = Some a" "getSettings db c (ra_active_series_key a) = Some st"
    "ns_seriesKey st = ra_active_series_key a"
  using assms getSettings_key by (auto simp: activeSettings_def split: option.splits)

text \<open>The next number of the active series is one that no invoice of the company has.\<close>

lemma assigned_number_fresh:
  assumes inv: "numberingInvariant db" and a: "assignInvoiceNumber db c date = Inr a"
  shows "an_invoiceNumber a \<notin> set (readExistingInvoiceNumbers db c)"
    and "ns_firstSequenceNumber (an_settings a) \<le> an_sequenceNumber a"
proof -
  note f = assignInvoiceNumber_facts [OF a]
  let ?st = "an_settings a" and ?sc = "an_sequenceScope a" and ?n = "an_sequenceNumber a"
  obtain act where act: "readActiveSeries db c = Some act"
    "getSettings db c (ra_active_series_key act) = Some ?st" "ns_seriesKey ?st = ra_active_series_key act"
    using f(1) by (rule activeSettings_key)
  have gap: "gapless db c (ns_seriesKey ?st) sc" for sc using inv by (simp add: numberingInvariant_def)
  show ge: "ns_firstSequenceNumber ?st \<le> ?n"
    using f(4,5) gap [of ?sc] act by (auto simp: gapless_def split: option.splits)
  have ok: "if ri_series_key r = ns_seriesKey ?st then printedBy ?st r
      else neverPrintedBy ?st (ri_invoice_number r)" if "r \<in> set (companyInvoices db c)" for r
  proof -
    have "activeOk db c" using inv by (simp add: numberingInvariant_def)
    with act that show ?thesis by (simp add: activeOk_def)
  qed
  show "an_invoiceNumber a \<notin> set (readExistingInvoiceNumbers db c)"
  proof
    assume "an_invoiceNumber a \<in> set (readExistingInvoiceNumbers db c)"
    then obtain r where r: "r \<in> set (companyInvoices db c)" "ri_invoice_number r = an_invoiceNumber a"
      by (auto simp: readExistingInvoiceNumbers_def companyInvoices_def)
    show False
    proof (cases "ri_series_key r = ns_seriesKey ?st")
      case False
      with ok [OF r(1)] r(2) f(3) ge show False by (simp add: neverPrintedBy_def)
    next
      case True
      with ok [OF r(1)] r(2) obtain date' where
        fmt: "formatInvoiceNumber ?st date' (ri_sequence_number r) = Inr (an_invoiceNumber a)"
        and sc: "resolveInvoiceNumberSequenceScope ?st date' = Inr (ri_sequence_scope r)"
        by (auto simp: printedBy_def)
      from formatInvoiceNumber_inj [OF f(3) fmt] have eq: "ri_sequence_number r = ?n"
        "seriesYear ?st date = seriesYear ?st date'" by simp_all
      from sc f(2) eq(2) have "ri_sequence_scope r = ?sc"
        by (auto simp: resolveInvoiceNumberSequenceScope_eq_Inr)
      with r(1) True eq(1) have "?n \<in> set (issuedNumbers db c (ns_seriesKey ?st) ?sc)"
        by (auto simp: issuedNumbers_def companyInvoices_def image_iff intro!: bexI [of _ r])
      with f(4,5) gap [of ?sc] act show False by (auto simp: gapless_def split: option.splits)
    qed
  qed
qed

text \<open>So the constraint of the table of invoices never refuses a new number.\<close>

definition numberColumns :: "string \<Rightarrow> AssignedInvoiceNumber \<Rightarrow> InvoiceNumberColumns" where
  "numberColumns c a =
     \<lparr>ri_company_id = c, ri_invoice_number = an_invoiceNumber a,
      ri_series_key = ns_seriesKey (an_settings a), ri_sequence_scope = an_sequenceScope a,
      ri_sequence_number = an_sequenceNumber a\<rparr>"

definition sequenceState :: "string \<Rightarrow> AssignedInvoiceNumber \<Rightarrow> string \<Rightarrow> InvoiceNumberSequenceState" where
  "sequenceState c a approvedAt =
     \<lparr>sq_companyId = c, sq_seriesKey = ns_seriesKey (an_settings a),
      sq_sequenceScope = an_sequenceScope a, sq_lastSequenceNumber = an_sequenceNumber a,
      sq_createdAt = (case an_currentSequence a of None \<Rightarrow> approvedAt | Some q \<Rightarrow> rq_created_at q),
      sq_updatedAt = approvedAt\<rparr>"

definition storedNumberDatabase ::
    "NumberingDatabase \<Rightarrow> string \<Rightarrow> AssignedInvoiceNumber \<Rightarrow> string \<Rightarrow> NumberingDatabase" where
  "storedNumberDatabase db c a approvedAt =
     db\<lparr>db_sequences := upsertRow sequenceKey mergeSequence
          (toInvoiceNumberSequenceRow (sequenceState c a approvedAt)) (db_sequences db),
        db_invoices := db_invoices db @ [numberColumns c a]\<rparr>"

lemma storeInvoiceNumber_eq:
  assumes inv: "numberingInvariant db" and a: "assignInvoiceNumber db c date = Inr a"
  shows "storeInvoiceNumber db c a approvedAt = Inr (storedNumberDatabase db c a approvedAt)"
proof -
  obtain act where "readActiveSeries db c = Some act"
    "getSettings db c (ra_active_series_key act) = Some (an_settings a)"
    "ns_seriesKey (an_settings a) = ra_active_series_key act"
    using assignInvoiceNumber_facts(1) [OF a] by (rule activeSettings_key)
  then have st: "getSettings db c (ns_seriesKey (an_settings a)) \<noteq> None" by simp
  have row: "\<lparr>rq_company_id = c, rq_series_key = ns_seriesKey (an_settings a),
          rq_sequence_scope = an_sequenceScope a, rq_last_sequence_number = an_sequenceNumber a,
          rq_created_at = (case an_currentSequence a of
              None \<Rightarrow> approvedAt | Some q \<Rightarrow> rq_created_at q),
          rq_updated_at = approvedAt\<rparr> = toInvoiceNumberSequenceRow (sequenceState c a approvedAt)"
    by (simp add: toInvoiceNumberSequenceRow_def sequenceState_def)
  have up: "upsertNumberSequence db (toInvoiceNumberSequenceRow (sequenceState c a approvedAt)) =
      Inr (db\<lparr>db_sequences := upsertRow sequenceKey mergeSequence
        (toInvoiceNumberSequenceRow (sequenceState c a approvedAt)) (db_sequences db)\<rparr>)"
    unfolding upsertNumberSequence_eq_Inr using st by (simp add: sequenceState_def)
  have "an_invoiceNumber a \<notin> ri_invoice_number ` {r \<in> set (db_invoices db). ri_company_id r = c}"
    using assigned_number_fresh(1) [OF inv a] by (simp add: readExistingInvoiceNumbers_def)
  then show ?thesis
    unfolding storeInvoiceNumber_def row up
    by (auto simp: insertInvoiceNumber_def storedNumberDatabase_def numberColumns_def image_iff)
qed

lemma stored_number_views:
  fixes a :: AssignedInvoiceNumber
  defines "k \<equiv> ns_seriesKey (an_settings a)"
  shows "getSettings (storedNumberDatabase db c a t) = getSettings db"
    and "readActiveSeries (storedNumberDatabase db c a t) = readActiveSeries db"
    and "companyInvoices (storedNumberDatabase db c a t) c' =
      companyInvoices db c' @ (if c' = c then [numberColumns c a] else [])"
    and "issuedNumbers (storedNumberDatabase db c a t) c' k' sc' =
      issuedNumbers db c' k' sc' @
      (if c' = c \<and> k' = k \<and> sc' = an_sequenceScope a then [an_sequenceNumber a] else [])"
    and "map_option rq_last_sequence_number (getNumberSequence (storedNumberDatabase db c a t) c' k' sc') =
      (if c' = c \<and> k' = k \<and> sc' = an_sequenceScope a then Some (an_sequenceNumber a)
       else map_option rq_last_sequence_number (getNumberSequence db c' k' sc'))"
proof -
  show "getSettings (storedNumberDatabase db c a t) = getSettings db"
    by (simp add: fun_eq_iff getSettings_row storedNumberDatabase_def)
  show "readActiveSeries (storedNumberDatabase db c a t) = readActiveSeries db"
    by (simp add: fun_eq_iff readActiveSeries_def storedNumberDatabase_def)
  show "companyInvoices (storedNumberDatabase db c a t) c' =
      companyInvoices db c' @ (if c' = c then [numberColumns c a] else [])"
    by (simp add: companyInvoices_def storedNumberDatabase_def numberColumns_def)
  show "issuedNumbers (storedNumberDatabase db c a t) c' k' sc' =
      issuedNumbers db c' k' sc' @
      (if c' = c \<and> k' = k \<and> sc' = an_sequenceScope a then [an_sequenceNumber a] else [])"
    by (auto simp: issuedNumbers_def storedNumberDatabase_def numberColumns_def k_def)
  let ?new = "toInvoiceNumberSequenceRow (sequenceState c a t)"
  have key: "sq_companyId (sequenceState c a t) = c" "sq_seriesKey (sequenceState c a t) = k"
    "sq_sequenceScope (sequenceState c a t) = an_sequenceScope a"
    by (simp_all add: sequenceState_def k_def)
  have last: "rq_last_sequence_number ?new = an_sequenceNumber a"
    "rq_last_sequence_number (mergeSequence old ?new) = an_sequenceNumber a" for old
    by (simp_all add: sequenceState_def toInvoiceNumberSequenceRow_def mergeSequence_def)
  show "map_option rq_last_sequence_number (getNumberSequence (storedNumberDatabase db c a t) c' k' sc') =
      (if c' = c \<and> k' = k \<and> sc' = an_sequenceScope a then Some (an_sequenceNumber a)
       else map_option rq_last_sequence_number (getNumberSequence db c' k' sc'))"
    by (auto simp: getNumberSequence_def storedNumberDatabase_def sequenceTable.rowWith_upsert key
        last split: option.splits)
qed

text \<open>\<open>gapless\<close> speaks of the last position of a sequence only.\<close>

lemma gapless_last:
  "gapless db c k sc \<longleftrightarrow>
     (case map_option rq_last_sequence_number (getNumberSequence db c k sc) of
        None \<Rightarrow> issuedNumbers db c k sc = []
      | Some n \<Rightarrow>
          (\<exists>st. getSettings db c k = Some st \<and> ns_firstSequenceNumber st \<le> n \<and>
             n \<le> MAX_SAFE_INTEGER \<and>
             issuedNumbers db c k sc = [ns_firstSequenceNumber st .. n]))"
  by (simp add: gapless_def split: option.splits)

lemma storedNumber_preserves:
  assumes inv: "numberingInvariant db" and a: "assignInvoiceNumber db c date = Inr a"
  shows "numberingInvariant (storedNumberDatabase db c a t)"
proof -
  let ?db' = "storedNumberDatabase db c a t" and ?k = "ns_seriesKey (an_settings a)"
  note v = stored_number_views [of db c a t]
  note f = assignInvoiceNumber_facts [OF a]
  obtain act where act: "readActiveSeries db c = Some act"
    "getSettings db c (ra_active_series_key act) = Some (an_settings a)"
    "?k = ra_active_series_key act"
    using f(1) by (rule activeSettings_key)
  have gap: "gapless ?db' c' k sc" for c' k sc
  proof -
    have old: "gapless db c' k sc" using inv by (simp add: numberingInvariant_def)
    show ?thesis
    proof (cases "c' = c \<and> k = ?k \<and> sc = an_sequenceScope a")
      case False
      show ?thesis using old unfolding gapless_last v if_not_P [OF False] append_Nil2 .
    next
      case True
      have "issuedNumbers db c ?k (an_sequenceScope a) @ [an_sequenceNumber a] =
          [ns_firstSequenceNumber (an_settings a) .. an_sequenceNumber a]"
      proof (cases "an_currentSequence a")
        case None
        with old True f(4,5) show ?thesis by (simp add: gapless_def)
      next
        case (Some q)
        then have "getNumberSequence db c ?k (an_sequenceScope a) = Some q" using f(4) by simp
        with old True act have "ns_firstSequenceNumber (an_settings a) \<le> rq_last_sequence_number q"
          "issuedNumbers db c ?k (an_sequenceScope a) =
            [ns_firstSequenceNumber (an_settings a) .. rq_last_sequence_number q]"
          by (auto simp: gapless_def)
        with Some f(5) show ?thesis by (simp add: upto_rec2)
      qed
      with True act f(7) assigned_number_fresh(2) [OF inv a] show ?thesis
        unfolding gapless_last v by simp
    qed
  qed
  have "activeOk ?db' c'" for c'
  proof -
    have old: "activeOk db c'" using inv by (simp add: numberingInvariant_def)
    show ?thesis
    proof (cases "c' = c")
      case False
      have "activeOk ?db' c' = activeOk db c'"
        by (rule activeOk_cong) (use False in \<open>simp_all add: v\<close>)
      with old show ?thesis by simp
    next
      case True
      have "printedBy (an_settings a) (numberColumns c a)"
        using f(2,3) by (auto simp: printedBy_def numberColumns_def)
      moreover have "ri_series_key (numberColumns c a) = ?k" by (simp add: numberColumns_def)
      ultimately show ?thesis using old act True by (auto simp: activeOk_def v)
    qed
  qed
  with gap show ?thesis by (simp add: numberingInvariant_def)
qed

lemma approve_preserves:
  assumes inv: "numberingInvariant db"
  shows "numberStandardInvoice db c date t = Inr (db', a, ref) \<Longrightarrow> numberingInvariant db'"
    and "numberCreditInvoice db c date t = Inr (db', a) \<Longrightarrow> numberingInvariant db'"
  using storedNumber_preserves [OF inv] storeInvoiceNumber_eq [OF inv]
  by (auto simp: numberStandardInvoice_def numberCreditInvoice_def andThen_eq_Inr)

subsection \<open>Activations\<close>

lemma format_candidate:
  assumes "formatInvoiceNumber st date n = Inr s"
  shows "printedAt \<lparr>nc_mode = ns_mode st, nc_fiscalYearStartMonth = ns_fiscalYearStartMonth st,
    nc_sequencePadding = ns_sequencePadding st\<rparr> n s"
  using assms unfolding printedAt_def
  by (intro exI [of _ date])
    (auto simp: formatInvoiceNumber_eq_Inr candidateSettings_def validSettings_def seriesYear_def
      sequencePart_def MAX_SAFE_INTEGER_def split: InvoiceNumberingMode.splits)

lemma case_option_Inr:
  "(case m of None \<Rightarrow> Inl e | Some x \<Rightarrow> k x) = Inr y \<longleftrightarrow> (\<exists>x. m = Some x \<and> k x = Inr y)"
  by (cases m) simp_all

lemma activated_cases:
  "(case m of None \<Rightarrow> Inr (db, ActivationNotFound) | Some x \<Rightarrow> k x) = Inr (db', Activated ov) \<longleftrightarrow>
     (\<exists>x. m = Some x \<and> k x = Inr (db', Activated ov))"
  "(case v of Inl _ \<Rightarrow> Inr (db, UnsafeFirstSequenceNumber) | Inr _ \<Rightarrow> k') = Inr (db', Activated ov) \<longleftrightarrow>
     (\<exists>u. v = Inr u \<and> k' = Inr (db', Activated ov))"
  "(if b then Inr (db, ActivationConflict) else k') = Inr (db', Activated ov) \<longleftrightarrow>
     \<not> b \<and> k' = Inr (db', Activated ov)"
  by (cases m, simp_all, cases v, simp_all)

text \<open>What an accepted activation checked and stored.\<close>

lemma activate_facts:
  assumes "activate db p = Inr (db', Activated ov)"
  defines "c \<equiv> as_companyId (pi_activeSeries p)" and "st \<equiv> pi_nextSettings p"
  shows "ns_companyId st = c" and "as_activeSeriesKey (pi_activeSeries p) = ns_seriesKey st"
    and "validSettings st"
    and "\<exists>a. readActiveSeries db c = Some a \<and> ra_active_series_key a = pi_expectedActiveSeriesKey p \<and>
      ra_revision a = pi_expectedRevision p"
    and "getSettings db c (ns_seriesKey st) = None"
    and "s \<in> set (readExistingInvoiceNumbers db c) \<Longrightarrow> neverPrintedBy st s"
    and "\<exists>f. db' = db\<lparr>db_settings := db_settings db @ [toInvoiceNumberingSettingsRow st],
      db_activeSeries := updateRows
        (\<lambda>r. ra_company_id r = c \<and> ra_active_series_key r = pi_expectedActiveSeriesKey p \<and>
          ra_revision r = pi_expectedRevision p)
        (\<lambda>r. r\<lparr>ra_active_series_key := ns_seriesKey st,
               ra_revision := as_revision (pi_activeSeries p),
               ra_updated_at := as_updatedAt (pi_activeSeries p),
               ra_updated_by := as_updatedBy (pi_activeSeries p)\<rparr>) (db_activeSeries db),
      db_seriesEvents := f\<rparr>"
proof -
  from assms(1) obtain current safe db1 where v: "validateActivationInput p = Inr ()"
    and cur: "readActiveSeries db c = Some current"
      "ra_active_series_key current = pi_expectedActiveSeriesKey p"
      "ra_revision current = pi_expectedRevision p"
    and none: "rowWith settingsKey (ns_companyId st, ns_seriesKey st) (db_settings db) = None"
    and safe: "calculateMinimumSafeInvoiceSequenceNumber
         \<lparr>mi_existingInvoiceNumbers = readExistingInvoiceNumbers db (ns_companyId st),
          mi_target = \<lparr>nc_mode = ns_mode st, nc_fiscalYearStartMonth = ns_fiscalYearStartMonth st,
             nc_sequencePadding = ns_sequencePadding st\<rparr>\<rparr> = Inr safe"
    and first: "validateInvoiceNumberingSeriesFirstSequenceNumber (ns_firstSequenceNumber st) safe = Inr ()"
    and ins: "insertSettings db st = Inr db1"
    and ev: "insertEvent (fst (updateActivePointer db1 p)) (pi_event p) = Inr db'"
    unfolding activate_def c_def st_def andThen_eq_Inr activated_cases case_prod_beta
      if_Inl_eq_Inr case_option_Inr by auto
  from v have eqs: "ns_companyId st = c" "as_activeSeriesKey (pi_activeSeries p) = ns_seriesKey st"
      "validSettings st"
    by (auto simp: validateActivationInput_def result_simps c_def st_def)
  show "ns_companyId st = c" "as_activeSeriesKey (pi_activeSeries p) = ns_seriesKey st"
      "validSettings st" by (fact eqs)+
  show "\<exists>a. readActiveSeries db c = Some a \<and> ra_active_series_key a = pi_expectedActiveSeriesKey p \<and>
      ra_revision a = pi_expectedRevision p" using cur by blast
  show "getSettings db c (ns_seriesKey st) = None" using none eqs(1) by (simp add: getSettings_row)
  show "neverPrintedBy st s" if "s \<in> set (readExistingInvoiceNumbers db c)"
  proof -
    let ?t = "\<lparr>nc_mode = ns_mode st, nc_fiscalYearStartMonth = ns_fiscalYearStartMonth st,
             nc_sequencePadding = ns_sequencePadding st\<rparr>"
    from first obtain m where av: "mr_capacity safe = Available"
      and m: "mr_minimumSafeFirstSequenceNumber safe = Some m" "m \<le> ns_firstSequenceNumber st"
      by (auto simp: validateFirst_ok)
    from calculateMinimumSafe_facts(5) [OF safe av] m
    have "s \<notin> set (readExistingInvoiceNumbers db c)" if "m \<le> n" "printedAt ?t n s" for n s
      using that eqs(1) by auto
    with that m(2) format_candidate [of st] show ?thesis
      unfolding neverPrintedBy_def by (metis order_trans)
  qed
  have db1: "db1 = db\<lparr>db_settings := db_settings db @ [toInvoiceNumberingSettingsRow st]\<rparr>"
    using ins by (auto simp: insertSettings_def Let_def split: if_splits)
  obtain f where "db' = (fst (updateActivePointer db1 p))\<lparr>db_seriesEvents := f\<rparr>"
    using ev by (auto simp: insertEvent_def split: if_splits)
  then show "\<exists>f. db' = db\<lparr>db_settings := db_settings db @ [toInvoiceNumberingSettingsRow st],
      db_activeSeries := updateRows
        (\<lambda>r. ra_company_id r = c \<and> ra_active_series_key r = pi_expectedActiveSeriesKey p \<and>
          ra_revision r = pi_expectedRevision p)
        (\<lambda>r. r\<lparr>ra_active_series_key := ns_seriesKey st,
               ra_revision := as_revision (pi_activeSeries p),
               ra_updated_at := as_updatedAt (pi_activeSeries p),
               ra_updated_by := as_updatedBy (pi_activeSeries p)\<rparr>) (db_activeSeries db),
      db_seriesEvents := f\<rparr>"
    by (intro exI [of _ f]) (simp add: db1 updateActivePointer_def Let_def c_def eqs(2))
qed

lemma activate_preserves:
  assumes inv: "numberingInvariant db" and act: "activate db p = Inr (db', Activated ov)"
  shows "numberingInvariant db'"
proof -
  define c0 where "c0 = as_companyId (pi_activeSeries p)"
  define st where "st = pi_nextSettings p"
  define k0 where "k0 = ns_seriesKey st"
  note f = activate_facts [OF act, folded c0_def st_def k0_def]
  from f(7) obtain ev where db': "db' = db\<lparr>db_settings := db_settings db @ [toInvoiceNumberingSettingsRow st],
      db_activeSeries := updateRows
        (\<lambda>r. ra_company_id r = c0 \<and> ra_active_series_key r = pi_expectedActiveSeriesKey p \<and>
          ra_revision r = pi_expectedRevision p)
        (\<lambda>r. r\<lparr>ra_active_series_key := k0,
               ra_revision := as_revision (pi_activeSeries p),
               ra_updated_at := as_updatedAt (pi_activeSeries p),
               ra_updated_by := as_updatedBy (pi_activeSeries p)\<rparr>) (db_activeSeries db),
      db_seriesEvents := ev\<rparr>" by blast
  from f(4) obtain a where a: "readActiveSeries db c0 = Some a"
    "ra_active_series_key a = pi_expectedActiveSeriesKey p" "ra_revision a = pi_expectedRevision p" by blast
  then have ac: "ra_company_id a = c0" by (auto simp: readActiveSeries_def dest: rowWith_Some)
  have get: "getSettings db' c k = (case getSettings db c k of
      Some s \<Rightarrow> Some s | None \<Rightarrow> if c = c0 \<and> k = k0 then Some st else None)" for c k
    using f(1) by (auto simp: db' getSettings_row rowWith_append rowWith_single k0_def split: option.split)
  have active: "readActiveSeries db' c = map_option (\<lambda>r. if ra_company_id r = c0 \<and>
      ra_active_series_key r = pi_expectedActiveSeriesKey p \<and> ra_revision r = pi_expectedRevision p
      then r\<lparr>ra_active_series_key := k0, ra_revision := as_revision (pi_activeSeries p),
               ra_updated_at := as_updatedAt (pi_activeSeries p),
               ra_updated_by := as_updatedBy (pi_activeSeries p)\<rparr> else r) (readActiveSeries db c)" for c
    by (simp add: db' readActiveSeries_def rowWith_updateRows)
  have same: "companyInvoices db' c = companyInvoices db c" "issuedNumbers db' c k sc = issuedNumbers db c k sc"
    "getNumberSequence db' c k sc = getNumberSequence db c k sc" for c k sc
    by (simp_all add: db' companyInvoices_def issuedNumbers_def getNumberSequence_def)
  have old: "activeOk db c" "gapless db c k sc" for c k sc
    using inv by (simp_all add: numberingInvariant_def)
  have gap: "gapless db' c k sc" for c k sc
    using old(2) [of c k sc] by (auto simp: gapless_def same get split: option.splits)
  have foreign: "ri_series_key r \<noteq> k0" if r: "r \<in> set (companyInvoices db c0)" for r
  proof
    assume "ri_series_key r = k0"
    with r have "issuedNumbers db c0 k0 (ri_sequence_scope r) \<noteq> []"
      by (auto simp: issuedNumbers_def companyInvoices_def filter_empty_conv)
    with old(2) [of c0 k0 "ri_sequence_scope r"] f(5) show False
      by (auto simp: gapless_def split: option.splits)
  qed
  have "activeOk db' c" for c
  proof (cases "c = c0")
    case False
    have "readActiveSeries db' c = readActiveSeries db c"
      unfolding active using False
      by (cases "readActiveSeries db c") (auto simp: readActiveSeries_def dest: rowWith_Some)
    with False have "activeOk db' c = activeOk db c"
      by (intro activeOk_cong) (simp_all add: same get split: option.split)
    with old(1) show ?thesis by simp
  next
    case True
    have new: "readActiveSeries db' c0 = Some (a\<lparr>ra_active_series_key := k0,
        ra_revision := as_revision (pi_activeSeries p),
        ra_updated_at := as_updatedAt (pi_activeSeries p),
        ra_updated_by := as_updatedBy (pi_activeSeries p)\<rparr>)"
      by (simp add: active a ac)
    have default: "getSettings db c0 defaultInvoiceNumberSeriesKey \<noteq> None"
      using old(1) [of c0] a by (simp add: activeOk_def)
    then have "k0 \<noteq> defaultInvoiceNumberSeriesKey" using f(5) by auto
    moreover have "neverPrintedBy st (ri_invoice_number r)" if "r \<in> set (companyInvoices db c0)" for r
      using that f(6) by (auto simp: readExistingInvoiceNumbers_def companyInvoices_def)
    moreover have "getSettings db' c0 k0 = Some st" by (simp add: get f(5))
    moreover have "getSettings db' c0 defaultInvoiceNumberSeriesKey \<noteq> None"
      using default by (auto simp: get split: option.split)
    ultimately show ?thesis using True new foreign f(3) by (simp add: activeOk_def same)
  qed
  with gap show ?thesis by (simp add: numberingInvariant_def)
qed

lemma activateInvoiceNumberingSeries_activated:
  "activateInvoiceNumberingSeries k e dbRead db input = Inr (db', v) \<Longrightarrow>
     \<exists>p ov. prepareActivation k e dbRead input = Inr p \<and> activate db p = Inr (db', Activated ov)"
proof -
  assume "activateInvoiceNumberingSeries k e dbRead db input = Inr (db', v)"
  then obtain p x where p: "prepareActivation k e dbRead input = Inr p" "activate db p = Inr x"
    and x: "(case snd x of Activated ov \<Rightarrow> Inr (fst x, toInvoiceNumberingSeriesOverviewView ov)
      | _ \<Rightarrow> Inl (toApplicationError (snd x))) = Inr (db', v)"
    unfolding activateInvoiceNumberingSeries_def andThen_eq_Inr case_prod_beta by blast
  from x obtain ov where "x = (db', Activated ov)" by (cases x; cases "snd x") auto
  with p show ?thesis by blast
qed

lemma numbering_step_preserves:
  assumes "numbering_step db db'" "numberingInvariant db"
  shows "numberingInvariant db'"
  using assms
proof cases
  case (update_settings uuid input view)
  then show ?thesis using update_preserves assms(2) by blast
next
  case (activate_series k e dbRead input view)
  then show ?thesis using activateInvoiceNumberingSeries_activated activate_preserves assms(2) by blast
next
  case (approve_standard c date t a ref)
  then show ?thesis using approve_preserves(1) assms(2) by blast
next
  case (approve_credit c date t a)
  then show ?thesis using approve_preserves(2) assms(2) by blast
qed

lemma numbering_history_invariant: "numbering_history db \<Longrightarrow> numberingInvariant db"
  by (induction rule: numbering_history.induct)
    (simp_all add: numberingInvariant_empty numbering_step_preserves)

text \<open>The positions of a sequence are consecutive from the first one.\<close>

lemma history_gapless:
  assumes "numbering_history db" "issuedNumbers db c k sc \<noteq> []"
  shows "\<exists>st n. getSettings db c k = Some st \<and> issuedNumbers db c k sc = [ns_firstSequenceNumber st .. n]"
proof -
  have "gapless db c k sc" using numbering_history_invariant [OF assms(1)] by (simp add: numberingInvariant_def)
  with assms(2) show ?thesis by (auto simp: gapless_def split: option.splits)
qed

text \<open>The settings of a series that is in use are never changed.\<close>

lemma activate_getSettings:
  assumes "activate db p = Inr (db', Activated ov)" "getSettings db c k = Some st"
  shows "getSettings db' c k = Some st"
proof -
  have "\<exists>rows. db_settings db' = db_settings db @ rows"
    using activate_facts(7) [OF assms(1)] by (elim exE) simp
  with assms(2) show ?thesis by (auto simp: getSettings_row rowWith_append)
qed

lemma used_settings_kept:
  assumes "numbering_step db db'" and st: "getSettings db c k = Some st" and used: "settingsAreUsed db c k"
  shows "getSettings db' c k = Some st"
  using assms(1)
proof cases
  case (update_settings uuid input view)
  note f = updateInvoiceNumberingSettings_eq_Inr [OF this]
  let ?c0 = "trim (ac_companyId (un_actorContext input))" and ?d = defaultInvoiceNumberSeriesKey
  from f(5) obtain e where db': "db' = savedSettingsDatabase db (updatedSettings input (getSettings db ?c0 ?d)) e"
    by blast
  have "\<not> (c = ?c0 \<and> k = ?d)" using f(4) st used by auto
  with st show ?thesis
    using getSettings_upserted [of db' "updatedSettings input (getSettings db ?c0 ?d)" db c k]
    by (auto simp: db' savedSettingsDatabase_def updatedSettings_def)
next
  case (activate_series key ev dbRead input view)
  then show ?thesis using activateInvoiceNumberingSeries_activated activate_getSettings st by blast
next
  case (approve_standard c' date t a ref)
  then show ?thesis using st
    by (auto simp: numberStandardInvoice_def storeInvoiceNumber_def insertInvoiceNumber_def
        upsertNumberSequence_def andThen_eq_Inr getSettings_row split: if_splits)
next
  case (approve_credit c' date t a)
  then show ?thesis using st
    by (auto simp: numberCreditInvoice_def storeInvoiceNumber_def insertInvoiceNumber_def
        upsertNumberSequence_def andThen_eq_Inr getSettings_row split: if_splits)
qed

end
