(* ===== verification/NumberingProperties.thy ===== *)
theory NumberingProperties
  imports NumberingHistory
begin

text \<open>
  The properties of actor contexts, invoice numbers, reference numbers, numbering settings
  and numbering series, each with an instance.
\<close>

section \<open>Example data\<close>

definition exampleActor :: ActorContext where
  "exampleActor =
     \<lparr>ac_actorId = ''user'', ac_authenticationMode = ''local'', ac_companyId = ''acme'',
      ac_permissions = permissionValues\<rparr>"

definition exampleUpdate :: UpdateInvoiceNumberingSettingsInput where
  "exampleUpdate =
     \<lparr>un_actorContext = exampleActor, un_mode = CalendarYearSequence,
      un_fiscalYearStartMonth = 1, un_sequencePadding = 4, un_firstSequenceNumber = 1,
      un_now = ''2026-01-02T10:00:00.000Z''\<rparr>"

text \<open>The database after the settings are saved, and after an approval.\<close>

definition exampleSaved :: NumberingDatabase where
  "exampleSaved =
     \<lparr>db_settings =
        [\<lparr>rs_company_id = ''acme'', rs_series_key = ''default'',
          rs_mode = CalendarYearSequence, rs_fiscal_year_start_month = 1,
          rs_sequence_padding = 4, rs_first_sequence_number = 1,
          rs_created_at = ''2026-01-02T10:00:00.000Z'',
          rs_updated_at = ''2026-01-02T10:00:00.000Z''\<rparr>],
      db_sequences = [],
      db_activeSeries =
        [\<lparr>ra_company_id = ''acme'', ra_active_series_key = ''default'', ra_revision = 1,
          ra_updated_at = ''2026-01-02T10:00:00.000Z'', ra_updated_by = ''user''\<rparr>],
      db_seriesEvents = [], db_invoices = [],
      db_settingsAudit =
        [\<lparr>ae_action = ''invoiceNumberingSettings.updated'', ae_actorUserId = ''user'',
          ae_companyId = ''acme'', ae_id = ''uuid-1'',
          ae_occurredAt = ''2026-01-02T10:00:00.000Z'', ae_outcome = ''success''\<rparr>]\<rparr>"

definition exampleIssued :: NumberingDatabase where
  "exampleIssued = exampleSaved
     \<lparr>db_sequences :=
        [\<lparr>rq_company_id = ''acme'', rq_series_key = ''default'',
          rq_sequence_scope = ''calendar-year:2026'', rq_last_sequence_number = 1,
          rq_created_at = ''now'', rq_updated_at = ''now''\<rparr>],
      db_invoices :=
        [\<lparr>ri_company_id = ''acme'', ri_invoice_number = ''20260001'', ri_series_key = ''default'',
          ri_sequence_scope = ''calendar-year:2026'', ri_sequence_number = 1\<rparr>]\<rparr>"

definition leadsTo :: "(NumberingDatabase \<times> 'a) result \<Rightarrow> NumberingDatabase \<Rightarrow> bool" where
  "leadsTo r db = (case r of Inl _ \<Rightarrow> False | Inr (db', _) \<Rightarrow> db' = db)"

lemma leadsTo_Inr: "leadsTo r db \<Longrightarrow> \<exists>x. r = Inr (db, x)"
  by (auto simp: leadsTo_def split: sum.splits)

lemma example_histories: "numbering_history exampleSaved" "numbering_history exampleIssued"
proof -
  have "leadsTo (updateInvoiceNumberingSettings ''uuid-1'' sqliteSettingsRepository
      emptyNumberingDatabase exampleUpdate) exampleSaved" by code_simp
  from leadsTo_Inr [OF this] have "numbering_step emptyNumberingDatabase exampleSaved"
    by (blast intro: numbering_step.intros)
  then show saved: "numbering_history exampleSaved"
    by (rule numbering_history.step [OF numbering_history.empty])
  have "leadsTo (numberStandardInvoice exampleSaved ''acme'' ''2026-01-05'' ''now'') exampleIssued"
    by code_simp
  from leadsTo_Inr [OF this] have "numbering_step exampleSaved exampleIssued"
    by (fastforce intro: numbering_step.intros)
  with saved show "numbering_history exampleIssued" by (rule numbering_history.step)
qed

section \<open>Properties\<close>

text \<open>
  C20: \<open>createActorContext\<close> accepts exactly text identifiers that are, once trimmed, 1 to
  200 characters long without control characters, a known authentication mode and a list
  of known permissions; the context holds the trimmed identifiers and the given permissions.
\<close>

theorem createActorContext_exact:
  "createActorContext input = Inr c \<longleftrightarrow>
     (\<exists>a co. ai_actorId input = JsString a \<and> ac_actorId c = trim a \<and>
        ai_companyId input = JsString co \<and> ac_companyId c = trim co) \<and>
     validIdentifier (ac_actorId c) \<and> validIdentifier (ac_companyId c) \<and>
     ai_authenticationMode input = JsString (ac_authenticationMode c) \<and>
     ac_authenticationMode c \<in> set authenticationModeValues \<and>
     ai_permissions input = JsArray (map JsString (ac_permissions c)) \<and>
     set (ac_permissions c) \<subseteq> set permissionValues"
  by (rule createActorContext_eq_Inr)

text \<open>
  C21: An invoice number determines its position: two invoices of a series that print the
  same number have the same position and belong to the same sequence, whatever their dates.
\<close>

theorem invoice_number_determines_position:
  assumes "formatInvoiceNumber st date n = Inr s" "formatInvoiceNumber st date' n' = Inr s"
  shows "n = n' \<and>
    resolveInvoiceNumberSequenceScope st date = resolveInvoiceNumberSequenceScope st date'"
proof -
  note inj = formatInvoiceNumber_inj [OF assms]
  have valid: "validSettings st" using assms(1) by (simp add: formatInvoiceNumber_eq_Inr)
  obtain y where "seriesYear st date = Inr y" "seriesYear st date' = Inr y"
    using assms(1) inj(2) by (auto simp: formatInvoiceNumber_eq_Inr)
  with valid have "resolveInvoiceNumberSequenceScope st date = Inr (scopeName (ns_mode st) y)"
    "resolveInvoiceNumberSequenceScope st date' = Inr (scopeName (ns_mode st) y)"
    by (simp_all add: resolveInvoiceNumberSequenceScope_eq_Inr)
  with inj(1) show ?thesis by simp
qed

theorem invoice_number_determines_position_witness:
  "resolveInvoiceNumberSequenceScope
     \<lparr>ns_mode = FiscalYearSequence, ns_fiscalYearStartMonth = 7, ns_sequencePadding = 3,
      ns_firstSequenceNumber = 1\<rparr> ''2026-07-01'' =
   resolveInvoiceNumberSequenceScope
     \<lparr>ns_mode = FiscalYearSequence, ns_fiscalYearStartMonth = 7, ns_sequencePadding = 3,
      ns_firstSequenceNumber = 1\<rparr> ''2027-06-30''"
proof -
  let ?st = "\<lparr>ns_mode = FiscalYearSequence, ns_fiscalYearStartMonth = 7, ns_sequencePadding = 3,
      ns_firstSequenceNumber = 1\<rparr>"
  have "formatInvoiceNumber ?st ''2026-07-01'' 12 = Inr ''2026012''" by code_simp
  moreover have "formatInvoiceNumber ?st ''2027-06-30'' 12 = Inr ''2026012''" by code_simp
  ultimately show ?thesis using invoice_number_determines_position [of ?st] by blast
qed


text \<open>
  C23: Changing any one digit of a valid reference number makes it invalid.
\<close>

theorem reference_number_detects_change:
  assumes "validateFinnishDomesticReferenceNumber (xs @ [c] @ ys) = Inr ()"
    and "c' \<noteq> c" and "isDigit c'"
  shows "validateFinnishDomesticReferenceNumber (xs @ [c'] @ ys) \<noteq> Inr ()"
  by (rule reference_single_change [OF assms])

theorem reference_number_detects_change_witness:
  "validateFinnishDomesticReferenceNumber ''202600817'' \<noteq> Inr ()"
proof -
  have "validateFinnishDomesticReferenceNumber (''202600'' @ [CHR ''0''] @ ''17'') = Inr ()"
    by code_simp
  moreover have "isDigit (CHR ''8'')" by code_simp
  ultimately show ?thesis
    using reference_number_detects_change [of "''202600''" "CHR ''0''" "''17''" "CHR ''8''"] by simp
qed

text \<open>
  C24: The first number proposed for a new series is safe and minimal: no existing number of
  the company is printed by the series at that position or any later one, and unless it is
  1 some existing number is printed at the position before it.
\<close>

theorem calculateMinimumSafe_safe_and_minimal:
  assumes "calculateMinimumSafeInvoiceSequenceNumber
      \<lparr>mi_existingInvoiceNumbers = existing, mi_target = target\<rparr> = Inr r"
    and "mr_capacity r = Available"
  shows "\<exists>m. mr_minimumSafeFirstSequenceNumber r = Some m \<and> 1 \<le> m \<and>
    (\<forall>n date s. m \<le> n \<longrightarrow> formatInvoiceNumber (candidateSettings target) date n = Inr s \<longrightarrow>
       s \<notin> set existing) \<and>
    (m = 1 \<or> (\<exists>s \<in> set existing. \<exists>date.
       formatInvoiceNumber (candidateSettings target) date (m - 1) = Inr s))"
  using calculateMinimumSafe_facts(5) [OF assms] unfolding printedAt_def by blast

definition exampleCandidate :: InvoiceNumberingSeriesCandidate where
  "exampleCandidate =
     \<lparr>nc_mode = PlainSequence, nc_fiscalYearStartMonth = 1, nc_sequencePadding = 4\<rparr>"

theorem calculateMinimumSafe_safe_and_minimal_witness:
  "\<exists>r m. calculateMinimumSafeInvoiceSequenceNumber
      \<lparr>mi_existingInvoiceNumbers = [''0007''], mi_target = exampleCandidate\<rparr> = Inr r \<and>
    mr_minimumSafeFirstSequenceNumber r = Some m \<and> 8 \<le> m"
proof -
  have "succeeds (calculateMinimumSafeInvoiceSequenceNumber
      \<lparr>mi_existingInvoiceNumbers = [''0007''], mi_target = exampleCandidate\<rparr>)"
    unfolding calculateMinimumSafe_succeeds by code_simp
  then obtain r where r: "calculateMinimumSafeInvoiceSequenceNumber
      \<lparr>mi_existingInvoiceNumbers = [''0007''], mi_target = exampleCandidate\<rparr> = Inr r"
    by (auto simp: succeeds_iff)
  have seven: "formatInvoiceNumber (candidateSettings exampleCandidate) ''2026-01-05'' 7 = Inr ''0007''"
    by code_simp
  have "mr_capacity r = Available"
  proof (rule ccontr)
    assume "mr_capacity r \<noteq> Available"
    then have "mr_capacity r = Exhausted" by (cases "mr_capacity r") simp_all
    from calculateMinimumSafe_facts(4) [OF r this] have
      "printedAt exampleCandidate (getMaximumSequenceNumber PlainSequence) ''0007''"
      by (simp add: exampleCandidate_def)
    then obtain date where "formatInvoiceNumber (candidateSettings exampleCandidate) date
        (getMaximumSequenceNumber PlainSequence) = Inr ''0007''"
      unfolding printedAt_def by blast
    from formatInvoiceNumber_inj(1) [OF this seven] show False
      by (simp add: getMaximumSequenceNumber_def constants MAX_SAFE_INTEGER_def)
  qed
  from calculateMinimumSafe_safe_and_minimal [OF r this] obtain m where
    m: "mr_minimumSafeFirstSequenceNumber r = Some m"
      "\<forall>n date s. m \<le> n \<longrightarrow> formatInvoiceNumber (candidateSettings exampleCandidate) date n = Inr s \<longrightarrow>
         s \<notin> set [''0007'']" by blast
  have "\<not> m \<le> 7" using m(2) seven by auto
  with r m(1) show ?thesis by (intro exI [of _ r] exI [of _ m]) simp
qed

text \<open>
  C25: In a run of reservations over the SQLite repository no two reservations of the same
  company and series get the same invoice number.
\<close>

theorem reserved_numbers_distinct:
  assumes "reserveAll sqliteSettingsRepository sqliteSequenceRepository db inputs = Inr (db', rs)"
    and "i < j" "j < length rs"
    and "trim (rn_companyId (inputs ! i)) = trim (rn_companyId (inputs ! j))"
    and "trim (rn_seriesKey (inputs ! i)) = trim (rn_seriesKey (inputs ! j))"
  shows "rd_invoiceNumber (rs ! i) \<noteq> rd_invoiceNumber (rs ! j)"
  using sqliteSequences.reserveAll_distinct [OF assms(1-3)] assms(4,5)
  by (simp add: sqliteSequences.series_of_def)

definition exampleReservation :: "string \<Rightarrow> ReserveInvoiceNumberInput" where
  "exampleReservation date =
     \<lparr>rn_companyId = ''acme'', rn_seriesKey = ''default'', rn_invoiceDate = date,
      rn_now = ''2026-01-05T10:00:00.000Z''\<rparr>"

theorem reserved_numbers_distinct_witness:
  "\<exists>db' a b. reserveAll sqliteSettingsRepository sqliteSequenceRepository exampleSaved
      [exampleReservation ''2026-01-05'', exampleReservation ''2026-02-28''] = Inr (db', [a, b]) \<and>
     rd_invoiceNumber a \<noteq> rd_invoiceNumber b"
proof -
  let ?inputs = "[exampleReservation ''2026-01-05'', exampleReservation ''2026-02-28'']"
  have "succeeds (reserveAll sqliteSettingsRepository sqliteSequenceRepository exampleSaved ?inputs)"
    by code_simp
  then obtain db' rs where run: "reserveAll sqliteSettingsRepository sqliteSequenceRepository exampleSaved ?inputs
      = Inr (db', rs)" by (auto simp: succeeds_iff)
  from sqliteSequences.reserveAll_fresh(1) [OF run] have "length rs = 2" by simp
  then obtain a b where rs: "rs = [a, b]" by (auto simp: numeral_2_eq_2 length_Suc_conv)
  from reserved_numbers_distinct [OF run, of 0 1] have "rd_invoiceNumber a \<noteq> rd_invoiceNumber b"
    by (simp add: rs exampleReservation_def)
  with run rs show ?thesis by blast
qed

text \<open>
  C26: A new number never meets an old one: after any history of settings updates, series
  activations and approvals, the number assigned to the next invoice of a company is carried
  by none of its invoices, of whatever series, and storing it succeeds.
\<close>

theorem assigned_number_never_collides:
  assumes "numbering_history db" and "assignInvoiceNumber db companyId invoiceDate = Inr assigned"
  shows "an_invoiceNumber assigned \<notin> set (readExistingInvoiceNumbers db companyId) \<and>
    (\<exists>db'. numberCreditInvoice db companyId invoiceDate approvedAt = Inr (db', assigned) \<and>
       an_invoiceNumber assigned \<in> set (readExistingInvoiceNumbers db' companyId))"
proof -
  note inv = numbering_history_invariant [OF assms(1)]
  have "numberCreditInvoice db companyId invoiceDate approvedAt =
      Inr (storedNumberDatabase db companyId assigned approvedAt, assigned)"
    using assms(2) storeInvoiceNumber_eq [OF inv assms(2)] by (simp add: numberCreditInvoice_def)
  moreover have "an_invoiceNumber assigned \<in>
      set (readExistingInvoiceNumbers (storedNumberDatabase db companyId assigned approvedAt) companyId)"
    by (simp add: readExistingInvoiceNumbers_def storedNumberDatabase_def numberColumns_def)
  ultimately show ?thesis using assigned_number_fresh(1) [OF inv assms(2)] by blast
qed

theorem assigned_number_never_collides_witness:
  "\<exists>assigned db'. numberCreditInvoice exampleIssued ''acme'' ''2026-12-31'' ''later'' = Inr (db', assigned) \<and>
     an_invoiceNumber assigned \<notin> set (readExistingInvoiceNumbers exampleIssued ''acme'')"
proof -
  have "succeeds (assignInvoiceNumber exampleIssued ''acme'' ''2026-12-31'')" by code_simp
  then obtain a where "assignInvoiceNumber exampleIssued ''acme'' ''2026-12-31'' = Inr a"
    by (auto simp: succeeds_iff)
  from assigned_number_never_collides [OF example_histories(2) this, of "''later''"] show ?thesis by blast
qed

text \<open>
  C27: Numbering is gapless: in any history the positions of the invoices of one sequence,
  in the order they were approved, are consecutive and start at the first sequence number
  of the settings of their series.
\<close>

theorem issued_positions_consecutive:
  assumes "numbering_history db" and "issuedNumbers db companyId seriesKey sequenceScope \<noteq> []"
  shows "\<exists>settings last. getSettings db companyId seriesKey = Some settings \<and>
    issuedNumbers db companyId seriesKey sequenceScope = [ns_firstSequenceNumber settings .. last]"
  by (rule history_gapless [OF assms])

theorem issued_positions_consecutive_witness:
  "\<exists>settings last. getSettings exampleIssued ''acme'' ''default'' = Some settings \<and>
    issuedNumbers exampleIssued ''acme'' ''default'' ''calendar-year:2026'' =
      [ns_firstSequenceNumber settings .. last]"
proof (rule issued_positions_consecutive [OF example_histories(2)])
  show "issuedNumbers exampleIssued ''acme'' ''default'' ''calendar-year:2026'' \<noteq> []" by code_simp
qed

text \<open>
  C28: The settings of a series in use are immutable: no accepted request, whatever it is,
  changes the settings of a series that has a sequence, an invoice or a series event.
\<close>

theorem used_settings_immutable:
  assumes "numbering_step db db'" and "getSettings db companyId seriesKey = Some settings"
    and "settingsAreUsed db companyId seriesKey"
  shows "getSettings db' companyId seriesKey = Some settings"
  by (rule used_settings_kept [OF assms])

theorem used_settings_immutable_witness:
  "\<exists>db' settings. getSettings exampleIssued ''acme'' ''default'' = Some settings \<and>
    numbering_step exampleIssued db' \<and> getSettings db' ''acme'' ''default'' = Some settings"
proof -
  have "succeeds (numberCreditInvoice exampleIssued ''acme'' ''2027-01-01'' ''later'')" by code_simp
  then obtain db' a where "numberCreditInvoice exampleIssued ''acme'' ''2027-01-01'' ''later'' = Inr (db', a)"
    by (auto simp: succeeds_iff)
  then have step: "numbering_step exampleIssued db'" by (rule numbering_step.intros)
  have "getSettings exampleIssued ''acme'' ''default'' \<noteq> None" by code_simp
  then obtain st where st: "getSettings exampleIssued ''acme'' ''default'' = Some st" by blast
  have "settingsAreUsed exampleIssued ''acme'' ''default''" by code_simp
  from used_settings_immutable [OF step st this] step st show ?thesis by blast
qed

text \<open>
  C29: Saving the settings again unchanged, which the application function means to accept
  once numbering is in use, is always refused by the database: the trigger that keeps used
  settings immutable fires on every update of the row.
\<close>

theorem unchanged_used_settings_refused:
  assumes "''manageInvoiceSettings'' \<in> set (ac_permissions (un_actorContext input))"
    and "trim (ac_companyId (un_actorContext input)) \<noteq> []" and "trim (un_now input) \<noteq> []"
    and "getSettings db (trim (ac_companyId (un_actorContext input))) defaultInvoiceNumberSeriesKey
      = Some current"
    and "validSettings current"
    and "hasUsedNumbering db (trim (ac_companyId (un_actorContext input))) defaultInvoiceNumberSeriesKey"
    and "settingsAreEqual current (toNumberingSettings input)"
  shows "updateInvoiceNumberingSettings randomUUID sqliteSettingsRepository db input =
    Inl (SqliteError ''Used invoice numbering settings are immutable.'')"
proof -
  let ?c = "trim (ac_companyId (un_actorContext input))" and ?d = defaultInvoiceNumberSeriesKey
  let ?s = "updatedSettings input (Some current)"
  have vs: "validSettings (toNumberingSettings input)" "validSettings ?s"
    using assms(5,7) by (auto simp: settingsAreEqual_def validSettings_def toNumberingSettings_def
        updatedSettings_def)
  have perm: "requirePermission (un_actorContext input) ''manageInvoiceSettings'' = Inr ()"
    using assms(1) by (simp add: requirePermission_ok permissionValues_def)
  have ok: "validateInvoiceNumberingSettings (toNumberingSettings input) = Inr ()"
    "validateInvoiceNumberingSettings current = Inr ()"
    using vs assms(5) by (simp_all add: validateInvoiceNumberingSettings_ok)
  have key: "validSeriesKey ?d" by code_simp
  have stored: "validateStoredInvoiceNumberingSettings ?s = Inr ()"
    using assms(2) vs(2) key by (simp add: validateStoredInvoiceNumberingSettings_ok updatedSettings_def)
  have create: "createStoredSettings input ?c (Some current) = Inr ?s"
    using assms(3) by (simp add: createStoredSettings_eq_Inr)
  have used: "settingsAreUsed db ?c ?d"
    using assms(6) by (auto simp: hasUsedNumbering_def settingsAreUsed_def filter_empty_conv)
  have "upsertSettings db (toInvoiceNumberingSettingsRow ?s) =
      Inl (SqliteError ''Used invoice numbering settings are immutable.'')"
    using assms(4) used
    by (auto simp: upsertSettings_def getSettings_row toInvoiceNumberingSettingsRow_def
        settingsKey_def updatedSettings_def)
  then have save: "saveSettings db ?s e = Inl (SqliteError ''Used invoice numbering settings are immutable.'')" for e
    by (simp add: saveSettings_def stored Let_def)
  show ?thesis
    unfolding updateInvoiceNumberingSettings_def perm sqliteSettingsRepository_def Let_def
    using assms(2-4,6,7)
    by (simp add: requireNonEmptySetting_def Let_def ok create save)
qed

theorem unchanged_used_settings_refused_witness:
  "updateInvoiceNumberingSettings ''uuid-2'' sqliteSettingsRepository exampleIssued exampleUpdate =
    Inl (SqliteError ''Used invoice numbering settings are immutable.'')"
proof -
  have "getSettings exampleIssued (trim (ac_companyId (un_actorContext exampleUpdate)))
      defaultInvoiceNumberSeriesKey =
    Some \<lparr>ns_mode = CalendarYearSequence, ns_fiscalYearStartMonth = 1, ns_sequencePadding = 4,
      ns_firstSequenceNumber = 1, ns_companyId = ''acme'', ns_seriesKey = ''default'',
      ns_createdAt = ''2026-01-02T10:00:00.000Z'', ns_updatedAt = ''2026-01-02T10:00:00.000Z''\<rparr>"
    by code_simp
  from unchanged_used_settings_refused [OF _ _ _ this] show ?thesis
    by (rule meta_mp) code_simp+
qed

text \<open>
  Activations are safe against concurrent changes: when the active series pointer has
  another key or revision in the transaction than when the request read it, the request
  reports a conflict and changes nothing.
\<close>

theorem activation_conflict_detected:
  assumes "prepareActivation nextSeriesKey eventId dbRead input = Inr p"
    and "readActiveSeries dbRead (trim (ac_companyId (ia_actorContext input))) = Some before"
    and "readActiveSeries db (trim (ac_companyId (ia_actorContext input))) = Some after"
    and "(ra_active_series_key before, ra_revision before) \<noteq>
      (ra_active_series_key after, ra_revision after)"
  shows "activate db p = Inr (db, ActivationConflict) \<and>
    activateInvoiceNumberingSeries nextSeriesKey eventId dbRead db input =
      Inl (InvoiceNumberingSeriesError ''conflict''
        ''Invoice numbering series changed before activation.'')"
  using activate_conflict [OF assms] assms(1)
  by (simp add: activateInvoiceNumberingSeries_def toApplicationError_def)

definition exampleActivation :: ActivateInvoiceNumberingSeriesInput where
  "exampleActivation =
     \<lparr>ia_actorContext = exampleActor,
      ia_confirmation = activateInvoiceNumberingSeriesConfirmation, ia_currentRevision = 1,
      ia_firstSequenceNumber = 1, ia_fiscalYearStartMonth = 1, ia_mode = FiscalYearSequence,
      ia_now = ''2026-03-01T10:00:00.000Z'', ia_reasonCode = ''other'', ia_reasonNote = None,
      ia_sequencePadding = 6\<rparr>"

theorem activation_conflict_detected_witness:
  "\<exists>input p db. prepareActivation ''series-2'' ''event-2'' exampleIssued input = Inr p \<and>
     activate db p = Inr (db, ActivationConflict)"
proof -
  let ?row = "\<lparr>ra_company_id = ''acme'', ra_active_series_key = ''series-1'', ra_revision = 2,
      ra_updated_at = ''2026-02-28T10:00:00.000Z'', ra_updated_by = ''user''\<rparr>"
  let ?db = "exampleIssued\<lparr>db_activeSeries := [?row]\<rparr>"
  have "succeeds (prepareActivation ''series-2'' ''event-2'' exampleIssued exampleActivation)" by code_simp
  then obtain p where p: "prepareActivation ''series-2'' ''event-2'' exampleIssued exampleActivation = Inr p"
    by (auto simp: succeeds_iff)
  have "readActiveSeries exampleIssued (trim (ac_companyId (ia_actorContext exampleActivation))) =
      Some \<lparr>ra_company_id = ''acme'', ra_active_series_key = ''default'', ra_revision = 1,
        ra_updated_at = ''2026-01-02T10:00:00.000Z'', ra_updated_by = ''user''\<rparr>" by code_simp
  moreover have "readActiveSeries ?db (trim (ac_companyId (ia_actorContext exampleActivation))) =
      Some ?row" by code_simp
  ultimately have "activate ?db p = Inr (?db, ActivationConflict)"
    using activation_conflict_detected [OF p] by simp
  with p show ?thesis by blast
qed

end
