(* ===== verification/JsDate.thy ===== *)
theory JsDate
  imports JsStrings
begin

text \<open>
  JavaScript dates as the program uses them: the proleptic Gregorian calendar of time
  values (days since 1 January 1970, the year found by an estimate that is corrected by
  at most one), \<open>new Date\<close> of a UTC midnight, \<open>Date.UTC\<close>, the UTC getters and
  \<open>toISOString\<close>. The lemmas say that days and calendar dates correspond one to one and
  that for dates of the years 0 to 9999 the order of the printed strings is the order in
  time.
\<close>

section \<open>The calendar\<close>

definition isLeapYear :: "int \<Rightarrow> bool" where
  "isLeapYear y \<longleftrightarrow> 4 dvd y \<and> (\<not> 100 dvd y \<or> 400 dvd y)"

definition dayFromYear :: "int \<Rightarrow> int" where
  "dayFromYear y = 365 * (y - 1970) + (y - 1969) div 4 - (y - 1901) div 100 + (y - 1601) div 400"

definition daysInYear :: "int \<Rightarrow> int" where
  "daysInYear y = (if isLeapYear y then 366 else 365)"

definition monthLengths :: "int \<Rightarrow> int list" where
  "monthLengths y = [31, if isLeapYear y then 29 else 28, 31, 30, 31, 30, 31, 31, 30, 31, 30, 31]"

definition daysInMonth :: "int \<Rightarrow> int \<Rightarrow> int" where
  "daysInMonth y m = monthLengths y ! nat (m - 1)"

definition daysBeforeMonth :: "int \<Rightarrow> int \<Rightarrow> int" where
  "daysBeforeMonth y m = sum_list (take (nat (m - 1)) (monthLengths y))"

type_synonym civil = "int \<times> int \<times> int"

definition validCivil :: "civil \<Rightarrow> bool" where
  "validCivil c = (case c of (y, m, d) \<Rightarrow> 1 \<le> m \<and> m \<le> 12 \<and> 1 \<le> d \<and> d \<le> daysInMonth y m)"

text \<open>\<open>MakeDay\<close>: a day beyond the length of its month runs into the next one.\<close>

definition dayFromCivil :: "civil \<Rightarrow> int" where
  "dayFromCivil c = (case c of (y, m, d) \<Rightarrow> dayFromYear y + daysBeforeMonth y m + d - 1)"

definition yearFromDay :: "int \<Rightarrow> int" where
  "yearFromDay n =
     (let y = 1970 + 400 * n div 146097 in
      if n < dayFromYear y then y - 1
      else if dayFromYear (y + 1) \<le> n then y + 1
      else y)"

fun splitYearDay :: "int \<Rightarrow> int list \<Rightarrow> int \<Rightarrow> int \<times> int" where
  "splitYearDay m [] d = (m, d + 1)"
| "splitYearDay m (l # ls) d = (if d < l then (m, d + 1) else splitYearDay (m + 1) ls (d - l))"

definition civilFromDay :: "int \<Rightarrow> civil" where
  "civilFromDay n =
     (let y = yearFromDay n in (y, splitYearDay 1 (monthLengths y) (n - dayFromYear y)))"

lemma div_bounds:
  assumes "0 < (k::int)" shows "k * (z div k) \<le> z" "z < k * (z div k) + k"
  using pos_mod_sign [OF assms, of z] pos_mod_bound [OF assms, of z]
  by (simp_all add: minus_mod_eq_mult_div [symmetric])

lemma div_Suc:
  assumes "0 < (k::int)"
  shows "(z + 1) div k = z div k + (if k dvd z + 1 then 1 else 0)"
proof -
  have m: "0 \<le> z mod k" "z mod k < k" using assms by simp_all
  show ?thesis
  proof (cases "z mod k + 1 = k")
    case True
    then have "z + 1 = k * (z div k + 1)" by (metis add.assoc distrib_left mult.right_neutral mult_div_mod_eq)
    then show ?thesis using assms by (metis dvd_triv_left nonzero_mult_div_cancel_left order_less_irrefl)
  next
    case False
    with m have r: "0 \<le> z mod k + 1" "z mod k + 1 < k" by simp_all
    have eq: "z + 1 = k * (z div k) + (z mod k + 1)" by simp
    have "(z + 1) div k = z div k"
      using r by (intro int_div_pos_eq [OF eq])
    moreover have "(z + 1) mod k = z mod k + 1"
      using r by (intro int_mod_pos_eq [OF eq])
    ultimately show ?thesis using m by (simp add: dvd_eq_mod_eq_0)
  qed
qed

lemma dvd_shift: "(4::int) dvd y - 1968 \<longleftrightarrow> 4 dvd y" "(100::int) dvd y - 1900 \<longleftrightarrow> 100 dvd y"
  "(400::int) dvd y - 1600 \<longleftrightarrow> 400 dvd y"
  using dvd_diff_right_iff [of 4 1968 y] dvd_diff_right_iff [of 100 1900 y]
    dvd_diff_right_iff [of 400 1600 y]
  by (simp_all add: dvd_diff_left_iff)

lemma leap_step:
  assumes "n' = base + 365 + (a + (if P then 1 else 0)) - (b + (if Q then 1 else 0)) +
      (c + (if R then 1 else (0::int)))"
    and "n = base + a - b + c" "Q \<longrightarrow> P" "R \<longrightarrow> Q"
  shows "n' = n + (if P \<and> (\<not> Q \<or> R) then 366 else 365)"
  using assms by (cases P; cases Q; cases R) simp_all

lemma dayFromYear_Suc: "dayFromYear (y + 1) = dayFromYear y + daysInYear y"
proof -
  obtain a b c where abc: "a = (y - 1969) div 4" "b = (y - 1901) div 100" "c = (y - 1601) div 400"
    by blast
  have "(y - 1968) div 4 = a + (if 4 dvd y then 1 else 0)"
       "(y - 1900) div 100 = b + (if 100 dvd y then 1 else 0)"
       "(y - 1600) div 400 = c + (if 400 dvd y then 1 else 0)"
    using div_Suc [of 4 "y - 1969"] div_Suc [of 100 "y - 1901"] div_Suc [of 400 "y - 1601"]
    by (simp_all add: dvd_shift abc)
  then have "dayFromYear (y + 1) = 365 * (y - 1970) + 365 + (a + (if 4 dvd y then 1 else 0)) -
      (b + (if 100 dvd y then 1 else 0)) + (c + (if 400 dvd y then 1 else 0))"
    by (simp add: dayFromYear_def)
  moreover have "dayFromYear y = 365 * (y - 1970) + a - b + c"
    by (simp add: dayFromYear_def abc)
  moreover have "100 dvd y \<longrightarrow> 4 dvd y"
    using dvd_trans [of 4 100 y] by simp
  moreover have "400 dvd y \<longrightarrow> 100 dvd y"
    using dvd_trans [of 100 400 y] by simp
  ultimately show ?thesis
    unfolding daysInYear_def isLeapYear_def by (rule leap_step)
qed

lemma daysInYear_pos: "365 \<le> daysInYear y" "daysInYear y \<le> 366"
  by (simp_all add: daysInYear_def)

lemma dayFromYear_add: "dayFromYear y + 365 * int k \<le> dayFromYear (y + int k)"
proof (induction k)
  case 0
  then show ?case by simp
next
  case (Suc k)
  have "dayFromYear (y + int k + 1) = dayFromYear (y + int k) + daysInYear (y + int k)"
    by (rule dayFromYear_Suc)
  with Suc daysInYear_pos(1) [of "y + int k"] show ?case by (simp add: algebra_simps)
qed

lemma dayFromYear_mono:
  assumes "y \<le> z" shows "dayFromYear y + 365 * (z - y) \<le> dayFromYear z"
  using dayFromYear_add [of y "nat (z - y)"] assms by simp

lemma dayFromYear_bounds:
  "146097 * (y - 1970) - 507 \<le> 400 * dayFromYear y"
  "400 * dayFromYear y \<le> 146097 * (y - 1970) + 590"
proof -
  obtain a b c where abc: "a = (y - 1969) div 4" "b = (y - 1901) div 100" "c = (y - 1601) div 400"
    by blast
  have "4 * a \<le> y - 1969" "y - 1969 < 4 * a + 4" "100 * b \<le> y - 1901" "y - 1901 < 100 * b + 100"
    "400 * c \<le> y - 1601" "y - 1601 < 400 * c + 400"
    unfolding abc by (rule div_bounds, simp)+
  moreover have "dayFromYear y = 365 * (y - 1970) + a - b + c"
    by (simp add: dayFromYear_def abc)
  ultimately show "146097 * (y - 1970) - 507 \<le> 400 * dayFromYear y"
    "400 * dayFromYear y \<le> 146097 * (y - 1970) + 590"
    by simp_all
qed

text \<open>The estimate of the year.\<close>

lemma year_estimate:
  fixes n :: int
  obtains e where "e = 1970 + 400 * n div 146097"
    "146097 * (e - 1970) \<le> 400 * n" "400 * n < 146097 * (e - 1970) + 146097"
  using div_bounds [of 146097 "400 * n"] by (intro that [OF refl]) simp_all

lemma yearFromDay_unique:
  assumes "dayFromYear y \<le> n" "n < dayFromYear (y + 1)"
  shows "yearFromDay n = y"
proof -
  obtain e where e_def: "e = 1970 + 400 * n div 146097"
    and e: "146097 * (e - 1970) \<le> 400 * n" "400 * n < 146097 * (e - 1970) + 146097"
    by (rule year_estimate)
  have low: "146097 * (y - 1970) - 507 \<le> 400 * n"
    using assms dayFromYear_bounds(1) [of y] by simp
  have high: "400 * n < 146097 * (y - 1969) + 590"
    using assms dayFromYear_bounds(2) [of "y + 1"] by simp
  have "y - 1 \<le> e" using low e(2) by simp
  moreover have "e \<le> y + 1" using high e(1) by simp
  ultimately have "y - 1 \<le> e" "e \<le> y + 1" by simp_all
  then consider "e = y - 1" | "e = y" | "e = y + 1" by linarith
  then show ?thesis
  proof cases
    case 1
    then show ?thesis using assms dayFromYear_mono [of "y - 1" y]
      by (simp add: yearFromDay_def Let_def e_def [symmetric])
  next
    case 2
    then show ?thesis using assms by (simp add: yearFromDay_def Let_def e_def [symmetric])
  next
    case 3
    then show ?thesis using assms by (simp add: yearFromDay_def Let_def e_def [symmetric])
  qed
qed

lemma yearFromDay_exists: "\<exists>y. dayFromYear y \<le> n \<and> n < dayFromYear (y + 1)"
proof -
  obtain e where e_def: "e = 1970 + 400 * n div 146097"
    and e: "146097 * (e - 1970) \<le> 400 * n" "400 * n < 146097 * (e - 1970) + 146097"
    by (rule year_estimate)
  have lower: "dayFromYear (e - 1) \<le> n"
    using e dayFromYear_bounds(2) [of "e - 1"] by simp
  have upper: "n < dayFromYear (e + 2)"
    using e dayFromYear_bounds(1) [of "e + 2"] by simp
  consider "n < dayFromYear e" | "dayFromYear e \<le> n \<and> n < dayFromYear (e + 1)"
    | "dayFromYear (e + 1) \<le> n" by linarith
  then show ?thesis
  proof cases
    case 1
    with lower show ?thesis by (intro exI [of _ "e - 1"]) simp
  next
    case 2
    then show ?thesis by blast
  next
    case 3
    with upper show ?thesis by (intro exI [of _ "e + 1"]) (simp add: add.assoc)
  qed
qed

lemma yearFromDay_bounds: "dayFromYear (yearFromDay n) \<le> n" "n < dayFromYear (yearFromDay n + 1)"
  using yearFromDay_exists [of n] yearFromDay_unique by auto

lemma yearFromDay_range:
  assumes "dayFromYear a \<le> n" "n < dayFromYear b"
  shows "a \<le> yearFromDay n" "yearFromDay n < b"
proof -
  show "a \<le> yearFromDay n"
  proof (rule ccontr)
    assume "\<not> a \<le> yearFromDay n"
    then show False
      using dayFromYear_mono [of "yearFromDay n + 1" a] yearFromDay_bounds(2) [of n] assms(1) by simp
  qed
  show "yearFromDay n < b"
  proof (rule ccontr)
    assume "\<not> yearFromDay n < b"
    then show False
      using dayFromYear_mono [of b "yearFromDay n"] yearFromDay_bounds(1) [of n] assms(2) by simp
  qed
qed

text \<open>Months: the twelve cases.\<close>

lemma month_cases:
  assumes "1 \<le> (m::int)" "m \<le> 12"
  shows "m = 1 \<or> m = 2 \<or> m = 3 \<or> m = 4 \<or> m = 5 \<or> m = 6 \<or> m = 7 \<or> m = 8 \<or> m = 9 \<or> m = 10 \<or>
    m = 11 \<or> m = 12"
  using assms by presburger

lemma nat_month [simp]:
  "nat 1 = Suc 0" "nat 2 = Suc (Suc 0)" "nat 3 = 3" "nat 4 = 4" "nat 5 = 5" "nat 6 = 6" "nat 7 = 7"
  "nat 8 = 8" "nat 9 = 9" "nat 10 = 10" "nat 11 = 11"
  by simp_all

lemma splitYearDay_before:
  assumes "1 \<le> m" "m \<le> 12" "1 \<le> d" "d \<le> daysInMonth y m"
  shows "splitYearDay 1 (monthLengths y) (daysBeforeMonth y m + d - 1) = (m, d)"
  using month_cases [OF assms(1,2)] assms(3,4)
  unfolding monthLengths_def daysInMonth_def daysBeforeMonth_def
  by (elim disjE) (auto simp: numeral_eq_Suc)

lemma daysBeforeMonth_bounds:
  assumes "1 \<le> m" "m \<le> 12" "1 \<le> d" "d \<le> daysInMonth y m"
  shows "0 \<le> daysBeforeMonth y m + d - 1" "daysBeforeMonth y m + d - 1 < daysInYear y"
  using month_cases [OF assms(1,2)] assms(3,4)
  unfolding monthLengths_def daysInMonth_def daysBeforeMonth_def daysInYear_def
  by (elim disjE; simp add: numeral_eq_Suc split: if_splits)+

lemma daysInMonth_bounds:
  assumes "1 \<le> m" "m \<le> 12" shows "28 \<le> daysInMonth y m" "daysInMonth y m \<le> 31"
  using month_cases [OF assms] unfolding daysInMonth_def monthLengths_def
  by (elim disjE; simp add: numeral_eq_Suc)+

lemma splitYearDay_valid:
  assumes "0 \<le> n" "n < daysInYear y" "splitYearDay 1 (monthLengths y) n = (m, d)"
  shows "1 \<le> m \<and> m \<le> 12 \<and> 1 \<le> d \<and> d \<le> daysInMonth y m \<and> daysBeforeMonth y m + d - 1 = n"
  using assms unfolding monthLengths_def daysInMonth_def daysBeforeMonth_def daysInYear_def
  by (auto simp: numeral_eq_Suc split: if_splits)

lemma yearFromDay_civil:
  assumes "validCivil (y, m, d)"
  shows "yearFromDay (dayFromCivil (y, m, d)) = y"
proof (rule yearFromDay_unique)
  have "0 \<le> daysBeforeMonth y m + d - 1" "daysBeforeMonth y m + d - 1 < daysInYear y"
    using assms daysBeforeMonth_bounds [of m d y] by (auto simp: validCivil_def)
  then show "dayFromYear y \<le> dayFromCivil (y, m, d)"
    "dayFromCivil (y, m, d) < dayFromYear (y + 1)"
    by (simp_all add: dayFromCivil_def dayFromYear_Suc)
qed

theorem civilFromDay_dayFromCivil:
  assumes "validCivil c" shows "civilFromDay (dayFromCivil c) = c"
proof -
  obtain y m d where c: "c = (y, m, d)" by (cases c)
  have "dayFromCivil c - dayFromYear y = daysBeforeMonth y m + d - 1"
    by (simp add: c dayFromCivil_def)
  with assms show ?thesis
    using yearFromDay_civil [of y m d] splitYearDay_before [of m d y]
    by (simp add: c civilFromDay_def validCivil_def)
qed

theorem dayFromCivil_civilFromDay: "dayFromCivil (civilFromDay n) = n \<and> validCivil (civilFromDay n)"
proof -
  let ?y = "yearFromDay n"
  obtain m d where md: "splitYearDay 1 (monthLengths ?y) (n - dayFromYear ?y) = (m, d)"
    by (metis surj_pair)
  have "0 \<le> n - dayFromYear ?y" "n - dayFromYear ?y < daysInYear ?y"
    using yearFromDay_bounds [of n] by (simp_all add: dayFromYear_Suc)
  from splitYearDay_valid [OF this md] show ?thesis
    by (simp add: civilFromDay_def md dayFromCivil_def validCivil_def)
qed

lemma civilFromDay_valid [simp]: "validCivil (civilFromDay n)"
  using dayFromCivil_civilFromDay by blast

lemma dayFromCivil_inj:
  "validCivil c \<Longrightarrow> validCivil c' \<Longrightarrow> dayFromCivil c = dayFromCivil c' \<longleftrightarrow> c = c'"
  by (metis civilFromDay_dayFromCivil)

section \<open>The order of the calendar\<close>

definition civilLess :: "civil \<Rightarrow> civil \<Rightarrow> bool" where
  "civilLess c c' =
     (case c of (y, m, d) \<Rightarrow> case c' of (y', m', d') \<Rightarrow>
        y < y' \<or> y = y' \<and> (m < m' \<or> m = m' \<and> d < d'))"

lemma sum_list_take_mono:
  assumes "i \<le> j" "\<forall>x \<in> set xs. (0::int) \<le> x"
  shows "sum_list (take i xs) \<le> sum_list (take j xs)"
proof -
  have "take j xs = take i xs @ take (j - i) (drop i xs)"
    using assms(1) by (metis le_add_diff_inverse take_add)
  moreover have "0 \<le> sum_list (take (j - i) (drop i xs))"
    using assms(2) by (intro sum_list_nonneg) (meson in_set_dropD in_set_takeD)
  ultimately show ?thesis by simp
qed

lemma daysBeforeMonth_mono:
  assumes "1 \<le> m" "m < m'" "m' \<le> 12"
  shows "daysBeforeMonth y m + daysInMonth y m \<le> daysBeforeMonth y m'"
proof -
  let ?i = "nat (m - 1)" and ?j = "nat (m' - 1)"
  have "Suc ?i \<le> ?j" "?i < length (monthLengths y)"
    using assms by (simp_all add: monthLengths_def)
  moreover have "\<forall>x \<in> set (monthLengths y). (0::int) \<le> x"
    by (simp add: monthLengths_def)
  ultimately show ?thesis
    using sum_list_take_mono [of "Suc ?i" ?j "monthLengths y"]
    by (simp add: daysBeforeMonth_def daysInMonth_def take_Suc_conv_app_nth)
qed

lemma dayFromCivil_mono:
  assumes "validCivil c" "validCivil c'" "civilLess c c'"
  shows "dayFromCivil c < dayFromCivil c'"
proof -
  obtain y m d where c: "c = (y, m, d)" by (cases c)
  obtain y' m' d' where c': "c' = (y', m', d')" by (cases c')
  have v: "1 \<le> m" "m \<le> 12" "1 \<le> d" "d \<le> daysInMonth y m"
    "1 \<le> m'" "m' \<le> 12" "1 \<le> d'" "d' \<le> daysInMonth y' m'"
    using assms(1,2) by (simp_all add: c c' validCivil_def)
  consider "y < y'" | "y = y'" "m < m'" | "y = y'" "m = m'" "d < d'"
    using assms(3) by (auto simp: civilLess_def c c')
  then show ?thesis
  proof cases
    case 1
    then have "dayFromYear (y + 1) \<le> dayFromYear y'"
      using dayFromYear_mono [of "y + 1" y'] by simp
    moreover have "dayFromCivil c < dayFromYear (y + 1)"
      using daysBeforeMonth_bounds(2) [OF v(1-4)] by (simp add: c dayFromCivil_def dayFromYear_Suc)
    moreover have "dayFromYear y' \<le> dayFromCivil c'"
      using daysBeforeMonth_bounds(1) [OF v(5-8)] by (simp add: c' dayFromCivil_def)
    ultimately show ?thesis by simp
  next
    case 2
    with v daysBeforeMonth_mono [of m m' y] show ?thesis by (simp add: c c' dayFromCivil_def)
  next
    case 3
    then show ?thesis by (simp add: c c' dayFromCivil_def)
  qed
qed

lemma civilLess_linear: "c = c' \<or> civilLess c c' \<or> civilLess c' c"
  by (cases c; cases c') (auto simp: civilLess_def)

lemma dayFromCivil_less_iff:
  assumes "validCivil c" "validCivil c'"
  shows "dayFromCivil c < dayFromCivil c' \<longleftrightarrow> civilLess c c'"
  using dayFromCivil_mono [OF assms] dayFromCivil_mono [OF assms(2,1)] civilLess_linear [of c c']
  by auto

section \<open>Time values\<close>

text \<open>
  A \<open>Date\<close> holds a time value in milliseconds, or NaN (\<open>None\<close>, an invalid date), which is
  the result of every time value beyond \<open>8.64e15\<close> in magnitude.
\<close>

definition msPerDay :: int where
  "msPerDay = 86400000"

definition timeClip :: "int \<Rightarrow> int option" where
  "timeClip t = (if \<bar>t\<bar> \<le> 8640000000000000 then Some t else None)"

text \<open>
  \<open>new Date(`YYYY-MM-DDT00:00:00.000Z`)\<close> from the values of the three digit groups: month
  and day have to be in the ranges of the format, and a day beyond the month rolls over.
\<close>

definition newUtcMidnight :: "int \<Rightarrow> int \<Rightarrow> int \<Rightarrow> int option" where
  "newUtcMidnight y m d =
     (if 1 \<le> m \<and> m \<le> 12 \<and> 1 \<le> d \<and> d \<le> 31 then timeClip (msPerDay * dayFromCivil (y, m, d))
      else None)"

definition utcCivil :: "int \<Rightarrow> civil" where
  "utcCivil t = civilFromDay (t div msPerDay)"

definition pad :: "nat \<Rightarrow> int \<Rightarrow> string" where
  "pad k n = padStart k (showInt n)"

definition isoYear :: "int \<Rightarrow> string" where
  "isoYear y =
     (if 0 \<le> y \<and> y \<le> 9999 then pad 4 y
      else (if y < 0 then CHR ''-'' else CHR ''+'') # pad 6 \<bar>y\<bar>)"

definition toISOString :: "int \<Rightarrow> string" where
  "toISOString t =
     (case utcCivil t of (y, m, d) \<Rightarrow>
      let ms = t mod msPerDay in
      isoYear y @ ''-'' @ pad 2 m @ ''-'' @ pad 2 d @ ''T'' @ pad 2 (ms div 3600000) @ '':'' @
      pad 2 (ms div 60000 mod 60) @ '':'' @ pad 2 (ms div 1000 mod 60) @ ''.'' @ pad 3 (ms mod 1000) @
      ''Z'')"

text \<open>The method on a \<open>Date\<close>, which throws a RangeError for an invalid date.\<close>

definition dateToISOString :: "int option \<Rightarrow> string result" where
  "dateToISOString date =
     (case date of None \<Rightarrow> Inl (GenericError ''Invalid time value'') | Some t \<Rightarrow> Inr (toISOString t))"

text \<open>The printed form of a calendar date of a year with four digits.\<close>

definition dateString :: "civil \<Rightarrow> string" where
  "dateString c = (case c of (y, m, d) \<Rightarrow> pad 4 y @ ''-'' @ pad 2 m @ ''-'' @ pad 2 d)"

definition fourDigitYear :: "civil \<Rightarrow> bool" where
  "fourDigitYear c \<longleftrightarrow> 0 \<le> fst c \<and> fst c \<le> 9999"

definition isCalendarDate :: "string \<Rightarrow> bool" where
  "isCalendarDate s \<longleftrightarrow> (\<exists>c. validCivil c \<and> fourDigitYear c \<and> s = dateString c)"

lemma allDigits_pad: "0 \<le> n \<Longrightarrow> allDigits (pad k n)"
  by (simp add: pad_def showInt_nonneg)

lemma length_pad:
  assumes "0 \<le> n" "n < 10 ^ k" "0 < k"
  shows "length (pad k n) = k"
proof -
  have "nat n < 10 ^ k" using assms by (simp add: nat_less_iff)
  with assms length_showNat_le_iff [of k "nat n"] show ?thesis
    by (simp add: pad_def showInt_nonneg length_padStart)
qed

lemma parse_pad [simp]: "0 \<le> n \<Longrightarrow> int (parseDigits (pad k n)) = n"
  by (simp add: pad_def showInt_nonneg)

lemma parse_pad_nat [simp]: "0 \<le> n \<Longrightarrow> parseDigits (pad k n) = nat n"
  by (simp add: pad_def showInt_nonneg)

lemma pad_parse:
  assumes "allDigits s" "length s = k"
  shows "pad k (int (parseDigits s)) = s"
proof (rule parseDigits_inj_length)
  have k: "0 < k" using assms by (auto simp: allDigits_def)
  have "parseDigits s < 10 ^ k" using assms parseDigits_less by (auto simp: allDigits_def)
  then have "int (parseDigits s) < 10 ^ k" by (metis of_nat_less_iff of_nat_numeral of_nat_power)
  with k show "length (pad k (int (parseDigits s))) = length s"
    using assms(2) by (simp add: length_pad)
  show "\<forall>c \<in> set (pad k (int (parseDigits s))). isDigit c"
    using allDigits_pad [of "int (parseDigits s)" k] by (simp add: allDigits_def)
  show "\<forall>c \<in> set s. isDigit c" using assms by (simp add: allDigits_def)
  show "parseDigits (pad k (int (parseDigits s))) = parseDigits s"
    by (simp add: pad_def showInt_nonneg)
qed

lemma validCivil_pads:
  assumes "validCivil (y, m, d)" "fourDigitYear (y, m, d)"
  shows "length (pad 4 y) = 4" "length (pad 2 m) = 2" "length (pad 2 d) = 2"
    "allDigits (pad 4 y)" "allDigits (pad 2 m)" "allDigits (pad 2 d)"
  using assms daysInMonth_bounds(2) [of m y]
  by (auto simp: validCivil_def fourDigitYear_def intro!: length_pad allDigits_pad)

lemma matchDate_dateString:
  assumes "validCivil (y, m, d)" "fourDigitYear (y, m, d)"
  shows "matchDate (dateString (y, m, d)) = Some (pad 4 y, pad 2 m, pad 2 d)"
  unfolding dateString_def prod.case using validCivil_pads [OF assms] by (intro matchDate_join)

lemma matchDate_eq:
  assumes "matchDate s = Some (y, m, d)"
  shows "s = y @ ''-'' @ m @ ''-'' @ d"
proof -
  have len: "length s = 10" and y: "y = take 4 s" and m: "m = take 2 (drop 5 s)" and d: "d = drop 8 s"
    and c: "s ! 4 = CHR ''-''" "s ! 7 = CHR ''-''"
    using assms by (auto simp: matchDate_def Let_def split: if_splits)
  have "s = take 4 s @ s ! 4 # drop 5 s"
    using id_take_nth_drop [of 4 s] len by simp
  also have "drop 5 s = take 2 (drop 5 s) @ s ! 7 # drop 8 s"
    using id_take_nth_drop [of 2 "drop 5 s"] len by simp
  finally show ?thesis using y m d c by simp
qed

lemma take_isoString:
  assumes "validCivil (utcCivil t)" "fourDigitYear (utcCivil t)"
  shows "take 10 (toISOString t) = dateString (utcCivil t)"
proof -
  obtain y m d where c: "utcCivil t = (y, m, d)" by (cases "utcCivil t")
  with assms have "0 \<le> y" "y \<le> 9999" by (simp_all add: fourDigitYear_def)
  then have "isoYear y = pad 4 y" by (simp add: isoYear_def)
  with validCivil_pads [of y m d] assms c show ?thesis
    by (simp add: toISOString_def Let_def dateString_def)
qed

lemma utcCivil_midnight [simp]: "utcCivil (msPerDay * n) = civilFromDay n"
  by (simp add: utcCivil_def msPerDay_def)

lemma validCivil_utcCivil [simp]: "validCivil (utcCivil t)"
  by (simp add: utcCivil_def)

text \<open>All dates of years with four digits are well inside the range of time values.\<close>

lemma fourDigitYear_days:
  assumes "validCivil c" "fourDigitYear c"
  shows "-719528 \<le> dayFromCivil c" "dayFromCivil c < 2932897"
proof -
  obtain y m d where c: "c = (y, m, d)" by (cases c)
  have b: "0 \<le> daysBeforeMonth y m + d - 1" "daysBeforeMonth y m + d - 1 < daysInYear y"
    using assms daysBeforeMonth_bounds [of m d y] by (auto simp: validCivil_def c)
  have y: "0 \<le> y" "y \<le> 9999" using assms(2) by (simp_all add: c fourDigitYear_def)
  have "dayFromYear 0 = -719528" "dayFromYear 10000 = 2932897" by (simp_all add: dayFromYear_def)
  moreover have "dayFromYear 0 \<le> dayFromYear y" "dayFromYear (y + 1) \<le> dayFromYear 10000"
    using y dayFromYear_mono [of 0 y] dayFromYear_mono [of "y + 1" 10000] by simp_all
  ultimately show "-719528 \<le> dayFromCivil c" "dayFromCivil c < 2932897"
    using b by (simp_all add: c dayFromCivil_def dayFromYear_Suc)
qed

lemma timeClip_fourDigitYear:
  assumes "validCivil c" "fourDigitYear c"
  shows "timeClip (msPerDay * dayFromCivil c) = Some (msPerDay * dayFromCivil c)"
  using fourDigitYear_days [OF assms] by (simp add: timeClip_def msPerDay_def abs_le_iff)

section \<open>The order of date strings\<close>

lemma less_append_iff:
  fixes a b c d :: "'a::linorder list"
  assumes "length a = length c"
  shows "a @ b < c @ d \<longleftrightarrow> a < c \<or> a = c \<and> b < d"
  using assms by (induction a c rule: list_induct2) auto

lemma digit_less: "isDigit c \<Longrightarrow> isDigit d \<Longrightarrow> c < d \<longleftrightarrow> digitValue c < digitValue d"
  by (auto simp: isDigit_def digitValue_def code_def less_char_def)

lemma digits_less:
  assumes "length s = length t" "\<forall>c \<in> set s. isDigit c" "\<forall>c \<in> set t. isDigit c"
  shows "s < t \<longleftrightarrow> parseDigits s < parseDigits t"
  using assms
proof (induction s t rule: list_induct2)
  case Nil
  then show ?case by simp
next
  case (Cons c s d t)
  let ?n = "10 ^ length t"
  have p: "parseDigits (c # s) = digitValue c * ?n + parseDigits s"
    "parseDigits (d # t) = digitValue d * ?n + parseDigits t"
    using parseDigits_append [of "[c]" s] parseDigits_append [of "[d]" t] Cons.hyps
    by (simp_all add: parseDigits_def)
  have lt: "parseDigits s < ?n" "parseDigits t < ?n"
    using Cons.prems Cons.hyps parseDigits_less [of s] parseDigits_less [of t] by simp_all
  have step: "x * ?n + u < y * ?n + v" if "x < y" "u < ?n" for x y u v :: nat
  proof -
    have "x * ?n + u < Suc x * ?n" using that by simp
    also have "\<dots> \<le> y * ?n" using that by (intro mult_le_mono1) simp
    finally show ?thesis by simp
  qed
  from Cons.prems have dig: "isDigit c" "isDigit d" by simp_all
  consider "digitValue c < digitValue d" | "digitValue d < digitValue c" | "c = d"
    using digitValue_inj [OF dig] by linarith
  then show ?case
  proof cases
    case 1
    with step lt(1) dig show ?thesis by (auto simp: p digit_less)
  next
    case 2
    then have "parseDigits (d # t) < parseDigits (c # s)" using step lt(2) by (simp add: p)
    moreover have "\<not> c # s < d # t" using 2 dig digit_less [of c d] by auto
    ultimately show ?thesis by simp
  next
    case 3
    have "parseDigits (c # s) < parseDigits (d # t) \<longleftrightarrow> parseDigits s < parseDigits t"
      using p unfolding 3 by simp
    with 3 Cons show ?thesis by simp
  qed
qed

lemma pad_less:
  assumes "0 \<le> a" "0 \<le> b" "length (pad k a) = length (pad k b)"
  shows "pad k a < pad k b \<longleftrightarrow> a < b"
proof -
  have "pad k a < pad k b \<longleftrightarrow> parseDigits (pad k a) < parseDigits (pad k b)"
    using assms allDigits_pad [of a k] allDigits_pad [of b k]
    by (intro digits_less) (simp_all add: allDigits_def)
  also have "\<dots> \<longleftrightarrow> a < b" using assms parse_pad [of a k] parse_pad [of b k] by linarith
  finally show ?thesis .
qed

lemma dateString_less_civil:
  assumes "validCivil c" "fourDigitYear c" "validCivil c'" "fourDigitYear c'"
  shows "dateString c < dateString c' \<longleftrightarrow> civilLess c c'"
proof -
  obtain y m d where c: "c = (y, m, d)" by (cases c)
  obtain y' m' d' where c': "c' = (y', m', d')" by (cases c')
  have pos: "0 \<le> y" "0 \<le> m" "0 \<le> d" "0 \<le> y'" "0 \<le> m'" "0 \<le> d'"
    using assms by (auto simp: c c' validCivil_def fourDigitYear_def)
  note l = validCivil_pads(1-3) [of y m d] validCivil_pads(1-3) [of y' m' d']
  have len: "length (pad 4 y) = length (pad 4 y')" "length (pad 2 m) = length (pad 2 m')"
    "length (pad 2 d) = length (pad 2 d')"
    using assms l by (simp_all add: c c')
  have inj: "pad 4 y = pad 4 y' \<longleftrightarrow> y = y'" "pad 2 m = pad 2 m' \<longleftrightarrow> m = m'"
    using pos by (metis parse_pad)+
  show ?thesis
    unfolding c c' dateString_def civilLess_def prod.case less_append_iff [OF len(1)]
    by (simp add: less_append_iff [OF len(2)] pad_less pos len inj)
qed

theorem dateString_less:
  assumes "validCivil c" "fourDigitYear c" "validCivil c'" "fourDigitYear c'"
  shows "dateString c < dateString c' \<longleftrightarrow> dayFromCivil c < dayFromCivil c'"
  using assms by (simp add: dateString_less_civil dayFromCivil_less_iff)

lemma dateString_inj:
  assumes "validCivil c" "fourDigitYear c" "validCivil c'" "fourDigitYear c'"
  shows "dateString c = dateString c' \<longleftrightarrow> c = c'"
  using dateString_less_civil [OF assms] dateString_less_civil [OF assms(3,4,1,2)]
    civilLess_linear [of c c'] by auto

end
