(* ===== verification/DraftRules.thy ===== *)
theory DraftRules
  imports JsDate
begin

text \<open>
  The input rules of invoice drafts (domain/invoiceDraftRules.ts, invoicePerformancePeriod.ts,
  invoiceTaxTreatment.ts, invoiceRefundIban.ts, invoicePaymentDate.ts,
  invoiceCancellation.ts): trimming and length limits, units, terms, dates, the performance
  period and its three database columns, tax treatment and the IBAN of a refund. An
  \<open>undefined\<close> argument is \<open>None\<close>. Each lemma says which inputs a rule accepts and what it
  returns.
\<close>

section \<open>Texts\<close>

definition maximumDraftIdentifierLength :: nat where
  "maximumDraftIdentifierLength = 200"

definition requireIdentifier :: "string \<Rightarrow> string \<Rightarrow> string result" where
  "requireIdentifier value fieldName =
     (let normalizedValue = trim value in
      if length normalizedValue = 0 then
        Inl (InvoiceDraftValidationError (fieldName @ '' is required.''))
      else if length normalizedValue > maximumDraftIdentifierLength then
        Inl (InvoiceDraftValidationError (fieldName @ '' is invalid.''))
      else Inr normalizedValue)"

definition normalizeOptionalInvoiceText :: "string option \<Rightarrow> string" where
  "normalizeOptionalInvoiceText value = (case value of None \<Rightarrow> [] | Some v \<Rightarrow> trim v)"

definition normalizeOptionalIdentifier :: "string option \<Rightarrow> string \<Rightarrow> string option result" where
  "normalizeOptionalIdentifier value fieldName =
     (let normalizedValue = (case value of None \<Rightarrow> [] | Some v \<Rightarrow> trim v) in
      if normalizedValue = [] then Inr None
      else if length normalizedValue > maximumDraftIdentifierLength then
        Inl (InvoiceDraftValidationError (fieldName @ '' is invalid.''))
      else Inr (Some normalizedValue))"

definition normalizeRequiredInvoiceText :: "string \<Rightarrow> string \<Rightarrow> string result" where
  "normalizeRequiredInvoiceText value fieldName =
     (let normalizedValue = trim value in
      if length normalizedValue = 0 then
        Inl (InvoiceDraftValidationError (fieldName @ '' is required.''))
      else Inr normalizedValue)"

definition normalizeOptionalInvoiceTextWithLimit ::
    "string option \<Rightarrow> string \<Rightarrow> nat \<Rightarrow> string result" where
  "normalizeOptionalInvoiceTextWithLimit value fieldName maximumLength =
     (let normalizedValue = normalizeOptionalInvoiceText value in
      if length normalizedValue > maximumLength then
        Inl (InvoiceDraftValidationError
          (fieldName @ '' must be '' @ showInt (int maximumLength) @ '' characters or less.''))
      else Inr normalizedValue)"

text \<open>
  The classes \<open>\p{L}\<close> and \<open>\p{N}\<close> restricted to the codes up to 255.
\<close>

definition isLetter :: "char \<Rightarrow> bool" where
  "isLetter c \<longleftrightarrow>
     isUpperAZ c \<or> isLowerAZ c \<or> code c \<in> {170, 181, 186} \<or>
     (192 \<le> code c \<and> code c \<noteq> 215 \<and> code c \<noteq> 247)"

definition isNumberChar :: "char \<Rightarrow> bool" where
  "isNumberChar c \<longleftrightarrow> isDigit c \<or> code c \<in> {178, 179, 185, 188, 189, 190}"

definition maximumInvoiceUnitLength :: nat where
  "maximumInvoiceUnitLength = 8"

definition isValidInvoiceUnit :: "string \<Rightarrow> bool" where
  "isValidInvoiceUnit value \<longleftrightarrow>
     0 < length value \<and> length value \<le> maximumInvoiceUnitLength \<and>
     (\<forall>c \<in> set value. isLetter c \<or> isNumberChar c \<or> c \<in> set ''.-'')"

definition parseInvoiceUnit :: "string \<Rightarrow> string result" where
  "parseInvoiceUnit value =
     (let normalizedValue = trim value in
      if \<not> isValidInvoiceUnit normalizedValue then
        Inl (InvoiceDraftValidationError ''Invoice unit is not supported.'')
      else Inr normalizedValue)"

text \<open>The class \<open>[\u0000-\u0008\u000b\u000c\u000e-\u001f\u007f]\<close>.\<close>

definition isForbiddenControlCharacter :: "char \<Rightarrow> bool" where
  "isForbiddenControlCharacter c \<longleftrightarrow>
     code c \<le> 8 \<or> code c = 11 \<or> code c = 12 \<or> (14 \<le> code c \<and> code c \<le> 31) \<or> code c = 127"

definition maximumInvoiceCancellationReasonLength :: nat where
  "maximumInvoiceCancellationReasonLength = 500"

definition normalizeInvoiceCancellationReason :: "string \<Rightarrow> string result" where
  "normalizeInvoiceCancellationReason value =
     (let normalizedValue = trim value in
      if length normalizedValue = 0 then
        Inl (InvoiceDraftValidationError ''Cancellation reason is required.'')
      else if length normalizedValue > maximumInvoiceCancellationReasonLength then
        Inl (InvoiceDraftValidationError
          (''Cancellation reason must be '' @ showInt (int maximumInvoiceCancellationReasonLength) @
           '' characters or less.''))
      else if \<exists>c \<in> set normalizedValue. isForbiddenControlCharacter c then
        Inl (InvoiceDraftValidationError ''Cancellation reason is invalid.'')
      else Inr normalizedValue)"

section \<open>Terms\<close>

definition maxLatePaymentInterestBasisPoints :: number where
  "maxLatePaymentInterestBasisPoints = 100000"

definition maxReminderPeriodDays :: number where
  "maxReminderPeriodDays = 365"

definition resolvePaymentTermDays :: "number option \<Rightarrow> number result" where
  "resolvePaymentTermDays value =
     (let paymentTermDays = (case value of None \<Rightarrow> 14 | Some v \<Rightarrow> v) in
      if \<not> isSafeInteger paymentTermDays \<or> paymentTermDays < 0 then
        Inl (InvoiceDraftValidationError ''Payment term days must be a non-negative safe integer.'')
      else Inr paymentTermDays)"

definition resolveLatePaymentInterestBasisPoints :: "number \<Rightarrow> number result" where
  "resolveLatePaymentInterestBasisPoints value =
     (if \<not> isSafeInteger value \<or> value < 0 \<or> value > maxLatePaymentInterestBasisPoints then
        Inl (InvoiceDraftValidationError
          ''Late payment interest must be a non-negative safe integer within the supported range.'')
      else Inr value)"

definition resolveReminderPeriodDays :: "number \<Rightarrow> number result" where
  "resolveReminderPeriodDays value =
     (if \<not> isSafeInteger value \<or> value < 0 \<or> value > maxReminderPeriodDays then
        Inl (InvoiceDraftValidationError
          ''Reminder period days must be a non-negative safe integer within the supported range.'')
      else Inr value)"

section \<open>Dates\<close>

text \<open>
  Two modules check a date the same way (\<open>parseDateOnly\<close> returns the \<open>Date\<close>,
  \<open>requireDateOnly\<close> the string): the pattern, a valid time value, and that printing the
  date gives the string back.
\<close>

definition readDateOnly :: "string \<Rightarrow> int option" where
  "readDateOnly value =
     (case matchDate value of
        None \<Rightarrow> None
      | Some (y, m, d) \<Rightarrow>
          newUtcMidnight (int (parseDigits y)) (int (parseDigits m)) (int (parseDigits d)))"

definition parseDateOnly :: "string \<Rightarrow> string \<Rightarrow> int result" where
  "parseDateOnly value fieldName =
     (if matchDate value = None then
        Inl (InvoiceDraftValidationError (fieldName @ '' must use YYYY-MM-DD format.''))
      else
        case readDateOnly value of
          None \<Rightarrow> Inl (InvoiceDraftValidationError (fieldName @ '' must be a valid date.''))
        | Some date \<Rightarrow>
            if take 10 (toISOString date) \<noteq> value then
              Inl (InvoiceDraftValidationError (fieldName @ '' must be a valid date.''))
            else Inr date)"

definition requireDateOnly :: "string \<Rightarrow> string \<Rightarrow> string result" where
  "requireDateOnly value fieldName =
     (if matchDate value = None then
        Inl (InvoiceDraftValidationError (fieldName @ '' must use YYYY-MM-DD format.''))
      else
        case readDateOnly value of
          None \<Rightarrow> Inl (InvoiceDraftValidationError (fieldName @ '' must be a valid date.''))
        | Some date \<Rightarrow>
            if take 10 (toISOString date) \<noteq> value then
              Inl (InvoiceDraftValidationError (fieldName @ '' must be a valid date.''))
            else Inr value)"

text \<open>
  The time value of the due date is a double; a payment term that is a safe integer can
  take it beyond the range of time values, where \<open>new Date\<close> is invalid, which the exact sum
  decides in the same way.
\<close>

definition millisecondsPerDay :: int where
  "millisecondsPerDay = 86400000"

record InvoiceDates =
  id_invoiceDate :: string
  id_dueDate :: string

definition resolveInvoiceDates :: "string \<Rightarrow> string option \<Rightarrow> number \<Rightarrow> InvoiceDates result" where
  "resolveInvoiceDates invoiceDateValue dueDateValue paymentTermDays =
     andThen (parseDateOnly invoiceDateValue ''Invoice date'') (\<lambda>invoiceDate.
     andThen (case dueDateValue of
                None \<Rightarrow> Inr (timeClip (invoiceDate + paymentTermDays * millisecondsPerDay))
              | Some v \<Rightarrow> andThen (parseDateOnly v ''Due date'') (\<lambda>date. Inr (Some date))) (\<lambda>due.
     case due of
       None \<Rightarrow> Inl (InvoiceDraftValidationError ''Due date is outside the supported range.'')
     | Some dueDate \<Rightarrow>
         if dueDate < invoiceDate then
           Inl (InvoiceDraftValidationError ''Due date cannot be before invoice date.'')
         else
           Inr \<lparr>id_invoiceDate = take 10 (toISOString invoiceDate),
                id_dueDate = take 10 (toISOString dueDate)\<rparr>))"

text \<open>
  \<open>Date.UTC\<close> reads the years 0 to 99 as 1900 to 1999. The argument of the payment date is
  an untyped value: \<open>None\<close> stands for anything but a string.
\<close>

definition dateUTC :: "int \<Rightarrow> int \<Rightarrow> int \<Rightarrow> int option" where
  "dateUTC year monthIndex day =
     (let y = (if 0 \<le> year \<and> year \<le> 99 then 1900 + year else year);
          y' = y + monthIndex div 12; m = monthIndex mod 12 + 1 in
      timeClip (msPerDay * (dayFromCivil (y', m, 1) + day - 1)))"

definition requireInvoicePaymentDate :: "string option \<Rightarrow> string result" where
  "requireInvoicePaymentDate value =
     (case value of
        None \<Rightarrow> Inl (InvoiceDraftValidationError ''Invoice payment date must use YYYY-MM-DD.'')
      | Some v \<Rightarrow>
          (case matchDate v of
             None \<Rightarrow> Inl (InvoiceDraftValidationError ''Invoice payment date must use YYYY-MM-DD.'')
           | Some (y, m, d) \<Rightarrow>
               let year = int (parseDigits y); month = int (parseDigits m); day = int (parseDigits d);
                   date = dateUTC year (month - 1) day in
               if map_option utcCivil date \<noteq> Some (year, month, day) then
                 Inl (InvoiceDraftValidationError ''Invoice payment date must be a valid calendar date.'')
               else Inr v))"

section \<open>Performance period\<close>

datatype InvoicePerformancePeriod =
    InvoiceDatePeriod
  | SingleDate string
  | DateRange string string

record InvoicePerformancePeriodColumns =
  pc_performanceDate :: "string option"
  pc_performancePeriodStart :: "string option"
  pc_performancePeriodEnd :: "string option"

definition resolveInvoicePerformancePeriod ::
    "InvoicePerformancePeriod option \<Rightarrow> InvoicePerformancePeriod result" where
  "resolveInvoicePerformancePeriod value =
     (case value of
        None \<Rightarrow> Inr InvoiceDatePeriod
      | Some InvoiceDatePeriod \<Rightarrow> Inr InvoiceDatePeriod
      | Some (SingleDate date) \<Rightarrow>
          andThen (requireDateOnly date ''Performance date'') (\<lambda>d. Inr (SingleDate d))
      | Some (DateRange startDate endDate) \<Rightarrow>
          andThen (requireDateOnly startDate ''Performance period start'') (\<lambda>s.
          andThen (requireDateOnly endDate ''Performance period end'') (\<lambda>e.
          if e < s then
            Inl (InvoiceDraftValidationError ''Performance period end cannot be before its start.'')
          else Inr (DateRange s e))))"

definition toInvoicePerformancePeriodColumns ::
    "InvoicePerformancePeriod \<Rightarrow> InvoicePerformancePeriodColumns" where
  "toInvoicePerformancePeriodColumns value =
     (case value of
        SingleDate date \<Rightarrow>
          \<lparr>pc_performanceDate = Some date, pc_performancePeriodStart = None,
           pc_performancePeriodEnd = None\<rparr>
      | DateRange startDate endDate \<Rightarrow>
          \<lparr>pc_performanceDate = None, pc_performancePeriodStart = Some startDate,
           pc_performancePeriodEnd = Some endDate\<rparr>
      | InvoiceDatePeriod \<Rightarrow>
          \<lparr>pc_performanceDate = None, pc_performancePeriodStart = None,
           pc_performancePeriodEnd = None\<rparr>)"

definition fromInvoicePerformancePeriodColumns ::
    "InvoicePerformancePeriodColumns \<Rightarrow> InvoicePerformancePeriod result" where
  "fromInvoicePerformancePeriodColumns columns =
     (case (pc_performanceDate columns, pc_performancePeriodStart columns,
            pc_performancePeriodEnd columns) of
        (Some date, None, None) \<Rightarrow> resolveInvoicePerformancePeriod (Some (SingleDate date))
      | (None, Some s, Some e) \<Rightarrow> resolveInvoicePerformancePeriod (Some (DateRange s e))
      | (None, None, None) \<Rightarrow> Inr InvoiceDatePeriod
      | _ \<Rightarrow> Inl (InvoiceDraftValidationError ''Stored invoice performance period is invalid.''))"

section \<open>Tax treatment\<close>

datatype InvoiceTaxTreatment = NormalVat | ReverseChargeConstruction

record InvoiceCustomerTaxProfile =
  tp_customerType :: string
  tp_businessId :: string

definition reverseChargeConstructionLabel :: string where
  "reverseChargeConstructionLabel =
     ''K'' @ [CHR 0xE4, CHR 0xE4] @ ''nnetty verovelvollisuus''"

definition reverseChargeConstructionLegalBasis :: string where
  "reverseChargeConstructionLegalBasis = ''AVL 8 c '' @ [CHR 0xA7]"

definition resolveInvoiceTaxTreatment :: "string option \<Rightarrow> InvoiceTaxTreatment result" where
  "resolveInvoiceTaxTreatment value =
     (case value of
        None \<Rightarrow> Inr NormalVat
      | Some v \<Rightarrow>
          if v = ''normalVat'' then Inr NormalVat
          else if v = ''reverseChargeConstruction'' then Inr ReverseChargeConstruction
          else Inl (InvoiceDraftValidationError ''Invoice tax treatment is not supported.''))"

definition requireReverseChargeCustomerEligibility :: "InvoiceCustomerTaxProfile \<Rightarrow> unit result" where
  "requireReverseChargeCustomerEligibility profile =
     (if tp_customerType profile = ''privatePerson'' then
        Inl (InvoiceDraftValidationError ''Reverse charge cannot be used for a private customer.'')
      else if trim (tp_businessId profile) = [] then
        Inl (InvoiceDraftValidationError
          ''Reverse charge requires the invoice customer business id.'')
      else Inr ())"

record TaxTreatmentSnapshot =
  ts_label :: string
  ts_legalBasis :: string

definition getInvoiceTaxTreatmentSnapshot :: "InvoiceTaxTreatment \<Rightarrow> TaxTreatmentSnapshot" where
  "getInvoiceTaxTreatmentSnapshot taxTreatment =
     (case taxTreatment of
        ReverseChargeConstruction \<Rightarrow>
          \<lparr>ts_label = reverseChargeConstructionLabel,
           ts_legalBasis = reverseChargeConstructionLegalBasis\<rparr>
      | NormalVat \<Rightarrow> \<lparr>ts_label = [], ts_legalBasis = []\<rparr>)"

section \<open>Refund IBAN\<close>

text \<open>
  \<open>toUpperCase\<close> of one code unit up to 255, as the code units of the result: the sharp s
  becomes two letters, the micro sign and the y with diaeresis leave the range.
\<close>

definition upperCodes :: "char \<Rightarrow> nat list" where
  "upperCodes c =
     (if isLowerAZ c then [code c - 32]
      else if code c = 181 then [924]
      else if code c = 223 then [83, 83]
      else if code c = 255 then [376]
      else if 224 \<le> code c \<and> code c \<noteq> 247 then [code c - 32]
      else [code c])"

definition isUpperCode :: "nat \<Rightarrow> bool" where
  "isUpperCode n \<longleftrightarrow> 65 \<le> n \<and> n \<le> 90"

definition isDigitCode :: "nat \<Rightarrow> bool" where
  "isDigitCode n \<longleftrightarrow> 48 \<le> n \<and> n \<le> 57"

definition ibanDigits :: "nat \<Rightarrow> string" where
  "ibanDigits n = (if isDigitCode n then [char_of n] else showNat (n - 55))"

definition hasValidIbanChecksum :: "nat list \<Rightarrow> bool" where
  "hasValidIbanChecksum iban =
     (let rearranged = drop 4 iban @ take 4 iban in
      foldl (\<lambda>remainder character.
        foldl (\<lambda>r digit. (r * 10 + digitValue digit) mod 97) remainder (ibanDigits character))
        0 rearranged = 1)"

text \<open>The pattern \<open>/^[A-Z]{2}[0-9]{2}[A-Z0-9]+$/\<close>.\<close>

definition matchesIbanPattern :: "nat list \<Rightarrow> bool" where
  "matchesIbanPattern iban \<longleftrightarrow>
     5 \<le> length iban \<and> (\<forall>c \<in> set (take 2 iban). isUpperCode c) \<and>
     (\<forall>c \<in> set (take 2 (drop 2 iban)). isDigitCode c) \<and>
     (\<forall>c \<in> set (drop 4 iban). isUpperCode c \<or> isDigitCode c)"

definition normalizeOptionalRefundIban :: "string \<Rightarrow> string result" where
  "normalizeOptionalRefundIban value =
     (let normalizedValue = concat (map upperCodes (filter (\<lambda>c. \<not> isWhiteSpace c) value)) in
      if normalizedValue = [] then Inr []
      else if length normalizedValue < 15 \<or> length normalizedValue > 34 \<or>
          \<not> matchesIbanPattern normalizedValue \<or> \<not> hasValidIbanChecksum normalizedValue then
        Inl (InvoiceDraftValidationError ''Refund IBAN is invalid.'')
      else Inr (map char_of normalizedValue))"

section \<open>What the text rules accept\<close>

lemma requireIdentifier_ok [result_simps]:
  "requireIdentifier value f = Inr v \<longleftrightarrow> v = trim value \<and> v \<noteq> [] \<and> length v \<le> 200"
  by (auto simp: requireIdentifier_def Let_def maximumDraftIdentifierLength_def)

lemma normalizeOptionalIdentifier_ok [result_simps]:
  "normalizeOptionalIdentifier value f = Inr v \<longleftrightarrow>
     (let t = normalizeOptionalInvoiceText value in
      if t = [] then v = None else length t \<le> 200 \<and> v = Some t)"
  by (auto simp: normalizeOptionalIdentifier_def normalizeOptionalInvoiceText_def Let_def
      maximumDraftIdentifierLength_def)

lemma normalizeRequiredInvoiceText_ok [result_simps]:
  "normalizeRequiredInvoiceText value f = Inr v \<longleftrightarrow> v = trim value \<and> v \<noteq> []"
  by (auto simp: normalizeRequiredInvoiceText_def Let_def)

lemma normalizeOptionalInvoiceTextWithLimit_ok [result_simps]:
  "normalizeOptionalInvoiceTextWithLimit value f n = Inr v \<longleftrightarrow>
     v = normalizeOptionalInvoiceText value \<and> length v \<le> n"
  by (auto simp: normalizeOptionalInvoiceTextWithLimit_def Let_def)

lemma parseInvoiceUnit_ok [result_simps]:
  "parseInvoiceUnit value = Inr v \<longleftrightarrow> v = trim value \<and> isValidInvoiceUnit v"
  by (auto simp: parseInvoiceUnit_def Let_def)

lemma resolvePaymentTermDays_ok [result_simps]:
  "resolvePaymentTermDays value = Inr v \<longleftrightarrow> v = (case value of None \<Rightarrow> 14 | Some v \<Rightarrow> v) \<and> amount v"
  by (auto simp: resolvePaymentTermDays_def Let_def amount_iff)

lemma resolveLatePaymentInterestBasisPoints_ok [result_simps]:
  "resolveLatePaymentInterestBasisPoints value = Inr v \<longleftrightarrow> v = value \<and> 0 \<le> v \<and> v \<le> 100000"
  by (auto simp: resolveLatePaymentInterestBasisPoints_def maxLatePaymentInterestBasisPoints_def
      isSafeInteger_def MAX_SAFE_INTEGER_def)

lemma resolveReminderPeriodDays_ok [result_simps]:
  "resolveReminderPeriodDays value = Inr v \<longleftrightarrow> v = value \<and> 0 \<le> v \<and> v \<le> 365"
  by (auto simp: resolveReminderPeriodDays_def maxReminderPeriodDays_def
      isSafeInteger_def MAX_SAFE_INTEGER_def)

lemma resolveInvoiceTaxTreatment_ok [result_simps]:
  "resolveInvoiceTaxTreatment value = Inr t \<longleftrightarrow>
     (case t of
        NormalVat \<Rightarrow> value = None \<or> value = Some ''normalVat''
      | ReverseChargeConstruction \<Rightarrow> value = Some ''reverseChargeConstruction'')"
  by (cases t) (auto simp: resolveInvoiceTaxTreatment_def split: option.splits)

section \<open>What the date rules accept\<close>

lemma rolled_day_in_year:
  assumes "1 \<le> m" "m \<le> 12" "1 \<le> d" "d \<le> 31"
  shows "dayFromYear y \<le> dayFromCivil (y, m, d)" "dayFromCivil (y, m, d) < dayFromYear (y + 1)"
proof -
  have first: "0 \<le> daysBeforeMonth y m"
    using daysBeforeMonth_bounds(1) [of m 1 y] daysInMonth_bounds(1) [of m y] assms by simp
  have "daysBeforeMonth y m \<le> daysBeforeMonth y 12"
    using daysBeforeMonth_mono [of m 12 y] daysInMonth_bounds(1) [of m y] assms
    by (cases "m = 12") simp_all
  moreover have "daysInMonth y 12 = 31"
    by (simp add: daysInMonth_def monthLengths_def numeral_eq_Suc)
  moreover have "daysBeforeMonth y 12 + 31 - 1 < daysInYear y"
    using daysBeforeMonth_bounds(2) [of 12 31 y] calculation by simp
  ultimately show "dayFromCivil (y, m, d) < dayFromYear (y + 1)"
    using assms by (simp add: dayFromCivil_def dayFromYear_Suc)
  show "dayFromYear y \<le> dayFromCivil (y, m, d)"
    using first assms by (simp add: dayFromCivil_def)
qed

lemma readDateOnly_dateString:
  assumes "validCivil c" "fourDigitYear c"
  shows "readDateOnly (dateString c) = Some (msPerDay * dayFromCivil c)"
    "take 10 (toISOString (msPerDay * dayFromCivil c)) = dateString c"
proof -
  obtain y m d where c: "c = (y, m, d)" by (cases c)
  from assms have "1 \<le> m" "m \<le> 12" "1 \<le> d" "d \<le> 31" "0 \<le> y"
    using daysInMonth_bounds(2) [of m y] by (auto simp: c validCivil_def fourDigitYear_def)
  then show "readDateOnly (dateString c) = Some (msPerDay * dayFromCivil c)"
    using timeClip_fourDigitYear [OF assms] assms
    by (auto simp: c readDateOnly_def matchDate_dateString newUtcMidnight_def le_nat_iff nat_le_iff)
  show "take 10 (toISOString (msPerDay * dayFromCivil c)) = dateString c"
    using take_isoString [of "msPerDay * dayFromCivil c"] assms
    by (simp add: civilFromDay_dayFromCivil)
qed

lemma readDateOnly_printed:
  assumes "readDateOnly v = Some t" "take 10 (toISOString t) = v"
  shows "\<exists>c. validCivil c \<and> fourDigitYear c \<and> v = dateString c \<and> t = msPerDay * dayFromCivil c"
proof -
  obtain y m d where match: "matchDate v = Some (y, m, d)"
    using assms(1) by (auto simp: readDateOnly_def split: option.splits)
  let ?y = "int (parseDigits y)" and ?m = "int (parseDigits m)" and ?d = "int (parseDigits d)"
  let ?n = "dayFromCivil (?y, ?m, ?d)"
  have range: "1 \<le> ?m" "?m \<le> 12" "1 \<le> ?d" "?d \<le> 31" and t: "t = msPerDay * ?n"
    using assms(1) match
    by (auto simp: readDateOnly_def newUtcMidnight_def timeClip_def split: if_splits)
  let ?c = "civilFromDay ?n"
  have "fst ?c = ?y"
    using yearFromDay_unique [OF rolled_day_in_year [OF range, of ?y]]
    by (simp add: civilFromDay_def Let_def)
  moreover have "?y < 10 ^ 4"
    using parseDigits_less [of y] matchDate_digits [OF match] by (simp add: allDigits_def)
  ultimately have "fourDigitYear ?c" by (simp add: fourDigitYear_def)
  with take_isoString [of t] assms(2) t have "v = dateString ?c" by simp
  moreover have "dayFromCivil ?c = ?n" using dayFromCivil_civilFromDay by blast
  ultimately show ?thesis using t \<open>fourDigitYear ?c\<close>
    by (intro exI [of _ ?c]) simp
qed

lemma parseDateOnly_ok [result_simps]:
  "parseDateOnly v f = Inr t \<longleftrightarrow>
     (\<exists>c. validCivil c \<and> fourDigitYear c \<and> v = dateString c \<and> t = msPerDay * dayFromCivil c)"
    (is "_ \<longleftrightarrow> ?R")
proof
  assume "parseDateOnly v f = Inr t"
  then have "readDateOnly v = Some t" "take 10 (toISOString t) = v"
    by (auto simp: parseDateOnly_def split: if_splits option.splits)
  then show ?R by (rule readDateOnly_printed)
next
  assume ?R
  then obtain c where c: "validCivil c" "fourDigitYear c" "v = dateString c" "t = msPerDay * dayFromCivil c"
    by blast
  then have "matchDate v \<noteq> None" by (cases c) (simp add: matchDate_dateString)
  with c show "parseDateOnly v f = Inr t"
    by (simp add: parseDateOnly_def readDateOnly_dateString)
qed

lemma requireDateOnly_parse: "requireDateOnly v f = andThen (parseDateOnly v f) (\<lambda>_. Inr v)"
  by (simp add: requireDateOnly_def parseDateOnly_def split: option.split)

lemma requireDateOnly_ok [result_simps]:
  "requireDateOnly v f = Inr r \<longleftrightarrow> isCalendarDate v \<and> r = v"
  by (auto simp: requireDateOnly_parse result_simps isCalendarDate_def)

lemma isCalendarDate_code [code]: "isCalendarDate s \<longleftrightarrow> requireDateOnly s [] = Inr s"
  by (simp add: requireDateOnly_ok)

lemma requireInvoicePaymentDate_ok [result_simps]:
  "requireInvoicePaymentDate value = Inr r \<longleftrightarrow>
     value = Some r \<and> (\<exists>c. validCivil c \<and> 100 \<le> fst c \<and> fst c \<le> 9999 \<and> r = dateString c)"
    (is "_ \<longleftrightarrow> ?R")
proof
  assume ok: "requireInvoicePaymentDate value = Inr r"
  then obtain y m d where v: "value = Some r" and match: "matchDate r = Some (y, m, d)"
    by (auto simp: requireInvoicePaymentDate_def Let_def split: option.splits if_splits)
  let ?y = "int (parseDigits y)" and ?m = "int (parseDigits m)" and ?d = "int (parseDigits d)"
  from ok v match have eq: "map_option utcCivil (dateUTC ?y (?m - 1) ?d) = Some (?y, ?m, ?d)"
    by (simp add: requireInvoicePaymentDate_def Let_def split: if_splits)
  then have valid: "validCivil (?y, ?m, ?d)"
    by (metis map_option_eq_Some validCivil_utcCivil)
  then have m: "1 \<le> ?m" "?m \<le> 12" by (simp_all add: validCivil_def)
  then have md: "(?m - 1) div 12 = 0" "(?m - 1) mod 12 = ?m - 1" by simp_all
  have days: "dayFromCivil (z, ?m, 1) + ?d - 1 = dayFromCivil (z, ?m, ?d)" for z
    by (simp add: dayFromCivil_def)
  have y: "100 \<le> ?y"
  proof (rule ccontr)
    assume "\<not> 100 \<le> ?y"
    with eq md days have "utcCivil (msPerDay * dayFromCivil (1900 + ?y, ?m, ?d)) = (?y, ?m, ?d)"
      by (auto simp: dateUTC_def timeClip_def Let_def split: if_splits)
    then have "yearFromDay (dayFromCivil (1900 + ?y, ?m, ?d)) = ?y"
      by (simp add: civilFromDay_def Let_def)
    moreover have "1 \<le> ?d" "?d \<le> 31"
      using valid daysInMonth_bounds(2) [OF m, of ?y] by (simp_all add: validCivil_def)
    ultimately show False
      using yearFromDay_unique [OF rolled_day_in_year [OF m, of ?d "1900 + ?y"]] by simp
  qed
  have "?y < 10 ^ 4"
    using parseDigits_less [of y] matchDate_digits [OF match] by (simp add: allDigits_def)
  moreover have "r = dateString (?y, ?m, ?d)"
    using matchDate_eq [OF match] matchDate_digits [OF match] by (simp add: dateString_def pad_parse)
  ultimately show ?R using v y valid by (intro conjI exI [of _ "(?y, ?m, ?d)"]) simp_all
next
  assume ?R
  then obtain y m d where c: "validCivil (y, m, d)" "100 \<le> y" "y \<le> 9999" "r = dateString (y, m, d)"
    and v: "value = Some r"
    by (auto simp: split_paired_Ex)
  then have four: "fourDigitYear (y, m, d)" by (simp add: fourDigitYear_def)
  from c have m: "1 \<le> m" "m \<le> 12" "0 \<le> d" by (simp_all add: validCivil_def)
  have "dateUTC y (m - 1) d = Some (msPerDay * dayFromCivil (y, m, d))"
    using timeClip_fourDigitYear [OF c(1) four] c m
    by (simp add: dateUTC_def Let_def dayFromCivil_def)
  then show "requireInvoicePaymentDate value = Inr r"
    using c m v four
    by (simp add: requireInvoicePaymentDate_def matchDate_dateString Let_def civilFromDay_dayFromCivil)
qed

lemma resolveInvoicePerformancePeriod_ok:
  "resolveInvoicePerformancePeriod value = Inr p \<longleftrightarrow>
     p = (case value of None \<Rightarrow> InvoiceDatePeriod | Some q \<Rightarrow> q) \<and>
     (case p of
        InvoiceDatePeriod \<Rightarrow> True
      | SingleDate d \<Rightarrow> isCalendarDate d
      | DateRange s e \<Rightarrow> isCalendarDate s \<and> isCalendarDate e \<and> s \<le> e)"
  by (auto simp: resolveInvoicePerformancePeriod_def result_simps not_less
      split: option.splits InvoicePerformancePeriod.splits)

lemma fromColumns_toColumns:
  assumes "resolveInvoicePerformancePeriod value = Inr p"
  shows "fromInvoicePerformancePeriodColumns (toInvoicePerformancePeriodColumns p) = Inr p"
proof -
  have "case p of
      InvoiceDatePeriod \<Rightarrow> True
    | SingleDate d \<Rightarrow> isCalendarDate d
    | DateRange s e \<Rightarrow> isCalendarDate s \<and> isCalendarDate e \<and> s \<le> e"
    using assms resolveInvoicePerformancePeriod_ok by blast
  then show ?thesis
    by (cases p) (simp_all add: fromInvoicePerformancePeriodColumns_def
        toInvoicePerformancePeriodColumns_def resolveInvoicePerformancePeriod_ok)
qed

lemma toColumns_fromColumns:
  assumes "fromInvoicePerformancePeriodColumns cols = Inr p"
  shows "toInvoicePerformancePeriodColumns p = cols"
  using assms
  by (cases cols)
    (auto simp: fromInvoicePerformancePeriodColumns_def toInvoicePerformancePeriodColumns_def
      resolveInvoicePerformancePeriod_ok split: option.splits)

text \<open>
  The invoice and the due date. Without a due date the term is added to the invoice date on
  the calendar, as long as the result has a year of four digits.
\<close>

lemma parseDateOnly_dateString:
  assumes "validCivil c" "fourDigitYear c"
  shows "parseDateOnly (dateString c) f = Inr (msPerDay * dayFromCivil c)"
  unfolding parseDateOnly_ok using assms by blast

lemma resolveInvoiceDates_strings:
  assumes "validCivil c" "fourDigitYear c" "validCivil c'" "fourDigitYear c'"
  shows "resolveInvoiceDates (dateString c) (Some (dateString c')) days =
    (if dateString c' < dateString c then
       Inl (InvoiceDraftValidationError ''Due date cannot be before invoice date.'')
     else Inr \<lparr>id_invoiceDate = dateString c, id_dueDate = dateString c'\<rparr>)"
proof -
  have "msPerDay * dayFromCivil c' < msPerDay * dayFromCivil c \<longleftrightarrow> dateString c' < dateString c"
    using dateString_less [OF assms(3,4,1,2)] by (simp add: msPerDay_def)
  then show ?thesis
    using assms by (simp add: resolveInvoiceDates_def parseDateOnly_dateString readDateOnly_dateString)
qed

lemma resolveInvoiceDates_given:
  "resolveInvoiceDates v (Some w) days = Inr r \<longleftrightarrow>
     isCalendarDate v \<and> isCalendarDate w \<and> v \<le> w \<and> r = \<lparr>id_invoiceDate = v, id_dueDate = w\<rparr>"
    (is "?L \<longleftrightarrow> ?R")
proof
  assume L: ?L
  then obtain t t' where "parseDateOnly v ''Invoice date'' = Inr t" "parseDateOnly w ''Due date'' = Inr t'"
    by (auto simp: resolveInvoiceDates_def andThen_eq_Inr)
  then obtain c c' where c: "validCivil c" "fourDigitYear c" "v = dateString c"
    and c': "validCivil c'" "fourDigitYear c'" "w = dateString c'"
    unfolding parseDateOnly_ok by blast
  have "\<not> w < v \<and> r = \<lparr>id_invoiceDate = v, id_dueDate = w\<rparr>"
    using L resolveInvoiceDates_strings [OF c(1,2) c'(1,2), of days]
    by (simp add: c(3) c'(3) split: if_splits)
  then show ?R using c c' by (auto simp: isCalendarDate_def simp del: split_paired_Ex)
next
  assume R: ?R
  then obtain c c' where c: "validCivil c" "fourDigitYear c" "v = dateString c"
    and c': "validCivil c'" "fourDigitYear c'" "w = dateString c'"
    unfolding isCalendarDate_def by blast
  from R have "\<not> w < v" using leD by blast
  with R show ?L using resolveInvoiceDates_strings [OF c(1,2) c'(1,2), of days]
    by (simp add: c(3) c'(3))
qed

lemma resolveInvoiceDates_term:
  assumes "validCivil c" "fourDigitYear c" "0 \<le> days" "dayFromCivil c + days < 2932897"
  shows "resolveInvoiceDates (dateString c) None days =
    Inr \<lparr>id_invoiceDate = dateString c, id_dueDate = dateString (civilFromDay (dayFromCivil c + days))\<rparr>"
proof -
  let ?n = "dayFromCivil c + days"
  have low: "-719528 \<le> dayFromCivil c" using fourDigitYear_days(1) [OF assms(1,2)] .
  have sum: "msPerDay * dayFromCivil c + days * millisecondsPerDay = msPerDay * ?n"
    by (simp add: msPerDay_def millisecondsPerDay_def)
  have clip: "timeClip (msPerDay * ?n) = Some (msPerDay * ?n)"
    using low assms(3,4) by (simp add: timeClip_def msPerDay_def abs_le_iff)
  have "dayFromYear 0 = -719528" "dayFromYear 10000 = 2932897" by (simp_all add: dayFromYear_def)
  moreover have "0 \<le> yearFromDay ?n" "yearFromDay ?n \<le> 9999"
    using yearFromDay_range [of 0 ?n 10000] calculation low assms(3,4) by simp_all
  ultimately have four: "fourDigitYear (civilFromDay ?n)"
    by (simp add: fourDigitYear_def civilFromDay_def Let_def)
  then have "take 10 (toISOString (msPerDay * ?n)) = dateString (civilFromDay ?n)"
    using take_isoString [of "msPerDay * ?n"] by simp
  then show ?thesis
    using assms(1-3) readDateOnly_dateString(2) [OF assms(1,2)]
    by (simp add: resolveInvoiceDates_def parseDateOnly_dateString sum clip not_less) (simp add: msPerDay_def)
qed

text \<open>
  A term that leads past the year 9999: the due date is printed with a sign and six year
  digits, and the first ten characters of that are no date.
\<close>

lemma isCalendarDate_hd: "isCalendarDate s \<Longrightarrow> s \<noteq> [] \<and> isDigit (hd s)"
proof -
  assume "isCalendarDate s"
  then obtain c where c: "validCivil c" "fourDigitYear c" "s = dateString c"
    unfolding isCalendarDate_def by blast
  obtain y m d where ymd: "c = (y, m, d)" by (cases c)
  from c ymd have "length (pad 4 y) = 4" "allDigits (pad 4 y)"
    using validCivil_pads [of y m d] by simp_all
  with c ymd show ?thesis
    by (cases "pad 4 y") (auto simp: dateString_def allDigits_def)
qed

lemma resolveInvoiceDates_far:
  assumes "resolveInvoiceDates (dateString c) None days = Inr r"
    and "validCivil c" "fourDigitYear c" "2932897 \<le> dayFromCivil c + days"
  shows "id_invoiceDate r = dateString c \<and> \<not> isCalendarDate (id_dueDate r)"
proof -
  let ?n = "dayFromCivil c + days"
  have sum: "msPerDay * dayFromCivil c + days * millisecondsPerDay = msPerDay * ?n"
    by (simp add: msPerDay_def millisecondsPerDay_def)
  have clip: "timeClip (msPerDay * ?n) = Some (msPerDay * ?n)"
    using assms(1) by (auto simp: resolveInvoiceDates_def parseDateOnly_dateString [OF assms(2,3)] sum
        timeClip_def split: if_splits)
  have r: "r = \<lparr>id_invoiceDate = dateString c, id_dueDate = take 10 (toISOString (msPerDay * ?n))\<rparr>"
    using assms(1) readDateOnly_dateString(2) [OF assms(2,3)]
    by (auto simp: resolveInvoiceDates_def parseDateOnly_dateString [OF assms(2,3)] sum clip
        split: if_splits)
  have "dayFromYear 10000 = 2932897" by (simp add: dayFromYear_def)
  then have year: "10000 \<le> yearFromDay ?n"
    using yearFromDay_range(1) [of 10000 ?n "yearFromDay ?n + 1"] yearFromDay_bounds(2) [of ?n] assms(4)
    by simp
  obtain y m d where ymd: "civilFromDay ?n = (y, m, d)" by (cases "civilFromDay ?n")
  then have "y = yearFromDay ?n" by (simp add: civilFromDay_def Let_def)
  with year have "isoYear y = CHR ''+'' # pad 6 y" by (simp add: isoYear_def)
  then obtain w where w: "take 10 (toISOString (msPerDay * ?n)) = CHR ''+'' # w"
    by (simp add: toISOString_def ymd Let_def)
  have "\<not> isCalendarDate (id_dueDate r)"
    using isCalendarDate_hd [of "CHR ''+'' # w"] by (auto simp: r w isDigit_def code_def)
  then show ?thesis by (simp add: r)
qed

section \<open>The IBAN checksum\<close>

lemma foldl_mod97:
  "foldl (\<lambda>r digit. (r * 10 + digitValue digit) mod 97) (n mod 97) s =
     (n * 10 ^ length s + parseDigits s) mod 97"
proof (induction s rule: rev_induct)
  case Nil
  then show ?case by simp
next
  case (snoc c s)
  have step: "(x mod 97 * 10 + d) mod 97 = (x * 10 + d) mod 97" for x d :: nat
    by (metis mod_add_left_eq mod_mult_left_eq)
  have "foldl (\<lambda>r digit. (r * 10 + digitValue digit) mod 97) (n mod 97) (s @ [c]) =
      ((n * 10 ^ length s + parseDigits s) * 10 + digitValue c) mod 97"
    by (simp only: foldl_append foldl.simps snoc.IH step)
  then show ?case by (simp only: parseDigits_append1 length_append_singleton power_Suc)
    (simp add: algebra_simps)
qed

lemma foldl_iban:
  "foldl (\<lambda>remainder character.
      foldl (\<lambda>r digit. (r * 10 + digitValue digit) mod 97) remainder (ibanDigits character))
     0 cs = parseDigits (concat (map ibanDigits cs)) mod 97"
proof (induction cs rule: rev_induct)
  case Nil
  then show ?case by simp
next
  case (snoc c cs)
  then show ?case by (simp add: foldl_mod97 parseDigits_append)
qed

text \<open>ISO 7064: the digits of the rearranged IBAN are 1 modulo 97.\<close>

lemma hasValidIbanChecksum_iff:
  "hasValidIbanChecksum iban \<longleftrightarrow>
     parseDigits (concat (map ibanDigits (drop 4 iban @ take 4 iban))) mod 97 = 1"
  unfolding hasValidIbanChecksum_def Let_def foldl_iban by simp

lemma pattern_codes:
  assumes "matchesIbanPattern iban" "n \<in> set iban"
  shows "isUpperCode n \<or> isDigitCode n"
proof -
  have "iban = take 2 iban @ take 2 (drop 2 iban) @ drop 4 iban"
    by (metis append_take_drop_id drop_drop numeral_Bit0_eq_double mult_2)
  then have "n \<in> set (take 2 iban) \<or> n \<in> set (take 2 (drop 2 iban)) \<or> n \<in> set (drop 4 iban)"
    using assms(2) by (metis Un_iff set_append)
  with assms(1) show ?thesis by (auto simp: matchesIbanPattern_def)
qed

lemma upperCodes_plain:
  assumes "isUpperCode n \<or> isDigitCode n"
  shows "upperCodes (char_of n) = [n]" "\<not> isWhiteSpace (char_of n)"
proof -
  have "code (char_of n) = n"
    using assms by (auto simp: code_def isUpperCode_def isDigitCode_def)
  with assms show "upperCodes (char_of n) = [n]" "\<not> isWhiteSpace (char_of n)"
    by (auto simp: upperCodes_def isLowerAZ_def isUpperCode_def isDigitCode_def isWhiteSpace_def)
qed

lemma normalizeOptionalRefundIban_idem:
  assumes "normalizeOptionalRefundIban v = Inr r"
  shows "normalizeOptionalRefundIban r = Inr r"
proof -
  let ?n = "concat (map upperCodes (filter (\<lambda>c. \<not> isWhiteSpace c) v))"
  show ?thesis
  proof (cases "?n = []")
    case True
    with assms show ?thesis by (simp add: normalizeOptionalRefundIban_def)
  next
    case False
    with assms have p: "matchesIbanPattern ?n" and ok: "hasValidIbanChecksum ?n"
        "15 \<le> length ?n" "length ?n \<le> 34" and r: "r = map char_of ?n"
      unfolding normalizeOptionalRefundIban_def Let_def by (auto split: if_splits)
    have same: "concat (map upperCodes (filter (\<lambda>c. \<not> isWhiteSpace c) (map char_of xs))) = xs"
      if "\<forall>x \<in> set xs. isUpperCode x \<or> isDigitCode x" for xs
      using that by (induction xs) (simp_all add: upperCodes_plain)
    have "concat (map upperCodes (filter (\<lambda>c. \<not> isWhiteSpace c) r)) = ?n"
      unfolding r using pattern_codes [OF p] by (intro same) blast
    then show ?thesis
      using p ok False r by (simp add: normalizeOptionalRefundIban_def Let_def)
  qed
qed

end
