(* ===== verification/DraftContent.thy ===== *)
theory DraftContent
  imports DraftRules InvoiceTotals ReverseCharge
begin

text \<open>
  The content of an invoice draft (domain/invoiceDraft.ts,
  application/prepareInvoiceDraftContent.ts): every field of the input is normalised, the
  lines are calculated in the chosen tax treatment, and the totals are those of the lines.
  \<open>withCalculatedInvoiceDraftTotals\<close> (domain/invoiceViewTotals.ts) calculates the totals of
  a stored draft again. The lemmas characterise the prepared content and show that the two
  calculations agree.
\<close>

section \<open>Types\<close>

datatype InvoiceKind = StandardKind | CreditKind

record InvoiceDraftLine =
  il_id :: string
  il_sourceInvoiceLineId :: "string option"
  il_position :: number
  il_code :: string
  il_description :: string
  il_quantityHundredths :: number
  il_unit :: string
  il_unitPriceCents :: number
  il_vatRateBasisPoints :: "number option"
  il_priceInputMode :: PriceInputMode
  il_discount :: InvoiceLineDiscount
  il_baseCents :: number
  il_discountCents :: number
  il_netCents :: number
  il_vatCents :: number
  il_grossCents :: number

record PreparedInvoiceDraftContent =
  pd_customerId :: string
  pd_billingRecipientCustomerId :: "string option"
  pd_invoiceDate :: string
  pd_dueDate :: string
  pd_paymentTermDays :: number
  pd_reminderPeriodDays :: number
  pd_latePaymentInterestBasisPoints :: number
  pd_priceInputMode :: PriceInputMode
  pd_taxTreatment :: InvoiceTaxTreatment
  pd_performancePeriod :: InvoicePerformancePeriod
  pd_subject :: string
  pd_orderNumber :: string
  pd_note :: string
  pd_deliveryAddressText :: string
  pd_lines :: "InvoiceDraftLine list"
  pd_totals :: InvoiceTotals

text \<open>\<open>InvoiceDraft\<close> has the fields of the content and these; its status is always \<open>draft\<close>.\<close>

record InvoiceDraft = PreparedInvoiceDraftContent +
  dr_id :: string
  dr_companyId :: string
  dr_invoiceKind :: InvoiceKind
  dr_creditedInvoiceId :: "string option"
  dr_refundIban :: string
  dr_status :: string
  dr_createdAt :: string
  dr_updatedAt :: string

record InvoiceDraftLineInput =
  li_code :: "string option"
  li_description :: string
  li_quantityHundredths :: number
  li_unit :: string
  li_unitPriceCents :: number
  li_vatRateBasisPoints :: "number option"
  li_discount :: InvoiceLineDiscount

record InvoiceDraftContentInput =
  di_customerId :: string
  di_billingRecipientCustomerId :: "string option"
  di_invoiceDate :: string
  di_dueDate :: "string option"
  di_paymentTermDays :: "number option"
  di_reminderPeriodDays :: "number option"
  di_latePaymentInterestBasisPoints :: "number option"
  di_priceInputMode :: PriceInputMode
  di_taxTreatment :: "string option"
  di_performancePeriod :: "InvoicePerformancePeriod option"
  di_subject :: "string option"
  di_orderNumber :: "string option"
  di_note :: "string option"
  di_deliveryAddressText :: "string option"
  di_lines :: "InvoiceDraftLineInput list"

section \<open>Preparing the content\<close>

text \<open>
  The calculated lines are those of one of two calculations; the fields the two line types
  share are collected here, the VAT rate being absent under reverse charge.
\<close>

record CalculatedDraftLine =
  nl_quantityHundredths :: number
  nl_unitPriceCents :: number
  nl_vatRateBasisPoints :: "number option"
  nl_priceInputMode :: PriceInputMode
  nl_baseCents :: number
  nl_discountCents :: number
  nl_netCents :: number
  nl_vatCents :: number
  nl_grossCents :: number

definition ofNormalLine :: "CalculatedInvoiceLine \<Rightarrow> CalculatedDraftLine" where
  "ofNormalLine l =
     \<lparr>nl_quantityHundredths = line_quantityHundredths l, nl_unitPriceCents = line_unitPriceCents l,
      nl_vatRateBasisPoints = Some (line_vatRateBasisPoints l),
      nl_priceInputMode = line_priceInputMode l, nl_baseCents = line_baseCents l,
      nl_discountCents = line_discountCents l, nl_netCents = line_netCents l,
      nl_vatCents = line_vatCents l, nl_grossCents = line_grossCents l\<rparr>"

definition ofReverseChargeLine :: "CalculatedReverseChargeInvoiceLine \<Rightarrow> CalculatedDraftLine" where
  "ofReverseChargeLine l =
     \<lparr>nl_quantityHundredths = rcl_quantityHundredths l, nl_unitPriceCents = rcl_unitPriceCents l,
      nl_vatRateBasisPoints = rcl_vatRateBasisPoints l,
      nl_priceInputMode = rcl_priceInputMode l, nl_baseCents = rcl_baseCents l,
      nl_discountCents = rcl_discountCents l, nl_netCents = rcl_netCents l,
      nl_vatCents = rcl_vatCents l, nl_grossCents = rcl_grossCents l\<rparr>"

definition reverseChargeLineInput ::
    "PriceInputMode \<Rightarrow> InvoiceDraftLineInput \<Rightarrow> ReverseChargeInvoiceLineCalculationInput result" where
  "reverseChargeLineInput mode line =
     (case li_vatRateBasisPoints line of
        Some _ \<Rightarrow>
          Inl (InvoiceDraftValidationError ''Reverse charge invoice lines cannot contain a VAT rate.'')
      | None \<Rightarrow>
          Inr \<lparr>quantityHundredths = li_quantityHundredths line, unitPriceCents = li_unitPriceCents line,
               discount = li_discount line, rc_priceInputMode = mode\<rparr>)"

definition calculateNormalDraftLine ::
    "PriceInputMode \<Rightarrow> InvoiceDraftLineInput \<Rightarrow> CalculatedInvoiceLine result" where
  "calculateNormalDraftLine mode line =
     (case li_vatRateBasisPoints line of
        None \<Rightarrow>
          Inl (InvoiceDraftValidationError ''Normal VAT invoice lines require a positive VAT rate.'')
      | Some rate \<Rightarrow>
          if rate = 0 then
            Inl (InvoiceDraftValidationError ''Normal VAT invoice lines require a positive VAT rate.'')
          else
            calculateInvoiceLine
              \<lparr>quantityHundredths = li_quantityHundredths line, unitPriceCents = li_unitPriceCents line,
               discount = li_discount line, vatRateBasisPoints = rate, priceInputMode = mode\<rparr>)"

definition calculateDraftLines ::
    "InvoiceTaxTreatment \<Rightarrow> PriceInputMode \<Rightarrow> InvoiceDraftLineInput list \<Rightarrow>
     (CalculatedDraftLine list \<times> InvoiceTotals option) result" where
  "calculateDraftLines taxTreatment mode lines =
     (case taxTreatment of
        ReverseChargeConstruction \<Rightarrow>
          andThen (mapR (reverseChargeLineInput mode) lines) (\<lambda>inputs.
          andThen (calculateReverseChargeInvoice inputs) (\<lambda>inv.
          Inr (map ofReverseChargeLine (rci_lines inv), Some (rci_totals inv))))
      | NormalVat \<Rightarrow>
          andThen (mapR (calculateNormalDraftLine mode) lines) (\<lambda>calculated.
          Inr (map ofNormalLine calculated, None)))"

text \<open>\<open>lineId\<close> is the identifier \<open>randomUUID\<close> returns for the line of an index.\<close>

definition toContentLine ::
    "(nat \<Rightarrow> string) \<Rightarrow> nat \<Rightarrow> CalculatedDraftLine \<Rightarrow> InvoiceDraftLineInput \<Rightarrow> InvoiceDraftLine result" where
  "toContentLine lineId index c line =
     andThen (normalizeRequiredInvoiceText (li_description line) ''Invoice line description'')
       (\<lambda>description.
     andThen (parseInvoiceUnit (li_unit line)) (\<lambda>unit.
     Inr \<lparr>il_id = lineId index, il_sourceInvoiceLineId = None, il_position = int index + 1,
          il_code = normalizeOptionalInvoiceText (li_code line), il_description = description,
          il_quantityHundredths = nl_quantityHundredths c, il_unit = unit,
          il_unitPriceCents = nl_unitPriceCents c, il_vatRateBasisPoints = nl_vatRateBasisPoints c,
          il_priceInputMode = nl_priceInputMode c, il_discount = li_discount line,
          il_baseCents = nl_baseCents c, il_discountCents = nl_discountCents c,
          il_netCents = nl_netCents c, il_vatCents = nl_vatCents c,
          il_grossCents = nl_grossCents c\<rparr>))"

definition toContentLines ::
    "(nat \<Rightarrow> string) \<Rightarrow> CalculatedDraftLine list \<Rightarrow> InvoiceDraftLineInput list \<Rightarrow>
     InvoiceDraftLine list result" where
  "toContentLines lineId calculated lines =
     mapR (\<lambda>(c, index).
         if index < length lines then toContentLine lineId index c (lines ! index)
         else Inl (InvoiceDraftValidationError ''Invoice draft line mapping failed.''))
       (withIndex calculated)"

definition toNormalLine :: "number \<Rightarrow> InvoiceDraftLine \<Rightarrow> CalculatedInvoiceLine" where
  "toNormalLine rate l =
     \<lparr>line_quantityHundredths = il_quantityHundredths l, line_unitPriceCents = il_unitPriceCents l,
      line_vatRateBasisPoints = rate, line_priceInputMode = il_priceInputMode l,
      line_baseCents = il_baseCents l, line_discountCents = il_discountCents l,
      line_netCents = il_netCents l, line_vatCents = il_vatCents l,
      line_grossCents = il_grossCents l\<rparr>"

definition contentTotals :: "InvoiceTotals option \<Rightarrow> InvoiceDraftLine list \<Rightarrow> InvoiceTotals result" where
  "contentTotals totals lines =
     (case totals of
        Some t \<Rightarrow> Inr t
      | None \<Rightarrow>
          andThen (mapR (\<lambda>l. case il_vatRateBasisPoints l of
                      None \<Rightarrow> Inl (InvoiceDraftValidationError
                        ''Normal VAT invoice lines require a VAT rate.'')
                    | Some rate \<Rightarrow> Inr (toNormalLine rate l)) lines)
            calculateInvoiceTotals)"

definition prepareInvoiceDraftContent ::
    "(nat \<Rightarrow> string) \<Rightarrow> InvoiceDraftContentInput \<Rightarrow> PreparedInvoiceDraftContent result" where
  "prepareInvoiceDraftContent lineId input =
     andThen (requireIdentifier (di_customerId input) ''Customer id'') (\<lambda>customerId.
     andThen (normalizeOptionalIdentifier (di_billingRecipientCustomerId input)
               ''Billing recipient customer id'') (\<lambda>billingRecipientCustomerId.
     if di_lines input = [] then
       Inl (InvoiceDraftValidationError ''Invoice draft must contain at least one line.'')
     else
     andThen (resolvePaymentTermDays (di_paymentTermDays input)) (\<lambda>paymentTermDays.
     andThen (resolveReminderPeriodDays
               (case di_reminderPeriodDays input of None \<Rightarrow> 0 | Some d \<Rightarrow> d)) (\<lambda>reminderPeriodDays.
     andThen (resolveLatePaymentInterestBasisPoints
               (case di_latePaymentInterestBasisPoints input of None \<Rightarrow> 0 | Some b \<Rightarrow> b))
       (\<lambda>latePaymentInterestBasisPoints.
     andThen (resolveInvoiceDates (di_invoiceDate input) (di_dueDate input) paymentTermDays) (\<lambda>dates.
     andThen (resolveInvoiceTaxTreatment (di_taxTreatment input)) (\<lambda>taxTreatment.
     andThen (resolveInvoicePerformancePeriod (di_performancePeriod input)) (\<lambda>performancePeriod.
     andThen (calculateDraftLines taxTreatment (di_priceInputMode input) (di_lines input))
       (\<lambda>(calculatedLines, totals).
     andThen (toContentLines lineId calculatedLines (di_lines input)) (\<lambda>lines.
     andThen (normalizeOptionalInvoiceTextWithLimit (di_deliveryAddressText input)
               ''Delivery address text'' 500) (\<lambda>deliveryAddressText.
     andThen (contentTotals totals lines) (\<lambda>totals.
     Inr \<lparr>pd_customerId = customerId,
          pd_billingRecipientCustomerId = billingRecipientCustomerId,
          pd_invoiceDate = id_invoiceDate dates, pd_dueDate = id_dueDate dates,
          pd_paymentTermDays = paymentTermDays, pd_reminderPeriodDays = reminderPeriodDays,
          pd_latePaymentInterestBasisPoints = latePaymentInterestBasisPoints,
          pd_priceInputMode = di_priceInputMode input, pd_taxTreatment = taxTreatment,
          pd_performancePeriod = performancePeriod,
          pd_subject = normalizeOptionalInvoiceText (di_subject input),
          pd_orderNumber = normalizeOptionalInvoiceText (di_orderNumber input),
          pd_note = normalizeOptionalInvoiceText (di_note input),
          pd_deliveryAddressText = deliveryAddressText, pd_lines = lines,
          pd_totals = totals\<rparr>))))))))))))"

section \<open>Calculating the totals of a stored draft\<close>

definition toNormalCalculatedLines :: "InvoiceDraftLine list \<Rightarrow> CalculatedInvoiceLine list result" where
  "toNormalCalculatedLines lines =
     mapR (\<lambda>l. case il_vatRateBasisPoints l of
         None \<Rightarrow> Inl (GenericError ''Normal VAT line is missing its VAT rate.'')
       | Some rate \<Rightarrow> Inr (toNormalLine rate l)) lines"

definition draftLineBase :: "InvoiceDraftLine \<Rightarrow> ReverseChargeInvoiceLineCalculationInput" where
  "draftLineBase l =
     \<lparr>quantityHundredths = il_quantityHundredths l, unitPriceCents = il_unitPriceCents l,
      discount = il_discount l, rc_priceInputMode = il_priceInputMode l\<rparr>"

definition recalculatedTotals ::
    "InvoiceTaxTreatment \<Rightarrow> InvoiceDraftLine list \<Rightarrow> InvoiceTotals result" where
  "recalculatedTotals taxTreatment lines =
     (case taxTreatment of
        ReverseChargeConstruction \<Rightarrow>
          andThen (calculateReverseChargeInvoice (map draftLineBase lines)) (\<lambda>inv.
          Inr (rci_totals inv))
      | NormalVat \<Rightarrow> andThen (toNormalCalculatedLines lines) calculateInvoiceTotals)"

definition withCalculatedInvoiceDraftTotals :: "InvoiceDraft \<Rightarrow> InvoiceDraft result" where
  "withCalculatedInvoiceDraftTotals draft =
     andThen (recalculatedTotals (pd_taxTreatment draft) (pd_lines draft)) (\<lambda>totals.
     Inr (draft\<lparr>pd_totals := totals\<rparr>))"

section \<open>The lines of a prepared content\<close>

text \<open>What a draft line owes to its input and its calculation.\<close>

definition draftLineOf ::
    "(nat \<Rightarrow> string) \<Rightarrow> nat \<Rightarrow> CalculatedDraftLine \<Rightarrow> InvoiceDraftLineInput \<Rightarrow> InvoiceDraftLine" where
  "draftLineOf lineId index c line =
     \<lparr>il_id = lineId index, il_sourceInvoiceLineId = None, il_position = int index + 1,
      il_code = normalizeOptionalInvoiceText (li_code line),
      il_description = trim (li_description line),
      il_quantityHundredths = nl_quantityHundredths c, il_unit = trim (li_unit line),
      il_unitPriceCents = nl_unitPriceCents c, il_vatRateBasisPoints = nl_vatRateBasisPoints c,
      il_priceInputMode = nl_priceInputMode c, il_discount = li_discount line,
      il_baseCents = nl_baseCents c, il_discountCents = nl_discountCents c,
      il_netCents = nl_netCents c, il_vatCents = nl_vatCents c,
      il_grossCents = nl_grossCents c\<rparr>"

definition lineTexts :: "InvoiceDraftLineInput \<Rightarrow> bool" where
  "lineTexts line \<longleftrightarrow> trim (li_description line) \<noteq> [] \<and> isValidInvoiceUnit (trim (li_unit line))"

lemma toContentLine_ok:
  "toContentLine lineId index c line = Inr l \<longleftrightarrow>
     lineTexts line \<and> l = draftLineOf lineId index c line"
  by (auto simp: toContentLine_def draftLineOf_def lineTexts_def result_simps)

lemma toContentLines_ok:
  assumes "length calculated = length lines"
  shows "toContentLines lineId calculated lines = Inr ls \<longleftrightarrow>
    (\<forall>l \<in> set lines. lineTexts l) \<and>
    ls = map (\<lambda>i. draftLineOf lineId i (calculated ! i) (lines ! i)) [0 ..< length lines]"
proof -
  have idx: "withIndex calculated = map (\<lambda>i. (calculated ! i, i)) [0 ..< length lines]"
    unfolding withIndex_def using assms by (intro nth_equalityI) simp_all
  have "toContentLines lineId calculated lines =
      mapR (\<lambda>i. toContentLine lineId i (calculated ! i) (lines ! i)) [0 ..< length lines]"
    unfolding toContentLines_def idx mapR_map_src by (rule mapR_cong) auto
  moreover have "(\<forall>i \<in> set [0 ..< length lines]. lineTexts (lines ! i)) \<longleftrightarrow> (\<forall>l \<in> set lines. lineTexts l)"
    by (auto simp: all_set_conv_all_nth)
  ultimately show ?thesis
    by (simp add: mapR_functional [of _ _ "\<lambda>i. lineTexts (lines ! i)"] toContentLine_ok)
qed

section \<open>What preparing accepts and returns\<close>

lemma prepareInvoiceDraftContent_cases:
  assumes "prepareInvoiceDraftContent lineId input = Inr c"
  obtains calculated totals dates where
    "calculateDraftLines (pd_taxTreatment c) (di_priceInputMode input) (di_lines input) =
       Inr (calculated, totals)"
    "toContentLines lineId calculated (di_lines input) = Inr (pd_lines c)"
    "contentTotals totals (pd_lines c) = Inr (pd_totals c)"
    "resolveInvoiceDates (di_invoiceDate input) (di_dueDate input) (pd_paymentTermDays c) = Inr dates"
    "pd_invoiceDate c = id_invoiceDate dates" "pd_dueDate c = id_dueDate dates"
    "resolveInvoicePerformancePeriod (di_performancePeriod input) = Inr (pd_performancePeriod c)"
    "pd_priceInputMode c = di_priceInputMode input" "di_lines input \<noteq> []"
    "amount (pd_paymentTermDays c)" "0 \<le> pd_reminderPeriodDays c" "pd_reminderPeriodDays c \<le> 365"
    "0 \<le> pd_latePaymentInterestBasisPoints c" "pd_latePaymentInterestBasisPoints c \<le> 100000"
    "pd_customerId c = trim (di_customerId input)"
  using assms unfolding prepareInvoiceDraftContent_def
  by (auto simp: andThen_eq_Inr requireIdentifier_ok resolvePaymentTermDays_ok
      resolveReminderPeriodDays_ok resolveLatePaymentInterestBasisPoints_ok
      split: if_splits prod.splits)

lemma calculateDraftLines_length:
  "calculateDraftLines t mode lines = Inr (calculated, totals) \<Longrightarrow> length calculated = length lines"
  by (auto simp: calculateDraftLines_def calculateReverseChargeInvoice_def result_simps
      dest!: mapR_length split: InvoiceTaxTreatment.splits)

lemma toNormalLine_draftLineOf [simp]:
  "toNormalLine (line_vatRateBasisPoints c) (draftLineOf lineId i (ofNormalLine c) l) = c"
  by (simp add: toNormalLine_def draftLineOf_def ofNormalLine_def)

lemma rate_draftLineOf [simp]:
  "il_vatRateBasisPoints (draftLineOf lineId i c l) = nl_vatRateBasisPoints c"
  "nl_vatRateBasisPoints (ofNormalLine c') = Some (line_vatRateBasisPoints c')"
  by (simp_all add: draftLineOf_def ofNormalLine_def)

text \<open>
  The lines of a prepared content give back the calculated lines they were made of, so
  both totals are the same calculation.
\<close>

lemma normal_lines_roundtrip:
  assumes "length cs = length ins"
  shows "mapR (\<lambda>l. case il_vatRateBasisPoints l of None \<Rightarrow> Inl e | Some rate \<Rightarrow> Inr (toNormalLine rate l))
      (map (\<lambda>i. draftLineOf lineId i (map ofNormalLine cs ! i) (ins ! i)) [0 ..< length ins]) = Inr cs"
proof -
  have "mapR (\<lambda>l. case il_vatRateBasisPoints l of None \<Rightarrow> Inl e | Some rate \<Rightarrow> Inr (toNormalLine rate l))
      (map (\<lambda>i. draftLineOf lineId i (map ofNormalLine cs ! i) (ins ! i)) [0 ..< length ins]) =
    mapR (\<lambda>i. Inr (cs ! i)) [0 ..< length ins]"
    unfolding mapR_map_src using assms by (intro mapR_cong) auto
  also have "\<dots> = Inr cs" using assms map_nth [of cs] by simp
  finally show ?thesis .
qed

lemma reverse_lines_roundtrip:
  assumes inputs: "mapR (reverseChargeLineInput mode) ins = Inr inputs"
    and rinv: "calculateReverseChargeInvoice inputs = Inr rinv"
  shows "map draftLineBase
      (map (\<lambda>i. draftLineOf lineId i (map ofReverseChargeLine (rci_lines rinv) ! i) (ins ! i))
        [0 ..< length ins]) = inputs"
proof -
  have calc: "mapR calculateReverseChargeInvoiceLine inputs = Inr (rci_lines rinv)"
    using rinv by (auto simp: calculateReverseChargeInvoice_def result_simps)
  note len = mapR_length [OF inputs] mapR_length [OF calc]
  have "draftLineBase (draftLineOf lineId i (map ofReverseChargeLine (rci_lines rinv) ! i) (ins ! i)) =
      inputs ! i" if i: "i < length ins" for i
  proof -
    have "reverseChargeLineInput mode (ins ! i) = Inr (inputs ! i)"
      using inputs i by (simp add: mapR_eq_Inr list_all2_conv_all_nth)
    then have x: "inputs ! i = \<lparr>quantityHundredths = li_quantityHundredths (ins ! i),
        unitPriceCents = li_unitPriceCents (ins ! i), discount = li_discount (ins ! i),
        rc_priceInputMode = mode\<rparr>"
      by (simp add: reverseChargeLineInput_def split: option.splits)
    have "calculateReverseChargeInvoiceLine (inputs ! i) = Inr (rci_lines rinv ! i)"
      using calc i len by (simp add: mapR_eq_Inr list_all2_conv_all_nth)
    then show ?thesis
      using i len by (simp add: calculateReverseChargeInvoiceLine_eq_Inr x
          draftLineBase_def draftLineOf_def ofReverseChargeLine_def)
  qed
  then show ?thesis using len by (intro nth_equalityI) simp_all
qed

lemma prepared_recalculates:
  assumes "prepareInvoiceDraftContent lineId input = Inr c"
  shows "recalculatedTotals (pd_taxTreatment c) (pd_lines c) = Inr (pd_totals c)"
  using assms
proof (rule prepareInvoiceDraftContent_cases)
  fix calculated totals dates
  let ?ins = "di_lines input"
  assume calc: "calculateDraftLines (pd_taxTreatment c) (di_priceInputMode input) ?ins =
      Inr (calculated, totals)"
    and lines: "toContentLines lineId calculated ?ins = Inr (pd_lines c)"
    and tot: "contentTotals totals (pd_lines c) = Inr (pd_totals c)"
  have ls: "pd_lines c = map (\<lambda>i. draftLineOf lineId i (calculated ! i) (?ins ! i)) [0 ..< length ?ins]"
    using lines toContentLines_ok [OF calculateDraftLines_length [OF calc]] by blast
  show ?thesis
  proof (cases "pd_taxTreatment c")
    case NormalVat
    with calc obtain cs where cs: "mapR (calculateNormalDraftLine (di_priceInputMode input)) ?ins = Inr cs"
      "calculated = map ofNormalLine cs" "totals = None"
      by (auto simp: calculateDraftLines_def result_simps)
    note same = normal_lines_roundtrip [OF mapR_length [OF cs(1)]]
    show ?thesis
      using tot NormalVat
      by (simp add: recalculatedTotals_def toNormalCalculatedLines_def contentTotals_def ls cs(2,3) same)
  next
    case ReverseChargeConstruction
    with calc obtain inputs rinv where
      i: "mapR (reverseChargeLineInput (di_priceInputMode input)) ?ins = Inr inputs"
      "calculateReverseChargeInvoice inputs = Inr rinv"
      "calculated = map ofReverseChargeLine (rci_lines rinv)" "totals = Some (rci_totals rinv)"
      by (auto simp: calculateDraftLines_def result_simps)
    show ?thesis
      using tot ReverseChargeConstruction i(2,4)
      by (simp add: recalculatedTotals_def contentTotals_def ls i(3) reverse_lines_roundtrip [OF i(1,2)]
          del: map_map)
  qed
qed

end
