(* ===== verification/DraftStore.thy ===== *)
theory DraftStore
  imports DraftContent SqlTable
begin

text \<open>
  The tables of invoice drafts and their repository
  (infrastructure/sqliteInvoiceDraftRepository.ts with sqliteInvoiceDraftQueries.ts,
  sqliteInvoiceDraftStatements.ts and invoiceDraftPersistenceRows.ts). A transaction that
  throws leaves the database as it was, so a method is a function from a database to an
  error or the new database and a result. The constraints and triggers of the schema
  (migrations 006, 013, 015, 031, 032 and 033) are part of the statements: keys, checks, the
  rule that ties the VAT rate of a line to the tax treatment of its draft, and the foreign
  keys (lines are deleted with their draft; a draft an invoice refers to cannot be deleted).
\<close>

section \<open>Rows\<close>

record InvoiceDraftRow =
  dw_id :: string
  dw_company_id :: string
  dw_invoice_kind :: InvoiceKind
  dw_credited_invoice_id :: "string option"
  dw_customer_id :: string
  dw_billing_recipient_customer_id :: "string option"
  dw_status :: string
  dw_invoice_date :: string
  dw_due_date :: string
  dw_payment_term_days :: number
  dw_reminder_period_days :: number
  dw_late_payment_interest_basis_points :: number
  dw_price_input_mode :: PriceInputMode
  dw_subject :: string
  dw_order_number :: string
  dw_note :: string
  dw_delivery_address_text :: string
  dw_refund_iban :: string
  dw_tax_treatment :: string
  dw_performance_date :: "string option"
  dw_performance_period_start :: "string option"
  dw_performance_period_end :: "string option"
  dw_net_total_cents :: number
  dw_vat_total_cents :: number
  dw_gross_total_cents :: number
  dw_created_at :: string
  dw_updated_at :: string
  dw_approved_invoice_id :: "string option"
  dw_approved_at :: "string option"

record InvoiceDraftLineRow =
  lw_id :: string
  lw_invoice_draft_id :: string
  lw_source_invoice_line_id :: "string option"
  lw_position :: number
  lw_code :: string
  lw_description :: string
  lw_quantity_hundredths :: number
  lw_unit :: string
  lw_unit_price_cents :: number
  lw_vat_rate_basis_points :: "number option"
  lw_discount_type :: string
  lw_discount_value :: number
  lw_base_cents :: number
  lw_discount_cents :: number
  lw_net_cents :: number
  lw_vat_cents :: number
  lw_gross_cents :: number

text \<open>
  The columns of other tables that foreign keys of these two refer to: the identifiers of
  invoices and invoice lines, and the drafts invoices were made from.
\<close>

record DraftDatabase =
  dd_drafts :: "InvoiceDraftRow list"
  dd_lines :: "InvoiceDraftLineRow list"
  dd_invoiceIds :: "string list"
  dd_invoiceLineIds :: "string list"
  dd_sourceDraftIds :: "string list"

definition taxTreatmentValue :: "InvoiceTaxTreatment \<Rightarrow> string" where
  "taxTreatmentValue t =
     (case t of NormalVat \<Rightarrow> ''normalVat'' | ReverseChargeConstruction \<Rightarrow> ''reverseChargeConstruction'')"

definition toStoredDiscount :: "InvoiceLineDiscount \<Rightarrow> string \<times> number" where
  "toStoredDiscount d =
     (case d of
        Percentage basisPoints \<Rightarrow> (''percentage'', basisPoints)
      | Fixed amountCents \<Rightarrow> (''fixed'', amountCents)
      | NoDiscount \<Rightarrow> (''none'', 0))"

definition toInvoiceLineDiscount :: "string \<Rightarrow> number \<Rightarrow> InvoiceLineDiscount result" where
  "toInvoiceLineDiscount discountType discountValue =
     (if discountType = ''none'' then Inr NoDiscount
      else if discountType = ''percentage'' then Inr (Percentage discountValue)
      else if discountType = ''fixed'' then Inr (Fixed discountValue)
      else Inl (GenericError ''Stored invoice draft discount type is invalid.''))"

definition toInvoiceDraftRow :: "InvoiceDraft \<Rightarrow> InvoiceDraftRow" where
  "toInvoiceDraftRow draft =
     (let period = toInvoicePerformancePeriodColumns (pd_performancePeriod draft) in
      \<lparr>dw_id = dr_id draft, dw_company_id = dr_companyId draft,
       dw_invoice_kind = dr_invoiceKind draft, dw_credited_invoice_id = dr_creditedInvoiceId draft,
       dw_customer_id = pd_customerId draft,
       dw_billing_recipient_customer_id = pd_billingRecipientCustomerId draft,
       dw_status = dr_status draft, dw_invoice_date = pd_invoiceDate draft,
       dw_due_date = pd_dueDate draft, dw_payment_term_days = pd_paymentTermDays draft,
       dw_reminder_period_days = pd_reminderPeriodDays draft,
       dw_late_payment_interest_basis_points = pd_latePaymentInterestBasisPoints draft,
       dw_price_input_mode = pd_priceInputMode draft, dw_subject = pd_subject draft,
       dw_order_number = pd_orderNumber draft, dw_note = pd_note draft,
       dw_delivery_address_text = pd_deliveryAddressText draft,
       dw_refund_iban = dr_refundIban draft,
       dw_tax_treatment = taxTreatmentValue (pd_taxTreatment draft),
       dw_performance_date = pc_performanceDate period,
       dw_performance_period_start = pc_performancePeriodStart period,
       dw_performance_period_end = pc_performancePeriodEnd period,
       dw_net_total_cents = netTotalCents (pd_totals draft),
       dw_vat_total_cents = vatTotalCents (pd_totals draft),
       dw_gross_total_cents = grossTotalCents (pd_totals draft),
       dw_created_at = dr_createdAt draft, dw_updated_at = dr_updatedAt draft,
       dw_approved_invoice_id = None, dw_approved_at = None\<rparr>)"

definition toInvoiceDraftLineRow :: "string \<Rightarrow> InvoiceDraftLine \<Rightarrow> InvoiceDraftLineRow" where
  "toInvoiceDraftLineRow draftId line =
     (case toStoredDiscount (il_discount line) of (discountType, discountValue) \<Rightarrow>
      \<lparr>lw_id = il_id line, lw_invoice_draft_id = draftId,
       lw_source_invoice_line_id = il_sourceInvoiceLineId line, lw_position = il_position line,
       lw_code = il_code line, lw_description = il_description line,
       lw_quantity_hundredths = il_quantityHundredths line, lw_unit = il_unit line,
       lw_unit_price_cents = il_unitPriceCents line,
       lw_vat_rate_basis_points = il_vatRateBasisPoints line,
       lw_discount_type = discountType, lw_discount_value = discountValue,
       lw_base_cents = il_baseCents line, lw_discount_cents = il_discountCents line,
       lw_net_cents = il_netCents line, lw_vat_cents = il_vatCents line,
       lw_gross_cents = il_grossCents line\<rparr>)"

definition toInvoiceDraftLineRows :: "InvoiceDraft \<Rightarrow> InvoiceDraftLineRow list" where
  "toInvoiceDraftLineRows draft = map (toInvoiceDraftLineRow (dr_id draft)) (pd_lines draft)"

definition toInvoiceDraftLine ::
    "InvoiceDraftLineRow \<Rightarrow> PriceInputMode \<Rightarrow> InvoiceDraftLine result" where
  "toInvoiceDraftLine row mode =
     andThen (toInvoiceLineDiscount (lw_discount_type row) (lw_discount_value row)) (\<lambda>d.
     Inr \<lparr>il_id = lw_id row, il_sourceInvoiceLineId = lw_source_invoice_line_id row,
          il_position = lw_position row, il_code = lw_code row,
          il_description = lw_description row, il_quantityHundredths = lw_quantity_hundredths row,
          il_unit = lw_unit row, il_unitPriceCents = lw_unit_price_cents row,
          il_vatRateBasisPoints = lw_vat_rate_basis_points row, il_priceInputMode = mode,
          il_discount = d, il_baseCents = lw_base_cents row,
          il_discountCents = lw_discount_cents row, il_netCents = lw_net_cents row,
          il_vatCents = lw_vat_cents row, il_grossCents = lw_gross_cents row\<rparr>)"

definition toInvoiceDraftTaxFields ::
    "InvoiceDraftRow \<Rightarrow> (InvoiceTaxTreatment \<times> InvoicePerformancePeriod) result" where
  "toInvoiceDraftTaxFields row =
     andThen (resolveInvoiceTaxTreatment (Some (dw_tax_treatment row))) (\<lambda>taxTreatment.
     andThen (fromInvoicePerformancePeriodColumns
       \<lparr>pc_performanceDate = dw_performance_date row,
        pc_performancePeriodStart = dw_performance_period_start row,
        pc_performancePeriodEnd = dw_performance_period_end row\<rparr>) (\<lambda>performancePeriod.
     Inr (taxTreatment, performancePeriod)))"

record InvoiceVatBreakdownRow =
  bw_vat_rate_basis_points :: "number option"
  bw_net_cents :: number
  bw_vat_cents :: number
  bw_gross_cents :: number

definition toInvoiceVatBreakdown :: "InvoiceVatBreakdownRow \<Rightarrow> InvoiceVatBreakdown result" where
  "toInvoiceVatBreakdown row =
     (case bw_vat_rate_basis_points row of
        None \<Rightarrow> Inl (GenericError ''Stored normal VAT breakdown cannot contain a missing VAT rate.'')
      | Some rate \<Rightarrow>
          Inr \<lparr>bd_vatRateBasisPoints = rate, bd_netCents = bw_net_cents row,
               bd_vatCents = bw_vat_cents row, bd_grossCents = bw_gross_cents row\<rparr>)"

record InvoiceDraftSummary =
  sm_id :: string
  sm_invoiceKind :: InvoiceKind
  sm_creditedInvoiceId :: "string option"
  sm_customerId :: string
  sm_status :: string
  sm_invoiceDate :: string
  sm_dueDate :: string
  sm_paymentTermDays :: number
  sm_latePaymentInterestBasisPoints :: number
  sm_priceInputMode :: PriceInputMode
  sm_subject :: string
  sm_netTotalCents :: number
  sm_vatTotalCents :: number
  sm_grossTotalCents :: number
  sm_updatedAt :: string

definition toInvoiceDraftSummary :: "InvoiceDraftRow \<Rightarrow> InvoiceDraftSummary" where
  "toInvoiceDraftSummary row =
     \<lparr>sm_id = dw_id row, sm_invoiceKind = dw_invoice_kind row,
      sm_creditedInvoiceId = dw_credited_invoice_id row, sm_customerId = dw_customer_id row,
      sm_status = dw_status row, sm_invoiceDate = dw_invoice_date row, sm_dueDate = dw_due_date row,
      sm_paymentTermDays = dw_payment_term_days row,
      sm_latePaymentInterestBasisPoints = dw_late_payment_interest_basis_points row,
      sm_priceInputMode = dw_price_input_mode row, sm_subject = dw_subject row,
      sm_netTotalCents = dw_net_total_cents row, sm_vatTotalCents = dw_vat_total_cents row,
      sm_grossTotalCents = dw_gross_total_cents row, sm_updatedAt = dw_updated_at row\<rparr>"

section \<open>Constraints of the schema\<close>

text \<open>
  SQLite's \<open>trim\<close> removes spaces only, its \<open>length\<close> counts up to the first NUL, and
  \<open>date(x) IS x\<close> holds of the dates of the years 0 to 9999 in their printed form.
\<close>

definition sqlTrim :: "string \<Rightarrow> string" where
  "sqlTrim s = rev (dropWhile (\<lambda>c. code c = 32) (rev (dropWhile (\<lambda>c. code c = 32) s)))"

definition sqlLength :: "string \<Rightarrow> nat" where
  "sqlLength s = length (takeWhile (\<lambda>c. code c \<noteq> 0) s)"

definition performanceColumnsAccepted ::
    "string option \<Rightarrow> string option \<Rightarrow> string option \<Rightarrow> bool" where
  "performanceColumnsAccepted date startDate endDate \<longleftrightarrow>
     (case (date, startDate, endDate) of
        (None, None, None) \<Rightarrow> True
      | (Some d, None, None) \<Rightarrow> isCalendarDate d
      | (None, Some s, Some e) \<Rightarrow> isCalendarDate s \<and> isCalendarDate e \<and> s \<le> e
      | _ \<Rightarrow> False)"

definition draftRowAccepted :: "InvoiceDraftRow \<Rightarrow> bool" where
  "draftRowAccepted row \<longleftrightarrow>
     dw_status row = ''draft'' \<and> 0 \<le> dw_payment_term_days row \<and>
     0 \<le> dw_reminder_period_days row \<and> dw_reminder_period_days row \<le> 365 \<and>
     0 \<le> dw_late_payment_interest_basis_points row \<and>
     dw_late_payment_interest_basis_points row \<le> 100000 \<and>
     0 \<le> dw_net_total_cents row \<and> 0 \<le> dw_vat_total_cents row \<and> 0 \<le> dw_gross_total_cents row \<and>
     sqlLength (dw_refund_iban row) \<le> 34 \<and>
     (dw_tax_treatment row = ''normalVat'' \<or>
      dw_tax_treatment row = ''reverseChargeConstruction'' \<and> dw_price_input_mode row = Net \<and>
      dw_vat_total_cents row = 0 \<and> dw_net_total_cents row = dw_gross_total_cents row) \<and>
     performanceColumnsAccepted (dw_performance_date row) (dw_performance_period_start row)
       (dw_performance_period_end row)"

definition isActiveCredit :: "InvoiceDraftRow \<Rightarrow> bool" where
  "isActiveCredit row \<longleftrightarrow>
     dw_invoice_kind row = CreditKind \<and> dw_credited_invoice_id row \<noteq> None \<and>
     dw_approved_invoice_id row = None"

definition draftKeysAccepted :: "DraftDatabase \<Rightarrow> InvoiceDraftRow \<Rightarrow> bool" where
  "draftKeysAccepted db row \<longleftrightarrow>
     rowWith dw_id (dw_id row) (dd_drafts db) = None \<and>
     (case dw_credited_invoice_id row of None \<Rightarrow> True | Some i \<Rightarrow> i \<in> set (dd_invoiceIds db)) \<and>
     (isActiveCredit row \<longrightarrow>
      \<not> (\<exists>r \<in> set (dd_drafts db). isActiveCredit r \<and> dw_company_id r = dw_company_id row \<and>
          dw_credited_invoice_id r = dw_credited_invoice_id row))"

definition lineRowAccepted :: "InvoiceDraftLineRow \<Rightarrow> bool" where
  "lineRowAccepted row \<longleftrightarrow>
     1 \<le> lw_position row \<and> 0 < sqlLength (sqlTrim (lw_description row)) \<and>
     0 \<le> lw_quantity_hundredths row \<and>
     0 < sqlLength (sqlTrim (lw_unit row)) \<and> sqlLength (sqlTrim (lw_unit row)) \<le> 8 \<and>
     0 \<le> lw_unit_price_cents row \<and>
     (case lw_vat_rate_basis_points row of None \<Rightarrow> True | Some r \<Rightarrow> 0 \<le> r) \<and>
     lw_discount_type row \<in> {''none'', ''percentage'', ''fixed''} \<and> 0 \<le> lw_discount_value row \<and>
     0 \<le> lw_base_cents row \<and> 0 \<le> lw_discount_cents row \<and> 0 \<le> lw_net_cents row \<and>
     0 \<le> lw_vat_cents row \<and> 0 \<le> lw_gross_cents row \<and>
     (lw_vat_rate_basis_points row \<noteq> None \<or>
      lw_vat_cents row = 0 \<and> lw_net_cents row = lw_gross_cents row)"

text \<open>The triggers on the VAT rate of a line and on the tax treatment of its draft.\<close>

definition lineFitsDraft :: "InvoiceDraftRow \<Rightarrow> InvoiceDraftLineRow \<Rightarrow> bool" where
  "lineFitsDraft d l \<longleftrightarrow>
     \<not> (dw_tax_treatment d = ''normalVat'' \<and> lw_vat_rate_basis_points l = None) \<and>
     \<not> (dw_tax_treatment d = ''reverseChargeConstruction'' \<and> lw_vat_rate_basis_points l \<noteq> None)"

definition lineKeysAccepted :: "DraftDatabase \<Rightarrow> InvoiceDraftLineRow \<Rightarrow> bool" where
  "lineKeysAccepted db row \<longleftrightarrow>
     (\<forall>r \<in> set (dd_lines db). lw_id r \<noteq> lw_id row \<and>
        (lw_invoice_draft_id r, lw_position r) \<noteq> (lw_invoice_draft_id row, lw_position row)) \<and>
     (case lw_source_invoice_line_id row of None \<Rightarrow> True | Some i \<Rightarrow> i \<in> set (dd_invoiceLineIds db)) \<and>
     (case rowWith dw_id (lw_invoice_draft_id row) (dd_drafts db) of
        None \<Rightarrow> False
      | Some d \<Rightarrow> lineFitsDraft d row)"

section \<open>Statements\<close>

definition insertDraft :: "DraftDatabase \<Rightarrow> InvoiceDraftRow \<Rightarrow> DraftDatabase result" where
  "insertDraft db row =
     (if draftRowAccepted row \<and> draftKeysAccepted db row
      then Inr (db\<lparr>dd_drafts := dd_drafts db @ [row]\<rparr>)
      else Inl (SqliteError ''constraint failed''))"

definition insertDraftLine :: "DraftDatabase \<Rightarrow> InvoiceDraftLineRow \<Rightarrow> DraftDatabase result" where
  "insertDraftLine db row =
     (if lineRowAccepted row \<and> lineKeysAccepted db row
      then Inr (db\<lparr>dd_lines := dd_lines db @ [row]\<rparr>)
      else Inl (SqliteError ''constraint failed''))"

definition insertDraftLines :: "DraftDatabase \<Rightarrow> InvoiceDraftLineRow list \<Rightarrow> DraftDatabase result" where
  "insertDraftLines db lines = foldR insertDraftLine db lines"

definition isEditable :: "string \<Rightarrow> string \<Rightarrow> InvoiceDraftRow \<Rightarrow> bool" where
  "isEditable companyId draftId row \<longleftrightarrow>
     dw_company_id row = companyId \<and> dw_id row = draftId \<and> dw_status row = ''draft'' \<and>
     dw_approved_invoice_id row = None"

text \<open>The columns the update sets.\<close>

definition mergeDraftRow :: "InvoiceDraftRow \<Rightarrow> InvoiceDraftRow \<Rightarrow> InvoiceDraftRow" where
  "mergeDraftRow new old =
     old\<lparr>dw_customer_id := dw_customer_id new,
         dw_billing_recipient_customer_id := dw_billing_recipient_customer_id new,
         dw_invoice_date := dw_invoice_date new, dw_due_date := dw_due_date new,
         dw_payment_term_days := dw_payment_term_days new,
         dw_reminder_period_days := dw_reminder_period_days new,
         dw_late_payment_interest_basis_points := dw_late_payment_interest_basis_points new,
         dw_price_input_mode := dw_price_input_mode new, dw_subject := dw_subject new,
         dw_order_number := dw_order_number new, dw_note := dw_note new,
         dw_delivery_address_text := dw_delivery_address_text new,
         dw_refund_iban := dw_refund_iban new, dw_tax_treatment := dw_tax_treatment new,
         dw_performance_date := dw_performance_date new,
         dw_performance_period_start := dw_performance_period_start new,
         dw_performance_period_end := dw_performance_period_end new,
         dw_net_total_cents := dw_net_total_cents new,
         dw_vat_total_cents := dw_vat_total_cents new,
         dw_gross_total_cents := dw_gross_total_cents new,
         dw_updated_at := dw_updated_at new\<rparr>"

text \<open>
  The trigger on the tax treatment: the lines of the draft have to fit the new one.
\<close>

definition linesFitTaxTreatment :: "DraftDatabase \<Rightarrow> InvoiceDraftRow \<Rightarrow> bool" where
  "linesFitTaxTreatment db row \<longleftrightarrow>
     (\<forall>l \<in> set (dd_lines db). lw_invoice_draft_id l = dw_id row \<longrightarrow> lineFitsDraft row l)"

definition updateEditableDraft :: "DraftDatabase \<Rightarrow> InvoiceDraftRow \<Rightarrow> (DraftDatabase \<times> bool) result" where
  "updateEditableDraft db row =
     (let editable = isEditable (dw_company_id row) (dw_id row);
          hits = filter editable (dd_drafts db) in
      if \<exists>old \<in> set hits. \<not> draftRowAccepted (mergeDraftRow row old) \<or>
          \<not> linesFitTaxTreatment db (mergeDraftRow row old)
      then Inl (SqliteError ''constraint failed'')
      else Inr (db\<lparr>dd_drafts := updateRows editable (mergeDraftRow row) (dd_drafts db)\<rparr>,
                length hits = 1))"

definition deleteDraftLines :: "DraftDatabase \<Rightarrow> string \<Rightarrow> DraftDatabase" where
  "deleteDraftLines db draftId =
     db\<lparr>dd_lines := filter (\<lambda>l. lw_invoice_draft_id l \<noteq> draftId) (dd_lines db)\<rparr>"

definition deleteEditableDraft :: "DraftDatabase \<Rightarrow> string \<Rightarrow> string \<Rightarrow> (DraftDatabase \<times> bool) result" where
  "deleteEditableDraft db companyId draftId =
     (let hits = filter (isEditable companyId draftId) (dd_drafts db) in
      if hits \<noteq> [] \<and> draftId \<in> set (dd_sourceDraftIds db)
      then Inl (SqliteError ''FOREIGN KEY constraint failed'')
      else if hits = [] then Inr (db, False)
      else Inr (db\<lparr>dd_drafts := filter (\<lambda>r. \<not> isEditable companyId draftId r) (dd_drafts db),
                   dd_lines := filter (\<lambda>l. lw_invoice_draft_id l \<noteq> draftId) (dd_lines db)\<rparr>,
                length hits = 1))"

section \<open>Queries\<close>

definition getEditableDraft :: "DraftDatabase \<Rightarrow> string \<Rightarrow> string \<Rightarrow> InvoiceDraftRow option" where
  "getEditableDraft db companyId draftId = find (isEditable companyId draftId) (dd_drafts db)"

text \<open>The join with the draft of the line, whose company is compared.\<close>

definition joinedDraftLines :: "DraftDatabase \<Rightarrow> string \<Rightarrow> string \<Rightarrow> InvoiceDraftLineRow list" where
  "joinedDraftLines db companyId draftId =
     filter (\<lambda>l. lw_invoice_draft_id l = draftId \<and>
         (\<exists>d \<in> set (dd_drafts db). dw_id d = lw_invoice_draft_id l \<and> dw_company_id d = companyId))
       (dd_lines db)"

definition getDraftLines :: "DraftDatabase \<Rightarrow> string \<Rightarrow> string \<Rightarrow> InvoiceDraftLineRow list" where
  "getDraftLines db companyId draftId = sort_key lw_position (joinedDraftLines db companyId draftId)"

text \<open>\<open>GROUP BY\<close> the VAT rate with the sums of three columns, ordered by the rate (NULL first).\<close>

definition getVatBreakdown :: "DraftDatabase \<Rightarrow> string \<Rightarrow> string \<Rightarrow> InvoiceVatBreakdownRow list" where
  "getVatBreakdown db companyId draftId =
     map (\<lambda>(rate, ls).
         \<lparr>bw_vat_rate_basis_points = rate, bw_net_cents = (\<Sum>l\<leftarrow>ls. lw_net_cents l),
          bw_vat_cents = (\<Sum>l\<leftarrow>ls. lw_vat_cents l), bw_gross_cents = (\<Sum>l\<leftarrow>ls. lw_gross_cents l)\<rparr>)
       (sort_key (\<lambda>(rate, ls). case rate of None \<Rightarrow> -1 | Some r \<Rightarrow> r)
         (groupBy lw_vat_rate_basis_points (joinedDraftLines db companyId draftId)))"

text \<open>\<open>ORDER BY updated_at DESC, id DESC\<close>.\<close>

definition listDraftRows :: "DraftDatabase \<Rightarrow> string \<Rightarrow> string option \<Rightarrow> InvoiceDraftRow list" where
  "listDraftRows db companyId customerId =
     rev (sort_key dw_updated_at (sort_key dw_id
       (filter (\<lambda>r. dw_company_id r = companyId \<and>
           (case customerId of None \<Rightarrow> True | Some c \<Rightarrow> dw_customer_id r = c) \<and>
           dw_status r = ''draft'' \<and> dw_approved_invoice_id r = None) (dd_drafts db))))"

section \<open>The repository\<close>

definition saveDraft :: "DraftDatabase \<Rightarrow> InvoiceDraft \<Rightarrow> (DraftDatabase \<times> InvoiceDraft) result" where
  "saveDraft db draft =
     andThen (insertDraft db (toInvoiceDraftRow draft)) (\<lambda>db1.
     andThen (insertDraftLines db1 (toInvoiceDraftLineRows draft)) (\<lambda>db2.
     Inr (db2, draft)))"

definition updateDraft :: "DraftDatabase \<Rightarrow> InvoiceDraft \<Rightarrow> (DraftDatabase \<times> InvoiceDraft option) result" where
  "updateDraft db draft =
     (let row = toInvoiceDraftRow draft in
      if getEditableDraft db (dr_companyId draft) (dr_id draft) = None then Inr (db, None)
      else
        andThen (updateEditableDraft (deleteDraftLines db (dw_id row)) row) (\<lambda>(db1, updated).
        if \<not> updated then
          Inl (GenericError ''Editable invoice draft disappeared during update.'')
        else
          andThen (insertDraftLines db1 (toInvoiceDraftLineRows draft)) (\<lambda>db2.
          Inr (db2, Some draft))))"

definition deleteDraft :: "DraftDatabase \<Rightarrow> string \<Rightarrow> string \<Rightarrow> (DraftDatabase \<times> bool) result" where
  "deleteDraft db companyId draftId = deleteEditableDraft db companyId draftId"

definition readDraft :: "DraftDatabase \<Rightarrow> InvoiceDraftRow \<Rightarrow> InvoiceDraft result" where
  "readDraft db row =
     (let lineRows = getDraftLines db (dw_company_id row) (dw_id row); mode = dw_price_input_mode row in
      andThen (toInvoiceDraftTaxFields row) (\<lambda>(taxTreatment, performancePeriod).
      andThen (mapR (\<lambda>l. toInvoiceDraftLine l mode) lineRows) (\<lambda>lines.
      andThen (mapR toInvoiceVatBreakdown
                (case taxTreatment of
                   NormalVat \<Rightarrow> getVatBreakdown db (dw_company_id row) (dw_id row)
                 | ReverseChargeConstruction \<Rightarrow> [])) (\<lambda>breakdown.
      Inr \<lparr>pd_customerId = dw_customer_id row,
           pd_billingRecipientCustomerId = dw_billing_recipient_customer_id row,
           pd_invoiceDate = dw_invoice_date row, pd_dueDate = dw_due_date row,
           pd_paymentTermDays = dw_payment_term_days row,
           pd_reminderPeriodDays = dw_reminder_period_days row,
           pd_latePaymentInterestBasisPoints = dw_late_payment_interest_basis_points row,
           pd_priceInputMode = mode, pd_taxTreatment = taxTreatment,
           pd_performancePeriod = performancePeriod, pd_subject = dw_subject row,
           pd_orderNumber = dw_order_number row, pd_note = dw_note row,
           pd_deliveryAddressText = dw_delivery_address_text row, pd_lines = lines,
           pd_totals = \<lparr>netTotalCents = dw_net_total_cents row,
             vatTotalCents = dw_vat_total_cents row, grossTotalCents = dw_gross_total_cents row,
             vatBreakdown = breakdown\<rparr>,
           dr_id = dw_id row, dr_companyId = dw_company_id row,
           dr_invoiceKind = dw_invoice_kind row,
           dr_creditedInvoiceId = dw_credited_invoice_id row, dr_refundIban = dw_refund_iban row,
           dr_status = dw_status row, dr_createdAt = dw_created_at row,
           dr_updatedAt = dw_updated_at row\<rparr>))))"

definition getDraftById :: "DraftDatabase \<Rightarrow> string \<Rightarrow> string \<Rightarrow> InvoiceDraft option result" where
  "getDraftById db companyId draftId =
     (case getEditableDraft db companyId draftId of
        None \<Rightarrow> Inr None
      | Some row \<Rightarrow> andThen (readDraft db row) (\<lambda>draft. Inr (Some draft)))"

definition listDraftSummaries :: "DraftDatabase \<Rightarrow> string \<Rightarrow> string option \<Rightarrow> InvoiceDraftSummary list" where
  "listDraftSummaries db companyId customerId =
     map toInvoiceDraftSummary (listDraftRows db companyId customerId)"

end
