(* ===== verification/DraftStoreCorrect.thy ===== *)
theory DraftStoreCorrect
  imports DraftStore
begin

text \<open>
  Correctness of the draft repository: every method keeps the tables consistent (keys,
  checks, no line without its draft), and a draft that was stored is read back as it was,
  up to the VAT breakdown, which the database computes from the lines.
\<close>

section \<open>The invariant of the tables\<close>

definition lineOwner :: "DraftDatabase \<Rightarrow> InvoiceDraftLineRow \<Rightarrow> bool" where
  "lineOwner db l \<longleftrightarrow>
     (\<exists>d \<in> set (dd_drafts db). dw_id d = lw_invoice_draft_id l \<and> lineFitsDraft d l)"

definition linePosition :: "InvoiceDraftLineRow \<Rightarrow> string \<times> number" where
  "linePosition l = (lw_invoice_draft_id l, lw_position l)"

definition draftInvariant :: "DraftDatabase \<Rightarrow> bool" where
  "draftInvariant db \<longleftrightarrow>
     distinct (map dw_id (dd_drafts db)) \<and> (\<forall>r \<in> set (dd_drafts db). draftRowAccepted r) \<and>
     distinct (map lw_id (dd_lines db)) \<and> distinct (map linePosition (dd_lines db)) \<and>
     (\<forall>l \<in> set (dd_lines db). lineRowAccepted l \<and> lineOwner db l)"

lemma insertDraft_ok:
  "insertDraft db row = Inr db' \<longleftrightarrow>
     draftRowAccepted row \<and> draftKeysAccepted db row \<and> db' = db\<lparr>dd_drafts := dd_drafts db @ [row]\<rparr>"
  by (auto simp: insertDraft_def)

lemma insertDraftLine_ok:
  "insertDraftLine db row = Inr db' \<longleftrightarrow>
     lineRowAccepted row \<and> lineKeysAccepted db row \<and> db' = db\<lparr>dd_lines := dd_lines db @ [row]\<rparr>"
  by (auto simp: insertDraftLine_def)

lemma insertDraft_invariant:
  assumes "draftInvariant db" "insertDraft db row = Inr db'"
  shows "draftInvariant db'"
  using assms
  by (auto simp: insertDraft_ok draftInvariant_def draftKeysAccepted_def rowWith_None lineOwner_def)

lemma insertDraftLine_invariant:
  assumes "draftInvariant db" "insertDraftLine db row = Inr db'"
  shows "draftInvariant db'"
proof -
  from assms(2) have ok: "lineRowAccepted row" and keys: "lineKeysAccepted db row"
    and db': "db' = db\<lparr>dd_lines := dd_lines db @ [row]\<rparr>"
    by (auto simp: insertDraftLine_ok)
  from keys obtain d where "rowWith dw_id (lw_invoice_draft_id row) (dd_drafts db) = Some d"
    "lineFitsDraft d row"
    by (auto simp: lineKeysAccepted_def split: option.splits)
  then have owner: "lineOwner db row" by (auto simp: lineOwner_def dest: rowWith_Some)
  have new: "lw_id row \<notin> lw_id ` set (dd_lines db)" "linePosition row \<notin> linePosition ` set (dd_lines db)"
    using keys by (auto simp: lineKeysAccepted_def linePosition_def)
  show ?thesis
    using assms(1) ok owner new by (auto simp: draftInvariant_def db' lineOwner_def)
qed

lemma insertDraftLines_ok:
  "insertDraftLines db rows = Inr db' \<Longrightarrow>
     db' = db\<lparr>dd_lines := dd_lines db @ rows\<rparr> \<and>
     (\<forall>row \<in> set rows. \<exists>d. rowWith dw_id (lw_invoice_draft_id row) (dd_drafts db) = Some d \<and>
        lineFitsDraft d row)"
proof (induction rows arbitrary: db)
  case Nil
  then show ?case by (simp add: insertDraftLines_def)
next
  case (Cons row rows)
  let ?db = "db\<lparr>dd_lines := dd_lines db @ [row]\<rparr>"
  from Cons.prems have keys: "lineKeysAccepted db row" and rest: "insertDraftLines ?db rows = Inr db'"
    by (auto simp: insertDraftLines_def andThen_eq_Inr insertDraftLine_ok)
  from keys have "\<exists>d. rowWith dw_id (lw_invoice_draft_id row) (dd_drafts db) = Some d \<and> lineFitsDraft d row"
    by (simp add: lineKeysAccepted_def split: option.splits)
  with Cons.IH [OF rest] show ?case by simp
qed

lemma insertDraftLines_invariant:
  assumes "draftInvariant db" "insertDraftLines db rows = Inr db'"
  shows "draftInvariant db'"
  using assms(2,1) unfolding insertDraftLines_def
  by (rule foldR_invariant) (rule insertDraftLine_invariant)

lemma saveDraft_cases:
  assumes "saveDraft db d = Inr (db', d')"
  obtains db1 where "d' = d" "insertDraft db (toInvoiceDraftRow d) = Inr db1"
    "insertDraftLines db1 (toInvoiceDraftLineRows d) = Inr db'"
  using assms by (auto simp: saveDraft_def andThen_eq_Inr)

lemma saveDraft_invariant:
  assumes "draftInvariant db" "saveDraft db d = Inr (db', d')"
  shows "draftInvariant db'"
  using assms(2)
proof (rule saveDraft_cases)
  fix db1
  assume "insertDraft db (toInvoiceDraftRow d) = Inr db1"
    and "insertDraftLines db1 (toInvoiceDraftLineRows d) = Inr db'"
  then show ?thesis using assms(1) insertDraft_invariant insertDraftLines_invariant by blast
qed

lemma deleteDraftLines_invariant:
  assumes "draftInvariant db"
  shows "draftInvariant (deleteDraftLines db i)"
proof -
  have owner: "lineOwner (deleteDraftLines db i) l = lineOwner db l" for l
    by (simp add: lineOwner_def deleteDraftLines_def)
  show ?thesis
    using assms unfolding draftInvariant_def owner
    by (simp add: deleteDraftLines_def distinct_map_filter)
qed

lemma merge_frame [simp]:
  "dw_id (mergeDraftRow new old) = dw_id old"
  "dw_company_id (mergeDraftRow new old) = dw_company_id old"
  "dw_approved_invoice_id (mergeDraftRow new old) = dw_approved_invoice_id old"
  "dw_status (mergeDraftRow new old) = dw_status old"
  "dw_tax_treatment (mergeDraftRow new old) = dw_tax_treatment new"
  by (simp_all add: mergeDraftRow_def)

lemma isEditable_merge [simp]: "isEditable c i (mergeDraftRow new old) = isEditable c i old"
  by (simp add: isEditable_def)

lemma updateEditableDraft_ok:
  "updateEditableDraft db row = Inr (db', b) \<longleftrightarrow>
     (let editable = isEditable (dw_company_id row) (dw_id row); hits = filter editable (dd_drafts db) in
      (\<forall>old \<in> set hits. draftRowAccepted (mergeDraftRow row old) \<and>
         linesFitTaxTreatment db (mergeDraftRow row old)) \<and>
      db' = db\<lparr>dd_drafts := updateRows editable (mergeDraftRow row) (dd_drafts db)\<rparr> \<and>
      b = (length hits = 1))"
  by (auto simp: updateEditableDraft_def Let_def)

lemma updateEditableDraft_invariant:
  assumes I: "draftInvariant db" and u: "updateEditableDraft db row = Inr (db', b)"
  shows "draftInvariant db'"
proof -
  let ?e = "isEditable (dw_company_id row) (dw_id row)"
  let ?u = "\<lambda>r. if ?e r then mergeDraftRow row r else r"
  have ok: "draftRowAccepted (mergeDraftRow row old)" "linesFitTaxTreatment db (mergeDraftRow row old)"
    if "old \<in> set (dd_drafts db)" "?e old" for old
    using u that by (auto simp: updateEditableDraft_ok Let_def)
  have db': "dd_drafts db' = map ?u (dd_drafts db)" "dd_lines db' = dd_lines db"
    using u by (auto simp: updateEditableDraft_ok Let_def updateRows_def)
  have ids: "map dw_id (dd_drafts db') = map dw_id (dd_drafts db)"
    by (simp add: db'(1) cong: map_cong)
  have owner: "lineOwner db' l" if "l \<in> set (dd_lines db)" "lineOwner db l" for l
  proof -
    from that(2) obtain d where d: "d \<in> set (dd_drafts db)" "dw_id d = lw_invoice_draft_id l"
      "lineFitsDraft d l" by (auto simp: lineOwner_def)
    have "lineFitsDraft (?u d) l"
      using d that(1) ok(2) [of d] by (auto simp: linesFitTaxTreatment_def)
    moreover have "?u d \<in> set (dd_drafts db')" using d(1) by (auto simp: db'(1))
    moreover have "dw_id (?u d) = lw_invoice_draft_id l" using d(2) by simp
    ultimately show ?thesis unfolding lineOwner_def by blast
  qed
  have "\<forall>r \<in> set (dd_drafts db'). draftRowAccepted r"
    using I ok(1) by (auto simp: db'(1) draftInvariant_def)
  then show ?thesis
    using I owner unfolding draftInvariant_def ids db'(2) by blast
qed

lemma updateDraft_cases:
  assumes "updateDraft db d = Inr (db', Some d')"
  obtains db1 where "d' = d"
    "getEditableDraft db (dr_companyId d) (dr_id d) \<noteq> None"
    "updateEditableDraft (deleteDraftLines db (dr_id d)) (toInvoiceDraftRow d) = Inr (db1, True)"
    "insertDraftLines db1 (toInvoiceDraftLineRows d) = Inr db'"
  using assms
  by (auto simp: updateDraft_def toInvoiceDraftRow_def Let_def result_simps split: if_splits prod.splits)

lemma updateDraft_None:
  assumes "updateDraft db d = Inr (db', None)"
  shows "db' = db \<and> getEditableDraft db (dr_companyId d) (dr_id d) = None"
  using assms by (auto simp: updateDraft_def Let_def result_simps split: if_splits prod.splits)

lemma updateDraft_invariant:
  assumes "draftInvariant db" "updateDraft db d = Inr (db', r)"
  shows "draftInvariant db'"
proof (cases r)
  case None
  with assms show ?thesis using updateDraft_None by blast
next
  case (Some d')
  with assms(2) have "updateDraft db d = Inr (db', Some d')" by simp
  then show ?thesis
  proof (rule updateDraft_cases)
    fix db1
    assume "updateEditableDraft (deleteDraftLines db (dr_id d)) (toInvoiceDraftRow d) = Inr (db1, True)"
      and "insertDraftLines db1 (toInvoiceDraftLineRows d) = Inr db'"
    then show ?thesis
      using deleteDraftLines_invariant [OF assms(1)] updateEditableDraft_invariant
        insertDraftLines_invariant by blast
  qed
qed

lemma deleteDraft_invariant:
  assumes "draftInvariant db" "deleteDraft db c i = Inr (db', b)"
  shows "draftInvariant db'"
proof -
  consider "db' = db" | "dd_drafts db' = filter (\<lambda>r. \<not> isEditable c i r) (dd_drafts db)"
    "dd_lines db' = filter (\<lambda>l. lw_invoice_draft_id l \<noteq> i) (dd_lines db)"
    using assms(2) by (auto simp: deleteDraft_def deleteEditableDraft_def Let_def split: if_splits)
  then show ?thesis
  proof cases
    case 1
    with assms(1) show ?thesis by simp
  next
    case 2
    have owner: "lineOwner db' l" if "l \<in> set (dd_lines db')" for l
    proof -
      have "lineOwner db l" "lw_invoice_draft_id l \<noteq> i"
        using that assms(1) by (simp_all add: 2 draftInvariant_def)
      then obtain d where "d \<in> set (dd_drafts db)" "dw_id d = lw_invoice_draft_id l" "lineFitsDraft d l"
        "dw_id d \<noteq> i" by (auto simp: lineOwner_def)
      then show ?thesis by (auto simp: lineOwner_def 2(1) isEditable_def)
    qed
    with assms(1) show ?thesis
      unfolding draftInvariant_def 2 by (simp add: distinct_map_filter)
  qed
qed

section \<open>Reading a stored draft\<close>

text \<open>
  What a draft has to satisfy so that its rows determine it: one price input mode, lines in
  the order of their positions, and a performance period that passes its own check.
\<close>

definition storableDraft :: "InvoiceDraft \<Rightarrow> bool" where
  "storableDraft d \<longleftrightarrow>
     (\<forall>l \<in> set (pd_lines d). il_priceInputMode l = pd_priceInputMode d) \<and>
     sorted (map il_position (pd_lines d)) \<and>
     resolveInvoicePerformancePeriod (Some (pd_performancePeriod d)) = Inr (pd_performancePeriod d)"

lemma toInvoiceDraftLine_toRow:
  "toInvoiceDraftLine (toInvoiceDraftLineRow i l) (il_priceInputMode l) = Inr l"
  by (cases "il_discount l")
    (simp_all add: toInvoiceDraftLine_def toInvoiceDraftLineRow_def toStoredDiscount_def
      toInvoiceLineDiscount_def)

lemma lineRow_frame [simp]:
  "lw_invoice_draft_id (toInvoiceDraftLineRow i l) = i"
  "lw_position (toInvoiceDraftLineRow i l) = il_position l"
  "lw_vat_rate_basis_points (toInvoiceDraftLineRow i l) = il_vatRateBasisPoints l"
  by (simp_all add: toInvoiceDraftLineRow_def split: prod.split)

lemma draftRow_frame [simp]:
  "dw_id (toInvoiceDraftRow d) = dr_id d" "dw_company_id (toInvoiceDraftRow d) = dr_companyId d"
  "dw_tax_treatment (toInvoiceDraftRow d) = taxTreatmentValue (pd_taxTreatment d)"
  "dw_status (toInvoiceDraftRow d) = dr_status d"
  "dw_approved_invoice_id (toInvoiceDraftRow d) = None"
  by (simp_all add: toInvoiceDraftRow_def Let_def)

lemma resolveTax_value [simp]: "resolveInvoiceTaxTreatment (Some (taxTreatmentValue t)) = Inr t"
  by (cases t) (simp_all add: resolveInvoiceTaxTreatment_def taxTreatmentValue_def)

text \<open>The columns that are read: all but the two that mark an approved draft.\<close>

definition readColumns :: "InvoiceDraftRow \<Rightarrow> InvoiceDraftRow" where
  "readColumns row = row\<lparr>dw_approved_invoice_id := None, dw_approved_at := None\<rparr>"

lemma readDraft_readColumns: "readDraft db (readColumns row) = readDraft db row"
  by (simp add: readDraft_def readColumns_def toInvoiceDraftTaxFields_def Let_def
      cong del: prod.case_cong_weak InvoiceTaxTreatment.case_cong_weak)

lemma getVatBreakdown_readable:
  assumes "\<forall>l \<in> set (joinedDraftLines db c i). lw_vat_rate_basis_points l \<noteq> None"
  shows "\<exists>b. mapR toInvoiceVatBreakdown (getVatBreakdown db c i) = Inr b"
proof -
  have "rate \<noteq> None" if "(rate, ls) \<in> set (groupBy lw_vat_rate_basis_points (joinedDraftLines db c i))"
    for rate ls
    using that assms by (auto simp: mem_groupBy)
  then have "\<forall>r \<in> set (getVatBreakdown db c i). bw_vat_rate_basis_points r \<noteq> None"
    by (auto simp: getVatBreakdown_def)
  then have "\<forall>r \<in> set (getVatBreakdown db c i). succeeds (toInvoiceVatBreakdown r)"
    by (auto simp: toInvoiceVatBreakdown_def)
  then show ?thesis using succeeds_mapR succeeds_iff by metis
qed

lemma mapR_lines_toRows:
  assumes "\<forall>l \<in> set ls. il_priceInputMode l = mode"
  shows "mapR (\<lambda>l. toInvoiceDraftLine l mode) (map (toInvoiceDraftLineRow i) ls) = Inr ls"
  using assms by (induction ls) (auto simp: toInvoiceDraftLine_toRow)

lemma columns_eta:
  "\<lparr>pc_performanceDate = pc_performanceDate cols,
    pc_performancePeriodStart = pc_performancePeriodStart cols,
    pc_performancePeriodEnd = pc_performancePeriodEnd cols\<rparr> = cols"
  by (cases cols) simp

lemma readDraft_stored:
  assumes s: "storableDraft d" and row: "readColumns row = toInvoiceDraftRow d"
    and joined: "joinedDraftLines db (dr_companyId d) (dr_id d) = toInvoiceDraftLineRows d"
    and fits: "\<forall>l \<in> set (toInvoiceDraftLineRows d). lineFitsDraft (toInvoiceDraftRow d) l"
  shows "\<exists>b. readDraft db row = Inr (d\<lparr>pd_totals := (pd_totals d)\<lparr>vatBreakdown := b\<rparr>\<rparr>)"
proof -
  let ?row = "toInvoiceDraftRow d"
  have lines: "getDraftLines db (dr_companyId d) (dr_id d) = map (toInvoiceDraftLineRow (dr_id d)) (pd_lines d)"
    unfolding getDraftLines_def joined toInvoiceDraftLineRows_def
    using s by (intro sort_key_id_if_sorted) (simp add: storableDraft_def comp_def)
  have readLines: "mapR (\<lambda>l. toInvoiceDraftLine l (pd_priceInputMode d))
      (map (toInvoiceDraftLineRow (dr_id d)) (pd_lines d)) = Inr (pd_lines d)"
    using s by (intro mapR_lines_toRows) (simp add: storableDraft_def)
  have tax: "toInvoiceDraftTaxFields ?row = Inr (pd_taxTreatment d, pd_performancePeriod d)"
    using fromColumns_toColumns [of "Some (pd_performancePeriod d)" "pd_performancePeriod d"] s
    by (simp add: toInvoiceDraftTaxFields_def storableDraft_def toInvoiceDraftRow_def Let_def
        columns_eta)
  have "\<exists>b. mapR toInvoiceVatBreakdown
      (case pd_taxTreatment d of
         NormalVat \<Rightarrow> getVatBreakdown db (dw_company_id ?row) (dw_id ?row)
       | ReverseChargeConstruction \<Rightarrow> []) = Inr b"
    using getVatBreakdown_readable [of db "dr_companyId d" "dr_id d"] fits
    by (cases "pd_taxTreatment d") (auto simp: joined lineFitsDraft_def taxTreatmentValue_def)
  then obtain b where b: "mapR toInvoiceVatBreakdown
      (case pd_taxTreatment d of
         NormalVat \<Rightarrow> getVatBreakdown db (dw_company_id ?row) (dw_id ?row)
       | ReverseChargeConstruction \<Rightarrow> []) = Inr b" by blast
  have mode: "dw_price_input_mode ?row = pd_priceInputMode d"
    by (simp add: toInvoiceDraftRow_def Let_def)
  have getLines: "getDraftLines db (dw_company_id ?row) (dw_id ?row) =
      map (toInvoiceDraftLineRow (dr_id d)) (pd_lines d)"
    using lines by simp
  have "readDraft db ?row = Inr (d\<lparr>pd_totals := (pd_totals d)\<lparr>vatBreakdown := b\<rparr>\<rparr>)"
    unfolding readDraft_def Let_def tax getLines mode readLines andThen_Inr prod.case b
    by (simp add: toInvoiceDraftRow_def Let_def)
  moreover have "readDraft db row = readDraft db ?row"
    using readDraft_readColumns [of db row] unfolding row by simp
  ultimately show ?thesis by (metis (full_types))
qed

text \<open>The lines of a draft after its lines were written to a database without lines of it.\<close>

lemma joined_after_insert:
  assumes lines: "dd_lines db' = dd_lines db @ toInvoiceDraftLineRows d"
    and none: "\<forall>l \<in> set (dd_lines db). lw_invoice_draft_id l \<noteq> dr_id d"
    and row: "row \<in> set (dd_drafts db')" "dw_id row = dr_id d" "dw_company_id row = dr_companyId d"
  shows "joinedDraftLines db' (dr_companyId d) (dr_id d) = toInvoiceDraftLineRows d"
proof -
  have "filter (\<lambda>l. lw_invoice_draft_id l = dr_id d \<and>
      (\<exists>r \<in> set (dd_drafts db'). dw_id r = lw_invoice_draft_id l \<and> dw_company_id r = dr_companyId d))
    (dd_lines db) = []"
    using none by (auto simp: filter_empty_conv)
  moreover have "filter (\<lambda>l. lw_invoice_draft_id l = dr_id d \<and>
      (\<exists>r \<in> set (dd_drafts db'). dw_id r = lw_invoice_draft_id l \<and> dw_company_id r = dr_companyId d))
    (toInvoiceDraftLineRows d) = toInvoiceDraftLineRows d"
    using row by (auto simp: toInvoiceDraftLineRows_def intro!: filter_True bexI [of _ row])
  ultimately show ?thesis by (simp add: joinedDraftLines_def lines)
qed

lemma saveDraft_state:
  assumes "saveDraft db d = Inr (db', d')"
  shows "d' = d" "dr_status d = ''draft''" "rowWith dw_id (dr_id d) (dd_drafts db) = None"
    "dd_drafts db' = dd_drafts db @ [toInvoiceDraftRow d]"
    "dd_lines db' = dd_lines db @ toInvoiceDraftLineRows d"
    "\<forall>l \<in> set (toInvoiceDraftLineRows d). lineFitsDraft (toInvoiceDraftRow d) l"
proof -
  from assms obtain db1 where d': "d' = d" and i: "insertDraft db (toInvoiceDraftRow d) = Inr db1"
    and l: "insertDraftLines db1 (toInvoiceDraftLineRows d) = Inr db'"
    by (rule saveDraft_cases)
  note i = i [unfolded insertDraft_ok]
  note l = insertDraftLines_ok [OF l]
  from i have fresh: "rowWith dw_id (dr_id d) (dd_drafts db) = None"
    by (simp add: draftKeysAccepted_def)
  with i l show "rowWith dw_id (dr_id d) (dd_drafts db) = None" "d' = d" "dr_status d = ''draft''"
    "dd_drafts db' = dd_drafts db @ [toInvoiceDraftRow d]"
    "dd_lines db' = dd_lines db @ toInvoiceDraftLineRows d"
    by (simp_all add: d' draftRowAccepted_def)
  show "\<forall>r \<in> set (toInvoiceDraftLineRows d). lineFitsDraft (toInvoiceDraftRow d) r"
  proof
    fix r assume r: "r \<in> set (toInvoiceDraftLineRows d)"
    with l obtain x where "rowWith dw_id (lw_invoice_draft_id r) (dd_drafts db1) = Some x" "lineFitsDraft x r"
      by blast
    moreover from r have "lw_invoice_draft_id r = dr_id d" by (auto simp: toInvoiceDraftLineRows_def)
    ultimately show "lineFitsDraft (toInvoiceDraftRow d) r"
      using i fresh by (simp add: rowWith_append rowWith_single)
  qed
qed

lemma no_lines_of_new_draft:
  assumes "draftInvariant db" "rowWith dw_id i (dd_drafts db) = None"
  shows "\<forall>l \<in> set (dd_lines db). lw_invoice_draft_id l \<noteq> i"
  using assms by (auto simp: draftInvariant_def lineOwner_def rowWith_None)

lemma find_editable_append:
  assumes "rowWith dw_id i rows = None"
  shows "find (isEditable c i) (rows @ [row]) = (if isEditable c i row then Some row else None)"
proof -
  have "\<not> isEditable c i r" if "r \<in> set rows" for r
    using assms that by (auto simp: rowWith_None isEditable_def)
  then have "find (isEditable c i) rows = None" by (simp add: find_None_iff)
  then have "find (isEditable c i) (rows @ [row]) = find (isEditable c i) [row]"
    by (induction rows) (auto split: if_splits)
  then show ?thesis by simp
qed

lemma getDraftById_saveDraft:
  assumes I: "draftInvariant db" and save: "saveDraft db d = Inr (db', d')" and s: "storableDraft d"
  shows "\<exists>b. getDraftById db' (dr_companyId d) (dr_id d) =
    Inr (Some (d\<lparr>pd_totals := (pd_totals d)\<lparr>vatBreakdown := b\<rparr>\<rparr>))"
proof -
  note st = saveDraft_state [OF save]
  let ?row = "toInvoiceDraftRow d"
  have found: "getEditableDraft db' (dr_companyId d) (dr_id d) = Some ?row"
    using find_editable_append [OF st(3), of "dr_companyId d" ?row] st(2)
    by (simp add: getEditableDraft_def st(4) isEditable_def)
  have joined: "joinedDraftLines db' (dr_companyId d) (dr_id d) = toInvoiceDraftLineRows d"
    using st(4) by (intro joined_after_insert [OF st(5) no_lines_of_new_draft [OF I st(3)], of ?row]) simp_all
  have "readColumns ?row = ?row" by (simp add: readColumns_def toInvoiceDraftRow_def Let_def)
  with readDraft_stored [OF s _ joined st(6), of ?row]
  obtain b where "readDraft db' ?row = Inr (d\<lparr>pd_totals := (pd_totals d)\<lparr>vatBreakdown := b\<rparr>\<rparr>)" by blast
  then show ?thesis unfolding getDraftById_def found by (intro exI) simp
qed

text \<open>An update keeps the columns it does not set; the stored draft has to agree on these.\<close>

definition sameOrigin :: "InvoiceDraftRow \<Rightarrow> InvoiceDraft \<Rightarrow> bool" where
  "sameOrigin row d \<longleftrightarrow>
     dw_invoice_kind row = dr_invoiceKind d \<and> dw_credited_invoice_id row = dr_creditedInvoiceId d \<and>
     dw_created_at row = dr_createdAt d"

lemma find_updateRows:
  assumes "\<And>r. p (f r) = p r"
  shows "find p (updateRows p f rows) = map_option f (find p rows)"
  using assms by (induction rows) (auto simp: updateRows_def)

lemma getEditableDraft_Some:
  "getEditableDraft db c i = Some row \<Longrightarrow> row \<in> set (dd_drafts db) \<and> isEditable c i row"
  by (auto simp: getEditableDraft_def find_Some_iff)

lemma updateDraft_state:
  assumes I: "draftInvariant db" and u: "updateDraft db d = Inr (db', Some d')"
    and old: "getEditableDraft db (dr_companyId d) (dr_id d) = Some old"
  shows "d' = d" "getEditableDraft db' (dr_companyId d) (dr_id d) = Some (mergeDraftRow (toInvoiceDraftRow d) old)"
    "dd_lines db' = filter (\<lambda>l. lw_invoice_draft_id l \<noteq> dr_id d) (dd_lines db) @ toInvoiceDraftLineRows d"
    "\<forall>l \<in> set (toInvoiceDraftLineRows d). lineFitsDraft (toInvoiceDraftRow d) l"
    "dd_drafts db' = updateRows (isEditable (dr_companyId d) (dr_id d))
       (mergeDraftRow (toInvoiceDraftRow d)) (dd_drafts db)"
proof -
  let ?row = "toInvoiceDraftRow d" and ?e = "isEditable (dr_companyId d) (dr_id d)"
  from u obtain db1 where d': "d' = d"
    and e: "updateEditableDraft (deleteDraftLines db (dr_id d)) ?row = Inr (db1, True)"
    and l: "insertDraftLines db1 (toInvoiceDraftLineRows d) = Inr db'"
    by (rule updateDraft_cases)
  have db1: "dd_drafts db1 = updateRows ?e (mergeDraftRow ?row) (dd_drafts db)"
    "dd_lines db1 = filter (\<lambda>l. lw_invoice_draft_id l \<noteq> dr_id d) (dd_lines db)"
    using e by (simp_all add: updateEditableDraft_ok Let_def deleteDraftLines_def)
  note l = insertDraftLines_ok [OF l]
  have db': "dd_drafts db' = dd_drafts db1" "dd_lines db' = dd_lines db1 @ toInvoiceDraftLineRows d"
    using l by simp_all
  show "d' = d" by fact
  show "dd_drafts db' = updateRows ?e (mergeDraftRow ?row) (dd_drafts db)" by (simp add: db'(1) db1(1))
  show "getEditableDraft db' (dr_companyId d) (dr_id d) = Some (mergeDraftRow ?row old)"
    using old by (simp add: getEditableDraft_def db'(1) db1(1) find_updateRows)
  show "dd_lines db' = filter (\<lambda>l. lw_invoice_draft_id l \<noteq> dr_id d) (dd_lines db) @ toInvoiceDraftLineRows d"
    by (simp add: db'(2) db1(2))
  have mem: "old \<in> set (dd_drafts db)" "?e old" using getEditableDraft_Some [OF old] by auto
  have "rowWith dw_id (dw_id old) (dd_drafts db) = Some old"
    using I mem(1) by (intro rowWith_distinct) (simp add: draftInvariant_def)
  then have found: "rowWith dw_id (dr_id d) (dd_drafts db1) = Some (mergeDraftRow ?row old)"
    using mem(2) unfolding db1(1) by (subst rowWith_updateRows) (auto simp: isEditable_def)
  show "\<forall>r \<in> set (toInvoiceDraftLineRows d). lineFitsDraft ?row r"
  proof
    fix r assume r: "r \<in> set (toInvoiceDraftLineRows d)"
    with l obtain x where "rowWith dw_id (lw_invoice_draft_id r) (dd_drafts db1) = Some x" "lineFitsDraft x r"
      by blast
    moreover from r have "lw_invoice_draft_id r = dr_id d" by (auto simp: toInvoiceDraftLineRows_def)
    ultimately show "lineFitsDraft ?row r" using found by (auto simp: lineFitsDraft_def)
  qed
qed

lemma readColumns_merge:
  assumes "isEditable (dr_companyId d) (dr_id d) old" "sameOrigin old d" "dr_status d = ''draft''"
  shows "readColumns (mergeDraftRow (toInvoiceDraftRow d) old) = toInvoiceDraftRow d"
  using assms
  by (simp add: isEditable_def sameOrigin_def readColumns_def mergeDraftRow_def toInvoiceDraftRow_def Let_def)

lemma getDraftById_updateDraft:
  assumes I: "draftInvariant db" and u: "updateDraft db d = Inr (db', Some d')"
    and s: "storableDraft d" "dr_status d = ''draft''"
    and old: "getEditableDraft db (dr_companyId d) (dr_id d) = Some old" "sameOrigin old d"
  shows "\<exists>b. getDraftById db' (dr_companyId d) (dr_id d) =
    Inr (Some (d\<lparr>pd_totals := (pd_totals d)\<lparr>vatBreakdown := b\<rparr>\<rparr>))"
proof -
  note st = updateDraft_state [OF I u old(1)]
  let ?row = "mergeDraftRow (toInvoiceDraftRow d) old"
  have e: "isEditable (dr_companyId d) (dr_id d) old" using getEditableDraft_Some [OF old(1)] by blast
  have row: "?row \<in> set (dd_drafts db')" using getEditableDraft_Some [OF st(2)] by blast
  have joined: "joinedDraftLines db' (dr_companyId d) (dr_id d) = toInvoiceDraftLineRows d"
    by (rule joined_after_insert [of db' "deleteDraftLines db (dr_id d)" d ?row])
      (use row e in \<open>simp_all add: st(3) deleteDraftLines_def isEditable_def\<close>)
  from readDraft_stored [OF s(1) readColumns_merge [OF e old(2) s(2)] joined st(4)]
  obtain b where "readDraft db' ?row = Inr (d\<lparr>pd_totals := (pd_totals d)\<lparr>vatBreakdown := b\<rparr>\<rparr>)" by blast
  then show ?thesis unfolding getDraftById_def st(2) by (intro exI) simp
qed

end
