(* ===== verification/DraftUse.thy ===== *)
theory DraftUse
  imports DraftStoreCorrect
begin

text \<open>
  The requests on invoice drafts (application/saveInvoiceDraft.ts, updateInvoiceDraft.ts,
  deleteInvoiceDraft.ts, getInvoiceDraft.ts with resolveInvoiceDraftLatePaymentInterest.ts)
  over the repository of \<open>DraftStore\<close>. The readers of other modules are a record of
  functions; the identifiers \<open>randomUUID\<close> returns and the clock are arguments.
\<close>

section \<open>Reading time stamps\<close>

text \<open>
  \<open>Date.parse\<close> of a string that \<open>toISOString\<close> prints is its time value; what it makes of any
  other string is left to \<open>other\<close>.
\<close>

definition isoNumber :: "nat \<Rightarrow> nat \<Rightarrow> string \<Rightarrow> int" where
  "isoNumber k n s = int (parseDigits (take n (drop k s)))"

definition isoTimeValue :: "string \<Rightarrow> int" where
  "isoTimeValue s =
     (let signed = take 1 s = ''-'' \<or> take 1 s = ''+'';
          digits = isoNumber (if signed then 1 else 0) (if signed then 6 else 4) s;
          year = (if take 1 s = ''-'' then - digits else digits);
          r = drop (if signed then 7 else 4) s in
      msPerDay * dayFromCivil (year, isoNumber 1 2 r, isoNumber 4 2 r) +
      3600000 * isoNumber 7 2 r + 60000 * isoNumber 10 2 r + 1000 * isoNumber 13 2 r +
      isoNumber 16 3 r)"

definition dateParse :: "(string \<Rightarrow> int option) \<Rightarrow> string \<Rightarrow> int option" where
  "dateParse other s =
     (let t = isoTimeValue s in
      if timeClip t \<noteq> None \<and> toISOString t = s then Some t else other s)"

section \<open>Dependencies\<close>

record InvoicePaymentSettings =
  ps_defaultLatePaymentInterestBasisPoints :: number
  ps_defaultReminderPeriodDays :: number

definition defaultInvoicePaymentSettings :: InvoicePaymentSettings where
  "defaultInvoicePaymentSettings =
     \<lparr>ps_defaultLatePaymentInterestBasisPoints = 0, ps_defaultReminderPeriodDays = 8\<rparr>"

record InvoiceDraftDependencies =
  dp_belongsToCompany :: "string \<Rightarrow> string \<Rightarrow> bool"
  dp_getTaxProfile :: "string \<Rightarrow> string \<Rightarrow> InvoiceCustomerTaxProfile option"
  dp_getSettings :: "string \<Rightarrow> InvoicePaymentSettings option"

definition resolveInvoiceDraftLatePaymentInterestBasisPoints ::
    "InvoiceDraftDependencies \<Rightarrow> string \<Rightarrow> number option \<Rightarrow> number" where
  "resolveInvoiceDraftLatePaymentInterestBasisPoints deps companyId given =
     (case given of
        Some v \<Rightarrow> v
      | None \<Rightarrow>
          (case dp_getSettings deps companyId of
             Some settings \<Rightarrow> ps_defaultLatePaymentInterestBasisPoints settings
           | None \<Rightarrow> ps_defaultLatePaymentInterestBasisPoints defaultInvoicePaymentSettings))"

definition resolveInvoiceDraftReminderPeriodDays ::
    "InvoiceDraftDependencies \<Rightarrow> string \<Rightarrow> number option \<Rightarrow> number" where
  "resolveInvoiceDraftReminderPeriodDays deps companyId given =
     (case given of
        Some v \<Rightarrow> v
      | None \<Rightarrow>
          (case dp_getSettings deps companyId of
             Some settings \<Rightarrow> ps_defaultReminderPeriodDays settings
           | None \<Rightarrow> ps_defaultReminderPeriodDays defaultInvoicePaymentSettings))"

text \<open>The checks both writing requests make on the customers of the draft.\<close>

definition requireAvailableCustomers ::
    "InvoiceDraftDependencies \<Rightarrow> string \<Rightarrow> string \<Rightarrow> string option \<Rightarrow> unit result" where
  "requireAvailableCustomers deps companyId customerId billingRecipient =
     (let billingRecipientCustomerId = (case billingRecipient of None \<Rightarrow> [] | Some b \<Rightarrow> trim b) in
      if \<not> dp_belongsToCompany deps customerId companyId then
        Inl (InvoiceDraftValidationError ''Customer is not available for invoicing.'')
      else if billingRecipientCustomerId \<noteq> [] \<and>
              \<not> dp_belongsToCompany deps billingRecipientCustomerId companyId then
        Inl (InvoiceDraftValidationError ''Billing recipient is not available for invoicing.'')
      else Inr ())"

definition requireReverseChargeCustomer ::
    "InvoiceDraftDependencies \<Rightarrow> string \<Rightarrow> string \<Rightarrow> InvoiceTaxTreatment \<Rightarrow> unit result" where
  "requireReverseChargeCustomer deps companyId customerId taxTreatment =
     (case taxTreatment of
        NormalVat \<Rightarrow> Inr ()
      | ReverseChargeConstruction \<Rightarrow>
          (case dp_getTaxProfile deps customerId companyId of
             None \<Rightarrow> Inl (InvoiceDraftValidationError ''Customer is not available for invoicing.'')
           | Some profile \<Rightarrow> requireReverseChargeCustomerEligibility profile))"

section \<open>Requests\<close>

definition saveInvoiceDraft ::
    "InvoiceDraftDependencies \<Rightarrow> string \<Rightarrow> (nat \<Rightarrow> string) \<Rightarrow> int \<Rightarrow> DraftDatabase \<Rightarrow>
     string \<Rightarrow> InvoiceDraftContentInput \<Rightarrow> (DraftDatabase \<times> InvoiceDraft) result" where
  "saveInvoiceDraft deps draftId lineId now db companyIdValue input =
     andThen (requireIdentifier companyIdValue ''Company id'') (\<lambda>companyId.
     andThen (requireIdentifier (di_customerId input) ''Customer id'') (\<lambda>customerId.
     andThen (requireAvailableCustomers deps companyId customerId
               (di_billingRecipientCustomerId input)) (\<lambda>_.
     andThen (prepareInvoiceDraftContent lineId
               (input\<lparr>di_latePaymentInterestBasisPoints :=
                        Some (resolveInvoiceDraftLatePaymentInterestBasisPoints deps companyId
                          (di_latePaymentInterestBasisPoints input)),
                      di_reminderPeriodDays :=
                        Some (resolveInvoiceDraftReminderPeriodDays deps companyId
                          (di_reminderPeriodDays input))\<rparr>)) (\<lambda>content.
     andThen (requireReverseChargeCustomer deps companyId customerId (pd_taxTreatment content)) (\<lambda>_.
     saveDraft db (PreparedInvoiceDraftContent.extend content
       (InvoiceDraft.fields draftId companyId StandardKind None [] ''draft''
          (toISOString now) (toISOString now))))))))"

definition createNextUpdatedAt :: "(string \<Rightarrow> int option) \<Rightarrow> int \<Rightarrow> string \<Rightarrow> string result" where
  "createNextUpdatedAt other currentTime previousUpdatedAt =
     (let nextTime =
        (case dateParse other previousUpdatedAt of
           None \<Rightarrow> currentTime
         | Some previousTime \<Rightarrow>
             if currentTime > previousTime then currentTime else previousTime + 1) in
      dateToISOString (timeClip nextTime))"

definition maximumRequestIdentifierLength :: nat where
  "maximumRequestIdentifierLength = 200"

definition requireDraftIdentifier :: "string \<Rightarrow> string result" where
  "requireDraftIdentifier invoiceDraftIdValue =
     andThen (requireIdentifier invoiceDraftIdValue ''Invoice draft id'') (\<lambda>invoiceDraftId.
     if length invoiceDraftId > maximumRequestIdentifierLength then
       Inl (InvoiceDraftValidationError ''Invoice draft id is invalid.'')
     else Inr invoiceDraftId)"

definition updateInvoiceDraft ::
    "InvoiceDraftDependencies \<Rightarrow> (string \<Rightarrow> int option) \<Rightarrow> (nat \<Rightarrow> string) \<Rightarrow> int \<Rightarrow> DraftDatabase \<Rightarrow>
     string \<Rightarrow> string \<Rightarrow> InvoiceDraftContentInput \<Rightarrow> (DraftDatabase \<times> InvoiceDraft) result" where
  "updateInvoiceDraft deps other lineId now db companyIdValue invoiceDraftIdValue input =
     andThen (requireIdentifier companyIdValue ''Company id'') (\<lambda>companyId.
     andThen (requireDraftIdentifier invoiceDraftIdValue) (\<lambda>invoiceDraftId.
     andThen (getDraftById db companyId invoiceDraftId) (\<lambda>found.
     case found of
       None \<Rightarrow> Inl InvoiceDraftNotFoundError
     | Some existingDraft \<Rightarrow>
         if dr_status existingDraft \<noteq> ''draft'' then
           Inl (InvoiceDraftValidationError ''Only invoice drafts can be updated.'')
         else if dr_invoiceKind existingDraft \<noteq> StandardKind then
           Inl (InvoiceDraftValidationError ''Credit invoice drafts use the credit correction workflow.'')
         else
           andThen (requireIdentifier (di_customerId input) ''Customer id'') (\<lambda>customerId.
           andThen (requireAvailableCustomers deps companyId customerId
                     (di_billingRecipientCustomerId input)) (\<lambda>_.
           andThen (prepareInvoiceDraftContent lineId
                     (input\<lparr>di_reminderPeriodDays :=
                              Some (case di_reminderPeriodDays input of
                                      None \<Rightarrow> pd_reminderPeriodDays existingDraft | Some d \<Rightarrow> d),
                            di_latePaymentInterestBasisPoints :=
                              Some (case di_latePaymentInterestBasisPoints input of
                                      None \<Rightarrow> pd_latePaymentInterestBasisPoints existingDraft
                                    | Some b \<Rightarrow> b)\<rparr>)) (\<lambda>content.
           andThen (requireReverseChargeCustomer deps companyId customerId (pd_taxTreatment content)) (\<lambda>_.
           andThen (createNextUpdatedAt other now (dr_updatedAt existingDraft)) (\<lambda>updatedAt.
           andThen (updateDraft db (PreparedInvoiceDraftContent.extend content
               (InvoiceDraft.fields (dr_id existingDraft) companyId (dr_invoiceKind existingDraft)
                  (dr_creditedInvoiceId existingDraft) [] ''draft'' (dr_createdAt existingDraft)
                  updatedAt))) (\<lambda>(db', saved).
           case saved of
             None \<Rightarrow> Inl InvoiceDraftNotFoundError
           | Some draft \<Rightarrow> Inr (db', draft))))))))))"

definition deleteInvoiceDraft ::
    "DraftDatabase \<Rightarrow> string \<Rightarrow> string \<Rightarrow> DraftDatabase result" where
  "deleteInvoiceDraft db companyIdValue invoiceDraftIdValue =
     andThen (requireIdentifier companyIdValue ''Company id'') (\<lambda>companyId.
     andThen (requireDraftIdentifier invoiceDraftIdValue) (\<lambda>invoiceDraftId.
     andThen (deleteDraft db companyId invoiceDraftId) (\<lambda>(db', wasDeleted).
     if \<not> wasDeleted then Inl InvoiceDraftNotFoundError else Inr db')))"

definition getInvoiceDraft :: "DraftDatabase \<Rightarrow> string \<Rightarrow> string \<Rightarrow> InvoiceDraft result" where
  "getInvoiceDraft db companyIdValue invoiceDraftIdValue =
     andThen (requireIdentifier companyIdValue ''Company id'') (\<lambda>companyId.
     andThen (requireDraftIdentifier invoiceDraftIdValue) (\<lambda>invoiceDraftId.
     andThen (getDraftById db companyId invoiceDraftId) (\<lambda>found.
     case found of
       None \<Rightarrow> Inl InvoiceDraftNotFoundError
     | Some invoiceDraft \<Rightarrow>
         if dr_invoiceKind invoiceDraft \<noteq> StandardKind then
           Inl (InvoiceDraftValidationError ''Credit invoice drafts use the credit correction workflow.'')
         else withCalculatedInvoiceDraftTotals invoiceDraft)))"

end
