(* ===== verification/DraftUseCorrect.thy ===== *)
theory DraftUseCorrect
  imports DraftUse
begin

text \<open>
  Correctness of the draft requests: what a request wrote is what reading returns, the time
  of the last change advances with every update, and no history of requests breaks the
  invariant of the tables.
\<close>

section \<open>Prepared content can be stored\<close>

lemma mode_draftLineOf [simp]: "il_priceInputMode (draftLineOf lineId i c l) = nl_priceInputMode c"
  by (simp add: draftLineOf_def)

lemma position_draftLineOf [simp]: "il_position (draftLineOf lineId i c l) = int i + 1"
  by (simp add: draftLineOf_def)

lemma calculatedDraftLines_mode:
  assumes "calculateDraftLines t mode lines = Inr (calculated, totals)" "c \<in> set calculated"
  shows "nl_priceInputMode c = mode"
proof (cases t)
  case NormalVat
  with assms obtain cs x where cs: "mapR (calculateNormalDraftLine mode) lines = Inr cs"
    and x: "x \<in> set cs" "c = ofNormalLine x"
    by (auto simp: calculateDraftLines_def result_simps)
  obtain l where "calculateNormalDraftLine mode l = Inr x"
    using mapR_set [OF cs x(1)] by blast
  then obtain input where "calculateInvoiceLine input = Inr x" "priceInputMode input = mode"
    by (auto simp: calculateNormalDraftLine_def split: option.splits if_splits)
  then have "line_priceInputMode x = mode"
    by (cases mode) (simp_all add: calculateInvoiceLine_net calculateInvoiceLine_gross Let_def)
  then show ?thesis by (simp add: x(2) ofNormalLine_def)
next
  case ReverseChargeConstruction
  with assms obtain inputs rinv x where inputs: "mapR (reverseChargeLineInput mode) lines = Inr inputs"
    and calc: "calculateReverseChargeInvoice inputs = Inr rinv"
    and x: "x \<in> set (rci_lines rinv)" "c = ofReverseChargeLine x"
    by (auto simp: calculateDraftLines_def result_simps)
  from calc have "mapR calculateReverseChargeInvoiceLine inputs = Inr (rci_lines rinv)"
    by (auto simp: calculateReverseChargeInvoice_def result_simps)
  then obtain i where i: "i \<in> set inputs" "calculateReverseChargeInvoiceLine i = Inr x"
    using mapR_set x(1) by metis
  obtain l where "reverseChargeLineInput mode l = Inr i" using mapR_set [OF inputs i(1)] by blast
  then have "rc_priceInputMode i = mode" by (auto simp: reverseChargeLineInput_def split: option.splits)
  with i(2) show ?thesis
    by (simp add: calculateReverseChargeInvoiceLine_eq_Inr x(2) ofReverseChargeLine_def)
qed

lemma prepared_storable:
  assumes "prepareInvoiceDraftContent lineId input = Inr c"
  shows "\<forall>l \<in> set (pd_lines c). il_priceInputMode l = pd_priceInputMode c"
    "sorted (map il_position (pd_lines c))"
    "resolveInvoicePerformancePeriod (Some (pd_performancePeriod c)) = Inr (pd_performancePeriod c)"
proof -
  from assms obtain calculated totals where
    calc: "calculateDraftLines (pd_taxTreatment c) (di_priceInputMode input) (di_lines input) =
      Inr (calculated, totals)"
    and lines: "toContentLines lineId calculated (di_lines input) = Inr (pd_lines c)"
    and period: "resolveInvoicePerformancePeriod (di_performancePeriod input) = Inr (pd_performancePeriod c)"
    and mode: "pd_priceInputMode c = di_priceInputMode input"
    by (rule prepareInvoiceDraftContent_cases) blast
  have ls: "pd_lines c = map (\<lambda>i. draftLineOf lineId i (calculated ! i) (di_lines input ! i))
      [0 ..< length (di_lines input)]"
    using lines toContentLines_ok [OF calculateDraftLines_length [OF calc]] by blast
  show "\<forall>l \<in> set (pd_lines c). il_priceInputMode l = pd_priceInputMode c"
    using calculatedDraftLines_mode [OF calc] calculateDraftLines_length [OF calc] by (auto simp: ls mode)
  show "sorted (map il_position (pd_lines c))"
    unfolding ls by (simp add: comp_def sorted_iff_nth_mono)
  show "resolveInvoicePerformancePeriod (Some (pd_performancePeriod c)) = Inr (pd_performancePeriod c)"
    using period unfolding resolveInvoicePerformancePeriod_ok option.case by blast
qed

text \<open>A draft made of a content and the fields of a draft.\<close>

lemma extend_draft [simp]:
  "pd_lines (PreparedInvoiceDraftContent.extend c m) = pd_lines c"
  "pd_totals (PreparedInvoiceDraftContent.extend c m) = pd_totals c"
  "pd_priceInputMode (PreparedInvoiceDraftContent.extend c m) = pd_priceInputMode c"
  "pd_taxTreatment (PreparedInvoiceDraftContent.extend c m) = pd_taxTreatment c"
  "pd_performancePeriod (PreparedInvoiceDraftContent.extend c m) = pd_performancePeriod c"
  by (simp_all add: PreparedInvoiceDraftContent.extend_def)

lemma extend_fields [simp]:
  "dr_id (PreparedInvoiceDraftContent.extend c (InvoiceDraft.fields i co k cr r s t u)) = i"
  "dr_companyId (PreparedInvoiceDraftContent.extend c (InvoiceDraft.fields i co k cr r s t u)) = co"
  "dr_invoiceKind (PreparedInvoiceDraftContent.extend c (InvoiceDraft.fields i co k cr r s t u)) = k"
  "dr_creditedInvoiceId (PreparedInvoiceDraftContent.extend c (InvoiceDraft.fields i co k cr r s t u)) = cr"
  "dr_status (PreparedInvoiceDraftContent.extend c (InvoiceDraft.fields i co k cr r s t u)) = s"
  "dr_createdAt (PreparedInvoiceDraftContent.extend c (InvoiceDraft.fields i co k cr r s t u)) = t"
  "dr_updatedAt (PreparedInvoiceDraftContent.extend c (InvoiceDraft.fields i co k cr r s t u)) = u"
  by (simp_all add: PreparedInvoiceDraftContent.extend_def InvoiceDraft.fields_def)

text \<open>
  What reading a draft back has to know of it: the totals of a standard draft are those
  calculated again from its lines.
\<close>

definition readableDraft :: "InvoiceDraft \<Rightarrow> bool" where
  "readableDraft d \<longleftrightarrow>
     storableDraft d \<and>
     (dr_invoiceKind d = StandardKind \<longrightarrow>
        recalculatedTotals (pd_taxTreatment d) (pd_lines d) = Inr (pd_totals d))"

lemma prepared_readable:
  assumes "prepareInvoiceDraftContent lineId input = Inr c"
  shows "readableDraft (PreparedInvoiceDraftContent.extend c m)"
  using prepared_storable [OF assms] prepared_recalculates [OF assms]
  by (simp add: readableDraft_def storableDraft_def)

text \<open>The VAT breakdown the database computed is replaced by the calculated totals.\<close>

lemma totals_upd_upd [simp]:
  "(d :: InvoiceDraft)\<lparr>pd_totals := t, pd_totals := t'\<rparr> = d\<lparr>pd_totals := t'\<rparr>"
  by (cases d) simp

lemma recalculate_stored:
  assumes "readableDraft d" "dr_invoiceKind d = StandardKind"
  shows "withCalculatedInvoiceDraftTotals (d\<lparr>pd_totals := t\<rparr>) = Inr d"
  using assms by (cases d) (simp add: withCalculatedInvoiceDraftTotals_def readableDraft_def)

section \<open>Reading what was saved\<close>

text \<open>The identifiers \<open>randomUUID\<close> returns pass the checks unchanged.\<close>

definition draftIdentifier :: "string \<Rightarrow> bool" where
  "draftIdentifier i \<longleftrightarrow> trim i = i \<and> i \<noteq> [] \<and> length i \<le> 200"

lemma requireDraftIdentifier_ok:
  "requireDraftIdentifier v = Inr i \<longleftrightarrow> i = trim v \<and> i \<noteq> [] \<and> length i \<le> 200"
  by (auto simp: requireDraftIdentifier_def result_simps maximumRequestIdentifierLength_def
      maximumDraftIdentifierLength_def)

lemma requireDraftIdentifier_id: "draftIdentifier i \<Longrightarrow> requireDraftIdentifier i = Inr i"
  by (simp add: draftIdentifier_def requireDraftIdentifier_ok)

lemma getInvoiceDraft_readable:
  assumes "requireIdentifier companyId ''Company id'' = Inr (dr_companyId d)"
    and "requireDraftIdentifier draftId = Inr (dr_id d)"
    and "getDraftById db (dr_companyId d) (dr_id d) = Inr (Some (d\<lparr>pd_totals := t\<rparr>))"
    and "readableDraft d" "dr_invoiceKind d = StandardKind"
  shows "getInvoiceDraft db companyId draftId = Inr d"
  unfolding getInvoiceDraft_def assms(1-3) andThen_Inr option.case
  using assms(4,5) by (simp add: recalculate_stored)

lemma saveInvoiceDraft_cases:
  assumes "saveInvoiceDraft deps draftId lineId now db companyId input = Inr (db', d)"
  obtains c input' where "requireIdentifier companyId ''Company id'' = Inr (dr_companyId d)"
    "prepareInvoiceDraftContent lineId input' = Inr c"
    "d = PreparedInvoiceDraftContent.extend c (InvoiceDraft.fields draftId (dr_companyId d)
           StandardKind None [] ''draft'' (toISOString now) (toISOString now))"
    "saveDraft db d = Inr (db', d)"
proof -
  from assms obtain co c input' where co: "requireIdentifier companyId ''Company id'' = Inr co"
    and c: "prepareInvoiceDraftContent lineId input' = Inr c"
    and s: "saveDraft db (PreparedInvoiceDraftContent.extend c (InvoiceDraft.fields draftId co
           StandardKind None [] ''draft'' (toISOString now) (toISOString now))) = Inr (db', d)"
    unfolding saveInvoiceDraft_def andThen_eq_Inr by blast
  have d: "d = PreparedInvoiceDraftContent.extend c (InvoiceDraft.fields draftId co
      StandardKind None [] ''draft'' (toISOString now) (toISOString now))"
    using saveDraft_state(1) [OF s] .
  then have "dr_companyId d = co" by simp
  with co c s d that show thesis by metis
qed

lemma get_after_save:
  assumes I: "draftInvariant db" and id: "draftIdentifier draftId"
    and save: "saveInvoiceDraft deps draftId lineId now db companyId input = Inr (db', d)"
  shows "getInvoiceDraft db' companyId draftId = Inr d"
  using save
proof (rule saveInvoiceDraft_cases)
  fix c input'
  assume co: "requireIdentifier companyId ''Company id'' = Inr (dr_companyId d)"
    and c: "prepareInvoiceDraftContent lineId input' = Inr c"
    and d: "d = PreparedInvoiceDraftContent.extend c (InvoiceDraft.fields draftId (dr_companyId d)
           StandardKind None [] ''draft'' (toISOString now) (toISOString now))"
    and s: "saveDraft db d = Inr (db', d)"
  have r: "readableDraft d" by (subst d) (rule prepared_readable [OF c])
  have ids: "dr_id d = draftId" "dr_invoiceKind d = StandardKind" by (subst d, simp)+
  obtain b where "getDraftById db' (dr_companyId d) (dr_id d) =
      Inr (Some (d\<lparr>pd_totals := (pd_totals d)\<lparr>vatBreakdown := b\<rparr>\<rparr>))"
    using getDraftById_saveDraft [OF I s] r by (auto simp: readableDraft_def)
  then show ?thesis
    using getInvoiceDraft_readable [OF co, of draftId] requireDraftIdentifier_id [OF id] r ids by metis
qed

section \<open>Time stamps\<close>

lemma year_in_range:
  assumes "timeClip t \<noteq> None"
  shows "-999999 \<le> fst (utcCivil t)" "fst (utcCivil t) \<le> 999999"
proof -
  have n: "-100000000 \<le> t div msPerDay" "t div msPerDay \<le> 100000000"
    using assms by (auto simp: timeClip_def msPerDay_def abs_le_iff split: if_splits)
  have "dayFromYear (-999999) \<le> -100000000" "100000000 < dayFromYear 1000000"
    by (simp_all add: dayFromYear_def)
  with n yearFromDay_range [of "-999999" "t div msPerDay" 1000000]
  have "-999999 \<le> yearFromDay (t div msPerDay)" "yearFromDay (t div msPerDay) < 1000000"
    by simp_all
  then show "-999999 \<le> fst (utcCivil t)" "fst (utcCivil t) \<le> 999999"
    by (simp_all add: utcCivil_def civilFromDay_def Let_def case_prod_beta)
qed

lemma isoNumber_hd: "length x = n \<Longrightarrow> isoNumber 0 n (x @ s) = int (parseDigits x)"
  by (simp add: isoNumber_def)

lemma isoNumber_skip: "length x = k \<Longrightarrow> isoNumber (k + m) n (x @ s) = isoNumber m n s"
  by (simp add: isoNumber_def)

text \<open>The clock part of a printed time stamp.\<close>

lemma isoNumber_parts:
  assumes "length m = 2" "length d = 2" "length h = 2" "length i = 2" "length s = 2" "length ms = 3"
  defines "r \<equiv> ''-'' @ m @ ''-'' @ d @ ''T'' @ h @ '':'' @ i @ '':'' @ s @ ''.'' @ ms @ ''Z''"
  shows "isoNumber 1 2 r = int (parseDigits m)" "isoNumber 4 2 r = int (parseDigits d)"
    "isoNumber 7 2 r = int (parseDigits h)" "isoNumber 10 2 r = int (parseDigits i)"
    "isoNumber 13 2 r = int (parseDigits s)" "isoNumber 16 3 r = int (parseDigits ms)"
  using assms by (simp_all add: isoNumber_def)

lemma time_parts:
  "3600000 * (ms div 3600000) + 60000 * (ms div 60000 mod 60) + 1000 * (ms div 1000 mod 60) +
    ms mod 1000 = (ms :: int)"
proof -
  have "ms div 60000 = 60 * (ms div 3600000) + ms div 60000 mod 60"
    using div_mult_mod_eq [of "ms div 60000" 60] by (simp add: zdiv_zmult2_eq [symmetric])
  moreover have "ms div 1000 = 60 * (ms div 60000) + ms div 1000 mod 60"
    using div_mult_mod_eq [of "ms div 1000" 60] by (simp add: zdiv_zmult2_eq [symmetric])
  moreover have "ms = 1000 * (ms div 1000) + ms mod 1000" by simp
  ultimately show ?thesis by linarith
qed

lemma isoYear_shape:
  fixes y :: int and r :: string
  assumes "-999999 \<le> y" "y \<le> 999999"
  defines "signed \<equiv> take 1 (isoYear y @ r) = ''-'' \<or> take 1 (isoYear y @ r) = ''+''"
  shows "(if take 1 (isoYear y @ r) = ''-''
          then - isoNumber (if signed then 1 else 0) (if signed then 6 else 4) (isoYear y @ r)
          else isoNumber (if signed then 1 else 0) (if signed then 6 else 4) (isoYear y @ r)) = y"
    "drop (if signed then 7 else 4) (isoYear y @ r) = r"
proof -
  consider "0 \<le> y" "y \<le> 9999" | "y < 0" | "9999 < y" by linarith
  then have "(if take 1 (isoYear y @ r) = ''-''
          then - isoNumber (if signed then 1 else 0) (if signed then 6 else 4) (isoYear y @ r)
          else isoNumber (if signed then 1 else 0) (if signed then 6 else 4) (isoYear y @ r)) = y \<and>
    drop (if signed then 7 else 4) (isoYear y @ r) = r"
  proof cases
    case 1
    have len: "length (pad 4 y) = 4" and dig: "allDigits (pad 4 y)"
      using 1 by (simp_all add: length_pad allDigits_pad)
    then obtain x xs where x: "pad 4 y = x # xs" "isDigit x"
      by (cases "pad 4 y") (auto simp: allDigits_def)
    moreover have "\<not> isDigit CHR ''-''" "\<not> isDigit CHR ''+''" by code_simp+
    ultimately have "x \<noteq> CHR ''-''" "x \<noteq> CHR ''+''" by blast+
    then have no: "\<not> signed" "take 1 (isoYear y @ r) \<noteq> ''-''"
      using 1 x(1) by (simp_all add: signed_def isoYear_def)
    then show ?thesis
      using 1 len isoNumber_hd [OF len, of r] by (simp add: isoYear_def)
  next
    case 2
    have len: "length (pad 6 \<bar>y\<bar>) = 6" using 2 assms by (intro length_pad) simp_all
    have "signed" using 2 by (simp add: signed_def isoYear_def)
    then show ?thesis using 2 len by (simp add: isoYear_def isoNumber_def)
  next
    case 3
    have len: "length (pad 6 \<bar>y\<bar>) = 6" using 3 assms by (intro length_pad) simp_all
    have "signed" using 3 by (simp add: signed_def isoYear_def)
    then show ?thesis using 3 len by (simp add: isoYear_def isoNumber_def)
  qed
  then show "(if take 1 (isoYear y @ r) = ''-''
          then - isoNumber (if signed then 1 else 0) (if signed then 6 else 4) (isoYear y @ r)
          else isoNumber (if signed then 1 else 0) (if signed then 6 else 4) (isoYear y @ r)) = y"
    "drop (if signed then 7 else 4) (isoYear y @ r) = r" by blast+
qed

lemma isoTimeValue_toISOString:
  assumes "timeClip t \<noteq> None"
  shows "isoTimeValue (toISOString t) = t"
proof -
  obtain y m d where c: "utcCivil t = (y, m, d)" by (cases "utcCivil t")
  let ?ms = "t mod msPerDay"
  define r where "r = ''-'' @ pad 2 m @ ''-'' @ pad 2 d @ ''T'' @ pad 2 (?ms div 3600000) @ '':'' @
      pad 2 (?ms div 60000 mod 60) @ '':'' @ pad 2 (?ms div 1000 mod 60) @ ''.'' @ pad 3 (?ms mod 1000) @
      ''Z''"
  have s: "toISOString t = isoYear y @ r" by (simp add: toISOString_def c r_def Let_def)
  have y: "-999999 \<le> y" "y \<le> 999999" using year_in_range [OF assms] by (simp_all add: c)
  have v: "validCivil (y, m, d)" using validCivil_utcCivil [of t] c by simp
  then have m: "1 \<le> m" "m \<le> 12" "1 \<le> d" "d \<le> 31"
    using daysInMonth_bounds(2) [of m y] by (auto simp: validCivil_def)
  have ms: "0 \<le> ?ms" "?ms < 86400000" by (simp_all add: msPerDay_def)
  then have h: "0 \<le> ?ms div 3600000" "?ms div 3600000 < 24" by simp_all
  have len: "length (pad 2 m) = 2" "length (pad 2 d) = 2" "length (pad 2 (?ms div 3600000)) = 2"
    "length (pad 2 (?ms div 60000 mod 60)) = 2" "length (pad 2 (?ms div 1000 mod 60)) = 2"
    "length (pad 3 (?ms mod 1000)) = 3"
    using m h by (simp_all add: length_pad)
  have parts: "isoNumber 1 2 r = m" "isoNumber 4 2 r = d" "isoNumber 7 2 r = ?ms div 3600000"
    "isoNumber 10 2 r = ?ms div 60000 mod 60" "isoNumber 13 2 r = ?ms div 1000 mod 60"
    "isoNumber 16 3 r = ?ms mod 1000"
    unfolding r_def isoNumber_parts [OF len] using m h ms by simp_all
  have day: "dayFromCivil (y, m, d) = t div msPerDay"
    using c unfolding utcCivil_def by (metis dayFromCivil_civilFromDay)
  have "isoTimeValue (toISOString t) = msPerDay * (t div msPerDay) +
      (3600000 * (?ms div 3600000) + 60000 * (?ms div 60000 mod 60) + 1000 * (?ms div 1000 mod 60) +
       ?ms mod 1000)"
    unfolding isoTimeValue_def Let_def s isoYear_shape [OF y] parts day by (simp add: add.assoc)
  also have "\<dots> = t" unfolding time_parts by simp
  finally show ?thesis .
qed

lemma dateParse_toISOString [simp]:
  "timeClip t \<noteq> None \<Longrightarrow> dateParse other (toISOString t) = Some t"
  by (simp add: dateParse_def isoTimeValue_toISOString Let_def)

lemma toISOString_inj:
  "toISOString t = toISOString u \<Longrightarrow> timeClip t \<noteq> None \<Longrightarrow> timeClip u \<noteq> None \<Longrightarrow> t = u"
  by (metis isoTimeValue_toISOString)

lemma timeClip_Some: "timeClip t = Some x \<Longrightarrow> x = t \<and> timeClip t \<noteq> None"
  by (auto simp: timeClip_def split: if_splits)

lemma createNextUpdatedAt_advances:
  assumes "timeClip p \<noteq> None" "createNextUpdatedAt other now (toISOString p) = Inr u"
  shows "u = toISOString (max now (p + 1)) \<and> timeClip (max now (p + 1)) \<noteq> None"
proof -
  have "(if now > p then now else p + 1) = max now (p + 1)" by simp
  with assms show ?thesis
    by (auto simp: createNextUpdatedAt_def dateToISOString_def Let_def dest: timeClip_Some
        split: option.splits if_splits)
qed

section \<open>Reading what was updated\<close>

lemma readDraft_columns:
  assumes "readDraft db row = Inr e"
  shows "dr_id e = dw_id row" "dr_companyId e = dw_company_id row" "dr_invoiceKind e = dw_invoice_kind row"
    "dr_creditedInvoiceId e = dw_credited_invoice_id row" "dr_createdAt e = dw_created_at row"
    "dr_updatedAt e = dw_updated_at row" "dr_status e = dw_status row"
  using assms by (auto simp: readDraft_def Let_def andThen_eq_Inr case_prod_beta)

lemma getDraftById_Some:
  assumes "getDraftById db co i = Inr (Some e)"
  obtains row where "getEditableDraft db co i = Some row" "readDraft db row = Inr e"
    "dr_id e = i" "dr_companyId e = co"
proof -
  from assms obtain row where row: "getEditableDraft db co i = Some row" "readDraft db row = Inr e"
    by (auto simp: getDraftById_def andThen_eq_Inr split: option.splits)
  with readDraft_columns(1,2) [OF row(2)] getEditableDraft_Some [OF row(1)]
  show thesis by (intro that) (auto simp: isEditable_def)
qed

definition updatedDraft :: "InvoiceDraft \<Rightarrow> PreparedInvoiceDraftContent \<Rightarrow> string \<Rightarrow> InvoiceDraft" where
  "updatedDraft e c u =
     PreparedInvoiceDraftContent.extend c
       (InvoiceDraft.fields (dr_id e) (dr_companyId e) (dr_invoiceKind e) (dr_creditedInvoiceId e)
          [] ''draft'' (dr_createdAt e) u)"

lemma savedDraft_Some:
  "(case saved of None \<Rightarrow> Inl e | Some x \<Rightarrow> Inr (db, x)) = Inr (db', d) \<longleftrightarrow> saved = Some d \<and> db = db'"
  by (auto split: option.splits)

lemma updateInvoiceDraft_cases:
  assumes "updateInvoiceDraft deps other lineId now db companyId draftId input = Inr (db', d)"
  obtains e c u input' where
    "requireIdentifier companyId ''Company id'' = Inr (dr_companyId e)"
    "requireDraftIdentifier draftId = Inr (dr_id e)"
    "getDraftById db (dr_companyId e) (dr_id e) = Inr (Some e)"
    "dr_status e = ''draft''" "dr_invoiceKind e = StandardKind"
    "prepareInvoiceDraftContent lineId input' = Inr c"
    "createNextUpdatedAt other now (dr_updatedAt e) = Inr u"
    "updateDraft db (updatedDraft e c u) = Inr (db', Some d)"
proof -
  from assms obtain co i found where co: "requireIdentifier companyId ''Company id'' = Inr co"
    and i: "requireDraftIdentifier draftId = Inr i" and found: "getDraftById db co i = Inr found"
    by (auto simp: updateInvoiceDraft_def andThen_eq_Inr)
  note step = assms [unfolded updateInvoiceDraft_def co i found andThen_Inr]
  from step obtain e where e: "found = Some e" by (cases found) auto
  from step [unfolded e option.case] have st: "dr_status e = ''draft''" "dr_invoiceKind e = StandardKind"
    by (auto split: if_splits)
  have ids: "dr_id e = i" "dr_companyId e = co" using found unfolding e by (auto elim: getDraftById_Some)
  have "\<exists>c u input'. prepareInvoiceDraftContent lineId input' = Inr c \<and>
      createNextUpdatedAt other now (dr_updatedAt e) = Inr u \<and>
      updateDraft db (updatedDraft e c u) = Inr (db', Some d)"
    using step [unfolded e option.case] st unfolding updatedDraft_def ids
    by (simp add: andThen_eq_Inr savedDraft_Some) blast
  then show thesis using that co i found st ids unfolding e by metis
qed

lemma updatedDraft_same [simp]:
  "dr_id (updatedDraft e c u) = dr_id e" "dr_companyId (updatedDraft e c u) = dr_companyId e"
  "dr_invoiceKind (updatedDraft e c u) = dr_invoiceKind e"
  "dr_creditedInvoiceId (updatedDraft e c u) = dr_creditedInvoiceId e"
  "dr_createdAt (updatedDraft e c u) = dr_createdAt e" "dr_updatedAt (updatedDraft e c u) = u"
  "dr_status (updatedDraft e c u) = ''draft''"
  by (simp_all add: updatedDraft_def)

lemma get_after_update:
  assumes I: "draftInvariant db"
    and update: "updateInvoiceDraft deps other lineId now db companyId draftId input = Inr (db', d)"
  shows "getInvoiceDraft db' companyId draftId = Inr d"
  using update
proof (rule updateInvoiceDraft_cases)
  fix e c u input'
  assume co: "requireIdentifier companyId ''Company id'' = Inr (dr_companyId e)"
    and i: "requireDraftIdentifier draftId = Inr (dr_id e)"
    and found: "getDraftById db (dr_companyId e) (dr_id e) = Inr (Some e)"
    and kind: "dr_invoiceKind e = StandardKind"
    and c: "prepareInvoiceDraftContent lineId input' = Inr c"
    and u: "updateDraft db (updatedDraft e c u) = Inr (db', Some d)"
  from found obtain row where row: "getEditableDraft db (dr_companyId e) (dr_id e) = Some row"
    "readDraft db row = Inr e" by (rule getDraftById_Some)
  have d: "d = updatedDraft e c u" using updateDraft_state(1) [OF I u] row(1) by simp
  have u': "updateDraft db d = Inr (db', Some d)" using u unfolding d .
  have r: "readableDraft d" unfolding d updatedDraft_def by (rule prepared_readable [OF c])
  then have s: "storableDraft d" by (simp add: readableDraft_def)
  have ids: "dr_companyId e = dr_companyId d" "dr_id e = dr_id d" "dr_status d = ''draft''"
    "dr_invoiceKind d = StandardKind" "sameOrigin row d"
    using readDraft_columns(3-5) [OF row(2)] kind unfolding d by (simp_all add: sameOrigin_def)
  obtain b where "getDraftById db' (dr_companyId d) (dr_id d) =
      Inr (Some (d\<lparr>pd_totals := (pd_totals d)\<lparr>vatBreakdown := b\<rparr>\<rparr>))"
    using getDraftById_updateDraft [OF I u' s ids(3) row(1) [unfolded ids] ids(5)] by blast
  then show ?thesis
    by (rule getInvoiceDraft_readable [OF co [unfolded ids] i [unfolded ids] _ r ids(4)])
qed

end
