(* ===== verification/DraftRefinement.thy ===== *)
theory DraftRefinement
  imports DraftUseCorrect
begin

text \<open>
  The drafts a client sees as one map from identifiers to drafts, and the proof that the
  tables implement it: saving, updating, deleting, approving and reopening standard drafts
  and creating, updating, deleting and approving credit drafts are updates of the map,
  reading is a lookup. An approved draft stays in the map with the invoice that
  locks it, and comes back unchanged when the invoice is reopened.
\<close>

section \<open>Locking and unlocking a draft\<close>

text \<open>
  The statements of an approval and of a reopening that change a draft
  (infrastructure/sqliteInvoiceApprovalStatements.ts).
\<close>

definition markDraftApproved ::
    "DraftDatabase \<Rightarrow> string \<Rightarrow> string \<Rightarrow> string \<Rightarrow> string \<Rightarrow> DraftDatabase result" where
  "markDraftApproved db companyId draftId invoiceId approvedAt =
     (let hits = filter (isEditable companyId draftId) (dd_drafts db) in
      if length hits \<noteq> 1 then
        Inl (ApproveInvoiceDraftError ''Invoice draft could not be marked as approved.'')
      else Inr (db\<lparr>dd_drafts := updateRows (isEditable companyId draftId)
                  (\<lambda>r. r\<lparr>dw_approved_invoice_id := Some invoiceId, dw_approved_at := Some approvedAt,
                         dw_updated_at := approvedAt\<rparr>) (dd_drafts db)\<rparr>))"

definition isLockedBy :: "string \<Rightarrow> string \<Rightarrow> string \<Rightarrow> InvoiceDraftRow \<Rightarrow> bool" where
  "isLockedBy companyId draftId invoiceId row \<longleftrightarrow>
     dw_company_id row = companyId \<and> dw_id row = draftId \<and>
     dw_approved_invoice_id row = Some invoiceId"

definition unlockSourceDraftForEditing ::
    "DraftDatabase \<Rightarrow> string \<Rightarrow> string \<Rightarrow> string \<Rightarrow> string \<Rightarrow> DraftDatabase result" where
  "unlockSourceDraftForEditing db companyId draftId invoiceId reopenedAt =
     (let hits = filter (isLockedBy companyId draftId invoiceId) (dd_drafts db) in
      if length hits \<noteq> 1 then
        Inl (ApproveInvoiceDraftError
          ''Approved invoice source draft could not be reopened for editing.'')
      else Inr (db\<lparr>dd_drafts := updateRows (isLockedBy companyId draftId invoiceId)
                  (\<lambda>r. r\<lparr>dw_approved_invoice_id := None, dw_approved_at := None,
                         dw_updated_at := reopenedAt\<rparr>) (dd_drafts db)\<rparr>))"

section \<open>Credit drafts in the draft tables\<close>

text \<open>
  Credit drafts are rows of the same tables (infrastructure/sqliteInvoiceCreditDraftRepository.ts).
  \<open>invoiceNumber\<close> is the query for the number of a sent standard invoice; the audit event is a
  row of another table.
\<close>

datatype CreateCreditDraftResult =
    CreditDraftCreated string
  | CreditDraftExisting string
  | CreditDraftNotEligible

definition getActiveCreditDraft :: "DraftDatabase \<Rightarrow> string \<Rightarrow> string \<Rightarrow> InvoiceDraftRow option" where
  "getActiveCreditDraft db companyId sourceInvoiceId =
     find (\<lambda>r. dw_company_id r = companyId \<and> dw_invoice_kind r = CreditKind \<and>
             dw_credited_invoice_id r = Some sourceInvoiceId \<and> dw_status r = ''draft'' \<and>
             dw_approved_invoice_id r = None) (dd_drafts db)"

definition createCreditDraft ::
    "(string \<Rightarrow> string \<Rightarrow> string option) \<Rightarrow> DraftDatabase \<Rightarrow> InvoiceDraft \<Rightarrow> string \<Rightarrow>
     (DraftDatabase \<times> CreateCreditDraftResult) result" where
  "createCreditDraft invoiceNumber db draft sourceInvoiceId =
     (case getActiveCreditDraft db (dr_companyId draft) sourceInvoiceId of
        Some existingDraft \<Rightarrow> Inr (db, CreditDraftExisting (dw_id existingDraft))
      | None \<Rightarrow>
          (case invoiceNumber (dr_companyId draft) sourceInvoiceId of
             None \<Rightarrow> Inr (db, CreditDraftNotEligible)
           | Some _ \<Rightarrow>
               andThen (insertDraft db (toInvoiceDraftRow draft)) (\<lambda>db1.
               andThen (insertDraftLines db1 (toInvoiceDraftLineRows draft)) (\<lambda>db2.
               Inr (db2, CreditDraftCreated (dr_id draft))))))"

text \<open>
  The new content of a credit draft (application/creditInvoiceDraftModel.ts). The lines and
  totals \<open>prepareCreditDraftContent\<close> returns are an argument; \<open>CreditDraft\<close> models their
  calculation.
\<close>

definition prepareUpdatedCreditDraft ::
    "InvoiceDraft \<Rightarrow> InvoiceTaxTreatment \<Rightarrow> InvoicePerformancePeriod \<Rightarrow>
     (InvoiceDraftLine list \<times> InvoiceTotals) result \<Rightarrow> string \<Rightarrow> string \<Rightarrow> string \<Rightarrow> string \<Rightarrow>
     InvoiceDraft result" where
  "prepareUpdatedCreditDraft existingDraft sourceTaxTreatment sourcePeriod preparedContent
     subject note' refundIban updatedAt =
     (if pd_taxTreatment existingDraft \<noteq> sourceTaxTreatment \<or>
         pd_performancePeriod existingDraft \<noteq> sourcePeriod then
        Inl (InvoiceDraftValidationError
          ''Credit invoice tax treatment must match the source invoice.'')
      else
        andThen preparedContent (\<lambda>(lines, totals).
        andThen (normalizeOptionalInvoiceTextWithLimit (Some subject) ''Credit invoice subject'' 500) (\<lambda>s.
        andThen (normalizeOptionalInvoiceTextWithLimit (Some note') ''Credit invoice note'' 5000) (\<lambda>n.
        andThen (normalizeOptionalRefundIban refundIban) (\<lambda>iban.
        Inr (existingDraft\<lparr>pd_subject := s, pd_note := n, dr_refundIban := iban,
                           pd_lines := lines, pd_totals := totals, dr_updatedAt := updatedAt\<rparr>))))))"

section \<open>The abstract store\<close>

type_synonym draft_map = "string \<rightharpoonup> InvoiceDraft \<times> string option"

definition linesOf :: "DraftDatabase \<Rightarrow> string \<Rightarrow> InvoiceDraftLineRow list" where
  "linesOf db i = filter (\<lambda>l. lw_invoice_draft_id l = i) (dd_lines db)"

definition rowOf :: "DraftDatabase \<Rightarrow> string \<Rightarrow> InvoiceDraftRow option" where
  "rowOf db i = rowWith dw_id i (dd_drafts db)"

definition holdsDraft :: "DraftDatabase \<Rightarrow> string \<Rightarrow> InvoiceDraft \<Rightarrow> string option \<Rightarrow> bool" where
  "holdsDraft db i d lock \<longleftrightarrow>
     (\<exists>row. rowOf db i = Some row \<and> readColumns row = toInvoiceDraftRow d \<and>
        dw_approved_invoice_id row = lock) \<and>
     linesOf db i = toInvoiceDraftLineRows d \<and> dr_id d = i \<and> dr_status d = ''draft'' \<and> readableDraft d"

definition slotHolds :: "DraftDatabase \<Rightarrow> string \<Rightarrow> (InvoiceDraft \<times> string option) option \<Rightarrow> bool" where
  "slotHolds db i x =
     (case x of None \<Rightarrow> rowOf db i = None | Some p \<Rightarrow> holdsDraft db i (fst p) (snd p))"

definition implements :: "DraftDatabase \<Rightarrow> draft_map \<Rightarrow> bool" where
  "implements db m \<longleftrightarrow> draftInvariant db \<and> (\<forall>i. slotHolds db i (m i))"

lemma implementsD:
  assumes "implements db m"
  shows "draftInvariant db" "m i = None \<Longrightarrow> rowOf db i = None"
    "m i = Some (d, lock) \<Longrightarrow> holdsDraft db i d lock"
proof -
  from assms have s: "slotHolds db i (m i)" by (simp add: implements_def)
  show "draftInvariant db" using assms by (simp add: implements_def)
  show "rowOf db i = None" if "m i = None" using s unfolding slotHolds_def that by simp
  show "holdsDraft db i d lock" if "m i = Some (d, lock)" using s unfolding slotHolds_def that by simp
qed

text \<open>Only the draft of one identifier changed.\<close>

definition sameElsewhere :: "string \<Rightarrow> DraftDatabase \<Rightarrow> DraftDatabase \<Rightarrow> bool" where
  "sameElsewhere i db db' \<longleftrightarrow>
     (\<forall>j. j \<noteq> i \<longrightarrow> rowOf db' j = rowOf db j \<and> linesOf db' j = linesOf db j)"

lemma slotHolds_cong:
  "rowOf db' i = rowOf db i \<Longrightarrow> linesOf db' i = linesOf db i \<Longrightarrow> slotHolds db' i x = slotHolds db i x"
  by (cases x) (simp_all add: slotHolds_def holdsDraft_def)

lemma implements_slot:
  assumes "implements db m" "draftInvariant db'" "sameElsewhere i db db'" "slotHolds db' i x"
  shows "implements db' (m(i := x))"
  unfolding implements_def
proof (intro conjI allI)
  show "draftInvariant db'" by fact
  fix j
  show "slotHolds db' j ((m(i := x)) j)"
  proof (cases "j = i")
    case True
    with assms(4) show ?thesis by simp
  next
    case False
    with assms(1,3) show ?thesis
      unfolding sameElsewhere_def implements_def using slotHolds_cong [of db' j db "m j"] by simp
  qed
qed

lemma implements_upd:
  assumes "implements db m" "draftInvariant db'" "sameElsewhere i db db'" "holdsDraft db' i d lock"
  shows "implements db' (m(i \<mapsto> (d, lock)))"
  by (rule implements_slot [OF assms(1-3)]) (simp add: slotHolds_def assms(4))

lemma implements_del:
  assumes "implements db m" "draftInvariant db'" "sameElsewhere i db db'" "rowOf db' i = None"
  shows "implements db' (m(i := None))"
  by (rule implements_slot [OF assms(1-3)]) (simp add: slotHolds_def assms(4))

section \<open>Reading is a lookup\<close>

lemma getEditableDraft_rowOf:
  assumes "draftInvariant db"
  shows "getEditableDraft db co i =
    (case rowOf db i of None \<Rightarrow> None | Some r \<Rightarrow> if isEditable co i r then Some r else None)"
proof (cases "rowOf db i")
  case None
  then have "\<not> isEditable co i r" if "r \<in> set (dd_drafts db)" for r
    using that by (auto simp: rowOf_def rowWith_None isEditable_def)
  then have "getEditableDraft db co i = None"
    by (simp add: getEditableDraft_def find_None_iff)
  then show ?thesis by (simp add: None)
next
  case (Some r)
  have mem: "r \<in> set (dd_drafts db)" "dw_id r = i" using rowWith_Some [OF Some [unfolded rowOf_def]] by auto
  have only: "s = r" if "s \<in> set (dd_drafts db)" "isEditable co i s" for s
    using assms that mem rowWith_distinct [of dw_id "dd_drafts db" s] Some
    by (simp add: draftInvariant_def isEditable_def rowOf_def)
  show ?thesis
  proof (cases "isEditable co i r")
    case True
    with mem(1) have "getEditableDraft db co i \<noteq> None"
      by (auto simp: getEditableDraft_def find_None_iff)
    then obtain s where s: "getEditableDraft db co i = Some s" by blast
    with getEditableDraft_Some [OF s] only have "s = r" by blast
    with True Some s show ?thesis by simp
  next
    case False
    then have "getEditableDraft db co i = None"
      using only by (auto simp: getEditableDraft_def find_None_iff)
    with False Some show ?thesis by simp
  qed
qed

lemma readColumns_frame:
  assumes "readColumns row = toInvoiceDraftRow d"
  shows "dw_id row = dr_id d" "dw_company_id row = dr_companyId d" "dw_status row = dr_status d"
    "dw_tax_treatment row = taxTreatmentValue (pd_taxTreatment d)"
    "dw_invoice_kind row = dr_invoiceKind d" "dw_credited_invoice_id row = dr_creditedInvoiceId d"
    "dw_created_at row = dr_createdAt d" "dw_updated_at row = dr_updatedAt d"
proof -
  have "dw_id (readColumns row) = dw_id row" "dw_company_id (readColumns row) = dw_company_id row"
    "dw_status (readColumns row) = dw_status row"
    "dw_tax_treatment (readColumns row) = dw_tax_treatment row"
    "dw_invoice_kind (readColumns row) = dw_invoice_kind row"
    "dw_credited_invoice_id (readColumns row) = dw_credited_invoice_id row"
    "dw_created_at (readColumns row) = dw_created_at row"
    "dw_updated_at (readColumns row) = dw_updated_at row"
    by (simp_all add: readColumns_def)
  then show "dw_id row = dr_id d" "dw_company_id row = dr_companyId d" "dw_status row = dr_status d"
    "dw_tax_treatment row = taxTreatmentValue (pd_taxTreatment d)"
    "dw_invoice_kind row = dr_invoiceKind d" "dw_credited_invoice_id row = dr_creditedInvoiceId d"
    "dw_created_at row = dr_createdAt d" "dw_updated_at row = dr_updatedAt d"
    unfolding assms by (simp_all add: toInvoiceDraftRow_def Let_def)
qed

lemma holdsDraft_read:
  assumes I: "draftInvariant db" and h: "holdsDraft db i d lock"
  shows "\<exists>row b. rowOf db i = Some row \<and> dw_approved_invoice_id row = lock \<and>
    dw_company_id row = dr_companyId d \<and> dw_status row = ''draft'' \<and> dw_id row = i \<and>
    readDraft db row = Inr (d\<lparr>pd_totals := (pd_totals d)\<lparr>vatBreakdown := b\<rparr>\<rparr>)"
proof -
  from h obtain row where row: "rowOf db i = Some row" "readColumns row = toInvoiceDraftRow d"
      "dw_approved_invoice_id row = lock"
    and l: "linesOf db i = toInvoiceDraftLineRows d" and i: "dr_id d = i" "dr_status d = ''draft''"
    and r: "readableDraft d"
    by (auto simp: holdsDraft_def)
  note f = readColumns_frame [OF row(2)]
  have mem: "row \<in> set (dd_drafts db)" using rowWith_Some [OF row(1) [unfolded rowOf_def]] by blast
  have "joinedDraftLines db (dr_companyId d) i = linesOf db i"
    unfolding joinedDraftLines_def linesOf_def
    using mem f(1,2) i(1) by (intro filter_cong) auto
  then have joined: "joinedDraftLines db (dr_companyId d) (dr_id d) = toInvoiceDraftLineRows d"
    by (simp add: l i(1))
  have fits: "\<forall>x \<in> set (toInvoiceDraftLineRows d). lineFitsDraft (toInvoiceDraftRow d) x"
  proof
    fix x assume "x \<in> set (toInvoiceDraftLineRows d)"
    then have x: "x \<in> set (dd_lines db)" "lw_invoice_draft_id x = i"
      by (auto simp: l [symmetric] linesOf_def)
    with I obtain o' where o': "o' \<in> set (dd_drafts db)" "dw_id o' = i" "lineFitsDraft o' x"
      unfolding draftInvariant_def lineOwner_def by metis
    with I row(1) have "o' = row"
      using rowWith_distinct [of dw_id "dd_drafts db" o'] by (auto simp: draftInvariant_def rowOf_def)
    with o'(3) f(4) show "lineFitsDraft (toInvoiceDraftRow d) x" by (simp add: lineFitsDraft_def)
  qed
  from r have "storableDraft d" by (simp add: readableDraft_def)
  from readDraft_stored [OF this row(2) joined fits] obtain b where
    "readDraft db row = Inr (d\<lparr>pd_totals := (pd_totals d)\<lparr>vatBreakdown := b\<rparr>\<rparr>)" by blast
  moreover have "dw_company_id row = dr_companyId d" "dw_status row = ''draft''" "dw_id row = i"
    using f(1-3) i by simp_all
  ultimately show ?thesis using row(1,3) by blast
qed

lemma getDraftById_holds:
  assumes I: "draftInvariant db" and h: "holdsDraft db i d lock"
  shows "if lock = None \<and> dr_companyId d = co
    then \<exists>b. getDraftById db co i = Inr (Some (d\<lparr>pd_totals := (pd_totals d)\<lparr>vatBreakdown := b\<rparr>\<rparr>))
    else getDraftById db co i = Inr None"
proof -
  obtain row b where row: "rowOf db i = Some row" "dw_approved_invoice_id row = lock"
      "dw_company_id row = dr_companyId d" "dw_status row = ''draft''" "dw_id row = i"
    and r: "readDraft db row = Inr (d\<lparr>pd_totals := (pd_totals d)\<lparr>vatBreakdown := b\<rparr>\<rparr>)"
    using holdsDraft_read [OF I h] by blast
  have e: "isEditable co i row \<longleftrightarrow> lock = None \<and> dr_companyId d = co"
    using row by (auto simp: isEditable_def)
  show ?thesis
  proof (cases "lock = None \<and> dr_companyId d = co")
    case True
    then have "getDraftById db co i = Inr (Some (d\<lparr>pd_totals := (pd_totals d)\<lparr>vatBreakdown := b\<rparr>\<rparr>))"
      unfolding getDraftById_def getEditableDraft_rowOf [OF I] row(1) option.case e if_P [OF True] r
      by (simp only: andThen_Inr)
    then show ?thesis unfolding if_P [OF True] by (rule exI)
  next
    case False
    show ?thesis
      unfolding if_not_P [OF False] getDraftById_def getEditableDraft_rowOf [OF I] row(1) option.case e
      by (rule refl)
  qed
qed

text \<open>What the abstract store answers to a request for a draft of a company.\<close>

definition lookupDraft :: "draft_map \<Rightarrow> string \<Rightarrow> string \<Rightarrow> InvoiceDraft result" where
  "lookupDraft m co i =
     (case m i of
        None \<Rightarrow> Inl InvoiceDraftNotFoundError
      | Some (d, lock) \<Rightarrow>
          if lock \<noteq> None \<or> dr_companyId d \<noteq> co then Inl InvoiceDraftNotFoundError
          else if dr_invoiceKind d \<noteq> StandardKind then
            Inl (InvoiceDraftValidationError ''Credit invoice drafts use the credit correction workflow.'')
          else Inr d)"

lemma getInvoiceDraft_lookup:
  assumes M: "implements db m"
    and co: "requireIdentifier companyId ''Company id'' = Inr co"
    and i: "requireDraftIdentifier draftId = Inr i"
  shows "getInvoiceDraft db companyId draftId = lookupDraft m co i"
proof (cases "m i")
  case None
  then have "getEditableDraft db co i = None"
    using implementsD(2) [OF M] getEditableDraft_rowOf [OF implementsD(1) [OF M]] by simp
  with None show ?thesis
    unfolding getInvoiceDraft_def co i andThen_Inr by (simp add: getDraftById_def lookupDraft_def)
next
  case (Some p)
  obtain d lock where p: "p = (d, lock)" by (cases p)
  have h: "holdsDraft db i d lock" using implementsD(3) [OF M] Some p by blast
  then have r: "readableDraft d" by (simp add: holdsDraft_def)
  note g = getDraftById_holds [OF implementsD(1) [OF M] h, of co]
  show ?thesis
  proof (cases "lock = None \<and> dr_companyId d = co")
    case True
    with g obtain b where
      b: "getDraftById db co i = Inr (Some (d\<lparr>pd_totals := (pd_totals d)\<lparr>vatBreakdown := b\<rparr>\<rparr>))" by auto
    show ?thesis
    proof (cases "dr_invoiceKind d = StandardKind")
      case standard: True
      show ?thesis
        unfolding getInvoiceDraft_def co i andThen_Inr b option.case recalculate_stored [OF r standard]
        using True standard by (simp add: lookupDraft_def Some p)
    next
      case False
      then show ?thesis
        unfolding getInvoiceDraft_def co i andThen_Inr b option.case
        using True by (simp add: lookupDraft_def Some p)
    qed
  next
    case False
    with g have "getDraftById db co i = Inr None" by simp
    then show ?thesis
      unfolding getInvoiceDraft_def co i andThen_Inr using False by (auto simp: lookupDraft_def Some p)
  qed
qed

section \<open>Writing is an update\<close>

lemma filter_lineRows:
  "filter (\<lambda>l. lw_invoice_draft_id l = j) (toInvoiceDraftLineRows d) =
     (if j = dr_id d then toInvoiceDraftLineRows d else [])"
  by (auto simp: toInvoiceDraftLineRows_def filter_empty_conv)

lemma rowOf_updateRows:
  assumes "dd_drafts db' = updateRows p f (dd_drafts db)" "\<And>r. p r \<Longrightarrow> dw_id (f r) = dw_id r"
  shows "rowOf db' j = map_option (\<lambda>r. if p r then f r else r) (rowOf db j)"
  unfolding rowOf_def assms(1) using assms(2) by (rule rowWith_updateRows)

lemma rowOf_id: "rowOf db j = Some r \<Longrightarrow> r \<in> set (dd_drafts db) \<and> dw_id r = j"
  unfolding rowOf_def by (rule rowWith_Some)

lemma updatedRow_elsewhere:
  assumes "dd_drafts db' = updateRows p f (dd_drafts db)" "\<And>r. p r \<Longrightarrow> dw_id (f r) = dw_id r"
    and "\<And>r. p r \<Longrightarrow> dw_id r = i" and "j \<noteq> i"
  shows "rowOf db' j = rowOf db j"
  using assms(3,4) rowOf_id [of db j]
  by (cases "rowOf db j") (auto simp: rowOf_updateRows [OF assms(1,2)])

lemma saveDraft_implements:
  assumes M: "implements db m" and s: "saveDraft db d = Inr (db', d')" and r: "readableDraft d"
  shows "m (dr_id d) = None" "implements db' (m(dr_id d \<mapsto> (d, None)))"
proof -
  note st = saveDraft_state [OF s] and I = implementsD(1) [OF M]
  have none: "rowOf db (dr_id d) = None" using st(3) by (simp add: rowOf_def)
  show "m (dr_id d) = None"
  proof (cases "m (dr_id d)")
    case (Some p)
    then have "holdsDraft db (dr_id d) (fst p) (snd p)" using implementsD(3) [OF M] by simp
    with none show ?thesis by (simp add: holdsDraft_def)
  qed simp
  have row: "rowOf db' j = (if j = dr_id d then Some (toInvoiceDraftRow d) else rowOf db j)" for j
    using none by (auto simp: rowOf_def st(4) rowWith_append rowWith_single split: option.split)
  have ls: "linesOf db' j = (if j = dr_id d then toInvoiceDraftLineRows d else linesOf db j)" for j
    using no_lines_of_new_draft [OF I st(3)]
    by (auto simp: linesOf_def st(5) filter_lineRows filter_empty_conv)
  have "readColumns (toInvoiceDraftRow d) = toInvoiceDraftRow d"
    by (simp add: readColumns_def toInvoiceDraftRow_def Let_def)
  then have "holdsDraft db' (dr_id d) d None"
    using r st(2) by (simp add: holdsDraft_def row ls)
  then show "implements db' (m(dr_id d \<mapsto> (d, None)))"
    by (intro implements_upd [OF M saveDraft_invariant [OF I s]]) (simp_all add: sameElsewhere_def row ls)
qed

lemma getDraftById_implements:
  assumes M: "implements db m" and g: "getDraftById db co i = Inr (Some e)"
  shows "\<exists>d b. m i = Some (d, None) \<and> dr_companyId d = co \<and> dr_id d = i \<and>
    e = d\<lparr>pd_totals := (pd_totals d)\<lparr>vatBreakdown := b\<rparr>\<rparr>"
proof (cases "m i")
  case None
  then have "getEditableDraft db co i = None"
    using implementsD(2) [OF M] getEditableDraft_rowOf [OF implementsD(1) [OF M]] by simp
  with g show ?thesis by (simp add: getDraftById_def)
next
  case (Some p)
  obtain d lock where p: "p = (d, lock)" by (cases p)
  have h: "holdsDraft db i d lock" using implementsD(3) [OF M] Some p by blast
  then have i: "dr_id d = i" by (simp add: holdsDraft_def)
  note r = getDraftById_holds [OF implementsD(1) [OF M] h, of co]
  have lock: "lock = None \<and> dr_companyId d = co"
  proof (rule ccontr)
    assume "\<not> (lock = None \<and> dr_companyId d = co)"
    from r [unfolded if_not_P [OF this]] g show False by simp
  qed
  from r [unfolded if_P [OF lock]] g have "\<exists>b. e = d\<lparr>pd_totals := (pd_totals d)\<lparr>vatBreakdown := b\<rparr>\<rparr>"
    by (metis option.inject sum.inject(2))
  with lock i Some p show ?thesis by blast
qed

lemma updateDraft_implements:
  assumes M: "implements db m" and u: "updateDraft db d = Inr (db', Some d')" and r: "readableDraft d"
    and e: "m (dr_id d) = Some (e, None)" "dr_companyId e = dr_companyId d" "dr_createdAt e = dr_createdAt d"
      "dr_invoiceKind e = dr_invoiceKind d" "dr_creditedInvoiceId e = dr_creditedInvoiceId d"
      "dr_status d = ''draft''"
  shows "implements db' (m(dr_id d \<mapsto> (d, None)))"
proof -
  note I = implementsD(1) [OF M]
  let ?e = "isEditable (dr_companyId d) (dr_id d)" and ?f = "mergeDraftRow (toInvoiceDraftRow d)"
  have "holdsDraft db (dr_id d) e None" using implementsD(3) [OF M e(1)] .
  then obtain row where row: "rowOf db (dr_id d) = Some row" "readColumns row = toInvoiceDraftRow e"
      "dw_approved_invoice_id row = None" and es: "dr_id e = dr_id d" "dr_status e = ''draft''"
    by (auto simp: holdsDraft_def)
  note f = readColumns_frame [OF row(2)]
  have ed: "?e row" using f(1-3) row(3) e es by (simp add: isEditable_def)
  have old: "getEditableDraft db (dr_companyId d) (dr_id d) = Some row"
    unfolding getEditableDraft_rowOf [OF I] row(1) using ed by simp
  note st = updateDraft_state [OF I u old]
  have rows: "rowOf db' j = map_option (\<lambda>r. if ?e r then ?f r else r) (rowOf db j)" for j
    by (rule rowOf_updateRows [OF st(5)]) simp
  have "rowOf db' j = rowOf db j" if "j \<noteq> dr_id d" for j
    by (rule updatedRow_elsewhere [OF st(5) _ _ that]) (simp_all add: isEditable_def)
  then have same: "sameElsewhere (dr_id d) db db'"
    by (auto simp: sameElsewhere_def linesOf_def st(3) filter_lineRows intro!: filter_cong)
  have "rowOf db' (dr_id d) = Some (?f row)" by (simp add: rows row(1) ed)
  moreover have "readColumns (?f row) = toInvoiceDraftRow d"
    using f(5-7) e by (intro readColumns_merge [OF ed]) (simp_all add: sameOrigin_def)
  moreover have "linesOf db' (dr_id d) = toInvoiceDraftLineRows d"
    by (simp add: linesOf_def st(3) filter_lineRows)
  ultimately have "holdsDraft db' (dr_id d) d None"
    using r e(6) row(3) by (simp add: holdsDraft_def)
  then show ?thesis
    by (rule implements_upd [OF M updateDraft_invariant [OF I u] same])
qed

lemma rowWith_filter:
  assumes "distinct (map key xs)"
  shows "rowWith key k (filter P xs) =
    (case rowWith key k xs of None \<Rightarrow> None | Some r \<Rightarrow> if P r then Some r else None)"
proof (cases "rowWith key k (filter P xs)")
  case None
  then show ?thesis
    using rowWith_Some [of key k xs] by (auto simp: rowWith_None split: option.split)
next
  case (Some r)
  then have "r \<in> set xs" "key r = k" "P r" using rowWith_Some [OF Some] by auto
  then show ?thesis using Some rowWith_distinct [OF assms] by force
qed

lemma deleteDraft_implements:
  assumes M: "implements db m" and del: "deleteDraft db co i = Inr (db', True)"
  shows "\<exists>d. m i = Some (d, None) \<and> dr_companyId d = co" "implements db' (m(i := None))"
proof -
  note I = implementsD(1) [OF M]
  from del have hits: "filter (isEditable co i) (dd_drafts db) \<noteq> []"
    and db': "dd_drafts db' = filter (\<lambda>r. \<not> isEditable co i r) (dd_drafts db)"
      "dd_lines db' = filter (\<lambda>l. lw_invoice_draft_id l \<noteq> i) (dd_lines db)"
    by (auto simp: deleteDraft_def deleteEditableDraft_def Let_def split: if_splits)
  then obtain row where row: "row \<in> set (dd_drafts db)" "isEditable co i row"
    by (auto simp: filter_empty_conv)
  have found: "rowOf db i = Some row"
    using I rowWith_distinct [of dw_id "dd_drafts db" row] row
    by (simp add: rowOf_def draftInvariant_def isEditable_def)
  show "\<exists>d. m i = Some (d, None) \<and> dr_companyId d = co"
  proof (cases "m i")
    case None
    with implementsD(2) [OF M, of i] found show ?thesis by simp
  next
    case (Some p)
    then have "holdsDraft db i (fst p) (snd p)" using implementsD(3) [OF M] by simp
    then have "dw_approved_invoice_id row = snd p" "readColumns row = toInvoiceDraftRow (fst p)"
      using found by (simp_all add: holdsDraft_def)
    with readColumns_frame(2) row(2) have "snd p = None" "dr_companyId (fst p) = co"
      by (fastforce simp: isEditable_def)+
    with Some show ?thesis by (cases p) simp
  qed
  have rows: "rowOf db' j = (case rowOf db j of None \<Rightarrow> None
      | Some r \<Rightarrow> if \<not> isEditable co i r then Some r else None)" for j
    unfolding rowOf_def db' using I by (intro rowWith_filter) (simp add: draftInvariant_def)
  have "rowOf db' j = rowOf db j" if "j \<noteq> i" for j
    using rowOf_id [of db j] that by (auto simp: rows isEditable_def split: option.split)
  then have "sameElsewhere i db db'"
    by (auto simp: sameElsewhere_def linesOf_def db' intro!: filter_cong)
  then show "implements db' (m(i := None))"
    using row(2) by (intro implements_del [OF M deleteDraft_invariant [OF I del]]) (simp_all add: rows found)
qed

text \<open>Locking and unlocking change three columns of one row.\<close>

definition stampRow :: "string option \<Rightarrow> string option \<Rightarrow> string \<Rightarrow> InvoiceDraftRow \<Rightarrow> InvoiceDraftRow" where
  "stampRow lock at t r =
     r\<lparr>dw_approved_invoice_id := lock, dw_approved_at := at, dw_updated_at := t\<rparr>"

lemma stampRow_frame [simp]:
  "dw_id (stampRow lock at t r) = dw_id r" "dw_tax_treatment (stampRow lock at t r) = dw_tax_treatment r"
  "dw_approved_invoice_id (stampRow lock at t r) = lock"
  "draftRowAccepted (stampRow lock at t r) = draftRowAccepted r"
  "lineFitsDraft (stampRow lock at t r) l = lineFitsDraft r l"
  by (simp_all add: stampRow_def draftRowAccepted_def lineFitsDraft_def)

lemma stamp_invariant:
  assumes I: "draftInvariant db" and r: "dd_drafts db' = updateRows p (stampRow lock at t) (dd_drafts db)"
    and l: "dd_lines db' = dd_lines db"
  shows "draftInvariant db'"
proof -
  have ids: "map dw_id (dd_drafts db') = map dw_id (dd_drafts db)"
    unfolding r by (rule map_updateRows) simp
  have mem: "(if p d then stampRow lock at t d else d) \<in> set (dd_drafts db')" if "d \<in> set (dd_drafts db)" for d
    using that by (auto simp: r updateRows_def)
  have "lineOwner db' x" if x: "lineOwner db x" for x
  proof -
    from x obtain d where "d \<in> set (dd_drafts db)" "dw_id d = lw_invoice_draft_id x" "lineFitsDraft d x"
      by (auto simp: lineOwner_def)
    then show ?thesis unfolding lineOwner_def by (intro bexI [OF _ mem [of d]]) simp_all
  qed
  moreover have "\<forall>x \<in> set (dd_drafts db'). draftRowAccepted x"
    using I by (auto simp: draftInvariant_def r updateRows_def)
  ultimately show ?thesis using I unfolding draftInvariant_def ids l by blast
qed

lemma toInvoiceDraftRow_stamp:
  "toInvoiceDraftRow (d\<lparr>dr_updatedAt := t\<rparr>) = (toInvoiceDraftRow d)\<lparr>dw_updated_at := t\<rparr>"
  "toInvoiceDraftLineRows (d\<lparr>dr_updatedAt := t\<rparr>) = toInvoiceDraftLineRows d"
  "readableDraft (d\<lparr>dr_updatedAt := t\<rparr>) = readableDraft d"
  by (simp_all add: toInvoiceDraftRow_def toInvoiceDraftLineRows_def readableDraft_def storableDraft_def Let_def)

lemma readColumns_stamp:
  "readColumns row = x \<Longrightarrow> readColumns (stampRow lock at t row) = x\<lparr>dw_updated_at := t\<rparr>"
  by (auto simp: readColumns_def stampRow_def)

lemma stamp_implements:
  assumes M: "implements db m" and r: "dd_drafts db' = updateRows p (stampRow lock at t) (dd_drafts db)"
    and l: "dd_lines db' = dd_lines db"
    and p: "\<And>r. p r \<Longrightarrow> dw_id r = i" and row: "rowOf db i = Some row" "p row"
  shows "\<exists>d. m i = Some (d, dw_approved_invoice_id row) \<and> dr_companyId d = dw_company_id row \<and>
    implements db' (m(i \<mapsto> (d\<lparr>dr_updatedAt := t\<rparr>, lock)))"
proof -
  note I = implementsD(1) [OF M]
  have "m i \<noteq> None" using implementsD(2) [OF M, of i] row(1) by (metis option.distinct(1))
  then obtain d k where d: "m i = Some (d, k)" by (metis not_None_eq surj_pair)
  then have h: "holdsDraft db i d k" using implementsD(3) [OF M] by blast
  then have hd: "readColumns row = toInvoiceDraftRow d" "k = dw_approved_invoice_id row"
      "linesOf db i = toInvoiceDraftLineRows d" "dr_id d = i" "dr_status d = ''draft''" "readableDraft d"
    using row(1) by (auto simp: holdsDraft_def)
  have new: "rowOf db' i = Some (stampRow lock at t row)"
    using row by (simp add: rowOf_updateRows [OF r])
  have same: "sameElsewhere i db db'"
    using updatedRow_elsewhere [OF r _ p] by (simp add: sameElsewhere_def linesOf_def l)
  have "holdsDraft db' i (d\<lparr>dr_updatedAt := t\<rparr>) lock"
    using hd readColumns_stamp [OF hd(1)]
    by (simp add: holdsDraft_def new toInvoiceDraftRow_stamp linesOf_def l)
  from implements_upd [OF M stamp_invariant [OF I r l] same this] d hd readColumns_frame(2) [OF hd(1)]
  show ?thesis by auto
qed

lemma hit_rowOf:
  assumes "draftInvariant db" "length (filter p (dd_drafts db)) = 1" "\<And>r. p r \<Longrightarrow> dw_id r = i"
  obtains row where "rowOf db i = Some row" "p row"
proof -
  from assms(2) obtain row where "row \<in> set (filter p (dd_drafts db))"
    by (metis length_greater_0_conv zero_less_one list.set_intros(1) neq_Nil_conv)
  then have "row \<in> set (dd_drafts db)" "p row" by auto
  with assms(1,3) rowWith_distinct [of dw_id "dd_drafts db" row] show thesis
    by (intro that [of row]) (auto simp: rowOf_def draftInvariant_def)
qed

lemma markDraftApproved_implements:
  assumes M: "implements db m" and a: "markDraftApproved db co i invId t = Inr db'"
  shows "\<exists>d. m i = Some (d, None) \<and> dr_companyId d = co \<and>
    implements db' (m(i \<mapsto> (d\<lparr>dr_updatedAt := t\<rparr>, Some invId)))"
proof -
  from a have one: "length (filter (isEditable co i) (dd_drafts db)) = 1"
    and db': "dd_drafts db' = updateRows (isEditable co i) (stampRow (Some invId) (Some t) t) (dd_drafts db)"
      "dd_lines db' = dd_lines db"
    by (auto simp: markDraftApproved_def Let_def stampRow_def [abs_def] split: if_splits)
  obtain row where row: "rowOf db i = Some row" "isEditable co i row"
    by (rule hit_rowOf [OF implementsD(1) [OF M] one]) (simp_all add: isEditable_def)
  from stamp_implements [OF M db' _ row] row(2) show ?thesis by (auto simp: isEditable_def)
qed

lemma unlockSourceDraft_implements:
  assumes M: "implements db m" and u: "unlockSourceDraftForEditing db co i invId t = Inr db'"
  shows "\<exists>d. m i = Some (d, Some invId) \<and> dr_companyId d = co \<and>
    implements db' (m(i \<mapsto> (d\<lparr>dr_updatedAt := t\<rparr>, None)))"
proof -
  from u have one: "length (filter (isLockedBy co i invId) (dd_drafts db)) = 1"
    and db': "dd_drafts db' = updateRows (isLockedBy co i invId) (stampRow None None t) (dd_drafts db)"
      "dd_lines db' = dd_lines db"
    by (auto simp: unlockSourceDraftForEditing_def Let_def stampRow_def [abs_def] split: if_splits)
  obtain row where row: "rowOf db i = Some row" "isLockedBy co i invId row"
    by (rule hit_rowOf [OF implementsD(1) [OF M] one]) (simp_all add: isLockedBy_def)
  from stamp_implements [OF M db' _ row] row(2) show ?thesis by (auto simp: isLockedBy_def)
qed

section \<open>Histories\<close>

definition emptyDraftDatabase :: DraftDatabase where
  "emptyDraftDatabase =
     \<lparr>dd_drafts = [], dd_lines = [], dd_invoiceIds = [], dd_invoiceLineIds = [], dd_sourceDraftIds = []\<rparr>"

text \<open>
  The requests of clients with the map they build. The clock readings are time values;
  approvals and reopenings pass a time stamp that \<open>toISOString\<close> printed. A credit draft is created
  and updated with any content its rows determine (lines in the price mode of the draft and in
  the order of their positions, which is how the credit workflow prepares them); only
  invoices made from standard drafts are reopened (\<open>getApprovedInvoiceForReopen\<close>). Other
  tables change freely.
\<close>

inductive draftHistory :: "DraftDatabase \<Rightarrow> draft_map \<Rightarrow> bool" where
  empty: "draftHistory emptyDraftDatabase Map.empty"
| save: "draftHistory db m \<Longrightarrow> timeClip now \<noteq> None \<Longrightarrow>
    saveInvoiceDraft deps draftId lineId now db companyId input = Inr (db', d) \<Longrightarrow>
    draftHistory db' (m(draftId \<mapsto> (d, None)))"
| update: "draftHistory db m \<Longrightarrow> timeClip now \<noteq> None \<Longrightarrow>
    updateInvoiceDraft deps other lineId now db companyId draftId input = Inr (db', d) \<Longrightarrow>
    draftHistory db' (m(trim draftId \<mapsto> (d, None)))"
| createCredit: "draftHistory db m \<Longrightarrow> dr_invoiceKind d = CreditKind \<Longrightarrow> storableDraft d \<Longrightarrow>
    createCreditDraft invoiceNumber db d sourceInvoiceId = Inr (db', r) \<Longrightarrow>
    draftHistory db' (if r = CreditDraftCreated (dr_id d) then m(dr_id d \<mapsto> (d, None)) else m)"
| updateCredit: "draftHistory db m \<Longrightarrow> getDraftById db companyId draftId = Inr (Some e) \<Longrightarrow>
    dr_invoiceKind e = CreditKind \<Longrightarrow>
    prepareUpdatedCreditDraft e sourceTaxTreatment sourcePeriod content subject note' refundIban
      updatedAt = Inr d \<Longrightarrow>
    storableDraft d \<Longrightarrow> updateDraft db d = Inr (db', Some d') \<Longrightarrow>
    draftHistory db' (m(draftId \<mapsto> (d, None)))"
| delete: "draftHistory db m \<Longrightarrow> deleteInvoiceDraft db companyId draftId = Inr db' \<Longrightarrow>
    draftHistory db' (m(trim draftId := None))"
| approve: "draftHistory db m \<Longrightarrow> timeClip t \<noteq> None \<Longrightarrow>
    markDraftApproved db companyId draftId invoiceId (toISOString t) = Inr db' \<Longrightarrow>
    m draftId = Some (d, None) \<Longrightarrow>
    draftHistory db' (m(draftId \<mapsto> (d\<lparr>dr_updatedAt := toISOString t\<rparr>, Some invoiceId)))"
| reopen: "draftHistory db m \<Longrightarrow> timeClip t \<noteq> None \<Longrightarrow>
    unlockSourceDraftForEditing db companyId draftId invoiceId (toISOString t) = Inr db' \<Longrightarrow>
    m draftId = Some (d, Some invoiceId) \<Longrightarrow> dr_invoiceKind d = StandardKind \<Longrightarrow>
    draftHistory db' (m(draftId \<mapsto> (d\<lparr>dr_updatedAt := toISOString t\<rparr>, None)))"
| others: "draftHistory db m \<Longrightarrow>
    draftHistory (db\<lparr>dd_invoiceIds := is, dd_invoiceLineIds := ls, dd_sourceDraftIds := ds\<rparr>) m"

lemma saveInvoiceDraft_implements:
  assumes M: "implements db m"
    and s: "saveInvoiceDraft deps draftId lineId now db companyId input = Inr (db', d)"
  shows "implements db' (m(draftId \<mapsto> (d, None)))" "dr_updatedAt d = toISOString now"
    "dr_invoiceKind d = StandardKind"
proof -
  from s obtain c input' where c: "prepareInvoiceDraftContent lineId input' = Inr c"
    and d: "d = PreparedInvoiceDraftContent.extend c (InvoiceDraft.fields draftId (dr_companyId d)
           StandardKind None [] ''draft'' (toISOString now) (toISOString now))"
    and sv: "saveDraft db d = Inr (db', d)"
    by (rule saveInvoiceDraft_cases)
  have r: "readableDraft d" by (subst d) (rule prepared_readable [OF c])
  have "dr_id d = draftId" by (subst d) simp
  with saveDraft_implements(2) [OF M sv r] show "implements db' (m(draftId \<mapsto> (d, None)))" by simp
  show "dr_updatedAt d = toISOString now" "dr_invoiceKind d = StandardKind" by (subst d, simp)+
qed

text \<open>An update keeps the identity of the draft it changes.\<close>

definition sameIdentity :: "InvoiceDraft \<Rightarrow> InvoiceDraft \<Rightarrow> bool" where
  "sameIdentity e d \<longleftrightarrow>
     dr_id d = dr_id e \<and> dr_companyId d = dr_companyId e \<and> dr_createdAt d = dr_createdAt e \<and>
     dr_invoiceKind d = dr_invoiceKind e \<and> dr_creditedInvoiceId d = dr_creditedInvoiceId e"

lemma updateInvoiceDraft_implements:
  assumes M: "implements db m"
    and u: "updateInvoiceDraft deps other lineId now db companyId draftId input = Inr (db', d)"
  shows "\<exists>e. m (trim draftId) = Some (e, None) \<and> sameIdentity e d \<and> dr_invoiceKind e = StandardKind \<and>
    createNextUpdatedAt other now (dr_updatedAt e) = Inr (dr_updatedAt d) \<and>
    requireIdentifier companyId ''Company id'' = Inr (dr_companyId e) \<and>
    requireDraftIdentifier draftId = Inr (trim draftId) \<and>
    implements db' (m(trim draftId \<mapsto> (d, None)))"
  using u
proof (rule updateInvoiceDraft_cases)
  fix e c u input'
  assume co: "requireIdentifier companyId ''Company id'' = Inr (dr_companyId e)"
    and i: "requireDraftIdentifier draftId = Inr (dr_id e)"
    and g: "getDraftById db (dr_companyId e) (dr_id e) = Inr (Some e)"
    and kind: "dr_invoiceKind e = StandardKind"
    and c: "prepareInvoiceDraftContent lineId input' = Inr c"
    and next': "createNextUpdatedAt other now (dr_updatedAt e) = Inr u"
    and up: "updateDraft db (updatedDraft e c u) = Inr (db', Some d)"
  from i have ti: "dr_id e = trim draftId" by (simp add: requireDraftIdentifier_ok)
  from getDraftById_implements [OF M g] obtain e' b where
    e': "m (dr_id e) = Some (e', None)" "dr_companyId e' = dr_companyId e" "dr_id e' = dr_id e"
      "e = e'\<lparr>pd_totals := (pd_totals e')\<lparr>vatBreakdown := b\<rparr>\<rparr>" by blast
  have like: "dr_createdAt e' = dr_createdAt e" "dr_invoiceKind e' = dr_invoiceKind e"
    "dr_creditedInvoiceId e' = dr_creditedInvoiceId e" "dr_updatedAt e' = dr_updatedAt e"
    by (subst e'(4), simp)+
  obtain row where "getEditableDraft db (dr_companyId e) (dr_id e) = Some row"
    using g by (rule getDraftById_Some)
  with updateDraft_state(1) [OF implementsD(1) [OF M] up, of row] have d: "d = updatedDraft e c u" by simp
  have r: "readableDraft d" unfolding d updatedDraft_def by (rule prepared_readable [OF c])
  have "implements db' (m(dr_id d \<mapsto> (d, None)))"
    by (rule updateDraft_implements [OF M up [folded d] r, of e'])
      (simp_all add: d e'(1-3) like(1-3))
  then show ?thesis
    using e'(1-3) like kind next' co i
    by (intro exI [of _ e']) (simp add: d sameIdentity_def ti)
qed

lemma createCreditDraft_implements:
  assumes M: "implements db m" and k: "dr_invoiceKind d = CreditKind" "storableDraft d"
    and c: "createCreditDraft invoiceNumber db d sourceInvoiceId = Inr (db', r)"
  shows "implements db' (if r = CreditDraftCreated (dr_id d) then m(dr_id d \<mapsto> (d, None)) else m)"
proof (cases "r = CreditDraftCreated (dr_id d)")
  case True
  with c have "saveDraft db d = Inr (db', d)"
    by (auto simp: createCreditDraft_def saveDraft_def andThen_eq_Inr split: option.splits)
  from saveDraft_implements(2) [OF M this] k True show ?thesis by (simp add: readableDraft_def)
next
  case False
  with c have "db' = db" by (auto simp: createCreditDraft_def andThen_eq_Inr split: option.splits)
  with M False show ?thesis by simp
qed

lemma updateCreditDraft_implements:
  assumes M: "implements db m" and g: "getDraftById db companyId draftId = Inr (Some e)"
    and k: "dr_invoiceKind e = CreditKind" "storableDraft d"
    and p: "prepareUpdatedCreditDraft e sourceTaxTreatment sourcePeriod content subject note' refundIban
      updatedAt = Inr d"
    and u: "updateDraft db d = Inr (db', Some d')"
  shows "implements db' (m(draftId \<mapsto> (d, None)))"
proof -
  from getDraftById_implements [OF M g] obtain e' b where
    e': "m draftId = Some (e', None)" "dr_companyId e' = companyId" "dr_id e' = draftId"
      "e = e'\<lparr>pd_totals := (pd_totals e')\<lparr>vatBreakdown := b\<rparr>\<rparr>" by blast
  have like: "dr_id d = dr_id e" "dr_companyId d = dr_companyId e" "dr_createdAt d = dr_createdAt e"
    "dr_invoiceKind d = dr_invoiceKind e" "dr_creditedInvoiceId d = dr_creditedInvoiceId e"
    "dr_status d = dr_status e"
    using p by (auto simp: prepareUpdatedCreditDraft_def andThen_eq_Inr split: if_splits)
  have like': "dr_id e = dr_id e'" "dr_companyId e = dr_companyId e'" "dr_createdAt e = dr_createdAt e'"
    "dr_invoiceKind e = dr_invoiceKind e'" "dr_creditedInvoiceId e = dr_creditedInvoiceId e'"
    "dr_status e = dr_status e'"
    by (subst e'(4), simp)+
  have "dr_status e' = ''draft''"
    using implementsD(3) [OF M e'(1)] by (simp add: holdsDraft_def)
  then have "implements db' (m(dr_id d \<mapsto> (d, None)))"
    using k like like' e'(1-3)
    by (intro updateDraft_implements [OF M u, of e']) (simp_all add: readableDraft_def)
  then show ?thesis using like(1) like'(1) e'(3) by simp
qed

lemma deleteInvoiceDraft_implements:
  assumes M: "implements db m" and del: "deleteInvoiceDraft db companyId draftId = Inr db'"
  shows "implements db' (m(trim draftId := None))"
proof -
  from del obtain co i where "requireDraftIdentifier draftId = Inr i" "deleteDraft db co i = Inr (db', True)"
    by (auto simp: deleteInvoiceDraft_def andThen_eq_Inr split: prod.splits if_splits)
  with deleteDraft_implements(2) [OF M] show ?thesis by (auto simp: requireDraftIdentifier_ok)
qed

lemma others_implements:
  assumes "implements db m"
  shows "implements (db\<lparr>dd_invoiceIds := is, dd_invoiceLineIds := ls, dd_sourceDraftIds := ds\<rparr>) m"
proof -
  let ?db = "db\<lparr>dd_invoiceIds := is, dd_invoiceLineIds := ls, dd_sourceDraftIds := ds\<rparr>"
  have "draftInvariant ?db = draftInvariant db" by (simp add: draftInvariant_def lineOwner_def)
  moreover have "slotHolds ?db i x = slotHolds db i x" for i x
    by (rule slotHolds_cong) (simp_all add: rowOf_def linesOf_def)
  ultimately show ?thesis using assms by (simp add: implements_def)
qed

lemma empty_implements: "implements emptyDraftDatabase Map.empty"
  by (simp add: implements_def draftInvariant_def emptyDraftDatabase_def slotHolds_def rowOf_def rowWith_def)

theorem history_implements: "draftHistory db m \<Longrightarrow> implements db m"
proof (induction rule: draftHistory.induct)
  case empty
  show ?case by (rule empty_implements)
next
  case (save db m now deps draftId lineId companyId input db' d)
  then show ?case using saveInvoiceDraft_implements(1) by blast
next
  case (update db m now deps other lineId companyId draftId input db' d)
  then show ?case using updateInvoiceDraft_implements by blast
next
  case (createCredit db m d invoiceNumber sourceInvoiceId db' r)
  then show ?case using createCreditDraft_implements by blast
next
  case (updateCredit db m companyId draftId e sourceTaxTreatment sourcePeriod content subject note'
      refundIban updatedAt d db' d')
  then show ?case using updateCreditDraft_implements by blast
next
  case (delete db m companyId draftId db')
  then show ?case using deleteInvoiceDraft_implements by blast
next
  case (approve db m t companyId draftId invoiceId db' d)
  from markDraftApproved_implements [OF approve.IH approve.hyps(3)] approve.hyps(4) show ?case
    by (auto simp del: fun_upd_apply)
next
  case (reopen db m t companyId draftId invoiceId db' d)
  from unlockSourceDraft_implements [OF reopen.IH reopen.hyps(3)] reopen.hyps(4) show ?case
    by (auto simp del: fun_upd_apply)
next
  case (others db m "is" ls ds)
  then show ?case by (intro others_implements)
qed

text \<open>The last change of every standard draft of a history has a printed time stamp.\<close>

lemma history_stamps:
  "draftHistory db m \<Longrightarrow> m i = Some (d, lock) \<Longrightarrow> dr_invoiceKind d = StandardKind \<Longrightarrow>
     (\<exists>p. timeClip p \<noteq> None \<and> dr_updatedAt d = toISOString p)"
proof (induction arbitrary: i d lock rule: draftHistory.induct)
  case (save db m now deps draftId lineId companyId input db' d')
  have "dr_updatedAt d' = toISOString now" "dr_invoiceKind d' = StandardKind"
    using saveInvoiceDraft_implements(2,3) [OF history_implements [OF save.hyps(1)] save.hyps(3)] by auto
  with save show ?case by (auto split: if_splits)
next
  case (update db m now deps other lineId companyId draftId input db' d')
  from updateInvoiceDraft_implements [OF history_implements [OF update.hyps(1)] update.hyps(3)]
  obtain e where e: "m (trim draftId) = Some (e, None)" "sameIdentity e d'" "dr_invoiceKind e = StandardKind"
    "createNextUpdatedAt other now (dr_updatedAt e) = Inr (dr_updatedAt d')" by blast
  from update.IH [OF e(1,3)] obtain p where "timeClip p \<noteq> None" "dr_updatedAt e = toISOString p" by blast
  with e(4) createNextUpdatedAt_advances [of p other now "dr_updatedAt d'"]
  have "dr_updatedAt d' = toISOString (max now (p + 1)) \<and> timeClip (max now (p + 1)) \<noteq> None" by simp
  with e(2,3) update show ?case by (auto simp: sameIdentity_def split: if_splits)
next
  case (createCredit db m d' invoiceNumber sourceInvoiceId db' r)
  then show ?case by (auto split: if_splits)
next
  case (updateCredit db m companyId draftId e sourceTaxTreatment sourcePeriod content subject note'
      refundIban updatedAt d' db' d'')
  have "dr_invoiceKind d' = CreditKind"
    using updateCredit.hyps(3,4)
    by (auto simp: prepareUpdatedCreditDraft_def andThen_eq_Inr split: if_splits)
  with updateCredit show ?case by (auto split: if_splits)
next
  case (delete db m companyId draftId db')
  then show ?case by (auto split: if_splits)
next
  case (approve db m t companyId draftId invoiceId db' d')
  then show ?case by (fastforce split: if_splits)
next
  case (reopen db m t companyId draftId invoiceId db' d')
  then show ?case by (fastforce split: if_splits)
qed auto

end
