(* ===== verification/DraftProperties.thy ===== *)
theory DraftProperties
  imports DraftRefinement
begin

text \<open>The properties of invoice drafts and the examples that witness them.\<close>

text \<open>The rows after the statements that delete a draft.\<close>

definition withoutDraft :: "string \<Rightarrow> string \<Rightarrow> DraftDatabase \<Rightarrow> DraftDatabase" where
  "withoutDraft co i db =
     db\<lparr>dd_drafts := filter (\<lambda>r. \<not> isEditable co i r) (dd_drafts db),
        dd_lines := filter (\<lambda>l. lw_invoice_draft_id l \<noteq> i) (dd_lines db)\<rparr>"

lemma delete_cases:
  assumes I: "draftInvariant db"
  shows "deleteDraft db co i =
    (if getEditableDraft db co i = None then Inr (db, False)
     else if i \<in> set (dd_sourceDraftIds db) then Inl (SqliteError ''FOREIGN KEY constraint failed'')
     else Inr (withoutDraft co i db, True))"
proof -
  let ?hits = "filter (isEditable co i) (dd_drafts db)"
  have none: "getEditableDraft db co i = None \<longleftrightarrow> ?hits = []"
    by (auto simp: getEditableDraft_def find_None_iff filter_empty_conv)
  have d: "distinct (map dw_id ?hits)" using I by (simp add: draftInvariant_def distinct_map_filter)
  have "set (map dw_id ?hits) \<subseteq> {i}" by (auto simp: isEditable_def)
  then have "card (set (map dw_id ?hits)) \<le> 1" using card_mono [of "{i}"] by fastforce
  then have "length ?hits \<le> 1" unfolding distinct_card [OF d] by simp
  then have "length ?hits = 1" if "?hits \<noteq> []" using that by (cases ?hits) auto
  then show ?thesis
    unfolding deleteDraft_def deleteEditableDraft_def Let_def none by (simp add: withoutDraft_def)
qed

lemma visible_iff:
  assumes "implements db m"
  shows "getEditableDraft db co i \<noteq> None \<longleftrightarrow> (\<exists>d. m i = Some (d, None) \<and> dr_companyId d = co)"
proof (cases "m i")
  case None
  then show ?thesis
    using implementsD(2) [OF assms] getEditableDraft_rowOf [OF implementsD(1) [OF assms]] by simp
next
  case (Some p)
  obtain d lock where p: "p = (d, lock)" by (cases p)
  have "holdsDraft db i d lock" using implementsD(3) [OF assms] Some p by blast
  from holdsDraft_read [OF implementsD(1) [OF assms] this] obtain row where
    row: "rowOf db i = Some row" "dw_approved_invoice_id row = lock" "dw_company_id row = dr_companyId d"
      "dw_status row = ''draft''" "dw_id row = i" by blast
  then show ?thesis
    unfolding getEditableDraft_rowOf [OF implementsD(1) [OF assms]] by (auto simp: isEditable_def Some p)
qed

lemma deleted_rows:
  assumes "implements db' (m(i := None))"
  shows "i \<notin> dw_id ` set (dd_drafts db')" "i \<notin> lw_invoice_draft_id ` set (dd_lines db')"
proof -
  have none: "rowOf db' i = None" using implementsD(2) [OF assms, of i] by simp
  then show rows: "i \<notin> dw_id ` set (dd_drafts db')" by (auto simp: rowOf_def rowWith_None)
  show "i \<notin> lw_invoice_draft_id ` set (dd_lines db')"
  proof
    assume "i \<in> lw_invoice_draft_id ` set (dd_lines db')"
    then obtain l where "l \<in> set (dd_lines db')" "lw_invoice_draft_id l = i" by auto
    then obtain r where "r \<in> set (dd_drafts db')" "dw_id r = i"
      using implementsD(1) [OF assms] unfolding draftInvariant_def lineOwner_def by blast
    with rows show False by auto
  qed
qed

text \<open>Whether a request is for another draft shows in the identifier it is reduced to.\<close>

lemma deleted_reads:
  assumes M: "implements db m" and M': "implements db' (m(i := None))" and other: "trim draftId \<noteq> i"
  shows "getInvoiceDraft db' companyId draftId = getInvoiceDraft db companyId draftId"
proof (cases "requireIdentifier companyId ''Company id''")
  case (Inr co)
  show ?thesis
  proof (cases "requireDraftIdentifier draftId")
    case id: (Inr j)
    then have "j \<noteq> i" using other by (simp add: requireDraftIdentifier_ok)
    then show ?thesis
      unfolding getInvoiceDraft_lookup [OF M Inr id] getInvoiceDraft_lookup [OF M' Inr id]
      by (simp add: lookupDraft_def)
  qed (simp add: getInvoiceDraft_def Inr)
qed (simp add: getInvoiceDraft_def)

section \<open>Properties\<close>

text \<open>
  C31: The draft requests over the tables behave as one map. After any history of saving,
  updating, deleting, approving and reopening standard drafts and of creating, updating,
  deleting and approving credit drafts, reading a draft returns exactly the draft the map
  holds (the last one saved or updated under its identifier, with totals calculated again
  from its lines), not found for a draft of another company, a deleted one or one that an
  approved invoice locks, and a validation error for a credit draft.
\<close>

theorem draft_requests_refine_map:
  assumes "draftHistory db m" "requireIdentifier companyId ''Company id'' = Inr co"
    and "requireDraftIdentifier draftId = Inr i"
  shows "getInvoiceDraft db companyId draftId =
    (case m i of
       None \<Rightarrow> Inl InvoiceDraftNotFoundError
     | Some (d, lock) \<Rightarrow>
         if lock \<noteq> None \<or> dr_companyId d \<noteq> co then Inl InvoiceDraftNotFoundError
         else if dr_invoiceKind d = StandardKind then Inr d
         else Inl (InvoiceDraftValidationError
           ''Credit invoice drafts use the credit correction workflow.''))"
  using getInvoiceDraft_lookup [OF history_implements [OF assms(1)] assms(2,3)]
  by (auto simp: lookupDraft_def split: option.splits)

definition exampleDraftInput :: InvoiceDraftContentInput where
  "exampleDraftInput =
     \<lparr>di_customerId = ''c1'', di_billingRecipientCustomerId = None, di_invoiceDate = ''2026-01-15'',
      di_dueDate = None, di_paymentTermDays = Some 14, di_reminderPeriodDays = None,
      di_latePaymentInterestBasisPoints = None, di_priceInputMode = Net, di_taxTreatment = None,
      di_performancePeriod = None, di_subject = Some '' work '', di_orderNumber = None,
      di_note = None, di_deliveryAddressText = None,
      di_lines = [\<lparr>li_code = None, li_description = ''hours'', li_quantityHundredths = 150,
        li_unit = ''h'', li_unitPriceCents = 5000, li_vatRateBasisPoints = Some 2550,
        li_discount = NoDiscount\<rparr>]\<rparr>"

definition exampleDependencies :: InvoiceDraftDependencies where
  "exampleDependencies =
     \<lparr>dp_belongsToCompany = (\<lambda>customer company. customer = ''c1'' \<and> company = ''acme''),
      dp_getTaxProfile = (\<lambda>customer company. None), dp_getSettings = (\<lambda>company. None)\<rparr>"

definition valueOf :: "'e + 'a \<Rightarrow> 'a" where
  "valueOf r = (case r of Inr x \<Rightarrow> x | Inl e \<Rightarrow> undefined)"

definition yields :: "('a \<Rightarrow> 'b) \<Rightarrow> 'b \<Rightarrow> 'e + 'a \<Rightarrow> bool" where
  "yields f y r = (case r of Inl e \<Rightarrow> False | Inr x \<Rightarrow> f x = y)"

lemma valueOf_Inr [simp]: "valueOf (Inr x) = x"
  by (simp add: valueOf_def)

lemma yields_iff: "yields f y r \<longleftrightarrow> (\<exists>x. r = Inr x \<and> f x = y)"
  by (cases r) (simp_all add: yields_def)

definition exampleSave :: "(DraftDatabase \<times> InvoiceDraft) result" where
  "exampleSave =
     saveInvoiceDraft exampleDependencies ''d1'' (\<lambda>i. ''l1'') 1768464000000 emptyDraftDatabase ''acme''
       exampleDraftInput"

lemma exampleSave_ok: "succeeds exampleSave"
  by code_simp

lemma example_history:
  "draftHistory (fst (valueOf exampleSave)) [''d1'' \<mapsto> (snd (valueOf exampleSave), None)]"
proof -
  obtain db d where ok: "exampleSave = Inr (db, d)"
    using exampleSave_ok unfolding succeeds_iff by auto
  have "draftHistory db [''d1'' \<mapsto> (d, None)]"
    by (rule draftHistory.save [OF draftHistory.empty _ ok [unfolded exampleSave_def]])
      (simp add: timeClip_def)
  then show ?thesis unfolding ok valueOf_Inr by simp
qed

lemma yields_valueOf: "yields f y r \<Longrightarrow> f (valueOf r) = y"
  unfolding yields_iff by auto

lemma exampleSave_fields:
  "dr_companyId (snd (valueOf exampleSave)) = ''acme''"
  "dr_invoiceKind (snd (valueOf exampleSave)) = StandardKind"
proof -
  have "yields (\<lambda>p. dr_companyId (snd p)) ''acme'' exampleSave" by code_simp
  then show "dr_companyId (snd (valueOf exampleSave)) = ''acme''" by (rule yields_valueOf)
  have "yields (\<lambda>p. dr_invoiceKind (snd p)) StandardKind exampleSave" by code_simp
  then show "dr_invoiceKind (snd (valueOf exampleSave)) = StandardKind" by (rule yields_valueOf)
qed

theorem draft_requests_refine_map_witness:
  "getInvoiceDraft (fst (valueOf exampleSave)) '' acme'' ''d1'' = Inr (snd (valueOf exampleSave)) \<and>
   getInvoiceDraft (fst (valueOf exampleSave)) ''other'' ''d1'' = Inl InvoiceDraftNotFoundError"
proof -
  have id: "requireDraftIdentifier ''d1'' = Inr ''d1''" by code_simp
  have co: "requireIdentifier '' acme'' ''Company id'' = Inr ''acme''"
    "requireIdentifier ''other'' ''Company id'' = Inr ''other''" by code_simp+
  show ?thesis
    using draft_requests_refine_map [OF example_history co(1) id]
      draft_requests_refine_map [OF example_history co(2) id] exampleSave_fields by simp
qed

text \<open>
  C32: An update replaces the content of a draft and nothing of its identity, and its time
  stamp advances strictly even when the clock went back: with \<open>p\<close> the time of the last
  change and \<open>now\<close> the clock, the new time is the larger of \<open>now\<close> and \<open>p + 1\<close>. Reading returns
  the updated draft.
\<close>

theorem update_advances_draft:
  assumes "draftHistory db m"
    and "updateInvoiceDraft deps other lineId now db companyId draftId input = Inr (db', d)"
  shows "\<exists>e p. getInvoiceDraft db companyId draftId = Inr e \<and> dr_updatedAt e = toISOString p \<and>
    dr_updatedAt d = toISOString (max now (p + 1)) \<and> dr_id d = dr_id e \<and>
    dr_companyId d = dr_companyId e \<and> dr_createdAt d = dr_createdAt e \<and>
    getInvoiceDraft db' companyId draftId = Inr d"
proof -
  note M = history_implements [OF assms(1)]
  obtain e where e: "m (trim draftId) = Some (e, None)" "sameIdentity e d" "dr_invoiceKind e = StandardKind"
      "createNextUpdatedAt other now (dr_updatedAt e) = Inr (dr_updatedAt d)"
    and ids: "requireIdentifier companyId ''Company id'' = Inr (dr_companyId e)"
      "requireDraftIdentifier draftId = Inr (trim draftId)"
    and M': "implements db' (m(trim draftId \<mapsto> (d, None)))"
    using updateInvoiceDraft_implements [OF M assms(2)] by blast
  obtain p where p: "timeClip p \<noteq> None" "dr_updatedAt e = toISOString p"
    using history_stamps [OF assms(1) e(1,3)] by blast
  have "dr_updatedAt d = toISOString (max now (p + 1))"
    using createNextUpdatedAt_advances [OF p(1)] e(4) p(2) by simp
  moreover have "getInvoiceDraft db companyId draftId = Inr e"
    using e(1,3) by (simp add: getInvoiceDraft_lookup [OF M ids] lookupDraft_def)
  moreover have "getInvoiceDraft db' companyId draftId = Inr d"
    using e(2,3) by (simp add: getInvoiceDraft_lookup [OF M' ids] lookupDraft_def sameIdentity_def)
  ultimately show ?thesis using e(2) p(2) unfolding sameIdentity_def by blast
qed

definition exampleDraftUpdate :: "(DraftDatabase \<times> InvoiceDraft) result" where
  "exampleDraftUpdate =
     updateInvoiceDraft exampleDependencies (\<lambda>s. None) (\<lambda>i. ''l2'') 1768463999000
       (fst (valueOf exampleSave)) ''acme'' ''d1'' (exampleDraftInput\<lparr>di_subject := None\<rparr>)"

lemma exampleDraftUpdate_ok: "yields (\<lambda>p. dr_updatedAt (snd p)) ''2026-01-15T08:00:00.001Z'' exampleDraftUpdate"
  by code_simp

theorem update_advances_draft_witness:
  "\<exists>db d. exampleDraftUpdate = Inr (db, d) \<and> getInvoiceDraft db ''acme'' ''d1'' = Inr d \<and>
     dr_updatedAt d = ''2026-01-15T08:00:00.001Z''"
proof -
  obtain db d where ok: "exampleDraftUpdate = Inr (db, d)" "dr_updatedAt d = ''2026-01-15T08:00:00.001Z''"
    using exampleDraftUpdate_ok unfolding yields_iff by auto
  from update_advances_draft [OF example_history ok(1) [unfolded exampleDraftUpdate_def]] ok
  show ?thesis by blast
qed

text \<open>
  C33: Deleting a draft, standard or credit, over any history of both. An editable draft of the
  company from which no invoice was made is deleted with all its lines; afterwards it is not
  found, and no other draft reads differently. A credit draft is deleted too, although reading
  refuses it; a standard draft is one that reading returns. For a draft that came back from a
  reopened invoice the foreign key of the invoice refuses the statement, so the request ends
  with a database error. Anything else is not found, by deleting as by reading.
\<close>

theorem delete_draft_exact:
  assumes "draftHistory db m" "requireIdentifier companyId ''Company id'' = Inr co"
    and "requireDraftIdentifier draftId = Inr i"
  shows "case m i of
      Some (d, None) \<Rightarrow>
        if dr_companyId d \<noteq> co then
          deleteInvoiceDraft db companyId draftId = Inl InvoiceDraftNotFoundError
        else if i \<in> set (dd_sourceDraftIds db) then
          deleteInvoiceDraft db companyId draftId = Inl (SqliteError ''FOREIGN KEY constraint failed'')
        else (\<exists>db'. deleteInvoiceDraft db companyId draftId = Inr db' \<and>
          getInvoiceDraft db companyId draftId =
            (if dr_invoiceKind d = StandardKind then Inr d
             else Inl (InvoiceDraftValidationError
               ''Credit invoice drafts use the credit correction workflow.'')) \<and>
          getInvoiceDraft db' companyId draftId = Inl InvoiceDraftNotFoundError \<and>
          i \<notin> dw_id ` set (dd_drafts db') \<and> i \<notin> lw_invoice_draft_id ` set (dd_lines db') \<and>
          (\<forall>otherCompany other. trim other \<noteq> i \<longrightarrow>
             getInvoiceDraft db' otherCompany other = getInvoiceDraft db otherCompany other))
    | _ \<Rightarrow> deleteInvoiceDraft db companyId draftId = Inl InvoiceDraftNotFoundError \<and>
        getInvoiceDraft db companyId draftId = Inl InvoiceDraftNotFoundError"
proof -
  note M = history_implements [OF assms(1)] and ids = assms(2,3)
  note I = implementsD(1) [OF M]
  note read = getInvoiceDraft_lookup [OF M ids]
  have del: "deleteInvoiceDraft db companyId draftId =
      (if \<not> (\<exists>d. m i = Some (d, None) \<and> dr_companyId d = co) then Inl InvoiceDraftNotFoundError
       else if i \<in> set (dd_sourceDraftIds db) then Inl (SqliteError ''FOREIGN KEY constraint failed'')
       else Inr (withoutDraft co i db))"
    unfolding visible_iff [OF M, symmetric] deleteInvoiceDraft_def ids andThen_Inr
    using delete_cases [OF I, of co i] by simp
  show ?thesis
  proof (cases "\<exists>d. m i = Some (d, None) \<and> dr_companyId d = co \<and> i \<notin> set (dd_sourceDraftIds db)")
    case True
    then obtain d where d: "m i = Some (d, None)" "dr_companyId d = co" "i \<notin> set (dd_sourceDraftIds db)"
      by blast
    have "deleteDraft db co i = Inr (withoutDraft co i db, True)"
      using delete_cases [OF I, of co i] visible_iff [OF M, of co i] d by simp
    note M' = deleteDraft_implements(2) [OF M this]
    show ?thesis
      using d del read deleted_reads [OF M M'] deleted_rows [OF M'] getInvoiceDraft_lookup [OF M' ids]
      by (auto simp: lookupDraft_def)
  next
    case False
    then show ?thesis
      using del read by (auto simp: lookupDraft_def split: option.split)
  qed
qed

definition exampleReopened :: DraftDatabase where
  "exampleReopened = (fst (valueOf exampleSave))\<lparr>dd_invoiceIds := [''i1''], dd_invoiceLineIds := [],
     dd_sourceDraftIds := [''d1'']\<rparr>"

definition exampleCreditDraft :: InvoiceDraft where
  "exampleCreditDraft = (snd (valueOf exampleSave))\<lparr>dr_id := ''d2'', dr_invoiceKind := CreditKind,
     dr_creditedInvoiceId := Some ''i1'', pd_lines := []\<rparr>"

definition exampleCreditResult :: "(DraftDatabase \<times> CreateCreditDraftResult) result" where
  "exampleCreditResult =
     createCreditDraft (\<lambda>company invoice. Some ''2026001'') exampleReopened exampleCreditDraft ''i1''"

theorem delete_draft_exact_witness:
  "deleteInvoiceDraft exampleReopened ''acme'' ''d1'' =
     Inl (SqliteError ''FOREIGN KEY constraint failed'') \<and>
   getInvoiceDraft (fst (valueOf exampleCreditResult)) ''acme'' ''d2'' =
     Inl (InvoiceDraftValidationError ''Credit invoice drafts use the credit correction workflow.'') \<and>
   (\<exists>db'. deleteInvoiceDraft (fst (valueOf exampleCreditResult)) ''acme'' ''d2'' = Inr db' \<and>
      getInvoiceDraft db' ''acme'' ''d2'' = Inl InvoiceDraftNotFoundError)"
proof -
  have h: "draftHistory exampleReopened [''d1'' \<mapsto> (snd (valueOf exampleSave), None)]"
    unfolding exampleReopened_def by (rule draftHistory.others [OF example_history])
  have id: "requireDraftIdentifier ''d1'' = Inr ''d1''" "requireDraftIdentifier ''d2'' = Inr ''d2''"
    by code_simp+
  have co: "requireIdentifier ''acme'' ''Company id'' = Inr ''acme''" by code_simp
  have ok: "yields snd (CreditDraftCreated ''d2'') exampleCreditResult"
    "yields (dd_sourceDraftIds \<circ> fst) [''d1''] exampleCreditResult" by code_simp+
  obtain db where db: "exampleCreditResult = Inr (db, CreditDraftCreated ''d2'')"
    "dd_sourceDraftIds db = [''d1'']"
    using ok unfolding yields_iff by (metis Inr_inject comp_apply prod.collapse)
  have credit: "dr_invoiceKind exampleCreditDraft = CreditKind" "dr_id exampleCreditDraft = ''d2''"
    "dr_companyId exampleCreditDraft = ''acme''"
    using exampleSave_fields(1) by (simp_all add: exampleCreditDraft_def)
  have "storableDraft exampleCreditDraft" by code_simp
  from draftHistory.createCredit [OF h credit(1) this db(1) [unfolded exampleCreditResult_def]]
  have h2: "draftHistory db [''d1'' \<mapsto> (snd (valueOf exampleSave), None),
      ''d2'' \<mapsto> (exampleCreditDraft, None)]" by (simp add: credit(2))
  show ?thesis
    unfolding db(1) valueOf_Inr fst_conv
    using delete_draft_exact [OF h co id(1)] delete_draft_exact [OF h2 co id(2)] db(2) exampleSave_fields(1)
      credit
    by (auto simp: exampleReopened_def)
qed

text \<open>
  C34: The due date of an invoice without a given one is the invoice date plus the payment
  term on the calendar, for every date and term that stay within the year 9999. Beyond it,
  up to the limit of time values, the draft gets a due date that is no date; beyond that
  limit the input is refused.
\<close>

theorem due_date_of_payment_term:
  assumes "validCivil c" "fourDigitYear c" "0 \<le> days"
  shows "(dayFromCivil c + days < 2932897 \<longrightarrow>
      resolveInvoiceDates (dateString c) None days =
        Inr \<lparr>id_invoiceDate = dateString c,
             id_dueDate = dateString (civilFromDay (dayFromCivil c + days))\<rparr>) \<and>
    (2932897 \<le> dayFromCivil c + days \<longrightarrow> dayFromCivil c + days \<le> 100000000 \<longrightarrow>
      (\<exists>r. resolveInvoiceDates (dateString c) None days = Inr r \<and> \<not> isCalendarDate (id_dueDate r))) \<and>
    (100000000 < dayFromCivil c + days \<longrightarrow>
      resolveInvoiceDates (dateString c) None days =
        Inl (InvoiceDraftValidationError ''Due date is outside the supported range.''))"
proof (intro conjI impI)
  let ?n = "dayFromCivil c + days"
  have sum: "msPerDay * dayFromCivil c + days * millisecondsPerDay = msPerDay * ?n"
    by (simp add: msPerDay_def millisecondsPerDay_def)
  show "resolveInvoiceDates (dateString c) None days =
      Inr \<lparr>id_invoiceDate = dateString c, id_dueDate = dateString (civilFromDay ?n)\<rparr>" if "?n < 2932897"
    by (rule resolveInvoiceDates_term [OF assms that])
  show "resolveInvoiceDates (dateString c) None days =
      Inl (InvoiceDraftValidationError ''Due date is outside the supported range.'')" if "100000000 < ?n"
  proof -
    have "timeClip (msPerDay * ?n) = None" using that by (simp add: timeClip_def msPerDay_def)
    then show ?thesis by (simp add: resolveInvoiceDates_def parseDateOnly_dateString [OF assms(1,2)] sum)
  qed
  assume far: "2932897 \<le> ?n" "?n \<le> 100000000"
  then have "timeClip (msPerDay * ?n) = Some (msPerDay * ?n)" by (simp add: timeClip_def msPerDay_def)
  moreover have "\<not> msPerDay * ?n < msPerDay * dayFromCivil c"
    using assms(3) by (simp add: msPerDay_def)
  ultimately obtain r where "resolveInvoiceDates (dateString c) None days = Inr r"
    by (simp add: resolveInvoiceDates_def parseDateOnly_dateString [OF assms(1,2)] sum)
  with resolveInvoiceDates_far [OF _ assms(1,2) far(1)]
  show "\<exists>r. resolveInvoiceDates (dateString c) None days = Inr r \<and> \<not> isCalendarDate (id_dueDate r)"
    by blast
qed

theorem due_date_of_payment_term_witness:
  "resolveInvoiceDates ''2024-02-15'' None 14 =
     Inr \<lparr>id_invoiceDate = ''2024-02-15'', id_dueDate = ''2024-02-29''\<rparr> \<and>
   (\<exists>r. resolveInvoiceDates ''9999-12-31'' None 1 = Inr r \<and> \<not> isCalendarDate (id_dueDate r))"
proof -
  have a: "validCivil (2024, 2, 15)" "fourDigitYear (2024, 2, 15)" "dateString (2024, 2, 15) = ''2024-02-15''"
    "dayFromCivil (2024, 2, 15) + 14 < 2932897"
    "dateString (civilFromDay (dayFromCivil (2024, 2, 15) + 14)) = ''2024-02-29''" by code_simp+
  have b: "validCivil (9999, 12, 31)" "fourDigitYear (9999, 12, 31)"
    "dateString (9999, 12, 31) = ''9999-12-31''" "2932897 \<le> dayFromCivil (9999, 12, 31) + 1"
    "dayFromCivil (9999, 12, 31) + 1 \<le> 100000000" by code_simp+
  show ?thesis
    using due_date_of_payment_term [OF a(1,2), of 14] due_date_of_payment_term [OF b(1,2), of 1] a(3-5) b(3-5)
    by simp
qed

end
