(* ===== verification/EmailAttempts.thy ===== *)
theory EmailAttempts
  imports JsDate
begin

text \<open>
  The in-memory store of authorised e-mail deliveries
  (infrastructure/inMemoryInvoiceEmailSendAttemptStore.ts): an attempt is prepared with a
  one-time token, acquired with it, and completed; each key (company, invoice, provider) has
  at most one active attempt, and a delivery is followed by a cooldown. The three Maps are
  association lists. A call changes the store also when it throws, so it returns both. The
  hash function, the random identifier and token and the clock are arguments.
\<close>

section \<open>The store\<close>

datatype AttemptStatus = AttemptPrepared | AttemptInFlight | AttemptCompleted

datatype SendMode = CustomerMode | SmtpTestMode

datatype AttemptOutcome = DeliveryFailed | DeliveryOutcomeUnknown | DeliverySucceeded

record PrepareAttemptInput =
  at_actorId :: string
  at_companyId :: string
  at_invoiceId :: string
  at_mode :: SendMode
  at_provider :: string
  at_recipient :: string
  at_requestFingerprint :: string

record StoredAttempt = PrepareAttemptInput +
  at_attemptId :: string
  at_authorizationExpiresAtMs :: int
  at_authorizationTokenHash :: "nat list"
  at_key :: string
  at_retentionExpiresAtMs :: int
  at_status :: AttemptStatus

record AcquireAttemptInput = PrepareAttemptInput +
  aq_attemptId :: string
  aq_authorizationToken :: string

record PreparedAttempt =
  pa_attemptId :: string
  pa_authorizationToken :: string
  pa_expiresAt :: string

record AttemptConfig =
  ac_authorizationLifetimeMs :: int
  ac_cooldownMs :: int
  ac_retentionMs :: int

definition defaultAttemptConfig :: AttemptConfig where
  "defaultAttemptConfig =
     \<lparr>ac_authorizationLifetimeMs = 60000, ac_cooldownMs = 10000, ac_retentionMs = 300000\<rparr>"

record AttemptStore =
  as_activeAttemptByKey :: "(string \<times> string) list"
  as_attempts :: "(string \<times> StoredAttempt) list"
  as_cooldownByKey :: "(string \<times> int) list"

definition emptyAttemptStore :: AttemptStore where
  "emptyAttemptStore = \<lparr>as_activeAttemptByKey = [], as_attempts = [], as_cooldownByKey = []\<rparr>"

section \<open>Operations\<close>

definition createAttemptKey :: "('a) PrepareAttemptInput_scheme \<Rightarrow> string" where
  "createAttemptKey input =
     at_companyId input @ [CHR 0x00] @ at_invoiceId input @ [CHR 0x00] @ at_provider input"

definition fillZero :: "nat list \<Rightarrow> nat list" where
  "fillZero buffer = map (\<lambda>_. 0) buffer"

definition closeAttempt :: "StoredAttempt \<Rightarrow> StoredAttempt" where
  "closeAttempt a =
     a\<lparr>at_authorizationTokenHash := fillZero (at_authorizationTokenHash a), at_status := AttemptCompleted\<rparr>"

text \<open>One iteration of the first loop of \<open>cleanup\<close>; it touches the entry it visits only.\<close>

definition cleanupAttempt :: "int \<Rightarrow> AttemptStore \<Rightarrow> string \<times> StoredAttempt \<Rightarrow> AttemptStore" where
  "cleanupAttempt now store entry =
     (case entry of (attemptId, attempt) \<Rightarrow>
      let expired = at_status attempt = AttemptPrepared \<and> at_authorizationExpiresAtMs attempt \<le> now;
          attempt' = (if expired then closeAttempt attempt else attempt);
          active' = (if expired then AList.delete (at_key attempt) (as_activeAttemptByKey store)
                     else as_activeAttemptByKey store) in
      store\<lparr>as_activeAttemptByKey := active',
            as_attempts :=
              (if at_status attempt' = AttemptCompleted \<and> at_retentionExpiresAtMs attempt' \<le> now
               then AList.delete attemptId (as_attempts store)
               else AList.update attemptId attempt' (as_attempts store))\<rparr>)"

definition cleanup :: "int \<Rightarrow> AttemptStore \<Rightarrow> AttemptStore" where
  "cleanup now store =
     (let store' = foldl (cleanupAttempt now) store (as_attempts store) in
      store'\<lparr>as_cooldownByKey := filter (\<lambda>(key, cooldownUntil). \<not> cooldownUntil \<le> now)
               (as_cooldownByKey store')\<rparr>)"

text \<open>The attempt that is active for the key is closed if it was only prepared.\<close>

definition releaseActive :: "string \<Rightarrow> string \<Rightarrow> AttemptStore \<Rightarrow> AttemptStore" where
  "releaseActive key activeAttemptId store =
     store\<lparr>as_activeAttemptByKey := AList.delete key (as_activeAttemptByKey store),
           as_attempts :=
             (case map_of (as_attempts store) activeAttemptId of
                Some a \<Rightarrow>
                  if at_status a = AttemptPrepared
                  then AList.update activeAttemptId (closeAttempt a) (as_attempts store)
                  else as_attempts store
              | None \<Rightarrow> as_attempts store)\<rparr>"

definition newAttempt ::
    "AttemptConfig \<Rightarrow> (string \<Rightarrow> nat list) \<Rightarrow> string \<Rightarrow> string \<Rightarrow> int \<Rightarrow> PrepareAttemptInput \<Rightarrow> StoredAttempt" where
  "newAttempt config hash attemptId authorizationToken now input =
     PrepareAttemptInput.extend input
       (StoredAttempt.fields attemptId (now + ac_authorizationLifetimeMs config)
          (hash authorizationToken) (createAttemptKey input) (now + ac_retentionMs config)
          AttemptPrepared)"

definition registerAttempt ::
    "AttemptConfig \<Rightarrow> (string \<Rightarrow> nat list) \<Rightarrow> string \<Rightarrow> string \<Rightarrow> int \<Rightarrow> PrepareAttemptInput \<Rightarrow>
     AttemptStore \<Rightarrow> AttemptStore \<times> PreparedAttempt result" where
  "registerAttempt config hash attemptId authorizationToken now input store =
     (store\<lparr>as_attempts := AList.update attemptId
              (newAttempt config hash attemptId authorizationToken now input) (as_attempts store),
            as_activeAttemptByKey := AList.update (createAttemptKey input) attemptId
              (as_activeAttemptByKey store)\<rparr>,
      andThen (dateToISOString (timeClip (now + ac_authorizationLifetimeMs config))) (\<lambda>expiresAt.
      Inr \<lparr>pa_attemptId = attemptId, pa_authorizationToken = authorizationToken,
           pa_expiresAt = expiresAt\<rparr>))"

definition prepareAttempt ::
    "AttemptConfig \<Rightarrow> (string \<Rightarrow> nat list) \<Rightarrow> string \<Rightarrow> string \<Rightarrow> int \<Rightarrow> PrepareAttemptInput \<Rightarrow>
     AttemptStore \<Rightarrow> AttemptStore \<times> PreparedAttempt result" where
  "prepareAttempt config hash randomUUID randomToken now input store =
     (let clean = cleanup now store; key = createAttemptKey input;
          activeAttempt = (case map_of (as_activeAttemptByKey clean) key of
                             None \<Rightarrow> None
                           | Some attemptId \<Rightarrow> map_of (as_attempts clean) attemptId);
          released = (case map_of (as_activeAttemptByKey clean) key of
                        None \<Rightarrow> clean
                      | Some attemptId \<Rightarrow> releaseActive key attemptId clean) in
      if map_option at_status activeAttempt = Some AttemptInFlight then
        (clean, Inl (InvoiceEmailSendAttemptError ''inProgress''))
      else
        case map_of (as_cooldownByKey released) key of
          Some cooldownUntil \<Rightarrow>
            if cooldownUntil > now then (released, Inl (InvoiceEmailSendAttemptError ''cooldown''))
            else registerAttempt config hash randomUUID randomToken now input released
        | None \<Rightarrow> registerAttempt config hash randomUUID randomToken now input released)"

definition bindingsMatch :: "StoredAttempt \<Rightarrow> AcquireAttemptInput \<Rightarrow> bool" where
  "bindingsMatch attempt input \<longleftrightarrow>
     at_actorId attempt = at_actorId input \<and> at_companyId attempt = at_companyId input \<and>
     at_invoiceId attempt = at_invoiceId input \<and> at_mode attempt = at_mode input \<and>
     at_provider attempt = at_provider input \<and> at_recipient attempt = at_recipient input \<and>
     at_requestFingerprint attempt = at_requestFingerprint input"

text \<open>\<open>timingSafeEqual\<close> of two digests, which have the same length.\<close>

definition acceptsAcquire ::
    "(string \<Rightarrow> nat list) \<Rightarrow> int \<Rightarrow> AcquireAttemptInput \<Rightarrow> StoredAttempt \<Rightarrow> bool" where
  "acceptsAcquire hash now input attempt \<longleftrightarrow>
     at_status attempt = AttemptPrepared \<and> \<not> at_authorizationExpiresAtMs attempt \<le> now \<and>
     bindingsMatch attempt input \<and>
     at_authorizationTokenHash attempt = hash (aq_authorizationToken input)"

definition acquireAttempt ::
    "(string \<Rightarrow> nat list) \<Rightarrow> int \<Rightarrow> AcquireAttemptInput \<Rightarrow> AttemptStore \<Rightarrow> AttemptStore \<times> unit result" where
  "acquireAttempt hash now input store =
     (let clean = cleanup now store in
      case map_of (as_attempts clean) (aq_attemptId input) of
        None \<Rightarrow> (clean, Inl (InvoiceEmailSendAttemptError ''invalidOrExpired''))
      | Some attempt \<Rightarrow>
          if acceptsAcquire hash now input attempt then
            (clean\<lparr>as_attempts := AList.update (aq_attemptId input)
               (attempt\<lparr>at_authorizationTokenHash := fillZero (at_authorizationTokenHash attempt),
                        at_status := AttemptInFlight\<rparr>) (as_attempts clean)\<rparr>, Inr ())
          else (clean, Inl (InvoiceEmailSendAttemptError ''invalidOrExpired'')))"

definition completeAttempt ::
    "AttemptConfig \<Rightarrow> int \<Rightarrow> string \<Rightarrow> AttemptOutcome \<Rightarrow> AttemptStore \<Rightarrow> AttemptStore" where
  "completeAttempt config now attemptId outcome store =
     (case map_of (as_attempts store) attemptId of
        None \<Rightarrow> store
      | Some attempt \<Rightarrow>
          if at_status attempt \<noteq> AttemptInFlight then store
          else
            store\<lparr>as_attempts := AList.update attemptId (attempt\<lparr>at_status := AttemptCompleted\<rparr>)
                    (as_attempts store),
                  as_activeAttemptByKey := AList.delete (at_key attempt) (as_activeAttemptByKey store),
                  as_cooldownByKey :=
                    (if outcome = DeliverySucceeded \<or> outcome = DeliveryOutcomeUnknown
                     then AList.update (at_key attempt) (now + ac_cooldownMs config) (as_cooldownByKey store)
                     else as_cooldownByKey store)\<rparr>)"

section \<open>What the loops compute\<close>

definition expiredAttempt :: "int \<Rightarrow> StoredAttempt \<Rightarrow> bool" where
  "expiredAttempt now a \<longleftrightarrow> at_status a = AttemptPrepared \<and> at_authorizationExpiresAtMs a \<le> now"

definition cleanedAttempt :: "int \<Rightarrow> StoredAttempt \<Rightarrow> StoredAttempt option" where
  "cleanedAttempt now a =
     (let a' = (if expiredAttempt now a then closeAttempt a else a) in
      if at_status a' = AttemptCompleted \<and> at_retentionExpiresAtMs a' \<le> now then None else Some a')"

lemma cleanupAttempt_maps:
  "map_of (as_attempts (cleanupAttempt now s (i, a))) = (map_of (as_attempts s))(i := cleanedAttempt now a)"
  "map_of (as_activeAttemptByKey (cleanupAttempt now s (i, a))) =
     (if expiredAttempt now a then (map_of (as_activeAttemptByKey s))(at_key a := None)
      else map_of (as_activeAttemptByKey s))"
  "as_cooldownByKey (cleanupAttempt now s (i, a)) = as_cooldownByKey s"
  by (simp_all add: cleanupAttempt_def cleanedAttempt_def expiredAttempt_def Let_def delete_conv' update_conv')

lemma cleanupAttempt_distinct:
  "distinct (map fst (as_attempts s)) \<Longrightarrow> distinct (map fst (as_attempts (cleanupAttempt now s e)))"
  by (cases e) (simp add: cleanupAttempt_def Let_def distinct_delete distinct_update)

lemma foldl_cleanup_attempts:
  assumes "distinct (map fst xs)"
  shows "map_of (as_attempts (foldl (cleanupAttempt now) s xs)) i =
    (case map_of xs i of None \<Rightarrow> map_of (as_attempts s) i | Some a \<Rightarrow> cleanedAttempt now a)"
  using assms
proof (induction xs arbitrary: s)
  case (Cons x xs)
  obtain j a where x: "x = (j, a)" by (cases x)
  have "map_of xs j = None" using Cons.prems x by (simp add: map_of_eq_None_iff)
  with Cons show ?case by (auto simp: x cleanupAttempt_maps split: option.split)
qed simp

lemma foldl_cleanup_active:
  "map_of (as_activeAttemptByKey (foldl (cleanupAttempt now) s xs)) k =
    (if \<exists>x \<in> set xs. expiredAttempt now (snd x) \<and> at_key (snd x) = k then None
     else map_of (as_activeAttemptByKey s) k)"
proof (induction xs arbitrary: s)
  case (Cons x xs)
  then show ?case by (cases x) (auto simp: cleanupAttempt_maps)
qed simp

lemma foldl_cleanup_cooldown:
  "as_cooldownByKey (foldl (cleanupAttempt now) s xs) = as_cooldownByKey s"
proof (induction xs arbitrary: s)
  case (Cons x xs)
  then show ?case by (cases x) (simp add: cleanupAttempt_maps)
qed simp

lemma foldl_cleanup_distinct:
  "distinct (map fst (as_attempts s)) \<Longrightarrow>
     distinct (map fst (as_attempts (foldl (cleanupAttempt now) s xs)))"
  by (induction xs arbitrary: s) (simp_all add: cleanupAttempt_distinct)

lemma bex_entries:
  assumes "distinct (map fst m)"
  shows "(\<exists>x \<in> set m. P (snd x)) \<longleftrightarrow> (\<exists>j a. map_of m j = Some a \<and> P a)"
proof
  assume "\<exists>x \<in> set m. P (snd x)"
  then obtain j a where "(j, a) \<in> set m" "P a" by auto
  with assms show "\<exists>j a. map_of m j = Some a \<and> P a" using map_of_is_SomeI by metis
qed (force dest: map_of_SomeD)

lemma map_of_filter_value:
  "distinct (map fst m) \<Longrightarrow>
     map_of (filter (\<lambda>(k, v). P v) m) k = (case map_of m k of None \<Rightarrow> None | Some v \<Rightarrow> if P v then Some v else None)"
proof (induction m)
  case (Cons x m)
  then have "map_of m (fst x) = None" by (simp add: map_of_eq_None_iff)
  with Cons show ?case by (cases x) (auto split: option.split)
qed simp

section \<open>The invariant\<close>

text \<open>
  Every attempt is filed under its identifier and key, and an attempt that is prepared or in
  flight is the active one of its key.
\<close>

definition live :: "StoredAttempt \<Rightarrow> bool" where
  "live a \<longleftrightarrow> at_status a \<noteq> AttemptCompleted"

definition attemptInvariant :: "AttemptStore \<Rightarrow> bool" where
  "attemptInvariant s \<longleftrightarrow>
     distinct (map fst (as_attempts s)) \<and> distinct (map fst (as_cooldownByKey s)) \<and>
     (\<forall>i a. map_of (as_attempts s) i = Some a \<longrightarrow>
        at_attemptId a = i \<and> at_key a = createAttemptKey a \<and>
        (live a \<longrightarrow> map_of (as_activeAttemptByKey s) (at_key a) = Some i))"

lemma attemptInvariantD:
  assumes "attemptInvariant s" "map_of (as_attempts s) i = Some a"
  shows "at_attemptId a = i" "at_key a = createAttemptKey a"
    "live a \<Longrightarrow> map_of (as_activeAttemptByKey s) (at_key a) = Some i"
  using assms unfolding attemptInvariant_def by blast+

lemma one_live_attempt:
  assumes "attemptInvariant s" "map_of (as_attempts s) i = Some a" "map_of (as_attempts s) j = Some b"
    and "live a" "live b" "at_key a = at_key b"
  shows "i = j"
  using attemptInvariantD(3) [OF assms(1,2,4)] attemptInvariantD(3) [OF assms(1,3,5)] assms(6) by simp

lemma closeAttempt_frame [simp]:
  "at_attemptId (closeAttempt a) = at_attemptId a" "at_key (closeAttempt a) = at_key a"
  "at_status (closeAttempt a) = AttemptCompleted" "createAttemptKey (closeAttempt a) = createAttemptKey a"
  "\<not> live (closeAttempt a)"
  by (simp_all add: closeAttempt_def createAttemptKey_def live_def)

lemma cleanup_maps:
  assumes "attemptInvariant s"
  shows "map_of (as_attempts (cleanup now s)) i = Option.bind (map_of (as_attempts s) i) (cleanedAttempt now)"
    "map_of (as_activeAttemptByKey (cleanup now s)) k =
      (if \<exists>j a. map_of (as_attempts s) j = Some a \<and> expiredAttempt now a \<and> at_key a = k then None
       else map_of (as_activeAttemptByKey s) k)"
    "map_of (as_cooldownByKey (cleanup now s)) k =
      (case map_of (as_cooldownByKey s) k of None \<Rightarrow> None | Some t \<Rightarrow> if t \<le> now then None else Some t)"
    "distinct (map fst (as_attempts (cleanup now s)))" "distinct (map fst (as_cooldownByKey (cleanup now s)))"
proof -
  from assms have d: "distinct (map fst (as_attempts s))" "distinct (map fst (as_cooldownByKey s))"
    by (simp_all add: attemptInvariant_def)
  show "map_of (as_attempts (cleanup now s)) i = Option.bind (map_of (as_attempts s) i) (cleanedAttempt now)"
    by (simp add: cleanup_def Let_def foldl_cleanup_attempts [OF d(1)] split: option.split)
  show "map_of (as_activeAttemptByKey (cleanup now s)) k =
      (if \<exists>j a. map_of (as_attempts s) j = Some a \<and> expiredAttempt now a \<and> at_key a = k then None
       else map_of (as_activeAttemptByKey s) k)"
    using bex_entries [OF d(1), of "\<lambda>a. expiredAttempt now a \<and> at_key a = k"]
    by (simp add: cleanup_def Let_def foldl_cleanup_active)
  show "map_of (as_cooldownByKey (cleanup now s)) k =
      (case map_of (as_cooldownByKey s) k of None \<Rightarrow> None | Some t \<Rightarrow> if t \<le> now then None else Some t)"
    using map_of_filter_value [OF d(2), of "\<lambda>t. \<not> t \<le> now"]
    by (simp add: cleanup_def Let_def foldl_cleanup_cooldown split: option.split)
  show "distinct (map fst (as_attempts (cleanup now s)))"
    using d(1) by (simp add: cleanup_def Let_def foldl_cleanup_distinct)
  show "distinct (map fst (as_cooldownByKey (cleanup now s)))"
    using d(2) by (simp add: cleanup_def Let_def foldl_cleanup_cooldown distinct_map_filter)
qed

text \<open>An attempt that is live after the cleanup was so before, unchanged, and has not expired.\<close>

lemma cleanup_live:
  assumes I: "attemptInvariant s" and a: "map_of (as_attempts (cleanup now s)) i = Some a" "live a"
  shows "map_of (as_attempts s) i = Some a" "\<not> expiredAttempt now a"
  using a by (auto simp: cleanup_maps [OF I] cleanedAttempt_def Let_def Option.bind_eq_Some_conv split: if_splits)

lemma cleanup_keeps:
  assumes I: "attemptInvariant s" and a: "map_of (as_attempts s) i = Some a" "live a" "\<not> expiredAttempt now a"
  shows "map_of (as_attempts (cleanup now s)) i = Some a"
  using a by (simp add: cleanup_maps [OF I] cleanedAttempt_def live_def)

lemma cleanup_invariant:
  assumes I: "attemptInvariant s"
  shows "attemptInvariant (cleanup now s)"
proof -
  have "at_attemptId a = i \<and> at_key a = createAttemptKey a \<and>
      (live a \<longrightarrow> map_of (as_activeAttemptByKey (cleanup now s)) (at_key a) = Some i)"
    if a: "map_of (as_attempts (cleanup now s)) i = Some a" for i a
  proof (intro conjI impI)
    from a obtain b where b: "map_of (as_attempts s) i = Some b" "a = b \<or> a = closeAttempt b"
      by (auto simp: cleanup_maps [OF I] cleanedAttempt_def Let_def Option.bind_eq_Some_conv split: if_splits)
    note D = attemptInvariantD [OF I b(1)]
    show "at_attemptId a = i" "at_key a = createAttemptKey a" using b(2) D(1,2) by auto
    assume l: "live a"
    note c = cleanup_live [OF I a l]
    have "\<not> (\<exists>j b. map_of (as_attempts s) j = Some b \<and> expiredAttempt now b \<and> at_key b = at_key a)"
    proof
      assume "\<exists>j b. map_of (as_attempts s) j = Some b \<and> expiredAttempt now b \<and> at_key b = at_key a"
      then obtain j b where j: "map_of (as_attempts s) j = Some b" "expiredAttempt now b" "at_key b = at_key a"
        by blast
      then have "live b" by (simp add: live_def expiredAttempt_def)
      with one_live_attempt [OF I j(1) c(1) _ l] j(3) have "j = i" by simp
      with j c show False by simp
    qed
    with attemptInvariantD(3) [OF I c(1) l]
    show "map_of (as_activeAttemptByKey (cleanup now s)) (at_key a) = Some i"
      by (simp only: cleanup_maps(2) [OF I] if_False)
  qed
  then show ?thesis using cleanup_maps(4,5) [OF I] unfolding attemptInvariant_def by blast
qed

section \<open>Every operation keeps the invariant\<close>

definition noLive :: "string \<Rightarrow> AttemptStore \<Rightarrow> bool" where
  "noLive key s \<longleftrightarrow> (\<forall>i a. map_of (as_attempts s) i = Some a \<longrightarrow> at_key a = key \<longrightarrow> \<not> live a)"

lemma attemptInvariant_update:
  assumes I: "attemptInvariant s" and s': "as_attempts s' = AList.update i a (as_attempts s)"
    and a: "at_attemptId a = i" "at_key a = createAttemptKey a"
    and active: "live a \<Longrightarrow> map_of (as_activeAttemptByKey s') (at_key a) = Some i"
    and others: "\<And>j b. j \<noteq> i \<Longrightarrow> map_of (as_attempts s) j = Some b \<Longrightarrow> live b \<Longrightarrow>
      map_of (as_activeAttemptByKey s') (at_key b) = map_of (as_activeAttemptByKey s) (at_key b)"
    and cool: "distinct (map fst (as_cooldownByKey s'))"
  shows "attemptInvariant s'"
proof -
  have "at_attemptId b = j \<and> at_key b = createAttemptKey b \<and>
      (live b \<longrightarrow> map_of (as_activeAttemptByKey s') (at_key b) = Some j)"
    if b: "map_of (as_attempts s') j = Some b" for j b
  proof (cases "j = i")
    case True
    with b a active show ?thesis by (simp add: s' update_conv')
  next
    case False
    with b have "map_of (as_attempts s) j = Some b" by (simp add: s' update_conv')
    with attemptInvariantD [OF I this] others [OF False this] show ?thesis by simp
  qed
  moreover have "distinct (map fst (as_attempts s'))"
    using I by (simp add: s' attemptInvariant_def distinct_update)
  ultimately show ?thesis using cool unfolding attemptInvariant_def by blast
qed

lemma releaseActive_invariant:
  assumes I: "attemptInvariant s" and active: "map_of (as_activeAttemptByKey s) key = Some i"
    and idle: "\<And>a. map_of (as_attempts s) i = Some a \<Longrightarrow> at_status a \<noteq> AttemptInFlight"
  shows "attemptInvariant (releaseActive key i s)" "noLive key (releaseActive key i s)"
proof -
  let ?r = "releaseActive key i s"
  have live: "map_of (as_attempts s) j = Some b \<and> j \<noteq> i" if "map_of (as_attempts ?r) j = Some b" "live b" for j b
  proof (cases "map_of (as_attempts s) i")
    case None
    with that show ?thesis by (auto simp: releaseActive_def)
  next
    case (Some a)
    with idle [OF Some] that show ?thesis
      by (cases "at_status a") (auto simp: releaseActive_def update_conv' live_def split: if_splits)
  qed
  have old: "\<exists>c. map_of (as_attempts s) j = Some c \<and> (b = c \<or> b = closeAttempt c)"
    if "map_of (as_attempts ?r) j = Some b" for j b
    using that by (auto simp: releaseActive_def update_conv' split: option.splits if_splits)
  show none: "noLive key ?r"
    unfolding noLive_def
  proof (intro allI impI notI)
    fix j b assume b: "map_of (as_attempts ?r) j = Some b" "at_key b = key" "live b"
    with live have "map_of (as_attempts s) j = Some b" "j \<noteq> i" by blast+
    with attemptInvariantD(3) [OF I this(1) b(3)] active b(2) show False by simp
  qed
  have "at_attemptId b = j \<and> at_key b = createAttemptKey b \<and>
      (live b \<longrightarrow> map_of (as_activeAttemptByKey ?r) (at_key b) = Some j)"
    if b: "map_of (as_attempts ?r) j = Some b" for j b
  proof (intro conjI impI)
    obtain c where c: "map_of (as_attempts s) j = Some c" "b = c \<or> b = closeAttempt c"
      using old [OF b] by blast
    show "at_attemptId b = j" "at_key b = createAttemptKey b"
      using c(2) attemptInvariantD(1,2) [OF I c(1)] by auto
    assume l: "live b"
    with b none have "at_key b \<noteq> key" by (auto simp: noLive_def)
    with live [OF b l] attemptInvariantD(3) [OF I _ l, of j]
    show "map_of (as_activeAttemptByKey ?r) (at_key b) = Some j"
      by (simp add: releaseActive_def delete_conv')
  qed
  moreover have "distinct (map fst (as_attempts ?r))" "distinct (map fst (as_cooldownByKey ?r))"
    using I by (auto simp: attemptInvariant_def releaseActive_def distinct_update split: option.split)
  ultimately show "attemptInvariant ?r" unfolding attemptInvariant_def by blast
qed

lemma newAttempt_frame [simp]:
  "at_attemptId (newAttempt c h i t n x) = i" "at_key (newAttempt c h i t n x) = createAttemptKey x"
  "createAttemptKey (newAttempt c h i t n x) = createAttemptKey x"
  "at_status (newAttempt c h i t n x) = AttemptPrepared" "live (newAttempt c h i t n x)"
  "at_authorizationExpiresAtMs (newAttempt c h i t n x) = n + ac_authorizationLifetimeMs c"
  "at_authorizationTokenHash (newAttempt c h i t n x) = h t"
  by (simp_all add: newAttempt_def PrepareAttemptInput.extend_def StoredAttempt.fields_def
      createAttemptKey_def live_def)

lemma registerAttempt_invariant:
  assumes I: "attemptInvariant s" and none: "noLive (createAttemptKey x) s"
  shows "attemptInvariant (fst (registerAttempt c h i t n x s))"
proof (rule attemptInvariant_update [OF I])
  show "as_attempts (fst (registerAttempt c h i t n x s)) =
      AList.update i (newAttempt c h i t n x) (as_attempts s)" by (simp add: registerAttempt_def)
  show "distinct (map fst (as_cooldownByKey (fst (registerAttempt c h i t n x s))))"
    using I by (simp add: registerAttempt_def attemptInvariant_def)
  fix j b assume "j \<noteq> i" "map_of (as_attempts s) j = Some b" "live b"
  with none have "at_key b \<noteq> createAttemptKey x" unfolding noLive_def by blast
  then show "map_of (as_activeAttemptByKey (fst (registerAttempt c h i t n x s))) (at_key b) =
      map_of (as_activeAttemptByKey s) (at_key b)" by (simp add: registerAttempt_def update_conv')
qed (simp_all add: registerAttempt_def update_conv')

text \<open>The three ways a preparation ends.\<close>

definition releasedStore :: "int \<Rightarrow> string \<Rightarrow> AttemptStore \<Rightarrow> AttemptStore" where
  "releasedStore now key s =
     (case map_of (as_activeAttemptByKey (cleanup now s)) key of
        None \<Rightarrow> cleanup now s
      | Some i \<Rightarrow> releaseActive key i (cleanup now s))"

definition flightOf :: "int \<Rightarrow> string \<Rightarrow> AttemptStore \<Rightarrow> bool" where
  "flightOf now key s \<longleftrightarrow>
     map_option at_status
       (case map_of (as_activeAttemptByKey (cleanup now s)) key of
          None \<Rightarrow> None
        | Some i \<Rightarrow> map_of (as_attempts (cleanup now s)) i) = Some AttemptInFlight"

lemma flightOf_iff:
  "flightOf now key s \<longleftrightarrow>
     (\<exists>i a. map_of (as_activeAttemptByKey (cleanup now s)) key = Some i \<and>
        map_of (as_attempts (cleanup now s)) i = Some a \<and> at_status a = AttemptInFlight)"
  by (auto simp: flightOf_def split: option.splits)

lemma prepareAttempt_cases:
  "prepareAttempt c h i t n x s =
    (if flightOf n (createAttemptKey x) s
     then (cleanup n s, Inl (InvoiceEmailSendAttemptError ''inProgress''))
     else case map_of (as_cooldownByKey (releasedStore n (createAttemptKey x) s)) (createAttemptKey x) of
       Some u \<Rightarrow>
         if u > n then (releasedStore n (createAttemptKey x) s,
                        Inl (InvoiceEmailSendAttemptError ''cooldown''))
         else registerAttempt c h i t n x (releasedStore n (createAttemptKey x) s)
     | None \<Rightarrow> registerAttempt c h i t n x (releasedStore n (createAttemptKey x) s))"
  unfolding prepareAttempt_def Let_def releasedStore_def flightOf_def by (rule refl)

lemma releasedStore_invariant:
  assumes I: "attemptInvariant s" and f: "\<not> flightOf now key s"
  shows "attemptInvariant (releasedStore now key s)" "noLive key (releasedStore now key s)"
proof -
  note C = cleanup_invariant [OF I, of now]
  have "attemptInvariant (releasedStore now key s) \<and> noLive key (releasedStore now key s)"
  proof (cases "map_of (as_activeAttemptByKey (cleanup now s)) key")
    case None
    then have "noLive key (cleanup now s)"
      using attemptInvariantD(3) [OF C] by (force simp: noLive_def)
    with None C show ?thesis by (simp add: releasedStore_def)
  next
    case (Some i)
    with f have "at_status a \<noteq> AttemptInFlight" if "map_of (as_attempts (cleanup now s)) i = Some a" for a
      using that by (auto simp: flightOf_iff)
    from releaseActive_invariant [OF C Some this] Some show ?thesis by (simp add: releasedStore_def)
  qed
  then show "attemptInvariant (releasedStore now key s)" "noLive key (releasedStore now key s)" by blast+
qed

lemma prepareAttempt_invariant:
  assumes I: "attemptInvariant s"
  shows "attemptInvariant (fst (prepareAttempt c h i t n x s))"
  using cleanup_invariant [OF I] releasedStore_invariant [OF I] registerAttempt_invariant
  by (auto simp: prepareAttempt_cases split: option.split)

definition flyingAttempt :: "StoredAttempt \<Rightarrow> StoredAttempt" where
  "flyingAttempt a =
     a\<lparr>at_authorizationTokenHash := fillZero (at_authorizationTokenHash a), at_status := AttemptInFlight\<rparr>"

lemma flyingAttempt_frame [simp]:
  "at_attemptId (flyingAttempt a) = at_attemptId a" "at_key (flyingAttempt a) = at_key a"
  "createAttemptKey (flyingAttempt a) = createAttemptKey a" "at_status (flyingAttempt a) = AttemptInFlight"
  by (simp_all add: flyingAttempt_def createAttemptKey_def)

lemma acquireAttempt_cases:
  "acquireAttempt h n x s =
    (case map_of (as_attempts (cleanup n s)) (aq_attemptId x) of
       None \<Rightarrow> (cleanup n s, Inl (InvoiceEmailSendAttemptError ''invalidOrExpired''))
     | Some a \<Rightarrow>
         if acceptsAcquire h n x a then
           ((cleanup n s)\<lparr>as_attempts := AList.update (aq_attemptId x) (flyingAttempt a)
              (as_attempts (cleanup n s))\<rparr>, Inr ())
         else (cleanup n s, Inl (InvoiceEmailSendAttemptError ''invalidOrExpired'')))"
  unfolding acquireAttempt_def Let_def flyingAttempt_def by (rule refl)

lemma acquireAttempt_invariant:
  assumes I: "attemptInvariant s"
  shows "attemptInvariant (fst (acquireAttempt h n x s))"
proof (cases "map_of (as_attempts (cleanup n s)) (aq_attemptId x)")
  case None
  with cleanup_invariant [OF I] show ?thesis by (simp add: acquireAttempt_cases)
next
  case (Some a)
  note C = cleanup_invariant [OF I, of n]
  note D = attemptInvariantD [OF C Some]
  have "attemptInvariant ((cleanup n s)\<lparr>as_attempts := AList.update (aq_attemptId x) (flyingAttempt a)
      (as_attempts (cleanup n s))\<rparr>)" if "acceptsAcquire h n x a"
    by (rule attemptInvariant_update [OF C, of _ "aq_attemptId x" "flyingAttempt a"])
      (use that D cleanup_maps(5) [OF I] in \<open>simp_all add: live_def acceptsAcquire_def\<close>)
  with Some C show ?thesis by (simp add: acquireAttempt_cases)
qed

lemma completeAttempt_flight:
  assumes "map_of (as_attempts s) i = Some a" "at_status a = AttemptInFlight"
  shows "as_attempts (completeAttempt c n i outcome s) = AList.update i (a\<lparr>at_status := AttemptCompleted\<rparr>) (as_attempts s)"
    "as_activeAttemptByKey (completeAttempt c n i outcome s) = AList.delete (at_key a) (as_activeAttemptByKey s)"
    "as_cooldownByKey (completeAttempt c n i outcome s) = (if outcome = DeliverySucceeded \<or> outcome = DeliveryOutcomeUnknown
       then AList.update (at_key a) (n + ac_cooldownMs c) (as_cooldownByKey s) else as_cooldownByKey s)"
  using assms by (simp_all add: completeAttempt_def)

lemma completeAttempt_idle:
  assumes "\<not> (\<exists>a. map_of (as_attempts s) i = Some a \<and> at_status a = AttemptInFlight)"
  shows "completeAttempt c n i outcome s = s"
  using assms by (auto simp: completeAttempt_def split: option.split)

lemma completeAttempt_invariant:
  assumes I: "attemptInvariant s"
  shows "attemptInvariant (completeAttempt c n i outcome s)"
proof (cases "\<exists>a. map_of (as_attempts s) i = Some a \<and> at_status a = AttemptInFlight")
  case False
  with I show ?thesis by (simp add: completeAttempt_idle)
next
  case True
  then obtain a where a: "map_of (as_attempts s) i = Some a" "at_status a = AttemptInFlight" by blast
  note D = attemptInvariantD [OF I a(1)] and f = completeAttempt_flight [OF a, of c n outcome]
  show ?thesis
  proof (rule attemptInvariant_update [OF I f(1)])
    fix j b assume b: "j \<noteq> i" "map_of (as_attempts s) j = Some b" "live b"
    then have "at_key b \<noteq> at_key a"
      using one_live_attempt [OF I b(2) a(1) b(3)] a(2) by (auto simp: live_def)
    then show "map_of (as_activeAttemptByKey (completeAttempt c n i outcome s)) (at_key b) =
        map_of (as_activeAttemptByKey s) (at_key b)" by (simp add: f(2) delete_conv')
  next
    show "distinct (map fst (as_cooldownByKey (completeAttempt c n i outcome s)))"
      using I by (simp add: f(3) attemptInvariant_def distinct_update)
  qed (use D in \<open>simp_all add: live_def createAttemptKey_def\<close>)
qed

section \<open>Runs\<close>

datatype AttemptOp =
    PrepareOp string string int PrepareAttemptInput
  | AcquireOp int AcquireAttemptInput
  | CompleteOp int string AttemptOutcome

definition applyOp :: "AttemptConfig \<Rightarrow> (string \<Rightarrow> nat list) \<Rightarrow> AttemptStore \<Rightarrow> AttemptOp \<Rightarrow> AttemptStore" where
  "applyOp c h s op =
     (case op of
        PrepareOp i t n x \<Rightarrow> fst (prepareAttempt c h i t n x s)
      | AcquireOp n x \<Rightarrow> fst (acquireAttempt h n x s)
      | CompleteOp n i outcome \<Rightarrow> completeAttempt c n i outcome s)"

definition runOps :: "AttemptConfig \<Rightarrow> (string \<Rightarrow> nat list) \<Rightarrow> AttemptOp list \<Rightarrow> AttemptStore \<Rightarrow> AttemptStore" where
  "runOps c h ops s = foldl (applyOp c h) s ops"

lemma runOps_simps [simp]:
  "runOps c h [] s = s" "runOps c h (op # ops) s = runOps c h ops (applyOp c h s op)"
  by (simp_all add: runOps_def)

lemma runOps_append: "runOps c h (ops @ ops') s = runOps c h ops' (runOps c h ops s)"
  by (simp add: runOps_def)

lemma applyOp_invariant: "attemptInvariant s \<Longrightarrow> attemptInvariant (applyOp c h s op)"
  by (cases op) (simp_all add: applyOp_def prepareAttempt_invariant acquireAttempt_invariant
      completeAttempt_invariant)

lemma runOps_keeps:
  assumes "P s" "\<And>s op. op \<in> set ops \<Longrightarrow> P s \<Longrightarrow> P (applyOp c h s op)"
  shows "P (runOps c h ops s)"
  using assms by (induction ops arbitrary: s) auto

lemma emptyAttemptStore_invariant: "attemptInvariant emptyAttemptStore"
  by (simp add: attemptInvariant_def emptyAttemptStore_def)

lemma runOps_invariant: "attemptInvariant (runOps c h ops emptyAttemptStore)"
  by (rule runOps_keeps [of attemptInvariant]) (simp_all add: emptyAttemptStore_invariant applyOp_invariant)

section \<open>What happens to the attempts of other operations\<close>

lemma releaseActive_attempts:
  "map_of (as_attempts (releaseActive key i s)) j =
     (if j = i then map_option (\<lambda>a. if at_status a = AttemptPrepared then closeAttempt a else a)
                     (map_of (as_attempts s) i)
      else map_of (as_attempts s) j)"
  by (auto simp: releaseActive_def update_conv' split: option.split)

lemma releaseActive_cooldown [simp]: "as_cooldownByKey (releaseActive key i s) = as_cooldownByKey s"
  by (simp add: releaseActive_def)

lemma releasedStore_cooldown: "as_cooldownByKey (releasedStore n key s) = as_cooldownByKey (cleanup n s)"
  by (simp add: releasedStore_def split: option.split)

lemma registerAttempt_maps:
  "map_of (as_attempts (fst (registerAttempt c h i t n x s))) =
     (map_of (as_attempts s))(i \<mapsto> newAttempt c h i t n x)"
  "as_cooldownByKey (fst (registerAttempt c h i t n x s)) = as_cooldownByKey s"
  "map_of (as_activeAttemptByKey (fst (registerAttempt c h i t n x s))) =
     (map_of (as_activeAttemptByKey s))(createAttemptKey x \<mapsto> i)"
  by (simp_all add: registerAttempt_def update_conv')

lemma prepareAttempt_store:
  obtains "flightOf n (createAttemptKey x) s" "fst (prepareAttempt c h i t n x s) = cleanup n s"
  | "\<not> flightOf n (createAttemptKey x) s"
    "fst (prepareAttempt c h i t n x s) = releasedStore n (createAttemptKey x) s"
  | "\<not> flightOf n (createAttemptKey x) s"
    "fst (prepareAttempt c h i t n x s) =
       fst (registerAttempt c h i t n x (releasedStore n (createAttemptKey x) s))"
proof (cases "flightOf n (createAttemptKey x) s")
  case True
  then show thesis by (intro that(1)) (simp_all add: prepareAttempt_cases)
next
  case False
  then have "fst (prepareAttempt c h i t n x s) = releasedStore n (createAttemptKey x) s \<or>
      fst (prepareAttempt c h i t n x s) =
        fst (registerAttempt c h i t n x (releasedStore n (createAttemptKey x) s))"
    by (simp add: prepareAttempt_cases split: option.split)
  with False that(2,3) show thesis by blast
qed

subsection \<open>An attempt in flight\<close>

definition inFlight :: "string \<Rightarrow> string \<Rightarrow> AttemptStore \<Rightarrow> bool" where
  "inFlight i key s \<longleftrightarrow>
     attemptInvariant s \<and>
     (\<exists>a. map_of (as_attempts s) i = Some a \<and> at_status a = AttemptInFlight \<and> at_key a = key)"

lemma inFlight_cleanup:
  assumes "inFlight i key s"
  shows "inFlight i key (cleanup n s)"
proof -
  from assms obtain a where I: "attemptInvariant s"
    and a: "map_of (as_attempts s) i = Some a" "at_status a = AttemptInFlight" "at_key a = key"
    by (auto simp: inFlight_def)
  have "map_of (as_attempts (cleanup n s)) i = Some a"
    using a by (intro cleanup_keeps [OF I]) (simp_all add: live_def expiredAttempt_def)
  with cleanup_invariant [OF I] a show ?thesis by (simp add: inFlight_def)
qed

lemma inFlight_active:
  assumes "inFlight i key s"
  shows "map_of (as_activeAttemptByKey s) key = Some i"
  using assms attemptInvariantD(3) unfolding inFlight_def live_def by (metis AttemptStatus.distinct(5))

lemma inFlight_prepare:
  assumes "inFlight i key s" "createAttemptKey x = key"
  shows "prepareAttempt c h j t n x s = (cleanup n s, Inl (InvoiceEmailSendAttemptError ''inProgress''))"
proof -
  have "flightOf n key s"
    using inFlight_cleanup [OF assms(1), of n] inFlight_active [OF inFlight_cleanup [OF assms(1), of n]]
    by (auto simp: flightOf_iff inFlight_def)
  with assms(2) show ?thesis by (simp add: prepareAttempt_cases)
qed

lemma bindingsMatch_key: "bindingsMatch a x \<Longrightarrow> createAttemptKey x = createAttemptKey a"
  by (simp add: bindingsMatch_def createAttemptKey_def)

lemma inFlight_acquire:
  assumes f: "inFlight i key s" and x: "createAttemptKey x = key"
  shows "acquireAttempt h n x s = (cleanup n s, Inl (InvoiceEmailSendAttemptError ''invalidOrExpired''))"
proof (cases "map_of (as_attempts (cleanup n s)) (aq_attemptId x)")
  case None
  then show ?thesis by (simp add: acquireAttempt_cases)
next
  case (Some b)
  from inFlight_cleanup [OF f, of n] obtain a where C: "attemptInvariant (cleanup n s)"
    and a: "map_of (as_attempts (cleanup n s)) i = Some a" "at_status a = AttemptInFlight" "at_key a = key"
    by (auto simp: inFlight_def)
  have "\<not> acceptsAcquire h n x b"
  proof
    assume acc: "acceptsAcquire h n x b"
    then have b: "live b" "at_status b = AttemptPrepared" "createAttemptKey b = key"
      using bindingsMatch_key [of b x] x by (simp_all add: acceptsAcquire_def live_def)
    have "at_key b = key" using attemptInvariantD(2) [OF C Some] b(3) by simp
    then have "aq_attemptId x = i"
      using one_live_attempt [OF C Some a(1) b(1)] a(2,3) by (simp add: live_def)
    with Some a b(2) show False by simp
  qed
  with Some show ?thesis by (simp add: acquireAttempt_cases)
qed

text \<open>Only its own completion, or a new attempt with its identifier, ends a flight.\<close>

definition endsFlight :: "string \<Rightarrow> AttemptOp \<Rightarrow> bool" where
  "endsFlight i op =
     (case op of PrepareOp j t n x \<Rightarrow> j = i | AcquireOp n x \<Rightarrow> False | CompleteOp n j outcome \<Rightarrow> j = i)"

lemma inFlight_applyOp:
  assumes f: "inFlight i key s" and op: "\<not> endsFlight i op"
  shows "inFlight i key (applyOp c h s op)"
proof -
  note I = applyOp_invariant [of s c h op]
  from f obtain a where a: "map_of (as_attempts s) i = Some a" "at_status a = AttemptInFlight" "at_key a = key"
    and Is: "attemptInvariant s" by (auto simp: inFlight_def)
  from inFlight_cleanup [OF f] have fc: "inFlight i key (cleanup n s)" for n .
  have clean: "map_of (as_attempts (cleanup n s)) i = Some a" for n
    using a by (intro cleanup_keeps [OF Is]) (simp_all add: live_def expiredAttempt_def)
  have "map_of (as_attempts (applyOp c h s op)) i = Some a"
  proof (cases op)
    case (PrepareOp j t n x)
    with op have j: "j \<noteq> i" by (simp add: endsFlight_def)
    have rel: "map_of (as_attempts (releasedStore n (createAttemptKey x) s)) i = Some a"
      using clean a(2) by (auto simp: releasedStore_def releaseActive_attempts split: option.split)
    show ?thesis
      by (rule prepareAttempt_store [of n x s c h j t])
        (use j rel clean in \<open>simp_all add: PrepareOp applyOp_def registerAttempt_maps\<close>)
  next
    case (AcquireOp n x)
    show ?thesis
    proof (cases "map_of (as_attempts (cleanup n s)) (aq_attemptId x)")
      case None
      then show ?thesis using clean by (simp add: AcquireOp applyOp_def acquireAttempt_cases)
    next
      case (Some b)
      have "i \<noteq> aq_attemptId x" if "acceptsAcquire h n x b"
        using that Some clean a(2) by (auto simp: acceptsAcquire_def)
      with Some clean show ?thesis
        by (cases "acceptsAcquire h n x b")
          (simp_all add: AcquireOp applyOp_def acquireAttempt_cases update_conv')
    qed
  next
    case (CompleteOp n j outcome)
    with op have j: "j \<noteq> i" by (simp add: endsFlight_def)
    show ?thesis
    proof (cases "\<exists>b. map_of (as_attempts s) j = Some b \<and> at_status b = AttemptInFlight")
      case False
      then show ?thesis using a by (simp add: CompleteOp applyOp_def completeAttempt_idle)
    next
      case True
      then obtain b where "map_of (as_attempts s) j = Some b" "at_status b = AttemptInFlight" by blast
      from completeAttempt_flight(1) [OF this] j a show ?thesis
        by (simp add: CompleteOp applyOp_def update_conv')
    qed
  qed
  with a I [OF Is] show ?thesis by (simp add: inFlight_def)
qed

subsection \<open>A key that cools down\<close>

definition coolingDown :: "string \<Rightarrow> int \<Rightarrow> AttemptStore \<Rightarrow> bool" where
  "coolingDown key until s \<longleftrightarrow>
     attemptInvariant s \<and> map_of (as_cooldownByKey s) key = Some until \<and> noLive key s"

lemma noLive_cleanup: "attemptInvariant s \<Longrightarrow> noLive key s \<Longrightarrow> noLive key (cleanup n s)"
  unfolding noLive_def using cleanup_live(1) by blast

lemma coolingDown_cleanup:
  assumes "coolingDown key until s" "n < until"
  shows "coolingDown key until (cleanup n s)"
  using assms cleanup_invariant [of s n] noLive_cleanup [of s key n]
  by (simp add: coolingDown_def cleanup_maps(3))

lemma noLive_released:
  assumes "attemptInvariant s" "noLive key s"
  shows "noLive key (releasedStore n k s)"
proof -
  have c: "noLive key (cleanup n s)" using noLive_cleanup [OF assms] .
  show ?thesis
  proof (cases "map_of (as_activeAttemptByKey (cleanup n s)) k")
    case None
    with c show ?thesis by (simp add: releasedStore_def)
  next
    case (Some i)
    have "noLive key (releaseActive k i (cleanup n s))"
      unfolding noLive_def
    proof (intro allI impI)
      fix j a assume a: "map_of (as_attempts (releaseActive k i (cleanup n s))) j = Some a" "at_key a = key"
      then obtain b where b: "map_of (as_attempts (cleanup n s)) j = Some b" "a = b \<or> a = closeAttempt b"
        by (auto simp: releaseActive_attempts split: if_splits)
      with c a(2) show "\<not> live a" unfolding noLive_def by auto
    qed
    with Some show ?thesis by (simp add: releasedStore_def)
  qed
qed

lemma coolingDown_prepare:
  assumes cd: "coolingDown key until s" "n < until" and x: "createAttemptKey x = key"
  shows "\<exists>e. snd (prepareAttempt c h i t n x s) = Inl (InvoiceEmailSendAttemptError e)"
    "fst (prepareAttempt c h i t n x s) = cleanup n s \<or> \<not> flightOf n key s \<and>
       fst (prepareAttempt c h i t n x s) = releasedStore n key s"
proof -
  have "map_of (as_cooldownByKey (releasedStore n key s)) key = Some until"
    using coolingDown_cleanup [OF cd] by (simp add: releasedStore_cooldown coolingDown_def)
  then have eq: "prepareAttempt c h i t n x s =
      (if flightOf n key s then (cleanup n s, Inl (InvoiceEmailSendAttemptError ''inProgress''))
       else (releasedStore n key s, Inl (InvoiceEmailSendAttemptError ''cooldown'')))"
    using cd(2) by (simp add: prepareAttempt_cases x)
  show "\<exists>e. snd (prepareAttempt c h i t n x s) = Inl (InvoiceEmailSendAttemptError e)"
    by (simp add: eq)
  show "fst (prepareAttempt c h i t n x s) = cleanup n s \<or> \<not> flightOf n key s \<and>
      fst (prepareAttempt c h i t n x s) = releasedStore n key s" by (simp add: eq)
qed

lemma noLive_acquire:
  assumes I: "attemptInvariant s" and none: "noLive key s" and x: "createAttemptKey x = key"
  shows "acquireAttempt h n x s = (cleanup n s, Inl (InvoiceEmailSendAttemptError ''invalidOrExpired''))"
proof (cases "map_of (as_attempts (cleanup n s)) (aq_attemptId x)")
  case None
  then show ?thesis by (simp add: acquireAttempt_cases)
next
  case (Some b)
  have "\<not> acceptsAcquire h n x b"
  proof
    assume "acceptsAcquire h n x b"
    then have "live b" "at_key b = key"
      using bindingsMatch_key [of b x] x attemptInvariantD(2) [OF cleanup_invariant [OF I] Some]
      by (simp_all add: acceptsAcquire_def live_def)
    with noLive_cleanup [OF I none, of n] Some show False unfolding noLive_def by blast
  qed
  with Some show ?thesis by (simp add: acquireAttempt_cases)
qed

definition opTime :: "AttemptOp \<Rightarrow> int" where
  "opTime op = (case op of PrepareOp i t n x \<Rightarrow> n | AcquireOp n x \<Rightarrow> n | CompleteOp n i outcome \<Rightarrow> n)"

lemma coolingDown_applyOp:
  assumes cd: "coolingDown key until s" and t: "opTime op < until"
  shows "coolingDown key until (applyOp c h s op)"
proof -
  from cd have I: "attemptInvariant s" and none: "noLive key s"
    and u: "map_of (as_cooldownByKey s) key = Some until" by (simp_all add: coolingDown_def)
  note I' = applyOp_invariant [OF I, of c h op]
  have "map_of (as_cooldownByKey (applyOp c h s op)) key = Some until \<and> noLive key (applyOp c h s op)"
  proof (cases op)
    case (PrepareOp i tk n x)
    with t have n: "n < until" by (simp add: opTime_def)
    note cc = coolingDown_cleanup [OF cd n]
    have clean: "map_of (as_cooldownByKey (cleanup n s)) key = Some until" "noLive key (cleanup n s)"
      using cc by (simp_all add: coolingDown_def)
    have rel: "map_of (as_cooldownByKey (releasedStore n k s)) key = Some until"
      "noLive key (releasedStore n k s)" for k
      using clean(1) noLive_released [OF I none] by (simp_all add: releasedStore_cooldown)
    show ?thesis
    proof (cases "createAttemptKey x = key")
      case True
      from coolingDown_prepare(2) [OF cd n True, of c h i tk] clean rel show ?thesis
        by (auto simp: PrepareOp applyOp_def)
    next
      case False
      show ?thesis
      proof (rule prepareAttempt_store [of n x s c h i tk])
        assume "fst (prepareAttempt c h i tk n x s) = cleanup n s"
        with clean show ?thesis by (simp add: PrepareOp applyOp_def)
      next
        assume "fst (prepareAttempt c h i tk n x s) = releasedStore n (createAttemptKey x) s"
        with rel show ?thesis by (simp add: PrepareOp applyOp_def)
      next
        assume r: "fst (prepareAttempt c h i tk n x s) =
          fst (registerAttempt c h i tk n x (releasedStore n (createAttemptKey x) s))"
        have "noLive key (fst (registerAttempt c h i tk n x (releasedStore n (createAttemptKey x) s)))"
          using rel(2) [of "createAttemptKey x"] False unfolding noLive_def registerAttempt_maps by auto
        with r rel(1) show ?thesis by (simp add: PrepareOp applyOp_def registerAttempt_maps)
      qed
    qed
  next
    case (AcquireOp n x)
    with t have n: "n < until" by (simp add: opTime_def)
    have clean: "map_of (as_cooldownByKey (cleanup n s)) key = Some until" "noLive key (cleanup n s)"
      using coolingDown_cleanup [OF cd n] by (simp_all add: coolingDown_def)
    show ?thesis
    proof (cases "map_of (as_attempts (cleanup n s)) (aq_attemptId x)")
      case None
      with clean show ?thesis by (simp add: AcquireOp applyOp_def acquireAttempt_cases)
    next
      case (Some b)
      have "at_key b \<noteq> key" if "acceptsAcquire h n x b"
        using that clean(2) Some unfolding noLive_def by (auto simp: acceptsAcquire_def live_def)
      with Some clean show ?thesis
        unfolding noLive_def by (auto simp: AcquireOp applyOp_def acquireAttempt_cases update_conv')
    qed
  next
    case (CompleteOp n i outcome)
    show ?thesis
    proof (cases "\<exists>b. map_of (as_attempts s) i = Some b \<and> at_status b = AttemptInFlight")
      case False
      with u none show ?thesis by (simp add: CompleteOp applyOp_def completeAttempt_idle)
    next
      case True
      then obtain b where b: "map_of (as_attempts s) i = Some b" "at_status b = AttemptInFlight" by blast
      then have "at_key b \<noteq> key" using none unfolding noLive_def live_def by auto
      with completeAttempt_flight [OF b, of c n outcome] u none show ?thesis
        unfolding noLive_def by (auto simp: CompleteOp applyOp_def update_conv' live_def)
    qed
  qed
  with I' show ?thesis by (simp add: coolingDown_def)
qed

lemma complete_cools:
  assumes f: "inFlight i key s" and o: "outcome \<noteq> DeliveryFailed"
  shows "coolingDown key (n + ac_cooldownMs c) (completeAttempt c n i outcome s)"
proof -
  from f obtain a where I: "attemptInvariant s"
    and a: "map_of (as_attempts s) i = Some a" "at_status a = AttemptInFlight" "at_key a = key"
    by (auto simp: inFlight_def)
  note m = completeAttempt_flight [OF a(1,2), of c n outcome]
  from o have "outcome = DeliverySucceeded \<or> outcome = DeliveryOutcomeUnknown" by (cases outcome) auto
  then have "map_of (as_cooldownByKey (completeAttempt c n i outcome s)) key = Some (n + ac_cooldownMs c)"
    using a(3) by (auto simp: m(3) update_conv')
  moreover have "noLive key (completeAttempt c n i outcome s)"
    unfolding noLive_def
  proof (intro allI impI)
    fix j b assume b: "map_of (as_attempts (completeAttempt c n i outcome s)) j = Some b" "at_key b = key"
    show "\<not> live b"
    proof (cases "j = i")
      case True
      with b m(1) show ?thesis by (auto simp: update_conv' live_def)
    next
      case False
      with b m(1) have j: "map_of (as_attempts s) j = Some b" by (simp add: update_conv')
      with one_live_attempt [OF I j a(1)] False a b(2) show ?thesis by (auto simp: live_def)
    qed
  qed
  ultimately show ?thesis using completeAttempt_invariant [OF I] by (simp add: coolingDown_def)
qed

subsection \<open>Identifiers\<close>

text \<open>
  Operations other than the registration of an attempt add neither attempts nor active
  entries and keep the key of an attempt.
\<close>

definition shrinks :: "AttemptStore \<Rightarrow> AttemptStore \<Rightarrow> bool" where
  "shrinks s s' \<longleftrightarrow>
     (\<forall>k j. map_of (as_activeAttemptByKey s') k = Some j \<longrightarrow> map_of (as_activeAttemptByKey s) k = Some j) \<and>
     (\<forall>j a. map_of (as_attempts s') j = Some a \<longrightarrow>
        (\<exists>b. map_of (as_attempts s) j = Some b \<and> at_key a = at_key b))"

lemma shrinks_refl: "shrinks s s"
  by (simp add: shrinks_def)

lemma shrinks_trans: "shrinks s s' \<Longrightarrow> shrinks s' s'' \<Longrightarrow> shrinks s s''"
  unfolding shrinks_def by metis

lemma shrinks_cleanup:
  assumes "attemptInvariant s"
  shows "shrinks s (cleanup n s)"
  unfolding shrinks_def
proof (intro conjI allI impI)
  fix k j assume "map_of (as_activeAttemptByKey (cleanup n s)) k = Some j"
  then show "map_of (as_activeAttemptByKey s) k = Some j"
    unfolding cleanup_maps(2) [OF assms] by (metis option.distinct(1))
next
  fix j a assume "map_of (as_attempts (cleanup n s)) j = Some a"
  then show "\<exists>b. map_of (as_attempts s) j = Some b \<and> at_key a = at_key b"
    by (auto simp: cleanup_maps [OF assms] cleanedAttempt_def Let_def Option.bind_eq_Some_conv split: if_splits)
qed

lemma shrinks_release: "shrinks s (releaseActive key i s)"
  unfolding shrinks_def releaseActive_attempts
  by (auto simp: releaseActive_def delete_conv' split: if_splits)

lemma shrinks_released:
  assumes "attemptInvariant s"
  shows "shrinks s (releasedStore n key s)"
  using shrinks_cleanup [OF assms, of n] shrinks_release shrinks_trans
  by (fastforce simp: releasedStore_def split: option.split)

lemma shrinks_acquire:
  assumes I: "attemptInvariant s"
  shows "shrinks s (fst (acquireAttempt h n x s))"
proof (rule shrinks_trans [OF shrinks_cleanup [OF I]])
  show "shrinks (cleanup n s) (fst (acquireAttempt h n x s))"
    by (auto simp: acquireAttempt_cases shrinks_def update_conv' split: option.split if_splits)
qed

lemma shrinks_complete: "shrinks s (completeAttempt c n i outcome s)"
  by (auto simp: completeAttempt_def shrinks_def update_conv' delete_conv' split: option.splits if_splits)

definition idInvariant :: "string set \<Rightarrow> AttemptStore \<Rightarrow> bool" where
  "idInvariant used s \<longleftrightarrow>
     attemptInvariant s \<and> dom (map_of (as_attempts s)) \<subseteq> used \<and>
     ran (map_of (as_activeAttemptByKey s)) \<subseteq> used \<and>
     (\<forall>k j a. map_of (as_activeAttemptByKey s) k = Some j \<longrightarrow> map_of (as_attempts s) j = Some a \<longrightarrow>
        at_key a = k)"

lemma idInvariant_shrinks:
  assumes i: "idInvariant used s" and s': "shrinks s s'" "attemptInvariant s'"
  shows "idInvariant used s'"
proof -
  have active: "map_of (as_activeAttemptByKey s) k = Some j"
    if "map_of (as_activeAttemptByKey s') k = Some j" for k j
    using that s'(1) unfolding shrinks_def by blast
  have attempts: "\<exists>b. map_of (as_attempts s) j = Some b \<and> at_key a = at_key b"
    if "map_of (as_attempts s') j = Some a" for j a
    using that s'(1) unfolding shrinks_def by blast
  have "dom (map_of (as_attempts s')) \<subseteq> used" using attempts i unfolding idInvariant_def by blast
  moreover have "ran (map_of (as_activeAttemptByKey s')) \<subseteq> used"
    using active i unfolding idInvariant_def ran_def by blast
  moreover have "\<forall>k j a. map_of (as_activeAttemptByKey s') k = Some j \<longrightarrow>
      map_of (as_attempts s') j = Some a \<longrightarrow> at_key a = k"
    using active attempts i unfolding idInvariant_def by metis
  ultimately show ?thesis using s'(2) unfolding idInvariant_def by blast
qed

lemma idInvariant_register:
  assumes i: "idInvariant used s" and new: "i \<notin> used" and I: "attemptInvariant (fst (registerAttempt c h i t n x s))"
  shows "idInvariant (insert i used) (fst (registerAttempt c h i t n x s))"
proof -
  let ?s = "fst (registerAttempt c h i t n x s)"
  from i new have none: "map_of (as_activeAttemptByKey s) k \<noteq> Some i" for k
    unfolding idInvariant_def ran_def by blast
  have "dom (map_of (as_attempts ?s)) \<subseteq> insert i used"
    using i by (auto simp: registerAttempt_maps idInvariant_def)
  moreover have "ran (map_of (as_activeAttemptByKey ?s)) \<subseteq> insert i used"
    using i by (auto simp: registerAttempt_maps idInvariant_def ran_def)
  moreover have "at_key a = k"
    if "map_of (as_activeAttemptByKey ?s) k = Some j" "map_of (as_attempts ?s) j = Some a" for k j a
    using that none i unfolding registerAttempt_maps idInvariant_def by (auto split: if_splits)
  ultimately show ?thesis using I unfolding idInvariant_def by blast
qed

definition preparedIds :: "AttemptOp list \<Rightarrow> string list" where
  "preparedIds ops =
     concat (map (\<lambda>op. case op of PrepareOp i t n x \<Rightarrow> [i] | AcquireOp n x \<Rightarrow> [] | CompleteOp n i outcome \<Rightarrow> []) ops)"

lemma idInvariant_applyOp:
  assumes i: "idInvariant used s" and fresh: "set (preparedIds [op]) \<inter> used = {}"
  shows "idInvariant (used \<union> set (preparedIds [op])) (applyOp c h s op)"
proof -
  have I: "attemptInvariant s" using i by (simp add: idInvariant_def)
  note I' = applyOp_invariant [OF I, of c h op]
  have mono: "idInvariant (used \<union> u) t" if "idInvariant used t" for u t
    using that unfolding idInvariant_def by blast
  show ?thesis
  proof (cases op)
    case (PrepareOp j t n x)
    from I' have I'': "attemptInvariant (fst (prepareAttempt c h j t n x s))" by (simp add: PrepareOp applyOp_def)
    show ?thesis
    proof (rule prepareAttempt_store [of n x s c h j t])
      assume "fst (prepareAttempt c h j t n x s) = cleanup n s"
      with mono [OF idInvariant_shrinks [OF i shrinks_cleanup [OF I] cleanup_invariant [OF I]]]
      show ?thesis by (simp add: PrepareOp applyOp_def)
    next
      assume r: "\<not> flightOf n (createAttemptKey x) s"
        "fst (prepareAttempt c h j t n x s) = releasedStore n (createAttemptKey x) s"
      with mono [OF idInvariant_shrinks [OF i shrinks_released [OF I] releasedStore_invariant(1) [OF I r(1)]]]
      show ?thesis by (simp add: PrepareOp applyOp_def)
    next
      assume r: "\<not> flightOf n (createAttemptKey x) s" "fst (prepareAttempt c h j t n x s) =
        fst (registerAttempt c h j t n x (releasedStore n (createAttemptKey x) s))"
      have "idInvariant (insert j used)
          (fst (registerAttempt c h j t n x (releasedStore n (createAttemptKey x) s)))"
        using fresh I'' r(2) releasedStore_invariant(1) [OF I r(1)]
        by (intro idInvariant_register idInvariant_shrinks [OF i shrinks_released [OF I]])
          (simp_all add: preparedIds_def PrepareOp)
      with r(2) show ?thesis by (simp add: PrepareOp applyOp_def preparedIds_def)
    qed
  next
    case (AcquireOp n x)
    with mono [OF idInvariant_shrinks [OF i shrinks_acquire [OF I]]] I' show ?thesis
      by (simp add: applyOp_def)
  next
    case (CompleteOp n j outcome)
    with mono [OF idInvariant_shrinks [OF i shrinks_complete]] I' show ?thesis
      by (simp add: applyOp_def)
  qed
qed

lemma idInvariant_runOps:
  assumes "idInvariant used s" "distinct (preparedIds ops)" "set (preparedIds ops) \<inter> used = {}"
  shows "idInvariant (used \<union> set (preparedIds ops)) (runOps c h ops s)"
  using assms
proof (induction ops arbitrary: used s)
  case Nil
  then show ?case by (simp add: preparedIds_def)
next
  case (Cons op ops)
  have split: "preparedIds (op # ops) = preparedIds [op] @ preparedIds ops" by (simp add: preparedIds_def)
  from Cons.prems have "idInvariant (used \<union> set (preparedIds [op])) (applyOp c h s op)"
    by (intro idInvariant_applyOp) (auto simp: split)
  from Cons.IH [OF this] Cons.prems have
    "idInvariant (used \<union> set (preparedIds [op]) \<union> set (preparedIds ops)) (runOps c h (op # ops) s)"
    by (auto simp: split)
  then show ?case by (simp add: split Un_assoc)
qed

lemma empty_idInvariant: "idInvariant {} emptyAttemptStore"
  using emptyAttemptStore_invariant by (simp add: idInvariant_def emptyAttemptStore_def)

end
