(* ===== verification/EmailProperties.thy ===== *)
theory EmailProperties
  imports EmailAttempts
begin

text \<open>
  An authorisation that was given out is honoured, and the properties of the store of
  delivery attempts.
\<close>

section \<open>An authorisation stays valid\<close>

definition authorised :: "string \<Rightarrow> string \<Rightarrow> StoredAttempt \<Rightarrow> AttemptStore \<Rightarrow> bool" where
  "authorised i key a s \<longleftrightarrow>
     attemptInvariant s \<and> map_of (as_attempts s) i = Some a \<and> at_status a = AttemptPrepared \<and>
     at_key a = key \<and> (\<forall>k. map_of (as_activeAttemptByKey s) k = Some i \<longrightarrow> k = key)"

text \<open>
  What takes an authorisation away before it expires: a new preparation for its key, its own
  use, or a new attempt with its identifier. A failed use does not.
\<close>

definition takesAuthorisation ::
    "(string \<Rightarrow> nat list) \<Rightarrow> string \<Rightarrow> StoredAttempt \<Rightarrow> AttemptOp \<Rightarrow> bool" where
  "takesAuthorisation h i a op =
     (case op of
        PrepareOp j t n x \<Rightarrow> j = i \<or> createAttemptKey x = at_key a
      | AcquireOp n x \<Rightarrow>
          aq_attemptId x = i \<and> bindingsMatch a x \<and>
          at_authorizationTokenHash a = h (aq_authorizationToken x)
      | CompleteOp n j outcome \<Rightarrow> False)"

lemma authorised_cleanup:
  assumes a: "authorised i key a s" and n: "n < at_authorizationExpiresAtMs a"
  shows "map_of (as_attempts (cleanup n s)) i = Some a"
  using a n by (intro cleanup_keeps) (auto simp: authorised_def live_def expiredAttempt_def)

lemma authorised_applyOp:
  assumes a: "authorised i key a s" and t: "opTime op < at_authorizationExpiresAtMs a"
    and op: "\<not> takesAuthorisation h i a op"
  shows "authorised i key a (applyOp c h s op)"
proof -
  from a have I: "attemptInvariant s" and s: "map_of (as_attempts s) i = Some a" "at_status a = AttemptPrepared"
      "at_key a = key" and active: "\<And>k. map_of (as_activeAttemptByKey s) k = Some i \<Longrightarrow> k = key"
    by (auto simp: authorised_def)
  note I' = applyOp_invariant [OF I, of c h op]
  have old: "k = key" if "shrinks s s'" "map_of (as_activeAttemptByKey s') k = Some i" for s' k
    using that active unfolding shrinks_def by blast
  have "map_of (as_attempts (applyOp c h s op)) i = Some a \<and>
      (\<forall>k. map_of (as_activeAttemptByKey (applyOp c h s op)) k = Some i \<longrightarrow> k = key)"
  proof (cases op)
    case (PrepareOp j tk n x)
    with t op s(3) have n: "n < at_authorizationExpiresAtMs a" and j: "j \<noteq> i" and k: "createAttemptKey x \<noteq> key"
      by (auto simp: opTime_def takesAuthorisation_def)
    note clean = authorised_cleanup [OF a n] and sc = shrinks_cleanup [OF I, of n]
    have rel: "map_of (as_attempts (releasedStore n (createAttemptKey x) s)) i = Some a"
    proof (cases "map_of (as_activeAttemptByKey (cleanup n s)) (createAttemptKey x)")
      case None
      with clean show ?thesis by (simp add: releasedStore_def)
    next
      case (Some m)
      with old [OF sc, of "createAttemptKey x"] k have "m \<noteq> i" by blast
      with Some clean show ?thesis by (simp add: releasedStore_def releaseActive_attempts)
    qed
    note sr = shrinks_released [OF I, of n "createAttemptKey x"]
    show ?thesis
    proof (rule prepareAttempt_store [of n x s c h j tk])
      assume "fst (prepareAttempt c h j tk n x s) = cleanup n s"
      with clean old [OF sc] show ?thesis by (simp add: PrepareOp applyOp_def)
    next
      assume "fst (prepareAttempt c h j tk n x s) = releasedStore n (createAttemptKey x) s"
      with rel old [OF sr] show ?thesis by (simp add: PrepareOp applyOp_def)
    next
      assume "fst (prepareAttempt c h j tk n x s) =
        fst (registerAttempt c h j tk n x (releasedStore n (createAttemptKey x) s))"
      with rel old [OF sr] j show ?thesis
        by (simp add: PrepareOp applyOp_def registerAttempt_maps)
    qed
  next
    case (AcquireOp n x)
    with t have n: "n < at_authorizationExpiresAtMs a" by (simp add: opTime_def)
    note clean = authorised_cleanup [OF a n]
    have "map_of (as_attempts (fst (acquireAttempt h n x s))) i = Some a"
    proof (cases "map_of (as_attempts (cleanup n s)) (aq_attemptId x)")
      case None
      with clean show ?thesis by (simp add: acquireAttempt_cases)
    next
      case (Some b)
      have "i \<noteq> aq_attemptId x" if "acceptsAcquire h n x b"
        using that Some clean op AcquireOp by (auto simp: acceptsAcquire_def takesAuthorisation_def)
      with Some clean show ?thesis
        by (cases "acceptsAcquire h n x b") (simp_all add: acquireAttempt_cases update_conv')
    qed
    with old [OF shrinks_acquire [OF I]] show ?thesis by (simp add: AcquireOp applyOp_def)
  next
    case (CompleteOp n j outcome)
    have "map_of (as_attempts (completeAttempt c n j outcome s)) i = Some a"
    proof (cases "\<exists>b. map_of (as_attempts s) j = Some b \<and> at_status b = AttemptInFlight")
      case False
      with s show ?thesis by (simp add: completeAttempt_idle)
    next
      case True
      then obtain b where b: "map_of (as_attempts s) j = Some b" "at_status b = AttemptInFlight" by blast
      with s(1,2) have "i \<noteq> j" by auto
      with completeAttempt_flight(1) [OF b, of c n outcome] s(1) show ?thesis by (simp add: update_conv')
    qed
    with old [OF shrinks_complete] show ?thesis by (simp add: CompleteOp applyOp_def)
  qed
  with I' s show ?thesis by (simp add: authorised_def)
qed

lemma authorised_runOps:
  assumes "authorised i key a s"
    and "\<forall>op \<in> set ops. opTime op < at_authorizationExpiresAtMs a \<and> \<not> takesAuthorisation h i a op"
  shows "authorised i key a (runOps c h ops s)"
  using assms by (intro runOps_keeps [of "authorised i key a"]) (auto intro: authorised_applyOp)

text \<open>The request that uses an authorisation.\<close>

definition useRequest :: "PrepareAttemptInput \<Rightarrow> string \<Rightarrow> string \<Rightarrow> AcquireAttemptInput" where
  "useRequest x i t = PrepareAttemptInput.extend x (AcquireAttemptInput.fields i t)"

lemma useRequest_frame [simp]:
  "aq_attemptId (useRequest x i t) = i" "aq_authorizationToken (useRequest x i t) = t"
  "bindingsMatch (newAttempt c h j tk n x) (useRequest x i t)"
  "createAttemptKey (useRequest x i t) = createAttemptKey x"
  by (simp_all add: useRequest_def bindingsMatch_def newAttempt_def PrepareAttemptInput.extend_def
      AcquireAttemptInput.fields_def StoredAttempt.fields_def createAttemptKey_def)

lemma authorised_acquire:
  assumes a: "authorised i key (newAttempt c h i t n x) s" and m: "m < n + ac_authorizationLifetimeMs c"
  shows "snd (acquireAttempt h m (useRequest x i t) s) = Inr ()"
proof -
  have "map_of (as_attempts (cleanup m s)) i = Some (newAttempt c h i t n x)"
    using authorised_cleanup [OF a] m by simp
  moreover have "acceptsAcquire h m (useRequest x i t) (newAttempt c h i t n x)"
    using m by (simp add: acceptsAcquire_def)
  ultimately show ?thesis by (simp add: acquireAttempt_cases)
qed

lemma prepare_authorises:
  assumes ids: "idInvariant used s" "i \<notin> used"
    and idle: "\<not> (\<exists>j. inFlight j (createAttemptKey x) s)"
    and cool: "\<And>u. map_of (as_cooldownByKey s) (createAttemptKey x) = Some u \<Longrightarrow> u \<le> n"
  shows "authorised i (createAttemptKey x) (newAttempt c h i t n x) (fst (prepareAttempt c h i t n x s))"
    "snd (prepareAttempt c h i t n x s) =
       andThen (dateToISOString (timeClip (n + ac_authorizationLifetimeMs c))) (\<lambda>e.
         Inr \<lparr>pa_attemptId = i, pa_authorizationToken = t, pa_expiresAt = e\<rparr>)"
proof -
  let ?k = "createAttemptKey x" and ?r = "releasedStore n (createAttemptKey x) s"
  have I: "attemptInvariant s" using ids(1) by (simp add: idInvariant_def)
  have f: "\<not> flightOf n ?k s"
  proof
    assume "flightOf n ?k s"
    then obtain j a where j: "map_of (as_activeAttemptByKey (cleanup n s)) ?k = Some j"
        "map_of (as_attempts (cleanup n s)) j = Some a" "at_status a = AttemptInFlight"
      by (auto simp: flightOf_iff)
    have "idInvariant used (cleanup n s)"
      by (rule idInvariant_shrinks [OF ids(1) shrinks_cleanup [OF I] cleanup_invariant [OF I]])
    with j have "at_key a = ?k" unfolding idInvariant_def by blast
    moreover have "map_of (as_attempts s) j = Some a"
      using cleanup_live(1) [OF I j(2)] j(3) by (simp add: live_def)
    ultimately have "inFlight j ?k s" using I j(3) by (simp add: inFlight_def)
    with idle show False by blast
  qed
  have "map_of (as_cooldownByKey ?r) ?k = None"
    using cool unfolding releasedStore_cooldown cleanup_maps(3) [OF I] by (auto split: option.split)
  with f have p: "prepareAttempt c h i t n x s = registerAttempt c h i t n x ?r"
    by (simp add: prepareAttempt_cases)
  show "snd (prepareAttempt c h i t n x s) =
      andThen (dateToISOString (timeClip (n + ac_authorizationLifetimeMs c))) (\<lambda>e.
        Inr \<lparr>pa_attemptId = i, pa_authorizationToken = t, pa_expiresAt = e\<rparr>)"
    by (simp add: p registerAttempt_def)
  have R: "idInvariant used ?r"
    by (rule idInvariant_shrinks [OF ids(1) shrinks_released [OF I] releasedStore_invariant(1) [OF I f]])
  then have none: "map_of (as_activeAttemptByKey ?r) k \<noteq> Some i" for k
    using ids(2) unfolding idInvariant_def ran_def by blast
  have "attemptInvariant (fst (prepareAttempt c h i t n x s))" by (rule prepareAttempt_invariant [OF I])
  then show "authorised i ?k (newAttempt c h i t n x) (fst (prepareAttempt c h i t n x s))"
    using none by (simp add: authorised_def p registerAttempt_maps)
qed

section \<open>Properties\<close>

text \<open>
  C35: Deliveries of one invoice through one provider never overlap. After an attempt was
  acquired, and until it is completed, every preparation for the same company, invoice and
  provider fails as in progress and every acquisition fails, whatever the other operations
  and the readings of the clock.
\<close>

theorem one_delivery_at_a_time:
  assumes "acquireAttempt h n x (runOps c h ops emptyAttemptStore) = (s, Inr ())"
    and "\<forall>op \<in> set ops'. \<not> endsFlight (aq_attemptId x) op"
    and "createAttemptKey y = createAttemptKey x" "createAttemptKey z = createAttemptKey x"
  shows "snd (prepareAttempt c h i t n' y (runOps c h ops' s)) =
      Inl (InvoiceEmailSendAttemptError ''inProgress'') \<and>
    snd (acquireAttempt h n' z (runOps c h ops' s)) =
      Inl (InvoiceEmailSendAttemptError ''invalidOrExpired'')"
proof -
  let ?s = "runOps c h ops emptyAttemptStore"
  note I = runOps_invariant [of c h ops]
  from assms(1) obtain a where a: "map_of (as_attempts (cleanup n ?s)) (aq_attemptId x) = Some a"
      "acceptsAcquire h n x a"
    and s: "s = (cleanup n ?s)\<lparr>as_attempts := AList.update (aq_attemptId x) (flyingAttempt a)
      (as_attempts (cleanup n ?s))\<rparr>"
    by (auto simp: acquireAttempt_cases split: option.splits if_splits)
  have "attemptInvariant s" using acquireAttempt_invariant [OF I, of h n x] assms(1) by simp
  moreover have "at_key a = createAttemptKey x"
    using attemptInvariantD(2) [OF cleanup_invariant [OF I] a(1)] a(2) bindingsMatch_key [of a x]
    by (simp add: acceptsAcquire_def)
  ultimately have "inFlight (aq_attemptId x) (createAttemptKey x) s"
    by (simp add: inFlight_def s update_conv')
  then have f: "inFlight (aq_attemptId x) (createAttemptKey x) (runOps c h ops' s)"
    using assms(2) by (intro runOps_keeps [of "inFlight (aq_attemptId x) (createAttemptKey x)"])
      (auto intro: inFlight_applyOp)
  show ?thesis
    using inFlight_prepare [OF f assms(3), of c h i t n'] inFlight_acquire [OF f assms(4), of h n'] by simp
qed

definition exampleHash :: "string \<Rightarrow> nat list" where
  "exampleHash s = map (\<lambda>c. of_char c) s"

definition examplePrepare :: PrepareAttemptInput where
  "examplePrepare =
     \<lparr>at_actorId = ''u'', at_companyId = ''acme'', at_invoiceId = ''i1'', at_mode = CustomerMode,
      at_provider = ''dnaSmtp'', at_recipient = ''a@b.fi'', at_requestFingerprint = ''f''\<rparr>"

theorem one_delivery_at_a_time_witness:
  "snd (prepareAttempt defaultAttemptConfig exampleHash ''a2'' ''t2'' 3000 examplePrepare
     (runOps defaultAttemptConfig exampleHash [AcquireOp 2000 (useRequest examplePrepare ''a1'' ''t1'')]
       (fst (acquireAttempt exampleHash 2000 (useRequest examplePrepare ''a1'' ''t1'')
         (runOps defaultAttemptConfig exampleHash [PrepareOp ''a1'' ''t1'' 1000 examplePrepare]
           emptyAttemptStore))))) =
   Inl (InvoiceEmailSendAttemptError ''inProgress'')"
proof -
  let ?x = "useRequest examplePrepare ''a1'' ''t1''"
  let ?s = "runOps defaultAttemptConfig exampleHash [PrepareOp ''a1'' ''t1'' 1000 examplePrepare] emptyAttemptStore"
  have "snd (acquireAttempt exampleHash 2000 ?x ?s) = Inr ()" by code_simp
  then have "acquireAttempt exampleHash 2000 ?x ?s = (fst (acquireAttempt exampleHash 2000 ?x ?s), Inr ())"
    by (metis prod.collapse)
  from one_delivery_at_a_time [OF this, of "[AcquireOp 2000 ?x]" examplePrepare ?x] show ?thesis
    by (simp add: endsFlight_def)
qed

text \<open>
  C36: After a delivery that succeeded or whose outcome is unknown, the key cools down: for
  every reading of the clock before the end of the cooldown nothing can be prepared or
  acquired for it, whatever else happens.
\<close>

theorem no_delivery_during_cooldown:
  assumes "inFlight i (createAttemptKey x) (runOps c h ops emptyAttemptStore)" "outcome \<noteq> DeliveryFailed"
    and "\<forall>op \<in> set ops'. opTime op < n + ac_cooldownMs c" "n' < n + ac_cooldownMs c"
    and "createAttemptKey y = createAttemptKey x" "createAttemptKey z = createAttemptKey x"
  defines "s \<equiv> runOps c h (CompleteOp n i outcome # ops') (runOps c h ops emptyAttemptStore)"
  shows "(\<exists>e. snd (prepareAttempt c h j t n' y s) = Inl (InvoiceEmailSendAttemptError e)) \<and>
    snd (acquireAttempt h n' z s) = Inl (InvoiceEmailSendAttemptError ''invalidOrExpired'')"
proof -
  have "coolingDown (createAttemptKey x) (n + ac_cooldownMs c)
      (applyOp c h (runOps c h ops emptyAttemptStore) (CompleteOp n i outcome))"
    using complete_cools [OF assms(1,2)] by (simp add: applyOp_def)
  then have cd: "coolingDown (createAttemptKey x) (n + ac_cooldownMs c) s"
    unfolding s_def runOps_simps using assms(3)
    by (intro runOps_keeps [of "coolingDown (createAttemptKey x) (n + ac_cooldownMs c)"])
      (auto intro: coolingDown_applyOp)
  then have "attemptInvariant s" "noLive (createAttemptKey x) s" by (simp_all add: coolingDown_def)
  with coolingDown_prepare(1) [OF cd assms(4,5)] noLive_acquire [of s _ z h n'] assms(6)
  show ?thesis by simp
qed

theorem no_delivery_during_cooldown_witness:
  "\<exists>e. snd (prepareAttempt defaultAttemptConfig exampleHash ''a2'' ''t2'' 12999 examplePrepare
     (runOps defaultAttemptConfig exampleHash [CompleteOp 3000 ''a1'' DeliverySucceeded]
       (runOps defaultAttemptConfig exampleHash
         [PrepareOp ''a1'' ''t1'' 1000 examplePrepare, AcquireOp 2000 (useRequest examplePrepare ''a1'' ''t1'')]
         emptyAttemptStore))) = Inl (InvoiceEmailSendAttemptError e)"
proof -
  let ?ops = "[PrepareOp ''a1'' ''t1'' 1000 examplePrepare,
    AcquireOp 2000 (useRequest examplePrepare ''a1'' ''t1'')]"
  let ?s = "runOps defaultAttemptConfig exampleHash ?ops emptyAttemptStore"
  have "map_option (\<lambda>a. (at_status a, at_key a)) (map_of (as_attempts ?s) ''a1'') =
      Some (AttemptInFlight, createAttemptKey examplePrepare)" by code_simp
  then have "inFlight ''a1'' (createAttemptKey examplePrepare) ?s"
    using runOps_invariant unfolding inFlight_def map_option_eq_Some by blast
  from no_delivery_during_cooldown [OF this, where outcome = DeliverySucceeded and ops' = "[]"
      and n = 3000 and n' = 12999 and y = examplePrepare and j = "''a2''" and t = "''t2''"
      and z = "useRequest examplePrepare ''a1'' ''t1''"]
  show ?thesis by (simp add: defaultAttemptConfig_def)
qed

text \<open>
  C37: An authorisation is given whenever no delivery is in flight and no cooldown runs, and
  it is honoured: until it expires, the request it was given for can acquire it, whatever
  operations happen in between, as long as none of them prepares the same key again or uses
  the authorisation. Identifiers of attempts are never repeated.
\<close>

theorem authorisation_is_honoured:
  assumes "distinct (preparedIds ops)" "i \<notin> set (preparedIds ops)"
    and "\<not> (\<exists>j. inFlight j (createAttemptKey x) (runOps c h ops emptyAttemptStore))"
    and "\<And>u. map_of (as_cooldownByKey (runOps c h ops emptyAttemptStore)) (createAttemptKey x) = Some u \<Longrightarrow> u \<le> n"
    and "timeClip (n + ac_authorizationLifetimeMs c) \<noteq> None"
  shows "\<exists>s p. prepareAttempt c h i t n x (runOps c h ops emptyAttemptStore) = (s, Inr p) \<and>
    pa_attemptId p = i \<and> pa_authorizationToken p = t \<and>
    (\<forall>ops' m.
       (\<forall>op \<in> set ops'. opTime op < n + ac_authorizationLifetimeMs c \<and>
          \<not> takesAuthorisation h i (newAttempt c h i t n x) op) \<longrightarrow>
       m < n + ac_authorizationLifetimeMs c \<longrightarrow>
       snd (acquireAttempt h m (useRequest x i t) (runOps c h ops' s)) = Inr ())"
proof -
  let ?s = "runOps c h ops emptyAttemptStore"
  have ids: "idInvariant (set (preparedIds ops)) ?s"
    using idInvariant_runOps [OF empty_idInvariant assms(1)] by simp
  note p = prepare_authorises [OF ids assms(2,3,4), where c = c and h = h and t = t]
  have "succeeds (snd (prepareAttempt c h i t n x ?s))"
    using assms(5) by (auto simp: p(2) dateToISOString_def succeeds_iff)
  then obtain e where e: "snd (prepareAttempt c h i t n x ?s) =
      Inr \<lparr>pa_attemptId = i, pa_authorizationToken = t, pa_expiresAt = e\<rparr>"
    by (auto simp: p(2) succeeds_iff andThen_eq_Inr)
  have "snd (acquireAttempt h m (useRequest x i t) (runOps c h ops' (fst (prepareAttempt c h i t n x ?s)))) = Inr ()"
    if "\<forall>op \<in> set ops'. opTime op < n + ac_authorizationLifetimeMs c \<and>
        \<not> takesAuthorisation h i (newAttempt c h i t n x) op"
      "m < n + ac_authorizationLifetimeMs c" for ops' m
    using authorised_runOps [OF p(1)] that by (intro authorised_acquire) simp_all
  then show ?thesis
    by (intro exI [of _ "fst (prepareAttempt c h i t n x ?s)"]
        exI [of _ "\<lparr>pa_attemptId = i, pa_authorizationToken = t, pa_expiresAt = e\<rparr>"])
      (simp add: e [symmetric])
qed

theorem authorisation_is_honoured_witness:
  "snd (acquireAttempt exampleHash 59999 (useRequest examplePrepare ''a1'' ''t1'')
     (runOps defaultAttemptConfig exampleHash
       [AcquireOp 2000 (useRequest examplePrepare ''a1'' ''guess''), CompleteOp 3000 ''a1'' DeliveryFailed]
       (fst (prepareAttempt defaultAttemptConfig exampleHash ''a1'' ''t1'' 0 examplePrepare
         (runOps defaultAttemptConfig exampleHash [] emptyAttemptStore))))) = Inr ()"
proof -
  have none: "\<not> (\<exists>j. inFlight j (createAttemptKey examplePrepare)
      (runOps defaultAttemptConfig exampleHash [] emptyAttemptStore))"
    by (simp add: inFlight_def emptyAttemptStore_def)
  have hashes: "exampleHash ''t1'' \<noteq> exampleHash ''guess''" by code_simp
  obtain s p where s: "prepareAttempt defaultAttemptConfig exampleHash ''a1'' ''t1'' 0 examplePrepare
      (runOps defaultAttemptConfig exampleHash [] emptyAttemptStore) = (s, Inr p)"
    and ok: "\<And>ops' m. (\<forall>op \<in> set ops'. opTime op < 0 + ac_authorizationLifetimeMs defaultAttemptConfig \<and>
          \<not> takesAuthorisation exampleHash ''a1''
            (newAttempt defaultAttemptConfig exampleHash ''a1'' ''t1'' 0 examplePrepare) op) \<Longrightarrow>
       m < 0 + ac_authorizationLifetimeMs defaultAttemptConfig \<Longrightarrow>
       snd (acquireAttempt exampleHash m (useRequest examplePrepare ''a1'' ''t1'')
         (runOps defaultAttemptConfig exampleHash ops' s)) = Inr ()"
    using authorisation_is_honoured [OF _ _ none, where i = "''a1''" and n = 0 and t = "''t1''"]
    by (auto simp: preparedIds_def emptyAttemptStore_def timeClip_def defaultAttemptConfig_def)
  have "snd (acquireAttempt exampleHash 59999 (useRequest examplePrepare ''a1'' ''t1'')
     (runOps defaultAttemptConfig exampleHash
       [AcquireOp 2000 (useRequest examplePrepare ''a1'' ''guess''), CompleteOp 3000 ''a1'' DeliveryFailed] s)) = Inr ()"
    using hashes by (intro ok) (auto simp: opTime_def takesAuthorisation_def defaultAttemptConfig_def)
  with s show ?thesis by simp
qed

end
