(* ===== verification/InvoiceSettings.thy ===== *)
theory InvoiceSettings
  imports NumberingSettings DraftUse "HOL-Library.Product_Lexorder"
begin

text \<open>
  The settings a company keeps for its invoices besides the numbering: the defaults of the
  payment terms (invoicePaymentSettings.ts, sqliteInvoicePaymentSettingsRepository.ts,
  get- and updateInvoicePaymentSettings.ts) and the VAT rates it offers
  (invoiceVatRates.ts, sqliteInvoiceVatRateRepository.ts, get- and updateInvoiceVatRates.ts).
  The two tables stand beside those of the numbering, whose audit table they share.
\<close>

section \<open>Data\<close>

record StoredInvoicePaymentSettings = InvoicePaymentSettings +
  ps_companyId :: string
  ps_createdAt :: string
  ps_updatedAt :: string

record InvoicePaymentSettingsView = InvoicePaymentSettings +
  ps_isPersisted :: bool

record InvoicePaymentSettingsRow =
  rp_company_id :: string
  rp_default_late_payment_interest_basis_points :: number
  rp_default_reminder_period_days :: number
  rp_created_at :: string
  rp_updated_at :: string

record InvoiceVatRateSetting =
  vs_rateBasisPoints :: number
  vs_label :: string
  vs_isActive :: bool
  vs_isDefault :: bool
  vs_sortOrder :: number

record StoredInvoiceVatRate = InvoiceVatRateSetting +
  vs_companyId :: string
  vs_createdAt :: string
  vs_updatedAt :: string

record InvoiceVatRateRow =
  rv_company_id :: string
  rv_rate_basis_points :: number
  rv_label :: string
  rv_is_active :: number
  rv_is_default :: number
  rv_sort_order :: number
  rv_created_at :: string
  rv_updated_at :: string

record InvoiceVatRatesView =
  vv_vatRates :: "InvoiceVatRateSetting list"
  vv_isPersisted :: bool

record SettingsDatabase =
  sd_numbering :: NumberingDatabase
  sd_paymentSettings :: "InvoicePaymentSettingsRow list"
  sd_vatRates :: "InvoiceVatRateRow list"

section \<open>Payment settings\<close>

definition requirePaymentRange :: "number \<Rightarrow> string \<Rightarrow> number \<Rightarrow> number \<Rightarrow> unit result" where
  "requirePaymentRange v fieldName minimum maximum =
     (if \<not> isSafeInteger v then
        Inl (InvoicePaymentSettingsError (fieldName @ '' must be a safe integer.''))
      else if v < minimum \<or> v > maximum then
        Inl (InvoicePaymentSettingsError
          (fieldName @ '' must be between '' @ showNat (nat minimum) @ '' and '' @
           showNat (nat maximum) @ ''.''))
      else Inr ())"

definition validateInvoicePaymentSettings :: "('a) InvoicePaymentSettings_scheme \<Rightarrow> unit result" where
  "validateInvoicePaymentSettings settings =
     andThen (requirePaymentRange (ps_defaultLatePaymentInterestBasisPoints settings)
               ''Default late payment interest'' 0 maxLatePaymentInterestBasisPoints) (\<lambda>_.
     requirePaymentRange (ps_defaultReminderPeriodDays settings)
       ''Default reminder period days'' 0 maxReminderPeriodDays)"

definition toInvoicePaymentSettingsRow ::
    "StoredInvoicePaymentSettings \<Rightarrow> InvoicePaymentSettingsRow" where
  "toInvoicePaymentSettingsRow settings =
     \<lparr>rp_company_id = ps_companyId settings,
      rp_default_late_payment_interest_basis_points =
        ps_defaultLatePaymentInterestBasisPoints settings,
      rp_default_reminder_period_days = ps_defaultReminderPeriodDays settings,
      rp_created_at = ps_createdAt settings, rp_updated_at = ps_updatedAt settings\<rparr>"

definition toStoredInvoicePaymentSettings ::
    "InvoicePaymentSettingsRow \<Rightarrow> StoredInvoicePaymentSettings" where
  "toStoredInvoicePaymentSettings row =
     \<lparr>ps_defaultLatePaymentInterestBasisPoints =
        rp_default_late_payment_interest_basis_points row,
      ps_defaultReminderPeriodDays = rp_default_reminder_period_days row,
      ps_companyId = rp_company_id row,
      ps_createdAt = rp_created_at row, ps_updatedAt = rp_updated_at row\<rparr>"

definition getPaymentSettings ::
    "SettingsDatabase \<Rightarrow> string \<Rightarrow> StoredInvoicePaymentSettings option" where
  "getPaymentSettings db companyId =
     map_option toStoredInvoicePaymentSettings
       (rowWith rp_company_id companyId (sd_paymentSettings db))"

text \<open>The constraints of the table (012\_create\_invoice\_payment\_settings.sql).\<close>

definition paymentSettingsRowAccepted :: "InvoicePaymentSettingsRow \<Rightarrow> bool" where
  "paymentSettingsRowAccepted row \<longleftrightarrow>
     0 \<le> rp_default_late_payment_interest_basis_points row \<and>
     rp_default_late_payment_interest_basis_points row \<le> 100000 \<and>
     0 \<le> rp_default_reminder_period_days row \<and> rp_default_reminder_period_days row \<le> 365"

definition mergePaymentSettings ::
    "InvoicePaymentSettingsRow \<Rightarrow> InvoicePaymentSettingsRow \<Rightarrow> InvoicePaymentSettingsRow" where
  "mergePaymentSettings old excluded =
     old\<lparr>rp_default_late_payment_interest_basis_points :=
           rp_default_late_payment_interest_basis_points excluded,
         rp_default_reminder_period_days := rp_default_reminder_period_days excluded,
         rp_updated_at := rp_updated_at excluded\<rparr>"

definition savePaymentSettings ::
    "SettingsDatabase \<Rightarrow> StoredInvoicePaymentSettings \<Rightarrow> InvoiceSettingsAuditEvent \<Rightarrow>
     (SettingsDatabase \<times> StoredInvoicePaymentSettings) result" where
  "savePaymentSettings db settings auditEvent =
     (if length (trim (ps_companyId settings)) = 0
      then Inl (InvoicePaymentSettingsError ''Company id must not be empty.'')
      else
     andThen (validateInvoicePaymentSettings settings) (\<lambda>_.
     let row = toInvoicePaymentSettingsRow settings in
     if \<not> paymentSettingsRowAccepted row
     then Inl (SqliteError ''invoice_payment_settings'')
     else
     andThen (insertInvoiceSettingsAuditEvent (sd_numbering db) auditEvent
               ''invoicePaymentSettings.updated'' (ps_companyId settings)) (\<lambda>numbering.
     let db' = db\<lparr>sd_numbering := numbering,
       sd_paymentSettings :=
         upsertRow rp_company_id mergePaymentSettings row (sd_paymentSettings db)\<rparr> in
     case getPaymentSettings db' (ps_companyId settings) of
       None \<Rightarrow> Inl (InvoicePaymentSettingsError ''Saved invoice payment settings were not found.'')
     | Some savedSettings \<Rightarrow> Inr (db', savedSettings))))"

definition toInvoicePaymentSettingsView ::
    "StoredInvoicePaymentSettings option \<Rightarrow> InvoicePaymentSettingsView" where
  "toInvoicePaymentSettingsView settings =
     (case settings of
        None \<Rightarrow> InvoicePaymentSettings.extend defaultInvoicePaymentSettings
          (InvoicePaymentSettingsView.fields False)
      | Some s \<Rightarrow>
          \<lparr>ps_defaultLatePaymentInterestBasisPoints = ps_defaultLatePaymentInterestBasisPoints s,
           ps_defaultReminderPeriodDays = ps_defaultReminderPeriodDays s, ps_isPersisted = True\<rparr>)"

record UpdateInvoicePaymentSettingsInput =
  up_actorContext :: ActorContext
  up_defaultLatePaymentInterestBasisPoints :: number
  up_defaultReminderPeriodDays :: number
  up_now :: string

definition requireNonEmptyPaymentValue :: "string \<Rightarrow> string \<Rightarrow> string result" where
  "requireNonEmptyPaymentValue v fieldName =
     (let normalizedValue = trim v in
      if length normalizedValue = 0
      then Inl (InvoicePaymentSettingsApplicationError (fieldName @ '' is required.''))
      else Inr normalizedValue)"

definition toPaymentSettings :: "UpdateInvoicePaymentSettingsInput \<Rightarrow> InvoicePaymentSettings" where
  "toPaymentSettings input =
     \<lparr>ps_defaultLatePaymentInterestBasisPoints = up_defaultLatePaymentInterestBasisPoints input,
      ps_defaultReminderPeriodDays = up_defaultReminderPeriodDays input\<rparr>"

definition createStoredPaymentSettings ::
    "UpdateInvoicePaymentSettingsInput \<Rightarrow> string \<Rightarrow> StoredInvoicePaymentSettings option \<Rightarrow>
     StoredInvoicePaymentSettings result" where
  "createStoredPaymentSettings input companyId currentSettings =
     andThen (case currentSettings of
         Some s \<Rightarrow> Inr (ps_createdAt s)
       | None \<Rightarrow> requireNonEmptyPaymentValue (up_now input) ''Timestamp'') (\<lambda>createdAt.
     andThen (requireNonEmptyPaymentValue (up_now input) ''Timestamp'') (\<lambda>updatedAt.
     Inr (InvoicePaymentSettings.extend (toPaymentSettings input)
       (StoredInvoicePaymentSettings.fields companyId createdAt updatedAt))))"

definition updateInvoicePaymentSettings ::
    "string \<Rightarrow> SettingsDatabase \<Rightarrow> UpdateInvoicePaymentSettingsInput \<Rightarrow>
     (SettingsDatabase \<times> InvoicePaymentSettingsView) result" where
  "updateInvoicePaymentSettings randomUUID db input =
     andThen (requirePermission (up_actorContext input) ''manageInvoiceSettings'') (\<lambda>_.
     andThen (requireNonEmptyPaymentValue (ac_companyId (up_actorContext input)) ''Company id'')
       (\<lambda>companyId.
     andThen (requireNonEmptyPaymentValue (up_now input) ''Timestamp'') (\<lambda>now.
     andThen (validateInvoicePaymentSettings (toPaymentSettings input)) (\<lambda>_.
     let currentSettings = getPaymentSettings db companyId in
     andThen (case currentSettings of
         None \<Rightarrow> Inr () | Some s \<Rightarrow> validateInvoicePaymentSettings s) (\<lambda>_.
     andThen (createStoredPaymentSettings input companyId currentSettings) (\<lambda>stored.
     andThen (savePaymentSettings db stored
               (createInvoiceSettingsAuditEvent randomUUID ''invoicePaymentSettings.updated''
                 (ac_actorId (up_actorContext input)) companyId now)) (\<lambda>(db', savedSettings).
     andThen (validateInvoicePaymentSettings savedSettings) (\<lambda>_.
     Inr (db', toInvoicePaymentSettingsView (Some savedSettings))))))))))"

definition getInvoicePaymentSettings ::
    "SettingsDatabase \<Rightarrow> string \<Rightarrow> InvoicePaymentSettingsView result" where
  "getInvoicePaymentSettings db companyId =
     (let normalizedCompanyId = trim companyId in
      if length normalizedCompanyId = 0
      then Inl (InvoicePaymentSettingsApplicationError ''Company id is required.'')
      else
      let settings = getPaymentSettings db normalizedCompanyId in
      andThen (case settings of
          None \<Rightarrow> Inr () | Some s \<Rightarrow> validateInvoicePaymentSettings s) (\<lambda>_.
      Inr (toInvoicePaymentSettingsView settings)))"

section \<open>VAT rates\<close>

definition createDefaultRate :: "number \<Rightarrow> string \<Rightarrow> bool \<Rightarrow> number \<Rightarrow> InvoiceVatRateSetting" where
  "createDefaultRate rateBasisPoints label isDefault sortOrder =
     \<lparr>vs_rateBasisPoints = rateBasisPoints, vs_label = label, vs_isActive = True,
      vs_isDefault = isDefault, vs_sortOrder = sortOrder\<rparr>"

definition defaultInvoiceVatRates :: "InvoiceVatRateSetting list" where
  "defaultInvoiceVatRates =
     [createDefaultRate 2550 ''25,50 %'' True 0, createDefaultRate 1350 ''13,50 %'' False 1,
      createDefaultRate 1000 ''10,00 %'' False 2, createDefaultRate 0 ''0,00 %'' False 3]"

definition validateVatRateInteger :: "number \<Rightarrow> number \<Rightarrow> number \<Rightarrow> string \<Rightarrow> unit result" where
  "validateVatRateInteger v minimum maximum fieldName =
     (if \<not> isSafeInteger v \<or> v < minimum \<or> v > maximum
      then Inl (InvoiceVatRatesError (fieldName @ '' is invalid.'')) else Inr ())"

text \<open>The body of the loop, over the rates seen and the number of defaults.\<close>

definition validateVatRateStep ::
    "number list \<times> nat \<Rightarrow> ('a) InvoiceVatRateSetting_scheme \<Rightarrow> (number list \<times> nat) result" where
  "validateVatRateStep state vatRate =
     (let seenRates = fst state; defaultCount = snd state in
      andThen (validateVatRateInteger (vs_rateBasisPoints vatRate) 0 10000 ''VAT rate'') (\<lambda>_.
      andThen (validateVatRateInteger (vs_sortOrder vatRate) 0 1000 ''VAT rate sort order'') (\<lambda>_.
      if vs_rateBasisPoints vatRate \<in> set seenRates
      then Inl (InvoiceVatRatesError ''Invoice VAT rates must be unique.'')
      else if vs_label vatRate \<noteq> trim (vs_label vatRate) \<or> length (vs_label vatRate) < 1 \<or>
        length (vs_label vatRate) > 50 \<or>
        (\<exists>c \<in> set (vs_label vatRate). of_char c \<in> {13, 10, 0 :: nat})
      then Inl (InvoiceVatRatesError ''Invoice VAT rate label is invalid.'')
      else if vs_isDefault vatRate \<and> \<not> vs_isActive vatRate
      then Inl (InvoiceVatRatesError ''Default invoice VAT rate must be active.'')
      else Inr (vs_rateBasisPoints vatRate # seenRates,
                if vs_isDefault vatRate then defaultCount + 1 else defaultCount))))"

definition validateInvoiceVatRates :: "('a) InvoiceVatRateSetting_scheme list \<Rightarrow> unit result" where
  "validateInvoiceVatRates vatRates =
     (if length vatRates < 1 \<or> length vatRates > 20
      then Inl (InvoiceVatRatesError ''Invoice VAT rates must contain between 1 and 20 items.'')
      else
     andThen (foldR validateVatRateStep ([], 0) vatRates) (\<lambda>(seenRates, defaultCount).
     if defaultCount \<noteq> 1
     then Inl (InvoiceVatRatesError ''Invoice VAT rates must have exactly one default.'')
     else Inr ()))"

definition compareVatRates ::
    "('a) InvoiceVatRateSetting_scheme \<Rightarrow> ('a) InvoiceVatRateSetting_scheme \<Rightarrow> int" where
  "compareVatRates left right =
     (if vs_sortOrder left - vs_sortOrder right \<noteq> 0
      then vs_sortOrder left - vs_sortOrder right
      else vs_rateBasisPoints right - vs_rateBasisPoints left)"

definition sortInvoiceVatRates ::
    "('a) InvoiceVatRateSetting_scheme list \<Rightarrow> ('a) InvoiceVatRateSetting_scheme list" where
  "sortInvoiceVatRates vatRates = jsSort compareVatRates vatRates"

definition toInvoiceVatRateRow :: "StoredInvoiceVatRate \<Rightarrow> InvoiceVatRateRow" where
  "toInvoiceVatRateRow vatRate =
     \<lparr>rv_company_id = vs_companyId vatRate, rv_rate_basis_points = vs_rateBasisPoints vatRate,
      rv_label = vs_label vatRate, rv_is_active = (if vs_isActive vatRate then 1 else 0),
      rv_is_default = (if vs_isDefault vatRate then 1 else 0),
      rv_sort_order = vs_sortOrder vatRate,
      rv_created_at = vs_createdAt vatRate, rv_updated_at = vs_updatedAt vatRate\<rparr>"

definition toStoredInvoiceVatRate :: "InvoiceVatRateRow \<Rightarrow> StoredInvoiceVatRate" where
  "toStoredInvoiceVatRate row =
     \<lparr>vs_rateBasisPoints = rv_rate_basis_points row, vs_label = rv_label row,
      vs_isActive = (rv_is_active row = 1), vs_isDefault = (rv_is_default row = 1),
      vs_sortOrder = rv_sort_order row, vs_companyId = rv_company_id row,
      vs_createdAt = rv_created_at row, vs_updatedAt = rv_updated_at row\<rparr>"

definition requireVatRateCompany :: "string \<Rightarrow> unit result" where
  "requireVatRateCompany companyId =
     (if length (trim companyId) = 0
      then Inl (InvoiceVatRatesError ''Company id must not be empty.'') else Inr ())"

definition listRates :: "SettingsDatabase \<Rightarrow> string \<Rightarrow> StoredInvoiceVatRate list result" where
  "listRates db companyId =
     andThen (requireVatRateCompany companyId) (\<lambda>_.
     Inr (map toStoredInvoiceVatRate
       (sort_key (\<lambda>r. (rv_sort_order r, - rv_rate_basis_points r))
         (filter (\<lambda>r. rv_company_id r = companyId) (sd_vatRates db)))))"

text \<open>The constraints of the table (029\_create\_invoice\_vat\_rates.sql).\<close>

definition vatRateRowAccepted :: "InvoiceVatRateRow list \<Rightarrow> InvoiceVatRateRow \<Rightarrow> bool" where
  "vatRateRowAccepted rows row \<longleftrightarrow>
     0 \<le> rv_rate_basis_points row \<and> rv_rate_basis_points row \<le> 10000 \<and>
     sqlLength (rv_label row) \<in> {1 .. 50} \<and>
     rv_is_active row \<in> {0, 1} \<and> rv_is_default row \<in> {0, 1} \<and>
     0 \<le> rv_sort_order row \<and> rv_sort_order row \<le> 1000 \<and>
     (\<forall>r \<in> set rows. rv_company_id r = rv_company_id row \<longrightarrow>
        rv_rate_basis_points r \<noteq> rv_rate_basis_points row \<and>
        \<not> (rv_is_default r = 1 \<and> rv_is_default row = 1))"

definition insertVatRate ::
    "InvoiceVatRateRow list \<Rightarrow> StoredInvoiceVatRate \<Rightarrow> InvoiceVatRateRow list result" where
  "insertVatRate rows vatRate =
     (let row = toInvoiceVatRateRow vatRate in
      if vatRateRowAccepted rows row then Inr (rows @ [row])
      else Inl (SqliteError ''invoice_vat_rates''))"

definition replaceRates ::
    "SettingsDatabase \<Rightarrow> string \<Rightarrow> StoredInvoiceVatRate list \<Rightarrow> InvoiceSettingsAuditEvent \<Rightarrow>
     (SettingsDatabase \<times> StoredInvoiceVatRate list) result" where
  "replaceRates db companyId vatRates auditEvent =
     andThen (requireVatRateCompany companyId) (\<lambda>_.
     andThen (validateInvoiceVatRates vatRates) (\<lambda>_.
     if \<exists>vatRate \<in> set vatRates. vs_companyId vatRate \<noteq> companyId
     then Inl (InvoiceVatRatesError ''Invoice VAT rate company id is invalid.'')
     else
     andThen (foldR insertVatRate
               (filter (\<lambda>r. rv_company_id r \<noteq> companyId) (sd_vatRates db))
               (sortInvoiceVatRates vatRates)) (\<lambda>rows.
     andThen (insertInvoiceSettingsAuditEvent (sd_numbering db) auditEvent
               ''invoiceVatRates.updated'' companyId) (\<lambda>numbering.
     let db' = db\<lparr>sd_numbering := numbering, sd_vatRates := rows\<rparr> in
     andThen (listRates db' companyId) (\<lambda>rates. Inr (db', rates))))))"

record UpdateInvoiceVatRatesInput =
  uv_actorContext :: ActorContext
  uv_now :: string
  uv_vatRates :: "InvoiceVatRateSetting list"

definition normalizeRate :: "InvoiceVatRateSetting \<Rightarrow> InvoiceVatRateSetting" where
  "normalizeRate vatRate = vatRate\<lparr>vs_label := trim (vs_label vatRate)\<rparr>"

definition toViewRate :: "('a) InvoiceVatRateSetting_scheme \<Rightarrow> InvoiceVatRateSetting" where
  "toViewRate vatRate =
     \<lparr>vs_rateBasisPoints = vs_rateBasisPoints vatRate, vs_label = vs_label vatRate,
      vs_isActive = vs_isActive vatRate, vs_isDefault = vs_isDefault vatRate,
      vs_sortOrder = vs_sortOrder vatRate\<rparr>"

text \<open>The Map of the creation times by rate, a later entry replacing an earlier one.\<close>

definition createdAtByRate :: "StoredInvoiceVatRate list \<Rightarrow> (number \<times> string) list" where
  "createdAtByRate currentRates =
     fold (\<lambda>r. AList.update (vs_rateBasisPoints r) (vs_createdAt r)) currentRates []"

definition updateInvoiceVatRates ::
    "string \<Rightarrow> SettingsDatabase \<Rightarrow> UpdateInvoiceVatRatesInput \<Rightarrow>
     (SettingsDatabase \<times> InvoiceVatRatesView) result" where
  "updateInvoiceVatRates randomUUID db input =
     andThen (requirePermission (uv_actorContext input) ''manageInvoiceSettings'') (\<lambda>_.
     andThen (requireIdentifier (ac_companyId (uv_actorContext input)) ''Company id'') (\<lambda>companyId.
     andThen (requireIdentifier (uv_now input) ''Timestamp'') (\<lambda>now.
     let normalizedRates = map normalizeRate (uv_vatRates input) in
     andThen (validateInvoiceVatRates normalizedRates) (\<lambda>_.
     andThen (listRates db companyId) (\<lambda>currentRates.
     let createdAt = createdAtByRate currentRates;
         storedRates = map (\<lambda>vatRate. InvoiceVatRateSetting.extend vatRate
           (StoredInvoiceVatRate.fields companyId
             (case map_of createdAt (vs_rateBasisPoints vatRate) of Some t \<Rightarrow> t | None \<Rightarrow> now)
             now)) normalizedRates in
     andThen (replaceRates db companyId storedRates
               (createInvoiceSettingsAuditEvent randomUUID ''invoiceVatRates.updated''
                 (ac_actorId (uv_actorContext input)) companyId now)) (\<lambda>(db', savedRates).
     andThen (validateInvoiceVatRates savedRates) (\<lambda>_.
     Inr (db', \<lparr>vv_vatRates = map toViewRate (sortInvoiceVatRates savedRates),
                vv_isPersisted = True\<rparr>))))))))"

definition getInvoiceVatRates ::
    "SettingsDatabase \<Rightarrow> ActorContext \<Rightarrow> InvoiceVatRatesView result" where
  "getInvoiceVatRates db actorContext =
     andThen (requirePermission actorContext ''manageInvoiceSettings'') (\<lambda>_.
     andThen (requireIdentifier (ac_companyId actorContext) ''Company id'') (\<lambda>companyId.
     andThen (listRates db companyId) (\<lambda>storedRates.
     if length storedRates = 0
     then Inr \<lparr>vv_vatRates = defaultInvoiceVatRates, vv_isPersisted = False\<rparr>
     else
     andThen (validateInvoiceVatRates storedRates) (\<lambda>_.
     Inr \<lparr>vv_vatRates = map toViewRate (sortInvoiceVatRates storedRates),
          vv_isPersisted = True\<rparr>))))"

end
