(* ===== verification/InvoiceSettingsCorrect.thy ===== *)
theory InvoiceSettingsCorrect
  imports InvoiceSettings
begin

text \<open>
  What the settings requests of InvoiceSettings compute: which lists of rates are valid, that
  the database accepts every valid list, and what is read after an update.
\<close>

section \<open>Sorting\<close>

lemma jsInsert_order:
  "(\<And>x y. cmp x y \<le> 0 \<longleftrightarrow> f x \<le> f y) \<Longrightarrow> jsInsert cmp x ys = insort_key f x ys"
  by (induction ys) auto

lemma jsSort_order:
  assumes "\<And>x y. cmp x y \<le> 0 \<longleftrightarrow> f x \<le> f y"
  shows "jsSort cmp xs = sort_key f xs"
proof -
  have "jsInsert cmp = insort_key f" using assms by (intro ext jsInsert_order)
  then show ?thesis by (simp add: jsSort_def sort_key_def)
qed

lemma sort_key_sorted: "sorted (map f xs) \<Longrightarrow> sort_key f xs = xs"
  by (induction xs) (simp_all add: insort_is_Cons)

definition rateOrder :: "('a) InvoiceVatRateSetting_scheme \<Rightarrow> number \<times> number" where
  "rateOrder r = (vs_sortOrder r, - vs_rateBasisPoints r)"

lemma sortInvoiceVatRates_key: "sortInvoiceVatRates rs = sort_key rateOrder rs"
  unfolding sortInvoiceVatRates_def
  by (rule jsSort_order) (auto simp: compareVatRates_def rateOrder_def less_eq_prod_def)

lemma sortInvoiceVatRates_set [simp]: "set (sortInvoiceVatRates rs) = set rs"
  by (simp add: sortInvoiceVatRates_def)

lemma sortInvoiceVatRates_idem [simp]: "sortInvoiceVatRates (sortInvoiceVatRates rs) = sortInvoiceVatRates rs"
  by (simp add: sortInvoiceVatRates_key sort_key_sorted)

lemma map_sort_key: "(\<And>x. g (h x) = f x) \<Longrightarrow> map h (sort_key f xs) = sort_key g (map h xs)"
proof -
  assume g: "\<And>x. g (h x) = f x"
  have "map h (insort_key f x ys) = insort_key g (h x) (map h ys)" for x ys
    by (induction ys) (simp_all add: g)
  then show ?thesis by (induction xs) simp_all
qed

section \<open>Valid lists of rates\<close>

definition validVatRate :: "('a) InvoiceVatRateSetting_scheme \<Rightarrow> bool" where
  "validVatRate r \<longleftrightarrow>
     0 \<le> vs_rateBasisPoints r \<and> vs_rateBasisPoints r \<le> 10000 \<and>
     0 \<le> vs_sortOrder r \<and> vs_sortOrder r \<le> 1000 \<and>
     trimmed (vs_label r) \<and> length (vs_label r) \<in> {1 .. 50} \<and>
     (\<forall>c \<in> set (vs_label r). of_char c \<notin> {13, 10, 0 :: nat}) \<and>
     (vs_isDefault r \<longrightarrow> vs_isActive r)"

definition validVatRates :: "('a) InvoiceVatRateSetting_scheme list \<Rightarrow> bool" where
  "validVatRates rs \<longleftrightarrow>
     length rs \<in> {1 .. 20} \<and> (\<forall>r \<in> set rs. validVatRate r) \<and>
     distinct (map vs_rateBasisPoints rs) \<and> length (filter vs_isDefault rs) = 1"

lemma validateVatRateInteger_ok:
  "0 \<le> a \<Longrightarrow> b \<le> 10000 \<Longrightarrow> validateVatRateInteger v a b f = Inr u \<longleftrightarrow> a \<le> v \<and> v \<le> b"
  by (auto simp: validateVatRateInteger_def isSafeInteger_def MAX_SAFE_INTEGER_def)

lemma validateVatRateStep_ok:
  "validateVatRateStep st r = Inr st' \<longleftrightarrow>
     validVatRate r \<and> vs_rateBasisPoints r \<notin> set (fst st) \<and>
     st' = (vs_rateBasisPoints r # fst st, snd st + (if vs_isDefault r then 1 else 0))"
  by (auto simp: validateVatRateStep_def Let_def andThen_eq_Inr validateVatRateInteger_ok
      validVatRate_def trim_eq_iff [symmetric] Suc_le_eq split: if_splits)

lemma validateVatRates_loop:
  "foldR validateVatRateStep st rs = Inr st' \<longleftrightarrow>
     (\<forall>r \<in> set rs. validVatRate r) \<and> distinct (map vs_rateBasisPoints rs) \<and>
     (\<forall>r \<in> set rs. vs_rateBasisPoints r \<notin> set (fst st)) \<and>
     st' = (rev (map vs_rateBasisPoints rs) @ fst st, snd st + length (filter vs_isDefault rs))"
proof (induction rs arbitrary: st)
  case Nil
  then show ?case by auto
next
  case (Cons r rs)
  have "(\<forall>x \<in> set rs. vs_rateBasisPoints x \<notin> set (vs_rateBasisPoints r # fst st)) \<longleftrightarrow>
      vs_rateBasisPoints r \<notin> vs_rateBasisPoints ` set rs \<and>
      (\<forall>x \<in> set rs. vs_rateBasisPoints x \<notin> set (fst st))"
    unfolding image_iff list.set insert_iff by metis
  then show ?case by (simp add: andThen_eq_Inr validateVatRateStep_ok Cons.IH) blast
qed

lemma validateInvoiceVatRates_ok [result_simps]:
  "validateInvoiceVatRates rs = Inr u \<longleftrightarrow> validVatRates rs"
  by (auto simp: validateInvoiceVatRates_def validVatRates_def andThen_eq_Inr validateVatRates_loop
      Suc_le_eq)

lemma validVatRates_mset:
  assumes "mset rs = mset rs'"
  shows "validVatRates rs \<longleftrightarrow> validVatRates rs'"
proof -
  have "mset (map vs_rateBasisPoints rs) = mset (map vs_rateBasisPoints rs')"
    "size (filter_mset vs_isDefault (mset rs)) = size (filter_mset vs_isDefault (mset rs'))"
    using assms by simp_all
  then have "distinct (map vs_rateBasisPoints rs) = distinct (map vs_rateBasisPoints rs')"
    "length (filter vs_isDefault rs) = length (filter vs_isDefault rs')"
    using mset_eq_imp_distinct_iff by (blast, metis mset_filter size_mset)
  with assms mset_eq_length [OF assms] mset_eq_setD [OF assms] show ?thesis
    by (simp add: validVatRates_def)
qed

lemma validVatRates_sort [simp]: "validVatRates (sortInvoiceVatRates rs) = validVatRates rs"
  by (rule validVatRates_mset) (simp add: sortInvoiceVatRates_def)

lemma validVatRates_map:
  assumes "\<And>r. r \<in> set rs \<Longrightarrow> toViewRate (f r) = toViewRate r"
  shows "validVatRates (map f rs) \<longleftrightarrow> validVatRates rs"
proof -
  have e: "vs_rateBasisPoints (f r) = vs_rateBasisPoints r" "validVatRate (f r) = validVatRate r"
    "vs_isDefault (f r) = vs_isDefault r" if "r \<in> set rs" for r
    using assms [OF that] by (simp_all add: toViewRate_def validVatRate_def)
  have m: "map vs_rateBasisPoints (map f rs) = map vs_rateBasisPoints rs"
    using e by simp
  have "length (filter vs_isDefault (map f rs)) = length (filter (\<lambda>r. vs_isDefault (f r)) rs)"
    by (simp add: filter_map comp_def)
  also have "\<dots> = length (filter vs_isDefault rs)"
    using e by (metis (mono_tags, lifting) filter_cong)
  finally show ?thesis using e unfolding validVatRates_def m by auto
qed

section \<open>Storing rates\<close>

lemma toStoredInvoiceVatRate_row [simp]: "toStoredInvoiceVatRate (toInvoiceVatRateRow r) = r"
  by (simp add: toStoredInvoiceVatRate_def toInvoiceVatRateRow_def)

lemma sqlLength_plain: "\<forall>c \<in> set s. of_char c \<noteq> (0 :: nat) \<Longrightarrow> sqlLength s = length s"
  by (simp add: sqlLength_def code_def takeWhile_eq_all_conv [THEN iffD2])

lemma insertVatRates_accepts:
  assumes "\<forall>r \<in> set rs. validVatRate r \<and> vs_companyId r = companyId"
    and "distinct (map vs_rateBasisPoints rs)" "length (filter vs_isDefault rs) \<le> 1"
    and "\<forall>r \<in> set base. rv_company_id r = companyId \<longrightarrow>
      rv_rate_basis_points r \<notin> vs_rateBasisPoints ` set rs \<and>
      (rv_is_default r = 1 \<longrightarrow> filter vs_isDefault rs = [])"
  shows "foldR insertVatRate base rs = Inr (base @ map toInvoiceVatRateRow rs)"
  using assms
proof (induction rs arbitrary: base)
  case Nil
  then show ?case by simp
next
  case (Cons r rs)
  have "vatRateRowAccepted base (toInvoiceVatRateRow r)"
    using Cons.prems
    by (auto simp: vatRateRowAccepted_def toInvoiceVatRateRow_def validVatRate_def sqlLength_plain)
  moreover have "foldR insertVatRate (base @ [toInvoiceVatRateRow r]) rs =
      Inr ((base @ [toInvoiceVatRateRow r]) @ map toInvoiceVatRateRow rs)"
  proof (rule Cons.IH)
    show "\<forall>x \<in> set (base @ [toInvoiceVatRateRow r]). rv_company_id x = companyId \<longrightarrow>
        rv_rate_basis_points x \<notin> vs_rateBasisPoints ` set rs \<and>
        (rv_is_default x = 1 \<longrightarrow> filter vs_isDefault rs = [])"
      using Cons.prems by (auto simp: toInvoiceVatRateRow_def split: if_splits)
  qed (use Cons.prems in \<open>auto split: if_splits\<close>)
  ultimately show ?case by (simp add: insertVatRate_def [of base])
qed

lemma listRates_eq:
  "listRates db c = (if trim c = [] then Inl (InvoiceVatRatesError ''Company id must not be empty.'')
     else Inr (sortInvoiceVatRates
       (map toStoredInvoiceVatRate (filter (\<lambda>r. rv_company_id r = c) (sd_vatRates db)))))"
proof -
  have "map toStoredInvoiceVatRate (sort_key (\<lambda>r. (rv_sort_order r, - rv_rate_basis_points r)) rows) =
      sort_key rateOrder (map toStoredInvoiceVatRate rows)" for rows
    by (rule map_sort_key) (simp add: rateOrder_def toStoredInvoiceVatRate_def)
  then show ?thesis
    by (simp add: listRates_def requireVatRateCompany_def sortInvoiceVatRates_key)
qed

lemma replaceRates_ok:
  assumes "\<forall>r \<in> set rs. vs_companyId r = c" and "trim c \<noteq> []"
  shows "replaceRates db c rs e = Inr (db', rates) \<longleftrightarrow>
     validVatRates rs \<and> validateAuditEvent e ''invoiceVatRates.updated'' c = Inr () \<and>
     auditRowAccepted (db_settingsAudit (sd_numbering db)) e \<and>
     db' = db\<lparr>sd_numbering := (sd_numbering db)
                \<lparr>db_settingsAudit := db_settingsAudit (sd_numbering db) @ [e]\<rparr>,
              sd_vatRates := filter (\<lambda>r. rv_company_id r \<noteq> c) (sd_vatRates db) @
                map toInvoiceVatRateRow (sortInvoiceVatRates rs)\<rparr> \<and>
     rates = sortInvoiceVatRates rs"
proof -
  let ?base = "filter (\<lambda>r. rv_company_id r \<noteq> c) (sd_vatRates db)"
  have fold: "foldR insertVatRate ?base (sortInvoiceVatRates rs) =
      Inr (?base @ map toInvoiceVatRateRow (sortInvoiceVatRates rs))" if "validVatRates rs"
  proof (rule insertVatRates_accepts [where companyId = c])
    from that have v: "validVatRates (sortInvoiceVatRates rs)" by simp
    then show "\<forall>r \<in> set (sortInvoiceVatRates rs). validVatRate r \<and> vs_companyId r = c"
      "distinct (map vs_rateBasisPoints (sortInvoiceVatRates rs))"
      "length (filter vs_isDefault (sortInvoiceVatRates rs)) \<le> 1"
      using assms by (auto simp: validVatRates_def)
  qed simp
  have own: "filter (\<lambda>r. rv_company_id r = c) (?base @ map toInvoiceVatRateRow (sortInvoiceVatRates rs)) =
      map toInvoiceVatRateRow (sortInvoiceVatRates rs)"
    using assms(1) by (simp add: filter_map filter_id_conv comp_def toInvoiceVatRateRow_def)
  have "map toStoredInvoiceVatRate (map toInvoiceVatRateRow rs') = rs'" for rs'
    by (simp add: map_idI)
  with own have list: "listRates (db\<lparr>sd_numbering := n, sd_vatRates :=
      ?base @ map toInvoiceVatRateRow (sortInvoiceVatRates rs)\<rparr>) c = Inr (sortInvoiceVatRates rs)" for n
    using assms(2) by (simp add: listRates_eq del: map_map filter_append)
  show ?thesis
  proof (cases "validVatRates rs")
    case True
    then show ?thesis
      using assms fold list
      by (auto simp: replaceRates_def andThen_eq_Inr requireVatRateCompany_def insertAudit_eq_Inr
          validateInvoiceVatRates_ok Let_def)
  next
    case False
    then show ?thesis by (auto simp: replaceRates_def andThen_eq_Inr validateInvoiceVatRates_ok)
  qed
qed

section \<open>Updating rates\<close>

text \<open>What an update stores: the trimmed rates, with the time each rate was first created.\<close>

definition createdAtOf :: "StoredInvoiceVatRate list \<Rightarrow> string \<Rightarrow> number \<Rightarrow> string" where
  "createdAtOf current now rate =
     (case map_of (createdAtByRate current) rate of Some t \<Rightarrow> t | None \<Rightarrow> now)"

definition storedVatRate :: "string \<Rightarrow> string \<Rightarrow> string \<Rightarrow> InvoiceVatRateSetting \<Rightarrow> StoredInvoiceVatRate" where
  "storedVatRate companyId createdAt now r =
     InvoiceVatRateSetting.extend r (StoredInvoiceVatRate.fields companyId createdAt now)"

lemma toViewRate_stored [simp]: "toViewRate (storedVatRate c t n r) = r"
  "toViewRate (r :: InvoiceVatRateSetting) = r" "vs_companyId (storedVatRate c t n r) = c"
  "vs_rateBasisPoints (storedVatRate c t n r) = vs_rateBasisPoints r"
  by (simp_all add: toViewRate_def storedVatRate_def InvoiceVatRateSetting.extend_def
      StoredInvoiceVatRate.fields_def)

lemma rateOrder_toViewRate [simp]: "rateOrder (toViewRate r) = rateOrder r"
  by (simp add: rateOrder_def toViewRate_def)

lemma sort_toViewRate: "map toViewRate (sortInvoiceVatRates rs) = sortInvoiceVatRates (map toViewRate rs)"
  unfolding sortInvoiceVatRates_key by (rule map_sort_key) simp

definition currentRates :: "SettingsDatabase \<Rightarrow> string \<Rightarrow> StoredInvoiceVatRate list" where
  "currentRates db c = sortInvoiceVatRates
     (map toStoredInvoiceVatRate (filter (\<lambda>r. rv_company_id r = c) (sd_vatRates db)))"

lemma updateInvoiceVatRates_ok:
  fixes input and uuid and db :: SettingsDatabase
  defines "c \<equiv> trim (ac_companyId (uv_actorContext input))" and "now \<equiv> trim (uv_now input)"
    and "actor \<equiv> ac_actorId (uv_actorContext input)" and "rates \<equiv> map normalizeRate (uv_vatRates input)"
  defines "stored \<equiv> map (\<lambda>r. storedVatRate c (createdAtOf (currentRates db c) now (vs_rateBasisPoints r)) now r) rates"
    and "event \<equiv> createInvoiceSettingsAuditEvent uuid ''invoiceVatRates.updated'' actor c now"
  shows "updateInvoiceVatRates uuid db input = Inr (db', view) \<longleftrightarrow>
     ''manageInvoiceSettings'' \<in> set (ac_permissions (uv_actorContext input)) \<and>
     c \<noteq> [] \<and> length c \<le> 200 \<and> now \<noteq> [] \<and> length now \<le> 200 \<and> validVatRates rates \<and>
     validateAuditEvent event ''invoiceVatRates.updated'' c = Inr () \<and>
     auditRowAccepted (db_settingsAudit (sd_numbering db)) event \<and>
     db' = db\<lparr>sd_numbering := (sd_numbering db)
                \<lparr>db_settingsAudit := db_settingsAudit (sd_numbering db) @ [event]\<rparr>,
              sd_vatRates := filter (\<lambda>r. rv_company_id r \<noteq> c) (sd_vatRates db) @
                map toInvoiceVatRateRow (sortInvoiceVatRates stored)\<rparr> \<and>
     view = \<lparr>vv_vatRates = sortInvoiceVatRates rates, vv_isPersisted = True\<rparr>"
proof -
  have valid: "validVatRates stored \<longleftrightarrow> validVatRates rates"
    unfolding stored_def by (rule validVatRates_map) simp
  have view: "map toViewRate (sortInvoiceVatRates stored) = sortInvoiceVatRates rates"
    by (simp add: sort_toViewRate stored_def comp_def)
  have c: "trim c \<noteq> [] \<longleftrightarrow> c \<noteq> []" by (simp add: c_def)
  have perm: "''manageInvoiceSettings'' \<in> set permissionValues" by code_simp
  have stored: "map (\<lambda>vatRate. InvoiceVatRateSetting.extend vatRate (StoredInvoiceVatRate.fields c
      (case map_of (createdAtByRate (currentRates db c)) (vs_rateBasisPoints vatRate) of Some t \<Rightarrow> t | None \<Rightarrow> now) now))
      rates = stored"
    by (simp add: stored_def storedVatRate_def createdAtOf_def)
  have comp: "\<forall>r \<in> set stored. vs_companyId r = c" by (simp add: stored_def)
  show ?thesis
  proof (cases "c = []")
    case True
    then show ?thesis
      by (simp add: updateInvoiceVatRates_def andThen_eq_Inr requireIdentifier_ok c_def)
  next
    case False
    with c have tc: "trim c \<noteq> []" by simp
    have cur: "listRates db c = Inr (currentRates db c)"
      using tc by (simp add: listRates_eq currentRates_def)
    show ?thesis
      unfolding updateInvoiceVatRates_def andThen_eq_Inr requireIdentifier_ok requirePermission_ok
      unfolding c_def [symmetric] now_def [symmetric]
      apply (simp add: perm cur stored c_def [symmetric] now_def [symmetric] rates_def [symmetric]
          Let_def actor_def [symmetric] event_def [symmetric] andThen_eq_Inr validateInvoiceVatRates_ok
          split_paired_Ex replaceRates_ok [OF comp tc] valid view False)
      apply blast
      done
  qed
qed

end
