(* ===== verification/InvoiceSettingsProperties.thy ===== *)
theory InvoiceSettingsProperties
  imports InvoiceSettingsCorrect
begin

text \<open>
  The round trips of the settings requests: what an update of the VAT rates or of the payment
  settings stores is what the next read returns, for its company and for no other.
\<close>

section \<open>Payment settings\<close>

lemma requirePaymentRange_ok:
  "\<bar>a\<bar> \<le> 100000 \<Longrightarrow> \<bar>b\<bar> \<le> 100000 \<Longrightarrow> requirePaymentRange v f a b = Inr u \<longleftrightarrow> a \<le> v \<and> v \<le> b"
  by (auto simp: requirePaymentRange_def isSafeInteger_def MAX_SAFE_INTEGER_def)

definition validPaymentSettings :: "('a) InvoicePaymentSettings_scheme \<Rightarrow> bool" where
  "validPaymentSettings s \<longleftrightarrow>
     0 \<le> ps_defaultLatePaymentInterestBasisPoints s \<and> ps_defaultLatePaymentInterestBasisPoints s \<le> 100000 \<and>
     0 \<le> ps_defaultReminderPeriodDays s \<and> ps_defaultReminderPeriodDays s \<le> 365"

lemma validateInvoicePaymentSettings_ok [result_simps]:
  "validateInvoicePaymentSettings s = Inr u \<longleftrightarrow> validPaymentSettings s"
  by (auto simp: validateInvoicePaymentSettings_def andThen_eq_Inr requirePaymentRange_ok
      validPaymentSettings_def maxLatePaymentInterestBasisPoints_def maxReminderPeriodDays_def)

interpretation paymentTable: keyed_table rp_company_id mergePaymentSettings
  by unfold_locales (simp add: mergePaymentSettings_def)

lemma getPaymentSettings_upserted:
  assumes "sd_paymentSettings db' = upsertRow rp_company_id mergePaymentSettings
    (toInvoicePaymentSettingsRow s) (sd_paymentSettings db)"
  shows "getPaymentSettings db' c =
    (if c = ps_companyId s
     then Some (case getPaymentSettings db c of None \<Rightarrow> s | Some old \<Rightarrow> s\<lparr>ps_createdAt := ps_createdAt old\<rparr>)
     else getPaymentSettings db c)"
proof -
  have "ps_companyId s = rp_company_id r \<Longrightarrow>
      toStoredInvoicePaymentSettings (mergePaymentSettings r (toInvoicePaymentSettingsRow s)) =
      s\<lparr>ps_createdAt := rp_created_at r\<rparr>" for r
    by (simp add: toStoredInvoicePaymentSettings_def mergePaymentSettings_def toInvoicePaymentSettingsRow_def)
  moreover have "toStoredInvoicePaymentSettings (toInvoicePaymentSettingsRow s) = s"
    "rp_company_id (toInvoicePaymentSettingsRow s) = ps_companyId s"
    "ps_createdAt (toStoredInvoicePaymentSettings r) = rp_created_at r" for r
    by (simp_all add: toStoredInvoicePaymentSettings_def toInvoicePaymentSettingsRow_def)
  ultimately show ?thesis
    using rowWith_Some [of rp_company_id c "sd_paymentSettings db"]
    by (auto simp: getPaymentSettings_def assms paymentTable.rowWith_upsert split: option.split)
qed

lemma savePaymentSettings_ok:
  "savePaymentSettings db s e = Inr (db', s') \<longleftrightarrow>
     trim (ps_companyId s) \<noteq> [] \<and> validPaymentSettings s \<and>
     validateAuditEvent e ''invoicePaymentSettings.updated'' (ps_companyId s) = Inr () \<and>
     auditRowAccepted (db_settingsAudit (sd_numbering db)) e \<and>
     db' = db\<lparr>sd_numbering := (sd_numbering db)
                \<lparr>db_settingsAudit := db_settingsAudit (sd_numbering db) @ [e]\<rparr>,
              sd_paymentSettings := upsertRow rp_company_id mergePaymentSettings
                (toInvoicePaymentSettingsRow s) (sd_paymentSettings db)\<rparr> \<and>
     s' = (case getPaymentSettings db (ps_companyId s) of
             None \<Rightarrow> s | Some old \<Rightarrow> s\<lparr>ps_createdAt := ps_createdAt old\<rparr>)"
proof -
  have "paymentSettingsRowAccepted (toInvoicePaymentSettingsRow s) \<longleftrightarrow> validPaymentSettings s"
    by (simp add: paymentSettingsRowAccepted_def toInvoicePaymentSettingsRow_def validPaymentSettings_def)
  moreover have "getPaymentSettings (db\<lparr>sd_numbering := n, sd_paymentSettings :=
      upsertRow rp_company_id mergePaymentSettings (toInvoicePaymentSettingsRow s) (sd_paymentSettings db)\<rparr>)
      (ps_companyId s) = Some (case getPaymentSettings db (ps_companyId s) of
        None \<Rightarrow> s | Some old \<Rightarrow> s\<lparr>ps_createdAt := ps_createdAt old\<rparr>)" for n
    by (rule trans [OF getPaymentSettings_upserted [where db = db and s = s]]) simp_all
  ultimately show ?thesis
    by (auto simp: savePaymentSettings_def andThen_eq_Inr insertAudit_eq_Inr
        validateInvoicePaymentSettings_ok Let_def)
qed

lemma requireNonEmptyPaymentValue_ok [result_simps]:
  "requireNonEmptyPaymentValue v f = Inr t \<longleftrightarrow> t = trim v \<and> t \<noteq> []"
  by (auto simp: requireNonEmptyPaymentValue_def Let_def)

text \<open>
  What an accepted update of the payment settings returns is what the next read returns, and
  what the requests on drafts use as defaults.
\<close>

lemma payment_settings_roundtrip:
  assumes "updateInvoicePaymentSettings uuid db input = Inr (db', view)"
  shows "getInvoicePaymentSettings db' (ac_companyId (up_actorContext input)) = Inr view"
    and "InvoicePaymentSettings.truncate view = toPaymentSettings input"
    and "c \<noteq> trim (ac_companyId (up_actorContext input)) \<Longrightarrow> getPaymentSettings db' c = getPaymentSettings db c"
    and "dp_getSettings deps = (\<lambda>c. map_option InvoicePaymentSettings.truncate (getPaymentSettings db' c)) \<Longrightarrow>
      resolveInvoiceDraftLatePaymentInterestBasisPoints deps (trim (ac_companyId (up_actorContext input))) None =
        up_defaultLatePaymentInterestBasisPoints input \<and>
      resolveInvoiceDraftReminderPeriodDays deps (trim (ac_companyId (up_actorContext input))) None =
        up_defaultReminderPeriodDays input"
proof -
  let ?c = "trim (ac_companyId (up_actorContext input))"
  obtain s s' e where s: "savePaymentSettings db s e = Inr (db', s')"
      "createStoredPaymentSettings input ?c (getPaymentSettings db ?c) = Inr s"
      "validPaymentSettings s'" "view = toInvoicePaymentSettingsView (Some s')" and ne: "?c \<noteq> []"
    using assms by (auto simp: updateInvoicePaymentSettings_def andThen_eq_Inr Let_def
        requireNonEmptyPaymentValue_ok validateInvoicePaymentSettings_ok)
  have sc: "ps_companyId s = ?c"
      "ps_defaultLatePaymentInterestBasisPoints s = up_defaultLatePaymentInterestBasisPoints input"
      "ps_defaultReminderPeriodDays s = up_defaultReminderPeriodDays input"
    using s(2) by (auto simp: createStoredPaymentSettings_def andThen_eq_Inr toPaymentSettings_def
        InvoicePaymentSettings.extend_def StoredInvoicePaymentSettings.fields_def)
  note saved = s(1) [unfolded savePaymentSettings_ok sc(1)]
  have read: "getPaymentSettings db' d = (if d = ?c then Some s' else getPaymentSettings db d)" for d
    using saved getPaymentSettings_upserted [of db' s db d] sc(1) by auto
  have s': "ps_defaultLatePaymentInterestBasisPoints s' = up_defaultLatePaymentInterestBasisPoints input"
      "ps_defaultReminderPeriodDays s' = up_defaultReminderPeriodDays input"
    using saved sc by (auto split: option.splits)
  show "getInvoicePaymentSettings db' (ac_companyId (up_actorContext input)) = Inr view"
    using ne s(3,4) by (auto simp: getInvoicePaymentSettings_def Let_def read andThen_eq_Inr
        validateInvoicePaymentSettings_ok)
  show "InvoicePaymentSettings.truncate view = toPaymentSettings input"
    by (simp add: s(4) toInvoicePaymentSettingsView_def toPaymentSettings_def s'
        InvoicePaymentSettings.truncate_def)
  show "getPaymentSettings db' c = getPaymentSettings db c"
    if "c \<noteq> trim (ac_companyId (up_actorContext input))" using that by (simp add: read)
  show "resolveInvoiceDraftLatePaymentInterestBasisPoints deps ?c None =
        up_defaultLatePaymentInterestBasisPoints input \<and>
      resolveInvoiceDraftReminderPeriodDays deps ?c None = up_defaultReminderPeriodDays input"
    if "dp_getSettings deps = (\<lambda>c. map_option InvoicePaymentSettings.truncate (getPaymentSettings db' c))"
    using that by (simp add: resolveInvoiceDraftLatePaymentInterestBasisPoints_def
        resolveInvoiceDraftReminderPeriodDays_def read s' InvoicePaymentSettings.truncate_def)
qed

section \<open>VAT rates\<close>

lemma listRates_replaced:
  assumes "sd_vatRates db' = filter (\<lambda>r. rv_company_id r \<noteq> c) (sd_vatRates db) @ map toInvoiceVatRateRow rs"
    and "\<forall>r \<in> set rs. vs_companyId r = c"
  shows "listRates db' d = (if d = c
    then if trim c = [] then listRates db c else Inr (sortInvoiceVatRates rs) else listRates db d)"
proof (cases "d = c")
  case True
  have "filter (\<lambda>r. rv_company_id r = c) (map toInvoiceVatRateRow rs) = map toInvoiceVatRateRow rs"
    using assms(2) by (auto simp: filter_id_conv toInvoiceVatRateRow_def)
  moreover have "map toStoredInvoiceVatRate (map toInvoiceVatRateRow rs) = rs" by (simp add: map_idI)
  ultimately show ?thesis using True by (simp add: listRates_eq assms(1) del: map_map)
next
  case False
  have "filter (\<lambda>r. rv_company_id r = d) (map toInvoiceVatRateRow rs) = []"
    using assms(2) False by (auto simp: filter_empty_conv toInvoiceVatRateRow_def)
  moreover have "filter (\<lambda>r. rv_company_id r = d) (filter (\<lambda>r. rv_company_id r \<noteq> c) (sd_vatRates db)) =
      filter (\<lambda>r. rv_company_id r = d) (sd_vatRates db)"
    unfolding filter_filter using False by (intro filter_cong) auto
  ultimately show ?thesis using False by (simp add: listRates_eq assms(1) del: filter_filter)
qed

lemma validVatRates_nonempty: "validVatRates rs \<Longrightarrow> rs \<noteq> []"
  by (auto simp: validVatRates_def)

definition mayManageSettings :: "ActorContext \<Rightarrow> string \<Rightarrow> bool" where
  "mayManageSettings actor companyId \<longleftrightarrow>
     ''manageInvoiceSettings'' \<in> set (ac_permissions actor) \<and> trim (ac_companyId actor) = companyId"

text \<open>
  C38: An update of the VAT rates is accepted only when the trimmed rates are valid: one to
  twenty distinct rates in range with short labels, one of them the default and active. It
  returns them sorted, the next reads of the company return the same view, the rates of other
  companies are unchanged and one audit event is recorded.
\<close>

theorem vat_rates_roundtrip:
  assumes "updateInvoiceVatRates uuid db input = Inr (db', view)"
  defines "c \<equiv> trim (ac_companyId (uv_actorContext input))"
  shows "validVatRates (map normalizeRate (uv_vatRates input)) \<and>
    vv_vatRates view = sort_key (\<lambda>r. (vs_sortOrder r, - vs_rateBasisPoints r)) (map normalizeRate (uv_vatRates input)) \<and>
    (\<forall>actor. mayManageSettings actor c \<longrightarrow> getInvoiceVatRates db' actor = Inr view) \<and>
    (\<forall>d. d \<noteq> c \<longrightarrow> listRates db' d = listRates db d) \<and>
    sd_paymentSettings db' = sd_paymentSettings db \<and>
    length (db_settingsAudit (sd_numbering db')) = length (db_settingsAudit (sd_numbering db)) + 1"
proof -
  let ?now = "trim (uv_now input)" and ?rates = "map normalizeRate (uv_vatRates input)"
  let ?stored = "map (\<lambda>r. storedVatRate c (createdAtOf (currentRates db c) ?now (vs_rateBasisPoints r)) ?now r) ?rates"
  note ok = assms(1) [unfolded updateInvoiceVatRates_ok, folded c_def]
  have v: "view = \<lparr>vv_vatRates = sortInvoiceVatRates ?rates, vv_isPersisted = True\<rparr>"
    and ne: "c \<noteq> []" "length c \<le> 200" and valid: "validVatRates ?rates"
    and rows: "sd_vatRates db' = filter (\<lambda>r. rv_company_id r \<noteq> c) (sd_vatRates db) @
      map toInvoiceVatRateRow (sortInvoiceVatRates ?stored)"
    using ok by simp_all
  have "\<forall>r \<in> set (sortInvoiceVatRates ?stored). vs_companyId r = c" by simp
  note read = listRates_replaced [OF rows this]
  have tc: "trim c = c" by (simp add: c_def)
  have "validVatRates ?stored" by (subst validVatRates_map) (simp_all add: valid)
  moreover have "map toViewRate (sortInvoiceVatRates ?stored) = sortInvoiceVatRates ?rates"
    by (simp add: sort_toViewRate comp_def)
  ultimately have stored: "validVatRates ?stored"
    "map toViewRate (sortInvoiceVatRates ?stored) = sortInvoiceVatRates ?rates" .
  then have "sortInvoiceVatRates ?stored \<noteq> []"
    by (intro validVatRates_nonempty validVatRates_sort [THEN iffD2])
  moreover have "''manageInvoiceSettings'' \<in> set permissionValues" by code_simp
  ultimately have "getInvoiceVatRates db' actor = Inr view" if "mayManageSettings actor c" for actor
    using that ne stored by (simp add: getInvoiceVatRates_def andThen_eq_Inr requirePermission_ok requireIdentifier_ok
        mayManageSettings_def read tc validateInvoiceVatRates_ok v)
  with ok valid read show ?thesis
    by (simp add: v sortInvoiceVatRates_key rateOrder_def [abs_def])
qed

definition exampleSettingsActor :: ActorContext where
  "exampleSettingsActor = \<lparr>ac_actorId = ''u1'', ac_authenticationMode = ''local'', ac_companyId = ''c1'',
     ac_permissions = [''manageInvoiceSettings'']\<rparr>"

theorem vat_rates_roundtrip_witness:
  "\<exists>db' view. updateInvoiceVatRates ''e1''
      \<lparr>sd_numbering = \<lparr>db_settings = [], db_sequences = [], db_activeSeries = [], db_seriesEvents = [],
         db_invoices = [], db_settingsAudit = []\<rparr>, sd_paymentSettings = [], sd_vatRates = []\<rparr>
      \<lparr>uv_actorContext = exampleSettingsActor, uv_now = ''2026-01-01T10:00:00.000Z'',
       uv_vatRates = [createDefaultRate 0 '' 0 '' False 7, createDefaultRate 2550 ''25,5'' True 0]\<rparr> =
        Inr (db', view) \<and>
     getInvoiceVatRates db' exampleSettingsActor = Inr view \<and>
     vv_vatRates view = [createDefaultRate 2550 ''25,5'' True 0, createDefaultRate 0 ''0'' False 7]"
proof -
  let ?db = "\<lparr>sd_numbering = \<lparr>db_settings = [], db_sequences = [], db_activeSeries = [], db_seriesEvents = [],
         db_invoices = [], db_settingsAudit = []\<rparr>, sd_paymentSettings = [], sd_vatRates = []\<rparr>"
  let ?i = "\<lparr>uv_actorContext = exampleSettingsActor, uv_now = ''2026-01-01T10:00:00.000Z'',
       uv_vatRates = [createDefaultRate 0 '' 0 '' False 7, createDefaultRate 2550 ''25,5'' True 0]\<rparr>"
  have "succeeds (updateInvoiceVatRates ''e1'' ?db ?i)" by code_simp
  then obtain db' view where u: "updateInvoiceVatRates ''e1'' ?db ?i = Inr (db', view)"
    by (auto simp: succeeds_iff)
  have "mayManageSettings exampleSettingsActor (trim (ac_companyId (uv_actorContext ?i)))"
    by (simp add: mayManageSettings_def exampleSettingsActor_def)
  moreover have "sort_key (\<lambda>r. (vs_sortOrder r, - vs_rateBasisPoints r)) (map normalizeRate (uv_vatRates ?i)) =
      [createDefaultRate 2550 ''25,5'' True 0, createDefaultRate 0 ''0'' False 7]" by code_simp
  ultimately have "getInvoiceVatRates db' exampleSettingsActor = Inr view \<and>
      vv_vatRates view = [createDefaultRate 2550 ''25,5'' True 0, createDefaultRate 0 ''0'' False 7]"
    using vat_rates_roundtrip [OF u] by simp
  with u show ?thesis by blast
qed

end
