(* ===== verification/InvoiceTables.thy ===== *)
theory InvoiceTables
  imports DraftRefinement
begin

text \<open>
  The tables of approved invoices as far as their life after the approval is concerned: the
  columns of \<open>invoices\<close> that hold state, payment and cancellation, the append-only events of
  payments, audits and deliveries, the stored documents and the content revisions
  (database/schema.ts; migrations 031, 037 and 039 for the constraints and triggers), and the
  statements the repositories run on them. The snapshot columns of an invoice are not here:
  no statement of these theories reads or writes them.
\<close>

section \<open>Rows\<close>

record InvoiceStateRow =
  iv_id :: string
  iv_company_id :: string
  iv_source_draft_id :: string
  iv_invoice_kind :: string
  iv_credited_invoice_id :: "string option"
  iv_invoice_number :: string
  iv_status :: string
  iv_total_gross_cents :: number
  iv_updated_at :: string
  iv_cancelled_at :: "string option"
  iv_cancelled_by :: "string option"
  iv_cancellation_reason :: "string option"
  iv_payment_state :: string
  iv_paid_on :: "string option"
  iv_paid_amount_cents :: "number option"
  iv_payment_source :: "string option"
  iv_payment_recorded_at :: "string option"
  iv_payment_recorded_by :: "string option"

record InvoicePaymentEventRow =
  pe_id :: string
  pe_company_id :: string
  pe_invoice_id :: string
  pe_actor_user_id :: string
  pe_action :: string
  pe_payment_source :: string
  pe_paid_on :: string
  pe_amount_cents :: number
  pe_occurred_at :: string

record InvoiceAuditEventRow =
  ia_id :: string
  ia_company_id :: string
  ia_actor_user_id :: string
  ia_action :: string
  ia_draft_id :: string
  ia_invoice_id :: string
  ia_invoice_number :: string
  ia_created_at :: string

record InvoiceDeliveryEventRow =
  de_id :: string
  de_company_id :: string
  de_invoice_id :: string
  de_document_id :: "string option"
  de_delivery_method :: string
  de_provider :: string
  de_status :: string
  de_recipient_email :: string
  de_cc_email :: string
  de_subject :: string
  de_body_preview :: string
  de_provider_message_id :: "string option"
  de_safe_error_message :: "string option"
  de_technical_error_code :: "string option"
  de_created_at :: string
  de_created_by :: string
  de_binding_kind :: string
  de_revision_id :: "string option"
  de_send_mode :: string
  de_document_sha256 :: "string option"
  de_document_size_bytes :: "number option"

record InvoiceDocumentRow =
  do_id :: string
  do_company_id :: string
  do_invoice_id :: string
  do_document_type :: string
  do_file_name :: string
  do_storage_path :: string
  do_mime_type :: string
  do_sha256 :: string
  do_size_bytes :: number
  do_created_at :: string
  do_binding_kind :: string
  do_revision_id :: "string option"
  do_source_document_id :: "string option"

text \<open>Of a content revision the columns that decide whether it may be delivered.\<close>

record ContentRevisionRow =
  rr_id :: string
  rr_company_id :: string
  rr_invoice_id :: string
  rr_origin :: string
  rr_vat_breakdown_state :: string

record CurrentRevisionRow =
  cr_company_id :: string
  cr_invoice_id :: string
  cr_revision_id :: string

record LifecycleDatabase =
  lf_invoices :: "InvoiceStateRow list"
  lf_paymentEvents :: "InvoicePaymentEventRow list"
  lf_auditEvents :: "InvoiceAuditEventRow list"
  lf_deliveryEvents :: "InvoiceDeliveryEventRow list"
  lf_documents :: "InvoiceDocumentRow list"
  lf_revisions :: "ContentRevisionRow list"
  lf_currentRevisions :: "CurrentRevisionRow list"
  lf_drafts :: DraftDatabase

section \<open>Invoices\<close>

text \<open>
  The checks of the table. Where SQL compares a NULL the check is not violated: only the
  payment source of a paid invoice is compared without a test for NULL.
\<close>

definition cancellationColumnsAccepted :: "InvoiceStateRow \<Rightarrow> bool" where
  "cancellationColumnsAccepted row \<longleftrightarrow>
     (if iv_status row = ''cancelled'' then
        (case (iv_cancelled_at row, iv_cancelled_by row, iv_cancellation_reason row) of
           (Some _, Some by', Some reason) \<Rightarrow>
             0 < sqlLength (sqlTrim by') \<and> 0 < sqlLength (sqlTrim reason) \<and> sqlLength reason \<le> 500
         | _ \<Rightarrow> False)
      else iv_cancelled_at row = None \<and> iv_cancelled_by row = None \<and>
        iv_cancellation_reason row = None)"

definition paymentColumnsAccepted :: "InvoiceStateRow \<Rightarrow> bool" where
  "paymentColumnsAccepted row \<longleftrightarrow>
     (if iv_payment_state row = ''unpaid'' then
        iv_paid_on row = None \<and> iv_paid_amount_cents row = None \<and> iv_payment_source row = None \<and>
        iv_payment_recorded_at row = None \<and> iv_payment_recorded_by row = None
      else iv_payment_state row = ''paid'' \<and> iv_payment_source row \<in> {None, Some ''manual''} \<and>
        (case (iv_paid_on row, iv_paid_amount_cents row, iv_payment_recorded_at row,
               iv_payment_recorded_by row) of
           (Some paidOn, Some cents, Some recordedAt, Some recordedBy) \<Rightarrow>
             isCalendarDate paidOn \<and> cents > 0 \<and> 0 < sqlLength (sqlTrim recordedAt) \<and>
             0 < sqlLength (sqlTrim recordedBy) \<and> sqlLength recordedBy \<le> 200
         | _ \<Rightarrow> False))"

definition invoiceRowAccepted :: "InvoiceStateRow \<Rightarrow> bool" where
  "invoiceRowAccepted row \<longleftrightarrow>
     iv_status row \<in> {''approved'', ''reopened_for_edit'', ''sent'', ''cancelled''} \<and>
     0 \<le> iv_total_gross_cents row \<and>
     (iv_invoice_kind row = ''standard'' \<and> iv_credited_invoice_id row = None \<or>
      iv_invoice_kind row = ''credit'' \<and> iv_credited_invoice_id row \<notin> {None, Some (iv_id row)}) \<and>
     cancellationColumnsAccepted row \<and> paymentColumnsAccepted row"

definition isInvoice :: "string \<Rightarrow> string \<Rightarrow> InvoiceStateRow \<Rightarrow> bool" where
  "isInvoice companyId invoiceId row \<longleftrightarrow> iv_company_id row = companyId \<and> iv_id row = invoiceId"

definition findInvoice :: "LifecycleDatabase \<Rightarrow> string \<Rightarrow> string \<Rightarrow> InvoiceStateRow option" where
  "findInvoice db companyId invoiceId = find (isInvoice companyId invoiceId) (lf_invoices db)"

text \<open>\<open>UPDATE invoices SET ... WHERE ...\<close>, with the number of changed rows.\<close>

definition updateInvoices ::
    "(InvoiceStateRow \<Rightarrow> bool) \<Rightarrow> (InvoiceStateRow \<Rightarrow> InvoiceStateRow) \<Rightarrow> LifecycleDatabase \<Rightarrow>
     (LifecycleDatabase \<times> nat) result" where
  "updateInvoices p f db =
     (if \<exists>row \<in> set (lf_invoices db). p row \<and> \<not> invoiceRowAccepted (f row)
      then Inl (SqliteError ''CHECK constraint failed: invoices'')
      else Inr (db\<lparr>lf_invoices := updateRows p f (lf_invoices db)\<rparr>,
                length (filter p (lf_invoices db))))"

text \<open>
  The insertion of an approved invoice (sqliteInvoiceApprovalStatements.ts): primary key,
  unique number and draft per company, foreign keys. The payment columns take their defaults.
\<close>

definition insertInvoice :: "LifecycleDatabase \<Rightarrow> InvoiceStateRow \<Rightarrow> LifecycleDatabase result" where
  "insertInvoice db row =
     (let new = row\<lparr>iv_payment_state := ''unpaid'', iv_paid_on := None, iv_paid_amount_cents := None,
        iv_payment_source := None, iv_payment_recorded_at := None, iv_payment_recorded_by := None\<rparr> in
      if \<not> invoiceRowAccepted new \<or>
         (\<exists>r \<in> set (lf_invoices db). iv_id r = iv_id new \<or>
            iv_company_id r = iv_company_id new \<and>
            (iv_invoice_number r = iv_invoice_number new \<or>
             iv_source_draft_id r = iv_source_draft_id new)) \<or>
         iv_source_draft_id new \<notin> dw_id ` set (dd_drafts (lf_drafts db)) \<or>
         (case iv_credited_invoice_id new of None \<Rightarrow> False
          | Some i \<Rightarrow> i \<notin> iv_id ` set (lf_invoices db))
      then Inl (SqliteError ''invoices'')
      else Inr (db\<lparr>lf_invoices := lf_invoices db @ [new]\<rparr>))"

text \<open>The update a new approval of a reopened invoice makes (\<open>updateInvoice\<close>).\<close>

definition updateInvoice ::
    "LifecycleDatabase \<Rightarrow> InvoiceStateRow \<Rightarrow> LifecycleDatabase result" where
  "updateInvoice db invoice =
     andThen (updateInvoices
       (\<lambda>row. isInvoice (iv_company_id invoice) (iv_id invoice) row \<and>
          iv_status row = ''reopened_for_edit'')
       (\<lambda>row. row\<lparr>iv_status := iv_status invoice,
          iv_total_gross_cents := iv_total_gross_cents invoice,
          iv_updated_at := iv_updated_at invoice\<rparr>) db) (\<lambda>(db', changes).
     if changes \<noteq> 1
     then Inl (ApproveInvoiceDraftError ''Reopened invoice could not be reapproved.'')
     else Inr db')"

definition markInvoiceReopenedForEditing ::
    "LifecycleDatabase \<Rightarrow> string \<Rightarrow> string \<Rightarrow> string \<Rightarrow> LifecycleDatabase result" where
  "markInvoiceReopenedForEditing db companyId invoiceId reopenedAt =
     andThen (updateInvoices
       (\<lambda>row. isInvoice companyId invoiceId row \<and> iv_status row = ''approved'')
       (\<lambda>row. row\<lparr>iv_status := ''reopened_for_edit'', iv_updated_at := reopenedAt\<rparr>) db)
       (\<lambda>(db', changes).
     if changes \<noteq> 1
     then Inl (ApproveInvoiceDraftError ''Approved invoice could not be reopened for editing.'')
     else Inr db')"

definition detachCurrentInvoiceRevision ::
    "LifecycleDatabase \<Rightarrow> string \<Rightarrow> string \<Rightarrow> LifecycleDatabase" where
  "detachCurrentInvoiceRevision db companyId invoiceId =
     db\<lparr>lf_currentRevisions := filter
       (\<lambda>r. \<not> (cr_company_id r = companyId \<and> cr_invoice_id r = invoiceId)) (lf_currentRevisions db)\<rparr>"

section \<open>Audit and payment events\<close>

definition invoiceAuditActions :: "string list" where
  "invoiceAuditActions =
     [''invoice.approved'', ''invoice.reopened_for_edit'', ''invoice.reapproved'',
      ''invoice.marked_sent_manually'', ''invoice.cancelled'', ''invoice.credit_draft_created'',
      ''invoice.credit_approved'', ''invoice.credit_reapproved'']"

definition insertInvoiceAuditEvent ::
    "LifecycleDatabase \<Rightarrow> InvoiceAuditEventRow \<Rightarrow> LifecycleDatabase result" where
  "insertInvoiceAuditEvent db row =
     (if ia_id row \<in> ia_id ` set (lf_auditEvents db) \<or>
         ia_action row \<notin> set invoiceAuditActions \<or>
         ia_invoice_id row \<notin> iv_id ` set (lf_invoices db)
      then Inl (SqliteError ''invoice_audit_events'')
      else Inr (db\<lparr>lf_auditEvents := lf_auditEvents db @ [row]\<rparr>))"

definition paymentEventAccepted :: "InvoicePaymentEventRow \<Rightarrow> bool" where
  "paymentEventAccepted row \<longleftrightarrow>
     0 < sqlLength (sqlTrim (pe_actor_user_id row)) \<and> sqlLength (pe_actor_user_id row) \<le> 200 \<and>
     pe_action row \<in> {''paymentMarkedPaid'', ''paymentMarkReverted''} \<and>
     pe_payment_source row = ''manual'' \<and> isCalendarDate (pe_paid_on row) \<and>
     pe_amount_cents row > 0 \<and> 0 < sqlLength (sqlTrim (pe_occurred_at row))"

definition insertPaymentEvent ::
    "LifecycleDatabase \<Rightarrow> InvoicePaymentEventRow \<Rightarrow> LifecycleDatabase result" where
  "insertPaymentEvent db row =
     (if pe_id row \<in> pe_id ` set (lf_paymentEvents db) \<or> \<not> paymentEventAccepted row \<or>
         pe_invoice_id row \<notin> iv_id ` set (lf_invoices db)
      then Inl (SqliteError ''invoice_payment_events'')
      else Inr (db\<lparr>lf_paymentEvents := lf_paymentEvents db @ [row]\<rparr>))"

section \<open>Delivery events\<close>

definition isHexDigest :: "string \<Rightarrow> bool" where
  "isHexDigest s \<longleftrightarrow> (\<forall>c \<in> set s. isDigit c \<or> (97 \<le> code c \<and> code c \<le> 102))"

definition nullOrShort :: "nat \<Rightarrow> string option \<Rightarrow> bool" where
  "nullOrShort n v \<longleftrightarrow> (case v of None \<Rightarrow> True | Some s \<Rightarrow> sqlLength s \<le> n)"

definition deliveryBindingAccepted :: "InvoiceDeliveryEventRow \<Rightarrow> bool" where
  "deliveryBindingAccepted row \<longleftrightarrow>
     (if de_binding_kind row = ''legacyOriginal'' then
        de_revision_id row = None \<and> de_send_mode row = ''legacyUnknown'' \<and>
        de_document_sha256 row = None \<and> de_document_size_bytes row = None
      else
        (de_binding_kind row = ''revision'' \<and> de_revision_id row \<noteq> None \<and>
           de_send_mode row \<noteq> ''legacyUnknown'' \<or>
         de_binding_kind row = ''preservedLegacy'' \<and> de_revision_id row = None \<and>
           de_send_mode row = ''customer'') \<and>
        de_document_id row \<noteq> None \<and>
        (case (de_document_sha256 row, de_document_size_bytes row) of
           (Some sha, Some size') \<Rightarrow>
             sqlLength sha = 64 \<and> isHexDigest sha \<and> 1 \<le> size' \<and> size' \<le> 10485760
         | _ \<Rightarrow> False))"

definition deliveryModeAccepted :: "InvoiceDeliveryEventRow \<Rightarrow> bool" where
  "deliveryModeAccepted row \<longleftrightarrow>
     de_send_mode row = ''legacyUnknown'' \<or>
     de_send_mode row \<in> {''customer'', ''smtpTest''} \<and> de_delivery_method row = ''email'' \<and>
       de_provider row = ''smtp'' \<or>
     de_send_mode row = ''dryRun'' \<and> de_delivery_method row = ''email'' \<and>
       de_provider row = ''dryRun'' \<or>
     de_send_mode row = ''manual'' \<and> de_delivery_method row \<in> {''manual'', ''print''} \<and>
       de_provider row = ''manual''"

definition deliveryRowAccepted :: "InvoiceDeliveryEventRow \<Rightarrow> bool" where
  "deliveryRowAccepted row \<longleftrightarrow>
     de_delivery_method row \<in> {''email'', ''manual'', ''print'', ''other''} \<and>
     de_provider row \<in> {''dryRun'', ''smtp'', ''gmail'', ''microsoft'', ''manual'', ''other''} \<and>
     de_status row \<in> {''prepared'', ''attempted'', ''succeeded'', ''failed'', ''outcomeUnknown''} \<and>
     sqlLength (de_recipient_email row) \<le> 320 \<and> sqlLength (de_cc_email row) \<le> 320 \<and>
     sqlLength (de_subject row) \<le> 200 \<and> sqlLength (de_body_preview row) \<le> 500 \<and>
     nullOrShort 500 (de_provider_message_id row) \<and> nullOrShort 500 (de_safe_error_message row) \<and>
     nullOrShort 120 (de_technical_error_code row) \<and> sqlLength (de_created_by row) \<le> 120 \<and>
     deliveryBindingAccepted row \<and> deliveryModeAccepted row"

text \<open>Foreign keys: the invoice, and the document with its binding, revision and evidence.\<close>

definition deliveryKeysAccepted :: "LifecycleDatabase \<Rightarrow> InvoiceDeliveryEventRow \<Rightarrow> bool" where
  "deliveryKeysAccepted db row \<longleftrightarrow>
     (\<exists>i \<in> set (lf_invoices db). isInvoice (de_company_id row) (de_invoice_id row) i) \<and>
     (case de_document_id row of
        None \<Rightarrow> True
      | Some i \<Rightarrow>
          \<exists>d \<in> set (lf_documents db).
            do_company_id d = de_company_id row \<and> do_invoice_id d = de_invoice_id row \<and> do_id d = i \<and>
            do_binding_kind d = de_binding_kind row \<and>
            (de_revision_id row \<noteq> None \<longrightarrow> do_revision_id d = de_revision_id row) \<and>
            (case (de_document_sha256 row, de_document_size_bytes row) of
               (Some sha, Some size') \<Rightarrow> do_sha256 d = sha \<and> do_size_bytes d = size'
             | _ \<Rightarrow> True))"

definition isUnresolved :: "string \<Rightarrow> bool" where
  "isUnresolved status \<longleftrightarrow> status \<in> {''attempted'', ''outcomeUnknown''}"

definition isUnresolvedSmtp :: "string \<Rightarrow> string \<Rightarrow> InvoiceDeliveryEventRow \<Rightarrow> bool" where
  "isUnresolvedSmtp companyId invoiceId e \<longleftrightarrow>
     de_company_id e = companyId \<and> de_invoice_id e = invoiceId \<and>
     de_binding_kind e \<noteq> ''legacyOriginal'' \<and> de_provider e = ''smtp'' \<and> isUnresolved (de_status e)"

definition insertDeliveryEventRow ::
    "LifecycleDatabase \<Rightarrow> InvoiceDeliveryEventRow \<Rightarrow> LifecycleDatabase result" where
  "insertDeliveryEventRow db row =
     (if de_binding_kind row = ''legacyOriginal'' then
        Inl (SqliteError ''INVOICE_DELIVERY_LEGACY_INSERT_DENIED'')
      else if \<exists>e \<in> set (lf_deliveryEvents db). de_id e = de_id row then
        Inl (SqliteError ''INVOICE_DELIVERY_BINDING_IMMUTABLE'')
      else if de_provider row = ''smtp'' \<and> isUnresolved (de_status row) \<and>
        (\<exists>e \<in> set (lf_deliveryEvents db).
           isUnresolvedSmtp (de_company_id row) (de_invoice_id row) e) then
        Inl (SqliteError ''INVOICE_DELIVERY_UNRESOLVED'')
      else if \<not> deliveryRowAccepted row \<or> \<not> deliveryKeysAccepted db row then
        Inl (SqliteError ''invoice_delivery_events'')
      else Inr (db\<lparr>lf_deliveryEvents := lf_deliveryEvents db @ [row]\<rparr>))"

text \<open>
  The one update of delivery events: the outcome of an attempted delivery. The triggers keep
  every other column and refuse a second unresolved event.
\<close>

definition isAttempt :: "string \<Rightarrow> string \<Rightarrow> string \<Rightarrow> InvoiceDeliveryEventRow \<Rightarrow> bool" where
  "isAttempt companyId invoiceId eventId e \<longleftrightarrow>
     de_company_id e = companyId \<and> de_invoice_id e = invoiceId \<and> de_id e = eventId \<and>
     de_status e = ''attempted''"

definition completeAttemptRow ::
    "LifecycleDatabase \<Rightarrow> string \<Rightarrow> string \<Rightarrow> string \<Rightarrow>
     (InvoiceDeliveryEventRow \<Rightarrow> InvoiceDeliveryEventRow) \<Rightarrow> (LifecycleDatabase \<times> nat) result" where
  "completeAttemptRow db companyId invoiceId eventId f =
     (let hit = isAttempt companyId invoiceId eventId in
      if \<exists>e \<in> set (lf_deliveryEvents db). hit e \<and> de_binding_kind e = ''legacyOriginal'' then
        Inl (SqliteError ''INVOICE_DELIVERY_BINDING_IMMUTABLE'')
      else if \<exists>e \<in> set (lf_deliveryEvents db). hit e \<and> de_provider e = ''smtp'' \<and>
        isUnresolved (de_status (f e)) \<and>
        (\<exists>o' \<in> set (lf_deliveryEvents db). de_id o' \<noteq> de_id e \<and>
           isUnresolvedSmtp (de_company_id e) (de_invoice_id e) o') then
        Inl (SqliteError ''INVOICE_DELIVERY_UNRESOLVED'')
      else if \<exists>e \<in> set (lf_deliveryEvents db). hit e \<and> \<not> deliveryRowAccepted (f e) then
        Inl (SqliteError ''invoice_delivery_events'')
      else Inr (db\<lparr>lf_deliveryEvents := updateRows hit f (lf_deliveryEvents db)\<rparr>,
                length (filter hit (lf_deliveryEvents db))))"

section \<open>Queries on deliveries\<close>

definition deliveriesOf :: "LifecycleDatabase \<Rightarrow> string \<Rightarrow> string \<Rightarrow> InvoiceDeliveryEventRow list" where
  "deliveriesOf db companyId invoiceId =
     filter (\<lambda>e. de_company_id e = companyId \<and> de_invoice_id e = invoiceId) (lf_deliveryEvents db)"

text \<open>
  \<open>hasUnresolvedDelivery\<close> of the approval queries and \<open>hasUnresolvedDeliveryEvent\<close> of the
  delivery queries are the same statement.
\<close>

definition hasUnresolvedDelivery :: "LifecycleDatabase \<Rightarrow> string \<Rightarrow> string \<Rightarrow> bool" where
  "hasUnresolvedDelivery db companyId invoiceId \<longleftrightarrow>
     (\<exists>e \<in> set (deliveriesOf db companyId invoiceId). isUnresolved (de_status e))"

definition hasBlockingDeliveryEvent :: "LifecycleDatabase \<Rightarrow> string \<Rightarrow> string \<Rightarrow> bool" where
  "hasBlockingDeliveryEvent db companyId invoiceId \<longleftrightarrow>
     (\<exists>e \<in> set (deliveriesOf db companyId invoiceId).
        de_status e \<in> {''attempted'', ''outcomeUnknown'', ''succeeded''})"

text \<open>The current revision of an invoice, by the joins the queries make.\<close>

definition currentRevisions ::
    "LifecycleDatabase \<Rightarrow> string \<Rightarrow> string \<Rightarrow> ContentRevisionRow list" where
  "currentRevisions db companyId invoiceId =
     [r. c \<leftarrow> lf_currentRevisions db, cr_company_id c = companyId \<and> cr_invoice_id c = invoiceId,
         r \<leftarrow> lf_revisions db, rr_company_id r = companyId \<and> rr_invoice_id r = invoiceId \<and>
         rr_id r = cr_revision_id c]"

definition requiresLegacyInvoiceDeliveryReview :: "LifecycleDatabase \<Rightarrow> string \<Rightarrow> string \<Rightarrow> bool" where
  "requiresLegacyInvoiceDeliveryReview db companyId invoiceId \<longleftrightarrow>
     (\<exists>i \<in> set (lf_invoices db). isInvoice companyId invoiceId i \<and> iv_status i = ''approved'') \<and>
     (\<exists>r \<in> set (currentRevisions db companyId invoiceId). rr_origin r = ''legacySnapshot'') \<and>
     (\<exists>e \<in> set (deliveriesOf db companyId invoiceId).
        de_binding_kind e = ''legacyOriginal'' \<and> de_provider e = ''smtp'')"

definition hasUnresolvedInvoiceDeliveryHistory :: "LifecycleDatabase \<Rightarrow> string \<Rightarrow> string \<Rightarrow> bool" where
  "hasUnresolvedInvoiceDeliveryHistory db companyId invoiceId \<longleftrightarrow>
     (\<exists>e \<in> set (deliveriesOf db companyId invoiceId). isUnresolved (de_status e) \<or>
        de_binding_kind e = ''legacyOriginal'' \<and> de_provider e = ''smtp'' \<and>
        de_status e = ''failed'')"

definition readLegacyResendSourceId ::
    "LifecycleDatabase \<Rightarrow> string \<Rightarrow> string \<Rightarrow> string option" where
  "readLegacyResendSourceId db companyId invoiceId =
     (if hasUnresolvedInvoiceDeliveryHistory db companyId invoiceId then None
      else
        let sent = \<exists>i \<in> set (lf_invoices db). isInvoice companyId invoiceId i \<and> iv_status i = ''sent'';
            snapshot = \<exists>r \<in> set (currentRevisions db companyId invoiceId).
              rr_origin r = ''legacySnapshot'' \<and> rr_vat_breakdown_state r = ''unavailable'';
            references = (if sent \<and> snapshot then
              remdups (map de_document_id (filter (\<lambda>e. de_binding_kind e = ''legacyOriginal'')
                (deliveriesOf db companyId invoiceId))) else []) in
        if length references = 1 then hd references else None)"

end
