(* ===== verification/InvoicePayments.thy ===== *)
theory InvoicePayments
  imports InvoiceTables Actor
begin

text \<open>
  Marking an invoice paid and taking the mark back: the repository
  (infrastructure/sqliteInvoicePaymentRepository.ts) and the requests
  (application/markInvoicePaid.ts, revertInvoicePaidMark.ts). The calendar date of Helsinki
  (application/invoicePaymentClock.ts formats it with \<open>Intl\<close>) is a parameter.
\<close>

section \<open>Repository\<close>

record InvoicePaymentSummary =
  py_invoiceId :: string
  py_invoiceNumber :: string
  py_paymentState :: string
  py_paidOn :: "string option"
  py_paidAmountCents :: "number option"
  py_paymentSource :: "string option"

record MarkInvoicePaidPersistenceInput =
  mp_actorUserId :: string
  mp_companyId :: string
  mp_eventId :: string
  mp_invoiceId :: string
  mp_paidOn :: string
  mp_recordedAt :: string

record RevertInvoicePaidMarkPersistenceInput =
  rm_actorUserId :: string
  rm_companyId :: string
  rm_eventId :: string
  rm_invoiceId :: string
  rm_recordedAt :: string

datatype PaymentOutcome =
    PaymentNotFound
  | PaymentConflict
  | PaymentNotPayable
  | PaymentIdempotent InvoicePaymentSummary
  | PaymentMarked InvoicePaymentSummary
  | PaymentReverted InvoicePaymentSummary

definition toPaymentSummary :: "string \<Rightarrow> InvoiceStateRow \<Rightarrow> InvoicePaymentSummary" where
  "toPaymentSummary invoiceId invoice =
     \<lparr>py_invoiceId = invoiceId, py_invoiceNumber = iv_invoice_number invoice,
      py_paymentState = iv_payment_state invoice, py_paidOn = iv_paid_on invoice,
      py_paidAmountCents = iv_paid_amount_cents invoice,
      py_paymentSource = iv_payment_source invoice\<rparr>"

text \<open>SQLite's \<open>SUM\<close> of integers fails beyond 64 bits.\<close>

definition creditedSum :: "LifecycleDatabase \<Rightarrow> string \<Rightarrow> string \<Rightarrow> int" where
  "creditedSum db companyId invoiceId =
     sum_list (map iv_total_gross_cents (filter (\<lambda>r. iv_company_id r = companyId \<and>
       iv_credited_invoice_id r = Some invoiceId \<and> iv_invoice_kind r = ''credit'' \<and>
       iv_status r \<in> {''approved'', ''sent''}) (lf_invoices db)))"

definition getCreditedGrossCents :: "LifecycleDatabase \<Rightarrow> string \<Rightarrow> string \<Rightarrow> number result" where
  "getCreditedGrossCents db companyId invoiceId =
     (let sum' = creditedSum db companyId invoiceId in
      if sum' > 2 ^ 63 - 1 then Inl (SqliteError ''integer overflow'') else Inr (jsRound sum'))"

definition isPayableRow :: "string \<Rightarrow> string \<Rightarrow> string \<Rightarrow> InvoiceStateRow \<Rightarrow> bool" where
  "isPayableRow companyId invoiceId paymentState row \<longleftrightarrow>
     isInvoice companyId invoiceId row \<and> iv_invoice_kind row = ''standard'' \<and>
     iv_status row = ''sent'' \<and> iv_payment_state row = paymentState"

definition markInvoicePaidWithinTransaction ::
    "LifecycleDatabase \<Rightarrow> MarkInvoicePaidPersistenceInput \<Rightarrow>
     (LifecycleDatabase \<times> PaymentOutcome) result" where
  "markInvoicePaidWithinTransaction db input =
     (case findInvoice db (mp_companyId input) (mp_invoiceId input) of
        None \<Rightarrow> Inr (db, PaymentNotFound)
      | Some invoice \<Rightarrow>
      if iv_invoice_kind invoice \<noteq> ''standard'' \<or> iv_status invoice \<noteq> ''sent'' then
        Inr (db, PaymentConflict)
      else if iv_payment_state invoice = ''paid'' then
        Inr (db, if iv_paid_on invoice = Some (mp_paidOn input)
                 then PaymentIdempotent (toPaymentSummary (mp_invoiceId input) invoice)
                 else PaymentConflict)
      else
     andThen (getCreditedGrossCents db (mp_companyId input) (mp_invoiceId input)) (\<lambda>credited.
     let paidAmountCents = jsSub (iv_total_gross_cents invoice) credited in
     if paidAmountCents \<le> 0 then Inr (db, PaymentNotPayable)
     else
     andThen (updateInvoices (isPayableRow (mp_companyId input) (mp_invoiceId input) ''unpaid'')
       (\<lambda>row. row\<lparr>iv_payment_state := ''paid'', iv_paid_on := Some (mp_paidOn input),
          iv_paid_amount_cents := Some paidAmountCents, iv_payment_source := Some ''manual'',
          iv_payment_recorded_at := Some (mp_recordedAt input),
          iv_payment_recorded_by := Some (mp_actorUserId input)\<rparr>) db) (\<lambda>(db1, changes).
     if changes \<noteq> 1 then Inr (db1, PaymentConflict)
     else
     andThen (insertPaymentEvent db1
       \<lparr>pe_id = mp_eventId input, pe_company_id = mp_companyId input,
        pe_invoice_id = mp_invoiceId input, pe_actor_user_id = mp_actorUserId input,
        pe_action = ''paymentMarkedPaid'', pe_payment_source = ''manual'',
        pe_paid_on = mp_paidOn input, pe_amount_cents = paidAmountCents,
        pe_occurred_at = mp_recordedAt input\<rparr>) (\<lambda>db2.
     Inr (db2, PaymentMarked
       \<lparr>py_invoiceId = mp_invoiceId input, py_invoiceNumber = iv_invoice_number invoice,
        py_paymentState = ''paid'', py_paidOn = Some (mp_paidOn input),
        py_paidAmountCents = Some paidAmountCents, py_paymentSource = Some ''manual''\<rparr>)))))"

definition revertInvoicePaidMarkWithinTransaction ::
    "LifecycleDatabase \<Rightarrow> RevertInvoicePaidMarkPersistenceInput \<Rightarrow>
     (LifecycleDatabase \<times> PaymentOutcome) result" where
  "revertInvoicePaidMarkWithinTransaction db input =
     (case findInvoice db (rm_companyId input) (rm_invoiceId input) of
        None \<Rightarrow> Inr (db, PaymentNotFound)
      | Some invoice \<Rightarrow>
      if iv_invoice_kind invoice \<noteq> ''standard'' \<or> iv_status invoice \<noteq> ''sent'' then
        Inr (db, PaymentConflict)
      else if iv_payment_state invoice = ''unpaid'' then
        Inr (db, PaymentIdempotent (toPaymentSummary (rm_invoiceId input) invoice))
      else
     (case (iv_paid_on invoice, iv_paid_amount_cents invoice, iv_payment_source invoice) of
        (Some paidOn, Some paidAmount, Some _) \<Rightarrow>
     andThen (updateInvoices (isPayableRow (rm_companyId input) (rm_invoiceId input) ''paid'')
       (\<lambda>row. row\<lparr>iv_payment_state := ''unpaid'', iv_paid_on := None,
          iv_paid_amount_cents := None, iv_payment_source := None,
          iv_payment_recorded_at := None, iv_payment_recorded_by := None\<rparr>) db) (\<lambda>(db1, changes).
     if changes \<noteq> 1 then Inr (db1, PaymentConflict)
     else
     andThen (insertPaymentEvent db1
       \<lparr>pe_id = rm_eventId input, pe_company_id = rm_companyId input,
        pe_invoice_id = rm_invoiceId input, pe_actor_user_id = rm_actorUserId input,
        pe_action = ''paymentMarkReverted'', pe_payment_source = ''manual'',
        pe_paid_on = paidOn, pe_amount_cents = paidAmount,
        pe_occurred_at = rm_recordedAt input\<rparr>) (\<lambda>db2.
     Inr (db2, PaymentReverted
       \<lparr>py_invoiceId = rm_invoiceId input, py_invoiceNumber = iv_invoice_number invoice,
        py_paymentState = ''unpaid'', py_paidOn = None, py_paidAmountCents = None,
        py_paymentSource = None\<rparr>)))
      | _ \<Rightarrow> Inl (GenericError ''Stored invoice payment state is inconsistent.'')))"

section \<open>Requests\<close>

record MarkInvoicePaidInput =
  mi_actorContext :: ActorContext
  mi_invoiceId :: string
  mi_paidOn :: "string option"

text \<open>
  \<open>today\<close> is the calendar date in Helsinki at the time value \<open>now\<close>. Strings are compared by
  code units. A rejected outcome leaves the database as the repository left it.
\<close>

definition markInvoicePaid ::
    "(int \<Rightarrow> string) \<Rightarrow> string \<Rightarrow> int \<Rightarrow> LifecycleDatabase \<Rightarrow> MarkInvoicePaidInput \<Rightarrow>
     (LifecycleDatabase \<times> InvoicePaymentSummary) result" where
  "markInvoicePaid getHelsinkiCalendarDate randomUUID now db input =
     andThen (requirePermission (mi_actorContext input) ''manageInvoicePayments'') (\<lambda>_.
     andThen (requireIdentifier (ac_actorId (mi_actorContext input)) ''Actor user id'') (\<lambda>actorUserId.
     andThen (requireIdentifier (ac_companyId (mi_actorContext input)) ''Company id'') (\<lambda>companyId.
     andThen (requireIdentifier (mi_invoiceId input) ''Approved invoice id'') (\<lambda>invoiceId.
     andThen (requireInvoicePaymentDate (mi_paidOn input)) (\<lambda>paidOn.
     if paidOn > getHelsinkiCalendarDate now then Inl InvoicePaymentDateError
     else
     andThen (markInvoicePaidWithinTransaction db
       \<lparr>mp_actorUserId = actorUserId, mp_companyId = companyId, mp_eventId = randomUUID,
        mp_invoiceId = invoiceId, mp_paidOn = paidOn, mp_recordedAt = toISOString now\<rparr>)
       (\<lambda>(db', outcome).
     case outcome of
       PaymentIdempotent payment \<Rightarrow> Inr (db', payment)
     | PaymentMarked payment \<Rightarrow> Inr (db', payment)
     | PaymentNotFound \<Rightarrow> Inl ApprovedInvoiceNotFoundError
     | _ \<Rightarrow> Inl InvoicePaymentConflictError))))))"

definition revertInvoicePaidMark ::
    "string \<Rightarrow> int \<Rightarrow> LifecycleDatabase \<Rightarrow> ActorContext \<Rightarrow> string \<Rightarrow>
     (LifecycleDatabase \<times> InvoicePaymentSummary) result" where
  "revertInvoicePaidMark randomUUID now db actorContext invoiceIdInput =
     andThen (requirePermission actorContext ''manageInvoicePayments'') (\<lambda>_.
     andThen (requireIdentifier (ac_actorId actorContext) ''Actor user id'') (\<lambda>actorUserId.
     andThen (requireIdentifier (ac_companyId actorContext) ''Company id'') (\<lambda>companyId.
     andThen (requireIdentifier invoiceIdInput ''Approved invoice id'') (\<lambda>invoiceId.
     andThen (revertInvoicePaidMarkWithinTransaction db
       \<lparr>rm_actorUserId = actorUserId, rm_companyId = companyId, rm_eventId = randomUUID,
        rm_invoiceId = invoiceId, rm_recordedAt = toISOString now\<rparr>) (\<lambda>(db', outcome).
     case outcome of
       PaymentIdempotent payment \<Rightarrow> Inr (db', payment)
     | PaymentReverted payment \<Rightarrow> Inr (db', payment)
     | PaymentNotFound \<Rightarrow> Inl ApprovedInvoiceNotFoundError
     | _ \<Rightarrow> Inl InvoicePaymentConflictError)))))"

end
