(* ===== verification/DeliveryDocuments.thy ===== *)
theory DeliveryDocuments
  imports InvoiceTables
begin

text \<open>
  The documents deliveries are bound to: the storage path of a document
  (infrastructure/invoiceDocumentFilePolicy.ts), the checks a stored row must pass
  (invoiceDocumentPersistenceMapping.ts, readInvoiceDocumentMetadata.ts), and the rules for
  the texts of a delivery event (domain/invoiceDeliveryEventRules.ts).
\<close>

section \<open>Storage paths\<close>

definition invoiceDocumentMaximumSizeBytes :: number where
  "invoiceDocumentMaximumSizeBytes = 10 * 1024 * 1024"

definition hexDigit :: "nat \<Rightarrow> char" where
  "hexDigit n = (if n < 10 then digitChar n else char_of (55 + n))"

definition percentByte :: "nat \<Rightarrow> string" where
  "percentByte b = [CHR ''%'', hexDigit (b div 16), hexDigit (b mod 16)]"

definition isUriUnreserved :: "char \<Rightarrow> bool" where
  "isUriUnreserved c \<longleftrightarrow> isDigit c \<or> isUpperAZ c \<or> isLowerAZ c \<or> c \<in> set ''-_.!~*()'' \<or> c = CHR 0x27"

text \<open>
  \<open>encodeURIComponent\<close> percent-encodes the UTF-8 bytes of every other character; a code unit
  from 128 to 255 has two.
\<close>

definition encodeURIComponent :: "string \<Rightarrow> string" where
  "encodeURIComponent s = concat (map (\<lambda>c.
     if isUriUnreserved c then [c]
     else if code c < 128 then percentByte (code c)
     else percentByte (192 + code c div 64) @ percentByte (128 + code c mod 64)) s)"

text \<open>\<open>toString(16).toUpperCase()\<close> of the replaced characters, whose codes have two digits.\<close>

definition replacePathCharacters :: "string \<Rightarrow> string" where
  "replacePathCharacters s =
     concat (map (\<lambda>c. if c \<in> set ''.!()*'' \<or> c = CHR 0x27 then percentByte (code c) else [c]) s)"

definition isPathControl :: "char \<Rightarrow> bool" where
  "isPathControl c \<longleftrightarrow> code c \<le> 31 \<or> code c = 127"

definition encodePathSegment :: "string \<Rightarrow> string result" where
  "encodePathSegment v =
     (if length (trim v) = 0 \<or> (\<exists>c \<in> set v. isPathControl c)
      then Inl InvoiceDocumentIntegrityError
      else case requireIdentifier v ''Document file key'' of
        Inl _ \<Rightarrow> Inl InvoiceDocumentIntegrityError
      | Inr _ \<Rightarrow> Inr (''id-'' @ replacePathCharacters (encodeURIComponent v)))"

definition createInvoiceDocumentStoragePath :: "string \<Rightarrow> string \<Rightarrow> string \<Rightarrow> string result" where
  "createInvoiceDocumentStoragePath companyId invoiceId documentId =
     andThen (encodePathSegment companyId) (\<lambda>a.
     andThen (encodePathSegment invoiceId) (\<lambda>b.
     andThen (encodePathSegment documentId) (\<lambda>c.
     Inr (a @ ''/'' @ b @ ''/'' @ c @ ''/approved-invoice.pdf''))))"

section \<open>Stored documents\<close>

datatype DocumentBinding =
    RevisionBinding string
  | PreservedLegacyBinding string
  | LegacyOriginalBinding

record StoredInvoiceDocumentMetadata =
  dm_id :: string
  dm_companyId :: string
  dm_invoiceId :: string
  dm_documentType :: string
  dm_fileName :: string
  dm_storagePath :: string
  dm_mimeType :: string
  dm_sha256 :: string
  dm_sizeBytes :: number
  dm_createdAt :: string
  dm_binding :: DocumentBinding

definition approvedInvoicePdfDocumentType :: string where
  "approvedInvoicePdfDocumentType = ''approved_invoice_pdf''"

definition approvedInvoicePdfMimeType :: string where
  "approvedInvoicePdfMimeType = ''application/pdf''"

definition nonemptyText :: "string \<Rightarrow> bool" where
  "nonemptyText v \<longleftrightarrow> length (trim v) > 0"

definition isDocumentEvidence :: "string \<Rightarrow> number \<Rightarrow> bool" where
  "isDocumentEvidence sha256 sizeBytes \<longleftrightarrow>
     length sha256 = 64 \<and> isHexDigest sha256 \<and> isSafeInteger sizeBytes \<and> sizeBytes > 0 \<and>
     sizeBytes \<le> invoiceDocumentMaximumSizeBytes"

definition validateDocumentCandidate :: "StoredInvoiceDocumentMetadata \<Rightarrow> unit result" where
  "validateDocumentCandidate d =
     (if \<not> nonemptyText (dm_fileName d) \<or> (\<exists>c \<in> set (dm_fileName d). isPathControl c) \<or>
         \<not> nonemptyText (dm_createdAt d) \<or> \<not> isDocumentEvidence (dm_sha256 d) (dm_sizeBytes d)
      then Inl InvoiceDocumentIntegrityError
      else
     andThen (createInvoiceDocumentStoragePath (dm_companyId d) (dm_invoiceId d) (dm_id d)) (\<lambda>path.
     if dm_storagePath d \<noteq> path then Inl InvoiceDocumentIntegrityError else Inr ()))"

definition documentMetadata ::
    "InvoiceDocumentRow \<Rightarrow> DocumentBinding \<Rightarrow> StoredInvoiceDocumentMetadata" where
  "documentMetadata row binding =
     \<lparr>dm_id = do_id row, dm_companyId = do_company_id row, dm_invoiceId = do_invoice_id row,
      dm_documentType = approvedInvoicePdfDocumentType, dm_fileName = do_file_name row,
      dm_storagePath = do_storage_path row, dm_mimeType = approvedInvoicePdfMimeType,
      dm_sha256 = do_sha256 row, dm_sizeBytes = do_size_bytes row,
      dm_createdAt = do_created_at row, dm_binding = binding\<rparr>"

definition toStoredInvoiceDocument ::
    "InvoiceDocumentRow \<Rightarrow> StoredInvoiceDocumentMetadata result" where
  "toStoredInvoiceDocument row =
     (if \<not> list_all nonemptyText [do_id row, do_company_id row, do_invoice_id row,
           do_file_name row, do_storage_path row, do_created_at row] \<or>
         do_document_type row \<noteq> approvedInvoicePdfDocumentType \<or>
         do_mime_type row \<noteq> approvedInvoicePdfMimeType \<or> length (do_sha256 row) \<noteq> 64 \<or>
         \<not> isSafeInteger (do_size_bytes row) \<or> do_size_bytes row \<le> 0
      then Inl InvoiceDocumentIntegrityError
      else if do_binding_kind row = ''legacyOriginal'' \<and> do_revision_id row = None \<and>
         do_source_document_id row = None
      then Inr (documentMetadata row LegacyOriginalBinding)
      else
     andThen (validateDocumentCandidate (documentMetadata row LegacyOriginalBinding)) (\<lambda>_.
     case (do_revision_id row, do_source_document_id row) of
       (Some revisionId, None) \<Rightarrow>
         if do_binding_kind row = ''revision'' \<and> nonemptyText revisionId
         then Inr (documentMetadata row (RevisionBinding revisionId))
         else Inl InvoiceDocumentIntegrityError
     | (None, Some sourceId) \<Rightarrow>
         if do_binding_kind row = ''preservedLegacy'' \<and> nonemptyText sourceId \<and> sourceId \<noteq> do_id row
         then Inr (documentMetadata row (PreservedLegacyBinding sourceId))
         else Inl InvoiceDocumentIntegrityError
     | _ \<Rightarrow> Inl InvoiceDocumentIntegrityError))"

definition findDocumentRow ::
    "LifecycleDatabase \<Rightarrow> string \<Rightarrow> string \<Rightarrow> string \<Rightarrow> InvoiceDocumentRow option" where
  "findDocumentRow db companyId invoiceId documentId =
     find (\<lambda>d. do_company_id d = companyId \<and> do_invoice_id d = invoiceId \<and> do_id d = documentId)
       (lf_documents db)"

definition validateStoredDocument ::
    "LifecycleDatabase \<Rightarrow> InvoiceDocumentRow \<Rightarrow> StoredInvoiceDocumentMetadata result" where
  "validateStoredDocument db row =
     andThen (toStoredInvoiceDocument row) (\<lambda>document.
     if findInvoice db (do_company_id row) (do_invoice_id row) = None
     then Inl InvoiceDocumentIntegrityError
     else case dm_binding document of
       RevisionBinding revisionId \<Rightarrow>
         if \<exists>r \<in> set (lf_revisions db). rr_company_id r = do_company_id row \<and>
              rr_invoice_id r = do_invoice_id row \<and> rr_id r = revisionId \<and>
              rr_origin r \<in> {''approval'', ''validatedLegacySnapshot''} \<and>
              rr_vat_breakdown_state r = ''authoritative''
         then Inr document else Inl InvoiceDocumentIntegrityError
     | PreservedLegacyBinding sourceDocumentId \<Rightarrow>
         (case findDocumentRow db (do_company_id row) (do_invoice_id row) sourceDocumentId of
            None \<Rightarrow> Inl InvoiceDocumentIntegrityError
          | Some sourceRow \<Rightarrow>
              andThen (toStoredInvoiceDocument sourceRow) (\<lambda>source.
              if dm_binding source \<noteq> LegacyOriginalBinding \<or>
                 dm_sha256 source \<noteq> dm_sha256 document \<or>
                 dm_sizeBytes source \<noteq> dm_sizeBytes document \<or>
                 dm_storagePath source = dm_storagePath document
              then Inl InvoiceDocumentIntegrityError else Inr document))
     | LegacyOriginalBinding \<Rightarrow> Inr document)"

definition readInvoiceDocumentMetadata ::
    "LifecycleDatabase \<Rightarrow> string \<Rightarrow> string \<Rightarrow> string \<Rightarrow>
     StoredInvoiceDocumentMetadata option result" where
  "readInvoiceDocumentMetadata db companyId invoiceId documentId =
     (case findDocumentRow db companyId invoiceId documentId of
        None \<Rightarrow> Inr None
      | Some row \<Rightarrow> andThen (validateStoredDocument db row) (\<lambda>d. Inr (Some d)))"

section \<open>Texts of a delivery event\<close>

definition requireMember :: "string list \<Rightarrow> string \<Rightarrow> string \<Rightarrow> string result" where
  "requireMember allowed message v =
     (if v \<in> set allowed then Inr v else Inl (InvoiceDeliveryEventValidationError message))"

definition requireInvoiceDeliveryMethod :: "string \<Rightarrow> string result" where
  "requireInvoiceDeliveryMethod =
     requireMember [''email'', ''manual'', ''print'', ''other''] ''Delivery method is invalid.''"

definition requireInvoiceDeliveryProvider :: "string \<Rightarrow> string result" where
  "requireInvoiceDeliveryProvider =
     requireMember [''dryRun'', ''smtp'', ''gmail'', ''microsoft'', ''manual'', ''other'']
       ''Delivery provider is invalid.''"

definition requireInvoiceDeliveryStatus :: "string \<Rightarrow> string result" where
  "requireInvoiceDeliveryStatus =
     requireMember [''prepared'', ''attempted'', ''succeeded'', ''failed'', ''outcomeUnknown'']
       ''Delivery status is invalid.''"

definition normalizeLimitedString :: "string option \<Rightarrow> nat \<Rightarrow> string \<Rightarrow> string result" where
  "normalizeLimitedString v maximumLength fieldName =
     (let normalizedValue = (case v of None \<Rightarrow> [] | Some s \<Rightarrow> trim s) in
      if length normalizedValue > maximumLength
      then Inl (InvoiceDeliveryEventValidationError
        (fieldName @ '' must be '' @ showNat maximumLength @ '' characters or less.''))
      else Inr normalizedValue)"

definition normalizeLimitedNullableString ::
    "string option \<Rightarrow> nat \<Rightarrow> string \<Rightarrow> string option result" where
  "normalizeLimitedNullableString v maximumLength fieldName =
     (case v of
        None \<Rightarrow> Inr None
      | Some s \<Rightarrow>
          let normalizedValue = trim s in
          if length normalizedValue = 0 then Inr None
          else if length normalizedValue > maximumLength
          then Inl (InvoiceDeliveryEventValidationError
            (fieldName @ '' must be '' @ showNat maximumLength @ '' characters or less.''))
          else Inr (Some normalizedValue))"

definition normalizeDeliveryEmail :: "string option \<Rightarrow> string result" where
  "normalizeDeliveryEmail v = normalizeLimitedString v 320 ''Email''"

definition normalizeDeliverySubject :: "string option \<Rightarrow> string result" where
  "normalizeDeliverySubject v = normalizeLimitedString v 200 ''Subject''"

definition normalizeDeliveryBodyPreview :: "string option \<Rightarrow> string" where
  "normalizeDeliveryBodyPreview v = take 500 (case v of None \<Rightarrow> [] | Some s \<Rightarrow> trim s)"

definition normalizeDeliverySafeErrorMessage :: "string option \<Rightarrow> string option result" where
  "normalizeDeliverySafeErrorMessage v =
     normalizeLimitedNullableString v 500 ''Safe error message''"

definition normalizeDeliveryTechnicalErrorCode :: "string option \<Rightarrow> string option result" where
  "normalizeDeliveryTechnicalErrorCode v =
     normalizeLimitedNullableString v 120 ''Technical error code''"

definition normalizeDeliveryProviderMessageId :: "string option \<Rightarrow> string option result" where
  "normalizeDeliveryProviderMessageId v =
     andThen (normalizeLimitedNullableString v 500 ''Provider message id'') (\<lambda>normalizedValue.
     case normalizedValue of
       None \<Rightarrow> Inr None
     | Some s \<Rightarrow>
         if \<exists>c \<in> set s. isPathControl c
         then Inl (InvoiceDeliveryEventValidationError ''Provider message id is invalid.'')
         else Inr (Some s))"

definition normalizeDeliveryCreatedBy :: "string option \<Rightarrow> string result" where
  "normalizeDeliveryCreatedBy v = normalizeLimitedString v 120 ''Created by''"

end
