(* ===== verification/InvoiceDelivery.thy ===== *)
theory InvoiceDelivery
  imports DeliveryDocuments
begin

text \<open>
  The deliveries of an invoice: reserving an e-mail delivery before it is sent, recording its
  outcome, completing a delivery by hand, and recording dry runs
  (infrastructure/invoiceDeliveryReservationPersistence.ts, reserveInvoiceEmailDelivery.ts,
  completeReservedInvoiceEmailDelivery.ts, sqliteInvoiceDeliveryEventRepository.ts with its
  queries and statements; application/recordInvoiceDeliveryEvent.ts and
  completeInvoiceDeliveryEvent.ts).
\<close>

section \<open>Targets and reservations\<close>

record InvoiceDeliveryTarget =
  dt_companyId :: string
  dt_invoiceId :: string
  dt_documentId :: string
  dt_sha256 :: string
  dt_sizeBytes :: number
  dt_binding :: DocumentBinding

record InvoiceDeliveryReservation =
  dv_eventId :: string
  dv_mode :: string
  dv_target :: InvoiceDeliveryTarget

definition bindingKind :: "DocumentBinding \<Rightarrow> string" where
  "bindingKind b = (case b of RevisionBinding _ \<Rightarrow> ''revision''
     | PreservedLegacyBinding _ \<Rightarrow> ''preservedLegacy'' | LegacyOriginalBinding \<Rightarrow> ''legacyOriginal'')"

definition requireDeliveryIdentity :: "string \<Rightarrow> unit result" where
  "requireDeliveryIdentity v =
     andThen (requireIdentifier v ''Delivery identity'') (\<lambda>t.
     if t \<noteq> v then Inl InvoiceDeliveryConflictError else Inr ())"

definition assertInvoiceDeliveryTarget :: "InvoiceDeliveryTarget \<Rightarrow> unit result" where
  "assertInvoiceDeliveryTarget target =
     (if \<not> isDocumentEvidence (dt_sha256 target) (dt_sizeBytes target)
      then Inl InvoiceDeliveryConflictError
      else case dt_binding target of
        LegacyOriginalBinding \<Rightarrow> Inl InvoiceDeliveryConflictError
      | RevisionBinding revisionId \<Rightarrow>
          eachR requireDeliveryIdentity
            [dt_companyId target, dt_invoiceId target, dt_documentId target, revisionId]
      | PreservedLegacyBinding sourceDocumentId \<Rightarrow>
          eachR requireDeliveryIdentity
            [dt_companyId target, dt_invoiceId target, dt_documentId target, sourceDocumentId])"

definition assertInvoiceDeliveryReservation :: "InvoiceDeliveryReservation \<Rightarrow> unit result" where
  "assertInvoiceDeliveryReservation reservation =
     (if dv_mode reservation \<notin> {''customer'', ''smtpTest''} \<or>
         dt_binding (dv_target reservation) = LegacyOriginalBinding \<or>
         bindingKind (dt_binding (dv_target reservation)) = ''preservedLegacy'' \<and>
         dv_mode reservation \<noteq> ''customer''
      then Inl InvoiceDeliveryConflictError
      else
     andThen (assertInvoiceDeliveryTarget (dv_target reservation)) (\<lambda>_.
     requireDeliveryIdentity (dv_eventId reservation)))"

definition documentMatchesDeliveryTarget ::
    "StoredInvoiceDocumentMetadata \<Rightarrow> InvoiceDeliveryTarget \<Rightarrow> bool" where
  "documentMatchesDeliveryTarget document target \<longleftrightarrow>
     dm_companyId document = dt_companyId target \<and> dm_invoiceId document = dt_invoiceId target \<and>
     dm_id document = dt_documentId target \<and> dm_sha256 document = dt_sha256 target \<and>
     dm_sizeBytes document = dt_sizeBytes target \<and>
     dt_binding target \<noteq> LegacyOriginalBinding \<and> dm_binding document = dt_binding target"

definition readDeliveryTarget :: "LifecycleDatabase \<Rightarrow> InvoiceDeliveryTarget \<Rightarrow> bool result" where
  "readDeliveryTarget db target =
     andThen (readInvoiceDocumentMetadata db (dt_companyId target) (dt_invoiceId target)
               (dt_documentId target)) (\<lambda>document.
     Inr (case document of None \<Rightarrow> False | Some d \<Rightarrow> documentMatchesDeliveryTarget d target))"

text \<open>
  The invoice a delivery may concern, with the first row of the join of its current revision
  (there is at most one): its status, or none.
\<close>

definition currentRevisionOf ::
    "LifecycleDatabase \<Rightarrow> string \<Rightarrow> string \<Rightarrow> string option \<times> string option" where
  "currentRevisionOf db companyId invoiceId =
     (case find (\<lambda>c. cr_company_id c = companyId \<and> cr_invoice_id c = invoiceId)
            (lf_currentRevisions db) of
        None \<Rightarrow> (None, None)
      | Some c \<Rightarrow>
          (Some (cr_revision_id c),
           map_option rr_origin (find (\<lambda>r. rr_company_id r = companyId \<and>
             rr_invoice_id r = invoiceId \<and> rr_id r = cr_revision_id c) (lf_revisions db))))"

definition readEligibleDeliveryInvoice ::
    "LifecycleDatabase \<Rightarrow> InvoiceDeliveryTarget \<Rightarrow> string option result" where
  "readEligibleDeliveryInvoice db target =
     (if requiresLegacyInvoiceDeliveryReview db (dt_companyId target) (dt_invoiceId target)
      then Inl InvoiceLegacyDeliveryReviewRequiredError
      else Inr
       (case findInvoice db (dt_companyId target) (dt_invoiceId target) of
          None \<Rightarrow> None
        | Some invoice \<Rightarrow>
            if iv_status invoice \<notin> {''approved'', ''sent''} then None
            else
              let (revisionId, origin) =
                currentRevisionOf db (dt_companyId target) (dt_invoiceId target) in
              case dt_binding target of
                RevisionBinding r \<Rightarrow>
                  if revisionId = Some r \<and>
                     origin \<in> {Some ''approval'', Some ''validatedLegacySnapshot''}
                  then Some (iv_status invoice) else None
              | _ \<Rightarrow>
                  if iv_status invoice = ''sent'' \<and> origin = Some ''legacySnapshot''
                  then Some (iv_status invoice) else None))"

definition hasBlockingDeliveryHistory :: "LifecycleDatabase \<Rightarrow> InvoiceDeliveryTarget \<Rightarrow> bool" where
  "hasBlockingDeliveryHistory db target =
     (case dt_binding target of
        PreservedLegacyBinding source \<Rightarrow>
          readLegacyResendSourceId db (dt_companyId target) (dt_invoiceId target) \<noteq> Some source
      | RevisionBinding r \<Rightarrow>
          hasUnresolvedInvoiceDeliveryHistory db (dt_companyId target) (dt_invoiceId target) \<or>
          (\<exists>e \<in> set (deliveriesOf db (dt_companyId target) (dt_invoiceId target)).
             de_binding_kind e = ''legacyOriginal'' \<and> de_provider e = ''smtp'')
      | LegacyOriginalBinding \<Rightarrow> True)"

definition boundRevision :: "DocumentBinding \<Rightarrow> string option" where
  "boundRevision b = (case b of RevisionBinding r \<Rightarrow> Some r | _ \<Rightarrow> None)"

section \<open>Reserving an e-mail delivery\<close>

record ReservedEmailFields =
  ef_recipientEmail :: string
  ef_ccEmail :: string
  ef_subject :: string
  ef_bodyPreview :: string
  ef_createdAt :: string
  ef_createdBy :: string

datatype ReserveEmailDeliveryResult =
    DeliveryReserved InvoiceDeliveryReservation string
  | ReservationConflict

definition reservationRow ::
    "InvoiceDeliveryReservation \<Rightarrow> ReservedEmailFields \<Rightarrow> InvoiceDeliveryEventRow" where
  "reservationRow reservation texts =
     (let target = dv_target reservation in
      \<lparr>de_id = dv_eventId reservation, de_company_id = dt_companyId target,
       de_invoice_id = dt_invoiceId target, de_document_id = Some (dt_documentId target),
       de_delivery_method = ''email'', de_provider = ''smtp'', de_status = ''attempted'',
       de_recipient_email = ef_recipientEmail texts, de_cc_email = ef_ccEmail texts,
       de_subject = ef_subject texts, de_body_preview = ef_bodyPreview texts,
       de_provider_message_id = None, de_safe_error_message = None,
       de_technical_error_code = None, de_created_at = ef_createdAt texts,
       de_created_by = ef_createdBy texts, de_binding_kind = bindingKind (dt_binding target),
       de_revision_id = boundRevision (dt_binding target), de_send_mode = dv_mode reservation,
       de_document_sha256 = Some (dt_sha256 target),
       de_document_size_bytes = Some (dt_sizeBytes target)\<rparr>)"

definition normalizeEmailFields :: "ReservedEmailFields \<Rightarrow> ReservedEmailFields result" where
  "normalizeEmailFields input =
     andThen (normalizeDeliveryEmail (Some (ef_recipientEmail input))) (\<lambda>recipientEmail.
     andThen (normalizeDeliveryEmail (Some (ef_ccEmail input))) (\<lambda>ccEmail.
     andThen (normalizeDeliverySubject (Some (ef_subject input))) (\<lambda>subject.
     let bodyPreview = normalizeDeliveryBodyPreview (Some (ef_bodyPreview input)) in
     andThen (requireIdentifier (ef_createdAt input) ''Delivery timestamp'') (\<lambda>createdAt.
     andThen (normalizeDeliveryCreatedBy (Some (ef_createdBy input))) (\<lambda>createdBy.
     Inr \<lparr>ef_recipientEmail = recipientEmail, ef_ccEmail = ccEmail, ef_subject = subject,
          ef_bodyPreview = bodyPreview, ef_createdAt = createdAt, ef_createdBy = createdBy\<rparr>)))))"

definition reserveInvoiceEmailDelivery ::
    "LifecycleDatabase \<Rightarrow> InvoiceDeliveryReservation \<Rightarrow> ReservedEmailFields \<Rightarrow>
     (LifecycleDatabase \<times> ReserveEmailDeliveryResult) result" where
  "reserveInvoiceEmailDelivery db reservation input =
     andThen (assertInvoiceDeliveryReservation reservation) (\<lambda>_.
     andThen (normalizeEmailFields input) (\<lambda>texts.
     if length (ef_recipientEmail texts) = 0 \<or>
        dv_mode reservation = ''smtpTest'' \<and> ef_ccEmail texts \<noteq> []
     then Inl InvoiceDeliveryConflictError
     else
     let target = dv_target reservation in
     andThen (readEligibleDeliveryInvoice db target) (\<lambda>invoice.
     case invoice of
       None \<Rightarrow> Inr (db, ReservationConflict)
     | Some status \<Rightarrow>
     if hasBlockingDeliveryHistory db target then Inr (db, ReservationConflict)
     else
     andThen (readDeliveryTarget db target) (\<lambda>stored.
     if \<not> stored \<or> (\<exists>e \<in> set (lf_deliveryEvents db). de_id e = dv_eventId reservation)
     then Inr (db, ReservationConflict)
     else
     andThen (insertDeliveryEventRow db (reservationRow reservation texts)) (\<lambda>db'.
     Inr (db', DeliveryReserved reservation status))))))"

section \<open>Recording the outcome\<close>

datatype EmailDeliveryOutcome =
    EmailSucceeded "string option"
  | EmailFailed "string option" "string option"
  | EmailOutcomeUnknown "string option" "string option"

datatype EmailCompletionResult = EmailCompleted | EmailAlreadyCompleted

record EmailOutcomeColumns =
  eo_status :: string
  eo_provider_message_id :: "string option"
  eo_safe_error_message :: "string option"
  eo_technical_error_code :: "string option"

definition outcomeColumns :: "EmailDeliveryOutcome \<Rightarrow> EmailOutcomeColumns result" where
  "outcomeColumns result' =
     (case result' of
        EmailSucceeded providerMessageId \<Rightarrow>
          andThen (normalizeDeliveryProviderMessageId providerMessageId) (\<lambda>i.
          Inr \<lparr>eo_status = ''succeeded'', eo_provider_message_id = i,
               eo_safe_error_message = None, eo_technical_error_code = None\<rparr>)
      | EmailFailed safeErrorMessage technicalErrorCode \<Rightarrow>
          andThen (normalizeDeliverySafeErrorMessage safeErrorMessage) (\<lambda>m.
          andThen (normalizeDeliveryTechnicalErrorCode technicalErrorCode) (\<lambda>c.
          Inr \<lparr>eo_status = ''failed'', eo_provider_message_id = None,
               eo_safe_error_message = m, eo_technical_error_code = c\<rparr>))
      | EmailOutcomeUnknown safeErrorMessage technicalErrorCode \<Rightarrow>
          andThen (normalizeDeliverySafeErrorMessage safeErrorMessage) (\<lambda>m.
          andThen (normalizeDeliveryTechnicalErrorCode technicalErrorCode) (\<lambda>c.
          Inr \<lparr>eo_status = ''outcomeUnknown'', eo_provider_message_id = None,
               eo_safe_error_message = m, eo_technical_error_code = c\<rparr>)))"

definition isSuccess :: "EmailDeliveryOutcome \<Rightarrow> bool" where
  "isSuccess result' = (case result' of EmailSucceeded _ \<Rightarrow> True | _ \<Rightarrow> False)"

definition eventMatchesReservation ::
    "InvoiceDeliveryReservation \<Rightarrow> InvoiceDeliveryEventRow \<Rightarrow> bool" where
  "eventMatchesReservation reservation event \<longleftrightarrow>
     de_provider event = ''smtp'' \<and> de_delivery_method event = ''email'' \<and>
     de_send_mode event = dv_mode reservation \<and>
     de_binding_kind event = bindingKind (dt_binding (dv_target reservation)) \<and>
     de_document_id event = Some (dt_documentId (dv_target reservation)) \<and>
     de_document_sha256 event = Some (dt_sha256 (dv_target reservation)) \<and>
     de_document_size_bytes event = Some (dt_sizeBytes (dv_target reservation)) \<and>
     de_revision_id event = boundRevision (dt_binding (dv_target reservation))"

definition outcomeRecorded :: "EmailOutcomeColumns \<Rightarrow> InvoiceDeliveryEventRow \<Rightarrow> bool" where
  "outcomeRecorded outcome event \<longleftrightarrow>
     de_status event = eo_status outcome \<and>
     de_provider_message_id event = eo_provider_message_id outcome \<and>
     de_safe_error_message event = eo_safe_error_message outcome \<and>
     de_technical_error_code event = eo_technical_error_code outcome"

definition setOutcome :: "EmailOutcomeColumns \<Rightarrow> InvoiceDeliveryEventRow \<Rightarrow> InvoiceDeliveryEventRow" where
  "setOutcome outcome event =
     event\<lparr>de_status := eo_status outcome,
           de_provider_message_id := eo_provider_message_id outcome,
           de_safe_error_message := eo_safe_error_message outcome,
           de_technical_error_code := eo_technical_error_code outcome\<rparr>"

definition completeReservedInvoiceEmailDelivery ::
    "LifecycleDatabase \<Rightarrow> InvoiceDeliveryReservation \<Rightarrow> EmailDeliveryOutcome \<Rightarrow> bool \<Rightarrow>
     (LifecycleDatabase \<times> EmailCompletionResult) result" where
  "completeReservedInvoiceEmailDelivery db reservation result' customerSuccess =
     andThen (assertInvoiceDeliveryReservation reservation) (\<lambda>_.
     if customerSuccess \<noteq> (dv_mode reservation = ''customer'' \<and> isSuccess result')
     then Inl InvoiceDeliveryConflictError
     else
     andThen (outcomeColumns result') (\<lambda>outcome.
     let target = dv_target reservation in
     case find (\<lambda>e. de_company_id e = dt_companyId target \<and> de_invoice_id e = dt_invoiceId target \<and>
                 de_id e = dv_eventId reservation) (lf_deliveryEvents db) of
       None \<Rightarrow> Inl InvoiceDeliveryConflictError
     | Some event \<Rightarrow>
     if \<not> eventMatchesReservation reservation event then Inl InvoiceDeliveryConflictError
     else
     andThen (readDeliveryTarget db target) (\<lambda>stored.
     if \<not> stored then Inl InvoiceDeliveryConflictError
     else if de_status event \<noteq> ''attempted'' then
       (if outcomeRecorded outcome event then Inr (db, EmailAlreadyCompleted)
        else Inl InvoiceDeliveryConflictError)
     else
     andThen (if eo_status outcome = ''succeeded'' then readEligibleDeliveryInvoice db target
              else Inr None) (\<lambda>invoice.
     if eo_status outcome = ''succeeded'' \<and> invoice = None then Inl InvoiceDeliveryConflictError
     else
     andThen (completeAttemptRow db (dt_companyId target) (dt_invoiceId target)
               (dv_eventId reservation) (setOutcome outcome)) (\<lambda>(db1, changes).
     if changes \<noteq> 1 then Inl InvoiceDeliveryConflictError
     else if customerSuccess \<and> invoice = Some ''approved'' then
     andThen (updateInvoices
       (\<lambda>row. isInvoice (dt_companyId target) (dt_invoiceId target) row \<and> iv_status row = ''approved'')
       (\<lambda>row. row\<lparr>iv_status := ''sent'', iv_updated_at := de_created_at event\<rparr>) db1)
       (\<lambda>(db2, updated).
     if updated \<noteq> 1 then Inl InvoiceDeliveryConflictError
     else Inr (db2, EmailCompleted))
     else Inr (db1, EmailCompleted))))))"

text \<open>The request that records every outcome but a customer's success.\<close>

definition completeInvoiceDeliveryEvent ::
    "LifecycleDatabase \<Rightarrow> InvoiceDeliveryReservation \<Rightarrow> EmailDeliveryOutcome \<Rightarrow>
     (LifecycleDatabase \<times> EmailCompletionResult) result" where
  "completeInvoiceDeliveryEvent db reservation result' =
     (case result' of
        EmailSucceeded providerMessageId \<Rightarrow>
          if dv_mode reservation = ''smtpTest'' then
            andThen (normalizeDeliveryProviderMessageId providerMessageId) (\<lambda>i.
            completeReservedInvoiceEmailDelivery db reservation (EmailSucceeded i) False)
          else Inl (GenericError ''Customer success requires the invoice finalizer.'')
      | EmailFailed m c \<Rightarrow>
          andThen (normalizeDeliverySafeErrorMessage m) (\<lambda>m'.
          andThen (normalizeDeliveryTechnicalErrorCode c) (\<lambda>c'.
          completeReservedInvoiceEmailDelivery db reservation (EmailFailed m' c') False))
      | EmailOutcomeUnknown m c \<Rightarrow>
          andThen (normalizeDeliverySafeErrorMessage m) (\<lambda>m'.
          andThen (normalizeDeliveryTechnicalErrorCode c) (\<lambda>c'.
          completeReservedInvoiceEmailDelivery db reservation (EmailOutcomeUnknown m' c') False)))"

definition completeSuccessfulEmailDelivery ::
    "LifecycleDatabase \<Rightarrow> InvoiceDeliveryReservation \<Rightarrow> string option \<Rightarrow>
     (LifecycleDatabase \<times> EmailCompletionResult) result" where
  "completeSuccessfulEmailDelivery db reservation providerMessageId =
     completeReservedInvoiceEmailDelivery db reservation (EmailSucceeded providerMessageId) True"

section \<open>Deliveries by hand and dry runs\<close>

record InvoiceRecordedDeliveryEvent =
  rd_id :: string
  rd_companyId :: string
  rd_invoiceId :: string
  rd_documentId :: string
  rd_target :: InvoiceDeliveryTarget
  rd_deliveryMethod :: string
  rd_provider :: string
  rd_status :: string
  rd_recipientEmail :: string
  rd_ccEmail :: string
  rd_subject :: string
  rd_bodyPreview :: string
  rd_providerMessageId :: "string option"
  rd_safeErrorMessage :: "string option"
  rd_technicalErrorCode :: "string option"
  rd_createdAt :: string
  rd_createdBy :: string

definition toDeliveryEventRow :: "InvoiceRecordedDeliveryEvent \<Rightarrow> InvoiceDeliveryEventRow" where
  "toDeliveryEventRow event =
     \<lparr>de_id = rd_id event, de_company_id = rd_companyId event, de_invoice_id = rd_invoiceId event,
      de_document_id = Some (rd_documentId event), de_delivery_method = rd_deliveryMethod event,
      de_provider = rd_provider event, de_status = rd_status event,
      de_recipient_email = rd_recipientEmail event, de_cc_email = rd_ccEmail event,
      de_subject = rd_subject event, de_body_preview = rd_bodyPreview event,
      de_provider_message_id = rd_providerMessageId event,
      de_safe_error_message = rd_safeErrorMessage event,
      de_technical_error_code = rd_technicalErrorCode event,
      de_created_at = rd_createdAt event, de_created_by = rd_createdBy event,
      de_binding_kind = ''revision'', de_revision_id = boundRevision (dt_binding (rd_target event)),
      de_send_mode = rd_provider event, de_document_sha256 = Some (dt_sha256 (rd_target event)),
      de_document_size_bytes = Some (dt_sizeBytes (rd_target event))\<rparr>"

definition isRevisionTarget :: "InvoiceDeliveryTarget \<Rightarrow> bool" where
  "isRevisionTarget target = (case dt_binding target of RevisionBinding _ \<Rightarrow> True | _ \<Rightarrow> False)"

definition saveDeliveryEvent ::
    "LifecycleDatabase \<Rightarrow> InvoiceRecordedDeliveryEvent \<Rightarrow> LifecycleDatabase result" where
  "saveDeliveryEvent db event =
     (if rd_provider event \<noteq> ''dryRun'' \<or> rd_deliveryMethod event \<noteq> ''email'' \<or>
         rd_status event \<notin> {''succeeded'', ''failed''}
      then Inl InvoiceDeliveryConflictError
      else
     andThen (assertInvoiceDeliveryTarget (rd_target event)) (\<lambda>_.
     let target = rd_target event in
     if \<not> isRevisionTarget target \<or> rd_companyId event \<noteq> dt_companyId target \<or>
        rd_invoiceId event \<noteq> dt_invoiceId target \<or> rd_documentId event \<noteq> dt_documentId target
     then Inl InvoiceDeliveryConflictError
     else
     andThen (readEligibleDeliveryInvoice db target) (\<lambda>invoice.
     if invoice = None then Inl InvoiceDeliveryConflictError
     else
     andThen (readDeliveryTarget db target) (\<lambda>stored.
     if \<not> stored then Inl InvoiceDeliveryConflictError
     else insertDeliveryEventRow db (toDeliveryEventRow event)))))"

record RecordInvoiceDeliveryEventInput =
  rn_id :: "string option"
  rn_target :: InvoiceDeliveryTarget
  rn_deliveryMethod :: string
  rn_provider :: string
  rn_status :: string
  rn_recipientEmail :: "string option"
  rn_ccEmail :: "string option"
  rn_subject :: "string option"
  rn_body :: "string option"
  rn_bodyPreview :: "string option"
  rn_providerMessageId :: "string option"
  rn_safeErrorMessage :: "string option"
  rn_technicalErrorCode :: "string option"
  rn_createdAt :: string
  rn_createdBy :: "string option"

definition normalizeTarget :: "InvoiceDeliveryTarget \<Rightarrow> string \<Rightarrow> InvoiceDeliveryTarget result" where
  "normalizeTarget target revisionId =
     andThen (requireIdentifier (dt_companyId target) ''Company id'') (\<lambda>companyId.
     andThen (requireIdentifier (dt_invoiceId target) ''Approved invoice id'') (\<lambda>invoiceId.
     andThen (requireIdentifier (dt_documentId target) ''Invoice document id'') (\<lambda>documentId.
     andThen (requireIdentifier revisionId ''Invoice revision id'') (\<lambda>revision.
     Inr (target\<lparr>dt_companyId := companyId, dt_invoiceId := invoiceId,
                 dt_documentId := documentId, dt_binding := RevisionBinding revision\<rparr>)))))"

definition recordInvoiceDeliveryEvent ::
    "string \<Rightarrow> LifecycleDatabase \<Rightarrow> RecordInvoiceDeliveryEventInput \<Rightarrow>
     (LifecycleDatabase \<times> InvoiceRecordedDeliveryEvent) result" where
  "recordInvoiceDeliveryEvent randomUUID db input =
     andThen (requireInvoiceDeliveryMethod (rn_deliveryMethod input)) (\<lambda>deliveryMethod.
     andThen (requireInvoiceDeliveryProvider (rn_provider input)) (\<lambda>provider.
     andThen (requireInvoiceDeliveryStatus (rn_status input)) (\<lambda>status.
     case dt_binding (rn_target input) of
       RevisionBinding revisionId \<Rightarrow>
     if deliveryMethod \<noteq> ''email'' \<or> provider \<noteq> ''dryRun'' \<or> status \<notin> {''succeeded'', ''failed''}
     then Inl (InvoiceDeliveryEventValidationError
       ''Only revision-bound dry-run results can be recorded.'')
     else
     andThen (normalizeTarget (rn_target input) revisionId) (\<lambda>target.
     andThen (case rn_id input of None \<Rightarrow> Inr randomUUID
              | Some i \<Rightarrow> requireIdentifier i ''Delivery event id'') (\<lambda>i.
     andThen (normalizeDeliveryEmail (rn_recipientEmail input)) (\<lambda>recipientEmail.
     andThen (normalizeDeliveryEmail (rn_ccEmail input)) (\<lambda>ccEmail.
     andThen (normalizeDeliverySubject (rn_subject input)) (\<lambda>subject.
     andThen (normalizeDeliveryProviderMessageId (rn_providerMessageId input)) (\<lambda>messageId.
     andThen (normalizeDeliverySafeErrorMessage (rn_safeErrorMessage input)) (\<lambda>safeError.
     andThen (normalizeDeliveryTechnicalErrorCode (rn_technicalErrorCode input)) (\<lambda>technical.
     andThen (requireIdentifier (rn_createdAt input) ''Delivery event timestamp'') (\<lambda>createdAt.
     andThen (normalizeDeliveryCreatedBy (rn_createdBy input)) (\<lambda>createdBy.
     let event = \<lparr>rd_id = i, rd_companyId = dt_companyId target, rd_invoiceId = dt_invoiceId target,
       rd_documentId = dt_documentId target, rd_target = target,
       rd_deliveryMethod = deliveryMethod, rd_provider = provider, rd_status = status,
       rd_recipientEmail = recipientEmail, rd_ccEmail = ccEmail, rd_subject = subject,
       rd_bodyPreview = normalizeDeliveryBodyPreview
         (case rn_bodyPreview input of None \<Rightarrow> rn_body input | Some b \<Rightarrow> Some b),
       rd_providerMessageId = messageId, rd_safeErrorMessage = safeError,
       rd_technicalErrorCode = technical, rd_createdAt = createdAt, rd_createdBy = createdBy\<rparr> in
     andThen (saveDeliveryEvent db event) (\<lambda>db'. Inr (db', event))))))))))))
     | _ \<Rightarrow> Inl (InvoiceDeliveryEventValidationError
         ''Only revision-bound dry-run results can be recorded.''))))"

record CompleteManualInvoiceDeliveryInput =
  cm_actorUserId :: string
  cm_auditEventId :: string
  cm_deliveredAt :: string
  cm_deliveryEventId :: string
  cm_deliveryMethod :: string
  cm_target :: InvoiceDeliveryTarget

datatype ManualDeliveryResult = ManualCompleted string | ManualAlreadySent string

definition manualDeliveryEvent :: "CompleteManualInvoiceDeliveryInput \<Rightarrow> InvoiceRecordedDeliveryEvent" where
  "manualDeliveryEvent input =
     \<lparr>rd_id = cm_deliveryEventId input, rd_companyId = dt_companyId (cm_target input),
      rd_invoiceId = dt_invoiceId (cm_target input), rd_documentId = dt_documentId (cm_target input),
      rd_target = cm_target input, rd_deliveryMethod = cm_deliveryMethod input,
      rd_provider = ''manual'', rd_status = ''succeeded'', rd_recipientEmail = [], rd_ccEmail = [],
      rd_subject = [], rd_bodyPreview = [], rd_providerMessageId = None,
      rd_safeErrorMessage = None, rd_technicalErrorCode = None,
      rd_createdAt = cm_deliveredAt input, rd_createdBy = cm_actorUserId input\<rparr>"

definition markApprovedInvoiceSentRow ::
    "LifecycleDatabase \<Rightarrow> string \<Rightarrow> string \<Rightarrow> string \<Rightarrow> LifecycleDatabase result" where
  "markApprovedInvoiceSentRow db companyId invoiceId sentAt =
     andThen (updateInvoices
       (\<lambda>row. isInvoice companyId invoiceId row \<and> iv_status row = ''approved'')
       (\<lambda>row. row\<lparr>iv_status := ''sent'', iv_updated_at := sentAt\<rparr>) db) (\<lambda>(db', changes).
     if changes \<noteq> 1 then Inl (GenericError ''Approved invoice could not be marked sent.'')
     else Inr db')"

definition completeManualDelivery ::
    "LifecycleDatabase \<Rightarrow> CompleteManualInvoiceDeliveryInput \<Rightarrow>
     (LifecycleDatabase \<times> ManualDeliveryResult option) result" where
  "completeManualDelivery db input =
     (let target = cm_target input in
     andThen (assertInvoiceDeliveryTarget target) (\<lambda>_.
     if \<not> isRevisionTarget target \<or> cm_deliveryMethod input \<notin> {''manual'', ''print''}
     then Inl InvoiceDeliveryConflictError
     else case findInvoice db (dt_companyId target) (dt_invoiceId target) of
       None \<Rightarrow> Inr (db, None)
     | Some invoice \<Rightarrow>
     if iv_status invoice \<notin> {''approved'', ''sent''} then Inr (db, None)
     else
     andThen (readEligibleDeliveryInvoice db target) (\<lambda>eligible.
     if eligible = None then Inl InvoiceDeliveryConflictError
     else
     andThen (readDeliveryTarget db target) (\<lambda>stored.
     if \<not> stored then Inl InvoiceDeliveryConflictError
     else if iv_status invoice = ''sent'' then
       Inr (db, Some (ManualAlreadySent (iv_updated_at invoice)))
     else if hasBlockingDeliveryHistory db target then Inl InvoiceDeliveryConflictError
     else
     andThen (insertDeliveryEventRow db (toDeliveryEventRow (manualDeliveryEvent input))) (\<lambda>db1.
     andThen (markApprovedInvoiceSentRow db1 (dt_companyId target) (dt_invoiceId target)
               (cm_deliveredAt input)) (\<lambda>db2.
     andThen (insertInvoiceAuditEvent db2
       \<lparr>ia_id = cm_auditEventId input, ia_company_id = dt_companyId target,
        ia_actor_user_id = cm_actorUserId input, ia_action = ''invoice.marked_sent_manually'',
        ia_draft_id = iv_source_draft_id invoice, ia_invoice_id = dt_invoiceId target,
        ia_invoice_number = iv_invoice_number invoice,
        ia_created_at = cm_deliveredAt input\<rparr>) (\<lambda>db3.
     Inr (db3, Some (ManualCompleted (cm_deliveredAt input))))))))))"

end
