(* ===== verification/InvoiceCorrections.thy ===== *)
theory InvoiceCorrections
  imports InvoiceTables Actor
begin

text \<open>
  Taking an approved invoice back: cancelling it
  (infrastructure/sqliteInvoiceCorrectionRepository.ts, application/cancelApprovedInvoice.ts)
  and reopening it for editing (infrastructure/sqliteInvoiceApprovalRepository.ts,
  application/reopenApprovedInvoiceForEditing.ts).
\<close>

section \<open>Cancelling\<close>

record CancelApprovedInvoicePersistenceInput =
  cp_actorUserId :: string
  cp_auditEventId :: string
  cp_cancellationReason :: string
  cp_cancelledAt :: string
  cp_companyId :: string
  cp_confirmationInvoiceNumber :: string
  cp_invoiceId :: string

record CancelledApprovedInvoiceResult =
  ci_cancellationReason :: string
  ci_cancelledAt :: string
  ci_cancelledBy :: string
  ci_invoiceId :: string
  ci_invoiceKind :: string
  ci_invoiceNumber :: string

datatype CancellationOutcome =
    CancellationNotFound
  | NotCancellable
  | ConfirmationMismatch
  | CancellationDeliveryConflict
  | InvoiceCancelled CancelledApprovedInvoiceResult

definition cancelApprovedInvoiceWithinTransaction ::
    "LifecycleDatabase \<Rightarrow> CancelApprovedInvoicePersistenceInput \<Rightarrow>
     (LifecycleDatabase \<times> CancellationOutcome) result" where
  "cancelApprovedInvoiceWithinTransaction db input =
     (case findInvoice db (cp_companyId input) (cp_invoiceId input) of
        None \<Rightarrow> Inr (db, CancellationNotFound)
      | Some invoice \<Rightarrow>
      if iv_status invoice \<noteq> ''approved'' then Inr (db, NotCancellable)
      else if iv_invoice_number invoice \<noteq> cp_confirmationInvoiceNumber input then
        Inr (db, ConfirmationMismatch)
      else if hasBlockingDeliveryEvent db (cp_companyId input) (cp_invoiceId input) then
        Inr (db, CancellationDeliveryConflict)
      else
     andThen (updateInvoices
       (\<lambda>row. isInvoice (cp_companyId input) (cp_invoiceId input) row \<and>
          iv_invoice_number row = cp_confirmationInvoiceNumber input \<and>
          iv_status row = ''approved'')
       (\<lambda>row. row\<lparr>iv_status := ''cancelled'', iv_cancelled_at := Some (cp_cancelledAt input),
          iv_cancelled_by := Some (cp_actorUserId input),
          iv_cancellation_reason := Some (cp_cancellationReason input),
          iv_updated_at := cp_cancelledAt input\<rparr>) db) (\<lambda>(db1, changes).
     if changes \<noteq> 1 then Inr (db1, NotCancellable)
     else
     andThen (insertInvoiceAuditEvent db1
       \<lparr>ia_id = cp_auditEventId input, ia_company_id = cp_companyId input,
        ia_actor_user_id = cp_actorUserId input, ia_action = ''invoice.cancelled'',
        ia_draft_id = iv_source_draft_id invoice, ia_invoice_id = cp_invoiceId input,
        ia_invoice_number = iv_invoice_number invoice,
        ia_created_at = cp_cancelledAt input\<rparr>) (\<lambda>db2.
     Inr (db2, InvoiceCancelled
       \<lparr>ci_cancellationReason = cp_cancellationReason input,
        ci_cancelledAt = cp_cancelledAt input, ci_cancelledBy = cp_actorUserId input,
        ci_invoiceId = cp_invoiceId input, ci_invoiceKind = iv_invoice_kind invoice,
        ci_invoiceNumber = iv_invoice_number invoice\<rparr>))))"

record CancelApprovedInvoiceInput =
  cx_actorContext :: ActorContext
  cx_cancellationReason :: string
  cx_cancelledAt :: string
  cx_confirmationInvoiceNumber :: string
  cx_invoiceId :: string

definition cancelApprovedInvoice ::
    "string \<Rightarrow> LifecycleDatabase \<Rightarrow> CancelApprovedInvoiceInput \<Rightarrow>
     (LifecycleDatabase \<times> CancelledApprovedInvoiceResult) result" where
  "cancelApprovedInvoice randomUUID db input =
     andThen (requirePermission (cx_actorContext input) ''manageInvoiceCorrections'') (\<lambda>_.
     andThen (requireIdentifier (ac_actorId (cx_actorContext input)) ''Actor user id'') (\<lambda>actorUserId.
     andThen (requireIdentifier (ac_companyId (cx_actorContext input)) ''Company id'') (\<lambda>companyId.
     andThen (requireIdentifier (cx_invoiceId input) ''Approved invoice id'') (\<lambda>invoiceId.
     andThen (requireIdentifier (cx_cancelledAt input) ''Cancellation timestamp'') (\<lambda>cancelledAt.
     andThen (requireIdentifier (cx_confirmationInvoiceNumber input)
               ''Invoice number confirmation'') (\<lambda>confirmation.
     andThen (normalizeInvoiceCancellationReason (cx_cancellationReason input)) (\<lambda>reason.
     andThen (cancelApprovedInvoiceWithinTransaction db
       \<lparr>cp_actorUserId = actorUserId, cp_auditEventId = randomUUID,
        cp_cancellationReason = reason, cp_cancelledAt = cancelledAt, cp_companyId = companyId,
        cp_confirmationInvoiceNumber = confirmation, cp_invoiceId = invoiceId\<rparr>)
       (\<lambda>(db', outcome).
     case outcome of
       InvoiceCancelled invoice \<Rightarrow> Inr (db', invoice)
     | ConfirmationMismatch \<Rightarrow> Inl InvoiceCancellationConfirmationError
     | CancellationDeliveryConflict \<Rightarrow> Inl InvoiceCancellationConflictError
     | NotCancellable \<Rightarrow> Inl InvoiceCancellationConflictError
     | CancellationNotFound \<Rightarrow> Inl ApprovedInvoiceNotFoundError))))))))"

section \<open>Reopening\<close>

record ReopenApprovedInvoicePersistenceInput =
  ro_actorUserId :: string
  ro_auditEventId :: string
  ro_companyId :: string
  ro_invoiceId :: string
  ro_reopenedAt :: string

record ReopenedApprovedInvoiceResult =
  rb_draftId :: string
  rb_invoiceId :: string

definition getApprovedInvoiceForReopen ::
    "LifecycleDatabase \<Rightarrow> string \<Rightarrow> string \<Rightarrow> InvoiceStateRow option" where
  "getApprovedInvoiceForReopen db companyId invoiceId =
     find (\<lambda>row. isInvoice companyId invoiceId row \<and> iv_status row = ''approved'' \<and>
       iv_invoice_kind row = ''standard'' \<and> iv_credited_invoice_id row = None) (lf_invoices db)"

definition reopenApprovedInvoiceWithinTransaction ::
    "LifecycleDatabase \<Rightarrow> ReopenApprovedInvoicePersistenceInput \<Rightarrow>
     (LifecycleDatabase \<times> ReopenedApprovedInvoiceResult option) result" where
  "reopenApprovedInvoiceWithinTransaction db input =
     (let companyId = ro_companyId input; invoiceId = ro_invoiceId input in
      case getApprovedInvoiceForReopen db companyId invoiceId of
        None \<Rightarrow> Inr (db, None)
      | Some invoice \<Rightarrow>
      if requiresLegacyInvoiceDeliveryReview db companyId invoiceId then
        Inl InvoiceLegacyDeliveryReviewRequiredError
      else if hasUnresolvedDelivery db companyId invoiceId then
        Inl InvoiceDeliveryConflictError
      else
     andThen (markInvoiceReopenedForEditing db companyId invoiceId (ro_reopenedAt input)) (\<lambda>db1.
     andThen (unlockSourceDraftForEditing (lf_drafts db1) companyId (iv_source_draft_id invoice)
               invoiceId (ro_reopenedAt input)) (\<lambda>drafts.
     let db2 = detachCurrentInvoiceRevision (db1\<lparr>lf_drafts := drafts\<rparr>) companyId invoiceId in
     andThen (insertInvoiceAuditEvent db2
       \<lparr>ia_id = ro_auditEventId input, ia_company_id = companyId,
        ia_actor_user_id = ro_actorUserId input, ia_action = ''invoice.reopened_for_edit'',
        ia_draft_id = iv_source_draft_id invoice, ia_invoice_id = iv_id invoice,
        ia_invoice_number = iv_invoice_number invoice,
        ia_created_at = ro_reopenedAt input\<rparr>) (\<lambda>db3.
     Inr (db3, Some \<lparr>rb_draftId = iv_source_draft_id invoice, rb_invoiceId = iv_id invoice\<rparr>)))))"

definition reopenApprovedInvoiceForEditing ::
    "string \<Rightarrow> LifecycleDatabase \<Rightarrow> string \<Rightarrow> string \<Rightarrow> string \<Rightarrow> string \<Rightarrow>
     (LifecycleDatabase \<times> ReopenedApprovedInvoiceResult) result" where
  "reopenApprovedInvoiceForEditing randomUUID db actorUserIdInput companyIdInput invoiceIdInput
     reopenedAtInput =
     andThen (requireIdentifier actorUserIdInput ''Actor user id'') (\<lambda>actorUserId.
     andThen (requireIdentifier companyIdInput ''Company id'') (\<lambda>companyId.
     andThen (requireIdentifier invoiceIdInput ''Approved invoice id'') (\<lambda>invoiceId.
     andThen (requireIdentifier reopenedAtInput ''Reopen timestamp'') (\<lambda>reopenedAt.
     andThen (reopenApprovedInvoiceWithinTransaction db
       \<lparr>ro_actorUserId = actorUserId, ro_auditEventId = randomUUID, ro_companyId = companyId,
        ro_invoiceId = invoiceId, ro_reopenedAt = reopenedAt\<rparr>) (\<lambda>(db', reopened).
     case reopened of
       None \<Rightarrow> Inl ApprovedInvoiceNotFoundError
     | Some r \<Rightarrow> Inr (db', r))))))"

end
