(* ===== verification/LifecycleHistory.thy ===== *)
theory LifecycleHistory
  imports InvoicePayments InvoiceDelivery InvoiceCorrections
begin

text \<open>
  Histories of everything that happens to invoices after their approval: payments, deliveries,
  cancellations, reopenings and new approvals, in any order. A request that fails leaves the
  database as it was. The tables other parts of the program own (drafts, documents and content
  revisions) may change in any way between two requests.
\<close>

section \<open>Requests\<close>

text \<open>
  What an approval stores of the columns modelled here (\<open>createInvoiceRow\<close>,
  \<open>createCreditInvoiceRow\<close>), and the guards before the two statements: a credit needs a sent
  standard invoice, a new approval a reopened invoice without an unresolved delivery.
\<close>

definition approvedInvoiceRow ::
    "string \<Rightarrow> string \<Rightarrow> string \<Rightarrow> string option \<Rightarrow> string \<Rightarrow> number \<Rightarrow> string \<Rightarrow> InvoiceStateRow" where
  "approvedInvoiceRow companyId invoiceId draftId creditedInvoiceId invoiceNumber gross approvedAt =
     \<lparr>iv_id = invoiceId, iv_company_id = companyId, iv_source_draft_id = draftId,
      iv_invoice_kind = (if creditedInvoiceId = None then ''standard'' else ''credit''),
      iv_credited_invoice_id = creditedInvoiceId, iv_invoice_number = invoiceNumber,
      iv_status = ''approved'', iv_total_gross_cents = gross, iv_updated_at = approvedAt,
      iv_cancelled_at = None, iv_cancelled_by = None, iv_cancellation_reason = None,
      iv_payment_state = ''unpaid'', iv_paid_on = None, iv_paid_amount_cents = None,
      iv_payment_source = None, iv_payment_recorded_at = None, iv_payment_recorded_by = None\<rparr>"

definition isCreditSource :: "LifecycleDatabase \<Rightarrow> string \<Rightarrow> string \<Rightarrow> bool" where
  "isCreditSource db companyId invoiceId \<longleftrightarrow>
     (\<exists>r \<in> set (lf_invoices db). isInvoice companyId invoiceId r \<and>
        iv_invoice_kind r = ''standard'' \<and> iv_status r = ''sent'')"

definition storeApproval ::
    "LifecycleDatabase \<Rightarrow> string \<Rightarrow> string \<Rightarrow> string \<Rightarrow> string option \<Rightarrow> string \<Rightarrow> number \<Rightarrow> string \<Rightarrow>
     LifecycleDatabase result" where
  "storeApproval db companyId invoiceId draftId creditedInvoiceId invoiceNumber gross approvedAt =
     (if case creditedInvoiceId of None \<Rightarrow> False | Some i \<Rightarrow> \<not> isCreditSource db companyId i
      then Inl InvoiceCreditConflictError
      else insertInvoice db (approvedInvoiceRow companyId invoiceId draftId creditedInvoiceId
             invoiceNumber gross approvedAt))"

definition getReopenedInvoiceForDraft ::
    "LifecycleDatabase \<Rightarrow> string \<Rightarrow> string \<Rightarrow> InvoiceStateRow option" where
  "getReopenedInvoiceForDraft db companyId draftId =
     find (\<lambda>r. iv_company_id r = companyId \<and> iv_source_draft_id r = draftId \<and>
       iv_status r = ''reopened_for_edit'' \<and> iv_invoice_kind r = ''standard'' \<and>
       iv_credited_invoice_id r = None) (lf_invoices db)"

definition storeReapproval ::
    "LifecycleDatabase \<Rightarrow> string \<Rightarrow> string \<Rightarrow> number \<Rightarrow> string \<Rightarrow> LifecycleDatabase result" where
  "storeReapproval db companyId draftId gross approvedAt =
     (case getReopenedInvoiceForDraft db companyId draftId of
        None \<Rightarrow> Inl ApprovedInvoiceNotFoundError
      | Some reopened \<Rightarrow>
          if hasUnresolvedDelivery db companyId (iv_id reopened)
          then Inl InvoiceDeliveryConflictError
          else updateInvoice db (reopened\<lparr>iv_status := ''approved'',
                 iv_total_gross_cents := gross, iv_updated_at := approvedAt\<rparr>))"

datatype LifecycleRequest =
    MarkPaid string int MarkInvoicePaidInput
  | RevertPaid string int ActorContext string
  | CancelInvoice string CancelApprovedInvoiceInput
  | ReopenInvoice string string string string string
  | ReserveEmail InvoiceDeliveryReservation ReservedEmailFields
  | CompleteEmail InvoiceDeliveryReservation EmailDeliveryOutcome
  | CompleteCustomerEmail InvoiceDeliveryReservation "string option"
  | DeliverByHand CompleteManualInvoiceDeliveryInput
  | RecordDryRun string RecordInvoiceDeliveryEventInput
  | StoreApproval string string string "string option" string number string
  | StoreReapproval string string number string
  | ChangeOtherTables "InvoiceDocumentRow list" "ContentRevisionRow list" "CurrentRevisionRow list"
      DraftDatabase

definition newDatabase :: "LifecycleDatabase \<Rightarrow> (LifecycleDatabase \<times> 'a) result \<Rightarrow> LifecycleDatabase" where
  "newDatabase db r = (case r of Inl _ \<Rightarrow> db | Inr (db', _) \<Rightarrow> db')"

definition serve ::
    "(int \<Rightarrow> string) \<Rightarrow> LifecycleDatabase \<Rightarrow> LifecycleRequest \<Rightarrow> LifecycleDatabase" where
  "serve today db request =
     (case request of
        MarkPaid uuid now input \<Rightarrow> newDatabase db (markInvoicePaid today uuid now db input)
      | RevertPaid uuid now actor invoiceId \<Rightarrow>
          newDatabase db (revertInvoicePaidMark uuid now db actor invoiceId)
      | CancelInvoice uuid input \<Rightarrow> newDatabase db (cancelApprovedInvoice uuid db input)
      | ReopenInvoice uuid actor company invoiceId now \<Rightarrow>
          newDatabase db (reopenApprovedInvoiceForEditing uuid db actor company invoiceId now)
      | ReserveEmail reservation texts \<Rightarrow>
          newDatabase db (reserveInvoiceEmailDelivery db reservation texts)
      | CompleteEmail reservation outcome \<Rightarrow>
          newDatabase db (completeInvoiceDeliveryEvent db reservation outcome)
      | CompleteCustomerEmail reservation messageId \<Rightarrow>
          newDatabase db (completeSuccessfulEmailDelivery db reservation messageId)
      | DeliverByHand input \<Rightarrow> newDatabase db (completeManualDelivery db input)
      | RecordDryRun uuid input \<Rightarrow> newDatabase db (recordInvoiceDeliveryEvent uuid db input)
      | StoreApproval company i draft credited number gross now \<Rightarrow>
          (case storeApproval db company i draft credited number gross now of Inl _ \<Rightarrow> db | Inr db' \<Rightarrow> db')
      | StoreReapproval company draft gross now \<Rightarrow>
          (case storeReapproval db company draft gross now of Inl _ \<Rightarrow> db | Inr db' \<Rightarrow> db')
      | ChangeOtherTables documents revisions current drafts \<Rightarrow>
          db\<lparr>lf_documents := documents, lf_revisions := revisions,
             lf_currentRevisions := current, lf_drafts := drafts\<rparr>)"

definition serveAll ::
    "(int \<Rightarrow> string) \<Rightarrow> LifecycleDatabase \<Rightarrow> LifecycleRequest list \<Rightarrow> LifecycleDatabase" where
  "serveAll today = foldl (serve today)"

definition emptyLifecycle :: "DraftDatabase \<Rightarrow> LifecycleDatabase" where
  "emptyLifecycle drafts =
     \<lparr>lf_invoices = [], lf_paymentEvents = [], lf_auditEvents = [], lf_deliveryEvents = [],
      lf_documents = [], lf_revisions = [], lf_currentRevisions = [], lf_drafts = drafts\<rparr>"

section \<open>What holds of every invoice\<close>

text \<open>
  The events of an invoice's payments, replayed: marks and reverts alternate, a revert names
  what it reverts, and the last one gives the state the columns hold.
\<close>

definition paymentStep ::
    "(string \<times> number) option option \<Rightarrow> InvoicePaymentEventRow \<Rightarrow> (string \<times> number) option option" where
  "paymentStep st e =
     (case st of
        None \<Rightarrow> None
      | Some None \<Rightarrow>
          if pe_action e = ''paymentMarkedPaid'' then Some (Some (pe_paid_on e, pe_amount_cents e))
          else None
      | Some (Some p) \<Rightarrow>
          if pe_action e = ''paymentMarkReverted'' \<and> p = (pe_paid_on e, pe_amount_cents e)
          then Some None else None)"

definition replayPayments :: "LifecycleDatabase \<Rightarrow> string \<Rightarrow> (string \<times> number) option option" where
  "replayPayments db invoiceId =
     foldl paymentStep (Some None) (filter (\<lambda>e. pe_invoice_id e = invoiceId) (lf_paymentEvents db))"

definition paymentOf :: "InvoiceStateRow \<Rightarrow> (string \<times> number) option" where
  "paymentOf r =
     (if iv_payment_state r = ''paid'' then Some (the (iv_paid_on r), the (iv_paid_amount_cents r))
      else None)"

definition delivered :: "InvoiceDeliveryEventRow \<Rightarrow> bool" where
  "delivered e \<longleftrightarrow> de_status e = ''succeeded'' \<and> de_send_mode e \<in> {''customer'', ''manual''}"

definition wasDelivered :: "LifecycleDatabase \<Rightarrow> InvoiceStateRow \<Rightarrow> bool" where
  "wasDelivered db r \<longleftrightarrow> (\<exists>e \<in> set (deliveriesOf db (iv_company_id r) (iv_id r)). delivered e)"

definition rowInvariant :: "LifecycleDatabase \<Rightarrow> InvoiceStateRow \<Rightarrow> bool" where
  "rowInvariant db r \<longleftrightarrow>
     invoiceRowAccepted r \<and>
     (iv_payment_state r = ''paid'' \<longrightarrow> iv_invoice_kind r = ''standard'' \<and> iv_status r = ''sent'') \<and>
     replayPayments db (iv_id r) = Some (paymentOf r) \<and>
     (iv_status r = ''cancelled'' \<longrightarrow> \<not> hasBlockingDeliveryEvent db (iv_company_id r) (iv_id r)) \<and>
     (iv_status r = ''reopened_for_edit'' \<longrightarrow> \<not> hasUnresolvedDelivery db (iv_company_id r) (iv_id r)) \<and>
     (iv_status r = ''sent'' \<longleftrightarrow> wasDelivered db r)"

definition creditInvariant :: "LifecycleDatabase \<Rightarrow> InvoiceStateRow \<Rightarrow> bool" where
  "creditInvariant db r \<longleftrightarrow>
     (case iv_credited_invoice_id r of None \<Rightarrow> True
      | Some i \<Rightarrow> isCreditSource db (iv_company_id r) i)"

text \<open>
  Of the delivery events: their ids, that only e-mails over SMTP are unresolved, and that an
  invoice has at most one of them.
\<close>

definition eventsInvariant :: "LifecycleDatabase \<Rightarrow> bool" where
  "eventsInvariant db \<longleftrightarrow>
     distinct (map de_id (lf_deliveryEvents db)) \<and>
     (\<forall>e \<in> set (lf_deliveryEvents db). de_binding_kind e \<noteq> ''legacyOriginal'' \<and>
        (isUnresolved (de_status e) \<longrightarrow> de_provider e = ''smtp'') \<and>
        (\<forall>e' \<in> set (lf_deliveryEvents db).
           isUnresolvedSmtp (de_company_id e) (de_invoice_id e) e \<and>
           isUnresolvedSmtp (de_company_id e) (de_invoice_id e) e' \<longrightarrow> e = e'))"

definition lifecycleInvariant :: "LifecycleDatabase \<Rightarrow> bool" where
  "lifecycleInvariant db \<longleftrightarrow>
     distinct (map iv_id (lf_invoices db)) \<and> eventsInvariant db \<and>
     (\<forall>e \<in> set (lf_paymentEvents db). pe_invoice_id e \<in> iv_id ` set (lf_invoices db)) \<and>
     (\<forall>e \<in> set (lf_deliveryEvents db). \<exists>r \<in> set (lf_invoices db).
        isInvoice (de_company_id e) (de_invoice_id e) r) \<and>
     (\<forall>r \<in> set (lf_invoices db). rowInvariant db r \<and> creditInvariant db r)"

lemma lifecycleInvariantD:
  assumes "lifecycleInvariant db"
  shows "distinct (map iv_id (lf_invoices db))" "eventsInvariant db"
    "e \<in> set (lf_paymentEvents db) \<Longrightarrow> pe_invoice_id e \<in> iv_id ` set (lf_invoices db)"
    "d \<in> set (lf_deliveryEvents db) \<Longrightarrow> \<exists>r \<in> set (lf_invoices db). isInvoice (de_company_id d) (de_invoice_id d) r"
    "r \<in> set (lf_invoices db) \<Longrightarrow> rowInvariant db r"
    "r \<in> set (lf_invoices db) \<Longrightarrow> creditInvariant db r"
  using assms unfolding lifecycleInvariant_def by blast+

lemma emptyLifecycle_invariant: "lifecycleInvariant (emptyLifecycle drafts)"
  by (simp add: lifecycleInvariant_def eventsInvariant_def emptyLifecycle_def)

section \<open>Changes to one invoice\<close>

text \<open>
  Every request changes the row of one invoice, appends events of that invoice or updates its
  delivery events. \<open>changes\<close> collects what the invariant needs of it.
\<close>

definition updateOf :: "string \<Rightarrow> (InvoiceStateRow \<Rightarrow> InvoiceStateRow) \<Rightarrow> InvoiceStateRow list \<Rightarrow> InvoiceStateRow list" where
  "updateOf i f rows = map (\<lambda>r. if iv_id r = i then f r else r) rows"

definition keepsIdentity :: "InvoiceStateRow \<Rightarrow> InvoiceStateRow \<Rightarrow> bool" where
  "keepsIdentity r r' \<longleftrightarrow>
     iv_id r' = iv_id r \<and> iv_company_id r' = iv_company_id r \<and>
     iv_source_draft_id r' = iv_source_draft_id r \<and> iv_invoice_kind r' = iv_invoice_kind r \<and>
     iv_credited_invoice_id r' = iv_credited_invoice_id r \<and>
     iv_invoice_number r' = iv_invoice_number r \<and>
     (iv_status r = ''sent'' \<longrightarrow> iv_status r' = ''sent'')"

definition changes ::
    "LifecycleDatabase \<Rightarrow> LifecycleDatabase \<Rightarrow> InvoiceStateRow \<Rightarrow> (InvoiceStateRow \<Rightarrow> InvoiceStateRow) \<Rightarrow> bool" where
  "changes db db' r f \<longleftrightarrow>
     r \<in> set (lf_invoices db) \<and> lf_invoices db' = updateOf (iv_id r) f (lf_invoices db) \<and>
     keepsIdentity r (f r) \<and>
     (\<exists>es. lf_paymentEvents db' = lf_paymentEvents db @ es \<and> (\<forall>e \<in> set es. pe_invoice_id e = iv_id r)) \<and>
     (\<forall>e \<in> set (lf_deliveryEvents db'). de_invoice_id e = iv_id r \<longrightarrow> de_company_id e = iv_company_id r) \<and>
     (\<forall>e. de_invoice_id e \<noteq> iv_id r \<longrightarrow> (e \<in> set (lf_deliveryEvents db') \<longleftrightarrow> e \<in> set (lf_deliveryEvents db)))"

lemma replayPayments_append:
  assumes "lf_paymentEvents db' = lf_paymentEvents db @ es" "\<forall>e \<in> set es. pe_invoice_id e = i"
  shows "replayPayments db' j = (if j = i then foldl paymentStep (replayPayments db i) es else replayPayments db j)"
proof -
  have "filter (\<lambda>e. pe_invoice_id e = j) es = (if j = i then es else [])"
    using assms(2) by (auto simp: filter_id_conv filter_empty_conv)
  then show ?thesis by (simp add: replayPayments_def assms(1))
qed

lemma deliveriesOf_set:
  "e \<in> set (deliveriesOf db c i) \<longleftrightarrow> e \<in> set (lf_deliveryEvents db) \<and> de_company_id e = c \<and> de_invoice_id e = i"
  by (auto simp: deliveriesOf_def)

lemma rowInvariant_other:
  assumes "\<And>e. de_invoice_id e = iv_id r \<Longrightarrow> e \<in> set (lf_deliveryEvents db') \<longleftrightarrow> e \<in> set (lf_deliveryEvents db)"
    and "replayPayments db' (iv_id r) = replayPayments db (iv_id r)"
  shows "rowInvariant db' r = rowInvariant db r"
proof -
  have "set (deliveriesOf db' c (iv_id r)) = set (deliveriesOf db c (iv_id r))" for c
    using assms(1) by (auto simp: deliveriesOf_set)
  then show ?thesis
    by (simp add: rowInvariant_def hasBlockingDeliveryEvent_def hasUnresolvedDelivery_def wasDelivered_def assms(2))
qed

lemma isCreditSource_changes:
  assumes ch: "changes db db' r f" and D: "distinct (map iv_id (lf_invoices db))"
    and s: "isCreditSource db c i"
  shows "isCreditSource db' c i"
proof -
  obtain q where q: "q \<in> set (lf_invoices db)" "isInvoice c i q" "iv_invoice_kind q = ''standard''"
      "iv_status q = ''sent''"
    using s by (auto simp: isCreditSource_def)
  let ?q = "if iv_id q = iv_id r then f q else q"
  have "?q \<in> set (lf_invoices db')" using ch q(1) by (auto simp: changes_def updateOf_def)
  moreover have "q = r" if "iv_id q = iv_id r"
    using that q(1) ch D by (auto simp: changes_def distinct_map dest: inj_onD)
  then have "isInvoice c i ?q \<and> iv_invoice_kind ?q = ''standard'' \<and> iv_status ?q = ''sent''"
    using q ch by (auto simp: changes_def keepsIdentity_def isInvoice_def)
  ultimately show ?thesis unfolding isCreditSource_def by blast
qed

lemma map_iv_id_updateOf:
  "(\<And>r. r \<in> set rows \<Longrightarrow> iv_id r = i \<Longrightarrow> iv_id (f r) = i) \<Longrightarrow> map iv_id (updateOf i f rows) = map iv_id rows"
  by (induction rows) (auto simp: updateOf_def)

lemma changes_invariant:
  assumes inv: "lifecycleInvariant db" and ch: "changes db db' r f"
    and row: "rowInvariant db' (f r)" and events: "eventsInvariant db'"
  shows "lifecycleInvariant db'"
proof -
  note I = lifecycleInvariantD [OF inv]
  have r: "r \<in> set (lf_invoices db)" and upd: "lf_invoices db' = updateOf (iv_id r) f (lf_invoices db)"
    and ids: "keepsIdentity r (f r)"
    and dels: "\<And>e. de_invoice_id e \<noteq> iv_id r \<Longrightarrow> e \<in> set (lf_deliveryEvents db') \<longleftrightarrow> e \<in> set (lf_deliveryEvents db)"
    using ch by (auto simp: changes_def)
  obtain es where es: "lf_paymentEvents db' = lf_paymentEvents db @ es" "\<forall>e \<in> set es. pe_invoice_id e = iv_id r"
    using ch by (auto simp: changes_def)
  have uniq: "q = r" if "q \<in> set (lf_invoices db)" "iv_id q = iv_id r" for q
    using that r I(1) by (auto simp: distinct_map dest: inj_onD)
  have mapid: "map iv_id (lf_invoices db') = map iv_id (lf_invoices db)"
    unfolding upd using ids uniq by (intro map_iv_id_updateOf) (auto simp: keepsIdentity_def)
  then have idset: "iv_id ` set (lf_invoices db') = iv_id ` set (lf_invoices db)"
    by (metis set_map)
  have rows: "rowInvariant db' q \<and> creditInvariant db' q" if "q \<in> set (lf_invoices db')" for q
  proof -
    from that obtain p where p: "p \<in> set (lf_invoices db)" "q = (if iv_id p = iv_id r then f p else p)"
      by (auto simp: upd updateOf_def)
    have credit: "creditInvariant db' q"
    proof -
      have "iv_credited_invoice_id q = iv_credited_invoice_id p" "iv_company_id q = iv_company_id p"
        using p uniq [OF p(1)] ids by (auto simp: keepsIdentity_def)
      with I(6) [OF p(1)] isCreditSource_changes [OF ch I(1)] show ?thesis
        by (auto simp: creditInvariant_def split: option.splits)
    qed
    show ?thesis
    proof (cases "iv_id p = iv_id r")
      case True
      with p(2) uniq [OF p(1)] row credit show ?thesis by simp
    next
      case False
      have "rowInvariant db' p = rowInvariant db p"
        using False dels replayPayments_append [OF es] by (intro rowInvariant_other) auto
      with False p credit I(5) show ?thesis by simp
    qed
  qed
  have "\<exists>q \<in> set (lf_invoices db'). isInvoice (de_company_id e) (de_invoice_id e) q"
    if e: "e \<in> set (lf_deliveryEvents db')" for e
  proof (cases "de_invoice_id e = iv_id r")
    case True
    then have "isInvoice (de_company_id e) (de_invoice_id e) (f r)"
      using ch e ids by (auto simp: changes_def isInvoice_def keepsIdentity_def)
    then show ?thesis using r by (auto simp: upd updateOf_def)
  next
    case False
    with dels e I(4) obtain q where "q \<in> set (lf_invoices db)" "isInvoice (de_company_id e) (de_invoice_id e) q" by blast
    with False show ?thesis by (force simp: upd updateOf_def isInvoice_def)
  qed
  moreover have "pe_invoice_id e \<in> iv_id ` set (lf_invoices db')" if "e \<in> set (lf_paymentEvents db')" for e
    using that es I(3) r unfolding idset by auto
  ultimately show ?thesis
    unfolding lifecycleInvariant_def using rows events I(1) mapid by simp
qed

end
