(* ===== verification/LifecycleCorrect.thy ===== *)
theory LifecycleCorrect
  imports LifecycleHistory
begin

text \<open>
  Every request of a history preserves the invariant: the payments, the deliveries, the
  corrections and the approvals, one group of lemmas each.
\<close>

section \<open>Statements\<close>

lemma andThen_Inr_iff: "andThen m k = Inr y \<longleftrightarrow> (\<exists>x. m = Inr x \<and> k x = Inr y)"
  by (cases m) auto

lemma andThen_InrE:
  assumes "andThen m k = Inr y"
  obtains x where "m = Inr x" "k x = Inr y"
  using assms by (cases m) auto

lemma updateInvoices_Inr:
  "updateInvoices p f db = Inr (db', n) \<longleftrightarrow>
     (\<forall>row \<in> set (lf_invoices db). p row \<longrightarrow> invoiceRowAccepted (f row)) \<and>
     db' = db\<lparr>lf_invoices := updateRows p f (lf_invoices db)\<rparr> \<and> n = length (filter p (lf_invoices db))"
  by (auto simp: updateInvoices_def)

lemma insertInvoiceAuditEvent_Inr:
  "insertInvoiceAuditEvent db row = Inr db' \<Longrightarrow> db' = db\<lparr>lf_auditEvents := lf_auditEvents db @ [row]\<rparr>"
  by (auto simp: insertInvoiceAuditEvent_def split: if_splits)

lemma insertPaymentEvent_Inr:
  "insertPaymentEvent db row = Inr db' \<Longrightarrow> db' = db\<lparr>lf_paymentEvents := lf_paymentEvents db @ [row]\<rparr>"
  by (auto simp: insertPaymentEvent_def split: if_splits)

lemma insertDeliveryEventRow_Inr:
  "insertDeliveryEventRow db row = Inr db' \<longleftrightarrow>
     de_binding_kind row \<noteq> ''legacyOriginal'' \<and> (\<forall>e \<in> set (lf_deliveryEvents db). de_id e \<noteq> de_id row) \<and>
     (de_provider row = ''smtp'' \<and> isUnresolved (de_status row) \<longrightarrow>
        (\<forall>e \<in> set (lf_deliveryEvents db). \<not> isUnresolvedSmtp (de_company_id row) (de_invoice_id row) e)) \<and>
     deliveryRowAccepted row \<and> deliveryKeysAccepted db row \<and>
     db' = db\<lparr>lf_deliveryEvents := lf_deliveryEvents db @ [row]\<rparr>"
  unfolding insertDeliveryEventRow_def by (simp split: if_splits) blast

lemma wasDelivered_iff:
  "wasDelivered db r \<longleftrightarrow> (\<exists>e. e \<in> set (lf_deliveryEvents db) \<and> de_company_id e = iv_company_id r \<and>
     de_invoice_id e = iv_id r \<and> delivered e)"
  by (auto simp: wasDelivered_def deliveriesOf_set)

lemma findInvoice_Some:
  assumes "findInvoice db c i = Some r"
  shows "r \<in> set (lf_invoices db)" "isInvoice c i r" "iv_id r = i" "iv_company_id r = c"
  using assms by (auto simp: findInvoice_def isInvoice_def find_Some_iff)

lemma findInvoice_row:
  assumes "distinct (map iv_id (lf_invoices db))" "r \<in> set (lf_invoices db)" "isInvoice c i r"
  shows "findInvoice db c i = Some r"
proof -
  have "find (isInvoice c i) rows = Some r" if "r \<in> set rows" "distinct (map iv_id rows)" for rows
    using that assms(3) by (induction rows) (auto simp: isInvoice_def)
  with assms(1,2) show ?thesis by (simp add: findInvoice_def)
qed

lemma updateRows_updateOf:
  assumes D: "distinct (map iv_id rows)" and r: "r \<in> set rows" and p: "p r"
    and only: "\<And>q. p q \<Longrightarrow> iv_id q = iv_id r"
  shows "updateRows p f rows = updateOf (iv_id r) f rows" "length (filter p rows) = 1"
proof -
  have same: "q = r" if "q \<in> set rows" "iv_id q = iv_id r" for q
    using that r D by (auto simp: distinct_map dest: inj_onD)
  have eq: "p q \<longleftrightarrow> q = r" if "q \<in> set rows" for q
    using that same only p by blast
  have "p q \<longleftrightarrow> iv_id q = iv_id r" if "q \<in> set rows" for q
    using that same eq by blast
  then show "updateRows p f rows = updateOf (iv_id r) f rows"
    by (simp add: updateRows_def updateOf_def)
  have "filter p rows = filter (\<lambda>q. q = r) rows"
    using eq by (rule filter_cong [OF refl])
  moreover have "length (filter (\<lambda>q. q = r) rows) = 1"
    using r D by (induction rows) (auto simp: filter_empty_conv)
  ultimately show "length (filter p rows) = 1" by simp
qed

lemma updateInvoices_row:
  assumes D: "distinct (map iv_id (lf_invoices db))" and r: "r \<in> set (lf_invoices db)" and p: "p r"
    and only: "\<And>q. p q \<Longrightarrow> iv_id q = iv_id r" and u: "updateInvoices p f db = Inr (db1, n)"
  shows "n = 1 \<and> db1 = db\<lparr>lf_invoices := updateOf (iv_id r) f (lf_invoices db)\<rparr> \<and> invoiceRowAccepted (f r)"
proof -
  note one = updateRows_updateOf(1) [where p = p and f = f, OF D r p only]
    updateRows_updateOf(2) [where p = p, OF D r p only]
  from u show ?thesis unfolding updateInvoices_Inr using r p by (simp add: one)
qed

lemma updateInvoices_one:
  assumes "lifecycleInvariant db" and r: "findInvoice db c i = Some r" and p: "p r"
    and only: "\<And>q. p q \<Longrightarrow> iv_id q = i" and u: "updateInvoices p f db = Inr (db1, n)"
  shows "n = 1 \<and> db1 = db\<lparr>lf_invoices := updateOf (iv_id r) f (lf_invoices db)\<rparr> \<and> invoiceRowAccepted (f r)"
  using updateInvoices_row [OF lifecycleInvariantD(1) [OF assms(1)] findInvoice_Some(1) [OF r] p _ u]
    only findInvoice_Some(3) [OF r] by blast

section \<open>Changes that leave the deliveries alone\<close>

lemma ownDeliveries:
  assumes inv: "lifecycleInvariant db" and r: "r \<in> set (lf_invoices db)"
    and e: "e \<in> set (lf_deliveryEvents db)" "de_invoice_id e = iv_id r"
  shows "de_company_id e = iv_company_id r"
proof -
  obtain q where q: "q \<in> set (lf_invoices db)" "isInvoice (de_company_id e) (de_invoice_id e) q"
    using lifecycleInvariantD(4) [OF inv e(1)] by blast
  then have "q = r" using r e(2) lifecycleInvariantD(1) [OF inv]
    by (auto simp: isInvoice_def distinct_map dest: inj_onD)
  with q show ?thesis by (simp add: isInvoice_def)
qed

lemma row_change_invariant:
  assumes inv: "lifecycleInvariant db" and r: "r \<in> set (lf_invoices db)"
    and db': "lf_invoices db' = updateOf (iv_id r) f (lf_invoices db)"
      "lf_deliveryEvents db' = lf_deliveryEvents db"
      "lf_paymentEvents db' = lf_paymentEvents db @ es" "\<forall>e \<in> set es. pe_invoice_id e = iv_id r"
    and ids: "keepsIdentity r (f r)" and row: "rowInvariant db' (f r)"
  shows "lifecycleInvariant db'"
proof (rule changes_invariant [where f = f and r = r, OF inv _ row])
  show "changes db db' r f"
    using r db' ids ownDeliveries [OF inv r] by (auto simp: changes_def)
  show "eventsInvariant db'" using lifecycleInvariantD(2) [OF inv] by (simp add: eventsInvariant_def db')
qed

lemma same_deliveries:
  assumes "lf_deliveryEvents db' = lf_deliveryEvents db"
  shows "deliveriesOf db' c i = deliveriesOf db c i"
    "hasBlockingDeliveryEvent db' c i = hasBlockingDeliveryEvent db c i"
    "hasUnresolvedDelivery db' c i = hasUnresolvedDelivery db c i"
    "wasDelivered db' r = wasDelivered db r"
  by (simp_all add: deliveriesOf_def hasBlockingDeliveryEvent_def hasUnresolvedDelivery_def wasDelivered_def assms)

text \<open>The other tables play no part in the invariant.\<close>

lemma other_tables_invariant:
  assumes inv: "lifecycleInvariant db"
    and "lf_invoices db' = lf_invoices db" "lf_deliveryEvents db' = lf_deliveryEvents db"
      "lf_paymentEvents db' = lf_paymentEvents db"
  shows "lifecycleInvariant db'"
proof -
  have "rowInvariant db' r = rowInvariant db r" for r
    using assms(3,4) by (intro rowInvariant_other) (simp_all add: replayPayments_def)
  then show ?thesis
    using inv unfolding lifecycleInvariant_def eventsInvariant_def creditInvariant_def isCreditSource_def assms(2-4)
    by blast
qed

section \<open>Payments\<close>

lemma mark_invariant:
  assumes inv: "lifecycleInvariant db" and m: "markInvoicePaidWithinTransaction db input = Inr (db', out)"
  shows "lifecycleInvariant db'"
proof (cases "db' = db")
  case True
  with inv show ?thesis by simp
next
  case False
  from m False obtain r where r: "findInvoice db (mp_companyId input) (mp_invoiceId input) = Some r"
    by (auto simp: markInvoicePaidWithinTransaction_def split: option.splits)
  from m False have s: "iv_invoice_kind r = ''standard''" "iv_status r = ''sent''" "iv_payment_state r \<noteq> ''paid''"
    by (auto simp: markInvoicePaidWithinTransaction_def r split: if_splits)
  note R = findInvoice_Some [OF r] and row = lifecycleInvariantD(5) [OF inv findInvoice_Some(1) [OF r]]
  have unpaid: "iv_payment_state r = ''unpaid''"
    using row s by (auto simp: rowInvariant_def invoiceRowAccepted_def paymentColumnsAccepted_def split: if_splits)
  define f :: "number \<Rightarrow> InvoiceStateRow \<Rightarrow> InvoiceStateRow" where "f cents = (\<lambda>row. row\<lparr>iv_payment_state := ''paid'', iv_paid_on := Some (mp_paidOn input),
          iv_paid_amount_cents := Some cents, iv_payment_source := Some ''manual'',
          iv_payment_recorded_at := Some (mp_recordedAt input),
          iv_payment_recorded_by := Some (mp_actorUserId input)\<rparr>)" for cents
  have p: "isPayableRow (mp_companyId input) (mp_invoiceId input) ''unpaid'' r"
    using R s unpaid by (simp add: isPayableRow_def isInvoice_def)
  from m s obtain cents db1 n where
    u: "updateInvoices (isPayableRow (mp_companyId input) (mp_invoiceId input) ''unpaid'') (f cents) db = Inr (db1, n)"
    and k: "n = 1 \<Longrightarrow> \<exists>e. insertPaymentEvent db1 e = Inr db' \<and> pe_invoice_id e = iv_id r \<and>
      pe_action e = ''paymentMarkedPaid'' \<and> pe_paid_on e = mp_paidOn input \<and> pe_amount_cents e = cents"
    using False unfolding f_def
    by (fastforce simp: markInvoicePaidWithinTransaction_def r Let_def andThen_Inr_iff R(3) split: if_splits)
  have one: "n = 1" "db1 = db\<lparr>lf_invoices := updateOf (iv_id r) (f cents) (lf_invoices db)\<rparr>"
      "invoiceRowAccepted (f cents r)"
    using updateInvoices_one [OF inv r p _ u] by (auto simp: isPayableRow_def isInvoice_def)
  from k [OF one(1)] obtain e where e: "insertPaymentEvent db1 e = Inr db'" "pe_invoice_id e = iv_id r"
      "pe_action e = ''paymentMarkedPaid''" "pe_paid_on e = mp_paidOn input" "pe_amount_cents e = cents" by blast
  have db': "lf_invoices db' = updateOf (iv_id r) (f cents) (lf_invoices db)"
      "lf_deliveryEvents db' = lf_deliveryEvents db" "lf_paymentEvents db' = lf_paymentEvents db @ [e]"
    using insertPaymentEvent_Inr [OF e(1)] by (simp_all add: one(2))
  show ?thesis
  proof (rule row_change_invariant [where f = "f cents" and r = r, OF inv R(1) db'])
    show "keepsIdentity r (f cents r)" by (simp add: keepsIdentity_def f_def)
    have "replayPayments db' (iv_id r) = Some (paymentOf (f cents r))"
      using row e s unpaid replayPayments_append [OF db'(3), of "iv_id r"]
      by (simp add: rowInvariant_def paymentStep_def paymentOf_def f_def)
    then show "rowInvariant db' (f cents r)"
      using row one(3) s by (simp add: rowInvariant_def same_deliveries [OF db'(2)] f_def wasDelivered_def)
  qed (simp add: e)
qed

lemma revert_invariant:
  assumes inv: "lifecycleInvariant db" and m: "revertInvoicePaidMarkWithinTransaction db input = Inr (db', out)"
  shows "lifecycleInvariant db'"
proof (cases "db' = db")
  case True
  with inv show ?thesis by simp
next
  case False
  from m False obtain r where r: "findInvoice db (rm_companyId input) (rm_invoiceId input) = Some r"
    by (auto simp: revertInvoicePaidMarkWithinTransaction_def split: option.splits)
  from m False have s: "iv_invoice_kind r = ''standard''" "iv_status r = ''sent''" "iv_payment_state r \<noteq> ''unpaid''"
    by (auto simp: revertInvoicePaidMarkWithinTransaction_def r split: if_splits)
  note R = findInvoice_Some [OF r] and row = lifecycleInvariantD(5) [OF inv findInvoice_Some(1) [OF r]]
  have paid: "iv_payment_state r = ''paid''"
    using row s by (auto simp: rowInvariant_def invoiceRowAccepted_def paymentColumnsAccepted_def split: if_splits)
  define f :: "InvoiceStateRow \<Rightarrow> InvoiceStateRow" where
    "f = (\<lambda>row. row\<lparr>iv_payment_state := ''unpaid'', iv_paid_on := None,
          iv_paid_amount_cents := None, iv_payment_source := None,
          iv_payment_recorded_at := None, iv_payment_recorded_by := None\<rparr>)"
  have p: "isPayableRow (rm_companyId input) (rm_invoiceId input) ''paid'' r"
    using R s paid by (simp add: isPayableRow_def isInvoice_def)
  from m s obtain on cents db1 n where old: "iv_paid_on r = Some on" "iv_paid_amount_cents r = Some cents"
    and u: "updateInvoices (isPayableRow (rm_companyId input) (rm_invoiceId input) ''paid'') f db = Inr (db1, n)"
    and k: "n = 1 \<Longrightarrow> \<exists>e. insertPaymentEvent db1 e = Inr db' \<and> pe_invoice_id e = iv_id r \<and>
      pe_action e = ''paymentMarkReverted'' \<and> pe_paid_on e = on \<and> pe_amount_cents e = cents"
    using False unfolding f_def
    by (fastforce simp: revertInvoicePaidMarkWithinTransaction_def r Let_def andThen_Inr_iff R(3)
      split: if_splits option.splits)
  have one: "n = 1" "db1 = db\<lparr>lf_invoices := updateOf (iv_id r) f (lf_invoices db)\<rparr>" "invoiceRowAccepted (f r)"
    using updateInvoices_one [OF inv r p _ u] by (auto simp: isPayableRow_def isInvoice_def)
  from k [OF one(1)] obtain e where e: "insertPaymentEvent db1 e = Inr db'" "pe_invoice_id e = iv_id r"
      "pe_action e = ''paymentMarkReverted''" "pe_paid_on e = on" "pe_amount_cents e = cents" by blast
  have db': "lf_invoices db' = updateOf (iv_id r) f (lf_invoices db)"
      "lf_deliveryEvents db' = lf_deliveryEvents db" "lf_paymentEvents db' = lf_paymentEvents db @ [e]"
    using insertPaymentEvent_Inr [OF e(1)] by (simp_all add: one(2))
  show ?thesis
  proof (rule row_change_invariant [where f = f and r = r, OF inv R(1) db'])
    show "keepsIdentity r (f r)" by (simp add: keepsIdentity_def f_def)
    have "replayPayments db' (iv_id r) = Some (paymentOf (f r))"
      using row e old paid replayPayments_append [OF db'(3), of "iv_id r"]
      by (simp add: rowInvariant_def paymentStep_def paymentOf_def f_def)
    then show "rowInvariant db' (f r)"
      using row one(3) s by (simp add: rowInvariant_def same_deliveries [OF db'(2)] f_def wasDelivered_def)
  qed (simp add: e)
qed

section \<open>Corrections\<close>

text \<open>An approved invoice is unpaid and was not delivered.\<close>

lemma approved_row:
  assumes "rowInvariant db r" "iv_status r \<noteq> ''sent''"
  shows "iv_payment_state r = ''unpaid''" "\<not> wasDelivered db r" "paymentOf r = None"
    "replayPayments db (iv_id r) = Some None"
  using assms by (auto simp: rowInvariant_def invoiceRowAccepted_def paymentColumnsAccepted_def paymentOf_def
      split: if_splits)

lemma status_change_invariant:
  assumes inv: "lifecycleInvariant db" and r: "r \<in> set (lf_invoices db)" and s: "iv_status r \<noteq> ''sent''"
    and db': "lf_invoices db' = updateOf (iv_id r) f (lf_invoices db)"
      "lf_deliveryEvents db' = lf_deliveryEvents db" "lf_paymentEvents db' = lf_paymentEvents db"
    and ids: "keepsIdentity r (f r)" and f: "invoiceRowAccepted (f r)" "iv_status (f r) \<noteq> ''sent''"
      "iv_payment_state (f r) = iv_payment_state r"
    and c: "iv_status (f r) = ''cancelled'' \<Longrightarrow> \<not> hasBlockingDeliveryEvent db (iv_company_id r) (iv_id r)"
    and o: "iv_status (f r) = ''reopened_for_edit'' \<Longrightarrow> \<not> hasUnresolvedDelivery db (iv_company_id r) (iv_id r)"
  shows "lifecycleInvariant db'"
proof (rule row_change_invariant [where f = f and r = r and es = "[]", OF inv r db'(1,2) _ _ ids])
  note row = approved_row [OF lifecycleInvariantD(5) [OF inv r] s]
  have same: "iv_id (f r) = iv_id r" "iv_company_id (f r) = iv_company_id r" using ids by (simp_all add: keepsIdentity_def)
  have "replayPayments db' (iv_id r) = Some (paymentOf (f r))"
    using row f(3) by (simp add: replayPayments_def db'(3) paymentOf_def)
  then show "rowInvariant db' (f r)"
    using row f c o by (simp add: rowInvariant_def same same_deliveries [OF db'(2)] wasDelivered_def)
qed (simp_all add: db')

lemma cancel_invariant:
  assumes inv: "lifecycleInvariant db" and m: "cancelApprovedInvoiceWithinTransaction db input = Inr (db', out)"
  shows "lifecycleInvariant db'"
proof (cases "db' = db")
  case True
  with inv show ?thesis by simp
next
  case False
  let ?p = "\<lambda>row. isInvoice (cp_companyId input) (cp_invoiceId input) row \<and>
          iv_invoice_number row = cp_confirmationInvoiceNumber input \<and> iv_status row = ''approved''"
  define f :: "InvoiceStateRow \<Rightarrow> InvoiceStateRow" where
    "f = (\<lambda>row. row\<lparr>iv_status := ''cancelled'', iv_cancelled_at := Some (cp_cancelledAt input),
          iv_cancelled_by := Some (cp_actorUserId input),
          iv_cancellation_reason := Some (cp_cancellationReason input),
          iv_updated_at := cp_cancelledAt input\<rparr>)"
  from m False obtain r where r: "findInvoice db (cp_companyId input) (cp_invoiceId input) = Some r"
    by (auto simp: cancelApprovedInvoiceWithinTransaction_def split: option.splits)
  note R = findInvoice_Some [OF r]
  from m False have s: "iv_status r = ''approved''" "iv_invoice_number r = cp_confirmationInvoiceNumber input"
      "\<not> hasBlockingDeliveryEvent db (iv_company_id r) (iv_id r)"
    by (auto simp: cancelApprovedInvoiceWithinTransaction_def r R(3,4) split: if_splits)
  from m s False obtain db1 n where u: "updateInvoices ?p f db = Inr (db1, n)"
    and k: "n = 1 \<Longrightarrow> \<exists>e. insertInvoiceAuditEvent db1 e = Inr db'"
    unfolding f_def
    by (fastforce simp: cancelApprovedInvoiceWithinTransaction_def r andThen_Inr_iff R(3,4) split: if_splits)
  have one: "n = 1" "db1 = db\<lparr>lf_invoices := updateOf (iv_id r) f (lf_invoices db)\<rparr>" "invoiceRowAccepted (f r)"
    using updateInvoices_one [OF inv r _ _ u] R s by (auto simp: isInvoice_def)
  obtain e where e: "insertInvoiceAuditEvent db1 e = Inr db'" using k one(1) by blast
  show ?thesis
    by (rule status_change_invariant [where f = f and r = r, OF inv R(1)])
      (use s one(3) in \<open>simp_all add: insertInvoiceAuditEvent_Inr [OF e] one(2) f_def keepsIdentity_def\<close>)
qed

lemma getApprovedInvoiceForReopen_Some:
  assumes D: "distinct (map iv_id (lf_invoices db))" and "getApprovedInvoiceForReopen db c i = Some r"
  shows "findInvoice db c i = Some r" "iv_status r = ''approved''"
  using assms findInvoice_row [OF D, of r c i] by (auto simp: getApprovedInvoiceForReopen_def find_Some_iff)

lemma reopen_invariant:
  assumes inv: "lifecycleInvariant db" and m: "reopenApprovedInvoiceWithinTransaction db input = Inr (db', out)"
  shows "lifecycleInvariant db'"
proof (cases "db' = db")
  case True
  with inv show ?thesis by simp
next
  case False
  let ?p = "\<lambda>row. isInvoice (ro_companyId input) (ro_invoiceId input) row \<and> iv_status row = ''approved''"
  define f :: "InvoiceStateRow \<Rightarrow> InvoiceStateRow" where
    "f = (\<lambda>row. row\<lparr>iv_status := ''reopened_for_edit'', iv_updated_at := ro_reopenedAt input\<rparr>)"
  from m False obtain r where
    g: "getApprovedInvoiceForReopen db (ro_companyId input) (ro_invoiceId input) = Some r"
    by (auto simp: reopenApprovedInvoiceWithinTransaction_def Let_def split: option.splits)
  note r = getApprovedInvoiceForReopen_Some [OF lifecycleInvariantD(1) [OF inv] g]
  note R = findInvoice_Some [OF r(1)]
  from m False have s: "\<not> hasUnresolvedDelivery db (iv_company_id r) (iv_id r)"
    by (auto simp: reopenApprovedInvoiceWithinTransaction_def Let_def g R(3,4) split: if_splits)
  from m obtain db1 n drafts e where u: "updateInvoices ?p f db = Inr (db1, n)"
    and e: "insertInvoiceAuditEvent (detachCurrentInvoiceRevision (db1\<lparr>lf_drafts := drafts\<rparr>)
        (ro_companyId input) (ro_invoiceId input)) e = Inr db'"
    unfolding f_def
    by (fastforce simp: reopenApprovedInvoiceWithinTransaction_def Let_def g andThen_Inr_iff
      markInvoiceReopenedForEditing_def split: if_splits)
  have one: "n = 1" "db1 = db\<lparr>lf_invoices := updateOf (iv_id r) f (lf_invoices db)\<rparr>" "invoiceRowAccepted (f r)"
    using updateInvoices_one [OF inv r(1) _ _ u] R r(2) by (auto simp: isInvoice_def)
  show ?thesis
    by (rule status_change_invariant [where f = f and r = r, OF inv R(1)])
      (use s r(2) one(3) in \<open>simp_all add: insertInvoiceAuditEvent_Inr [OF e] one(2) f_def keepsIdentity_def
        detachCurrentInvoiceRevision_def\<close>)
qed

section \<open>Approvals\<close>

lemma updateInvoice_Inr:
  assumes "updateInvoice db new = Inr db'"
  shows "\<exists>n. updateInvoices
       (\<lambda>row. isInvoice (iv_company_id new) (iv_id new) row \<and> iv_status row = ''reopened_for_edit'')
       (\<lambda>row. row\<lparr>iv_status := iv_status new, iv_total_gross_cents := iv_total_gross_cents new,
          iv_updated_at := iv_updated_at new\<rparr>) db = Inr (db', n)"
proof -
  have "\<exists>n. m = Inr (db', n)"
    if "andThen m (\<lambda>(a, n). if n \<noteq> 1 then Inl e else Inr a) = Inr db'"
    for m :: "(LifecycleDatabase \<times> nat) result" and e
    using that by (cases m) (auto split: if_splits)
  from this [OF assms [unfolded updateInvoice_def]] show ?thesis .
qed

lemma storeReapproval_invariant:
  assumes inv: "lifecycleInvariant db" and m: "storeReapproval db companyId draftId gross approvedAt = Inr db'"
  shows "lifecycleInvariant db'"
proof -
  from m obtain r where g: "getReopenedInvoiceForDraft db companyId draftId = Some r"
    by (auto simp: storeReapproval_def split: option.splits)
  then have r: "r \<in> set (lf_invoices db)" "iv_status r = ''reopened_for_edit''"
    by (auto simp: getReopenedInvoiceForDraft_def find_Some_iff)
  let ?p = "\<lambda>row. isInvoice (iv_company_id r) (iv_id r) row \<and> iv_status row = ''reopened_for_edit''"
  define f :: "InvoiceStateRow \<Rightarrow> InvoiceStateRow" where
    "f = (\<lambda>row. row\<lparr>iv_status := ''approved'', iv_total_gross_cents := gross, iv_updated_at := approvedAt\<rparr>)"
  have F: "findInvoice db (iv_company_id r) (iv_id r) = Some r"
    using findInvoice_row [OF lifecycleInvariantD(1) [OF inv] r(1)] by (simp add: isInvoice_def)
  have "updateInvoice db (r\<lparr>iv_status := ''approved'', iv_total_gross_cents := gross,
      iv_updated_at := approvedAt\<rparr>) = Inr db'"
    using m by (simp add: storeReapproval_def g split: if_splits)
  then have "\<exists>n. updateInvoices ?p f db = Inr (db', n)"
    by (drule_tac updateInvoice_Inr) (simp add: f_def)
  then obtain n where u: "updateInvoices ?p f db = Inr (db', n)" ..
  have p: "?p r" and only: "\<And>q. ?p q \<Longrightarrow> iv_id q = iv_id r" using r by (simp_all add: isInvoice_def)
  have one: "db' = db\<lparr>lf_invoices := updateOf (iv_id r) f (lf_invoices db)\<rparr>" "invoiceRowAccepted (f r)"
    using updateInvoices_one [OF inv F p only u] by blast+
  show ?thesis
    by (rule status_change_invariant [where f = f and r = r, OF inv r(1)])
      (use r(2) one(2) in \<open>simp_all add: one(1) f_def keepsIdentity_def\<close>)
qed

lemma storeApproval_invariant:
  assumes inv: "lifecycleInvariant db"
    and m: "storeApproval db companyId invoiceId draftId credited number gross approvedAt = Inr db'"
  shows "lifecycleInvariant db'"
proof -
  note I = lifecycleInvariantD [OF inv]
  define new where "new = approvedInvoiceRow companyId invoiceId draftId credited number gross approvedAt"
  have cols: "iv_id new = invoiceId" "iv_company_id new = companyId" "iv_status new = ''approved''"
      "iv_credited_invoice_id new = credited" "iv_payment_state new = ''unpaid''"
      "new\<lparr>iv_payment_state := ''unpaid'', iv_paid_on := None, iv_paid_amount_cents := None,
        iv_payment_source := None, iv_payment_recorded_at := None, iv_payment_recorded_by := None\<rparr> = new"
    by (simp_all add: new_def approvedInvoiceRow_def)
  from m have credit: "\<And>i. credited = Some i \<Longrightarrow> isCreditSource db companyId i"
    and ins: "insertInvoice db new = Inr db'"
    by (auto simp: storeApproval_def new_def split: if_splits)
  from ins have ok: "invoiceRowAccepted new" "invoiceId \<notin> iv_id ` set (lf_invoices db)"
    and db': "db' = db\<lparr>lf_invoices := lf_invoices db @ [new]\<rparr>"
    unfolding insertInvoice_def Let_def cols(6) by (auto simp: cols split: if_splits)
  have "filter (\<lambda>e. pe_invoice_id e = invoiceId) (lf_paymentEvents db) = []"
    using I(3) ok(2) by (auto simp: filter_empty_conv)
  then have none2: "replayPayments db' invoiceId = Some None" by (simp add: replayPayments_def db')
  have none: "deliveriesOf db' companyId invoiceId = []"
  proof -
    have "de_invoice_id e \<noteq> invoiceId" if "e \<in> set (lf_deliveryEvents db)" for e
      using I(4) [OF that] ok(2) by (auto simp: isInvoice_def image_iff)
    then show ?thesis by (auto simp: deliveriesOf_def db' filter_empty_conv)
  qed
  have "rowInvariant db' new"
    using ok(1) by (simp add: rowInvariant_def cols none none2 hasBlockingDeliveryEvent_def wasDelivered_def paymentOf_def)
  moreover have "rowInvariant db' r = rowInvariant db r" for r
    by (intro rowInvariant_other) (simp_all add: db' replayPayments_def)
  moreover have src: "isCreditSource db' c i" if "isCreditSource db c i" for c i
    using that by (auto simp: isCreditSource_def db')
  then have "creditInvariant db' r" if "creditInvariant db r" for r
    using that by (auto simp: creditInvariant_def split: option.splits)
  moreover have "creditInvariant db' new"
    using credit src by (auto simp: creditInvariant_def cols split: option.splits)
  moreover have "eventsInvariant db'" using I(2) by (simp add: eventsInvariant_def db')
  ultimately show ?thesis
    using I ok(2) by (auto simp: lifecycleInvariant_def db' cols)
qed

section \<open>Deliveries\<close>

lemma insertDelivery_events:
  assumes "eventsInvariant db" "insertDeliveryEventRow db row = Inr db'"
    "isUnresolved (de_status row) \<longrightarrow> de_provider row = ''smtp''"
  shows "eventsInvariant db'"
proof -
  have evs: "lf_deliveryEvents db' = lf_deliveryEvents db @ [row]"
    and new: "de_binding_kind row \<noteq> ''legacyOriginal''" "\<forall>e \<in> set (lf_deliveryEvents db). de_id e \<noteq> de_id row"
    using assms(2) by (simp_all add: insertDeliveryEventRow_Inr)
  have free: "\<not> isUnresolvedSmtp (de_company_id row) (de_invoice_id row) e"
    if "e \<in> set (lf_deliveryEvents db)" "isUnresolvedSmtp (de_company_id row) (de_invoice_id row) row" for e
    using assms(2) that by (simp add: insertDeliveryEventRow_Inr isUnresolvedSmtp_def)
  have "distinct (map de_id (lf_deliveryEvents db'))"
    using assms(1) new(2) by (auto simp: evs eventsInvariant_def)
  moreover have "e = e'" if e: "e \<in> set (lf_deliveryEvents db')" "e' \<in> set (lf_deliveryEvents db')"
      "isUnresolvedSmtp (de_company_id e) (de_invoice_id e) e"
      "isUnresolvedSmtp (de_company_id e) (de_invoice_id e) e'" for e e'
  proof -
    have "isUnresolvedSmtp (de_company_id e') (de_invoice_id e') e"
      "isUnresolvedSmtp (de_company_id e') (de_invoice_id e') e'"
      using e(3,4) by (auto simp: isUnresolvedSmtp_def)
    with e free [of e] free [of e'] assms(1) show ?thesis
      unfolding evs eventsInvariant_def by (cases "e = row"; cases "e' = row") auto
  qed
  ultimately show ?thesis
    using assms(1,3) new(1) unfolding eventsInvariant_def evs by simp
qed

lemma delivery_change_invariant:
  assumes inv: "lifecycleInvariant db" and r: "r \<in> set (lf_invoices db)"
    and own: "\<And>e. e \<in> set (lf_deliveryEvents db') \<Longrightarrow> de_invoice_id e = iv_id r \<Longrightarrow> de_company_id e = iv_company_id r"
    and s: "iv_status r \<in> {''approved'', ''sent''}" "iv_status (f r) \<in> {''approved'', ''sent''}"
    and db': "lf_invoices db' = updateOf (iv_id r) f (lf_invoices db)"
      "lf_paymentEvents db' = lf_paymentEvents db"
      "\<And>e. de_invoice_id e \<noteq> iv_id r \<Longrightarrow> e \<in> set (lf_deliveryEvents db') \<longleftrightarrow> e \<in> set (lf_deliveryEvents db)"
    and ids: "keepsIdentity r (f r)" and pay: "paymentOf (f r) = paymentOf r" and f: "invoiceRowAccepted (f r)"
    and d: "iv_status (f r) = ''sent'' \<longleftrightarrow> wasDelivered db' r" and events: "eventsInvariant db'"
  shows "lifecycleInvariant db'"
proof (rule changes_invariant [where f = f and r = r, OF inv _ _ events])
  show "changes db db' r f"
    unfolding changes_def using r own db' ids by auto
  have row: "rowInvariant db r" using lifecycleInvariantD(5) [OF inv r] .
  have same: "iv_id (f r) = iv_id r" "iv_company_id (f r) = iv_company_id r"
    "iv_invoice_kind (f r) = iv_invoice_kind r" "iv_status r = ''sent'' \<Longrightarrow> iv_status (f r) = ''sent''"
    using ids by (simp_all add: keepsIdentity_def)
  have paid: "iv_payment_state (f r) = ''paid'' \<longleftrightarrow> iv_payment_state r = ''paid''"
    using pay by (simp add: paymentOf_def split: if_splits)
  show "rowInvariant db' (f r)"
    using row s d f pay same paid
    by (auto simp: rowInvariant_def replayPayments_def db'(2) wasDelivered_def)
qed

lemma readEligible_Some:
  assumes "readEligibleDeliveryInvoice db t = Inr (Some st)"
  shows "\<exists>r. findInvoice db (dt_companyId t) (dt_invoiceId t) = Some r \<and> iv_status r = st \<and>
    st \<in> {''approved'', ''sent''}"
  using assms unfolding readEligibleDeliveryInvoice_def
  by (auto simp: Let_def split: if_splits option.splits prod.splits DocumentBinding.splits)

lemma insert_delivery_invariant:
  assumes inv: "lifecycleInvariant db" and ins: "insertDeliveryEventRow db e = Inr db1"
    and smtp: "isUnresolved (de_status e) \<longrightarrow> de_provider e = ''smtp''"
    and F: "findInvoice db (de_company_id e) (de_invoice_id e) = Some r"
    and s: "iv_status r \<in> {''approved'', ''sent''}"
      "iv_status (f r) = (if delivered e then ''sent'' else iv_status r)"
    and db': "lf_invoices db' = updateOf (iv_id r) f (lf_invoices db)"
      "lf_paymentEvents db' = lf_paymentEvents db" "lf_deliveryEvents db' = lf_deliveryEvents db1"
    and ids: "keepsIdentity r (f r)" and pay: "paymentOf (f r) = paymentOf r" and f: "invoiceRowAccepted (f r)"
  shows "lifecycleInvariant db'"
proof -
  note R = findInvoice_Some [OF F]
  have evs: "lf_deliveryEvents db' = lf_deliveryEvents db @ [e]"
    using ins by (simp add: db'(3) insertDeliveryEventRow_Inr)
  have "wasDelivered db' r \<longleftrightarrow> wasDelivered db r \<or> delivered e"
    by (auto simp: wasDelivered_def deliveriesOf_def evs R(3,4))
  moreover have "iv_status r = ''sent'' \<longleftrightarrow> wasDelivered db r"
    using lifecycleInvariantD(5) [OF inv R(1)] by (simp add: rowInvariant_def)
  ultimately have d: "iv_status (f r) = ''sent'' \<longleftrightarrow> wasDelivered db' r" using s(2) by auto
  have "eventsInvariant db'"
    using insertDelivery_events [OF lifecycleInvariantD(2) [OF inv] ins smtp] by (simp add: eventsInvariant_def db'(3))
  moreover have "e' \<in> set (lf_deliveryEvents db') \<longleftrightarrow> e' \<in> set (lf_deliveryEvents db)"
    if "de_invoice_id e' \<noteq> iv_id r" for e'
    using that R(3) by (auto simp: evs)
  moreover have "de_company_id e' = iv_company_id r"
    if "e' \<in> set (lf_deliveryEvents db')" "de_invoice_id e' = iv_id r" for e'
    using that ownDeliveries [OF inv R(1)] R(4) by (auto simp: evs)
  moreover have "iv_status (f r) \<in> {''approved'', ''sent''}" using s by (auto split: if_splits)
  ultimately show ?thesis
    using delivery_change_invariant [where f = f and r = r and db = db and db' = db'] inv R(1) s(1) db'(1,2) ids pay f d
    by blast
qed

lemma updateOf_id [simp]: "updateOf i (\<lambda>r. r) rows = rows"
  by (simp add: updateOf_def)

lemma record_delivery_invariant:
  assumes inv: "lifecycleInvariant db" and ins: "insertDeliveryEventRow db e = Inr db'"
    and smtp: "isUnresolved (de_status e) \<longrightarrow> de_provider e = ''smtp''"
    and F: "findInvoice db (de_company_id e) (de_invoice_id e) = Some r"
    and s: "iv_status r \<in> {''approved'', ''sent''}" and d: "\<not> delivered e"
  shows "lifecycleInvariant db'"
proof (rule insert_delivery_invariant [where f = "\<lambda>r. r" and e = e and r = r, OF inv ins smtp F s])
  show "invoiceRowAccepted r"
    using lifecycleInvariantD(5) [OF inv findInvoice_Some(1) [OF F]] by (simp add: rowInvariant_def)
qed (use ins d in \<open>simp_all add: insertDeliveryEventRow_Inr keepsIdentity_def\<close>)

lemma reserve_cases:
  assumes "reserveInvoiceEmailDelivery db reservation input = Inr (db', out)"
  shows "db' = db \<and> out = ReservationConflict \<or>
    (\<exists>texts st. insertDeliveryEventRow db (reservationRow reservation texts) = Inr db' \<and>
      readEligibleDeliveryInvoice db (dv_target reservation) = Inr (Some st) \<and>
      \<not> hasBlockingDeliveryHistory db (dv_target reservation))"
  using assms unfolding reserveInvoiceEmailDelivery_def Let_def
  by (auto simp: andThen_Inr_iff split: option.splits if_splits)

lemma reserve_invariant:
  assumes inv: "lifecycleInvariant db" and m: "reserveInvoiceEmailDelivery db reservation input = Inr (db', out)"
  shows "lifecycleInvariant db'"
proof (cases "db' = db")
  case True
  with inv show ?thesis by simp
next
  case False
  with reserve_cases [OF m] obtain texts st where 2:
    "insertDeliveryEventRow db (reservationRow reservation texts) = Inr db'"
    "readEligibleDeliveryInvoice db (dv_target reservation) = Inr (Some st)" by blast
  let ?e = "reservationRow reservation texts"
  obtain r where r: "findInvoice db (dt_companyId (dv_target reservation)) (dt_invoiceId (dv_target reservation)) = Some r"
      "iv_status r \<in> {''approved'', ''sent''}"
    using readEligible_Some [OF 2(2)] by blast
  have e: "de_company_id ?e = dt_companyId (dv_target reservation)"
    "de_invoice_id ?e = dt_invoiceId (dv_target reservation)" "\<not> delivered ?e"
    "isUnresolved (de_status ?e) \<longrightarrow> de_provider ?e = ''smtp''"
    by (simp_all add: reservationRow_def Let_def delivered_def)
  show ?thesis by (rule record_delivery_invariant [OF inv 2(1) e(4) _ r(2) e(3)]) (simp add: e r(1))
qed

lemma saveDeliveryEvent_cases:
  assumes "saveDeliveryEvent db event = Inr db'"
  shows "rd_provider event = ''dryRun'' \<and> rd_status event \<in> {''succeeded'', ''failed''} \<and> rd_companyId event = dt_companyId (rd_target event) \<and>
    rd_invoiceId event = dt_invoiceId (rd_target event) \<and>
    (\<exists>st. readEligibleDeliveryInvoice db (rd_target event) = Inr (Some st)) \<and>
    insertDeliveryEventRow db (toDeliveryEventRow event) = Inr db'"
  using assms unfolding saveDeliveryEvent_def Let_def
  by (auto simp: andThen_Inr_iff split: if_splits)

lemma dryRun_invariant:
  assumes inv: "lifecycleInvariant db" and m: "saveDeliveryEvent db event = Inr db'"
  shows "lifecycleInvariant db'"
proof -
  note c = saveDeliveryEvent_cases [OF m]
  let ?e = "toDeliveryEventRow event"
  obtain r where r: "findInvoice db (dt_companyId (rd_target event)) (dt_invoiceId (rd_target event)) = Some r"
      "iv_status r \<in> {''approved'', ''sent''}"
    using c readEligible_Some by blast
  have e: "de_company_id ?e = dt_companyId (rd_target event)"
    "de_invoice_id ?e = dt_invoiceId (rd_target event)" "\<not> delivered ?e"
    "isUnresolved (de_status ?e) \<longrightarrow> de_provider ?e = ''smtp''"
    using c by (auto simp: toDeliveryEventRow_def delivered_def isUnresolved_def)
  show ?thesis
    by (rule record_delivery_invariant [OF inv _ e(4) _ r(2) e(3)]) (simp_all add: e(1,2) r(1) c)
qed

lemma manual_cases:
  assumes "completeManualDelivery db input = Inr (db', out)"
  shows "db' = db \<or> (\<exists>r db1 db2 e. findInvoice db (dt_companyId (cm_target input)) (dt_invoiceId (cm_target input)) = Some r \<and>
    iv_status r = ''approved'' \<and> \<not> hasBlockingDeliveryHistory db (cm_target input) \<and>
    isRevisionTarget (cm_target input) \<and>
    insertDeliveryEventRow db (toDeliveryEventRow (manualDeliveryEvent input)) = Inr db1 \<and>
    markApprovedInvoiceSentRow db1 (dt_companyId (cm_target input)) (dt_invoiceId (cm_target input))
               (cm_deliveredAt input) = Inr db2 \<and> insertInvoiceAuditEvent db2 e = Inr db')"
  using assms unfolding completeManualDelivery_def Let_def
  by (auto simp: andThen_Inr_iff split: option.splits if_splits)

lemma markApprovedInvoiceSentRow_Inr:
  assumes "markApprovedInvoiceSentRow db c i t = Inr db'"
  shows "\<exists>n. updateInvoices (\<lambda>row. isInvoice c i row \<and> iv_status row = ''approved'')
       (\<lambda>row. row\<lparr>iv_status := ''sent'', iv_updated_at := t\<rparr>) db = Inr (db', n)"
  using assms unfolding markApprovedInvoiceSentRow_def
  by (auto simp: andThen_Inr_iff split: if_splits)

text \<open>An approved invoice that becomes sent.\<close>

lemma becomesSent:
  assumes inv: "lifecycleInvariant db" and F: "findInvoice db c i = Some r" "iv_status r = ''approved''"
    and same: "lf_invoices db1 = lf_invoices db"
    and u: "updateInvoices (\<lambda>row. isInvoice c i row \<and> iv_status row = ''approved'')
       (\<lambda>row. row\<lparr>iv_status := ''sent'', iv_updated_at := t\<rparr>) db1 = Inr (db2, n)"
  shows "db2 = db1\<lparr>lf_invoices := updateOf (iv_id r) (\<lambda>row. row\<lparr>iv_status := ''sent'', iv_updated_at := t\<rparr>) (lf_invoices db)\<rparr>"
    "invoiceRowAccepted (r\<lparr>iv_status := ''sent'', iv_updated_at := t\<rparr>)" "n = 1"
proof -
  let ?p = "\<lambda>row. isInvoice c i row \<and> iv_status row = ''approved''"
  note R = findInvoice_Some [OF F(1)]
  have D: "distinct (map iv_id (lf_invoices db1))" and r: "r \<in> set (lf_invoices db1)"
    using lifecycleInvariantD(1) [OF inv] R(1) same by simp_all
  have p: "?p r" and only: "\<And>q. ?p q \<Longrightarrow> iv_id q = iv_id r" using R F(2) by (simp_all add: isInvoice_def)
  show "db2 = db1\<lparr>lf_invoices := updateOf (iv_id r) (\<lambda>row. row\<lparr>iv_status := ''sent'', iv_updated_at := t\<rparr>) (lf_invoices db)\<rparr>"
    "invoiceRowAccepted (r\<lparr>iv_status := ''sent'', iv_updated_at := t\<rparr>)" "n = 1"
    using updateInvoices_row [OF D r p only u] unfolding same by blast+
qed

lemma manual_invariant:
  assumes inv: "lifecycleInvariant db" and m: "completeManualDelivery db input = Inr (db', out)"
  shows "lifecycleInvariant db'"
proof (cases "db' = db")
  case True
  with inv show ?thesis by simp
next
  case False
  let ?c = "dt_companyId (cm_target input)" and ?i = "dt_invoiceId (cm_target input)"
  let ?e = "toDeliveryEventRow (manualDeliveryEvent input)"
  from manual_cases [OF m] False obtain r db1 db2 a where r: "findInvoice db ?c ?i = Some r" "iv_status r = ''approved''"
    and ins: "insertDeliveryEventRow db ?e = Inr db1"
    and mark: "markApprovedInvoiceSentRow db1 ?c ?i (cm_deliveredAt input) = Inr db2"
    and a: "insertInvoiceAuditEvent db2 a = Inr db'" by blast
  define f :: "InvoiceStateRow \<Rightarrow> InvoiceStateRow"
    where "f = (\<lambda>row. row\<lparr>iv_status := ''sent'', iv_updated_at := cm_deliveredAt input\<rparr>)"
  have db1: "lf_invoices db1 = lf_invoices db" "lf_paymentEvents db1 = lf_paymentEvents db"
    using ins by (simp_all add: insertDeliveryEventRow_Inr)
  obtain n where u: "updateInvoices (\<lambda>row. isInvoice ?c ?i row \<and> iv_status row = ''approved'') f db1 = Inr (db2, n)"
    using markApprovedInvoiceSentRow_Inr [OF mark] by (auto simp: f_def)
  note sent = becomesSent [OF inv r db1(1) u [unfolded f_def], folded f_def]
  have e: "de_company_id ?e = ?c" "de_invoice_id ?e = ?i" "delivered ?e"
    "isUnresolved (de_status ?e) \<longrightarrow> de_provider ?e = ''smtp''"
    by (simp_all add: toDeliveryEventRow_def manualDeliveryEvent_def delivered_def isUnresolved_def)
  show ?thesis
  proof (rule insert_delivery_invariant [where f = f and r = r and e = ?e, OF inv ins e(4)])
    show "findInvoice db (de_company_id ?e) (de_invoice_id ?e) = Some r" by (simp add: e r(1))
  qed (use sent r(2) e(3) in \<open>simp_all add: insertInvoiceAuditEvent_Inr [OF a] db1 f_def keepsIdentity_def paymentOf_def\<close>)
qed

lemma completeAttempt_Inr:
  "completeAttemptRow db c i j f = Inr (db', n) \<longleftrightarrow>
     (\<forall>e \<in> set (lf_deliveryEvents db). isAttempt c i j e \<longrightarrow> de_binding_kind e \<noteq> ''legacyOriginal'' \<and>
        (de_provider e = ''smtp'' \<and> isUnresolved (de_status (f e)) \<longrightarrow>
          (\<forall>e' \<in> set (lf_deliveryEvents db). de_id e' \<noteq> de_id e \<longrightarrow>
             \<not> isUnresolvedSmtp (de_company_id e) (de_invoice_id e) e')) \<and> deliveryRowAccepted (f e)) \<and>
     db' = db\<lparr>lf_deliveryEvents := updateRows (isAttempt c i j) f (lf_deliveryEvents db)\<rparr> \<and>
     n = length (filter (isAttempt c i j) (lf_deliveryEvents db))"
  unfolding completeAttemptRow_def Let_def by (simp split: if_splits) blast

lemma completeAttempt_events:
  assumes E: "eventsInvariant db" and c: "completeAttemptRow db c i j f = Inr (db', n)"
    and f: "\<And>e. de_id (f e) = de_id e" "\<And>e. de_company_id (f e) = de_company_id e"
      "\<And>e. de_invoice_id (f e) = de_invoice_id e" "\<And>e. de_binding_kind (f e) = de_binding_kind e"
      "\<And>e. de_provider (f e) = de_provider e"
  shows "eventsInvariant db'"
proof -
  let ?g = "\<lambda>e. if isAttempt c i j e then f e else e"
  have D: "distinct (map de_id (lf_deliveryEvents db))" using E by (simp add: eventsInvariant_def)
  have evs: "lf_deliveryEvents db' = map ?g (lf_deliveryEvents db)"
    using c by (simp add: completeAttempt_Inr updateRows_def)
  have ids: "de_id (?g e) = de_id e" "de_company_id (?g e) = de_company_id e" "de_invoice_id (?g e) = de_invoice_id e"
    "de_binding_kind (?g e) = de_binding_kind e" for e by (simp_all add: f)
  have same: "e = e'" if "e \<in> set (lf_deliveryEvents db)" "e' \<in> set (lf_deliveryEvents db)" "de_id e = de_id e'" for e e'
    using that D by (auto simp: distinct_map dest: inj_onD)
  have hit: "e = e'"
    if "e \<in> set (lf_deliveryEvents db)" "e' \<in> set (lf_deliveryEvents db)" "isAttempt c i j e"
      "isUnresolvedSmtp (de_company_id e) (de_invoice_id e) (f e)"
      "isUnresolvedSmtp (de_company_id e) (de_invoice_id e) e'" for e e'
  proof (rule ccontr)
    assume "e \<noteq> e'"
    then have "de_id e' \<noteq> de_id e" using same that(1,2) by metis
    with that c show False unfolding completeAttempt_Inr by (auto simp: isUnresolvedSmtp_def f)
  qed
  have single: "e = e'"
    if "e \<in> set (lf_deliveryEvents db)" "e' \<in> set (lf_deliveryEvents db)"
      "isUnresolvedSmtp (de_company_id e) (de_invoice_id e) (?g e)"
      "isUnresolvedSmtp (de_company_id e) (de_invoice_id e) (?g e')" for e e'
  proof -
    have k: "de_company_id e' = de_company_id e" "de_invoice_id e' = de_invoice_id e"
      using that(4) by (auto simp: isUnresolvedSmtp_def f split: if_splits)
    consider "isAttempt c i j e" "isAttempt c i j e'" | "isAttempt c i j e" "\<not> isAttempt c i j e'"
      | "\<not> isAttempt c i j e" "isAttempt c i j e'" | "\<not> isAttempt c i j e" "\<not> isAttempt c i j e'" by blast
    then show ?thesis
    proof cases
      case 1
      then show ?thesis using same [OF that(1,2)] by (simp add: isAttempt_def)
    next
      case 2
      then show ?thesis using hit [OF that(1,2)] that(3,4) by simp
    next
      case 3
      then show ?thesis using hit [OF that(2,1)] that(3,4) k by simp
    next
      case 4
      then show ?thesis using E that unfolding eventsInvariant_def by auto
    qed
  qed
  have "distinct (map de_id (lf_deliveryEvents db'))"
    using D by (simp add: evs comp_def ids)
  moreover have "\<forall>e \<in> set (lf_deliveryEvents db'). de_binding_kind e \<noteq> ''legacyOriginal'' \<and>
      (isUnresolved (de_status e) \<longrightarrow> de_provider e = ''smtp'')"
    using E by (auto simp: evs eventsInvariant_def ids f isAttempt_def) (simp_all add: isUnresolved_def)
  moreover have "e = e'" if "e \<in> set (lf_deliveryEvents db')" "e' \<in> set (lf_deliveryEvents db')"
      "isUnresolvedSmtp (de_company_id e) (de_invoice_id e) e"
      "isUnresolvedSmtp (de_company_id e) (de_invoice_id e) e'" for e e'
  proof -
    from that(1,2) obtain e0 e0' where e0: "e0 \<in> set (lf_deliveryEvents db)" "e = ?g e0"
        "e0' \<in> set (lf_deliveryEvents db)" "e' = ?g e0'" by (auto simp: evs)
    have "e0 = e0'" by (rule single) (use that(3,4) e0 ids in \<open>simp_all\<close>)
    with e0 show ?thesis by simp
  qed
  ultimately show ?thesis unfolding eventsInvariant_def by blast
qed

text \<open>What a completed e-mail delivery did.\<close>

lemma complete_cases:
  assumes "completeReservedInvoiceEmailDelivery db v result' customerSuccess = Inr (db', out)"
    and "db' \<noteq> db"
  shows "\<exists>event outcome invoice db1 n.
    find (\<lambda>e. de_company_id e = dt_companyId (dv_target v) \<and> de_invoice_id e = dt_invoiceId (dv_target v) \<and>
                 de_id e = dv_eventId v) (lf_deliveryEvents db) = Some event \<and>
    eventMatchesReservation v event \<and> de_status event = ''attempted'' \<and>
    outcomeColumns result' = Inr outcome \<and>
    (customerSuccess \<longleftrightarrow> dv_mode v = ''customer'' \<and> isSuccess result') \<and>
    (eo_status outcome = ''succeeded'' \<longrightarrow> readEligibleDeliveryInvoice db (dv_target v) = Inr invoice \<and> invoice \<noteq> None) \<and>
    completeAttemptRow db (dt_companyId (dv_target v)) (dt_invoiceId (dv_target v)) (dv_eventId v)
      (setOutcome outcome) = Inr (db1, n) \<and>
    (if customerSuccess \<and> invoice = Some ''approved'' then
       \<exists>k. updateInvoices
         (\<lambda>row. isInvoice (dt_companyId (dv_target v)) (dt_invoiceId (dv_target v)) row \<and> iv_status row = ''approved'')
         (\<lambda>row. row\<lparr>iv_status := ''sent'', iv_updated_at := de_created_at event\<rparr>) db1 = Inr (db', k)
     else db' = db1)"
proof -
  let ?t = "dv_target v"
  from assms(1) have c: "customerSuccess \<longleftrightarrow> dv_mode v = ''customer'' \<and> isSuccess result'"
    unfolding completeReservedInvoiceEmailDelivery_def by (auto simp: andThen_Inr_iff split: if_splits)
  from assms(1) c obtain outcome where o: "outcomeColumns result' = Inr outcome"
    unfolding completeReservedInvoiceEmailDelivery_def by (auto simp: andThen_Inr_iff)
  from assms(1) c o obtain event where e: "find (\<lambda>e. de_company_id e = dt_companyId ?t \<and> de_invoice_id e = dt_invoiceId ?t \<and>
                 de_id e = dv_eventId v) (lf_deliveryEvents db) = Some event"
    unfolding completeReservedInvoiceEmailDelivery_def Let_def by (auto simp: andThen_Inr_iff split: option.splits)
  let ?attempt = "completeAttemptRow db (dt_companyId ?t) (dt_invoiceId ?t) (dv_eventId v) (setOutcome outcome)"
  let ?sent = "\<lambda>db1. updateInvoices
       (\<lambda>row. isInvoice (dt_companyId ?t) (dt_invoiceId ?t) row \<and> iv_status row = ''approved'')
       (\<lambda>row. row\<lparr>iv_status := ''sent'', iv_updated_at := de_created_at event\<rparr>) db1"
  let ?last = "\<lambda>invoice (db1, changes). if changes \<noteq> 1 then Inl InvoiceDeliveryConflictError
     else if customerSuccess \<and> invoice = Some ''approved'' then andThen (?sent db1) (\<lambda>(db2, updated).
       if updated \<noteq> 1 then Inl InvoiceDeliveryConflictError else Inr (db2, EmailCompleted))
     else Inr (db1, EmailCompleted)"
  let ?tail = "\<lambda>invoice. if eo_status outcome = ''succeeded'' \<and> invoice = None then Inl InvoiceDeliveryConflictError
     else andThen ?attempt (?last invoice)"
  let ?read = "if eo_status outcome = ''succeeded'' then readEligibleDeliveryInvoice db ?t else Inr None"
  have step: "eventMatchesReservation v event \<and> andThen (readDeliveryTarget db ?t) (\<lambda>stored.
     if \<not> stored then Inl InvoiceDeliveryConflictError
     else if de_status event \<noteq> ''attempted'' then
       (if outcomeRecorded outcome event then Inr (db, EmailAlreadyCompleted)
        else Inl InvoiceDeliveryConflictError)
     else andThen ?read ?tail) = Inr (db', out)"
    using assms(1) c
    by (auto simp: completeReservedInvoiceEmailDelivery_def Let_def o e andThen_Inr_iff
      [of "assertInvoiceDeliveryReservation v"] split: if_splits)
  then have m: "eventMatchesReservation v event" and step: "andThen (readDeliveryTarget db ?t) (\<lambda>stored.
     if \<not> stored then Inl InvoiceDeliveryConflictError
     else if de_status event \<noteq> ''attempted'' then
       (if outcomeRecorded outcome event then Inr (db, EmailAlreadyCompleted)
        else Inl InvoiceDeliveryConflictError)
     else andThen ?read ?tail) = Inr (db', out)" by blast+
  from step have s: "de_status event = ''attempted''" and step: "andThen ?read ?tail = Inr (db', out)"
    using assms(2) by (elim andThen_InrE [of "readDeliveryTarget db ?t"], simp split: if_splits)+
  obtain invoice where i: "?read = Inr invoice" and step: "?tail invoice = Inr (db', out)"
    using step by (rule andThen_InrE)
  then have i2: "eo_status outcome = ''succeeded'' \<Longrightarrow> invoice \<noteq> None" and
    step: "andThen ?attempt (?last invoice) = Inr (db', out)" by (simp_all split: if_splits)
  obtain x where "?attempt = Inr x" and step: "?last invoice x = Inr (db', out)"
    using step by (rule andThen_InrE)
  then obtain db1 n where a: "?attempt = Inr (db1, n)" and k: "?last invoice (db1, n) = Inr (db', out)"
    by (cases x) simp
  from k have "if customerSuccess \<and> invoice = Some ''approved'' then
       \<exists>k. updateInvoices
         (\<lambda>row. isInvoice (dt_companyId ?t) (dt_invoiceId ?t) row \<and> iv_status row = ''approved'')
         (\<lambda>row. row\<lparr>iv_status := ''sent'', iv_updated_at := de_created_at event\<rparr>) db1 = Inr (db', k)
     else db' = db1"
    by (auto simp: andThen_Inr_iff split: if_splits)
  with e m s o c i i2 a show ?thesis by (intro exI [of _ event] exI [of _ outcome] exI [of _ invoice] exI [of _ db1] exI [of _ n]) auto
qed

lemma outcomeColumns_success:
  "outcomeColumns result' = Inr outcome \<Longrightarrow> eo_status outcome = ''succeeded'' \<longleftrightarrow> isSuccess result'"
  by (auto simp: outcomeColumns_def isSuccess_def andThen_Inr_iff split: EmailDeliveryOutcome.splits)

lemma setOutcome_simps [simp]:
  "de_id (setOutcome outcome e) = de_id e" "de_company_id (setOutcome outcome e) = de_company_id e"
  "de_invoice_id (setOutcome outcome e) = de_invoice_id e" "de_binding_kind (setOutcome outcome e) = de_binding_kind e"
  "de_provider (setOutcome outcome e) = de_provider e" "de_status (setOutcome outcome e) = eo_status outcome"
  "de_send_mode (setOutcome outcome e) = de_send_mode e"
  by (simp_all add: setOutcome_def)

lemma complete_invariant:
  assumes inv: "lifecycleInvariant db"
    and m: "completeReservedInvoiceEmailDelivery db v result' customerSuccess = Inr (db', out)"
  shows "lifecycleInvariant db'"
proof (cases "db' = db")
  case True
  with inv show ?thesis by simp
next
  case False
  let ?c = "dt_companyId (dv_target v)" and ?i = "dt_invoiceId (dv_target v)"
  from complete_cases [OF m False] obtain event outcome invoice db1 n where
    ev: "find (\<lambda>e. de_company_id e = ?c \<and> de_invoice_id e = ?i \<and> de_id e = dv_eventId v) (lf_deliveryEvents db) = Some event"
      "eventMatchesReservation v event" "de_status event = ''attempted''"
    and o: "outcomeColumns result' = Inr outcome" "customerSuccess \<longleftrightarrow> dv_mode v = ''customer'' \<and> isSuccess result'"
      "eo_status outcome = ''succeeded'' \<Longrightarrow> readEligibleDeliveryInvoice db (dv_target v) = Inr invoice \<and> invoice \<noteq> None"
    and a: "completeAttemptRow db ?c ?i (dv_eventId v) (setOutcome outcome) = Inr (db1, n)"
    and k: "if customerSuccess \<and> invoice = Some ''approved'' then
       \<exists>k. updateInvoices (\<lambda>row. isInvoice ?c ?i row \<and> iv_status row = ''approved'')
         (\<lambda>row. row\<lparr>iv_status := ''sent'', iv_updated_at := de_created_at event\<rparr>) db1 = Inr (db', k)
     else db' = db1" by blast
  have E: "event \<in> set (lf_deliveryEvents db)" "de_company_id event = ?c" "de_invoice_id event = ?i" "de_id event = dv_eventId v"
    using ev(1) by (auto simp: find_Some_iff)
  obtain r where r: "r \<in> set (lf_invoices db)" "isInvoice ?c ?i r"
    using lifecycleInvariantD(4) [OF inv E(1)] E by auto
  note F = findInvoice_row [OF lifecycleInvariantD(1) [OF inv] r]
  note R = findInvoice_Some [OF F] and row = lifecycleInvariantD(5) [OF inv r(1)]
  have "hasUnresolvedDelivery db ?c ?i" "hasBlockingDeliveryEvent db ?c ?i"
    using E ev(3) by (auto simp: hasUnresolvedDelivery_def hasBlockingDeliveryEvent_def deliveriesOf_set isUnresolved_def)
  then have status: "iv_status r \<in> {''approved'', ''sent''}"
    using row by (auto simp: rowInvariant_def invoiceRowAccepted_def R(3,4))
  let ?hit = "isAttempt ?c ?i (dv_eventId v)"
  have db1: "lf_invoices db1 = lf_invoices db" "lf_paymentEvents db1 = lf_paymentEvents db"
    and evs: "lf_deliveryEvents db1 = updateRows ?hit (setOutcome outcome) (lf_deliveryEvents db)"
    using a by (simp_all add: completeAttempt_Inr)
  have D: "distinct (map de_id (lf_deliveryEvents db))"
    using lifecycleInvariantD(2) [OF inv] by (simp add: eventsInvariant_def)
  have hit: "?hit e \<longleftrightarrow> e = event" if "e \<in> set (lf_deliveryEvents db)" for e
    using E ev(3) D inj_on_eq_iff [OF _ that E(1), of de_id] by (auto simp: isAttempt_def distinct_map)
  then have elems: "e \<in> set (lf_deliveryEvents db1) \<longleftrightarrow>
      e = setOutcome outcome event \<or> e \<in> set (lf_deliveryEvents db) \<and> e \<noteq> event" for e
    using E(1) by (auto simp: evs updateRows_def image_iff)
  have now: "wasDelivered db1 r \<longleftrightarrow> wasDelivered db r \<or> delivered (setOutcome outcome event)"
  proof -
    have "\<not> delivered event" using ev(3) by (simp add: delivered_def)
    moreover have "de_company_id (setOutcome outcome event) = iv_company_id r"
      "de_invoice_id (setOutcome outcome event) = iv_id r" by (simp_all add: E R(3,4))
    ultimately show ?thesis unfolding wasDelivered_iff elems by blast
  qed
  have mode: "delivered (setOutcome outcome event) \<longleftrightarrow> customerSuccess"
    using ev(2) outcomeColumns_success [OF o(1)] o(2) m
    by (auto simp: delivered_def eventMatchesReservation_def completeReservedInvoiceEmailDelivery_def
        assertInvoiceDeliveryReservation_def andThen_Inr_iff split: if_splits)
  have sent: "iv_status r = ''sent'' \<longleftrightarrow> wasDelivered db r" using row by (simp add: rowInvariant_def)
  have eligible: "invoice = Some (iv_status r)" if customerSuccess
    using o that outcomeColumns_success [OF o(1)] readEligible_Some [of db "dv_target v"] F by fastforce
  have own: "de_company_id e = iv_company_id r" if "e \<in> set (lf_deliveryEvents db1)" "de_invoice_id e = iv_id r" for e
    using that ownDeliveries [OF inv r(1)] E R by (auto simp: elems)
  have others: "e \<in> set (lf_deliveryEvents db1) \<longleftrightarrow> e \<in> set (lf_deliveryEvents db)" if "de_invoice_id e \<noteq> iv_id r" for e
    using that E R(3) by (auto simp: elems)
  have events: "eventsInvariant db1"
    by (rule completeAttempt_events [OF lifecycleInvariantD(2) [OF inv] a]) simp_all
  define f :: "InvoiceStateRow \<Rightarrow> InvoiceStateRow" where
    "f = (if customerSuccess \<and> iv_status r = ''approved''
       then \<lambda>row. row\<lparr>iv_status := ''sent'', iv_updated_at := de_created_at event\<rparr> else (\<lambda>row. row))"
  have db': "db' = db1\<lparr>lf_invoices := updateOf (iv_id r) f (lf_invoices db)\<rparr> \<and> invoiceRowAccepted (f r)"
  proof (cases "customerSuccess \<and> iv_status r = ''approved''")
    case True
    with k eligible obtain j where "updateInvoices (\<lambda>row. isInvoice ?c ?i row \<and> iv_status row = ''approved'')
         (\<lambda>row. row\<lparr>iv_status := ''sent'', iv_updated_at := de_created_at event\<rparr>) db1 = Inr (db', j)" by auto
    from becomesSent [OF inv F _ db1(1) this] True show ?thesis by (simp add: f_def)
  next
    case False
    then have "db' = db1" "f = (\<lambda>row. row)" using k eligible by (auto simp: f_def split: if_splits)
    then show ?thesis using row by (simp add: db1(1) [symmetric] rowInvariant_def)
  qed
  show ?thesis
  proof (rule delivery_change_invariant [where f = f and r = r, OF inv r(1) _ status])
    show "iv_status (f r) \<in> {''approved'', ''sent''}" using status by (simp add: f_def)
    show "iv_status (f r) = ''sent'' \<longleftrightarrow> wasDelivered db' r"
      using db' now mode sent status by (auto simp: f_def wasDelivered_def deliveriesOf_def)
    show "eventsInvariant db'" using events db' by (simp add: eventsInvariant_def)
  qed (use db' own others in \<open>simp_all add: db1 f_def keepsIdentity_def paymentOf_def\<close>)
qed

section \<open>Histories\<close>

lemma newDatabase_induct:
  assumes "P db" "\<And>db' x. m = Inr (db', x) \<Longrightarrow> P db'"
  shows "P (newDatabase db m)"
  using assms by (auto simp: newDatabase_def split: sum.split prod.split)

text \<open>A request that succeeds ran its repository operation on the same database.\<close>

lemma markInvoicePaid_runs:
  "markInvoicePaid today uuid now db input = Inr (db', x) \<Longrightarrow>
     \<exists>i out. markInvoicePaidWithinTransaction db i = Inr (db', out)"
  unfolding markInvoicePaid_def
  by (elim andThen_InrE) (auto elim!: andThen_InrE split: if_splits PaymentOutcome.splits, blast+)

lemma revertInvoicePaidMark_runs:
  "revertInvoicePaidMark uuid now db actor i = Inr (db', x) \<Longrightarrow>
     \<exists>i out. revertInvoicePaidMarkWithinTransaction db i = Inr (db', out)"
  unfolding revertInvoicePaidMark_def
  by (elim andThen_InrE) (auto split: PaymentOutcome.splits, blast+)

lemma cancelApprovedInvoice_runs:
  "cancelApprovedInvoice uuid db input = Inr (db', x) \<Longrightarrow>
     \<exists>i out. cancelApprovedInvoiceWithinTransaction db i = Inr (db', out)"
  unfolding cancelApprovedInvoice_def
  by (elim andThen_InrE) (auto split: CancellationOutcome.splits, blast+)

lemma reopenApprovedInvoiceForEditing_runs:
  "reopenApprovedInvoiceForEditing uuid db actor c i t = Inr (db', x) \<Longrightarrow>
     \<exists>i out. reopenApprovedInvoiceWithinTransaction db i = Inr (db', out)"
  unfolding reopenApprovedInvoiceForEditing_def
  by (elim andThen_InrE) (auto split: option.splits, blast+)

lemma completeInvoiceDeliveryEvent_runs:
  "completeInvoiceDeliveryEvent db v result' = Inr (db', x) \<Longrightarrow>
     \<exists>result'. completeReservedInvoiceEmailDelivery db v result' False = Inr (db', x)"
  unfolding completeInvoiceDeliveryEvent_def
  by (auto elim!: andThen_InrE split: EmailDeliveryOutcome.splits if_splits)

lemma recordInvoiceDeliveryEvent_runs:
  "recordInvoiceDeliveryEvent uuid db input = Inr (db', x) \<Longrightarrow> saveDeliveryEvent db x = Inr db'"
  unfolding recordInvoiceDeliveryEvent_def Let_def
  apply (elim andThen_InrE)
  apply (cases "dt_binding (rn_target input)")
    apply (simp_all split: if_splits)
  apply (elim andThen_InrE)
  apply simp
  done

lemma completeSuccessfulEmailDelivery_runs:
  "completeSuccessfulEmailDelivery db v i = Inr (db', x) \<Longrightarrow>
     completeReservedInvoiceEmailDelivery db v (EmailSucceeded i) True = Inr (db', x)"
  by (simp add: completeSuccessfulEmailDelivery_def)

lemma serve_invariant:
  assumes "lifecycleInvariant db"
  shows "lifecycleInvariant (serve today db request)"
proof (cases request)
  case (MarkPaid uuid now input)
  then show ?thesis unfolding serve_def
    by (simp, intro newDatabase_induct [where P = lifecycleInvariant] assms)
      (use mark_invariant [OF assms] markInvoicePaid_runs in blast)
next
  case (RevertPaid uuid now actor invoiceId)
  then show ?thesis unfolding serve_def
    by (simp, intro newDatabase_induct [where P = lifecycleInvariant] assms)
      (use revert_invariant [OF assms] revertInvoicePaidMark_runs in blast)
next
  case (CancelInvoice uuid input)
  then show ?thesis unfolding serve_def
    by (simp, intro newDatabase_induct [where P = lifecycleInvariant] assms)
      (use cancel_invariant [OF assms] cancelApprovedInvoice_runs in blast)
next
  case (ReopenInvoice uuid actor c i t)
  then show ?thesis unfolding serve_def
    by (simp, intro newDatabase_induct [where P = lifecycleInvariant] assms)
      (use reopen_invariant [OF assms] reopenApprovedInvoiceForEditing_runs in blast)
next
  case (ReserveEmail v texts)
  then show ?thesis unfolding serve_def
    by (simp, intro newDatabase_induct [where P = lifecycleInvariant] assms)
      (use reserve_invariant [OF assms] in blast)
next
  case (CompleteEmail v result')
  then show ?thesis unfolding serve_def
    by (simp, intro newDatabase_induct [where P = lifecycleInvariant] assms)
      (use complete_invariant [OF assms] completeInvoiceDeliveryEvent_runs in blast)
next
  case (CompleteCustomerEmail v i)
  then show ?thesis unfolding serve_def
    by (simp, intro newDatabase_induct [where P = lifecycleInvariant] assms)
      (use complete_invariant [OF assms] completeSuccessfulEmailDelivery_runs in blast)
next
  case (DeliverByHand input)
  then show ?thesis unfolding serve_def
    by (simp, intro newDatabase_induct [where P = lifecycleInvariant] assms)
      (use manual_invariant [OF assms] in blast)
next
  case (RecordDryRun uuid input)
  then show ?thesis unfolding serve_def
    by (simp, intro newDatabase_induct [where P = lifecycleInvariant] assms)
      (use dryRun_invariant [OF assms] recordInvoiceDeliveryEvent_runs in blast)
next
  case (StoreApproval c i draft credited number gross now)
  then show ?thesis unfolding serve_def
    using assms storeApproval_invariant [OF assms] by (auto split: sum.split)
next
  case (StoreReapproval c draft gross now)
  then show ?thesis unfolding serve_def
    using assms storeReapproval_invariant [OF assms] by (auto split: sum.split)
next
  case (ChangeOtherTables documents revisions current drafts)
  then show ?thesis unfolding serve_def
    by (auto intro: other_tables_invariant [OF assms])
qed

lemma serveAll_invariant:
  "lifecycleInvariant db \<Longrightarrow> lifecycleInvariant (serveAll today db requests)"
  unfolding serveAll_def by (induction requests arbitrary: db) (simp_all add: serve_invariant)

lemma history_invariant: "lifecycleInvariant (serveAll today (emptyLifecycle drafts) requests)"
  by (rule serveAll_invariant [OF emptyLifecycle_invariant])

end
