(* ===== verification/UnknownOutcome.thy ===== *)
theory UnknownOutcome
  imports LifecycleCorrect
begin

text \<open>
  What an e-mail delivery whose outcome is unknown means for its invoice: no request sends the
  invoice again, delivers it by hand, cancels or reopens it. Only dry runs may follow.
\<close>

definition invoiceStatus :: "LifecycleDatabase \<Rightarrow> string \<Rightarrow> string \<Rightarrow> string option" where
  "invoiceStatus db companyId invoiceId = map_option iv_status (findInvoice db companyId invoiceId)"

definition unknownAt :: "LifecycleDatabase \<Rightarrow> InvoiceDeliveryEventRow \<Rightarrow> bool" where
  "unknownAt db e \<longleftrightarrow> e \<in> set (lf_deliveryEvents db) \<and> de_status e = ''outcomeUnknown''"

text \<open>Nothing happened to the invoice but payments and dry runs.\<close>

definition undisturbed :: "LifecycleDatabase \<Rightarrow> LifecycleDatabase \<Rightarrow> string \<Rightarrow> string \<Rightarrow> bool" where
  "undisturbed db db' c i \<longleftrightarrow>
     invoiceStatus db' c i = invoiceStatus db c i \<and>
     set (deliveriesOf db c i) \<subseteq> set (deliveriesOf db' c i) \<and>
     (\<forall>d \<in> set (deliveriesOf db' c i) - set (deliveriesOf db c i). de_provider d = ''dryRun'')"

lemma undisturbed_refl [simp]: "undisturbed db db c i"
  by (simp add: undisturbed_def)

lemma undisturbed_trans: "undisturbed a b c i \<Longrightarrow> undisturbed b d c i \<Longrightarrow> undisturbed a d c i"
  unfolding undisturbed_def by auto

lemma undisturbed_rows:
  assumes "lf_deliveryEvents db' = lf_deliveryEvents db"
    and "lf_invoices db' = updateRows p f (lf_invoices db)"
    and "\<And>r. isInvoice c i (f r) = isInvoice c i r"
    and "\<And>r. p r \<Longrightarrow> isInvoice c i r \<Longrightarrow> iv_status (f r) = iv_status r"
  shows "undisturbed db db' c i"
proof -
  have "map_option iv_status (find (isInvoice c i) (updateRows p f rows)) =
      map_option iv_status (find (isInvoice c i) rows)" for rows
    using assms(3,4) by (induction rows) (auto simp: updateRows_def)
  then show ?thesis
    by (simp add: undisturbed_def invoiceStatus_def findInvoice_def assms(1,2) deliveriesOf_def)
qed

lemma undisturbed_update:
  assumes u: "updateInvoices p f db = Inr (db1, n)" and "lf_deliveryEvents db' = lf_deliveryEvents db"
    "lf_invoices db' = lf_invoices db1"
    and "\<And>r. isInvoice c i (f r) = isInvoice c i r"
    and "\<And>r. p r \<Longrightarrow> isInvoice c i r \<Longrightarrow> iv_status (f r) = iv_status r"
  shows "undisturbed db db' c i"
  by (rule undisturbed_rows [where p = p and f = f]) (use assms in \<open>auto simp: updateInvoices_Inr\<close>)

lemma undisturbed_same:
  "lf_deliveryEvents db' = lf_deliveryEvents db \<Longrightarrow> lf_invoices db' = lf_invoices db \<Longrightarrow> undisturbed db db' c i"
  by (simp add: undisturbed_def invoiceStatus_def findInvoice_def deliveriesOf_def)

lemma undisturbed_other_delivery:
  assumes "lf_invoices db' = lf_invoices db"
    and "\<And>e. de_company_id e = c \<Longrightarrow> de_invoice_id e = i \<Longrightarrow>
      e \<in> set (lf_deliveryEvents db') \<longleftrightarrow> e \<in> set (lf_deliveryEvents db)"
  shows "undisturbed db db' c i"
proof -
  have "set (deliveriesOf db' c i) = set (deliveriesOf db c i)" using assms(2) by (auto simp: deliveriesOf_set)
  then show ?thesis by (simp add: undisturbed_def invoiceStatus_def findInvoice_def assms(1))
qed

lemma newDatabase_undisturbed:
  "(\<And>db' x. m = Inr (db', x) \<Longrightarrow> undisturbed db db' c i) \<Longrightarrow> undisturbed db (newDatabase db m) c i"
  by (rule newDatabase_induct [where P = "\<lambda>db'. undisturbed db db' c i"]) auto

section \<open>Each request\<close>

lemma unknown_blocks:
  assumes "unknownAt db e"
  shows "hasUnresolvedDelivery db (de_company_id e) (de_invoice_id e)"
    "hasBlockingDeliveryEvent db (de_company_id e) (de_invoice_id e)"
    "dt_companyId t = de_company_id e \<Longrightarrow> dt_invoiceId t = de_invoice_id e \<Longrightarrow> hasBlockingDeliveryHistory db t"
proof -
  have e: "e \<in> set (deliveriesOf db (de_company_id e) (de_invoice_id e))" "isUnresolved (de_status e)"
    using assms by (simp_all add: unknownAt_def deliveriesOf_set isUnresolved_def)
  then show "hasUnresolvedDelivery db (de_company_id e) (de_invoice_id e)"
    unfolding hasUnresolvedDelivery_def by blast
  show "hasBlockingDeliveryEvent db (de_company_id e) (de_invoice_id e)"
    using e(1) assms unfolding hasBlockingDeliveryEvent_def unknownAt_def by auto
  have "hasUnresolvedInvoiceDeliveryHistory db (de_company_id e) (de_invoice_id e)"
    using e by (auto simp: hasUnresolvedInvoiceDeliveryHistory_def)
  then show "hasBlockingDeliveryHistory db t"
    if "dt_companyId t = de_company_id e" "dt_invoiceId t = de_invoice_id e"
    using that by (auto simp: hasBlockingDeliveryHistory_def readLegacyResendSourceId_def split: DocumentBinding.split)
qed

lemma mark_undisturbed:
  "markInvoicePaidWithinTransaction db input = Inr (db', out) \<Longrightarrow> undisturbed db db' c i"
  unfolding markInvoicePaidWithinTransaction_def Let_def
  by (auto simp: andThen_Inr_iff split: option.splits if_splits dest!: insertPaymentEvent_Inr
      intro: undisturbed_update simp: isInvoice_def updateInvoices_Inr)

lemma revert_undisturbed:
  "revertInvoicePaidMarkWithinTransaction db input = Inr (db', out) \<Longrightarrow> undisturbed db db' c i"
  unfolding revertInvoicePaidMarkWithinTransaction_def Let_def
  by (auto simp: andThen_Inr_iff split: option.splits if_splits dest!: insertPaymentEvent_Inr
      intro: undisturbed_update simp: isInvoice_def updateInvoices_Inr)

lemma cancel_undisturbed:
  assumes "cancelApprovedInvoiceWithinTransaction db input = Inr (db', out)" "hasBlockingDeliveryEvent db c i"
  shows "undisturbed db db' c i"
  using assms unfolding cancelApprovedInvoiceWithinTransaction_def
  by (auto simp: andThen_Inr_iff updateInvoices_Inr isInvoice_def split: option.splits if_splits
      dest!: insertInvoiceAuditEvent_Inr intro!: undisturbed_rows)

lemma reopen_undisturbed:
  assumes "reopenApprovedInvoiceWithinTransaction db input = Inr (db', out)" "hasUnresolvedDelivery db c i"
  shows "undisturbed db db' c i"
  using assms unfolding reopenApprovedInvoiceWithinTransaction_def Let_def
  by (auto simp: andThen_Inr_iff markInvoiceReopenedForEditing_def updateInvoices_Inr isInvoice_def
      detachCurrentInvoiceRevision_def split: option.splits if_splits
      dest!: insertInvoiceAuditEvent_Inr intro!: undisturbed_rows)

lemma storeReapproval_undisturbed:
  assumes inv: "lifecycleInvariant db" and m: "storeReapproval db companyId draftId gross t = Inr db'"
    and h: "hasUnresolvedDelivery db c i"
  shows "undisturbed db db' c i"
proof -
  from m obtain r where g: "getReopenedInvoiceForDraft db companyId draftId = Some r"
    by (auto simp: storeReapproval_def split: option.splits)
  then have r: "r \<in> set (lf_invoices db)" "iv_status r = ''reopened_for_edit''"
    by (auto simp: getReopenedInvoiceForDraft_def find_Some_iff)
  then have other: "\<not> (iv_company_id r = c \<and> iv_id r = i)"
    using lifecycleInvariantD(5) [OF inv r(1)] h by (auto simp: rowInvariant_def)
  have "updateInvoice db (r\<lparr>iv_status := ''approved'', iv_total_gross_cents := gross, iv_updated_at := t\<rparr>) = Inr db'"
    using m by (simp add: storeReapproval_def g split: if_splits)
  from updateInvoice_Inr [OF this] obtain n where u: "updateInvoices
      (\<lambda>row. isInvoice (iv_company_id r) (iv_id r) row \<and> iv_status row = ''reopened_for_edit'')
      (\<lambda>row. row\<lparr>iv_status := ''approved'', iv_total_gross_cents := gross, iv_updated_at := t\<rparr>) db = Inr (db', n)"
    by auto
  show ?thesis
    by (rule undisturbed_update [OF u]) (use u other in \<open>auto simp: updateInvoices_Inr isInvoice_def\<close>)
qed

lemma storeApproval_undisturbed:
  assumes m: "storeApproval db companyId invoiceId draftId credited number gross t = Inr db'"
    and f: "findInvoice db c i \<noteq> None"
  shows "undisturbed db db' c i"
proof -
  from m obtain new where "lf_invoices db' = lf_invoices db @ [new]" "lf_deliveryEvents db' = lf_deliveryEvents db"
    by (auto simp: storeApproval_def insertInvoice_def Let_def split: if_splits)
  moreover have "find p (rows @ [new]) = find p rows" if "find p rows \<noteq> None" for p rows
    using that by (induction rows) auto
  ultimately show ?thesis
    using f by (simp add: undisturbed_def invoiceStatus_def findInvoice_def deliveriesOf_def)
qed

lemma insert_undisturbed:
  assumes ins: "insertDeliveryEventRow db e = Inr db1"
    and same: "lf_deliveryEvents db' = lf_deliveryEvents db1" "invoiceStatus db' c i = invoiceStatus db c i"
    and other: "(de_company_id e, de_invoice_id e) \<noteq> (c, i) \<or> de_provider e = ''dryRun''"
  shows "undisturbed db db' c i"
  using ins other unfolding undisturbed_def
  by (auto simp: same insertDeliveryEventRow_Inr deliveriesOf_def)

lemma invoiceStatus_insert:
  "insertDeliveryEventRow db e = Inr db' \<Longrightarrow> invoiceStatus db' c i = invoiceStatus db c i"
  by (simp add: insertDeliveryEventRow_Inr invoiceStatus_def findInvoice_def)

lemma reserve_undisturbed:
  assumes m: "reserveInvoiceEmailDelivery db v input = Inr (db', out)" and u: "unknownAt db e"
  shows "undisturbed db db' (de_company_id e) (de_invoice_id e)"
  using reserve_cases [OF m]
proof (elim disjE exE conjE)
  fix texts st
  assume ins: "insertDeliveryEventRow db (reservationRow v texts) = Inr db'"
    and free: "\<not> hasBlockingDeliveryHistory db (dv_target v)"
  then show ?thesis
    using unknown_blocks(3) [OF u, of "dv_target v"] invoiceStatus_insert [OF ins]
    by (intro insert_undisturbed [OF ins]) (auto simp: reservationRow_def Let_def)
qed simp

lemma dryRun_undisturbed:
  assumes m: "saveDeliveryEvent db event = Inr db'"
  shows "undisturbed db db' c i"
proof -
  have ins: "insertDeliveryEventRow db (toDeliveryEventRow event) = Inr db'" and p: "rd_provider event = ''dryRun''"
    using saveDeliveryEvent_cases [OF m] by blast+
  show ?thesis
    using invoiceStatus_insert [OF ins] p by (intro insert_undisturbed [OF ins]) (auto simp: toDeliveryEventRow_def)
qed

lemma manual_undisturbed:
  assumes m: "completeManualDelivery db input = Inr (db', out)" and u: "unknownAt db e"
  shows "undisturbed db db' (de_company_id e) (de_invoice_id e)"
  using manual_cases [OF m]
proof (elim disjE exE conjE)
  fix r db1 db2 a
  assume ins: "insertDeliveryEventRow db (toDeliveryEventRow (manualDeliveryEvent input)) = Inr db1"
    and mark: "markApprovedInvoiceSentRow db1 (dt_companyId (cm_target input)) (dt_invoiceId (cm_target input))
               (cm_deliveredAt input) = Inr db2" and a: "insertInvoiceAuditEvent db2 a = Inr db'"
    and free: "\<not> hasBlockingDeliveryHistory db (cm_target input)"
  let ?c = "dt_companyId (cm_target input)" and ?i = "dt_invoiceId (cm_target input)"
  have other: "(?c, ?i) \<noteq> (de_company_id e, de_invoice_id e)"
    using unknown_blocks(3) [OF u, of "cm_target input"] free by auto
  obtain n where up: "updateInvoices (\<lambda>row. isInvoice ?c ?i row \<and> iv_status row = ''approved'')
       (\<lambda>row. row\<lparr>iv_status := ''sent'', iv_updated_at := cm_deliveredAt input\<rparr>) db1 = Inr (db2, n)"
    using markApprovedInvoiceSentRow_Inr [OF mark] by blast
  have "undisturbed db1 db' (de_company_id e) (de_invoice_id e)"
    by (rule undisturbed_update [OF up])
      (use up other in \<open>auto simp: insertInvoiceAuditEvent_Inr [OF a] updateInvoices_Inr isInvoice_def\<close>)
  moreover have "undisturbed db db1 (de_company_id e) (de_invoice_id e)"
    using invoiceStatus_insert [OF ins] other
    by (intro insert_undisturbed [OF ins]) (auto simp: toDeliveryEventRow_def manualDeliveryEvent_def)
  ultimately show ?thesis by (blast intro: undisturbed_trans)
qed simp

lemma complete_undisturbed:
  assumes inv: "lifecycleInvariant db" and u: "unknownAt db e"
    and m: "completeReservedInvoiceEmailDelivery db v result' customerSuccess = Inr (db', out)"
  shows "undisturbed db db' (de_company_id e) (de_invoice_id e)"
proof (cases "db' = db")
  case True
  then show ?thesis by simp
next
  case False
  let ?c = "dt_companyId (dv_target v)" and ?i = "dt_invoiceId (dv_target v)"
  from complete_cases [OF m False] obtain event outcome invoice db1 n where
    ev: "find (\<lambda>e. de_company_id e = ?c \<and> de_invoice_id e = ?i \<and> de_id e = dv_eventId v) (lf_deliveryEvents db) = Some event"
      "de_status event = ''attempted''"
    and a: "completeAttemptRow db ?c ?i (dv_eventId v) (setOutcome outcome) = Inr (db1, n)"
    and k: "if customerSuccess \<and> invoice = Some ''approved'' then
       \<exists>k. updateInvoices (\<lambda>row. isInvoice ?c ?i row \<and> iv_status row = ''approved'')
         (\<lambda>row. row\<lparr>iv_status := ''sent'', iv_updated_at := de_created_at event\<rparr>) db1 = Inr (db', k)
     else db' = db1" by blast
  have E: "event \<in> set (lf_deliveryEvents db)" "de_company_id event = ?c" "de_invoice_id event = ?i"
    using ev(1) by (auto simp: find_Some_iff)
  have other: "(?c, ?i) \<noteq> (de_company_id e, de_invoice_id e)"
  proof
    assume same: "(?c, ?i) = (de_company_id e, de_invoice_id e)"
    have ei: "eventsInvariant db" using lifecycleInvariantD(2) [OF inv] .
    have un: "isUnresolvedSmtp ?c ?i x"
      if "x \<in> set (lf_deliveryEvents db)" "isUnresolved (de_status x)" "de_company_id x = ?c" "de_invoice_id x = ?i" for x
      using that ei by (simp add: eventsInvariant_def isUnresolvedSmtp_def)
    have "e = event"
      using ei un [of e] un [OF E(1)] E ev(2) u same
      unfolding eventsInvariant_def by (auto simp: unknownAt_def isUnresolved_def)
    with u ev(2) show False by (simp add: unknownAt_def)
  qed
  have d1: "undisturbed db db1 (de_company_id e) (de_invoice_id e)"
  proof (rule undisturbed_other_delivery)
    show "lf_invoices db1 = lf_invoices db" using a by (simp add: completeAttempt_Inr)
    fix x :: InvoiceDeliveryEventRow
    assume x: "de_company_id x = de_company_id e" "de_invoice_id x = de_invoice_id e"
    then have "\<not> isAttempt ?c ?i (dv_eventId v) x" using other by (auto simp: isAttempt_def)
    moreover have "x \<noteq> setOutcome outcome y" if "isAttempt ?c ?i (dv_eventId v) y" for y
      using that x other by (auto simp: isAttempt_def)
    ultimately show "x \<in> set (lf_deliveryEvents db1) \<longleftrightarrow> x \<in> set (lf_deliveryEvents db)"
      using a by (auto simp: completeAttempt_Inr updateRows_def image_iff)
  qed
  have "undisturbed db1 db' (de_company_id e) (de_invoice_id e)"
  proof (cases "customerSuccess \<and> invoice = Some ''approved''")
    case True
    with k obtain j where up: "updateInvoices (\<lambda>row. isInvoice ?c ?i row \<and> iv_status row = ''approved'')
         (\<lambda>row. row\<lparr>iv_status := ''sent'', iv_updated_at := de_created_at event\<rparr>) db1 = Inr (db', j)" by auto
    show ?thesis
      by (rule undisturbed_update [OF up]) (use up other in \<open>auto simp: updateInvoices_Inr isInvoice_def\<close>)
  qed (use k in auto)
  with d1 show ?thesis by (rule undisturbed_trans)
qed

section \<open>Histories\<close>

lemma unknown_kept: "unknownAt db e \<Longrightarrow> undisturbed db db' (de_company_id e) (de_invoice_id e) \<Longrightarrow> unknownAt db' e"
  unfolding unknownAt_def undisturbed_def by (auto simp: deliveriesOf_set)

lemma serve_undisturbed:
  assumes inv: "lifecycleInvariant db" and u: "unknownAt db e"
  shows "undisturbed db (serve today db request) (de_company_id e) (de_invoice_id e)"
proof -
  let ?c = "de_company_id e" and ?i = "de_invoice_id e"
  have e: "e \<in> set (lf_deliveryEvents db)" using u by (simp add: unknownAt_def)
  obtain r where r: "r \<in> set (lf_invoices db)" "isInvoice ?c ?i r"
    using lifecycleInvariantD(4) [OF inv e] by blast
  then have known: "findInvoice db ?c ?i \<noteq> None"
    using findInvoice_row [OF lifecycleInvariantD(1) [OF inv]] by simp
  note blocked = unknown_blocks(1,2) [OF u]
  show ?thesis
  proof (cases request)
    case (MarkPaid uuid now input)
    then show ?thesis unfolding serve_def
      by (simp, intro newDatabase_undisturbed)
        (use mark_undisturbed markInvoicePaid_runs in blast)
  next
    case (RevertPaid uuid now actor invoiceId)
    then show ?thesis unfolding serve_def
      by (simp, intro newDatabase_undisturbed)
        (use revert_undisturbed revertInvoicePaidMark_runs in blast)
  next
    case (CancelInvoice uuid input)
    then show ?thesis unfolding serve_def
      by (simp, intro newDatabase_undisturbed)
        (use cancel_undisturbed [OF _ blocked(2)] cancelApprovedInvoice_runs in blast)
  next
    case (ReopenInvoice uuid actor c i t)
    then show ?thesis unfolding serve_def
      by (simp, intro newDatabase_undisturbed)
        (use reopen_undisturbed [OF _ blocked(1)] reopenApprovedInvoiceForEditing_runs in blast)
  next
    case (ReserveEmail v texts)
    then show ?thesis unfolding serve_def
      by (simp, intro newDatabase_undisturbed)
        (use reserve_undisturbed [OF _ u] in blast)
  next
    case (CompleteEmail v result')
    then show ?thesis unfolding serve_def
      by (simp, intro newDatabase_undisturbed)
        (use complete_undisturbed [OF inv u] completeInvoiceDeliveryEvent_runs in blast)
  next
    case (CompleteCustomerEmail v i)
    then show ?thesis unfolding serve_def
      by (simp, intro newDatabase_undisturbed)
        (use complete_undisturbed [OF inv u] completeSuccessfulEmailDelivery_runs in blast)
  next
    case (DeliverByHand input)
    then show ?thesis unfolding serve_def
      by (simp, intro newDatabase_undisturbed)
        (use manual_undisturbed [OF _ u] in blast)
  next
    case (RecordDryRun uuid input)
    then show ?thesis unfolding serve_def
      by (simp, intro newDatabase_undisturbed)
        (use dryRun_undisturbed recordInvoiceDeliveryEvent_runs in blast)
  next
    case (StoreApproval c i draft credited number gross now)
    then show ?thesis unfolding serve_def
      using storeApproval_undisturbed [OF _ known] by (auto split: sum.split)
  next
    case (StoreReapproval c draft gross now)
    then show ?thesis unfolding serve_def
      using storeReapproval_undisturbed [OF inv _ blocked(1)] by (auto split: sum.split)
  next
    case (ChangeOtherTables documents revisions current drafts)
    then show ?thesis unfolding serve_def by (auto intro: undisturbed_same)
  qed
qed

lemma serveAll_undisturbed:
  assumes "lifecycleInvariant db" "unknownAt db e"
  shows "undisturbed db (serveAll today db requests) (de_company_id e) (de_invoice_id e) \<and>
    unknownAt (serveAll today db requests) e"
  using assms
proof (induction requests arbitrary: db)
  case Nil
  then show ?case by (simp add: serveAll_def)
next
  case (Cons q qs)
  note one = serve_undisturbed [OF Cons.prems, of today q]
  note ih = Cons.IH [OF serve_invariant [OF Cons.prems(1)] unknown_kept [OF Cons.prems(2) one]]
  then show ?case using undisturbed_trans [OF one] by (simp add: serveAll_def)
qed

end
