(* ===== verification/LifecycleProperties.thy ===== *)
theory LifecycleProperties
  imports UnknownOutcome DraftProperties
begin

text \<open>
  The properties of an invoice's life after its approval, over every history of payments,
  deliveries, corrections and approvals.
\<close>

section \<open>A concrete history\<close>

definition exampleDraftRow :: InvoiceDraftRow where
  "exampleDraftRow =
     \<lparr>dw_id = ''d1'', dw_company_id = ''acme'', dw_invoice_kind = StandardKind,
      dw_credited_invoice_id = None, dw_customer_id = ''c1'', dw_billing_recipient_customer_id = None,
      dw_status = ''draft'', dw_invoice_date = ''2026-01-15'', dw_due_date = ''2026-01-29'',
      dw_payment_term_days = 14, dw_reminder_period_days = 7, dw_late_payment_interest_basis_points = 800,
      dw_price_input_mode = Net, dw_subject = [], dw_order_number = [], dw_note = [],
      dw_delivery_address_text = [], dw_refund_iban = [], dw_tax_treatment = ''standardVat'',
      dw_performance_date = None, dw_performance_period_start = None, dw_performance_period_end = None,
      dw_net_total_cents = 10000, dw_vat_total_cents = 2550, dw_gross_total_cents = 12550,
      dw_created_at = ''t0'', dw_updated_at = ''t0'', dw_approved_invoice_id = Some ''i1'',
      dw_approved_at = Some ''t1''\<rparr>"

definition exampleDrafts :: DraftDatabase where
  "exampleDrafts = emptyDraftDatabase\<lparr>dd_drafts := [exampleDraftRow]\<rparr>"

definition exampleDocument :: InvoiceDocumentRow where
  "exampleDocument =
     \<lparr>do_id = ''doc1'', do_company_id = ''acme'', do_invoice_id = ''i1'',
      do_document_type = ''approved_invoice_pdf'', do_file_name = ''invoice.pdf'',
      do_storage_path = ''id-acme/id-i1/id-doc1/approved-invoice.pdf'', do_mime_type = ''application/pdf'',
      do_sha256 = replicate 64 CHR ''a'', do_size_bytes = 20000, do_created_at = ''t1'',
      do_binding_kind = ''revision'', do_revision_id = Some ''r1'', do_source_document_id = None\<rparr>"

definition exampleTarget :: InvoiceDeliveryTarget where
  "exampleTarget =
     \<lparr>dt_companyId = ''acme'', dt_invoiceId = ''i1'', dt_documentId = ''doc1'',
      dt_sha256 = replicate 64 CHR ''a'', dt_sizeBytes = 20000, dt_binding = RevisionBinding ''r1''\<rparr>"

definition exampleEmailReservation :: InvoiceDeliveryReservation where
  "exampleEmailReservation = \<lparr>dv_eventId = ''e1'', dv_mode = ''customer'', dv_target = exampleTarget\<rparr>"

definition exampleTexts :: ReservedEmailFields where
  "exampleTexts =
     \<lparr>ef_recipientEmail = ''buyer@example.com'', ef_ccEmail = [], ef_subject = ''Invoice 1'',
      ef_bodyPreview = ''Hello'', ef_createdAt = ''t2'', ef_createdBy = ''u1''\<rparr>"

definition exampleReserved :: "LifecycleRequest list" where
  "exampleReserved =
     [StoreApproval ''acme'' ''i1'' ''d1'' None ''1'' 12550 ''t1'',
      ChangeOtherTables [exampleDocument]
        [\<lparr>rr_id = ''r1'', rr_company_id = ''acme'', rr_invoice_id = ''i1'', rr_origin = ''approval'',
          rr_vat_breakdown_state = ''authoritative''\<rparr>]
        [\<lparr>cr_company_id = ''acme'', cr_invoice_id = ''i1'', cr_revision_id = ''r1''\<rparr>] exampleDrafts,
      ReserveEmail exampleEmailReservation exampleTexts]"

definition examplePayment :: MarkInvoicePaidInput where
  "examplePayment =
     \<lparr>mi_actorContext = \<lparr>ac_actorId = ''u1'', ac_authenticationMode = ''localDesktop'',
        ac_companyId = ''acme'', ac_permissions = [''manageInvoicePayments'']\<rparr>,
      mi_invoiceId = ''i1'', mi_paidOn = Some ''2026-01-20''\<rparr>"

definition examplePaid :: "LifecycleRequest list" where
  "examplePaid = exampleReserved @
     [CompleteCustomerEmail exampleEmailReservation (Some ''m1''),
      MarkPaid ''p1'' 1768900000000 examplePayment]"

definition exampleToday :: "int \<Rightarrow> string" where
  "exampleToday now = ''2026-01-20''"

definition exampleAfter :: "LifecycleRequest list \<Rightarrow> LifecycleDatabase" where
  "exampleAfter requests = serveAll exampleToday (emptyLifecycle exampleDrafts) requests"

lemma examplePaid_row:
  "map (\<lambda>r. (iv_id r, iv_company_id r, iv_status r, iv_payment_state r, iv_paid_on r, iv_paid_amount_cents r))
     (lf_invoices (exampleAfter examplePaid)) =
     [(''i1'', ''acme'', ''sent'', ''paid'', Some ''2026-01-20'', Some 12550)]"
  by code_simp

text \<open>The provider's answer did not arrive: the outcome is unknown.\<close>

definition exampleUnknown :: "LifecycleRequest list" where
  "exampleUnknown = exampleReserved @ [CompleteEmail exampleEmailReservation (EmailOutcomeUnknown None None)]"

lemma exampleUnknown_events:
  "map (\<lambda>e. (de_company_id e, de_invoice_id e, de_status e)) (lf_deliveryEvents (exampleAfter exampleUnknown)) =
     [(''acme'', ''i1'', ''outcomeUnknown'')]"
  by code_simp

section \<open>Consequences of the invariant\<close>

lemma creditSource_sent:
  assumes inv: "lifecycleInvariant db" and q: "q \<in> set (lf_invoices db)"
    and c: "iv_credited_invoice_id q = Some (iv_id r)" and r: "r \<in> set (lf_invoices db)"
  shows "iv_status r = ''sent'' \<and> iv_invoice_kind r = ''standard''"
proof -
  from lifecycleInvariantD(6) [OF inv q] c obtain p where p: "p \<in> set (lf_invoices db)" "iv_id p = iv_id r"
      "iv_invoice_kind p = ''standard''" "iv_status p = ''sent''"
    by (auto simp: creditInvariant_def isCreditSource_def isInvoice_def)
  moreover have "p = r"
    using inj_on_eq_iff [OF _ p(1) r, of iv_id] p(2) lifecycleInvariantD(1) [OF inv] by (simp add: distinct_map)
  ultimately show ?thesis by simp
qed

lemma paid_columns:
  assumes "paymentColumnsAccepted r" "iv_payment_state r = ''paid''"
  shows "\<exists>paidOn cents. iv_paid_on r = Some paidOn \<and> iv_paid_amount_cents r = Some cents \<and> 0 < cents"
proof (cases "iv_paid_on r"; cases "iv_paid_amount_cents r"; cases "iv_payment_recorded_at r";
    cases "iv_payment_recorded_by r")
qed (use assms in \<open>simp_all add: paymentColumnsAccepted_def\<close>)

lemma single_unresolved:
  assumes inv: "lifecycleInvariant db"
  shows "length (filter (\<lambda>e. isUnresolved (de_status e)) (deliveriesOf db c i)) \<le> 1"
proof -
  let ?es = "filter (\<lambda>e. isUnresolved (de_status e)) (deliveriesOf db c i)"
  have ei: "eventsInvariant db" using lifecycleInvariantD(2) [OF inv] .
  have un: "e = e'" if "e \<in> set ?es" "e' \<in> set ?es" for e e'
  proof -
    from that have "e \<in> set (lf_deliveryEvents db)" "e' \<in> set (lf_deliveryEvents db)"
      "isUnresolvedSmtp (de_company_id e) (de_invoice_id e) e" "isUnresolvedSmtp (de_company_id e) (de_invoice_id e) e'"
      using ei by (simp_all add: deliveriesOf_set isUnresolvedSmtp_def eventsInvariant_def)
    then show ?thesis using ei unfolding eventsInvariant_def by blast
  qed
  have "distinct ?es"
    using ei by (simp add: eventsInvariant_def deliveriesOf_def distinct_map)
  then have "length ?es = card (set ?es)" by (rule distinct_card [symmetric])
  also have "\<dots> \<le> 1" using un card_le_Suc0_iff_eq [of "set ?es"] by simp
  finally show ?thesis .
qed

section \<open>Status and deliveries\<close>

text \<open>
  C39: After any history of payments, deliveries, corrections and approvals, an invoice is
  sent exactly if an e-mail to the customer or a delivery by hand succeeded; a cancelled
  invoice has no delivery that was attempted, succeeded or is unknown, and a reopened one none
  that is unresolved; a credit was made only of sent invoices; and an invoice has at most one
  delivery that is unresolved.
\<close>

theorem status_tells_deliveries:
  assumes r: "r \<in> set (lf_invoices (serveAll today (emptyLifecycle drafts) requests))"
  shows "(iv_status r = ''sent'' \<longleftrightarrow>
       wasDelivered (serveAll today (emptyLifecycle drafts) requests) r) \<and>
     (iv_status r = ''cancelled'' \<longrightarrow>
       \<not> hasBlockingDeliveryEvent (serveAll today (emptyLifecycle drafts) requests) (iv_company_id r) (iv_id r)) \<and>
     (iv_status r = ''reopened_for_edit'' \<longrightarrow>
       \<not> hasUnresolvedDelivery (serveAll today (emptyLifecycle drafts) requests) (iv_company_id r) (iv_id r)) \<and>
     (\<forall>q \<in> set (lf_invoices (serveAll today (emptyLifecycle drafts) requests)).
       iv_credited_invoice_id q = Some (iv_id r) \<longrightarrow> iv_status r = ''sent'' \<and> iv_invoice_kind r = ''standard'') \<and>
     length (filter (\<lambda>e. isUnresolved (de_status e))
       (deliveriesOf (serveAll today (emptyLifecycle drafts) requests) (iv_company_id r) (iv_id r))) \<le> 1"
proof -
  let ?db = "serveAll today (emptyLifecycle drafts) requests"
  have inv: "lifecycleInvariant ?db" by (rule history_invariant)
  have row: "rowInvariant ?db r" using lifecycleInvariantD(5) [OF inv r] .
  have credit: "iv_status r = ''sent'' \<and> iv_invoice_kind r = ''standard''"
    if "q \<in> set (lf_invoices ?db)" "iv_credited_invoice_id q = Some (iv_id r)" for q
    using creditSource_sent [OF inv that(1) that(2) r] .
  show ?thesis
    using row credit single_unresolved [OF inv] by (auto simp: rowInvariant_def)
qed

theorem status_tells_deliveries_witness:
  "wasDelivered (exampleAfter examplePaid) (hd (lf_invoices (exampleAfter examplePaid)))"
proof -
  have r: "hd (lf_invoices (exampleAfter examplePaid)) \<in> set (lf_invoices (exampleAfter examplePaid))"
    "iv_status (hd (lf_invoices (exampleAfter examplePaid))) = ''sent''"
    using examplePaid_row by (cases "lf_invoices (exampleAfter examplePaid)"; simp)+
  from status_tells_deliveries [OF r(1) [unfolded exampleAfter_def]] r(2) show ?thesis
    by (simp add: exampleAfter_def)
qed

section \<open>Payments\<close>

text \<open>
  C40: After any history, the payment columns of an invoice are what its payment events,
  replayed from the first, lead to: marks and reverts alternate, and a revert names the date and
  amount of the mark it takes back. A paid invoice is a sent standard invoice with a positive
  amount.
\<close>

theorem payments_replay:
  assumes r: "r \<in> set (lf_invoices (serveAll today (emptyLifecycle drafts) requests))"
  shows "replayPayments (serveAll today (emptyLifecycle drafts) requests) (iv_id r) = Some (paymentOf r) \<and>
     (iv_payment_state r = ''paid'' \<longrightarrow> iv_invoice_kind r = ''standard'' \<and> iv_status r = ''sent'' \<and>
       (\<exists>paidOn cents. iv_paid_on r = Some paidOn \<and> iv_paid_amount_cents r = Some cents \<and> 0 < cents))"
  using lifecycleInvariantD(5) [OF history_invariant r] paid_columns [of r]
  by (auto simp: rowInvariant_def invoiceRowAccepted_def)

theorem payments_replay_witness:
  "replayPayments (exampleAfter examplePaid) ''i1'' = Some (Some (''2026-01-20'', 12550))"
proof -
  obtain r where r: "r \<in> set (lf_invoices (exampleAfter examplePaid))" "iv_id r = ''i1''"
    "paymentOf r = Some (''2026-01-20'', 12550)"
    using examplePaid_row by (cases "lf_invoices (exampleAfter examplePaid)") (auto simp: paymentOf_def)
  from payments_replay [OF r(1) [unfolded exampleAfter_def]] r(2,3) show ?thesis
    by (simp add: exampleAfter_def)
qed

section \<open>Unknown outcomes\<close>

text \<open>
  C30: An e-mail delivery whose outcome is unknown is never repeated: whatever is requested
  afterwards, the event stays as it is, the invoice keeps its status (it is neither sent, nor
  delivered by hand, nor cancelled, nor reopened) and gets no further delivery event except dry
  runs.
\<close>

theorem unknown_outcome_is_final:
  assumes "e \<in> set (lf_deliveryEvents (serveAll today (emptyLifecycle drafts) before))"
    and "de_status e = ''outcomeUnknown''"
  shows "e \<in> set (lf_deliveryEvents (serveAll today (serveAll today (emptyLifecycle drafts) before) after)) \<and>
     invoiceStatus (serveAll today (serveAll today (emptyLifecycle drafts) before) after) (de_company_id e) (de_invoice_id e) =
       invoiceStatus (serveAll today (emptyLifecycle drafts) before) (de_company_id e) (de_invoice_id e) \<and>
     (\<forall>d \<in> set (deliveriesOf (serveAll today (serveAll today (emptyLifecycle drafts) before) after)
         (de_company_id e) (de_invoice_id e)).
       d \<in> set (deliveriesOf (serveAll today (emptyLifecycle drafts) before) (de_company_id e) (de_invoice_id e)) \<or>
       de_provider d = ''dryRun'')"
  using serveAll_undisturbed [where e = e, OF history_invariant] assms
  unfolding undisturbed_def unknownAt_def by blast

theorem unknown_outcome_is_final_witness:
  "invoiceStatus (serveAll exampleToday (exampleAfter exampleUnknown)
     [CompleteCustomerEmail exampleEmailReservation (Some ''m1''),
      ReserveEmail (exampleEmailReservation\<lparr>dv_eventId := ''e2''\<rparr>) exampleTexts]) ''acme'' ''i1'' =
     invoiceStatus (exampleAfter exampleUnknown) ''acme'' ''i1''"
proof -
  obtain e where e: "e \<in> set (lf_deliveryEvents (exampleAfter exampleUnknown))"
    "de_company_id e = ''acme''" "de_invoice_id e = ''i1''" "de_status e = ''outcomeUnknown''"
    using exampleUnknown_events by (cases "lf_deliveryEvents (exampleAfter exampleUnknown)") auto
  from unknown_outcome_is_final [OF e(1) [unfolded exampleAfter_def] e(4)] e(2,3) show ?thesis
    unfolding exampleAfter_def by simp
qed

end
