(* ===== verification/Utf8.thy ===== *)
theory Utf8
  imports Main "HOL-Library.Word"
begin

text \<open>
  Strings of the desktop program as JavaScript has them, lists of UTF-16 code units, and the
  two conversions between them and bytes the program uses: \<open>TextEncoder\<close> and
  \<open>TextDecoder('utf-8', { fatal: true })\<close>. The section at the end proves that decoding undoes
  encoding for every well-formed string that does not start with a byte order mark.
\<close>

type_synonym jstring = "16 word list"

definition ascii :: "string \<Rightarrow> jstring" where
  "ascii s = map (\<lambda>c. word_of_nat (of_char c)) s"

definition isHigh :: "nat \<Rightarrow> bool" where
  "isHigh u \<longleftrightarrow> 0xD800 \<le> u \<and> u \<le> 0xDBFF"

definition isLow :: "nat \<Rightarrow> bool" where
  "isLow u \<longleftrightarrow> 0xDC00 \<le> u \<and> u \<le> 0xDFFF"

section \<open>Code points\<close>

text \<open>The iteration of a string (\<open>[...value]\<close>): a surrogate pair is one code point.\<close>

fun codePoints :: "nat list \<Rightarrow> nat list" where
  "codePoints [] = []"
| "codePoints [u] = [u]"
| "codePoints (u # v # us) =
     (if isHigh u \<and> isLow v then (0x10000 + (u - 0xD800) * 0x400 + (v - 0xDC00)) # codePoints us
      else u # codePoints (v # us))"

fun codeUnits :: "nat \<Rightarrow> nat list" where
  "codeUnits n =
     (if n < 0x10000 then [n]
      else [0xD800 + (n - 0x10000) div 0x400, 0xDC00 + (n - 0x10000) mod 0x400])"

text \<open>Strings without unpaired surrogates.\<close>

fun wellFormed :: "nat list \<Rightarrow> bool" where
  "wellFormed [] = True"
| "wellFormed [u] = (\<not> isHigh u \<and> \<not> isLow u)"
| "wellFormed (u # v # us) =
     (if isHigh u then isLow v \<and> wellFormed us else \<not> isLow u \<and> wellFormed (v # us))"

definition scalar :: "nat \<Rightarrow> bool" where
  "scalar n \<longleftrightarrow> n < 0x110000 \<and> \<not> isHigh n \<and> \<not> isLow n"

lemma codeUnits_codePoints: "concat (map codeUnits (codePoints us)) = us"
  if "\<forall>u \<in> set us. u < 0x10000"
  using that
proof (induction us rule: codePoints.induct)
  case (3 u v us)
  show ?case
  proof (cases "isHigh u \<and> isLow v")
    case True
    obtain e f where uv: "u = 0xD800 + e" "v = 0xDC00 + f" and f: "f < 0x400"
      using True by (auto simp: isHigh_def isLow_def le_iff_add)
    have "(e * 0x400 + f) div 0x400 = e" "(e * 0x400 + f) mod 0x400 = f"
      using f by simp_all
    with True 3 show ?thesis
      unfolding uv by simp
  next
    case False
    with 3 show ?thesis by auto
  qed
qed auto

lemma scalar_codePoints:
  assumes "wellFormed us" and "\<forall>u \<in> set us. u < 0x10000"
  shows "\<forall>n \<in> set (codePoints us). scalar n"
  using assms
proof (induction us rule: codePoints.induct)
  case (3 u v us)
  show ?case
  proof (cases "isHigh u")
    case True
    then have low: "isLow v" and us: "wellFormed us" using "3.prems" by auto
    obtain e f where uv: "u = 0xD800 + e" "v = 0xDC00 + f" and ef: "e < 0x400" "f < 0x400"
      using True low by (auto simp: isHigh_def isLow_def le_iff_add)
    then have "(u - 0xD800) * 0x400 + (v - 0xDC00) < 0x100000" by simp
    then have "scalar (0x10000 + (u - 0xD800) * 0x400 + (v - 0xDC00))"
      by (simp add: scalar_def isHigh_def isLow_def)
    moreover have "\<forall>n \<in> set (codePoints us). scalar n" using 3 True low us by auto
    ultimately show ?thesis using True low by simp
  next
    case False
    with 3 show ?thesis by (auto simp: scalar_def)
  qed
qed (auto simp: scalar_def)

section \<open>UTF-8\<close>

definition encodePoint :: "nat \<Rightarrow> nat list" where
  "encodePoint n =
     (if n < 0x80 then [n]
      else if n < 0x800 then [0xC0 + n div 0x40, 0x80 + n mod 0x40]
      else if n < 0x10000 then [0xE0 + n div 0x1000, 0x80 + n div 0x40 mod 0x40, 0x80 + n mod 0x40]
      else [0xF0 + n div 0x40000, 0x80 + n div 0x1000 mod 0x40, 0x80 + n div 0x40 mod 0x40,
            0x80 + n mod 0x40])"

text \<open>The encoder writes the replacement character for an unpaired surrogate.\<close>

definition encodeUtf8 :: "nat list \<Rightarrow> nat list" where
  "encodeUtf8 us =
     concat (map (\<lambda>n. encodePoint (if isHigh n \<or> isLow n then 0xFFFD else n)) (codePoints us))"

definition textEncode :: "jstring \<Rightarrow> 8 word list" where
  "textEncode s = map word_of_nat (encodeUtf8 (map unat s))"

definition trail :: "nat \<Rightarrow> bool" where
  "trail b \<longleftrightarrow> 0x80 \<le> b \<and> b \<le> 0xBF"

text \<open>
  The decoder refuses a byte that cannot start a character, a character with a missing
  trailing byte, a longer form than needed, surrogates and numbers beyond the last plane.
\<close>

fun decodePoints :: "nat list \<Rightarrow> nat list option" where
  "decodePoints [] = Some []"
| "decodePoints (a # bs) =
     (if a < 0x80 then map_option (Cons a) (decodePoints bs)
      else if 0xC0 \<le> a \<and> a < 0xE0 then
        (case bs of
           b # bs' \<Rightarrow>
             let n = (a - 0xC0) * 0x40 + (b - 0x80) in
             if trail b \<and> 0x80 \<le> n then map_option (Cons n) (decodePoints bs') else None
         | _ \<Rightarrow> None)
      else if 0xE0 \<le> a \<and> a < 0xF0 then
        (case bs of
           b # c # bs' \<Rightarrow>
             let n = (a - 0xE0) * 0x1000 + (b - 0x80) * 0x40 + (c - 0x80) in
             if trail b \<and> trail c \<and> 0x800 \<le> n \<and> \<not> isHigh n \<and> \<not> isLow n
             then map_option (Cons n) (decodePoints bs') else None
         | _ \<Rightarrow> None)
      else if 0xF0 \<le> a \<and> a < 0xF8 then
        (case bs of
           b # c # d # bs' \<Rightarrow>
             let n = (a - 0xF0) * 0x40000 + (b - 0x80) * 0x1000 + (c - 0x80) * 0x40 + (d - 0x80) in
             if trail b \<and> trail c \<and> trail d \<and> 0x10000 \<le> n \<and> n < 0x110000
             then map_option (Cons n) (decodePoints bs') else None
         | _ \<Rightarrow> None)
      else None)"

text \<open>A byte order mark in front is not part of the text.\<close>

definition dropByteOrderMark :: "nat list \<Rightarrow> nat list" where
  "dropByteOrderMark ns = (case ns of n # ms \<Rightarrow> if n = 0xFEFF then ms else ns | [] \<Rightarrow> [])"

definition textDecode :: "8 word list \<Rightarrow> jstring option" where
  "textDecode bs =
     map_option (\<lambda>ns. map word_of_nat (concat (map codeUnits (dropByteOrderMark ns))))
       (decodePoints (map unat bs))"

section \<open>Decoding undoes encoding\<close>

lemma encodePoint_bytes: "scalar n \<Longrightarrow> b \<in> set (encodePoint n) \<Longrightarrow> b < 0x100"
  by (auto simp: encodePoint_def scalar_def split: if_splits)

lemma decodePoints_encodePoint:
  assumes "scalar n"
  shows "decodePoints (encodePoint n @ bs) = map_option (Cons n) (decodePoints bs)"
proof -
  define a b c d p q where "a = n mod 0x40" and "b = n div 0x40 mod 0x40"
    and "c = n div 0x1000 mod 0x40" and "d = n div 0x40000"
    and "p = n div 0x40" and "q = n div 0x1000"
  note defs = this
  have low: "a < 0x40" "b < 0x40" "c < 0x40" by (simp_all add: defs)
  have "q = p div 0x40" "d = q div 0x40" by (simp_all add: defs div_mult2_eq [symmetric])
  then have two: "p * 0x40 + a = n" and "q * 0x40 + b = p" and "d * 0x40 + c = q"
    unfolding defs by simp_all
  have pq: "p mod 0x40 = b" "q mod 0x40 = c" by (simp_all add: defs)
  from two \<open>q * 0x40 + b = p\<close> \<open>d * 0x40 + c = q\<close>
  have three: "q * 0x1000 + b * 0x40 + a = n"
    and four: "d * 0x40000 + c * 0x1000 + b * 0x40 + a = n"
    by linarith+
  consider "n < 0x80" | "0x80 \<le> n" "n < 0x800" | "0x800 \<le> n" "n < 0x10000" | "0x10000 \<le> n"
    by linarith
  then show ?thesis
  proof cases
    case 1
    then show ?thesis by (simp add: encodePoint_def)
  next
    case 2
    then show ?thesis
      using two low by (simp add: encodePoint_def trail_def Let_def defs [symmetric])
  next
    case 3
    then show ?thesis
      using three low assms
      by (simp add: encodePoint_def trail_def Let_def scalar_def defs(1,4,5,6) [symmetric] pq)
  next
    case 4
    then show ?thesis
      using four low assms
      by (simp add: encodePoint_def trail_def Let_def scalar_def defs(1,4,5,6) [symmetric] pq)
  qed
qed

lemma decodePoints_encode:
  assumes "\<forall>n \<in> set ns. scalar n"
  shows "decodePoints (concat (map encodePoint ns)) = Some ns"
  using assms by (induction ns) (simp_all add: decodePoints_encodePoint del: decodePoints.simps(2))

theorem textDecode_textEncode:
  assumes "wellFormed (map unat s)" and "\<And>t. s \<noteq> 0xFEFF # t"
  shows "textDecode (textEncode s) = Some s"
proof -
  let ?us = "map unat s"
  let ?ns = "codePoints ?us"
  have small: "\<forall>u \<in> set ?us. u < 0x10000"
    by (auto simp: unsigned_less [where 'b = 16, simplified])
  with assms(1) have scalars: "\<forall>n \<in> set ?ns. scalar n" by (rule scalar_codePoints)
  then have enc: "encodeUtf8 ?us = concat (map encodePoint ?ns)"
    unfolding encodeUtf8_def by (intro arg_cong [where f = concat] map_cong) (auto simp: scalar_def)
  have "\<forall>b \<in> set (encodeUtf8 ?us). b < 2 ^ 8"
    using scalars encodePoint_bytes by (auto simp: enc)
  then have bytes: "map unat (map word_of_nat (encodeUtf8 ?us) :: 8 word list) = encodeUtf8 ?us"
    by (auto simp: unat_of_nat intro!: map_idI)
  have "dropByteOrderMark ?ns = ?ns"
  proof (cases s)
    case (Cons u t)
    then have "unat u \<noteq> 0xFEFF" using assms(2) [of t] by (simp add: word_unat_eq_iff)
    with Cons scalars show ?thesis
      by (cases t) (auto simp: dropByteOrderMark_def isHigh_def isLow_def)
  qed (simp add: dropByteOrderMark_def)
  then have "textDecode (textEncode s) = Some (map word_of_nat (concat (map codeUnits ?ns)))"
    using decodePoints_encode [OF scalars]
    using bytes unfolding textDecode_def textEncode_def by (simp add: enc del: map_map)
  also have "concat (map codeUnits ?ns) = ?us" by (rule codeUnits_codePoints [OF small])
  finally show ?thesis by (simp add: comp_def)
qed
end
