(* ===== verification/JsonText.thy ===== *)
theory JsonText
  imports Utf8 "HOL-Library.AList" JsStrings
begin

text \<open>
  \<open>JSON.parse\<close> and \<open>JSON.stringify\<close> on strings of code units, as far as the desktop program
  uses them: the whole grammar for reading, values with integer numbers for writing. What is
  written is read back unchanged.
\<close>

section \<open>Values\<close>

text \<open>
  The type of numbers is a parameter: a number that is read is its decimal literal, mantissa
  and exponent of ten; a number that is written is a natural number.
\<close>

datatype 'n json =
    JNull
  | JBool bool
  | JNumber 'n
  | JString jstring
  | JArray "'n json list"
  | JObject "(jstring \<times> 'n json) list"

type_synonym literal = "int \<times> int"

abbreviation quoteMark :: "16 word" where "quoteMark \<equiv> 0x22"
abbreviation backslash :: "16 word" where "backslash \<equiv> 0x5C"
abbreviation comma :: "16 word" where "comma \<equiv> 0x2C"
abbreviation colon :: "16 word" where "colon \<equiv> 0x3A"
abbreviation openBrace :: "16 word" where "openBrace \<equiv> 0x7B"
abbreviation closeBrace :: "16 word" where "closeBrace \<equiv> 0x7D"
abbreviation openBracket :: "16 word" where "openBracket \<equiv> 0x5B"
abbreviation closeBracket :: "16 word" where "closeBracket \<equiv> 0x5D"

definition isSpace :: "16 word \<Rightarrow> bool" where
  "isSpace u \<longleftrightarrow> u = 0x20 \<or> u = 0x09 \<or> u = 0x0A \<or> u = 0x0D"

definition skipSpace :: "jstring \<Rightarrow> jstring" where
  "skipSpace s = dropWhile isSpace s"

section \<open>Strings\<close>

definition hexValue :: "16 word \<Rightarrow> nat option" where
  "hexValue u =
     (let n = unat u in
      if 48 \<le> n \<and> n \<le> 57 then Some (n - 48)
      else if 97 \<le> n \<and> n \<le> 102 then Some (n - 87)
      else if 65 \<le> n \<and> n \<le> 70 then Some (n - 55)
      else None)"

definition hexUnit :: "16 word \<Rightarrow> 16 word \<Rightarrow> 16 word \<Rightarrow> 16 word \<Rightarrow> 16 word option" where
  "hexUnit a b c d =
     (case (hexValue a, hexValue b, hexValue c, hexValue d) of
        (Some i, Some j, Some k, Some l) \<Rightarrow> Some (word_of_nat (((i * 16 + j) * 16 + k) * 16 + l))
      | _ \<Rightarrow> None)"

definition escaped :: "16 word \<Rightarrow> 16 word option" where
  "escaped u =
     (if u = quoteMark \<or> u = backslash \<or> u = 0x2F then Some u
      else if u = 0x62 then Some 8
      else if u = 0x66 then Some 12
      else if u = 0x6E then Some 10
      else if u = 0x72 then Some 13
      else if u = 0x74 then Some 9
      else None)"

text \<open>The rest of a string literal after its opening mark: the value, and what follows it.\<close>

fun stringRest :: "jstring \<Rightarrow> (jstring \<times> jstring) option" where
  "stringRest [] = None"
| "stringRest (u # us) =
     (if u = quoteMark then Some ([], us)
      else if u = backslash then
        (case us of
           [] \<Rightarrow> None
         | v # vs \<Rightarrow>
             if v = 0x75 then
               (case vs of
                  a # b # c # d # ws \<Rightarrow>
                    (case hexUnit a b c d of
                       None \<Rightarrow> None
                     | Some w \<Rightarrow> map_option (\<lambda>(s, r). (w # s, r)) (stringRest ws))
                | _ \<Rightarrow> None)
             else
               (case escaped v of
                  None \<Rightarrow> None
                | Some w \<Rightarrow> map_option (\<lambda>(s, r). (w # s, r)) (stringRest vs)))
      else if u < 0x20 then None
      else map_option (\<lambda>(s, r). (u # s, r)) (stringRest us))"

section \<open>Numbers\<close>

definition isDigitUnit :: "16 word \<Rightarrow> bool" where
  "isDigitUnit u \<longleftrightarrow> 48 \<le> u \<and> u \<le> 57"

definition digitsValue :: "jstring \<Rightarrow> int" where
  "digitsValue s = foldl (\<lambda>n u. 10 * n + (int (unat u) - 48)) 0 s"

definition splitDigits :: "jstring \<Rightarrow> jstring \<times> jstring" where
  "splitDigits s = (takeWhile isDigitUnit s, dropWhile isDigitUnit s)"

definition fraction :: "jstring \<Rightarrow> (jstring \<times> jstring) option" where
  "fraction s = (case s of
       u # us \<Rightarrow>
         if u = 0x2E then
           (case splitDigits us of (ds, r) \<Rightarrow> if ds = [] then None else Some (ds, r))
         else Some ([], s)
     | [] \<Rightarrow> Some ([], s))"

definition signed :: "jstring \<Rightarrow> int \<times> jstring" where
  "signed s = (case s of
       u # us \<Rightarrow> if u = 0x2D then (- 1, us) else if u = 0x2B then (1, us) else (1, s)
     | [] \<Rightarrow> (1, s))"

definition exponent :: "jstring \<Rightarrow> (int \<times> jstring) option" where
  "exponent s = (case s of
       u # us \<Rightarrow>
         if u = 0x65 \<or> u = 0x45 then
           (case signed us of (g, vs) \<Rightarrow>
            case splitDigits vs of (ds, r) \<Rightarrow> if ds = [] then None else Some (g * digitsValue ds, r))
         else Some (0, s)
     | [] \<Rightarrow> Some (0, s))"

definition parseNumber :: "jstring \<Rightarrow> (literal \<times> jstring) option" where
  "parseNumber s =
     (case (case s of u # us \<Rightarrow> if u = 0x2D then (- 1, us) else (1, s) | [] \<Rightarrow> (1, s)) of (g, t) \<Rightarrow>
      case splitDigits t of (ds, r) \<Rightarrow>
        if ds = [] \<or> (1 < length ds \<and> hd ds = 48) then None
        else
          (case fraction r of
             None \<Rightarrow> None
           | Some (fs, r') \<Rightarrow>
               (case exponent r' of
                  None \<Rightarrow> None
                | Some (x, r'') \<Rightarrow>
                    Some ((g * digitsValue (ds @ fs), x - int (length fs)), r''))))"

section \<open>Reading\<close>

definition keyword :: "jstring \<Rightarrow> 'v \<Rightarrow> jstring \<Rightarrow> ('v \<times> jstring) option" where
  "keyword k v s = (if take (length k) s = k then Some (v, drop (length k) s) else None)"

text \<open>
  The members of an object are set in order, so that of two with the same name the later one
  stays. Every call of the three parsers starts behind at least one unit the caller has read,
  so the length of the text bounds the depth (\<open>fuel\<close>).
\<close>

fun parseValue :: "nat \<Rightarrow> jstring \<Rightarrow> (literal json \<times> jstring) option"
  and parseMembers :: "nat \<Rightarrow> jstring \<Rightarrow> (jstring \<times> literal json) list
    \<Rightarrow> (literal json \<times> jstring) option"
  and parseElements :: "nat \<Rightarrow> jstring \<Rightarrow> literal json list \<Rightarrow> (literal json \<times> jstring) option"
  where
  "parseValue 0 s = None"
| "parseValue (Suc fuel) s = (case skipSpace s of
       [] \<Rightarrow> None
     | u # us \<Rightarrow>
         if u = openBrace then
           (case skipSpace us of
              [] \<Rightarrow> None
            | v # vs \<Rightarrow> if v = closeBrace then Some (JObject [], vs) else parseMembers fuel us [])
         else if u = openBracket then
           (case skipSpace us of
              [] \<Rightarrow> None
            | v # vs \<Rightarrow> if v = closeBracket then Some (JArray [], vs) else parseElements fuel us [])
         else if u = quoteMark then map_option (map_prod JString id) (stringRest us)
         else if u = 0x74 then keyword (ascii ''true'') (JBool True) (u # us)
         else if u = 0x66 then keyword (ascii ''false'') (JBool False) (u # us)
         else if u = 0x6E then keyword (ascii ''null'') JNull (u # us)
         else map_option (map_prod JNumber id) (parseNumber (u # us)))"
| "parseMembers 0 s kvs = None"
| "parseMembers (Suc fuel) s kvs = (case skipSpace s of
       [] \<Rightarrow> None
     | u # us \<Rightarrow>
         if u \<noteq> quoteMark then None
         else
           (case stringRest us of
              None \<Rightarrow> None
            | Some (k, r) \<Rightarrow>
                (case skipSpace r of
                   [] \<Rightarrow> None
                 | v # vs \<Rightarrow>
                     if v \<noteq> colon then None
                     else
                       (case parseValue fuel vs of
                          None \<Rightarrow> None
                        | Some (j, t) \<Rightarrow>
                            (case skipSpace t of
                               [] \<Rightarrow> None
                             | w # ws \<Rightarrow>
                                 if w = closeBrace then Some (JObject (AList.update k j kvs), ws)
                                 else if w = comma then parseMembers fuel ws (AList.update k j kvs)
                                 else None)))))"
| "parseElements 0 s js = None"
| "parseElements (Suc fuel) s js = (case parseValue fuel s of
       None \<Rightarrow> None
     | Some (j, t) \<Rightarrow>
         (case skipSpace t of
            [] \<Rightarrow> None
          | w # ws \<Rightarrow>
              if w = closeBracket then Some (JArray (js @ [j]), ws)
              else if w = comma then parseElements fuel ws (js @ [j])
              else None))"

definition jsonParse :: "jstring \<Rightarrow> literal json option" where
  "jsonParse s = (case parseValue (2 * length s + 1) s of
       None \<Rightarrow> None
     | Some (j, r) \<Rightarrow> if skipSpace r = [] then Some j else None)"

section \<open>Writing\<close>

definition hexadecimal :: "nat \<Rightarrow> 16 word" where
  "hexadecimal n = word_of_nat (if n < 10 then 48 + n else 87 + n)"

definition unicodeEscape :: "16 word \<Rightarrow> jstring" where
  "unicodeEscape u =
     (let n = unat u in
      [backslash, 0x75, hexadecimal (n div 16 div 16 div 16), hexadecimal (n div 16 div 16 mod 16),
       hexadecimal (n div 16 mod 16), hexadecimal (n mod 16)])"

definition quoteUnit :: "16 word \<Rightarrow> jstring" where
  "quoteUnit u =
     (if u = quoteMark \<or> u = backslash then [backslash, u]
      else if u = 8 then [backslash, 0x62]
      else if u = 9 then [backslash, 0x74]
      else if u = 10 then [backslash, 0x6E]
      else if u = 12 then [backslash, 0x66]
      else if u = 13 then [backslash, 0x72]
      else if u < 0x20 \<or> isHigh (unat u) \<or> isLow (unat u) then unicodeEscape u
      else [u])"

fun quoteUnits :: "jstring \<Rightarrow> jstring" where
  "quoteUnits [] = []"
| "quoteUnits [u] = quoteUnit u"
| "quoteUnits (u # v # us) =
     (if isHigh (unat u) \<and> isLow (unat v) then u # v # quoteUnits us
      else quoteUnit u @ quoteUnits (v # us))"

definition quote :: "jstring \<Rightarrow> jstring" where
  "quote s = quoteMark # quoteUnits s @ [quoteMark]"

fun commaSeparated :: "jstring list \<Rightarrow> jstring" where
  "commaSeparated [] = []"
| "commaSeparated [t] = t"
| "commaSeparated (t # ts) = t @ comma # commaSeparated ts"

text \<open>Integers below \<open>10 ^ 21\<close> are written with all their digits.\<close>

fun jsonText :: "nat json \<Rightarrow> jstring" where
  "jsonText JNull = ascii ''null''"
| "jsonText (JBool b) = (if b then ascii ''true'' else ascii ''false'')"
| "jsonText (JNumber n) = ascii (showNat n)"
| "jsonText (JString s) = quote s"
| "jsonText (JArray js) = openBracket # commaSeparated (map jsonText js) @ [closeBracket]"
| "jsonText (JObject kvs) =
     openBrace # commaSeparated (map (\<lambda>(k, j). quote k @ colon # jsonText j) kvs) @ [closeBrace]"

section \<open>What is written is read back\<close>

lemma hexValue_hexDigit: "n < 16 \<Longrightarrow> hexValue (hexadecimal n) = Some n"
  by (simp add: hexValue_def hexadecimal_def unat_of_nat)

lemma hexUnit_unicode:
  "hexUnit (hexadecimal (n div 16 div 16 div 16)) (hexadecimal (n div 16 div 16 mod 16))
     (hexadecimal (n div 16 mod 16)) (hexadecimal (n mod 16)) = Some u" if "n = unat u"
proof -
  have "unat u < 65536" using unsigned_less [of u, where 'a = nat] by simp
  then have "n div 16 div 16 div 16 < 16" using that by simp
  moreover have "((n div 16 div 16 div 16 * 16 + n div 16 div 16 mod 16) * 16 + n div 16 mod 16) * 16
      + n mod 16 = n" by simp
  ultimately show ?thesis
    using that by (simp add: hexUnit_def hexValue_hexDigit)
qed

lemma stringRest_quoteUnit:
  "stringRest (quoteUnit u @ r) = map_option (\<lambda>(s, t). (u # s, t)) (stringRest r)"
  by (auto simp: quoteUnit_def unicodeEscape_def Let_def escaped_def hexUnit_unicode)

lemma plain_surrogate:
  assumes "isHigh (unat u) \<or> isLow (unat u)"
  shows "u \<noteq> quoteMark" "u \<noteq> backslash" "\<not> u < 0x20"
  using assms by (auto simp: isHigh_def isLow_def word_less_nat_alt)

lemma stringRest_quoteUnits: "stringRest (quoteUnits s @ quoteMark # r) = Some (s, r)"
proof (induction s rule: quoteUnits.induct)
  case (3 u v us)
  then show ?case
    using plain_surrogate [of u] plain_surrogate [of v]
    by (auto simp: stringRest_quoteUnit simp del: stringRest.simps(2))
      (simp_all add: stringRest.simps(2))
qed (simp_all add: stringRest_quoteUnit)

lemma quote_append: "quote s @ r = quoteMark # quoteUnits s @ quoteMark # r"
  by (simp add: quote_def)

text \<open>What may follow a value: the end, a separator, or the final line feed.\<close>

definition ends :: "jstring \<Rightarrow> bool" where
  "ends r \<longleftrightarrow> r = [] \<or> hd r \<in> {comma, closeBrace, closeBracket, 0x0A}"

lemma unat_ascii: "unat (word_of_nat (of_char c) :: 16 word) = of_char c"
proof -
  have "(of_char c :: nat) mod 65536 = of_char c"
    by (rule mod_less) (rule less_trans [OF nat_of_char_less_256], simp)
  then show ?thesis by (simp add: unat_of_nat)
qed

lemma uint_ascii: "uint (word_of_nat (of_char c) :: 16 word) = int (of_char c)"
  using unat_ascii [of c] by (metis int_nat_eq nat_uint_eq uint_ge_0)

lemma isDigitUnit_ascii: "isDigitUnit (word_of_nat (of_char c)) = isDigit c"
  by (simp add: isDigitUnit_def isDigit_def code_def word_le_nat_alt unat_ascii)

lemma digitsValue_ascii: "\<forall>c \<in> set s. isDigit c \<Longrightarrow> digitsValue (ascii s) = int (parseDigits s)"
proof (induction s rule: rev_induct)
  case (snoc c s)
  then show ?case
    by (simp add: digitsValue_def ascii_def parseDigits_def digitValue_def isDigit_def code_def
        of_nat_diff uint_ascii)
qed (simp add: digitsValue_def ascii_def)

lemma splitDigits_ascii:
  assumes "\<forall>c \<in> set s. isDigit c" and "r = [] \<or> \<not> isDigitUnit (hd r)"
  shows "splitDigits (ascii s @ r) = (ascii s, r)"
  using assms by (induction s) (cases r; auto simp: splitDigits_def ascii_def isDigitUnit_ascii)+

lemma parseNumber_showNat:
  assumes "ends r"
  shows "parseNumber (ascii (showNat n) @ r) = Some ((int n, 0), r)"
proof -
  have r: "r = [] \<or> \<not> isDigitUnit (hd r)" "fraction r = Some ([], r)" "exponent r = Some (0, r)"
    using assms by (cases r; auto simp: ends_def isDigitUnit_def fraction_def exponent_def)+
  have split: "splitDigits (ascii (showNat n) @ r) = (ascii (showNat n), r)"
    by (rule splitDigits_ascii [OF digits_showNat r(1)])
  obtain c cs where c: "showNat n = c # cs" "isDigit c"
    using digits_showNat [of n] showNat_nonempty [of n] by (cases "showNat n") auto
  then have sign: "(case ascii (showNat n) @ r of u # us \<Rightarrow> if u = 0x2D then (- 1, us) else (1, ascii (showNat n) @ r)
      | [] \<Rightarrow> (1 :: int, ascii (showNat n) @ r)) = (1, ascii (showNat n) @ r)"
    by (auto simp: ascii_def word_unat_eq_iff unat_ascii isDigit_def code_def)
  have "hd (ascii (showNat n)) \<noteq> 48" if "1 < length (showNat n)"
  proof -
    have "0 < n" using that by (cases n) (auto simp: showNat.simps)
    then have "c \<noteq> CHR ''0''" using hd_showNat [of n] c(1) by simp
    then have "(of_char c :: nat) \<noteq> 48"
      using char_of_eq_iff [of 48 c] by (auto simp: char_of_def bit_simps)
    then show ?thesis using c(1) by (simp add: ascii_def word_unat_eq_iff unat_ascii)
  qed
  moreover have "length (ascii (showNat n)) = length (showNat n)" "ascii (showNat n) \<noteq> []"
    using c(1) by (simp_all add: ascii_def)
  ultimately show ?thesis
    using r(2,3) digitsValue_ascii [OF digits_showNat, of n]
    unfolding parseNumber_def sign by (simp add: split)
qed

definition toLiteral :: "nat json \<Rightarrow> literal json" where
  "toLiteral = map_json (\<lambda>n. (int n, 0))"

text \<open>Objects whose members have different names.\<close>

fun distinctKeys :: "'n json \<Rightarrow> bool" where
  "distinctKeys (JArray js) \<longleftrightarrow> (\<forall>j \<in> set js. distinctKeys j)"
| "distinctKeys (JObject kvs) \<longleftrightarrow> distinct (map fst kvs) \<and> (\<forall>(k, j) \<in> set kvs. distinctKeys j)"
| "distinctKeys _ \<longleftrightarrow> True"

lemma skipSpace_start [simp]: "\<not> isSpace u \<Longrightarrow> skipSpace (u # us) = u # us"
  by (simp add: skipSpace_def)

lemma isSpace_marks [simp]:
  "\<not> isSpace quoteMark" "\<not> isSpace comma" "\<not> isSpace colon" "\<not> isSpace openBrace"
  "\<not> isSpace closeBrace" "\<not> isSpace openBracket" "\<not> isSpace closeBracket"
  by (simp_all add: isSpace_def)

lemma ends_simps [simp]: "ends []" "ends (comma # r)" "ends (closeBrace # r)" "ends (closeBracket # r)"
  by (simp_all add: ends_def)

lemma showNat_start:
  obtains u us where "ascii (showNat n) = u # us" "isDigitUnit u"
  using digits_showNat [of n] showNat_nonempty [of n]
  by (cases "showNat n") (auto simp: ascii_def isDigitUnit_ascii)

lemma digit_start:
  assumes "isDigitUnit u"
  shows "\<not> isSpace u" "u \<noteq> openBrace" "u \<noteq> openBracket" "u \<noteq> quoteMark" "u \<noteq> 0x74" "u \<noteq> 0x66" "u \<noteq> 0x6E"
    "u \<noteq> closeBracket"
  using assms by (auto simp: isDigitUnit_def isSpace_def)

lemma keyword_texts:
  "ascii ''true'' = [0x74, 0x72, 0x75, 0x65]" "ascii ''false'' = [0x66, 0x61, 0x6C, 0x73, 0x65]"
  "ascii ''null'' = [0x6E, 0x75, 0x6C, 0x6C]"
  by (simp_all add: ascii_def)

lemma jsonText_start:
  obtains u us where "jsonText j = u # us" "\<not> isSpace u" "u \<noteq> closeBracket"
proof (cases j)
  case (JNumber n)
  then show ?thesis using showNat_start [of n] digit_start that by (metis jsonText.simps(3))
next
  case (JBool b)
  then show ?thesis using that by (cases b) (auto simp: keyword_texts isSpace_def)
qed (use that in \<open>auto simp: keyword_texts quote_def isSpace_def\<close>)

lemma length_jsonText: "0 < length (jsonText j)"
  by (rule jsonText_start [of j]) simp

lemma parseValue_number:
  assumes "ends r"
  shows "parseValue (Suc fuel) (jsonText (JNumber n) @ r) = Some (toLiteral (JNumber n), r)"
proof -
  obtain u us where u: "ascii (showNat n) = u # us" "isDigitUnit u" by (rule showNat_start)
  show ?thesis
    using parseNumber_showNat [OF assms, of n] digit_start [OF u(2)]
    by (simp add: u(1) toLiteral_def)
qed

lemma parseElements_text:
  assumes "\<And>j fuel r. j \<in> set js \<Longrightarrow> length (jsonText j) \<le> fuel \<Longrightarrow> ends r \<Longrightarrow>
      parseValue fuel (jsonText j @ r) = Some (toLiteral j, r)"
    and "js \<noteq> []" and "length (commaSeparated (map jsonText js)) < fuel"
  shows "parseElements fuel (commaSeparated (map jsonText js) @ closeBracket # r) acc =
    Some (JArray (acc @ map toLiteral js), r)"
  using assms
proof (induction js arbitrary: fuel acc)
  case (Cons j js)
  obtain f where fuel: "fuel = Suc f" using Cons.prems(3) by (cases fuel) auto
  show ?case
  proof (cases js)
    case Nil
    with Cons.prems(1) [of j f "closeBracket # r"] Cons.prems(3) fuel show ?thesis by simp
  next
    case (Cons j' js')
    let ?rest = "commaSeparated (map jsonText js) @ closeBracket # r"
    have "parseValue f (jsonText j @ comma # ?rest) = Some (toLiteral j, comma # ?rest)"
      using Cons.prems(1) [of j f "comma # ?rest"] Cons.prems(3) fuel Cons by simp
    moreover have "parseElements f ?rest (acc @ [toLiteral j]) =
        Some (JArray ((acc @ [toLiteral j]) @ map toLiteral js), r)"
      using Cons.prems fuel Cons by (intro Cons.IH) auto
    ultimately show ?thesis using Cons fuel by simp
  qed
qed simp

lemma update_new: "k \<notin> fst ` set kvs \<Longrightarrow> AList.update k v kvs = kvs @ [(k, v)]"
  by (induction kvs) auto

lemma parseMembers_text:
  assumes "\<And>k j fuel r. (k, j) \<in> set kvs \<Longrightarrow> length (jsonText j) \<le> fuel \<Longrightarrow> ends r \<Longrightarrow>
      parseValue fuel (jsonText j @ r) = Some (toLiteral j, r)"
    and "kvs \<noteq> []" and "distinct (map fst acc @ map fst kvs)"
    and "length (commaSeparated (map (\<lambda>(k, j). quote k @ colon # jsonText j) kvs)) < fuel"
  shows "parseMembers fuel
      (commaSeparated (map (\<lambda>(k, j). quote k @ colon # jsonText j) kvs) @ closeBrace # r) acc =
    Some (JObject (acc @ map (\<lambda>(k, j). (k, toLiteral j)) kvs), r)"
  using assms
proof (induction kvs arbitrary: fuel acc)
  case (Cons p kvs)
  obtain k j where p: "p = (k, j)" by (cases p)
  obtain f where fuel: "fuel = Suc f" using Cons.prems(4) by (cases fuel) auto
  let ?text = "\<lambda>kvs. commaSeparated (map (\<lambda>(k, j). quote k @ colon # jsonText j) kvs)"
  have update: "AList.update k (toLiteral j) acc = acc @ [(k, toLiteral j)]"
    using Cons.prems(3) p by (intro update_new) auto
  show ?case
  proof (cases kvs)
    case Nil
    with Cons.prems(1) [of k j f "closeBrace # r"] Cons.prems(4) fuel p update show ?thesis
      by (simp add: quote_append stringRest_quoteUnits)
  next
    case (Cons q kvs')
    let ?rest = "?text kvs @ closeBrace # r"
    have size: "length (quote k) + length (jsonText j) + 2 + length (?text kvs) \<le> f"
      using Cons.prems(4) fuel Cons p by simp
    have "parseValue f (jsonText j @ comma # ?rest) = Some (toLiteral j, comma # ?rest)"
      using Cons.prems(1) [of k j f "comma # ?rest"] size p by simp
    moreover have "parseMembers f ?rest (acc @ [(k, toLiteral j)]) =
        Some (JObject ((acc @ [(k, toLiteral j)]) @ map (\<lambda>(k, j). (k, toLiteral j)) kvs), r)"
      using Cons.prems(1,3) size p Cons by (intro Cons.IH) auto
    moreover have "?text (p # kvs) @ closeBrace # r =
        quoteMark # quoteUnits k @ quoteMark # colon # jsonText j @ comma # ?rest"
      using Cons p by (simp add: quote_def)
    ultimately show ?thesis
      using fuel p update by (simp add: stringRest_quoteUnits del: commaSeparated.simps)
  qed
qed simp

lemma parseValue_jsonText:
  assumes "distinctKeys j" and "length (jsonText j) \<le> fuel" and "ends r"
  shows "parseValue fuel (jsonText j @ r) = Some (toLiteral j, r)"
  using assms
proof (induction j arbitrary: fuel r)
  case (JArray js)
  obtain f where f: "fuel = Suc f" using JArray.prems(2) by (cases fuel) auto
  show ?case
  proof (cases js)
    case (Cons j' js')
    obtain u us where u: "commaSeparated (map jsonText js) @ closeBracket # r = u # us"
      "\<not> isSpace u" "u \<noteq> closeBracket"
    proof -
      obtain u us where j: "jsonText j' = u # us" "\<not> isSpace u" "u \<noteq> closeBracket"
        by (rule jsonText_start)
      have "\<exists>t. commaSeparated (map jsonText js) = jsonText j' @ t"
        using Cons by (cases js') auto
      with j that show ?thesis by auto
    qed
    have "parseElements f (commaSeparated (map jsonText js) @ closeBracket # r) [] =
        Some (JArray ([] @ map toLiteral js), r)"
      using JArray Cons f by (intro parseElements_text) auto
    then show ?thesis
      using f u by (simp add: toLiteral_def)
  qed (simp add: f toLiteral_def)
next
  case (JObject kvs)
  obtain f where f: "fuel = Suc f" using JObject.prems(2) by (cases fuel) auto
  let ?text = "commaSeparated (map (\<lambda>(k, j). quote k @ colon # jsonText j) kvs)"
  show ?case
  proof (cases kvs)
    case (Cons p kvs')
    obtain us where u: "?text @ closeBrace # r = quoteMark # us"
      using Cons by (cases kvs'; cases p) (auto simp: quote_def)
    have "parseMembers f (?text @ closeBrace # r) [] =
        Some (JObject ([] @ map (\<lambda>(k, j). (k, toLiteral j)) kvs), r)"
    proof (rule parseMembers_text)
      fix k j fuel r
      assume "(k, j) \<in> set kvs" "length (jsonText j) \<le> fuel" "ends r"
      then show "parseValue fuel (jsonText j @ r) = Some (toLiteral j, r)"
        using JObject.IH [of "(k, j)" j fuel r] JObject.prems(1) by auto
    qed (use JObject.prems Cons f in auto)
    then show ?thesis
      using f u by (simp add: toLiteral_def map_prod_def id_def)
  qed (simp add: f toLiteral_def)
next
  case (JNumber n)
  then obtain f where f: "fuel = Suc f" using length_jsonText [of "JNumber n"] by (cases fuel) auto
  show ?case unfolding f by (rule parseValue_number [OF JNumber.prems(3)])
next
  case (JString s)
  then obtain f where "fuel = Suc f" by (cases fuel) (auto simp: quote_def)
  then show ?case
    by (simp add: quote_append stringRest_quoteUnits toLiteral_def)
next
  case (JBool b)
  then obtain f where "fuel = Suc f" by (cases fuel) (auto simp: keyword_texts split: if_splits)
  then show ?case
    by (cases b) (simp_all add: keyword_texts toLiteral_def keyword_def isSpace_def)
next
  case JNull
  then obtain f where "fuel = Suc f" by (cases fuel) (auto simp: keyword_texts)
  then show ?case by (simp add: keyword_texts toLiteral_def keyword_def isSpace_def)
qed

theorem jsonParse_jsonText:
  assumes "distinctKeys j"
  shows "jsonParse (jsonText j @ [0x0A]) = Some (toLiteral j)"
proof -
  have "parseValue (2 * length (jsonText j @ [0x0A]) + 1) (jsonText j @ [0x0A]) =
      Some (toLiteral j, [0x0A])"
    by (rule parseValue_jsonText [OF assms]) (auto simp: ends_def)
  then show ?thesis by (simp add: jsonParse_def skipSpace_def isSpace_def)
qed
end
