(* ===== verification/DuplicateKeys.thy ===== *)
theory DuplicateKeys
  imports JsonText
begin

text \<open>
  The scan that refuses a registry file in which an object names a member twice
  (apps/desktop/src/workspaces/registry/workspaceRegistryDuplicateKeys.ts). The offset of the
  code is the text that is left. The scan ends on every text, and on the text of a JSON value
  it accepts exactly when all objects of the value have distinct names.
\<close>

section \<open>The scan\<close>

datatype scan = Scanned jstring | Rejected | OutOfFuel

definition isJsonDelimiter :: "16 word \<Rightarrow> bool" where
  "isJsonDelimiter u \<longleftrightarrow> isSpace u \<or> u = comma \<or> u = closeBracket \<or> u = closeBrace"

text \<open>The units of a literal up to its closing mark, an escaped unit being passed over.\<close>

fun rawString :: "jstring \<Rightarrow> (jstring \<times> jstring) option" where
  "rawString [] = None"
| "rawString (u # us) =
     (if u = backslash then
        (case us of [] \<Rightarrow> None | v # vs \<Rightarrow> map_option (\<lambda>(t, r). (u # v # t, r)) (rawString vs))
      else if u = quoteMark then Some ([], us)
      else map_option (\<lambda>(t, r). (u # t, r)) (rawString us))"

definition readString :: "jstring \<Rightarrow> (jstring \<times> jstring) option" where
  "readString s = (case s of
       [] \<Rightarrow> None
     | u # us \<Rightarrow>
         if u \<noteq> quoteMark then None
         else
           (case rawString us of
              None \<Rightarrow> None
            | Some (t, r) \<Rightarrow>
                (case jsonParse (quoteMark # t @ [quoteMark]) of
                   Some (JString k) \<Rightarrow> Some (k, r)
                 | _ \<Rightarrow> None)))"

fun scanValue :: "nat \<Rightarrow> jstring \<Rightarrow> scan"
  and scanMembers :: "nat \<Rightarrow> jstring \<Rightarrow> jstring list \<Rightarrow> scan"
  and scanElements :: "nat \<Rightarrow> jstring \<Rightarrow> scan" where
  "scanValue 0 s = OutOfFuel"
| "scanValue (Suc fuel) s = (case skipSpace s of
       [] \<Rightarrow> Rejected
     | u # us \<Rightarrow>
         if u = openBrace then
           (case skipSpace us of
              [] \<Rightarrow> Rejected
            | v # vs \<Rightarrow> if v = closeBrace then Scanned vs else scanMembers fuel (v # vs) [])
         else if u = openBracket then
           (case skipSpace us of
              [] \<Rightarrow> Rejected
            | v # vs \<Rightarrow> if v = closeBracket then Scanned vs else scanElements fuel (v # vs))
         else if u = quoteMark then
           (case readString (u # us) of None \<Rightarrow> Rejected | Some (k, r) \<Rightarrow> Scanned r)
         else if isJsonDelimiter u then Rejected
         else Scanned (dropWhile (\<lambda>v. \<not> isJsonDelimiter v) us))"
| "scanMembers 0 s keys = OutOfFuel"
| "scanMembers (Suc fuel) s keys =
     (case readString (skipSpace s) of
        None \<Rightarrow> Rejected
      | Some (k, r) \<Rightarrow>
          if k \<in> set keys then Rejected
          else
            (case skipSpace r of
               [] \<Rightarrow> Rejected
             | v # vs \<Rightarrow>
                 if v \<noteq> colon then Rejected
                 else
                   (case scanValue fuel vs of
                      Scanned t \<Rightarrow>
                        (case skipSpace t of
                           [] \<Rightarrow> Rejected
                         | w # ws \<Rightarrow>
                             if w = closeBrace then Scanned ws
                             else if w = comma then scanMembers fuel ws (k # keys)
                             else Rejected)
                    | Rejected \<Rightarrow> Rejected
                    | OutOfFuel \<Rightarrow> OutOfFuel)))"
| "scanElements 0 s = OutOfFuel"
| "scanElements (Suc fuel) s =
     (if s = [] then Rejected
      else
        (case scanValue fuel s of
           Scanned t \<Rightarrow>
             (case skipSpace t of
                [] \<Rightarrow> Rejected
              | w # ws \<Rightarrow>
                  if w = closeBracket then Scanned ws
                  else if w = comma then scanElements fuel ws
                  else Rejected)
         | Rejected \<Rightarrow> Rejected
         | OutOfFuel \<Rightarrow> OutOfFuel))"

definition scanFuel :: "jstring \<Rightarrow> nat" where
  "scanFuel s = 2 * length s + 1"

definition noDuplicateKeys :: "jstring \<Rightarrow> bool" where
  "noDuplicateKeys source = (case scanValue (scanFuel source) source of
       Scanned r \<Rightarrow> skipSpace r = []
     | _ \<Rightarrow> False)"

section \<open>The scan ends\<close>

lemma length_skipSpace: "length (skipSpace s) \<le> length s"
  by (simp add: skipSpace_def length_dropWhile_le)

lemma length_skipSpace_Cons: "skipSpace s = u # us \<Longrightarrow> length us < length s"
  using length_skipSpace [of s] by simp

lemma length_rawString: "rawString s = Some (t, r) \<Longrightarrow> length r < length s"
  by (induction s arbitrary: t r rule: rawString.induct)
    (fastforce split: if_splits list.splits)+

lemma length_readString: "readString s = Some (k, r) \<Longrightarrow> length r < length s"
  by (auto simp: readString_def split: list.splits if_splits option.splits json.splits
      dest: length_rawString)

lemma scan_shortens:
  "scanValue fuel s = Scanned r \<Longrightarrow> length r < length s"
  "scanMembers fuel s keys = Scanned r \<Longrightarrow> length r < length s"
  "scanElements fuel s = Scanned r \<Longrightarrow> length r < length s"
proof (induction fuel s and fuel s keys and fuel s arbitrary: r and r and r
    rule: scanValue_scanMembers_scanElements.induct)
  case (2 fuel s)
  show ?case
  proof (cases "skipSpace s")
    case (Cons u us)
    note us = length_skipSpace_Cons [OF Cons]
    have "length (dropWhile p us) < length s" for p
      using length_dropWhile_le [of p us] us by linarith
    then show ?thesis
      using 2 Cons us length_skipSpace_Cons [of us]
      by (fastforce split: if_splits list.splits option.splits dest: length_readString)
  qed (use 2 in simp)
next
  case (4 fuel s keys)
  then obtain k t v vs w ws p where
    "readString (skipSpace s) = Some (k, t)" "k \<notin> set keys" "skipSpace t = v # vs" "v = colon"
    "scanValue fuel vs = Scanned p" "skipSpace p = w # ws"
    "w = closeBrace \<and> r = ws \<or> w \<noteq> closeBrace \<and> w = comma \<and> scanMembers fuel ws (k # keys) = Scanned r"
    by (auto split: if_splits list.splits option.splits scan.splits)
  moreover from this have "length p < length vs" "length vs < length t" "length t < length s"
    "length ws < length p"
    using "4.IH"(1) length_skipSpace_Cons length_readString length_skipSpace [of s]
    by (fastforce intro: less_le_trans)+
  ultimately show ?case using "4.IH"(2) by fastforce
next
  case (6 fuel s)
  then obtain w ws p where
    "s \<noteq> []" "scanValue fuel s = Scanned p" "skipSpace p = w # ws"
    "w = closeBracket \<and> r = ws \<or> w \<noteq> closeBracket \<and> w = comma \<and> scanElements fuel ws = Scanned r"
    by (auto split: if_splits list.splits option.splits scan.splits)
  moreover from this have "length p < length s" "length ws < length p"
    using "6.IH"(1) length_skipSpace_Cons by auto
  ultimately show ?case using "6.IH"(2) by fastforce
qed simp_all

lemma scan_ends:
  "2 * length s < fuel \<Longrightarrow> scanValue fuel s \<noteq> OutOfFuel"
  "2 * length s + 1 < fuel \<Longrightarrow> scanMembers fuel s keys \<noteq> OutOfFuel"
  "2 * length s + 1 < fuel \<Longrightarrow> scanElements fuel s \<noteq> OutOfFuel"
proof (induction fuel s and fuel s keys and fuel s
    rule: scanValue_scanMembers_scanElements.induct)
  case (2 fuel s)
  show ?case
  proof (cases "skipSpace s")
    case (Cons u us)
    note us = length_skipSpace_Cons [OF Cons]
    have "length (v # vs) \<le> length us" if "skipSpace us = v # vs" for v vs
      using length_skipSpace [of us] that by simp
    with 2 Cons us show ?thesis
      by (fastforce split: if_splits list.splits option.splits)
  qed simp
next
  case (4 fuel s keys)
  show ?case
  proof (cases "readString (skipSpace s)")
    case (Some q)
    obtain k t where q: "q = (k, t)" by (cases q)
    have t: "length t < length s"
      using Some q length_readString length_skipSpace [of s] by (fastforce intro: less_le_trans)
    then have vs: "length vs < length s" if "skipSpace t = v # vs" for v vs
      using length_skipSpace_Cons [OF that] by simp
    have ws: "length ws < length vs" if "scanValue fuel vs = Scanned p" "skipSpace p = w # ws" for vs p w ws
      using length_skipSpace_Cons [OF that(2)] scan_shortens(1) [OF that(1)] by simp
    show ?thesis
      using 4 Some q vs ws
      by (fastforce split: if_splits list.splits option.splits scan.splits)
  qed simp
next
  case (6 fuel s)
  have "length ws < length s" if "scanValue fuel s = Scanned p" "skipSpace p = w # ws" for p w ws
    using length_skipSpace_Cons [OF that(2)] scan_shortens(1) [OF that(1)] by simp
  with 6 show ?case
    by (fastforce split: if_splits list.splits option.splits scan.splits)
qed simp_all

text \<open>More fuel changes nothing once the scan ends.\<close>

lemma scan_more_fuel:
  "scanValue fuel s \<noteq> OutOfFuel \<Longrightarrow> scanValue (Suc fuel) s = scanValue fuel s"
  "scanMembers fuel s keys \<noteq> OutOfFuel \<Longrightarrow> scanMembers (Suc fuel) s keys = scanMembers fuel s keys"
  "scanElements fuel s \<noteq> OutOfFuel \<Longrightarrow> scanElements (Suc fuel) s = scanElements fuel s"
proof (induction fuel s and fuel s keys and fuel s
    rule: scanValue_scanMembers_scanElements.induct)
  case (2 fuel s)
  show ?case
  proof (cases "skipSpace s")
    case (Cons u us)
    show ?thesis
    proof (cases "skipSpace us")
      case (Cons v vs)
      with 2 \<open>skipSpace s = u # us\<close> show ?thesis
        unfolding scanValue.simps(2) [of "Suc fuel" s] scanValue.simps(2) [of fuel s]
        by (auto simp del: scanMembers.simps(2) scanElements.simps(2) split: if_splits)
    qed (use Cons in simp)
  qed simp
next
  case (4 fuel s keys)
  show ?case
  proof (cases "readString (skipSpace s)")
    case (Some q)
    obtain k r where q: "q = (k, r)" by (cases q)
    show ?thesis
    proof (cases "skipSpace r")
      case (Cons v vs)
      with 4 Some q show ?thesis
        unfolding scanMembers.simps(2) [of "Suc fuel" s keys] scanMembers.simps(2) [of fuel s keys]
        by (simp del: scanMembers.simps(2) scanValue.simps(2) split: if_splits scan.splits list.splits)
    qed (use Some q in simp)
  qed simp
next
  case (6 fuel s)
  show ?case
  proof (cases "scanValue fuel s")
    case (Scanned t)
    show ?thesis
    proof (cases "skipSpace t")
      case (Cons w ws)
      with 6 Scanned show ?thesis
        unfolding scanElements.simps(2) [of "Suc fuel" s] scanElements.simps(2) [of fuel s]
        by (auto simp del: scanElements.simps(2) scanValue.simps(2) split: if_splits)
    next
      case Nil
      with 6 Scanned show ?thesis by (simp del: scanValue.simps(2))
    qed
  next
    case Rejected
    with 6 show ?thesis by (simp del: scanValue.simps(2))
  next
    case OutOfFuel
    with 6 show ?thesis by (simp del: scanValue.simps(2) split: if_splits)
  qed
qed simp_all

lemma scan_enough: "scanValue (scanFuel s + k) s = scanValue (scanFuel s) s \<and>
    scanValue (scanFuel s + k) s \<noteq> OutOfFuel"
proof (induction k)
  case 0
  then show ?case using scan_ends(1) [of s "scanFuel s"] by (simp add: scanFuel_def)
next
  case (Suc k)
  then show ?case using scan_more_fuel(1) [of "scanFuel s + k" s]
    by (auto simp del: scanValue.simps(2))
qed

section \<open>What the scan accepts\<close>

lemma rawString_quoteUnit:
  "rawString (quoteUnit u @ r) = map_option (\<lambda>(t, q). (quoteUnit u @ t, q)) (rawString r)"
proof -
  have plain: "rawString (h # us) = map_option (\<lambda>(t, q). (h # t, q)) (rawString us)"
    if "h \<noteq> backslash" "h \<noteq> quoteMark" for h us using that by simp
  have esc: "rawString (backslash # v # us) = map_option (\<lambda>(t, q). (backslash # v # t, q)) (rawString us)"
    for v us by simp
  have hex: "hexadecimal n \<noteq> backslash" "hexadecimal n \<noteq> quoteMark" if "n < 16" for n
    using that by (auto simp: hexadecimal_def word_unat_eq_iff unat_of_nat)
  have "unat u < 65536" using unsigned_less [of u, where 'a = nat] by simp
  then have "unat u div 16 div 16 div 16 < 16" by simp
  then have "rawString (unicodeEscape u @ r) = map_option (\<lambda>(t, q). (unicodeEscape u @ t, q)) (rawString r)"
    by (cases "rawString r") (auto simp: unicodeEscape_def Let_def plain esc hex
        simp del: rawString.simps(2))
  then show ?thesis
    by (simp add: quoteUnit_def plain esc del: rawString.simps(2))
qed

lemma rawString_quoteUnits: "rawString (quoteUnits s @ quoteMark # r) = Some (quoteUnits s, r)"
proof (induction s rule: quoteUnits.induct)
  case (3 u v us)
  then show ?case
    using plain_surrogate [of u] plain_surrogate [of v]
    by (auto simp: rawString_quoteUnit simp del: rawString.simps(2)) (simp_all add: rawString.simps(2))
qed (simp_all add: rawString_quoteUnit)

lemma readString_quote: "readString (quoteMark # quoteUnits k @ quoteMark # r) = Some (k, r)"
proof -
  have "parseValue (2 * length (quote k) + 1) (quote k) = Some (JString k, [])"
    using parseValue_jsonText [of "JString k" "2 * length (quote k) + 1" "[]"] by (simp add: toLiteral_def)
  then have "jsonParse (quote k) = Some (JString k)"
    by (simp add: jsonParse_def skipSpace_def)
  then show ?thesis
    by (simp add: readString_def rawString_quoteUnits quote_def)
qed

lemma scalar_text:
  assumes "\<forall>v \<in> set us. \<not> isJsonDelimiter v" and "ends r"
  shows "dropWhile (\<lambda>v. \<not> isJsonDelimiter v) (us @ r) = r"
proof -
  have "dropWhile (\<lambda>v. \<not> isJsonDelimiter v) r = r"
    using assms(2) by (cases r) (auto simp: ends_def isJsonDelimiter_def isSpace_def)
  then show ?thesis using assms(1) by (induction us) auto
qed

lemma scanElements_text:
  assumes "\<And>j fuel r. j \<in> set js \<Longrightarrow> length (jsonText j) \<le> fuel \<Longrightarrow> ends r \<Longrightarrow>
      scanValue fuel (jsonText j @ r) = (if distinctKeys j then Scanned r else Rejected)"
    and "js \<noteq> []" and "length (commaSeparated (map jsonText js)) < fuel"
  shows "scanElements fuel (commaSeparated (map jsonText js) @ closeBracket # r) =
    (if \<forall>j \<in> set js. distinctKeys j then Scanned r else Rejected)"
  using assms
proof (induction js arbitrary: fuel)
  case (Cons j js)
  obtain f where fuel: "fuel = Suc f" using Cons.prems(3) by (cases fuel) auto
  show ?case
  proof (cases js)
    case Nil
    with Cons.prems(1) [of j f "closeBracket # r"] Cons.prems(3) fuel show ?thesis by simp
  next
    case (Cons j' js')
    let ?rest = "commaSeparated (map jsonText js) @ closeBracket # r"
    have "scanValue f (jsonText j @ comma # ?rest) =
        (if distinctKeys j then Scanned (comma # ?rest) else Rejected)"
      using Cons.prems(1) [of j f "comma # ?rest"] Cons.prems(3) fuel Cons by simp
    moreover have "scanElements f ?rest = (if \<forall>j \<in> set js. distinctKeys j then Scanned r else Rejected)"
      using Cons.prems fuel Cons by (intro Cons.IH) auto
    ultimately show ?thesis using Cons fuel by simp
  qed
qed simp

lemma scanMembers_text:
  assumes "\<And>k j fuel r. (k, j) \<in> set kvs \<Longrightarrow> length (jsonText j) \<le> fuel \<Longrightarrow> ends r \<Longrightarrow>
      scanValue fuel (jsonText j @ r) = (if distinctKeys j then Scanned r else Rejected)"
    and "kvs \<noteq> []"
    and "length (commaSeparated (map (\<lambda>(k, j). quote k @ colon # jsonText j) kvs)) < fuel"
  shows "scanMembers fuel
      (commaSeparated (map (\<lambda>(k, j). quote k @ colon # jsonText j) kvs) @ closeBrace # r) keys =
    (if distinct (map fst kvs) \<and> set (map fst kvs) \<inter> set keys = {} \<and> (\<forall>(k, j) \<in> set kvs. distinctKeys j)
     then Scanned r else Rejected)"
  using assms
proof (induction kvs arbitrary: fuel keys)
  case (Cons p kvs)
  obtain k j where p: "p = (k, j)" by (cases p)
  obtain f where fuel: "fuel = Suc f" using Cons.prems(3) by (cases fuel) auto
  let ?text = "\<lambda>kvs. commaSeparated (map (\<lambda>(k, j). quote k @ colon # jsonText j) kvs)"
  show ?case
  proof (cases kvs)
    case Nil
    with Cons.prems(1) [of k j f "closeBrace # r"] Cons.prems(3) fuel p show ?thesis
      by (simp add: quote_append readString_quote)
  next
    case (Cons q kvs')
    let ?rest = "?text kvs @ closeBrace # r"
    have size: "length (quote k) + length (jsonText j) + 2 + length (?text kvs) \<le> f"
      using Cons.prems(3) fuel Cons p by simp
    have "scanValue f (jsonText j @ comma # ?rest) =
        (if distinctKeys j then Scanned (comma # ?rest) else Rejected)"
      using Cons.prems(1) [of k j f "comma # ?rest"] size p by simp
    moreover have "scanMembers f ?rest (k # keys) =
        (if distinct (map fst kvs) \<and> set (map fst kvs) \<inter> set (k # keys) = {} \<and>
            (\<forall>(k, j) \<in> set kvs. distinctKeys j)
         then Scanned r else Rejected)"
    proof (rule Cons.IH)
      fix k j fuel r
      assume "(k, j) \<in> set kvs" "length (jsonText j) \<le> fuel" "ends r"
      then show "scanValue fuel (jsonText j @ r) = (if distinctKeys j then Scanned r else Rejected)"
        by (intro Cons.prems(1) [of k]) simp_all
    qed (use size p Cons in auto)
    moreover have "?text (p # kvs) @ closeBrace # r =
        quoteMark # quoteUnits k @ quoteMark # colon # jsonText j @ comma # ?rest"
      using Cons p by (simp add: quote_def)
    ultimately show ?thesis
      using fuel p by (auto simp: readString_quote simp del: commaSeparated.simps)
  qed
qed simp

lemma scanValue_jsonText:
  assumes "length (jsonText j) \<le> fuel" and "ends r"
  shows "scanValue fuel (jsonText j @ r) = (if distinctKeys j then Scanned r else Rejected)"
  using assms
proof (induction j arbitrary: fuel r)
  case (JArray js)
  obtain f where f: "fuel = Suc f" using JArray.prems(1) by (cases fuel) auto
  show ?case
  proof (cases js)
    case (Cons j' js')
    obtain u us where u: "commaSeparated (map jsonText js) @ closeBracket # r = u # us"
      "\<not> isSpace u" "u \<noteq> closeBracket"
    proof -
      obtain u us where j: "jsonText j' = u # us" "\<not> isSpace u" "u \<noteq> closeBracket"
        by (rule jsonText_start)
      have "\<exists>t. commaSeparated (map jsonText js) = jsonText j' @ t"
        using Cons by (cases js') auto
      with j that show ?thesis by auto
    qed
    have "scanElements f (commaSeparated (map jsonText js) @ closeBracket # r) =
        (if \<forall>j \<in> set js. distinctKeys j then Scanned r else Rejected)"
      using JArray Cons f by (intro scanElements_text) auto
    then show ?thesis using f u by simp
  qed (simp add: f)
next
  case (JObject kvs)
  obtain f where f: "fuel = Suc f" using JObject.prems(1) by (cases fuel) auto
  let ?text = "commaSeparated (map (\<lambda>(k, j). quote k @ colon # jsonText j) kvs)"
  show ?case
  proof (cases kvs)
    case (Cons p kvs')
    obtain us where u: "?text @ closeBrace # r = quoteMark # us"
      using Cons by (cases kvs'; cases p) (auto simp: quote_def)
    have "scanMembers f (?text @ closeBrace # r) [] =
        (if distinct (map fst kvs) \<and> set (map fst kvs) \<inter> set [] = {} \<and>
            (\<forall>(k, j) \<in> set kvs. distinctKeys j)
         then Scanned r else Rejected)"
    proof (rule scanMembers_text)
      fix k j fuel r
      assume "(k, j) \<in> set kvs" "length (jsonText j) \<le> fuel" "ends r"
      then show "scanValue fuel (jsonText j @ r) = (if distinctKeys j then Scanned r else Rejected)"
        using JObject.IH [of "(k, j)" j fuel r] by auto
    qed (use JObject.prems Cons f in auto)
    then show ?thesis using f u by simp
  qed (simp add: f)
next
  case (JNumber n)
  then obtain f where f: "fuel = Suc f" using length_jsonText [of "JNumber n"] by (cases fuel) auto
  have digits: "\<forall>v \<in> set (ascii (showNat n)). isDigitUnit v"
    using digits_showNat [of n] by (auto simp: ascii_def isDigitUnit_ascii)
  have delimiter: "\<not> isJsonDelimiter v" if "isDigitUnit v" for v
    using that by (auto simp: isDigitUnit_def isJsonDelimiter_def isSpace_def)
  obtain u us where u: "ascii (showNat n) = u # us" "isDigitUnit u" by (rule showNat_start)
  have "dropWhile (\<lambda>v. \<not> isJsonDelimiter v) (us @ r) = r"
    using digits delimiter u(1) JNumber.prems(2) by (intro scalar_text) auto
  then show ?case using f u digit_start [OF u(2)] delimiter [OF u(2)] by simp
next
  case (JString s)
  then obtain f where "fuel = Suc f" by (cases fuel) (auto simp: quote_def)
  then show ?case by (simp add: quote_append readString_quote)
next
  case (JBool b)
  then obtain f where f: "fuel = Suc f" by (cases fuel) (auto simp: keyword_texts split: if_splits)
  have "dropWhile (\<lambda>v. \<not> isJsonDelimiter v) ([0x72, 0x75, 0x65] @ r) = r"
    "dropWhile (\<lambda>v. \<not> isJsonDelimiter v) ([0x61, 0x6C, 0x73, 0x65] @ r) = r"
    using JBool.prems(2) by (intro scalar_text; simp add: isJsonDelimiter_def isSpace_def)+
  then show ?case
    by (cases b) (simp_all add: f keyword_texts isSpace_def isJsonDelimiter_def)
next
  case JNull
  then obtain f where f: "fuel = Suc f" by (cases fuel) (auto simp: keyword_texts)
  have "dropWhile (\<lambda>v. \<not> isJsonDelimiter v) ([0x75, 0x6C, 0x6C] @ r) = r"
    using JNull.prems(2) by (intro scalar_text; simp add: isJsonDelimiter_def isSpace_def)
  then show ?case by (simp add: f keyword_texts isSpace_def isJsonDelimiter_def)
qed

theorem noDuplicateKeys_jsonText: "noDuplicateKeys (jsonText j @ [0x0A]) \<longleftrightarrow> distinctKeys j"
proof -
  have "scanValue (scanFuel (jsonText j @ [0x0A])) (jsonText j @ [0x0A]) =
      (if distinctKeys j then Scanned [0x0A] else Rejected)"
    by (rule scanValue_jsonText) (auto simp: ends_def scanFuel_def)
  then show ?thesis by (simp add: noDuplicateKeys_def skipSpace_def isSpace_def)
qed
end
