(* ===== verification/FileSlots.thy ===== *)
theory FileSlots
  imports Main "HOL-Library.Word"
begin

text \<open>
  The files the desktop program keeps its own state in
  (apps/desktop/src/workspaces/persistence/crashSafeFileSlot.ts): three slots of one
  directory, the calls the program makes on them, and what can go wrong during each.

  A run of the program is given the fate of each of its calls in advance. The calls change
  a disk that also remembers what a power failure may bring back: the directory states since
  the directory was last flushed, and which files have been flushed. The last section holds
  the rules for reasoning about every run at once: what holds when it returns, when it throws
  and when the process dies in the middle.
\<close>

section \<open>Slots, failures and the disk\<close>

datatype slot = Current | Next | Backup

datatype slot_failure = Invalid | Unavailable

datatype desktop_error =
    CrashSafeFileSlotError slot_failure
  | CrashSafeByteSlotStoreError
  | WorkspaceRegistryValidationError
  | WorkspaceRegistryStoreError string
  | WorkspaceRegistryMutationError string

type_synonym bytes = "8 word list"

type_synonym directory = "slot \<Rightarrow> nat option"

text \<open>
  A directory maps each slot to the number of the file that has its name. \<open>dk_past\<close> are the
  earlier states of the directory that the disk may still show after a power failure, oldest
  first (directory changes reach the disk in order); \<open>dk_flushed\<close> tells which files have
  their content on the disk; \<open>dk_open\<close> is the file the open writer writes to; \<open>dk_fresh\<close> is
  the number the next new file gets. The directory itself, once made, is there to stay.
\<close>

record disk =
  dk_windows :: bool
  dk_ready :: bool
  dk_dir :: directory
  dk_past :: "directory list"
  dk_bytes :: "nat \<Rightarrow> bytes"
  dk_flushed :: "nat \<Rightarrow> bool"
  dk_open :: "nat option"
  dk_fresh :: nat

definition emptyDisk :: "bool \<Rightarrow> disk" where
  "emptyDisk windows = \<lparr>dk_windows = windows, dk_ready = False, dk_dir = (\<lambda>_. None), dk_past = [],
     dk_bytes = (\<lambda>_. []), dk_flushed = (\<lambda>_. False), dk_open = None, dk_fresh = 0\<rparr>"

definition changeDirectory :: "directory \<Rightarrow> disk \<Rightarrow> disk" where
  "changeDirectory D d = d\<lparr>dk_past := dk_past d @ [dk_dir d], dk_dir := D\<rparr>"

text \<open>
  What is left after the process was killed, and after a power failure: the directory is one
  of its states since the last flush, and a file that was not flushed holds anything.
\<close>

definition restart :: "disk \<Rightarrow> disk" where
  "restart d = d\<lparr>dk_open := None\<rparr>"

definition powerFailure :: "nat \<Rightarrow> (nat \<Rightarrow> bytes) \<Rightarrow> disk \<Rightarrow> disk" where
  "powerFailure k garbage d =
     d\<lparr>dk_dir := (dk_past d @ [dk_dir d]) ! min k (length (dk_past d)), dk_past := [],
       dk_bytes := (\<lambda>i. if dk_flushed d i then dk_bytes d i else garbage i),
       dk_flushed := (\<lambda>_. True), dk_open := None\<rparr>"

section \<open>Calls and their fates\<close>

text \<open>
  A call works, fails before or after it has taken effect, or the process dies before or
  after it has; a write may also store only the first bytes.
\<close>

datatype fate =
    Works
  | Fails slot_failure
  | FailsAfter slot_failure
  | Dies
  | DiesAfter
  | Cuts nat
  | DiesCutting nat

type_synonym world = "disk \<times> fate list"

datatype 'a outcome = Returned 'a | Threw desktop_error | Died

type_synonym 'a io = "world \<Rightarrow> 'a outcome \<times> world"

definition returnIO :: "'a \<Rightarrow> 'a io" where
  "returnIO x = (\<lambda>w. (Returned x, w))"

definition throwIO :: "desktop_error \<Rightarrow> 'a io" where
  "throwIO e = (\<lambda>w. (Threw e, w))"

definition bindIO :: "'a io \<Rightarrow> ('a \<Rightarrow> 'b io) \<Rightarrow> 'b io" where
  "bindIO m k = (\<lambda>w. case m w of
       (Returned x, w') \<Rightarrow> k x w'
     | (Threw e, w') \<Rightarrow> (Threw e, w')
     | (Died, w') \<Rightarrow> (Died, w'))"

definition thenIO :: "'a io \<Rightarrow> 'b io \<Rightarrow> 'b io" where
  "thenIO m k = bindIO m (\<lambda>_. k)"

text \<open>A catch clause; a dead process does not run it.\<close>

definition catchIO :: "'a io \<Rightarrow> (desktop_error \<Rightarrow> 'a io) \<Rightarrow> 'a io" where
  "catchIO m h = (\<lambda>w. case m w of
       (Threw e, w') \<Rightarrow> h e w'
     | r \<Rightarrow> r)"

definition liftIO :: "desktop_error + 'a \<Rightarrow> 'a io" where
  "liftIO r = (case r of Inl e \<Rightarrow> throwIO e | Inr x \<Rightarrow> returnIO x)"

text \<open>
  \<open>call\<close> runs one call under the next fate; with no fate left every call works. The function
  gives what the call answers and the disk after it, the disk being unchanged when it refuses.
\<close>

definition answer :: "(slot_failure + 'a) \<times> disk \<Rightarrow> fate list \<Rightarrow> 'a outcome \<times> world" where
  "answer r fs = (case r of
       (Inl f, d) \<Rightarrow> (Threw (CrashSafeFileSlotError f), (d, fs))
     | (Inr x, d) \<Rightarrow> (Returned x, (d, fs)))"

fun call :: "(disk \<Rightarrow> (slot_failure + 'a) \<times> disk) \<Rightarrow> 'a io" where
  "call f (d, []) = answer (f d) []"
| "call f (d, Fails e # fs) = (Threw (CrashSafeFileSlotError e), (d, fs))"
| "call f (d, FailsAfter e # fs) = (Threw (CrashSafeFileSlotError e), (snd (f d), fs))"
| "call f (d, Dies # fs) = (Died, (d, fs))"
| "call f (d, DiesAfter # fs) = (Died, (snd (f d), fs))"
| "call f (d, DiesCutting n # fs) = (Died, (snd (f d), fs))"
| "call f (d, Cuts n # fs) = answer (f d) fs"
| "call f (d, Works # fs) = answer (f d) fs"

declare call.simps [simp del]

section \<open>The calls\<close>

text \<open>
  The calls as the Node file system answers them: a file must have between one and the
  allowed number of bytes to be read, a new file must not exist yet, a rename needs its
  source and does not overwrite. Checks of the surroundings (a symbolic link, a directory
  with the wrong mode, an unreadable disk) are \<open>Fails\<close> fates.
\<close>

definition prepareDirectory :: "unit io" where
  "prepareDirectory = call (\<lambda>d. (Inr (), d\<lparr>dk_ready := True\<rparr>))"

definition readSlot :: "nat \<Rightarrow> slot \<Rightarrow> bytes option io" where
  "readSlot maximumBytes s = call (\<lambda>d.
     (if \<not> dk_ready d then Inr None
      else case dk_dir d s of
          None \<Rightarrow> Inr None
        | Some i \<Rightarrow>
            if length (dk_bytes d i) < 1 \<or> maximumBytes < length (dk_bytes d i) then Inl Invalid
            else Inr (Some (dk_bytes d i)),
      d))"

definition createFile :: "disk \<Rightarrow> (slot_failure + nat) \<times> disk" where
  "createFile d =
     (if \<not> dk_ready d \<or> dk_dir d Next \<noteq> None then (Inl Unavailable, d)
      else (Inr (dk_fresh d),
        (changeDirectory ((dk_dir d)(Next := Some (dk_fresh d))) d)
          \<lparr>dk_bytes := (dk_bytes d)(dk_fresh d := []),
           dk_flushed := (dk_flushed d)(dk_fresh d := False),
           dk_fresh := dk_fresh d + 1\<rparr>))"

definition openWriter :: "nat \<Rightarrow> nat io" where
  "openWriter i = (\<lambda>(d, fs). (Returned i, (d\<lparr>dk_open := Some i\<rparr>, fs)))"

definition createNextWriter :: "nat io" where
  "createNextWriter = bindIO (call createFile) openWriter"

definition assertOpen :: "nat \<Rightarrow> unit io" where
  "assertOpen i = (\<lambda>(d, fs).
     if dk_open d = Some i then (Returned (), (d, fs))
     else (Threw (CrashSafeFileSlotError Unavailable), (d, fs)))"

text \<open>A write starts at the first byte of the file and leaves what lies behind its last.\<close>

definition storeBytes :: "nat \<Rightarrow> bytes \<Rightarrow> disk \<Rightarrow> disk" where
  "storeBytes i bs d =
     d\<lparr>dk_bytes := (dk_bytes d)(i := bs @ drop (length bs) (dk_bytes d i)),
       dk_flushed := (dk_flushed d)(i := False)\<rparr>"

definition writeFile :: "nat \<Rightarrow> bytes \<Rightarrow> nat io" where
  "writeFile i bs = (\<lambda>(d, fs). case fs of
       Cuts n # fs' \<Rightarrow> (Returned (length (take n bs)), (storeBytes i (take n bs) d, fs'))
     | DiesCutting n # fs' \<Rightarrow> (Died, (storeBytes i (take n bs) d, fs'))
     | _ \<Rightarrow> call (\<lambda>d. (Inr (length bs), storeBytes i bs d)) (d, fs))"

definition writerWrite :: "nat \<Rightarrow> bytes \<Rightarrow> nat io" where
  "writerWrite i bs = thenIO (assertOpen i) (writeFile i bs)"

definition writerSync :: "nat \<Rightarrow> unit io" where
  "writerSync i = thenIO (assertOpen i)
     (call (\<lambda>d. (Inr (), d\<lparr>dk_flushed := (dk_flushed d)(i := True)\<rparr>)))"

definition writerClose :: "nat \<Rightarrow> unit io" where
  "writerClose i = (\<lambda>(d, fs).
     if dk_open d = Some i then call (\<lambda>d. (Inr (), d)) (d\<lparr>dk_open := None\<rparr>, fs)
     else (Returned (), (d, fs)))"

definition moveSlot :: "slot \<Rightarrow> slot \<Rightarrow> unit io" where
  "moveSlot source destination = call (\<lambda>d.
     if \<not> dk_ready d \<or> dk_dir d source = None \<or> dk_dir d destination \<noteq> None
     then (Inl Unavailable, d)
     else (Inr (),
       changeDirectory ((dk_dir d)(destination := dk_dir d source, source := None)) d))"

definition removeSlot :: "slot \<Rightarrow> bool io" where
  "removeSlot s = call (\<lambda>d.
     if \<not> dk_ready d \<or> dk_dir d s = None then (Inr False, d)
     else (Inr True, changeDirectory ((dk_dir d)(s := None)) d))"

definition syncDirectory :: "unit io" where
  "syncDirectory = (\<lambda>(d, fs).
     if dk_windows d then (Returned (), (d, fs))
     else call (\<lambda>d. if \<not> dk_ready d then (Inl Unavailable, d)
                     else (Inr (), d\<lparr>dk_past := []\<rparr>)) (d, fs))"

section \<open>Reasoning about every run\<close>

text \<open>
  \<open>runs P m Q E C\<close>: from a disk with P, whatever the fates, m returns with Q, throws with E
  or dies with C.
\<close>

definition runs :: "(disk \<Rightarrow> bool) \<Rightarrow> 'a io \<Rightarrow> ('a \<Rightarrow> disk \<Rightarrow> bool) \<Rightarrow> (disk \<Rightarrow> bool)
    \<Rightarrow> (disk \<Rightarrow> bool) \<Rightarrow> bool" where
  "runs P m Q E C \<longleftrightarrow> (\<forall>d fs. P d \<longrightarrow> (case m (d, fs) of
       (Returned x, (d', _)) \<Rightarrow> Q x d'
     | (Threw _, (d', _)) \<Rightarrow> E d'
     | (Died, (d', _)) \<Rightarrow> C d'))"

lemma runsD:
  assumes "runs P m Q E C" and "P d"
  shows "m (d, fs) = (Returned x, (d', fs')) \<Longrightarrow> Q x d'"
    and "m (d, fs) = (Threw e, (d', fs')) \<Longrightarrow> E d'"
    and "m (d, fs) = (Died, (d', fs')) \<Longrightarrow> C d'"
  using assms(1) [unfolded runs_def, rule_format, OF assms(2), of fs] by simp_all

lemma runs_weaken:
  assumes "runs P m Q E C"
    and "\<And>d. P' d \<Longrightarrow> P d" "\<And>x d. Q x d \<Longrightarrow> Q' x d" "\<And>d. E d \<Longrightarrow> E' d" "\<And>d. C d \<Longrightarrow> C' d"
  shows "runs P' m Q' E' C'"
  using assms unfolding runs_def by (fastforce split: prod.splits outcome.splits)

lemma runs_conj:
  assumes "runs P m Q E C" and "runs P' m Q' E' C'"
  shows "runs (\<lambda>d. P d \<and> P' d) m (\<lambda>x d. Q x d \<and> Q' x d) (\<lambda>d. E d \<and> E' d) (\<lambda>d. C d \<and> C' d)"
  unfolding runs_def
proof (intro allI impI)
  fix d fs assume d: "P d \<and> P' d"
  obtain r d' fs' where "m (d, fs) = (r, (d', fs'))" by (metis surj_pair)
  with runsD [OF assms(1), of d] runsD [OF assms(2), of d] d
  show "case m (d, fs) of (Returned x, (d', _)) \<Rightarrow> Q x d' \<and> Q' x d'
      | (Threw _, (d', _)) \<Rightarrow> E d' \<and> E' d' | (Died, (d', _)) \<Rightarrow> C d' \<and> C' d'"
    by (cases r) auto
qed

lemma runs_return: "(\<And>d. P d \<Longrightarrow> Q x d) \<Longrightarrow> runs P (returnIO x) Q E C"
  by (simp add: runs_def returnIO_def)

lemma runs_throw: "(\<And>d. P d \<Longrightarrow> E d) \<Longrightarrow> runs P (throwIO e) Q E C"
  by (simp add: runs_def throwIO_def)

lemma runs_bind:
  assumes "runs P m R E C" and "\<And>x. runs (R x) (k x) Q E C"
  shows "runs P (bindIO m k) Q E C"
  using assms unfolding runs_def bindIO_def by (fastforce split: prod.splits outcome.splits)

lemma runs_then:
  assumes "runs P m (\<lambda>_. R) E C" and "runs R k Q E C"
  shows "runs P (thenIO m k) Q E C"
  unfolding thenIO_def by (rule runs_bind [OF assms(1)]) (rule assms(2))

lemma runs_catch:
  assumes "runs P m Q E' C" and "\<And>e. runs E' (h e) Q E C"
  shows "runs P (catchIO m h) Q E C"
  using assms unfolding runs_def catchIO_def by (fastforce split: prod.splits outcome.splits)

lemma runs_if:
  assumes "b \<Longrightarrow> runs P m Q E C" and "\<not> b \<Longrightarrow> runs P k Q E C"
  shows "runs P (if b then m else k) Q E C"
  using assms by simp

lemma runs_lift:
  assumes "\<And>x d. r = Inr x \<Longrightarrow> P d \<Longrightarrow> Q x d" and "\<And>e d. r = Inl e \<Longrightarrow> P d \<Longrightarrow> E d"
  shows "runs P (liftIO r) Q E C"
  using assms by (cases r) (auto simp: liftIO_def intro: runs_return runs_throw)

text \<open>
  A call: what it answers must establish Q, and the disk before it and the disk it leaves
  are the two a failure or a death may leave.
\<close>

lemma runs_call:
  assumes "\<And>d. P d \<Longrightarrow> E d \<and> C d"
    and "\<And>d. P d \<Longrightarrow> case f d of (Inr x, d') \<Rightarrow> Q x d' \<and> E d' \<and> C d' | (Inl _, d') \<Rightarrow> E d' \<and> C d'"
  shows "runs P (call f) Q E C"
  unfolding runs_def
proof (intro allI impI)
  fix d fs
  assume P: "P d"
  obtain r d' where f: "f d = (r, d')" by fastforce
  show "case call f (d, fs) of (Returned x, (d', _)) \<Rightarrow> Q x d' | (Threw _, (d', _)) \<Rightarrow> E d'
      | (Died, (d', _)) \<Rightarrow> C d'"
    using assms(1) [OF P] assms(2) [OF P] f
    by (cases "(f, (d, fs))" rule: call.cases) (auto simp: answer_def call.simps split: sum.splits)
qed
end
