(* ===== verification/WorkspaceRegistry.thy ===== *)
theory WorkspaceRegistry
  imports DuplicateKeys FileSlots JsDate Prelude
begin

text \<open>
  The registry of local workspaces (apps/desktop/src/workspaces/registry): its types
  (workspaceRegistryTypes.ts), the validation of a value read from outside
  (workspaceRegistryValidation.ts and the files for identifiers, labels, lineages and time
  stamps), and its bytes (workspaceRegistryBytes.ts, workspaceRegistrySerializer.ts). What is
  written is read back.
\<close>

section \<open>Types\<close>

datatype workspace_lifecycle = WorkspaceReady | WorkspaceRecoveryRequired

text \<open>The fields that have one possible value only (layout and lineage version 1) are left out.\<close>

record workspace_entry =
  we_workspaceId :: jstring
  we_workspaceLabel :: jstring
  we_profileId :: jstring
  we_lifecycleState :: workspace_lifecycle
  we_createdAt :: jstring

record workspace_registry =
  wr_formatVersion :: nat
  wr_activeWorkspaceId :: "jstring option"
  wr_workspaces :: "workspace_entry list"

definition workspaceRegistryInvalid :: "desktop_error + 'a" where
  "workspaceRegistryInvalid = Inl WorkspaceRegistryValidationError"

section \<open>Identifiers, labels, time stamps\<close>

definition lowerHex :: "16 word \<Rightarrow> bool" where
  "lowerHex u \<longleftrightarrow> isDigitUnit u \<or> (97 \<le> u \<and> u \<le> 102)"

definition fits :: "('a \<Rightarrow> bool) list \<Rightarrow> 'a list \<Rightarrow> bool" where
  "fits ps us \<longleftrightarrow> list_all2 (\<lambda>p u. p u) ps us"

definition dashUnit :: "16 word \<Rightarrow> bool" where
  "dashUnit u \<longleftrightarrow> u = 0x2D"

definition canonicalWorkspaceIdPattern :: "(16 word \<Rightarrow> bool) list" where
  "canonicalWorkspaceIdPattern =
     replicate 8 lowerHex @ [dashUnit] @ replicate 4 lowerHex @ [dashUnit] @
     [\<lambda>u. u = 0x34] @ replicate 3 lowerHex @ [dashUnit] @
     [\<lambda>u. u = 0x38 \<or> u = 0x39 \<or> u = 0x61 \<or> u = 0x62] @ replicate 3 lowerHex @ [dashUnit] @
     replicate 12 lowerHex"

definition validateWorkspaceId :: "literal json \<Rightarrow> desktop_error + jstring" where
  "validateWorkspaceId v = (case v of
       JString s \<Rightarrow> if fits canonicalWorkspaceIdPattern s then Inr s else workspaceRegistryInvalid
     | _ \<Rightarrow> workspaceRegistryInvalid)"

definition profileIdPattern :: "(16 word \<Rightarrow> bool) list" where
  "profileIdPattern = replicate 64 lowerHex"

text \<open>The white space \<open>trim\<close> removes.\<close>

definition isTrimmed :: "16 word \<Rightarrow> bool" where
  "isTrimmed u \<longleftrightarrow> u \<in> {0x09, 0x0A, 0x0B, 0x0C, 0x0D, 0x20, 0xA0, 0x1680, 0x2028, 0x2029, 0x202F, 0x205F,
     0x3000, 0xFEFF} \<or> (0x2000 \<le> u \<and> u \<le> 0x200A)"

definition trimUnits :: "jstring \<Rightarrow> jstring" where
  "trimUnits s = rev (dropWhile isTrimmed (rev (dropWhile isTrimmed s)))"

definition forbiddenWorkspaceLabelUnit :: "16 word \<Rightarrow> bool" where
  "forbiddenWorkspaceLabelUnit u \<longleftrightarrow> u \<le> 0x1F \<or> (0x7F \<le> u \<and> u \<le> 0x9F) \<or> u = 0x2028 \<or> u = 0x2029 \<or>
     (0x202A \<le> u \<and> u \<le> 0x202E) \<or> (0x2066 \<le> u \<and> u \<le> 0x2069)"

fun containsUnpairedSurrogate :: "nat list \<Rightarrow> bool" where
  "containsUnpairedSurrogate [] = False"
| "containsUnpairedSurrogate (u # us) =
     (if isHigh u then
        (case us of [] \<Rightarrow> True | v # vs \<Rightarrow> if \<not> isLow v then True else containsUnpairedSurrogate vs)
      else if isLow u then True
      else containsUnpairedSurrogate us)"

definition WORKSPACE_LABEL_MAX_CODE_POINTS :: nat where
  "WORKSPACE_LABEL_MAX_CODE_POINTS = 80"

definition validateWorkspaceLabel :: "literal json \<Rightarrow> desktop_error + jstring" where
  "validateWorkspaceLabel v = (case v of
       JString s \<Rightarrow>
         if s \<noteq> trimUnits s \<or> length s = 0 \<or>
            WORKSPACE_LABEL_MAX_CODE_POINTS < length (codePoints (map unat s)) \<or>
            list_ex forbiddenWorkspaceLabelUnit s \<or>
            containsUnpairedSurrogate (map unat s)
         then workspaceRegistryInvalid else Inr s
     | _ \<Rightarrow> workspaceRegistryInvalid)"

definition canonicalUtcTimestampPattern :: "(16 word \<Rightarrow> bool) list" where
  "canonicalUtcTimestampPattern =
     replicate 4 isDigitUnit @ [dashUnit] @ replicate 2 isDigitUnit @ [dashUnit] @
     replicate 2 isDigitUnit @ [\<lambda>u. u = 0x54] @ replicate 2 isDigitUnit @ [\<lambda>u. u = colon] @
     replicate 2 isDigitUnit @ [\<lambda>u. u = colon] @ replicate 2 isDigitUnit @ [\<lambda>u. u = 0x2E] @
     replicate 3 isDigitUnit @ [\<lambda>u. u = 0x5A]"

text \<open>
  \<open>Date.parse\<close> of a text with the pattern: the fields have to be in the ranges of the format,
  a day beyond the end of the month rolls over, and 24:00 is the end of the day.
\<close>

definition parseTimestamp :: "jstring \<Rightarrow> int option" where
  "parseTimestamp s =
     (let field = (\<lambda>i n. digitsValue (take n (drop i s)));
          y = field 0 4; mo = field 5 2; d = field 8 2; h = field 11 2; mi = field 14 2;
          sec = field 17 2; ms = field 20 3 in
      if 1 \<le> mo \<and> mo \<le> 12 \<and> 1 \<le> d \<and> d \<le> 31 \<and>
         (h \<le> 23 \<and> mi \<le> 59 \<and> sec \<le> 59 \<or> h = 24 \<and> mi = 0 \<and> sec = 0 \<and> ms = 0)
      then timeClip (msPerDay * dayFromCivil (y, mo, d) + h * 3600000 + mi * 60000 + sec * 1000 + ms)
      else None)"

definition validateWorkspaceTimestamp :: "literal json \<Rightarrow> desktop_error + jstring" where
  "validateWorkspaceTimestamp v = (case v of
       JString s \<Rightarrow>
         if \<not> fits canonicalUtcTimestampPattern s then workspaceRegistryInvalid
         else
           (case parseTimestamp s of
              None \<Rightarrow> workspaceRegistryInvalid
            | Some t \<Rightarrow> if ascii (toISOString t) \<noteq> s then workspaceRegistryInvalid else Inr s)
     | _ \<Rightarrow> workspaceRegistryInvalid)"

section \<open>Objects with exact keys\<close>

definition hasExactDataKeys :: "(jstring \<times> literal json) list \<Rightarrow> jstring list \<Rightarrow> bool" where
  "hasExactDataKeys kvs expectedKeys \<longleftrightarrow>
     length kvs = length expectedKeys \<and> (\<forall>k \<in> set (map fst kvs). k \<in> set expectedKeys)"

text \<open>The value of a member, null for a missing one (the keys have been checked).\<close>

definition member :: "(jstring \<times> literal json) list \<Rightarrow> string \<Rightarrow> literal json" where
  "member kvs k = (case map_of kvs (ascii k) of Some j \<Rightarrow> j | None \<Rightarrow> JNull)"

text \<open>
  A literal is the number 1 or 2 when that is the double nearest to it; both have the even
  neighbourhood of a power of two.
\<close>

definition scaled :: "int \<Rightarrow> int \<Rightarrow> int \<Rightarrow> int" where
  "scaled m x base = m * base * 10 ^ nat x"

fun isNumber :: "nat \<Rightarrow> literal json \<Rightarrow> bool" where
  "isNumber k (JNumber (m, x)) \<longleftrightarrow>
     int k * (2 ^ 54 - 1) * 10 ^ nat (- x) \<le> scaled m x (2 ^ 54) \<and>
     scaled m x (2 ^ 53) \<le> int k * (2 ^ 53 + 1) * 10 ^ nat (- x)"
| "isNumber k _ \<longleftrightarrow> False"

definition validateWorkspaceLineage :: "literal json \<Rightarrow> desktop_error + jstring" where
  "validateWorkspaceLineage v = (case v of
       JObject kvs \<Rightarrow>
         if \<not> hasExactDataKeys kvs [ascii ''formatVersion'', ascii ''profileId''] \<or>
            \<not> isNumber 1 (member kvs ''formatVersion'')
         then workspaceRegistryInvalid
         else
           (case member kvs ''profileId'' of
              JString s \<Rightarrow> if fits profileIdPattern s then Inr s else workspaceRegistryInvalid
            | _ \<Rightarrow> workspaceRegistryInvalid)
     | _ \<Rightarrow> workspaceRegistryInvalid)"

definition lifecycleText :: "workspace_lifecycle \<Rightarrow> jstring" where
  "lifecycleText l = (case l of
       WorkspaceReady \<Rightarrow> ascii ''ready''
     | WorkspaceRecoveryRequired \<Rightarrow> ascii ''recoveryRequired'')"

definition workspaceLifecycleState :: "literal json \<Rightarrow> workspace_lifecycle option" where
  "workspaceLifecycleState v =
     (if v = JString (ascii ''ready'') then Some WorkspaceReady
      else if v = JString (ascii ''recoveryRequired'') then Some WorkspaceRecoveryRequired
      else None)"

definition entryKeys :: "jstring list" where
  "entryKeys = map ascii [''workspaceId'', ''workspaceLabel'', ''lineageIdentity'', ''layoutVersion'',
     ''lifecycleState'', ''createdAt'']"

definition validateWorkspaceRegistryEntry :: "literal json \<Rightarrow> desktop_error + workspace_entry" where
  "validateWorkspaceRegistryEntry v = (case v of
       JObject kvs \<Rightarrow>
         if \<not> hasExactDataKeys kvs entryKeys \<or> \<not> isNumber 1 (member kvs ''layoutVersion'')
         then workspaceRegistryInvalid
         else
           (case workspaceLifecycleState (member kvs ''lifecycleState'') of
              None \<Rightarrow> workspaceRegistryInvalid
            | Some lifecycle \<Rightarrow>
                andThen (validateWorkspaceId (member kvs ''workspaceId'')) (\<lambda>workspaceId.
                andThen (validateWorkspaceLabel (member kvs ''workspaceLabel'')) (\<lambda>label.
                andThen (validateWorkspaceLineage (member kvs ''lineageIdentity'')) (\<lambda>profileId.
                andThen (validateWorkspaceTimestamp (member kvs ''createdAt'')) (\<lambda>createdAt.
                  Inr \<lparr>we_workspaceId = workspaceId, we_workspaceLabel = label,
                    we_profileId = profileId, we_lifecycleState = lifecycle,
                    we_createdAt = createdAt\<rparr>)))))
     | _ \<Rightarrow> workspaceRegistryInvalid)"

section \<open>The registry\<close>

definition WORKSPACE_REGISTRY_MAX_ENTRIES :: nat where
  "WORKSPACE_REGISTRY_MAX_ENTRIES = 64"

definition registryKeys :: "jstring list" where
  "registryKeys = map ascii [''formatVersion'', ''activeWorkspaceId'', ''workspaces'']"

fun assertUniqueIdentities :: "jstring list \<Rightarrow> jstring list \<Rightarrow> workspace_entry list
    \<Rightarrow> desktop_error + unit" where
  "assertUniqueIdentities workspaceIds profileIds [] = Inr ()"
| "assertUniqueIdentities workspaceIds profileIds (e # es) =
     (if we_workspaceId e \<in> set workspaceIds \<or> we_profileId e \<in> set profileIds
      then workspaceRegistryInvalid
      else assertUniqueIdentities (we_workspaceId e # workspaceIds) (we_profileId e # profileIds) es)"

definition readyIds :: "workspace_entry list \<Rightarrow> jstring list" where
  "readyIds entries = map we_workspaceId (filter (\<lambda>e. we_lifecycleState e = WorkspaceReady) entries)"

definition validateActiveWorkspaceId :: "literal json \<Rightarrow> jstring list \<Rightarrow> nat
    \<Rightarrow> desktop_error + jstring option" where
  "validateActiveWorkspaceId v ready formatVersion =
     (if formatVersion = 2 \<and> v = JNull then Inr None
      else if ready = [] then (if v \<noteq> JNull then workspaceRegistryInvalid else Inr None)
      else
        andThen (validateWorkspaceId v) (\<lambda>workspaceId.
          if workspaceId \<notin> set ready then workspaceRegistryInvalid else Inr (Some workspaceId)))"

definition validateWorkspaceRegistry :: "literal json \<Rightarrow> desktop_error + workspace_registry" where
  "validateWorkspaceRegistry v = (case v of
       JObject kvs \<Rightarrow>
         if \<not> hasExactDataKeys kvs registryKeys \<or>
            (\<not> isNumber 1 (member kvs ''formatVersion'') \<and> \<not> isNumber 2 (member kvs ''formatVersion''))
         then workspaceRegistryInvalid
         else
           (case member kvs ''workspaces'' of
              JArray vs \<Rightarrow>
                if WORKSPACE_REGISTRY_MAX_ENTRIES < length vs then workspaceRegistryInvalid
                else
                  andThen (mapR validateWorkspaceRegistryEntry vs) (\<lambda>entries.
                  andThen (assertUniqueIdentities [] [] entries) (\<lambda>_.
                    let formatVersion = (if isNumber 1 (member kvs ''formatVersion'') then 1 else 2) in
                    andThen (validateActiveWorkspaceId (member kvs ''activeWorkspaceId'')
                        (readyIds entries) formatVersion) (\<lambda>active.
                      Inr \<lparr>wr_formatVersion = formatVersion, wr_activeWorkspaceId = active,
                        wr_workspaces = entries\<rparr>)))
            | _ \<Rightarrow> workspaceRegistryInvalid)
     | _ \<Rightarrow> workspaceRegistryInvalid)"

section \<open>Bytes\<close>

definition WORKSPACE_REGISTRY_MAX_BYTES :: nat where
  "WORKSPACE_REGISTRY_MAX_BYTES = 64 * 1024"

definition parseWorkspaceRegistryBytes :: "bytes \<Rightarrow> desktop_error + workspace_registry" where
  "parseWorkspaceRegistryBytes bs =
     (if length bs < 1 \<or> WORKSPACE_REGISTRY_MAX_BYTES < length bs then workspaceRegistryInvalid
      else
        (case textDecode bs of
           None \<Rightarrow> workspaceRegistryInvalid
         | Some source \<Rightarrow>
             if \<not> noDuplicateKeys source then workspaceRegistryInvalid
             else
               (case jsonParse source of
                  None \<Rightarrow> workspaceRegistryInvalid
                | Some v \<Rightarrow> validateWorkspaceRegistry v)))"

definition canonicalEntry :: "workspace_entry \<Rightarrow> nat json" where
  "canonicalEntry e = JObject
     [(ascii ''workspaceId'', JString (we_workspaceId e)),
      (ascii ''workspaceLabel'', JString (we_workspaceLabel e)),
      (ascii ''lineageIdentity'', JObject
         [(ascii ''formatVersion'', JNumber 1), (ascii ''profileId'', JString (we_profileId e))]),
      (ascii ''layoutVersion'', JNumber 1),
      (ascii ''lifecycleState'', JString (lifecycleText (we_lifecycleState e))),
      (ascii ''createdAt'', JString (we_createdAt e))]"

definition canonicalRegistry :: "workspace_registry \<Rightarrow> nat json" where
  "canonicalRegistry r = JObject
     [(ascii ''formatVersion'', JNumber (wr_formatVersion r)),
      (ascii ''activeWorkspaceId'',
         case wr_activeWorkspaceId r of None \<Rightarrow> JNull | Some i \<Rightarrow> JString i),
      (ascii ''workspaces'', JArray (map canonicalEntry (wr_workspaces r)))]"

definition serializeWorkspaceRegistry :: "literal json \<Rightarrow> desktop_error + bytes" where
  "serializeWorkspaceRegistry v =
     andThen (validateWorkspaceRegistry v) (\<lambda>registry.
       let bs = textEncode (jsonText (canonicalRegistry registry) @ [0x0A]) in
       if WORKSPACE_REGISTRY_MAX_BYTES < length bs then workspaceRegistryInvalid else Inr bs)"

text \<open>A registry as the value the program hands to these functions.\<close>

definition registryValue :: "workspace_registry \<Rightarrow> literal json" where
  "registryValue r = toLiteral (canonicalRegistry r)"

definition assertCanonicalWorkspaceRegistryRoundTrip :: "bytes \<Rightarrow> desktop_error + workspace_registry" where
  "assertCanonicalWorkspaceRegistryRoundTrip bs =
     andThen (parseWorkspaceRegistryBytes bs) (\<lambda>parsed.
     andThen (serializeWorkspaceRegistry (registryValue parsed)) (\<lambda>serialized.
       if bs \<noteq> serialized then workspaceRegistryInvalid else Inr parsed))"

section \<open>Valid registries\<close>

definition validLabel :: "jstring \<Rightarrow> bool" where
  "validLabel s \<longleftrightarrow> validateWorkspaceLabel (JString s) = Inr s"

definition validEntry :: "workspace_entry \<Rightarrow> bool" where
  "validEntry e \<longleftrightarrow> fits canonicalWorkspaceIdPattern (we_workspaceId e) \<and> validLabel (we_workspaceLabel e) \<and>
     fits profileIdPattern (we_profileId e) \<and>
     validateWorkspaceTimestamp (JString (we_createdAt e)) = Inr (we_createdAt e)"

definition validActive :: "workspace_registry \<Rightarrow> bool" where
  "validActive r \<longleftrightarrow> (case wr_activeWorkspaceId r of
       None \<Rightarrow> wr_formatVersion r = 2 \<or> readyIds (wr_workspaces r) = []
     | Some i \<Rightarrow> i \<in> set (readyIds (wr_workspaces r)))"

definition validRegistry :: "workspace_registry \<Rightarrow> bool" where
  "validRegistry r \<longleftrightarrow>
     (wr_formatVersion r = 1 \<or> wr_formatVersion r = 2) \<and>
     length (wr_workspaces r) \<le> WORKSPACE_REGISTRY_MAX_ENTRIES \<and>
     (\<forall>e \<in> set (wr_workspaces r). validEntry e) \<and>
     distinct (map we_workspaceId (wr_workspaces r)) \<and>
     distinct (map we_profileId (wr_workspaces r)) \<and>
     validActive r"

lemma invalid_simps [simp]: "workspaceRegistryInvalid = Inr x \<longleftrightarrow> False"
  "workspaceRegistryInvalid \<noteq> Inr x"
  by (simp_all add: workspaceRegistryInvalid_def)

lemma assertUniqueIdentities_iff:
  "assertUniqueIdentities is ps es = Inr u \<longleftrightarrow>
     distinct (map we_workspaceId es) \<and> set (map we_workspaceId es) \<inter> set is = {} \<and>
     distinct (map we_profileId es) \<and> set (map we_profileId es) \<inter> set ps = {}"
  by (induction "is" ps es rule: assertUniqueIdentities.induct) auto

lemma validateWorkspaceId_eq:
  "validateWorkspaceId v = Inr s \<longleftrightarrow> v = JString s \<and> fits canonicalWorkspaceIdPattern s"
  by (auto simp: validateWorkspaceId_def split: json.splits)

lemma validateWorkspaceLabel_eq:
  "validateWorkspaceLabel v = Inr s \<longleftrightarrow> v = JString s \<and> validLabel s"
  by (auto simp: validateWorkspaceLabel_def validLabel_def split: json.splits if_splits)

lemma validateWorkspaceTimestamp_eq:
  "validateWorkspaceTimestamp v = Inr s \<longleftrightarrow> v = JString s \<and> validateWorkspaceTimestamp (JString s) = Inr s"
proof -
  have "validateWorkspaceTimestamp v = Inr s \<Longrightarrow> v = JString s"
    by (cases v) (simp_all add: validateWorkspaceTimestamp_def split: if_splits option.splits)
  then show ?thesis by auto
qed

lemma validateWorkspaceLineage_fits:
  "validateWorkspaceLineage v = Inr s \<Longrightarrow> fits profileIdPattern s"
  by (auto simp: validateWorkspaceLineage_def split: json.splits if_splits)

lemma validateWorkspaceRegistryEntry_valid:
  assumes "validateWorkspaceRegistryEntry v = Inr e"
  shows "validEntry e"
proof -
  obtain kvs where
    "validateWorkspaceId (member kvs ''workspaceId'') = Inr (we_workspaceId e)"
    "validateWorkspaceLabel (member kvs ''workspaceLabel'') = Inr (we_workspaceLabel e)"
    "validateWorkspaceLineage (member kvs ''lineageIdentity'') = Inr (we_profileId e)"
    "validateWorkspaceTimestamp (member kvs ''createdAt'') = Inr (we_createdAt e)"
    using assms
    by (auto simp: validateWorkspaceRegistryEntry_def result_simps split: json.splits if_splits option.splits)
  then show ?thesis
    using validateWorkspaceTimestamp_eq [THEN iffD1, THEN conjunct2]
    unfolding validEntry_def validateWorkspaceId_eq validateWorkspaceLabel_eq
    by (intro conjI) (simp_all add: validateWorkspaceLineage_fits)
qed

lemma validateActiveWorkspaceId_valid:
  assumes "validateActiveWorkspaceId v (readyIds (wr_workspaces r)) (wr_formatVersion r) =
    Inr (wr_activeWorkspaceId r)"
  shows "validActive r"
  using assms
  by (cases "wr_activeWorkspaceId r")
    (auto simp: validateActiveWorkspaceId_def validActive_def result_simps split: if_splits)

lemma validateWorkspaceRegistry_valid:
  assumes "validateWorkspaceRegistry v = Inr r"
  shows "validRegistry r"
proof -
  obtain kvs where v: "v = JObject kvs" and kvs: "isNumber 1 (member kvs ''formatVersion'') \<or>
      isNumber 2 (member kvs ''formatVersion'')"
    using assms by (auto simp: validateWorkspaceRegistry_def split: json.splits if_splits)
  then obtain vs where ws: "member kvs ''workspaces'' = JArray vs"
    using assms by (auto simp: validateWorkspaceRegistry_def split: json.splits if_splits)
  define version :: nat where "version = (if isNumber 1 (member kvs ''formatVersion'') then 1 else 2)"
  have vs: "length vs \<le> WORKSPACE_REGISTRY_MAX_ENTRIES"
      "mapR validateWorkspaceRegistryEntry vs = Inr (wr_workspaces r)"
    and unique: "assertUniqueIdentities [] [] (wr_workspaces r) = Inr ()"
    and version: "wr_formatVersion r = version"
    and active: "validateActiveWorkspaceId (member kvs ''activeWorkspaceId'')
      (readyIds (wr_workspaces r)) (wr_formatVersion r) = Inr (wr_activeWorkspaceId r)"
    using assms
    by (auto simp: v ws validateWorkspaceRegistry_def result_simps Let_def version_def
        split: if_split_asm)
  have "validEntry e" if "e \<in> set (wr_workspaces r)" for e
    using mapR_set [OF vs(2) that] validateWorkspaceRegistryEntry_valid by blast
  moreover have "length (wr_workspaces r) = length vs" by (rule mapR_length [OF vs(2)])
  ultimately show ?thesis
    using vs(1) unique version version_def validateActiveWorkspaceId_valid [OF active]
    by (simp add: validRegistry_def assertUniqueIdentities_iff)
qed
end
