(* ===== verification/RegistryCodec.thy ===== *)
theory RegistryCodec
  imports WorkspaceRegistry
begin

text \<open>
  The round trip of the registry's bytes: what \<open>serializeWorkspaceRegistry\<close> writes,
  \<open>parseWorkspaceRegistryBytes\<close> reads, and the file is in the canonical form.
\<close>

section \<open>Reading the canonical value\<close>

lemma unit_inj: "(word_of_nat (of_char c) :: 16 word) = word_of_nat (of_char d) \<longleftrightarrow> c = d"
  by (metis of_char_eq_iff unat_ascii)

lemma ascii_eq_iff [simp]: "ascii s = ascii t \<longleftrightarrow> s = t"
  unfolding ascii_def by (rule inj_map_eq_map) (simp add: inj_def unit_inj)

lemma toLiteral_simps [simp]:
  "toLiteral JNull = JNull" "toLiteral (JNumber n) = JNumber (int n, 0)"
  "toLiteral (JString s) = JString s" "toLiteral (JArray js) = JArray (map toLiteral js)"
  "toLiteral (JObject kvs) = JObject (map (\<lambda>(k, j). (k, toLiteral j)) kvs)"
  by (auto simp: toLiteral_def map_prod_def id_def)

lemma isNumber_int [simp]:
  "isNumber (Suc 0) (JNumber (int n, 0)) \<longleftrightarrow> n = 1"
  "isNumber 2 (JNumber (int n, 0)) \<longleftrightarrow> n = 2"
  by (auto simp: scaled_def)

lemma isNumber_numeral [simp]:
  "isNumber (Suc 0) (JNumber (1, 0))" "isNumber 2 (JNumber (2, 0))"
  "\<not> isNumber (Suc 0) (JNumber (2, 0))" "\<not> isNumber 2 (JNumber (1, 0))"
  by (simp_all add: scaled_def)

declare isNumber.simps(1) [simp del]

lemma validate_lineage:
  assumes "fits profileIdPattern p"
  shows "validateWorkspaceLineage (toLiteral (JObject
    [(ascii ''formatVersion'', JNumber 1), (ascii ''profileId'', JString p)])) = Inr p"
  using assms
  by (simp add: validateWorkspaceLineage_def hasExactDataKeys_def member_def)

lemma lifecycle_text [simp]:
  "workspaceLifecycleState (JString (lifecycleText l)) = Some l"
  by (cases l) (simp_all add: workspaceLifecycleState_def lifecycleText_def)

lemma validate_entry:
  assumes "validEntry e"
  shows "validateWorkspaceRegistryEntry (toLiteral (canonicalEntry e)) = Inr e"
proof -
  define lineage where "lineage = toLiteral (JObject
    [(ascii ''formatVersion'', JNumber 1), (ascii ''profileId'', JString (we_profileId e))])"
  have "validateWorkspaceLineage lineage = Inr (we_profileId e)"
    using assms validate_lineage by (simp add: validEntry_def lineage_def)
  moreover have "toLiteral (canonicalEntry e) = JObject
     [(ascii ''workspaceId'', JString (we_workspaceId e)),
      (ascii ''workspaceLabel'', JString (we_workspaceLabel e)),
      (ascii ''lineageIdentity'', lineage),
      (ascii ''layoutVersion'', JNumber (1, 0)),
      (ascii ''lifecycleState'', JString (lifecycleText (we_lifecycleState e))),
      (ascii ''createdAt'', JString (we_createdAt e))]"
    by (simp add: canonicalEntry_def lineage_def)
  moreover have "validateWorkspaceId (JString (we_workspaceId e)) = Inr (we_workspaceId e)"
    "validateWorkspaceLabel (JString (we_workspaceLabel e)) = Inr (we_workspaceLabel e)"
    using assms by (simp_all add: validateWorkspaceId_eq validateWorkspaceLabel_eq validEntry_def)
  ultimately show ?thesis
    using assms
    by (simp add: validateWorkspaceRegistryEntry_def hasExactDataKeys_def entryKeys_def member_def
        validEntry_def)
qed

lemma validate_active:
  assumes "validActive r" and "\<forall>e \<in> set (wr_workspaces r). validEntry e"
  shows "validateActiveWorkspaceId
      (toLiteral (case wr_activeWorkspaceId r of None \<Rightarrow> JNull | Some i \<Rightarrow> JString i))
      (readyIds (wr_workspaces r)) (wr_formatVersion r) = Inr (wr_activeWorkspaceId r)"
proof (cases "wr_activeWorkspaceId r")
  case None
  with assms(1) show ?thesis
    by (auto simp: validActive_def validateActiveWorkspaceId_def)
next
  case (Some i)
  then have i: "i \<in> set (readyIds (wr_workspaces r))" using assms(1) by (simp add: validActive_def)
  then have "fits canonicalWorkspaceIdPattern i"
    using assms(2) by (auto simp: readyIds_def validEntry_def)
  with Some i show ?thesis
    by (auto simp: validateActiveWorkspaceId_def validateWorkspaceId_eq [THEN iffD2])
qed

theorem validate_registryValue:
  assumes "validRegistry r"
  shows "validateWorkspaceRegistry (registryValue r) = Inr r"
proof -
  define active where "active = toLiteral (case wr_activeWorkspaceId r of None \<Rightarrow> JNull | Some i \<Rightarrow> JString i)"
  have "toLiteral (canonicalRegistry r) = JObject
     [(ascii ''formatVersion'', JNumber (int (wr_formatVersion r), 0)),
      (ascii ''activeWorkspaceId'', active),
      (ascii ''workspaces'', JArray (map (toLiteral \<circ> canonicalEntry) (wr_workspaces r)))]"
    by (simp add: canonicalRegistry_def active_def)
  moreover have "mapR validateWorkspaceRegistryEntry (map (toLiteral \<circ> canonicalEntry) (wr_workspaces r)) =
      Inr (wr_workspaces r)"
    using assms mapR_total [of "wr_workspaces r" "\<lambda>e. validateWorkspaceRegistryEntry (toLiteral (canonicalEntry e))" "\<lambda>e. e"]
    by (simp add: mapR_map_src validRegistry_def validate_entry)
  moreover have "validateActiveWorkspaceId active (readyIds (wr_workspaces r)) (wr_formatVersion r) =
      Inr (wr_activeWorkspaceId r)"
    using assms validate_active by (simp add: active_def validRegistry_def)
  moreover have "assertUniqueIdentities [] [] (wr_workspaces r) = Inr ()"
    using assms by (simp add: assertUniqueIdentities_iff validRegistry_def)
  ultimately show ?thesis
    using assms
    by (auto simp: registryValue_def validateWorkspaceRegistry_def hasExactDataKeys_def registryKeys_def
        member_def validRegistry_def Let_def)
qed

section \<open>Reading the canonical text\<close>

lemma distinctKeys_canonical: "distinctKeys (canonicalRegistry r)"
  by (auto simp: canonicalRegistry_def canonicalEntry_def split: option.split)

lemma wellFormed_append: "wellFormed us \<Longrightarrow> wellFormed vs \<Longrightarrow> wellFormed (us @ vs)"
proof (induction us rule: wellFormed.induct)
  case (2 u)
  then show ?case by (cases vs) auto
qed (auto split: if_splits)

lemma wellFormed_plain: "\<forall>u \<in> set us. \<not> isHigh u \<and> \<not> isLow u \<Longrightarrow> wellFormed us"
  by (induction us rule: wellFormed.induct) auto

lemma wellFormed_ascii [simp]: "wellFormed (map unat (ascii s))"
proof -
  have "\<forall>u \<in> set (map unat (ascii s)). u < 256"
    by (auto simp: ascii_def unat_ascii)
  then have "\<forall>u \<in> set (map unat (ascii s)). \<not> isHigh u \<and> \<not> isLow u"
    by (fastforce simp: isHigh_def isLow_def)
  then show ?thesis by (rule wellFormed_plain)
qed

lemma wellFormed_surrogates: "wellFormed us \<longleftrightarrow> \<not> containsUnpairedSurrogate us"
  by (induction us rule: wellFormed.induct) auto

lemma wellFormed_quoteUnit:
  "\<not> isHigh (unat u) \<Longrightarrow> \<not> isLow (unat u) \<Longrightarrow> wellFormed (map unat (quoteUnit u))"
proof -
  have small: "\<not> isHigh n" "\<not> isLow n" if "n < 256" for n
    using that by (simp_all add: isHigh_def isLow_def)
  have hex: "unat (hexadecimal n) < 256" if "n < 16" for n
    using that by (simp add: hexadecimal_def unat_of_nat)
  have "unat u < 65536" using unsigned_less [of u, where 'a = nat] by simp
  then have "unat u div 16 div 16 div 16 < 16" by simp
  moreover assume "\<not> isHigh (unat u)" "\<not> isLow (unat u)"
  ultimately show ?thesis
    by (intro wellFormed_plain) (simp add: quoteUnit_def unicodeEscape_def Let_def hex small)
qed

lemma wellFormed_quoteUnits:
  "wellFormed (map unat s) \<Longrightarrow> wellFormed (map unat (quoteUnits s))"
proof (induction s rule: quoteUnits.induct)
  case (3 u v us)
  show ?case
  proof (cases "isHigh (unat u)")
    case True
    with 3 show ?thesis by auto
  next
    case False
    with 3 wellFormed_quoteUnit [of u] show ?thesis by (auto intro: wellFormed_append)
  qed
qed (auto intro: wellFormed_quoteUnit)

fun stringsWellFormed :: "'n json \<Rightarrow> bool" where
  "stringsWellFormed (JString s) \<longleftrightarrow> wellFormed (map unat s)"
| "stringsWellFormed (JArray js) \<longleftrightarrow> (\<forall>j \<in> set js. stringsWellFormed j)"
| "stringsWellFormed (JObject kvs) \<longleftrightarrow> (\<forall>(k, j) \<in> set kvs. wellFormed (map unat k) \<and> stringsWellFormed j)"
| "stringsWellFormed _ \<longleftrightarrow> True"

lemma wellFormed_Cons: "\<not> isHigh u \<Longrightarrow> \<not> isLow u \<Longrightarrow> wellFormed us \<Longrightarrow> wellFormed (u # us)"
  using wellFormed_append [of "[u]" us] by simp

lemma wellFormed_commaSeparated:
  "\<forall>t \<in> set ts. wellFormed (map unat t) \<Longrightarrow> wellFormed (map unat (commaSeparated ts))"
  by (induction ts rule: commaSeparated.induct)
    (auto intro!: wellFormed_append wellFormed_Cons simp: isHigh_def isLow_def)

lemma wellFormed_quote: "wellFormed (map unat s) \<Longrightarrow> wellFormed (map unat (quote s))"
  by (auto simp: quote_def isHigh_def isLow_def intro!: wellFormed_Cons wellFormed_append wellFormed_quoteUnits)

lemma wellFormed_jsonText: "stringsWellFormed j \<Longrightarrow> wellFormed (map unat (jsonText j))"
proof (induction j)
  case (JArray js)
  then have "\<forall>t \<in> set (map jsonText js). wellFormed (map unat t)" by auto
  from wellFormed_commaSeparated [OF this] show ?case
    by (auto intro!: wellFormed_Cons wellFormed_append simp: isHigh_def isLow_def)
next
  case (JObject kvs)
  then have "\<forall>t \<in> set (map (\<lambda>(k, j). quote k @ colon # jsonText j) kvs). wellFormed (map unat t)"
    by (fastforce intro!: wellFormed_append wellFormed_Cons wellFormed_quote simp: isHigh_def isLow_def)
  from wellFormed_commaSeparated [OF this] show ?case
    by (auto intro!: wellFormed_Cons wellFormed_append simp: isHigh_def isLow_def)
qed (auto intro: wellFormed_quote)

lemma wellFormed_pattern:
  fixes s :: jstring
  assumes "fits ps s" and "\<forall>p \<in> set ps. \<forall>u. p u \<longrightarrow> u < 0x80"
  shows "wellFormed (map unat s)"
proof -
  have "\<forall>u \<in> set s. u < 0x80"
    using assms unfolding fits_def by (induction rule: list_all2_induct) auto
  then show ?thesis
    by (intro wellFormed_plain) (auto simp: word_less_nat_alt isHigh_def isLow_def)
qed

lemma lowerHex_ascii: "lowerHex u \<Longrightarrow> u < 0x80" "isDigitUnit u \<Longrightarrow> u < 0x80" "dashUnit u \<Longrightarrow> u < 0x80"
  by (auto simp: lowerHex_def isDigitUnit_def dashUnit_def word_less_nat_alt word_le_nat_alt)

lemma wellFormed_patterns:
  "fits canonicalWorkspaceIdPattern s \<Longrightarrow> wellFormed (map unat s)"
  "fits profileIdPattern s \<Longrightarrow> wellFormed (map unat s)"
  "fits canonicalUtcTimestampPattern s \<Longrightarrow> wellFormed (map unat s)"
  by (erule wellFormed_pattern;
      auto simp: canonicalWorkspaceIdPattern_def profileIdPattern_def canonicalUtcTimestampPattern_def
        lowerHex_ascii)+

lemma validLabel_wellFormed: "validLabel s \<Longrightarrow> wellFormed (map unat s)"
  by (auto simp: validLabel_def validateWorkspaceLabel_def wellFormed_surrogates split: if_splits)

lemma timestamp_fits:
  "validateWorkspaceTimestamp (JString s) = Inr s \<Longrightarrow> fits canonicalUtcTimestampPattern s"
  by (simp add: validateWorkspaceTimestamp_def split: if_splits)

lemma validEntry_wellFormed:
  assumes "validEntry e"
  shows "stringsWellFormed (canonicalEntry e)"
  using assms unfolding validEntry_def
  by (cases "we_lifecycleState e")
    (auto simp: canonicalEntry_def lifecycleText_def
      intro: wellFormed_patterns validLabel_wellFormed dest: timestamp_fits)

lemma stringsWellFormed_canonical:
  assumes "validRegistry r"
  shows "stringsWellFormed (canonicalRegistry r)"
proof -
  have "wellFormed (map unat i)" if "wr_activeWorkspaceId r = Some i" for i
    using assms that
    by (auto simp: validRegistry_def validActive_def readyIds_def validEntry_def intro: wellFormed_patterns)
  then show ?thesis
    using assms validEntry_wellFormed
    by (auto simp: canonicalRegistry_def validRegistry_def split: option.split)
qed

section \<open>The round trip\<close>

theorem parse_canonical:
  assumes "validRegistry r" and "bs = textEncode (jsonText (canonicalRegistry r) @ [0x0A])"
    and "length bs \<le> WORKSPACE_REGISTRY_MAX_BYTES"
  shows "parseWorkspaceRegistryBytes bs = Inr r"
proof -
  let ?text = "jsonText (canonicalRegistry r) @ [0x0A]"
  have start: "?text = openBrace # tl ?text" by (simp add: canonicalRegistry_def)
  have "wellFormed (map unat ?text)"
    using wellFormed_jsonText [OF stringsWellFormed_canonical [OF assms(1)]]
    by (auto intro!: wellFormed_append simp: isHigh_def isLow_def)
  moreover have "?text \<noteq> 0xFEFF # t" for t
    by (subst start) simp
  ultimately have decode: "textDecode bs = Some ?text"
    unfolding assms(2) by (rule textDecode_textEncode)
  have "bs \<noteq> []"
  proof
    assume "bs = []"
    with decode have "?text = []" by (simp add: textDecode_def dropByteOrderMark_def)
    then show False by simp
  qed
  then show ?thesis
    using assms(3) decode noDuplicateKeys_jsonText jsonParse_jsonText distinctKeys_canonical
      validate_registryValue [OF assms(1)]
    by (cases bs) (simp_all add: parseWorkspaceRegistryBytes_def registryValue_def)
qed

theorem serialize_then_parse:
  assumes "serializeWorkspaceRegistry v = Inr bs"
  obtains r where "validateWorkspaceRegistry v = Inr r" "validRegistry r"
    "parseWorkspaceRegistryBytes bs = Inr r" "assertCanonicalWorkspaceRegistryRoundTrip bs = Inr r"
    "1 \<le> length bs" "length bs \<le> WORKSPACE_REGISTRY_MAX_BYTES"
    "serializeWorkspaceRegistry (registryValue r) = Inr bs"
proof -
  obtain r where r: "validateWorkspaceRegistry v = Inr r"
    and bs: "bs = textEncode (jsonText (canonicalRegistry r) @ [0x0A])"
    and size: "length bs \<le> WORKSPACE_REGISTRY_MAX_BYTES"
    using assms by (auto simp: serializeWorkspaceRegistry_def result_simps Let_def split: if_splits)
  note valid = validateWorkspaceRegistry_valid [OF r]
  have parse: "parseWorkspaceRegistryBytes bs = Inr r" by (rule parse_canonical [OF valid bs size])
  have again: "serializeWorkspaceRegistry (registryValue r) = Inr bs"
    using bs size validate_registryValue [OF valid] by (simp add: serializeWorkspaceRegistry_def Let_def)
  have "1 \<le> length bs"
    using parse by (cases bs) (auto simp: parseWorkspaceRegistryBytes_def)
  then show ?thesis
    using r valid parse again size
    by (intro that [of r]) (simp_all add: assertCanonicalWorkspaceRegistryRoundTrip_def)
qed
end
