(* ===== verification/RegistryCorrect.thy ===== *)
theory RegistryCorrect
  imports RegistryMutations
begin

text \<open>
  The changes of the registry keep it valid and keep its labels distinguishable.
\<close>

section \<open>Changes as data\<close>

datatype registry_change =
    AppendReady workspace_entry
  | AppendRecovered workspace_entry
  | RemoveEntry "jstring option" jstring
  | SelectActive jstring jstring
  | RequireRecovery jstring jstring
  | RenameLabel jstring jstring

definition applyChange :: "unicode \<Rightarrow> registry_change \<Rightarrow> workspace_registry
    \<Rightarrow> desktop_error + workspace_registry" where
  "applyChange uc c r = (case c of
       AppendReady e \<Rightarrow> appendReadyWorkspaceEntry uc r e
     | AppendRecovered e \<Rightarrow> appendRecoveredWorkspaceEntry r e
     | RemoveEntry expected i \<Rightarrow> removeWorkspaceEntry r expected i
     | SelectActive expected i \<Rightarrow> selectActiveWorkspace r expected i
     | RequireRecovery s t \<Rightarrow> selectSourceAndRequireTargetRecovery r s t
     | RenameLabel i l \<Rightarrow> renameWorkspaceLabel uc r i l)"

text \<open>
  Entries that are added are valid and ready, as \<open>createReadyWorkspaceEntry\<close> makes them; the
  source of a failed switch is another workspace than its target.
\<close>

definition admissibleChange :: "registry_change \<Rightarrow> bool" where
  "admissibleChange c = (case c of
       AppendReady e \<Rightarrow> validEntry e \<and> we_lifecycleState e = WorkspaceReady
     | AppendRecovered e \<Rightarrow> validEntry e \<and> we_lifecycleState e = WorkspaceReady
     | RequireRecovery s t \<Rightarrow> s \<noteq> t
     | _ \<Rightarrow> True)"

section \<open>Validity\<close>

lemma mutationError_simps [simp]: "mutationError f \<noteq> Inr x" "mutationError f = Inr x \<longleftrightarrow> False"
  by (simp_all add: mutationError_def)

lemma findWorkspaceEntry_Some:
  "findWorkspaceEntry r i = Some e \<Longrightarrow> e \<in> set (wr_workspaces r) \<and> we_workspaceId e = i"
  by (auto simp: findWorkspaceEntry_def find_Some_iff)

lemma findIndex_Some:
  "findIndex p xs = Some i \<Longrightarrow> i < length xs \<and> p (xs ! i)"
  by (induction xs arbitrary: i) (auto split: if_splits)

lemma map_update_same: "f y = f (xs ! i) \<Longrightarrow> map f (xs[i := y]) = map f xs"
  by (metis list_update_id map_update)

lemma readyIds_append [simp]: "readyIds (xs @ ys) = readyIds xs @ readyIds ys"
  by (simp add: readyIds_def)

lemma readyIds_iff:
  "i \<in> set (readyIds es) \<longleftrightarrow> (\<exists>e \<in> set es. we_workspaceId e = i \<and> we_lifecycleState e = WorkspaceReady)"
  by (auto simp: readyIds_def)

lemma readyIds_eq:
  assumes "map (\<lambda>e. (we_workspaceId e, we_lifecycleState e)) es = map (\<lambda>e. (we_workspaceId e, we_lifecycleState e)) ds"
  shows "readyIds es = readyIds ds"
proof -
  have "readyIds xs = map fst (filter (\<lambda>p. snd p = WorkspaceReady)
      (map (\<lambda>e. (we_workspaceId e, we_lifecycleState e)) xs))" for xs
    by (induction xs) (simp_all add: readyIds_def)
  with assms show ?thesis by simp
qed

lemma append_valid:
  assumes "validRegistry r" and "validEntry e" and "we_lifecycleState e = WorkspaceReady"
    and "appendIdentityCheckedWorkspaceEntry r e = Inr r'"
  shows "validRegistry r'"
proof -
  have new: "we_workspaceId e \<notin> we_workspaceId ` set (wr_workspaces r)"
    "we_profileId e \<notin> we_profileId ` set (wr_workspaces r)"
    "length (wr_workspaces r) < WORKSPACE_REGISTRY_MAX_ENTRIES"
    and r': "wr_formatVersion r' = wr_formatVersion r" "wr_workspaces r' = wr_workspaces r @ [e]"
    "wr_activeWorkspaceId r' = workspaceSelectionAfterPublication (wr_formatVersion r)
       (wr_activeWorkspaceId r) (we_workspaceId e)"
    using assms(4)
    by (auto simp: appendIdentityCheckedWorkspaceEntry_def assertWorkspaceIdAvailable_def
        assertWorkspaceLineageAvailable_def result_simps list_ex_iff split: if_splits)
  have ready: "readyIds [e] = [we_workspaceId e]" using assms(3) by (simp add: readyIds_def)
  have "validActive r'"
    using assms(1) ready
    by (auto simp: validRegistry_def validActive_def r' workspaceSelectionAfterPublication_def
        split: option.splits)
  with assms(1,2) new show ?thesis
    by (auto simp: validRegistry_def r')
qed

lemma remove_valid:
  assumes "validRegistry r" and "removeWorkspaceEntry r expected i = Inr r'"
  shows "validRegistry r'"
proof -
  have r': "wr_formatVersion r' = 2" "wr_formatVersion r = 2"
    "wr_activeWorkspaceId r' = (if wr_activeWorkspaceId r = Some i then None else wr_activeWorkspaceId r)"
    "wr_workspaces r' = filter (\<lambda>e. we_workspaceId e \<noteq> i) (wr_workspaces r)"
    using assms(2)
    by (auto simp: removeWorkspaceEntry_def assertActiveWorkspaceUnchanged_def result_simps
        split: if_splits)
  have "validActive r'"
    using assms(1)
    by (auto simp: validRegistry_def validActive_def r' readyIds_iff split: option.splits)
  moreover have "length (wr_workspaces r') \<le> WORKSPACE_REGISTRY_MAX_ENTRIES"
    using assms(1) unfolding validRegistry_def r'
    by (intro le_trans [OF length_filter_le]) simp
  ultimately show ?thesis
    using assms(1) unfolding validRegistry_def by (simp add: r' distinct_map_filter)
qed

lemma select_valid:
  assumes "validRegistry r" and "selectActiveWorkspace r expected i = Inr r'"
  shows "validRegistry r'"
proof -
  obtain t where t: "findWorkspaceEntry r i = Some t" "we_lifecycleState t = WorkspaceReady"
    and r': "wr_formatVersion r' = wr_formatVersion r" "wr_workspaces r' = wr_workspaces r"
    "wr_activeWorkspaceId r' = Some (we_workspaceId t)"
    using assms(2)
    by (auto simp: selectActiveWorkspace_def assertActiveWorkspaceUnchanged_def result_simps
        split: if_splits option.splits)
  with findWorkspaceEntry_Some [OF t(1)] have "validActive r'"
    by (auto simp: validActive_def readyIds_iff)
  with assms(1) show ?thesis by (simp add: validRegistry_def r')
qed

lemma update_entry_valid:
  assumes "validRegistry r" and "k < length (wr_workspaces r)" and "validEntry e"
    and "we_workspaceId e = we_workspaceId (wr_workspaces r ! k)"
    and "we_profileId e = we_profileId (wr_workspaces r ! k)"
    and "wr_formatVersion r' = wr_formatVersion r" and "wr_workspaces r' = (wr_workspaces r)[k := e]"
    and "validActive r'"
  shows "validRegistry r'"
proof -
  have "\<forall>d \<in> set (wr_workspaces r'). validEntry d"
    using assms(1,3,7) set_update_subset_insert [of "wr_workspaces r" k e]
    by (auto simp: validRegistry_def)
  moreover have "map we_workspaceId (wr_workspaces r') = map we_workspaceId (wr_workspaces r)"
    "map we_profileId (wr_workspaces r') = map we_profileId (wr_workspaces r)"
    unfolding assms(7) by (intro map_update_same; simp add: assms)+
  ultimately show ?thesis
    using assms(1,6,7,8) by (simp add: validRegistry_def)
qed

lemma require_recovery_result:
  assumes "selectSourceAndRequireTargetRecovery r s t = Inr r'"
  obtains source k where "source \<in> set (wr_workspaces r)" "we_workspaceId source = s"
    "we_lifecycleState source = WorkspaceReady"
    "k < length (wr_workspaces r)" "we_workspaceId (wr_workspaces r ! k) = t"
    "wr_formatVersion r' = wr_formatVersion r" "wr_activeWorkspaceId r' = Some s"
    "wr_workspaces r' =
       (wr_workspaces r)[k := (wr_workspaces r ! k)\<lparr>we_lifecycleState := WorkspaceRecoveryRequired\<rparr>]"
proof -
  obtain source k where "findWorkspaceEntry r s = Some source"
    "findIndex (\<lambda>e. we_workspaceId e = t) (wr_workspaces r) = Some k"
    "we_lifecycleState source = WorkspaceReady"
    "r' = \<lparr>wr_formatVersion = wr_formatVersion r, wr_activeWorkspaceId = Some s,
       wr_workspaces = (wr_workspaces r)
         [k := (wr_workspaces r ! k)\<lparr>we_lifecycleState := WorkspaceRecoveryRequired\<rparr>]\<rparr>"
    using assms
    by (auto simp: selectSourceAndRequireTargetRecovery_def result_simps Let_def
        split: option.splits if_splits)
  with findWorkspaceEntry_Some [of r s source] findIndex_Some [of _ "wr_workspaces r" k] show ?thesis
    by (intro that [of source k]) auto
qed

lemma require_recovery_valid:
  assumes "validRegistry r" and "s \<noteq> t" and "selectSourceAndRequireTargetRecovery r s t = Inr r'"
  shows "validRegistry r'"
proof -
  obtain source k where source: "source \<in> set (wr_workspaces r)" "we_workspaceId source = s"
      "we_lifecycleState source = WorkspaceReady"
    and k: "k < length (wr_workspaces r)" "we_workspaceId (wr_workspaces r ! k) = t"
    and r': "wr_formatVersion r' = wr_formatVersion r" "wr_activeWorkspaceId r' = Some s"
      "wr_workspaces r' =
        (wr_workspaces r)[k := (wr_workspaces r ! k)\<lparr>we_lifecycleState := WorkspaceRecoveryRequired\<rparr>]"
    using assms(3) by (rule require_recovery_result)
  obtain j where j: "j < length (wr_workspaces r)" "wr_workspaces r ! j = source"
    using source(1) by (auto simp: in_set_conv_nth)
  with source k assms(2) have "j \<noteq> k" by auto
  with j have "source \<in> set (wr_workspaces r')"
    by (auto simp: r' in_set_conv_nth intro!: exI [of _ j])
  with source have "validActive r'"
    by (auto simp: validActive_def r'(2) readyIds_iff)
  moreover have "validEntry (wr_workspaces r ! k)" using assms(1) k(1) by (simp add: validRegistry_def)
  ultimately show ?thesis
    using k(1) by (intro update_entry_valid [OF assms(1) k(1) _ _ _ r'(1) r'(3)]) (simp_all add: validEntry_def)
qed

text \<open>A switch from a workspace to itself would leave no valid registry to write.\<close>

lemma require_recovery_of_source_invalid:
  assumes "validRegistry r" and "selectSourceAndRequireTargetRecovery r s s = Inr r'"
  shows "\<not> validRegistry r'"
proof -
  obtain source k where k: "k < length (wr_workspaces r)" "we_workspaceId (wr_workspaces r ! k) = s"
    and r': "wr_activeWorkspaceId r' = Some s"
      "wr_workspaces r' =
        (wr_workspaces r)[k := (wr_workspaces r ! k)\<lparr>we_lifecycleState := WorkspaceRecoveryRequired\<rparr>]"
    using assms(2) by (rule require_recovery_result)
  have "distinct (map we_workspaceId (wr_workspaces r))" using assms(1) by (simp add: validRegistry_def)
  then have "we_workspaceId (wr_workspaces r ! j) \<noteq> s" if "j < length (wr_workspaces r)" "j \<noteq> k" for j
    using that k by (auto simp: distinct_conv_nth)
  then have "we_lifecycleState (wr_workspaces r' ! j) = WorkspaceRecoveryRequired"
    if "j < length (wr_workspaces r')" "we_workspaceId (wr_workspaces r' ! j) = s" for j
    using that k by (auto simp: r' nth_list_update split: if_splits)
  then have "\<forall>e \<in> set (wr_workspaces r'). we_workspaceId e = s \<longrightarrow> we_lifecycleState e = WorkspaceRecoveryRequired"
    by (auto simp: in_set_conv_nth)
  then have "s \<notin> set (readyIds (wr_workspaces r'))"
    by (auto simp: readyIds_iff)
  then show ?thesis by (simp add: validRegistry_def validActive_def r'(1))
qed

lemma rename_result:
  assumes "renameWorkspaceLabel uc r i l = Inr r'"
  obtains "r' = r" | k where "k < length (wr_workspaces r)" "we_workspaceId (wr_workspaces r ! k) = i"
    "validLabel l" "hasWorkspaceLabelConflict uc (wr_workspaces r) l (Some i) = Inr False"
    "wr_formatVersion r' = wr_formatVersion r" "wr_activeWorkspaceId r' = wr_activeWorkspaceId r"
    "wr_workspaces r' = (wr_workspaces r)[k := (wr_workspaces r ! k)\<lparr>we_workspaceLabel := l\<rparr>]"
proof (cases "r' = r")
  case False
  obtain k where "findIndex (\<lambda>e. we_workspaceId e = i) (wr_workspaces r) = Some k"
    "validLabel l" "hasWorkspaceLabelConflict uc (wr_workspaces r) l (Some i) = Inr False"
    "r' = \<lparr>wr_formatVersion = wr_formatVersion r, wr_activeWorkspaceId = wr_activeWorkspaceId r,
       wr_workspaces = (wr_workspaces r)[k := (wr_workspaces r ! k)\<lparr>we_workspaceLabel := l\<rparr>]\<rparr>"
    using assms False
    by (auto simp: renameWorkspaceLabel_def result_simps Let_def assertWorkspaceLabelAvailable_def
        validateWorkspaceLabel_eq split: option.splits if_splits)
  with findIndex_Some [of _ "wr_workspaces r" k] that(2) show ?thesis by auto
qed (rule that(1))

lemma rename_valid:
  assumes "validRegistry r" and "renameWorkspaceLabel uc r i l = Inr r'"
  shows "validRegistry r'"
  using assms(2)
proof (rule rename_result)
  fix k
  assume k: "k < length (wr_workspaces r)" "validLabel l"
    and r': "wr_formatVersion r' = wr_formatVersion r" "wr_activeWorkspaceId r' = wr_activeWorkspaceId r"
      "wr_workspaces r' = (wr_workspaces r)[k := (wr_workspaces r ! k)\<lparr>we_workspaceLabel := l\<rparr>]"
  have "map (\<lambda>e. (we_workspaceId e, we_lifecycleState e)) (wr_workspaces r') =
      map (\<lambda>e. (we_workspaceId e, we_lifecycleState e)) (wr_workspaces r)"
    unfolding r'(3) by (rule map_update_same) simp
  then have "readyIds (wr_workspaces r') = readyIds (wr_workspaces r)"
    by (rule readyIds_eq)
  then have "validActive r'"
    using assms(1) by (simp add: validRegistry_def validActive_def r'(1,2) split: option.splits)
  moreover have "validEntry (wr_workspaces r ! k)" using assms(1) k(1) by (simp add: validRegistry_def)
  ultimately show ?thesis
    using k by (intro update_entry_valid [OF assms(1) k(1) _ _ _ r'(1) r'(3)]) (simp_all add: validEntry_def)
qed (use assms(1) in simp)

theorem applyChange_valid:
  assumes "validRegistry r" and "admissibleChange c" and "applyChange uc c r = Inr r'"
  shows "validRegistry r'"
  using assms
  by (cases c)
    (auto simp: applyChange_def admissibleChange_def appendReadyWorkspaceEntry_def
      appendRecoveredWorkspaceEntry_def result_simps
      intro: append_valid remove_valid select_valid require_recovery_valid rename_valid)

section \<open>Everything else stays\<close>

text \<open>The workspace whose entry a change may alter.\<close>

definition concerned :: "registry_change \<Rightarrow> jstring option" where
  "concerned c = (case c of
       AppendReady e \<Rightarrow> Some (we_workspaceId e)
     | AppendRecovered e \<Rightarrow> Some (we_workspaceId e)
     | RemoveEntry expected i \<Rightarrow> Some i
     | SelectActive expected i \<Rightarrow> None
     | RequireRecovery s t \<Rightarrow> Some t
     | RenameLabel i l \<Rightarrow> Some i)"

definition unconcerned :: "registry_change \<Rightarrow> workspace_registry \<Rightarrow> workspace_entry list" where
  "unconcerned c r = filter (\<lambda>e. concerned c \<noteq> Some (we_workspaceId e)) (wr_workspaces r)"

lemma filter_list_update:
  "\<not> p (xs ! i) \<Longrightarrow> \<not> p y \<Longrightarrow> filter p (xs[i := y]) = filter p xs"
proof (induction xs arbitrary: i)
  case (Cons x xs)
  then show ?case by (cases i) auto
qed simp

lemma applyChange_others:
  assumes "applyChange uc c r = Inr r'"
  shows "wr_formatVersion r' = wr_formatVersion r \<and> unconcerned c r' = unconcerned c r"
proof (cases c)
  case (RequireRecovery s t)
  with assms show ?thesis
    by (auto simp: applyChange_def selectSourceAndRequireTargetRecovery_def result_simps Let_def
        unconcerned_def concerned_def dest!: findIndex_Some intro!: filter_list_update
        split: if_splits option.splits)
next
  case (RenameLabel i l)
  with assms show ?thesis
    by (auto simp: applyChange_def renameWorkspaceLabel_def result_simps Let_def
        unconcerned_def concerned_def dest!: findIndex_Some intro!: filter_list_update
        split: if_splits option.splits)
next
  case (RemoveEntry expected i)
  with assms show ?thesis
    by (auto simp: applyChange_def removeWorkspaceEntry_def result_simps unconcerned_def concerned_def
        eq_commute [of i] split: if_splits)
next
  case (SelectActive expected i)
  with assms show ?thesis
    by (auto simp: applyChange_def selectActiveWorkspace_def result_simps unconcerned_def concerned_def
        split: if_splits option.splits)
qed (use assms in \<open>auto simp: applyChange_def appendReadyWorkspaceEntry_def appendRecoveredWorkspaceEntry_def
      appendIdentityCheckedWorkspaceEntry_def result_simps unconcerned_def concerned_def\<close>)

section \<open>Labels\<close>

definition distinctLabels :: "unicode \<Rightarrow> workspace_registry \<Rightarrow> bool" where
  "distinctLabels uc r \<longleftrightarrow> distinct (map (entryKey uc) (wr_workspaces r))"

lemma entryKey_valid: "validEntry e \<Longrightarrow> \<exists>k. entryKey uc e = Inr k"
  by (simp add: validEntry_def validLabel_def entryKey_def createWorkspaceLabelComparisonKey_def)

lemma someConflict_False:
  "someConflict uc key x es = Inr False \<Longrightarrow> e \<in> set es \<Longrightarrow> x \<noteq> Some (we_workspaceId e) \<Longrightarrow>
     entryKey uc e \<noteq> Inr key"
  by (induction es) (auto simp: result_simps split: if_splits)

lemma noConflict:
  assumes "hasWorkspaceLabelConflict uc es (we_workspaceLabel d) x = Inr False"
    and "e \<in> set es" "x \<noteq> Some (we_workspaceId e)"
  shows "entryKey uc e \<noteq> entryKey uc d"
  using assms by (auto simp: hasWorkspaceLabelConflict_def result_simps entryKey_def [of uc d]
      dest: someConflict_False)

lemma distinct_update:
  assumes "distinct xs" and "\<And>j. j < length xs \<Longrightarrow> j \<noteq> k \<Longrightarrow> xs ! j \<noteq> y"
  shows "distinct (xs[k := y])"
proof (cases "k < length xs")
  case True
  with assms show ?thesis by (auto simp: distinct_conv_nth nth_list_update)
next
  case False
  with assms(1) show ?thesis by (simp add: list_update_beyond)
qed

lemma append_labels:
  assumes "distinctLabels uc r" and "appendReadyWorkspaceEntry uc r e = Inr r'"
  shows "distinctLabels uc r'"
proof -
  have free: "hasWorkspaceLabelConflict uc (wr_workspaces r) (we_workspaceLabel e) None = Inr False"
    and r': "wr_workspaces r' = wr_workspaces r @ [e]"
    using assms(2)
    by (auto simp: appendReadyWorkspaceEntry_def appendIdentityCheckedWorkspaceEntry_def
        assertWorkspaceLabelAvailable_def result_simps split: if_splits)
  have "entryKey uc e \<notin> entryKey uc ` set (wr_workspaces r)"
    using noConflict [OF free] by fastforce
  with assms(1) show ?thesis
    by (simp add: distinctLabels_def r')
qed

lemma rename_labels:
  assumes "validRegistry r" and "distinctLabels uc r" and "renameWorkspaceLabel uc r i l = Inr r'"
  shows "distinctLabels uc r'"
  using assms(3)
proof (rule rename_result)
  fix k
  let ?e = "(wr_workspaces r ! k)\<lparr>we_workspaceLabel := l\<rparr>"
  assume k: "k < length (wr_workspaces r)" "we_workspaceId (wr_workspaces r ! k) = i"
    and free: "hasWorkspaceLabelConflict uc (wr_workspaces r) l (Some i) = Inr False"
    and r': "wr_workspaces r' = (wr_workspaces r)[k := ?e]"
  have "entryKey uc (wr_workspaces r ! j) \<noteq> entryKey uc ?e"
    if "j < length (wr_workspaces r)" "j \<noteq> k" for j
  proof -
    have "we_workspaceId (wr_workspaces r ! j) \<noteq> i"
      using assms(1) k that by (auto simp: validRegistry_def distinct_conv_nth)
    then show ?thesis
      using noConflict [of uc "wr_workspaces r" ?e "Some i"] free that(1) by simp
  qed
  then show ?thesis
    using assms(2) by (auto simp: distinctLabels_def r' map_update intro!: distinct_update)
qed (use assms(2) in simp)

theorem applyChange_labels:
  assumes "validRegistry r" and "distinctLabels uc r" and "applyChange uc c r = Inr r'"
    and "\<And>e. c \<noteq> AppendRecovered e"
  shows "distinctLabels uc r'"
proof (cases c)
  case (RemoveEntry expected i)
  with assms show ?thesis
    by (auto simp: applyChange_def removeWorkspaceEntry_def result_simps distinctLabels_def
        distinct_map_filter split: if_splits)
next
  case (SelectActive expected i)
  with assms show ?thesis
    by (auto simp: applyChange_def selectActiveWorkspace_def result_simps distinctLabels_def
        split: if_splits option.splits)
next
  case (RequireRecovery s t)
  with assms(3) obtain k where
    "wr_workspaces r' = (wr_workspaces r)[k := (wr_workspaces r ! k)\<lparr>we_lifecycleState := WorkspaceRecoveryRequired\<rparr>]"
    by (auto simp: applyChange_def elim: require_recovery_result)
  then have "map (entryKey uc) (wr_workspaces r') = map (entryKey uc) (wr_workspaces r)"
    by (simp add: map_update_same entryKey_def)
  with assms(2) show ?thesis by (simp add: distinctLabels_def)
qed (use assms in \<open>auto simp: applyChange_def intro: append_labels rename_labels\<close>)

section \<open>Duplicate labels\<close>

definition sharesLabel :: "unicode \<Rightarrow> workspace_entry list \<Rightarrow> workspace_entry \<Rightarrow> bool" where
  "sharesLabel uc es e \<longleftrightarrow> (\<exists>d \<in> set es. d \<noteq> e \<and> entryKey uc d = entryKey uc e)"

lemma find_snoc: "List.find p (xs @ [x]) =
    (case List.find p xs of None \<Rightarrow> if p x then Some x else None | Some y \<Rightarrow> Some y)"
  by (induction xs) auto

lemma duplicateLabels_set:
  assumes "\<forall>e \<in> set (done @ es). \<exists>k. entryKey uc e = Inr k" and "distinct (done @ es)"
    and "\<And>k. map_of m k = map_option we_workspaceId (List.find (\<lambda>e. entryKey uc e = Inr k) done)"
    and "set ds = we_workspaceId ` {e \<in> set done. sharesLabel uc done e}"
  shows "\<exists>is. duplicateLabels uc m ds es = Inr is \<and>
    set is = we_workspaceId ` {e \<in> set (done @ es). sharesLabel uc (done @ es) e}"
  using assms
proof (induction es arbitrary: "done" m ds)
  case (Cons e es)
  obtain k where k: "entryKey uc e = Inr k" using Cons.prems(1) by auto
  let ?done = "done @ [e]"
  have e: "e \<notin> set done" using Cons.prems(2) by auto
  have shares: "{d \<in> set ?done. sharesLabel uc ?done d} =
      {d \<in> set done. sharesLabel uc done d} \<union>
      (if \<exists>d \<in> set done. entryKey uc d = Inr k
       then insert e {d \<in> set done. entryKey uc d = Inr k} else {})"
    using e k by (auto simp: sharesLabel_def)
  show ?case
  proof (cases "List.find (\<lambda>d. entryKey uc d = Inr k) done")
    case None
    then have none: "\<not> (\<exists>d \<in> set done. entryKey uc d = Inr k)" by (auto simp: find_None_iff)
    have "map_of ((k, we_workspaceId e) # m) k' =
        map_option we_workspaceId (List.find (\<lambda>d. entryKey uc d = Inr k') ?done)" for k'
      using Cons.prems(3) [of k'] None k by (auto simp: find_snoc split: option.split)
    moreover have "set ds = we_workspaceId ` {d \<in> set ?done. sharesLabel uc ?done d}"
      using Cons.prems(4) shares none by simp
    ultimately have "\<exists>is. duplicateLabels uc ((k, we_workspaceId e) # m) ds es = Inr is \<and>
        set is = we_workspaceId ` {d \<in> set (?done @ es). sharesLabel uc (?done @ es) d}"
      using Cons.prems(1,2) by (intro Cons.IH) auto
    then show ?thesis using k None Cons.prems(3) [of k] by simp
  next
    case (Some f)
    then have f: "f \<in> set done" "entryKey uc f = Inr k" by (auto simp: find_Some_iff)
    have others: "d = f \<or> sharesLabel uc done d" if "d \<in> set done" "entryKey uc d = Inr k" for d
      using that f by (auto simp: sharesLabel_def)
    let ?ds = "List.insert (we_workspaceId e) (List.insert (we_workspaceId f) ds)"
    have "map_of m k' = map_option we_workspaceId (List.find (\<lambda>d. entryKey uc d = Inr k') ?done)" for k'
      using Cons.prems(3) [of k'] Some k by (cases "k' = k") (auto simp: find_snoc split: option.split)
    moreover have "set ?ds = we_workspaceId ` {d \<in> set ?done. sharesLabel uc ?done d}"
    proof -
      have "{d \<in> set ?done. sharesLabel uc ?done d} = insert e (insert f {d \<in> set done. sharesLabel uc done d})"
        unfolding shares using f others by auto
      then show ?thesis using Cons.prems(4) by simp
    qed
    ultimately have "\<exists>is. duplicateLabels uc m ?ds es = Inr is \<and>
        set is = we_workspaceId ` {d \<in> set (?done @ es). sharesLabel uc (?done @ es) d}"
      using Cons.prems(1,2) by (intro Cons.IH) auto
    then show ?thesis using k Some Cons.prems(3) [of k] by simp
  qed
qed auto

theorem findDuplicateWorkspaceLabelIds_correct:
  assumes "validRegistry r"
  shows "\<exists>is. findDuplicateWorkspaceLabelIds uc (wr_workspaces r) = Inr is \<and>
    set is = we_workspaceId ` {e \<in> set (wr_workspaces r). sharesLabel uc (wr_workspaces r) e}"
proof -
  have "distinct (wr_workspaces r)" using assms by (simp add: validRegistry_def distinct_map)
  then show ?thesis
    using duplicateLabels_set [of "[]" "wr_workspaces r" uc "[]" "[]"] assms entryKey_valid
    by (auto simp: findDuplicateWorkspaceLabelIds_def validRegistry_def)
qed
end
