(* ===== verification/ByteSlots.thy ===== *)
theory ByteSlots
  imports FileSlots
begin

text \<open>
  The store of one value in three slots
  (apps/desktop/src/workspaces/persistence/crashSafeByteSlotStore.ts): reading with repair,
  replacing, clearing. The value is what \<open>validateBytes\<close> makes of the bytes; it is an argument
  here as it is in the code.
\<close>

section \<open>The operations\<close>

fun inspectSlots :: "nat \<Rightarrow> (bytes \<Rightarrow> desktop_error + 'v) \<Rightarrow> slot list \<Rightarrow> (slot \<times> 'v) option io" where
  "inspectSlots maximumBytes validateBytes [] = returnIO None"
| "inspectSlots maximumBytes validateBytes (s # ss) =
     bindIO (readSlot maximumBytes s) (\<lambda>r. case r of
         None \<Rightarrow> inspectSlots maximumBytes validateBytes ss
       | Some bs \<Rightarrow> bindIO (liftIO (validateBytes bs)) (\<lambda>v. returnIO (Some (s, v))))"

definition inspect :: "nat \<Rightarrow> (bytes \<Rightarrow> desktop_error + 'v) \<Rightarrow> (slot \<times> 'v) option io" where
  "inspect maximumBytes validateBytes =
     inspectSlots maximumBytes validateBytes [Current, Backup, Next]"

definition repairSlots :: "slot \<Rightarrow> unit io" where
  "repairSlots selected = (case selected of
       Current \<Rightarrow>
         bindIO (removeSlot Next) (\<lambda>removedNext.
         bindIO (removeSlot Backup) (\<lambda>removedBackup.
           if removedNext \<or> removedBackup then syncDirectory else returnIO ()))
     | Backup \<Rightarrow>
         thenIO (removeSlot Next) (thenIO (moveSlot Backup Current) syncDirectory)
     | Next \<Rightarrow> thenIO (moveSlot Next Current) syncDirectory)"

definition recoverAndRead :: "nat \<Rightarrow> (bytes \<Rightarrow> desktop_error + 'v) \<Rightarrow> 'v option io" where
  "recoverAndRead maximumBytes validateBytes =
     bindIO (inspect maximumBytes validateBytes) (\<lambda>selected. case selected of
         None \<Rightarrow> returnIO None
       | Some (s, v) \<Rightarrow> thenIO (repairSlots s) (returnIO (Some v)))"

text \<open>
  \<open>replace\<close> of the code is one try statement whose finally clause closes the writer when it
  is still open and removes the new file unless it has been published. The clause does
  nothing after a success, so it is written here as what follows a throw in each part of the
  body, with the values the two variables have there.
\<close>

definition voidIO :: "'a io \<Rightarrow> unit io" where
  "voidIO m = thenIO m (returnIO ())"

definition ignoreIO :: "'a io \<Rightarrow> unit io" where
  "ignoreIO m = catchIO (voidIO m) (\<lambda>_. returnIO ())"

definition onThrow :: "'a io \<Rightarrow> unit io \<Rightarrow> 'a io" where
  "onThrow m f = catchIO m (\<lambda>e. thenIO f (throwIO e))"

definition discardNext :: "nat option \<Rightarrow> bool \<Rightarrow> unit io" where
  "discardNext writer nextPublished =
     thenIO (case writer of None \<Rightarrow> returnIO () | Some i \<Rightarrow> ignoreIO (writerClose i))
       (if nextPublished then returnIO () else ignoreIO (removeSlot Next))"

definition restoreBackupBestEffort :: "unit io" where
  "restoreBackupBestEffort = ignoreIO (thenIO (moveSlot Backup Current) syncDirectory)"

definition writeNext :: "nat \<Rightarrow> bytes \<Rightarrow> unit io" where
  "writeNext writer bs =
     bindIO (writerWrite writer bs) (\<lambda>bytesWritten.
       if bytesWritten \<noteq> length bs then throwIO CrashSafeByteSlotStoreError
       else thenIO (writerSync writer) (writerClose writer))"

definition publishNext :: "bool \<Rightarrow> unit io" where
  "publishNext hadCurrentValue =
     thenIO (if hadCurrentValue then moveSlot Current Backup else returnIO ())
       (onThrow (moveSlot Next Current)
         (if hadCurrentValue then restoreBackupBestEffort else returnIO ()))"

definition settleSlots :: "bool \<Rightarrow> unit io" where
  "settleSlots hadCurrentValue =
     thenIO syncDirectory
       (if hadCurrentValue then thenIO (removeSlot Backup) syncDirectory else returnIO ())"

definition replace :: "bytes \<Rightarrow> bool \<Rightarrow> unit io" where
  "replace bs hadCurrentValue =
     thenIO prepareDirectory
       (bindIO (onThrow createNextWriter (discardNext None False)) (\<lambda>writer.
         thenIO (onThrow (writeNext writer bs) (discardNext (Some writer) False))
           (thenIO (onThrow (publishNext hadCurrentValue) (discardNext None False))
             (onThrow (settleSlots hadCurrentValue) (discardNext None True)))))"

definition clear :: "unit io" where
  "clear = thenIO (removeSlot Next) (thenIO (removeSlot Backup)
     (thenIO (removeSlot Current) syncDirectory))"

section \<open>Invariants of the disk every operation keeps\<close>

text \<open>
  A property of the disk that the single calls keep is kept by the operations, however they
  end.
\<close>

abbreviation keeps :: "(disk \<Rightarrow> bool) \<Rightarrow> 'a io \<Rightarrow> bool" where
  "keeps I m \<equiv> runs I m (\<lambda>_. I) I I"

lemma keepsD:
  assumes "keeps I m" and "I d" and "m (d, fs) = (r, (d', fs'))"
  shows "I d'"
  using runsD [OF assms(1,2), of fs] assms(3) by (cases r) blast+

lemma keeps_return: "keeps I (returnIO x)"
  by (rule runs_return)

lemma keeps_throw: "keeps I (throwIO e)"
  by (rule runs_throw)

lemma keeps_bind: "keeps I m \<Longrightarrow> (\<And>x. keeps I (k x)) \<Longrightarrow> keeps I (bindIO m k)"
  by (rule runs_bind)

lemma keeps_then: "keeps I m \<Longrightarrow> keeps I k \<Longrightarrow> keeps I (thenIO m k)"
  by (rule runs_then)

lemma keeps_catch: "keeps I m \<Longrightarrow> (\<And>e. keeps I (h e)) \<Longrightarrow> keeps I (catchIO m h)"
  by (rule runs_catch)

lemma keeps_lift: "keeps I (liftIO r)"
  by (rule runs_lift)

lemma keeps_if: "keeps I m \<Longrightarrow> keeps I k \<Longrightarrow> keeps I (if b then m else k)"
  by simp

lemma keeps_void: "keeps I m \<Longrightarrow> keeps I (voidIO m)"
  unfolding voidIO_def by (intro keeps_then keeps_return)

lemma keeps_ignore: "keeps I m \<Longrightarrow> keeps I (ignoreIO m)"
  unfolding ignoreIO_def by (intro keeps_catch keeps_void keeps_return)

lemma keeps_onThrow: "keeps I m \<Longrightarrow> keeps I f \<Longrightarrow> keeps I (onThrow m f)"
  unfolding onThrow_def by (intro keeps_catch keeps_then keeps_throw)

lemma keeps_call: "(\<And>d. I d \<Longrightarrow> I (snd (f d))) \<Longrightarrow> keeps I (call f)"
proof (rule runs_call)
  fix d
  assume keep: "\<And>d. I d \<Longrightarrow> I (snd (f d))" and d: "I d"
  show "case f d of (Inr x, d') \<Rightarrow> I d' \<and> I d' \<and> I d' | (Inl _, d') \<Rightarrow> I d' \<and> I d'"
    using keep [OF d] by (cases "f d") (simp split: sum.split)
qed simp

lemmas keeps_rules = keeps_return keeps_throw keeps_bind keeps_then keeps_lift keeps_if
  keeps_void keeps_ignore keeps_onThrow

locale disk_invariant =
  fixes I :: "disk \<Rightarrow> bool"
  assumes I_ready: "I d \<Longrightarrow> I (d\<lparr>dk_ready := True\<rparr>)"
    and I_create: "I d \<Longrightarrow> I (snd (createFile d))"
    and I_open: "I d \<Longrightarrow> I (d\<lparr>dk_open := w\<rparr>)"
    and I_store: "I d \<Longrightarrow> I (storeBytes i bs d)"
    and I_flush: "I d \<Longrightarrow> I (d\<lparr>dk_flushed := (dk_flushed d)(i := True)\<rparr>)"
    and I_move: "I d \<Longrightarrow> I (changeDirectory ((dk_dir d)(t := dk_dir d s, s := None)) d)"
    and I_remove: "I d \<Longrightarrow> I (changeDirectory ((dk_dir d)(s := None)) d)"
    and I_sync: "I d \<Longrightarrow> I (d\<lparr>dk_past := []\<rparr>)"
begin

lemma prepareDirectory_keeps: "keeps I prepareDirectory"
  unfolding prepareDirectory_def by (rule keeps_call) (simp add: I_ready)

lemma readSlot_keeps: "keeps I (readSlot n s)"
  unfolding readSlot_def by (rule keeps_call) simp

lemma createNextWriter_keeps: "keeps I createNextWriter"
proof -
  have "keeps I (openWriter i)" for i
    by (auto simp: runs_def openWriter_def I_open)
  then show ?thesis
    unfolding createNextWriter_def by (intro keeps_bind keeps_call I_create)
qed

lemma assertOpen_keeps: "keeps I (assertOpen i)"
  by (simp add: runs_def assertOpen_def)

lemma writerWrite_keeps: "keeps I (writerWrite i bs)"
proof -
  have plain: "keeps I (call (\<lambda>d. (Inr (length bs), storeBytes i bs d)))"
    by (rule keeps_call) (simp add: I_store)
  have "keeps I (writeFile i bs)"
    using plain by (auto simp: runs_def writeFile_def I_store split: list.split fate.split)
  then show ?thesis
    unfolding writerWrite_def by (intro keeps_then assertOpen_keeps)
qed

lemma writerSync_keeps: "keeps I (writerSync i)"
  unfolding writerSync_def by (intro keeps_then assertOpen_keeps keeps_call) (simp add: I_flush)

lemma writerClose_keeps: "keeps I (writerClose i)"
proof -
  have "keeps I (call (\<lambda>d. (Inr (), d)))"
    by (rule keeps_call) simp
  then show ?thesis
    by (auto simp: runs_def writerClose_def I_open)
qed

lemma moveSlot_keeps: "keeps I (moveSlot s t)"
  unfolding moveSlot_def by (rule keeps_call) (simp add: I_move)

lemma removeSlot_keeps: "keeps I (removeSlot s)"
  unfolding removeSlot_def by (rule keeps_call) (simp add: I_remove)

lemma syncDirectory_keeps: "keeps I syncDirectory"
proof -
  have "keeps I (call (\<lambda>d. if \<not> dk_ready d then (Inl Unavailable, d) else (Inr (), d\<lparr>dk_past := []\<rparr>)))"
    by (rule keeps_call) (simp add: I_sync)
  then show ?thesis
    by (auto simp: runs_def syncDirectory_def)
qed

lemmas calls_keep = prepareDirectory_keeps readSlot_keeps createNextWriter_keeps writerWrite_keeps
  writerSync_keeps writerClose_keeps moveSlot_keeps removeSlot_keeps syncDirectory_keeps

lemma inspectSlots_keeps: "keeps I (inspectSlots n validate ss)"
  by (induction ss) (auto intro!: keeps_rules calls_keep split: option.split)

lemma repairSlots_keeps: "keeps I (repairSlots s)"
  unfolding repairSlots_def by (cases s) (auto intro!: keeps_rules calls_keep)

lemma recoverAndRead_keeps: "keeps I (recoverAndRead n validate)"
  unfolding recoverAndRead_def inspect_def
  by (intro keeps_bind inspectSlots_keeps) (auto intro!: keeps_rules repairSlots_keeps split: option.split)

lemma discardNext_keeps: "keeps I (discardNext w b)"
  unfolding discardNext_def by (auto intro!: keeps_rules calls_keep split: option.split)

lemma replace_keeps: "keeps I (replace bs had)"
  unfolding replace_def writeNext_def publishNext_def settleSlots_def restoreBackupBestEffort_def
  by (intro keeps_rules calls_keep discardNext_keeps)

lemma clear_keeps: "keeps I clear"
  unfolding clear_def by (intro keeps_rules calls_keep)

end
end
