(* ===== verification/SlotSafety.thy ===== *)
theory SlotSafety
  imports ByteSlots
begin

text \<open>
  What survives a crash. A promise is the list of values a later read may give: the last
  value whose writing was reported to have succeeded, and the values later writes tried to
  store; there is none before the first success. \<open>holds\<close> says that the disk keeps a promise
  whatever happens next: every directory state a power failure may bring back names a flushed
  file with a promised value, in the order in which the store reads the slots.
\<close>

section \<open>Promises\<close>

type_synonym promise = "bytes list option"

definition chosen :: "directory \<Rightarrow> nat option" where
  "chosen D = (case D Current of Some i \<Rightarrow> Some i | None \<Rightarrow> D Backup)"

definition keepsPromise :: "promise \<Rightarrow> disk \<Rightarrow> directory \<Rightarrow> bool" where
  "keepsPromise P d D = (case P of
       None \<Rightarrow> True
     | Some L \<Rightarrow> (case chosen D of
           None \<Rightarrow> False
         | Some i \<Rightarrow> dk_flushed d i \<and> dk_bytes d i \<in> set L))"

lemma chosen_Next [simp]: "chosen (D(Next := x)) = chosen D"
  by (simp add: chosen_def split: option.split)

text \<open>
  On Windows the directory is never flushed by the program; there a promise is one about the
  death of the process only.
\<close>

definition survivors :: "disk \<Rightarrow> directory list" where
  "survivors d = (if dk_windows d then [dk_dir d] else dk_past d @ [dk_dir d])"

definition allocated :: "disk \<Rightarrow> bool" where
  "allocated d \<longleftrightarrow> (\<forall>D \<in> set (dk_past d @ [dk_dir d]). \<forall>s i. D s = Some i \<longrightarrow> i < dk_fresh d)"

definition holds :: "promise \<Rightarrow> disk \<Rightarrow> bool" where
  "holds P d \<longleftrightarrow> allocated d \<and> (P \<noteq> None \<longrightarrow> dk_ready d) \<and>
     (\<forall>D \<in> set (survivors d). keepsPromise P d D)"

definition attempt :: "bytes \<Rightarrow> promise \<Rightarrow> promise" where
  "attempt bs P = map_option (\<lambda>L. L @ [bs]) P"

lemma keepsPromise_None [simp]: "keepsPromise None d D"
  by (simp add: keepsPromise_def)

lemma keepsPromise_Some:
  "keepsPromise (Some L) d D \<longleftrightarrow> (\<exists>i. chosen D = Some i \<and> dk_flushed d i \<and> dk_bytes d i \<in> set L)"
  by (simp add: keepsPromise_def split: option.split)

lemma keepsPromise_iff:
  "keepsPromise P d D \<longleftrightarrow>
     (\<forall>L. P = Some L \<longrightarrow> (\<exists>i. chosen D = Some i \<and> dk_flushed d i \<and> dk_bytes d i \<in> set L))"
  by (cases P) (simp_all add: keepsPromise_Some)

lemma keepsPromise_attempt: "keepsPromise P d D \<Longrightarrow> keepsPromise (attempt bs P) d D"
  by (auto simp: keepsPromise_iff attempt_def)

lemma holds_attempt: "holds P d \<Longrightarrow> holds (attempt bs P) d"
  by (auto simp: holds_def keepsPromise_attempt) (simp add: attempt_def)

lemma holds_allocated: "holds P d \<Longrightarrow> allocated d"
  by (simp add: holds_def)

lemma holds_None: "holds None d \<longleftrightarrow> allocated d"
  by (simp add: holds_def)

lemma survivors_changeDirectory:
  "set (survivors (changeDirectory D d)) \<subseteq> insert D (set (survivors d))"
  by (auto simp: survivors_def changeDirectory_def)

lemma keepsPromise_changeDirectory [simp]:
  "keepsPromise P (changeDirectory D' d) D = keepsPromise P d D"
  by (simp add: keepsPromise_def changeDirectory_def split: option.split)

lemma allocated_changeDirectory:
  "allocated d \<Longrightarrow> (\<And>s i. D s = Some i \<Longrightarrow> i < dk_fresh d) \<Longrightarrow> allocated (changeDirectory D d)"
  by (auto simp: allocated_def changeDirectory_def)

lemma allocated_dir: "allocated d \<Longrightarrow> dk_dir d s = Some i \<Longrightarrow> i < dk_fresh d"
  by (auto simp: allocated_def)

lemma holds_changeDirectory:
  assumes "holds P d" and "keepsPromise P d D" and "\<And>s i. D s = Some i \<Longrightarrow> i < dk_fresh d"
  shows "holds P (changeDirectory D d)"
proof -
  have "\<forall>D' \<in> set (survivors (changeDirectory D d)). keepsPromise P d D'"
    using assms(1,2) survivors_changeDirectory [of D d] by (auto simp: holds_def)
  then show ?thesis
    using assms by (simp add: holds_def allocated_changeDirectory) (simp add: changeDirectory_def)
qed

lemma holds_dir: "holds P d \<Longrightarrow> keepsPromise P d (dk_dir d)"
  by (simp add: holds_def survivors_def split: if_splits)

section \<open>Crashes\<close>

lemma holds_restart [simp]: "holds P (restart d) = holds P d"
  by (simp add: holds_def restart_def allocated_def survivors_def keepsPromise_def
    split: option.split)

lemma holds_powerFailure:
  assumes "holds P d" and "\<not> dk_windows d"
  shows "holds P (powerFailure k garbage d)"
proof -
  define D where "D = (dk_past d @ [dk_dir d]) ! min k (length (dk_past d))"
  have mem: "D \<in> set (dk_past d @ [dk_dir d])"
    unfolding D_def by (rule nth_mem) simp
  with assms have D: "keepsPromise P d D" "\<And>s i. D s = Some i \<Longrightarrow> i < dk_fresh d"
    by (auto simp: holds_def survivors_def allocated_def simp del: set_append)
  show ?thesis
    using assms D unfolding powerFailure_def D_def [symmetric]
    by (auto simp: holds_def allocated_def survivors_def keepsPromise_iff)
qed

section \<open>The calls keep promises\<close>

interpretation alloc: disk_invariant allocated
proof
  fix d :: disk and s t :: slot
  show "allocated (snd (createFile d))" if "allocated d"
    using that
    by (auto simp: createFile_def allocated_def changeDirectory_def less_Suc_eq
      split: if_splits)
  show "allocated (changeDirectory ((dk_dir d)(t := dk_dir d s, s := None)) d)" if "allocated d"
    using that by (intro allocated_changeDirectory) (auto dest: allocated_dir split: if_splits)
  show "allocated (changeDirectory ((dk_dir d)(s := None)) d)" if "allocated d"
    using that by (intro allocated_changeDirectory) (auto dest: allocated_dir split: if_splits)
qed (auto simp: allocated_def storeBytes_def)

interpretation platform: disk_invariant "\<lambda>d. dk_windows d = w"
  by unfold_locales (auto simp: createFile_def changeDirectory_def storeBytes_def)

lemma holds_frame:
  assumes "holds P d" and "dk_windows d' = dk_windows d" and "dk_ready d \<Longrightarrow> dk_ready d'"
    and "dk_dir d' = dk_dir d" and "set (dk_past d') \<subseteq> set (dk_past d)"
    and "dk_fresh d \<le> dk_fresh d'"
    and "\<And>D i. D \<in> set (survivors d) \<Longrightarrow> chosen D = Some i \<Longrightarrow> dk_flushed d i \<Longrightarrow>
      dk_flushed d' i \<and> dk_bytes d' i = dk_bytes d i"
  shows "holds P d'"
proof -
  have sub: "set (survivors d') \<subseteq> set (survivors d)"
    using assms(2,4,5) by (auto simp: survivors_def)
  have "keepsPromise P d' D" if "D \<in> set (survivors d')" for D
  proof -
    from that sub have D: "D \<in> set (survivors d)" by blast
    with assms(1) have "keepsPromise P d D" by (simp add: holds_def)
    with assms(7) [OF D] show ?thesis by (fastforce simp: keepsPromise_iff)
  qed
  moreover have "allocated d'"
    using assms(1,4,5,6) unfolding holds_def allocated_def
    by (metis Un_iff less_le_trans list.set(1,2) set_append subset_iff)
  ultimately show ?thesis
    using assms(1,3) by (simp add: holds_def)
qed

lemma holds_prepareDirectory:
  "runs (holds P) prepareDirectory (\<lambda>_ d. holds P d \<and> dk_ready d) (holds P) (holds P)"
  unfolding prepareDirectory_def by (rule runs_call) (auto elim: holds_frame)

lemma holds_readSlot: "keeps (holds P) (readSlot n s)"
  unfolding readSlot_def by (rule keeps_call) simp

lemma holds_syncDirectory: "keeps (holds P) syncDirectory"
proof -
  have "keeps (holds P) (call (\<lambda>d. if \<not> dk_ready d then (Inl Unavailable, d)
      else (Inr (), d\<lparr>dk_past := []\<rparr>)))"
    by (rule keeps_call) (auto elim: holds_frame)
  then show ?thesis by (auto simp: runs_def syncDirectory_def)
qed

lemma holds_writerClose: "keeps (holds P) (writerClose i)"
proof -
  have "keeps (holds P) (call (\<lambda>d. (Inr (), d)))" by (rule keeps_call) simp
  moreover have "holds P (d\<lparr>dk_open := None\<rparr>)" if "holds P d" for d
    using holds_restart [of P d] that by (simp add: restart_def)
  ultimately show ?thesis by (auto simp: runs_def writerClose_def)
qed

lemma holds_removeNext: "keeps (holds P) (removeSlot Next)"
  unfolding removeSlot_def
proof (rule keeps_call)
  fix d assume "holds P d"
  then show "holds P (snd (if \<not> dk_ready d \<or> dk_dir d Next = None then (Inr False, d)
      else (Inr True, changeDirectory ((dk_dir d)(Next := None)) d)))"
    using holds_dir [of P d] holds_allocated [of P d]
    by (auto intro!: holds_changeDirectory simp: keepsPromise_iff
      dest: allocated_dir split: if_splits)
qed

text \<open>A renaming between the two slots that are read first keeps the promise.\<close>

lemma holds_moveSlot:
  assumes "{s, t} = {Current, Backup}"
  shows "keeps (holds P) (moveSlot s t)"
  unfolding moveSlot_def
proof (rule keeps_call)
  fix d assume "holds P d"
  then show "holds P (snd (if \<not> dk_ready d \<or> dk_dir d s = None \<or> dk_dir d t \<noteq> None
      then (Inl Unavailable, d)
      else (Inr (), changeDirectory ((dk_dir d)(t := dk_dir d s, s := None)) d)))"
    using holds_dir [of P d] holds_allocated [of P d] assms
    by (auto intro!: holds_changeDirectory simp: keepsPromise_iff chosen_def doubleton_eq_iff
      dest: allocated_dir split: if_splits)
qed

lemma holds_removeBackup:
  "runs (\<lambda>d. holds P d \<and> dk_dir d Current \<noteq> None) (removeSlot Backup)
     (\<lambda>_ d. holds P d \<and> dk_dir d Current \<noteq> None) (holds P) (holds P)"
  unfolding removeSlot_def
proof (rule runs_call)
  fix d assume d: "holds P d \<and> dk_dir d Current \<noteq> None"
  let ?d = "changeDirectory ((dk_dir d)(Backup := None)) d"
  have "holds P ?d"
    using d holds_dir [of P d] holds_allocated [of P d]
    by (auto intro!: holds_changeDirectory simp: keepsPromise_iff chosen_def
      dest: allocated_dir split: if_splits)
  moreover have "dk_dir ?d Current \<noteq> None" using d by (simp add: changeDirectory_def)
  ultimately show "case if \<not> dk_ready d \<or> dk_dir d Backup = None then (Inr False, d) else (Inr True, ?d)
    of (Inr x, d') \<Rightarrow> (holds P d' \<and> dk_dir d' Current \<noteq> None) \<and> holds P d' \<and> holds P d'
     | (Inl _, d') \<Rightarrow> holds P d' \<and> holds P d'"
    using d by simp
qed simp

section \<open>Replacing the value\<close>

text \<open>
  The stages of a replacement: the new file exists and no surviving directory state reads it
  as the value; it holds the new bytes; they are flushed; it is the current value; every
  surviving state has it as the current value.
\<close>

definition writing :: "promise \<Rightarrow> nat \<Rightarrow> disk \<Rightarrow> bool" where
  "writing P i d \<longleftrightarrow> holds P d \<and> dk_ready d \<and> dk_dir d Next = Some i \<and>
     (\<forall>D \<in> set (survivors d). P \<noteq> None \<longrightarrow> chosen D \<noteq> Some i)"

definition stored :: "nat \<Rightarrow> bytes \<Rightarrow> disk \<Rightarrow> bool" where
  "stored i bs d \<longleftrightarrow> dk_flushed d i \<and> dk_bytes d i = bs"

definition published :: "promise \<Rightarrow> bytes \<Rightarrow> disk \<Rightarrow> bool" where
  "published P bs d \<longleftrightarrow> holds (attempt bs P) d \<and> dk_ready d \<and>
     (\<exists>i. dk_dir d Current = Some i \<and> stored i bs d)"

definition settled :: "bytes \<Rightarrow> disk \<Rightarrow> bool" where
  "settled bs d \<longleftrightarrow> holds (Some [bs]) d \<and> dk_dir d Current \<noteq> None"

lemma writing_holds: "writing P i d \<Longrightarrow> holds P d"
  by (simp add: writing_def)

lemma published_holds: "published P bs d \<Longrightarrow> holds (attempt bs P) d"
  by (simp add: published_def)

lemma writing_create:
  assumes "holds P d" and "dk_ready d" and "dk_dir d Next = None"
  shows "writing P (dk_fresh d) (snd (createFile d)) \<and> dk_bytes (snd (createFile d)) (dk_fresh d) = []"
proof -
  let ?d = "snd (createFile d)"
  let ?D = "(dk_dir d)(Next := Some (dk_fresh d))"
  have old: "chosen D \<noteq> Some (dk_fresh d)" if "D \<in> set (dk_past d @ [dk_dir d])" for D
  proof -
    from that holds_allocated [OF assms(1)] have "\<forall>s i. D s = Some i \<longrightarrow> i < dk_fresh d"
      unfolding allocated_def by blast
    then show ?thesis by (auto simp: chosen_def split: option.split)
  qed
  have alloc: "allocated ?d" using assms(1) by (intro alloc.I_create holds_allocated)
  have surv: "set (survivors ?d) \<subseteq> insert ?D (set (survivors d))"
    using assms(2,3) by (auto simp: createFile_def survivors_def changeDirectory_def)
  have past: "set (survivors d) \<subseteq> set (dk_past d @ [dk_dir d])"
    by (auto simp: survivors_def)
  have new: "chosen ?D \<noteq> Some (dk_fresh d)" using old [of "dk_dir d"] by simp
  have same: "keepsPromise P ?d D" if "keepsPromise P d D" "chosen D \<noteq> Some (dk_fresh d)" for D
    using that assms(2,3) by (fastforce simp: keepsPromise_iff createFile_def changeDirectory_def)
  have keep: "keepsPromise P ?d D \<and> chosen D \<noteq> Some (dk_fresh d)" if "D \<in> set (survivors ?d)" for D
  proof (cases "D = ?D")
    case True
    moreover have "keepsPromise P d ?D" using holds_dir [OF assms(1)] by (simp add: keepsPromise_iff)
    ultimately show ?thesis using new same by simp
  next
    case False
    with that surv past have "D \<in> set (survivors d)" "D \<in> set (dk_past d @ [dk_dir d])" by auto
    then show ?thesis using old same assms(1) by (simp add: holds_def)
  qed
  have "dk_ready ?d" "dk_dir ?d Next = Some (dk_fresh d)" "dk_bytes ?d (dk_fresh d) = []"
    using assms(2,3) by (simp_all add: createFile_def changeDirectory_def)
  with alloc keep show ?thesis by (simp add: writing_def holds_def)
qed

lemma survivors_update [simp]:
  "survivors (d\<lparr>dk_open := w\<rparr>) = survivors d"
  "survivors (d\<lparr>dk_flushed := u\<rparr>) = survivors d"
  "survivors (storeBytes i bs d) = survivors d"
  by (simp_all add: survivors_def storeBytes_def)

lemma writing_open: "writing P i d \<Longrightarrow> writing P i (d\<lparr>dk_open := w\<rparr>)"
  by (auto simp: writing_def elim: holds_frame)

lemma writing_createNextWriter:
  "runs (\<lambda>d. holds P d \<and> dk_ready d) createNextWriter
     (\<lambda>i d. writing P i d \<and> dk_bytes d i = []) (holds P) (holds P)"
  unfolding createNextWriter_def
proof (rule runs_bind)
  show "runs (\<lambda>d. holds P d \<and> dk_ready d) (call createFile)
      (\<lambda>i d. writing P i d \<and> dk_bytes d i = []) (holds P) (holds P)"
  proof (rule runs_call)
    fix d assume d: "holds P d \<and> dk_ready d"
    show "case createFile d of
        (Inr i, d') \<Rightarrow> (writing P i d' \<and> dk_bytes d' i = []) \<and> holds P d' \<and> holds P d'
      | (Inl _, d') \<Rightarrow> holds P d' \<and> holds P d'"
    proof (cases "dk_dir d Next")
      case None
      then show ?thesis
        using writing_create [of P d] writing_holds d by (simp add: createFile_def)
    qed (use d in \<open>simp add: createFile_def\<close>)
  qed simp
  show "runs (\<lambda>d. writing P i d \<and> dk_bytes d i = []) (openWriter i)
      (\<lambda>i d. writing P i d \<and> dk_bytes d i = []) (holds P) (holds P)" for i
    by (simp add: runs_def openWriter_def writing_open)
qed

lemma writing_change:
  assumes "writing P i d" and "survivors d' = survivors d" and "dk_windows d' = dk_windows d"
    and "dk_ready d' = dk_ready d" and "dk_dir d' = dk_dir d" and "dk_past d' = dk_past d"
    and "dk_fresh d' = dk_fresh d"
    and "\<And>j. j \<noteq> i \<Longrightarrow> dk_flushed d' j = dk_flushed d j \<and> dk_bytes d' j = dk_bytes d j"
  shows "writing P i d'"
proof (cases P)
  case None
  with assms show ?thesis by (simp add: writing_def holds_None allocated_def)
next
  case (Some L)
  with assms have "chosen D \<noteq> Some i" if "D \<in> set (survivors d)" for D
    using that by (simp add: writing_def)
  then have "dk_flushed d' j = dk_flushed d j \<and> dk_bytes d' j = dk_bytes d j"
    if "D \<in> set (survivors d)" "chosen D = Some j" for D j
    using that by (intro assms(8)) auto
  with assms have "holds P d'"
    by (intro holds_frame [of P d d']) (simp_all add: writing_def)
  with assms show ?thesis by (simp add: writing_def)
qed

lemma writing_store: "writing P i d \<Longrightarrow> writing P i (storeBytes i bs d)"
  by (erule writing_change) (auto simp: storeBytes_def survivors_def)

lemma writing_flush:
  "writing P i d \<Longrightarrow> writing P i (d\<lparr>dk_flushed := (dk_flushed d)(i := True)\<rparr>)"
  by (erule writing_change) (auto simp: survivors_def)

lemma runs_assertOpen: "(\<And>d. P d \<Longrightarrow> E d) \<Longrightarrow> runs P (assertOpen i) (\<lambda>_. P) E C"
  by (simp add: runs_def assertOpen_def)

lemma writing_write:
  "runs (\<lambda>d. writing P i d \<and> dk_bytes d i = []) (writerWrite i bs)
     (\<lambda>n d. writing P i d \<and> (n = length bs \<longrightarrow> dk_bytes d i = bs)) (holds P) (holds P)"
    (is "runs ?P _ ?Q _ _")
proof -
  have store: "writing P i (storeBytes i cs d) \<and> dk_bytes (storeBytes i cs d) i = cs"
    if "?P d" for d cs
    using that writing_store [of P i d cs] by (simp add: storeBytes_def)
  then have holds: "holds P (storeBytes i cs d)" if "?P d" for d cs
    using that by (blast intro: writing_holds)
  have plain: "runs ?P (call (\<lambda>d. (Inr (length bs), storeBytes i bs d))) ?Q (holds P) (holds P)"
    by (rule runs_call) (use store holds writing_holds in auto)
  have full: "take n bs = bs" if "min (length bs) n = length bs" for n
    using that by (simp add: min_def split: if_splits)
  have "runs ?P (writeFile i bs) ?Q (holds P) (holds P)"
    using plain [unfolded runs_def, rule_format] store [of _ "take _ bs"] store [of _ bs]
      holds [of _ "take _ bs"] full
    unfolding runs_def writeFile_def by (auto split: list.split fate.split)
  then show ?thesis
    unfolding writerWrite_def by (intro runs_then [OF runs_assertOpen]) (auto dest: writing_holds)
qed

lemma writing_sync:
  "runs (\<lambda>d. writing P i d \<and> dk_bytes d i = bs) (writerSync i)
     (\<lambda>_ d. writing P i d \<and> stored i bs d) (holds P) (holds P)"
proof -
  have "runs (\<lambda>d. writing P i d \<and> dk_bytes d i = bs)
      (call (\<lambda>d. (Inr (), d\<lparr>dk_flushed := (dk_flushed d)(i := True)\<rparr>)))
      (\<lambda>_ d. writing P i d \<and> stored i bs d) (holds P) (holds P)"
    by (rule runs_call) (auto simp: stored_def intro: writing_holds writing_flush)
  then show ?thesis
    unfolding writerSync_def by (intro runs_then [OF runs_assertOpen]) (auto dest: writing_holds)
qed

lemma writing_close:
  "runs (\<lambda>d. writing P i d \<and> stored i bs d) (writerClose i)
     (\<lambda>_ d. writing P i d \<and> stored i bs d) (holds P) (holds P)"
proof -
  let ?W = "\<lambda>d. writing P i d \<and> stored i bs d"
  have call: "runs ?W (call (\<lambda>d. (Inr (), d))) (\<lambda>_. ?W) (holds P) (holds P)"
    by (rule runs_call) (auto intro: writing_holds)
  have "?W (d\<lparr>dk_open := None\<rparr>)" if "?W d" for d
    using that by (simp add: writing_open stored_def)
  with call show ?thesis by (simp add: runs_def writerClose_def)
qed

lemma writing_writeNext:
  "runs (\<lambda>d. writing P i d \<and> dk_bytes d i = []) (writeNext i bs)
     (\<lambda>_ d. writing P i d \<and> stored i bs d) (holds P) (holds P)"
  unfolding writeNext_def
proof (rule runs_bind [OF writing_write], rule runs_if)
  fix n
  let ?R = "\<lambda>d. writing P i d \<and> (n = length bs \<longrightarrow> dk_bytes d i = bs)"
  show "runs ?R (throwIO CrashSafeByteSlotStoreError) (\<lambda>_ d. writing P i d \<and> stored i bs d)
      (holds P) (holds P)"
    by (rule runs_throw) (auto intro: writing_holds)
  assume "\<not> n \<noteq> length bs"
  then show "runs ?R (thenIO (writerSync i) (writerClose i))
      (\<lambda>_ d. writing P i d \<and> stored i bs d) (holds P) (holds P)"
    using runs_then [OF writing_sync writing_close] by simp
qed

lemma holds_cleanup: "keeps (holds P) (discardNext writer False)"
  unfolding discardNext_def
  by (auto intro!: keeps_rules holds_writerClose holds_removeNext split: option.split)

lemma holds_restoreBackup: "keeps (holds P) restoreBackupBestEffort"
  unfolding restoreBackupBestEffort_def
  by (intro keeps_rules holds_moveSlot holds_syncDirectory) auto

lemma runs_onThrow:
  assumes "runs P m Q E C" and "runs E f (\<lambda>_. E) E C"
  shows "runs P (onThrow m f) Q E C"
  unfolding onThrow_def
  by (rule runs_catch [OF assms(1)], rule runs_then [OF assms(2)], rule runs_throw)

lemma moved_away:
  "runs (\<lambda>d. writing P i d \<and> stored i bs d) (moveSlot Current Backup)
     (\<lambda>_ d. (holds P d \<and> dk_ready d \<and> dk_dir d Next = Some i) \<and> stored i bs d)
     (holds P) (holds P)"
  unfolding moveSlot_def
proof (rule runs_call)
  fix d assume d: "writing P i d \<and> stored i bs d"
  let ?d = "changeDirectory ((dk_dir d)(Backup := dk_dir d Current, Current := None)) d"
  have "holds P ?d" if "dk_dir d Backup = None"
    using d that holds_dir [of P d] holds_allocated [of P d]
    by (auto intro!: holds_changeDirectory simp: writing_def keepsPromise_iff chosen_def
      dest: allocated_dir split: if_splits option.splits)
  then show "case if \<not> dk_ready d \<or> dk_dir d Current = None \<or> dk_dir d Backup \<noteq> None
      then (Inl Unavailable, d) else (Inr (), ?d) of
        (Inr x, d') \<Rightarrow> ((holds P d' \<and> dk_ready d' \<and> dk_dir d' Next = Some i) \<and> stored i bs d')
          \<and> holds P d' \<and> holds P d'
      | (Inl _, d') \<Rightarrow> holds P d' \<and> holds P d'"
    using d by (simp add: writing_def changeDirectory_def stored_def)
qed (simp add: writing_def)

lemma moved_in:
  "runs (\<lambda>d. (holds P d \<and> dk_ready d \<and> dk_dir d Next = Some i) \<and> stored i bs d)
     (moveSlot Next Current) (\<lambda>_. published P bs) (holds (attempt bs P)) (holds (attempt bs P))"
  unfolding moveSlot_def
proof (rule runs_call)
  fix d assume d: "(holds P d \<and> dk_ready d \<and> dk_dir d Next = Some i) \<and> stored i bs d"
  let ?d = "changeDirectory ((dk_dir d)(Current := dk_dir d Next, Next := None)) d"
  have "keepsPromise (attempt bs P) d ((dk_dir d)(Current := dk_dir d Next, Next := None))"
    using d by (auto simp: keepsPromise_iff attempt_def chosen_def stored_def)
  then have "holds (attempt bs P) ?d"
    using d holds_allocated [of P d]
    by (auto intro!: holds_changeDirectory [OF holds_attempt] dest: allocated_dir split: if_splits)
  then show "case if \<not> dk_ready d \<or> dk_dir d Next = None \<or> dk_dir d Current \<noteq> None
      then (Inl Unavailable, d) else (Inr (), ?d) of
        (Inr x, d') \<Rightarrow> published P bs d' \<and> holds (attempt bs P) d' \<and> holds (attempt bs P) d'
      | (Inl _, d') \<Rightarrow> holds (attempt bs P) d' \<and> holds (attempt bs P) d'"
    using d by (simp add: published_def changeDirectory_def stored_def holds_attempt)
qed (simp add: holds_attempt)

lemma publishes:
  "runs (\<lambda>d. writing P i d \<and> stored i bs d) (publishNext had)
     (\<lambda>_. published P bs) (holds (attempt bs P)) (holds (attempt bs P))"
proof -
  let ?R = "\<lambda>d. (holds P d \<and> dk_ready d \<and> dk_dir d Next = Some i) \<and> stored i bs d"
  have "runs (\<lambda>d. writing P i d \<and> stored i bs d) (if had then moveSlot Current Backup else returnIO ())
      (\<lambda>_. ?R) (holds (attempt bs P)) (holds (attempt bs P))"
    by (intro runs_if runs_return runs_weaken [OF moved_away [of P i bs]])
      (auto intro: holds_attempt simp: writing_def)
  moreover have "keeps (holds (attempt bs P)) (if had then restoreBackupBestEffort else returnIO ())"
    by (intro keeps_if holds_restoreBackup keeps_return)
  ultimately show ?thesis
    unfolding publishNext_def by (rule runs_then [OF _ runs_onThrow [OF moved_in]])
qed

text \<open>
  Once the directory is flushed after the publication, no earlier state survives, and the new
  value alone is promised.
\<close>

lemma settles_first:
  "runs (published P bs) syncDirectory (\<lambda>_. settled bs)
     (holds (attempt bs P)) (holds (attempt bs P))"
proof -
  have new: "holds (Some [bs]) d'"
    if "published P bs d" "survivors d' = [dk_dir d]" "d' = d\<lparr>dk_past := ps\<rparr>"
      "set ps \<subseteq> set (dk_past d)" for d d' ps
    using that by (auto simp: published_def holds_def allocated_def keepsPromise_iff chosen_def
      stored_def)
  have "settled bs (d\<lparr>dk_past := []\<rparr>)" if "published P bs d" for d
    using new [of d "d\<lparr>dk_past := []\<rparr>" "[]"] that
    by (auto simp: settled_def survivors_def published_def)
  moreover have "settled bs d" if "published P bs d" "dk_windows d" for d
    using new [of d d "dk_past d"] that by (auto simp: settled_def survivors_def published_def)
  moreover have "holds (attempt bs P) (d\<lparr>dk_past := []\<rparr>)" if "published P bs d" for d
    using published_holds [OF that] by (auto elim: holds_frame)
  ultimately have "runs (\<lambda>d. published P bs d)
      (call (\<lambda>d. if \<not> dk_ready d then (Inl Unavailable, d) else (Inr (), d\<lparr>dk_past := []\<rparr>)))
      (\<lambda>_. settled bs) (holds (attempt bs P)) (holds (attempt bs P))"
    and "\<And>d. published P bs d \<Longrightarrow> dk_windows d \<Longrightarrow> settled bs d"
    using published_holds [of P bs] by (auto intro!: runs_call split: if_splits)
  then show ?thesis by (simp add: runs_def syncDirectory_def)
qed

lemma settled_removeBackup:
  "runs (settled bs) (removeSlot Backup) (\<lambda>_. settled bs) (settled bs) (settled bs)"
  unfolding removeSlot_def
proof (rule keeps_call)
  fix d assume d: "settled bs d"
  have "holds (Some [bs]) (changeDirectory ((dk_dir d)(Backup := None)) d)"
    using d holds_dir [of "Some [bs]" d] holds_allocated [of "Some [bs]" d]
    by (auto intro!: holds_changeDirectory simp: settled_def keepsPromise_iff chosen_def
      dest: allocated_dir split: if_splits)
  then show "settled bs (snd (if \<not> dk_ready d \<or> dk_dir d Backup = None then (Inr False, d)
      else (Inr True, changeDirectory ((dk_dir d)(Backup := None)) d)))"
    using d by (simp add: settled_def changeDirectory_def)
qed

lemma settled_syncDirectory:
  "runs (settled bs) syncDirectory (\<lambda>_. settled bs) (settled bs) (settled bs)"
proof -
  have "keeps (settled bs) (call (\<lambda>d. if \<not> dk_ready d then (Inl Unavailable, d)
      else (Inr (), d\<lparr>dk_past := []\<rparr>)))"
    by (rule keeps_call) (auto simp: settled_def elim: holds_frame)
  then show ?thesis by (auto simp: runs_def syncDirectory_def)
qed

lemma settled_attempt: "settled bs d \<Longrightarrow> P = Some L \<or> P = None \<Longrightarrow> holds (attempt bs P) d"
  by (auto simp: settled_def attempt_def holds_def keepsPromise_iff)

lemma settles:
  "runs (published P bs) (settleSlots had) (\<lambda>_. settled bs)
     (holds (attempt bs P)) (holds (attempt bs P))"
proof -
  have "holds (attempt bs P) d" if "settled bs d" for d
    using that by (cases P) (auto intro: settled_attempt)
  then have "runs (settled bs) (if had then thenIO (removeSlot Backup) syncDirectory else returnIO ())
      (\<lambda>_. settled bs) (holds (attempt bs P)) (holds (attempt bs P))"
    by (intro runs_if runs_return runs_weaken
        [OF runs_then [OF settled_removeBackup settled_syncDirectory]]) auto
  then show ?thesis
    unfolding settleSlots_def by (rule runs_then [OF settles_first])
qed

theorem replace_runs:
  "runs (holds P) (replace bs had) (\<lambda>_. settled bs)
     (holds (attempt bs P)) (holds (attempt bs P))"
  unfolding replace_def
proof (rule runs_then)
  let ?A = "holds (attempt bs P)"
  let ?R = "\<lambda>d. holds P d \<and> dk_ready d"
  show "runs (holds P) prepareDirectory (\<lambda>_. ?R) ?A ?A"
    by (rule runs_weaken [OF holds_prepareDirectory [of P]]) (auto intro: holds_attempt)
  have create: "runs ?R (onThrow createNextWriter (discardNext None False))
      (\<lambda>i d. writing P i d \<and> dk_bytes d i = []) ?A ?A"
    by (rule runs_weaken [OF runs_onThrow [OF writing_createNextWriter [of P] holds_cleanup]])
      (auto intro: holds_attempt)
  have fill: "runs (\<lambda>d. writing P i d \<and> dk_bytes d i = [])
      (onThrow (writeNext i bs) (discardNext (Some i) False))
      (\<lambda>_ d. writing P i d \<and> stored i bs d) ?A ?A" for i
    by (rule runs_weaken [OF runs_onThrow [OF writing_writeNext [of P i bs] holds_cleanup]])
      (auto intro: holds_attempt)
  have publish: "runs (\<lambda>d. writing P i d \<and> stored i bs d)
      (onThrow (publishNext had) (discardNext None False)) (\<lambda>_. published P bs) ?A ?A" for i
    by (rule runs_onThrow [OF publishes holds_cleanup])
  have settle: "runs (published P bs) (onThrow (settleSlots had) (discardNext None True))
      (\<lambda>_. settled bs) ?A ?A"
    by (rule runs_onThrow [OF settles]) (auto simp: discardNext_def intro!: keeps_rules)
  show "runs ?R (bindIO (onThrow createNextWriter (discardNext None False)) (\<lambda>writer.
         thenIO (onThrow (writeNext writer bs) (discardNext (Some writer) False))
           (thenIO (onThrow (publishNext had) (discardNext None False))
             (onThrow (settleSlots had) (discardNext None True)))))
      (\<lambda>_. settled bs) ?A ?A"
    by (rule runs_bind [OF create], rule runs_then [OF fill], rule runs_then [OF publish],
        rule settle)
qed

section \<open>Reading the value\<close>

text \<open>A read that returns a value returns a promised one, and leaves it in the current slot.\<close>

definition reads :: "promise \<Rightarrow> (bytes \<Rightarrow> desktop_error + 'v) \<Rightarrow> 'v option \<Rightarrow> bool" where
  "reads P validateBytes r \<longleftrightarrow>
     (\<forall>L. P = Some L \<longrightarrow> (\<exists>bs \<in> set L. \<exists>v. validateBytes bs = Inr v \<and> r = Some v))"

definition selects :: "promise \<Rightarrow> (bytes \<Rightarrow> desktop_error + 'v) \<Rightarrow> (slot \<times> 'v) option \<Rightarrow> disk \<Rightarrow> bool"
  where
  "selects P validateBytes r d \<longleftrightarrow> holds P d \<and> reads P validateBytes (map_option snd r) \<and>
     (\<forall>s v. r = Some (s, v) \<longrightarrow> dk_dir d s \<noteq> None \<and>
        (s \<noteq> Current \<longrightarrow> P \<noteq> None \<longrightarrow> s = Backup \<and> dk_dir d Current = None))"

lemma selects_found:
  assumes "holds P d" and "dk_dir d s = Some i" and "dk_bytes d i = bs" and "validateBytes bs = Inr v"
    and "P \<noteq> None \<Longrightarrow> chosen (dk_dir d) = Some i \<and> (s = Current \<or> s = Backup \<and> dk_dir d Current = None)"
  shows "selects P validateBytes (Some (s, v)) d"
  using assms holds_dir [OF assms(1)] by (fastforce simp: selects_def reads_def keepsPromise_iff)

lemma inspect_result:
  "runs (holds P) (inspect n validateBytes) (selects P validateBytes) (holds P) (holds P)"
proof -
  define missing where "missing ss d \<longleftrightarrow> holds P d \<and> (\<forall>s \<in> ss. P \<noteq> None \<longrightarrow> dk_dir d s = None)"
    for ss d
  have step: "runs (missing ss) (readSlot n s)
      (\<lambda>r d. missing ss d \<and> (case r of
         None \<Rightarrow> missing (insert s ss) d
       | Some bs \<Rightarrow> \<exists>i. dk_dir d s = Some i \<and> dk_bytes d i = bs)) (holds P) (holds P)" for ss s
    unfolding readSlot_def
    by (rule runs_call) (auto simp: missing_def holds_def split: option.split)
  have found: "runs (\<lambda>d. missing ss d \<and> (\<exists>i. dk_dir d s = Some i \<and> dk_bytes d i = bs))
      (bindIO (liftIO (validateBytes bs)) (\<lambda>v. returnIO (Some (s, v))))
      (selects P validateBytes) (holds P) (holds P)"
    if "\<And>d. missing ss d \<Longrightarrow> dk_dir d s \<noteq> None \<Longrightarrow> P \<noteq> None \<Longrightarrow>
      chosen (dk_dir d) = dk_dir d s \<and> (s = Current \<or> s = Backup \<and> dk_dir d Current = None)"
    for ss s bs
    using that
    by (intro runs_bind [where R = "\<lambda>v d. missing ss d \<and> validateBytes bs = Inr v \<and>
          (\<exists>i. dk_dir d s = Some i \<and> dk_bytes d i = bs)"] runs_lift runs_return)
      (auto intro!: selects_found simp: missing_def)
  have none: "runs (missing {Current, Backup, Next}) (returnIO None) (selects P validateBytes)
      (holds P) (holds P)"
    using holds_dir [of P]
    by (intro runs_return) (fastforce simp: missing_def selects_def reads_def keepsPromise_iff chosen_def
      split: option.splits)
  have absurd: "\<not> (missing {Current, Backup} d \<and> P \<noteq> None)" for d
    using holds_dir [of P d] by (auto simp: missing_def keepsPromise_iff chosen_def split: option.splits)
  have pick: "runs (\<lambda>d. missing ss d \<and> (case r of None \<Rightarrow> missing (insert s ss) d
        | Some bs \<Rightarrow> \<exists>i. dk_dir d s = Some i \<and> dk_bytes d i = bs))
      (case r of None \<Rightarrow> m
        | Some bs \<Rightarrow> bindIO (liftIO (validateBytes bs)) (\<lambda>v. returnIO (Some (s, v))))
      (selects P validateBytes) (holds P) (holds P)"
    if "runs (missing (insert s ss)) m (selects P validateBytes) (holds P) (holds P)"
      and "\<And>d. missing ss d \<Longrightarrow> dk_dir d s \<noteq> None \<Longrightarrow> P \<noteq> None \<Longrightarrow>
        chosen (dk_dir d) = dk_dir d s \<and> (s = Current \<or> s = Backup \<and> dk_dir d Current = None)"
    for ss s r m
  proof (cases r)
    case None
    then show ?thesis by (simp, intro runs_weaken [OF that(1)]) auto
  next
    case (Some bs)
    then show ?thesis using found [OF that(2)] by simp
  qed
  have only_next: "runs (missing {Current, Backup}) (inspectSlots n validateBytes [Next])
      (selects P validateBytes) (holds P) (holds P)"
    unfolding inspectSlots.simps using absurd none
    by (intro runs_bind [OF step] pick) (auto simp: insert_commute)
  have backup: "runs (missing {Current}) (inspectSlots n validateBytes [Backup, Next])
      (selects P validateBytes) (holds P) (holds P)"
    unfolding inspectSlots.simps(2) [of _ _ Backup]
    by (intro runs_bind [OF step] pick)
      (use only_next in \<open>auto simp: insert_commute missing_def chosen_def\<close>)
  have "runs (missing {}) (inspectSlots n validateBytes [Current, Backup, Next])
      (selects P validateBytes) (holds P) (holds P)"
    unfolding inspectSlots.simps(2) [of _ _ Current]
    by (intro runs_bind [OF step] pick) (use backup in \<open>auto simp: chosen_def\<close>)
  moreover have "missing {} = holds P" by (rule ext) (simp add: missing_def)
  ultimately show ?thesis by (simp only: inspect_def)
qed

lemma current_kept:
  assumes "keeps (holds P) m" and "runs (\<lambda>d. dk_dir d Current \<noteq> None) m
      (\<lambda>_ d. dk_dir d Current \<noteq> None) (\<lambda>_. True) (\<lambda>_. True)"
  shows "runs (\<lambda>d. holds P d \<and> dk_dir d Current \<noteq> None) m
      (\<lambda>_ d. holds P d \<and> dk_dir d Current \<noteq> None) (holds P) (holds P)"
  using runs_conj [OF assms] by simp

lemma current_removeNext:
  "runs (\<lambda>d. holds P d \<and> dk_dir d Current \<noteq> None) (removeSlot Next)
     (\<lambda>_ d. holds P d \<and> dk_dir d Current \<noteq> None) (holds P) (holds P)"
  by (rule current_kept [OF holds_removeNext])
    (auto simp: removeSlot_def changeDirectory_def intro!: runs_call split: if_splits)

lemma current_syncDirectory:
  "runs (\<lambda>d. holds P d \<and> dk_dir d Current \<noteq> None) syncDirectory
     (\<lambda>_ d. holds P d \<and> dk_dir d Current \<noteq> None) (holds P) (holds P)"
proof (rule current_kept [OF holds_syncDirectory])
  have "runs (\<lambda>d. dk_dir d Current \<noteq> None) (call (\<lambda>d. if \<not> dk_ready d then (Inl Unavailable, d)
      else (Inr (), d\<lparr>dk_past := []\<rparr>)))
      (\<lambda>_ d. dk_dir d Current \<noteq> None) (\<lambda>_. True) (\<lambda>_. True)"
    by (rule runs_call) auto
  then show "runs (\<lambda>d. dk_dir d Current \<noteq> None) syncDirectory
      (\<lambda>_ d. dk_dir d Current \<noteq> None) (\<lambda>_. True) (\<lambda>_. True)"
    by (simp add: runs_def syncDirectory_def)
qed

lemma current_moveSlot:
  "runs (holds P) (moveSlot Backup Current)
     (\<lambda>_ d. holds P d \<and> dk_dir d Current \<noteq> None) (holds P) (holds P)"
proof -
  have "runs (\<lambda>_. True) (moveSlot Backup Current) (\<lambda>_ d. dk_dir d Current \<noteq> None) (\<lambda>_. True) (\<lambda>_. True)"
    unfolding moveSlot_def by (rule runs_call) (auto simp: changeDirectory_def)
  from runs_conj [OF holds_moveSlot [OF insert_commute] this] show ?thesis by simp
qed

theorem recoverAndRead_runs:
  "runs (holds (Some L)) (recoverAndRead n validateBytes)
     (\<lambda>r d. (holds (Some L) d \<and> dk_dir d Current \<noteq> None) \<and> reads (Some L) validateBytes r)
     (holds (Some L)) (holds (Some L))"
    (is "runs ?H _ _ _ _")
  unfolding recoverAndRead_def
proof (rule runs_bind [OF inspect_result])
  fix r :: "(slot \<times> 'a) option"
  let ?C = "\<lambda>d. ?H d \<and> dk_dir d Current \<noteq> None"
  have current: "runs ?C (repairSlots Current) (\<lambda>_. ?C) ?H ?H"
  proof -
    have sync: "runs ?C (if a \<or> b then syncDirectory else returnIO ()) (\<lambda>_. ?C) ?H ?H" for a b
      by (intro runs_if runs_return current_syncDirectory)
    show ?thesis
      unfolding repairSlots_def slot.case
      by (rule runs_bind [OF current_removeNext], rule runs_bind [OF holds_removeBackup], rule sync)
  qed
  have backup: "runs ?H (repairSlots Backup) (\<lambda>_. ?C) ?H ?H"
    unfolding repairSlots_def slot.case
    by (rule runs_then [OF holds_removeNext], rule runs_then [OF current_moveSlot],
        rule current_syncDirectory)
  show "runs (selects (Some L) validateBytes r)
      (case r of None \<Rightarrow> returnIO None | Some (s, v) \<Rightarrow> thenIO (repairSlots s) (returnIO (Some v)))
      (\<lambda>r d. ?C d \<and> reads (Some L) validateBytes r) ?H ?H"
  proof (cases "\<exists>s v. r = Some (s, v) \<and> reads (Some L) validateBytes (Some v)
      \<and> (s = Current \<or> s = Backup)")
    case True
    then obtain s v where r: "r = Some (s, v)" "reads (Some L) validateBytes (Some v)"
      and s: "s = Current \<or> s = Backup" by blast
    from s have repair: "runs (selects (Some L) validateBytes r) (repairSlots s) (\<lambda>_. ?C) ?H ?H"
    proof
      assume "s = Current"
      with r show ?thesis by (simp, intro runs_weaken [OF current]) (auto simp: selects_def)
    next
      assume "s = Backup"
      with r show ?thesis by (simp, intro runs_weaken [OF backup]) (auto simp: selects_def)
    qed
    have "runs ?C (returnIO (Some v)) (\<lambda>r d. ?C d \<and> reads (Some L) validateBytes r) ?H ?H"
      by (rule runs_return) (simp add: r(2))
    from runs_then [OF repair this] show ?thesis by (simp add: r(1))
  next
    case False
    then have "\<not> selects (Some L) validateBytes r d" for d
      by (cases r) (auto simp: selects_def reads_def)
    then show ?thesis by (simp add: runs_def)
  qed
qed

section \<open>Runs without faults\<close>

text \<open>
  When every call works, a disk that keeps a promise of readable values is read and repaired,
  and a repaired disk takes a new value.
\<close>

definition clean :: "disk \<Rightarrow> bool" where
  "clean d \<longleftrightarrow> dk_dir d Next = None \<and> dk_dir d Backup = None"

lemma call_works [simp]: "call f (d, []) = answer (f d) []"
  by (simp add: call.simps)

lemmas quiet_simps = bindIO_def thenIO_def catchIO_def returnIO_def throwIO_def liftIO_def answer_def
  onThrow_def voidIO_def ignoreIO_def

lemma readSlot_works:
  assumes "dk_ready d" and "dk_dir d s = Some i" and "1 \<le> length (dk_bytes d i)"
    and "length (dk_bytes d i) \<le> n"
  shows "readSlot n s (d, []) = (Returned (Some (dk_bytes d i)), (d, []))"
  using assms by (auto simp: readSlot_def answer_def)

lemma readSlot_missing:
  "dk_ready d \<Longrightarrow> dk_dir d s = None \<Longrightarrow> readSlot n s (d, []) = (Returned None, (d, []))"
  by (simp add: readSlot_def answer_def)

lemma repairSlots_works:
  assumes "dk_ready d" and "s = Current \<or> s = Backup \<and> dk_dir d Current = None"
    and "dk_dir d s \<noteq> None"
  shows "\<exists>d'. repairSlots s (d, []) = (Returned (), (d', [])) \<and> clean d'"
  using assms
  by (auto simp: repairSlots_def removeSlot_def moveSlot_def syncDirectory_def quiet_simps
      changeDirectory_def clean_def)

theorem recoverAndRead_works:
  assumes "holds (Some L) d"
    and "\<forall>bs \<in> set L. 1 \<le> length bs \<and> length bs \<le> n \<and> (\<exists>v. validateBytes bs = Inr v)"
  shows "\<exists>v d'. recoverAndRead n validateBytes (d, []) = (Returned (Some v), (d', [])) \<and> clean d' \<and>
     (\<exists>bs \<in> set L. validateBytes bs = Inr v)"
proof -
  from holds_dir [OF assms(1)] obtain i where
    i: "chosen (dk_dir d) = Some i" "dk_bytes d i \<in> set L"
    by (auto simp: keepsPromise_Some)
  with assms(2) obtain v where v: "validateBytes (dk_bytes d i) = Inr v"
    and size: "1 \<le> length (dk_bytes d i)" "length (dk_bytes d i) \<le> n" by blast
  from assms(1) have ready: "dk_ready d" by (simp add: holds_def)
  from i(1) obtain s where s: "dk_dir d s = Some i" "s = Current \<or> s = Backup \<and> dk_dir d Current = None"
    by (auto simp: chosen_def split: option.splits)
  have "inspect n validateBytes (d, []) = (Returned (Some (s, v)), (d, []))"
    using s readSlot_works [OF ready s(1) size] readSlot_missing [OF ready] v
    by (auto simp: inspect_def quiet_simps)
  moreover obtain d' where "repairSlots s (d, []) = (Returned (), (d', []))" "clean d'"
    using repairSlots_works [OF ready s(2)] s(1) by auto
  ultimately show ?thesis
    using i(2) v by (auto simp: recoverAndRead_def bindIO_def thenIO_def returnIO_def)
qed

theorem replace_works:
  assumes "clean d" and "had \<longleftrightarrow> dk_dir d Current \<noteq> None"
  shows "\<exists>d'. replace bs had (d, []) = (Returned (), (d', []))"
  using assms
  by (cases had)
    (auto simp: replace_def prepareDirectory_def createNextWriter_def createFile_def openWriter_def
      writeNext_def writerWrite_def writeFile_def assertOpen_def storeBytes_def writerSync_def
      writerClose_def publishNext_def moveSlot_def settleSlots_def removeSlot_def syncDirectory_def
      changeDirectory_def quiet_simps clean_def)

text \<open>A cleared store stays empty: nothing that could be brought back is left.\<close>

theorem clear_empties:
  "runs dk_ready clear (\<lambda>_ d. \<forall>D \<in> set (survivors d). \<forall>s. D s = None) (\<lambda>_. True) (\<lambda>_. True)"
proof -
  define gone where "gone ss (d :: disk) \<longleftrightarrow> dk_ready d \<and> (\<forall>s \<in> ss. dk_dir d s = None)" for ss d
  have remove: "runs (gone ss) (removeSlot s) (\<lambda>_. gone (insert s ss)) (\<lambda>_. True) (\<lambda>_. True)" for ss s
    unfolding removeSlot_def gone_def by (rule runs_call) (auto simp: changeDirectory_def)
  have all: "gone {Current, Backup, Next} d \<longleftrightarrow> dk_ready d \<and> (\<forall>s. dk_dir d s = None)" for d
    by (auto simp: gone_def) (metis slot.exhaust)
  have "runs (gone {Current, Backup, Next}) (call (\<lambda>d. if \<not> dk_ready d then (Inl Unavailable, d)
      else (Inr (), d\<lparr>dk_past := []\<rparr>)))
      (\<lambda>_ d. \<forall>D \<in> set (survivors d). \<forall>s. D s = None) (\<lambda>_. True) (\<lambda>_. True)"
    by (rule runs_call) (auto simp: all survivors_def)
  then have "runs (gone {Current, Backup, Next}) syncDirectory
      (\<lambda>_ d. \<forall>D \<in> set (survivors d). \<forall>s. D s = None) (\<lambda>_. True) (\<lambda>_. True)"
    by (auto simp: runs_def syncDirectory_def all survivors_def)
  then have "runs (gone {}) clear (\<lambda>_ d. \<forall>D \<in> set (survivors d). \<forall>s. D s = None)
      (\<lambda>_. True) (\<lambda>_. True)"
    unfolding clear_def by (intro runs_then [OF remove])
  moreover have "gone {} = dk_ready" by (rule ext) (simp add: gone_def)
  ultimately show ?thesis by simp
qed
end
