(* ===== verification/RegistryStore.thy ===== *)
theory RegistryStore
  imports RegistryCorrect SlotSafety
begin

text \<open>
  The registry in its three slots
  (apps/desktop/src/workspaces/registry/workspaceRegistryStore.ts): reading, inspecting and
  writing it, and histories of these operations with faults, deaths of the process and power
  failures. The operations with a selection made by a journal are not modelled.
\<close>

section \<open>The operations\<close>

definition mapStoreError :: "desktop_error \<Rightarrow> desktop_error" where
  "mapStoreError e = (case e of
       WorkspaceRegistryValidationError \<Rightarrow> e
     | WorkspaceRegistryStoreError _ \<Rightarrow> e
     | CrashSafeFileSlotError f \<Rightarrow>
         (if f = Invalid then WorkspaceRegistryValidationError
          else WorkspaceRegistryStoreError ''WORKSPACE_REGISTRY_UNAVAILABLE'')
     | CrashSafeByteSlotStoreError \<Rightarrow> WorkspaceRegistryStoreError ''WORKSPACE_REGISTRY_UNAVAILABLE''
     | WorkspaceRegistryMutationError _ \<Rightarrow>
         WorkspaceRegistryStoreError ''WORKSPACE_REGISTRY_UNAVAILABLE'')"

definition mapErrors :: "'a io \<Rightarrow> 'a io" where
  "mapErrors m = catchIO m (\<lambda>e. throwIO (mapStoreError e))"

text \<open>One operation at a time: \<open>active\<close> is the flag of the store when the operation starts.\<close>

definition runExclusive :: "bool \<Rightarrow> 'a io \<Rightarrow> 'a io" where
  "runExclusive active operation =
     (if active then throwIO (WorkspaceRegistryStoreError ''WORKSPACE_REGISTRY_BUSY'') else operation)"

definition recoverAndReadRegistry :: "workspace_registry option io" where
  "recoverAndReadRegistry =
     mapErrors (recoverAndRead WORKSPACE_REGISTRY_MAX_BYTES parseWorkspaceRegistryBytes)"

definition readRegistry :: "bool \<Rightarrow> workspace_registry option io" where
  "readRegistry active = runExclusive active recoverAndReadRegistry"

definition inspectRegistry :: "bool \<Rightarrow> workspace_registry option io" where
  "inspectRegistry active = runExclusive active
     (mapErrors (bindIO (inspect WORKSPACE_REGISTRY_MAX_BYTES parseWorkspaceRegistryBytes)
       (\<lambda>selected. returnIO (map_option snd selected))))"

fun inspectEachSlot :: "slot list \<Rightarrow> (slot \<times> bytes \<times> workspace_registry) list io" where
  "inspectEachSlot [] = returnIO []"
| "inspectEachSlot (s # ss) =
     bindIO (readSlot WORKSPACE_REGISTRY_MAX_BYTES s) (\<lambda>r.
     bindIO (case r of
         None \<Rightarrow> returnIO []
       | Some bs \<Rightarrow> bindIO (liftIO (parseWorkspaceRegistryBytes bs)) (\<lambda>v. returnIO [(s, bs, v)]))
       (\<lambda>found. bindIO (inspectEachSlot ss) (\<lambda>rest. returnIO (found @ rest))))"

definition inspectRegistrySlots :: "bool \<Rightarrow> (slot \<times> bytes \<times> workspace_registry) list io" where
  "inspectRegistrySlots active = runExclusive active (mapErrors (inspectEachSlot [Current, Next, Backup]))"

definition writeRegistry :: "bool \<Rightarrow> literal json \<Rightarrow> unit io" where
  "writeRegistry active v = runExclusive active
     (bindIO (liftIO (validateWorkspaceRegistry v)) (\<lambda>registry.
      bindIO (liftIO (serializeWorkspaceRegistry (registryValue registry))) (\<lambda>bs.
      bindIO recoverAndReadRegistry (\<lambda>current.
        if map_option wr_formatVersion current = Some 2 \<and> wr_formatVersion registry = 1
        then throwIO WorkspaceRegistryValidationError
        else mapErrors (replace bs (current \<noteq> None))))))"

section \<open>Stored values\<close>

text \<open>
  What the slots need of the values kept in them: a way to write a good value that can be read
  back and has an allowed size.
\<close>

locale slot_codec =
  fixes maximumBytes :: nat
    and validateBytes :: "bytes \<Rightarrow> desktop_error + 'v"
    and encode :: "'v \<Rightarrow> bytes"
    and good :: "'v \<Rightarrow> bool"
  assumes decode_encode: "good v \<Longrightarrow> validateBytes (encode v) = Inr v"
    and size_encode: "good v \<Longrightarrow> 1 \<le> length (encode v) \<and> length (encode v) \<le> maximumBytes"
begin

definition promised :: "'v list \<Rightarrow> promise" where
  "promised L = Some (map encode L)"

lemma reads_promised:
  assumes "\<forall>v \<in> set L. good v" and "reads (promised L) validateBytes r"
  shows "\<exists>v \<in> set L. r = Some v"
  using assms by (auto simp: reads_def promised_def decode_encode)

lemma read_returns:
  assumes "\<forall>v \<in> set L. good v"
  shows "runs (holds (promised L)) (recoverAndRead maximumBytes validateBytes)
     (\<lambda>r d. holds (promised L) d \<and> dk_dir d Current \<noteq> None \<and> (\<exists>v \<in> set L. r = Some v))
     (holds (promised L)) (holds (promised L))"
  using reads_promised [OF assms] unfolding promised_def
  by (intro runs_weaken [OF recoverAndRead_runs]) auto

lemma read_works:
  assumes "\<forall>v \<in> set L. good v" and "holds (promised L) d"
  shows "\<exists>v \<in> set L. \<exists>d'. recoverAndRead maximumBytes validateBytes (d, []) = (Returned (Some v), (d', []))
     \<and> clean d'"
proof -
  have "\<forall>bs \<in> set (map encode L). 1 \<le> length bs \<and> length bs \<le> maximumBytes \<and> (\<exists>v. validateBytes bs = Inr v)"
    using assms(1) decode_encode size_encode by auto
  from recoverAndRead_works [OF assms(2) [unfolded promised_def] this]
  obtain v d' b where "recoverAndRead maximumBytes validateBytes (d, []) = (Returned (Some v), (d', []))"
    "clean d'" "b \<in> set L" "validateBytes (encode b) = Inr v" by auto
  moreover from this assms(1) have "v = b" using decode_encode [of b] by auto
  ultimately show ?thesis by blast
qed

end

definition registryBytes :: "workspace_registry \<Rightarrow> bytes" where
  "registryBytes r = textEncode (jsonText (canonicalRegistry r) @ [0x0A])"

definition storable :: "workspace_registry \<Rightarrow> bool" where
  "storable r \<longleftrightarrow> succeeds (serializeWorkspaceRegistry (registryValue r))"

lemma storable_valid:
  assumes "validRegistry r"
  shows "storable r \<longleftrightarrow> length (registryBytes r) \<le> WORKSPACE_REGISTRY_MAX_BYTES"
  using validate_registryValue [OF assms]
  by (simp add: storable_def serializeWorkspaceRegistry_def Let_def registryBytes_def
    workspaceRegistryInvalid_def)

lemma serialize_registry:
  "serializeWorkspaceRegistry (registryValue r) = Inr bs \<Longrightarrow> validRegistry r \<Longrightarrow> bs = registryBytes r"
  by (auto simp: serializeWorkspaceRegistry_def validate_registryValue Let_def registryBytes_def
    split: if_splits)

interpretation registry: slot_codec WORKSPACE_REGISTRY_MAX_BYTES parseWorkspaceRegistryBytes registryBytes
  "\<lambda>r. validRegistry r \<and> storable r"
proof
  fix r assume r: "validRegistry r \<and> storable r"
  then have size: "length (registryBytes r) \<le> WORKSPACE_REGISTRY_MAX_BYTES"
    using storable_valid by blast
  with r show parse: "parseWorkspaceRegistryBytes (registryBytes r) = Inr r"
    by (intro parse_canonical) (simp_all add: registryBytes_def)
  then show "1 \<le> length (registryBytes r) \<and> length (registryBytes r) \<le> WORKSPACE_REGISTRY_MAX_BYTES"
    using size by (cases "registryBytes r") (auto simp: parseWorkspaceRegistryBytes_def)
qed

section \<open>One operation\<close>

type_synonym registry_promise = "workspace_registry list option"

definition bytesPromise :: "registry_promise \<Rightarrow> promise" where
  "bytesPromise P = map_option (map registryBytes) P"

definition goodPromise :: "registry_promise \<Rightarrow> bool" where
  "goodPromise P \<longleftrightarrow> (\<forall>L. P = Some L \<longrightarrow> L \<noteq> [] \<and> (\<forall>r \<in> set L. validRegistry r \<and> storable r))"

text \<open>The registry a write of a value stores, when the value is one.\<close>

definition writtenRegistry :: "literal json \<Rightarrow> workspace_registry option" where
  "writtenRegistry v = (case validateWorkspaceRegistry v of
       Inl _ \<Rightarrow> None
     | Inr r \<Rightarrow> if storable r then Some r else None)"

definition attempted :: "literal json \<Rightarrow> registry_promise \<Rightarrow> registry_promise" where
  "attempted v P = (case writtenRegistry v of
       None \<Rightarrow> P
     | Some r \<Rightarrow> map_option (\<lambda>L. L @ [r]) P)"

lemma runs_mapErrors: "runs P m Q E C \<Longrightarrow> runs P (mapErrors m) Q E C"
  unfolding mapErrors_def by (rule runs_catch, assumption, rule runs_throw)

lemma runs_pure: "(g \<Longrightarrow> runs P m Q E C) \<Longrightarrow> runs (\<lambda>d. g \<and> P d) m Q E C"
  by (cases g) (simp_all add: runs_def)

lemma writtenRegistry_Some:
  "writtenRegistry v = Some r \<Longrightarrow> validateWorkspaceRegistry v = Inr r \<and> validRegistry r \<and> storable r"
  by (auto simp: writtenRegistry_def validateWorkspaceRegistry_valid split: sum.splits if_splits)

lemma bytesPromise_attempted:
  "writtenRegistry v = Some r \<Longrightarrow> bytesPromise (attempted v P) = attempt (registryBytes r) (bytesPromise P)"
  by (cases P) (simp_all add: bytesPromise_def attempted_def attempt_def)

lemma goodPromise_attempted: "goodPromise P \<Longrightarrow> goodPromise (attempted v P)"
  by (auto simp: goodPromise_def attempted_def dest: writtenRegistry_Some split: option.splits)

lemma holds_attempted: "holds (bytesPromise P) d \<Longrightarrow> holds (bytesPromise (attempted v P)) d"
  using holds_attempt bytesPromise_attempted [of v _ P]
  by (cases "writtenRegistry v") (auto simp: attempted_def)

lemma goodPromise_Some [simp]: "goodPromise (Some [r]) \<longleftrightarrow> validRegistry r \<and> storable r"
  by (simp add: goodPromise_def)

lemma recoverAndReadRegistry_runs:
  assumes "goodPromise P"
  shows "runs (holds (bytesPromise P)) recoverAndReadRegistry
     (\<lambda>r d. holds (bytesPromise P) d \<and> (\<forall>L. P = Some L \<longrightarrow> (\<exists>x \<in> set L. r = Some x)))
     (holds (bytesPromise P)) (holds (bytesPromise P))"
proof (cases P)
  case None
  then have "holds (bytesPromise P) = allocated"
    by (intro ext) (simp add: bytesPromise_def holds_None)
  then show ?thesis
    unfolding recoverAndReadRegistry_def
    by (intro runs_mapErrors) (simp add: None alloc.recoverAndRead_keeps)
next
  case (Some L)
  then have "\<forall>r \<in> set L. validRegistry r \<and> storable r" using assms by (simp add: goodPromise_def)
  moreover have "bytesPromise P = registry.promised L"
    by (simp add: bytesPromise_def registry.promised_def Some)
  ultimately show ?thesis
    unfolding recoverAndReadRegistry_def
    by (intro runs_mapErrors runs_weaken [OF registry.read_returns [of L]]) (auto simp: Some)
qed

lemma recoverAndReadRegistry_works:
  assumes "goodPromise (Some L)" and "holds (bytesPromise (Some L)) d"
  shows "\<exists>r \<in> set L. \<exists>d'. recoverAndReadRegistry (d, []) = (Returned (Some r), (d', [])) \<and> clean d'
    \<and> dk_dir d' Current \<noteq> None"
proof -
  have good: "\<forall>r \<in> set L. validRegistry r \<and> storable r" using assms(1) by (simp add: goodPromise_def)
  moreover have promise: "holds (registry.promised L) d"
    using assms(2) by (simp add: bytesPromise_def registry.promised_def)
  ultimately obtain r d' where r: "r \<in> set L" "clean d'"
    "recoverAndRead WORKSPACE_REGISTRY_MAX_BYTES parseWorkspaceRegistryBytes (d, []) =
       (Returned (Some r), (d', []))"
    using registry.read_works by blast
  moreover from runsD(1) [OF registry.read_returns [OF good] promise r(3)]
  have "dk_dir d' Current \<noteq> None" by blast
  ultimately show ?thesis
    by (intro bexI [of _ r] exI [of _ d']) (simp_all add: recoverAndReadRegistry_def mapErrors_def catchIO_def)
qed

lemma replaceRegistry_runs:
  assumes "writtenRegistry v = Some r"
  shows "runs (holds (bytesPromise P)) (mapErrors (replace (registryBytes r) had))
     (\<lambda>_. holds (bytesPromise (Some [r])))
     (holds (bytesPromise (attempted v P))) (holds (bytesPromise (attempted v P)))"
  by (intro runs_mapErrors runs_weaken [OF replace_runs [of "bytesPromise P"]])
    (simp_all add: settled_def bytesPromise_attempted [OF assms] bytesPromise_def [of "Some [r]"])

lemma writeRegistry_written:
  assumes "validateWorkspaceRegistry v = Inr r"
  shows "writeRegistry False v = (if storable r
    then bindIO recoverAndReadRegistry (\<lambda>current.
        if map_option wr_formatVersion current = Some 2 \<and> wr_formatVersion r = 1
        then throwIO WorkspaceRegistryValidationError
        else mapErrors (replace (registryBytes r) (current \<noteq> None)))
    else throwIO WorkspaceRegistryValidationError)"
proof -
  have "serializeWorkspaceRegistry (registryValue r) =
      (if storable r then Inr (registryBytes r) else Inl WorkspaceRegistryValidationError)"
    using validate_registryValue [OF validateWorkspaceRegistry_valid [OF assms]]
      storable_valid [OF validateWorkspaceRegistry_valid [OF assms]]
    by (simp add: serializeWorkspaceRegistry_def Let_def registryBytes_def workspaceRegistryInvalid_def)
  then show ?thesis
    using assms by (simp add: writeRegistry_def runExclusive_def liftIO_def bindIO_def returnIO_def throwIO_def)
qed

lemma writeRegistry_runs:
  assumes "goodPromise P"
  shows "runs (holds (bytesPromise P)) (writeRegistry False v)
     (\<lambda>_ d. \<exists>r. writtenRegistry v = Some r \<and> holds (bytesPromise (Some [r])) d)
     (holds (bytesPromise (attempted v P))) (holds (bytesPromise (attempted v P)))"
proof (cases "writtenRegistry v")
  case (Some r)
  note v = writtenRegistry_Some [OF Some]
  let ?A = "holds (bytesPromise (attempted v P))"
  have read: "runs (holds (bytesPromise P)) recoverAndReadRegistry (\<lambda>_. holds (bytesPromise P)) ?A ?A"
    by (rule runs_weaken [OF recoverAndReadRegistry_runs [OF assms]]) (simp_all add: holds_attempted)
  show ?thesis
    unfolding writeRegistry_written [OF v [THEN conjunct1]]
    using v Some
    by (simp, intro runs_bind [OF read] runs_if runs_throw replaceRegistry_runs [OF Some])
      (simp_all add: holds_attempted)
next
  case None
  then have "\<exists>e. writeRegistry False v = throwIO e"
  proof (cases "validateWorkspaceRegistry v")
    case (Inl e)
    then show ?thesis
      by (intro exI [of _ e]) (simp add: writeRegistry_def runExclusive_def liftIO_def bindIO_def throwIO_def)
  next
    case (Inr r)
    with None show ?thesis
      using writeRegistry_written [OF Inr] by (auto simp: writtenRegistry_def split: if_splits)
  qed
  with None show ?thesis
    by (auto intro: runs_throw simp: attempted_def)
qed

section \<open>Histories\<close>

text \<open>
  A history is a list of events: a write or a read, each with the fates of its calls, and a
  power failure with what it brings back. Beside the disk it yields the promise: the registry
  whose write last returned, and those that later writes tried to store.
\<close>

datatype store_event =
    WritesRegistry "literal json" "fate list"
  | ReadsRegistry "fate list"
  | PowerFails nat "nat \<Rightarrow> bytes"

fun runStoreEvent :: "disk \<times> registry_promise \<Rightarrow> store_event \<Rightarrow> disk \<times> registry_promise" where
  "runStoreEvent (d, P) (WritesRegistry v fs) = (case writeRegistry False v (d, fs) of
       (Returned _, (d', _)) \<Rightarrow> (d', map_option (\<lambda>r. [r]) (writtenRegistry v))
     | (Threw _, (d', _)) \<Rightarrow> (d', attempted v P)
     | (Died, (d', _)) \<Rightarrow> (restart d', attempted v P))"
| "runStoreEvent (d, P) (ReadsRegistry fs) = (case readRegistry False (d, fs) of
       (Returned _, (d', _)) \<Rightarrow> (d', P)
     | (Threw _, (d', _)) \<Rightarrow> (d', P)
     | (Died, (d', _)) \<Rightarrow> (restart d', P))"
| "runStoreEvent (d, P) (PowerFails k garbage) = (powerFailure k garbage d, P)"

definition storeHistory :: "bool \<Rightarrow> store_event list \<Rightarrow> disk \<times> registry_promise" where
  "storeHistory windows es = foldl runStoreEvent (emptyDisk windows, None) es"

definition losesPower :: "store_event \<Rightarrow> bool" where
  "losesPower e = (case e of PowerFails _ _ \<Rightarrow> True | _ \<Rightarrow> False)"

lemma restart_windows [simp]: "dk_windows (restart d) = dk_windows d"
  by (simp add: restart_def)

lemma runStoreEvent_holds:
  assumes "goodPromise P" and "holds (bytesPromise P) d" and "dk_windows d = w"
    and "w \<longrightarrow> \<not> losesPower e" and "runStoreEvent (d, P) e = (d', P')"
  shows "goodPromise P' \<and> holds (bytesPromise P') d' \<and> dk_windows d' = w"
proof (cases e)
  case (WritesRegistry v fs)
  obtain o1 d1 fs1 where run: "writeRegistry False v (d, fs) = (o1, (d1, fs1))" by (metis surj_pair)
  note holds = runsD [OF writeRegistry_runs [OF assms(1)], OF assms(2), of v fs]
  have "keeps (\<lambda>d. dk_windows d = w) (writeRegistry False v)"
    unfolding writeRegistry_def runExclusive_def recoverAndReadRegistry_def mapErrors_def
    by (intro keeps_if keeps_throw keeps_bind keeps_lift keeps_catch platform.recoverAndRead_keeps
        platform.replace_keeps)
  from keepsD [OF this assms(3) run] have w: "dk_windows d1 = w" .
  show ?thesis
  proof (cases o1)
    case (Returned u)
    have end_state: "d' = d1" "P' = map_option (\<lambda>r. [r]) (writtenRegistry v)"
      using assms(5) run Returned by (simp_all add: WritesRegistry)
    from holds(1) [OF run [unfolded Returned]] obtain r where
      "writtenRegistry v = Some r" "holds (bytesPromise (Some [r])) d1" by blast
    with end_state w writtenRegistry_Some show ?thesis by simp
  next
    case (Threw x)
    have "d' = d1" "P' = attempted v P"
      using assms(5) run Threw by (simp_all add: WritesRegistry)
    with holds(2) [OF run [unfolded Threw]] w goodPromise_attempted [OF assms(1)] show ?thesis by simp
  next
    case Died
    have "d' = restart d1" "P' = attempted v P"
      using assms(5) run Died by (simp_all add: WritesRegistry)
    with holds(3) [OF run [unfolded Died]] w goodPromise_attempted [OF assms(1)] show ?thesis by simp
  qed
next
  case (ReadsRegistry fs)
  obtain o1 d1 fs1 where run: "readRegistry False (d, fs) = (o1, (d1, fs1))" by (metis surj_pair)
  have read: "readRegistry False = recoverAndReadRegistry" by (simp add: readRegistry_def runExclusive_def)
  note holds = runsD [OF recoverAndReadRegistry_runs [OF assms(1)], OF assms(2), of fs]
  have "keeps (\<lambda>d. dk_windows d = w) (readRegistry False)"
    unfolding read recoverAndReadRegistry_def mapErrors_def
    by (intro keeps_catch keeps_throw platform.recoverAndRead_keeps)
  from keepsD [OF this assms(3) run] have "dk_windows d1 = w" .
  moreover have "P' = P" "d' = (case o1 of Died \<Rightarrow> restart d1 | _ \<Rightarrow> d1)"
    using assms(5) run by (auto simp: ReadsRegistry split: outcome.splits)
  moreover have "holds (bytesPromise P) d1"
    using run holds unfolding read by (cases o1) blast+
  ultimately show ?thesis
    using assms(1) by (simp split: outcome.split)
next
  case (PowerFails k garbage)
  with assms show ?thesis
    using holds_powerFailure [OF assms(2), of k garbage] by (auto simp: losesPower_def powerFailure_def)
qed

lemma storeHistory_holds:
  assumes "storeHistory windows es = (d, P)" and "windows \<longrightarrow> \<not> list_ex losesPower es"
  shows "goodPromise P \<and> holds (bytesPromise P) d"
proof -
  have "goodPromise P' \<and> holds (bytesPromise P') d' \<and> dk_windows d' = windows"
    if "foldl runStoreEvent (emptyDisk windows, None) es = (d', P')" for d' P'
    using that assms(2)
  proof (induction es arbitrary: d' P' rule: rev_induct)
    case Nil
    then show ?case
      by (auto simp: goodPromise_def bytesPromise_def holds_None allocated_def emptyDisk_def)
  next
    case (snoc e es)
    obtain d1 P1 where "foldl runStoreEvent (emptyDisk windows, None) es = (d1, P1)" by fastforce
    with snoc show ?case using runStoreEvent_holds [of P1 d1 windows e d' P'] by auto
  qed
  then show ?thesis using assms(1) by (simp add: storeHistory_def)
qed

text \<open>After any history a write without faults succeeds, unless it would lower the format version.\<close>

lemma writeRegistry_works:
  assumes "goodPromise (Some L)" and "holds (bytesPromise (Some L)) d"
    and "writtenRegistry v = Some r" and "wr_formatVersion r = 2"
  shows "\<exists>d'. writeRegistry False v (d, []) = (Returned (), (d', []))"
proof -
  note v = writtenRegistry_Some [OF assms(3)]
  obtain r0 d0 where read: "recoverAndReadRegistry (d, []) = (Returned (Some r0), (d0, []))"
    and d0: "clean d0" "dk_dir d0 Current \<noteq> None"
    using recoverAndReadRegistry_works [OF assms(1,2)] by blast
  obtain d' where "replace (registryBytes r) True (d0, []) = (Returned (), (d', []))"
    using replace_works [of d0 True "registryBytes r"] d0 by auto
  then have "mapErrors (replace (registryBytes r) True) (d0, []) = (Returned (), (d', []))"
    by (simp add: mapErrors_def catchIO_def)
  with read show ?thesis
    unfolding writeRegistry_written [OF v [THEN conjunct1]]
    using v assms(4) by (intro exI [of _ d']) (simp add: bindIO_def)
qed
end
