(* ===== verification/JsonParseEnds.thy ===== *)
theory JsonParseEnds
  imports DuplicateKeys
begin

text \<open>
  The fuel of the JSON parser of \<open>JsonText\<close> is enough: with more of it the result is the same
  for every text.
\<close>

lemma length_stringRest: "stringRest s = Some (t, r) \<Longrightarrow> length r < length s"
proof (induction s arbitrary: t r rule: stringRest.induct)
  case (2 u us)
  then show ?case
    by (fastforce simp del: stringRest.simps(2) simp: stringRest.simps(2) [of u us]
        split: if_splits list.splits option.splits)
qed simp

lemma length_parseNumber: "parseNumber s = Some (n, r) \<Longrightarrow> length r < length s"
proof -
  have fraction: "length q \<le> length p" if "fraction p = Some (fs, q)" for p fs q
    using that length_dropWhile_le [of isDigitUnit "tl p"]
    by (auto simp: fraction_def splitDigits_def split: list.splits if_splits)
  have signed: "length (snd (signed p)) \<le> length p" for p
    by (simp add: signed_def split: list.split)
  have exponent: "length q \<le> length p" if "exponent p = Some (x, q)" for p x q
    using that length_dropWhile_le [of isDigitUnit "snd (signed (tl p))"] signed [of "tl p"]
    by (auto simp: exponent_def splitDigits_def split: list.splits if_splits prod.splits)
  assume "parseNumber s = Some (n, r)"
  then obtain g t fs p q x where
    t: "(case s of u # us \<Rightarrow> if u = 0x2D then (- 1, us) else (1, s) | [] \<Rightarrow> (1, s)) = (g :: int, t)"
    "takeWhile isDigitUnit t \<noteq> []" "fraction (dropWhile isDigitUnit t) = Some (fs, p)"
    "exponent p = Some (x, r)"
    by (auto simp: parseNumber_def splitDigits_def split: prod.splits if_splits option.splits)
  have "length t \<le> length s" using t(1) by (auto split: list.splits if_splits)
  moreover have "length (dropWhile isDigitUnit t) < length t"
    using t(2) arg_cong [OF takeWhile_dropWhile_id [of isDigitUnit t], of length] by (cases "takeWhile isDigitUnit t") auto
  ultimately show ?thesis
    using fraction [OF t(3)] exponent [OF t(4)] by linarith
qed

lemma length_keyword: "k \<noteq> [] \<Longrightarrow> keyword k v s = Some (x, r) \<Longrightarrow> length r < length s"
  by (cases s; cases k) (auto simp: keyword_def split: if_splits)

lemma ascii_Nil [simp]: "ascii s = [] \<longleftrightarrow> s = []"
  by (simp add: ascii_def)

lemma parse_shortens:
  "parseValue fuel s = Some (j, r) \<Longrightarrow> length r < length s"
  "parseMembers fuel s kvs = Some (j, r) \<Longrightarrow> length r < length s"
  "parseElements fuel s js = Some (j, r) \<Longrightarrow> length r < length s"
proof (induction fuel s and fuel s kvs and fuel s js arbitrary: j r and j r and j r
    rule: parseValue_parseMembers_parseElements.induct)
  case (2 fuel s)
  show ?case
  proof (cases "skipSpace s")
    case (Cons u us)
    note us = length_skipSpace_Cons [OF Cons]
    have uus: "length (u # us) \<le> length s" using length_skipSpace [of s] Cons by simp
    show ?thesis
      using 2 Cons us uus
      by (fastforce split: if_splits list.splits option.splits
          dest: length_stringRest length_parseNumber length_skipSpace_Cons length_keyword [rotated])
  qed (use 2 in simp)
next
  case (4 fuel s kvs)
  then obtain u us k t v vs i p w ws where
    h: "skipSpace s = u # us" "u = quoteMark" "stringRest us = Some (k, t)" "skipSpace t = v # vs"
      "v = colon" "parseValue fuel vs = Some (i, p)" "skipSpace p = w # ws"
    and r: "w = closeBrace \<and> r = ws \<or> w \<noteq> closeBrace \<and> w = comma \<and>
       parseMembers fuel ws (AList.update k i kvs) = Some (j, r)"
    by (auto split: if_splits list.splits option.splits)
  have "length p < length vs"
    using "4.IH"(1) [OF h(1) _ h(3) refl h(4) _ h(6)] h(2,5) by simp
  then have ws: "length ws < length s"
    using length_skipSpace_Cons [OF h(1)] length_stringRest [OF h(3)] length_skipSpace_Cons [OF h(4)]
      length_skipSpace_Cons [OF h(7)] by linarith
  from r show ?case
  proof
    assume "w \<noteq> closeBrace \<and> w = comma \<and> parseMembers fuel ws (AList.update k i kvs) = Some (j, r)"
    with "4.IH"(2) [OF h(1) _ h(3) refl h(4) _ h(6) refl h(7), of j r] h(2,5) ws show ?thesis by simp
  qed (use ws in simp)
next
  case (6 fuel s js)
  then obtain i p w ws where
    "parseValue fuel s = Some (i, p)" "skipSpace p = w # ws"
    "w = closeBracket \<and> r = ws \<or> w \<noteq> closeBracket \<and> w = comma \<and>
       parseElements fuel ws (js @ [i]) = Some (j, r)"
    by (auto split: if_splits list.splits option.splits)
  moreover from this have "length p < length s" "length ws < length p"
    using "6.IH"(1) length_skipSpace_Cons by auto
  ultimately show ?case using "6.IH"(2) by fastforce
qed simp_all

lemma parse_more_fuel:
  "2 * length s < fuel \<Longrightarrow> parseValue (Suc fuel) s = parseValue fuel s"
  "2 * length s + 1 < fuel \<Longrightarrow> parseMembers (Suc fuel) s kvs = parseMembers fuel s kvs"
  "2 * length s + 1 < fuel \<Longrightarrow> parseElements (Suc fuel) s js = parseElements fuel s js"
proof (induction fuel s and fuel s kvs and fuel s js
    rule: parseValue_parseMembers_parseElements.induct)
  case (2 fuel s)
  show ?case
  proof (cases "skipSpace s")
    case (Cons u us)
    note us = length_skipSpace_Cons [OF Cons]
    show ?thesis
    proof (cases "skipSpace us")
      case (Cons v vs)
      with 2 us \<open>skipSpace s = u # us\<close> show ?thesis
        unfolding parseValue.simps(2) [of "Suc fuel" s] parseValue.simps(2) [of fuel s]
        by (auto simp del: parseMembers.simps(2) parseElements.simps(2))
    next
      case Nil
      with \<open>skipSpace s = u # us\<close> show ?thesis
        by (simp add: parseValue.simps(2) [of "Suc fuel" s] parseValue.simps(2) [of fuel s])
    qed
  qed simp
next
  case (4 fuel s kvs)
  show ?case
  proof (cases "skipSpace s")
    case (Cons u us)
    note us = length_skipSpace_Cons [OF Cons]
    show ?thesis
    proof (cases "stringRest us")
      case (Some q)
      obtain k r where q: "q = (k, r)" by (cases q)
      have r: "length r < length us" using length_stringRest Some q by simp
      show ?thesis
      proof (cases "skipSpace r")
        case (Cons v vs)
        have vs: "length vs < length r" by (rule length_skipSpace_Cons [OF Cons])
        show ?thesis
        proof (cases "parseValue fuel vs")
          case None
          with 4 Cons Some q us r vs \<open>skipSpace s = u # us\<close> show ?thesis
            unfolding parseMembers.simps(2) [of "Suc fuel" s kvs] parseMembers.simps(2) [of fuel s kvs]
            by (auto simp del: parseMembers.simps(2) parseValue.simps(2))
        next
          case p: (Some p)
          obtain j t where p': "p = (j, t)" by (cases p)
          have "length t < length vs" using parse_shortens(1) p p' by simp
          then have "length ws < length vs" if "skipSpace t = w # ws" for w ws
            using length_skipSpace_Cons [OF that] by simp
          with 4 Cons Some q us r vs p p' \<open>skipSpace s = u # us\<close> show ?thesis
            unfolding parseMembers.simps(2) [of "Suc fuel" s kvs] parseMembers.simps(2) [of fuel s kvs]
            by (auto simp del: parseMembers.simps(2) parseValue.simps(2) split: list.split)
        qed
      qed (use Some q \<open>skipSpace s = u # us\<close> in simp)
    qed (use \<open>skipSpace s = u # us\<close> in simp)
  qed simp
next
  case (6 fuel s js)
  show ?case
  proof (cases "parseValue fuel s")
    case None
    with 6 show ?thesis by (simp del: parseValue.simps(2))
  next
    case (Some p)
    obtain j t where p: "p = (j, t)" by (cases p)
    have "length t < length s" using parse_shortens(1) Some p by simp
    then have "length ws < length s" if "skipSpace t = w # ws" for w ws
      using length_skipSpace_Cons [OF that] by simp
    with 6 Some p show ?thesis
      unfolding parseElements.simps(2) [of "Suc fuel" s js] parseElements.simps(2) [of fuel s js]
      by (auto simp del: parseElements.simps(2) parseValue.simps(2) split: list.split)
  qed
qed simp_all

theorem parse_enough: "parseValue (2 * length s + 1 + k) s = parseValue (2 * length s + 1) s"
proof (induction k)
  case (Suc k)
  then show ?case using parse_more_fuel(1) [of s "2 * length s + 1 + k"]
    by (simp del: parseValue.simps(2))
qed simp

end
