(* ===== verification/RegistryProperties.thy ===== *)
theory RegistryProperties
  imports RegistryStore JsonParseEnds
begin

text \<open>
  The properties of the workspace registry and the examples that witness them.
\<close>

section \<open>Examples\<close>

definition emptyRegistry :: "nat \<Rightarrow> workspace_registry" where
  "emptyRegistry formatVersion =
     \<lparr>wr_formatVersion = formatVersion, wr_activeWorkspaceId = None, wr_workspaces = []\<rparr>"

text \<open>
  A first write; a second one in which the rename of the old registry to the backup takes effect
  but reports a failure, and the process dies while removing the new file; a read that fails;
  a power failure.
\<close>

definition exampleHistory :: "store_event list" where
  "exampleHistory =
     [WritesRegistry (registryValue (emptyRegistry 1)) [],
      WritesRegistry (registryValue (emptyRegistry 2)) (replicate 8 Works @ [FailsAfter Unavailable, Dies]),
      ReadsRegistry [Fails Invalid],
      PowerFails 1 (\<lambda>_. [])]"




lemma validRegistry_empty: "formatVersion = 1 \<or> formatVersion = 2 \<Longrightarrow> validRegistry (emptyRegistry formatVersion)"
  by (auto simp: emptyRegistry_def validRegistry_def validActive_def readyIds_def)

lemma length_codePoints: "length (codePoints us) \<le> length us"
  by (induction us rule: codePoints.induct) auto

lemma length_textEncode: "length (textEncode s) \<le> 4 * length s"
proof -
  have four: "length (encodePoint n) \<le> 4" for n by (simp add: encodePoint_def)
  have "length (concat (map (\<lambda>n. encodePoint (f n)) ns)) \<le> 4 * length ns" for f and ns :: "nat list"
    using four by (induction ns) (simp_all add: add_mono)
  from this [of "\<lambda>n. if isHigh n \<or> isLow n then 0xFFFD else n" "codePoints (map unat s)"]
    length_codePoints [of "map unat s"]
  show ?thesis by (simp add: textEncode_def encodeUtf8_def)
qed

lemma length_quote: "length (quote s) \<le> 6 * length s + 2"
proof -
  have unit: "length (quoteUnit u) \<le> 6" for u by (simp add: quoteUnit_def unicodeEscape_def Let_def)
  have "length (quoteUnits s) \<le> 6 * length s"
  proof (induction s rule: quoteUnits.induct)
    case (3 u v us)
    then show ?case using unit [of u] by (cases "isHigh (unat u) \<and> isLow (unat v)") (simp_all, linarith?)
  qed (simp_all add: unit)
  then show ?thesis by (simp add: quote_def)
qed

lemma length_ascii [simp]: "length (ascii s) = length s"
  by (simp add: ascii_def)

lemma storable_empty:
  assumes "formatVersion = 1 \<or> formatVersion = 2"
  shows "storable (emptyRegistry formatVersion)"
proof -
  have "length (showNat formatVersion) = 1" using assms by (auto simp: showNat.simps)
  then have "length (jsonText (canonicalRegistry (emptyRegistry formatVersion))) \<le> 1000"
    using length_quote [of "ascii ''formatVersion''"] length_quote [of "ascii ''activeWorkspaceId''"]
      length_quote [of "ascii ''workspaces''"]
    by (simp add: canonicalRegistry_def emptyRegistry_def)
  then have "length (registryBytes (emptyRegistry formatVersion)) \<le> WORKSPACE_REGISTRY_MAX_BYTES"
    using length_textEncode [of "jsonText (canonicalRegistry (emptyRegistry formatVersion)) @ [0x0A]"]
    by (simp add: registryBytes_def WORKSPACE_REGISTRY_MAX_BYTES_def)
  then show ?thesis using storable_valid [OF validRegistry_empty [OF assms]] by blast
qed

lemma emptyRegistry_facts:
  assumes "formatVersion = 1 \<or> formatVersion = 2"
  shows "validateWorkspaceRegistry (registryValue (emptyRegistry formatVersion)) = Inr (emptyRegistry formatVersion)"
    and "writtenRegistry (registryValue (emptyRegistry formatVersion)) = Some (emptyRegistry formatVersion)"
    and "parseWorkspaceRegistryBytes (registryBytes (emptyRegistry formatVersion)) = Inr (emptyRegistry formatVersion)"
    and "registryBytes (emptyRegistry formatVersion) \<noteq> []"
    and "length (registryBytes (emptyRegistry formatVersion)) \<le> WORKSPACE_REGISTRY_MAX_BYTES"
  using validate_registryValue [OF validRegistry_empty [OF assms]] storable_empty [OF assms]
    registry.decode_encode [of "emptyRegistry formatVersion"] registry.size_encode [of "emptyRegistry formatVersion"]
    validRegistry_empty [OF assms]
  by (auto simp: writtenRegistry_def)

lemmas run_calls = inspect_def readSlot_def repairSlots_def recoverAndRead_def replace_def
  prepareDirectory_def createNextWriter_def createFile_def openWriter_def writeNext_def writerWrite_def
  writeFile_def assertOpen_def storeBytes_def writerSync_def writerClose_def publishNext_def
  moveSlot_def settleSlots_def removeSlot_def syncDirectory_def changeDirectory_def discardNext_def
  restoreBackupBestEffort_def quiet_simps call.simps





lemma exampleHistory_promise:
  "snd (storeHistory False exampleHistory) = Some [emptyRegistry 1, emptyRegistry 2]"
  by (simp add: storeHistory_def exampleHistory_def writeRegistry_written emptyRegistry_facts storable_empty
      recoverAndReadRegistry_def readRegistry_def runExclusive_def attempted_def mapErrors_def
      run_calls emptyDisk_def numeral_eq_Suc)

section \<open>Properties\<close>

text \<open>
  C11: A registry whose write returned survives. After any history of reads and writes with
  failing, cut short and interrupted calls and of power failures (on Windows, where the program
  does not flush the directory, of deaths of the process), a read without faults returns the
  registry written last or one a later write tried to store, no read whatever its faults
  returns anything else, and a registry of format version 2 can be written.
\<close>

theorem acknowledged_registry_survives:
  assumes "storeHistory windows es = (d, Some L)" and "windows \<longrightarrow> \<not> list_ex losesPower es"
  shows "(\<exists>r \<in> set L. \<exists>d'. readRegistry False (d, []) = (Returned (Some r), (d', []))) \<and>
    (\<forall>fs r w. readRegistry False (d, fs) = (Returned r, w) \<longrightarrow> (\<exists>x \<in> set L. r = Some x)) \<and>
    (\<forall>v r. writtenRegistry v = Some r \<longrightarrow> wr_formatVersion r = 2 \<longrightarrow>
       (\<exists>d'. writeRegistry False v (d, []) = (Returned (), (d', []))))"
proof -
  have read: "readRegistry False = recoverAndReadRegistry" by (simp add: readRegistry_def runExclusive_def)
  have L: "goodPromise (Some L)" "holds (bytesPromise (Some L)) d"
    using storeHistory_holds [OF assms] by simp_all
  have "\<exists>x \<in> set L. r = Some x" if "recoverAndReadRegistry (d, fs) = (Returned r, w)" for fs r w
    using runsD(1) [OF recoverAndReadRegistry_runs [OF L(1)] L(2), of fs r "fst w" "snd w"] that by auto
  then show ?thesis
    unfolding read using recoverAndReadRegistry_works [OF L] writeRegistry_works [OF L] by blast
qed

theorem acknowledged_registry_survives_witness:
  "\<exists>d. storeHistory False exampleHistory = (d, Some [emptyRegistry 1, emptyRegistry 2]) \<and>
    (\<exists>d'. readRegistry False (d, []) = (Returned (Some (emptyRegistry 1)), (d', [])) \<or>
          readRegistry False (d, []) = (Returned (Some (emptyRegistry 2)), (d', []))) \<and>
    (\<exists>d'. writeRegistry False (registryValue (emptyRegistry 2)) (d, []) = (Returned (), (d', [])))"
proof -
  obtain d where d: "storeHistory False exampleHistory = (d, Some [emptyRegistry 1, emptyRegistry 2])"
    using exampleHistory_promise by (metis prod.collapse)
  have two: "writtenRegistry (registryValue (emptyRegistry 2)) = Some (emptyRegistry 2)"
    "wr_formatVersion (emptyRegistry 2) = 2"
    using emptyRegistry_facts(2) [of 2] by (simp_all add: emptyRegistry_def)
  note P = acknowledged_registry_survives [OF d]
  have "\<exists>r \<in> set [emptyRegistry 1, emptyRegistry 2]. \<exists>d'.
      readRegistry False (d, []) = (Returned (Some r), (d', []))"
    using P by simp
  moreover have "\<exists>d'. writeRegistry False (registryValue (emptyRegistry 2)) (d, []) = (Returned (), (d', []))"
    using P two by blast
  ultimately show ?thesis using d by auto
qed

text \<open>
  C6: The bytes of a registry determine it. Whatever value is serialised, the bytes have an
  allowed size, pass the scan for names given twice, decode and parse as JSON to exactly the
  registry the value was validated as, are accepted as canonical, and are what serialising that
  registry gives again.
\<close>

theorem registry_bytes_roundtrip:
  assumes "serializeWorkspaceRegistry v = Inr bs"
  shows "\<exists>r. validateWorkspaceRegistry v = Inr r \<and> parseWorkspaceRegistryBytes bs = Inr r \<and>
    assertCanonicalWorkspaceRegistryRoundTrip bs = Inr r \<and>
    1 \<le> length bs \<and> length bs \<le> WORKSPACE_REGISTRY_MAX_BYTES \<and>
    serializeWorkspaceRegistry (registryValue r) = Inr bs"
  using serialize_then_parse [OF assms] by metis

theorem registry_bytes_roundtrip_witness:
  "\<exists>bs. serializeWorkspaceRegistry (registryValue (emptyRegistry 2)) = Inr bs \<and>
    parseWorkspaceRegistryBytes bs = Inr (emptyRegistry 2)"
proof -
  obtain bs where bs: "serializeWorkspaceRegistry (registryValue (emptyRegistry 2)) = Inr bs"
    using storable_empty [of 2] unfolding storable_def succeeds_iff by auto
  with registry_bytes_roundtrip [OF bs] emptyRegistry_facts(1) [of 2] show ?thesis by auto
qed




end
