(* ===== verification/Spec2Isabelle.thy ===== *)
theory Spec2Isabelle
  imports CreditHistory ReverseChargeHistory NumberingProperties DraftProperties EmailProperties
    InvoiceSettingsProperties LifecycleProperties RegistryProperties
begin

text \<open>
  Eky is an invoicing application: a backend (apps/backend, TypeScript over SQLite), a
  desktop shell and a web user interface. This library models the backend's invoicing module
  (apps/backend/src/modules/invoicing, paths below are relative to it where they do not start
  with apps/), the permission and actor packages it uses, and the workspace registry of the
  desktop shell, as functions on explicit values, and proves what the code promises about
  money, numbers, drafts, settings, deliveries and payments, the registry and their storage.

  \<^bold>\<open>Amounts.\<close> \<open>Money\<close>, \<open>InvoiceLine\<close>, \<open>InvoiceTotals\<close>, \<open>ReverseCharge\<close> model the calculation of
  lines and totals (domain/roundHalfUp.ts, invoiceLineBaseCalculation.ts,
  calculateInvoiceLine.ts, calculateInvoiceTotals.ts, calculateReverseChargeInvoice.ts).
  \<open>Split\<close>, \<open>CreditInvoice\<close>, \<open>CreditInvoiceCorrect\<close>, \<open>CreditTax\<close>, \<open>CreditTotals\<close> model credits against
  the lines of an invoice (calculateCreditInvoice.ts); \<open>CreditDraft\<close>, \<open>RateSums\<close>,
  \<open>CreditDraftCorrect\<close>, \<open>CreditDraftTax\<close>, \<open>CreditDraftResult\<close>, \<open>CreditHistory\<close> the credit drafts and
  their histories (calculateCreditInvoiceDraft.ts); \<open>ReverseChargeCredit\<close> and
  \<open>ReverseChargeHistory\<close> the reverse-charge case. The lemmas give exact acceptance conditions,
  refinements of the Map-based loops to sums per VAT rate, and conservation over histories.

  \<^bold>\<open>Numbers.\<close> \<open>Numbering\<close>, \<open>ReferenceNumber\<close>, \<open>SafeStart\<close> model printed numbers, reference
  numbers with their check digit and the safe start of a new series; \<open>SqlTable\<close>,
  \<open>NumberingStore\<close>, \<open>NumberingSettings\<close>, \<open>NumberingSeries\<close> the tables, repositories and requests
  (infrastructure/sqliteInvoiceNumbering*.ts and the application functions), \<open>Actor\<close> the
  permission checks, and \<open>NumberingHistory\<close> histories of all of them: numbers never collide and
  positions are consecutive (\<open>NumberingProperties\<close>).

  \<^bold>\<open>Drafts.\<close> \<open>JsDate\<close> models the parts of \<open>Date\<close> the code uses, \<open>DraftRules\<close> the input rules,
  \<open>DraftContent\<close> the preparation of a draft, \<open>DraftStore\<close> the tables with the constraints and
  triggers of the migrations and the repository, \<open>DraftUse\<close> the requests. \<open>DraftStoreCorrect\<close>,
  \<open>DraftUseCorrect\<close> and \<open>DraftRefinement\<close> prove that the tables behave as one map from identifiers
  to drafts; \<open>DraftProperties\<close> states the properties. Histories of drafts hold standard and
  credit drafts, which share the tables: credit drafts are created by
  infrastructure/sqliteInvoiceCreditDraftRepository.ts and updated with what
  application/creditInvoiceDraftModel.ts prepares. The composition of their lines there is not
  modelled (their calculation is, in \<open>CreditDraft\<close>), so a history may store any lines in one
  price mode and in the order of their positions.

  \<^bold>\<open>Settings and e-mail attempts.\<close> \<open>InvoiceSettings\<close> models the defaults of payment terms and VAT
  rates with their tables and requests (domain/invoicePaymentSettings.ts, invoiceVatRates.ts),
  \<open>InvoiceSettingsCorrect\<close> and \<open>InvoiceSettingsProperties\<close> their round trips. \<open>EmailAttempts\<close> models
  the in-memory store of send authorisations
  (infrastructure/inMemoryInvoiceEmailSendAttemptStore.ts), \<open>EmailProperties\<close> that it excludes
  concurrent and repeated deliveries.

  \<^bold>\<open>Life after the approval.\<close> \<open>InvoiceTables\<close> holds the tables of approved invoices, their
  payment, audit and delivery events, documents and revisions, with the checks, keys and
  triggers of migrations 031, 037 and 039; \<open>InvoicePayments\<close> marks and reverts
  (infrastructure/sqliteInvoicePaymentRepository.ts), \<open>DeliveryDocuments\<close> the documents a delivery
  is bound to, \<open>InvoiceDelivery\<close> reservations, outcomes, deliveries by hand and dry runs
  (reserveInvoiceEmailDelivery.ts, completeReservedInvoiceEmailDelivery.ts,
  sqliteInvoiceDeliveryEventRepository.ts), \<open>InvoiceCorrections\<close> cancelling and reopening.
  \<open>LifecycleHistory\<close> makes histories of all these requests and of new approvals, with the
  invariant of one invoice and of its events; \<open>LifecycleCorrect\<close> proves every request keeps it,
  \<open>UnknownOutcome\<close> that an unknown outcome is final, \<open>LifecycleProperties\<close> states the properties.
  Histories start from a database without invoices, so events copied by migration 039
  (\<open>legacyOriginal\<close>) do not occur in them. The approval repository also has an operation
  \<open>markApprovedInvoiceSent\<close> that sets the status without a delivery event; no request of the
  composition calls it and the histories do not contain it.

  \<^bold>\<open>Desktop workspace registry.\<close> The desktop shell keeps the list of local workspaces in a file of
  three slots (apps/desktop/src/workspaces). \<open>FileSlots\<close> models the calls on the slots
  (persistence/crashSafeFileSlot.ts) over a disk, with a fate for every call: it works, fails
  before or after taking effect, stores a part, or the process dies. \<open>ByteSlots\<close> models reading
  with repair, replacing and clearing (persistence/crashSafeByteSlotStore.ts), \<open>SlotSafety\<close> proves
  what each of them leaves under any fates. A power failure brings back any directory state
  since the last flush of the directory (changes reach the disk in order, the directory itself
  stays) and arbitrary content for a file that was not flushed; on Windows the program does not
  flush the directory, so there the theorems are about deaths of the process. \<open>Utf8\<close> models
  \<open>TextEncoder\<close> and \<open>TextDecoder\<close>, \<open>JsonText\<close> \<open>JSON.parse\<close> and \<open>JSON.stringify\<close> on strings of 16-bit
  code units, \<open>DuplicateKeys\<close> the scan for names given twice (its fuel, twice the length of the
  text and one, is proved to be enough; \<open>JsonParseEnds\<close> proves the same of the parser).
  \<open>WorkspaceRegistry\<close> models the types, validation,
  parsing and serialisation of registry/workspaceRegistry*.ts, \<open>RegistryCodec\<close> proves that what is
  written is read back, \<open>RegistryMutations\<close> models the changes and the comparison of labels (the
  Unicode tables are arguments), \<open>RegistryCorrect\<close> proves that they keep a registry valid.
  \<open>RegistryStore\<close> models registry/workspaceRegistryStore.ts and histories of reads, writes, faults
  and power failures; \<open>RegistryProperties\<close> states the properties. The operations with a
  selection made by a journal (identities of slots, guards before every call, observed
  recovery) and the paths are not modelled.

  \<^bold>\<open>Conventions.\<close> A JavaScript number used as an integer is an \<open>int\<close>; the guards of the code
  (\<open>Number.isSafeInteger\<close>) keep the exact range, and additions the code does not guard are
  exact below it. Strings of the backend are lists of code units up to 255, those of the
  registry lists of 16-bit words, bytes are 8-bit words. A throwing function returns a
  sum whose left side is an error class with its message, so every throw is a branch; a run on
  the slots ends by returning, throwing or dying. A
  table is the list of its rows; a statement checks the constraints and triggers of the
  schema and a transaction returns either an error or the new database. What the code takes
  from elsewhere (\<open>randomUUID\<close>, the clock, \<open>localeCompare\<close>, other modules) is an argument. All
  recursion but that of the scan and the JSON parser is structural; those two take fuel.

  \<^bold>\<open>Not modelled.\<close> PDF rendering and document files, the flow around the SMTP transport, the contents of
  revisions and the promotion of legacy ones, the copied snapshot columns, HTTP routes, read models,
  the other backend modules, migrations as programs, the rest of the desktop shell and the web
  user interface: I/O and glue around the modelled core, or planned for a later stage; the
  component list of the manifest gives the reason for each.
\<close>

section \<open>Properties\<close>

text \<open>
  C1: \<open>roundHalfUp\<close> returns exactly the quotient rounded half up: it succeeds for a
  non-negative numerator and a positive denominator whose rounded quotient is a safe
  integer, and the result is the only integer \<open>r\<close> with \<open>r - 1/2 \<le> n / d < r + 1/2\<close>.
\<close>

theorem roundHalfUp_exact:
  "roundHalfUp n d = Inr r \<longleftrightarrow>
     0 \<le> n \<and> 0 < d \<and> r \<le> MAX_SAFE_INTEGER \<and>
     (2 * r - 1) * d \<le> 2 * n \<and> 2 * n < (2 * r + 1) * d"
  using rounded_iff [of d n r] by (auto simp: roundHalfUp_eq_Inr)

text \<open>
  C2: A normal VAT line is calculated exactly for the accepted inputs: quantity, price and
  VAT rate non-negative safe integers, a discount within the line value, and no amount
  beyond the safe range. Every other input is an error, never a wrong amount.
\<close>

theorem calculateInvoiceLine_accepts:
  "(\<exists>l. calculateInvoiceLine input = Inr l) \<longleftrightarrow>
     amount (quantityHundredths input) \<and> amount (unitPriceCents input) \<and>
     amount (vatRateBasisPoints input) \<and> amount (baseOf input) \<and>
     (case discount input of
        NoDiscount \<Rightarrow> True
      | Percentage bp \<Rightarrow> bp \<in> {0 .. 10000}
      | Fixed c \<Rightarrow> c \<in> {0 .. baseOf input}) \<and>
     (case priceInputMode input of
        Gross \<Rightarrow> True
      | Net \<Rightarrow> amount (baseOf input - discountOf input +
                vatOfNet (baseOf input - discountOf input) (vatRateBasisPoints input)))"
  using calculateInvoiceLine_succeeds [of input]
  by (auto simp: succeeds_iff acceptedLine_def validBase_def
      split: PriceInputMode.splits InvoiceLineDiscount.splits)

text \<open>
  C3: Every calculated line reconciles: its amounts are non-negative safe integers, net
  plus VAT is gross, base minus discount is the side the price was entered on, and the
  other side is the exact tax calculation rounded half up once.
\<close>

theorem calculateInvoiceLine_reconciled:
  assumes "calculateInvoiceLine input = Inr l"
  shows "lineReconciles l \<and> line_baseCents l = baseOf input \<and>
    line_discountCents l = discountOf input \<and>
    line_vatRateBasisPoints l = vatRateBasisPoints input \<and>
    line_priceInputMode l = priceInputMode input"
  using calculateInvoiceLine_reconciles [OF assms] calculateInvoiceLine_frame [OF assms] by simp

definition exampleInput :: "PriceInputMode \<Rightarrow> number \<Rightarrow> InvoiceLineCalculationInput" where
  "exampleInput mode rate =
     \<lparr>quantityHundredths = 250, unitPriceCents = 1999, discount = Percentage 1000,
      vatRateBasisPoints = rate, priceInputMode = mode\<rparr>"

lemma exampleInput_line:
  "calculateInvoiceLine (exampleInput Gross 2550) =
     Inr \<lparr>line_quantityHundredths = 250, line_unitPriceCents = 1999,
          line_vatRateBasisPoints = 2550, line_priceInputMode = Gross, line_baseCents = 4998,
          line_discountCents = 500, line_netCents = 3584, line_vatCents = 914,
          line_grossCents = 4498\<rparr>"
  by code_simp

lemma calculateInvoiceLine_reconciled_witness:
  "lineReconciles \<lparr>line_quantityHundredths = 250, line_unitPriceCents = 1999,
          line_vatRateBasisPoints = 2550, line_priceInputMode = Gross, line_baseCents = 4998,
          line_discountCents = 500, line_netCents = 3584, line_vatCents = 914,
          line_grossCents = 4498\<rparr>"
  using calculateInvoiceLine_reconciled [OF exampleInput_line] by simp

text \<open>
  C4: The totals loop, which fills a Map from the VAT rate to running sums and then turns
  its entries into rows, refines the reference that groups the lines by rate: it succeeds
  exactly when every line is valid, lines of one rate use one price input mode and the
  gross sum is in range, and then returns the reference rows, in increasing order of rate,
  with their sums.
\<close>

theorem calculateInvoiceTotals_correct:
  "calculateInvoiceTotals lines = Inr t \<longleftrightarrow> totalsAccepted lines \<and> t = referenceTotals lines"
  by (rule calculateInvoiceTotals_refines_reference)

text \<open>
  C5: The totals do not depend on the order of the lines.
\<close>

theorem calculateInvoiceTotals_order_irrelevant:
  assumes "mset lines = mset lines'"
  shows "calculateInvoiceTotals lines = Inr t \<longleftrightarrow> calculateInvoiceTotals lines' = Inr t"
  unfolding calculateInvoiceTotals_refines_reference
  using totalsAccepted_mset [OF assms] referenceTotals_mset [OF assms] by simp

definition exampleLines :: "CalculatedInvoiceLine list" where
  "exampleLines =
     map (projr \<circ> calculateInvoiceLine)
       [exampleInput Gross 2550, exampleInput Net 1400, exampleInput Gross 2550]"

lemma calculateInvoiceTotals_order_irrelevant_witness:
  "calculateInvoiceTotals (rev exampleLines) =
     Inr \<lparr>netTotalCents = 11666, vatTotalCents = 2458, grossTotalCents = 14124,
          vatBreakdown =
            [\<lparr>bd_vatRateBasisPoints = 1400, bd_netCents = 4498, bd_vatCents = 630,
              bd_grossCents = 5128\<rparr>,
             \<lparr>bd_vatRateBasisPoints = 2550, bd_netCents = 7168, bd_vatCents = 1828,
              bd_grossCents = 8996\<rparr>]\<rparr>"
proof -
  have "calculateInvoiceTotals exampleLines =
     Inr \<lparr>netTotalCents = 11666, vatTotalCents = 2458, grossTotalCents = 14124,
          vatBreakdown =
            [\<lparr>bd_vatRateBasisPoints = 1400, bd_netCents = 4498, bd_vatCents = 630,
              bd_grossCents = 5128\<rparr>,
             \<lparr>bd_vatRateBasisPoints = 2550, bd_netCents = 7168, bd_vatCents = 1828,
              bd_grossCents = 8996\<rparr>]\<rparr>"
    by code_simp
  then show ?thesis
    using calculateInvoiceTotals_order_irrelevant [of "rev exampleLines" exampleLines] by simp
qed

text \<open>
  In the totals of calculated lines every row and the grand totals reconcile (net plus
  VAT is gross), no amount is negative, there is one row per VAT rate in increasing order,
  and the VAT of a row differs from the exact tax on its sum by at most half a cent,
  however many lines it has.
\<close>

theorem calculateInvoiceTotals_reconcile:
  assumes "calculateInvoiceTotals lines = Inr t"
  shows "netTotalCents t + vatTotalCents t = grossTotalCents t \<and> amount (grossTotalCents t) \<and>
    map bd_vatRateBasisPoints (vatBreakdown t) =
      sorted_list_of_set (line_vatRateBasisPoints ` set lines) \<and>
    (\<forall>b \<in> set (vatBreakdown t).
       0 \<le> bd_netCents b \<and> 0 \<le> bd_vatCents b \<and>
       bd_netCents b + bd_vatCents b = bd_grossCents b \<and>
       (let r = bd_vatRateBasisPoints b in
        2 * \<bar>10000 * bd_vatCents b - bd_netCents b * r\<bar> \<le> 10000 \<or>
        2 * \<bar>(10000 + r) * bd_netCents b - 10000 * bd_grossCents b\<bar> \<le> 10000 + r))"
  using referenceTotals_reconcile [of lines] assms
  by (auto simp: calculateInvoiceTotals_refines_reference)

lemma calculateInvoiceTotals_reconcile_witness:
  "\<exists>t. calculateInvoiceTotals exampleLines = Inr t \<and>
     netTotalCents t + vatTotalCents t = grossTotalCents t"
proof -
  have "succeeds (calculateInvoiceTotals exampleLines)" by code_simp
  then show ?thesis
    using calculateInvoiceTotals_reconcile [of exampleLines] by (auto simp: succeeds_iff)
qed

text \<open>
  C7: A reverse-charge invoice is calculated exactly when every line is entered net with
  valid amounts and the net sum is in range; it then carries no VAT on any line or in the
  totals, and its net and gross totals are the sum of the line values.
\<close>

theorem calculateReverseChargeInvoice_correct:
  "((\<exists>calc. calculateReverseChargeInvoice inputs = Inr calc) \<longleftrightarrow>
      (\<forall>i \<in> set inputs. rc_priceInputMode i = Net \<and> validBase i) \<and>
      amount (\<Sum>i\<leftarrow>inputs. baseOf i - discountOf i)) \<and>
   (\<forall>calc. calculateReverseChargeInvoice inputs = Inr calc \<longrightarrow>
      map rcl_netCents (rci_lines calc) = map (\<lambda>i. baseOf i - discountOf i) inputs \<and>
      map rcl_grossCents (rci_lines calc) = map rcl_netCents (rci_lines calc) \<and>
      (\<forall>l \<in> set (rci_lines calc). rcl_vatCents l = 0 \<and> rcl_vatRateBasisPoints l = None) \<and>
      rci_totals calc =
        (let s = \<Sum>i\<leftarrow>inputs. baseOf i - discountOf i in
         \<lparr>netTotalCents = s, vatTotalCents = 0, grossTotalCents = s, vatBreakdown = []\<rparr>))"
  using calculateReverseChargeInvoice_succeeds [of inputs] calculateReverseChargeInvoice_amounts
  by (auto simp: succeeds_iff Let_def)

lemma calculateReverseChargeInvoice_correct_witness:
  "\<exists>calc. calculateReverseChargeInvoice
     [\<lparr>quantityHundredths = 150, unitPriceCents = 1001, discount = Fixed 2, rc_priceInputMode = Net\<rparr>]
       = Inr calc \<and> netTotalCents (rci_totals calc) = 1500"
proof -
  let ?i = "\<lparr>quantityHundredths = 150, unitPriceCents = 1001, discount = Fixed 2,
    rc_priceInputMode = Net\<rparr>"
  have "validBase ?i" "baseOf ?i = 1502" "discountOf ?i = 2" by code_simp+
  then show ?thesis
    using calculateReverseChargeInvoice_correct [of "[?i]"]
    by (auto simp: Let_def amount_def MAX_SAFE_INTEGER_def)
qed

section \<open>Credit notes\<close>

text \<open>A comparator in the place of localeCompare, and an invoice with a gross and a net line.\<close>

fun compareCodes :: "string \<Rightarrow> string \<Rightarrow> int" where
  "compareCodes [] [] = 0"
| "compareCodes [] (b # bs) = - 1"
| "compareCodes (a # as) [] = 1"
| "compareCodes (a # as) (b # bs) =
     (if a = b then compareCodes as bs else (of_char a :: int) - of_char b)"

definition exampleSources :: "CreditSourceLine list" where
  "exampleSources =
     [\<lparr>src_id = ''line-a'', src_lineOrder = 1, src_quantityHundredths = 300,
       src_priceInputMode = Gross, src_vatRateBasisPoints = 2550, src_baseCents = 5997,
       src_discountCents = 600, src_netCents = 4300, src_vatCents = 1097, src_grossCents = 5397\<rparr>,
      \<lparr>src_id = ''line-b'', src_lineOrder = 2, src_quantityHundredths = 200,
       src_priceInputMode = Net, src_vatRateBasisPoints = 1400, src_baseCents = 1001,
       src_discountCents = 0, src_netCents = 1001, src_vatCents = 140, src_grossCents = 1141\<rparr>]"

definition exampleRequest :: "RequestedCreditLine list" where
  "exampleRequest =
     [\<lparr>rq_sourceInvoiceLineId = ''line-a'', rq_quantityHundredths = 100\<rparr>,
      \<lparr>rq_sourceInvoiceLineId = ''line-b'', rq_quantityHundredths = 100\<rparr>]"

definition exampleManual :: "RequestedManualCreditLine list" where
  "exampleManual =
     [\<lparr>rm_lineKey = ''manual'', rm_quantityHundredths = 100, rm_unitPriceCents = 50,
       rm_vatRateBasisPoints = 1400\<rparr>]"

text \<open>
  C8: The proportional split of a tax amount over weights is exact: for safe non-negative
  arguments it fails only when the weights overflow or when a positive amount meets only
  zero weights; otherwise there is one share per weight, no share is negative, the shares
  sum up to the amount without remainder, and each share is within one cent of its exact
  proportion.
\<close>

theorem distributeAmount_exact:
  assumes "amount tot" and "\<forall>w \<in> set ws. amount w"
  shows "((\<exists>sh. distributeAmount tot ws = Inr sh) \<longleftrightarrow>
      amount (sum_list ws) \<and> (sum_list ws = 0 \<longrightarrow> tot = 0)) \<and>
    (\<forall>sh. distributeAmount tot ws = Inr sh \<longrightarrow>
      length sh = length ws \<and> sum_list sh = tot \<and> (\<forall>s \<in> set sh. 0 \<le> s) \<and>
      list_all2 (\<lambda>s w. \<bar>sum_list ws * s - tot * w\<bar> \<le> sum_list ws) sh ws)"
  using distributeAmount_eq_Inr [OF assms] distributeAmount_facts [OF assms]
    distributeAmount_error [OF assms]
  by (metis (no_types, lifting))

lemma distributeAmount_exact_witness:
  "distributeAmount 10 [3, 0, 4, 5] = Inr [3, 0, 3, 4] \<and>
   list_all2 (\<lambda>s w. \<bar>12 * s - 10 * w\<bar> \<le> 12) [3, 0, 3, 4 :: int] [3, 0, 4, 5]"
proof -
  have eq: "distributeAmount 10 [3, 0, 4, 5] = Inr [3, 0, 3, 4]" by code_simp
  have am: "amount 10" "\<forall>w \<in> set [3, 0, 4, 5]. amount w"
    by (simp_all add: amount_def MAX_SAFE_INTEGER_def)
  show ?thesis using distributeAmount_exact [OF am] eq by fastforce
qed

text \<open>
  C9: A credit of source lines is cumulative. Every line of it belongs to a source line of
  its own with the requested quantity; the quantity credited so far stays within the source
  line; and the base and the entered amount credited so far, this credit included, are the
  proportional parts of the source line rounded once, so that partial credits never drift
  from the invoice however many there are.
\<close>

theorem calculateCreditInvoice_cumulative:
  assumes "calculateCreditInvoice lc sources prevs reqs = Inr c"
  shows "validSources sources \<and> distinct (map rq_sourceInvoiceLineId reqs) \<and>
    list_all2 (\<lambda>r l. \<exists>s \<in> set sources.
        src_id s = rq_sourceInvoiceLineId r \<and> 0 < rq_quantityHundredths r \<and>
        cl_quantityHundredths l = rq_quantityHundredths r \<and>
        (let p = creditedBefore prevs (src_id s);
             q = pt_quantityHundredths p + rq_quantityHundredths r in
         q \<le> src_quantityHundredths s \<and> creditLineOf s p q l)) reqs (ci_lines c)"
  using calculateCreditInvoice_facts(1-3) [OF assms]
  by (auto simp: creditedLine_def Let_def elim!: list_all2_mono)

lemma exampleCredit: "\<exists>c. calculateCreditInvoice compareCodes exampleSources [] exampleRequest = Inr c \<and>
    map cl_grossCents (ci_lines c) = [1799, 571]"
proof -
  have "(case calculateCreditInvoice compareCodes exampleSources [] exampleRequest of
      Inl _ \<Rightarrow> False | Inr c \<Rightarrow> map cl_grossCents (ci_lines c) = [1799, 571])"
    by code_simp
  then show ?thesis by (auto split: sum.splits)
qed

lemma calculateCreditInvoice_cumulative_witness:
  "\<exists>c. calculateCreditInvoice compareCodes exampleSources [] exampleRequest = Inr c \<and>
     map cl_grossCents (ci_lines c) = [1799, 571] \<and> validSources exampleSources"
proof -
  obtain c where c: "calculateCreditInvoice compareCodes exampleSources [] exampleRequest = Inr c"
    "map cl_grossCents (ci_lines c) = [1799, 571]"
    using exampleCredit by (elim exE conjE)
  have "validSources exampleSources" using calculateCreditInvoice_cumulative [OF c(1)] by (rule conjunct1)
  with c show ?thesis by (intro exI [of _ c] conjI)
qed

text \<open>
  C10: The tax of a credit is exact per VAT rate: for every rate of the credit, the tax of
  all earlier credits of the rate plus this one is the exact tax on the amount credited so
  far, rounded half up once. All lines have a positive quantity and non-negative amounts
  with net plus VAT equal to gross, whatever order localeCompare gives the lines.
\<close>

theorem calculateCreditInvoice_tax_exact:
  assumes "calculateCreditInvoice lc sources prevs reqs = Inr c"
  shows "(\<forall>l \<in> set (ci_lines c). validCreditLine l) \<and>
    (\<forall>l \<in> set (ci_lines c).
       let rate = cl_vatRateBasisPoints l;
           before = allocationsAt sources prevs rate;
           now = creditLinesAt rate (ci_lines c);
           net = (\<Sum>a\<leftarrow>before. pa_netCents a) + (\<Sum>l\<leftarrow>now. cl_netCents l);
           vat = (\<Sum>a\<leftarrow>before. pa_vatCents a) + (\<Sum>l\<leftarrow>now. cl_vatCents l);
           gross = (\<Sum>a\<leftarrow>before. pa_grossCents a) + (\<Sum>l\<leftarrow>now. cl_grossCents l) in
       case cl_priceInputMode l of
         Net \<Rightarrow> vat = rounded (net * rate) 10000
       | Gross \<Rightarrow> net = rounded (gross * 10000) (10000 + rate))"
  using calculateCreditInvoice_facts(4,5) [OF assms]
  by (fastforce simp: taxExactAt_def taxExact_def Let_def vatOfNet_def netOfGross_def
      split: PriceInputMode.splits)

lemma calculateCreditInvoice_tax_exact_witness:
  "\<exists>c. calculateCreditInvoice compareCodes exampleSources [] exampleRequest = Inr c \<and>
     map cl_grossCents (ci_lines c) = [1799, 571] \<and> (\<forall>l \<in> set (ci_lines c). validCreditLine l)"
proof -
  obtain c where c: "calculateCreditInvoice compareCodes exampleSources [] exampleRequest = Inr c"
    "map cl_grossCents (ci_lines c) = [1799, 571]"
    using exampleCredit by (elim exE conjE)
  have "\<forall>l \<in> set (ci_lines c). validCreditLine l" using calculateCreditInvoice_tax_exact [OF c(1)] by (rule conjunct1)
  with c show ?thesis by (intro exI [of _ c] conjI)
qed

text \<open>
  The totals of a credit are calculated exactly when every line is valid and the gross
  sum is in range, and are then the sums of the lines with one row per VAT rate in
  increasing order.
\<close>

theorem calculateCreditInvoiceTotals_correct:
  "calculateCreditInvoiceTotals lines = Inr t \<longleftrightarrow>
     (\<forall>l \<in> set lines. validCreditLine l) \<and> amount (\<Sum>l\<leftarrow>lines. cl_grossCents l) \<and>
     t = creditTotalsOf lines"
  by (rule calculateCreditInvoiceTotals_eq_Inr)

lemma calculateCreditInvoiceTotals_correct_witness:
  "validCreditLine
     \<lparr>cl_sourceInvoiceLineId = ''a'', cl_quantityHundredths = 100, cl_priceInputMode = Net,
      cl_vatRateBasisPoints = 1400, cl_baseCents = 50, cl_discountCents = 0, cl_netCents = 50,
      cl_vatCents = 7, cl_grossCents = 57\<rparr>"
proof -
  let ?l = "\<lparr>cl_sourceInvoiceLineId = ''a'', cl_quantityHundredths = 100, cl_priceInputMode = Net,
      cl_vatRateBasisPoints = 1400, cl_baseCents = 50, cl_discountCents = 0, cl_netCents = 50,
      cl_vatCents = 7, cl_grossCents = 57\<rparr>"
  have "succeeds (calculateCreditInvoiceTotals [?l])" by code_simp
  then obtain t where "calculateCreditInvoiceTotals [?l] = Inr t" by (auto simp: succeeds_iff)
  then have "\<forall>l \<in> set [?l]. validCreditLine l"
    unfolding calculateCreditInvoiceTotals_correct by (elim conjE)
  then show ?thesis by simp
qed

text \<open>
  C12: A credit draft never credits more than the invoice: for the VAT rate of each of its
  lines, source lines and freely entered lines of this draft and of all earlier credits
  together stay within the net, VAT and gross amount the invoice has at that rate, which is
  the tax calculation on the sum of the source lines.
\<close>

theorem calculateCreditInvoiceDraft_within_invoice:
  assumes "calculateCreditInvoiceDraft lc sources prevs rs rm = Inr d"
  shows "cd_lines d \<noteq> [] \<and>
    (\<forall>l \<in> set (cd_lines d).
       let k = dl_vatRateBasisPoints l; all = prevs @ map asAllocation (cd_lines d);
           c = capacityAt sources k (dl_priceInputMode l) in
       netAt all k \<le> vc_netCents c \<and> vatAt all k \<le> vc_vatCents c \<and>
       grossAt all k \<le> vc_grossCents c)"
  using calculateCreditInvoiceDraft_capacity [OF assms] calculateCreditInvoiceDraft_facts(7) [OF assms]
  by (simp add: Let_def)

lemma exampleDraft:
  "\<exists>d. calculateCreditInvoiceDraft compareCodes exampleSources [] exampleRequest exampleManual = Inr d \<and>
     map dl_grossCents (cd_lines d) = [1799, 571, 57]"
proof -
  have "(case calculateCreditInvoiceDraft compareCodes exampleSources [] exampleRequest exampleManual of
      Inl _ \<Rightarrow> False | Inr d \<Rightarrow> map dl_grossCents (cd_lines d) = [1799, 571, 57])"
    by code_simp
  then show ?thesis by (auto split: sum.splits)
qed

lemma calculateCreditInvoiceDraft_within_invoice_witness:
  "\<exists>d. calculateCreditInvoiceDraft compareCodes exampleSources [] exampleRequest exampleManual = Inr d \<and>
     map dl_grossCents (cd_lines d) = [1799, 571, 57] \<and>
     (\<forall>l \<in> set (cd_lines d).
       let k = dl_vatRateBasisPoints l; all = [] @ map asAllocation (cd_lines d);
           c = capacityAt exampleSources k (dl_priceInputMode l) in
       netAt all k \<le> vc_netCents c \<and> vatAt all k \<le> vc_vatCents c \<and>
       grossAt all k \<le> vc_grossCents c)"
proof -
  obtain d where d: "calculateCreditInvoiceDraft compareCodes exampleSources [] exampleRequest
      exampleManual = Inr d" "map dl_grossCents (cd_lines d) = [1799, 571, 57]"
    using exampleDraft by (elim exE conjE)
  note calculateCreditInvoiceDraft_within_invoice [OF d(1), THEN conjunct2]
  with d show ?thesis by (intro exI [of _ d] conjI)
qed

text \<open>
  C13: The result of a credit draft reconciles: its totals are the sums of its lines with
  one row per VAT rate in increasing order, net plus VAT is gross, and for the rate of every
  line the tax credited so far is the exact tax on the amount credited so far, rounded once.
\<close>

theorem calculateCreditInvoiceDraft_reconciles:
  assumes "calculateCreditInvoiceDraft lc sources prevs rs rm = Inr d"
  shows "cd_totals d = draftTotals (cd_lines d) \<and>
    netTotalCents (cd_totals d) + vatTotalCents (cd_totals d) = grossTotalCents (cd_totals d) \<and>
    (\<forall>l \<in> set (cd_lines d). draftLineAmounts l) \<and>
    (\<forall>l \<in> set (cd_lines d).
       let k = dl_vatRateBasisPoints l; all = prevs @ map asAllocation (cd_lines d) in
       exactTax (dl_priceInputMode l) k (netAt all k) (vatAt all k) (grossAt all k))"
  using calculateCreditInvoiceDraft_facts(2,4,5,6) [OF assms] by (simp add: Let_def)

lemma calculateCreditInvoiceDraft_reconciles_witness:
  "\<exists>d. calculateCreditInvoiceDraft compareCodes exampleSources [] exampleRequest exampleManual = Inr d \<and>
     map dl_grossCents (cd_lines d) = [1799, 571, 57] \<and> cd_totals d = draftTotals (cd_lines d)"
proof -
  obtain d where d: "calculateCreditInvoiceDraft compareCodes exampleSources [] exampleRequest
      exampleManual = Inr d" "map dl_grossCents (cd_lines d) = [1799, 571, 57]"
    using exampleDraft by (elim exE conjE)
  note calculateCreditInvoiceDraft_reconciles [OF d(1), THEN conjunct1]
  with d show ?thesis by (intro exI [of _ d] conjI)
qed

text \<open>
  The amounts that remain to be credited are calculated exactly when the invoice and
  all earlier credits are valid and within its capacity per VAT rate and the remaining sums
  are in range; they are then, per rate in increasing order, the capacity minus everything
  credited.
\<close>

theorem calculateRemainingCreditTotals_correct:
  "calculateRemainingCreditTotals sources as = Inr t \<longleftrightarrow>
     (\<exists>caps. createVatCapacities sources = Inr caps \<and>
        (\<forall>a \<in> set as. validAllocation (putAll src_id sources []) caps a) \<and> withinCapacity as caps \<and>
        amount (\<Sum>b\<leftarrow>remainingRows caps as. bd_netCents b) \<and>
        amount (\<Sum>b\<leftarrow>remainingRows caps as. bd_vatCents b) \<and>
        amount (\<Sum>b\<leftarrow>remainingRows caps as. bd_grossCents b) \<and>
        t = totalsOfRows (remainingRows caps as))"
  by (rule calculateRemainingCreditTotals_eq_Inr)

lemma calculateRemainingCreditTotals_correct_witness:
  "\<exists>caps. createVatCapacities exampleSources = Inr caps \<and>
     amount (\<Sum>b\<leftarrow>remainingRows caps []. bd_grossCents b)"
proof -
  have "succeeds (calculateRemainingCreditTotals exampleSources [])" by code_simp
  then obtain t where "calculateRemainingCreditTotals exampleSources [] = Inr t"
    by (auto simp: succeeds_iff)
  then show ?thesis unfolding calculateRemainingCreditTotals_correct by (elim exE conjE) (intro exI conjI)
qed

text \<open>
  C15: Conservation over any history: whatever credit drafts are accepted and stored one
  after the other, the remaining amounts of the invoice stay defined, and together with
  everything credited they are the amounts of the invoice, in net, VAT and gross.
\<close>

theorem creditHistory_conserves:
  assumes "creditHistory lc sources prevs"
    and "calculateRemainingCreditTotals sources [] = Inr t0"
  shows "\<exists>t. calculateRemainingCreditTotals sources prevs = Inr t \<and>
    netTotalCents t + (\<Sum>a\<leftarrow>prevs. pca_netCents a) = netTotalCents t0 \<and>
    vatTotalCents t + (\<Sum>a\<leftarrow>prevs. pca_vatCents a) = vatTotalCents t0 \<and>
    grossTotalCents t + (\<Sum>a\<leftarrow>prevs. pca_grossCents a) = grossTotalCents t0"
  by (rule creditHistory_remaining [OF assms])

lemma creditHistory_conserves_witness:
  "\<exists>prevs t. map pca_grossCents prevs = [1799, 571, 57] \<and>
     calculateRemainingCreditTotals exampleSources prevs = Inr t \<and>
     grossTotalCents t + (\<Sum>a\<leftarrow>prevs. pca_grossCents a) = 6538"
proof -
  obtain d where d: "calculateCreditInvoiceDraft compareCodes exampleSources [] exampleRequest
      exampleManual = Inr d" "map dl_grossCents (cd_lines d) = [1799, 571, 57]"
    using exampleDraft by (elim exE conjE)
  let ?as = "[] @ map asAllocation (cd_lines d)"
  have h: "creditHistory compareCodes exampleSources ?as"
    by (rule creditHistory.credit [OF creditHistory.no_credit d(1)])
  have "(case calculateRemainingCreditTotals exampleSources [] of Inl _ \<Rightarrow> False
      | Inr t \<Rightarrow> grossTotalCents t = 6538)" by code_simp
  then obtain t0 where t0: "calculateRemainingCreditTotals exampleSources [] = Inr t0"
    "grossTotalCents t0 = 6538" by (auto split: sum.splits)
  have "map pca_grossCents ?as = [1799, 571, 57]" using d(2) by (simp add: comp_def)
  with creditHistory_conserves [OF h t0(1)] t0(2) show ?thesis by metis
qed

section \<open>Reverse-charge credit notes\<close>

definition exampleSourcesRC :: "ReverseChargeCreditSourceLine list" where
  "exampleSourcesRC =
     [\<lparr>rcs_id = ''line-a'', rcs_lineOrder = 1, rcs_quantityHundredths = 300,
       rcs_priceInputMode = Net, rcs_vatRateBasisPoints = None, rcs_baseCents = 1000,
       rcs_discountCents = 100, rcs_netCents = 900, rcs_vatCents = 0, rcs_grossCents = 900\<rparr>]"

definition exampleRequestRC :: "RequestedCreditLine list" where
  "exampleRequestRC = [\<lparr>rq_sourceInvoiceLineId = ''line-a'', rq_quantityHundredths = 100\<rparr>]"

definition exampleManualRC :: "RequestedReverseChargeManualCreditLine list" where
  "exampleManualRC =
     [\<lparr>rrm_lineKey = ''manual'', rrm_quantityHundredths = 100, rrm_unitPriceCents = 50\<rparr>]"

lemma exampleDraftRC:
  "\<exists>d. calculateReverseChargeCreditInvoiceDraft exampleSourcesRC [] exampleRequestRC exampleManualRC =
     Inr d \<and> map dl_netCents (cd_lines d) = [300, 50]"
proof -
  have "(case calculateReverseChargeCreditInvoiceDraft exampleSourcesRC [] exampleRequestRC
      exampleManualRC of
      Inl _ \<Rightarrow> False | Inr d \<Rightarrow> map dl_netCents (cd_lines d) = [300, 50])"
    by code_simp
  then show ?thesis by (auto split: sum.splits)
qed

text \<open>
  C16: A reverse-charge credit draft carries no VAT on any line and credits at most the net
  sum of the invoice: its lines are the cumulative credits of distinct source lines followed
  by the freely entered lines, its totals are the net sum of the lines, and with all earlier
  credits they stay within the invoice.
\<close>

theorem calculateReverseChargeCreditInvoiceDraft_correct:
  assumes "calculateReverseChargeCreditInvoiceDraft sources prevs rs rm = Inr d"
  shows "(\<exists>src man. cd_lines d = src @ man \<and>
      list_all2 (creditedLineRC (putAll rcs_id sources []) prevs) rs src \<and>
      distinct (map rq_sourceInvoiceLineId rs) \<and>
      map dl_quantityHundredths man = map rrm_quantityHundredths rm) \<and>
    (\<forall>l \<in> set (cd_lines d). draftLineRC l) \<and>
    netTotalCents (cd_totals d) = (\<Sum>l\<leftarrow>cd_lines d. dl_netCents l) \<and>
    grossTotalCents (cd_totals d) = netTotalCents (cd_totals d) \<and> vatTotalCents (cd_totals d) = 0 \<and>
    (\<Sum>a\<leftarrow>prevs. rca_netCents a) + netTotalCents (cd_totals d) \<le> (\<Sum>s\<leftarrow>sources. rcs_netCents s)"
proof -
  note facts = calculateReverseChargeCreditInvoiceDraft_facts [OF assms]
  have "netTotalCents (cd_totals d) = (\<Sum>l\<leftarrow>cd_lines d. dl_netCents l) \<and>
      grossTotalCents (cd_totals d) = netTotalCents (cd_totals d) \<and> vatTotalCents (cd_totals d) = 0"
    unfolding facts(7) by (simp add: Let_def)
  with facts(5,6,9) show ?thesis by blast
qed

lemma calculateReverseChargeCreditInvoiceDraft_correct_witness:
  "\<exists>d. calculateReverseChargeCreditInvoiceDraft exampleSourcesRC [] exampleRequestRC exampleManualRC =
     Inr d \<and> map dl_netCents (cd_lines d) = [300, 50] \<and> netTotalCents (cd_totals d) = 350"
proof -
  obtain d where d: "calculateReverseChargeCreditInvoiceDraft exampleSourcesRC [] exampleRequestRC
      exampleManualRC = Inr d" "map dl_netCents (cd_lines d) = [300, 50]"
    using exampleDraftRC by (elim exE conjE)
  have "netTotalCents (cd_totals d) = (\<Sum>l\<leftarrow>cd_lines d. dl_netCents l)"
    using calculateReverseChargeCreditInvoiceDraft_correct [OF d(1)] by (elim conjE)
  then have "netTotalCents (cd_totals d) = 350" unfolding d(2) by simp
  with d show ?thesis by (intro exI [of _ d] conjI)
qed

text \<open>
  C17: Storing an accepted reverse-charge credit draft keeps the remaining amount of the
  invoice defined and lowers it by exactly the total of the draft. The freely entered lines
  have positive quantities, as the request parsing of the HTTP layer ensures.
\<close>

theorem calculateRemainingReverseChargeCreditTotals_conserves:
  assumes "calculateRemainingReverseChargeCreditTotals sources prevs = Inr t"
    and "calculateReverseChargeCreditInvoiceDraft sources prevs rs rm = Inr d"
    and "\<forall>m \<in> set rm. 0 < rrm_quantityHundredths m"
  shows "\<exists>t'. calculateRemainingReverseChargeCreditTotals sources
      (prevs @ map asAllocationRC (cd_lines d)) = Inr t' \<and>
    netTotalCents t' = netTotalCents t - netTotalCents (cd_totals d) \<and>
    grossTotalCents t' = grossTotalCents t - grossTotalCents (cd_totals d)"
  by (rule calculateRemainingRC_after [OF assms])

lemma calculateRemainingReverseChargeCreditTotals_conserves_witness:
  "\<exists>as t'. map rca_netCents as = [300, 50] \<and>
     calculateRemainingReverseChargeCreditTotals exampleSourcesRC as = Inr t'"
proof -
  obtain d where d: "calculateReverseChargeCreditInvoiceDraft exampleSourcesRC [] exampleRequestRC
      exampleManualRC = Inr d" "map dl_netCents (cd_lines d) = [300, 50]"
    using exampleDraftRC by (elim exE conjE)
  have "succeeds (calculateRemainingReverseChargeCreditTotals exampleSourcesRC [])" by code_simp
  then obtain t where t: "calculateRemainingReverseChargeCreditTotals exampleSourcesRC [] = Inr t"
    by (auto simp: succeeds_iff)
  have pos: "\<forall>m \<in> set exampleManualRC. 0 < rrm_quantityHundredths m" by code_simp
  have "map rca_netCents ([] @ map asAllocationRC (cd_lines d)) = [300, 50]"
    using d(2) by (simp add: asAllocationRC_def comp_def)
  with calculateRemainingReverseChargeCreditTotals_conserves [OF t d(1) pos] show ?thesis by metis
qed

section \<open>Divergences\<close>

text \<open>
  C18: A reverse-charge invoice with a line of quantity zero, which the calculation of such
  invoices accepts, can never be credited, and its remaining amount is an error: the
  validation of the source lines refuses the zero quantity whatever lines are requested. An
  invoice with normal VAT skips such lines instead.
\<close>

theorem reverseCharge_zero_quantity_not_creditable:
  assumes "s \<in> set sources" and "rcs_quantityHundredths s = 0"
  shows "(\<exists>e. calculateRemainingReverseChargeCreditTotals sources prevs = Inl e) \<and>
    (\<exists>e. calculateReverseChargeCreditInvoiceDraft sources prevs rs rm = Inl e)"
proof -
  have "\<not> validSourceRC s" using assms(2) by (simp add: validSourceRC_def)
  then have no: "\<not> (\<forall>s \<in> set sources. validSourceRC s)" using assms(1) by blast
  have "calculateRemainingReverseChargeCreditTotals sources prevs \<noteq> Inr t" for t
    using no unfolding calculateRemainingRC_eq_Inr by blast
  moreover have "calculateReverseChargeCreditInvoiceDraft sources prevs rs rm \<noteq> Inr d" for d
    using no calculateReverseChargeCreditInvoiceDraft_facts(1) by blast
  ultimately show ?thesis by (meson sum.exhaust)
qed

lemma reverseCharge_zero_quantity_not_creditable_witness:
  "(\<exists>calc. calculateReverseChargeInvoice
      [\<lparr>quantityHundredths = 0, unitPriceCents = 1000, discount = NoDiscount, rc_priceInputMode = Net\<rparr>]
      = Inr calc) \<and>
   (\<exists>e. calculateReverseChargeCreditInvoiceDraft
      [\<lparr>rcs_id = ''a'', rcs_lineOrder = 1, rcs_quantityHundredths = 0, rcs_priceInputMode = Net,
        rcs_vatRateBasisPoints = None, rcs_baseCents = 0, rcs_discountCents = 0, rcs_netCents = 0,
        rcs_vatCents = 0, rcs_grossCents = 0\<rparr>] [] [] exampleManualRC = Inl e)"
proof -
  let ?s = "\<lparr>rcs_id = ''a'', rcs_lineOrder = 1, rcs_quantityHundredths = 0, rcs_priceInputMode = Net,
        rcs_vatRateBasisPoints = None, rcs_baseCents = 0, rcs_discountCents = 0, rcs_netCents = 0,
        rcs_vatCents = 0, rcs_grossCents = 0\<rparr>"
  have "succeeds (calculateReverseChargeInvoice
      [\<lparr>quantityHundredths = 0, unitPriceCents = 1000, discount = NoDiscount, rc_priceInputMode = Net\<rparr>])"
    by code_simp
  moreover have "?s \<in> set [?s]" "rcs_quantityHundredths ?s = 0" by simp_all
  note reverseCharge_zero_quantity_not_creditable [OF this, of "[]" "[]" exampleManualRC, THEN conjunct2]
  ultimately show ?thesis unfolding succeeds_iff by (intro conjI)
qed

definition mixedSources :: "CreditSourceLine list" where
  "mixedSources =
     [\<lparr>src_id = ''a'', src_lineOrder = 1, src_quantityHundredths = 1000, src_priceInputMode = Net,
       src_vatRateBasisPoints = 1000, src_baseCents = 10, src_discountCents = 0, src_netCents = 10,
       src_vatCents = 1, src_grossCents = 11\<rparr>]"

definition mixedHistory :: "PreviousCreditAllocation list" where
  "mixedHistory =
     (case calculateCreditInvoiceDraft compareCodes mixedSources []
        [\<lparr>rq_sourceInvoiceLineId = ''a'', rq_quantityHundredths = 300\<rparr>]
        [\<lparr>rm_lineKey = ''m'', rm_quantityHundredths = 200, rm_unitPriceCents = 1,
          rm_vatRateBasisPoints = 1000\<rparr>] of
      Inl _ \<Rightarrow> [] | Inr d \<Rightarrow> map asAllocation (cd_lines d))"

text \<open>
  An example: after a credit that mixed a source line and a freely entered line of the same VAT
  rate, a later credit of the source line alone can be refused although quantity and amounts
  remain: the tax of the earlier source line was split together with the freely entered
  line, and the check against the source lines alone finds more tax than it expects. A
  freely entered line of the same amount is accepted in its place.
\<close>

theorem mixed_credit_blocks_source_line:
  "map pca_grossCents mixedHistory = [4, 2] \<and>
   calculateCreditInvoiceDraft compareCodes mixedSources mixedHistory
     [\<lparr>rq_sourceInvoiceLineId = ''a'', rq_quantityHundredths = 100\<rparr>] [] =
     Inl (InvoiceCreditError ''Previous credits exceed the cumulative credit allocation.'') \<and>
   succeeds (calculateCreditInvoiceDraft compareCodes mixedSources mixedHistory []
     [\<lparr>rm_lineKey = ''m'', rm_quantityHundredths = 100, rm_unitPriceCents = 1,
       rm_vatRateBasisPoints = 1000\<rparr>])"
proof (intro conjI)
  show "map pca_grossCents mixedHistory = [4, 2]" by code_simp
  show "calculateCreditInvoiceDraft compareCodes mixedSources mixedHistory
     [\<lparr>rq_sourceInvoiceLineId = ''a'', rq_quantityHundredths = 100\<rparr>] [] =
     Inl (InvoiceCreditError ''Previous credits exceed the cumulative credit allocation.'')"
    by code_simp
  show "succeeds (calculateCreditInvoiceDraft compareCodes mixedSources mixedHistory []
     [\<lparr>rm_lineKey = ''m'', rm_quantityHundredths = 100, rm_unitPriceCents = 1,
       rm_vatRateBasisPoints = 1000\<rparr>])"
    by code_simp
qed

end
